(* ===== verification/Nexus_Prelude.thy ===== *)
theory Nexus_Prelude
  imports Complex_Main "HOL-Library.AList"
begin

text \<open>
  Shared vocabulary of the development: the result type of the modelled code, the sequencing
  combinators, JavaScript truthiness, and the JavaScript \<open>Map\<close> as an insertion-ordered
  association list. The lemmas here are the hints the component theories use through the
  collections \<open>res_simps\<close> (results) and \<open>jsmap_simps\<close> (maps).
\<close>

named_theorems res_simps
named_theorems jsmap_simps

section \<open>Results\<close>

text \<open>
  A computation of the modelled code either does not return (\<open>None\<close>: a \<open>while\<close> loop that
  runs forever), throws (\<open>Inl e\<close>) or returns a value (\<open>Inr x\<close>). A thrown error discards the
  state the computation had reached, as the code does: \<open>execute\<close> lets every error out and the
  caller drops the context.
\<close>

type_synonym ('e, 'a) res = "('e + 'a) option"

definition ret :: "'a \<Rightarrow> ('e, 'a) res" where
  "ret x = Some (Inr x)"

definition throw :: "'e \<Rightarrow> ('e, 'a) res" where
  "throw e = Some (Inl e)"

definition rbind :: "('e, 'a) res \<Rightarrow> ('a \<Rightarrow> ('e, 'b) res) \<Rightarrow> ('e, 'b) res" where
  "rbind m f = (case m of None \<Rightarrow> None | Some (Inl e) \<Rightarrow> Some (Inl e) | Some (Inr x) \<Rightarrow> f x)"

text \<open>A \<open>for ... of\<close> loop whose body may throw.\<close>

fun rfold :: "('x \<Rightarrow> 's \<Rightarrow> ('e, 's) res) \<Rightarrow> 'x list \<Rightarrow> 's \<Rightarrow> ('e, 's) res" where
  "rfold f [] s = ret s"
| "rfold f (x # xs) s = rbind (f x s) (rfold f xs)"

lemma ret_ok [simp, res_simps]: "ret x = Some (Inr y) \<longleftrightarrow> x = y"
  by (simp add: ret_def)

lemma ret_not_none [simp]: "ret x \<noteq> None"
  by (simp add: ret_def)

lemma ret_not_err [simp]: "ret x \<noteq> Some (Inl e)"
  by (simp add: ret_def)

lemma throw_not_ok [simp, res_simps]: "throw e \<noteq> Some (Inr y)"
  by (simp add: throw_def)

lemma throw_not_none [simp]: "throw e \<noteq> None"
  by (simp add: throw_def)

lemma throw_err [simp]: "throw e = Some (Inl e') \<longleftrightarrow> e = e'"
  by (simp add: throw_def)

lemma rbind_ok [res_simps]:
  "rbind m f = Some (Inr y) \<longleftrightarrow> (\<exists>x. m = Some (Inr x) \<and> f x = Some (Inr y))"
  by (auto simp: rbind_def split: option.splits sum.splits)

lemma rbind_none:
  "rbind m f = None \<longleftrightarrow> m = None \<or> (\<exists>x. m = Some (Inr x) \<and> f x = None)"
  by (auto simp: rbind_def split: option.splits sum.splits)

lemma rbind_ret [simp]: "rbind (ret x) f = f x"
  by (simp add: rbind_def ret_def)

lemma rbind_inr [simp]: "rbind (Some (Inr x)) f = f x"
  by (simp add: rbind_def)

lemma rbind_inl [simp]: "rbind (Some (Inl e)) f = Some (Inl e)"
  by (simp add: rbind_def)

lemma rbind_throw [simp]: "rbind (throw e) f = throw e"
  by (simp add: rbind_def throw_def)

lemma rbind_okE:
  assumes "rbind m f = Some (Inr y)"
  obtains x where "m = Some (Inr x)" "f x = Some (Inr y)"
  using assms by (auto simp: res_simps)

text \<open>The invariant rule of a throwing loop: what one round keeps, the loop keeps.\<close>

lemma rfold_invariant:
  assumes "rfold f xs s = Some (Inr s')" and "P s"
    and "\<And>x t t'. x \<in> set xs \<Longrightarrow> P t \<Longrightarrow> f x t = Some (Inr t') \<Longrightarrow> P t'"
  shows "P s'"
  using assms
proof (induction xs arbitrary: s)
  case Nil
  then show ?case by simp
next
  case (Cons x xs)
  from Cons.prems(1) obtain t where t: "f x s = Some (Inr t)" "rfold f xs t = Some (Inr s')"
    by (auto simp: res_simps)
  from Cons.prems(2,3) t(1) have "P t" by auto
  with Cons.IH t(2) Cons.prems(3) show ?case by auto
qed

lemma rfold_append:
  "rfold f (xs @ ys) s = rbind (rfold f xs s) (rfold f ys)"
  by (induction xs arbitrary: s) (auto simp: rbind_def ret_def split: option.splits sum.splits)

lemma rfold_returns:
  assumes "\<And>x s. x \<in> set xs \<Longrightarrow> P s \<Longrightarrow> \<exists>r. f x s = Some r"
    and "\<And>x s s'. x \<in> set xs \<Longrightarrow> P s \<Longrightarrow> f x s = Some (Inr s') \<Longrightarrow> P s'"
    and "P s"
  shows "\<exists>r. rfold f xs s = Some r"
  using assms
proof (induction xs arbitrary: s)
  case Nil
  then show ?case by (simp add: ret_def)
next
  case (Cons x xs)
  from Cons.prems(1)[of x s] Cons.prems(3) obtain r where r: "f x s = Some r" by auto
  show ?case
  proof (cases r)
    case (Inl e)
    with r show ?thesis by simp
  next
    case (Inr t)
    with r Cons.prems(2)[of x s t] Cons.prems(3) have "P t" by simp
    have "\<exists>r. rfold f xs t = Some r"
    proof (rule Cons.IH)
      show "\<And>y u. y \<in> set xs \<Longrightarrow> P u \<Longrightarrow> \<exists>r. f y u = Some r"
        using Cons.prems(1) by simp
      show "\<And>y u u'. y \<in> set xs \<Longrightarrow> P u \<Longrightarrow> f y u = Some (Inr u') \<Longrightarrow> P u'"
        using Cons.prems(2) by (meson list.set_intros(2))
    qed fact
    with r Inr show ?thesis by simp
  qed
qed

section \<open>JavaScript truthiness of optional strings\<close>

text \<open>
  An optional string field is falsy when it is missing and when it is the empty string. Guards
  such as \<open>if (token.parentTokenId)\<close> test this, not presence.
\<close>

definition truthy :: "string option \<Rightarrow> bool" where
  "truthy s = (case s of None \<Rightarrow> False | Some x \<Rightarrow> x \<noteq> [])"

lemma truthy_Some: "truthy s \<Longrightarrow> \<exists>x. s = Some x \<and> x \<noteq> []"
  by (auto simp: truthy_def split: option.splits)

lemma truthy_simps [simp]: "\<not> truthy None" "truthy (Some x) \<longleftrightarrow> x \<noteq> []"
  by (simp_all add: truthy_def)

section \<open>JavaScript maps\<close>

text \<open>
  \<open>Map.prototype.set\<close> keeps the position of an existing key and appends a new one, which is
  \<open>AList.update\<close>; \<open>delete\<close> is \<open>AList.delete\<close> and \<open>get\<close> is \<open>map_of\<close>. The constructor
  applied to a list of keyed values sets them one after the other.
\<close>

definition map_values :: "('k \<times> 'v) list \<Rightarrow> 'v list" where
  "map_values m = map snd m"

definition map_from :: "('v \<Rightarrow> 'k) \<Rightarrow> 'v list \<Rightarrow> ('k \<times> 'v) list" where
  "map_from key xs = fold (\<lambda>x m. AList.update (key x) x m) xs []"

text \<open>\<open>Object.assign(result, vars)\<close> and object spread: the later source wins.\<close>

definition assign :: "('k \<times> 'v) list \<Rightarrow> ('k \<times> 'v) list \<Rightarrow> ('k \<times> 'v) list" where
  "assign m vs = fold (\<lambda>(k, v) m. AList.update k v m) vs m"

lemma map_of_update [jsmap_simps]: "map_of (AList.update k v m) = (map_of m)(k \<mapsto> v)"
  by (rule ext) (simp add: update_conv)

lemma map_of_delete [jsmap_simps]: "map_of (AList.delete k m) = (map_of m)(k := None)"
  by (rule ext) (simp add: delete_conv)

lemma keys_update [jsmap_simps]:
  "map fst (AList.update k v m) = (if k \<in> fst ` set m then map fst m else map fst m @ [k])"
  by (induction m) auto

lemma update_fresh: "k \<notin> fst ` set m \<Longrightarrow> AList.update k v m = m @ [(k, v)]"
  by (induction m) auto

lemma set_update_distinct:
  "distinct (map fst m) \<Longrightarrow>
    set (AList.update k v m) = {(k', v'). (k', v') \<in> set m \<and> k' \<noteq> k} \<union> {(k, v)}"
  by (induction m) (force split: if_splits)+

lemma in_set_update: "p \<in> set (AList.update k v m) \<Longrightarrow> p = (k, v) \<or> p \<in> set m"
  by (induction m) (auto split: if_splits)

lemma map_of_assign: "map_of (assign m vs) = map_of m ++ map_of (rev vs)"
proof (induction vs arbitrary: m)
  case Nil
  then show ?case by (simp add: assign_def)
next
  case (Cons p vs)
  obtain k v where p: "p = (k, v)" by (cases p)
  have "map_of (assign m (p # vs)) = map_of (assign (AList.update k v m) vs)"
    by (simp add: assign_def p)
  also have "\<dots> = map_of (AList.update k v m) ++ map_of (rev vs)" by (rule Cons.IH)
  finally show ?case
    by (simp add: p jsmap_simps map_add_def fun_eq_iff split: option.splits)
qed

lemma map_from_distinct:
  assumes "distinct (map key xs)"
  shows "map_from key xs = map (\<lambda>x. (key x, x)) xs"
proof -
  have "distinct (map key xs) \<Longrightarrow> fst ` set m \<inter> key ` set xs = {} \<Longrightarrow>
      fold (\<lambda>x m. AList.update (key x) x m) xs m = m @ map (\<lambda>x. (key x, x)) xs" for m
    by (induction xs arbitrary: m) (auto simp: update_fresh)
  from this[of "[]"] assms show ?thesis by (simp add: map_from_def)
qed

lemma map_values_distinct:
  "map_values (map (\<lambda>x. (key x, x)) xs) = xs"
  by (simp add: map_values_def comp_def)

lemma map_of_some_key: "map_of m k = Some v \<Longrightarrow> k \<in> fst ` set m"
  by (metis map_of_eq_None_iff option.distinct(1))

lemma distinct_keys_unique:
  "distinct (map fst m) \<Longrightarrow> (k, v) \<in> set m \<Longrightarrow> map_of m k = Some v"
  by simp

section \<open>JavaScript sets\<close>

text \<open>A \<open>Set\<close> iterates in insertion order and ignores a value it already holds.\<close>

definition set_add :: "'a \<Rightarrow> 'a list \<Rightarrow> 'a list" where
  "set_add x xs = (if x \<in> set xs then xs else xs @ [x])"

definition set_from :: "'a list \<Rightarrow> 'a list" where
  "set_from xs = fold set_add xs []"

lemma set_set_add [simp]: "set (set_add x xs) = insert x (set xs)"
  by (auto simp: set_add_def)

lemma distinct_set_add [simp]: "distinct xs \<Longrightarrow> distinct (set_add x xs)"
  by (simp add: set_add_def)

lemma set_from_snoc: "set_from (xs @ [x]) = set_add x (set_from xs)"
  by (simp add: set_from_def)

lemma set_set_from [simp]: "set (set_from xs) = set xs"
  by (induction xs rule: rev_induct) (simp_all add: set_from_snoc, simp add: set_from_def)

lemma distinct_set_from [simp]: "distinct (set_from xs)"
  by (induction xs rule: rev_induct) (simp_all add: set_from_snoc, simp add: set_from_def)

lemma set_from_distinct: "distinct xs \<Longrightarrow> set_from xs = xs"
  by (induction xs rule: rev_induct) (simp_all add: set_from_snoc set_add_def, simp add: set_from_def)

lemma length_set_from: "length (set_from xs) = card (set xs)"
  by (metis distinct_card distinct_set_from set_set_from)

end
