(* ===== verification/Model_Types.thy ===== *)
theory Model_Types
  imports Nexus_Prelude
begin

text \<open>
  The data model of \<open>nexus-workflow-core\<close>: \<open>src/model/types.ts\<close> (variables, tokens,
  instances, join states, tasks, subscriptions, timers, BPMN definitions),
  \<open>src/interfaces/EventBus.ts\<close> (execution events) and \<open>src/model/errors.ts\<close>. An interface
  is a record, a string-literal union a datatype, an optional field an \<open>option\<close>, a \<open>Date\<close> its
  millisecond timestamp. Record fields carry a prefix for their record (\<open>tk_\<close> for \<open>Token\<close>),
  since HOL field names are global.
\<close>

section \<open>Values and variables\<close>

text \<open>The values a variable or an expression can have (\<open>unknown\<close> in the source).\<close>

datatype js_number = NotANumber | Infinite bool | Finite rat

datatype jsval =
    JUndefined
  | JNull
  | JBool bool
  | JNumber js_number
  | JString string
  | JArray "jsval list"
  | JObject "(string \<times> jsval) list"

text \<open>\<open>Boolean(v)\<close>.\<close>

fun to_boolean :: "jsval \<Rightarrow> bool" where
  "to_boolean JUndefined = False"
| "to_boolean JNull = False"
| "to_boolean (JBool b) = b"
| "to_boolean (JNumber NotANumber) = False"
| "to_boolean (JNumber (Infinite _)) = True"
| "to_boolean (JNumber (Finite q)) = (q \<noteq> 0)"
| "to_boolean (JString s) = (s \<noteq> [])"
| "to_boolean (JArray _) = True"
| "to_boolean (JObject _) = True"

datatype variable_type = VString | VNumber | VBoolean | VObject | VArray | VNull

record variable_value =
  vv_type :: variable_type
  vv_value :: jsval

type_synonym variables = "(string \<times> variable_value) list"

record variable_scope =
  vs_id :: string
  vs_parentScopeId :: "string option"
  vs_variables :: variables

section \<open>Elements of a process definition\<close>

datatype bpmn_element_type =
    StartEventT | EndEventT | IntermediateCatchEventT | IntermediateThrowEventT | BoundaryEventT
  | ServiceTaskT | UserTaskT | ScriptTaskT | ManualTaskT | CallActivityT
  | ExclusiveGatewayT | ParallelGatewayT | InclusiveGatewayT | EventBasedGatewayT
  | SubProcessT
  | SequenceFlowT

datatype event_definition_type =
    NoneEvent | TimerEvent | MessageEvent | SignalEvent | ErrorEvent | TerminateEvent
  | CompensationEvent | CancelEvent | EscalationEvent | ConditionalEvent | LinkEvent

record event_definition =
  ed_type :: event_definition_type
  ed_timerExpression :: "string option"
  ed_messageName :: "string option"
  ed_signalName :: "string option"
  ed_errorCode :: "string option"
  ed_linkName :: "string option"
  ed_compensationActivityRef :: "string option"

record sequence_flow =
  sf_id :: string
  sf_sourceRef :: string
  sf_targetRef :: string
  sf_conditionExpression :: "string option"
  sf_isDefault :: "bool option"

record element_base =
  eb_id :: string
  eb_name :: "string option"
  eb_incomingFlows :: "string list"
  eb_outgoingFlows :: "string list"

datatype input_type = InString | InNumber | InBoolean

record process_input =
  in_name :: string
  in_hint :: "string option"
  in_type :: "input_type option"

record loop_characteristics =
  lc_isSequential :: bool
  lc_inputCollection :: string
  lc_inputElement :: "string option"
  lc_outputElement :: "string option"
  lc_outputCollection :: "string option"
  lc_completionCondition :: "string option"

record variable_mapping =
  vm_source :: string
  vm_target :: string
  vm_expression :: "string option"

record retry_config =
  rc_maxRetries :: int
  rc_retryDelay :: int
  rc_backoffFactor :: "rat option"

text \<open>What a task kind has beside the base fields.\<close>

record task_common =
  tc_loopCharacteristics :: "loop_characteristics option"
  tc_isForCompensation :: "bool option"

record service_task_attrs =
  sv_taskType :: "string option"
  sv_inputMappings :: "variable_mapping list option"
  sv_outputMappings :: "variable_mapping list option"
  sv_retryConfig :: "retry_config option"

record user_task_attrs =
  ut_assignee :: "string option"
  ut_candidateGroups :: "string list option"
  ut_dueDate :: "string option"
  ut_priority :: "int option"
  ut_formKey :: "string option"

record script_task_attrs =
  st_scriptLanguage :: string
  st_script :: string

record call_activity_attrs =
  ca_calledElement :: string
  ca_calledElementVersion :: "int option"
  ca_inputMappings :: "variable_mapping list option"
  ca_outputMappings :: "variable_mapping list option"

datatype gateway_kind = Exclusive | Parallel | Inclusive | EventBased

text \<open>\<open>BpmnFlowElement\<close>: one constructor per interface of the union; a sub-process nests.\<close>

datatype flow_element =
    StartEvent element_base event_definition "process_input list option"
  | EndEvent element_base event_definition
  | IntermediateCatchEvent element_base event_definition
  | IntermediateThrowEvent element_base event_definition
  | BoundaryEvent element_base (be_attachedToRef: string) (be_cancelActivity: bool) event_definition
  | ServiceTask element_base service_task_attrs task_common
  | UserTask element_base user_task_attrs task_common
  | ScriptTask element_base script_task_attrs task_common
  | ManualTask element_base task_common
  | CallActivity element_base call_activity_attrs
  | Gateway gateway_kind element_base "string option" "bool option"
  | SubProcess element_base "bool option" "flow_element list" "sequence_flow list" string

text \<open>The fields every element has, and the casts the engine uses on any element.\<close>

fun el_base :: "flow_element \<Rightarrow> element_base" where
  "el_base (StartEvent b _ _) = b"
| "el_base (EndEvent b _) = b"
| "el_base (IntermediateCatchEvent b _) = b"
| "el_base (IntermediateThrowEvent b _) = b"
| "el_base (BoundaryEvent b _ _ _) = b"
| "el_base (ServiceTask b _ _) = b"
| "el_base (UserTask b _ _) = b"
| "el_base (ScriptTask b _ _) = b"
| "el_base (ManualTask b _) = b"
| "el_base (CallActivity b _) = b"
| "el_base (Gateway _ b _ _) = b"
| "el_base (SubProcess b _ _ _ _) = b"

abbreviation el_id :: "flow_element \<Rightarrow> string" where
  "el_id e \<equiv> eb_id (el_base e)"

abbreviation el_outgoingFlows :: "flow_element \<Rightarrow> string list" where
  "el_outgoingFlows e \<equiv> eb_outgoingFlows (el_base e)"

fun gateway_type :: "gateway_kind \<Rightarrow> bpmn_element_type" where
  "gateway_type Exclusive = ExclusiveGatewayT"
| "gateway_type Parallel = ParallelGatewayT"
| "gateway_type Inclusive = InclusiveGatewayT"
| "gateway_type EventBased = EventBasedGatewayT"

fun el_type :: "flow_element \<Rightarrow> bpmn_element_type" where
  "el_type (StartEvent _ _ _) = StartEventT"
| "el_type (EndEvent _ _) = EndEventT"
| "el_type (IntermediateCatchEvent _ _) = IntermediateCatchEventT"
| "el_type (IntermediateThrowEvent _ _) = IntermediateThrowEventT"
| "el_type (BoundaryEvent _ _ _ _) = BoundaryEventT"
| "el_type (ServiceTask _ _ _) = ServiceTaskT"
| "el_type (UserTask _ _ _) = UserTaskT"
| "el_type (ScriptTask _ _ _) = ScriptTaskT"
| "el_type (ManualTask _ _) = ManualTaskT"
| "el_type (CallActivity _ _) = CallActivityT"
| "el_type (Gateway k _ _ _) = gateway_type k"
| "el_type (SubProcess _ _ _ _ _) = SubProcessT"

text \<open>\<open>(element as \<dots>).eventDefinition\<close>, present on events only.\<close>

fun el_eventDefinition :: "flow_element \<Rightarrow> event_definition option" where
  "el_eventDefinition (StartEvent _ d _) = Some d"
| "el_eventDefinition (EndEvent _ d) = Some d"
| "el_eventDefinition (IntermediateCatchEvent _ d) = Some d"
| "el_eventDefinition (IntermediateThrowEvent _ d) = Some d"
| "el_eventDefinition (BoundaryEvent _ _ _ d) = Some d"
| "el_eventDefinition _ = None"

fun el_task_common :: "flow_element \<Rightarrow> task_common option" where
  "el_task_common (ServiceTask _ _ c) = Some c"
| "el_task_common (UserTask _ _ c) = Some c"
| "el_task_common (ScriptTask _ _ c) = Some c"
| "el_task_common (ManualTask _ c) = Some c"
| "el_task_common _ = None"

record process_definition =
  pd_id :: string
  pd_version :: int
  pd_name :: "string option"
  pd_elements :: "flow_element list"
  pd_sequenceFlows :: "sequence_flow list"
  pd_startEventId :: string
  pd_deployedAt :: int
  pd_isDeployable :: bool

section \<open>Tokens and instances\<close>

datatype token_status = Active | Waiting | Suspended | Cancelled | Completed

datatype wait_condition_type = WaitUserTask | WaitMessage | WaitSignal | WaitTimer | WaitExternal

record wait_condition =
  wc_type :: wait_condition_type
  wc_correlationData :: "(string \<times> jsval) list option"

record loop_state =
  ls_collection :: "jsval list"
  ls_index :: nat
  ls_iterationsRan :: nat

record token =
  tk_id :: string
  tk_instanceId :: string
  tk_elementId :: string
  tk_elementType :: bpmn_element_type
  tk_status :: token_status
  tk_scopeId :: string
  tk_arrivedViaFlowId :: "string option"
  tk_parentTokenId :: "string option"
  tk_subProcessInstanceId :: "string option"
  tk_waitingFor :: "wait_condition option"
  tk_loopState :: "loop_state option"
  tk_createdAt :: int
  tk_updatedAt :: int

datatype instance_status =
  PendingI | ActiveI | SuspendedI | CompletedI | TerminatedI | ErrorI

record process_error =
  pe_code :: string
  pe_message :: string
  pe_elementId :: "string option"
  pe_tokenId :: "string option"

datatype forced_action =
  ForceCompleteServiceTask | ForceFailServiceTask | ForceFireTimer | ForceCompleteUserTask

record forced_info =
  fi_action :: forced_action
  fi_by :: string
  fi_reason :: string
  fi_onBehalfOf :: "string option"

datatype history_status = HCompleted | HCancelled | HError

record history_entry =
  he_id :: string
  he_instanceId :: string
  he_tokenId :: string
  he_elementId :: string
  he_elementType :: bpmn_element_type
  he_status :: history_status
  he_startedAt :: int
  he_completedAt :: int
  he_variablesSnapshot :: "variables option"
  he_forced :: "forced_info option"

record process_instance =
  pi_id :: string
  pi_definitionId :: string
  pi_definitionVersion :: int
  pi_status :: instance_status
  pi_rootScopeId :: string
  pi_correlationKey :: "string option"
  pi_businessKey :: "string option"
  pi_parentInstanceId :: "string option"
  pi_parentTokenId :: "string option"
  pi_startedAt :: int
  pi_completedAt :: "int option"
  pi_errorInfo :: "process_error option"
  pi_version :: "int option"

section \<open>Subscriptions, join states, user tasks, compensation, timers\<close>

datatype subscription_status = SubActive | SubResolved | SubCancelled

datatype subscription_type = SubMessage | SubSignal | SubTimer | SubError

record event_subscription =
  es_id :: string
  es_instanceId :: string
  es_tokenId :: string
  es_type :: subscription_type
  es_messageName :: "string option"
  es_signalName :: "string option"
  es_correlationValue :: "string option"
  es_errorCode :: "string option"
  es_timerId :: "string option"
  es_status :: subscription_status
  es_createdAt :: int

record parallel_join_state =
  pj_gatewayId :: string
  pj_instanceId :: string
  pj_activationId :: string
  pj_arrivedFromFlows :: "string list"
  pj_expectedFlows :: "string list"

record inclusive_join_state =
  ij_gatewayId :: string
  ij_instanceId :: string
  ij_activationId :: string
  ij_activatedIncomingFlows :: "string list"
  ij_arrivedFromFlows :: "string list"

datatype gateway_join_state =
    ParallelJoin parallel_join_state
  | InclusiveJoin inclusive_join_state

fun js_gatewayId :: "gateway_join_state \<Rightarrow> string" where
  "js_gatewayId (ParallelJoin s) = pj_gatewayId s"
| "js_gatewayId (InclusiveJoin s) = ij_gatewayId s"

fun js_instanceId :: "gateway_join_state \<Rightarrow> string" where
  "js_instanceId (ParallelJoin s) = pj_instanceId s"
| "js_instanceId (InclusiveJoin s) = ij_instanceId s"

datatype user_task_status = TaskOpen | TaskClaimed | TaskCompleted | TaskCancelled

record user_task_record =
  ur_id :: string
  ur_instanceId :: string
  ur_tokenId :: string
  ur_elementId :: string
  ur_name :: string
  ur_description :: "string option"
  ur_assignee :: "string option"
  ur_candidateGroups :: "string list option"
  ur_dueDate :: "int option"
  ur_priority :: int
  ur_inputVariables :: variables
  ur_formKey :: "string option"
  ur_status :: user_task_status
  ur_createdAt :: int
  ur_claimedAt :: "int option"
  ur_completedAt :: "int option"

record compensation_record =
  cr_instanceId :: string
  cr_activityId :: string
  cr_tokenId :: string
  cr_handlerId :: string
  cr_completedAt :: int

record scheduled_timer =
  tm_id :: string
  tm_instanceId :: string
  tm_tokenId :: string
  tm_fireAt :: int
  tm_createdAt :: int

section \<open>Execution events\<close>

text \<open>\<open>ExecutionEvent\<close>: the arguments are the fields of the source's variant, in its order.\<close>

datatype execution_event =
    ProcessInstanceStarted string string int
  | ProcessInstanceCompleted string int
  | ProcessInstanceTerminated string string
  | ProcessInstanceRestarted string string
  | ProcessInstanceSuspended string
  | ProcessInstanceResumed string
  | ProcessInstanceFaulted string string string
  | TokenMoved string string string string bpmn_element_type
  | TokenWaiting string string string wait_condition
  | TokenCancelled string string string
  | UserTaskCreated string string string string
  | UserTaskClaimed string string
  | UserTaskReleased string
  | UserTaskCompleted string string
  | UserTaskCancelled string
  | ServiceTaskStarted string string string string
  | ServiceTaskCompleted string string string int
  | ServiceTaskFailed string string string string int
  | MessageDelivered string string string
  | SignalBroadcast string int
  | ErrorThrown string string string bool
  | TimerFired string string string
  | BoundaryEventTriggered string string string bool
  | CallActivityStarted string string string
  | CallActivityCompleted string string string
  | EventBasedGatewayActivated string string string "string list"
  | MultiInstanceStarted string string string nat bool
  | MultiInstanceCompleted string string string nat
  | CompensationTriggered string string string "string option" "string list"
  | CompensationCompleted string string string
  | SubProcessStarted string string string
  | SubProcessCompleted string string string
  | TransactionCancelled string string string "string list"
  | StepForced string string string forced_action string string "string option"

section \<open>Errors\<close>

text \<open>
  One constructor per throw site, carrying what the message interpolates.
  \<open>TypeFault\<close> is the \<open>TypeError\<close> JavaScript raises when a join state of the wrong kind is read.
\<close>

datatype definition_fault =
    ElementNotFound string string
  | FlowNotFound string string
  | ExclusiveNoMatch string
  | InclusiveNoMatch string
  | EbgInstantiate string
  | EbgNoOutgoing string
  | EbgUnknownFlow string string
  | EbgBadTarget string string
  | EbgBadEvent string string string event_definition_type
  | XmlInvalid string
  | NoDefinitionsElement
  | NoProcessElement

datatype runtime_fault =
    TokenNotFound string
  | NoInstance
  | CannotComplete string token_status
  | CannotFail string token_status
  | CannotFireTimer string token_status
  | CannotSuspend instance_status
  | CannotResume instance_status
  | UnsupportedElement bpmn_element_type
  | UnsupportedCatch event_definition_type
  | UnsupportedBoundary event_definition_type
  | ScopeNotFound string
  | NoOutgoingFlows string
  | NoIncomingFlows string
  | NoSplitState string
  | NotAnArray string

datatype engine_error =
    DefinitionError definition_fault
  | RuntimeError runtime_fault
  | SandboxViolationError string
  | EvaluationTimeoutError string
  | ExpressionSyntaxError string string
  | ExpressionError string
  | ConcurrentModificationError string
  | TypeFault

text \<open>The \<open>code\<close> field of the error classes; a foreign error has none.\<close>

fun error_code :: "engine_error \<Rightarrow> string option" where
  "error_code (DefinitionError _) = Some ''DEFINITION_ERROR''"
| "error_code (RuntimeError _) = Some ''RUNTIME_ERROR''"
| "error_code (SandboxViolationError _) = Some ''SANDBOX_VIOLATION''"
| "error_code (EvaluationTimeoutError _) = Some ''EVALUATION_TIMEOUT''"
| "error_code (ExpressionSyntaxError _ _) = Some ''EXPRESSION_SYNTAX_ERROR''"
| "error_code (ConcurrentModificationError _) = Some ''CONCURRENT_MODIFICATION''"
| "error_code _ = None"

fun is_runtime_error :: "engine_error \<Rightarrow> bool" where
  "is_runtime_error (RuntimeError _) = True"
| "is_runtime_error _ = False"

end
