(* ===== verification/Gateways.thy ===== *)
theory Gateways
  imports Model_Types
begin

text \<open>
  The pure gateway evaluators of \<open>src/gateways\<close>: exclusive and inclusive splits, parallel split,
  parallel and inclusive joins, and the event-based gateway's validation. Both joins implement one
  interface, the locale \<open>flow_join\<close>; its client lemma (a join fires exactly when the last awaited
  flow arrives, whatever the order) is proved once and interpreted for each.
\<close>

section \<open>Exclusive gateway (\<open>ExclusiveGateway.ts\<close>)\<close>

definition is_default_flow :: "string option \<Rightarrow> sequence_flow \<Rightarrow> bool" where
  "is_default_flow defaultFlowId f \<longleftrightarrow> Some (sf_id f) = defaultFlowId \<or> sf_isDefault f = Some True"

fun exclusive_loop ::
  "string \<Rightarrow> string option \<Rightarrow> (string \<Rightarrow> engine_error + bool) \<Rightarrow> sequence_flow list
    \<Rightarrow> sequence_flow option \<Rightarrow> engine_error + string" where
  "exclusive_loop gid dflt ev [] defaultFlow =
     (case defaultFlow of
        Some f \<Rightarrow> Inr (sf_id f)
      | None \<Rightarrow> Inl (DefinitionError (ExclusiveNoMatch gid)))"
| "exclusive_loop gid dflt ev (f # fs) defaultFlow =
     (if is_default_flow dflt f then exclusive_loop gid dflt ev fs (Some f)
      else case sf_conditionExpression f of
          None \<Rightarrow> Inr (sf_id f)
        | Some expr \<Rightarrow>
            (case ev expr of
               Inl e \<Rightarrow> Inl e
             | Inr True \<Rightarrow> Inr (sf_id f)
             | Inr False \<Rightarrow> exclusive_loop gid dflt ev fs defaultFlow))"

definition evaluateExclusiveSplit ::
  "string \<Rightarrow> sequence_flow list \<Rightarrow> string option \<Rightarrow> (string \<Rightarrow> engine_error + bool)
    \<Rightarrow> engine_error + string" where
  "evaluateExclusiveSplit gid outgoing dflt ev =
     (if outgoing = [] then Inl (RuntimeError (NoOutgoingFlows gid))
      else exclusive_loop gid dflt ev outgoing None)"

section \<open>Inclusive gateway (\<open>InclusiveGateway.ts\<close>)\<close>

fun inclusive_loop ::
  "string option \<Rightarrow> (string \<Rightarrow> engine_error + bool) \<Rightarrow> sequence_flow list
    \<Rightarrow> string list \<Rightarrow> sequence_flow option \<Rightarrow> engine_error + (string list \<times> sequence_flow option)" where
  "inclusive_loop dflt ev [] activated defaultFlow = Inr (activated, defaultFlow)"
| "inclusive_loop dflt ev (f # fs) activated defaultFlow =
     (if is_default_flow dflt f then inclusive_loop dflt ev fs activated (Some f)
      else case (case sf_conditionExpression f of None \<Rightarrow> Inr True | Some expr \<Rightarrow> ev expr) of
          Inl e \<Rightarrow> Inl e
        | Inr matches \<Rightarrow>
            inclusive_loop dflt ev fs (if matches then activated @ [sf_id f] else activated) defaultFlow)"

definition evaluateInclusiveSplit ::
  "string \<Rightarrow> sequence_flow list \<Rightarrow> string option \<Rightarrow> (string \<Rightarrow> engine_error + bool)
    \<Rightarrow> engine_error + string list" where
  "evaluateInclusiveSplit gid outgoing dflt ev =
     (if outgoing = [] then Inl (RuntimeError (NoOutgoingFlows gid))
      else case inclusive_loop dflt ev outgoing [] None of
          Inl e \<Rightarrow> Inl e
        | Inr (activated, defaultFlow) \<Rightarrow>
            (if activated = []
             then case defaultFlow of
                 Some f \<Rightarrow> Inr [sf_id f]
               | None \<Rightarrow> Inl (DefinitionError (InclusiveNoMatch gid))
             else Inr activated))"

definition evaluateInclusiveJoin ::
  "string \<Rightarrow> string \<Rightarrow> inclusive_join_state \<Rightarrow> bool \<times> inclusive_join_state" where
  "evaluateInclusiveJoin gid arrivingFlowId s =
     (let arrived = set_add arrivingFlowId (set_from (ij_arrivedFromFlows s))
      in (list_all (\<lambda>flowId. flowId \<in> set arrived) (ij_activatedIncomingFlows s),
          s\<lparr>ij_arrivedFromFlows := arrived\<rparr>))"

section \<open>Parallel gateway (\<open>ParallelGateway.ts\<close>)\<close>

definition evaluateParallelSplit ::
  "string \<Rightarrow> sequence_flow list \<Rightarrow> engine_error + string list" where
  "evaluateParallelSplit gid outgoing =
     (if outgoing = [] then Inl (RuntimeError (NoOutgoingFlows gid)) else Inr (map sf_id outgoing))"

definition evaluateParallelJoin ::
  "string \<Rightarrow> string \<Rightarrow> parallel_join_state \<Rightarrow> bool \<times> parallel_join_state" where
  "evaluateParallelJoin gid arrivingFlowId s =
     (let arrived = set_add arrivingFlowId (set_from (pj_arrivedFromFlows s));
          expected = set_from (pj_expectedFlows s)
      in (list_all (\<lambda>flowId. flowId \<in> set arrived) (pj_expectedFlows s)
            \<and> length expected \<le> length arrived,
          s\<lparr>pj_arrivedFromFlows := arrived\<rparr>))"

section \<open>Event-based gateway (\<open>EventBasedGateway.ts\<close>)\<close>

definition supported_event_types :: "event_definition_type list" where
  "supported_event_types = [MessageEvent, SignalEvent, TimerEvent]"

text \<open>The lookups are in the top-level lists of the definition, as in the source.\<close>

fun validate_ebg_flows :: "string \<Rightarrow> process_definition \<Rightarrow> string list \<Rightarrow> engine_error + unit" where
  "validate_ebg_flows gid d [] = Inr ()"
| "validate_ebg_flows gid d (flowId # rest) =
     (case List.find (\<lambda>f. sf_id f = flowId) (pd_sequenceFlows d) of
        None \<Rightarrow> Inl (DefinitionError (EbgUnknownFlow gid flowId))
      | Some flow \<Rightarrow>
          (case List.find (\<lambda>e. el_id e = sf_targetRef flow) (pd_elements d) of
             Some (IntermediateCatchEvent b ed) \<Rightarrow>
               (if ed_type ed \<in> set supported_event_types then validate_ebg_flows gid d rest
                else Inl (DefinitionError (EbgBadEvent gid flowId (eb_id b) (ed_type ed))))
           | _ \<Rightarrow> Inl (DefinitionError (EbgBadTarget gid flowId))))"

definition validateEventBasedGateway ::
  "element_base \<Rightarrow> bool option \<Rightarrow> process_definition \<Rightarrow> engine_error + unit" where
  "validateEventBasedGateway b instantiate d =
     (if instantiate = Some True then Inl (DefinitionError (EbgInstantiate (eb_id b)))
      else if eb_outgoingFlows b = [] then Inl (DefinitionError (EbgNoOutgoing (eb_id b)))
      else validate_ebg_flows (eb_id b) d (eb_outgoingFlows b))"

section \<open>Correctness of the splits\<close>

text \<open>What a flow's condition says: a flow without a condition always matches.\<close>

definition condition_result :: "(string \<Rightarrow> engine_error + bool) \<Rightarrow> sequence_flow \<Rightarrow> engine_error + bool" where
  "condition_result ev f =
     (case sf_conditionExpression f of None \<Rightarrow> Inr True | Some expr \<Rightarrow> ev expr)"

definition last_default :: "string option \<Rightarrow> sequence_flow list \<Rightarrow> sequence_flow option" where
  "last_default dflt fs =
     (case filter (is_default_flow dflt) fs of [] \<Rightarrow> None | ds \<Rightarrow> Some (last ds))"

lemma last_default_Cons:
  "last_default dflt (f # fs) =
     (case last_default dflt fs of
        Some g \<Rightarrow> Some g
      | None \<Rightarrow> if is_default_flow dflt f then Some f else None)"
  by (auto simp: last_default_def split: list.splits)

lemma exclusive_loop_spec:
  "exclusive_loop gid dflt ev fs acc =
     (case List.find (\<lambda>f. \<not> is_default_flow dflt f \<and> condition_result ev f \<noteq> Inr False) fs of
        Some f \<Rightarrow> (case condition_result ev f of Inl e \<Rightarrow> Inl e | Inr _ \<Rightarrow> Inr (sf_id f))
      | None \<Rightarrow>
          (case (case last_default dflt fs of Some g \<Rightarrow> Some g | None \<Rightarrow> acc) of
             Some f \<Rightarrow> Inr (sf_id f)
           | None \<Rightarrow> Inl (DefinitionError (ExclusiveNoMatch gid))))"
proof (induction fs arbitrary: acc)
  case Nil
  then show ?case by (simp add: last_default_def)
next
  case (Cons f fs)
  then show ?case
    by (auto simp: last_default_Cons condition_result_def split: option.splits sum.splits bool.splits)
qed

text \<open>
  The exclusive split takes the first flow, in declaration order and leaving the default flows
  out, whose condition does not evaluate to false: an error of that condition is the result, and
  conditions behind it are not looked at. Only when every condition is false does a default flow
  get the token, and with neither the split is refused with the two errors of the source.
\<close>

theorem exclusive_split_first_match:
  "evaluateExclusiveSplit gid fs dflt ev =
     (if fs = [] then Inl (RuntimeError (NoOutgoingFlows gid))
      else case List.find (\<lambda>f. \<not> is_default_flow dflt f \<and> condition_result ev f \<noteq> Inr False) fs of
          Some f \<Rightarrow> (case condition_result ev f of Inl e \<Rightarrow> Inl e | Inr _ \<Rightarrow> Inr (sf_id f))
        | None \<Rightarrow>
            (case last_default dflt fs of
               Some f \<Rightarrow> Inr (sf_id f)
             | None \<Rightarrow> Inl (DefinitionError (ExclusiveNoMatch gid))))"
  by (simp add: evaluateExclusiveSplit_def exclusive_loop_spec split: option.splits)

lemma inclusive_loop_spec:
  assumes "\<forall>f \<in> set fs. \<not> is_default_flow dflt f \<longrightarrow> condition_result ev f = Inr (holds f)"
  shows "inclusive_loop dflt ev fs act acc =
     Inr (act @ map sf_id (filter (\<lambda>f. \<not> is_default_flow dflt f \<and> holds f) fs),
          case last_default dflt fs of Some g \<Rightarrow> Some g | None \<Rightarrow> acc)"
  using assms
proof (induction fs arbitrary: act acc)
  case Nil
  then show ?case by (simp add: last_default_def)
next
  case (Cons f fs)
  then show ?case
    by (auto simp: last_default_Cons condition_result_def split: option.splits)
qed

lemma inclusive_loop_error:
  assumes "f \<in> set fs" "\<not> is_default_flow dflt f" "condition_result ev f = Inl e"
  shows "\<exists>e'. inclusive_loop dflt ev fs act acc = Inl e'"
  using assms
proof (induction fs arbitrary: act acc)
  case Nil
  then show ?case by simp
next
  case (Cons g gs)
  then show ?case
    by (cases "f = g") (auto simp: condition_result_def split: option.splits sum.splits)
qed

text \<open>
  The inclusive split activates every non-default flow whose condition holds, in declaration
  order, and the default flow exactly when none holds; no match and no default is an error.
\<close>

theorem inclusive_split_activates_all_matches:
  assumes "\<forall>f \<in> set fs. \<not> is_default_flow dflt f \<longrightarrow> condition_result ev f = Inr (holds f)"
    and "fs \<noteq> []"
  shows "evaluateInclusiveSplit gid fs dflt ev =
     (case (map sf_id (filter (\<lambda>f. \<not> is_default_flow dflt f \<and> holds f) fs), last_default dflt fs) of
        ([], None) \<Rightarrow> Inl (DefinitionError (InclusiveNoMatch gid))
      | ([], Some f) \<Rightarrow> Inr [sf_id f]
      | (ids, _) \<Rightarrow> Inr ids)"
  using assms(2)
  by (simp add: evaluateInclusiveSplit_def inclusive_loop_spec[OF assms(1)] split: list.splits option.splits)

theorem inclusive_split_activates_all_matches_witness:
  "evaluateInclusiveSplit ''g''
     [\<lparr>sf_id = ''a'', sf_sourceRef = ''g'', sf_targetRef = ''x'', sf_conditionExpression = Some ''p'', sf_isDefault = None\<rparr>,
      \<lparr>sf_id = ''b'', sf_sourceRef = ''g'', sf_targetRef = ''y'', sf_conditionExpression = None, sf_isDefault = None\<rparr>,
      \<lparr>sf_id = ''c'', sf_sourceRef = ''g'', sf_targetRef = ''z'', sf_conditionExpression = None, sf_isDefault = Some True\<rparr>]
     None (\<lambda>_. Inr False) = Inr [''b'']"
  by (subst inclusive_split_activates_all_matches
      [where holds = "\<lambda>f. sf_conditionExpression f = None"])
    (simp_all add: is_default_flow_def condition_result_def)

section \<open>Joins\<close>

text \<open>
  The contract of a join: it remembers which flows have arrived, as a set, and fires when every
  awaited flow has. A flow that arrives twice counts once.
\<close>

locale flow_join =
  fixes arrive :: "string \<Rightarrow> 's \<Rightarrow> bool \<times> 's"
    and awaited :: "'s \<Rightarrow> string set"
    and arrived :: "'s \<Rightarrow> string set"
  assumes fires: "fst (arrive f s) \<longleftrightarrow> awaited s \<subseteq> insert f (arrived s)"
    and arrived_step: "arrived (snd (arrive f s)) = insert f (arrived s)"
    and awaited_step: "awaited (snd (arrive f s)) = awaited s"
begin

fun feed :: "string list \<Rightarrow> 's \<Rightarrow> bool list" where
  "feed [] s = []"
| "feed (f # fs) s = fst (arrive f s) # feed fs (snd (arrive f s))"

lemma feed_iff:
  "feed fs s = map (\<lambda>k. awaited s \<subseteq> arrived s \<union> set (take (Suc k) fs)) [0..<length fs]"
proof (induction fs arbitrary: s)
  case Nil
  then show ?case by simp
next
  case (Cons f fs)
  have "feed fs (snd (arrive f s)) =
      map (\<lambda>k. awaited s \<subseteq> arrived s \<union> set (take (Suc (Suc k)) (f # fs))) [0..<length fs]"
    by (simp add: Cons.IH arrived_step awaited_step)
  moreover have "map g [0..<Suc n] = g 0 # map (\<lambda>k. g (Suc k)) [0..<n]" for g :: "nat \<Rightarrow> bool" and n
    by (simp add: upt_conv_Cons map_Suc_upt[symmetric] comp_def del: upt_Suc)
  ultimately show ?case by (simp add: fires del: upt_Suc)
qed

lemma fires_exactly_at_last:
  assumes "distinct fs" "fs \<noteq> []" "set fs = awaited s" "arrived s = {}"
  shows "feed fs s = replicate (length fs - 1) False @ [True]"
proof -
  obtain gs g where fs: "fs = gs @ [g]" using assms(2) by (cases fs rule: rev_cases) auto
  have "\<not> awaited s \<subseteq> set (take (Suc k) fs)" if "k < length gs" for k
  proof -
    have "g \<notin> set (take (Suc k) fs)" using that assms(1) fs by (auto dest: in_set_takeD)
    moreover have "g \<in> awaited s" using assms(3) fs by auto
    ultimately show ?thesis by auto
  qed
  then have "map (\<lambda>k. awaited s \<subseteq> set (take (Suc k) fs)) [0..<length gs] = replicate (length gs) False"
    by (auto intro: nth_equalityI)
  then show ?thesis using assms(3,4) by (simp add: feed_iff fs)
qed

end

lemma parallel_join_fires:
  "fst (evaluateParallelJoin gid f s) \<longleftrightarrow>
     set (pj_expectedFlows s) \<subseteq> insert f (set (pj_arrivedFromFlows s))"
proof -
  have "length (set_from (pj_expectedFlows s)) \<le> length (set_add f (set_from (pj_arrivedFromFlows s)))"
    if "set (pj_expectedFlows s) \<subseteq> insert f (set (pj_arrivedFromFlows s))"
    using card_mono[OF _ that] distinct_card[of "set_add f (set_from (pj_arrivedFromFlows s))"]
    by (simp add: length_set_from)
  then show ?thesis
    by (auto simp: evaluateParallelJoin_def Let_def list_all_iff)
qed

interpretation par: flow_join
  "\<lambda>f s. evaluateParallelJoin gid f s"
  "\<lambda>s. set (pj_expectedFlows s)" "\<lambda>s. set (pj_arrivedFromFlows s)" for gid
  by unfold_locales (auto simp: parallel_join_fires, auto simp: evaluateParallelJoin_def Let_def)

interpretation incl: flow_join
  "\<lambda>f s. evaluateInclusiveJoin gid f s"
  "\<lambda>s. set (ij_activatedIncomingFlows s)" "\<lambda>s. set (ij_arrivedFromFlows s)" for gid
  by unfold_locales (auto simp: evaluateInclusiveJoin_def Let_def list_all_iff)

fun parallel_feed :: "string \<Rightarrow> string list \<Rightarrow> parallel_join_state \<Rightarrow> bool list" where
  "parallel_feed gid [] s = []"
| "parallel_feed gid (f # fs) s =
     fst (evaluateParallelJoin gid f s) # parallel_feed gid fs (snd (evaluateParallelJoin gid f s))"

fun inclusive_feed :: "string \<Rightarrow> string list \<Rightarrow> inclusive_join_state \<Rightarrow> bool list" where
  "inclusive_feed gid [] s = []"
| "inclusive_feed gid (f # fs) s =
     fst (evaluateInclusiveJoin gid f s) # inclusive_feed gid fs (snd (evaluateInclusiveJoin gid f s))"

lemma parallel_feed_eq: "parallel_feed gid fs s = par.feed gid fs s"
  by (induction fs arbitrary: s) auto

lemma inclusive_feed_eq: "inclusive_feed gid fs s = incl.feed gid fs s"
  by (induction fs arbitrary: s) auto

text \<open>
  C31. A fresh parallel join fed the expected flows once each, in any order, stays shut until the
  last of them arrives and fires then.
\<close>

theorem parallel_join_fires_at_last:
  assumes "distinct fs" "fs \<noteq> []" "set fs = set (pj_expectedFlows s)" "pj_arrivedFromFlows s = []"
  shows "parallel_feed gid fs s = replicate (length fs - 1) False @ [True]"
  unfolding parallel_feed_eq using assms by (intro par.fires_exactly_at_last) auto

theorem parallel_join_fires_at_last_witness:
  "parallel_feed ''j'' [''b'', ''c'', ''a'']
     \<lparr>pj_gatewayId = ''j'', pj_instanceId = ''i'', pj_activationId = ''x'',
      pj_arrivedFromFlows = [], pj_expectedFlows = [''a'', ''b'', ''c'']\<rparr> = [False, False, True]"
  by (subst parallel_join_fires_at_last) (auto simp: numeral_2_eq_2)

text \<open>
  The parallel join tracks flows, not arrivals: it fires exactly when the arriving flow
  completes the expected set, so a loop that delivers one flow again never stands in for another
  (the source's size comparison adds nothing), and the flow it records is the only change.
\<close>

theorem parallel_join_tracks_flows:
  "(fst (evaluateParallelJoin gid f s) \<longleftrightarrow>
      set (pj_expectedFlows s) \<subseteq> insert f (set (pj_arrivedFromFlows s))) \<and>
   set (pj_arrivedFromFlows (snd (evaluateParallelJoin gid f s))) = insert f (set (pj_arrivedFromFlows s)) \<and>
   snd (evaluateParallelJoin gid f s) =
     s\<lparr>pj_arrivedFromFlows := pj_arrivedFromFlows (snd (evaluateParallelJoin gid f s))\<rparr>"
  by (intro conjI parallel_join_fires) (simp_all add: evaluateParallelJoin_def Let_def)

text \<open>
  The inclusive join waits for the flows activated at the split, in any order, and ignores an
  arrival on a flow that was not activated: it neither opens nor blocks the join.
\<close>

theorem inclusive_join_ignores_inactive:
  assumes "f \<notin> set (ij_activatedIncomingFlows s)"
  shows "(fst (evaluateInclusiveJoin gid f s) \<longleftrightarrow>
      set (ij_activatedIncomingFlows s) \<subseteq> set (ij_arrivedFromFlows s)) \<and>
    (fst (evaluateInclusiveJoin gid g (snd (evaluateInclusiveJoin gid f s))) \<longleftrightarrow>
      fst (evaluateInclusiveJoin gid g s))"
  using assms incl.fires[of gid f s]
    incl.fires[of gid g "snd (evaluateInclusiveJoin gid f s)"] incl.fires[of gid g s]
    incl.arrived_step[of gid f s] incl.awaited_step[of gid f s]
  by auto

theorem inclusive_join_ignores_inactive_witness:
  "\<not> fst (evaluateInclusiveJoin ''j'' ''z''
      \<lparr>ij_gatewayId = ''j'', ij_instanceId = ''i'', ij_activationId = ''x'',
       ij_activatedIncomingFlows = [''a''], ij_arrivedFromFlows = []\<rparr>)"
  by (subst inclusive_join_ignores_inactive[THEN conjunct1]) simp_all

text \<open>Same arrival order independence for the inclusive join.\<close>

lemma inclusive_join_fires_at_last:
  assumes "distinct fs" "fs \<noteq> []" "set fs = set (ij_activatedIncomingFlows s)" "ij_arrivedFromFlows s = []"
  shows "inclusive_feed gid fs s = replicate (length fs - 1) False @ [True]"
  unfolding inclusive_feed_eq using assms by (intro incl.fires_exactly_at_last) auto

section \<open>Correctness of the event-based gateway's validation\<close>

definition ebg_flow_ok :: "process_definition \<Rightarrow> string \<Rightarrow> bool" where
  "ebg_flow_ok d flowId \<longleftrightarrow>
     (\<exists>flow b ed. List.find (\<lambda>f. sf_id f = flowId) (pd_sequenceFlows d) = Some flow
        \<and> List.find (\<lambda>e. el_id e = sf_targetRef flow) (pd_elements d) = Some (IntermediateCatchEvent b ed)
        \<and> ed_type ed \<in> {MessageEvent, SignalEvent, TimerEvent})"

lemma validate_ebg_flows_ok:
  "validate_ebg_flows gid d fs = Inr () \<longleftrightarrow> (\<forall>f \<in> set fs. ebg_flow_ok d f)"
  by (induction fs)
    (auto simp: ebg_flow_ok_def supported_event_types_def split: option.splits flow_element.splits)

text \<open>
  An event-based gateway is accepted exactly when it is not instantiating, has at least one
  outgoing flow, and every outgoing flow leads to an intermediate catch event waiting for a
  message, a signal or a timer.
\<close>

theorem ebg_validation_exact:
  "validateEventBasedGateway b inst d = Inr () \<longleftrightarrow>
     inst \<noteq> Some True \<and> eb_outgoingFlows b \<noteq> [] \<and> list_all (ebg_flow_ok d) (eb_outgoingFlows b)"
  by (auto simp: validateEventBasedGateway_def validate_ebg_flows_ok list_all_iff)


end
