(* ===== verification/Definition_Tree.thy ===== *)
theory Definition_Tree
  imports Gateways
begin

text \<open>
  The definition traversal of \<open>ExecutionEngine.ts\<close>: lookups of elements, flows and boundary
  events in a definition and, recursively, in its sub-processes. Each recursive search is shown
  equal to a search of a flat list, the elements or the flow lists of the tree in pre-order.
\<close>

section \<open>The traversals\<close>

text \<open>\<open>const found = a; if (found) return found; return b\<close>.\<close>

fun or_else :: "'a option \<Rightarrow> 'a option \<Rightarrow> 'a option" where
  "or_else (Some x) b = Some x"
| "or_else None b = b"

text \<open>The same for searches that return a list: \<open>if (found.length > 0) return found\<close>.\<close>

definition or_list :: "'a list \<Rightarrow> 'a list \<Rightarrow> 'a list" where
  "or_list a b = (if a \<noteq> [] then a else b)"

text \<open>The nested lists of a sub-process (\<open>e.type === 'subProcess'\<close> and the cast).\<close>

fun sub_parts :: "flow_element \<Rightarrow> (flow_element list \<times> sequence_flow list) option" where
  "sub_parts (SubProcess _ _ els fls _) = Some (els, fls)"
| "sub_parts _ = None"

lemma sub_parts_size [termination_simp]:
  "sub_parts e = Some (els, fls) \<Longrightarrow> size_list size els < size e"
  by (cases e) auto

fun findElementInTree :: "flow_element list \<Rightarrow> string \<Rightarrow> flow_element option" where
  "findElementInTree [] i = None"
| "findElementInTree (e # es) i =
     (if el_id e = i then Some e
      else case sub_parts e of
          None \<Rightarrow> findElementInTree es i
        | Some (els, fls) \<Rightarrow> or_else (findElementInTree els i) (findElementInTree es i))"

text \<open>The loop over the sub-processes of \<open>findFlowInTree\<close>, with the call of itself unfolded.\<close>

fun find_flow_in_subs :: "flow_element list \<Rightarrow> string \<Rightarrow> sequence_flow option" where
  "find_flow_in_subs [] i = None"
| "find_flow_in_subs (e # es) i =
     (case sub_parts e of
        None \<Rightarrow> find_flow_in_subs es i
      | Some (els, fls) \<Rightarrow>
          or_else (or_else (List.find (\<lambda>f. sf_id f = i) fls) (find_flow_in_subs els i))
            (find_flow_in_subs es i))"

definition findFlowInTree :: "flow_element list \<Rightarrow> sequence_flow list \<Rightarrow> string \<Rightarrow> sequence_flow option" where
  "findFlowInTree els fls i =
     or_else (List.find (\<lambda>f. sf_id f = i) fls) (find_flow_in_subs els i)"

text \<open>
  \<open>findFlowsBySource\<close> and \<open>findFlowsByTarget\<close> are the same search with another predicate: the
  first level of the tree that has a matching flow gives all its matching flows.
\<close>

fun filter_flows_in_subs :: "(sequence_flow \<Rightarrow> bool) \<Rightarrow> flow_element list \<Rightarrow> sequence_flow list" where
  "filter_flows_in_subs P [] = []"
| "filter_flows_in_subs P (e # es) =
     (case sub_parts e of
        None \<Rightarrow> filter_flows_in_subs P es
      | Some (els, fls) \<Rightarrow>
          or_list (or_list (filter P fls) (filter_flows_in_subs P els)) (filter_flows_in_subs P es))"

definition findFlowsBySource :: "flow_element list \<Rightarrow> sequence_flow list \<Rightarrow> string \<Rightarrow> sequence_flow list" where
  "findFlowsBySource els fls i =
     or_list (filter (\<lambda>f. sf_sourceRef f = i) fls) (filter_flows_in_subs (\<lambda>f. sf_sourceRef f = i) els)"

definition findFlowsByTarget :: "flow_element list \<Rightarrow> sequence_flow list \<Rightarrow> string \<Rightarrow> sequence_flow list" where
  "findFlowsByTarget els fls i =
     or_list (filter (\<lambda>f. sf_targetRef f = i) fls) (filter_flows_in_subs (\<lambda>f. sf_targetRef f = i) els)"

text \<open>A boundary event attached to the given element.\<close>

fun attached_to :: "string \<Rightarrow> flow_element \<Rightarrow> bool" where
  "attached_to i (BoundaryEvent _ host _ _) = (host = i)"
| "attached_to i _ = False"

fun boundaries_in_subs :: "flow_element list \<Rightarrow> string \<Rightarrow> flow_element list" where
  "boundaries_in_subs [] i = []"
| "boundaries_in_subs (e # es) i =
     (case sub_parts e of
        None \<Rightarrow> boundaries_in_subs es i
      | Some (els, fls) \<Rightarrow>
          or_list (or_list (filter (attached_to i) els) (boundaries_in_subs els i))
            (boundaries_in_subs es i))"

definition findBoundariesInTree :: "flow_element list \<Rightarrow> string \<Rightarrow> flow_element list" where
  "findBoundariesInTree els i =
     or_list (filter (attached_to i) els) (boundaries_in_subs els i)"

definition findBoundariesFor :: "process_definition \<Rightarrow> string \<Rightarrow> flow_element list" where
  "findBoundariesFor d i = findBoundariesInTree (pd_elements d) i"

definition getElement :: "process_definition \<Rightarrow> string \<Rightarrow> (engine_error, flow_element) res" where
  "getElement d i =
     (case findElementInTree (pd_elements d) i of
        Some e \<Rightarrow> ret e
      | None \<Rightarrow> throw (DefinitionError (ElementNotFound i (pd_id d))))"

definition getFlow :: "process_definition \<Rightarrow> string \<Rightarrow> (engine_error, sequence_flow) res" where
  "getFlow d i =
     (case findFlowInTree (pd_elements d) (pd_sequenceFlows d) i of
        Some f \<Rightarrow> ret f
      | None \<Rightarrow> throw (DefinitionError (FlowNotFound i (pd_id d))))"

definition getOutgoingFlows :: "process_definition \<Rightarrow> string \<Rightarrow> sequence_flow list" where
  "getOutgoingFlows d i = findFlowsBySource (pd_elements d) (pd_sequenceFlows d) i"

definition getIncomingFlows :: "process_definition \<Rightarrow> string \<Rightarrow> sequence_flow list" where
  "getIncomingFlows d i = findFlowsByTarget (pd_elements d) (pd_sequenceFlows d) i"

section \<open>Reference searches\<close>

text \<open>All elements, and all flow lists, of a tree in pre-order.\<close>

fun all_elements :: "flow_element list \<Rightarrow> flow_element list" where
  "all_elements [] = []"
| "all_elements (e # es) =
     e # (case sub_parts e of None \<Rightarrow> [] | Some (els, fls) \<Rightarrow> all_elements els) @ all_elements es"

fun sub_levels :: "flow_element list \<Rightarrow> sequence_flow list list" where
  "sub_levels [] = []"
| "sub_levels (e # es) =
     (case sub_parts e of None \<Rightarrow> [] | Some (els, fls) \<Rightarrow> fls # sub_levels els) @ sub_levels es"

definition first_level :: "(sequence_flow \<Rightarrow> bool) \<Rightarrow> sequence_flow list list \<Rightarrow> sequence_flow list" where
  "first_level P levels =
     (case List.find (\<lambda>l. filter P l \<noteq> []) levels of Some l \<Rightarrow> filter P l | None \<Rightarrow> [])"

lemma find_append:
  "List.find P (xs @ ys) = or_else (List.find P xs) (List.find P ys)"
  by (induction xs) auto

lemma first_level_Cons: "first_level P (l # ls) = or_list (filter P l) (first_level P ls)"
  by (simp add: first_level_def or_list_def)

lemma or_list_Nil [simp]: "or_list [] b = b"
  by (simp add: or_list_def)

lemma or_list_assoc: "or_list (or_list a b) c = or_list a (or_list b c)"
  by (simp add: or_list_def)

lemma first_level_append: "first_level P (xs @ ys) = or_list (first_level P xs) (first_level P ys)"
proof (induction xs)
  case Nil
  then show ?case by (simp add: first_level_def or_list_def)
next
  case (Cons l xs)
  then show ?case by (simp add: first_level_Cons or_list_assoc)
qed

lemma findElementInTree_preorder:
  "findElementInTree els i = List.find (\<lambda>e. el_id e = i) (all_elements els)"
  by (induction els i rule: findElementInTree.induct)
    (auto simp: find_append split: option.splits)

lemma find_flow_in_subs_preorder:
  "find_flow_in_subs els i = List.find (\<lambda>f. sf_id f = i) (concat (sub_levels els))"
  by (induction els i rule: find_flow_in_subs.induct)
    (auto simp: find_append split: option.splits)

lemma filter_flows_in_subs_levels:
  "filter_flows_in_subs P els = first_level P (sub_levels els)"
  by (induction P els rule: filter_flows_in_subs.induct)
    (auto simp: first_level_append first_level_Cons or_list_assoc first_level_def[of _ "[]"]
      split: option.splits)

lemma findFlowsBySource_levels:
  "findFlowsBySource els fls i = first_level (\<lambda>f. sf_sourceRef f = i) (fls # sub_levels els)"
  by (simp add: findFlowsBySource_def first_level_Cons filter_flows_in_subs_levels)

lemma findFlowsByTarget_levels:
  "findFlowsByTarget els fls i = first_level (\<lambda>f. sf_targetRef f = i) (fls # sub_levels els)"
  by (simp add: findFlowsByTarget_def first_level_Cons filter_flows_in_subs_levels)

text \<open>
  The recursive lookups are searches of the flattened definition: the element and the flow with
  an id are the first ones in pre-order over the whole tree of sub-processes, and the outgoing
  (incoming) flows of an element are those of the first level of the tree that has any.
\<close>

theorem lookups_are_preorder_searches:
  "findElementInTree els i = List.find (\<lambda>e. el_id e = i) (all_elements els) \<and>
   findFlowInTree els fls i = List.find (\<lambda>f. sf_id f = i) (fls @ concat (sub_levels els)) \<and>
   findFlowsBySource els fls i = first_level (\<lambda>f. sf_sourceRef f = i) (fls # sub_levels els) \<and>
   findFlowsByTarget els fls i = first_level (\<lambda>f. sf_targetRef f = i) (fls # sub_levels els)"
  by (simp_all add: findElementInTree_preorder findFlowInTree_def find_append
      find_flow_in_subs_preorder findFlowsBySource_levels findFlowsByTarget_levels)

lemma findElementInTree_id: "findElementInTree els i = Some e \<Longrightarrow> el_id e = i"
  by (auto simp: findElementInTree_preorder find_Some_iff)

lemma findElementInTree_in: "findElementInTree els i = Some e \<Longrightarrow> e \<in> set (all_elements els)"
  by (auto simp: findElementInTree_preorder find_Some_iff)

lemma getElement_ok [res_simps]:
  "getElement d i = Some (Inr e) \<longleftrightarrow> findElementInTree (pd_elements d) i = Some e"
  by (auto simp: getElement_def split: option.splits)

lemma getFlow_ok [res_simps]:
  "getFlow d i = Some (Inr f) \<longleftrightarrow> findFlowInTree (pd_elements d) (pd_sequenceFlows d) i = Some f"
  by (auto simp: getFlow_def split: option.splits)

lemma getElement_returns: "\<exists>r. getElement d i = Some r"
  by (auto simp: getElement_def ret_def throw_def split: option.splits)

lemma getFlow_returns: "\<exists>r. getFlow d i = Some r"
  by (auto simp: getFlow_def ret_def throw_def split: option.splits)

lemma boundaries_in_subs_attached: "e \<in> set (boundaries_in_subs els i) \<Longrightarrow> attached_to i e"
  by (induction els i rule: boundaries_in_subs.induct)
    (auto simp: or_list_def split: option.splits if_splits)

lemma findBoundariesFor_attached:
  "e \<in> set (findBoundariesFor d i) \<Longrightarrow> \<exists>b ca ed. e = BoundaryEvent b i ca ed"
proof -
  assume "e \<in> set (findBoundariesFor d i)"
  then have "attached_to i e"
    by (auto simp: findBoundariesFor_def findBoundariesInTree_def or_list_def
        dest: boundaries_in_subs_attached split: if_splits)
  then show ?thesis by (cases e) auto
qed

end
