(* ===== verification/Exec_Context.thy ===== *)
theory Exec_Context
  imports Definition_Tree
begin

text \<open>
  The class \<open>ExecutionContext\<close> of \<open>ExecutionEngine.ts\<close>: the working copy of an instance's state
  that one \<open>execute\<close> call mutates. Each method is a function from a context to a context; the
  injected \<open>generateId\<close> and \<open>now\<close> are functions of the number of calls made so far, so that the
  order of the source's calls is kept. The maps are insertion-ordered (\<open>AList\<close>).
\<close>

record engine_state =
  st_instance :: process_instance
  st_tokens :: "token list"
  st_scopes :: "variable_scope list"
  st_gatewayJoinStates :: "gateway_join_state list"
  st_compensationRecords :: "compensation_record list"

type_synonym evaluator = "string \<Rightarrow> variables \<Rightarrow> engine_error + jsval"

record execute_options =
  op_generateId :: "nat \<Rightarrow> string"
  op_now :: "nat \<Rightarrow> int"
  op_expressionEvaluator :: evaluator

record ctx =
  cx_instance :: "process_instance option"
  cx_tokenMap :: "(string \<times> token) list"
  cx_scopeMap :: "(string \<times> variable_scope) list"
  cx_joinStateMap :: "(string \<times> gateway_join_state) list"
  cx_compensationList :: "compensation_record list"
  cx_events :: "execution_event list"
  cx_pendingQueue :: "token list"
  cx_options :: execute_options
  cx_idCalls :: nat
  cx_nowCalls :: nat

type_synonym step = "ctx \<Rightarrow> (engine_error, ctx) res"

text \<open>The constructor.\<close>

fun new_context :: "engine_state option \<Rightarrow> execute_options \<Rightarrow> ctx" where
  "new_context None opts =
     \<lparr>cx_instance = None, cx_tokenMap = [], cx_scopeMap = [], cx_joinStateMap = [],
      cx_compensationList = [], cx_events = [], cx_pendingQueue = [],
      cx_options = opts, cx_idCalls = 0, cx_nowCalls = 0\<rparr>"
| "new_context (Some s) opts =
     \<lparr>cx_instance = Some (st_instance s),
      cx_tokenMap = map_from tk_id (st_tokens s),
      cx_scopeMap = map_from vs_id (st_scopes s),
      cx_joinStateMap = map_from js_gatewayId (st_gatewayJoinStates s),
      cx_compensationList = st_compensationRecords s, cx_events = [], cx_pendingQueue = [],
      cx_options = opts, cx_idCalls = 0, cx_nowCalls = 0\<rparr>"

definition now :: "ctx \<Rightarrow> int \<times> ctx" where
  "now c = (op_now (cx_options c) (cx_nowCalls c), c\<lparr>cx_nowCalls := Suc (cx_nowCalls c)\<rparr>)"

definition newId :: "ctx \<Rightarrow> string \<times> ctx" where
  "newId c = (op_generateId (cx_options c) (cx_idCalls c), c\<lparr>cx_idCalls := Suc (cx_idCalls c)\<rparr>)"

definition emit :: "execution_event \<Rightarrow> ctx \<Rightarrow> ctx" where
  "emit e c = c\<lparr>cx_events := cx_events c @ [e]\<rparr>"

section \<open>Tokens\<close>

definition updateToken :: "token \<Rightarrow> ctx \<Rightarrow> ctx" where
  "updateToken t c = c\<lparr>cx_tokenMap := AList.update (tk_id t) t (cx_tokenMap c)\<rparr>"

definition createToken ::
  "string \<Rightarrow> string \<Rightarrow> bpmn_element_type \<Rightarrow> string \<Rightarrow> string option \<Rightarrow> ctx \<Rightarrow> token \<times> ctx" where
  "createToken instanceId elementId elementType scopeId arrivedViaFlowId c =
     (let (i, c1) = newId c; (t1, c2) = now c1; (t2, c3) = now c2;
          token = \<lparr>tk_id = i, tk_instanceId = instanceId, tk_elementId = elementId,
                   tk_elementType = elementType, tk_status = Active, tk_scopeId = scopeId,
                   tk_arrivedViaFlowId = arrivedViaFlowId, tk_parentTokenId = None,
                   tk_subProcessInstanceId = None, tk_waitingFor = None, tk_loopState = None,
                   tk_createdAt = t1, tk_updatedAt = t2\<rparr>
      in (token, updateToken token c3))"

definition requireToken :: "string \<Rightarrow> ctx \<Rightarrow> (engine_error, token) res" where
  "requireToken i c =
     (case map_of (cx_tokenMap c) i of Some t \<Rightarrow> ret t | None \<Rightarrow> throw (RuntimeError (TokenNotFound i)))"

definition requireInstance :: "ctx \<Rightarrow> (engine_error, process_instance) res" where
  "requireInstance c =
     (case cx_instance c of Some i \<Rightarrow> ret i | None \<Rightarrow> throw (RuntimeError NoInstance))"

definition setInstance :: "process_instance \<Rightarrow> ctx \<Rightarrow> ctx" where
  "setInstance i c = c\<lparr>cx_instance := Some i\<rparr>"

definition getAllTokens :: "ctx \<Rightarrow> token list" where
  "getAllTokens c = map_values (cx_tokenMap c)"

definition enqueuePending :: "token \<Rightarrow> ctx \<Rightarrow> ctx" where
  "enqueuePending t c = c\<lparr>cx_pendingQueue := cx_pendingQueue c @ [t]\<rparr>"

definition dequeuePending :: "ctx \<Rightarrow> (token \<times> ctx) option" where
  "dequeuePending c =
     (case cx_pendingQueue c of [] \<Rightarrow> None | t # ts \<Rightarrow> Some (t, c\<lparr>cx_pendingQueue := ts\<rparr>))"

definition pendingCount :: "ctx \<Rightarrow> nat" where
  "pendingCount c = length (cx_pendingQueue c)"

section \<open>Scopes\<close>

definition saveScope :: "variable_scope \<Rightarrow> ctx \<Rightarrow> ctx" where
  "saveScope s c = c\<lparr>cx_scopeMap := AList.update (vs_id s) s (cx_scopeMap c)\<rparr>"

text \<open>\<open>current.parentScopeId ? this.scopeMap.get(current.parentScopeId) : undefined\<close>.\<close>

definition parent_scope :: "(string \<times> variable_scope) list \<Rightarrow> variable_scope \<Rightarrow> variable_scope option" where
  "parent_scope m s = (if truthy (vs_parentScopeId s) then map_of m (the (vs_parentScopeId s)) else None)"

text \<open>
  The \<open>while (current)\<close> loop: it runs forever on a cyclic parent chain, which is the result
  \<open>None\<close>. The accumulator is \<open>chain\<close>, so the root ends up first.
\<close>

partial_function (option) scope_chain ::
  "(string \<times> variable_scope) list \<Rightarrow> variable_scope option \<Rightarrow> variable_scope list \<Rightarrow> variable_scope list option" where
  "scope_chain m current chain =
     (case current of
        None \<Rightarrow> Some chain
      | Some s \<Rightarrow> scope_chain m (parent_scope m s) (s # chain))"

declare scope_chain.simps [code]

definition merge_chain :: "variable_scope list \<Rightarrow> variables" where
  "merge_chain chain = fold (\<lambda>s result. assign result (vs_variables s)) chain []"

definition resolveScope :: "string \<Rightarrow> ctx \<Rightarrow> (engine_error, variables) res" where
  "resolveScope i c =
     (case scope_chain (cx_scopeMap c) (map_of (cx_scopeMap c) i) [] of
        None \<Rightarrow> None
      | Some chain \<Rightarrow> ret (merge_chain chain))"

definition mergeVariables :: "string \<Rightarrow> variables \<Rightarrow> step" where
  "mergeVariables i vars c =
     (case map_of (cx_scopeMap c) i of
        None \<Rightarrow> throw (RuntimeError (ScopeNotFound i))
      | Some s \<Rightarrow>
          ret (c\<lparr>cx_scopeMap :=
                 AList.update i (s\<lparr>vs_variables := assign (vs_variables s) vars\<rparr>) (cx_scopeMap c)\<rparr>))"

section \<open>Join states and compensation records\<close>

definition getJoinState :: "string \<Rightarrow> ctx \<Rightarrow> gateway_join_state option" where
  "getJoinState gid c = map_of (cx_joinStateMap c) gid"

definition saveJoinState :: "gateway_join_state \<Rightarrow> ctx \<Rightarrow> ctx" where
  "saveJoinState s c = c\<lparr>cx_joinStateMap := AList.update (js_gatewayId s) s (cx_joinStateMap c)\<rparr>"

definition deleteJoinState :: "string \<Rightarrow> ctx \<Rightarrow> ctx" where
  "deleteJoinState gid c = c\<lparr>cx_joinStateMap := AList.delete gid (cx_joinStateMap c)\<rparr>"

definition addCompensationRecord :: "compensation_record \<Rightarrow> ctx \<Rightarrow> ctx" where
  "addCompensationRecord r c = c\<lparr>cx_compensationList := cx_compensationList c @ [r]\<rparr>"

text \<open>Array sort with \<open>b.completedAt - a.completedAt\<close>: stable, latest completion first.\<close>

definition latest_first :: "compensation_record list \<Rightarrow> compensation_record list" where
  "latest_first rs = sort_key (\<lambda>r. - cr_completedAt r) rs"

definition consumeCompensationRecords :: "string \<Rightarrow> ctx \<Rightarrow> compensation_record list \<times> ctx" where
  "consumeCompensationRecords activityId c =
     (latest_first (filter (\<lambda>r. cr_activityId r = activityId) (cx_compensationList c)),
      c\<lparr>cx_compensationList := filter (\<lambda>r. cr_activityId r \<noteq> activityId) (cx_compensationList c)\<rparr>)"

definition consumeAllCompensationRecords :: "ctx \<Rightarrow> compensation_record list \<times> ctx" where
  "consumeAllCompensationRecords c =
     (latest_first (cx_compensationList c), c\<lparr>cx_compensationList := []\<rparr>)"

section \<open>Result\<close>

definition toResult :: "ctx \<Rightarrow> (engine_error, engine_state \<times> execution_event list) res" where
  "toResult c =
     rbind (requireInstance c) (\<lambda>i.
       ret (\<lparr>st_instance = i,
             st_tokens = map_values (cx_tokenMap c),
             st_scopes = map_values (cx_scopeMap c),
             st_gatewayJoinStates = map_values (cx_joinStateMap c),
             st_compensationRecords = cx_compensationList c\<rparr>, cx_events c))"

lemma requireInstance_ok [res_simps]: "requireInstance c = Some (Inr i) \<longleftrightarrow> cx_instance c = Some i"
  by (auto simp: requireInstance_def split: option.splits)

lemma requireToken_ok [res_simps]: "requireToken i c = Some (Inr t) \<longleftrightarrow> map_of (cx_tokenMap c) i = Some t"
  by (auto simp: requireToken_def split: option.splits)

end
