(* ===== verification/Engine_Handlers.thy ===== *)
theory Engine_Handlers
  imports Exec_Context
begin

text \<open>
  The element handlers and helpers of \<open>ExecutionEngine.ts\<close>. Each is a function from the
  definition, its other arguments and a context to a context (\<open>step\<close>), or a plain function on
  contexts where the source's function cannot throw. The order of the effects is the source's.
\<close>

section \<open>Helpers\<close>

text \<open>\<open>ctx.updateToken({ ...token, status, updatedAt: ctx.now() })\<close>.\<close>

definition set_token_status :: "token_status \<Rightarrow> token \<Rightarrow> ctx \<Rightarrow> ctx" where
  "set_token_status st t c =
     (let (n, c1) = now c in updateToken (t\<lparr>tk_status := st, tk_updatedAt := n\<rparr>) c1)"

text \<open>The cancellation of one token in the cancelling loops, with the time the loop took before.\<close>

definition cancel_token_at :: "int \<Rightarrow> token \<Rightarrow> ctx \<Rightarrow> ctx" where
  "cancel_token_at n t c =
     emit (TokenCancelled (tk_instanceId t) (tk_id t) (tk_elementId t))
       (updateToken (t\<lparr>tk_status := Cancelled, tk_updatedAt := n\<rparr>) c)"

text \<open>The same where the loop asks for the time at each token.\<close>

definition cancel_token_now :: "token \<Rightarrow> ctx \<Rightarrow> ctx" where
  "cancel_token_now t c =
     emit (TokenCancelled (tk_instanceId t) (tk_id t) (tk_elementId t)) (set_token_status Cancelled t c)"

definition suspendTokenWithCondition :: "token \<Rightarrow> wait_condition \<Rightarrow> ctx \<Rightarrow> ctx" where
  "suspendTokenWithCondition t condition c =
     (let (n, c1) = now c in
      emit (TokenWaiting (tk_instanceId t) (tk_id t) (tk_elementId t) condition)
        (updateToken (t\<lparr>tk_status := Waiting, tk_waitingFor := Some condition, tk_updatedAt := n\<rparr>) c1))"

definition suspendToken :: "token \<Rightarrow> wait_condition_type \<Rightarrow> ctx \<Rightarrow> ctx" where
  "suspendToken t waitType c = suspendTokenWithCondition t \<lparr>wc_type = waitType, wc_correlationData = None\<rparr> c"

text \<open>
  The token that arrives at a flow's target: a new token, with the sub-process of the token it
  comes from. \<open>ctx.updateToken\<close> is called only when the tag is set.
\<close>

definition tag_sub_process :: "token \<Rightarrow> token \<times> ctx \<Rightarrow> token \<times> ctx" where
  "tag_sub_process fromToken p =
     (case p of (base, c) \<Rightarrow>
        if truthy (tk_subProcessInstanceId fromToken)
        then let t = base\<lparr>tk_subProcessInstanceId := tk_subProcessInstanceId fromToken\<rparr>
             in (t, updateToken t c)
        else (base, c))"

definition moveTokenToFlow :: "process_definition \<Rightarrow> token \<Rightarrow> string \<Rightarrow> step" where
  "moveTokenToFlow d fromToken flowId c =
     rbind (getFlow d flowId) (\<lambda>flow.
     rbind (getElement d (sf_targetRef flow)) (\<lambda>target.
       let (newToken, c1) =
             tag_sub_process fromToken
               (createToken (tk_instanceId fromToken) (el_id target) (el_type target)
                  (tk_scopeId fromToken) (Some flowId) c)
       in ret (enqueuePending newToken
            (emit (TokenMoved (tk_instanceId fromToken) (tk_id newToken) (tk_elementId fromToken)
                     (el_id target) (el_type target)) c1))))"

definition advanceToken :: "process_definition \<Rightarrow> token \<Rightarrow> flow_element \<Rightarrow> step" where
  "advanceToken d t element c =
     rfold (moveTokenToFlow d t) (el_outgoingFlows element) (set_token_status Completed t c)"

definition advanceTokenFlows :: "process_definition \<Rightarrow> token \<Rightarrow> step" where
  "advanceTokenFlows d t c =
     rbind (getElement d (tk_elementId t)) (\<lambda>element.
       rfold (moveTokenToFlow d t) (el_outgoingFlows element) c)"

definition completeInstance :: "step" where
  "completeInstance c =
     rbind (requireInstance c) (\<lambda>i.
       let (n, c1) = now c
       in ret (emit (ProcessInstanceCompleted (pi_id i) (n - pi_startedAt i))
            (setInstance (i\<lparr>pi_status := CompletedI, pi_completedAt := Some n\<rparr>) c1)))"

text \<open>\<open>Boolean(evaluator.evaluate(expression, { variables: scope }))\<close>.\<close>

definition evaluateExpression :: "ctx \<Rightarrow> variables \<Rightarrow> string \<Rightarrow> engine_error + bool" where
  "evaluateExpression c scope expression =
     (case op_expressionEvaluator (cx_options c) expression scope of
        Inl e \<Rightarrow> Inl e
      | Inr v \<Rightarrow> Inr (to_boolean v))"

definition getLoopCharacteristics :: "flow_element \<Rightarrow> loop_characteristics option" where
  "getLoopCharacteristics element =
     (case el_task_common element of None \<Rightarrow> None | Some tc \<Rightarrow> tc_loopCharacteristics tc)"

text \<open>\<open>(element as { isForCompensation?: boolean }).isForCompensation === true\<close>.\<close>

definition isForCompensation :: "flow_element \<Rightarrow> bool" where
  "isForCompensation element =
     (case el_task_common element of None \<Rightarrow> False | Some tc \<Rightarrow> tc_isForCompensation tc = Some True)"

definition event_type_is :: "event_definition_type \<Rightarrow> flow_element \<Rightarrow> bool" where
  "event_type_is ty element \<longleftrightarrow> map_option ed_type (el_eventDefinition element) = Some ty"

text \<open>\<open>t.waitingFor?.correlationData?.[key] === value\<close>.\<close>

definition correlates :: "string \<Rightarrow> string \<Rightarrow> token \<Rightarrow> bool" where
  "correlates key v t =
     (case tk_waitingFor t of
        None \<Rightarrow> False
      | Some w \<Rightarrow>
          (case wc_correlationData w of
             None \<Rightarrow> False
           | Some data \<Rightarrow> map_of data key = Some (JString v)))"

definition waits_for :: "wait_condition_type \<Rightarrow> token \<Rightarrow> bool" where
  "waits_for ty t \<longleftrightarrow> map_option wc_type (tk_waitingFor t) = Some ty"

definition is_live :: "token \<Rightarrow> bool" where
  "is_live t \<longleftrightarrow> tk_status t = Active \<or> tk_status t = Waiting"

definition is_over :: "token \<Rightarrow> bool" where
  "is_over t \<longleftrightarrow> tk_status t = Completed \<or> tk_status t = Cancelled"

text \<open>A cancelling loop over the tokens that satisfy a test, at one time.\<close>

definition cancel_where :: "(token \<Rightarrow> bool) \<Rightarrow> ctx \<Rightarrow> ctx" where
  "cancel_where P c =
     (let (n, c1) = now c in fold (cancel_token_at n) (filter P (getAllTokens c1)) c1)"

section \<open>Boundary events\<close>

definition spawnBoundaryTokens :: "process_definition \<Rightarrow> token \<Rightarrow> string \<Rightarrow> ctx \<Rightarrow> ctx" where
  "spawnBoundaryTokens d hostToken taskElementId c =
     fold (\<lambda>boundary c.
         let (bToken, c1) =
               tag_sub_process hostToken
                 (createToken (tk_instanceId hostToken) (el_id boundary) BoundaryEventT
                    (tk_scopeId hostToken) None c)
         in enqueuePending bToken c1)
       (filter (\<lambda>b. \<not> event_type_is CompensationEvent b) (findBoundariesFor d taskElementId)) c"

definition error_code_of :: "flow_element \<Rightarrow> string option" where
  "error_code_of b = (case el_eventDefinition b of None \<Rightarrow> None | Some ed \<Rightarrow> ed_errorCode ed)"

definition findMatchingErrorBoundary :: "process_definition \<Rightarrow> string \<Rightarrow> string \<Rightarrow> flow_element option" where
  "findMatchingErrorBoundary d taskElementId code =
     (let boundaries = filter (event_type_is ErrorEvent) (findBoundariesFor d taskElementId)
      in or_else (List.find (\<lambda>b. error_code_of b = Some code) boundaries)
           (List.find (\<lambda>b. \<not> truthy (error_code_of b)) boundaries))"

definition cancelBoundaryTokensFor :: "string \<Rightarrow> ctx \<Rightarrow> ctx" where
  "cancelBoundaryTokensFor taskElementId c =
     cancel_where (\<lambda>t. tk_status t = Waiting \<and> tk_elementType t = BoundaryEventT
       \<and> correlates ''hostTaskId'' taskElementId t) c"

definition cancelHostTaskAndBoundaries :: "string \<Rightarrow> string \<Rightarrow> ctx \<Rightarrow> ctx" where
  "cancelHostTaskAndBoundaries attachedToRef firingBoundaryTokenId c =
     cancel_where (\<lambda>t. tk_id t \<noteq> firingBoundaryTokenId \<and> tk_status t = Waiting
       \<and> (tk_elementId t = attachedToRef \<or> correlates ''hostTaskId'' attachedToRef t)) c"

definition cancelEbgSiblings :: "token \<Rightarrow> ctx \<Rightarrow> ctx" where
  "cancelEbgSiblings winner c =
     (if \<not> truthy (tk_parentTokenId winner) then c
      else cancel_where (\<lambda>t. tk_id t \<noteq> tk_id winner
        \<and> tk_parentTokenId t = tk_parentTokenId winner \<and> tk_status t = Waiting) c)"

section \<open>Multi-instance tasks\<close>

definition spawnMultiInstanceChild ::
  "token \<Rightarrow> flow_element \<Rightarrow> loop_characteristics \<Rightarrow> jsval \<Rightarrow> ctx \<Rightarrow> ctx" where
  "spawnMultiInstanceChild parentToken element lc item c =
     (let (scopeId, c1) = newId c;
          childScope = \<lparr>vs_id = scopeId, vs_parentScopeId = Some (tk_scopeId parentToken),
            vs_variables = (if truthy (lc_inputElement lc)
              then [(the (lc_inputElement lc), \<lparr>vv_type = VObject, vv_value = item\<rparr>)] else [])\<rparr>;
          c2 = saveScope childScope c1;
          (childToken, c3) = createToken (tk_instanceId parentToken) (el_id element) (el_type element) scopeId None c2;
          tagged = childToken\<lparr>tk_parentTokenId := Some (tk_id parentToken)\<rparr>
      in enqueuePending tagged (updateToken tagged c3))"

definition handleMultiInstanceStart ::
  "process_definition \<Rightarrow> token \<Rightarrow> flow_element \<Rightarrow> loop_characteristics \<Rightarrow> step" where
  "handleMultiInstanceStart d t element lc c =
     rbind (resolveScope (tk_scopeId t) c) (\<lambda>scope.
     rbind (Some (op_expressionEvaluator (cx_options c) (lc_inputCollection lc) scope)) (\<lambda>raw.
       case raw of
         JArray collection \<Rightarrow>
           (if collection = [] then
              rbind (requireInstance c) (\<lambda>i.
                advanceToken d t element
                  (emit (MultiInstanceCompleted (pi_id i) (tk_id t) (el_id element) 0)
                    (set_token_status Completed t c)))
            else
              let (n, c1) = now c;
                  waiting = t\<lparr>tk_status := Waiting,
                    tk_waitingFor := Some \<lparr>wc_type = WaitExternal, wc_correlationData = None\<rparr>,
                    tk_updatedAt := n\<rparr>;
                  c2 = updateToken waiting c1
              in rbind (requireInstance c2) (\<lambda>i.
                 if lc_isSequential lc then
                   ret (spawnMultiInstanceChild t element lc (hd collection)
                     (emit (MultiInstanceStarted (pi_id i) (tk_id t) (el_id element) (length collection) True)
                       (updateToken (waiting\<lparr>tk_loopState :=
                          Some \<lparr>ls_collection = collection, ls_index = 0, ls_iterationsRan = 0\<rparr>\<rparr>) c2)))
                 else
                   let c3 = emit (MultiInstanceStarted (pi_id i) (tk_id t) (el_id element) (length collection) False) c2
                   in rbind (if truthy (lc_outputCollection lc)
                             then mergeVariables (tk_scopeId t)
                               [(the (lc_outputCollection lc), \<lparr>vv_type = VArray, vv_value = JArray []\<rparr>)] c3
                             else ret c3)
                        (\<lambda>c4. ret (fold (spawnMultiInstanceChild t element lc) collection c4))))
       | _ \<Rightarrow> throw (RuntimeError (NotAnArray (lc_inputCollection lc)))))"

definition completeMultiInstance :: "process_definition \<Rightarrow> token \<Rightarrow> flow_element \<Rightarrow> nat \<Rightarrow> step" where
  "completeMultiInstance d parentToken element iterationsRan c =
     (let c1 = set_token_status Completed parentToken c
      in rbind (requireInstance c1) (\<lambda>i.
         rfold (moveTokenToFlow d parentToken) (el_outgoingFlows element)
           (cancelBoundaryTokensFor (el_id element)
             (emit (MultiInstanceCompleted (pi_id i) (tk_id parentToken) (el_id element) iterationsRan) c1))))"

text \<open>
  The guard shared by both completions: \<open>if (lc.completionCondition)\<close>, evaluated in the child's
  scope. Without a condition the answer is no and nothing is evaluated.
\<close>

definition completion_condition_holds :: "loop_characteristics \<Rightarrow> token \<Rightarrow> ctx \<Rightarrow> (engine_error, bool) res" where
  "completion_condition_holds lc childToken c =
     (if \<not> truthy (lc_completionCondition lc) then ret False
      else rbind (resolveScope (tk_scopeId childToken) c) (\<lambda>scope.
             Some (evaluateExpression c scope (the (lc_completionCondition lc)))))"

definition handleSequentialChildCompletion ::
  "process_definition \<Rightarrow> token \<Rightarrow> token \<Rightarrow> flow_element \<Rightarrow> loop_characteristics \<Rightarrow> step" where
  "handleSequentialChildCompletion d childToken parentToken element lc c =
     (case tk_loopState parentToken of
        None \<Rightarrow> ret c
      | Some loopState \<Rightarrow>
          let iterationsRan = ls_iterationsRan loopState + 1 in
          rbind (completion_condition_holds lc childToken c) (\<lambda>stop.
            if stop then completeMultiInstance d parentToken element iterationsRan c
            else
              let nextIndex = ls_index loopState + 1 in
              if length (ls_collection loopState) \<le> nextIndex
              then completeMultiInstance d parentToken element iterationsRan c
              else ret (spawnMultiInstanceChild parentToken element lc (ls_collection loopState ! nextIndex)
                     (updateToken (parentToken\<lparr>tk_loopState :=
                        Some \<lparr>ls_collection = ls_collection loopState, ls_index = nextIndex,
                              ls_iterationsRan = iterationsRan\<rparr>\<rparr>) c))))"

definition children_of :: "token \<Rightarrow> ctx \<Rightarrow> token list" where
  "children_of p c = filter (\<lambda>t. tk_parentTokenId t = Some (tk_id p)) (getAllTokens c)"

definition handleParallelChildCompletion ::
  "process_definition \<Rightarrow> token \<Rightarrow> token \<Rightarrow> flow_element \<Rightarrow> loop_characteristics \<Rightarrow> step" where
  "handleParallelChildCompletion d childToken parentToken element lc c =
     rbind (completion_condition_holds lc childToken c) (\<lambda>stop.
       if stop then
         let siblings = filter (\<lambda>t. tk_status t = Waiting) (children_of parentToken c);
             (n, c1) = now c;
             c2 = fold (cancel_token_at n) siblings c1;
             iterationsRan = length (filter (\<lambda>t. tk_status t = Completed) (children_of parentToken c2))
         in completeMultiInstance d parentToken element iterationsRan c2
       else
         let siblings = children_of parentToken c in
         if list_all is_over siblings
         then completeMultiInstance d parentToken element
                (length (filter (\<lambda>t. tk_status t = Completed) siblings)) c
         else ret c)"

text \<open>Collecting one child's output: \<open>if (lc.outputElement && lc.outputCollection)\<close>.\<close>

definition collect_output :: "loop_characteristics \<Rightarrow> token \<Rightarrow> token \<Rightarrow> step" where
  "collect_output lc childToken parentToken c =
     (if truthy (lc_outputElement lc) \<and> truthy (lc_outputCollection lc) then
        rbind (resolveScope (tk_scopeId childToken) c) (\<lambda>childScope.
          case map_of childScope (the (lc_outputElement lc)) of
            None \<Rightarrow> ret c
          | Some outputVal \<Rightarrow>
              rbind (resolveScope (tk_scopeId parentToken) c) (\<lambda>parentScope.
                let arr = (case map_of parentScope (the (lc_outputCollection lc)) of
                     Some v \<Rightarrow> (case vv_value v of JArray a \<Rightarrow> a | _ \<Rightarrow> [])
                   | None \<Rightarrow> [])
                in mergeVariables (tk_scopeId parentToken)
                  [(the (lc_outputCollection lc),
                    \<lparr>vv_type = VArray, vv_value = JArray (arr @ [vv_value outputVal])\<rparr>)] c))
      else ret c)"

definition handleMultiInstanceChildCompletion ::
  "process_definition \<Rightarrow> token \<Rightarrow> flow_element \<Rightarrow> loop_characteristics \<Rightarrow> step" where
  "handleMultiInstanceChildCompletion d childToken element lc c =
     (case List.find (\<lambda>t. Some (tk_id t) = tk_parentTokenId childToken) (getAllTokens c) of
        None \<Rightarrow> ret c
      | Some parentToken \<Rightarrow>
          rbind (collect_output lc childToken parentToken (set_token_status Completed childToken c)) (\<lambda>c1.
            if lc_isSequential lc
            then handleSequentialChildCompletion d childToken parentToken element lc c1
            else handleParallelChildCompletion d childToken parentToken element lc c1))"

section \<open>Tasks and intermediate events\<close>

definition handleServiceTask :: "process_definition \<Rightarrow> token \<Rightarrow> flow_element \<Rightarrow> service_task_attrs \<Rightarrow> step" where
  "handleServiceTask d t element attrs c =
     (case getLoopCharacteristics element of
        Some lc \<Rightarrow>
          if \<not> truthy (tk_parentTokenId t) then handleMultiInstanceStart d t element lc c
          else rbind (requireInstance c) (\<lambda>i.
            ret (spawnBoundaryTokens d t (el_id element) (suspendToken t WaitExternal
              (emit (ServiceTaskStarted (pi_id i) (tk_id t) (el_id element)
                (case sv_taskType attrs of Some ty \<Rightarrow> ty | None \<Rightarrow> ''unknown'')) c))))
      | None \<Rightarrow>
          rbind (requireInstance c) (\<lambda>i.
            ret (spawnBoundaryTokens d t (el_id element) (suspendToken t WaitExternal
              (emit (ServiceTaskStarted (pi_id i) (tk_id t) (el_id element)
                (case sv_taskType attrs of Some ty \<Rightarrow> ty | None \<Rightarrow> ''unknown'')) c)))))"

definition handleUserTask :: "process_definition \<Rightarrow> token \<Rightarrow> flow_element \<Rightarrow> step" where
  "handleUserTask d t element c =
     (case getLoopCharacteristics element of
        Some lc \<Rightarrow>
          if \<not> truthy (tk_parentTokenId t) then handleMultiInstanceStart d t element lc c
          else ret (spawnBoundaryTokens d t (el_id element) (suspendToken t WaitUserTask c))
      | None \<Rightarrow> ret (spawnBoundaryTokens d t (el_id element) (suspendToken t WaitUserTask c)))"

text \<open>The cases \<open>scriptTask\<close> and \<open>manualTask\<close> of \<open>processToken\<close>.\<close>

definition handleScriptTask :: "process_definition \<Rightarrow> token \<Rightarrow> flow_element \<Rightarrow> step" where
  "handleScriptTask d t element c =
     (case getLoopCharacteristics element of
        Some lc \<Rightarrow>
          if \<not> truthy (tk_parentTokenId t) then handleMultiInstanceStart d t element lc c
          else ret (suspendToken t WaitExternal c)
      | None \<Rightarrow> ret (suspendToken t WaitExternal c))"

definition handleManualTask :: "process_definition \<Rightarrow> token \<Rightarrow> flow_element \<Rightarrow> step" where
  "handleManualTask d t element c =
     (case getLoopCharacteristics element of
        Some lc \<Rightarrow>
          if \<not> truthy (tk_parentTokenId t) then handleMultiInstanceStart d t element lc c
          else handleMultiInstanceChildCompletion d t element lc c
      | None \<Rightarrow> advanceToken d t element c)"

definition name_or_empty :: "string option \<Rightarrow> string" where
  "name_or_empty s = (case s of Some x \<Rightarrow> x | None \<Rightarrow> [])"

definition handleIntermediateCatchEvent :: "token \<Rightarrow> event_definition \<Rightarrow> step" where
  "handleIntermediateCatchEvent t ed c =
     (if ed_type ed = TimerEvent then
        ret (suspendTokenWithCondition t \<lparr>wc_type = WaitTimer, wc_correlationData = None\<rparr> c)
      else if ed_type ed = MessageEvent then
        ret (suspendTokenWithCondition t \<lparr>wc_type = WaitMessage, wc_correlationData =
          Some [(''messageName'', JString (name_or_empty (ed_messageName ed)))]\<rparr> c)
      else if ed_type ed = SignalEvent then
        ret (suspendTokenWithCondition t \<lparr>wc_type = WaitSignal, wc_correlationData =
          Some [(''signalName'', JString (name_or_empty (ed_signalName ed)))]\<rparr> c)
      else throw (RuntimeError (UnsupportedCatch (ed_type ed))))"

definition handleBoundaryEventWait :: "token \<Rightarrow> string \<Rightarrow> event_definition \<Rightarrow> step" where
  "handleBoundaryEventWait t attachedToRef ed c =
     (let base = (''hostTaskId'', JString attachedToRef) in
      if ed_type ed = TimerEvent then
        ret (suspendTokenWithCondition t \<lparr>wc_type = WaitTimer, wc_correlationData = Some [base]\<rparr> c)
      else if ed_type ed = MessageEvent then
        ret (suspendTokenWithCondition t \<lparr>wc_type = WaitMessage, wc_correlationData =
          Some [base, (''messageName'', JString (name_or_empty (ed_messageName ed)))]\<rparr> c)
      else if ed_type ed = SignalEvent then
        ret (suspendTokenWithCondition t \<lparr>wc_type = WaitSignal, wc_correlationData =
          Some [base, (''signalName'', JString (name_or_empty (ed_signalName ed)))]\<rparr> c)
      else if ed_type ed = ErrorEvent then
        ret (suspendTokenWithCondition t \<lparr>wc_type = WaitExternal, wc_correlationData = Some [base]\<rparr> c)
      else if ed_type ed = CancelEvent then
        ret (suspendTokenWithCondition t \<lparr>wc_type = WaitExternal, wc_correlationData = Some [base]\<rparr> c)
      else throw (RuntimeError (UnsupportedBoundary (ed_type ed))))"

section \<open>Compensation\<close>

definition recordCompensationIfNeeded :: "process_definition \<Rightarrow> token \<Rightarrow> flow_element \<Rightarrow> step" where
  "recordCompensationIfNeeded d t element c =
     (case List.find (event_type_is CompensationEvent) (findBoundariesFor d (el_id element)) of
        None \<Rightarrow> ret c
      | Some compBoundary \<Rightarrow>
          let handlerId = (case el_eventDefinition compBoundary of
                None \<Rightarrow> None | Some ed \<Rightarrow> ed_compensationActivityRef ed) in
          if \<not> truthy handlerId then ret c
          else rbind (requireInstance c) (\<lambda>i.
            let (n, c1) = now c
            in ret (addCompensationRecord
                 \<lparr>cr_instanceId = pi_id i, cr_activityId = el_id element, cr_tokenId = tk_id t,
                  cr_handlerId = the handlerId, cr_completedAt = n\<rparr> c1)))"

text \<open>
  One round of the two loops that start compensation handlers. \<open>findHandler\<close> looks the handler's element
  up (a record without one is skipped), \<open>label\<close> is what the loop collects, \<open>sub\<close> the sub-process
  the handler token is tagged with.
\<close>

definition start_handler ::
  "(string \<Rightarrow> flow_element option) \<Rightarrow> (compensation_record \<Rightarrow> string) \<Rightarrow> string option \<Rightarrow> string \<Rightarrow> token \<Rightarrow> string
    \<Rightarrow> compensation_record \<Rightarrow> string list \<times> ctx \<Rightarrow> string list \<times> ctx" where
  "start_handler findHandler label sub instanceId source fromElementId r acc =
     (case acc of (started, c) \<Rightarrow>
        case findHandler (cr_handlerId r) of
          None \<Rightarrow> (started, c)
        | Some handlerElement \<Rightarrow>
            (let (handlerToken, c1) =
                   createToken instanceId (cr_handlerId r) (el_type handlerElement) (tk_scopeId source) None c;
                 tagged = handlerToken\<lparr>tk_parentTokenId := Some (tk_id source), tk_subProcessInstanceId := sub\<rparr>
             in (started @ [label r],
                 enqueuePending tagged
                   (emit (TokenMoved instanceId (tk_id tagged) fromElementId (cr_handlerId r) (el_type handlerElement))
                     (updateToken tagged c1)))))"

definition handleCompensationThrow :: "process_definition \<Rightarrow> token \<Rightarrow> flow_element \<Rightarrow> event_definition \<Rightarrow> step" where
  "handleCompensationThrow d t element ed c =
     rbind (requireInstance c) (\<lambda>i.
       let ref = ed_compensationActivityRef ed;
           target = (if truthy ref then ref else None);
           (records, c1) = (if truthy ref then consumeCompensationRecords (the ref) c
                            else consumeAllCompensationRecords c)
       in if records = [] then
            advanceToken d t element
              (emit (CompensationTriggered (pi_id i) (tk_id t) (el_id element) target []) c1)
          else
            let (handlerIds, c2) =
                  fold (start_handler (\<lambda>h. List.find (\<lambda>e. el_id e = h) (pd_elements d)) cr_handlerId None
                          (pi_id i) t (el_id element))
                    records ([], suspendToken t WaitExternal c1)
            in ret (emit (CompensationTriggered (pi_id i) (tk_id t) (el_id element) target handlerIds) c2))"

definition handleIntermediateThrowEvent :: "process_definition \<Rightarrow> token \<Rightarrow> flow_element \<Rightarrow> event_definition \<Rightarrow> step" where
  "handleIntermediateThrowEvent d t element ed c =
     (if ed_type ed = CompensationEvent then handleCompensationThrow d t element ed c
      else advanceToken d t element c)"

section \<open>Sub-processes and transactions\<close>

definition find_waiting_at :: "string \<Rightarrow> ctx \<Rightarrow> token option" where
  "find_waiting_at elementId c =
     List.find (\<lambda>t. tk_elementId t = elementId \<and> tk_status t = Waiting) (getAllTokens c)"

definition fireCancelBoundary :: "process_definition \<Rightarrow> token \<Rightarrow> string \<Rightarrow> step" where
  "fireCancelBoundary d outerToken subProcessElementId c =
     (case List.find (event_type_is CancelEvent) (findBoundariesFor d subProcessElementId) of
        None \<Rightarrow> ret c
      | Some cancelBoundary \<Rightarrow>
          (case find_waiting_at (el_id cancelBoundary) c of
             None \<Rightarrow> ret c
           | Some boundaryToken \<Rightarrow>
               rfold (moveTokenToFlow d boundaryToken) (el_outgoingFlows cancelBoundary)
                 (cancel_token_now outerToken
                   (emit (BoundaryEventTriggered (tk_instanceId outerToken) (tk_id boundaryToken)
                       (el_id cancelBoundary) True)
                     (set_token_status Completed boundaryToken c)))))"

definition handleSubProcess :: "process_definition \<Rightarrow> token \<Rightarrow> flow_element \<Rightarrow> bool \<Rightarrow> string \<Rightarrow> step" where
  "handleSubProcess d t element isTransaction startEventId c =
     rbind (requireInstance c) (\<lambda>i.
       let (childScopeId, c1) = newId c;
           c2 = saveScope \<lparr>vs_id = childScopeId, vs_parentScopeId = Some (tk_scopeId t), vs_variables = []\<rparr> c1;
           c3 = suspendToken t WaitExternal c2;
           c4 = (if isTransaction then spawnBoundaryTokens d t (el_id element) c3 else c3);
           c5 = emit (SubProcessStarted (pi_id i) (tk_id t) (el_id element)) c4;
           (innerBase, c6) = createToken (pi_id i) startEventId StartEventT childScopeId None c5;
           innerStart = innerBase\<lparr>tk_subProcessInstanceId := Some (el_id element)\<rparr>
       in ret (enqueuePending innerStart (updateToken innerStart c6)))"

definition inner_tokens :: "string \<Rightarrow> ctx \<Rightarrow> token list" where
  "inner_tokens sp c = filter (\<lambda>t. tk_subProcessInstanceId t = Some sp) (getAllTokens c)"

definition checkSubProcessCompletion :: "process_definition \<Rightarrow> string \<Rightarrow> step" where
  "checkSubProcessCompletion d sp c =
     (if filter is_live (inner_tokens sp c) \<noteq> [] then ret c
      else case find_waiting_at sp c of
          None \<Rightarrow> ret c
        | Some outerToken \<Rightarrow>
            rbind (requireInstance c) (\<lambda>i.
            rbind (case inner_tokens sp c of
                     [] \<Rightarrow> ret c
                   | firstInner # _ \<Rightarrow>
                       rbind (resolveScope (tk_scopeId firstInner) c) (\<lambda>innerVars.
                         if innerVars \<noteq> [] then mergeVariables (tk_scopeId outerToken) innerVars c else ret c))
              (\<lambda>c1.
            let c2 = emit (SubProcessCompleted (pi_id i) (tk_id outerToken) sp) c1
            in rbind (getElement d sp) (\<lambda>element. advanceToken d outerToken element c2))))"

definition handleTransactionCancel :: "process_definition \<Rightarrow> token \<Rightarrow> step" where
  "handleTransactionCancel d cancelToken c =
     (if \<not> truthy (tk_subProcessInstanceId cancelToken) then ret c
      else
        let sp = the (tk_subProcessInstanceId cancelToken) in
        rbind (requireInstance c) (\<lambda>i.
          let c1 = cancel_where (\<lambda>t. tk_id t \<noteq> tk_id cancelToken \<and> tk_subProcessInstanceId t = Some sp \<and> is_live t) c;
              outerToken = find_waiting_at sp c1;
              (records, c2) = consumeAllCompensationRecords c1;
              (compensatedActivities, c3) =
                fold (start_handler (findElementInTree (pd_elements d)) cr_activityId (Some sp)
                        (pi_id i) cancelToken (tk_elementId cancelToken))
                  records ([], c2);
              c4 = emit (TransactionCancelled (pi_id i) (tk_id cancelToken) sp compensatedActivities) c3
          in case (records, outerToken) of
               ([], Some outer) \<Rightarrow> fireCancelBoundary d outer sp c4
             | _ \<Rightarrow> ret c4))"

definition handleCompensationHandlerCompletion :: "process_definition \<Rightarrow> token \<Rightarrow> token \<Rightarrow> step" where
  "handleCompensationHandlerCompletion d handlerToken throwToken c =
     (let c1 = set_token_status Completed handlerToken c in
      if \<not> list_all is_over (children_of throwToken c1) then ret c1
      else
        rbind (requireInstance c1) (\<lambda>i.
          let c2 = emit (CompensationCompleted (pi_id i) (tk_id throwToken) (tk_elementId throwToken)) c1 in
          rbind (getElement d (tk_elementId throwToken)) (\<lambda>throwElement.
            if el_type throwElement = EndEventT \<and> event_type_is CancelEvent throwElement
                 \<and> truthy (tk_subProcessInstanceId throwToken)
            then
              let sp = the (tk_subProcessInstanceId throwToken) in
              case find_waiting_at sp c2 of
                Some outerToken \<Rightarrow> fireCancelBoundary d outerToken sp c2
              | None \<Rightarrow> ret c2
            else advanceToken d throwToken throwElement c2)))"

section \<open>End events\<close>

definition handleEndEvent :: "process_definition \<Rightarrow> token \<Rightarrow> event_definition \<Rightarrow> step" where
  "handleEndEvent d t ed c =
     (let c1 = set_token_status Completed t c in
      if ed_type ed = CancelEvent then handleTransactionCancel d t c1
      else if ed_type ed = TerminateEvent then
        completeInstance
          (fold cancel_token_now (filter (\<lambda>u. tk_id u \<noteq> tk_id t \<and> is_live u) (getAllTokens c1)) c1)
      else if truthy (tk_subProcessInstanceId t) then
        checkSubProcessCompletion d (the (tk_subProcessInstanceId t)) c1
      else if filter is_live (getAllTokens c1) = [] \<and> pendingCount c1 = 0 then completeInstance c1
      else ret c1)"

section \<open>Gateways\<close>

definition handleExclusiveGateway :: "process_definition \<Rightarrow> token \<Rightarrow> string \<Rightarrow> string option \<Rightarrow> step" where
  "handleExclusiveGateway d t gid defaultFlow c =
     rbind (resolveScope (tk_scopeId t) c) (\<lambda>scope.
     rbind (Some (evaluateExclusiveSplit gid (getOutgoingFlows d gid) defaultFlow (evaluateExpression c scope)))
       (\<lambda>selectedFlowId. moveTokenToFlow d t selectedFlowId (set_token_status Completed t c)))"

definition handleParallelGateway :: "process_definition \<Rightarrow> token \<Rightarrow> string \<Rightarrow> step" where
  "handleParallelGateway d t gid c =
     (let outgoing = getOutgoingFlows d gid;
          incoming = getIncomingFlows d gid in
      if 1 < length incoming then
        let arrivingFlowId = (case tk_arrivedViaFlowId t of Some f \<Rightarrow> f | None \<Rightarrow> sf_id (hd incoming)) in
        rbind (case getJoinState gid c of
                 Some (ParallelJoin s) \<Rightarrow> ret (s, c)
               | Some (InclusiveJoin _) \<Rightarrow> throw TypeFault
               | None \<Rightarrow>
                   rbind (requireInstance c) (\<lambda>i.
                     let (activationId, c1) = newId c
                     in ret (\<lparr>pj_gatewayId = gid, pj_instanceId = pi_id i, pj_activationId = activationId,
                              pj_arrivedFromFlows = [], pj_expectedFlows = map sf_id incoming\<rparr>, c1)))
          (\<lambda>(joinState, c1).
            let (fires, updatedState) = evaluateParallelJoin gid arrivingFlowId joinState;
                c2 = set_token_status Completed t c1
            in if fires
               then rfold (moveTokenToFlow d t) (map sf_id outgoing) (deleteJoinState gid c2)
               else ret (saveJoinState (ParallelJoin updatedState) c2))
      else
        rbind (Some (evaluateParallelSplit gid outgoing)) (\<lambda>selectedFlowIds.
          rfold (moveTokenToFlow d t) selectedFlowIds (set_token_status Completed t c)))"

definition findInclusiveJoinIncoming ::
  "process_definition \<Rightarrow> string list \<Rightarrow> (string \<times> string list) option" where
  "findInclusiveJoinIncoming d activatedFlowIds =
     (let gatewayIncomingIds = (\<lambda>e. map sf_id (getIncomingFlows d (el_id e)));
          known = (\<lambda>fid. List.find (\<lambda>f. sf_id f = fid) (pd_sequenceFlows d) \<noteq> None)
      in case List.find
           (\<lambda>e. el_type e = InclusiveGatewayT \<and> 1 < length (gatewayIncomingIds e)
             \<and> filter (\<lambda>fid. known fid \<and> fid \<in> set (gatewayIncomingIds e)) activatedFlowIds \<noteq> [])
           (pd_elements d) of
           None \<Rightarrow> None
         | Some e \<Rightarrow> Some (el_id e, filter (\<lambda>fid. fid \<in> set (gatewayIncomingIds e)) activatedFlowIds))"

definition handleInclusiveGateway :: "process_definition \<Rightarrow> token \<Rightarrow> string \<Rightarrow> string option \<Rightarrow> step" where
  "handleInclusiveGateway d t gid defaultFlow c =
     (let outgoing = getOutgoingFlows d gid;
          incoming = getIncomingFlows d gid in
      if 1 < length incoming then
        let arrivingFlowId = (case tk_arrivedViaFlowId t of Some f \<Rightarrow> f | None \<Rightarrow> sf_id (hd incoming)) in
        (case getJoinState gid c of
           None \<Rightarrow> throw (RuntimeError (NoSplitState gid))
         | Some (ParallelJoin _) \<Rightarrow> throw TypeFault
         | Some (InclusiveJoin joinState) \<Rightarrow>
             let (fires, updatedState) = evaluateInclusiveJoin gid arrivingFlowId joinState;
                 c1 = set_token_status Completed t c
             in if fires
                then rfold (moveTokenToFlow d t) (map sf_id outgoing) (deleteJoinState gid c1)
                else ret (saveJoinState (InclusiveJoin updatedState) c1))
      else
        rbind (resolveScope (tk_scopeId t) c) (\<lambda>scope.
        rbind (Some (evaluateInclusiveSplit gid outgoing defaultFlow (evaluateExpression c scope)))
          (\<lambda>activatedFlowIds.
        rbind (case findInclusiveJoinIncoming d activatedFlowIds of
                 None \<Rightarrow> ret c
               | Some (joinGatewayId, incomingFlows) \<Rightarrow>
                   rbind (requireInstance c) (\<lambda>i.
                     let (activationId, c1) = newId c
                     in ret (saveJoinState (InclusiveJoin
                          \<lparr>ij_gatewayId = joinGatewayId, ij_instanceId = pi_id i, ij_activationId = activationId,
                           ij_activatedIncomingFlows = incomingFlows, ij_arrivedFromFlows = []\<rparr>) c1)))
          (\<lambda>c2. rfold (moveTokenToFlow d t) activatedFlowIds (set_token_status Completed t c2)))))"

text \<open>One round of the branch loop of an event-based gateway.\<close>

definition spawn_branch :: "process_definition \<Rightarrow> token \<Rightarrow> sequence_flow \<Rightarrow> string list \<times> ctx
    \<Rightarrow> (engine_error, string list \<times> ctx) res" where
  "spawn_branch d t flow acc =
     (case acc of (branches, c) \<Rightarrow>
        rbind (getElement d (sf_targetRef flow)) (\<lambda>target.
          let (baseToken, c1) =
                createToken (tk_instanceId t) (el_id target) (el_type target) (tk_scopeId t) (Some (sf_id flow)) c;
              childToken = baseToken\<lparr>tk_parentTokenId := Some (tk_id t)\<rparr>
          in ret (branches @ [el_id target],
               enqueuePending childToken
                 (emit (TokenMoved (tk_instanceId t) (tk_id childToken) (tk_elementId t) (el_id target) (el_type target))
                   (updateToken childToken c1)))))"

definition handleEventBasedGateway :: "process_definition \<Rightarrow> token \<Rightarrow> element_base \<Rightarrow> bool option \<Rightarrow> step" where
  "handleEventBasedGateway d t b instantiate c =
     rbind (Some (validateEventBasedGateway b instantiate d)) (\<lambda>_.
     rbind (rfold (spawn_branch d t) (getOutgoingFlows d (eb_id b)) ([], set_token_status Completed t c))
       (\<lambda>(branchElementIds, c1).
         ret (emit (EventBasedGatewayActivated (tk_instanceId t) (tk_id t) (eb_id b) branchElementIds) c1)))"

section \<open>Dispatch\<close>

text \<open>The \<open>switch (element.type)\<close> of \<open>processToken\<close>; a call activity falls to the default.\<close>

fun dispatch :: "process_definition \<Rightarrow> token \<Rightarrow> flow_element \<Rightarrow> step" where
  "dispatch d t (StartEvent b ed inputs) c = advanceToken d t (StartEvent b ed inputs) c"
| "dispatch d t (EndEvent b ed) c = handleEndEvent d t ed c"
| "dispatch d t (ServiceTask b attrs tc) c = handleServiceTask d t (ServiceTask b attrs tc) attrs c"
| "dispatch d t (UserTask b attrs tc) c = handleUserTask d t (UserTask b attrs tc) c"
| "dispatch d t (ScriptTask b attrs tc) c = handleScriptTask d t (ScriptTask b attrs tc) c"
| "dispatch d t (ManualTask b tc) c = handleManualTask d t (ManualTask b tc) c"
| "dispatch d t (IntermediateCatchEvent b ed) c = handleIntermediateCatchEvent t ed c"
| "dispatch d t (IntermediateThrowEvent b ed) c =
     handleIntermediateThrowEvent d t (IntermediateThrowEvent b ed) ed c"
| "dispatch d t (BoundaryEvent b host cancelActivity ed) c = handleBoundaryEventWait t host ed c"
| "dispatch d t (Gateway Exclusive b dflt inst) c = handleExclusiveGateway d t (eb_id b) dflt c"
| "dispatch d t (Gateway Parallel b dflt inst) c = handleParallelGateway d t (eb_id b) c"
| "dispatch d t (Gateway Inclusive b dflt inst) c = handleInclusiveGateway d t (eb_id b) dflt c"
| "dispatch d t (Gateway EventBased b dflt inst) c = handleEventBasedGateway d t b inst c"
| "dispatch d t (SubProcess b tx els fls start) c =
     handleSubProcess d t (SubProcess b tx els fls start) (tx = Some True) start c"
| "dispatch d t (CallActivity b attrs) c = throw (RuntimeError (UnsupportedElement CallActivityT))"

definition processToken :: "process_definition \<Rightarrow> token \<Rightarrow> step" where
  "processToken d t c = rbind (getElement d (tk_elementId t)) (\<lambda>element. dispatch d t element c)"

end
