(* ===== verification/Execution_Engine.thy ===== *)
theory Execution_Engine
  imports Engine_Handlers
begin

text \<open>
  The execution loop, the command handlers and the entry point \<open>execute\<close> of
  \<open>ExecutionEngine.ts\<close>. \<open>runLoop\<close> may run forever (a cycle of automatic elements), which is the
  result \<open>None\<close>; \<open>Termination\<close> says when it returns.
\<close>

datatype engine_command =
    StartProcess "variables option" "string option" "string option"
  | CompleteServiceTask string "variables option"
  | FailServiceTask string string string
  | CompleteUserTask string string "variables option"
  | FireTimer string
  | DeliverMessage string "variables option"
  | BroadcastSignal string "variables option"
  | SuspendInstance
  | ResumeInstance
  | CancelInstance

section \<open>Execution loop\<close>

partial_function (option) runLoop :: "process_definition \<Rightarrow> ctx \<Rightarrow> (engine_error, ctx) res" where
  "runLoop d c =
     (case dequeuePending c of
        None \<Rightarrow> Some (Inr c)
      | Some (t, c1) \<Rightarrow>
          (case processToken d t c1 of
             None \<Rightarrow> None
           | Some (Inl e) \<Rightarrow> Some (Inl e)
           | Some (Inr c2) \<Rightarrow> runLoop d c2))"

declare runLoop.simps [code]

section \<open>Command handlers\<close>

definition handleStartProcess ::
  "process_definition \<Rightarrow> variables option \<Rightarrow> string option \<Rightarrow> string option \<Rightarrow> step" where
  "handleStartProcess d vars correlationKey businessKey c =
     (let (t0, c1) = now c;
          (instanceId, c2) = newId c1;
          (scopeId, c3) = newId c2;
          c4 = saveScope \<lparr>vs_id = scopeId, vs_parentScopeId = None,
                 vs_variables = (case vars of Some v \<Rightarrow> v | None \<Rightarrow> [])\<rparr> c3;
          c5 = setInstance \<lparr>pi_id = instanceId, pi_definitionId = pd_id d, pi_definitionVersion = pd_version d,
                 pi_status = ActiveI, pi_rootScopeId = scopeId, pi_correlationKey = correlationKey,
                 pi_businessKey = businessKey, pi_parentInstanceId = None, pi_parentTokenId = None,
                 pi_startedAt = t0, pi_completedAt = None, pi_errorInfo = None, pi_version = None\<rparr> c4;
          c6 = emit (ProcessInstanceStarted instanceId (pd_id d) (pd_version d)) c5
      in rbind (getElement d (pd_startEventId d)) (\<lambda>startElement.
           let (startToken, c7) = createToken instanceId (el_id startElement) (el_type startElement) scopeId None c6
           in runLoop d (enqueuePending startToken c7)))"

text \<open>\<open>if (outputVariables && Object.keys(outputVariables).length > 0)\<close>.\<close>

definition merge_output :: "string \<Rightarrow> variables option \<Rightarrow> step" where
  "merge_output scopeId vars c =
     (case vars of Some (v # vs) \<Rightarrow> mergeVariables scopeId (v # vs) c | _ \<Rightarrow> ret c)"

definition resume_if_suspended :: "step" where
  "resume_if_suspended c =
     rbind (requireInstance c) (\<lambda>i.
       if pi_status i = SuspendedI
       then ret (emit (ProcessInstanceResumed (pi_id i)) (setInstance (i\<lparr>pi_status := ActiveI\<rparr>) c))
       else ret c)"

text \<open>The ordinary end of \<open>handleCompleteTask\<close>, after the two special cases.\<close>

definition complete_ordinary :: "process_definition \<Rightarrow> token \<Rightarrow> flow_element \<Rightarrow> step" where
  "complete_ordinary d t element c =
     rbind (requireInstance c) (\<lambda>i.
       let c1 = cancelBoundaryTokensFor (tk_elementId t)
             (emit (ServiceTaskCompleted (pi_id i) (tk_id t) (tk_elementId t) 0) c)
       in rbind (recordCompensationIfNeeded d t element c1) (\<lambda>c2.
          rbind (advanceToken d t element c2) (runLoop d)))"

text \<open>
  The parent of a completing token (\<open>getAllTokens().find(t => t.id === token.parentTokenId)\<close>)
  under the guard \<open>if (token.parentTokenId)\<close>.
\<close>

definition find_parent :: "token \<Rightarrow> ctx \<Rightarrow> token option" where
  "find_parent t c =
     (if truthy (tk_parentTokenId t)
      then List.find (\<lambda>p. Some (tk_id p) = tk_parentTokenId t) (getAllTokens c) else None)"

definition complete_with_parent :: "process_definition \<Rightarrow> token \<Rightarrow> flow_element \<Rightarrow> step" where
  "complete_with_parent d t element c =
     (case find_parent t c of
        None \<Rightarrow> complete_ordinary d t element c
      | Some parentToken \<Rightarrow>
          (case getLoopCharacteristics element of
             Some lc \<Rightarrow>
               if tk_elementId parentToken = tk_elementId t then
                 rbind (if el_type element = ServiceTaskT
                        then rbind (requireInstance c) (\<lambda>i.
                          ret (emit (ServiceTaskCompleted (pi_id i) (tk_id t) (tk_elementId t) 0) c))
                        else ret c)
                   (\<lambda>c1. rbind (handleMultiInstanceChildCompletion d t element lc c1) (runLoop d))
               else if (tk_elementType parentToken = IntermediateThrowEventT
                          \<or> tk_elementType parentToken = EndEventT) \<and> isForCompensation element then
                 rbind (handleCompensationHandlerCompletion d t parentToken c) (runLoop d)
               else complete_ordinary d t element c
           | None \<Rightarrow>
               if (tk_elementType parentToken = IntermediateThrowEventT
                    \<or> tk_elementType parentToken = EndEventT) \<and> isForCompensation element then
                 rbind (handleCompensationHandlerCompletion d t parentToken c) (runLoop d)
               else complete_ordinary d t element c))"

definition handleCompleteTask :: "process_definition \<Rightarrow> string \<Rightarrow> variables option \<Rightarrow> step" where
  "handleCompleteTask d tokenId outputVariables c =
     rbind (requireToken tokenId c) (\<lambda>t.
       if tk_status t \<noteq> Waiting then throw (RuntimeError (CannotComplete tokenId (tk_status t)))
       else
         rbind (resume_if_suspended c) (\<lambda>c1.
         rbind (merge_output (tk_scopeId t) outputVariables c1) (\<lambda>c2.
         rbind (getElement d (tk_elementId t)) (\<lambda>element.
           complete_with_parent d t element c2))))"

fun boundary_cancels :: "flow_element \<Rightarrow> bool" where
  "boundary_cancels (BoundaryEvent _ _ ca _) = ca"
| "boundary_cancels _ = False"

definition handleFailServiceTask :: "process_definition \<Rightarrow> string \<Rightarrow> string \<Rightarrow> string \<Rightarrow> step" where
  "handleFailServiceTask d tokenId code message c =
     rbind (requireToken tokenId c) (\<lambda>t.
       if tk_status t \<noteq> Waiting then throw (RuntimeError (CannotFail tokenId (tk_status t)))
       else rbind (requireInstance c) (\<lambda>i.
         let c1 = emit (ServiceTaskFailed (pi_id i) (tk_id t) (tk_elementId t) message 1) c in
         case findMatchingErrorBoundary d (tk_elementId t) code of
           Some errorBoundary \<Rightarrow>
             let c2 = cancelHostTaskAndBoundaries (tk_elementId t) [] (cancel_token_now t c1);
                 c3 = emit (BoundaryEventTriggered (pi_id i) (tk_id t) (el_id errorBoundary)
                        (boundary_cancels errorBoundary))
                      (emit (ErrorThrown (pi_id i) (tk_id t) code True) c2)
             in rbind (rfold (moveTokenToFlow d t) (el_outgoingFlows errorBoundary) c3) (runLoop d)
         | None \<Rightarrow>
             ret (emit (ErrorThrown (pi_id i) (tk_id t) code False)
               (emit (ProcessInstanceSuspended (pi_id i))
                 (setInstance (i\<lparr>pi_status := SuspendedI,
                    pi_errorInfo := Some \<lparr>pe_code = code, pe_message = message,
                      pe_elementId = Some (tk_elementId t), pe_tokenId = Some (tk_id t)\<rparr>\<rparr>) c1)))))"

definition handleSuspendInstance :: "step" where
  "handleSuspendInstance c =
     rbind (requireInstance c) (\<lambda>i.
       if pi_status i \<noteq> ActiveI then throw (RuntimeError (CannotSuspend (pi_status i)))
       else ret (emit (ProcessInstanceSuspended (pi_id i)) (setInstance (i\<lparr>pi_status := SuspendedI\<rparr>) c)))"

definition handleResumeInstance :: "step" where
  "handleResumeInstance c =
     rbind (requireInstance c) (\<lambda>i.
       if pi_status i \<noteq> SuspendedI then throw (RuntimeError (CannotResume (pi_status i)))
       else ret (emit (ProcessInstanceResumed (pi_id i)) (setInstance (i\<lparr>pi_status := ActiveI\<rparr>) c)))"

definition handleCancelInstance :: "step" where
  "handleCancelInstance c =
     (let c1 = cancel_where is_live c
      in rbind (requireInstance c1) (\<lambda>i.
         ret (emit (ProcessInstanceTerminated (pi_id i) ''cancelled by admin'')
           (setInstance (i\<lparr>pi_status := TerminatedI\<rparr>) c1))))"

definition handleFireTimer :: "process_definition \<Rightarrow> string \<Rightarrow> step" where
  "handleFireTimer d tokenId c =
     rbind (requireToken tokenId c) (\<lambda>t.
       if tk_status t \<noteq> Waiting then throw (RuntimeError (CannotFireTimer tokenId (tk_status t)))
       else if tk_elementType t = BoundaryEventT then
         rbind (getElement d (tk_elementId t)) (\<lambda>element.
           let c1 = set_token_status Completed t c;
               c2 = (case element of
                   BoundaryEvent _ host cancelActivity _ \<Rightarrow>
                     if cancelActivity then cancelHostTaskAndBoundaries host tokenId c1 else c1
                 | _ \<Rightarrow> c1)
           in rbind (rfold (moveTokenToFlow d t) (el_outgoingFlows element) c2) (runLoop d))
       else handleCompleteTask d tokenId None (cancelEbgSiblings t c))"

text \<open>One round of the delivery loops of messages and signals.\<close>

definition deliver_to :: "process_definition \<Rightarrow> variables option \<Rightarrow> token \<Rightarrow> step" where
  "deliver_to d vars t c =
     rbind (requireToken (tk_id t) c) (\<lambda>current.
       if tk_status current \<noteq> Waiting then ret c
       else rbind (merge_output (tk_scopeId t) vars c) (\<lambda>c1.
         advanceTokenFlows d t (cancelEbgSiblings t (set_token_status Completed t c1))))"

definition handleDeliverMessage :: "process_definition \<Rightarrow> string \<Rightarrow> variables option \<Rightarrow> step" where
  "handleDeliverMessage d messageName vars c =
     (let targets = filter (\<lambda>t. tk_status t = Waiting \<and> waits_for WaitMessage t
            \<and> correlates ''messageName'' messageName t) (getAllTokens c)
      in rbind (rfold (deliver_to d vars) targets c) (runLoop d))"

definition handleBroadcastSignal :: "process_definition \<Rightarrow> string \<Rightarrow> variables option \<Rightarrow> step" where
  "handleBroadcastSignal d signalName vars c =
     (let targets = filter (\<lambda>t. tk_status t = Waiting \<and> waits_for WaitSignal t
            \<and> correlates ''signalName'' signalName t) (getAllTokens c)
      in rbind (rfold (deliver_to d vars) targets c) (runLoop d))"

section \<open>Entry point\<close>

fun handle_command :: "process_definition \<Rightarrow> engine_command \<Rightarrow> step" where
  "handle_command d (StartProcess vars ck bk) c = handleStartProcess d vars ck bk c"
| "handle_command d (CompleteServiceTask tokenId vars) c = handleCompleteTask d tokenId vars c"
| "handle_command d (FailServiceTask tokenId code message) c = handleFailServiceTask d tokenId code message c"
| "handle_command d (CompleteUserTask tokenId completedBy vars) c = handleCompleteTask d tokenId vars c"
| "handle_command d (FireTimer tokenId) c = handleFireTimer d tokenId c"
| "handle_command d (DeliverMessage name vars) c = handleDeliverMessage d name vars c"
| "handle_command d (BroadcastSignal name vars) c = handleBroadcastSignal d name vars c"
| "handle_command d SuspendInstance c = handleSuspendInstance c"
| "handle_command d ResumeInstance c = handleResumeInstance c"
| "handle_command d CancelInstance c = handleCancelInstance c"

definition execute ::
  "process_definition \<Rightarrow> engine_command \<Rightarrow> engine_state option \<Rightarrow> execute_options
    \<Rightarrow> (engine_error, engine_state \<times> execution_event list) res" where
  "execute d command state opts =
     rbind (handle_command d command (new_context state opts)) toResult"

section \<open>Evaluation\<close>

text \<open>The loop and the scope chain unfold on a known queue and a known scope: a run evaluates by \<open>simp\<close>.\<close>

lemma runLoop_Nil: "cx_pendingQueue c = [] \<Longrightarrow> runLoop d c = Some (Inr c)"
  by (subst runLoop.simps) (simp add: dequeuePending_def)

lemma runLoop_Cons:
  "cx_pendingQueue c = t # ts \<Longrightarrow>
     runLoop d c = rbind (processToken d t (c\<lparr>cx_pendingQueue := ts\<rparr>)) (runLoop d)"
  by (subst runLoop.simps) (simp add: dequeuePending_def rbind_def split: option.splits sum.splits)

lemma scope_chain_None: "scope_chain m None chain = Some chain"
  by (subst scope_chain.simps) simp

lemma scope_chain_Some: "scope_chain m (Some s) chain = scope_chain m (parent_scope m s) (s # chain)"
  by (subst scope_chain.simps) simp

lemmas context_eval =
  map_from_def map_values_def now_def newId_def emit_def updateToken_def createToken_def requireToken_def
  requireInstance_def setInstance_def getAllTokens_def enqueuePending_def dequeuePending_def
  pendingCount_def saveScope_def parent_scope_def scope_chain_None scope_chain_Some merge_chain_def
  resolveScope_def mergeVariables_def getJoinState_def saveJoinState_def deleteJoinState_def
  addCompensationRecord_def latest_first_def consumeCompensationRecords_def
  consumeAllCompensationRecords_def toResult_def assign_def

lemmas tree_eval =
  findFlowInTree_def findFlowsBySource_def findFlowsByTarget_def findBoundariesInTree_def
  findBoundariesFor_def getElement_def getFlow_def getOutgoingFlows_def getIncomingFlows_def or_list_def

lemmas handler_eval =
  set_token_status_def cancel_token_at_def cancel_token_now_def suspendTokenWithCondition_def
  suspendToken_def tag_sub_process_def moveTokenToFlow_def advanceToken_def advanceTokenFlows_def
  completeInstance_def evaluateExpression_def getLoopCharacteristics_def isForCompensation_def
  event_type_is_def correlates_def waits_for_def is_live_def is_over_def cancel_where_def
  spawnBoundaryTokens_def error_code_of_def findMatchingErrorBoundary_def cancelBoundaryTokensFor_def
  cancelHostTaskAndBoundaries_def cancelEbgSiblings_def spawnMultiInstanceChild_def
  handleMultiInstanceStart_def completeMultiInstance_def completion_condition_holds_def
  handleSequentialChildCompletion_def children_of_def handleParallelChildCompletion_def
  collect_output_def handleMultiInstanceChildCompletion_def handleServiceTask_def handleUserTask_def
  handleScriptTask_def handleManualTask_def name_or_empty_def handleIntermediateCatchEvent_def
  handleBoundaryEventWait_def recordCompensationIfNeeded_def start_handler_def handleCompensationThrow_def
  handleIntermediateThrowEvent_def find_waiting_at_def fireCancelBoundary_def handleSubProcess_def
  inner_tokens_def checkSubProcessCompletion_def handleTransactionCancel_def
  handleCompensationHandlerCompletion_def handleEndEvent_def handleExclusiveGateway_def
  handleParallelGateway_def findInclusiveJoinIncoming_def handleInclusiveGateway_def spawn_branch_def
  handleEventBasedGateway_def processToken_def evaluateExclusiveSplit_def evaluateInclusiveSplit_def
  evaluateInclusiveJoin_def evaluateParallelSplit_def evaluateParallelJoin_def is_default_flow_def
  validateEventBasedGateway_def supported_event_types_def set_add_def set_from_def

lemmas command_eval =
  handleStartProcess_def merge_output_def resume_if_suspended_def complete_ordinary_def find_parent_def
  complete_with_parent_def handleCompleteTask_def handleFailServiceTask_def handleSuspendInstance_def
  handleResumeInstance_def handleCancelInstance_def handleFireTimer_def deliver_to_def
  handleDeliverMessage_def handleBroadcastSignal_def execute_def

lemmas engine_eval =
  context_eval tree_eval handler_eval command_eval runLoop_Nil runLoop_Cons ret_def truthy_def Let_def

end
