(* ===== verification/Token_Machine.thy ===== *)
theory Token_Machine
  imports Execution_Engine
begin

text \<open>
  The abstract specification of the engine: a token machine. Its steps (\<open>prim\<close>, \<open>mstep\<close>) are the
  elementary changes a context may undergo; the handlers are shown to be sequences of such steps in
  \<open>Engine_Refinement\<close>, so every fact proved here by rule induction holds of the engine.

  The machine has a strict mode (\<open>b = True\<close>): a token is changed only while it is live (active or
  waiting) and no longer queued, tokens are created only while the instance runs, and the instance
  completes only when no token is live.
\<close>

section \<open>Well-formed contexts\<close>

text \<open>Two copies of the same visit: everything but status, wait condition, loop state and update time.\<close>

definition same_visit :: "token \<Rightarrow> token \<Rightarrow> bool" where
  "same_visit t u \<longleftrightarrow>
     t = u\<lparr>tk_status := tk_status t, tk_waitingFor := tk_waitingFor t,
           tk_loopState := tk_loopState t, tk_updatedAt := tk_updatedAt t\<rparr>"

definition token_ids :: "ctx \<Rightarrow> string set" where
  "token_ids c = fst ` set (cx_tokenMap c)"

definition scope_ids :: "ctx \<Rightarrow> string set" where
  "scope_ids c = fst ` set (cx_scopeMap c)"

definition pending_ids :: "ctx \<Rightarrow> string set" where
  "pending_ids c = tk_id ` set (cx_pendingQueue c)"

definition token_at :: "ctx \<Rightarrow> string \<Rightarrow> token option" where
  "token_at c i = map_of (cx_tokenMap c) i"

definition knows :: "ctx \<Rightarrow> token \<Rightarrow> bool" where
  "knows c t \<longleftrightarrow> (\<exists>u. token_at c (tk_id t) = Some u \<and> same_visit t u)"

text \<open>The ids the generator will give are unused, and it never gives one twice.\<close>

definition fresh_ids :: "ctx \<Rightarrow> bool" where
  "fresh_ids c \<longleftrightarrow> inj (op_generateId (cx_options c)) \<and>
     (\<forall>n \<ge> cx_idCalls c. op_generateId (cx_options c) n \<notin> token_ids c \<union> scope_ids c)"

text \<open>Every scope's parent is a scope of the context, and going to the parent descends a rank.\<close>

definition scope_tree :: "(string \<times> variable_scope) list \<Rightarrow> bool" where
  "scope_tree m \<longleftrightarrow>
     (\<exists>rank :: string \<Rightarrow> nat. \<forall>k s p. map_of m k = Some s \<longrightarrow> vs_parentScopeId s = Some p \<longrightarrow>
        p \<in> fst ` set m \<and> rank p < rank k)"

definition wf_tokens :: "ctx \<Rightarrow> bool" where
  "wf_tokens c \<longleftrightarrow> distinct (map fst (cx_tokenMap c)) \<and>
     (\<forall>k t. token_at c k = Some t \<longrightarrow>
        tk_id t = k \<and>
        (\<exists>i. cx_instance c = Some i \<and> tk_instanceId t = pi_id i) \<and>
        tk_scopeId t \<in> scope_ids c \<and>
        (\<forall>p. tk_parentTokenId t = Some p \<longrightarrow> p \<in> token_ids c \<and> p \<noteq> k))"

definition wf_queue :: "ctx \<Rightarrow> bool" where
  "wf_queue c \<longleftrightarrow> distinct (map tk_id (cx_pendingQueue c)) \<and>
     (\<forall>t \<in> set (cx_pendingQueue c). tk_status t = Active \<and> knows c t)"

definition wf_scopes :: "ctx \<Rightarrow> bool" where
  "wf_scopes c \<longleftrightarrow> distinct (map fst (cx_scopeMap c)) \<and>
     (\<forall>k s. map_of (cx_scopeMap c) k = Some s \<longrightarrow> vs_id s = k) \<and> scope_tree (cx_scopeMap c)"

definition wf_ctx :: "ctx \<Rightarrow> bool" where
  "wf_ctx c \<longleftrightarrow> cx_instance c \<noteq> None \<and> wf_tokens c \<and> wf_queue c \<and> wf_scopes c \<and> fresh_ids c"

definition running :: "ctx \<Rightarrow> bool" where
  "running c \<longleftrightarrow> (\<exists>i. cx_instance c = Some i \<and> pi_status i \<noteq> CompletedI)"

text \<open>The queued copies are the stored tokens.\<close>

definition in_sync :: "ctx \<Rightarrow> bool" where
  "in_sync c \<longleftrightarrow> (\<forall>t \<in> set (cx_pendingQueue c). token_at c (tk_id t) = Some t)"

definition no_live :: "ctx \<Rightarrow> bool" where
  "no_live c \<longleftrightarrow> (\<forall>k t. token_at c k = Some t \<longrightarrow> \<not> is_live t)"

definition good :: "bool \<Rightarrow> ctx \<Rightarrow> bool" where
  "good b c \<longleftrightarrow> wf_ctx c \<and> (b \<longrightarrow> running c \<and> in_sync c)"

text \<open>A token that may be changed in the given mode.\<close>

definition cur :: "bool \<Rightarrow> ctx \<Rightarrow> token \<Rightarrow> bool" where
  "cur b c t \<longleftrightarrow> knows c t \<and>
     (b \<longrightarrow> (\<exists>u. token_at c (tk_id t) = Some u \<and> is_live u) \<and> tk_id t \<notin> pending_ids c)"

definition settled :: "string \<Rightarrow> ctx \<Rightarrow> bool" where
  "settled i c \<longleftrightarrow> (\<exists>u. token_at c i = Some u \<and> tk_status u \<noteq> Active)"

section \<open>The steps\<close>

text \<open>
  What the join states and the compensation records may become: an entry is an old one, or it
  belongs to the instance (the context's own, or that of a join state already there) and a join state
  is under its gateway's id; records are dropped, kept in order, or appended.
\<close>

definition own_instance :: "ctx \<Rightarrow> string \<Rightarrow> bool" where
  "own_instance c k \<longleftrightarrow> (\<exists>i. cx_instance c = Some i \<and> pi_id i = k) \<or>
     (\<exists>g. g \<in> snd ` set (cx_joinStateMap c) \<and> js_instanceId g = k)"

definition join_update :: "ctx \<Rightarrow> (string \<times> gateway_join_state) list \<Rightarrow> bool" where
  "join_update c m \<longleftrightarrow> (distinct (map fst (cx_joinStateMap c)) \<longrightarrow> distinct (map fst m)) \<and>
     (\<forall>p \<in> set m. p \<in> set (cx_joinStateMap c) \<or>
        fst p = js_gatewayId (snd p) \<and> own_instance c (js_instanceId (snd p)))"

definition record_update :: "ctx \<Rightarrow> compensation_record list \<Rightarrow> bool" where
  "record_update c rs \<longleftrightarrow> (\<exists>P new. rs = filter P (cx_compensationList c) @ new \<and>
     (\<forall>r \<in> set new. \<exists>i. cx_instance c = Some i \<and> cr_instanceId r = pi_id i))"

inductive prim :: "bool \<Rightarrow> ctx \<Rightarrow> ctx \<Rightarrow> bool" for b :: bool where
  prim_emit: "prim b c (emit e c)"
| prim_tick: "prim b c (snd (now c))"
| prim_skip_id: "prim b c (snd (newId c))"
| prim_scope: "knows c t \<Longrightarrow> tk_scopeId t \<in> scope_ids c \<Longrightarrow> vs_id s = fst (newId c) \<Longrightarrow>
    vs_parentScopeId s = Some (tk_scopeId t) \<Longrightarrow>
    prim b c (saveScope s (snd (newId c)))"
| prim_merge: "mergeVariables k vars c = Some (Inr c') \<Longrightarrow> prim b c c'"
| prim_spawn: "tk_id t = fst (newId c) \<Longrightarrow> tk_status t = Active \<Longrightarrow>
    cx_instance c = Some i \<Longrightarrow> tk_instanceId t = pi_id i \<Longrightarrow> (b \<longrightarrow> running c) \<Longrightarrow>
    tk_scopeId t \<in> scope_ids c \<Longrightarrow> (\<And>p. tk_parentTokenId t = Some p \<Longrightarrow> p \<in> token_ids c) \<Longrightarrow>
    prim b c (enqueuePending t (updateToken t (snd (newId c))))"
| prim_settle: "token_at c (tk_id t) = Some u \<Longrightarrow> same_visit t u \<Longrightarrow>
    tk_status t \<in> {Waiting, Completed, Cancelled} \<or> tk_status t = tk_status u \<Longrightarrow>
    (b \<longrightarrow> is_live u \<and> tk_id t \<notin> pending_ids c) \<Longrightarrow>
    prim b c (updateToken t c)"
| prim_join: "join_update c m \<Longrightarrow> prim b c (c\<lparr>cx_joinStateMap := m\<rparr>)"
| prim_compensation: "record_update c rs \<Longrightarrow> prim b c (c\<lparr>cx_compensationList := rs\<rparr>)"

abbreviation prims :: "bool \<Rightarrow> ctx \<Rightarrow> ctx \<Rightarrow> bool" where
  "prims b \<equiv> (prim b)\<^sup>*\<^sup>*"

text \<open>Changes of the instance; in strict mode it completes only when nothing is left to do.\<close>

inductive mstep :: "bool \<Rightarrow> ctx \<Rightarrow> ctx \<Rightarrow> bool" for b :: bool where
  mstep_prim: "prim b c c' \<Longrightarrow> mstep b c c'"
| mstep_instance: "cx_instance c = Some i \<Longrightarrow> pi_id j = pi_id i \<Longrightarrow> pi_rootScopeId j = pi_rootScopeId i \<Longrightarrow> pi_version j = pi_version i \<Longrightarrow>
    (b \<and> pi_status j = CompletedI \<longrightarrow> no_live c \<and> cx_pendingQueue c = []) \<Longrightarrow>
    mstep b c (setInstance j c)"

abbreviation msteps :: "bool \<Rightarrow> ctx \<Rightarrow> ctx \<Rightarrow> bool" where
  "msteps b \<equiv> (mstep b)\<^sup>*\<^sup>*"

lemma prims_msteps: "prims b c c' \<Longrightarrow> msteps b c c'"
  by (induction rule: rtranclp_induct) (auto intro: rtranclp.rtrancl_into_rtrancl mstep_prim)

section \<open>Basic facts\<close>

lemma same_visit_refl [simp]: "same_visit t t"
  by (simp add: same_visit_def)

lemma same_visit_sym: "same_visit t u \<Longrightarrow> same_visit u t"
  by (cases t; cases u) (simp add: same_visit_def)

lemma same_visit_trans: "same_visit t u \<Longrightarrow> same_visit u v \<Longrightarrow> same_visit t v"
  by (cases t; cases u; cases v) (simp add: same_visit_def)

lemma same_visit_fields:
  assumes "same_visit t u"
  shows "tk_id t = tk_id u" "tk_instanceId t = tk_instanceId u" "tk_elementId t = tk_elementId u"
    "tk_elementType t = tk_elementType u" "tk_scopeId t = tk_scopeId u"
    "tk_arrivedViaFlowId t = tk_arrivedViaFlowId u" "tk_parentTokenId t = tk_parentTokenId u"
    "tk_subProcessInstanceId t = tk_subProcessInstanceId u" "tk_createdAt t = tk_createdAt u"
  using assms by (cases t; cases u; simp add: same_visit_def)+

lemma same_visit_update [simp]:
  "same_visit (t\<lparr>tk_status := st, tk_updatedAt := n\<rparr>) u \<longleftrightarrow> same_visit t u"
  "same_visit (t\<lparr>tk_status := st, tk_waitingFor := w, tk_updatedAt := n\<rparr>) u \<longleftrightarrow> same_visit t u"
  "same_visit (t\<lparr>tk_loopState := l\<rparr>) u \<longleftrightarrow> same_visit t u"
  by (cases t; cases u; auto simp: same_visit_def)+

lemma token_ids_iff: "i \<in> token_ids c \<longleftrightarrow> (\<exists>t. token_at c i = Some t)"
  unfolding token_ids_def token_at_def by (metis map_of_eq_None_iff not_None_eq)

lemma scope_ids_iff: "k \<in> scope_ids c \<longleftrightarrow> (\<exists>s. map_of (cx_scopeMap c) k = Some s)"
  unfolding scope_ids_def by (metis map_of_eq_None_iff not_None_eq)

lemma knows_fields:
  assumes "knows c t" "wf_ctx c"
  obtains i where "cx_instance c = Some i" "tk_instanceId t = pi_id i" "tk_scopeId t \<in> scope_ids c"
    "tk_id t \<in> token_ids c"
  using assms by (fastforce simp: knows_def wf_ctx_def wf_tokens_def token_ids_iff dest: same_visit_fields)

section \<open>Fields and views after each operation\<close>

lemma ctx_simps [simp]:
  "cx_instance (emit e c) = cx_instance c" "cx_options (emit e c) = cx_options c"
  "cx_tokenMap (emit e c) = cx_tokenMap c" "cx_scopeMap (emit e c) = cx_scopeMap c"
  "cx_pendingQueue (emit e c) = cx_pendingQueue c" "cx_idCalls (emit e c) = cx_idCalls c"
  "cx_instance (snd (now c)) = cx_instance c" "cx_options (snd (now c)) = cx_options c"
  "cx_tokenMap (snd (now c)) = cx_tokenMap c" "cx_scopeMap (snd (now c)) = cx_scopeMap c"
  "cx_pendingQueue (snd (now c)) = cx_pendingQueue c" "cx_idCalls (snd (now c)) = cx_idCalls c"
  "cx_instance (snd (newId c)) = cx_instance c" "cx_options (snd (newId c)) = cx_options c"
  "cx_tokenMap (snd (newId c)) = cx_tokenMap c" "cx_scopeMap (snd (newId c)) = cx_scopeMap c"
  "cx_pendingQueue (snd (newId c)) = cx_pendingQueue c" "cx_idCalls (snd (newId c)) = Suc (cx_idCalls c)"
  "cx_instance (updateToken t c) = cx_instance c" "cx_options (updateToken t c) = cx_options c"
  "cx_scopeMap (updateToken t c) = cx_scopeMap c" "cx_idCalls (updateToken t c) = cx_idCalls c"
  "cx_pendingQueue (updateToken t c) = cx_pendingQueue c"
  "cx_instance (enqueuePending t c) = cx_instance c" "cx_options (enqueuePending t c) = cx_options c"
  "cx_tokenMap (enqueuePending t c) = cx_tokenMap c" "cx_scopeMap (enqueuePending t c) = cx_scopeMap c"
  "cx_pendingQueue (enqueuePending t c) = cx_pendingQueue c @ [t]"
  "cx_idCalls (enqueuePending t c) = cx_idCalls c"
  "cx_instance (saveScope s c) = cx_instance c" "cx_options (saveScope s c) = cx_options c"
  "cx_tokenMap (saveScope s c) = cx_tokenMap c" "cx_idCalls (saveScope s c) = cx_idCalls c"
  "cx_pendingQueue (saveScope s c) = cx_pendingQueue c"
  "cx_instance (setInstance j c) = Some j" "cx_options (setInstance j c) = cx_options c"
  "cx_tokenMap (setInstance j c) = cx_tokenMap c" "cx_scopeMap (setInstance j c) = cx_scopeMap c"
  "cx_pendingQueue (setInstance j c) = cx_pendingQueue c" "cx_idCalls (setInstance j c) = cx_idCalls c"
  by (simp_all add: emit_def now_def newId_def updateToken_def enqueuePending_def saveScope_def setInstance_def)

lemma ctx_update_simps [simp]:
  "cx_tokenMap (updateToken t c) = AList.update (tk_id t) t (cx_tokenMap c)"
  "cx_scopeMap (saveScope s c) = AList.update (vs_id s) s (cx_scopeMap c)"
  "fst (newId c) = op_generateId (cx_options c) (cx_idCalls c)"
  by (simp_all add: updateToken_def saveScope_def newId_def)


lemma view_simps [simp]:
  "token_at (emit e c) = token_at c" "token_ids (emit e c) = token_ids c"
  "scope_ids (emit e c) = scope_ids c" "pending_ids (emit e c) = pending_ids c"
  "token_at (snd (now c)) = token_at c" "token_ids (snd (now c)) = token_ids c"
  "scope_ids (snd (now c)) = scope_ids c" "pending_ids (snd (now c)) = pending_ids c"
  "token_at (snd (newId c)) = token_at c" "token_ids (snd (newId c)) = token_ids c"
  "scope_ids (snd (newId c)) = scope_ids c" "pending_ids (snd (newId c)) = pending_ids c"
  "token_at (saveScope s c) = token_at c" "token_ids (saveScope s c) = token_ids c"
  "pending_ids (saveScope s c) = pending_ids c"
  "token_at (enqueuePending t c) = token_at c" "token_ids (enqueuePending t c) = token_ids c"
  "scope_ids (enqueuePending t c) = scope_ids c"
  "token_at (setInstance j c) = token_at c" "token_ids (setInstance j c) = token_ids c"
  "scope_ids (setInstance j c) = scope_ids c" "pending_ids (setInstance j c) = pending_ids c"
  "scope_ids (updateToken t c) = scope_ids c" "pending_ids (updateToken t c) = pending_ids c"
  "token_at (c\<lparr>cx_joinStateMap := jm\<rparr>) = token_at c" "token_ids (c\<lparr>cx_joinStateMap := jm\<rparr>) = token_ids c"
  "scope_ids (c\<lparr>cx_joinStateMap := jm\<rparr>) = scope_ids c" "pending_ids (c\<lparr>cx_joinStateMap := jm\<rparr>) = pending_ids c"
  "token_at (c\<lparr>cx_compensationList := rs\<rparr>) = token_at c"
  "token_ids (c\<lparr>cx_compensationList := rs\<rparr>) = token_ids c"
  "scope_ids (c\<lparr>cx_compensationList := rs\<rparr>) = scope_ids c"
  "pending_ids (c\<lparr>cx_compensationList := rs\<rparr>) = pending_ids c"
  "token_at (c\<lparr>cx_scopeMap := sm\<rparr>) = token_at c" "token_ids (c\<lparr>cx_scopeMap := sm\<rparr>) = token_ids c"
  "pending_ids (c\<lparr>cx_scopeMap := sm\<rparr>) = pending_ids c"
  "token_at (c\<lparr>cx_pendingQueue := q\<rparr>) = token_at c" "token_ids (c\<lparr>cx_pendingQueue := q\<rparr>) = token_ids c"
  "scope_ids (c\<lparr>cx_pendingQueue := q\<rparr>) = scope_ids c"
  by (simp_all add: token_at_def[abs_def] token_ids_def scope_ids_def pending_ids_def)

lemma fst_set_update: "fst ` set (AList.update k v m) = insert k (fst ` set m)"
  by (simp add: dom_update[unfolded dom_map_of_conv_image_fst])

lemma view_update_simps [simp]:
  "token_at (updateToken t c) = (token_at c)(tk_id t \<mapsto> t)"
  "token_ids (updateToken t c) = insert (tk_id t) (token_ids c)"
  "scope_ids (saveScope s c) = insert (vs_id s) (scope_ids c)"
  "scope_ids (c\<lparr>cx_scopeMap := AList.update k v (cx_scopeMap c)\<rparr>) = insert k (scope_ids c)"
  "pending_ids (enqueuePending t c) = insert (tk_id t) (pending_ids c)"
  by (auto simp: token_at_def[abs_def] token_ids_def scope_ids_def pending_ids_def update_conv fst_set_update)

lemma mergeVariables_ok:
  assumes "mergeVariables k vars c = Some (Inr c')"
  obtains s where "map_of (cx_scopeMap c) k = Some s" "k \<in> scope_ids c"
    "c' = c\<lparr>cx_scopeMap := AList.update k (s\<lparr>vs_variables := assign (vs_variables s) vars\<rparr>) (cx_scopeMap c)\<rparr>"
  using assms by (auto simp: mergeVariables_def scope_ids_iff split: option.splits)

section \<open>What every elementary step keeps\<close>

lemma prim_instance: "prim b c c' \<Longrightarrow> cx_instance c' = cx_instance c"
  by (induction rule: prim.induct) (auto elim!: mergeVariables_ok)

lemma prim_options: "prim b c c' \<Longrightarrow> cx_options c' = cx_options c"
  by (induction rule: prim.induct) (auto elim!: mergeVariables_ok)

lemma prim_scope_ids: "prim b c c' \<Longrightarrow> scope_ids c \<subseteq> scope_ids c'"
  by (induction rule: prim.induct) (auto elim!: mergeVariables_ok)

lemma prim_token_ids: "prim b c c' \<Longrightarrow> token_ids c \<subseteq> token_ids c'"
  by (induction rule: prim.induct) (auto elim!: mergeVariables_ok)

lemma prim_knows:
  assumes "prim b c c'" "fresh_ids c" "knows c t"
  shows "knows c' t"
  using assms
proof (induction rule: prim.induct)
  case (prim_spawn s c i)
  then have "tk_id s \<notin> token_ids c" by (auto simp: fresh_ids_def)
  with prim_spawn.prems show ?case by (auto simp: knows_def token_ids_iff)
next
  case (prim_settle c s u)
  from prim_settle.prems obtain v where v: "token_at c (tk_id t) = Some v" "same_visit t v"
    by (auto simp: knows_def)
  show ?case
  proof (cases "tk_id t = tk_id s")
    case True
    with v prim_settle.hyps have "same_visit t s" by (auto intro: same_visit_trans same_visit_sym)
    with True show ?thesis by (simp add: knows_def)
  next
    case False
    with v show ?thesis by (simp add: knows_def)
  qed
next
  case (prim_merge k vars c c')
  then show ?case by (auto elim!: mergeVariables_ok simp: knows_def)
qed (simp_all add: knows_def)

lemma fresh_token: "fresh_ids c \<Longrightarrow> fst (newId c) \<notin> token_ids c \<and> fst (newId c) \<notin> scope_ids c"
  by (auto simp: fresh_ids_def)

lemma prim_fresh:
  assumes "prim b c c'" "fresh_ids c"
  shows "fresh_ids c'"
  using assms
proof (induction rule: prim.induct)
  case (prim_skip_id c)
  then show ?case by (auto simp: fresh_ids_def)
next
  case (prim_scope c t s)
  then show ?case by (auto simp: fresh_ids_def inj_eq)
next
  case (prim_spawn t c i)
  then show ?case by (auto simp: fresh_ids_def inj_eq)
next
  case (prim_settle c t u)
  then have "tk_id t \<in> token_ids c" by (auto simp: token_ids_iff)
  with prim_settle.prems show ?case by (auto simp: fresh_ids_def)
next
  case (prim_merge k vars c c')
  then show ?case by (auto elim!: mergeVariables_ok simp: fresh_ids_def)
qed (simp_all add: fresh_ids_def)

lemma wf_tokensI:
  assumes "wf_tokens c" "scope_ids c \<subseteq> scope_ids c'" "cx_instance c' = cx_instance c"
    "cx_tokenMap c' = cx_tokenMap c"
  shows "wf_tokens c'"
  using assms unfolding wf_tokens_def token_at_def token_ids_def by auto

lemma wf_tokens_update:
  assumes "wf_tokens c" "cx_instance c = Some i" "tk_instanceId t = pi_id i" "tk_scopeId t \<in> scope_ids c"
    "\<And>p. tk_parentTokenId t = Some p \<Longrightarrow> p \<in> token_ids c \<and> p \<noteq> tk_id t"
  shows "wf_tokens (updateToken t c)"
  using assms unfolding wf_tokens_def by (auto simp: distinct_update)

lemma prim_wf_tokens:
  assumes "prim b c c'" "wf_tokens c" "fresh_ids c"
  shows "wf_tokens c'"
  using assms
proof (induction rule: prim.induct)
  case (prim_merge k vars c c')
  then show ?case by (auto elim!: mergeVariables_ok intro: wf_tokensI)
next
  case (prim_spawn t c i)
  let ?c = "snd (newId c)"
  have fresh: "tk_id t \<notin> token_ids c" using prim_spawn by (auto dest: fresh_token)
  have "wf_tokens ?c" using prim_spawn by (auto intro: wf_tokensI)
  moreover have "p \<in> token_ids ?c \<and> p \<noteq> tk_id t" if "tk_parentTokenId t = Some p" for p
    using prim_spawn.hyps(7)[OF that] fresh by auto
  ultimately have "wf_tokens (updateToken t ?c)"
    using prim_spawn by (intro wf_tokens_update) auto
  then show ?case by (auto intro: wf_tokensI)
next
  case (prim_settle c t u)
  from prim_settle have u: "tk_id u = tk_id t \<and> (\<exists>i. cx_instance c = Some i \<and> tk_instanceId u = pi_id i) \<and>
      tk_scopeId u \<in> scope_ids c \<and> (\<forall>p. tk_parentTokenId u = Some p \<longrightarrow> p \<in> token_ids c \<and> p \<noteq> tk_id t)"
    unfolding wf_tokens_def by blast
  note f = same_visit_fields[OF prim_settle.hyps(2)]
  from u obtain i where i: "cx_instance c = Some i" "tk_instanceId u = pi_id i" by blast
  show ?case
  proof (rule wf_tokens_update[OF prim_settle.prems(1) i(1)])
    show "tk_instanceId t = pi_id i" "tk_scopeId t \<in> scope_ids c" using f i u by simp_all
    show "\<And>p. tk_parentTokenId t = Some p \<Longrightarrow> p \<in> token_ids c \<and> p \<noteq> tk_id t"
      using f u by simp
  qed
qed (auto intro: wf_tokensI)

lemma wf_queue_known: "wf_queue c \<Longrightarrow> pending_ids c \<subseteq> token_ids c"
  by (auto simp: wf_queue_def pending_ids_def knows_def token_ids_iff)

lemma prim_wf_queue:
  assumes "prim b c c'" "wf_queue c" "fresh_ids c"
  shows "wf_queue c'"
proof -
  have *: "\<forall>t \<in> set (cx_pendingQueue c). tk_status t = Active \<and> knows c' t"
    using assms prim_knows by (auto simp: wf_queue_def)
  from assms(1) show ?thesis
  proof cases
    case (prim_spawn t i)
    then have "tk_id t \<notin> pending_ids c"
      using wf_queue_known[OF assms(2)] fresh_token[OF assms(3)] by auto
    with prim_spawn assms(2) * show ?thesis
      by (auto simp: wf_queue_def pending_ids_def knows_def)
  next
    case (prim_merge k vars)
    with assms(2) * show ?thesis by (auto elim!: mergeVariables_ok simp: wf_queue_def)
  qed (use assms(2) * in \<open>auto simp: wf_queue_def\<close>)
qed

lemma scope_tree_insert:
  assumes "scope_tree m" "k \<notin> fst ` set m" "vs_parentScopeId s = Some p" "p \<in> fst ` set m"
  shows "scope_tree (AList.update k s m)"
proof -
  obtain rank :: "string \<Rightarrow> nat" where r: "\<And>j u q. map_of m j = Some u \<Longrightarrow> vs_parentScopeId u = Some q \<Longrightarrow>
      q \<in> fst ` set m \<and> rank q < rank j"
    using assms(1) unfolding scope_tree_def by blast
  have "q \<in> fst ` set (AList.update k s m) \<and> (rank(k := Suc (rank p))) q < (rank(k := Suc (rank p))) j"
    if "map_of (AList.update k s m) j = Some u" "vs_parentScopeId u = Some q" for j u q
  proof (cases "j = k")
    case True
    with that assms show ?thesis by (auto simp: update_conv fst_set_update)
  next
    case False
    with that have "map_of m j = Some u" by (simp add: update_conv)
    with r that(2) have "q \<in> fst ` set m" "rank q < rank j" by blast+
    with assms(2) False show ?thesis by (auto simp: fst_set_update)
  qed
  then show ?thesis unfolding scope_tree_def by blast
qed

lemma scope_tree_same_parent:
  assumes "scope_tree m" "map_of m k = Some s" "vs_parentScopeId s' = vs_parentScopeId s"
  shows "scope_tree (AList.update k s' m)"
proof -
  obtain rank :: "string \<Rightarrow> nat" where r: "\<And>j u q. map_of m j = Some u \<Longrightarrow> vs_parentScopeId u = Some q \<Longrightarrow>
      q \<in> fst ` set m \<and> rank q < rank j"
    using assms(1) unfolding scope_tree_def by blast
  have "q \<in> fst ` set (AList.update k s' m) \<and> rank q < rank j"
    if "map_of (AList.update k s' m) j = Some u" "vs_parentScopeId u = Some q" for j u q
    using that r[of j _ q] assms(2,3) by (cases "j = k") (auto simp: update_conv fst_set_update)
  then show ?thesis unfolding scope_tree_def by blast
qed

lemma prim_wf_scopes:
  assumes "prim b c c'" "wf_scopes c" "fresh_ids c"
  shows "wf_scopes c'"
  using assms
proof (induction rule: prim.induct)
  case (prim_scope c t s)
  then have "vs_id s \<notin> scope_ids c" by (simp add: fresh_ids_def)
  then have "vs_id s \<notin> fst ` set (cx_scopeMap c)" "tk_scopeId t \<in> fst ` set (cx_scopeMap c)"
    using prim_scope.hyps(2) by (simp_all add: scope_ids_def)
  with prim_scope show ?case
    by (auto simp: wf_scopes_def distinct_update update_conv intro: scope_tree_insert)
next
  case (prim_merge k vars c c')
  obtain s where s: "map_of (cx_scopeMap c) k = Some s"
    "c' = c\<lparr>cx_scopeMap := AList.update k (s\<lparr>vs_variables := assign (vs_variables s) vars\<rparr>) (cx_scopeMap c)\<rparr>"
    using prim_merge.hyps by (blast elim: mergeVariables_ok)
  with prim_merge.prems(1) have "vs_id s = k" by (simp add: wf_scopes_def)
  with s prim_merge.prems(1) show ?case
    by (auto simp: wf_scopes_def distinct_update update_conv intro: scope_tree_same_parent[OF _ s(1)]
        split: if_splits)
qed (auto simp: wf_scopes_def)

lemma prim_wf: "prim b c c' \<Longrightarrow> wf_ctx c \<Longrightarrow> wf_ctx c'"
  using prim_wf_tokens prim_wf_queue prim_wf_scopes prim_fresh prim_instance
  unfolding wf_ctx_def by metis

lemma in_sync_update:
  assumes "in_sync c" "tk_id t \<notin> pending_ids c"
  shows "in_sync (updateToken t c)"
  unfolding in_sync_def
proof
  fix s assume s: "s \<in> set (cx_pendingQueue (updateToken t c))"
  then have "tk_id s \<in> pending_ids c" by (simp add: pending_ids_def)
  then have "tk_id s \<noteq> tk_id t" using assms(2) by metis
  with s assms(1) show "token_at (updateToken t c) (tk_id s) = Some s" by (simp add: in_sync_def)
qed

lemma in_sync_enqueue:
  "in_sync c \<Longrightarrow> token_at c (tk_id t) = Some t \<Longrightarrow> in_sync (enqueuePending t c)"
  by (auto simp: in_sync_def)

lemma prim_in_sync:
  assumes "prim True c c'" "in_sync c" "fresh_ids c" "wf_queue c"
  shows "in_sync c'"
  using assms(1)
proof cases
  case (prim_spawn t i)
  then have "tk_id t \<notin> pending_ids (snd (newId c))"
    using wf_queue_known[OF assms(4)] fresh_token[OF assms(3)] by auto
  moreover have "in_sync (snd (newId c))" using assms(2) by (simp add: in_sync_def)
  ultimately show ?thesis unfolding prim_spawn(1) by (intro in_sync_enqueue in_sync_update) simp_all
next
  case (prim_settle t u)
  with assms(2) show ?thesis by (auto intro: in_sync_update)
next
  case (prim_merge k vars)
  with assms(2) show ?thesis by (auto elim!: mergeVariables_ok simp: in_sync_def)
qed (use assms(2) in \<open>auto simp: in_sync_def\<close>)

lemma prim_good: "prim b c c' \<Longrightarrow> good b c \<Longrightarrow> good b c'"
  using prim_wf prim_instance prim_in_sync
  unfolding good_def running_def wf_ctx_def by (cases b) metis+

lemma prims_good: "prims b c c' \<Longrightarrow> good b c \<Longrightarrow> good b c'"
  by (induction rule: rtranclp_induct) (auto intro: prim_good)

lemma prim_settled:
  assumes "prim b c c'" "fresh_ids c" "settled i c"
  shows "settled i c'"
  using assms
proof (induction rule: prim.induct)
  case (prim_spawn t c j)
  then have "tk_id t \<notin> token_ids c" by (auto dest: fresh_token)
  with prim_spawn.prems show ?case by (auto simp: settled_def token_ids_iff)
next
  case (prim_merge k vars c c')
  then show ?case by (auto elim!: mergeVariables_ok simp: settled_def)
qed (auto simp: settled_def)

lemma good_fresh: "good b c \<Longrightarrow> fresh_ids c"
  by (simp add: good_def wf_ctx_def)

lemma prims_settled:
  assumes "prims b c c'" "good b c" "settled i c"
  shows "settled i c'"
  using assms
proof (induction rule: rtranclp_induct)
  case (step d e)
  then show ?case using prims_good[of b c d] by (blast intro: prim_settled good_fresh)
qed

lemma prims_knows:
  assumes "prims b c c'" "good b c" "knows c t"
  shows "knows c' t"
  using assms
proof (induction rule: rtranclp_induct)
  case (step d e)
  then show ?case using prims_good[of b c d] by (blast intro: prim_knows good_fresh)
qed

lemma prims_instance: "prims b c c' \<Longrightarrow> cx_instance c' = cx_instance c"
  by (induction rule: rtranclp_induct) (auto dest: prim_instance)

lemma prims_options: "prims b c c' \<Longrightarrow> cx_options c' = cx_options c"
  by (induction rule: rtranclp_induct) (auto dest: prim_options)

lemma prims_scope_ids: "prims b c c' \<Longrightarrow> scope_ids c \<subseteq> scope_ids c'"
  by (induction rule: rtranclp_induct) (auto dest: prim_scope_ids)

lemma prims_token_ids: "prims b c c' \<Longrightarrow> token_ids c \<subseteq> token_ids c'"
  by (induction rule: rtranclp_induct) (auto dest: prim_token_ids)

section \<open>Active tokens are queued\<close>

definition unqueued :: "ctx \<Rightarrow> string set" where
  "unqueued c = {k. (\<exists>t. token_at c k = Some t \<and> tk_status t = Active) \<and> k \<notin> pending_ids c}"

lemma prim_unqueued: "prim b c c' \<Longrightarrow> unqueued c' \<subseteq> unqueued c"
  by (induction rule: prim.induct) (auto simp: unqueued_def elim!: mergeVariables_ok split: if_splits)

lemma prims_unqueued: "prims b c c' \<Longrightarrow> unqueued c' \<subseteq> unqueued c"
  by (induction rule: rtranclp_induct) (auto dest: prim_unqueued)

lemma unqueued_settled: "unqueued c \<subseteq> {i} \<Longrightarrow> settled i c \<Longrightarrow> unqueued c = {}"
  by (auto simp: unqueued_def settled_def)

section \<open>Ended tokens and events\<close>

definition frozen_from :: "ctx \<Rightarrow> ctx \<Rightarrow> bool" where
  "frozen_from c c' \<longleftrightarrow> (\<forall>k t. token_at c k = Some t \<and> \<not> is_live t \<longrightarrow> token_at c' k = Some t)"

lemma prim_frozen:
  assumes "prim True c c'" "fresh_ids c"
  shows "frozen_from c c'"
  using assms
proof (induction rule: prim.induct)
  case (prim_spawn t c j)
  then have "tk_id t \<notin> token_ids c" by (auto dest: fresh_token)
  then show ?case by (auto simp: frozen_from_def token_ids_iff)
next
  case (prim_merge k vars c c')
  then show ?case by (auto elim!: mergeVariables_ok simp: frozen_from_def)
qed (auto simp: frozen_from_def)

lemma frozen_refl: "frozen_from c c"
  by (simp add: frozen_from_def)

lemma frozen_trans: "frozen_from c d \<Longrightarrow> frozen_from d e \<Longrightarrow> frozen_from c e"
  by (simp add: frozen_from_def)

definition extends_log :: "ctx \<Rightarrow> ctx \<Rightarrow> bool" where
  "extends_log c c' \<longleftrightarrow> (\<exists>es. cx_events c' = cx_events c @ es)"

lemma extends_log_refl [simp]: "extends_log c c"
  by (simp add: extends_log_def)

lemma extends_log_trans: "extends_log c d \<Longrightarrow> extends_log d e \<Longrightarrow> extends_log c e"
  by (auto simp: extends_log_def)

lemma prim_log: "prim b c c' \<Longrightarrow> extends_log c c'"
  by (induction rule: prim.induct)
    (auto elim!: mergeVariables_ok
      simp: extends_log_def emit_def now_def newId_def saveScope_def updateToken_def enqueuePending_def)

text \<open>A token keeps its place for ever: every later copy is of the same visit.\<close>

definition keeps_visits :: "ctx \<Rightarrow> ctx \<Rightarrow> bool" where
  "keeps_visits c c' \<longleftrightarrow>
     (\<forall>k t. token_at c k = Some t \<longrightarrow> (\<exists>u. token_at c' k = Some u \<and> same_visit t u))"

lemma keeps_visits_refl: "keeps_visits c c"
  by (simp add: keeps_visits_def)

lemma keeps_visits_trans: "keeps_visits c d \<Longrightarrow> keeps_visits d e \<Longrightarrow> keeps_visits c e"
  unfolding keeps_visits_def by (meson same_visit_trans)

lemma prim_keeps_visits:
  assumes "prim b c c'" "wf_ctx c"
  shows "keeps_visits c c'"
  unfolding keeps_visits_def
proof (intro allI impI)
  fix k t assume t: "token_at c k = Some t"
  with assms(2) have "tk_id t = k" by (simp add: wf_ctx_def wf_tokens_def)
  with t have "knows c t" by (auto simp: knows_def)
  then have "knows c' t" using assms by (auto intro: prim_knows simp: wf_ctx_def)
  with \<open>tk_id t = k\<close> show "\<exists>u. token_at c' k = Some u \<and> same_visit t u" by (simp add: knows_def)
qed

section \<open>Instance steps\<close>

text \<open>What a context keeps across a whole command.\<close>

definition steady :: "bool \<Rightarrow> ctx \<Rightarrow> bool" where
  "steady b c \<longleftrightarrow> wf_ctx c \<and>
     (b \<longrightarrow> in_sync c \<and> (running c \<or> no_live c \<and> cx_pendingQueue c = []))"

lemma good_steady: "good b c \<Longrightarrow> steady b c"
  by (simp add: good_def steady_def)

lemma set_instance_wf:
  assumes "wf_ctx c" "cx_instance c = Some i" "pi_id j = pi_id i"
  shows "wf_ctx (setInstance j c)"
  using assms unfolding wf_ctx_def wf_tokens_def wf_queue_def wf_scopes_def fresh_ids_def
  by (simp add: knows_def)

lemma prim_idle:
  assumes "prim True c c'" "\<not> running c" "no_live c" "cx_pendingQueue c = []"
  shows "\<not> running c' \<and> no_live c' \<and> cx_pendingQueue c' = []"
  using assms
proof (induction rule: prim.induct)
  case (prim_merge k vars c c')
  then show ?case by (auto elim!: mergeVariables_ok simp: running_def no_live_def)
qed (auto simp: running_def no_live_def)

lemma mstep_wf: "mstep b c c' \<Longrightarrow> wf_ctx c \<Longrightarrow> wf_ctx c'"
  by (induction rule: mstep.induct) (auto intro: prim_wf set_instance_wf)

lemma msteps_wf: "msteps b c c' \<Longrightarrow> wf_ctx c \<Longrightarrow> wf_ctx c'"
  by (induction rule: rtranclp_induct) (auto intro: mstep_wf)

lemma mstep_steady:
  assumes "mstep b c c'" "steady b c"
  shows "steady b c'"
  using assms(1)
proof cases
  case mstep_prim
  show ?thesis
  proof (cases "b \<longrightarrow> running c")
    case True
    with assms have "good b c" by (auto simp: steady_def good_def)
    with mstep_prim show ?thesis by (blast intro: prim_good good_steady)
  next
    case False
    with assms(2) mstep_prim prim_idle[of c c'] have "no_live c' \<and> cx_pendingQueue c' = []"
      by (auto simp: steady_def)
    moreover have "wf_ctx c'" using assms mstep_wf by (auto simp: steady_def)
    ultimately show ?thesis by (simp add: steady_def in_sync_def)
  qed
next
  case (mstep_instance i j)
  with assms(2) have "wf_ctx c'" by (auto simp: steady_def intro: set_instance_wf)
  moreover have "in_sync c'" if b using that assms(2) mstep_instance by (simp add: steady_def in_sync_def)
  moreover have "running c' \<or> no_live c' \<and> cx_pendingQueue c' = []" if b
    using that mstep_instance by (auto simp: running_def no_live_def)
  ultimately show ?thesis by (simp add: steady_def)
qed

lemma msteps_steady: "msteps b c c' \<Longrightarrow> steady b c \<Longrightarrow> steady b c'"
  by (induction rule: rtranclp_induct) (auto intro: mstep_steady)

lemma mstep_unqueued: "mstep b c c' \<Longrightarrow> unqueued c' \<subseteq> unqueued c"
proof (induction rule: mstep.induct)
  case (mstep_prim c c')
  then show ?case by (rule prim_unqueued)
qed (simp add: unqueued_def)

lemma msteps_unqueued: "msteps b c c' \<Longrightarrow> unqueued c' \<subseteq> unqueued c"
  by (induction rule: rtranclp_induct) (auto dest: mstep_unqueued)

section \<open>Whole runs\<close>

text \<open>The engine's loop takes a token off the queue, then its handler makes machine steps.\<close>

inductive engine_step :: "bool \<Rightarrow> ctx \<Rightarrow> ctx \<Rightarrow> bool" for b :: bool where
  engine_mstep: "mstep b c c' \<Longrightarrow> engine_step b c c'"
| engine_dequeue: "cx_pendingQueue c = t # ts \<Longrightarrow> engine_step b c (c\<lparr>cx_pendingQueue := ts\<rparr>)"

inductive_cases engine_stepE: "engine_step b c c'"

abbreviation engine_steps :: "bool \<Rightarrow> ctx \<Rightarrow> ctx \<Rightarrow> bool" where
  "engine_steps b \<equiv> (engine_step b)\<^sup>*\<^sup>*"

lemma msteps_engine: "msteps b c c' \<Longrightarrow> engine_steps b c c'"
  by (induction rule: rtranclp_induct) (auto intro: rtranclp.rtrancl_into_rtrancl engine_mstep)

lemma dequeue_steady:
  assumes "steady b c" "cx_pendingQueue c = t # ts"
  shows "good b (c\<lparr>cx_pendingQueue := ts\<rparr>) \<and> cur b (c\<lparr>cx_pendingQueue := ts\<rparr>) t"
proof -
  have w: "wf_ctx c" "tk_status t = Active" "knows c t" "tk_id t \<notin> tk_id ` set ts"
    using assms by (auto simp: steady_def wf_ctx_def wf_queue_def)
  have "wf_ctx (c\<lparr>cx_pendingQueue := ts\<rparr>)"
    using w(1) assms(2) unfolding wf_ctx_def wf_tokens_def wf_queue_def wf_scopes_def fresh_ids_def
    by (simp add: knows_def)
  moreover have "running c \<and> in_sync c \<and> token_at c (tk_id t) = Some t" if b
    using that assms by (auto simp: steady_def in_sync_def)
  ultimately show ?thesis
    using w assms(2)
    by (auto simp: good_def cur_def knows_def running_def in_sync_def pending_ids_def is_live_def)
qed

lemma dequeue_unqueued:
  "cx_pendingQueue c = t # ts \<Longrightarrow> unqueued (c\<lparr>cx_pendingQueue := ts\<rparr>) \<subseteq> insert (tk_id t) (unqueued c)"
  by (auto simp: unqueued_def pending_ids_def)

end
