(* ===== verification/Engine_Refinement.thy ===== *)
theory Engine_Refinement
  imports Token_Machine
begin

text \<open>
  The handlers of the engine are runs of the token machine: each lemma says that a handler, started
  on a good context with a token it may change, does a sequence of elementary steps and (where it
  is the token's own handler) leaves that token settled. The strict mode \<open>b = True\<close> is for
  definitions without multi-instance tasks, compensation, and terminate or cancel end events
  (\<open>plain\<close>).
\<close>

section \<open>Single steps\<close>

lemma good_wf [dest]: "good b c \<Longrightarrow> wf_ctx c"
  by (simp add: good_def)

lemma emit_prims [simp]: "prims b c (emit e c)"
  by (rule r_into_rtranclp) (rule prim_emit)

lemma tick_prims [simp]: "prims b c (snd (now c))"
  by (rule r_into_rtranclp) (rule prim_tick)

lemma skip_prims [simp]: "prims b c (snd (newId c))"
  by (rule r_into_rtranclp) (rule prim_skip_id)

lemma prims_emit: "prims b c d \<Longrightarrow> prims b c (emit e d)"
  by (rule rtranclp_trans[of _ c d]) simp_all

lemma prims_from_tick: "prims b (snd (now c)) d \<Longrightarrow> prims b c d"
  by (rule rtranclp_trans[of _ c "snd (now c)"]) simp_all

lemma good_ops [simp]:
  "good b c \<Longrightarrow> good b (emit e c)"
  "good b c \<Longrightarrow> good b (snd (now c))"
  "good b c \<Longrightarrow> good b (snd (newId c))"
  using prims_good[OF emit_prims] prims_good[OF tick_prims] prims_good[OF skip_prims] by blast+

lemma cur_cong:
  "token_at c' = token_at c \<Longrightarrow> pending_ids c' = pending_ids c \<Longrightarrow> cur b c' t = cur b c t"
  by (simp add: cur_def knows_def)

lemma cur_ops [simp]:
  "cur b (emit e c) t = cur b c t"
  "cur b (snd (now c)) t = cur b c t"
  "cur b (snd (newId c)) t = cur b c t"
  "cur b (saveScope s c) t = cur b c t"
  "cur b (c\<lparr>cx_compensationList := rs\<rparr>) t = cur b c t"
  "cur b (c\<lparr>cx_joinStateMap := m\<rparr>) t = cur b c t"
  by (simp_all add: cur_def knows_def)

lemma cur_knows: "cur b c t \<Longrightarrow> knows c t"
  by (simp add: cur_def)

lemma merge_prims: "mergeVariables k vs c = Some (Inr c') \<Longrightarrow> prims b c c'"
  by (rule r_into_rtranclp) (rule prim_merge)

lemma merge_views:
  assumes "mergeVariables k vs c = Some (Inr c')"
  shows "token_at c' = token_at c" "pending_ids c' = pending_ids c" "cx_instance c' = cx_instance c"
  using assms by (auto elim!: mergeVariables_ok)

lemma settle_prims:
  assumes "cur b c t" "same_visit u t" "tk_status u \<in> {Waiting, Completed, Cancelled}"
  shows "prims b c (updateToken u c)"
proof -
  from assms(1) obtain v where v: "token_at c (tk_id t) = Some v" "same_visit t v"
    "b \<longrightarrow> is_live v \<and> tk_id t \<notin> pending_ids c"
    by (auto simp: cur_def knows_def)
  show ?thesis
  proof (rule r_into_rtranclp, rule prim_settle[of c u v])
    show "token_at c (tk_id u) = Some v" using v assms(2) by (simp add: same_visit_fields)
    show "same_visit u v" using v assms(2) by (blast intro: same_visit_trans)
    show "b \<longrightarrow> is_live v \<and> tk_id u \<notin> pending_ids c" using v assms(2) by (simp add: same_visit_fields)
  qed (use assms(3) in blast)
qed

lemma set_token_status_prims:
  assumes "cur b c t" "st \<in> {Waiting, Completed, Cancelled}"
  shows "prims b c (set_token_status st t c)"
  unfolding set_token_status_def Let_def split_beta
  by (rule prims_from_tick, rule settle_prims[of _ _ t]) (use assms in auto)

lemma suspend_prims:
  assumes "cur b c t"
  shows "prims b c (suspendTokenWithCondition t w c)"
  unfolding suspendTokenWithCondition_def Let_def split_beta
  by (rule prims_emit, rule prims_from_tick, rule settle_prims[of _ _ t]) (use assms in auto)

lemma cancel_token_prims:
  assumes "cur b c t"
  shows "prims b c (cancel_token_at n t c)" "prims b c (cancel_token_now t c)"
  unfolding cancel_token_at_def cancel_token_now_def
  by (rule prims_emit, rule settle_prims[of _ _ t]; use assms in simp)
    (rule prims_emit, rule set_token_status_prims; use assms in simp)

lemma token_at_set_status [simp]:
  "token_at (set_token_status st t c) =
     (token_at c)(tk_id t \<mapsto> t\<lparr>tk_status := st, tk_updatedAt := fst (now c)\<rparr>)"
  by (simp add: set_token_status_def Let_def split_beta)

lemma set_status_views [simp]:
  "pending_ids (set_token_status st t c) = pending_ids c"
  "cx_instance (set_token_status st t c) = cx_instance c"
  "scope_ids (set_token_status st t c) = scope_ids c"
  "cx_pendingQueue (set_token_status st t c) = cx_pendingQueue c"
  by (simp_all add: set_token_status_def Let_def split_beta)

lemma cancel_views [simp]:
  "token_at (cancel_token_at n t c) = (token_at c)(tk_id t \<mapsto> t\<lparr>tk_status := Cancelled, tk_updatedAt := n\<rparr>)"
  "pending_ids (cancel_token_at n t c) = pending_ids c"
  "token_at (cancel_token_now t c) =
     (token_at c)(tk_id t \<mapsto> t\<lparr>tk_status := Cancelled, tk_updatedAt := fst (now c)\<rparr>)"
  "pending_ids (cancel_token_now t c) = pending_ids c"
  "cx_instance (cancel_token_at n t c) = cx_instance c"
  "cx_instance (cancel_token_now t c) = cx_instance c"
  by (simp_all add: cancel_token_at_def cancel_token_now_def)

lemma suspend_views [simp]:
  "token_at (suspendTokenWithCondition t w c) =
     (token_at c)(tk_id t \<mapsto> t\<lparr>tk_status := Waiting, tk_waitingFor := Some w, tk_updatedAt := fst (now c)\<rparr>)"
  "pending_ids (suspendTokenWithCondition t w c) = pending_ids c"
  by (simp_all add: suspendTokenWithCondition_def Let_def split_beta)

lemma settled_by [simp]:
  "st \<noteq> Active \<Longrightarrow> settled (tk_id t) (set_token_status st t c)"
  "settled (tk_id t) (suspendTokenWithCondition t w c)"
  "settled (tk_id t) (suspendToken t ty c)"
  by (simp_all add: settled_def suspendToken_def)

lemma suspendToken_prims: "cur b c t \<Longrightarrow> prims b c (suspendToken t ty c)"
  by (simp add: suspendToken_def suspend_prims)

section \<open>Tokens of a context\<close>

lemma getAllTokens_at:
  assumes "wf_tokens c"
  shows "t \<in> set (getAllTokens c) \<longleftrightarrow> token_at c (tk_id t) = Some t"
proof
  assume "t \<in> set (getAllTokens c)"
  then obtain k where "(k, t) \<in> set (cx_tokenMap c)"
    by (auto simp: getAllTokens_def map_values_def)
  with assms have "token_at c k = Some t" by (simp add: wf_tokens_def token_at_def)
  with assms show "token_at c (tk_id t) = Some t" by (simp add: wf_tokens_def)
next
  assume "token_at c (tk_id t) = Some t"
  then have "(tk_id t, t) \<in> set (cx_tokenMap c)" by (simp add: token_at_def map_of_SomeD)
  then show "t \<in> set (getAllTokens c)" by (force simp: getAllTokens_def map_values_def)
qed

lemma getAllTokens_distinct:
  assumes "wf_tokens c"
  shows "distinct (map tk_id (getAllTokens c))"
proof -
  have "tk_id t = k" if "(k, t) \<in> set (cx_tokenMap c)" for k t
    using that assms by (simp add: wf_tokens_def token_at_def)
  then have "map tk_id (getAllTokens c) = map fst (cx_tokenMap c)"
    by (auto simp: getAllTokens_def map_values_def)
  with assms show ?thesis by (simp add: wf_tokens_def)
qed

lemma stored_knows: "token_at c (tk_id t) = Some t \<Longrightarrow> knows c t"
  by (auto simp: knows_def)

lemma not_active_not_pending:
  assumes "good True c" "token_at c k = Some t" "tk_status t \<noteq> Active"
  shows "k \<notin> pending_ids c"
proof
  assume "k \<in> pending_ids c"
  then obtain q where q: "q \<in> set (cx_pendingQueue c)" "tk_id q = k" by (auto simp: pending_ids_def)
  with assms have "tk_status q = Active" "token_at c k = Some q"
    by (auto simp: good_def wf_ctx_def wf_queue_def in_sync_def)
  with assms show False by simp
qed

lemma waiting_cur:
  assumes "good b c" "token_at c (tk_id t) = Some u" "same_visit t u" "tk_status u = Waiting"
  shows "cur b c t"
  using assms not_active_not_pending[of c "tk_id t" u]
  by (cases b) (auto simp: cur_def knows_def is_live_def)

text \<open>A loop that settles stored tokens one after the other.\<close>

lemma fold_settle_prims:
  assumes "\<And>t c. cur b c t \<Longrightarrow> prims b c (f t c)"
    and "\<And>t c k. pending_ids (f t c) = pending_ids c \<and> (k \<noteq> tk_id t \<longrightarrow> token_at (f t c) k = token_at c k)"
    and "distinct (map tk_id ts)" "\<forall>t \<in> set ts. token_at c (tk_id t) = Some t"
    and "b \<longrightarrow> (\<forall>t \<in> set ts. is_live t \<and> tk_id t \<notin> pending_ids c)"
  shows "prims b c (fold f ts c)"
  using assms(3-)
proof (induction ts arbitrary: c)
  case Nil
  then show ?case by simp
next
  case (Cons t ts)
  have "prims b c (f t c)"
    using Cons.prems by (intro assms(1)) (auto simp: cur_def intro: stored_knows)
  moreover have "prims b (f t c) (fold f ts (f t c))"
  proof (rule Cons.IH)
    show "\<forall>u \<in> set ts. token_at (f t c) (tk_id u) = Some u"
    proof
      fix u assume u: "u \<in> set ts"
      then have "tk_id u \<in> tk_id ` set ts" by simp
      with Cons.prems(1) have "tk_id u \<noteq> tk_id t" by auto
      with u Cons.prems(2) assms(2)[where t = t and c = c] show "token_at (f t c) (tk_id u) = Some u" by auto
    qed
    show "b \<longrightarrow> (\<forall>u \<in> set ts. is_live u \<and> tk_id u \<notin> pending_ids (f t c))"
      using Cons.prems(3) assms(2)[where t = t and c = c] by auto
  qed (use Cons.prems in simp)
  ultimately show ?case by simp
qed

lemma cancel_fold_prims:
  assumes "wf_tokens c" "b \<longrightarrow> (\<forall>t \<in> set (getAllTokens c). P t \<longrightarrow> is_live t \<and> tk_id t \<notin> pending_ids c)"
  shows "prims b c (fold (cancel_token_at n) (filter P (getAllTokens c)) c)"
    and "prims b c (fold cancel_token_now (filter P (getAllTokens c)) c)"
proof -
  have d: "distinct (map tk_id (filter P (getAllTokens c)))"
    using getAllTokens_distinct[OF assms(1)] by (rule distinct_map_filter)
  show "prims b c (fold (cancel_token_at n) (filter P (getAllTokens c)) c)"
    by (rule fold_settle_prims) (use d assms in \<open>auto simp: getAllTokens_at intro: cancel_token_prims\<close>)
  show "prims b c (fold cancel_token_now (filter P (getAllTokens c)) c)"
    by (rule fold_settle_prims) (use d assms in \<open>auto simp: getAllTokens_at intro: cancel_token_prims\<close>)
qed

lemma getAllTokens_now [simp]: "getAllTokens (snd (now c)) = getAllTokens c"
  by (simp add: getAllTokens_def)

lemma cancel_where_prims:
  assumes "good b c" "b \<longrightarrow> (\<forall>t. P t \<longrightarrow> tk_status t = Waiting)"
  shows "prims b c (cancel_where P c)"
proof -
  have wt: "wf_tokens (snd (now c))" using assms(1) by (auto simp: good_def wf_ctx_def intro: wf_tokensI)
  have "prims b (snd (now c)) (fold (cancel_token_at (fst (now c)))
      (filter P (getAllTokens (snd (now c)))) (snd (now c)))"
  proof (rule cancel_fold_prims(1)[OF wt], intro impI ballI)
    fix t assume "b" "t \<in> set (getAllTokens (snd (now c)))" "P t"
    moreover from this have "token_at (snd (now c)) (tk_id t) = Some t" using getAllTokens_at[OF wt] by blast
    ultimately have "token_at c (tk_id t) = Some t" "tk_status t = Waiting" "good True c"
      using assms by auto
    then show "is_live t \<and> tk_id t \<notin> pending_ids (snd (now c))"
      using not_active_not_pending[of c "tk_id t" t] by (simp add: is_live_def)
  qed
  then show ?thesis by (simp add: cancel_where_def Let_def split_beta prims_from_tick)
qed

lemma good_cancel_where:
  "good b c \<Longrightarrow> b \<longrightarrow> (\<forall>t. P t \<longrightarrow> tk_status t = Waiting) \<Longrightarrow> good b (cancel_where P c)"
  by (blast intro: prims_good cancel_where_prims)

section \<open>New tokens\<close>

lemma updateToken_last [simp]:
  "tk_id t = tk_id u \<Longrightarrow> updateToken t (updateToken u c) = updateToken t c"
  by (simp add: updateToken_def)

lemma ticks_commute: "snd (now (snd (now (snd (newId c))))) = snd (newId (snd (now (snd (now c)))))"
  by (simp add: newId_def now_def)

lemma createToken_eq:
  "createToken instanceId el ty sc fl c =
     (let base = \<lparr>tk_id = fst (newId c), tk_instanceId = instanceId, tk_elementId = el,
                  tk_elementType = ty, tk_status = Active, tk_scopeId = sc, tk_arrivedViaFlowId = fl,
                  tk_parentTokenId = None, tk_subProcessInstanceId = None, tk_waitingFor = None,
                  tk_loopState = None, tk_createdAt = fst (now (snd (newId c))),
                  tk_updatedAt = fst (now (snd (now (snd (newId c)))))\<rparr>
      in (base, updateToken base (snd (newId (snd (now (snd (now c))))))))"
  unfolding createToken_def Let_def split_beta ticks_commute[symmetric] by simp

lemma createToken_result:
  assumes "createToken instanceId el ty sc fl c = (base, c1)"
  shows "tk_id base = fst (newId c)" "tk_status base = Active" "tk_instanceId base = instanceId"
    "tk_scopeId base = sc" "tk_parentTokenId base = None" "tk_subProcessInstanceId base = None"
    "tk_elementId base = el" "tk_elementType base = ty"
    "c1 = updateToken base (snd (newId (snd (now (snd (now c))))))"
proof -
  have b: "base = fst (createToken instanceId el ty sc fl c)" using assms by simp
  show "tk_id base = fst (newId c)" "tk_status base = Active" "tk_instanceId base = instanceId"
    "tk_scopeId base = sc" "tk_parentTokenId base = None" "tk_subProcessInstanceId base = None"
    "tk_elementId base = el" "tk_elementType base = ty"
    unfolding b createToken_eq Let_def by simp_all
  show "c1 = updateToken base (snd (newId (snd (now (snd (now c))))))"
    using assms unfolding createToken_eq Let_def prod.inject by (elim conjE) (hypsubst, rule refl)
qed

lemma spawn_prims:
  assumes "createToken instanceId el ty sc fl c = (base, c1)" "tk_id t = tk_id base" "tk_status t = Active"
    "cx_instance c = Some i" "tk_instanceId t = pi_id i" "b \<longrightarrow> running c" "tk_scopeId t \<in> scope_ids c"
    "\<And>p. tk_parentTokenId t = Some p \<Longrightarrow> p \<in> token_ids c"
  shows "prims b c (enqueuePending t (updateToken t c1))"
proof -
  let ?c = "snd (now (snd (now c)))"
  note base = createToken_result[OF assms(1)]
  have "prim b ?c (enqueuePending t (updateToken t (snd (newId ?c))))"
    using assms base by (intro prim_spawn) (auto simp: running_def)
  moreover have "updateToken t c1 = updateToken t (snd (newId ?c))"
    using base(9) assms(2) by simp
  ultimately have "prims b ?c (enqueuePending t (updateToken t c1))" by simp
  then show ?thesis by (rule prims_from_tick[OF prims_from_tick])
qed

lemma tag_result:
  assumes "tag_sub_process from (base, c1) = (t, c2)" "c1 = updateToken base c0"
  shows "t = base\<lparr>tk_subProcessInstanceId := tk_subProcessInstanceId t\<rparr>" "c2 = updateToken t c1"
  using assms by (auto simp: tag_sub_process_def Let_def split: if_splits)

lemma enqueue_emit: "enqueuePending t (emit e c) = emit e (enqueuePending t c)"
  by (simp add: enqueuePending_def emit_def)

text \<open>A tagged token created for a known token of a good context.\<close>

lemma spawn_tagged_prims:
  assumes "tag_sub_process from (createToken (tk_instanceId s) el ty (tk_scopeId s) fl c) = (t, c2)"
    and "good b c" "knows c s"
  shows "prims b c (enqueuePending t c2)"
proof -
  obtain base c1 where c: "createToken (tk_instanceId s) el ty (tk_scopeId s) fl c = (base, c1)"
    by fastforce
  note base = createToken_result[OF c]
  from assms(1) c have "tag_sub_process from (base, c1) = (t, c2)" by simp
  note t = tag_result[OF this base(9)]
  obtain i where i: "cx_instance c = Some i" "tk_instanceId s = pi_id i" "tk_scopeId s \<in> scope_ids c"
    using knows_fields[OF assms(3) good_wf[OF assms(2)]] by blast
  have f: "tk_id t = tk_id base" "tk_status t = Active" "tk_instanceId t = tk_instanceId s"
    "tk_scopeId t = tk_scopeId s" "tk_parentTokenId t = None"
    using arg_cong[OF t(1), of tk_id] arg_cong[OF t(1), of tk_status] arg_cong[OF t(1), of tk_instanceId]
      arg_cong[OF t(1), of tk_scopeId] arg_cong[OF t(1), of tk_parentTokenId] base by simp_all
  show ?thesis unfolding t(2)
    using assms(2) i f by (intro spawn_prims[OF c f(1)]) (auto simp: good_def)
qed

lemma moveTokenToFlow_ok:
  assumes "moveTokenToFlow d s fid c = Some (Inr c')"
  obtains target t c2 where
    "tag_sub_process s (createToken (tk_instanceId s) (el_id target) (el_type target)
       (tk_scopeId s) (Some fid) c) = (t, c2)"
    "c' = enqueuePending t
        (emit (TokenMoved (tk_instanceId s) (tk_id t) (tk_elementId s) (el_id target) (el_type target)) c2)"
  using assms unfolding moveTokenToFlow_def rbind_ok Let_def
  by (elim exE conjE) (simp split: prod.splits)

lemma moveTokenToFlow_prims:
  assumes "moveTokenToFlow d s fid c = Some (Inr c')" "good b c" "knows c s"
  shows "prims b c c'"
  using assms(1)
proof (rule moveTokenToFlow_ok)
  fix target t c2
  assume t: "tag_sub_process s (createToken (tk_instanceId s) (el_id target) (el_type target)
       (tk_scopeId s) (Some fid) c) = (t, c2)"
    and c': "c' = enqueuePending t
        (emit (TokenMoved (tk_instanceId s) (tk_id t) (tk_elementId s) (el_id target) (el_type target)) c2)"
  show ?thesis unfolding c' enqueue_emit
    by (rule prims_emit) (rule spawn_tagged_prims[OF t assms(2,3)])
qed

lemma move_all_prims:
  assumes "rfold (moveTokenToFlow d s) fs c = Some (Inr c')" "good b c" "knows c s"
  shows "prims b c c'"
  using assms(1)
proof (rule rfold_invariant)
  fix x e e' assume "prims b c e" "moveTokenToFlow d s x e = Some (Inr e')"
  with assms show "prims b c e'"
    by (meson moveTokenToFlow_prims prims_good prims_knows rtranclp_trans)
qed simp

lemma settle_then:
  assumes "prims b c c1" "settled i c1" "prims b c1 c'" "good b c"
  shows "prims b c c' \<and> settled i c'"
  using assms by (meson prims_good prims_settled rtranclp_trans)

lemma settle_move_prims:
  assumes "rfold (moveTokenToFlow d t) fs (set_token_status Completed t c) = Some (Inr c')"
    "good b c" "cur b c t"
  shows "prims b c c' \<and> settled (tk_id t) c'"
proof (rule settle_then[OF _ _ _ assms(2)])
  show s: "prims b c (set_token_status Completed t c)" using assms(3) by (simp add: set_token_status_prims)
  show "prims b (set_token_status Completed t c) c'"
    using assms s by (meson cur_knows move_all_prims prims_good prims_knows)
qed simp

lemma advanceToken_prims:
  assumes "advanceToken d t e c = Some (Inr c')" "good b c" "cur b c t"
  shows "prims b c c' \<and> settled (tk_id t) c'"
  using assms settle_move_prims unfolding advanceToken_def by blast

lemma spawnBoundaryTokens_prims:
  assumes "good b c" "knows c t"
  shows "prims b c (spawnBoundaryTokens d t el c)"
proof -
  have "prims b c (fold (\<lambda>boundary c.
      let (bToken, c1) = tag_sub_process t
            (createToken (tk_instanceId t) (el_id boundary) BoundaryEventT (tk_scopeId t) None c)
      in enqueuePending bToken c1) bs c)" for bs
    using assms
  proof (induction bs arbitrary: c)
    case (Cons e bs)
    obtain u c2 where u: "tag_sub_process t
        (createToken (tk_instanceId t) (el_id e) BoundaryEventT (tk_scopeId t) None c) = (u, c2)"
      by fastforce
    have p: "prims b c (enqueuePending u c2)" using spawn_tagged_prims[OF u] Cons.prems by blast
    then have "good b (enqueuePending u c2)" "knows (enqueuePending u c2) t"
      using Cons.prems by (auto intro: prims_good prims_knows)
    from p Cons.IH[OF this] u show ?case by (simp add: Let_def)
  qed simp
  then show ?thesis by (simp add: spawnBoundaryTokens_def)
qed

section \<open>Tasks and events\<close>

lemma suspend_spawn_prims:
  assumes "good b c" "cur b c t"
  shows "prims b c (spawnBoundaryTokens d t el (suspendToken t ty c)) \<and>
    settled (tk_id t) (spawnBoundaryTokens d t el (suspendToken t ty c))"
proof (rule settle_then[OF _ _ _ assms(1)])
  show s: "prims b c (suspendToken t ty c)" using assms(2) by (rule suspendToken_prims)
  show "prims b (suspendToken t ty c) (spawnBoundaryTokens d t el (suspendToken t ty c))"
    using assms s by (meson cur_knows prims_good prims_knows spawnBoundaryTokens_prims)
qed simp

lemma suspendWith_prims:
  assumes "good b c" "cur b c t"
  shows "prims b c (suspendTokenWithCondition t w c) \<and> settled (tk_id t) (suspendTokenWithCondition t w c)"
  using assms by (simp add: suspend_prims)

lemma handleIntermediateCatchEvent_prims:
  assumes "handleIntermediateCatchEvent t ed c = Some (Inr c')" "good b c" "cur b c t"
  shows "prims b c c' \<and> settled (tk_id t) c'"
  using assms suspendWith_prims
  by (auto simp: handleIntermediateCatchEvent_def split: if_splits)

lemma handleBoundaryEventWait_prims:
  assumes "handleBoundaryEventWait t host ed c = Some (Inr c')" "good b c" "cur b c t"
  shows "prims b c c' \<and> settled (tk_id t) c'"
  using assms suspendWith_prims
  by (auto simp: handleBoundaryEventWait_def Let_def split: if_splits)

section \<open>Gateways\<close>

lemma handleExclusiveGateway_prims:
  assumes "handleExclusiveGateway d t gid dflt c = Some (Inr c')" "good b c" "cur b c t"
  shows "prims b c c' \<and> settled (tk_id t) c'"
proof -
  from assms(1) obtain fid where "rfold (moveTokenToFlow d t) [fid] (set_token_status Completed t c) = Some (Inr c')"
    by (auto simp: handleExclusiveGateway_def rbind_ok)
  then show ?thesis using assms(2,3) by (rule settle_move_prims)
qed

lemma delete_join_prims: "prims b c (deleteJoinState gid c)"
  unfolding deleteJoinState_def
  using distinct_delete[of "cx_joinStateMap c" gid]
  by (intro r_into_rtranclp prim_join) (auto simp: join_update_def AList.delete_eq)

lemma save_join_prims: "own_instance c (js_instanceId s) \<Longrightarrow> prims b c (saveJoinState s c)"
  unfolding saveJoinState_def
  by (intro r_into_rtranclp prim_join) (auto simp: join_update_def distinct_update dest: in_set_update)

lemma own_instance_stored: "getJoinState gid c = Some g \<Longrightarrow> own_instance c (js_instanceId g)"
  unfolding getJoinState_def own_instance_def by (force dest: map_of_SomeD)

lemma own_instance_views [simp]:
  "own_instance (set_token_status st t c) k = own_instance c k"
  "own_instance (snd (newId c)) k = own_instance c k"
  by (simp_all add: own_instance_def set_token_status_def updateToken_def now_def newId_def Let_def)

lemma join_views [simp]:
  "cur b (deleteJoinState gid c) t = cur b c t" "cur b (saveJoinState s c) t = cur b c t"
  "settled i (deleteJoinState gid c) = settled i c" "settled i (saveJoinState s c) = settled i c"
  "knows (deleteJoinState gid c) t = knows c t" "knows (saveJoinState s c) t = knows c t"
  by (simp_all add: deleteJoinState_def saveJoinState_def settled_def knows_def)

lemma good_join: "good b c \<Longrightarrow> good b (deleteJoinState gid c)"
  using prims_good delete_join_prims by blast

text \<open>The common end of the two joins: the token is consumed, then the join fires or waits.\<close>

lemma join_end_prims:
  assumes "(if fires then rfold (moveTokenToFlow d t) fs (deleteJoinState gid (set_token_status Completed t c))
        else ret (saveJoinState s (set_token_status Completed t c))) = Some (Inr c')"
    "good b c" "cur b c t" "own_instance c (js_instanceId s)"
  shows "prims b c c' \<and> settled (tk_id t) c'"
proof -
  let ?c = "set_token_status Completed t c"
  have p: "prims b c ?c" using assms(3) by (simp add: set_token_status_prims)
  then have g: "good b ?c" "knows ?c t" using assms by (auto intro: prims_good prims_knows cur_knows)
  have "prims b ?c c'"
  proof (cases fires)
    case True
    then have "rfold (moveTokenToFlow d t) fs (deleteJoinState gid ?c) = Some (Inr c')" using assms(1) by simp
    then have "prims b (deleteJoinState gid ?c) c'" using g by (intro move_all_prims good_join) auto
    then show ?thesis using delete_join_prims rtranclp_trans by metis
  next
    case False
    then show ?thesis using assms(1,4) by (auto intro: save_join_prims)
  qed
  with p show ?thesis using assms(2) by (intro settle_then) auto
qed

lemma pass_on_prims:
  assumes "prims b c c1" "prims b c1 c' \<and> settled i c'"
  shows "prims b c c' \<and> settled i c'"
  using assms by (meson rtranclp_trans)

lemma handleParallelGateway_prims:
  assumes "handleParallelGateway d t gid c = Some (Inr c')" "good b c" "cur b c t"
  shows "prims b c c' \<and> settled (tk_id t) c'"
proof (cases "1 < length (getIncomingFlows d gid)")
  case True
  from assms(1)[unfolded handleParallelGateway_def Let_def if_P[OF True]] show ?thesis
  proof (rule rbind_okE, goal_cases)
    case (1 sc)
    obtain s c1 where sc: "sc = (s, c1)" by fastforce
    from 1(1) sc have c1: "c1 = c \<or> c1 = snd (newId c)"
      by (auto simp: rbind_ok split_beta split: option.splits gateway_join_state.splits)
    from 1(1) sc have "own_instance c (pj_instanceId s)"
      by (auto simp: rbind_ok split_beta requireInstance_ok own_instance_def[of _ "pi_id _"]
          dest!: own_instance_stored split: option.splits gateway_join_state.splits)
    with c1 have own: "own_instance c1 (js_instanceId (ParallelJoin (snd (evaluateParallelJoin gid f s))))" for f
      by (auto simp: evaluateParallelJoin_def Let_def)
    from c1 have "prims b c c1" "good b c1" "cur b c1 t" using assms(2,3) by auto
    moreover from this have "prims b c1 c' \<and> settled (tk_id t) c'"
      using 1(2)[unfolded sc split_beta fst_conv snd_conv] own by (intro join_end_prims)
    ultimately show ?case by (meson pass_on_prims)
  qed
next
  case False
  then obtain fs where "rfold (moveTokenToFlow d t) fs (set_token_status Completed t c) = Some (Inr c')"
    using assms(1) by (auto simp: handleParallelGateway_def Let_def rbind_ok)
  then show ?thesis using assms(2,3) by (rule settle_move_prims)
qed

lemma handleInclusiveGateway_prims:
  assumes "handleInclusiveGateway d t gid dflt c = Some (Inr c')" "good b c" "cur b c t"
  shows "prims b c c' \<and> settled (tk_id t) c'"
proof (cases "1 < length (getIncomingFlows d gid)")
  case True
  note * = assms(1)[unfolded handleInclusiveGateway_def Let_def if_P[OF True]]
  then obtain js where js: "getJoinState gid c = Some js" by (auto simp: throw_def split: option.splits)
  show ?thesis
  proof (cases js)
    case (ParallelJoin s)
    with * js show ?thesis by (simp add: throw_def)
  next
    case (InclusiveJoin s)
    have "own_instance c (js_instanceId (InclusiveJoin (snd (evaluateInclusiveJoin gid f s))))" for f
      using own_instance_stored[OF js] InclusiveJoin by (simp add: evaluateInclusiveJoin_def Let_def)
    with * js InclusiveJoin show ?thesis by (intro join_end_prims[OF _ assms(2,3)]) (auto simp: split_beta)
  qed
next
  case False
  note * = assms(1)[unfolded handleInclusiveGateway_def Let_def if_not_P[OF False] rbind_ok]
  then obtain fs where fs: "rbind (case findInclusiveJoinIncoming d fs of
                 None \<Rightarrow> ret c
               | Some (joinGatewayId, incomingFlows) \<Rightarrow>
                   rbind (requireInstance c) (\<lambda>i.
                     case newId c of (activationId, c1) \<Rightarrow> ret (saveJoinState (InclusiveJoin
                          \<lparr>ij_gatewayId = joinGatewayId, ij_instanceId = pi_id i, ij_activationId = activationId,
                           ij_activatedIncomingFlows = incomingFlows, ij_arrivedFromFlows = []\<rparr>) c1)))
          (\<lambda>c2. rfold (moveTokenToFlow d t) fs (set_token_status Completed t c2)) = Some (Inr c')"
    unfolding rbind_ok by blast
  then obtain c1 where j: "(case findInclusiveJoinIncoming d fs of
                 None \<Rightarrow> ret c
               | Some (joinGatewayId, incomingFlows) \<Rightarrow>
                   rbind (requireInstance c) (\<lambda>i.
                     case newId c of (activationId, c1) \<Rightarrow> ret (saveJoinState (InclusiveJoin
                          \<lparr>ij_gatewayId = joinGatewayId, ij_instanceId = pi_id i, ij_activationId = activationId,
                           ij_activatedIncomingFlows = incomingFlows, ij_arrivedFromFlows = []\<rparr>) c1))) = Some (Inr c1)"
    and e: "rfold (moveTokenToFlow d t) fs (set_token_status Completed t c1) = Some (Inr c')"
    by (rule rbind_okE)
  have c1: "c1 = c \<or> (\<exists>s. own_instance c (js_instanceId s) \<and> c1 = saveJoinState s (snd (newId c)))"
  proof (cases "findInclusiveJoinIncoming d fs")
    case (Some p)
    then obtain g ins i where i: "cx_instance c = Some i" "p = (g, ins)"
      using j by (cases p) (auto simp: rbind_ok requireInstance_ok)
    let ?s = "InclusiveJoin \<lparr>ij_gatewayId = g, ij_instanceId = pi_id i, ij_activationId = fst (newId c),
                           ij_activatedIncomingFlows = ins, ij_arrivedFromFlows = []\<rparr>"
    have "own_instance c (js_instanceId ?s)" using i by (simp add: own_instance_def)
    moreover have "c1 = saveJoinState ?s (snd (newId c))"
      using j Some i by (simp add: rbind_ok requireInstance_ok requireInstance_def split_beta)
    ultimately show ?thesis by blast
  qed (use j in simp)
  from c1 have p: "prims b c c1"
    using save_join_prims[of "snd (newId c)"] skip_prims
    by (metis own_instance_views(2) rtranclp.rtrancl_refl rtranclp_trans)
  with c1 assms have "good b c1" "cur b c1 t" by (auto intro: prims_good)
  with e have "prims b c1 c' \<and> settled (tk_id t) c'" by (rule settle_move_prims)
  with p show ?thesis by (rule pass_on_prims)
qed

lemma spawn_branch_ok:
  assumes "spawn_branch d t flow (bs, c) = Some (Inr (bs', c'))"
  obtains target and base :: token and c1 where
    "createToken (tk_instanceId t) (el_id target) (el_type target) (tk_scopeId t) (Some (sf_id flow)) c = (base, c1)"
    "c' = enqueuePending (base\<lparr>tk_parentTokenId := Some (tk_id t)\<rparr>)
       (emit (TokenMoved (tk_instanceId t) (tk_id base) (tk_elementId t) (el_id target) (el_type target))
         (updateToken (base\<lparr>tk_parentTokenId := Some (tk_id t)\<rparr>) c1))"
  using assms unfolding spawn_branch_def prod.case rbind_ok Let_def
  by (elim exE conjE) (simp split: prod.splits)

lemma spawn_branch_prims:
  assumes "spawn_branch d t flow (bs, c) = Some (Inr (bs', c'))" "good b c" "knows c t"
  shows "prims b c c'"
  using assms(1)
proof (rule spawn_branch_ok)
  fix target and base :: token and c1
  let ?t = "base\<lparr>tk_parentTokenId := Some (tk_id t)\<rparr>"
  assume c: "createToken (tk_instanceId t) (el_id target) (el_type target) (tk_scopeId t)
      (Some (sf_id flow)) c = (base, c1)"
    and c': "c' = enqueuePending ?t
       (emit (TokenMoved (tk_instanceId t) (tk_id base) (tk_elementId t) (el_id target) (el_type target))
         (updateToken ?t c1))"
  note base = createToken_result[OF c]
  obtain i where i: "cx_instance c = Some i" "tk_instanceId t = pi_id i" "tk_scopeId t \<in> scope_ids c"
    "tk_id t \<in> token_ids c"
    using knows_fields[OF assms(3) good_wf[OF assms(2)]] by blast
  have "prims b c (enqueuePending ?t (updateToken ?t c1))"
    using assms(2) base i by (intro spawn_prims[OF c]) (auto simp: good_def)
  then show ?thesis unfolding c' enqueue_emit by (rule prims_emit)
qed

lemma branches_prims:
  assumes "rfold (spawn_branch d t) fs (bs, c) = Some (Inr (bs', c'))" "good b c" "knows c t"
  shows "prims b c c'"
proof -
  have "case (bs', c') of (_, e) \<Rightarrow> prims b c e"
    using assms(1)
  proof (rule rfold_invariant)
    fix x acc acc'
    assume p: "case acc of (_, e) \<Rightarrow> prims b c e" and s: "spawn_branch d t x acc = Some (Inr acc')"
    obtain xs e xs' e' where a: "acc = (xs, e)" "acc' = (xs', e')" by fastforce
    with p assms have "good b e" "knows e t" by (auto intro: prims_good prims_knows)
    with s p a spawn_branch_prims show "case acc' of (_, e) \<Rightarrow> prims b c e"
      by (auto intro: rtranclp_trans)
  qed simp
  then show ?thesis by simp
qed

lemma handleEventBasedGateway_prims:
  assumes "handleEventBasedGateway d t e inst c = Some (Inr c')" "good b c" "cur b c t"
  shows "prims b c c' \<and> settled (tk_id t) c'"
proof -
  let ?c = "set_token_status Completed t c"
  from assms(1) obtain bs c1 ev where f: "rfold (spawn_branch d t) (getOutgoingFlows d (eb_id e)) ([], ?c) = Some (Inr (bs, c1))"
    and c': "c' = emit ev c1"
    by (auto simp: handleEventBasedGateway_def rbind_ok)
  have p: "prims b c ?c" using assms(3) by (simp add: set_token_status_prims)
  then have "good b ?c" "knows ?c t" using assms by (auto intro: prims_good prims_knows cur_knows)
  then have "prims b ?c c'" unfolding c' by (intro prims_emit branches_prims[OF f])
  with p show ?thesis using assms(2) by (intro settle_then) auto
qed

section \<open>Sub-processes\<close>

lemma handleSubProcess_prims:
  assumes "handleSubProcess d t e tx start c = Some (Inr c')" "good b c" "cur b c t"
  shows "prims b c c' \<and> settled (tk_id t) c'"
proof -
  obtain i where i: "cx_instance c = Some i" "tk_instanceId t = pi_id i" "tk_scopeId t \<in> scope_ids c"
    using knows_fields[OF cur_knows[OF assms(3)] good_wf[OF assms(2)]] by blast
  define s where "s = \<lparr>vs_id = fst (newId c), vs_parentScopeId = Some (tk_scopeId t), vs_variables = []\<rparr>"
  define c2 where "c2 = saveScope s (snd (newId c))"
  define c3 where "c3 = suspendToken t WaitExternal c2"
  define c5 where "c5 = emit (SubProcessStarted (pi_id i) (tk_id t) (el_id e))
    (if tx then spawnBoundaryTokens d t (el_id e) c3 else c3)"
  obtain base c6 where c6: "createToken (pi_id i) start StartEventT (fst (newId c)) None c5 = (base, c6)"
    by fastforce
  let ?t = "base\<lparr>tk_subProcessInstanceId := Some (el_id e)\<rparr>"
  have c': "c' = enqueuePending ?t (updateToken ?t c6)"
    using assms(1) c6 by (auto simp: handleSubProcess_def rbind_ok requireInstance_ok i(1) Let_def split_beta
        c5_def c3_def c2_def s_def)
  have p2: "prims b c c2"
    unfolding c2_def using i cur_knows[OF assms(3)]
    by (intro r_into_rtranclp prim_scope[of _ t]) (auto simp: s_def)
  have g2: "good b c2" "cur b c2 t" using p2 assms by (auto intro: prims_good simp: c2_def)
  have p3: "prims b c2 c3" unfolding c3_def using g2 by (simp add: suspendToken_prims)
  have g3: "good b c3" "knows c3 t" using p3 g2 by (auto intro: prims_good prims_knows cur_knows)
  have p5: "prims b c3 c5" unfolding c5_def using g3 by (auto intro!: prims_emit spawnBoundaryTokens_prims)
  have s3: "settled (tk_id t) c3" by (simp add: c3_def)
  have g5: "good b c5" using p5 g3 by (auto intro: prims_good)
  have sc: "fst (newId c) \<in> scope_ids c5"
  proof -
    have "fst (newId c) \<in> scope_ids c2" by (simp add: c2_def s_def)
    then show ?thesis using prims_scope_ids[OF p3] prims_scope_ids[OF p5] by blast
  qed
  have i5: "cx_instance c5 = Some i"
    using prims_instance[OF p2] prims_instance[OF p3] prims_instance[OF p5] i by simp
  note base = createToken_result[OF c6]
  have p6: "prims b c5 c'" unfolding c'
    using base i5 g5 sc by (intro spawn_prims[OF c6]) (auto simp: good_def)
  show ?thesis
    using p2 p3 p5 p6 s3 g3 assms(2) by (meson settle_then rtranclp_trans)
qed

lemma find_waiting_cur:
  assumes "find_waiting_at el c = Some t" "good b c"
  shows "cur b c t"
proof -
  from assms(1) have "t \<in> set (getAllTokens c)" "tk_status t = Waiting"
    by (auto simp: find_waiting_at_def find_Some_iff)
  with assms(2) have "token_at c (tk_id t) = Some t" by (auto simp: getAllTokens_at good_def wf_ctx_def)
  with \<open>tk_status t = Waiting\<close> assms(2) show ?thesis by (auto intro: waiting_cur)
qed

lemma checkSubProcessCompletion_prims:
  assumes "checkSubProcessCompletion d sp c = Some (Inr c')" "good b c"
  shows "prims b c c'"
proof (cases "filter is_live (inner_tokens sp c) = []")
  case True
  show ?thesis
  proof (cases "find_waiting_at sp c")
    case None
    with True assms(1) show ?thesis by (simp add: checkSubProcessCompletion_def)
  next
    case (Some outer)
    have cur: "cur b c outer" using Some assms(2) by (rule find_waiting_cur)
    from assms(1)[unfolded checkSubProcessCompletion_def Let_def, simplified True Some, simplified] show ?thesis
    proof (elim rbind_okE, goal_cases)
      case (1 i c1 el)
      from 1(2) have c1: "c1 = c \<or> (\<exists>vs. mergeVariables (tk_scopeId outer) vs c = Some (Inr c1))"
        by (auto simp: rbind_ok split: list.splits if_splits)
      then have p: "prims b c c1" by (auto intro: merge_prims)
      have "cur b c1 outer" using cur c1 cur_cong[of c1 c b outer] merge_views by blast
      moreover have "good b c1" using p assms(2) by (rule prims_good)
      ultimately have "prims b (emit (SubProcessCompleted (pi_id i) (tk_id outer) sp) c1) c'"
        using advanceToken_prims[OF 1(4)] by simp
      with prims_emit[OF p] show ?case by (rule rtranclp_trans)
    qed
  qed
next
  case False
  with assms(1) show ?thesis by (simp add: checkSubProcessCompletion_def)
qed

section \<open>Compensation and transactions\<close>

text \<open>These and the multi-instance handlers may touch ended tokens: they are runs in the loose mode only.\<close>

lemma knows_cur: "knows c t \<Longrightarrow> cur False c t"
  by (simp add: cur_def)

lemma loose_status_prims:
  "knows c t \<Longrightarrow> st \<in> {Waiting, Completed, Cancelled} \<Longrightarrow> prims False c (set_token_status st t c)"
  by (intro set_token_status_prims knows_cur)

lemma find_known:
  assumes "List.find P (getAllTokens c) = Some t" "wf_ctx c"
  shows "token_at c (tk_id t) = Some t" "knows c t" "P t"
proof -
  from assms(1) have "t \<in> set (getAllTokens c)" "P t" by (auto simp: find_Some_iff)
  with assms(2) show "token_at c (tk_id t) = Some t" "P t" by (auto simp: getAllTokens_at wf_ctx_def)
  then show "knows c t" by (simp add: stored_knows)
qed

lemma good_False [simp]: "good False c = wf_ctx c"
  by (simp add: good_def)

lemma prims_wf: "prims b c c' \<Longrightarrow> wf_ctx c \<Longrightarrow> wf_ctx c'"
  by (induction rule: rtranclp_induct) (auto intro: prim_wf)

lemma prims_knows_wf:
  assumes "prims False c c'" "wf_ctx c" "knows c t"
  shows "knows c' t"
  using assms prims_knows[of False] by simp

lemma consume_prims:
  "prims b c (snd (consumeCompensationRecords a c))" "prims b c (snd (consumeAllCompensationRecords c))"
proof -
  have "record_update c (filter P (cx_compensationList c))" for P
    unfolding record_update_def by (intro exI[of _ P] exI[of _ "[]"]) simp
  from this[of "\<lambda>r. cr_activityId r \<noteq> a"] this[of "\<lambda>_. False"]
  show "prims b c (snd (consumeCompensationRecords a c))" "prims b c (snd (consumeAllCompensationRecords c))"
    by (simp_all add: consumeCompensationRecords_def consumeAllCompensationRecords_def r_into_rtranclp prim_compensation)
qed

lemma start_handler_prims:
  assumes "start_handler fnd label sub (pi_id i) src from r (xs, c) = (ys, c')"
    and "good b c" "knows c src" "cx_instance c = Some i"
  shows "prims b c c'"
proof (cases "fnd (cr_handlerId r)")
  case None
  with assms(1) show ?thesis by (simp add: start_handler_def)
next
  case (Some h)
  obtain base c1 where c: "createToken (pi_id i) (cr_handlerId r) (el_type h) (tk_scopeId src) None c = (base, c1)"
    by fastforce
  note base = createToken_result[OF c]
  let ?t = "base\<lparr>tk_parentTokenId := Some (tk_id src), tk_subProcessInstanceId := sub\<rparr>"
  have c': "c' = emit (TokenMoved (pi_id i) (tk_id ?t) from (cr_handlerId r) (el_type h))
      (enqueuePending ?t (updateToken ?t c1))"
    using assms(1) Some c by (simp add: start_handler_def Let_def enqueue_emit)
  obtain j where j: "cx_instance c = Some j" "tk_scopeId src \<in> scope_ids c" "tk_id src \<in> token_ids c"
    using knows_fields[OF assms(3) good_wf[OF assms(2)]] by blast
  have "prims b c (enqueuePending ?t (updateToken ?t c1))"
    using assms base j by (intro spawn_prims[OF c]) (auto simp: good_def)
  then show ?thesis unfolding c' by (rule prims_emit)
qed

lemma start_handlers_prims:
  assumes "fold (start_handler fnd label sub (pi_id i) src from) rs (xs, c) = (ys, c')"
    and "good b c" "knows c src" "cx_instance c = Some i"
  shows "prims b c c'"
  using assms
proof (induction rs arbitrary: xs c)
  case (Cons r rs)
  obtain zs c1 where s: "start_handler fnd label sub (pi_id i) src from r (xs, c) = (zs, c1)" by fastforce
  then have p: "prims b c c1" using Cons.prems start_handler_prims by blast
  then have "good b c1" "knows c1 src" "cx_instance c1 = Some i"
    using Cons.prems by (auto intro: prims_good prims_knows simp: prims_instance)
  then have "prims b c1 c'" using Cons s by simp
  with p show ?case by (rule rtranclp_trans)
qed simp

lemma handleCompensationThrow_prims:
  assumes "handleCompensationThrow d t e ed c = Some (Inr c')" "good b c" "cur b c t"
  shows "prims b c c' \<and> settled (tk_id t) c'"
proof -
  define rc where "rc = (if truthy (ed_compensationActivityRef ed)
    then consumeCompensationRecords (the (ed_compensationActivityRef ed)) c else consumeAllCompensationRecords c)"
  have c1: "prims b c (snd rc)" "cur b (snd rc) t"
    unfolding rc_def using assms(3) consume_prims[of b c]
    by (auto simp: consumeCompensationRecords_def consumeAllCompensationRecords_def)
  then have g1: "good b (snd rc)" using assms(2) by (auto intro: prims_good)
  obtain i where i: "cx_instance c = Some i" using assms(2) by (auto simp: good_def wf_ctx_def)
  note * = assms(1)[unfolded handleCompensationThrow_def Let_def, folded rc_def]
  have "prims b (snd rc) c' \<and> settled (tk_id t) c'"
  proof (cases "fst rc = []")
    case True
    then show ?thesis
      using * i g1 c1(2) advanceToken_prims[of d t e "emit _ (snd rc)" c' b]
      by (auto simp: requireInstance_def split_beta intro: rtranclp_trans[OF emit_prims])
  next
    case False
    let ?c = "suspendToken t WaitExternal (snd rc)"
    have p: "prims b (snd rc) ?c" using c1(2) by (rule suspendToken_prims)
    have k: "good b ?c" "knows ?c t" "cx_instance ?c = Some i"
      using prims_good[OF p g1] prims_knows[OF p g1 cur_knows[OF c1(2)]]
        prims_instance[OF p] prims_instance[OF c1(1)] i by auto
    obtain ys c2 where f: "fold (start_handler (\<lambda>h. List.find (\<lambda>e. el_id e = h) (pd_elements d)) cr_handlerId None
        (pi_id i) t (el_id e)) (fst rc) ([], ?c) = (ys, c2)"
      by fastforce
    obtain ev where "c' = emit ev c2"
      using * i f False by (auto simp: requireInstance_def split_beta)
    then have "prims b ?c c'" using start_handlers_prims[OF f k] by (auto intro: prims_emit)
    with p show ?thesis using g1 by (intro settle_then) auto
  qed
  with c1(1) show ?thesis by (rule pass_on_prims)
qed

lemma recordCompensation_effect:
  assumes "recordCompensationIfNeeded d t e c = Some (Inr c')"
  shows "c' = c \<or> (\<exists>rs. record_update (snd (now c)) rs \<and> c' = (snd (now c))\<lparr>cx_compensationList := rs\<rparr>)"
proof -
  from assms have "c' = c \<or> (\<exists>i r. cx_instance c = Some i \<and> cr_instanceId r = pi_id i \<and>
      c' = addCompensationRecord r (snd (now c)))"
    by (auto simp: recordCompensationIfNeeded_def rbind_ok Let_def split_beta requireInstance_ok
        split: option.splits if_splits) (metis compensation_record.select_convs(1))
  moreover have "record_update (snd (now c)) (cx_compensationList (snd (now c)) @ [r])"
    if "cx_instance c = Some i" "cr_instanceId r = pi_id i" for r i
    using that unfolding record_update_def
    by (intro exI[of _ "\<lambda>_. True"] exI[of _ "[r]"]) (simp add: now_def)
  ultimately show ?thesis unfolding addCompensationRecord_def by blast
qed

lemma recordCompensation_prims:
  assumes "recordCompensationIfNeeded d t e c = Some (Inr c')"
  shows "prims b c c'" "cur b c' u = cur b c u" "settled i c' = settled i c"
  using recordCompensation_effect[OF assms]
  by (auto simp: settled_def intro: prims_from_tick prim_compensation)

lemma fireCancelBoundary_prims:
  assumes "fireCancelBoundary d outer sp c = Some (Inr c')" "wf_ctx c" "knows c outer"
  shows "prims False c c'"
proof (cases "List.find (event_type_is CancelEvent) (findBoundariesFor d sp)")
  case None
  with assms(1) show ?thesis by (simp add: fireCancelBoundary_def)
next
  case (Some b)
  show ?thesis
  proof (cases "find_waiting_at (el_id b) c")
    case None
    with assms(1) Some show ?thesis by (simp add: fireCancelBoundary_def)
  next
    case (Some bt)
    let ?e = "emit (BoundaryEventTriggered (tk_instanceId outer) (tk_id bt) (el_id b) True)
        (set_token_status Completed bt c)"
    have k: "knows c bt" using Some assms(2) by (auto simp: find_waiting_at_def intro: find_known)
    then have p1: "prims False c ?e" by (intro prims_emit loose_status_prims) auto
    have k1: "knows ?e outer" "knows ?e bt" "wf_ctx ?e"
      using p1 k assms by (auto intro: prims_knows_wf prims_wf)
    have p2: "prims False ?e (cancel_token_now outer ?e)"
      using k1 by (intro cancel_token_prims knows_cur)
    have r: "rfold (moveTokenToFlow d bt) (el_outgoingFlows b) (cancel_token_now outer ?e) = Some (Inr c')"
      using assms(1) Some \<open>List.find _ _ = Some b\<close> by (simp add: fireCancelBoundary_def)
    have "prims False (cancel_token_now outer ?e) c'"
      using move_all_prims[OF r] prims_knows_wf[OF p2] prims_wf[OF p2] k1 by simp
    with p1 p2 show ?thesis by (meson rtranclp_trans)
  qed
qed

lemma find_waiting_known: "find_waiting_at el c = Some t \<Longrightarrow> wf_ctx c \<Longrightarrow> knows c t"
  unfolding find_waiting_at_def by (rule find_known)

lemma handleTransactionCancel_prims:
  assumes "handleTransactionCancel d t c = Some (Inr c')" "wf_ctx c" "knows c t"
  shows "prims False c c'"
proof (cases "truthy (tk_subProcessInstanceId t)")
  case False
  with assms(1) show ?thesis by (simp add: handleTransactionCancel_def)
next
  case True
  define sp where "sp = the (tk_subProcessInstanceId t)"
  define c1 where "c1 = cancel_where (\<lambda>u. tk_id u \<noteq> tk_id t \<and> tk_subProcessInstanceId u = Some sp \<and> is_live u) c"
  define rc where "rc = consumeAllCompensationRecords c1"
  obtain i where i: "cx_instance c = Some i" using assms(2) by (auto simp: wf_ctx_def)
  define f where "f = fold (start_handler (findElementInTree (pd_elements d)) cr_activityId (Some sp)
                        (pi_id i) t (tk_elementId t)) (fst rc) ([], snd rc)"
  define c4 where "c4 = emit (TransactionCancelled (pi_id i) (tk_id t) sp (fst f)) (snd f)"
  have p1: "prims False c c1" unfolding c1_def using assms(2) by (intro cancel_where_prims) auto
  have p2: "prims False c1 (snd rc)" unfolding rc_def by (rule consume_prims)
  have p12: "prims False c (snd rc)" using p1 p2 by (rule rtranclp_trans)
  have k: "wf_ctx (snd rc)" "knows (snd rc) t" "cx_instance (snd rc) = Some i"
    using prims_wf[OF p12 assms(2)] prims_knows_wf[OF p12 assms(2,3)] prims_instance[OF p12] i by auto
  have p3: "prims False (snd rc) (snd f)"
    using start_handlers_prims[of "findElementInTree (pd_elements d)" cr_activityId "Some sp" i t
        "tk_elementId t" "fst rc" "[]" "snd rc" "fst f" "snd f" False] k
    by (simp add: f_def)
  have p4: "prims False c c4"
    unfolding c4_def by (rule prims_emit) (rule rtranclp_trans[OF p12 p3])
  have w4: "wf_ctx c4" using prims_wf[OF p4 assms(2)] .
  have r: "(case (fst rc, find_waiting_at sp c1) of
               ([], Some outer) \<Rightarrow> fireCancelBoundary d outer sp c4
             | _ \<Rightarrow> ret c4) = Some (Inr c')"
  proof -
    have nt: "\<not> \<not> truthy (tk_subProcessInstanceId t)" using True by simp
    from assms(1)[unfolded handleTransactionCancel_def if_not_P[OF nt] Let_def, folded sp_def,
        folded c1_def, folded rc_def] show ?thesis
    proof (rule rbind_okE, goal_cases)
      case (1 j)
      with i have "j = i" by (simp add: requireInstance_ok)
      from 1(2)[unfolded this split_beta fst_conv snd_conv, folded f_def, folded c4_def] show ?case by simp
    qed
  qed
  show ?thesis
  proof (cases "fst rc = [] \<and> find_waiting_at sp c1 \<noteq> None")
    case True
    then obtain outer where o: "find_waiting_at sp c1 = Some outer" "fst rc = []" by auto
    have "knows c1 outer" using find_waiting_known[OF o(1)] prims_wf[OF p1 assms(2)] by simp
    moreover have "prims False c1 c4"
      unfolding c4_def by (rule prims_emit) (rule rtranclp_trans[OF p2 p3])
    ultimately have "knows c4 outer" using prims_knows_wf prims_wf[OF p1 assms(2)] by blast
    then have "prims False c4 c'" using r o w4 by (auto intro: fireCancelBoundary_prims)
    with p4 show ?thesis by (rule rtranclp_trans)
  next
    case False
    then have "c' = c4" using r by (auto split: list.splits option.splits)
    with p4 show ?thesis by simp
  qed
qed

lemma advance_known_prims:
  assumes "advanceToken d t e c = Some (Inr c')" "wf_ctx c" "knows c t"
  shows "prims False c c'"
  using advanceToken_prims[of d t e c c' False] assms by (simp add: knows_cur)

lemma handleCompensationHandlerCompletion_prims:
  assumes "handleCompensationHandlerCompletion d h t c = Some (Inr c')" "wf_ctx c" "knows c h" "knows c t"
  shows "prims False c c'"
proof -
  let ?c = "set_token_status Completed h c"
  have p: "prims False c ?c" using assms(3) by (simp add: loose_status_prims)
  have k: "wf_ctx ?c" "knows ?c t" using prims_wf[OF p] prims_knows_wf[OF p] assms by auto
  have "prims False ?c c'"
  proof (cases "list_all is_over (children_of t ?c)")
    case False
    with assms(1) show ?thesis by (simp add: handleCompensationHandlerCompletion_def Let_def)
  next
    case True
    from assms(1)[unfolded handleCompensationHandlerCompletion_def Let_def, simplified True, simplified]
    show ?thesis
    proof (elim rbind_okE, goal_cases)
      case (1 i e)
      let ?d = "emit (CompensationCompleted (pi_id i) (tk_id t) (tk_elementId t)) ?c"
      have kd: "wf_ctx ?d" "knows ?d t" using k prims_wf[OF emit_prims] by (auto simp: knows_def)
      have "prims False ?d c'"
        using 1(3) kd
        by (auto split: if_splits option.splits
            intro: advance_known_prims fireCancelBoundary_prims find_waiting_known)
      then show ?case using emit_prims rtranclp_trans by metis
    qed
  qed
  with p show ?thesis by (rule rtranclp_trans)
qed

section \<open>Multi-instance tasks\<close>

lemma spawnMultiInstanceChild_prims:
  assumes "good b c" "knows c p"
  shows "prims b c (spawnMultiInstanceChild p e lc item c)"
proof -
  obtain i where i: "cx_instance c = Some i" "tk_instanceId p = pi_id i" "tk_scopeId p \<in> scope_ids c"
    "tk_id p \<in> token_ids c"
    using knows_fields[OF assms(2) good_wf[OF assms(1)]] by blast
  define s where "s = \<lparr>vs_id = fst (newId c), vs_parentScopeId = Some (tk_scopeId p),
    vs_variables = (if truthy (lc_inputElement lc)
              then [(the (lc_inputElement lc), \<lparr>vv_type = VObject, vv_value = item\<rparr>)] else [])\<rparr>"
  define c2 where "c2 = saveScope s (snd (newId c))"
  obtain base c3 where c3: "createToken (tk_instanceId p) (el_id e) (el_type e) (fst (newId c)) None c2 = (base, c3)"
    by fastforce
  note base = createToken_result[OF c3]
  let ?t = "base\<lparr>tk_parentTokenId := Some (tk_id p)\<rparr>"
  have r: "spawnMultiInstanceChild p e lc item c = enqueuePending ?t (updateToken ?t c3)"
    using c3 by (simp add: spawnMultiInstanceChild_def Let_def split_beta flip: s_def c2_def del: ctx_update_simps(3))
  have p2: "prims b c c2"
    unfolding c2_def using i assms(2)
    by (intro r_into_rtranclp prim_scope[of _ p]) (auto simp: s_def)
  have "prims b c2 (enqueuePending ?t (updateToken ?t c3))"
    using prims_good[OF p2 assms(1)] base i prims_instance[OF p2] prims_token_ids[OF p2]
    by (intro spawn_prims[OF c3]) (auto simp: good_def c2_def s_def)
  with p2 show ?thesis unfolding r by (rule rtranclp_trans)
qed

lemma spawn_children_prims:
  assumes "good b c" "knows c p"
  shows "prims b c (fold (spawnMultiInstanceChild p e lc) items c)"
  using assms
proof (induction items arbitrary: c)
  case (Cons x xs)
  let ?c = "spawnMultiInstanceChild p e lc x c"
  have p: "prims b c ?c" using Cons.prems by (rule spawnMultiInstanceChild_prims)
  then have "prims b ?c (fold (spawnMultiInstanceChild p e lc) xs ?c)"
    using Cons.prems by (intro Cons.IH) (auto intro: prims_good prims_knows)
  with p show ?case by (simp add: rtranclp_trans[OF p])
qed simp

lemma handleMultiInstanceStart_prims:
  assumes "handleMultiInstanceStart d t e lc c = Some (Inr c')" "wf_ctx c" "knows c t"
  shows "prims False c c' \<and> settled (tk_id t) c'"
  using assms(1)[unfolded handleMultiInstanceStart_def]
proof (elim rbind_okE, goal_cases)
  case (1 scope raw)
  then obtain items where raw: "raw = JArray items" by (cases raw) auto
  obtain i where i: "cx_instance c = Some i" using assms(2) by (auto simp: wf_ctx_def)
  show ?case
  proof (cases "items = []")
    case True
    let ?c = "emit (MultiInstanceCompleted (pi_id i) (tk_id t) (el_id e) 0) (set_token_status Completed t c)"
    have p: "prims False c ?c" using assms(3) by (intro prims_emit loose_status_prims) auto
    have "advanceToken d t e ?c = Some (Inr c')" using 1(3) raw True i by (simp add: requireInstance_def)
    moreover have "good False ?c" using prims_wf[OF p assms(2)] by (simp only: good_False)
    moreover have "cur False ?c t" by (rule knows_cur[OF prims_knows_wf[OF p assms(2,3)]])
    ultimately have "prims False ?c c' \<and> settled (tk_id t) c'" by (rule advanceToken_prims)
    with p show ?thesis by (rule pass_on_prims)
  next
    case False
    define w where "w = t\<lparr>tk_status := Waiting,
        tk_waitingFor := Some \<lparr>wc_type = WaitExternal, wc_correlationData = None\<rparr>, tk_updatedAt := fst (now c)\<rparr>"
    define c2 where "c2 = updateToken w (snd (now c))"
    have i2: "cx_instance c2 = Some i" using i by (simp add: c2_def)
    have p2: "prims False c c2"
      unfolding c2_def by (rule prims_from_tick, rule settle_prims[of _ _ t])
        (use assms(3) in \<open>auto simp: w_def intro: knows_cur\<close>)
    have s2: "settled (tk_id t) c2" by (simp add: c2_def w_def settled_def)
    have k2: "wf_ctx c2" "knows c2 t" using prims_wf[OF p2] prims_knows_wf[OF p2] assms by auto
    have "prims False c2 c'"
    proof (cases "lc_isSequential lc")
      case True
      define ls where "ls = \<lparr>ls_collection = items, ls_index = 0, ls_iterationsRan = 0\<rparr>"
      define ev where "ev = MultiInstanceStarted (pi_id i) (tk_id t) (el_id e) (length items) True"
      let ?c = "emit ev (updateToken (w\<lparr>tk_loopState := Some ls\<rparr>) c2)"
      have c': "c' = spawnMultiInstanceChild t e lc (hd items) ?c"
        using 1(3) raw False i i2 True
        by (simp add: requireInstance_def split_beta Let_def flip: w_def c2_def ls_def ev_def
            del: updateToken_last)
      have p3: "prims False c2 ?c"
        using k2 by (intro prims_emit settle_prims[of _ _ t]) (auto simp: w_def knows_cur)
      then have "wf_ctx ?c" "knows ?c t" using prims_wf prims_knows_wf k2 by blast+
      then have "prims False ?c c'" unfolding c' by (intro spawnMultiInstanceChild_prims) auto
      with p3 show ?thesis by (rule rtranclp_trans)
    next
      case nseq: False
      define ev where "ev = MultiInstanceStarted (pi_id i) (tk_id t) (el_id e) (length items) False"
      from 1(3) raw False i i2 nseq obtain c4
        where m: "c4 = emit ev c2 \<or> (\<exists>k vs. mergeVariables k vs (emit ev c2) = Some (Inr c4))"
        and c': "c' = fold (spawnMultiInstanceChild t e lc) items c4"
        by (auto simp: requireInstance_def split_beta Let_def rbind_ok split: if_splits
            simp flip: w_def c2_def ev_def)
      have p4: "prims False c2 c4"
        using m emit_prims[of False c2 ev] merge_prims[where b = False] rtranclp_trans by metis
      then have "wf_ctx c4" "knows c4 t" using prims_wf prims_knows_wf k2 by blast+
      then have "prims False c4 c'" unfolding c' by (intro spawn_children_prims) auto
      with p4 show ?thesis by (rule rtranclp_trans)
    qed
    with p2 s2 show ?thesis using assms(2) by (intro settle_then) auto
  qed
qed

lemma cancel_where_wf_prims: "wf_ctx c \<Longrightarrow> prims False c (cancel_where P c)"
  by (intro cancel_where_prims) auto

lemma completeMultiInstance_prims:
  assumes "completeMultiInstance d p e n c = Some (Inr c')" "wf_ctx c" "knows c p"
  shows "prims False c c'"
  using assms(1)[unfolded completeMultiInstance_def Let_def]
proof (rule rbind_okE, goal_cases)
  case (1 i)
  let ?c = "emit (MultiInstanceCompleted (pi_id i) (tk_id p) (el_id e) n) (set_token_status Completed p c)"
  let ?d = "cancelBoundaryTokensFor (el_id e) ?c"
  have p1: "prims False c ?c" using assms(3) by (intro prims_emit loose_status_prims) auto
  have p2: "prims False ?c ?d"
    unfolding cancelBoundaryTokensFor_def by (rule cancel_where_wf_prims[OF prims_wf[OF p1 assms(2)]])
  have p12: "prims False c ?d" using p1 p2 by (rule rtranclp_trans)
  have "prims False ?d c'"
    using move_all_prims[OF 1(2), of False] prims_wf[OF p12 assms(2)] prims_knows_wf[OF p12 assms(2,3)] by simp
  with p12 show ?case by (rule rtranclp_trans)
qed

lemma handleSequentialChildCompletion_prims:
  assumes "handleSequentialChildCompletion d ch p e lc c = Some (Inr c')" "wf_ctx c"
    "token_at c (tk_id p) = Some p"
  shows "prims False c c'"
proof (cases "tk_loopState p")
  case None
  with assms(1) show ?thesis by (simp add: handleSequentialChildCompletion_def)
next
  case (Some ls)
  have k: "knows c p" using assms(3) by (rule stored_knows)
  from assms(1)[unfolded handleSequentialChildCompletion_def Some option.case Let_def] show ?thesis
  proof (rule rbind_okE, goal_cases)
    case (1 stop)
    show ?case
    proof (cases "stop \<or> length (ls_collection ls) \<le> ls_index ls + 1")
      case True
      then show ?thesis
        using 1(2) completeMultiInstance_prims[OF _ assms(2) k] by (auto split: if_splits)
    next
      case False
      define q where "q = p\<lparr>tk_loopState := Some \<lparr>ls_collection = ls_collection ls,
        ls_index = ls_index ls + 1, ls_iterationsRan = ls_iterationsRan ls + 1\<rparr>\<rparr>"
      have c': "c' = spawnMultiInstanceChild p e lc (ls_collection ls ! (ls_index ls + 1)) (updateToken q c)"
        using 1(2) False by (simp add: q_def)
      have p1: "prims False c (updateToken q c)"
        using assms(3) by (intro r_into_rtranclp prim_settle[of _ _ p]) (auto simp: q_def)
      have "wf_ctx (updateToken q c)" "knows (updateToken q c) p"
        using prims_wf[OF p1 assms(2)] prims_knows_wf[OF p1 assms(2) k] by auto
      then have "prims False (updateToken q c) c'"
        unfolding c' by (intro spawnMultiInstanceChild_prims) auto
      with p1 show ?thesis by (rule rtranclp_trans)
    qed
  qed
qed

lemma handleParallelChildCompletion_prims:
  assumes "handleParallelChildCompletion d ch p e lc c = Some (Inr c')" "wf_ctx c" "knows c p"
  shows "prims False c c'"
  using assms(1)[unfolded handleParallelChildCompletion_def]
proof (rule rbind_okE, goal_cases)
  case (1 stop)
  show ?case
  proof (cases stop)
    case True
    define P :: "token \<Rightarrow> bool" where "P t \<longleftrightarrow> tk_status t = Waiting \<and> tk_parentTokenId t = Some (tk_id p)" for t
    define c2 where "c2 = fold (cancel_token_at (fst (now c))) (filter P (getAllTokens (snd (now c)))) (snd (now c))"
    have "filter (\<lambda>t. tk_status t = Waiting) (children_of p c) = filter P (getAllTokens (snd (now c)))"
      by (auto simp: children_of_def P_def intro!: filter_cong)
    then have r: "completeMultiInstance d p e
        (length (filter (\<lambda>t. tk_status t = Completed) (children_of p c2))) c2 = Some (Inr c')"
      using 1(2) True by (simp add: Let_def split_beta c2_def)
    have "wf_tokens (snd (now c))" using prims_wf[OF tick_prims assms(2)] by (simp add: wf_ctx_def)
    then have "prims False (snd (now c)) c2" unfolding c2_def by (intro cancel_fold_prims) auto
    then have p2: "prims False c c2" by (rule prims_from_tick)
    have "prims False c2 c'"
      using completeMultiInstance_prims[OF r] prims_wf[OF p2 assms(2)] prims_knows_wf[OF p2 assms(2,3)] by simp
    with p2 show ?thesis by (rule rtranclp_trans)
  next
    case False
    then show ?thesis using 1(2) completeMultiInstance_prims[OF _ assms(2,3)] by (auto simp: Let_def split: if_splits)
  qed
qed

lemma collect_output_effect:
  assumes "collect_output lc ch p c = Some (Inr c')"
  shows "c' = c \<or> (\<exists>k vs. mergeVariables k vs c = Some (Inr c'))"
  using assms by (auto simp: collect_output_def rbind_ok Let_def split: if_splits option.splits)

text \<open>The parent of a child token is another token, and it exists.\<close>

lemma parent_found:
  assumes "truthy (tk_parentTokenId t)" "knows c t" "wf_ctx c"
  obtains p where "List.find (\<lambda>p. Some (tk_id p) = tk_parentTokenId t) (getAllTokens c) = Some p"
    "token_at c (tk_id p) = Some p" "tk_id p \<noteq> tk_id t"
proof -
  from assms(1) obtain q where q: "tk_parentTokenId t = Some q" by (cases "tk_parentTokenId t") (auto simp: truthy_def)
  from assms(2) obtain u where u: "token_at c (tk_id t) = Some u" "tk_parentTokenId u = Some q"
    using q by (auto simp: knows_def same_visit_fields)
  with assms(3) have qt: "q \<in> token_ids c" "q \<noteq> tk_id t" by (auto simp: wf_ctx_def wf_tokens_def)
  then obtain p where p: "token_at c q = Some p" by (auto simp: token_ids_iff)
  with assms(3) have "tk_id p = q" by (auto simp: wf_ctx_def wf_tokens_def)
  with p assms(3) have "p \<in> set (getAllTokens c)" by (simp add: getAllTokens_at wf_ctx_def)
  with q \<open>tk_id p = q\<close> obtain p' where
    p': "List.find (\<lambda>p. Some (tk_id p) = tk_parentTokenId t) (getAllTokens c) = Some p'"
    by (cases "List.find (\<lambda>p. Some (tk_id p) = tk_parentTokenId t) (getAllTokens c)") (auto simp: find_None_iff)
  from find_known[OF p' assms(3)] q qt show ?thesis by (intro that[OF p']) auto
qed

lemma handleMultiInstanceChildCompletion_prims:
  assumes "handleMultiInstanceChildCompletion d t e lc c = Some (Inr c')" "wf_ctx c" "knows c t"
    "truthy (tk_parentTokenId t)"
  shows "prims False c c' \<and> settled (tk_id t) c'"
proof -
  from parent_found[OF assms(4,3,2)] obtain p where
    f: "List.find (\<lambda>p. Some (tk_id p) = tk_parentTokenId t) (getAllTokens c) = Some p"
    and p: "token_at c (tk_id p) = Some p" "tk_id p \<noteq> tk_id t" .
  let ?c = "set_token_status Completed t c"
  have p1: "prims False c ?c" using assms(3) by (simp add: loose_status_prims)
  from assms(1)[unfolded handleMultiInstanceChildCompletion_def f option.case] have "prims False ?c c'"
  proof (rule rbind_okE, goal_cases)
    case (1 c1)
    from collect_output_effect[OF 1(1)] have "prims False ?c c1 \<and> token_at c1 = token_at ?c"
      by (auto intro: merge_prims dest: merge_views(1))
    then have p2: "prims False ?c c1" and t1: "token_at c1 (tk_id p) = Some p" using p by auto
    have w1: "wf_ctx c1" using prims_wf[OF p2 prims_wf[OF p1 assms(2)]] .
    have "prims False c1 c'"
      using 1(2) w1 t1
      by (auto split: if_splits intro: handleSequentialChildCompletion_prims handleParallelChildCompletion_prims
          stored_knows)
    with p2 show ?case by (rule rtranclp_trans)
  qed
  with p1 show ?thesis using assms(2) by (intro settle_then) auto
qed

section \<open>Dispatch\<close>

fun plain_element :: "flow_element \<Rightarrow> bool" where
  "plain_element (EndEvent _ ed) = (ed_type ed \<noteq> TerminateEvent \<and> ed_type ed \<noteq> CancelEvent)"
| "plain_element e = (getLoopCharacteristics e = None \<and> \<not> isForCompensation e)"

definition plain :: "process_definition \<Rightarrow> bool" where
  "plain d \<longleftrightarrow> list_all plain_element (all_elements (pd_elements d))"

lemma plain_getElement: "plain d \<Longrightarrow> getElement d i = Some (Inr e) \<Longrightarrow> plain_element e"
  by (auto simp: plain_def list_all_iff getElement_ok dest: findElementInTree_in)

lemma plain_no_loop: "plain_element e \<Longrightarrow> getLoopCharacteristics e = None"
  by (cases e rule: plain_element.cases) (auto simp: getLoopCharacteristics_def)

lemma plain_no_compensation: "plain_element e \<Longrightarrow> \<not> isForCompensation e"
  by (cases e rule: plain_element.cases) (auto simp: isForCompensation_def)

lemma wait_task_prims:
  assumes "(case getLoopCharacteristics e of
        Some lc \<Rightarrow> if \<not> truthy (tk_parentTokenId t) then handleMultiInstanceStart d t e lc c else w
      | None \<Rightarrow> w) = Some (Inr c')" "b \<longrightarrow> getLoopCharacteristics e = None" "good b c" "cur b c t"
    and "w = Some (Inr c') \<Longrightarrow> prims b c c' \<and> settled (tk_id t) c'"
  shows "prims b c c' \<and> settled (tk_id t) c'"
proof (cases "getLoopCharacteristics e")
  case None
  with assms show ?thesis by simp
next
  case (Some lc)
  with assms(2) have b: "\<not> b" by simp
  then have "wf_ctx c" "knows c t" using assms(3,4) by (auto simp: cur_def)
  then show ?thesis
    using Some assms(1,5) b handleMultiInstanceStart_prims[of d t e lc c c'] by (auto split: if_splits)
qed

lemma handleServiceTask_prims:
  assumes "handleServiceTask d t e attrs c = Some (Inr c')" "b \<longrightarrow> getLoopCharacteristics e = None"
    "good b c" "cur b c t"
  shows "prims b c c' \<and> settled (tk_id t) c'"
  using assms(1)[unfolded handleServiceTask_def] assms(2-4)
proof (rule wait_task_prims)
  assume "rbind (requireInstance c) (\<lambda>i.
            ret (spawnBoundaryTokens d t (el_id e) (suspendToken t WaitExternal
              (emit (ServiceTaskStarted (pi_id i) (tk_id t) (el_id e)
                (case sv_taskType attrs of Some ty \<Rightarrow> ty | None \<Rightarrow> ''unknown'')) c)))) = Some (Inr c')"
  then obtain ev where c': "c' = spawnBoundaryTokens d t (el_id e) (suspendToken t WaitExternal (emit ev c))"
    by (auto simp: rbind_ok)
  show "prims b c c' \<and> settled (tk_id t) c'"
    unfolding c' by (rule pass_on_prims[OF emit_prims suspend_spawn_prims]) (use assms(3,4) in simp_all)
qed

lemma handleUserTask_prims:
  assumes "handleUserTask d t e c = Some (Inr c')" "b \<longrightarrow> getLoopCharacteristics e = None"
    "good b c" "cur b c t"
  shows "prims b c c' \<and> settled (tk_id t) c'"
  using assms(1)[unfolded handleUserTask_def] assms(2-4)
  by (rule wait_task_prims) (use assms(3,4) suspend_spawn_prims in auto)

lemma handleScriptTask_prims:
  assumes "handleScriptTask d t e c = Some (Inr c')" "b \<longrightarrow> getLoopCharacteristics e = None"
    "good b c" "cur b c t"
  shows "prims b c c' \<and> settled (tk_id t) c'"
  using assms(1)[unfolded handleScriptTask_def] assms(2-4)
  by (rule wait_task_prims) (use assms(4) suspendToken_prims in auto)

lemma handleManualTask_prims:
  assumes "handleManualTask d t e c = Some (Inr c')" "b \<longrightarrow> getLoopCharacteristics e = None"
    "good b c" "cur b c t"
  shows "prims b c c' \<and> settled (tk_id t) c'"
proof (cases "getLoopCharacteristics e")
  case None
  with assms(1) have "advanceToken d t e c = Some (Inr c')" by (simp add: handleManualTask_def)
  then show ?thesis using assms(3,4) by (rule advanceToken_prims)
next
  case (Some lc)
  with assms(2) have "\<not> b" by simp
  moreover from this have "wf_ctx c" "knows c t" using assms(3,4) by (auto simp: cur_def)
  ultimately show ?thesis
    using Some assms(1) handleMultiInstanceStart_prims[of d t e lc c c']
      handleMultiInstanceChildCompletion_prims[of d t e lc c c']
    by (auto simp: handleManualTask_def split: if_splits)
qed

lemma prims_msteps_then: "prims b c d \<Longrightarrow> msteps b d e \<Longrightarrow> msteps b c e"
  by (meson prims_msteps rtranclp_trans)

lemma completeInstance_msteps:
  assumes "completeInstance c = Some (Inr c')" "b \<longrightarrow> no_live c \<and> cx_pendingQueue c = []"
  shows "msteps b c c'" "settled i c' = settled i c"
proof -
  from assms(1) obtain j ev where j: "cx_instance c = Some j"
    and c': "c' = emit ev (setInstance (j\<lparr>pi_status := CompletedI, pi_completedAt := Some (fst (now c))\<rparr>) (snd (now c)))"
    by (auto simp: completeInstance_def rbind_ok Let_def split_beta requireInstance_ok)
  define k where "k = j\<lparr>pi_status := CompletedI, pi_completedAt := Some (fst (now c))\<rparr>"
  note c' = c'[folded k_def]
  have "mstep b (snd (now c)) (setInstance k (snd (now c)))"
    using assms(2) j by (intro mstep_instance[of _ j]) (auto simp: no_live_def k_def)
  then have "msteps b (snd (now c)) c'"
    unfolding c' by (meson mstep_prim prim_emit r_into_rtranclp rtranclp.rtrancl_into_rtrancl)
  then show "msteps b c c'" by (rule prims_msteps_then[OF tick_prims])
  show "settled i c' = settled i c" by (simp add: c' settled_def)
qed

lemma handleEndEvent_msteps:
  assumes "handleEndEvent d t ed c = Some (Inr c')" "good b c" "cur b c t"
    "b \<longrightarrow> ed_type ed \<noteq> TerminateEvent \<and> ed_type ed \<noteq> CancelEvent"
  shows "msteps b c c' \<and> settled (tk_id t) c'"
proof -
  let ?c = "set_token_status Completed t c"
  have p: "prims b c ?c" using assms(3) by (simp add: set_token_status_prims)
  have g: "good b ?c" "knows ?c t" "settled (tk_id t) ?c"
    using prims_good[OF p assms(2)] prims_knows[OF p assms(2) cur_knows[OF assms(3)]] by auto
  have w: "wf_tokens ?c" using g(1) by (auto simp: good_def wf_ctx_def)
  consider "ed_type ed = CancelEvent" | "ed_type ed = TerminateEvent"
    | "ed_type ed \<noteq> CancelEvent" "ed_type ed \<noteq> TerminateEvent" by blast
  then have "msteps b ?c c' \<and> settled (tk_id t) c'"
  proof cases
    case 1
    with assms(4) have b: "\<not> b" by blast
    then have "prims False ?c c'"
      using 1 assms(1) g by (intro handleTransactionCancel_prims) (auto simp: handleEndEvent_def Let_def)
    then show ?thesis using b g prims_msteps prims_settled by simp
  next
    case 2
    with assms(4) have b: "\<not> b" by blast
    let ?d = "fold cancel_token_now (filter (\<lambda>u. tk_id u \<noteq> tk_id t \<and> is_live u) (getAllTokens ?c)) ?c"
    have "prims False ?c ?d" using w by (intro cancel_fold_prims(2)) auto
    moreover from this have "settled (tk_id t) ?d" using b g prims_settled by simp
    moreover have "completeInstance ?d = Some (Inr c')" using 2 assms(1) by (simp add: handleEndEvent_def Let_def)
    ultimately show ?thesis using b completeInstance_msteps[of ?d c' False] prims_msteps_then by simp
  next
    case 3
    show ?thesis
    proof (cases "truthy (tk_subProcessInstanceId t)")
      case True
      then have "prims b ?c c'"
        using 3 assms(1) g(1) by (intro checkSubProcessCompletion_prims) (auto simp: handleEndEvent_def Let_def)
      then show ?thesis using g prims_msteps prims_settled by blast
    next
      case False
      show ?thesis
      proof (cases "filter is_live (getAllTokens ?c) = [] \<and> pendingCount ?c = 0")
        case True
        then have "no_live ?c" using w getAllTokens_at[OF w]
          unfolding no_live_def filter_empty_conv by (metis w wf_tokens_def)
        moreover have "cx_pendingQueue ?c = []" using True by (simp add: pendingCount_def)
        moreover have "completeInstance ?c = Some (Inr c')"
          using assms(1) 3 False True by (simp add: handleEndEvent_def Let_def)
        ultimately show ?thesis using completeInstance_msteps[of ?c c' b] g by blast
      next
        case False
        then have "c' = ?c"
          using assms(1) 3 \<open>\<not> truthy _\<close> by (auto simp: handleEndEvent_def Let_def)
        with g show ?thesis by simp
      qed
    qed
  qed
  with p show ?thesis by (meson prims_msteps_then)
qed

lemma processToken_msteps:
  assumes "processToken d t c = Some (Inr c')" "b \<longrightarrow> plain d" "good b c" "cur b c t"
  shows "msteps b c c' \<and> settled (tk_id t) c'"
proof -
  from assms(1) obtain e where e: "getElement d (tk_elementId t) = Some (Inr e)" "dispatch d t e c = Some (Inr c')"
    unfolding processToken_def by (elim rbind_okE)
  have pl: "b \<longrightarrow> plain_element e" using assms(2) e plain_getElement by blast
  then have nl: "b \<longrightarrow> getLoopCharacteristics e = None" using plain_no_loop by blast
  have "prims b c c' \<and> settled (tk_id t) c' \<Longrightarrow> ?thesis" by (meson prims_msteps)
  then show ?thesis
  proof (cases e)
    case (EndEvent base ed)
    with e assms pl show ?thesis by (intro handleEndEvent_msteps) auto
  next
    case (Gateway k base dflt inst)
    with e assms \<open>_ \<Longrightarrow> ?thesis\<close> show ?thesis
      by (cases k) (auto dest: handleExclusiveGateway_prims handleParallelGateway_prims
          handleInclusiveGateway_prims handleEventBasedGateway_prims)
  next
    case (IntermediateThrowEvent base ed)
    with e assms \<open>_ \<Longrightarrow> ?thesis\<close> show ?thesis
      by (auto simp: handleIntermediateThrowEvent_def split: if_splits
          dest: handleCompensationThrow_prims advanceToken_prims)
  next
    case (CallActivity base attrs)
    with e show ?thesis by simp
  qed (use e assms nl \<open>_ \<Longrightarrow> ?thesis\<close> in \<open>auto dest: advanceToken_prims handleServiceTask_prims
      handleUserTask_prims handleScriptTask_prims handleManualTask_prims handleIntermediateCatchEvent_prims
      handleBoundaryEventWait_prims handleSubProcess_prims\<close>)
qed

end
