(* ===== verification/Engine_Invariants.thy ===== *)
theory Engine_Invariants
  imports Engine_Refinement
begin

text \<open>
  Every command is a run of the token machine, and what the machine keeps the engine keeps:
  well-formed states, no active token left behind, tokens that never move or vanish, and, for
  plain definitions, ended tokens that never change again and completed instances with nothing left
  to do.
\<close>

section \<open>Runs of the loop\<close>

text \<open>What a finished run of the loop from \<open>c\<close> to \<open>c'\<close> has done.\<close>

definition ran :: "bool \<Rightarrow> ctx \<Rightarrow> ctx \<Rightarrow> bool" where
  "ran b c c' \<longleftrightarrow> engine_steps b c c' \<and> steady b c' \<and> (unqueued c = {} \<longrightarrow> unqueued c' = {})"

lemma ran_refl: "steady b c \<Longrightarrow> ran b c c"
  by (simp add: ran_def)

lemma ran_trans: "ran b c d \<Longrightarrow> ran b d e \<Longrightarrow> ran b c e"
  unfolding ran_def by (meson rtranclp_trans)

lemma ran_msteps:
  assumes "msteps b c c'" "steady b c"
  shows "ran b c c'"
  using assms msteps_engine msteps_steady msteps_unqueued[OF assms(1)] unfolding ran_def by blast

lemma ran_prims: "prims b c c' \<Longrightarrow> steady b c \<Longrightarrow> ran b c c'"
  by (rule ran_msteps[OF prims_msteps])

lemma ran_process:
  assumes "processToken d t (c\<lparr>cx_pendingQueue := ts\<rparr>) = Some (Inr c')" "cx_pendingQueue c = t # ts"
    "steady b c" "b \<longrightarrow> plain d"
  shows "ran b c c'"
proof -
  let ?c = "c\<lparr>cx_pendingQueue := ts\<rparr>"
  have g: "good b ?c" "cur b ?c t" using dequeue_steady[OF assms(3,2)] by auto
  have m: "msteps b ?c c'" "settled (tk_id t) c'"
    using processToken_msteps[OF assms(1,4) g] by auto
  have "engine_steps b c c'"
    using engine_dequeue[OF assms(2)] msteps_engine[OF m(1)] by (rule converse_rtranclp_into_rtranclp)
  moreover have "steady b c'" using m(1) good_steady[OF g(1)] by (rule msteps_steady)
  moreover have "unqueued c' = {}" if "unqueued c = {}"
  proof -
    have "unqueued c' \<subseteq> {tk_id t}"
      using msteps_unqueued[OF m(1)] dequeue_unqueued[OF assms(2)] that by auto
    then show ?thesis using m(2) by (rule unqueued_settled)
  qed
  ultimately show ?thesis by (simp add: ran_def)
qed

lemma ran_loop:
  assumes "runLoop d c = Some (Inr c')" "steady b c" "b \<longrightarrow> plain d"
  shows "ran b c c' \<and> cx_pendingQueue c' = []"
proof -
  define P where "P d c r \<longleftrightarrow>
    (\<forall>c'. r = Inr c' \<longrightarrow> steady b c \<longrightarrow> (b \<longrightarrow> plain d) \<longrightarrow> ran b c c' \<and> cx_pendingQueue c' = [])"
    for d :: process_definition and c and r :: "engine_error + ctx"
  have "P d c (Inr c')"
    using _ assms(1)
  proof (rule runLoop.raw_induct)
    fix f :: "process_definition \<Rightarrow> ctx \<Rightarrow> (engine_error, ctx) res" and d c r
    assume IH: "\<And>d c r. f d c = Some r \<Longrightarrow> P d c r"
      and body: "(case dequeuePending c of None \<Rightarrow> Some (Inr c)
        | Some (t, c1) \<Rightarrow> (case processToken d t c1 of None \<Rightarrow> None
            | Some (Inl e) \<Rightarrow> Some (Inl e) | Some (Inr c2) \<Rightarrow> f d c2)) = Some r"
    show "P d c r" unfolding P_def
    proof (intro allI impI)
      fix c' assume r: "r = Inr c'" and st: "steady b c" and pl: "b \<longrightarrow> plain d"
      show "ran b c c' \<and> cx_pendingQueue c' = []"
      proof (cases "cx_pendingQueue c")
        case Nil
        with body r st show ?thesis by (simp add: dequeuePending_def ran_refl)
      next
        case (Cons t ts)
        with body r obtain c2 where c2: "processToken d t (c\<lparr>cx_pendingQueue := ts\<rparr>) = Some (Inr c2)"
          "f d c2 = Some (Inr c')"
          by (auto simp: dequeuePending_def split: option.splits sum.splits)
        have n: "ran b c c2" using c2(1) Cons st pl by (rule ran_process)
        then have "steady b c2" by (simp add: ran_def)
        then have "ran b c2 c' \<and> cx_pendingQueue c' = []" using IH[OF c2(2)] pl by (simp add: P_def)
        with n show ?thesis by (blast intro: ran_trans)
      qed
    qed
  qed
  then show ?thesis using assms(2,3) by (simp add: P_def)
qed

text \<open>The common shape of the commands: elementary steps, then the loop.\<close>

lemma ran_prims_loop:
  assumes "prims b c c1" "runLoop d c1 = Some (Inr c')" "good b c" "b \<longrightarrow> plain d"
  shows "ran b c c' \<and> cx_pendingQueue c' = []"
proof -
  have "steady b c1" using prims_good[OF assms(1,3)] by (rule good_steady)
  then have "ran b c1 c' \<and> cx_pendingQueue c' = []" using assms(2,4) by (intro ran_loop)
  then show ?thesis using ran_prims[OF assms(1) good_steady[OF assms(3)]] by (blast intro: ran_trans)
qed

section \<open>Cancelling loops\<close>

definition cancelled_at :: "int \<Rightarrow> token \<Rightarrow> token" where
  "cancelled_at n t = t\<lparr>tk_status := Cancelled, tk_updatedAt := n\<rparr>"

lemma cancel_fold_other:
  "k \<notin> tk_id ` set ts \<Longrightarrow> token_at (fold (cancel_token_at n) ts c) k = token_at c k"
  by (induction ts arbitrary: c) auto

lemma cancel_fold_one:
  assumes "distinct (map tk_id ts)" "t \<in> set ts"
  shows "token_at (fold (cancel_token_at n) ts c) (tk_id t) = Some (cancelled_at n t)"
  using assms
proof (induction ts arbitrary: c)
  case (Cons u ts)
  then show ?case by (auto simp: cancel_fold_other cancelled_at_def)
qed simp

lemma cancel_where_at:
  assumes "wf_tokens c" "token_at c k = Some t"
  shows "token_at (cancel_where P c) k = Some (if P t then cancelled_at (fst (now c)) t else t)"
proof -
  have d: "distinct (map tk_id (filter P (getAllTokens c)))"
    using getAllTokens_distinct[OF assms(1)] by (rule distinct_map_filter)
  have k: "tk_id t = k" "t \<in> set (getAllTokens c)"
    using assms getAllTokens_at[OF assms(1), of t] by (auto simp: wf_tokens_def)
  show ?thesis
  proof (cases "P t")
    case True
    then show ?thesis
      using cancel_fold_one[OF d, of t "fst (now c)" "snd (now c)"] k
      by (simp add: cancel_where_def Let_def split_beta)
  next
    case False
    have "k \<notin> tk_id ` set (filter P (getAllTokens c))"
    proof
      assume "k \<in> tk_id ` set (filter P (getAllTokens c))"
      then obtain u where u: "u \<in> set (getAllTokens c)" "P u" "tk_id u = k" by auto
      then have "u = t" using getAllTokens_at[OF assms(1), of u] assms(2) by simp
      with u False show False by simp
    qed
    then show ?thesis
      using cancel_fold_other[of k "filter P (getAllTokens c)" "fst (now c)" "snd (now c)"] False assms(2)
      by (simp add: cancel_where_def Let_def split_beta)
  qed
qed

lemma cancel_where_instance [simp]: "cx_instance (cancel_where P c) = cx_instance c"
proof -
  have "cx_instance (fold (cancel_token_at n) ts c) = cx_instance c" for n ts c
    by (induction ts arbitrary: c) auto
  then show ?thesis by (simp add: cancel_where_def Let_def split_beta)
qed

lemma cancel_where_pending [simp]: "pending_ids (cancel_where P c) = pending_ids c"
proof -
  have "pending_ids (fold (cancel_token_at n) ts c) = pending_ids c" for n ts c
    by (induction ts arbitrary: c) auto
  then show ?thesis by (simp add: cancel_where_def Let_def split_beta)
qed

lemma cancel_where_cur:
  assumes "good b c" "cur b c t" "b \<longrightarrow> (\<forall>t. P t \<longrightarrow> tk_status t = Waiting)"
    "\<And>u. token_at c (tk_id t) = Some u \<Longrightarrow> \<not> P u"
  shows "cur b (cancel_where P c) t"
proof -
  obtain u where u: "token_at c (tk_id t) = Some u" "same_visit t u" using assms(2) by (auto simp: cur_def knows_def)
  have "wf_tokens c" using assms(1) by (auto simp: good_def wf_ctx_def)
  then have "token_at (cancel_where P c) (tk_id t) = Some u" using cancel_where_at[of c] u assms(4) by simp
  with u assms(2) show ?thesis by (auto simp: cur_def knows_def)
qed

section \<open>Commands\<close>

lemma steady_waiting_good:
  assumes "steady b c" "token_at c k = Some t" "tk_status t = Waiting"
  shows "good b c"
  using assms by (auto simp: steady_def good_def no_live_def is_live_def)

text \<open>The token a completing command names must not be a boundary token in strict mode.\<close>

definition not_boundary :: "ctx \<Rightarrow> string \<Rightarrow> bool" where
  "not_boundary c k \<longleftrightarrow> (\<forall>t. token_at c k = Some t \<longrightarrow> tk_elementType t \<noteq> BoundaryEventT)"

lemma resume_effect:
  assumes "resume_if_suspended c = Some (Inr c1)"
  shows "c1 = c \<or> (\<exists>i ev. cx_instance c = Some i \<and> c1 = emit ev (setInstance (i\<lparr>pi_status := ActiveI\<rparr>) c))"
  using assms by (auto simp: resume_if_suspended_def rbind_ok requireInstance_ok split: if_splits)

lemma emit_mstep: "msteps b c d \<Longrightarrow> msteps b c (emit ev d)"
  by (meson mstep_prim prim_emit rtranclp.rtrancl_into_rtrancl)

lemma set_status_mstep:
  "cx_instance c = Some i \<Longrightarrow> pi_id j = pi_id i \<Longrightarrow> pi_rootScopeId j = pi_rootScopeId i \<Longrightarrow> pi_version j = pi_version i \<Longrightarrow>
    pi_status j \<noteq> CompletedI \<Longrightarrow> msteps b c (setInstance j c)"
  by (rule r_into_rtranclp) (rule mstep_instance, auto)

lemma resume_ran:
  assumes "resume_if_suspended c = Some (Inr c1)" "good b c"
  shows "msteps b c c1 \<and> good b c1 \<and> token_at c1 = token_at c \<and> pending_ids c1 = pending_ids c"
proof -
  from resume_effect[OF assms(1)] have m: "msteps b c c1"
    by (auto intro!: emit_mstep set_status_mstep)
  have v: "token_at c1 = token_at c \<and> pending_ids c1 = pending_ids c"
    using resume_effect[OF assms(1)] by auto
  have "running c1" if "running c" using resume_effect[OF assms(1)] that by (auto simp: running_def)
  moreover have "steady b c1" using m good_steady[OF assms(2)] by (rule msteps_steady)
  ultimately have "good b c1" using assms(2) by (auto simp: steady_def good_def)
  with m v show ?thesis by blast
qed

lemma merge_output_effect:
  assumes "merge_output k vars c = Some (Inr c')"
  shows "prims b c c' \<and> token_at c' = token_at c \<and> pending_ids c' = pending_ids c"
  using assms by (auto simp: merge_output_def split: option.splits list.splits
      intro: merge_prims dest: merge_views)

lemma ran_then_loop:
  assumes "ran b c c1" "prims b c1 c2" "good b c1" "runLoop d c2 = Some (Inr c')" "b \<longrightarrow> plain d"
  shows "ran b c c' \<and> cx_pendingQueue c' = []"
  using ran_prims_loop[OF assms(2,4,3,5)] assms(1) by (blast intro: ran_trans)

lemma complete_ordinary_ran:
  assumes "complete_ordinary d t e c = Some (Inr c')" "good b c" "cur b c t"
    "b \<longrightarrow> plain d \<and> tk_elementType t \<noteq> BoundaryEventT"
  shows "ran b c c' \<and> cx_pendingQueue c' = []"
  using assms(1)[unfolded complete_ordinary_def Let_def]
proof (elim rbind_okE, goal_cases)
  case (1 i c2 c3)
  let ?d = "emit (ServiceTaskCompleted (pi_id i) (tk_id t) (tk_elementId t) 0) c"
  let ?P = "\<lambda>u. tk_status u = Waiting \<and> tk_elementType u = BoundaryEventT \<and> correlates ''hostTaskId'' (tk_elementId t) u"
  let ?e = "cancelBoundaryTokensFor (tk_elementId t) ?d"
  have gd: "good b ?d" "cur b ?d t" using assms(2,3) by auto
  have p: "prims b ?d ?e" unfolding cancelBoundaryTokensFor_def using gd(1) by (intro cancel_where_prims) auto
  have ge: "good b ?e" using p gd(1) by (rule prims_good)
  have ce: "cur b ?e t"
  proof (cases b)
    case True
    have "tk_elementType u \<noteq> BoundaryEventT" if "token_at ?d (tk_id t) = Some u" for u
      using that gd(2) True assms(4) by (auto simp: cur_def knows_def same_visit_fields)
    then show ?thesis unfolding cancelBoundaryTokensFor_def using gd by (intro cancel_where_cur) auto
  next
    case False
    with p gd show ?thesis using prims_knows by (auto simp: cur_def)
  qed
  have p2: "prims b ?e c2" "cur b c2 t" using recordCompensation_prims[OF 1(2)] ce by auto
  then have "prims b c2 c3" using advanceToken_prims[OF 1(3)] prims_good[OF p2(1) ge] by blast
  then have "prims b ?d c3" using p p2(1) by (meson rtranclp_trans)
  then have "prims b c c3" by (rule rtranclp_trans[OF emit_prims])
  then show ?case using 1(4) assms(2,4) by (intro ran_prims_loop) auto
qed

lemma find_parent_known:
  assumes "find_parent t c = Some p" "wf_ctx c"
  shows "knows c p" "truthy (tk_parentTokenId t)"
  using assms by (auto simp: find_parent_def split: if_splits intro: find_known)

lemma complete_with_parent_ran:
  assumes "complete_with_parent d t e c = Some (Inr c')" "good b c" "cur b c t"
    "b \<longrightarrow> plain d \<and> plain_element e \<and> tk_elementType t \<noteq> BoundaryEventT"
  shows "ran b c c' \<and> cx_pendingQueue c' = []"
proof -
  have w: "wf_ctx c" "knows c t" using assms(2,3) by (auto simp: cur_def)
  note ord = complete_ordinary_ran[OF _ assms(2,3)]
  show ?thesis
  proof (cases "find_parent t c")
    case None
    with assms(1) have "complete_ordinary d t e c = Some (Inr c')" by (simp add: complete_with_parent_def)
    then show ?thesis using assms(4) by (intro ord) auto
  next
    case (Some p)
    note p = find_parent_known[OF Some w(1)]
    have ne: "b \<longrightarrow> getLoopCharacteristics e = None \<and> \<not> isForCompensation e"
      using assms(4) plain_no_loop plain_no_compensation by blast
    consider (ordinary) "complete_ordinary d t e c = Some (Inr c')"
      | (multi) lc c1 where "\<not> b" "prims False c c1"
          "rbind (handleMultiInstanceChildCompletion d t e lc c1) (runLoop d) = Some (Inr c')"
      | (compensation) "\<not> b" "rbind (handleCompensationHandlerCompletion d t p c) (runLoop d) = Some (Inr c')"
    proof (cases "getLoopCharacteristics e")
      case None
      with assms(1) Some ne compensation ordinary show ?thesis
        by (cases b) (auto simp: complete_with_parent_def split: if_splits)
    next
      case lc: (Some lc)
      with ne have b: "\<not> b" by simp
      show ?thesis
      proof (cases "tk_elementId p = tk_elementId t")
        case True
        with assms(1) Some lc obtain c1 where c1:
          "(if el_type e = ServiceTaskT then rbind (requireInstance c) (\<lambda>i.
               ret (emit (ServiceTaskCompleted (pi_id i) (tk_id t) (tk_elementId t) 0) c))
            else ret c) = Some (Inr c1)"
          "rbind (handleMultiInstanceChildCompletion d t e lc c1) (runLoop d) = Some (Inr c')"
          by (auto simp: complete_with_parent_def elim: rbind_okE)
        from c1(1) have "prims False c c1" by (auto simp: rbind_ok split: if_splits)
        with c1(2) show ?thesis using b by (intro multi)
      next
        case False
        with assms(1) Some lc b compensation ordinary show ?thesis
          by (auto simp: complete_with_parent_def split: if_splits)
      qed
    qed
    then show ?thesis
    proof cases
      case ordinary
      then show ?thesis using assms(4) by (intro ord) auto
    next
      case multi
      then obtain c2 where c2: "handleMultiInstanceChildCompletion d t e lc c1 = Some (Inr c2)"
        "runLoop d c2 = Some (Inr c')" by (auto simp: rbind_ok)
      have "prims False c1 c2"
        using handleMultiInstanceChildCompletion_prims[OF c2(1)] p(2)
          prims_wf[OF multi(2) w(1)] prims_knows_wf[OF multi(2) w] by blast
      with multi have "prims b c c2" by (simp add: rtranclp_trans)
      then show ?thesis using c2(2) assms(2,4) by (intro ran_prims_loop) auto
    next
      case compensation
      then obtain c2 where c2: "handleCompensationHandlerCompletion d t p c = Some (Inr c2)"
        "runLoop d c2 = Some (Inr c')" by (auto simp: rbind_ok)
      have "prims False c c2" using handleCompensationHandlerCompletion_prims[OF c2(1) w p(1)] .
      with compensation have "prims b c c2" by simp
      then show ?thesis using c2(2) assms(2,4) by (intro ran_prims_loop) auto
    qed
  qed
qed

lemma requireToken_at: "requireToken k c = Some (Inr t) \<longleftrightarrow> token_at c k = Some t"
  by (simp add: requireToken_ok token_at_def)

lemma handleCompleteTask_ran:
  assumes "handleCompleteTask d k vars c = Some (Inr c')" "steady b c" "b \<longrightarrow> plain d \<and> not_boundary c k"
  shows "ran b c c' \<and> cx_pendingQueue c' = []"
  using assms(1)[unfolded handleCompleteTask_def]
proof (rule rbind_okE, goal_cases)
  case (1 t)
  then have t: "token_at c k = Some t" "tk_status t = Waiting"
    by (auto simp: requireToken_at split: if_splits)
  have w: "wf_ctx c" using assms(2) by (simp add: steady_def)
  with t have kt: "tk_id t = k" by (simp add: wf_ctx_def wf_tokens_def)
  have g: "good b c" using assms(2) t by (rule steady_waiting_good)
  have cur: "cur b c t" using g t kt by (auto intro: waiting_cur)
  have "rbind (resume_if_suspended c) (\<lambda>c1. rbind (merge_output (tk_scopeId t) vars c1)
    (\<lambda>c2. rbind (getElement d (tk_elementId t)) (\<lambda>element. complete_with_parent d t element c2))) = Some (Inr c')"
    using 1(2) t by simp
  then show ?case
  proof (elim rbind_okE, goal_cases)
    case (1 c1 c2 e)
    note r = resume_ran[OF 1(1) g] and m = merge_output_effect[OF 1(2), of b]
    have g2: "good b c2" "cur b c2 t"
      using r m prims_good[of b c1 c2] cur cur_cong[of c1 c b t] cur_cong[of c2 c1 b t] by auto
    have "ran b c2 c' \<and> cx_pendingQueue c' = []"
      using 1(4) g2 assms(3) t plain_getElement[OF _ 1(3)]
      by (intro complete_with_parent_ran) (auto simp: not_boundary_def)
    moreover have "ran b c c2"
      using ran_msteps[of b c c1] ran_prims[of b c1 c2] r m good_steady g by (blast intro: ran_trans)
    ultimately show ?case by (blast intro: ran_trans)
  qed
qed

lemma cancelHost_prims:
  assumes "good b c"
  shows "prims b c (cancelHostTaskAndBoundaries host k c)"
  unfolding cancelHostTaskAndBoundaries_def using assms by (intro cancel_where_prims) auto

lemma cancelEbg_prims:
  assumes "good b c"
  shows "prims b c (cancelEbgSiblings t c)"
  unfolding cancelEbgSiblings_def using assms cancel_where_prims[OF assms] by auto

lemma handleFailServiceTask_ran:
  assumes "handleFailServiceTask d k code msg c = Some (Inr c')" "steady b c" "b \<longrightarrow> plain d"
    "cx_pendingQueue c = []"
  shows "ran b c c' \<and> cx_pendingQueue c' = []"
  using assms(1)[unfolded handleFailServiceTask_def]
proof (rule rbind_okE, goal_cases)
  case (1 t)
  then have t: "token_at c k = Some t" "tk_status t = Waiting"
    by (auto simp: requireToken_at split: if_splits)
  have w: "wf_ctx c" using assms(2) by (simp add: steady_def)
  with t have kt: "tk_id t = k" by (simp add: wf_ctx_def wf_tokens_def)
  have g: "good b c" using assms(2) t by (rule steady_waiting_good)
  have cur: "cur b c t" using g t kt by (auto intro: waiting_cur)
  obtain i where i: "cx_instance c = Some i" using w by (auto simp: wf_ctx_def)
  let ?c = "emit (ServiceTaskFailed (pi_id i) (tk_id t) (tk_elementId t) msg 1) c"
  show ?case
  proof (cases "findMatchingErrorBoundary d (tk_elementId t) code")
    case None
    let ?j = "i\<lparr>pi_status := SuspendedI, pi_errorInfo := Some \<lparr>pe_code = code, pe_message = msg,
                      pe_elementId = Some (tk_elementId t), pe_tokenId = Some (tk_id t)\<rparr>\<rparr>"
    have c': "c' = emit (ErrorThrown (pi_id i) (tk_id t) code False)
        (emit (ProcessInstanceSuspended (pi_id i)) (setInstance ?j ?c))"
      using 1(2) t i None by (simp add: requireInstance_def Let_def)
    have "msteps b ?c c'"
      unfolding c' using i by (intro emit_mstep set_status_mstep) auto
    then have "msteps b c c'" by (rule prims_msteps_then[OF emit_prims])
    then show ?thesis using assms(2,4) c' by (auto intro: ran_msteps)
  next
    case (Some eb)
    let ?d = "cancel_token_now t ?c"
    let ?e = "emit (BoundaryEventTriggered (pi_id i) (tk_id t) (el_id eb) (boundary_cancels eb))
        (emit (ErrorThrown (pi_id i) (tk_id t) code True) (cancelHostTaskAndBoundaries (tk_elementId t) [] ?d))"
    have r: "rbind (rfold (moveTokenToFlow d t) (el_outgoingFlows eb) ?e) (runLoop d) = Some (Inr c')"
      using 1(2) t i Some by (simp add: requireInstance_def Let_def)
    then obtain c2 where c2: "rfold (moveTokenToFlow d t) (el_outgoingFlows eb) ?e = Some (Inr c2)"
      "runLoop d c2 = Some (Inr c')" by (auto simp: rbind_ok)
    have p1: "prims b c ?d" using cur by (intro rtranclp_trans[OF emit_prims cancel_token_prims(2)]) simp
    have g1: "good b ?d" using prims_good[OF p1 g] .
    have p2: "prims b c ?e" by (rule rtranclp_trans[OF p1]) (intro prims_emit cancelHost_prims g1)
    have "good b ?e" "knows ?e t" using prims_good[OF p2 g] prims_knows[OF p2 g cur_knows[OF cur]] by auto
    then have "prims b ?e c2" by (rule move_all_prims[OF c2(1)])
    with p2 have "prims b c c2" by (rule rtranclp_trans)
    then show ?thesis using c2(2) g assms(3) by (rule ran_prims_loop)
  qed
qed

lemma advanceTokenFlows_prims:
  assumes "advanceTokenFlows d t c = Some (Inr c')" "good b c" "knows c t"
  shows "prims b c c'"
  using assms(1)[unfolded advanceTokenFlows_def] by (rule rbind_okE) (use assms(2,3) move_all_prims in blast)

lemma move_loop_ran:
  assumes "rbind (rfold (moveTokenToFlow d t) fs c1) (runLoop d) = Some (Inr c')"
    "prims b c c1" "good b c" "knows c t" "b \<longrightarrow> plain d"
  shows "ran b c c' \<and> cx_pendingQueue c' = []"
proof -
  from assms(1) obtain c2 where c2: "rfold (moveTokenToFlow d t) fs c1 = Some (Inr c2)"
    "runLoop d c2 = Some (Inr c')" by (auto simp: rbind_ok)
  have "good b c1" "knows c1 t" using assms(2-4) prims_good prims_knows by blast+
  then have "prims b c1 c2" by (rule move_all_prims[OF c2(1)])
  with assms(2) have "prims b c c2" by (rule rtranclp_trans)
  then show ?thesis using c2(2) assms(3,5) by (rule ran_prims_loop)
qed

lemma cancelEbg_at:
  assumes "wf_tokens c" "token_at c (tk_id t) = Some u" "wf_ctx c"
  shows "token_at (cancelEbgSiblings t c) (tk_id t) = Some u"
proof -
  have "tk_id u = tk_id t" using assms by (simp add: wf_tokens_def)
  then show ?thesis using cancel_where_at[OF assms(1,2)] assms(2) by (simp add: cancelEbgSiblings_def)
qed

lemma handleFireTimer_ran:
  assumes "handleFireTimer d k c = Some (Inr c')" "steady b c" "b \<longrightarrow> plain d"
  shows "ran b c c' \<and> cx_pendingQueue c' = []"
  using assms(1)[unfolded handleFireTimer_def]
proof (rule rbind_okE, goal_cases)
  case (1 t)
  then have t: "token_at c k = Some t" "tk_status t = Waiting"
    by (auto simp: requireToken_at split: if_splits)
  have w: "wf_ctx c" using assms(2) by (simp add: steady_def)
  with t have kt: "tk_id t = k" by (simp add: wf_ctx_def wf_tokens_def)
  have g: "good b c" using assms(2) t by (rule steady_waiting_good)
  have cur: "cur b c t" using g t kt by (auto intro: waiting_cur)
  show ?case
  proof (cases "tk_elementType t = BoundaryEventT")
    case True
    let ?c = "set_token_status Completed t c"
    have p1: "prims b c ?c" using cur by (simp add: set_token_status_prims)
    have g1: "good b ?c" using p1 g by (rule prims_good)
    from 1(2) t True have "rbind (getElement d (tk_elementId t)) (\<lambda>element.
           let c1 = ?c; c2 = (case element of
                   BoundaryEvent _ host cancelActivity _ \<Rightarrow>
                     if cancelActivity then cancelHostTaskAndBoundaries host k c1 else c1
                 | _ \<Rightarrow> c1)
           in rbind (rfold (moveTokenToFlow d t) (el_outgoingFlows element) c2) (runLoop d)) = Some (Inr c')"
      by simp
    then obtain e where r: "rbind (rfold (moveTokenToFlow d t) (el_outgoingFlows e)
        (case e of BoundaryEvent _ host cancelActivity _ \<Rightarrow>
             if cancelActivity then cancelHostTaskAndBoundaries host k ?c else ?c
           | _ \<Rightarrow> ?c)) (runLoop d) = Some (Inr c')"
      unfolding Let_def by (rule rbind_okE)
    obtain c2 where c2: "c2 = ?c \<or> (\<exists>host. c2 = cancelHostTaskAndBoundaries host k ?c)"
      and r: "rbind (rfold (moveTokenToFlow d t) (el_outgoingFlows e) c2) (runLoop d) = Some (Inr c')"
    proof
      show "rbind (rfold (moveTokenToFlow d t) (el_outgoingFlows e)
        (case e of BoundaryEvent _ host cancelActivity _ \<Rightarrow>
             if cancelActivity then cancelHostTaskAndBoundaries host k ?c else ?c
           | _ \<Rightarrow> ?c)) (runLoop d) = Some (Inr c')" by (rule r)
    qed (cases e; auto)
    have "prims b ?c c2" using c2 cancelHost_prims[OF g1] by auto
    with p1 have "prims b c c2" by (rule rtranclp_trans)
    then show ?thesis using g cur_knows[OF cur] assms(3) by (rule move_loop_ran[OF r])
  next
    case False
    let ?c = "cancelEbgSiblings t c"
    have p1: "prims b c ?c" using g by (rule cancelEbg_prims)
    have s1: "steady b ?c" using good_steady[OF prims_good[OF p1 g]] .
    have "token_at ?c k = Some t"
      using cancelEbg_at[of c t t] w t kt by (simp add: wf_ctx_def)
    then have "not_boundary ?c k" using False by (simp add: not_boundary_def)
    moreover have "handleCompleteTask d k None ?c = Some (Inr c')" using 1(2) t False by simp
    ultimately have "ran b ?c c' \<and> cx_pendingQueue c' = []"
      using s1 assms(3) by (intro handleCompleteTask_ran) auto
    with ran_prims[OF p1 assms(2)] show ?thesis by (blast intro: ran_trans)
  qed
qed

lemma deliver_to_prims:
  assumes "deliver_to d vars t c = Some (Inr c')" "good b c" "knows c t"
  shows "prims b c c'"
  using assms(1)[unfolded deliver_to_def]
proof (rule rbind_okE, goal_cases)
  case (1 u)
  then have u: "token_at c (tk_id t) = Some u" by (simp add: requireToken_at)
  with assms(3) have sv: "same_visit t u" by (auto simp: knows_def)
  show ?case
  proof (cases "tk_status u = Waiting")
    case False
    with 1(2) show ?thesis by simp
  next
    case True
    with 1(2) obtain c1 where c1: "merge_output (tk_scopeId t) vars c = Some (Inr c1)"
      and r: "advanceTokenFlows d t (cancelEbgSiblings t (set_token_status Completed t c1)) = Some (Inr c')"
      by (auto simp: rbind_ok)
    let ?c = "set_token_status Completed t c1"
    note m = merge_output_effect[OF c1, of b]
    have g1: "good b c1" using m assms(2) prims_good by blast
    have "cur b c1 t" using g1 u sv True m by (intro waiting_cur[of _ _ _ u]) auto
    then have p2: "prims b c1 ?c" by (simp add: set_token_status_prims)
    have g2: "good b ?c" using p2 g1 by (rule prims_good)
    have p3: "prims b ?c (cancelEbgSiblings t ?c)" using g2 by (rule cancelEbg_prims)
    have p: "prims b c (cancelEbgSiblings t ?c)" using m p2 p3 by (meson rtranclp_trans)
    have "prims b (cancelEbgSiblings t ?c) c'"
      using prims_good[OF p assms(2)] prims_knows[OF p assms(2,3)] by (intro advanceTokenFlows_prims[OF r])
    with p show ?thesis by (rule rtranclp_trans)
  qed
qed

lemma deliver_all_prims:
  assumes "rfold (deliver_to d vars) ts c = Some (Inr c')" "good b c" "\<forall>t \<in> set ts. knows c t"
  shows "prims b c c'"
  using assms(1)
proof (rule rfold_invariant)
  fix t e e' assume "t \<in> set ts" "prims b c e" "deliver_to d vars t e = Some (Inr e')"
  with assms(2,3) show "prims b c e'" by (meson deliver_to_prims prims_good prims_knows rtranclp_trans)
qed simp

text \<open>The two deliveries: with a target there is a waiting token, so the instance still runs.\<close>

lemma delivery_ran:
  assumes "rbind (rfold (deliver_to d vars) (filter P (getAllTokens c)) c) (runLoop d) = Some (Inr c')"
    "steady b c" "b \<longrightarrow> plain d" "cx_pendingQueue c = []" "\<And>t. P t \<Longrightarrow> tk_status t = Waiting"
  shows "ran b c c' \<and> cx_pendingQueue c' = []"
proof (cases "filter P (getAllTokens c) = []")
  case True
  with assms(1) have "runLoop d c = Some (Inr c')" by simp
  then show ?thesis using assms(2,3) by (rule ran_loop)
next
  case False
  then obtain t where t: "t \<in> set (getAllTokens c)" "P t" by (auto simp: filter_empty_conv)
  have w: "wf_ctx c" using assms(2) by (simp add: steady_def)
  then have "token_at c (tk_id t) = Some t" using t getAllTokens_at by (auto simp: wf_ctx_def)
  then have g: "good b c" using assms(2,5) t(2) by (blast intro: steady_waiting_good)
  from assms(1) obtain c1 where c1: "rfold (deliver_to d vars) (filter P (getAllTokens c)) c = Some (Inr c1)"
    "runLoop d c1 = Some (Inr c')" by (auto simp: rbind_ok)
  have "\<forall>t \<in> set (filter P (getAllTokens c)). knows c t"
    using w getAllTokens_at by (auto simp: wf_ctx_def intro: stored_knows)
  then have "prims b c c1" by (rule deliver_all_prims[OF c1(1) g])
  then show ?thesis using c1(2) g assms(3) by (rule ran_prims_loop)
qed

lemma instance_command_ran:
  assumes "cx_instance c = Some i" "pi_id j = pi_id i" "pi_rootScopeId j = pi_rootScopeId i" "pi_version j = pi_version i"
    "pi_status j \<noteq> CompletedI" "steady b c" "cx_pendingQueue c = []"
  shows "ran b c (emit ev (setInstance j c)) \<and> cx_pendingQueue (emit ev (setInstance j c)) = []"
  using assms by (auto intro!: ran_msteps emit_mstep set_status_mstep)

lemma handleCancelInstance_ran:
  assumes "handleCancelInstance c = Some (Inr c')" "steady b c" "cx_pendingQueue c = []"
  shows "ran b c c' \<and> cx_pendingQueue c' = []"
proof -
  let ?d = "cancel_where is_live c"
  have w: "wf_ctx c" using assms(2) by (simp add: steady_def)
  then obtain i where i: "cx_instance c = Some i" by (auto simp: wf_ctx_def)
  have pend: "pending_ids c = {}" using assms(3) by (simp add: pending_ids_def)
  have wt: "wf_tokens (snd (now c))" using prims_wf[OF tick_prims w] by (simp add: wf_ctx_def)
  have "prims b (snd (now c)) ?d"
    unfolding cancel_where_def Let_def split_beta
    by (rule cancel_fold_prims(1)[OF wt]) (simp add: pend)
  then have p: "prims b c ?d" by (rule prims_from_tick)
  have s: "steady b ?d" using ran_prims[OF p assms(2)] by (simp add: ran_def)
  have "pending_ids ?d = {}" using assms(3) by (simp add: pending_ids_def[of c])
  then have q: "cx_pendingQueue ?d = []" by (simp add: pending_ids_def)
  have c': "c' = emit (ProcessInstanceTerminated (pi_id i) ''cancelled by admin'')
      (setInstance (i\<lparr>pi_status := TerminatedI\<rparr>) ?d)"
    using assms(1) i by (simp add: handleCancelInstance_def Let_def requireInstance_def)
  have "ran b ?d c' \<and> cx_pendingQueue c' = []"
    unfolding c' using i s q by (intro instance_command_ran[of _ i]) auto
  with ran_prims[OF p assms(2)] show ?thesis by (blast intro: ran_trans)
qed

fun strict_command :: "engine_command \<Rightarrow> ctx \<Rightarrow> bool" where
  "strict_command (CompleteServiceTask k vars) c = not_boundary c k"
| "strict_command (CompleteUserTask k by_whom vars) c = not_boundary c k"
| "strict_command _ c = True"

fun is_start :: "engine_command \<Rightarrow> bool" where
  "is_start (StartProcess _ _ _) = True"
| "is_start _ = False"

lemma handle_command_ran:
  assumes "handle_command d cmd c = Some (Inr c')" "\<not> is_start cmd" "steady b c" "cx_pendingQueue c = []"
    "b \<longrightarrow> plain d \<and> strict_command cmd c"
  shows "ran b c c' \<and> cx_pendingQueue c' = []"
proof (cases cmd)
  case SuspendInstance
  with assms show ?thesis
    by (auto simp: handleSuspendInstance_def rbind_ok requireInstance_ok split: if_splits
        intro!: ran_msteps emit_mstep set_status_mstep)
next
  case ResumeInstance
  with assms show ?thesis
    by (auto simp: handleResumeInstance_def rbind_ok requireInstance_ok split: if_splits
        intro!: ran_msteps emit_mstep set_status_mstep)
next
  case (DeliverMessage name vars)
  with assms(1) have r: "handleDeliverMessage d name vars c = Some (Inr c')" by simp
  show ?thesis
    by (rule delivery_ran[OF r[unfolded handleDeliverMessage_def Let_def] assms(3)]) (use assms in auto)
next
  case (BroadcastSignal name vars)
  with assms(1) have r: "handleBroadcastSignal d name vars c = Some (Inr c')" by simp
  show ?thesis
    by (rule delivery_ran[OF r[unfolded handleBroadcastSignal_def Let_def] assms(3)]) (use assms in auto)
next
  case (StartProcess vars ck bk)
  with assms show ?thesis by simp
qed (use assms handleCompleteTask_ran handleFailServiceTask_ran handleFireTimer_ran handleCancelInstance_ran
    in auto)

section \<open>Starting a process\<close>

lemma start_context_wf:
  assumes "inj (op_generateId opts)" "vs_parentScopeId s = None" "vs_id s = op_generateId opts 1"
    "pi_rootScopeId i = vs_id s"
  shows "wf_ctx \<lparr>cx_instance = Some i, cx_tokenMap = [], cx_scopeMap = [(vs_id s, s)], cx_joinStateMap = [],
      cx_compensationList = [], cx_events = evs, cx_pendingQueue = [],
      cx_options = opts, cx_idCalls = 2, cx_nowCalls = n\<rparr>"
  using assms
  by (auto simp: wf_ctx_def wf_tokens_def wf_queue_def wf_scopes_def fresh_ids_def scope_tree_def
      token_at_def token_ids_def scope_ids_def inj_eq)

text \<open>The context before the first token: the instance and its root scope.\<close>

definition newborn :: "ctx \<Rightarrow> bool" where
  "newborn c \<longleftrightarrow> cx_tokenMap c = [] \<and> cx_joinStateMap c = [] \<and> cx_compensationList c = [] \<and>
     (\<exists>i s. cx_instance c = Some i \<and> cx_scopeMap c = [(pi_rootScopeId i, s)] \<and> vs_parentScopeId s = None \<and>
        pi_version i = None)"

lemma handleStartProcess_ran:
  assumes "handleStartProcess d vars ck bk (new_context None opts) = Some (Inr c')"
    "inj (op_generateId opts)" "b \<longrightarrow> plain d"
  obtains c0 where "steady b c0" "unqueued c0 = {}" "newborn c0"
    "ran b c0 c'" "cx_pendingQueue c' = []"
proof -
  let ?i = "op_generateId opts 0" and ?s = "op_generateId opts 1"
  define sc where "sc = \<lparr>vs_id = ?s, vs_parentScopeId = None,
      vs_variables = (case vars of Some v \<Rightarrow> v | None \<Rightarrow> [])\<rparr>"
  define inst where "inst = \<lparr>pi_id = ?i, pi_definitionId = pd_id d, pi_definitionVersion = pd_version d,
                 pi_status = ActiveI, pi_rootScopeId = ?s, pi_correlationKey = ck,
                 pi_businessKey = bk, pi_parentInstanceId = None, pi_parentTokenId = None,
                 pi_startedAt = op_now opts 0, pi_completedAt = None, pi_errorInfo = None, pi_version = None\<rparr>"
  define c6 where "c6 = \<lparr>cx_instance = Some inst, cx_tokenMap = [], cx_scopeMap = [(vs_id sc, sc)],
      cx_joinStateMap = [], cx_compensationList = [],
      cx_events = [ProcessInstanceStarted ?i (pd_id d) (pd_version d)], cx_pendingQueue = [],
      cx_options = opts, cx_idCalls = 2, cx_nowCalls = 1\<rparr>"
  have g: "good b c6"
    using start_context_wf[of opts sc inst "[ProcessInstanceStarted ?i (pd_id d) (pd_version d)]" 1] assms(2)
    by (simp add: c6_def sc_def inst_def good_def running_def in_sync_def)
  from assms(1) obtain e where e: "(let (startToken, c7) =
        createToken ?i (el_id e) (el_type e) ?s None c6
      in runLoop d (enqueuePending startToken c7)) = Some (Inr c')"
    by (auto simp: handleStartProcess_def Let_def now_def newId_def saveScope_def setInstance_def emit_def
        c6_def sc_def inst_def numeral_2_eq_2 elim!: rbind_okE)
  obtain base c7 where c7: "createToken ?i (el_id e) (el_type e) ?s None c6 = (base, c7)" by fastforce
  note base = createToken_result[OF c7]
  have "prims b c6 (enqueuePending base (updateToken base c7))"
    using base g
    by (intro spawn_prims[OF c7]) (auto simp: c6_def inst_def sc_def good_def running_def scope_ids_def)
  moreover have "updateToken base c7 = c7" using base(9) by simp
  ultimately have p: "prims b c6 (enqueuePending base c7)" by simp
  have "runLoop d (enqueuePending base c7) = Some (Inr c')" using e c7 by (simp add: Let_def)
  then have "ran b c6 c' \<and> cx_pendingQueue c' = []" using ran_prims_loop[OF p] g assms(3) by blast
  moreover have "unqueued c6 = {}" by (simp add: unqueued_def token_at_def c6_def)
  moreover have "newborn c6" by (simp add: newborn_def c6_def inst_def sc_def)
  ultimately show ?thesis using that good_steady[OF g] by blast
qed

section \<open>States\<close>

definition wf_state :: "engine_state \<Rightarrow> bool" where
  "wf_state s \<longleftrightarrow>
     distinct (map tk_id (st_tokens s)) \<and> distinct (map vs_id (st_scopes s)) \<and>
     list_all (\<lambda>t. tk_instanceId t = pi_id (st_instance s) \<and> tk_scopeId t \<in> vs_id ` set (st_scopes s)
       \<and> pred_option (\<lambda>p. p \<in> tk_id ` set (st_tokens s) \<and> p \<noteq> tk_id t) (tk_parentTokenId t)) (st_tokens s) \<and>
     scope_tree (map (\<lambda>x. (vs_id x, x)) (st_scopes s))"

text \<open>The id generator never repeats itself and never gives an id the state already uses.\<close>

definition fresh_supply :: "execute_options \<Rightarrow> engine_state \<Rightarrow> bool" where
  "fresh_supply opts s \<longleftrightarrow> inj (op_generateId opts) \<and>
     range (op_generateId opts) \<inter> (tk_id ` set (st_tokens s) \<union> vs_id ` set (st_scopes s)) = {}"

definition rested :: "engine_state \<Rightarrow> bool" where
  "rested s \<longleftrightarrow> list_all (\<lambda>t. tk_status t \<noteq> Active) (st_tokens s)"

lemma new_context_views:
  assumes "wf_state s"
  shows "cx_tokenMap (new_context (Some s) opts) = map (\<lambda>x. (tk_id x, x)) (st_tokens s)"
    "cx_scopeMap (new_context (Some s) opts) = map (\<lambda>x. (vs_id x, x)) (st_scopes s)"
  using assms by (simp_all add: wf_state_def map_from_distinct)

lemma map_of_keyed:
  assumes "distinct (map f xs)"
  shows "map_of (map (\<lambda>x. (f x, x)) xs) k = Some t \<longleftrightarrow> t \<in> set xs \<and> f t = k"
  using assms by (auto simp: map_of_eq_Some_iff o_def)

lemma new_context_token_at:
  assumes "wf_state s"
  shows "token_at (new_context (Some s) opts) k = Some t \<longleftrightarrow> t \<in> set (st_tokens s) \<and> tk_id t = k"
  using assms map_of_keyed[of tk_id "st_tokens s"]
  by (simp add: token_at_def new_context_views[OF assms] wf_state_def del: new_context.simps)

lemma new_context_wf:
  assumes "wf_state s" "fresh_supply opts s"
  shows "wf_ctx (new_context (Some s) opts)"
proof -
  let ?c = "new_context (Some s) opts"
  note v = new_context_views[OF assms(1), of opts]
  have ids: "token_ids ?c = tk_id ` set (st_tokens s)" "scope_ids ?c = vs_id ` set (st_scopes s)"
    by (auto simp: token_ids_def scope_ids_def v image_image simp del: new_context.simps)
  have "wf_tokens ?c"
    using assms(1) new_context_token_at[OF assms(1), of opts] ids
    by (auto simp: wf_tokens_def v wf_state_def list_all_iff o_def simp del: new_context.simps)
      (auto simp: list_all_iff)
  moreover have "wf_scopes ?c"
    using assms(1) map_of_keyed[of vs_id "st_scopes s"]
    by (auto simp: wf_scopes_def v wf_state_def o_def simp del: new_context.simps)
  moreover have "fresh_ids ?c"
  proof -
    have o: "cx_options ?c = opts" by simp
    show ?thesis unfolding fresh_ids_def ids o using assms(2) by (auto simp: fresh_supply_def)
  qed
  ultimately show ?thesis by (simp add: wf_ctx_def wf_queue_def)
qed

lemma toResult_ok:
  "toResult c = Some (Inr (s, evs)) \<longleftrightarrow>
     (\<exists>i. cx_instance c = Some i \<and> s = \<lparr>st_instance = i, st_tokens = map_values (cx_tokenMap c),
        st_scopes = map_values (cx_scopeMap c), st_gatewayJoinStates = map_values (cx_joinStateMap c),
        st_compensationRecords = cx_compensationList c\<rparr> \<and> evs = cx_events c)"
  by (auto simp: toResult_def rbind_ok requireInstance_ok)

lemma result_tokens:
  assumes "wf_ctx c" "toResult c = Some (Inr (s, evs))"
  shows "t \<in> set (st_tokens s) \<longleftrightarrow> token_at c (tk_id t) = Some t"
  using assms getAllTokens_at[of c t] by (auto simp: toResult_ok getAllTokens_def wf_ctx_def)

lemma keyed_map:
  assumes "\<And>k x. (k, x) \<in> set m \<Longrightarrow> f x = k"
  shows "map f (map_values m) = map fst m" "map (\<lambda>x. (f x, x)) (map_values m) = m"
  using assms by (auto simp: map_values_def intro: map_idI)

lemma wf_result:
  assumes "wf_ctx c" "toResult c = Some (Inr (s, evs))"
  shows "wf_state s"
proof -
  from assms obtain i where i: "cx_instance c = Some i" "st_instance s = i"
    and ts: "st_tokens s = map_values (cx_tokenMap c)" and sc: "st_scopes s = map_values (cx_scopeMap c)"
    by (auto simp: toResult_ok)
  have wt: "wf_tokens c" "wf_scopes c" using assms(1) by (simp_all add: wf_ctx_def)
  have k: "\<And>k x. (k, x) \<in> set (cx_tokenMap c) \<Longrightarrow> tk_id x = k"
    "\<And>k x. (k, x) \<in> set (cx_scopeMap c) \<Longrightarrow> vs_id x = k"
    using wt by (auto simp: wf_tokens_def wf_scopes_def token_at_def)
  have kt: "map tk_id (map_values (cx_tokenMap c)) = map fst (cx_tokenMap c)"
    and ks: "map vs_id (map_values (cx_scopeMap c)) = map fst (cx_scopeMap c)"
      "map (\<lambda>x. (vs_id x, x)) (map_values (cx_scopeMap c)) = cx_scopeMap c"
    using keyed_map[of "cx_tokenMap c" tk_id] keyed_map[of "cx_scopeMap c" vs_id] k by blast+
  have ids: "tk_id ` set (st_tokens s) = token_ids c" "vs_id ` set (st_scopes s) = scope_ids c"
    using arg_cong[OF kt, of set] arg_cong[OF ks(1), of set]
    by (simp_all add: ts sc token_ids_def scope_ids_def)
  have "tk_instanceId t = pi_id i \<and> tk_scopeId t \<in> scope_ids c \<and>
      pred_option (\<lambda>p. p \<in> token_ids c \<and> p \<noteq> tk_id t) (tk_parentTokenId t)"
    if "t \<in> set (st_tokens s)" for t
  proof -
    have "token_at c (tk_id t) = Some t" using that result_tokens[OF assms] by blast
    then have "(\<exists>i. cx_instance c = Some i \<and> tk_instanceId t = pi_id i) \<and> tk_scopeId t \<in> scope_ids c \<and>
        (\<forall>p. tk_parentTokenId t = Some p \<longrightarrow> p \<in> token_ids c \<and> p \<noteq> tk_id t)"
      using wt(1) unfolding wf_tokens_def by blast
    then show ?thesis using i(1) by (cases "tk_parentTokenId t") auto
  qed
  then have "list_all (\<lambda>t. tk_instanceId t = pi_id i \<and> tk_scopeId t \<in> scope_ids c \<and>
      pred_option (\<lambda>p. p \<in> token_ids c \<and> p \<noteq> tk_id t) (tk_parentTokenId t)) (st_tokens s)"
    unfolding list_all_iff by blast
  moreover have "distinct (map tk_id (st_tokens s))" unfolding ts kt using wt(1) by (simp add: wf_tokens_def)
  moreover have "distinct (map vs_id (st_scopes s))" unfolding sc ks(1) using wt(2) by (simp add: wf_scopes_def)
  moreover have "scope_tree (map (\<lambda>x. (vs_id x, x)) (st_scopes s))"
    unfolding sc ks(2) using wt(2) by (simp add: wf_scopes_def)
  ultimately show ?thesis unfolding wf_state_def ids i(2) by blast
qed

section \<open>A command from state to state\<close>

text \<open>
  The call contract of \<open>execute\<close>: \<open>StartProcess\<close> has no state yet, every other command has a
  well-formed one without active tokens, and the ids generated are new. In strict mode the
  definition is plain and a completing command does not name a boundary token.
\<close>

fun call_ok :: "execute_options \<Rightarrow> engine_command \<Rightarrow> engine_state option \<Rightarrow> bool" where
  "call_ok opts cmd None = (is_start cmd \<and> inj (op_generateId opts))"
| "call_ok opts cmd (Some s) = (\<not> is_start cmd \<and> wf_state s \<and> fresh_supply opts s)"

fun names_boundary :: "engine_command \<Rightarrow> engine_state \<Rightarrow> bool" where
  "names_boundary (CompleteServiceTask k vars) s =
     list_ex (\<lambda>t. tk_id t = k \<and> tk_elementType t = BoundaryEventT) (st_tokens s)"
| "names_boundary (CompleteUserTask k by_whom vars) s =
     list_ex (\<lambda>t. tk_id t = k \<and> tk_elementType t = BoundaryEventT) (st_tokens s)"
| "names_boundary _ s = False"

text \<open>An instance that has completed although tokens of it are still live.\<close>

definition abandoned :: "engine_state \<Rightarrow> bool" where
  "abandoned s \<longleftrightarrow> pi_status (st_instance s) = CompletedI \<and> list_ex is_live (st_tokens s)"

lemma execute_ran:
  assumes "execute d cmd (Some s) opts = Some (Inr (s', evs))" "call_ok opts cmd (Some s)"
    "b \<longrightarrow> plain d \<and> \<not> names_boundary cmd s \<and> \<not> abandoned s"
  obtains c' where "ran b (new_context (Some s) opts) c'" "cx_pendingQueue c' = []"
    "toResult c' = Some (Inr (s', evs))" "wf_ctx (new_context (Some s) opts)" "wf_ctx c'"
proof -
  let ?c = "new_context (Some s) opts"
  from assms(1) obtain c' where c': "handle_command d cmd ?c = Some (Inr c')" "toResult c' = Some (Inr (s', evs))"
    unfolding execute_def by (rule rbind_okE)
  have w: "wf_ctx ?c" using assms(2) by (intro new_context_wf) auto
  have s: "wf_state s" "\<not> is_start cmd" using assms(2) by auto
  note at = new_context_token_at[OF s(1), of opts]
  have st: "steady b ?c"
  proof (cases b)
    case True
    have "running ?c \<or> no_live ?c"
      using assms(3) True at by (auto simp: running_def no_live_def abandoned_def list_ex_iff
        simp del: new_context.simps) (simp add: running_def)
    then show ?thesis using w by (simp add: steady_def in_sync_def)
  next
    case False
    with w show ?thesis by (simp add: steady_def)
  qed
  have "strict_command cmd ?c" if b
    using assms(3) that at by (cases cmd) (auto simp: not_boundary_def list_ex_iff simp del: new_context.simps)
  then have r: "ran b ?c c'" "cx_pendingQueue c' = []"
    using handle_command_ran[OF c'(1) s(2) st] assms(3) by auto
  then have "wf_ctx c'" by (simp add: ran_def steady_def)
  with r c'(2) w show ?thesis by (rule that)
qed

end
