(* ===== verification/Engine_Correctness.thy ===== *)
theory Engine_Correctness
  imports Engine_Invariants "HOL-Library.Multiset"
begin

text \<open>
  What a caller of \<open>execute\<close> can rely on. The locale \<open>machine_relation\<close> is the interface between the
  engine and the facts about whole commands: a reflexive and transitive relation that every machine
  step obeys holds between the state a command was given and the one it returns. Its
  interpretations are the visits of tokens, the instance's identity, the event log and the frozen
  tokens.
\<close>

section \<open>Relations every command obeys\<close>

locale machine_relation =
  fixes b :: bool and R :: "ctx \<Rightarrow> ctx \<Rightarrow> bool"
  assumes refl: "R c c"
    and trans: "R c d \<Longrightarrow> R d e \<Longrightarrow> R c e"
    and machine: "mstep b c c' \<Longrightarrow> wf_ctx c \<Longrightarrow> R c c'"
    and dequeue: "R c (c\<lparr>cx_pendingQueue := ts\<rparr>)"
begin

lemma along:
  assumes "engine_steps b c c'" "wf_ctx c"
  shows "R c c' \<and> wf_ctx c'"
  using assms
proof (induction rule: rtranclp_induct)
  case base
  then show ?case by (simp add: refl)
next
  case (step d e)
  then have d: "R c d" "wf_ctx d" by auto
  from step.hyps(2) have "R d e \<and> wf_ctx e"
  proof cases
    case engine_mstep
    then show ?thesis using machine mstep_wf d(2) by blast
  next
    case (engine_dequeue t ts)
    have "wf_ctx e" using d(2) dequeue_steady[of False d t ts] engine_dequeue by (auto simp: steady_def)
    with engine_dequeue show ?thesis by (simp add: dequeue)
  qed
  with d(1) show ?case using trans by blast
qed

lemma command:
  assumes "execute d cmd (Some s) opts = Some (Inr (s', evs))" "call_ok opts cmd (Some s)"
    "b \<longrightarrow> plain d \<and> \<not> names_boundary cmd s \<and> \<not> abandoned s"
  obtains c' where "R (new_context (Some s) opts) c'" "toResult c' = Some (Inr (s', evs))"
    "wf_ctx (new_context (Some s) opts)" "wf_ctx c'"
  using execute_ran[OF assms] along unfolding ran_def by metis

end

lemma plain_updates_keep:
  "keeps_visits c (c\<lparr>cx_pendingQueue := ts\<rparr>)" "keeps_visits c (setInstance j c)"
  "extends_log c (c\<lparr>cx_pendingQueue := ts\<rparr>)" "extends_log c (setInstance j c)"
  "frozen_from c (c\<lparr>cx_pendingQueue := ts\<rparr>)" "frozen_from c (setInstance j c)"
  by (simp_all add: keeps_visits_def extends_log_def frozen_from_def setInstance_def token_at_def)

interpretation visits: machine_relation b keeps_visits for b
proof
  fix c d e c' and ts :: "token list"
  show "mstep b c c' \<Longrightarrow> wf_ctx c \<Longrightarrow> keeps_visits c c'"
    by (erule mstep.cases) (auto intro: prim_keeps_visits plain_updates_keep)
qed (auto intro: keeps_visits_refl keeps_visits_trans plain_updates_keep)

interpretation log: machine_relation b extends_log for b
proof
  fix c d e c' and ts :: "token list"
  show "mstep b c c' \<Longrightarrow> wf_ctx c \<Longrightarrow> extends_log c c'"
    by (erule mstep.cases) (auto intro: prim_log plain_updates_keep)
qed (auto intro: extends_log_trans plain_updates_keep)

definition same_instance :: "ctx \<Rightarrow> ctx \<Rightarrow> bool" where
  "same_instance c c' \<longleftrightarrow>
     map_option (\<lambda>i. (pi_id i, pi_rootScopeId i, pi_version i)) (cx_instance c') =
     map_option (\<lambda>i. (pi_id i, pi_rootScopeId i, pi_version i)) (cx_instance c)"

interpretation identity: machine_relation b same_instance for b
proof
  fix c d e c' and ts :: "token list"
  show "mstep b c c' \<Longrightarrow> wf_ctx c \<Longrightarrow> same_instance c c'"
    by (induction rule: mstep.induct) (auto simp: same_instance_def prim_instance)
qed (auto simp: same_instance_def)

interpretation frozen: machine_relation True frozen_from
proof
  fix c d e c' and ts :: "token list"
  show "mstep True c c' \<Longrightarrow> wf_ctx c \<Longrightarrow> frozen_from c c'"
    by (erule mstep.cases) (auto simp: wf_ctx_def intro: prim_frozen plain_updates_keep)
qed (auto intro: frozen_refl frozen_trans plain_updates_keep)

section \<open>Sample definitions for the witnesses\<close>

definition no_event :: event_definition where
  "no_event = \<lparr>ed_type = NoneEvent, ed_timerExpression = None, ed_messageName = None, ed_signalName = None,
    ed_errorCode = None, ed_linkName = None, ed_compensationActivityRef = None\<rparr>"

definition node :: "string \<Rightarrow> string list \<Rightarrow> string list \<Rightarrow> element_base" where
  "node i inc out = \<lparr>eb_id = i, eb_name = None, eb_incomingFlows = inc, eb_outgoingFlows = out\<rparr>"

definition flow_of :: "string \<Rightarrow> string \<Rightarrow> string \<Rightarrow> sequence_flow" where
  "flow_of i s t = \<lparr>sf_id = i, sf_sourceRef = s, sf_targetRef = t, sf_conditionExpression = None, sf_isDefault = None\<rparr>"

definition user_task :: "string \<Rightarrow> string list \<Rightarrow> string list \<Rightarrow> flow_element" where
  "user_task i inc out = UserTask (node i inc out)
     \<lparr>ut_assignee = None, ut_candidateGroups = None, ut_dueDate = None, ut_priority = None, ut_formKey = None\<rparr>
     \<lparr>tc_loopCharacteristics = None, tc_isForCompensation = None\<rparr>"

definition process_of :: "flow_element list \<Rightarrow> sequence_flow list \<Rightarrow> process_definition" where
  "process_of els fls = \<lparr>pd_id = ''p'', pd_version = 1, pd_name = None, pd_elements = els,
     pd_sequenceFlows = fls, pd_startEventId = ''s'', pd_deployedAt = 0, pd_isDeployable = True\<rparr>"

text \<open>A start event, a user task, an end event.\<close>

definition review :: process_definition where
  "review = process_of
     [StartEvent (node ''s'' [] [''f1'']) no_event None, user_task ''u'' [''f1''] [''f2''],
      EndEvent (node ''e'' [''f2''] []) no_event]
     [flow_of ''f1'' ''s'' ''u'', flow_of ''f2'' ''u'' ''e'']"

text \<open>Ids \<open>x\<close>, \<open>xx\<close>, \<dots> and a clock that ticks at every call.\<close>

definition counting :: execute_options where
  "counting = \<lparr>op_generateId = (\<lambda>n. replicate (Suc n) (CHR ''x'')), op_now = int,
     op_expressionEvaluator = (\<lambda>_ _. Inr JUndefined)\<rparr>"

definition counting_from :: "string \<Rightarrow> execute_options" where
  "counting_from p = \<lparr>op_generateId = (\<lambda>n. p @ replicate (Suc n) (CHR ''x'')), op_now = int,
     op_expressionEvaluator = (\<lambda>_ _. Inr JUndefined)\<rparr>"

lemma inj_counting: "inj (op_generateId counting)" "inj (op_generateId (counting_from p))"
  by (auto simp: counting_def counting_from_def inj_def dest: arg_cong[where f = length])

lemmas sample_eval = no_event_def node_def flow_of_def user_task_def process_of_def review_def
  counting_def counting_from_def

text \<open>The state after starting \<open>review\<close>: the task waits.\<close>

definition token_of :: "string \<Rightarrow> string \<Rightarrow> bpmn_element_type \<Rightarrow> token_status \<Rightarrow> string option \<Rightarrow> token" where
  "token_of i el ty st fl = \<lparr>tk_id = i, tk_instanceId = ''x'', tk_elementId = el, tk_elementType = ty,
     tk_status = st, tk_scopeId = ''xx'', tk_arrivedViaFlowId = fl, tk_parentTokenId = None,
     tk_subProcessInstanceId = None,
     tk_waitingFor = (if st = Waiting then Some \<lparr>wc_type = WaitUserTask, wc_correlationData = None\<rparr> else None),
     tk_loopState = None, tk_createdAt = 0, tk_updatedAt = 0\<rparr>"

definition review_started :: engine_state where
  "review_started = \<lparr>st_instance = \<lparr>pi_id = ''x'', pi_definitionId = ''p'', pi_definitionVersion = 1,
       pi_status = ActiveI, pi_rootScopeId = ''xx'', pi_correlationKey = None, pi_businessKey = None,
       pi_parentInstanceId = None, pi_parentTokenId = None, pi_startedAt = 0, pi_completedAt = None,
       pi_errorInfo = None, pi_version = None\<rparr>,
     st_tokens = [token_of ''xxx'' ''s'' StartEventT Completed None,
                  token_of ''xxxx'' ''u'' UserTaskT Waiting (Some ''f1'')],
     st_scopes = [\<lparr>vs_id = ''xx'', vs_parentScopeId = None, vs_variables = []\<rparr>],
     st_gatewayJoinStates = [], st_compensationRecords = []\<rparr>"

lemma review_started_ok:
  "wf_state review_started" "rested review_started" "plain review" "\<not> abandoned review_started"
  by (auto simp: wf_state_def review_started_def token_of_def scope_tree_def rested_def plain_def
      sample_eval getLoopCharacteristics_def isForCompensation_def abandoned_def is_live_def)

lemma review_started_fresh: "fresh_supply (counting_from ''y'') review_started"
  using inj_counting(2)[of "''y''"]
  by (auto simp: fresh_supply_def) (auto simp: review_started_def token_of_def counting_from_def)

lemma review_completes:
  "case execute review (CompleteUserTask ''xxxx'' ''bob'' None) (Some review_started) (counting_from ''y'') of
     Some (Inr (s, evs)) \<Rightarrow>
       pi_status (st_instance s) = CompletedI \<and>
       map tk_status (st_tokens s) = [Completed, Completed, Completed] \<and>
       length evs = 3
   | _ \<Rightarrow> False"
  by (simp add: engine_eval review_started_def token_of_def sample_eval)

lemma review_completes_ok:
  obtains s evs where
    "execute review (CompleteUserTask ''xxxx'' ''bob'' None) (Some review_started) (counting_from ''y'')
       = Some (Inr (s, evs))"
    "pi_status (st_instance s) = CompletedI" "length (st_tokens s) = 3"
  using review_completes by (auto split: option.splits sum.splits dest: arg_cong[where f = length])

lemma review_call_ok:
  "call_ok (counting_from ''y'') (CompleteUserTask ''xxxx'' ''bob'' None) (Some review_started)"
  "\<not> names_boundary (CompleteUserTask ''xxxx'' ''bob'' None) review_started"
  using review_started_ok review_started_fresh by (simp_all add: review_started_def token_of_def)

section \<open>Well-formed states, rest, and identity\<close>

lemma execute_start:
  assumes "execute d cmd None opts = Some (Inr (s', evs))" "call_ok opts cmd None" "b \<longrightarrow> plain d"
  obtains c0 c' where "newborn c0" "steady b c0" "unqueued c0 = {}" "ran b c0 c'" "cx_pendingQueue c' = []"
    "toResult c' = Some (Inr (s', evs))"
proof -
  from assms(1) obtain c' where c': "handle_command d cmd (new_context None opts) = Some (Inr c')"
    "toResult c' = Some (Inr (s', evs))"
    unfolding execute_def by (rule rbind_okE)
  from assms(2) obtain vars ck bk where cmd: "cmd = StartProcess vars ck bk" "inj (op_generateId opts)"
    by (cases cmd) auto
  with c'(1) have "handleStartProcess d vars ck bk (new_context None opts) = Some (Inr c')" by simp
  from handleStartProcess_ran[OF this cmd(2) assms(3)] c'(2) that show ?thesis by metis
qed

lemma execute_wf:
  assumes "execute d cmd st opts = Some (Inr (s', evs))" "call_ok opts cmd st"
  shows "wf_state s'"
proof (cases st)
  case None
  with assms obtain c0 c' where "ran False c0 c'" "toResult c' = Some (Inr (s', evs))"
    using execute_start[of d cmd opts s' evs False] by metis
  then show ?thesis by (auto simp: ran_def steady_def intro: wf_result)
next
  case (Some s)
  with assms obtain c' where "wf_ctx c'" "toResult c' = Some (Inr (s', evs))"
    using execute_ran[of d cmd s opts s' evs False] by metis
  then show ?thesis by (rule wf_result)
qed

text \<open>
  C1. Every command keeps states well formed: token and scope ids stay unique, every token belongs
  to the instance, has its scope and (if it has one) its parent among the tokens, and the parent
  links of the scopes stay a forest, so that variable lookups end.
\<close>

theorem execute_preserves_wf:
  assumes "execute d cmd st opts = Some (Inr (s', evs))" "call_ok opts cmd st"
  shows "wf_state s'"
  using assms by (rule execute_wf)

theorem execute_preserves_wf_witness:
  "\<exists>s evs. execute review (CompleteUserTask ''xxxx'' ''bob'' None) (Some review_started) (counting_from ''y'')
      = Some (Inr (s, evs)) \<and> wf_state s"
proof -
  obtain s evs where e: "execute review (CompleteUserTask ''xxxx'' ''bob'' None) (Some review_started)
      (counting_from ''y'') = Some (Inr (s, evs))"
    using review_completes_ok by blast
  from execute_preserves_wf[OF e review_call_ok(1)] e show ?thesis by blast
qed

lemma rested_result:
  assumes "unqueued c = {}" "cx_pendingQueue c = []" "wf_ctx c" "toResult c = Some (Inr (s, evs))"
  shows "rested s"
proof -
  have "tk_status t \<noteq> Active" if "t \<in> set (st_tokens s)" for t
    using that result_tokens[OF assms(3,4)] assms(1,2) by (auto simp: unqueued_def pending_ids_def)
  then show ?thesis by (simp add: rested_def list_all_iff)
qed

text \<open>
  C2. Run to completion: a command that returns leaves no token active. Every token it created or
  moved on has come to rest, waiting, completed or cancelled, whatever the elements it passed.
\<close>

theorem execute_leaves_none_active:
  assumes "execute d cmd st opts = Some (Inr (s', evs))" "call_ok opts cmd st" "pred_option rested st"
  shows "rested s'"
proof (cases st)
  case None
  with assms obtain c0 c' where "unqueued c0 = {}" "ran False c0 c'" "cx_pendingQueue c' = []"
    "toResult c' = Some (Inr (s', evs))"
    using execute_start[of d cmd opts s' evs False] by metis
  then show ?thesis by (auto simp: ran_def steady_def intro: rested_result)
next
  case (Some s)
  with assms obtain c' where c': "ran False (new_context (Some s) opts) c'" "cx_pendingQueue c' = []"
    "toResult c' = Some (Inr (s', evs))" "wf_ctx c'"
    using execute_ran[of d cmd s opts s' evs False] by metis
  have "unqueued (new_context (Some s) opts) = {}"
    using assms(2,3) Some new_context_token_at[of s opts]
    by (auto simp: unqueued_def rested_def list_all_iff simp del: new_context.simps)
  with c' show ?thesis by (auto simp: ran_def intro: rested_result)
qed

theorem execute_leaves_none_active_witness:
  "\<exists>s evs. execute review (CompleteUserTask ''xxxx'' ''bob'' None) (Some review_started) (counting_from ''y'')
      = Some (Inr (s, evs)) \<and> rested s"
proof -
  obtain s evs where e: "execute review (CompleteUserTask ''xxxx'' ''bob'' None) (Some review_started)
      (counting_from ''y'') = Some (Inr (s, evs))"
    using review_completes_ok by blast
  from execute_leaves_none_active[OF e review_call_ok(1)] e review_started_ok(2) show ?thesis by auto
qed

lemma execute_identity:
  assumes "execute d cmd (Some s) opts = Some (Inr (s', evs))" "call_ok opts cmd (Some s)"
  shows "pi_id (st_instance s') = pi_id (st_instance s)"
    "pi_rootScopeId (st_instance s') = pi_rootScopeId (st_instance s)"
    "pi_version (st_instance s') = pi_version (st_instance s)"
proof -
  obtain c' where "same_instance (new_context (Some s) opts) c'" "toResult c' = Some (Inr (s', evs))"
    using identity.command[OF assms, of False] by auto
  then show "pi_id (st_instance s') = pi_id (st_instance s)"
    "pi_rootScopeId (st_instance s') = pi_rootScopeId (st_instance s)"
    "pi_version (st_instance s') = pi_version (st_instance s)"
    by (auto simp: same_instance_def toResult_ok)
qed

text \<open>
  C4. A token never moves and never vanishes: after any command it is still there under its id,
  with the same instance, element, scope, incoming flow, parent, sub-process and creation time; only
  its status, wait condition, loop state and update time may differ. The engine moves a process on
  by ending tokens and creating new ones. The instance keeps its id, its root
  scope and its version.
\<close>

theorem tokens_keep_their_visit:
  assumes "execute d cmd (Some s) opts = Some (Inr (s', evs))" "call_ok opts cmd (Some s)"
    and "t \<in> set (st_tokens s)"
  shows "(\<exists>u. u \<in> set (st_tokens s') \<and> tk_id u = tk_id t \<and> same_visit t u) \<and>
    pi_id (st_instance s') = pi_id (st_instance s) \<and>
    pi_rootScopeId (st_instance s') = pi_rootScopeId (st_instance s) \<and>
    pi_version (st_instance s') = pi_version (st_instance s)"
proof (intro conjI execute_identity[OF assms(1,2)])
  let ?c = "new_context (Some s) opts"
  obtain c' where c': "keeps_visits ?c c'" "toResult c' = Some (Inr (s', evs))" "wf_ctx c'"
    using visits.command[OF assms(1,2), of False] by auto
  have "token_at ?c (tk_id t) = Some t"
    using assms(2,3) new_context_token_at[of s opts] by (simp del: new_context.simps)
  with c'(1) obtain u where u: "token_at c' (tk_id t) = Some u" "same_visit t u"
    by (auto simp: keeps_visits_def)
  then have "u \<in> set (st_tokens s')" using result_tokens[OF c'(3,2)] by (simp add: same_visit_fields)
  with u show "\<exists>u. u \<in> set (st_tokens s') \<and> tk_id u = tk_id t \<and> same_visit t u"
    by (auto simp: same_visit_fields)
qed

theorem tokens_keep_their_visit_witness:
  "\<exists>s evs u. execute review (CompleteUserTask ''xxxx'' ''bob'' None) (Some review_started) (counting_from ''y'')
      = Some (Inr (s, evs)) \<and> u \<in> set (st_tokens s) \<and> tk_id u = ''xxxx'' \<and> tk_elementId u = ''u''"
proof -
  obtain s evs where e: "execute review (CompleteUserTask ''xxxx'' ''bob'' None) (Some review_started)
      (counting_from ''y'') = Some (Inr (s, evs))"
    using review_completes_ok by blast
  let ?t = "token_of ''xxxx'' ''u'' UserTaskT Waiting (Some ''f1'')"
  have "?t \<in> set (st_tokens review_started)" by (simp add: review_started_def)
  from tokens_keep_their_visit[OF e review_call_ok(1) this] e show ?thesis
    by (auto dest!: same_visit_fields(3) simp: token_of_def)
qed

section \<open>The strict mode\<close>

lemma execute_frozen:
  assumes "execute d cmd (Some s) opts = Some (Inr (s', evs))" "call_ok opts cmd (Some s)"
    and "plain d" "\<not> names_boundary cmd s" "\<not> abandoned s"
    and "t \<in> set (st_tokens s)" "\<not> is_live t"
  shows "t \<in> set (st_tokens s')"
proof -
  let ?c = "new_context (Some s) opts"
  obtain c' where c': "frozen_from ?c c'" "toResult c' = Some (Inr (s', evs))" "wf_ctx c'"
    using frozen.command[OF assms(1,2)] assms(3-5) by auto
  have "token_at ?c (tk_id t) = Some t"
    using assms(2,6) new_context_token_at[of s opts] by (simp del: new_context.simps)
  with c'(1) assms(7) have "token_at c' (tk_id t) = Some t" by (simp add: frozen_from_def)
  then show ?thesis using result_tokens[OF c'(3,2)] by simp
qed

text \<open>
  Lifecycle: in a plain definition (no multi-instance tasks, no compensation handlers, no
  terminate or cancel end events) a token that has ended is never touched again; a completed or
  cancelled token is the same record, to the last field, after every later command.
\<close>

theorem ended_tokens_are_frozen:
  assumes "execute d cmd (Some s) opts = Some (Inr (s', evs))" "call_ok opts cmd (Some s)"
    and "plain d" "\<not> names_boundary cmd s" "\<not> abandoned s"
    and "t \<in> set (st_tokens s)" "\<not> is_live t"
  shows "t \<in> set (st_tokens s')"
  using assms by (rule execute_frozen)

theorem ended_tokens_are_frozen_witness:
  "\<exists>s evs. execute review (CompleteUserTask ''xxxx'' ''bob'' None) (Some review_started) (counting_from ''y'')
      = Some (Inr (s, evs)) \<and> token_of ''xxx'' ''s'' StartEventT Completed None \<in> set (st_tokens s)"
proof -
  obtain s evs where e: "execute review (CompleteUserTask ''xxxx'' ''bob'' None) (Some review_started)
      (counting_from ''y'') = Some (Inr (s, evs))"
    using review_completes_ok by blast
  let ?t = "token_of ''xxx'' ''s'' StartEventT Completed None"
  have "?t \<in> set (st_tokens review_started)" "\<not> is_live ?t"
    by (simp_all add: review_started_def token_of_def is_live_def)
  from ended_tokens_are_frozen[OF e review_call_ok(1) review_started_ok(3) review_call_ok(2)
      review_started_ok(4) this] e
  show ?thesis by blast
qed

lemma steady_result:
  assumes "steady True c" "cx_pendingQueue c = []" "toResult c = Some (Inr (s, evs))"
  shows "\<not> abandoned s"
proof
  assume a: "abandoned s"
  then obtain t where t: "t \<in> set (st_tokens s)" "is_live t" "pi_status (st_instance s) = CompletedI"
    by (auto simp: abandoned_def list_ex_iff)
  have "token_at c (tk_id t) = Some t" using t(1) result_tokens[OF _ assms(3)] assms(1) by (auto simp: steady_def)
  moreover have "\<not> running c" using t(3) assms(3) by (auto simp: running_def toResult_ok)
  ultimately show False using assms(1) t(2) by (auto simp: steady_def no_live_def)
qed

text \<open>
  Completion is final: when a command on a plain definition returns, an instance marked
  completed has no active or waiting token left, so nothing can still be delivered to it.
\<close>

theorem completed_instances_have_ended:
  assumes "execute d cmd st opts = Some (Inr (s', evs))" "call_ok opts cmd st" "plain d"
    and "pred_option (\<lambda>s. \<not> names_boundary cmd s \<and> \<not> abandoned s) st"
  shows "\<not> abandoned s'"
proof (cases st)
  case None
  with assms obtain c0 c' where "ran True c0 c'" "cx_pendingQueue c' = []" "toResult c' = Some (Inr (s', evs))"
    using execute_start[of d cmd opts s' evs True] by metis
  then show ?thesis using steady_result[of c' s' evs] by (simp add: ran_def)
next
  case (Some s)
  with assms obtain c' where "ran True (new_context (Some s) opts) c'" "cx_pendingQueue c' = []"
    "toResult c' = Some (Inr (s', evs))"
    using execute_ran[of d cmd s opts s' evs True] by auto
  then show ?thesis using steady_result[of c' s' evs] by (simp add: ran_def)
qed

theorem completed_instances_have_ended_witness:
  "\<exists>s evs. execute review (CompleteUserTask ''xxxx'' ''bob'' None) (Some review_started) (counting_from ''y'')
      = Some (Inr (s, evs)) \<and> pi_status (st_instance s) = CompletedI \<and> \<not> abandoned s"
proof -
  obtain s evs where e: "execute review (CompleteUserTask ''xxxx'' ''bob'' None) (Some review_started)
      (counting_from ''y'') = Some (Inr (s, evs))" "pi_status (st_instance s) = CompletedI"
    using review_completes_ok by blast
  from completed_instances_have_ended[OF e(1) review_call_ok(1) review_started_ok(3)] e
    review_call_ok(2) review_started_ok(4)
  show ?thesis by auto
qed

text \<open>
  A terminate end event breaks this: it ends the live tokens but not the queue, so a token queued
  behind it is processed afterwards. Here a parallel split sends one branch to a terminate end
  event and the other to a user task: the instance is completed, and the task waits for ever.
\<close>

definition terminated_review :: process_definition where
  "terminated_review = process_of
     [StartEvent (node ''s'' [] [''f1'']) no_event None,
      Gateway Parallel (node ''g'' [''f1''] [''f2'', ''f3'']) None None,
      EndEvent (node ''t'' [''f2''] []) (no_event\<lparr>ed_type := TerminateEvent\<rparr>),
      user_task ''u'' [''f3''] [''f4''],
      EndEvent (node ''e'' [''f4''] []) no_event]
     [flow_of ''f1'' ''s'' ''g'', flow_of ''f2'' ''g'' ''t'', flow_of ''f3'' ''g'' ''u'', flow_of ''f4'' ''u'' ''e'']"

lemma terminate_run:
  "case execute terminated_review (StartProcess None None None) None counting of
     Some (Inr (s, evs)) \<Rightarrow> pi_status (st_instance s) = CompletedI \<and>
       map (\<lambda>t. (tk_elementId t, tk_status t)) (st_tokens s) =
         [(''s'', Completed), (''g'', Completed), (''t'', Completed), (''u'', Waiting)]
   | _ \<Rightarrow> False"
  by (simp add: engine_eval terminated_review_def sample_eval)

text \<open>
  A terminate end event does not clear the queue: starting this definition returns a completed
  instance in which a user task waits.
\<close>

theorem terminate_leaves_waiting_task:
  "\<exists>s evs. execute terminated_review (StartProcess None None None) None counting = Some (Inr (s, evs)) \<and>
     abandoned s"
proof -
  obtain s evs where e: "execute terminated_review (StartProcess None None None) None counting = Some (Inr (s, evs))"
    "pi_status (st_instance s) = CompletedI"
    "map (\<lambda>t. (tk_elementId t, tk_status t)) (st_tokens s) =
       [(''s'', Completed), (''g'', Completed), (''t'', Completed), (''u'', Waiting)]"
    using terminate_run by (auto split: option.splits sum.splits)
  have "(''u'', Waiting) \<in> set (map (\<lambda>t. (tk_elementId t, tk_status t)) (st_tokens s))"
    unfolding e(3) by simp
  then obtain t where "t \<in> set (st_tokens s)" "tk_status t = Waiting" by auto
  then have "list_ex is_live (st_tokens s)" by (auto simp: list_ex_iff is_live_def)
  with e show ?thesis by (auto simp: abandoned_def)
qed

section \<open>Command guards\<close>

text \<open>The token a command is about, and the error it gets when that token does not wait.\<close>

fun token_command :: "engine_command \<Rightarrow> (string \<times> (token_status \<Rightarrow> runtime_fault)) option" where
  "token_command (CompleteServiceTask k vars) = Some (k, CannotComplete k)"
| "token_command (CompleteUserTask k by_whom vars) = Some (k, CannotComplete k)"
| "token_command (FailServiceTask k code msg) = Some (k, CannotFail k)"
| "token_command (FireTimer k) = Some (k, CannotFireTimer k)"
| "token_command _ = None"

text \<open>
  C28. The commands that name a token act only on a waiting one: without such a token, or when it is
  not waiting, the command throws and nothing is changed, so no task is completed twice.
\<close>

theorem token_commands_are_guarded:
  assumes "token_command cmd = Some (k, fault)" "wf_state s"
  shows "(k \<notin> tk_id ` set (st_tokens s) \<longrightarrow>
      execute d cmd (Some s) opts = Some (Inl (RuntimeError (TokenNotFound k)))) \<and>
    (\<forall>t. t \<in> set (st_tokens s) \<and> tk_id t = k \<and> tk_status t \<noteq> Waiting \<longrightarrow>
      execute d cmd (Some s) opts = Some (Inl (RuntimeError (fault (tk_status t)))))"
proof -
  let ?c = "new_context (Some s) opts"
  have at: "requireToken k ?c = (case token_at ?c k of Some t \<Rightarrow> ret t | None \<Rightarrow> throw (RuntimeError (TokenNotFound k)))"
    unfolding requireToken_def token_at_def ..
  note look = new_context_token_at[OF assms(2), of opts k]
  have "execute d cmd (Some s) opts = Some (Inl (RuntimeError (TokenNotFound k)))" if "k \<notin> tk_id ` set (st_tokens s)"
  proof -
    have "token_at ?c k = None" using look that by (cases "token_at ?c k") auto
    then have "requireToken k ?c = throw (RuntimeError (TokenNotFound k))" using at by simp
    with assms(1) show ?thesis
      by (cases cmd) (auto simp: execute_def handleCompleteTask_def handleFailServiceTask_def
          handleFireTimer_def throw_def simp del: new_context.simps)
  qed
  moreover have "execute d cmd (Some s) opts = Some (Inl (RuntimeError (fault (tk_status t))))"
    if "t \<in> set (st_tokens s)" "tk_id t = k" "tk_status t \<noteq> Waiting" for t
  proof -
    have "token_at ?c k = Some t" using look that by blast
    then have "requireToken k ?c = ret t" using at by simp
    with assms(1) that show ?thesis
      by (cases cmd) (auto simp: execute_def handleCompleteTask_def handleFailServiceTask_def
          handleFireTimer_def throw_def simp del: new_context.simps)
  qed
  ultimately show ?thesis by blast
qed

theorem token_commands_are_guarded_witness:
  "execute review (FireTimer ''xxx'') (Some review_started) counting =
     Some (Inl (RuntimeError (CannotFireTimer ''xxx'' Completed)))"
proof -
  let ?t = "token_of ''xxx'' ''s'' StartEventT Completed None"
  have "?t \<in> set (st_tokens review_started) \<and> tk_id ?t = ''xxx'' \<and> tk_status ?t \<noteq> Waiting"
    by (simp add: review_started_def token_of_def)
  moreover have "tk_status ?t = Completed" by (simp add: token_of_def)
  ultimately show ?thesis
    using token_commands_are_guarded[of "FireTimer ''xxx''" "''xxx''" "CannotFireTimer ''xxx''" review_started
      review counting, OF _ review_started_ok(1)]
    by (metis token_command.simps(4))
qed

section \<open>Suspending, resuming, cancelling\<close>

definition with_status :: "instance_status \<Rightarrow> engine_state \<Rightarrow> engine_state" where
  "with_status st s = s\<lparr>st_instance := (st_instance s)\<lparr>pi_status := st\<rparr>\<rparr>"

definition loadable :: "engine_state \<Rightarrow> bool" where
  "loadable s \<longleftrightarrow> distinct (map tk_id (st_tokens s)) \<and> distinct (map vs_id (st_scopes s)) \<and>
     distinct (map js_gatewayId (st_gatewayJoinStates s))"

lemma reload:
  assumes "loadable s"
  shows "toResult (emit e (setInstance i (new_context (Some s) opts))) = Some (Inr (s\<lparr>st_instance := i\<rparr>, [e]))"
  using assms
  by (simp add: toResult_ok loadable_def map_from_distinct map_values_distinct emit_def setInstance_def)

text \<open>
  Suspending an active instance changes its status and nothing else, and resuming it gives the
  very state back; either command on an instance in the wrong status throws.
\<close>

theorem suspend_resume_roundtrip:
  assumes "loadable s"
  shows "execute d SuspendInstance (Some s) opts =
      (if pi_status (st_instance s) = ActiveI
       then Some (Inr (with_status SuspendedI s, [ProcessInstanceSuspended (pi_id (st_instance s))]))
       else Some (Inl (RuntimeError (CannotSuspend (pi_status (st_instance s)))))) \<and>
    execute d ResumeInstance (Some s) opts =
      (if pi_status (st_instance s) = SuspendedI
       then Some (Inr (with_status ActiveI s, [ProcessInstanceResumed (pi_id (st_instance s))]))
       else Some (Inl (RuntimeError (CannotResume (pi_status (st_instance s)))))) \<and>
    (pi_status (st_instance s) = ActiveI \<longrightarrow> with_status ActiveI (with_status SuspendedI s) = s)"
  using reload[OF assms]
  by (auto simp: execute_def handleSuspendInstance_def handleResumeInstance_def requireInstance_def
      with_status_def throw_def)

theorem suspend_resume_roundtrip_witness:
  "execute review SuspendInstance (Some review_started) counting =
     Some (Inr (with_status SuspendedI review_started, [ProcessInstanceSuspended ''x'']))"
  using suspend_resume_roundtrip[of review_started review counting]
  by (auto simp: review_started_def token_of_def loadable_def)

lemma update_keyed:
  assumes "distinct (map f ts)" "u \<in> set ts"
  shows "AList.update (f u) v (map (\<lambda>x. (f x, g x)) ts) = map (\<lambda>x. (f x, (g(u := v)) x)) ts"
  using assms
proof (induction ts)
  case (Cons t ts)
  show ?case
  proof (cases "t = u")
    case True
    with Cons.prems have "map (\<lambda>x. (f x, g x)) ts = map (\<lambda>x. (f x, (g(u := v)) x)) ts"
      by (auto simp: image_iff)
    with True show ?thesis by simp
  next
    case False
    with Cons.prems have "u \<in> set ts" "f t \<noteq> f u" by auto
    with Cons False show ?thesis by simp
  qed
qed simp

lemma cancel_fold_map:
  assumes "distinct (map tk_id ts)" "set us \<subseteq> set ts" "distinct us"
    "cx_tokenMap c = map (\<lambda>x. (tk_id x, g x)) ts"
  shows "cx_tokenMap (fold (cancel_token_at n) us c) =
      map (\<lambda>x. (tk_id x, if x \<in> set us then cancelled_at n x else g x)) ts"
  using assms
proof (induction us arbitrary: c g)
  case (Cons u us)
  have "cx_tokenMap (cancel_token_at n u c) = map (\<lambda>x. (tk_id x, (g(u := cancelled_at n u)) x)) ts"
    using Cons.prems update_keyed[of tk_id ts u "cancelled_at n u" g]
    by (simp add: cancel_token_at_def cancelled_at_def)
  from Cons.IH[OF Cons.prems(1) _ _ this] Cons.prems show ?case by (auto simp: cancelled_at_def)
qed simp

lemma cancel_fold_rest:
  "cx_events (fold (cancel_token_at n) us c) =
     cx_events c @ map (\<lambda>t. TokenCancelled (tk_instanceId t) (tk_id t) (tk_elementId t)) us"
  "cx_scopeMap (fold (cancel_token_at n) us c) = cx_scopeMap c"
  "cx_joinStateMap (fold (cancel_token_at n) us c) = cx_joinStateMap c"
  "cx_compensationList (fold (cancel_token_at n) us c) = cx_compensationList c"
  "cx_instance (fold (cancel_token_at n) us c) = cx_instance c"
  by (induction us arbitrary: c) (auto simp: cancel_token_at_def emit_def updateToken_def)

text \<open>
  C29. Cancelling an instance is total: it always succeeds, whatever its status. Every live token is
  cancelled, at one time, with one event each, every other token, the scopes, the join states and
  the compensation records are as before, and the instance is terminated.
\<close>

theorem cancel_instance_exact:
  assumes "loadable s"
  shows "execute d CancelInstance (Some s) opts =
    Some (Inr (with_status TerminatedI
        (s\<lparr>st_tokens := map (\<lambda>t. if is_live t then cancelled_at (op_now opts 0) t else t) (st_tokens s)\<rparr>),
      map (\<lambda>t. TokenCancelled (tk_instanceId t) (tk_id t) (tk_elementId t)) (filter is_live (st_tokens s))
        @ [ProcessInstanceTerminated (pi_id (st_instance s)) ''cancelled by admin'']))"
proof -
  let ?c = "new_context (Some s) opts"
  have d: "distinct (map tk_id (st_tokens s))" using assms by (simp add: loadable_def)
  have m: "cx_tokenMap ?c = map (\<lambda>x. (tk_id x, x)) (st_tokens s)"
    using assms by (simp add: loadable_def map_from_distinct)
  then have g: "getAllTokens ?c = st_tokens s" by (simp add: getAllTokens_def map_values_distinct del: new_context.simps)
  define us where "us = filter is_live (st_tokens s)"
  have cw: "cancel_where is_live ?c = fold (cancel_token_at (op_now opts 0)) us (snd (now ?c))"
    unfolding cancel_where_def Let_def split_beta getAllTokens_now g us_def by (simp add: now_def)
  have us: "set us \<subseteq> set (st_tokens s)" "distinct us" using d by (auto simp: us_def distinct_map)
  have tm: "cx_tokenMap (cancel_where is_live ?c) =
      map (\<lambda>x. (tk_id x, if is_live x then cancelled_at (op_now opts 0) x else x)) (st_tokens s)"
    unfolding cw using cancel_fold_map[OF d us, of "snd (now ?c)" "\<lambda>x. x" "op_now opts 0"] m
    by (simp add: us_def del: new_context.simps)
  have rest: "cx_events (cancel_where is_live ?c) =
      map (\<lambda>t. TokenCancelled (tk_instanceId t) (tk_id t) (tk_elementId t)) us"
    "cx_scopeMap (cancel_where is_live ?c) = map (\<lambda>x. (vs_id x, x)) (st_scopes s)"
    "cx_joinStateMap (cancel_where is_live ?c) = map (\<lambda>x. (js_gatewayId x, x)) (st_gatewayJoinStates s)"
    "cx_compensationList (cancel_where is_live ?c) = st_compensationRecords s"
    unfolding cw cancel_fold_rest using assms by (simp_all add: now_def loadable_def map_from_distinct)
  have mv: "map_values (map (\<lambda>x. (tk_id x, h x)) ts) = map h ts" for h :: "token \<Rightarrow> token" and ts
    by (simp add: map_values_def)
  have i: "cx_instance ?c = Some (st_instance s)" by simp
  have "handle_command d CancelInstance ?c = Some (Inr (emit
      (ProcessInstanceTerminated (pi_id (st_instance s)) ''cancelled by admin'')
      (setInstance ((st_instance s)\<lparr>pi_status := TerminatedI\<rparr>) (cancel_where is_live ?c))))"
    using i by (simp add: handleCancelInstance_def Let_def requireInstance_def ret_def del: new_context.simps)
  then show ?thesis
    by (simp add: execute_def toResult_ok tm rest mv map_values_distinct with_status_def us_def
        emit_def setInstance_def del: new_context.simps)
qed

theorem cancel_instance_exact_witness:
  "case execute review CancelInstance (Some review_started) counting of
     Some (Inr (s, evs)) \<Rightarrow> map tk_status (st_tokens s) = [Completed, Cancelled] \<and> length evs = 2
   | _ \<Rightarrow> False"
proof -
  have "loadable review_started" by (simp add: loadable_def review_started_def token_of_def)
  from cancel_instance_exact[OF this, of review counting] show ?thesis
    by (simp add: review_started_def token_of_def with_status_def is_live_def cancelled_at_def)
qed

section \<open>Refinement\<close>



end
