(* ===== verification/Context_Correctness.thy ===== *)
theory Context_Correctness
  imports Token_Machine "HOL-Library.Multiset"
begin

text \<open>
  The two searches of the execution context: variable lookup along the scope chain, and the
  consumption of compensation records.
\<close>

section \<open>Scope resolution\<close>

text \<open>The chain of scopes from a scope id to its root, nearest first.\<close>

inductive scope_path :: "(string \<times> variable_scope) list \<Rightarrow> string \<Rightarrow> variable_scope list \<Rightarrow> bool"
  for m :: "(string \<times> variable_scope) list" where
  path_unknown: "map_of m k = None \<Longrightarrow> scope_path m k []"
| path_root: "map_of m k = Some s \<Longrightarrow> \<not> truthy (vs_parentScopeId s) \<Longrightarrow> scope_path m k [s]"
| path_parent: "map_of m k = Some s \<Longrightarrow> truthy (vs_parentScopeId s) \<Longrightarrow>
    scope_path m (the (vs_parentScopeId s)) ss \<Longrightarrow> scope_path m k (s # ss)"

inductive_cases scope_pathE: "scope_path m k ss"

text \<open>The value a variable has on a chain: the nearest scope that defines it.\<close>

fun nearest :: "variable_scope list \<Rightarrow> string \<Rightarrow> variable_value option" where
  "nearest [] x = None"
| "nearest (s # ss) x = (case map_of (rev (vs_variables s)) x of Some v \<Rightarrow> Some v | None \<Rightarrow> nearest ss x)"

lemma scope_path_exists:
  assumes "scope_tree m"
  shows "\<exists>ss. scope_path m k ss"
proof -
  obtain rank :: "string \<Rightarrow> nat" where r: "\<And>j u q. map_of m j = Some u \<Longrightarrow> vs_parentScopeId u = Some q \<Longrightarrow>
      rank q < rank j"
    using assms unfolding scope_tree_def by blast
  show ?thesis
  proof (induction "rank k" arbitrary: k rule: less_induct)
    case less
    show ?case
    proof (cases "map_of m k")
      case None
      then show ?thesis by (blast intro: path_unknown)
    next
      case (Some s)
      show ?thesis
      proof (cases "truthy (vs_parentScopeId s)")
        case True
        then obtain p where p: "vs_parentScopeId s = Some p" by (cases "vs_parentScopeId s") (auto simp: truthy_def)
        from less[OF r[OF Some p]] obtain ss where "scope_path m p ss" by blast
        with Some True p have "scope_path m k (s # ss)" by (intro path_parent) simp_all
        then show ?thesis by blast
      next
        case False
        with Some show ?thesis by (blast intro: path_root)
      qed
    qed
  qed
qed

lemma scope_path_unique: "scope_path m k ss \<Longrightarrow> scope_path m k ts \<Longrightarrow> ts = ss"
proof (induction arbitrary: ts rule: scope_path.induct)
  case (path_unknown k)
  from path_unknown.prems path_unknown.hyps show ?case by cases simp_all
next
  case (path_root k s)
  from path_root.prems path_root.hyps show ?case by cases simp_all
next
  case (path_parent k s ss)
  from path_parent.prems path_parent.hyps show ?case by cases (auto dest!: path_parent.IH)
qed

lemma scope_chain_path:
  assumes "scope_path m k ss"
  shows "scope_chain m (map_of m k) acc = Some (rev ss @ acc)"
  using assms
proof (induction arbitrary: acc rule: scope_path.induct)
  case (path_unknown k)
  then show ?case by (simp add: scope_chain_None)
next
  case (path_root k s)
  then show ?case by (simp add: scope_chain_Some scope_chain_None parent_scope_def)
next
  case (path_parent k s ss)
  then show ?case by (simp add: scope_chain_Some parent_scope_def)
qed

lemma merge_chain_nearest: "map_of (merge_chain (rev ss)) x = nearest ss x"
proof -
  have "map_of (fold (\<lambda>s result. assign result (vs_variables s)) (rev ss) acc) x =
      (case nearest ss x of Some v \<Rightarrow> Some v | None \<Rightarrow> map_of acc x)" for acc
    by (induction ss arbitrary: acc)
      (auto simp: map_of_assign map_add_def split: option.splits)
  from this[of "[]"] show ?thesis by (simp add: merge_chain_def split: option.splits)
qed

lemma resolveScope_on_path:
  assumes "scope_path (cx_scopeMap c) k ss"
  shows "resolveScope k c = Some (Inr (merge_chain (rev ss)))"
  using scope_chain_path[OF assms, of "[]"] by (simp add: resolveScope_def ret_def)

text \<open>
  C30. Variable lookup: in a context whose scopes form a forest \<open>resolveScope\<close> returns, its walk is
  the chain from the scope to its root, and each variable has the value of the nearest scope on
  the chain that defines it, so an inner scope shadows the outer ones.
\<close>

theorem resolveScope_nearest:
  assumes "wf_scopes c"
  shows "\<exists>ss vars. scope_path (cx_scopeMap c) k ss \<and> resolveScope k c = Some (Inr vars) \<and>
    map_of vars = nearest ss"
proof -
  obtain ss where "scope_path (cx_scopeMap c) k ss"
    using assms scope_path_exists[of "cx_scopeMap c"] unfolding wf_scopes_def by blast
  with resolveScope_on_path[OF this] merge_chain_nearest show ?thesis by blast
qed

definition two_scopes :: ctx where
  "two_scopes = (new_context None \<lparr>op_generateId = (\<lambda>_. []), op_now = int, op_expressionEvaluator = (\<lambda>_ _. Inr JNull)\<rparr>)
     \<lparr>cx_scopeMap := [(''r'', \<lparr>vs_id = ''r'', vs_parentScopeId = None, vs_variables =
          [(''a'', \<lparr>vv_type = VBoolean, vv_value = JBool True\<rparr>), (''b'', \<lparr>vv_type = VBoolean, vv_value = JBool True\<rparr>)]\<rparr>),
        (''c'', \<lparr>vs_id = ''c'', vs_parentScopeId = Some ''r'', vs_variables =
          [(''a'', \<lparr>vv_type = VBoolean, vv_value = JBool False\<rparr>)]\<rparr>)]\<rparr>"

lemma two_scopes_wf: "wf_scopes two_scopes"
  unfolding wf_scopes_def scope_tree_def
  by (auto simp: two_scopes_def intro!: exI[of _ "\<lambda>k. if k = ''c'' then 1 else 0"])

theorem resolveScope_nearest_witness:
  "\<exists>vars. resolveScope ''c'' two_scopes = Some (Inr vars) \<and>
     map_of vars ''a'' = Some \<lparr>vv_type = VBoolean, vv_value = JBool False\<rparr> \<and>
     map_of vars ''b'' = Some \<lparr>vv_type = VBoolean, vv_value = JBool True\<rparr>"
proof -
  obtain ss vars where p: "scope_path (cx_scopeMap two_scopes) ''c'' ss"
    "resolveScope ''c'' two_scopes = Some (Inr vars)" "map_of vars = nearest ss"
    using resolveScope_nearest[OF two_scopes_wf] by blast
  let ?m = "cx_scopeMap two_scopes"
  have r: "scope_path ?m ''r'' [the (map_of ?m ''r'')]"
    by (rule path_root) (simp_all add: two_scopes_def)
  have "scope_path ?m ''c'' [the (map_of ?m ''c''), the (map_of ?m ''r'')]"
  proof (rule path_parent)
    show "map_of ?m ''c'' = Some (the (map_of ?m ''c''))" "truthy (vs_parentScopeId (the (map_of ?m ''c'')))"
      by (simp_all add: two_scopes_def)
    show "scope_path ?m (the (vs_parentScopeId (the (map_of ?m ''c'')))) [the (map_of ?m ''r'')]"
      using r by (simp add: two_scopes_def)
  qed
  from scope_path_unique[OF this p(1)] p(2,3) show ?thesis by (simp add: two_scopes_def)
qed

text \<open>
  A scope whose chain of parents comes back to itself is a trap: \<open>resolveScope\<close> does not
  return. Only a well-formed state keeps the engine out of it.
\<close>

theorem resolveScope_cycle_diverges:
  assumes "map_of (cx_scopeMap c) k = Some s" "vs_parentScopeId s = Some k" "k \<noteq> []"
  shows "resolveScope k c = None"
proof -
  define P where "P m cur (acc :: variable_scope list) (r :: variable_scope list) \<longleftrightarrow>
    \<not> (m = cx_scopeMap c \<and> cur = Some s)" for m and cur :: "variable_scope option" and acc r
  have "P m cur acc r" if "scope_chain m cur acc = Some r" for m cur acc r
    using _ that
  proof (rule scope_chain.raw_induct)
    fix f :: "(string \<times> variable_scope) list \<Rightarrow> variable_scope option \<Rightarrow> variable_scope list \<Rightarrow> variable_scope list option"
      and m cur acc r
    assume IH: "\<And>m cur acc r. f m cur acc = Some r \<Longrightarrow> P m cur acc r"
      and body: "(case cur of None \<Rightarrow> Some acc | Some s \<Rightarrow> f m (parent_scope m s) (s # acc)) = Some r"
    have "parent_scope (cx_scopeMap c) s = Some s" using assms by (simp add: parent_scope_def truthy_def)
    then show "P m cur acc r" using IH[of m "parent_scope m s" "s # acc" r] body by (auto simp: P_def)
  qed
  then have "scope_chain (cx_scopeMap c) (Some s) [] = None"
    by (cases "scope_chain (cx_scopeMap c) (Some s) []") (auto simp: P_def)
  with assms(1) show ?thesis by (simp add: resolveScope_def)
qed

theorem resolveScope_cycle_diverges_witness:
  "resolveScope ''k'' ((new_context None \<lparr>op_generateId = (\<lambda>_. []), op_now = int, op_expressionEvaluator = (\<lambda>_ _. Inr JNull)\<rparr>)
     \<lparr>cx_scopeMap := [(''k'', \<lparr>vs_id = ''k'', vs_parentScopeId = Some ''k'', vs_variables = []\<rparr>)]\<rparr>) = None"
  by (rule resolveScope_cycle_diverges[where s = "\<lparr>vs_id = ''k'', vs_parentScopeId = Some ''k'', vs_variables = []\<rparr>"])
    simp_all

section \<open>Compensation records\<close>

lemma latest_first_sorted: "sorted_wrt (\<lambda>r q. cr_completedAt q \<le> cr_completedAt r) (latest_first rs)"
proof -
  have "sorted (map (\<lambda>r. - cr_completedAt r) (latest_first rs))" by (simp add: latest_first_def)
  then show ?thesis by (simp add: sorted_map)
qed

text \<open>
  Compensation runs backwards and once: consuming the records of an activity hands out exactly
  its records, latest completion first, and those only leave the list, so no handler is started
  twice; records completed at the same instant keep the order they were written in.
\<close>

theorem consume_backwards_once:
  "sorted_wrt (\<lambda>r q. cr_completedAt q \<le> cr_completedAt r) (fst (consumeCompensationRecords a c)) \<and>
   mset (fst (consumeCompensationRecords a c)) + mset (cx_compensationList (snd (consumeCompensationRecords a c))) =
     mset (cx_compensationList c) \<and>
   list_all (\<lambda>r. cr_activityId r = a) (fst (consumeCompensationRecords a c)) \<and>
   fst (consumeCompensationRecords a (snd (consumeCompensationRecords a c))) = [] \<and>
   filter (\<lambda>r. cr_completedAt r = n) (fst (consumeCompensationRecords a c)) =
     filter (\<lambda>r. cr_activityId r = a \<and> cr_completedAt r = n) (cx_compensationList c)"
proof -
  have stable: "filter (\<lambda>r. cr_completedAt r = n) (latest_first rs) = filter (\<lambda>r. cr_completedAt r = n) rs" for rs
    using sort_key_stable[of "\<lambda>r. - cr_completedAt r" "- n" rs] by (simp add: latest_first_def)
  have st: "filter (\<lambda>r. cr_completedAt r = n) (fst (consumeCompensationRecords a c)) =
     filter (\<lambda>r. cr_activityId r = a \<and> cr_completedAt r = n) (cx_compensationList c)"
    by (simp add: consumeCompensationRecords_def stable conj_commute)
  have "mset (filter P xs) + mset (filter (\<lambda>r. \<not> P r) xs) = mset xs" for P and xs :: "compensation_record list"
    by (induction xs) auto
  moreover have "mset (fst (consumeCompensationRecords a c)) =
      mset (filter (\<lambda>r. cr_activityId r = a) (cx_compensationList c))"
    by (simp add: consumeCompensationRecords_def latest_first_def)
  moreover have "list_all (\<lambda>r. cr_activityId r = a) (fst (consumeCompensationRecords a c))"
    by (simp add: consumeCompensationRecords_def latest_first_def list_all_iff)
  moreover have "fst (consumeCompensationRecords a (snd (consumeCompensationRecords a c))) = []"
    by (simp add: consumeCompensationRecords_def latest_first_def)
  moreover have "sorted_wrt (\<lambda>r q. cr_completedAt q \<le> cr_completedAt r) (fst (consumeCompensationRecords a c))"
    by (simp add: consumeCompensationRecords_def latest_first_sorted)
  ultimately show ?thesis using st by (simp add: consumeCompensationRecords_def)
qed

end
