(* ===== verification/State_Store.thy ===== *)
theory State_Store
  imports Model_Types
begin

text \<open>
  \<open>InMemoryStateStore.ts\<close> and the types of \<open>StateStore.ts\<close>: the store as a record of the
  class's maps, one function per method. The methods are asynchronous in the source but, apart from
  \<open>executeTransaction\<close>, have no \<open>await\<close> of their own, so each runs in one piece. A method that
  changes an array in place is written out as a new value of the map entry. The interface between
  the store and its clients is the locale \<open>keyed_collection\<close>: what is saved under a key is read back
  under it and nothing else changes.
\<close>

section \<open>Queries and operations\<close>

record instance_query =
  iq_definitionId :: "string option"
  iq_status :: "instance_status list option"
  iq_correlationKey :: "string option"
  iq_businessKey :: "string option"
  iq_startedAfter :: "int option"
  iq_startedBefore :: "int option"
  iq_page :: nat
  iq_pageSize :: nat

record user_task_query =
  uq_instanceId :: "string option"
  uq_assignee :: "string option"
  uq_candidateGroup :: "string option"
  uq_status :: "user_task_status list option"
  uq_page :: nat
  uq_pageSize :: nat

record subscription_filter =
  sq_type :: "subscription_type option"
  sq_messageName :: "string option"
  sq_signalName :: "string option"
  sq_correlationValue :: "string option"
  sq_instanceId :: "string option"

record 'a paged_result =
  pr_items :: "'a list"
  pr_total :: nat
  pr_page :: nat
  pr_pageSize :: nat

record definition_summary =
  ds_id :: string
  ds_version :: int
  ds_name :: "string option"
  ds_deployedAt :: int
  ds_isDeployable :: bool

record instance_summary =
  is_id :: string
  is_definitionId :: string
  is_definitionVersion :: int
  is_status :: instance_status
  is_correlationKey :: "string option"
  is_businessKey :: "string option"
  is_startedAt :: int
  is_completedAt :: "int option"

datatype store_operation =
    SaveDefinition process_definition
  | CreateInstance process_instance
  | UpdateInstance process_instance
  | SaveTokens "token list"
  | SaveScope variable_scope
  | CreateUserTask user_task_record
  | UpdateUserTask user_task_record
  | SaveSubscription event_subscription
  | DeleteSubscription string
  | SaveGatewayState gateway_join_state
  | DeleteGatewayState string string
  | AppendHistory history_entry
  | SaveTimer scheduled_timer
  | DeleteTimer string
  | SaveCompensationRecord compensation_record
  | DeleteCompensationRecord string string

section \<open>The store\<close>

text \<open>
  A definition's key is \<open>id@version\<close>; the version is a number, so the pair is the same key. A join
  state's key is a concatenated string and stays one.
\<close>

record store =
  so_definitions :: "((string \<times> int) \<times> process_definition) list"
  so_instances :: "(string \<times> process_instance) list"
  so_tokens :: "(string \<times> token list) list"
  so_scopes :: "(string \<times> variable_scope) list"
  so_userTasks :: "(string \<times> user_task_record) list"
  so_subscriptions :: "(string \<times> event_subscription) list"
  so_gatewayStates :: "(string \<times> gateway_join_state) list"
  so_history :: "(string \<times> history_entry list) list"
  so_timers :: "(string \<times> scheduled_timer) list"
  so_compensation :: "(string \<times> compensation_record list) list"

definition empty_store :: store where
  "empty_store = \<lparr>so_definitions = [], so_instances = [], so_tokens = [], so_scopes = [], so_userTasks = [],
     so_subscriptions = [], so_gatewayStates = [], so_history = [], so_timers = [], so_compensation = []\<rparr>"

definition gatewayKey :: "string \<Rightarrow> string \<Rightarrow> string" where
  "gatewayKey gatewayId instanceId = instanceId @ ''::'' @ gatewayId"

text \<open>\<open>this.m.get(k) ?? []\<close>.\<close>

definition get_list :: "('k \<times> 'v list) list \<Rightarrow> 'k \<Rightarrow> 'v list" where
  "get_list m k = (case map_of m k of Some xs \<Rightarrow> xs | None \<Rightarrow> [])"

text \<open>\<open>results.slice(page * pageSize, (page + 1) * pageSize)\<close>.\<close>

definition page_of :: "nat \<Rightarrow> nat \<Rightarrow> 'a list \<Rightarrow> 'a list" where
  "page_of page pageSize xs = take pageSize (drop (page * pageSize) xs)"

text \<open>A filter that applies only when the query gives a (truthy) value.\<close>

definition asks :: "string option \<Rightarrow> (string \<Rightarrow> bool) \<Rightarrow> bool" where
  "asks q P \<longleftrightarrow> \<not> truthy q \<or> P (the q)"

definition saveDefinition :: "process_definition \<Rightarrow> store \<Rightarrow> store" where
  "saveDefinition d s = s\<lparr>so_definitions := AList.update (pd_id d, pd_version d) d (so_definitions s)\<rparr>"

definition getDefinition :: "string \<Rightarrow> int option \<Rightarrow> store \<Rightarrow> process_definition option" where
  "getDefinition i version s =
     (case version of
        Some v \<Rightarrow> map_of (so_definitions s) (i, v)
      | None \<Rightarrow>
          fold (\<lambda>d latest. if pd_id d = i \<and> (case latest of None \<Rightarrow> True | Some l \<Rightarrow> pd_version l < pd_version d)
                           then Some d else latest)
            (map_values (so_definitions s)) None)"

definition listDefinitions :: "bool option \<Rightarrow> store \<Rightarrow> definition_summary list" where
  "listDefinitions isDeployable s =
     map (\<lambda>d. \<lparr>ds_id = pd_id d, ds_version = pd_version d, ds_name = pd_name d,
            ds_deployedAt = pd_deployedAt d, ds_isDeployable = pd_isDeployable d\<rparr>)
       (filter (\<lambda>d. isDeployable = None \<or> isDeployable = Some (pd_isDeployable d)) (map_values (so_definitions s)))"

definition createInstance :: "process_instance \<Rightarrow> store \<Rightarrow> store" where
  "createInstance i s = s\<lparr>so_instances := AList.update (pi_id i) (i\<lparr>pi_version := Some 1\<rparr>) (so_instances s)\<rparr>"

definition current_version :: "process_instance \<Rightarrow> int \<Rightarrow> int" where
  "current_version i dflt = (case pi_version i of Some v \<Rightarrow> v | None \<Rightarrow> dflt)"

definition updateInstance :: "process_instance \<Rightarrow> store \<Rightarrow> engine_error + store" where
  "updateInstance i s =
     (let current = map_of (so_instances s) (pi_id i) in
      if pi_version i \<noteq> None \<and> current \<noteq> None \<and> current_version (the current) 1 \<noteq> the (pi_version i)
      then Inl (ConcurrentModificationError (pi_id i))
      else Inr (s\<lparr>so_instances := AList.update (pi_id i)
             (i\<lparr>pi_version := Some ((case current of Some c \<Rightarrow> current_version c 0 | None \<Rightarrow> 0) + 1)\<rparr>)
             (so_instances s)\<rparr>))"

definition getInstance :: "string \<Rightarrow> store \<Rightarrow> process_instance option" where
  "getInstance i s = map_of (so_instances s) i"

definition findInstances :: "instance_query \<Rightarrow> store \<Rightarrow> instance_summary paged_result" where
  "findInstances q s =
     (let results = filter (\<lambda>i.
            asks (iq_definitionId q) (\<lambda>v. pi_definitionId i = v) \<and>
            asks (iq_correlationKey q) (\<lambda>v. pi_correlationKey i = Some v) \<and>
            asks (iq_businessKey q) (\<lambda>v. pi_businessKey i = Some v) \<and>
            (case iq_status q of None \<Rightarrow> True | Some statuses \<Rightarrow> pi_status i \<in> set statuses) \<and>
            (case iq_startedAfter q of None \<Rightarrow> True | Some after \<Rightarrow> after \<le> pi_startedAt i) \<and>
            (case iq_startedBefore q of None \<Rightarrow> True | Some before \<Rightarrow> pi_startedAt i \<le> before))
          (map_values (so_instances s))
      in \<lparr>pr_items = map (\<lambda>i. \<lparr>is_id = pi_id i, is_definitionId = pi_definitionId i,
             is_definitionVersion = pi_definitionVersion i, is_status = pi_status i,
             is_correlationKey = pi_correlationKey i, is_businessKey = pi_businessKey i,
             is_startedAt = pi_startedAt i, is_completedAt = pi_completedAt i\<rparr>)
             (page_of (iq_page q) (iq_pageSize q) results),
          pr_total = length results, pr_page = iq_page q, pr_pageSize = iq_pageSize q\<rparr>)"

text \<open>One round of \<open>saveTokens\<close>: replace the token with that id, or append it.\<close>

fun put_token :: "token \<Rightarrow> token list \<Rightarrow> token list" where
  "put_token t [] = [t]"
| "put_token t (u # us) = (if tk_id u = tk_id t then t # us else u # put_token t us)"

definition saveTokens :: "token list \<Rightarrow> store \<Rightarrow> store" where
  "saveTokens ts s =
     fold (\<lambda>t s. s\<lparr>so_tokens := AList.update (tk_instanceId t)
              (put_token t (get_list (so_tokens s) (tk_instanceId t))) (so_tokens s)\<rparr>) ts s"

definition getActiveTokens :: "string \<Rightarrow> store \<Rightarrow> token list" where
  "getActiveTokens i s = filter (\<lambda>t. tk_status t \<in> {Active, Waiting, Suspended}) (get_list (so_tokens s) i)"

definition store_getAllTokens :: "string \<Rightarrow> store \<Rightarrow> token list" where
  "store_getAllTokens i s = get_list (so_tokens s) i"

definition store_saveScope :: "variable_scope \<Rightarrow> store \<Rightarrow> store" where
  "store_saveScope x s = s\<lparr>so_scopes := AList.update (vs_id x) x (so_scopes s)\<rparr>"

definition getScope :: "string \<Rightarrow> store \<Rightarrow> variable_scope option" where
  "getScope i s = map_of (so_scopes s) i"

text \<open>The loop of \<open>getScopeChain\<close> walks to the root, leaf first; on a cycle it does not return.\<close>

partial_function (option) chain_from ::
  "(string \<times> variable_scope) list \<Rightarrow> variable_scope option \<Rightarrow> variable_scope list \<Rightarrow> variable_scope list option" where
  "chain_from m current chain =
     (case current of
        None \<Rightarrow> Some chain
      | Some x \<Rightarrow> chain_from m
          (if truthy (vs_parentScopeId x) then map_of m (the (vs_parentScopeId x)) else None) (chain @ [x]))"

declare chain_from.simps [code]

definition getScopeChain :: "string \<Rightarrow> store \<Rightarrow> variable_scope list option" where
  "getScopeChain leaf s = chain_from (so_scopes s) (map_of (so_scopes s) leaf) []"

definition createUserTask :: "user_task_record \<Rightarrow> store \<Rightarrow> store" where
  "createUserTask t s = s\<lparr>so_userTasks := AList.update (ur_id t) t (so_userTasks s)\<rparr>"

definition updateUserTask :: "user_task_record \<Rightarrow> store \<Rightarrow> store" where
  "updateUserTask t s = s\<lparr>so_userTasks := AList.update (ur_id t) t (so_userTasks s)\<rparr>"

definition getUserTask :: "string \<Rightarrow> store \<Rightarrow> user_task_record option" where
  "getUserTask i s = map_of (so_userTasks s) i"

definition queryUserTasks :: "user_task_query \<Rightarrow> store \<Rightarrow> user_task_record paged_result" where
  "queryUserTasks q s =
     (let results = filter (\<lambda>t.
            asks (uq_instanceId q) (\<lambda>v. ur_instanceId t = v) \<and>
            asks (uq_assignee q) (\<lambda>v. ur_assignee t = Some v) \<and>
            asks (uq_candidateGroup q)
              (\<lambda>v. case ur_candidateGroups t of None \<Rightarrow> False | Some groups \<Rightarrow> v \<in> set groups) \<and>
            (case uq_status q of None \<Rightarrow> True | Some statuses \<Rightarrow> ur_status t \<in> set statuses))
          (map_values (so_userTasks s))
      in \<lparr>pr_items = page_of (uq_page q) (uq_pageSize q) results, pr_total = length results,
          pr_page = uq_page q, pr_pageSize = uq_pageSize q\<rparr>)"

definition saveSubscription :: "event_subscription \<Rightarrow> store \<Rightarrow> store" where
  "saveSubscription x s = s\<lparr>so_subscriptions := AList.update (es_id x) x (so_subscriptions s)\<rparr>"

definition deleteSubscription :: "string \<Rightarrow> store \<Rightarrow> store" where
  "deleteSubscription i s = s\<lparr>so_subscriptions := AList.delete i (so_subscriptions s)\<rparr>"

definition findSubscriptions :: "subscription_filter \<Rightarrow> store \<Rightarrow> event_subscription list" where
  "findSubscriptions f s =
     filter (\<lambda>x. es_status x = SubActive \<and>
         (case sq_type f of None \<Rightarrow> True | Some ty \<Rightarrow> es_type x = ty) \<and>
         asks (sq_messageName f) (\<lambda>v. es_messageName x = Some v) \<and>
         asks (sq_signalName f) (\<lambda>v. es_signalName x = Some v) \<and>
         asks (sq_correlationValue f) (\<lambda>v. es_correlationValue x = Some v) \<and>
         asks (sq_instanceId f) (\<lambda>v. es_instanceId x = v))
       (map_values (so_subscriptions s))"

definition saveGatewayState :: "gateway_join_state \<Rightarrow> store \<Rightarrow> store" where
  "saveGatewayState g s =
     s\<lparr>so_gatewayStates := AList.update (gatewayKey (js_gatewayId g) (js_instanceId g)) g (so_gatewayStates s)\<rparr>"

definition getGatewayState :: "string \<Rightarrow> string \<Rightarrow> store \<Rightarrow> gateway_join_state option" where
  "getGatewayState gatewayId instanceId s = map_of (so_gatewayStates s) (gatewayKey gatewayId instanceId)"

definition deleteGatewayState :: "string \<Rightarrow> string \<Rightarrow> store \<Rightarrow> store" where
  "deleteGatewayState gatewayId instanceId s =
     s\<lparr>so_gatewayStates := AList.delete (gatewayKey gatewayId instanceId) (so_gatewayStates s)\<rparr>"

definition listGatewayStates :: "string \<Rightarrow> store \<Rightarrow> gateway_join_state list" where
  "listGatewayStates instanceId s = filter (\<lambda>g. js_instanceId g = instanceId) (map_values (so_gatewayStates s))"

definition appendHistory :: "history_entry \<Rightarrow> store \<Rightarrow> store" where
  "appendHistory e s =
     s\<lparr>so_history := AList.update (he_instanceId e) (get_list (so_history s) (he_instanceId e) @ [e]) (so_history s)\<rparr>"

definition getHistory :: "string \<Rightarrow> store \<Rightarrow> history_entry list" where
  "getHistory i s = get_list (so_history s) i"

definition saveTimer :: "scheduled_timer \<Rightarrow> store \<Rightarrow> store" where
  "saveTimer t s = s\<lparr>so_timers := AList.update (tm_id t) t (so_timers s)\<rparr>"

definition deleteTimer :: "string \<Rightarrow> store \<Rightarrow> store" where
  "deleteTimer i s = s\<lparr>so_timers := AList.delete i (so_timers s)\<rparr>"

definition getDueTimers :: "int \<Rightarrow> store \<Rightarrow> scheduled_timer list" where
  "getDueTimers before s = filter (\<lambda>t. tm_fireAt t \<le> before) (map_values (so_timers s))"

definition saveCompensationRecord :: "compensation_record \<Rightarrow> store \<Rightarrow> store" where
  "saveCompensationRecord r s =
     s\<lparr>so_compensation := AList.update (cr_instanceId r)
         (get_list (so_compensation s) (cr_instanceId r) @ [r]) (so_compensation s)\<rparr>"

definition deleteCompensationRecord :: "string \<Rightarrow> string \<Rightarrow> store \<Rightarrow> store" where
  "deleteCompensationRecord instanceId tokenId s =
     s\<lparr>so_compensation := AList.update instanceId
         (filter (\<lambda>r. cr_tokenId r \<noteq> tokenId) (get_list (so_compensation s) instanceId)) (so_compensation s)\<rparr>"

definition listCompensationRecords :: "string \<Rightarrow> store \<Rightarrow> compensation_record list" where
  "listCompensationRecords instanceId s = get_list (so_compensation s) instanceId"

section \<open>Transactions\<close>

text \<open>
  \<open>executeTransaction\<close> awaits the operations one after the other on the live maps. Only
  \<open>updateInstance\<close> throws, and what ran before it stays: the result is the store reached and the
  error, if any. Another caller may run between two operations; the model is the sequence of one
  transaction.
\<close>

fun apply_op :: "store_operation \<Rightarrow> store \<Rightarrow> engine_error + store" where
  "apply_op (SaveDefinition d) s = Inr (saveDefinition d s)"
| "apply_op (CreateInstance i) s = Inr (createInstance i s)"
| "apply_op (UpdateInstance i) s = updateInstance i s"
| "apply_op (SaveTokens ts) s = Inr (saveTokens ts s)"
| "apply_op (SaveScope x) s = Inr (store_saveScope x s)"
| "apply_op (CreateUserTask t) s = Inr (createUserTask t s)"
| "apply_op (UpdateUserTask t) s = Inr (updateUserTask t s)"
| "apply_op (SaveSubscription x) s = Inr (saveSubscription x s)"
| "apply_op (DeleteSubscription i) s = Inr (deleteSubscription i s)"
| "apply_op (SaveGatewayState g) s = Inr (saveGatewayState g s)"
| "apply_op (DeleteGatewayState gatewayId instanceId) s = Inr (deleteGatewayState gatewayId instanceId s)"
| "apply_op (AppendHistory e) s = Inr (appendHistory e s)"
| "apply_op (SaveTimer t) s = Inr (saveTimer t s)"
| "apply_op (DeleteTimer i) s = Inr (deleteTimer i s)"
| "apply_op (SaveCompensationRecord r) s = Inr (saveCompensationRecord r s)"
| "apply_op (DeleteCompensationRecord instanceId tokenId) s = Inr (deleteCompensationRecord instanceId tokenId s)"

fun executeTransaction :: "store_operation list \<Rightarrow> store \<Rightarrow> store \<times> engine_error option" where
  "executeTransaction [] s = (s, None)"
| "executeTransaction (op # ops) s =
     (case apply_op op s of
        Inl e \<Rightarrow> (s, Some e)
      | Inr s' \<Rightarrow> executeTransaction ops s')"

text \<open>The test helpers.\<close>

definition store_reset :: "store \<Rightarrow> store" where
  "store_reset s = empty_store"

definition getAllInstances :: "store \<Rightarrow> process_instance list" where
  "getAllInstances s = map_values (so_instances s)"

definition getAllSubscriptions :: "store \<Rightarrow> event_subscription list" where
  "getAllSubscriptions s = map_values (so_subscriptions s)"

definition getAllTimers :: "store \<Rightarrow> scheduled_timer list" where
  "getAllTimers s = map_values (so_timers s)"

section \<open>Keyed collections\<close>

locale keyed_collection =
  fixes key :: "'e \<Rightarrow> 'k" and save :: "'e \<Rightarrow> 'st \<Rightarrow> 'st" and get :: "'k \<Rightarrow> 'st \<Rightarrow> 'e option"
  assumes get_save: "get k (save x s) = (if k = key x then Some x else get k s)"
begin

lemma get_fold_other: "k \<notin> key ` set xs \<Longrightarrow> get k (fold save xs s) = get k s"
  by (induction xs arbitrary: s) (auto simp: get_save)

lemma get_fold: "distinct (map key xs) \<Longrightarrow> x \<in> set xs \<Longrightarrow> get (key x) (fold save xs s) = Some x"
proof (induction xs arbitrary: s)
  case (Cons y ys)
  then show ?case
    using get_fold_other[of "key y" ys "save y s"] by (cases "x = y") (auto simp: get_save)
qed simp

end

locale deletable_collection = keyed_collection +
  fixes delete :: "'k \<Rightarrow> 'st \<Rightarrow> 'st"
  assumes get_delete: "get k (delete k' s) = (if k = k' then None else get k s)"
begin

lemma save_delete_get: "get k (delete (key x) (save x s)) = (if k = key x then None else get k s)"
  by (simp add: get_save get_delete)

lemma get_fold_delete: "get k (fold delete ks s) = (if k \<in> set ks then None else get k s)"
  by (induction ks arbitrary: s) (auto simp: get_delete)

end

text \<open>A log kept apart for each group: what is appended comes last in its group's list.\<close>

locale grouped_log =
  fixes group :: "'e \<Rightarrow> 'g" and put :: "'e \<Rightarrow> 'st \<Rightarrow> 'st" and entries :: "'g \<Rightarrow> 'st \<Rightarrow> 'e list"
  assumes entries_put: "entries g (put x s) = entries g s @ (if group x = g then [x] else [])"
begin

lemma entries_fold: "entries g (fold put xs s) = entries g s @ filter (\<lambda>x. group x = g) xs"
  by (induction xs arbitrary: s) (simp_all add: entries_put)

end

lemmas store_defs = saveDefinition_def store_saveScope_def getScope_def createUserTask_def updateUserTask_def
  getUserTask_def saveSubscription_def deleteSubscription_def saveGatewayState_def getGatewayState_def
  deleteGatewayState_def saveTimer_def deleteTimer_def

interpretation definitions_col: keyed_collection "\<lambda>d. (pd_id d, pd_version d)" saveDefinition
  "\<lambda>(i, v). getDefinition i (Some v)"
  by unfold_locales (auto simp: store_defs getDefinition_def jsmap_simps split: if_splits)

interpretation scopes_col: keyed_collection vs_id store_saveScope getScope
  by unfold_locales (simp add: store_defs jsmap_simps)

interpretation tasks_col: keyed_collection ur_id createUserTask getUserTask
  by unfold_locales (simp add: store_defs jsmap_simps)

interpretation subscriptions_col: deletable_collection es_id saveSubscription
  "\<lambda>i s. map_of (so_subscriptions s) i" deleteSubscription
  by unfold_locales (simp_all add: store_defs jsmap_simps)

interpretation timers_col: deletable_collection tm_id saveTimer "\<lambda>i s. map_of (so_timers s) i" deleteTimer
  by unfold_locales (simp_all add: store_defs jsmap_simps)

interpretation joins_col: deletable_collection "\<lambda>g. gatewayKey (js_gatewayId g) (js_instanceId g)"
  saveGatewayState "\<lambda>k s. map_of (so_gatewayStates s) k"
  "\<lambda>k s. s\<lparr>so_gatewayStates := AList.delete k (so_gatewayStates s)\<rparr>"
  by unfold_locales (simp_all add: store_defs jsmap_simps)

text \<open>The tokens: one list per instance, a token found by its id.\<close>

definition stored_token :: "string \<times> string \<Rightarrow> store \<Rightarrow> token option" where
  "stored_token k s = List.find (\<lambda>t. tk_id t = snd k) (get_list (so_tokens s) (fst k))"

lemma find_put_token:
  "List.find (\<lambda>u. tk_id u = i) (put_token t ts) =
     (if i = tk_id t then Some t else List.find (\<lambda>u. tk_id u = i) ts)"
  by (induction ts) auto

lemma get_list_update: "get_list (AList.update k v m) k' = (if k' = k then v else get_list m k')"
  by (simp add: get_list_def jsmap_simps)

interpretation tokens_col: keyed_collection "\<lambda>t. (tk_instanceId t, tk_id t)" "\<lambda>t. saveTokens [t]" stored_token
  by unfold_locales (auto simp: stored_token_def saveTokens_def get_list_update find_put_token)

interpretation history_log: grouped_log he_instanceId appendHistory getHistory
  by unfold_locales (simp add: appendHistory_def getHistory_def get_list_update)

interpretation records_log: grouped_log cr_instanceId saveCompensationRecord listCompensationRecords
  by unfold_locales (simp add: saveCompensationRecord_def listCompensationRecords_def get_list_update)

lemma saveTokens_fold: "saveTokens ts s = fold (\<lambda>t. saveTokens [t]) ts s"
  by (induction ts arbitrary: s) (simp_all add: saveTokens_def)

section \<open>Definitions and pages\<close>

definition newer :: "process_definition option \<Rightarrow> process_definition \<Rightarrow> bool" where
  "newer latest d \<longleftrightarrow> (case latest of None \<Rightarrow> True | Some l \<Rightarrow> pd_version l < pd_version d)"

definition is_latest :: "string \<Rightarrow> process_definition list \<Rightarrow> process_definition option \<Rightarrow> bool" where
  "is_latest i ds r \<longleftrightarrow> (case r of
     None \<Rightarrow> list_all (\<lambda>d. pd_id d \<noteq> i) ds
   | Some l \<Rightarrow> l \<in> set ds \<and> pd_id l = i \<and>
        list_all (\<lambda>d. pd_version d \<le> pd_version l) (filter (\<lambda>d. pd_id d = i) ds))"

lemma latest_fold:
  "is_latest i ds (fold (\<lambda>d latest. if pd_id d = i \<and> newer latest d then Some d else latest) ds None)"
proof (induction ds rule: rev_induct)
  case Nil
  then show ?case by (simp add: is_latest_def)
next
  case (snoc d ds)
  then show ?case
    by (cases "fold (\<lambda>d latest. if pd_id d = i \<and> newer latest d then Some d else latest) ds None")
       (auto simp: is_latest_def newer_def list_all_iff)
qed

text \<open>
  \<open>getDefinition\<close> without a version gives the latest: a stored definition with that id whose
  version no other stored definition with that id exceeds; it gives none exactly when no
  definition with that id is stored.
\<close>

theorem getDefinition_latest:
  "case getDefinition i None s of
     None \<Rightarrow> list_all (\<lambda>d. pd_id d \<noteq> i) (map_values (so_definitions s))
   | Some l \<Rightarrow> l \<in> set (map_values (so_definitions s)) \<and> pd_id l = i \<and>
        list_all (\<lambda>d. pd_version d \<le> pd_version l)
          (filter (\<lambda>d. pd_id d = i) (map_values (so_definitions s)))"
  using latest_fold[of i "map_values (so_definitions s)"]
  by (simp add: getDefinition_def newer_def[abs_def] is_latest_def)

lemma pages_cover:
  assumes "length xs \<le> n * k"
  shows "concat (map (\<lambda>p. page_of p k xs) [0..<n]) = xs"
proof -
  have "concat (map (\<lambda>p. page_of p k xs) [0..<m]) = take (m * k) xs" for m
    by (induction m) (simp_all add: page_of_def take_add add.commute[of k])
  then show ?thesis using assms by simp
qed

text \<open>
  Paging loses nothing and repeats nothing: the pages of a task query, asked one after the
  other until the pages hold \<open>pr_total\<close> items, put together are the matching tasks in order.
\<close>

theorem task_pages_cover:
  assumes "pr_total (queryUserTasks q s) \<le> n * uq_pageSize q"
  shows "concat (map (\<lambda>p. pr_items (queryUserTasks (q\<lparr>uq_page := p\<rparr>) s)) [0..<n]) =
    pr_items (queryUserTasks (q\<lparr>uq_page := 0, uq_pageSize := pr_total (queryUserTasks q s)\<rparr>) s)"
  using assms by (simp add: queryUserTasks_def Let_def pages_cover) (simp add: page_of_def)

definition sample_user_task :: "string \<Rightarrow> user_task_record" where
  "sample_user_task i = \<lparr>ur_id = i, ur_instanceId = ''i1'', ur_tokenId = ''t'', ur_elementId = ''e'', ur_name = ''n'',
     ur_description = None, ur_assignee = None, ur_candidateGroups = None, ur_dueDate = None, ur_priority = 50,
     ur_inputVariables = [], ur_formKey = None, ur_status = TaskOpen, ur_createdAt = 0, ur_claimedAt = None,
     ur_completedAt = None\<rparr>"

definition all_tasks :: "nat \<Rightarrow> nat \<Rightarrow> user_task_query" where
  "all_tasks p n = \<lparr>uq_instanceId = None, uq_assignee = None, uq_candidateGroup = None, uq_status = None,
     uq_page = p, uq_pageSize = n\<rparr>"

definition three_tasks :: store where
  "three_tasks = fold createUserTask (map sample_user_task [''a'', ''b'', ''c'']) empty_store"

theorem task_pages_cover_witness:
  "pr_total (queryUserTasks (all_tasks 0 2) three_tasks) = 3 \<and>
   concat (map (\<lambda>p. pr_items (queryUserTasks (all_tasks p 2) three_tasks)) [0..<2]) =
     map sample_user_task [''a'', ''b'', ''c'']"
proof -
  have t: "pr_total (queryUserTasks (all_tasks 0 2) three_tasks) = 3"
    by (simp add: queryUserTasks_def all_tasks_def three_tasks_def createUserTask_def empty_store_def
        sample_user_task_def map_values_def asks_def)
  have r: "pr_items (queryUserTasks (all_tasks 0 3) three_tasks) = map sample_user_task [''a'', ''b'', ''c'']"
    by (simp add: queryUserTasks_def all_tasks_def three_tasks_def createUserTask_def empty_store_def
        sample_user_task_def map_values_def asks_def page_of_def)
  have "(all_tasks 0 2)\<lparr>uq_page := p\<rparr> = all_tasks p 2" "(all_tasks 0 2)\<lparr>uq_page := 0, uq_pageSize := 3\<rparr> = all_tasks 0 3"
    "uq_pageSize (all_tasks 0 2) = 2" for p
    by (simp_all add: all_tasks_def)
  with task_pages_cover[of "all_tasks 0 2" three_tasks 2] t r show ?thesis by simp
qed

section \<open>Join states\<close>

lemma gatewayKey_inj:
  assumes "CHR '':'' \<notin> set i" "CHR '':'' \<notin> set i'"
  shows "gatewayKey g i = gatewayKey g' i' \<longleftrightarrow> g = g' \<and> i = i'"
  using assms
proof (induction i arbitrary: i')
  case Nil
  then show ?case by (cases i') (auto simp: gatewayKey_def)
next
  case (Cons x i)
  then show ?case by (cases i') (auto simp: gatewayKey_def)
qed

text \<open>
  Join states of different gateways or different instances never meet, although they share one
  map under a concatenated key: as long as instance ids contain no colon (ids are UUIDs), saving or
  deleting the state of one gateway in one instance is read back there and leaves every other pair
  alone.
\<close>

theorem join_states_apart:
  assumes "CHR '':'' \<notin> set (js_instanceId g)" "CHR '':'' \<notin> set inst"
  shows "getGatewayState gid inst (saveGatewayState g s) =
      (if gid = js_gatewayId g \<and> inst = js_instanceId g then Some g else getGatewayState gid inst s) \<and>
    getGatewayState gid inst (deleteGatewayState (js_gatewayId g) (js_instanceId g) s) =
      (if gid = js_gatewayId g \<and> inst = js_instanceId g then None else getGatewayState gid inst s)"
  using gatewayKey_inj[OF assms(2,1)] by (simp add: store_defs jsmap_simps)

definition sample_join :: gateway_join_state where
  "sample_join = ParallelJoin \<lparr>pj_gatewayId = ''j'', pj_instanceId = ''i1'', pj_activationId = ''a'',
     pj_arrivedFromFlows = [''f1''], pj_expectedFlows = [''f1'', ''f2'']\<rparr>"

theorem join_states_apart_witness:
  "getGatewayState ''j'' ''i2'' (saveGatewayState sample_join empty_store) = None \<and>
   getGatewayState ''j'' ''i1'' (saveGatewayState sample_join empty_store) = Some sample_join"
  using join_states_apart[of sample_join "''i2''" "''j''" empty_store]
    join_states_apart[of sample_join "''i1''" "''j''" empty_store]
  by (simp add: sample_join_def getGatewayState_def empty_store_def)

text \<open>With a colon in an instance id two pairs do share a key.\<close>

lemma gatewayKey_collides: "gatewayKey ''b::c'' ''a'' = gatewayKey ''c'' ''a::b''"
  by (simp add: gatewayKey_def)

section \<open>Versions and transactions\<close>

lemma getInstance_update:
  "updateInstance x s = Inr s' \<Longrightarrow> getInstance i s' =
     (if i = pi_id x
      then Some (x\<lparr>pi_version := Some ((case getInstance i s of Some c \<Rightarrow> current_version c 0 | None \<Rightarrow> 0) + 1)\<rparr>)
      else getInstance i s)"
  by (auto simp: updateInstance_def getInstance_def jsmap_simps Let_def split: if_splits)

text \<open>
  Optimistic concurrency: of two callers that both read an instance at version \<open>v\<close> and both
  write it back, the first is stored with version \<open>v + 1\<close> and the second is refused with
  \<open>ConcurrentModificationError\<close>, so that no update is lost.
\<close>

theorem stale_writer_refused:
  assumes "getInstance i s = Some c" "pi_version c = Some v"
    and "pi_id a = i" "pi_version a = Some v" "pi_id b = i" "pi_version b = Some v"
  shows "\<exists>s1. updateInstance a s = Inr s1 \<and> getInstance i s1 = Some (a\<lparr>pi_version := Some (v + 1)\<rparr>) \<and>
    updateInstance b s1 = Inl (ConcurrentModificationError i)"
  using assms by (simp add: updateInstance_def getInstance_def current_version_def jsmap_simps)

definition sample_instance :: process_instance where
  "sample_instance = \<lparr>pi_id = ''i1'', pi_definitionId = ''p'', pi_definitionVersion = 1, pi_status = ActiveI,
     pi_rootScopeId = ''r'', pi_correlationKey = None, pi_businessKey = None, pi_parentInstanceId = None,
     pi_parentTokenId = None, pi_startedAt = 0, pi_completedAt = None, pi_errorInfo = None, pi_version = Some 1\<rparr>"

theorem stale_writer_refused_witness:
  "\<exists>s1. updateInstance (sample_instance\<lparr>pi_status := SuspendedI\<rparr>) (createInstance sample_instance empty_store) = Inr s1 \<and>
    updateInstance (sample_instance\<lparr>pi_status := TerminatedI\<rparr>) s1 = Inl (ConcurrentModificationError ''i1'')"
  using stale_writer_refused[of "''i1''" "createInstance sample_instance empty_store" sample_instance 1
      "sample_instance\<lparr>pi_status := SuspendedI\<rparr>" "sample_instance\<lparr>pi_status := TerminatedI\<rparr>"]
  by (auto simp: sample_instance_def createInstance_def empty_store_def getInstance_def)

definition version_of :: "string \<Rightarrow> store \<Rightarrow> int" where
  "version_of i s = (case getInstance i s of Some c \<Rightarrow> current_version c 0 | None \<Rightarrow> 0)"

fun updates :: "string \<Rightarrow> store_operation \<Rightarrow> bool" where
  "updates i (UpdateInstance x) = (pi_id x = i)"
| "updates i _ = False"

fun is_update :: "store_operation \<Rightarrow> bool" where
  "is_update (UpdateInstance _) = True"
| "is_update _ = False"

fun is_create :: "store_operation \<Rightarrow> bool" where
  "is_create (CreateInstance _) = True"
| "is_create _ = False"

lemma saveTokens_instances: "so_instances (saveTokens ts s) = so_instances s"
  by (induction ts arbitrary: s) (simp_all add: saveTokens_def)

lemmas other_ops = store_defs saveTokens_instances appendHistory_def saveCompensationRecord_def
  deleteCompensationRecord_def

lemma apply_other: "\<not> is_update op \<Longrightarrow> \<exists>s'. apply_op op s = Inr s'"
  by (cases op) auto

lemma apply_instances:
  "apply_op op s = Inr s' \<Longrightarrow> \<not> is_update op \<Longrightarrow> \<not> is_create op \<Longrightarrow> so_instances s' = so_instances s"
  by (cases op) (auto simp: other_ops)

lemma apply_version:
  assumes "apply_op op s = Inr s'" "\<not> is_create op"
  shows "version_of i s' = version_of i s + (if updates i op then 1 else 0)"
proof (cases op)
  case (UpdateInstance x)
  with assms(1) have "updateInstance x s = Inr s'" by simp
  from getInstance_update[OF this] UpdateInstance show ?thesis
    by (simp add: version_of_def current_version_def)
qed (use assms apply_instances[OF assms(1)] in \<open>simp_all add: version_of_def getInstance_def\<close>)

text \<open>
  The version counts the updates: a transaction that succeeds, and creates no instance, raises
  the version of each instance by the number of its updates in the transaction and leaves the
  others' versions alone.
\<close>

theorem versions_count_updates:
  assumes "executeTransaction ops s = (s', None)" "list_all (\<lambda>op. \<not> is_create op) ops"
  shows "version_of i s' = version_of i s + int (length (filter (updates i) ops))"
  using assms
proof (induction ops arbitrary: s)
  case (Cons op ops)
  then obtain s1 where s1: "apply_op op s = Inr s1" "executeTransaction ops s1 = (s', None)"
    by (auto split: sum.splits)
  with Cons apply_version[OF s1(1), of i] show ?case by simp
qed simp

theorem versions_count_updates_witness:
  "\<exists>s'. executeTransaction [UpdateInstance sample_instance, DeleteTimer ''t''] (createInstance sample_instance empty_store)
      = (s', None) \<and> version_of ''i1'' s' = 2"
  using versions_count_updates[of "[UpdateInstance sample_instance, DeleteTimer ''t'']"
      "createInstance sample_instance empty_store" _ "''i1''"]
  by (auto simp: sample_instance_def createInstance_def empty_store_def updateInstance_def current_version_def
      version_of_def getInstance_def deleteTimer_def split: sum.splits)

text \<open>
  A transaction whose only update is its first operation is atomic: either the version check
  refuses it and the store is unchanged, or every operation is applied.
\<close>

theorem update_first_is_atomic:
  assumes "list_all (\<lambda>op. \<not> is_update op) ops" "executeTransaction (op # ops) s = (s', r)"
  shows "case r of Some e \<Rightarrow> s' = s \<and> apply_op op s = Inl e
    | None \<Rightarrow> Inr s' = fold (\<lambda>op r. case r of Inl e \<Rightarrow> Inl e | Inr t \<Rightarrow> apply_op op t) (op # ops) (Inr s)"
proof -
  let ?f = "\<lambda>op r. case r of Inl e \<Rightarrow> Inl e | Inr t \<Rightarrow> apply_op op t"
  have rest: "\<exists>u. executeTransaction ops t = (u, None) \<and> fold ?f ops (Inr t) = Inr u"
    if "list_all (\<lambda>op. \<not> is_update op) ops" for t
    using that
  proof (induction ops arbitrary: t)
    case (Cons op ops)
    then obtain t' where "apply_op op t = Inr t'" using apply_other[of op t] by auto
    with Cons show ?case by simp
  qed simp
  show ?thesis
  proof (cases "apply_op op s")
    case (Inr t)
    with rest[OF assms(1), of t] assms(2) show ?thesis by auto
  qed (use assms(2) in auto)
qed

theorem update_first_is_atomic_witness:
  "executeTransaction [UpdateInstance (sample_instance\<lparr>pi_version := Some 7\<rparr>), SaveTokens []]
     (createInstance sample_instance empty_store)
   = (createInstance sample_instance empty_store, Some (ConcurrentModificationError ''i1''))"
proof -
  let ?x = "sample_instance\<lparr>pi_version := Some 7\<rparr>" and ?s = "createInstance sample_instance empty_store"
  obtain s' r where e: "executeTransaction [UpdateInstance ?x, SaveTokens []] ?s = (s', r)"
    by (metis surj_pair)
  have "apply_op (UpdateInstance ?x) ?s = Inl (ConcurrentModificationError ''i1'')"
    by (simp add: sample_instance_def createInstance_def empty_store_def updateInstance_def current_version_def)
  with update_first_is_atomic[OF _ e] e show ?thesis by (auto split: option.splits)
qed

text \<open>
  In any other order it is not: a version conflict after another operation leaves that
  operation applied. Here the saved scope stays although the transaction is refused.
\<close>

theorem refused_transaction_leaves_traces:
  "case executeTransaction
      [SaveScope \<lparr>vs_id = ''v'', vs_parentScopeId = None, vs_variables = []\<rparr>,
       UpdateInstance (sample_instance\<lparr>pi_version := Some 7\<rparr>)]
      (createInstance sample_instance empty_store) of
     (s', r) \<Rightarrow> r = Some (ConcurrentModificationError ''i1'') \<and> getScope ''v'' s' \<noteq> None"
  by (simp add: sample_instance_def createInstance_def empty_store_def updateInstance_def current_version_def
      store_defs)

end
