(* ===== verification/Js_Values.thy ===== *)
theory Js_Values
  imports Model_Types
begin

text \<open>
  The operations of JavaScript on plain values that several components use: \<open>String(v)\<close>,
  \<open>JSON.stringify\<close>, property access, \<open>trim\<close> and the iteration of an array. The decimal notation of a
  number is the parameter \<open>num\<close>.
\<close>

section \<open>Strings\<close>

fun comma_list :: "string list \<Rightarrow> string" where
  "comma_list [] = []"
| "comma_list [x] = x"
| "comma_list (x # y # xs) = x @ '','' @ comma_list (y # xs)"

text \<open>\<open>String(v)\<close>.\<close>

fun js_string :: "(rat \<Rightarrow> string) \<Rightarrow> jsval \<Rightarrow> string"
  and array_texts :: "(rat \<Rightarrow> string) \<Rightarrow> jsval list \<Rightarrow> string list" where
  "js_string num JUndefined = ''undefined''"
| "js_string num JNull = ''null''"
| "js_string num (JBool b) = (if b then ''true'' else ''false'')"
| "js_string num (JNumber NotANumber) = ''NaN''"
| "js_string num (JNumber (Infinite neg)) = (if neg then ''-Infinity'' else ''Infinity'')"
| "js_string num (JNumber (Finite q)) = num q"
| "js_string num (JString s) = s"
| "js_string num (JArray xs) = comma_list (array_texts num xs)"
| "js_string num (JObject _) = ''[object Object]''"
| "array_texts num [] = []"
| "array_texts num (x # xs) = (if x = JUndefined \<or> x = JNull then [] else js_string num x) # array_texts num xs"

section \<open>JSON texts\<close>

definition json_hex :: "nat \<Rightarrow> char" where
  "json_hex n = ''0123456789abcdef'' ! n"

definition json_escape :: "char \<Rightarrow> string" where
  "json_escape c =
     (let n = of_char c :: nat in
      if n = 34 \<or> n = 92 then [char_of (92::nat), c]
      else if n = 8 then [char_of (92::nat), CHR ''b'']
      else if n = 9 then [char_of (92::nat), CHR ''t'']
      else if n = 10 then [char_of (92::nat), CHR ''n'']
      else if n = 12 then [char_of (92::nat), CHR ''f'']
      else if n = 13 then [char_of (92::nat), CHR ''r'']
      else if n < 32 then char_of (92::nat) # ''u00'' @ [json_hex (n div 16), json_hex (n mod 16)]
      else [c])"

definition json_string :: "string \<Rightarrow> string" where
  "json_string s = char_of (34::nat) # concat (map json_escape s) @ [char_of (34::nat)]"

text \<open>A missing text stands for the property that \<open>JSON.stringify\<close> leaves out.\<close>

fun json_text :: "(rat \<Rightarrow> string) \<Rightarrow> jsval \<Rightarrow> string option"
  and json_items :: "(rat \<Rightarrow> string) \<Rightarrow> jsval list \<Rightarrow> string list"
  and json_members :: "(rat \<Rightarrow> string) \<Rightarrow> (string \<times> jsval) list \<Rightarrow> string list" where
  "json_text num JUndefined = None"
| "json_text num JNull = Some ''null''"
| "json_text num (JBool b) = Some (if b then ''true'' else ''false'')"
| "json_text num (JNumber n) = Some (case n of Finite q \<Rightarrow> num q | _ \<Rightarrow> ''null'')"
| "json_text num (JString s) = Some (json_string s)"
| "json_text num (JArray xs) = Some (''['' @ comma_list (json_items num xs) @ '']'')"
| "json_text num (JObject ms) = Some (''{'' @ comma_list (json_members num ms) @ ''}'')"
| "json_items num [] = []"
| "json_items num (x # xs) =
     (case json_text num x of Some t \<Rightarrow> t | None \<Rightarrow> ''null'') # json_items num xs"
| "json_members num [] = []"
| "json_members num ((k, x) # ms) =
     (case json_text num x of Some t \<Rightarrow> [json_string k @ '':'' @ t] | None \<Rightarrow> []) @ json_members num ms"

section \<open>Properties and iteration\<close>

text \<open>
  \<open>v[key]\<close> for a key that is no method of a primitive or an array: a \<open>TypeError\<close> on null and undefined.
\<close>

fun property :: "jsval \<Rightarrow> string \<Rightarrow> engine_error + jsval" where
  "property JUndefined k = Inl TypeFault"
| "property JNull k = Inl TypeFault"
| "property (JObject ms) k = Inr (case map_of ms k of Some v \<Rightarrow> v | None \<Rightarrow> JUndefined)"
| "property _ k = Inr JUndefined"

text \<open>\<open>v ?? d\<close>.\<close>

definition nullish_or :: "jsval \<Rightarrow> jsval \<Rightarrow> jsval" where
  "nullish_or v d = (if v = JUndefined \<or> v = JNull then d else v)"

text \<open>\<open>a ?? b ?? \<dots>\<close> on optional values.\<close>

fun first_some :: "'a option list \<Rightarrow> 'a option" where
  "first_some [] = None"
| "first_some (Some x # xs) = Some x"
| "first_some (None # xs) = first_some xs"

text \<open>What \<open>for (const x of v)\<close> runs over.\<close>

fun iterate :: "jsval \<Rightarrow> engine_error + jsval list" where
  "iterate (JArray xs) = Inr xs"
| "iterate (JString s) = Inr (map (\<lambda>c. JString [c]) s)"
| "iterate _ = Inl TypeFault"

definition js_space :: "char \<Rightarrow> bool" where
  "js_space c = (let n = of_char c :: nat in 9 \<le> n \<and> n \<le> 13 \<or> n = 32 \<or> n = 160)"

definition js_trim :: "string \<Rightarrow> string" where
  "js_trim s = rev (dropWhile js_space (rev (dropWhile js_space s)))"

text \<open>\<open>toLowerCase\<close> on the characters of Latin-1.\<close>

definition js_lower_char :: "char \<Rightarrow> char" where
  "js_lower_char c = (let n = of_char c :: nat in
     if 65 \<le> n \<and> n \<le> 90 \<or> 192 \<le> n \<and> n \<le> 222 \<and> n \<noteq> 215 then char_of (n + 32) else c)"

definition js_lower :: "string \<Rightarrow> string" where
  "js_lower s = map js_lower_char s"

text \<open>\<open>s.includes(pat)\<close>.\<close>

fun contains_text :: "string \<Rightarrow> string \<Rightarrow> bool" where
  "contains_text pat [] = (pat = [])"
| "contains_text pat (c # cs) = (take (length pat) (c # cs) = pat \<or> contains_text pat cs)"

definition ends_with :: "string \<Rightarrow> string \<Rightarrow> bool" where
  "ends_with pat s \<longleftrightarrow> take (length pat) (rev s) = rev pat"

section \<open>Results without divergence\<close>

definition sbind :: "'e + 'a \<Rightarrow> ('a \<Rightarrow> 'e + 'b) \<Rightarrow> 'e + 'b" where
  "sbind m f = (case m of Inl e \<Rightarrow> Inl e | Inr x \<Rightarrow> f x)"

fun smap :: "('a \<Rightarrow> 'e + 'b) \<Rightarrow> 'a list \<Rightarrow> 'e + 'b list" where
  "smap f [] = Inr []"
| "smap f (x # xs) = sbind (f x) (\<lambda>y. sbind (smap f xs) (\<lambda>ys. Inr (y # ys)))"

lemma sbind_simps [simp]: "sbind (Inl e) f = Inl e" "sbind (Inr x) f = f x"
  by (simp_all add: sbind_def)

lemma sbind_ok [res_simps]: "sbind m f = Inr y \<longleftrightarrow> (\<exists>x. m = Inr x \<and> f x = Inr y)"
  by (cases m) simp_all

lemma smap_cong [fundef_cong]:
  "xs = ys \<Longrightarrow> (\<And>x. x \<in> set ys \<Longrightarrow> f x = g x) \<Longrightarrow> smap f xs = smap g ys"
  by (induction ys arbitrary: xs) auto

lemma sbind_cong [fundef_cong]:
  "m = n \<Longrightarrow> (\<And>x. n = Inr x \<Longrightarrow> f x = g x) \<Longrightarrow> sbind m f = sbind n g"
  by (cases n) auto

lemma smap_ok: "smap f xs = Inr ys \<longleftrightarrow> list_all2 (\<lambda>x y. f x = Inr y) xs ys"
  by (induction xs arbitrary: ys) (auto simp: sbind_ok list_all2_Cons1)

lemma smap_all: "(\<And>x. x \<in> set xs \<Longrightarrow> f x = Inr (g x)) \<Longrightarrow> smap f xs = Inr (map g xs)"
  by (induction xs) auto

text \<open>What a loop over a property visits is smaller than the object: recursion into it ends.\<close>

lemma property_size: "property v k = Inr w \<Longrightarrow> size w \<le> size v"
proof (cases v)
  case (JObject ms)
  assume p: "property v k = Inr w"
  show ?thesis
  proof (cases "map_of ms k")
    case (Some u)
    then have "(k, u) \<in> set ms" by (rule map_of_SomeD)
    then have "size u \<le> size_list (size_prod (\<lambda>_. 0) size) ms"
      by (induction ms) (auto simp: size_prod_def)
    with p JObject Some show ?thesis by simp
  qed (use p JObject in auto)
qed auto

lemma iterate_size: "iterate v = Inr xs \<Longrightarrow> x \<in> set xs \<Longrightarrow> size x < size v \<or> (\<exists>c. x = JString [c])"
  by (cases v) (auto simp: less_Suc_eq_le dest: size_list_estimation'[of _ _ _ size])

end
