(* ===== verification/Derive_History.thy ===== *)
theory Derive_History
  imports Engine_Correctness Context_Correctness State_Store Js_Values "HOL-Library.Product_Lexorder"
begin

text \<open>
  \<open>deriveHistory.ts\<close> and \<open>historyOps.ts\<close>: the history entries one execution cycle produced, read off
  the states before and after. The snapshot's size is that of its JSON text, which is modelled up
  to the decimal notation of a number: \<open>num\<close> is \<open>Number.prototype.toString\<close>. The key order of a
  JSON object does not change its length and is not modelled.
\<close>

section \<open>The length of a snapshot\<close>

fun variable_type_name :: "variable_type \<Rightarrow> string" where
  "variable_type_name VString = ''string''"
| "variable_type_name VNumber = ''number''"
| "variable_type_name VBoolean = ''boolean''"
| "variable_type_name VObject = ''object''"
| "variable_type_name VArray = ''array''"
| "variable_type_name VNull = ''null''"

definition variable_json :: "variable_value \<Rightarrow> jsval" where
  "variable_json v = JObject [(''type'', JString (variable_type_name (vv_type v))), (''value'', vv_value v)]"

definition variables_json_length :: "(rat \<Rightarrow> string) \<Rightarrow> variables \<Rightarrow> nat" where
  "variables_json_length num vars =
     (case json_text num (JObject (map (\<lambda>(k, v). (k, variable_json v)) vars)) of
        Some t \<Rightarrow> length t | None \<Rightarrow> 0)"

section \<open>Snapshots\<close>

lemma map_of_snd: "map_of m k = Some v \<Longrightarrow> v \<in> snd ` set m"
  by (force dest: map_of_SomeD)

text \<open>
  The walk up the scopes, which unlike \<open>resolveScope\<close> stops at a scope it has already seen, and so
  always ends.
\<close>

function snapshot_chain ::
  "(string \<times> variable_scope) list \<Rightarrow> string option \<Rightarrow> variable_scope list \<Rightarrow> variable_scope list" where
  "snapshot_chain m i chain =
     (if truthy i then
        (case map_of m (the i) of
           None \<Rightarrow> chain
         | Some s \<Rightarrow> if s \<in> set chain then chain else snapshot_chain m (vs_parentScopeId s) (chain @ [s]))
      else chain)"
  by pat_completeness auto

termination
proof (relation "measure (\<lambda>(m, i, chain). card (snd ` set m - set chain))")
  fix m :: "(string \<times> variable_scope) list" and i chain s
  assume s: "map_of m (the i) = Some s" "s \<notin> set chain"
  have "snd ` set m - set (chain @ [s]) = (snd ` set m - set chain) - {s}" by auto
  moreover have "s \<in> snd ` set m - set chain" using s map_of_snd by auto
  ultimately show "((m, vs_parentScopeId s, chain @ [s]), m, i, chain) \<in>
      measure (\<lambda>(m, i, chain). card (snd ` set m - set chain))"
    using card_Diff1_less[of "snd ` set m - set chain" s] by simp
qed simp

declare snapshot_chain.simps [simp del]

definition MAX_SNAPSHOT_BYTES :: nat where
  "MAX_SNAPSHOT_BYTES = 64 * 1024"

definition snapshotFor ::
  "(rat \<Rightarrow> string) \<Rightarrow> nat \<Rightarrow> (string \<times> variable_scope) list \<Rightarrow> string \<Rightarrow> variables option" where
  "snapshotFor num maxBytes scopes scopeId =
     (let merged = fold (\<lambda>s merged. assign merged (vs_variables s)) (rev (snapshot_chain scopes (Some scopeId) [])) []
      in if merged = [] then None
         else if maxBytes < variables_json_length num merged then None
         else Some merged)"

section \<open>Entries\<close>

definition threw_error :: "execution_event list \<Rightarrow> string \<Rightarrow> bool" where
  "threw_error events i \<longleftrightarrow> list_ex (\<lambda>e. case e of ErrorThrown _ tokenId _ _ \<Rightarrow> tokenId = i | _ \<Rightarrow> False) events"

text \<open>The map \<open>forcedBy\<close>: the last \<open>StepForced\<close> event of a token.\<close>

fun forced_by :: "execution_event list \<Rightarrow> (string \<times> forced_info) list \<Rightarrow> (string \<times> forced_info) list" where
  "forced_by [] m = m"
| "forced_by (StepForced _ tokenId _ action by_whom reason onBehalfOf # es) m =
     forced_by es (AList.update tokenId
       \<lparr>fi_action = action, fi_by = by_whom, fi_reason = reason,
        fi_onBehalfOf = (if truthy onBehalfOf then onBehalfOf else None)\<rparr> m)"
| "forced_by (_ # es) m = forced_by es m"

definition old_tokens :: "engine_state option \<Rightarrow> token list" where
  "old_tokens old = (case old of Some s \<Rightarrow> st_tokens s | None \<Rightarrow> [])"

definition was_over :: "engine_state option \<Rightarrow> string \<Rightarrow> bool" where
  "was_over old i \<longleftrightarrow> i \<in> tk_id ` set (filter is_over (old_tokens old))"

definition history_entry_of ::
  "(rat \<Rightarrow> string) \<Rightarrow> nat \<Rightarrow> engine_state \<Rightarrow> execution_event list \<Rightarrow> token \<Rightarrow> history_entry" where
  "history_entry_of num maxBytes new events t =
     \<lparr>he_id = tk_id t, he_instanceId = pi_id (st_instance new), he_tokenId = tk_id t,
      he_elementId = tk_elementId t, he_elementType = tk_elementType t,
      he_status = (if threw_error events (tk_id t) then HError
        else if tk_status t = Completed then HCompleted else HCancelled),
      he_startedAt = tk_createdAt t, he_completedAt = tk_updatedAt t,
      he_variablesSnapshot = snapshotFor num maxBytes (map_from vs_id (st_scopes new)) (tk_scopeId t),
      he_forced = map_of (forced_by events []) (tk_id t)\<rparr>"

definition deriveHistory ::
  "(rat \<Rightarrow> string) \<Rightarrow> engine_state option \<Rightarrow> engine_state \<Rightarrow> execution_event list \<Rightarrow> nat option
     \<Rightarrow> history_entry list" where
  "deriveHistory num old new events maxSnapshotBytes =
     (let maxBytes = (case maxSnapshotBytes of Some n \<Rightarrow> n | None \<Rightarrow> MAX_SNAPSHOT_BYTES);
          entries = map (history_entry_of num maxBytes new events)
            (filter (\<lambda>t. \<not> was_over old (tk_id t) \<and> is_over t) (st_tokens new))
      in sort_key (\<lambda>e. (he_completedAt e, he_startedAt e)) entries)"

definition historyOps ::
  "(rat \<Rightarrow> string) \<Rightarrow> engine_state option \<Rightarrow> engine_state \<Rightarrow> execution_event list \<Rightarrow> store_operation list" where
  "historyOps num old new events = map AppendHistory (deriveHistory num old new events None)"

section \<open>What is recorded\<close>

lemma deriveHistory_ids:
  "mset (map he_tokenId (deriveHistory num old new events mx)) =
   mset (map tk_id (filter (\<lambda>t. \<not> was_over old (tk_id t) \<and> is_over t) (st_tokens new)))"
  by (simp add: deriveHistory_def Let_def comp_def history_entry_of_def image_mset.compositionality)

text \<open>
  One cycle's history is in order (by the time a visit ended, then by when it began) and has
  exactly one entry for each token that is over now and was not over before.
\<close>

theorem history_of_a_cycle:
  "sorted (map (\<lambda>e. (he_completedAt e, he_startedAt e)) (deriveHistory num old new events mx)) \<and>
   mset (map he_tokenId (deriveHistory num old new events mx)) =
     mset (map tk_id (filter (\<lambda>t. is_over t \<and> tk_id t \<notin> tk_id ` set (filter is_over (old_tokens old)))
       (st_tokens new)))"
  unfolding deriveHistory_ids by (simp add: deriveHistory_def Let_def was_over_def conj_commute)

lemma over_ids_split:
  assumes "distinct (map tk_id ts)" "distinct (map tk_id us)"
    and kept: "\<And>t. t \<in> set ts \<Longrightarrow> is_over t \<Longrightarrow> t \<in> set us"
  shows "mset (map tk_id (filter is_over us)) =
    mset (map tk_id (filter is_over ts)) +
    mset (map tk_id (filter (\<lambda>t. tk_id t \<notin> tk_id ` set (filter is_over ts) \<and> is_over t) us))"
    (is "mset (map tk_id ?U) = mset (map tk_id ?T) + mset (map tk_id ?N)")
proof -
  have d: "distinct (map tk_id (filter P xs))" if "distinct (map tk_id xs)" for P and xs :: "token list"
    using that by (rule distinct_map_filter)
  have "set (map tk_id ?U) = set (map tk_id (?T @ ?N))"
    using kept by auto
  moreover have "distinct (map tk_id (?T @ ?N))"
    using d[OF assms(1)] d[OF assms(2)] by (auto simp: image_iff)
  ultimately have "mset (map tk_id ?U) = mset (map tk_id (?T @ ?N))"
    using d[OF assms(2)] set_eq_iff_mset_eq_distinct by blast
  then show ?thesis by simp
qed

lemma over_not_live: "is_over t \<Longrightarrow> \<not> is_live t"
  by (auto simp: is_over_def is_live_def)

definition recorded :: "history_entry list \<Rightarrow> engine_state option \<Rightarrow> bool" where
  "recorded h st \<longleftrightarrow> mset (map he_tokenId h) = mset (map tk_id (filter is_over (old_tokens st)))"


definition started_entry :: history_entry where
  "started_entry = history_entry_of (\<lambda>_. []) 0 review_started [] (token_of ''xxx'' ''s'' StartEventT Completed None)"


section \<open>Snapshots and variable lookup\<close>

lemma snapshot_chain_path:
  assumes "scope_path m k ss" "k \<noteq> []" "distinct ss" "set acc \<inter> set ss = {}"
  shows "snapshot_chain m (Some k) acc = acc @ ss"
  using assms
proof (induction arbitrary: acc rule: scope_path.induct)
  case (path_unknown k)
  then show ?case by (subst snapshot_chain.simps) simp
next
  case (path_root k s)
  then show ?case
    by (subst snapshot_chain.simps) (auto simp: snapshot_chain.simps[of m "vs_parentScopeId s"])
next
  case (path_parent k s ss)
  then obtain p where p: "vs_parentScopeId s = Some p" "p \<noteq> []" by (auto dest: truthy_Some)
  have "snapshot_chain m (Some p) (acc @ [s]) = (acc @ [s]) @ ss"
    using path_parent p by auto
  with path_parent p show ?case by (subst snapshot_chain.simps) auto
qed

lemma scope_path_ids:
  "scope_path m k ss \<Longrightarrow> (\<And>j u. map_of m j = Some u \<Longrightarrow> vs_id u = j) \<Longrightarrow>
     (\<And>j u q. map_of m j = Some u \<Longrightarrow> vs_parentScopeId u = Some q \<Longrightarrow> rank q < (rank j :: nat)) \<Longrightarrow>
     distinct ss \<and> (\<forall>x\<in>set ss. rank (vs_id x) \<le> rank k)"
proof (induction rule: scope_path.induct)
  case (path_parent k s ss)
  then obtain p where p: "vs_parentScopeId s = Some p" by (auto dest: truthy_Some)
  have "rank p < rank k" using path_parent.prems(2)[OF path_parent.hyps(1) p] .
  moreover have "vs_id s = k" using path_parent.prems(1) path_parent.hyps(1) by blast
  moreover have "distinct ss \<and> (\<forall>x\<in>set ss. rank (vs_id x) \<le> rank p)"
    using path_parent.IH[OF path_parent.prems] p by simp
  ultimately show ?case by fastforce
qed auto

text \<open>
  The snapshot of a history entry agrees with the engine: in a context whose scopes form a
  forest it is exactly what \<open>resolveScope\<close> gives for the token's scope, unless there are no
  variables or their JSON text is longer than the bound.
\<close>

theorem snapshot_is_resolved_scope:
  assumes "wf_scopes c" "k \<noteq> []"
  shows "\<exists>vars. resolveScope k c = Some (Inr vars) \<and>
    snapshotFor num mx (cx_scopeMap c) k =
      (if vars = [] \<or> mx < variables_json_length num vars then None else Some vars)"
proof -
  obtain rank :: "string \<Rightarrow> nat" where r: "\<And>j u q. map_of (cx_scopeMap c) j = Some u \<Longrightarrow>
      vs_parentScopeId u = Some q \<Longrightarrow> rank q < rank j"
    using assms unfolding wf_scopes_def scope_tree_def by blast
  obtain ss where p: "scope_path (cx_scopeMap c) k ss"
    using assms scope_path_exists[of "cx_scopeMap c"] unfolding wf_scopes_def by blast
  have "\<And>j u. map_of (cx_scopeMap c) j = Some u \<Longrightarrow> vs_id u = j"
    using assms(1) unfolding wf_scopes_def by blast
  from scope_path_ids[OF p this r] have "distinct ss" by simp
  with snapshot_chain_path[OF p assms(2), of "[]"] have "snapshot_chain (cx_scopeMap c) (Some k) [] = ss" by simp
  with resolveScope_on_path[OF p] show ?thesis by (simp add: snapshotFor_def merge_chain_def Let_def)
qed

theorem snapshot_is_resolved_scope_witness:
  "\<exists>vars. resolveScope ''c'' two_scopes = Some (Inr vars) \<and>
     snapshotFor (\<lambda>_. []) 0 (cx_scopeMap two_scopes) ''c'' =
       (if vars = [] \<or> 0 < variables_json_length (\<lambda>_. []) vars then None else Some vars)"
  using snapshot_is_resolved_scope[OF two_scopes_wf, of "''c''" "\<lambda>_. []" 0] by simp

end
