(* ===== verification/Persistence.thy ===== *)
theory Persistence
  imports Derive_History
begin

text \<open>
  \<open>http/engineHelpers.ts\<close> of \<open>nexus-workflow-app\<close>: the conversion of variables at the HTTP boundary,
  loading an engine state from the store, the store operations that persist an engine result, and
  the creation of user task records. \<open>stamp\<close> is the time of \<open>new Date()\<close>; \<open>uuid\<close> and \<open>clock\<close> give the
  ids and times of the tasks one call creates; \<open>num\<close> is the decimal notation of a number and
  \<open>parse_date\<close> the \<open>Date\<close> constructor on a string.
\<close>

section \<open>Variables\<close>

text \<open>\<open>Object.fromEntries\<close>.\<close>

definition from_entries :: "(string \<times> jsval) list \<Rightarrow> (string \<times> jsval) list" where
  "from_entries es = assign [] es"

text \<open>\<open>v !== null && typeof v === 'object' && 'type' in v && 'value' in v\<close>; an array has neither key.\<close>

fun is_wrapped :: "jsval \<Rightarrow> bool" where
  "is_wrapped (JObject ms) = (map_of ms ''type'' \<noteq> None \<and> map_of ms ''value'' \<noteq> None)"
| "is_wrapped _ = False"

fun raw_type :: "jsval \<Rightarrow> string" where
  "raw_type JUndefined = ''undefined''"
| "raw_type JNull = ''null''"
| "raw_type (JBool _) = ''boolean''"
| "raw_type (JNumber _) = ''number''"
| "raw_type (JString _) = ''string''"
| "raw_type (JArray _) = ''array''"
| "raw_type (JObject _) = ''object''"

definition wrap :: "jsval \<Rightarrow> jsval" where
  "wrap v = (if is_wrapped v then v else JObject [(''type'', JString (raw_type v)), (''value'', v)])"

definition normalizeVariables :: "(string \<times> jsval) list \<Rightarrow> (string \<times> jsval) list" where
  "normalizeVariables raw = from_entries (map (\<lambda>(k, v). (k, wrap v)) raw)"

text \<open>\<open>v.value\<close>: a \<open>TypeError\<close> on null and undefined, undefined where there is no such property.\<close>

fun value_property :: "jsval \<Rightarrow> engine_error + jsval" where
  "value_property JUndefined = Inl TypeFault"
| "value_property JNull = Inl TypeFault"
| "value_property (JObject ms) = Inr (case map_of ms ''value'' of Some v \<Rightarrow> v | None \<Rightarrow> JUndefined)"
| "value_property _ = Inr JUndefined"

fun unwrap_entries :: "(string \<times> jsval) list \<Rightarrow> engine_error + (string \<times> jsval) list" where
  "unwrap_entries [] = Inr []"
| "unwrap_entries ((k, v) # vs) =
     (case value_property v of
        Inl e \<Rightarrow> Inl e
      | Inr x \<Rightarrow> (case unwrap_entries vs of Inl e \<Rightarrow> Inl e | Inr xs \<Rightarrow> Inr ((k, x) # xs)))"

definition unwrapVariables :: "(string \<times> jsval) list \<Rightarrow> engine_error + (string \<times> jsval) list" where
  "unwrapVariables vars =
     (case unwrap_entries vars of Inl e \<Rightarrow> Inl e | Inr xs \<Rightarrow> Inr (from_entries xs))"

section \<open>Loading\<close>

definition loadEngineState :: "string \<Rightarrow> store \<Rightarrow> engine_state option" where
  "loadEngineState instanceId s =
     (case getInstance instanceId s of
        None \<Rightarrow> None
      | Some i \<Rightarrow>
          let tokens = store_getAllTokens instanceId s;
              scopeIds = set_from (pi_rootScopeId i # map tk_scopeId tokens)
          in Some \<lparr>st_instance = i, st_tokens = tokens,
                st_scopes = List.map_filter (\<lambda>k. getScope k s) scopeIds,
                st_gatewayJoinStates = listGatewayStates instanceId s,
                st_compensationRecords = listCompensationRecords instanceId s\<rparr>)"

section \<open>Saving\<close>

definition old_joins :: "engine_state option \<Rightarrow> gateway_join_state list" where
  "old_joins old = (case old of Some s \<Rightarrow> st_gatewayJoinStates s | None \<Rightarrow> [])"

definition old_records :: "engine_state option \<Rightarrow> compensation_record list" where
  "old_records old = (case old of Some s \<Rightarrow> st_compensationRecords s | None \<Rightarrow> [])"

text \<open>The template string that keys a join state here: the gateway first.\<close>

definition diffKey :: "gateway_join_state \<Rightarrow> string" where
  "diffKey g = js_gatewayId g @ ''::'' @ js_instanceId g"

definition joinOps :: "engine_state option \<Rightarrow> engine_state \<Rightarrow> store_operation list" where
  "joinOps old new =
     (let newGwKeys = map diffKey (st_gatewayJoinStates new)
      in map SaveGatewayState (st_gatewayJoinStates new) @
         map (\<lambda>g. DeleteGatewayState (js_gatewayId g) (js_instanceId g))
           (filter (\<lambda>g. diffKey g \<notin> set newGwKeys) (old_joins old)))"

text \<open>The wait of a token that needs a subscription.\<close>

definition subscribes :: "token \<Rightarrow> subscription_type option" where
  "subscribes t =
     (if tk_status t \<noteq> Waiting then None
      else case tk_waitingFor t of
          None \<Rightarrow> None
        | Some w \<Rightarrow> (case wc_type w of WaitMessage \<Rightarrow> Some SubMessage | WaitSignal \<Rightarrow> Some SubSignal | _ \<Rightarrow> None))"

text \<open>\<open>data[key] ? { ... data[key] as string }\<close>: the engine writes strings there.\<close>

definition correlation_name :: "string \<Rightarrow> token \<Rightarrow> string option" where
  "correlation_name key t =
     (case tk_waitingFor t of
        None \<Rightarrow> None
      | Some w \<Rightarrow>
          (case map_of (case wc_correlationData w of Some d \<Rightarrow> d | None \<Rightarrow> []) key of
             Some (JString x) \<Rightarrow> if x = [] then None else Some x
           | _ \<Rightarrow> None))"

definition subscription_for :: "int \<Rightarrow> subscription_type \<Rightarrow> token \<Rightarrow> event_subscription" where
  "subscription_for stamp ty t =
     \<lparr>es_id = ''sub-'' @ tk_id t, es_instanceId = tk_instanceId t, es_tokenId = tk_id t, es_type = ty,
      es_messageName = (if ty = SubMessage then correlation_name ''messageName'' t else None),
      es_signalName = (if ty = SubSignal then correlation_name ''signalName'' t else None),
      es_correlationValue = None, es_errorCode = None, es_timerId = None, es_status = SubActive,
      es_createdAt = stamp\<rparr>"

definition was_waiting :: "token list \<Rightarrow> string \<Rightarrow> bool" where
  "was_waiting ts i \<longleftrightarrow> pred_option (\<lambda>t. tk_status t = Waiting) (map_of (map_from tk_id ts) i) \<and>
     map_of (map_from tk_id ts) i \<noteq> None"

definition subscriptionOps :: "int \<Rightarrow> engine_state option \<Rightarrow> engine_state \<Rightarrow> store_operation list" where
  "subscriptionOps stamp old new =
     List.map_filter (\<lambda>t.
         case subscribes t of
           None \<Rightarrow> None
         | Some ty \<Rightarrow> if was_waiting (old_tokens old) (tk_id t) then None
                       else Some (SaveSubscription (subscription_for stamp ty t)))
       (st_tokens new) @
     List.map_filter (\<lambda>t.
         if subscribes t \<noteq> None \<and> \<not> was_waiting (st_tokens new) (tk_id t)
         then Some (DeleteSubscription (''sub-'' @ tk_id t)) else None)
       (old_tokens old)"

definition compensationOps :: "engine_state option \<Rightarrow> engine_state \<Rightarrow> store_operation list" where
  "compensationOps old new =
     (let oldCompKeys = map cr_tokenId (old_records old);
          newCompKeys = map cr_tokenId (st_compensationRecords new)
      in map SaveCompensationRecord (filter (\<lambda>r. cr_tokenId r \<notin> set oldCompKeys) (st_compensationRecords new)) @
         map (\<lambda>r. DeleteCompensationRecord (cr_instanceId r) (cr_tokenId r))
           (filter (\<lambda>r. cr_tokenId r \<notin> set newCompKeys) (old_records old)))"

definition computeStoreOps ::
  "(rat \<Rightarrow> string) \<Rightarrow> int \<Rightarrow> bool \<Rightarrow> engine_state option \<Rightarrow> engine_state \<Rightarrow> execution_event list
     \<Rightarrow> store_operation list" where
  "computeStoreOps num stamp isNew old new events =
     [if isNew then CreateInstance (st_instance new) else UpdateInstance (st_instance new),
      SaveTokens (st_tokens new)] @
     map SaveScope (st_scopes new) @
     joinOps old new @
     subscriptionOps stamp old new @
     compensationOps old new @
     historyOps num old new events"

section \<open>User tasks\<close>

text \<open>
  The regular expression \<open>/\$\{([^}]+)\}/\<close> at one position: what follows the dollar sign is an opening
  brace, a name of at least one character, and the first closing brace.
\<close>

fun placeholder :: "string \<Rightarrow> (string \<times> string) option" where
  "placeholder [] = None"
| "placeholder (c # cs) =
     (let name = takeWhile (\<lambda>x. x \<noteq> CHR ''}'') cs; rest = dropWhile (\<lambda>x. x \<noteq> CHR ''}'') cs
      in if c = CHR ''{'' \<and> name \<noteq> [] \<and> rest \<noteq> [] then Some (name, tl rest) else None)"

lemma placeholder_shorter: "placeholder cs = Some (name, rest) \<Longrightarrow> length rest < length cs"
proof (cases cs)
  case (Cons c ds)
  assume "placeholder cs = Some (name, rest)"
  with Cons have "rest = tl (dropWhile (\<lambda>x. x \<noteq> CHR ''}'') ds)" by (auto simp: Let_def split: if_splits)
  with Cons show ?thesis using length_dropWhile_le[of "\<lambda>x. x \<noteq> CHR ''}''" ds] by simp
qed simp

text \<open>\<open>expr.replace(regex, f)\<close> with the global flag.\<close>

function replace_all :: "(string \<Rightarrow> string) \<Rightarrow> string \<Rightarrow> string" where
  "replace_all f [] = []"
| "replace_all f (c # cs) =
     (case (if c = CHR ''$'' then placeholder cs else None) of
        Some (name, rest) \<Rightarrow> f name @ replace_all f rest
      | None \<Rightarrow> c # replace_all f cs)"
  by pat_completeness auto

termination
  by (relation "measure (\<lambda>(f, cs). length cs)")
     (auto dest: placeholder_shorter split: if_splits)

text \<open>
  A name that is not a variable of the root scope makes that placeholder the whole expression again.
  The variables are plain objects; a name of \<open>Object.prototype\<close> is not modelled.
\<close>

definition resolveExpr :: "(rat \<Rightarrow> string) \<Rightarrow> string \<Rightarrow> engine_state \<Rightarrow> string" where
  "resolveExpr num expr st =
     replace_all (\<lambda>name.
       case List.find (\<lambda>s. vs_id s = pi_rootScopeId (st_instance st)) (st_scopes st) of
         None \<Rightarrow> expr
       | Some rootScope \<Rightarrow>
           (case map_of (vs_variables rootScope) name of
              None \<Rightarrow> expr
            | Some v \<Rightarrow> js_string num (vv_value v))) expr"

definition user_task_for ::
  "(rat \<Rightarrow> string) \<Rightarrow> (string \<Rightarrow> int) \<Rightarrow> string \<Rightarrow> int \<Rightarrow> engine_state \<Rightarrow> string \<Rightarrow> string \<Rightarrow> element_base
     \<Rightarrow> user_task_attrs \<Rightarrow> user_task_record" where
  "user_task_for num parse_date uuid stamp st instanceId tokenId b attrs =
     \<lparr>ur_id = uuid, ur_instanceId = instanceId, ur_tokenId = tokenId, ur_elementId = eb_id b,
      ur_name = (case eb_name b of Some n \<Rightarrow> n | None \<Rightarrow> eb_id b), ur_description = None,
      ur_assignee = map_option (\<lambda>a. resolveExpr num a st) (ut_assignee attrs),
      ur_candidateGroups = ut_candidateGroups attrs,
      ur_dueDate = map_option parse_date (ut_dueDate attrs),
      ur_priority = (case ut_priority attrs of Some p \<Rightarrow> p | None \<Rightarrow> 50),
      ur_inputVariables = [], ur_formKey = ut_formKey attrs, ur_status = TaskOpen,
      ur_createdAt = stamp, ur_claimedAt = None, ur_completedAt = None\<rparr>"

text \<open>The \<open>n\<close>-th task of the loop takes the \<open>n\<close>-th id and time. Only top-level elements are searched.\<close>

fun user_task_loop ::
  "(rat \<Rightarrow> string) \<Rightarrow> (string \<Rightarrow> int) \<Rightarrow> (nat \<Rightarrow> string) \<Rightarrow> (nat \<Rightarrow> int) \<Rightarrow> nat \<Rightarrow> execution_event list
     \<Rightarrow> process_definition \<Rightarrow> engine_state \<Rightarrow> store_operation list" where
  "user_task_loop num parse_date uuid clock n [] d st = []"
| "user_task_loop num parse_date uuid clock n (e # es) d st =
     (case e of
        TokenWaiting instanceId tokenId elementId waitingFor \<Rightarrow>
          (case (if wc_type waitingFor = WaitUserTask
                 then List.find (\<lambda>x. el_id x = elementId) (pd_elements d) else None) of
             Some (UserTask b attrs tc) \<Rightarrow>
               CreateUserTask (user_task_for num parse_date (uuid n) (clock n) st instanceId tokenId b attrs)
                 # user_task_loop num parse_date uuid clock (Suc n) es d st
           | _ \<Rightarrow> user_task_loop num parse_date uuid clock n es d st)
      | _ \<Rightarrow> user_task_loop num parse_date uuid clock n es d st)"

definition buildUserTaskCreationOps ::
  "(rat \<Rightarrow> string) \<Rightarrow> (string \<Rightarrow> int) \<Rightarrow> (nat \<Rightarrow> string) \<Rightarrow> (nat \<Rightarrow> int) \<Rightarrow> execution_event list
     \<Rightarrow> process_definition \<Rightarrow> engine_state \<Rightarrow> store_operation list" where
  "buildUserTaskCreationOps num parse_date uuid clock events d st =
     user_task_loop num parse_date uuid clock 0 events d st"

section \<open>The HTTP boundary\<close>

lemma from_entries_distinct: "distinct (map fst es) \<Longrightarrow> from_entries es = es"
proof -
  have "distinct (map fst es) \<Longrightarrow> fst ` set m \<inter> fst ` set es = {} \<Longrightarrow>
      fold (\<lambda>(k, v) m. AList.update k v m) es m = m @ es" for m
    by (induction es arbitrary: m) (auto simp: update_fresh)
  from this[of "[]"] show "distinct (map fst es) \<Longrightarrow> from_entries es = es"
    by (simp add: from_entries_def assign_def)
qed

lemma value_of_wrap:
  "value_property (wrap v) =
     Inr (if is_wrapped v then (case v of JObject ms \<Rightarrow> the (map_of ms ''value'') | _ \<Rightarrow> v) else v)"
  by (cases v) (auto simp: wrap_def)

lemma unwrap_normalized:
  "unwrap_entries (map (\<lambda>(k, v). (k, wrap v)) raw) =
     Inr (map (\<lambda>(k, v). (k, if is_wrapped v then (case v of JObject ms \<Rightarrow> the (map_of ms ''value'') | _ \<Rightarrow> v) else v)) raw)"
  by (induction raw) (auto simp: value_of_wrap)

text \<open>
  Variables survive the HTTP boundary: unwrapping what \<open>normalizeVariables\<close> made of a JSON body
  gives the body back, in order, when no value is an object with both a \<open>type\<close> and a \<open>value\<close> key.
\<close>

theorem unwrap_normalize_roundtrip:
  assumes "distinct (map fst raw)" "list_all (\<lambda>(k, v). \<not> is_wrapped v) raw"
  shows "unwrapVariables (normalizeVariables raw) = Inr raw"
proof -
  have "normalizeVariables raw = map (\<lambda>(k, v). (k, wrap v)) raw"
    unfolding normalizeVariables_def using assms(1)
    by (intro from_entries_distinct) (simp add: comp_def split_beta)
  moreover have "map (\<lambda>(k, v). (k, if is_wrapped v then (case v of JObject ms \<Rightarrow> the (map_of ms ''value'') | _ \<Rightarrow> v) else v)) raw
      = raw"
    using assms(2) by (induction raw) auto
  ultimately show ?thesis
    using assms(1) by (simp add: unwrapVariables_def unwrap_normalized from_entries_distinct)
qed

theorem unwrap_normalize_roundtrip_witness:
  "unwrapVariables (normalizeVariables [(''a'', JString ''x''), (''b'', JArray [JNull]), (''c'', JNull)]) =
     Inr [(''a'', JString ''x''), (''b'', JArray [JNull]), (''c'', JNull)]"
  by (rule unwrap_normalize_roundtrip) simp_all

text \<open>
  An object that happens to have both keys does not survive: it is taken for a wrapped value
  and comes back without its wrapping, whatever its type says.
\<close>

theorem wrapped_objects_are_lost:
  "unwrapVariables (normalizeVariables
     [(''amount'', JObject [(''type'', JString ''EUR''), (''value'', JString ''5''), (''note'', JNull)])]) =
   Inr [(''amount'', JString ''5'')]"
  by (simp add: unwrapVariables_def normalizeVariables_def from_entries_def assign_def wrap_def)

end
