(* ===== verification/Commit_Reload.thy ===== *)
theory Commit_Reload
  imports Persistence
begin

text \<open>
  The engine and the store together: what the app's request handlers do (load an instance, execute
  a command, commit the operations of \<open>computeStoreOps\<close>) gives a store from which the new state is
  loaded again, and a second request that started from the same version is refused. The engine's
  side is four more interpretations of \<open>machine_relation\<close>; the store's side is the frame of each
  operation (\<open>area\<close>) and the laws of its collections.
\<close>

section \<open>The engine's side\<close>

text \<open>Tokens keep their order and new ones come last; scopes stay.\<close>

definition keeps_order :: "ctx \<Rightarrow> ctx \<Rightarrow> bool" where
  "keeps_order c c' \<longleftrightarrow> (\<exists>zs. map fst (cx_tokenMap c') = map fst (cx_tokenMap c) @ zs) \<and> scope_ids c \<subseteq> scope_ids c'"

lemma keeps_order_trans: "keeps_order c d \<Longrightarrow> keeps_order d e \<Longrightarrow> keeps_order c e"
  unfolding keeps_order_def by (metis append.assoc subset_trans)

lemma prim_keeps_order:
  assumes "prim b c c'"
  shows "keeps_order c c'"
proof -
  have "\<exists>zs. map fst (cx_tokenMap c') = map fst (cx_tokenMap c) @ zs"
    using assms by (induction rule: prim.induct) (auto simp: keys_update elim!: mergeVariables_ok)
  then show ?thesis using prim_scope_ids[OF assms] by (simp add: keeps_order_def)
qed

interpretation order: machine_relation b keeps_order for b
proof
  fix c d e c' and ts :: "token list"
  show "mstep b c c' \<Longrightarrow> wf_ctx c \<Longrightarrow> keeps_order c c'"
    by (erule mstep.cases) (use prim_keeps_order in blast, simp add: keeps_order_def)
qed (auto intro: keeps_order_trans simp: keeps_order_def)

text \<open>Join states are kept by gateway and belong to the instance.\<close>

definition joins_ok :: "ctx \<Rightarrow> bool" where
  "joins_ok c \<longleftrightarrow> distinct (map fst (cx_joinStateMap c)) \<and>
     (\<forall>p \<in> set (cx_joinStateMap c). fst p = js_gatewayId (snd p) \<and>
        (\<exists>i. cx_instance c = Some i \<and> js_instanceId (snd p) = pi_id i))"

definition keeps_joins :: "ctx \<Rightarrow> ctx \<Rightarrow> bool" where
  "keeps_joins c c' \<longleftrightarrow> (joins_ok c \<longrightarrow> joins_ok c')"

lemma joins_update:
  assumes "join_update c m" "joins_ok c" "cx_instance c = Some i"
  shows "joins_ok (c\<lparr>cx_joinStateMap := m\<rparr>)"
proof -
  have "js_instanceId g = pi_id i" if "own_instance c (js_instanceId g)" for g
    using that assms(2,3) by (auto simp: own_instance_def joins_ok_def)
  with assms show ?thesis by (fastforce simp: join_update_def joins_ok_def)
qed

lemma joins_frame:
  assumes "cx_joinStateMap c' = cx_joinStateMap c"
    "map_option pi_id (cx_instance c') = map_option pi_id (cx_instance c)"
  shows "keeps_joins c c'"
  using assms unfolding keeps_joins_def joins_ok_def by (cases "cx_instance c"; cases "cx_instance c'") auto

lemma prim_keeps_joins:
  assumes "prim b c c'" "wf_ctx c"
  shows "keeps_joins c c'"
  using assms
proof (cases rule: prim.cases)
  case (prim_join m)
  moreover obtain i where "cx_instance c = Some i" using assms(2) by (auto simp: wf_ctx_def)
  ultimately show ?thesis by (auto simp: keeps_joins_def intro: joins_update)
qed (auto intro!: joins_frame simp: emit_def now_def newId_def saveScope_def updateToken_def
    enqueuePending_def elim!: mergeVariables_ok)

interpretation joins: machine_relation b keeps_joins for b
proof
  fix c d e c' and ts :: "token list"
  show "mstep b c c' \<Longrightarrow> wf_ctx c \<Longrightarrow> keeps_joins c c'"
    by (erule mstep.cases) (use prim_keeps_joins in blast, auto intro!: joins_frame simp: setInstance_def)
  show "keeps_joins c (c\<lparr>cx_pendingQueue := ts\<rparr>)" by (rule joins_frame) simp_all
qed (auto simp: keeps_joins_def)

text \<open>Every inner scope hangs on the scope of some token or on the root scope.\<close>

definition anchored :: "ctx \<Rightarrow> bool" where
  "anchored c \<longleftrightarrow> (\<forall>k x p. map_of (cx_scopeMap c) k = Some x \<longrightarrow> vs_parentScopeId x = Some p \<longrightarrow>
     (\<exists>j t. token_at c j = Some t \<and> tk_scopeId t = p) \<or> (\<exists>i. cx_instance c = Some i \<and> pi_rootScopeId i = p))"

definition keeps_anchors :: "ctx \<Rightarrow> ctx \<Rightarrow> bool" where
  "keeps_anchors c c' \<longleftrightarrow> (anchored c \<longrightarrow> anchored c')"

lemma anchored_step:
  assumes "anchored c" "keeps_visits c c'"
    and "map_option pi_rootScopeId (cx_instance c') = map_option pi_rootScopeId (cx_instance c)"
    and "\<And>k x p. map_of (cx_scopeMap c') k = Some x \<Longrightarrow> vs_parentScopeId x = Some p \<Longrightarrow>
      (\<exists>k x. map_of (cx_scopeMap c) k = Some x \<and> vs_parentScopeId x = Some p) \<or>
      (\<exists>j t. token_at c j = Some t \<and> tk_scopeId t = p)"
  shows "anchored c'"
  unfolding anchored_def
proof (intro allI impI)
  fix k x p assume "map_of (cx_scopeMap c') k = Some x" "vs_parentScopeId x = Some p"
  from assms(4)[OF this] assms(1)
  have "(\<exists>j t. token_at c j = Some t \<and> tk_scopeId t = p) \<or> (\<exists>i. cx_instance c = Some i \<and> pi_rootScopeId i = p)"
    unfolding anchored_def by blast
  then show "(\<exists>j t. token_at c' j = Some t \<and> tk_scopeId t = p) \<or> (\<exists>i. cx_instance c' = Some i \<and> pi_rootScopeId i = p)"
  proof
    assume "\<exists>j t. token_at c j = Some t \<and> tk_scopeId t = p"
    then obtain j t where "token_at c j = Some t" "tk_scopeId t = p" by blast
    with assms(2) obtain u where "token_at c' j = Some u" "same_visit t u" unfolding keeps_visits_def by blast
    with \<open>tk_scopeId t = p\<close> show ?thesis by (metis same_visit_fields(5))
  next
    assume "\<exists>i. cx_instance c = Some i \<and> pi_rootScopeId i = p"
    with assms(3) show ?thesis by (cases "cx_instance c'") auto
  qed
qed

lemma prim_keeps_anchors:
  assumes "prim b c c'" "wf_ctx c"
  shows "keeps_anchors c c'"
  unfolding keeps_anchors_def
proof
  assume "anchored c"
  then show "anchored c'"
  proof (rule anchored_step[OF _ prim_keeps_visits[OF assms]])
    show "map_option pi_rootScopeId (cx_instance c') = map_option pi_rootScopeId (cx_instance c)"
      by (simp add: prim_instance[OF assms(1)])
  next
    fix k x p assume new: "map_of (cx_scopeMap c') k = Some x" "vs_parentScopeId x = Some p"
    from assms(1) show "(\<exists>k x. map_of (cx_scopeMap c) k = Some x \<and> vs_parentScopeId x = Some p) \<or>
        (\<exists>j t. token_at c j = Some t \<and> tk_scopeId t = p)"
    proof cases
      case (prim_scope t s)
      show ?thesis
      proof (cases "k = vs_id s")
        case True
        with new prim_scope have "p = tk_scopeId t" by (simp add: update_conv)
        then show ?thesis using prim_scope(2) unfolding knows_def by (metis same_visit_fields(5))
      next
        case False
        with new prim_scope have "map_of (cx_scopeMap c) k = Some x" by (simp add: update_conv)
        with new show ?thesis by blast
      qed
    next
      case (prim_merge j vars)
      then obtain s where s: "map_of (cx_scopeMap c) j = Some s"
        "c' = c\<lparr>cx_scopeMap := AList.update j (s\<lparr>vs_variables := assign (vs_variables s) vars\<rparr>) (cx_scopeMap c)\<rparr>"
        by (blast elim: mergeVariables_ok)
      with new show ?thesis by (cases "k = j") (auto simp: update_conv)
    qed (use new in auto)
  qed
qed

lemma instance_keeps_anchors:
  assumes "cx_instance c = Some i" "pi_rootScopeId j = pi_rootScopeId i"
  shows "keeps_anchors c (setInstance j c)"
proof -
  have s: "cx_scopeMap (setInstance j c) = cx_scopeMap c" "cx_instance (setInstance j c) = Some j"
    by (simp_all add: setInstance_def)
  have "anchored (setInstance j c)" if "anchored c"
    using that plain_updates_keep(2) by (rule anchored_step) (use assms s in auto)
  then show ?thesis by (simp add: keeps_anchors_def)
qed

interpretation anchors: machine_relation b keeps_anchors for b
proof
  fix c d e c' and ts :: "token list"
  show "keeps_anchors c (c\<lparr>cx_pendingQueue := ts\<rparr>)"
    by (simp add: keeps_anchors_def anchored_def)
  show "mstep b c c' \<Longrightarrow> wf_ctx c \<Longrightarrow> keeps_anchors c c'"
    by (erule mstep.cases) (use prim_keeps_anchors instance_keeps_anchors in blast)+
qed (auto simp: keeps_anchors_def)

section \<open>States that survive the store\<close>

text \<open>
  What a state must be for the store to give it back: well formed, one join state per gateway and all
  of the instance, and no scope that only another scope knows, since loading fetches the root scope
  and the scopes of the tokens.
\<close>

definition storable :: "engine_state \<Rightarrow> bool" where
  "storable s \<longleftrightarrow> wf_state s \<and>
     distinct (map js_gatewayId (st_gatewayJoinStates s)) \<and>
     list_all (\<lambda>g. js_instanceId g = pi_id (st_instance s)) (st_gatewayJoinStates s) \<and>
     pi_rootScopeId (st_instance s) \<in> vs_id ` set (st_scopes s) \<and>
     list_all (\<lambda>x. pred_option (\<lambda>p. p = pi_rootScopeId (st_instance s) \<or> p \<in> tk_scopeId ` set (st_tokens s))
       (vs_parentScopeId x)) (st_scopes s)"

lemma anchored_result:
  assumes "wf_ctx c" "toResult c = Some (Inr (s, evs))" "anchored c" "x \<in> set (st_scopes s)"
  shows "pred_option (\<lambda>p. p = pi_rootScopeId (st_instance s) \<or> p \<in> tk_scopeId ` set (st_tokens s)) (vs_parentScopeId x)"
proof (cases "vs_parentScopeId x")
  case (Some p)
  from assms(1) have d: "distinct (map fst (cx_scopeMap c))" by (simp add: wf_ctx_def wf_scopes_def)
  from assms(2,4) obtain k where "(k, x) \<in> set (cx_scopeMap c)"
    by (auto simp: toResult_ok map_values_def)
  with d have "map_of (cx_scopeMap c) k = Some x" by simp
  with Some assms(3) consider j t where "token_at c j = Some t" "tk_scopeId t = p"
    | i where "cx_instance c = Some i" "pi_rootScopeId i = p"
    unfolding anchored_def by blast
  then show ?thesis
  proof cases
    case 1
    then have "tk_id t = j" using assms(1) by (auto simp: wf_ctx_def wf_tokens_def)
    then have "t \<in> set (st_tokens s)" using 1 result_tokens[OF assms(1,2)] by simp
    with 1 Some show ?thesis by auto
  qed (use assms(2) Some in \<open>auto simp: toResult_ok\<close>)
qed simp

lemma joins_result:
  assumes "toResult c = Some (Inr (s, evs))" "joins_ok c"
  shows "distinct (map js_gatewayId (st_gatewayJoinStates s)) \<and>
     list_all (\<lambda>g. js_instanceId g = pi_id (st_instance s)) (st_gatewayJoinStates s)"
proof -
  have s: "st_gatewayJoinStates s = map_values (cx_joinStateMap c)" "cx_instance c = Some (st_instance s)"
    using assms(1) by (auto simp: toResult_ok)
  have "map js_gatewayId (map_values (cx_joinStateMap c)) = map fst (cx_joinStateMap c)"
    using assms(2) by (intro keyed_map(1)) (fastforce simp: joins_ok_def)
  with assms(2) have "distinct (map js_gatewayId (st_gatewayJoinStates s))"
    unfolding s joins_ok_def by metis
  moreover have "js_instanceId (snd p) = pi_id (st_instance s)" if "p \<in> set (cx_joinStateMap c)" for p
    using that assms(2) s(2) by (auto simp: joins_ok_def)
  ultimately show ?thesis unfolding s by (auto simp: list_all_iff map_values_def)
qed

lemma result_ids:
  assumes "wf_ctx c" "toResult c = Some (Inr (s, evs))"
  shows "map tk_id (st_tokens s) = map fst (cx_tokenMap c)" "vs_id ` set (st_scopes s) = scope_ids c"
proof -
  have k: "\<And>k x. (k, x) \<in> set (cx_tokenMap c) \<Longrightarrow> tk_id x = k"
    "\<And>k x. (k, x) \<in> set (cx_scopeMap c) \<Longrightarrow> vs_id x = k"
    using assms(1) by (auto simp: wf_ctx_def wf_tokens_def wf_scopes_def token_at_def)
  have "map tk_id (map_values (cx_tokenMap c)) = map fst (cx_tokenMap c)"
    "map vs_id (map_values (cx_scopeMap c)) = map fst (cx_scopeMap c)"
    using keyed_map(1)[of "cx_tokenMap c" tk_id] keyed_map(1)[of "cx_scopeMap c" vs_id] k by blast+
  moreover from this(2) have "vs_id ` set (map_values (cx_scopeMap c)) = scope_ids c"
    unfolding scope_ids_def by (metis list.set_map)
  ultimately show "map tk_id (st_tokens s) = map fst (cx_tokenMap c)" "vs_id ` set (st_scopes s) = scope_ids c"
    using assms(2) by (auto simp: toResult_ok)
qed

lemma storable_result:
  assumes "wf_ctx c" "toResult c = Some (Inr (s, evs))" "anchored c" "joins_ok c"
    "\<exists>i. cx_instance c = Some i \<and> pi_rootScopeId i \<in> scope_ids c"
  shows "storable s"
  using anchored_result[OF assms(1-3)] joins_result[OF assms(2,4)] wf_result[OF assms(1,2)]
    result_ids(2)[OF assms(1,2)] assms(2,5)
  by (auto simp: storable_def list_all_iff toResult_ok)

lemma new_context_storable:
  assumes "storable s"
  shows "anchored (new_context (Some s) opts)" "joins_ok (new_context (Some s) opts)"
proof -
  have w: "wf_state s" using assms by (simp add: storable_def)
  note v = new_context_views(2)[OF w, of opts]
  have inst: "cx_instance (new_context (Some s) opts) = Some (st_instance s)" by simp
  show "anchored (new_context (Some s) opts)"
    unfolding anchored_def
  proof (intro allI impI)
    fix k x p assume x: "map_of (cx_scopeMap (new_context (Some s) opts)) k = Some x" "vs_parentScopeId x = Some p"
    then have "x \<in> set (st_scopes s)" using w by (auto simp: v map_of_keyed wf_state_def simp del: new_context.simps)
    with assms x(2) have "p = pi_rootScopeId (st_instance s) \<or> p \<in> tk_scopeId ` set (st_tokens s)"
      by (auto simp: storable_def list_all_iff)
    then show "(\<exists>j t. token_at (new_context (Some s) opts) j = Some t \<and> tk_scopeId t = p) \<or>
        (\<exists>i. cx_instance (new_context (Some s) opts) = Some i \<and> pi_rootScopeId i = p)"
      using inst new_context_token_at[OF w, of opts] by auto
  qed
  show "joins_ok (new_context (Some s) opts)"
    using assms by (auto simp: joins_ok_def storable_def map_from_distinct list_all_iff o_def)
qed

lemma execute_storable:
  assumes "execute d cmd (Some s) opts = Some (Inr (s', evs))" "call_ok opts cmd (Some s)" "storable s"
  shows "storable s'" "\<exists>zs. map tk_id (st_tokens s') = map tk_id (st_tokens s) @ zs"
proof -
  let ?c = "new_context (Some s) opts"
  obtain c' where c': "ran False ?c c'" "toResult c' = Some (Inr (s', evs))" "wf_ctx ?c" "wf_ctx c'"
    using execute_ran[OF assms(1,2), of False] by auto
  then have st: "engine_steps False ?c c'" by (simp add: ran_def)
  note n = new_context_storable[OF assms(3), of opts]
  have k: "keeps_order ?c c'" "joins_ok c'" "anchored c'" "same_instance ?c c'"
    using order.along[OF st c'(3)] joins.along[OF st c'(3)] anchors.along[OF st c'(3)] identity.along[OF st c'(3)] n
    by (auto simp: keeps_joins_def keeps_anchors_def)
  have w: "wf_state s" using assms(3) by (simp add: storable_def)
  have "scope_ids ?c = vs_id ` set (st_scopes s)"
    by (auto simp: scope_ids_def new_context_views[OF w] image_image simp del: new_context.simps)
  with k(1,4) assms(3) have "\<exists>i. cx_instance c' = Some i \<and> pi_rootScopeId i \<in> scope_ids c'"
    by (auto simp: keeps_order_def same_instance_def storable_def)
  with storable_result[OF c'(4,2) k(3,2)] show "storable s'" by blast
  have "map fst (cx_tokenMap ?c) = map tk_id (st_tokens s)"
    by (simp add: new_context_views[OF w] o_def del: new_context.simps)
  with k(1) show "\<exists>zs. map tk_id (st_tokens s') = map tk_id (st_tokens s) @ zs"
    by (simp add: keeps_order_def result_ids[OF c'(4,2)])
qed

lemma execute_start_storable:
  assumes "execute d cmd None opts = Some (Inr (s', evs))" "call_ok opts cmd None"
  shows "storable s'"
proof -
  obtain c0 c' where c: "newborn c0" "steady False c0" "ran False c0 c'" "toResult c' = Some (Inr (s', evs))"
    using execute_start[OF assms, of False] by metis
  have st: "engine_steps False c0 c'" and w: "wf_ctx c0" "wf_ctx c'"
    using c by (simp_all add: ran_def steady_def)
  have n: "anchored c0" "joins_ok c0" "\<exists>i. cx_instance c0 = Some i \<and> pi_rootScopeId i \<in> scope_ids c0"
    using c(1) by (auto simp: newborn_def anchored_def joins_ok_def scope_ids_def split: if_splits)
  have k: "keeps_order c0 c'" "joins_ok c'" "anchored c'" "same_instance c0 c'"
    using order.along[OF st w(1)] joins.along[OF st w(1)] anchors.along[OF st w(1)] identity.along[OF st w(1)] n
    by (auto simp: keeps_joins_def keeps_anchors_def)
  have "\<exists>i. cx_instance c' = Some i \<and> pi_rootScopeId i \<in> scope_ids c'"
    using n(3) k(1,4) by (force simp: keeps_order_def same_instance_def)
  with storable_result[OF w(2) c(4) k(3,2)] show ?thesis by blast
qed

section \<open>The store's side\<close>

datatype area = InstanceArea | TokenArea | ScopeArea | JoinArea | RecordArea | HistoryArea | OtherArea

fun area_of :: "store_operation \<Rightarrow> area" where
  "area_of (CreateInstance _) = InstanceArea"
| "area_of (UpdateInstance _) = InstanceArea"
| "area_of (SaveTokens _) = TokenArea"
| "area_of (SaveScope _) = ScopeArea"
| "area_of (SaveGatewayState _) = JoinArea"
| "area_of (DeleteGatewayState _ _) = JoinArea"
| "area_of (SaveCompensationRecord _) = RecordArea"
| "area_of (DeleteCompensationRecord _ _) = RecordArea"
| "area_of (AppendHistory _) = HistoryArea"
| "area_of _ = OtherArea"

text \<open>What one operation, a group of operations and a whole transaction leave alone.\<close>

lemma saveTokens_Cons: "saveTokens (t # ts) s = saveTokens ts (saveTokens [t] s)"
  by (simp add: saveTokens_def)

lemma saveTokens_keeps:
  "so_instances (saveTokens ts s) = so_instances s" "so_scopes (saveTokens ts s) = so_scopes s"
  "so_gatewayStates (saveTokens ts s) = so_gatewayStates s"
  "so_compensation (saveTokens ts s) = so_compensation s" "so_history (saveTokens ts s) = so_history s"
proof -
  have "so_instances (saveTokens ts s) = so_instances s \<and> so_scopes (saveTokens ts s) = so_scopes s \<and>
      so_gatewayStates (saveTokens ts s) = so_gatewayStates s \<and>
      so_compensation (saveTokens ts s) = so_compensation s \<and> so_history (saveTokens ts s) = so_history s"
  proof (induction ts arbitrary: s)
    case (Cons t ts)
    show ?case using Cons[of "saveTokens [t] s"] by (simp add: saveTokens_Cons[of t ts]) (simp add: saveTokens_def)
  qed (simp add: saveTokens_def)
  then show "so_instances (saveTokens ts s) = so_instances s" "so_scopes (saveTokens ts s) = so_scopes s"
    "so_gatewayStates (saveTokens ts s) = so_gatewayStates s"
    "so_compensation (saveTokens ts s) = so_compensation s" "so_history (saveTokens ts s) = so_history s"
    by simp_all
qed

lemma apply_frame:
  assumes "apply_op op s = Inr s'"
  shows "area_of op \<noteq> InstanceArea \<Longrightarrow> so_instances s' = so_instances s"
    "area_of op \<noteq> TokenArea \<Longrightarrow> so_tokens s' = so_tokens s"
    "area_of op \<noteq> ScopeArea \<Longrightarrow> so_scopes s' = so_scopes s"
    "area_of op \<noteq> JoinArea \<Longrightarrow> so_gatewayStates s' = so_gatewayStates s"
    "area_of op \<noteq> RecordArea \<Longrightarrow> so_compensation s' = so_compensation s"
    "area_of op \<noteq> HistoryArea \<Longrightarrow> so_history s' = so_history s"
  using assms
  by (cases op; auto simp: other_ops saveTokens_keeps createInstance_def updateInstance_def Let_def
      split: if_splits)+

lemma run_keeps:
  assumes "executeTransaction ops s = (s', r)"
    and "\<And>op t t'. op \<in> set ops \<Longrightarrow> apply_op op t = Inr t' \<Longrightarrow> g t' = g t"
  shows "g s' = g s"
  using assms
proof (induction ops arbitrary: s)
  case (Cons op ops)
  show ?case
  proof (cases "apply_op op s")
    case (Inr t)
    with Cons.prems(1) have "executeTransaction ops t = (s', r)" by simp
    then have "g s' = g t" using Cons.IH Cons.prems(2) by (meson list.set_intros(2))
    with Cons.prems(2)[of op s t] Inr show ?thesis by simp
  qed (use Cons.prems(1) in simp)
qed simp

lemma run_frame:
  assumes "executeTransaction ops s = (s', r)"
  shows "list_all (\<lambda>op. area_of op \<noteq> InstanceArea) ops \<Longrightarrow> so_instances s' = so_instances s"
    "list_all (\<lambda>op. area_of op \<noteq> TokenArea) ops \<Longrightarrow> so_tokens s' = so_tokens s"
    "list_all (\<lambda>op. area_of op \<noteq> ScopeArea) ops \<Longrightarrow> so_scopes s' = so_scopes s"
    "list_all (\<lambda>op. area_of op \<noteq> JoinArea) ops \<Longrightarrow> so_gatewayStates s' = so_gatewayStates s"
    "list_all (\<lambda>op. area_of op \<noteq> RecordArea) ops \<Longrightarrow> so_compensation s' = so_compensation s"
    "list_all (\<lambda>op. area_of op \<noteq> HistoryArea) ops \<Longrightarrow> so_history s' = so_history s"
  using run_keeps[OF assms, of so_instances] run_keeps[OF assms, of so_tokens] run_keeps[OF assms, of so_scopes]
    run_keeps[OF assms, of so_gatewayStates] run_keeps[OF assms, of so_compensation] run_keeps[OF assms, of so_history]
    apply_frame
  by (simp_all add: list_all_iff)

lemma run_append:
  "executeTransaction (xs @ ys) s =
     (case executeTransaction xs s of (t, None) \<Rightarrow> executeTransaction ys t | (t, Some e) \<Rightarrow> (t, Some e))"
  by (induction xs arbitrary: s) (auto split: sum.splits)

lemma run_map:
  "(\<And>x s. apply_op (C x) s = Inr (f x s)) \<Longrightarrow> executeTransaction (map C xs) s = (fold f xs s, None)"
  by (induction xs arbitrary: s) auto

lemma run_returns: "list_all (\<lambda>op. \<not> is_update op) ops \<Longrightarrow> \<exists>s'. executeTransaction ops s = (s', None)"
proof (induction ops arbitrary: s)
  case (Cons op ops)
  then obtain t where "apply_op op s = Inr t" using apply_other[of op s] by auto
  with Cons show ?case by simp
qed simp

lemma computeStoreOps_tail:
  "list_all (\<lambda>op. \<not> is_update op \<and> area_of op \<noteq> InstanceArea) (tl (computeStoreOps num stamp isNew old new events))"
  by (auto simp: computeStoreOps_def joinOps_def subscriptionOps_def compensationOps_def historyOps_def list_all_iff
      List.map_filter_def Let_def split: option.splits if_splits)

section \<open>The collections after a commit\<close>

lemma put_tokens:
  assumes "distinct (map tk_id (ps @ ts))" "map tk_id ts = map tk_id us @ zs"
  shows "fold put_token ts (ps @ us) = ps @ ts"
  using assms
proof (induction ts arbitrary: ps us zs)
  case (Cons t ts)
  have skip: "put_token t (ps @ vs) = ps @ put_token t vs" for vs
    using Cons.prems(1) by (induction ps) auto
  show ?case
  proof (cases us)
    case Nil
    then have "fold put_token (t # ts) (ps @ us) = fold put_token ts ((ps @ [t]) @ [])" using skip[of "[]"] by simp
    also have "\<dots> = (ps @ [t]) @ ts" using Cons.prems(1) by (intro Cons.IH) auto
    finally show ?thesis by simp
  next
    case (Cons u us')
    then have "fold put_token (t # ts) (ps @ us) = fold put_token ts ((ps @ [t]) @ us')"
      using skip[of us] Cons.prems(2) by simp
    also have "\<dots> = (ps @ [t]) @ ts"
    proof (rule Cons.IH)
      show "distinct (map tk_id ((ps @ [t]) @ ts))" using Cons.prems(1) by simp
      show "map tk_id ts = map tk_id us' @ zs" using Cons.prems(2) Cons by simp
    qed
    finally show ?thesis by simp
  qed
qed simp

lemma saveTokens_of_instance:
  "list_all (\<lambda>t. tk_instanceId t = i) ts \<Longrightarrow>
     get_list (so_tokens (saveTokens ts s)) i = fold put_token ts (get_list (so_tokens s) i)"
proof (induction ts arbitrary: s)
  case (Cons t ts)
  then have "get_list (so_tokens (saveTokens [t] s)) i = put_token t (get_list (so_tokens s) i)"
    by (simp add: saveTokens_def get_list_update)
  with Cons.IH[of "saveTokens [t] s"] Cons.prems show ?case by (simp add: saveTokens_Cons[of t ts])
qed (simp add: saveTokens_def)

definition keyed_joins :: "store \<Rightarrow> bool" where
  "keyed_joins s \<longleftrightarrow> distinct (map fst (so_gatewayStates s)) \<and>
     (\<forall>p \<in> set (so_gatewayStates s). fst p = gatewayKey (js_gatewayId (snd p)) (js_instanceId (snd p)))"

lemma keyed_save: "keyed_joins s \<Longrightarrow> keyed_joins (saveGatewayState g s)"
  by (auto simp: keyed_joins_def saveGatewayState_def distinct_update dest: in_set_update)

lemma keyed_delete:
  assumes "keyed_joins s"
  shows "keyed_joins (deleteGatewayState gid i s)"
proof -
  have "distinct (map fst (AList.delete (gatewayKey gid i) (so_gatewayStates s)))"
    using assms unfolding keyed_joins_def by (intro distinct_delete) simp
  moreover have "set (AList.delete (gatewayKey gid i) (so_gatewayStates s)) \<subseteq> set (so_gatewayStates s)"
    by (auto simp: AList.delete_eq)
  ultimately show ?thesis using assms unfolding keyed_joins_def deleteGatewayState_def by auto
qed

lemma keyed_fold:
  "(\<And>x s. keyed_joins s \<Longrightarrow> keyed_joins (f x s)) \<Longrightarrow> keyed_joins s \<Longrightarrow> keyed_joins (fold f xs s)"
  by (induction xs arbitrary: s) auto

lemma listed_join:
  assumes "keyed_joins s"
  shows "g \<in> set (listGatewayStates i s) \<longleftrightarrow>
    js_instanceId g = i \<and> map_of (so_gatewayStates s) (gatewayKey (js_gatewayId g) i) = Some g"
proof -
  have "map_of (so_gatewayStates s) (gatewayKey (js_gatewayId g) (js_instanceId g)) = Some g"
    if "g \<in> snd ` set (so_gatewayStates s)"
  proof -
    from that obtain k where "(k, g) \<in> set (so_gatewayStates s)" by auto
    moreover from this assms have "k = gatewayKey (js_gatewayId g) (js_instanceId g)"
      unfolding keyed_joins_def by fastforce
    ultimately show ?thesis using assms by (simp add: keyed_joins_def)
  qed
  moreover have "g \<in> snd ` set (so_gatewayStates s)" if "map_of (so_gatewayStates s) k = Some g" for k
    using map_of_SomeD[OF that] by force
  ultimately show ?thesis by (auto simp: listGatewayStates_def map_values_def)
qed

lemma same_instance_keys:
  "gatewayKey g i = gatewayKey g' i \<longleftrightarrow> g = g'"
  by (simp add: gatewayKey_def)

text \<open>After the join operations of a commit the instance's join states are those of the new state.\<close>

lemma joins_committed:
  assumes "keyed_joins s" "list_all (\<lambda>g. js_instanceId g = i) new" "distinct (map js_gatewayId new)"
    and "set old = set (listGatewayStates i s)"
  shows "set (listGatewayStates i
      (fold (\<lambda>g. deleteGatewayState (js_gatewayId g) (js_instanceId g))
        (filter (\<lambda>g. diffKey g \<notin> set (map diffKey new)) old) (fold saveGatewayState new s))) = set new"
    (is "set (listGatewayStates i ?t) = _")
proof -
  let ?dead = "filter (\<lambda>g. diffKey g \<notin> set (map diffKey new)) old" and ?key = "\<lambda>g. gatewayKey g i"
  let ?saved = "fold saveGatewayState new s"
  have old: "js_instanceId g = i" if "g \<in> set old" for g using that assms(4) listed_join[OF assms(1)] by blast
  have inst: "js_instanceId g = i" if "g \<in> set new" for g using that assms(2) by (auto simp: list_all_iff)
  have k1: "keyed_joins ?saved" using assms(1) by (intro keyed_fold keyed_save)
  have k2: "keyed_joins ?t" by (rule keyed_fold[OF keyed_delete k1])
  have dead: "fold (\<lambda>g. deleteGatewayState (js_gatewayId g) (js_instanceId g)) gs t =
      fold (\<lambda>k s. s\<lparr>so_gatewayStates := AList.delete k (so_gatewayStates s)\<rparr>)
        (map (\<lambda>g. gatewayKey (js_gatewayId g) (js_instanceId g)) gs) t" for gs t
    by (induction gs arbitrary: t) (simp_all add: deleteGatewayState_def)
  have at: "map_of (so_gatewayStates ?t) (?key k) =
      (if k \<in> js_gatewayId ` set ?dead then None else map_of (so_gatewayStates ?saved) (?key k))" for k
    using old by (auto simp: dead joins_col.get_fold_delete same_instance_keys image_iff)
  have diff: "diffKey g \<in> diffKey ` set new \<longleftrightarrow> js_gatewayId g \<in> js_gatewayId ` set new" if "g \<in> set old" for g
    using old[OF that] inst by (force simp: diffKey_def image_iff)
  have "distinct (map (\<lambda>g. gatewayKey (js_gatewayId g) (js_instanceId g)) new)"
    using assms(3) inst by (induction new) (auto simp: same_instance_keys image_iff)
  note new_at = joins_col.get_fold[OF this]
  have other_at: "map_of (so_gatewayStates ?saved) (?key k) = map_of (so_gatewayStates s) (?key k)"
    if "k \<notin> js_gatewayId ` set new" for k
    using that inst by (intro joins_col.get_fold_other) (auto simp: same_instance_keys)
  show ?thesis
  proof (intro set_eqI iffI)
    fix g assume "g \<in> set (listGatewayStates i ?t)"
    then have g: "js_instanceId g = i" "map_of (so_gatewayStates ?t) (?key (js_gatewayId g)) = Some g"
      using listed_join[OF k2] by auto
    then have s: "map_of (so_gatewayStates ?saved) (?key (js_gatewayId g)) = Some g"
      and nd: "js_gatewayId g \<notin> js_gatewayId ` set ?dead"
      using at[of "js_gatewayId g"] by (auto split: if_splits)
    show "g \<in> set new"
    proof (cases "js_gatewayId g \<in> js_gatewayId ` set new")
      case True
      then obtain h where h: "h \<in> set new" "js_gatewayId h = js_gatewayId g" by auto
      have "Some g = Some h" using new_at[OF h(1), of s] inst[OF h(1)] h(2) s by metis
      with h(1) show ?thesis by simp
    next
      case False
      with other_at s have "map_of (so_gatewayStates s) (?key (js_gatewayId g)) = Some g" by simp
      with g(1) have "g \<in> set old" using assms(4) listed_join[OF assms(1)] by blast
      with False diff nd show ?thesis by auto
    qed
  next
    fix g assume g: "g \<in> set new"
    then have "js_gatewayId g \<in> js_gatewayId ` set new" by simp
    then have "js_gatewayId g \<notin> js_gatewayId ` set ?dead" using diff by auto
    with g new_at[OF g, of s] inst[OF g] at[of "js_gatewayId g"]
    show "g \<in> set (listGatewayStates i ?t)" using listed_join[OF k2] by simp
  qed
qed

lemma scopes_committed:
  assumes "distinct (map vs_id xs)"
  shows "getScope k (fold store_saveScope xs s) =
    (case List.find (\<lambda>x. vs_id x = k) xs of Some x \<Rightarrow> Some x | None \<Rightarrow> getScope k s)"
proof (cases "List.find (\<lambda>x. vs_id x = k) xs")
  case None
  then have "k \<notin> vs_id ` set xs" by (auto simp: find_None_iff)
  with None scopes_col.get_fold_other[of k xs s] show ?thesis by simp
next
  case (Some x)
  then have "x \<in> set xs" "vs_id x = k" by (auto simp: find_Some_iff)
  with Some show ?thesis using scopes_col.get_fold[OF assms, of x s] by auto
qed

lemma records_committed:
  assumes "list_all (\<lambda>r. cr_instanceId r = i) (old @ new)" "listCompensationRecords i s = old"
  shows "listCompensationRecords i
      (fold (\<lambda>r. deleteCompensationRecord (cr_instanceId r) (cr_tokenId r))
        (filter (\<lambda>r. cr_tokenId r \<notin> cr_tokenId ` set new) old)
        (fold saveCompensationRecord (filter (\<lambda>r. cr_tokenId r \<notin> cr_tokenId ` set old) new) s)) =
    filter (\<lambda>r. cr_tokenId r \<in> cr_tokenId ` set new) old @ filter (\<lambda>r. cr_tokenId r \<notin> cr_tokenId ` set old) new"
proof -
  have del: "listCompensationRecords i (fold (\<lambda>r. deleteCompensationRecord (cr_instanceId r) (cr_tokenId r)) ds t) =
      filter (\<lambda>r. cr_tokenId r \<notin> cr_tokenId ` set ds) (listCompensationRecords i t)"
    if "list_all (\<lambda>r. cr_instanceId r = i) ds" for ds t
    using that
    by (induction ds arbitrary: t)
      (auto simp: deleteCompensationRecord_def listCompensationRecords_def get_list_update intro: filter_cong)
  have "list_all (\<lambda>r. cr_instanceId r = i) (filter (\<lambda>r. cr_tokenId r \<notin> cr_tokenId ` set new) old)"
    using assms(1) by (auto simp: list_all_iff)
  note d = del[OF this]
  have all: "filter (\<lambda>r. cr_instanceId r = i) (filter P new) = filter P new" for P
    using assms(1) by (auto simp: list_all_iff intro: filter_cong)
  let ?dead = "filter (\<lambda>r. cr_tokenId r \<notin> cr_tokenId ` set new) old"
  have "filter (\<lambda>r. cr_tokenId r \<notin> cr_tokenId ` set ?dead) old = filter (\<lambda>r. cr_tokenId r \<in> cr_tokenId ` set new) old"
    by (rule filter_cong) (auto simp: image_iff)
  moreover have "filter (\<lambda>r. cr_tokenId r \<notin> cr_tokenId ` set ?dead) (filter P new) = filter P new" for P
  proof (unfold filter_id_conv, intro ballI)
    fix r assume "r \<in> set (filter P new)"
    then have "cr_tokenId r \<in> cr_tokenId ` set new" by simp
    then show "cr_tokenId r \<notin> cr_tokenId ` set ?dead" by auto
  qed
  ultimately show ?thesis unfolding d records_log.entries_fold assms(2) all filter_append by simp
qed

section \<open>Commit\<close>

lemma group_areas:
  "list_all (\<lambda>op. area_of op = OtherArea \<and> \<not> is_update op) (subscriptionOps stamp old new)"
  "list_all (\<lambda>op. area_of op = JoinArea) (joinOps old new)"
  "list_all (\<lambda>op. area_of op = RecordArea) (compensationOps old new)"
  "list_all (\<lambda>op. area_of op = HistoryArea) (historyOps num old new events)"
  by (auto simp: joinOps_def subscriptionOps_def compensationOps_def historyOps_def list_all_iff
      List.map_filter_def Let_def split: option.splits if_splits)

lemma area_mono: "list_all (\<lambda>op. area_of op = a) ops \<Longrightarrow> a \<noteq> b \<Longrightarrow> list_all (\<lambda>op. area_of op \<noteq> b) ops"
  by (auto simp: list_all_iff)

lemma joinOps_run: "executeTransaction (joinOps old new) s =
    (fold (\<lambda>g. deleteGatewayState (js_gatewayId g) (js_instanceId g))
        (filter (\<lambda>g. diffKey g \<notin> set (map diffKey (st_gatewayJoinStates new))) (old_joins old))
        (fold saveGatewayState (st_gatewayJoinStates new) s), None)"
  by (simp add: joinOps_def run_append run_map[of SaveGatewayState saveGatewayState]
      run_map[of "\<lambda>g. DeleteGatewayState (js_gatewayId g) (js_instanceId g)"
        "\<lambda>g. deleteGatewayState (js_gatewayId g) (js_instanceId g)"])

lemma compensationOps_run: "executeTransaction (compensationOps old new) s =
    (fold (\<lambda>r. deleteCompensationRecord (cr_instanceId r) (cr_tokenId r))
        (filter (\<lambda>r. cr_tokenId r \<notin> cr_tokenId ` set (st_compensationRecords new)) (old_records old))
        (fold saveCompensationRecord
          (filter (\<lambda>r. cr_tokenId r \<notin> cr_tokenId ` set (old_records old)) (st_compensationRecords new)) s), None)"
  by (simp add: compensationOps_def run_append run_map[of SaveCompensationRecord saveCompensationRecord]
      run_map[of "\<lambda>r. DeleteCompensationRecord (cr_instanceId r) (cr_tokenId r)"
        "\<lambda>r. deleteCompensationRecord (cr_instanceId r) (cr_tokenId r)"])

text \<open>The stores a commit goes through, and what each part of the last one comes from.\<close>

lemma commit_stages:
  assumes "apply_op (hd (computeStoreOps num stamp isNew old new events)) st = Inr st1"
  obtains st' t2 t3 t5 t6 where "executeTransaction (computeStoreOps num stamp isNew old new events) st = (st', None)"
    "so_instances st' = so_instances st1"
    "so_tokens st' = so_tokens (saveTokens (st_tokens new) st1)"
    "so_scopes t2 = so_scopes st1" "so_scopes st' = so_scopes (fold store_saveScope (st_scopes new) t2)"
    "so_gatewayStates t3 = so_gatewayStates st1"
    "so_gatewayStates st' = so_gatewayStates (fst (executeTransaction (joinOps old new) t3))"
    "so_compensation t5 = so_compensation st1"
    "so_compensation st' = so_compensation (fst (executeTransaction (compensationOps old new) t5))"
    "so_history t6 = so_history st1"
    "so_history st' = so_history (fold appendHistory (deriveHistory num old new events None) t6)"
proof -
  let ?T = "[SaveTokens (st_tokens new)]" and ?S = "map SaveScope (st_scopes new)"
  let ?J = "joinOps old new" and ?U = "subscriptionOps stamp old new" and ?C = "compensationOps old new"
  let ?H = "historyOps num old new events"
  define t2 where "t2 = saveTokens (st_tokens new) st1"
  define t3 where "t3 = fold store_saveScope (st_scopes new) t2"
  define t4 where "t4 = fst (executeTransaction ?J t3)"
  obtain t5 where t5: "executeTransaction ?U t4 = (t5, None)"
    using run_returns[of ?U t4] group_areas(1) by (auto simp: list_all_iff)
  define t6 where "t6 = fst (executeTransaction ?C t5)"
  define t7 where "t7 = fold appendHistory (deriveHistory num old new events None) t6"
  have S: "executeTransaction ?S t2 = (t3, None)" by (simp add: t3_def run_map[of SaveScope store_saveScope])
  have J: "executeTransaction ?J t3 = (t4, None)" by (simp add: t4_def joinOps_run)
  have C: "executeTransaction ?C t5 = (t6, None)" by (simp add: t6_def compensationOps_run)
  have H: "executeTransaction ?H t6 = (t7, None)"
    by (simp add: historyOps_def t7_def run_map[of AppendHistory appendHistory])
  have T: "executeTransaction ?T st1 = (t2, None)" by (simp add: t2_def)
  have r: "executeTransaction (?S @ ?J @ ?U @ ?C @ ?H) t2 = (t7, None)"
    "executeTransaction (?J @ ?U @ ?C @ ?H) t3 = (t7, None)"
    "executeTransaction (?U @ ?C @ ?H) t4 = (t7, None)"
    "executeTransaction ?H t6 = (t7, None)"
    "executeTransaction (?T @ ?S) st1 = (t3, None)"
    "executeTransaction (?T @ ?S @ ?J @ ?U) st1 = (t5, None)"
    "executeTransaction (?T @ ?S @ ?J @ ?U @ ?C) st1 = (t6, None)"
    "executeTransaction (?T @ ?S @ ?J @ ?U @ ?C @ ?H) st1 = (t7, None)"
    by (simp_all add: run_append S J t5 C H T[simplified])
  note a = group_areas(1)[of stamp old new] group_areas(2-4)[THEN area_mono]
  have U: "list_all (\<lambda>op. area_of op \<noteq> a) ?U" if "a \<noteq> OtherArea" for a
    using group_areas(1)[of stamp old new] that by (auto simp: list_all_iff)
  have SA: "list_all (\<lambda>op. area_of op \<noteq> a) ?S" if "a \<noteq> ScopeArea" for a using that by (simp add: list_all_iff)
  note areas = U SA group_areas(2-4)[THEN area_mono]
  have "executeTransaction (computeStoreOps num stamp isNew old new events) st = (t7, None)"
    using assms r(8) by (simp add: computeStoreOps_def split: if_splits)
  moreover have "so_instances t7 = so_instances st1" using run_frame(1)[OF r(8)] areas by simp
  moreover have "so_tokens t7 = so_tokens t2" using run_frame(2)[OF r(1)] areas by simp
  moreover have "so_scopes t2 = so_scopes st1" by (simp add: t2_def saveTokens_keeps)
  moreover have "so_scopes t7 = so_scopes t3" using run_frame(3)[OF r(2)] areas by simp
  moreover have "so_gatewayStates t3 = so_gatewayStates st1" using run_frame(4)[OF r(5)] areas by simp
  moreover have "so_gatewayStates t7 = so_gatewayStates t4" using run_frame(4)[OF r(3)] areas by simp
  moreover have "so_compensation t5 = so_compensation st1" using run_frame(5)[OF r(6)] areas by simp
  moreover have "so_compensation t7 = so_compensation t6" using run_frame(5)[OF r(4)] areas by simp
  moreover have "so_history t6 = so_history st1" using run_frame(6)[OF r(7)] areas by simp
  ultimately show ?thesis using that[of t7 t2 t3 t5 t6] unfolding t3_def t4_def t6_def t7_def t2_def by blast
qed

section \<open>Load, execute, commit, load\<close>

lemma listing_distinct:
  assumes "keyed_joins s"
  shows "distinct (map js_gatewayId (listGatewayStates i s))"
proof -
  let ?ps = "filter (\<lambda>p. js_instanceId (snd p) = i) (so_gatewayStates s)"
  have l: "listGatewayStates i s = map snd ?ps"
    by (simp add: listGatewayStates_def map_values_def filter_map o_def)
  have "map (\<lambda>g. gatewayKey g i) (map js_gatewayId (map snd ?ps)) = map fst ?ps"
    using assms by (auto simp: keyed_joins_def)
  moreover have "distinct (map fst ?ps)" using assms by (simp add: keyed_joins_def distinct_map_filter)
  ultimately have "distinct (map (\<lambda>g. gatewayKey g i) (map js_gatewayId (map snd ?ps)))" by metis
  then show ?thesis unfolding l by (simp only: distinct_map)
qed

lemma map_filter_found:
  assumes "\<And>k. k \<in> set ks \<Longrightarrow> f k = Some (h k)"
  shows "List.map_filter f ks = map h ks"
  using assms by (induction ks) (auto simp: List.map_filter_def)

definition kept_scopes :: "engine_state \<Rightarrow> variable_scope set" where
  "kept_scopes s = {x \<in> set (st_scopes s). vs_id x = pi_rootScopeId (st_instance s) \<or> vs_id x \<in> tk_scopeId ` set (st_tokens s)}"

text \<open>A state loaded from a store that holds the parts of a storable state is storable again.\<close>

lemma load_storable:
  assumes "storable s" "keyed_joins st" "getInstance i st = Some inst"
    "pi_id inst = pi_id (st_instance s)" "pi_rootScopeId inst = pi_rootScopeId (st_instance s)"
    "i = pi_id (st_instance s)" "store_getAllTokens i st = st_tokens s"
    "\<And>x. x \<in> set (st_scopes s) \<Longrightarrow> getScope (vs_id x) st = Some x"
  shows "\<exists>r. loadEngineState i st = Some r \<and> st_instance r = inst \<and> st_tokens r = st_tokens s \<and>
    set (st_scopes r) = kept_scopes s \<and> st_gatewayJoinStates r = listGatewayStates i st \<and> storable r"
proof -
  have w: "wf_state s" and root: "pi_rootScopeId inst \<in> vs_id ` set (st_scopes s)"
    using assms(1,5) by (auto simp: storable_def)
  let ?ks = "set_from (pi_rootScopeId inst # map tk_scopeId (st_tokens s))"
  have ks: "set ?ks = insert (pi_rootScopeId inst) (tk_scopeId ` set (st_tokens s))" "distinct ?ks" by simp_all
  have sub: "set ?ks \<subseteq> vs_id ` set (st_scopes s)"
    using root w by (auto simp: wf_state_def list_all_iff)
  define h where "h k = the (getScope k st)" for k
  have got: "getScope k st = Some (h k) \<and> vs_id (h k) = k \<and> h k \<in> set (st_scopes s)" if "k \<in> set ?ks" for k
  proof -
    from that sub obtain x where "x \<in> set (st_scopes s)" "k = vs_id x" by blast
    with assms(8)[of x] show ?thesis by (simp add: h_def)
  qed
  have here: "h (vs_id x) = x" if "x \<in> set (st_scopes s)" for x using assms(8)[OF that] by (simp add: h_def)
  define r where "r = \<lparr>st_instance = inst, st_tokens = st_tokens s, st_scopes = map h ?ks,
    st_gatewayJoinStates = listGatewayStates i st, st_compensationRecords = listCompensationRecords i st\<rparr>"
  have load: "loadEngineState i st = Some r"
    using map_filter_found[of ?ks "\<lambda>k. getScope k st" h] got assms(3,7)
    by (simp add: loadEngineState_def r_def Let_def)
  have sc: "set (st_scopes r) = kept_scopes s"
  proof (intro set_eqI iffI)
    fix x assume "x \<in> set (st_scopes r)"
    then obtain k where "k \<in> set ?ks" "x = h k" unfolding r_def by auto
    with got[of k] ks(1) assms(5) show "x \<in> kept_scopes s" by (auto simp: kept_scopes_def)
  next
    fix x assume x: "x \<in> kept_scopes s"
    then have "vs_id x \<in> set ?ks" using ks(1) assms(5) by (auto simp: kept_scopes_def)
    moreover have "x = h (vs_id x)" using x here by (simp add: kept_scopes_def)
    ultimately show "x \<in> set (st_scopes r)" unfolding r_def by auto
  qed
  have ids: "map vs_id (st_scopes r) = ?ks" using got by (auto simp: r_def intro: map_idI)
  then have idset: "vs_id ` set (st_scopes r) = set ?ks" by (metis list.set_map)
  have tree: "scope_tree (map (\<lambda>x. (vs_id x, x)) (st_scopes r))"
  proof -
    have keys: "fst ` set (map (\<lambda>x. (vs_id x, x)) (st_scopes r)) = set ?ks"
      unfolding idset[symmetric] by force
    from w obtain rank :: "string \<Rightarrow> nat" where rank: "\<And>k x p. map_of (map (\<lambda>x. (vs_id x, x)) (st_scopes s)) k = Some x \<Longrightarrow>
        vs_parentScopeId x = Some p \<Longrightarrow> rank p < rank k"
      unfolding wf_state_def scope_tree_def by blast
    have "p \<in> set ?ks \<and> rank p < rank k"
      if x: "map_of (map (\<lambda>x. (vs_id x, x)) (st_scopes r)) k = Some x" "vs_parentScopeId x = Some p" for k x p
    proof -
      have "x \<in> set (st_scopes r)" "vs_id x = k" using x(1) map_of_keyed[of vs_id "st_scopes r"] ids ks(2) by auto
      then have xs: "x \<in> set (st_scopes s)" "vs_id x = k" using sc by (auto simp: kept_scopes_def)
      then have "map_of (map (\<lambda>x. (vs_id x, x)) (st_scopes s)) k = Some x"
        using w map_of_keyed[of vs_id "st_scopes s"] by (simp add: wf_state_def)
      from rank[OF this x(2)] xs(1) x(2) assms(1,5) ks(1) show ?thesis
        by (fastforce simp: storable_def list_all_iff)
    qed
    then show ?thesis unfolding scope_tree_def keys by blast
  qed
  have "wf_state r"
    using w tree ids ks(2) unfolding wf_state_def idset
    by (auto simp: r_def list_all_iff assms(4))
  moreover have "list_all (\<lambda>g. js_instanceId g = pi_id (st_instance r)) (st_gatewayJoinStates r)"
    using assms(4,6) by (simp add: r_def list_all_iff listGatewayStates_def)
  moreover have "pi_rootScopeId (st_instance r) \<in> vs_id ` set (st_scopes r)"
    unfolding idset using ks(1) by (simp add: r_def)
  moreover have "list_all (\<lambda>x. pred_option (\<lambda>p. p = pi_rootScopeId (st_instance r) \<or> p \<in> tk_scopeId ` set (st_tokens r))
       (vs_parentScopeId x)) (st_scopes r)"
    using assms(1,5) sc by (auto simp: r_def storable_def list_all_iff kept_scopes_def)
  moreover have "distinct (map js_gatewayId (st_gatewayJoinStates r))"
    using listing_distinct[OF assms(2)] by (simp add: r_def)
  ultimately have "storable r" by (simp add: storable_def)
  with load sc show ?thesis by (auto simp: r_def)
qed

text \<open>One commit seen from outside, for a store whose head operation succeeded.\<close>

lemma commit_loads:
  assumes head: "apply_op (hd (computeStoreOps num stamp isNew old new events)) st = Inr st1"
    and same: "so_tokens st1 = so_tokens st" "so_gatewayStates st1 = so_gatewayStates st"
      "so_history st1 = so_history st"
    and new: "storable new" "keyed_joins st" "pi_id (st_instance new) = i"
    and inst: "getInstance i st1 = Some ((st_instance new)\<lparr>pi_version := Some n\<rparr>)"
    and tokens: "map tk_id (st_tokens new) = map tk_id (get_list (so_tokens st) i) @ zs"
    and joins: "set (old_joins old) = set (listGatewayStates i st)"
  shows "\<exists>st' r. executeTransaction (computeStoreOps num stamp isNew old new events) st = (st', None) \<and>
    loadEngineState i st' = Some r \<and> st_instance r = (st_instance new)\<lparr>pi_version := Some n\<rparr> \<and>
    st_tokens r = st_tokens new \<and> set (st_scopes r) = kept_scopes new \<and>
    set (st_gatewayJoinStates r) = set (st_gatewayJoinStates new) \<and> storable r \<and> keyed_joins st' \<and>
    getHistory i st' = getHistory i st @ deriveHistory num old new events None"
proof -
  obtain st' t2 t3 t5 t6 where st': "executeTransaction (computeStoreOps num stamp isNew old new events) st = (st', None)"
    and p: "so_instances st' = so_instances st1" "so_tokens st' = so_tokens (saveTokens (st_tokens new) st1)"
      "so_scopes st' = so_scopes (fold store_saveScope (st_scopes new) t2)"
      "so_gatewayStates t3 = so_gatewayStates st1"
      "so_gatewayStates st' = so_gatewayStates (fst (executeTransaction (joinOps old new) t3))"
      "so_history t6 = so_history st1"
      "so_history st' = so_history (fold appendHistory (deriveHistory num old new events None) t6)"
    using commit_stages[OF head] by metis
  have w: "wf_state new" using new(1) by (simp add: storable_def)
  have ti: "list_all (\<lambda>t. tk_instanceId t = i) (st_tokens new)" and tk: "distinct (map tk_id (st_tokens new))"
    and sc: "distinct (map vs_id (st_scopes new))"
    using w new(3) by (auto simp: wf_state_def list_all_iff)
  have "store_getAllTokens i st' = fold put_token (st_tokens new) (get_list (so_tokens st) i)"
    unfolding store_getAllTokens_def p(2) saveTokens_of_instance[OF ti] same(1) ..
  also have "\<dots> = st_tokens new" using put_tokens[of "[]" "st_tokens new"] tk tokens by simp
  finally have toks: "store_getAllTokens i st' = st_tokens new" .
  have scopes: "getScope (vs_id x) st' = Some x" if "x \<in> set (st_scopes new)" for x
    using scopes_col.get_fold[OF sc that, of t2] by (simp add: getScope_def p(3))
  have k3: "keyed_joins t3" using new(2) p(4) same(2) by (simp add: keyed_joins_def)
  have "set (old_joins old) = set (listGatewayStates i t3)"
    using joins p(4) same(2) by (simp add: listGatewayStates_def)
  moreover have "list_all (\<lambda>g. js_instanceId g = i) (st_gatewayJoinStates new)"
    "distinct (map js_gatewayId (st_gatewayJoinStates new))"
    using new(1,3) by (simp_all add: storable_def)
  ultimately have gs: "set (listGatewayStates i st') = set (st_gatewayJoinStates new)"
    using joins_committed[OF k3] by (simp add: joinOps_run listGatewayStates_def p(5))
  have "keyed_joins (fst (executeTransaction (joinOps old new) t3))"
    using keyed_fold[OF keyed_delete keyed_fold[OF keyed_save k3]] by (simp add: joinOps_run)
  then have k: "keyed_joins st'" by (simp add: keyed_joins_def p(5))
  have "list_all (\<lambda>e. he_instanceId e = i) (deriveHistory num old new events None)"
    using new(3) by (auto simp: deriveHistory_def history_entry_of_def list_all_iff Let_def)
  then have "filter (\<lambda>e. he_instanceId e = i) (deriveHistory num old new events None) =
      deriveHistory num old new events None"
    by (simp add: list_all_iff filter_id_conv)
  then have hist: "getHistory i st' = getHistory i st @ deriveHistory num old new events None"
    using history_log.entries_fold[of i "deriveHistory num old new events None" t6] p(6,7) same(3)
    by (simp add: getHistory_def)
  have "getInstance i st' = Some ((st_instance new)\<lparr>pi_version := Some n\<rparr>)"
    using inst by (simp add: getInstance_def p(1))
  from load_storable[OF new(1) k this _ _ new(3)[symmetric] toks scopes]
  obtain r where "loadEngineState i st' = Some r" "st_instance r = (st_instance new)\<lparr>pi_version := Some n\<rparr>"
    "st_tokens r = st_tokens new" "set (st_scopes r) = kept_scopes new"
    "st_gatewayJoinStates r = listGatewayStates i st'" "storable r"
    by auto
  with st' gs k hist show ?thesis by auto
qed

lemma load_parts:
  assumes "loadEngineState i st = Some s"
  shows "getInstance i st = Some (st_instance s)" "st_tokens s = get_list (so_tokens st) i"
    "st_gatewayJoinStates s = listGatewayStates i st"
  using assms by (auto simp: loadEngineState_def store_getAllTokens_def Let_def split: option.splits)

lemma loaded_update:
  assumes "loadEngineState i st = Some s" "pi_id (st_instance s) = i" "pi_version (st_instance s) = Some v"
    and "execute d cmd (Some s) opts = Some (Inr (s', evs))" "call_ok opts cmd (Some s)"
  shows "updateInstance (st_instance s') st = Inr (st\<lparr>so_instances :=
    AList.update i ((st_instance s')\<lparr>pi_version := Some (v + 1)\<rparr>) (so_instances st)\<rparr>)"
  using execute_identity[OF assms(4,5)] load_parts(1)[OF assms(1)] assms(2,3)
  by (simp add: updateInstance_def getInstance_def current_version_def Let_def)

text \<open>What a commit leaves in the store is the state the command returned, whatever events it carries to the history.\<close>

lemma commit_reloads:
  assumes "loadEngineState i st = Some s" "keyed_joins st" "storable s"
    and "pi_id (st_instance s) = i" "pi_version (st_instance s) = Some v"
    and "execute d cmd (Some s) opts = Some (Inr (s', evs))" "call_ok opts cmd (Some s)"
  shows "\<exists>st' r. executeTransaction (computeStoreOps num stamp False (Some s) s' es) st = (st', None) \<and>
    loadEngineState i st' = Some r \<and> st_instance r = (st_instance s')\<lparr>pi_version := Some (v + 1)\<rparr> \<and>
    st_tokens r = st_tokens s' \<and> set (st_scopes r) = kept_scopes s' \<and>
    set (st_gatewayJoinStates r) = set (st_gatewayJoinStates s') \<and> storable r \<and> keyed_joins st' \<and>
    getHistory i st' = getHistory i st @ deriveHistory num (Some s) s' es None"
proof -
  note up = loaded_update[OF assms(1,4-7)]
  note id = execute_identity[OF assms(6,7)]
  obtain zs where zs: "map tk_id (st_tokens s') = map tk_id (st_tokens s) @ zs"
    using execute_storable(2)[OF assms(6,7,3)] by blast
  show ?thesis
  proof (rule commit_loads[where ?st1.0 = "st\<lparr>so_instances :=
      AList.update i ((st_instance s')\<lparr>pi_version := Some (v + 1)\<rparr>) (so_instances st)\<rparr>"])
    show "storable s'" by (rule execute_storable(1)[OF assms(6,7,3)])
    show "set (old_joins (Some s)) = set (listGatewayStates i st)"
      using load_parts(3)[OF assms(1)] by (simp add: old_joins_def)
    show "map tk_id (st_tokens s') = map tk_id (get_list (so_tokens st) i) @ zs"
      using zs load_parts(2)[OF assms(1)] by simp
  qed (use up id assms(2,4) in \<open>simp_all add: computeStoreOps_def getInstance_def jsmap_simps\<close>)
qed


text \<open>
  No lost update: of two requests that loaded the same version and executed different commands,
  the one that commits second is refused with \<open>ConcurrentModificationError\<close>, and the store stays as
  the first left it.
\<close>

theorem second_commit_refused:
  assumes "loadEngineState i st = Some s" "keyed_joins st" "storable s"
    and "pi_id (st_instance s) = i" "pi_version (st_instance s) = Some v"
    and "execute d cmd (Some s) opts = Some (Inr (s', evs))" "call_ok opts cmd (Some s)"
    and "execute d cmd2 (Some s) opts2 = Some (Inr (s2, evs2))" "call_ok opts2 cmd2 (Some s)"
    and "executeTransaction (computeStoreOps num stamp False (Some s) s' evs) st = (st', r)"
  shows "executeTransaction (computeStoreOps num stamp2 False (Some s) s2 evs2) st' =
    (st', Some (ConcurrentModificationError i))"
proof -
  let ?st1 = "st\<lparr>so_instances := AList.update i ((st_instance s')\<lparr>pi_version := Some (v + 1)\<rparr>) (so_instances st)\<rparr>"
  have "apply_op (hd (computeStoreOps num stamp False (Some s) s' evs)) st = Inr ?st1"
    using loaded_update[OF assms(1,4-7)] by (simp add: computeStoreOps_def)
  from commit_stages[OF this] assms(10) have "so_instances st' = so_instances ?st1" by (metis prod.inject)
  then have "map_of (so_instances st') i = Some ((st_instance s')\<lparr>pi_version := Some (v + 1)\<rparr>)"
    by (simp add: jsmap_simps)
  moreover have "pi_id (st_instance s2) = i" "pi_version (st_instance s2) = Some v"
    using execute_identity[OF assms(8,9)] assms(4,5) by simp_all
  ultimately have "updateInstance (st_instance s2) st' = Inl (ConcurrentModificationError i)"
    by (simp add: updateInstance_def current_version_def)
  then show ?thesis by (simp add: computeStoreOps_def)
qed

text \<open>A store that holds the started review.\<close>

definition review_loaded :: engine_state where
  "review_loaded = review_started\<lparr>st_instance := (st_instance review_started)\<lparr>pi_version := Some 1\<rparr>\<rparr>"

definition review_store :: store where
  "review_store = empty_store\<lparr>so_instances := [(''x'', st_instance review_loaded)],
     so_tokens := [(''x'', st_tokens review_loaded)],
     so_scopes := map (\<lambda>x. (vs_id x, x)) (st_scopes review_loaded)\<rparr>"

lemma review_store_loads:
  "loadEngineState ''x'' review_store = Some review_loaded" "keyed_joins review_store"
  by (simp_all add: loadEngineState_def review_store_def review_loaded_def review_started_def token_of_def
      getInstance_def store_getAllTokens_def get_list_def set_from_def set_add_def getScope_def
      List.map_filter_def listGatewayStates_def listCompensationRecords_def empty_store_def map_values_def
      keyed_joins_def)

lemma review_loaded_ok:
  "storable review_loaded" "pi_id (st_instance review_loaded) = ''x''" "pi_version (st_instance review_loaded) = Some 1"
  "call_ok (counting_from ''y'') (CompleteUserTask ''xxxx'' ''bob'' None) (Some review_loaded)"
  "call_ok (counting_from ''y'') SuspendInstance (Some review_loaded)"
  using review_started_ok(1) review_started_fresh
  by (simp_all add: storable_def review_loaded_def wf_state_def fresh_supply_def)
    (simp_all add: review_started_def token_of_def)

lemma review_loaded_completes:
  "case execute review (CompleteUserTask ''xxxx'' ''bob'' None) (Some review_loaded) (counting_from ''y'') of
     Some (Inr (s, evs)) \<Rightarrow> pi_status (st_instance s) = CompletedI | _ \<Rightarrow> False"
  by (simp add: engine_eval review_loaded_def review_started_def token_of_def sample_eval)

lemma review_loaded_completes_ok:
  obtains s evs where
    "execute review (CompleteUserTask ''xxxx'' ''bob'' None) (Some review_loaded) (counting_from ''y'')
       = Some (Inr (s, evs))" "pi_status (st_instance s) = CompletedI"
  using review_loaded_completes by (auto split: option.splits sum.splits)


lemma review_loaded_suspends:
  "execute review SuspendInstance (Some review_loaded) (counting_from ''y'') = Some (Inr
     (review_loaded\<lparr>st_instance := (st_instance review_loaded)\<lparr>pi_status := SuspendedI\<rparr>\<rparr>,
      [ProcessInstanceSuspended ''x'']))"
  by (simp add: engine_eval review_loaded_def review_started_def token_of_def sample_eval)

theorem second_commit_refused_witness:
  "\<exists>s evs s2 evs2 st'.
     executeTransaction (computeStoreOps (\<lambda>_. []) 0 False (Some review_loaded) s evs) review_store = (st', None) \<and>
     executeTransaction (computeStoreOps (\<lambda>_. []) 0 False (Some review_loaded) s2 evs2) st' =
       (st', Some (ConcurrentModificationError ''x''))"
proof -
  obtain s evs where e: "execute review (CompleteUserTask ''xxxx'' ''bob'' None) (Some review_loaded)
      (counting_from ''y'') = Some (Inr (s, evs))"
    using review_loaded_completes_ok by blast
  have "apply_op (hd (computeStoreOps (\<lambda>_. []) 0 False (Some review_loaded) s evs)) review_store =
      Inr (review_store\<lparr>so_instances := AList.update ''x'' ((st_instance s)\<lparr>pi_version := Some (1 + 1)\<rparr>)
        (so_instances review_store)\<rparr>)"
    using loaded_update[OF review_store_loads(1) review_loaded_ok(2,3) e review_loaded_ok(4)]
    by (simp add: computeStoreOps_def)
  from commit_stages[OF this]
  obtain st' where c: "executeTransaction (computeStoreOps (\<lambda>_. []) 0 False (Some review_loaded) s evs) review_store
      = (st', None)" by metis
  from second_commit_refused[OF review_store_loads review_loaded_ok(1-3) e review_loaded_ok(4)
      review_loaded_suspends review_loaded_ok(5) c] c
  show ?thesis by blast
qed

text \<open>
  The first commit: a process started under a new instance id, and created in the store, is
  loaded with version 1 and the tokens and join states the start command returned.
\<close>

theorem start_then_load:
  assumes "execute d cmd None opts = Some (Inr (s', evs))" "call_ok opts cmd None" "keyed_joins st"
    and "i = pi_id (st_instance s')" "get_list (so_tokens st) i = []" "listGatewayStates i st = []"
  shows "\<exists>st' r. executeTransaction (computeStoreOps num stamp True None s' evs) st = (st', None) \<and>
    loadEngineState i st' = Some r \<and> st_instance r = (st_instance s')\<lparr>pi_version := Some 1\<rparr> \<and>
    st_tokens r = st_tokens s' \<and> set (st_scopes r) = kept_scopes s' \<and>
    set (st_gatewayJoinStates r) = set (st_gatewayJoinStates s') \<and> storable r \<and> keyed_joins st' \<and>
    getHistory i st' = getHistory i st @ deriveHistory num None s' evs None"
proof (rule commit_loads[where ?st1.0 = "createInstance (st_instance s') st"])
  show "storable s'" by (rule execute_start_storable[OF assms(1,2)])
  show "map tk_id (st_tokens s') = map tk_id (get_list (so_tokens st) i) @ map tk_id (st_tokens s')"
    by (simp add: assms(5))
qed (use assms(3-6) in \<open>simp_all add: computeStoreOps_def createInstance_def getInstance_def jsmap_simps old_joins_def\<close>)

lemma review_starts:
  "case execute review (StartProcess None None None) None counting of
     Some (Inr (s, evs)) \<Rightarrow> pi_id (st_instance s) = ''x'' \<and> length (st_tokens s) = 2 | _ \<Rightarrow> False"
  by (simp add: engine_eval sample_eval)

theorem start_then_load_witness:
  "\<exists>st' r. loadEngineState ''x'' st' = Some r \<and> pi_version (st_instance r) = Some 1 \<and> length (st_tokens r) = 2"
proof -
  obtain s evs where e: "execute review (StartProcess None None None) None counting = Some (Inr (s, evs))"
    "''x'' = pi_id (st_instance s)" "length (st_tokens s) = 2"
    using review_starts by (auto split: option.splits sum.splits)
  have k: "keyed_joins empty_store" by (simp add: keyed_joins_def empty_store_def)
  have "call_ok counting (StartProcess None None None) None" using inj_counting by simp
  from start_then_load[OF e(1) this k e(2), of "\<lambda>_. []" 0] e(3)
  show ?thesis by (force simp: empty_store_def get_list_def listGatewayStates_def map_values_def)
qed

end
