(* ===== verification/Bpmn_Parser.thy ===== *)
theory Bpmn_Parser
  imports Definition_Tree Js_Values
begin

text \<open>
  \<open>parser/BpmnXmlParser.ts\<close>: from the object tree that \<open>fast-xml-parser\<close> makes of a BPMN document to a
  process definition and its validation errors. The XML library is the parameter \<open>xml_parse\<close>. What the
  code relies on: attributes are strings under keys with the prefix \<open>@_\<close>, the text of an element is
  under \<open>#text\<close>, an element without attributes and children is a plain value, and the elements of
  \<open>ARRAY_ELEMENTS\<close> are arrays. Reading a property of null or undefined, iterating over a value
  that is not iterable and \<open>in\<close> on a primitive are a \<open>TypeFault\<close>.
\<close>

section \<open>Helpers\<close>

record validation_error =
  ve_code :: string
  ve_message :: string
  ve_elementId :: "string option"

text \<open>\<open>raw['@_x'] as string | undefined\<close>.\<close>

fun as_string :: "jsval \<Rightarrow> string option" where
  "as_string (JString s) = Some s"
| "as_string _ = None"

definition attribute :: "(rat \<Rightarrow> string) \<Rightarrow> jsval \<Rightarrow> string \<Rightarrow> string \<Rightarrow> engine_error + string" where
  "attribute num raw key dflt = sbind (property raw key) (\<lambda>v. Inr (js_string num (nullish_or v (JString dflt))))"

definition opt_attribute :: "(rat \<Rightarrow> string) \<Rightarrow> jsval \<Rightarrow> string \<Rightarrow> engine_error + string option" where
  "opt_attribute num raw key =
     sbind (property raw key) (\<lambda>v. Inr (if v = JUndefined then None else Some (js_string num v)))"

fun toStringArray :: "(rat \<Rightarrow> string) \<Rightarrow> jsval \<Rightarrow> string list" where
  "toStringArray num (JArray xs) = map (js_string num) xs"
| "toStringArray num v = (if to_boolean v then [js_string num v] else [])"

text \<open>\<open>key in obj && obj[key] !== undefined\<close>: a \<open>TypeError\<close> on a primitive.\<close>

fun hasKey :: "jsval \<Rightarrow> string \<Rightarrow> engine_error + bool" where
  "hasKey (JObject ms) key = Inr (map_of ms key \<noteq> None \<and> map_of ms key \<noteq> Some JUndefined)"
| "hasKey (JArray _) key = Inr False"
| "hasKey _ key = Inl TypeFault"

fun firstOf :: "jsval \<Rightarrow> jsval" where
  "firstOf (JArray (x # xs)) = x"
| "firstOf (JArray []) = JUndefined"
| "firstOf v = v"

definition non_empty :: "string \<Rightarrow> string option" where
  "non_empty s = (if s = [] then None else Some s)"

fun extractText :: "(rat \<Rightarrow> string) \<Rightarrow> jsval \<Rightarrow> string option" where
  "extractText num (JString s) = non_empty (js_trim s)"
| "extractText num (JNumber n) = Some (js_string num (JNumber n))"
| "extractText num (JObject ms) =
     (case map_of ms ''#text'' of
        None \<Rightarrow> None
      | Some JUndefined \<Rightarrow> None
      | Some t \<Rightarrow> non_empty (js_trim (js_string num t)))"
| "extractText num _ = None"

definition items_of :: "jsval \<Rightarrow> string \<Rightarrow> engine_error + jsval list" where
  "items_of raw key = sbind (property raw key) (\<lambda>v. iterate (nullish_or v (JArray [])))"

definition baseElement :: "(rat \<Rightarrow> string) \<Rightarrow> jsval \<Rightarrow> engine_error + element_base" where
  "baseElement num raw =
     sbind (attribute num raw ''@_id'' []) (\<lambda>i.
     sbind (property raw ''incoming'') (\<lambda>incoming.
     sbind (property raw ''outgoing'') (\<lambda>outgoing.
     sbind (opt_attribute num raw ''@_name'') (\<lambda>name.
       Inr \<lparr>eb_id = i, eb_name = name, eb_incomingFlows = toStringArray num incoming,
            eb_outgoingFlows = toStringArray num outgoing\<rparr>))))"

section \<open>Events\<close>

definition plain_event :: "event_definition_type \<Rightarrow> event_definition" where
  "plain_event ty = \<lparr>ed_type = ty, ed_timerExpression = None, ed_messageName = None, ed_signalName = None,
     ed_errorCode = None, ed_linkName = None, ed_compensationActivityRef = None\<rparr>"

definition or_empty :: "string option \<Rightarrow> string" where
  "or_empty s = (case s of Some x \<Rightarrow> x | None \<Rightarrow> [])"

text \<open>\<open>(firstOf(raw[key]) as \<dots>)[attribute] as string | undefined\<close>.\<close>

definition ref_of :: "jsval \<Rightarrow> string \<Rightarrow> string \<Rightarrow> engine_error + string option" where
  "ref_of raw key attr =
     sbind (property raw key) (\<lambda>d. sbind (property (firstOf d) attr) (\<lambda>r. Inr (as_string r)))"

definition timer_definition :: "(rat \<Rightarrow> string) \<Rightarrow> jsval \<Rightarrow> engine_error + event_definition" where
  "timer_definition num raw =
     sbind (property raw ''timerEventDefinition'') (\<lambda>d.
     sbind (property (firstOf d) ''timeDuration'') (\<lambda>duration.
     sbind (property (firstOf d) ''timeDate'') (\<lambda>date.
     sbind (property (firstOf d) ''timeCycle'') (\<lambda>cycle.
       Inr ((plain_event TimerEvent)\<lparr>ed_timerExpression := Some (or_empty
         (first_some [extractText num duration, extractText num date, extractText num cycle]))\<rparr>)))))"

text \<open>\<open>if (hasKey(raw, key)) return a\<close>, else the rest of the function.\<close>

definition if_key :: "jsval \<Rightarrow> string \<Rightarrow> (engine_error + 'a) \<Rightarrow> (engine_error + 'a) \<Rightarrow> engine_error + 'a" where
  "if_key raw key a b = sbind (hasKey raw key) (\<lambda>present. if present then a else b)"

definition parseEventDefinition :: "(rat \<Rightarrow> string) \<Rightarrow> jsval \<Rightarrow> engine_error + event_definition" where
  "parseEventDefinition num raw =
     if_key raw ''timerEventDefinition'' (timer_definition num raw)
    (if_key raw ''messageEventDefinition''
       (sbind (ref_of raw ''messageEventDefinition'' ''@_messageRef'') (\<lambda>r.
          Inr ((plain_event MessageEvent)\<lparr>ed_messageName := Some (or_empty r)\<rparr>)))
    (if_key raw ''signalEventDefinition''
       (sbind (ref_of raw ''signalEventDefinition'' ''@_signalRef'') (\<lambda>r.
          Inr ((plain_event SignalEvent)\<lparr>ed_signalName := Some (or_empty r)\<rparr>)))
    (if_key raw ''errorEventDefinition''
       (sbind (ref_of raw ''errorEventDefinition'' ''@_errorRef'') (\<lambda>r.
          Inr ((plain_event ErrorEvent)\<lparr>ed_errorCode := Some (or_empty r)\<rparr>)))
    (if_key raw ''terminateEventDefinition'' (Inr (plain_event TerminateEvent))
    (if_key raw ''compensateEventDefinition''
       (sbind (ref_of raw ''compensateEventDefinition'' ''@_activityRef'') (\<lambda>r.
          Inr ((plain_event CompensationEvent)\<lparr>ed_compensationActivityRef := (if truthy r then r else None)\<rparr>)))
    (if_key raw ''cancelEventDefinition'' (Inr (plain_event CancelEvent))
       (Inr (plain_event NoneEvent))))))))"

definition input_name_start :: "char \<Rightarrow> bool" where
  "input_name_start c = (let n = of_char c :: nat in
     65 \<le> n \<and> n \<le> 90 \<or> 97 \<le> n \<and> n \<le> 122 \<or> c = CHR ''_'' \<or> c = CHR ''$'')"

definition is_digit :: "char \<Rightarrow> bool" where
  "is_digit c = (let n = of_char c :: nat in 48 \<le> n \<and> n \<le> 57)"

text \<open>The regular expression \<open>INPUT_NAME\<close>.\<close>

fun input_name :: "string \<Rightarrow> bool" where
  "input_name [] = False"
| "input_name (c # cs) = (input_name_start c \<and> list_all (\<lambda>x. input_name_start x \<or> is_digit x) cs)"

definition input_type_of :: "string \<Rightarrow> input_type option" where
  "input_type_of s = (if s = ''string'' then Some InString else if s = ''number'' then Some InNumber
     else if s = ''boolean'' then Some InBoolean else None)"

fun input_loop :: "(rat \<Rightarrow> string) \<Rightarrow> string list \<Rightarrow> jsval list \<Rightarrow> engine_error + process_input list" where
  "input_loop num seen [] = Inr []"
| "input_loop num seen (entry # entries) =
     sbind (attribute num entry ''@_name'' []) (\<lambda>name.
       if \<not> input_name name \<or> name \<in> set seen then input_loop num seen entries
       else sbind (attribute num entry ''@_type'' []) (\<lambda>ty.
            sbind (opt_attribute num entry ''@_hint'') (\<lambda>hint.
            sbind (input_loop num (name # seen) entries) (\<lambda>rest.
              Inr (\<lparr>in_name = name, in_hint = hint, in_type = input_type_of ty\<rparr> # rest)))))"

text \<open>\<open>extension && typeof extension === 'object'\<close>; an array has no \<open>input\<close>.\<close>

definition parseInputs :: "(rat \<Rightarrow> string) \<Rightarrow> jsval \<Rightarrow> engine_error + process_input list option" where
  "parseInputs num raw =
     sbind (property raw ''extensionElements'') (\<lambda>extension.
       case extension of
         JObject ms \<Rightarrow>
           (case map_of ms ''input'' of
              Some (JArray entries) \<Rightarrow>
                sbind (input_loop num [] entries) (\<lambda>inputs. Inr (if inputs = [] then None else Some inputs))
            | _ \<Rightarrow> Inr None)
       | _ \<Rightarrow> Inr None)"

definition parseStartEvent :: "(rat \<Rightarrow> string) \<Rightarrow> jsval \<Rightarrow> engine_error + flow_element" where
  "parseStartEvent num raw =
     sbind (parseInputs num raw) (\<lambda>inputs.
     sbind (baseElement num raw) (\<lambda>b.
     sbind (parseEventDefinition num raw) (\<lambda>ed. Inr (StartEvent b ed inputs))))"

definition parseEndEvent :: "(rat \<Rightarrow> string) \<Rightarrow> jsval \<Rightarrow> engine_error + flow_element" where
  "parseEndEvent num raw =
     sbind (baseElement num raw) (\<lambda>b. sbind (parseEventDefinition num raw) (\<lambda>ed. Inr (EndEvent b ed)))"

definition parseIntermediateCatchEvent :: "(rat \<Rightarrow> string) \<Rightarrow> jsval \<Rightarrow> engine_error + flow_element" where
  "parseIntermediateCatchEvent num raw =
     sbind (baseElement num raw) (\<lambda>b. sbind (parseEventDefinition num raw) (\<lambda>ed. Inr (IntermediateCatchEvent b ed)))"

definition parseIntermediateThrowEvent :: "(rat \<Rightarrow> string) \<Rightarrow> jsval \<Rightarrow> engine_error + flow_element" where
  "parseIntermediateThrowEvent num raw =
     sbind (baseElement num raw) (\<lambda>b. sbind (parseEventDefinition num raw) (\<lambda>ed. Inr (IntermediateThrowEvent b ed)))"

definition parseBoundaryEvent :: "(rat \<Rightarrow> string) \<Rightarrow> jsval \<Rightarrow> engine_error + flow_element" where
  "parseBoundaryEvent num raw =
     sbind (parseEventDefinition num raw) (\<lambda>ed.
     sbind (property raw ''@_cancelActivity'') (\<lambda>ca.
     sbind (baseElement num raw) (\<lambda>b.
     sbind (attribute num raw ''@_attachedToRef'' []) (\<lambda>host.
       Inr (BoundaryEvent b host (if ed_type ed = CompensationEvent then False else ca \<noteq> JString ''false'') ed)))))"

section \<open>Tasks\<close>

definition is_true :: "jsval \<Rightarrow> bool" where
  "is_true v \<longleftrightarrow> v = JString ''true'' \<or> v = JBool True"

text \<open>\<open>inputElementRaw ? inputElementRaw['@_name'] : undefined\<close>.\<close>

definition name_of_item :: "jsval \<Rightarrow> engine_error + string option" where
  "name_of_item v =
     (if to_boolean (firstOf v) then sbind (property (firstOf v) ''@_name'') (\<lambda>n. Inr (as_string n)) else Inr None)"

definition parseMultiInstanceLoopCharacteristics ::
  "(rat \<Rightarrow> string) \<Rightarrow> jsval \<Rightarrow> engine_error + loop_characteristics option" where
  "parseMultiInstanceLoopCharacteristics num raw =
     sbind (property raw ''multiInstanceLoopCharacteristics'') (\<lambda>v.
       let mi = firstOf v in
       if \<not> to_boolean mi then Inr None
       else
         sbind (property mi ''loopDataInputRef'') (\<lambda>inputRef.
           case extractText num inputRef of
             None \<Rightarrow> Inr None
           | Some inputCollection \<Rightarrow>
               sbind (property mi ''@_isSequential'') (\<lambda>sequential.
               sbind (property mi ''inputDataItem'') (\<lambda>inputItem.
               sbind (name_of_item inputItem) (\<lambda>inputElement.
               sbind (property mi ''outputDataItem'') (\<lambda>outputItem.
               sbind (name_of_item outputItem) (\<lambda>outputElement.
               sbind (property mi ''loopDataOutputRef'') (\<lambda>outputRef.
               sbind (property mi ''completionCondition'') (\<lambda>completion.
                 Inr (Some \<lparr>lc_isSequential = is_true sequential, lc_inputCollection = inputCollection,
                   lc_inputElement = inputElement, lc_outputElement = outputElement,
                   lc_outputCollection = extractText num outputRef,
                   lc_completionCondition = extractText num completion\<rparr>))))))))))"

definition parseIsForCompensation :: "jsval \<Rightarrow> engine_error + bool option" where
  "parseIsForCompensation raw =
     sbind (property raw ''@_isForCompensation'') (\<lambda>v. Inr (if is_true v then Some True else None))"

definition task_attributes :: "(rat \<Rightarrow> string) \<Rightarrow> jsval \<Rightarrow> engine_error + task_common" where
  "task_attributes num raw =
     sbind (parseMultiInstanceLoopCharacteristics num raw) (\<lambda>lc.
     sbind (parseIsForCompensation raw) (\<lambda>fc.
       Inr \<lparr>tc_loopCharacteristics = lc, tc_isForCompensation = fc\<rparr>))"

definition parseServiceTask :: "(rat \<Rightarrow> string) \<Rightarrow> jsval \<Rightarrow> engine_error + flow_element" where
  "parseServiceTask num raw =
     sbind (property raw ''@_nexus:type'') (\<lambda>nexusType.
     sbind (property raw ''@_type'') (\<lambda>ty.
     sbind (task_attributes num raw) (\<lambda>tc.
     sbind (baseElement num raw) (\<lambda>b.
       Inr (ServiceTask b \<lparr>sv_taskType = first_some [as_string nexusType, as_string ty],
         sv_inputMappings = None, sv_outputMappings = None, sv_retryConfig = None\<rparr> tc)))))"

definition parseUserTask :: "(rat \<Rightarrow> string) \<Rightarrow> jsval \<Rightarrow> engine_error + flow_element" where
  "parseUserTask num raw =
     sbind (task_attributes num raw) (\<lambda>tc.
     sbind (baseElement num raw) (\<lambda>b.
     sbind (opt_attribute num raw ''@_assignee'') (\<lambda>assignee.
     sbind (opt_attribute num raw ''@_formKey'') (\<lambda>formKey.
       Inr (UserTask b \<lparr>ut_assignee = assignee, ut_candidateGroups = None, ut_dueDate = None,
         ut_priority = Some 50, ut_formKey = formKey\<rparr> tc)))))"

definition parseScriptTask :: "(rat \<Rightarrow> string) \<Rightarrow> jsval \<Rightarrow> engine_error + flow_element" where
  "parseScriptTask num raw =
     sbind (task_attributes num raw) (\<lambda>tc.
     sbind (baseElement num raw) (\<lambda>b.
     sbind (attribute num raw ''@_scriptFormat'' ''javascript'') (\<lambda>language.
     sbind (property raw ''script'') (\<lambda>script.
       Inr (ScriptTask b \<lparr>st_scriptLanguage = language, st_script = or_empty (extractText num script)\<rparr> tc)))))"

definition parseManualTask :: "(rat \<Rightarrow> string) \<Rightarrow> jsval \<Rightarrow> engine_error + flow_element" where
  "parseManualTask num raw =
     sbind (task_attributes num raw) (\<lambda>tc. sbind (baseElement num raw) (\<lambda>b. Inr (ManualTask b tc)))"

definition parseCallActivity :: "(rat \<Rightarrow> string) \<Rightarrow> jsval \<Rightarrow> engine_error + flow_element" where
  "parseCallActivity num raw =
     sbind (baseElement num raw) (\<lambda>b.
     sbind (attribute num raw ''@_calledElement'' []) (\<lambda>called.
       Inr (CallActivity b \<lparr>ca_calledElement = called, ca_calledElementVersion = None,
         ca_inputMappings = None, ca_outputMappings = None\<rparr>)))"

section \<open>Gateways and flows\<close>

definition parseGateway :: "gateway_kind \<Rightarrow> (rat \<Rightarrow> string) \<Rightarrow> jsval \<Rightarrow> engine_error + flow_element" where
  "parseGateway kind num raw =
     sbind (baseElement num raw) (\<lambda>b.
     sbind (opt_attribute num raw ''@_default'') (\<lambda>dflt.
     sbind (property raw ''@_instantiate'') (\<lambda>inst.
       Inr (Gateway kind b dflt (if kind = EventBased \<and> inst = JString ''true'' then Some True else None)))))"

text \<open>\<open>(raw['conditionExpression'] as unknown[] | undefined)?.[0]\<close>.\<close>

fun first_index :: "jsval \<Rightarrow> jsval" where
  "first_index (JArray (x # xs)) = x"
| "first_index (JString (c # cs)) = JString [c]"
| "first_index (JObject ms) = (case map_of ms ''0'' of Some v \<Rightarrow> v | None \<Rightarrow> JUndefined)"
| "first_index _ = JUndefined"

definition parseSequenceFlow :: "(rat \<Rightarrow> string) \<Rightarrow> jsval \<Rightarrow> engine_error + sequence_flow" where
  "parseSequenceFlow num raw =
     sbind (property raw ''conditionExpression'') (\<lambda>condition.
     sbind (attribute num raw ''@_id'' []) (\<lambda>i.
     sbind (attribute num raw ''@_sourceRef'' []) (\<lambda>source.
     sbind (attribute num raw ''@_targetRef'' []) (\<lambda>target.
       Inr \<lparr>sf_id = i, sf_sourceRef = source, sf_targetRef = target,
            sf_conditionExpression = extractText num (first_index condition), sf_isDefault = None\<rparr>))))"

definition parse_flows :: "(rat \<Rightarrow> string) \<Rightarrow> jsval \<Rightarrow> engine_error + sequence_flow list" where
  "parse_flows num raw = sbind (items_of raw ''sequenceFlow'') (smap (parseSequenceFlow num))"

text \<open>\<open>((raw['sequenceFlow'] ?? []) as \<dots>[]).map(parseSequenceFlow)\<close>: only an array has \<open>map\<close>.\<close>

definition inner_flows :: "(rat \<Rightarrow> string) \<Rightarrow> jsval \<Rightarrow> engine_error + sequence_flow list" where
  "inner_flows num raw =
     sbind (property raw ''sequenceFlow'') (\<lambda>v.
       case nullish_or v (JArray []) of JArray xs \<Rightarrow> smap (parseSequenceFlow num) xs | _ \<Rightarrow> Inl TypeFault)"

section \<open>Elements\<close>

text \<open>The elements of a process or a sub-process, kind by kind; the two sub-process kinds recurse.\<close>

definition parse_all :: "(jsval \<Rightarrow> engine_error + flow_element) \<Rightarrow> jsval \<Rightarrow> string \<Rightarrow> engine_error + flow_element list" where
  "parse_all parser raw key = sbind (items_of raw key) (smap parser)"

definition simple_elements :: "(rat \<Rightarrow> string) \<Rightarrow> jsval \<Rightarrow> engine_error + flow_element list" where
  "simple_elements num raw =
     sbind (smap (\<lambda>(key, parser). parse_all (parser num) raw key)
       [(''startEvent'', parseStartEvent), (''endEvent'', parseEndEvent),
        (''intermediateCatchEvent'', parseIntermediateCatchEvent),
        (''intermediateThrowEvent'', parseIntermediateThrowEvent), (''boundaryEvent'', parseBoundaryEvent),
        (''serviceTask'', parseServiceTask), (''userTask'', parseUserTask), (''scriptTask'', parseScriptTask),
        (''manualTask'', parseManualTask), (''callActivity'', parseCallActivity),
        (''exclusiveGateway'', parseGateway Exclusive), (''parallelGateway'', parseGateway Parallel),
        (''inclusiveGateway'', parseGateway Inclusive), (''eventBasedGateway'', parseGateway EventBased)])
     (\<lambda>groups. Inr (concat groups))"

fun is_start_event :: "flow_element \<Rightarrow> bool" where
  "is_start_event (StartEvent _ _ _) = True"
| "is_start_event _ = False"

fun is_end_event :: "flow_element \<Rightarrow> bool" where
  "is_end_event (EndEvent _ _) = True"
| "is_end_event _ = False"

text \<open>\<open>elements.find(e => e.type === 'startEvent')?.id ?? ''\<close>.\<close>

definition start_id :: "flow_element list \<Rightarrow> string" where
  "start_id elements = (case List.find is_start_event elements of Some e \<Rightarrow> el_id e | None \<Rightarrow> [])"

lemma items_smaller:
  assumes "items_of raw key = Inr items" "x \<in> set items"
  shows "size x < size raw"
proof -
  from assms(1) obtain v where v: "property raw key = Inr v" "iterate (nullish_or v (JArray [])) = Inr items"
    by (auto simp: items_of_def sbind_ok)
  have n: "v \<noteq> JUndefined" "v \<noteq> JNull" using v(2) assms(2) by (auto simp: nullish_or_def)
  with v(1) obtain ms where "raw = JObject ms" by (cases raw) auto
  then have "0 < size raw" by simp
  moreover have "iterate v = Inr items" using v(2) n by (simp add: nullish_or_def)
  ultimately show ?thesis using iterate_size[of v items x] property_size[OF v(1)] assms(2) by auto
qed

function parseElements :: "(rat \<Rightarrow> string) \<Rightarrow> jsval \<Rightarrow> engine_error + flow_element list"
  and parseSubProcess :: "(rat \<Rightarrow> string) \<Rightarrow> bool \<Rightarrow> jsval \<Rightarrow> engine_error + flow_element" where
  "parseElements num raw =
     sbind (simple_elements num raw) (\<lambda>simple.
     sbind (items_of raw ''subProcess'') (\<lambda>subs.
     sbind (smap (\<lambda>x. parseSubProcess num False x) subs) (\<lambda>plain_subs.
     sbind (items_of raw ''transaction'') (\<lambda>txs.
     sbind (smap (\<lambda>x. parseSubProcess num True x) txs) (\<lambda>tx_subs.
       Inr (simple @ plain_subs @ tx_subs))))))"
| "parseSubProcess num isTransaction raw =
     sbind (inner_flows num raw) (\<lambda>flows.
     sbind (parseElements num raw) (\<lambda>inner.
     sbind (baseElement num raw) (\<lambda>b.
       Inr (SubProcess b (if isTransaction then Some True else None) inner flows (start_id inner)))))"
  by pat_completeness auto

termination
  by (relation "measure (\<lambda>x. case x of Inl (num, raw) \<Rightarrow> 2 * size raw | Inr (num, tx, raw) \<Rightarrow> Suc (2 * size raw))")
    (auto dest!: items_smaller)

declare parseElements.simps [simp del] parseSubProcess.simps [simp del]

section \<open>Validation and entry point\<close>

definition unresolved :: "string \<Rightarrow> string \<Rightarrow> sequence_flow \<Rightarrow> string \<Rightarrow> validation_error" where
  "unresolved code side flow ref =
     \<lparr>ve_code = code,
      ve_message = ''Sequence flow '' @ [char_of (34::nat)] @ sf_id flow @ [char_of (34::nat)] @
        '' references unknown '' @ side @ '' element '' @ [char_of (34::nat)] @ ref @ [char_of (34::nat)],
      ve_elementId = Some (sf_id flow)\<rparr>"

definition validate :: "flow_element list \<Rightarrow> sequence_flow list \<Rightarrow> validation_error list" where
  "validate elements flows =
     (if filter is_start_event elements = []
      then [\<lparr>ve_code = ''MISSING_START_EVENT'', ve_message = ''Process has no start event'', ve_elementId = None\<rparr>]
      else []) @
     (if filter is_end_event elements = [] \<and> elements \<noteq> []
      then [\<lparr>ve_code = ''MISSING_END_EVENT'', ve_message = ''Process has no end event'', ve_elementId = None\<rparr>]
      else []) @
     concat (map (\<lambda>flow.
       (if sf_sourceRef flow \<in> el_id ` set elements then []
        else [unresolved ''UNRESOLVED_FLOW_SOURCE'' ''source'' flow (sf_sourceRef flow)]) @
       (if sf_targetRef flow \<in> el_id ` set elements then []
        else [unresolved ''UNRESOLVED_FLOW_TARGET'' ''target'' flow (sf_targetRef flow)])) flows)"

definition collectGateways :: "jsval \<Rightarrow> engine_error + jsval list" where
  "collectGateways raw =
     sbind (smap (items_of raw) [''exclusiveGateway'', ''inclusiveGateway'', ''parallelGateway'', ''eventBasedGateway''])
       (\<lambda>groups. Inr (concat groups))"

text \<open>\<open>const def = raw['@_default']; if (def) defaultFlowIds.add(def)\<close>.\<close>

definition default_flow_ids :: "jsval \<Rightarrow> engine_error + string list" where
  "default_flow_ids raw =
     sbind (collectGateways raw) (\<lambda>gateways.
     sbind (smap (\<lambda>g. property g ''@_default'') gateways) (\<lambda>defaults.
       Inr (filter (\<lambda>s. s \<noteq> []) (List.map_filter as_string defaults))))"

definition mark_default :: "string list \<Rightarrow> sequence_flow \<Rightarrow> sequence_flow" where
  "mark_default ids flow = (if sf_id flow \<in> set ids then flow\<lparr>sf_isDefault := Some True\<rparr> else flow)"

definition parse_process ::
  "(rat \<Rightarrow> string) \<Rightarrow> int \<Rightarrow> jsval \<Rightarrow> engine_error + process_definition \<times> validation_error list" where
  "parse_process num deployedAt raw =
     sbind (parse_flows num raw) (\<lambda>flows.
     sbind (default_flow_ids raw) (\<lambda>defaults.
     sbind (parseElements num raw) (\<lambda>elements.
     sbind (attribute num raw ''@_id'' []) (\<lambda>i.
     sbind (opt_attribute num raw ''@_name'') (\<lambda>name.
       let sequenceFlows = map (mark_default defaults) flows;
           errors = validate elements sequenceFlows
       in Inr (\<lparr>pd_id = i, pd_version = 1, pd_name = name, pd_elements = elements,
                pd_sequenceFlows = sequenceFlows, pd_startEventId = start_id elements,
                pd_deployedAt = deployedAt, pd_isDeployable = (errors = [])\<rparr>, errors))))))"

definition parseBpmn ::
  "(rat \<Rightarrow> string) \<Rightarrow> (string \<Rightarrow> string + jsval) \<Rightarrow> int \<Rightarrow> string
     \<Rightarrow> engine_error + process_definition \<times> validation_error list" where
  "parseBpmn num xml_parse deployedAt xml =
     (case xml_parse xml of
        Inl message \<Rightarrow> Inl (DefinitionError (XmlInvalid message))
      | Inr parsed \<Rightarrow>
          sbind (property parsed ''definitions'') (\<lambda>definitions.
            if \<not> to_boolean definitions then Inl (DefinitionError NoDefinitionsElement)
            else sbind (property definitions ''process'') (\<lambda>rawProcess.
              if \<not> to_boolean rawProcess then Inl (DefinitionError NoProcessElement)
              else parse_process num deployedAt rawProcess)))"

section \<open>Every element of the document, in order\<close>

lemmas parser_defs = parseStartEvent_def parseEndEvent_def parseIntermediateCatchEvent_def
  parseIntermediateThrowEvent_def parseBoundaryEvent_def parseServiceTask_def parseUserTask_def parseScriptTask_def
  parseManualTask_def parseCallActivity_def parseGateway_def

text \<open>What the parser of one kind of element promises: the kind and the id.\<close>

definition reads :: "(rat \<Rightarrow> string) \<Rightarrow> bpmn_element_type \<Rightarrow> (jsval \<Rightarrow> engine_error + flow_element) \<Rightarrow> bool" where
  "reads num ty parser \<longleftrightarrow>
     (\<forall>x e. parser x = Inr e \<longrightarrow> el_type e = ty \<and> attribute num x ''@_id'' [] = Inr (el_id e))"

lemma baseElement_id: "baseElement num raw = Inr b \<Longrightarrow> attribute num raw ''@_id'' [] = Inr (eb_id b)"
  by (auto simp: baseElement_def sbind_ok)

lemma reads_parsers:
  "reads num StartEventT (parseStartEvent num)" "reads num EndEventT (parseEndEvent num)"
  "reads num IntermediateCatchEventT (parseIntermediateCatchEvent num)"
  "reads num IntermediateThrowEventT (parseIntermediateThrowEvent num)"
  "reads num BoundaryEventT (parseBoundaryEvent num)" "reads num ServiceTaskT (parseServiceTask num)"
  "reads num UserTaskT (parseUserTask num)" "reads num ScriptTaskT (parseScriptTask num)"
  "reads num ManualTaskT (parseManualTask num)" "reads num CallActivityT (parseCallActivity num)"
  "reads num (gateway_type k) (parseGateway k num)" "reads num SubProcessT (parseSubProcess num tx)"
  by (auto simp: reads_def parser_defs parseSubProcess.simps sbind_ok baseElement_id)

definition items :: "jsval \<Rightarrow> string \<Rightarrow> jsval list" where
  "items raw key = (case items_of raw key of Inr xs \<Rightarrow> xs | Inl _ \<Rightarrow> [])"

definition id_of :: "(rat \<Rightarrow> string) \<Rightarrow> jsval \<Rightarrow> string" where
  "id_of num x = (case attribute num x ''@_id'' [] of Inr i \<Rightarrow> i | Inl _ \<Rightarrow> [])"

definition element_keys :: "(string \<times> bpmn_element_type) list" where
  "element_keys =
     [(''startEvent'', StartEventT), (''endEvent'', EndEventT), (''intermediateCatchEvent'', IntermediateCatchEventT),
      (''intermediateThrowEvent'', IntermediateThrowEventT), (''boundaryEvent'', BoundaryEventT),
      (''serviceTask'', ServiceTaskT), (''userTask'', UserTaskT), (''scriptTask'', ScriptTaskT),
      (''manualTask'', ManualTaskT), (''callActivity'', CallActivityT), (''exclusiveGateway'', ExclusiveGatewayT),
      (''parallelGateway'', ParallelGatewayT), (''inclusiveGateway'', InclusiveGatewayT),
      (''eventBasedGateway'', EventBasedGatewayT), (''subProcess'', SubProcessT), (''transaction'', SubProcessT)]"

lemma smap_reads:
  "reads num ty parser \<Longrightarrow> smap parser xs = Inr es \<Longrightarrow>
     map (\<lambda>e. (el_type e, el_id e)) es = map (\<lambda>x. (ty, id_of num x)) xs"
  by (induction xs arbitrary: es) (auto simp: sbind_ok reads_def id_of_def)

lemma parse_all_reads:
  "reads num ty parser \<Longrightarrow> parse_all parser raw key = Inr es \<Longrightarrow>
     map (\<lambda>e. (el_type e, el_id e)) es = map (\<lambda>x. (ty, id_of num x)) (items raw key)"
  by (auto simp: parse_all_def sbind_ok items_def smap_reads)

lemma parsed_elements:
  assumes "parseElements num raw = Inr els"
  shows "map (\<lambda>e. (el_type e, el_id e)) els =
    concat (map (\<lambda>(key, ty). map (\<lambda>x. (ty, id_of num x)) (items raw key)) element_keys)"
  using assms
  by (auto simp: parseElements.simps simple_elements_def sbind_ok element_keys_def
      parse_all_reads[OF reads_parsers(1)] parse_all_reads[OF reads_parsers(2)] parse_all_reads[OF reads_parsers(3)]
      parse_all_reads[OF reads_parsers(4)] parse_all_reads[OF reads_parsers(5)] parse_all_reads[OF reads_parsers(6)]
      parse_all_reads[OF reads_parsers(7)] parse_all_reads[OF reads_parsers(8)] parse_all_reads[OF reads_parsers(9)]
      parse_all_reads[OF reads_parsers(10)] parse_all_reads[OF reads_parsers(11), simplified]
      smap_reads[OF reads_parsers(12)] items_def[of raw "''subProcess''"] items_def[of raw "''transaction''"])


text \<open>The tree of a small document: a start event, a user task, an end event and two flows.\<close>

definition raw_node :: "string \<Rightarrow> string list \<Rightarrow> string list \<Rightarrow> jsval" where
  "raw_node i inc out = JObject [(''@_id'', JString i), (''incoming'', JArray (map JString inc)),
     (''outgoing'', JArray (map JString out))]"

definition raw_flow :: "string \<Rightarrow> string \<Rightarrow> string \<Rightarrow> jsval" where
  "raw_flow i s t = JObject [(''@_id'', JString i), (''@_sourceRef'', JString s), (''@_targetRef'', JString t)]"

definition raw_review :: jsval where
  "raw_review = JObject [(''@_id'', JString ''p''),
     (''startEvent'', JArray [raw_node ''s'' [] [''f1'']]),
     (''userTask'', JArray [raw_node ''u'' [''f1''] [''f2'']]),
     (''endEvent'', JArray [raw_node ''e'' [''f2''] []]),
     (''sequenceFlow'', JArray [raw_flow ''f1'' ''s'' ''u'', raw_flow ''f2'' ''u'' ''e''])]"

definition document :: "jsval \<Rightarrow> jsval" where
  "document process = JObject [(''definitions'', JObject [(''process'', process)])]"

definition review_base :: "string \<Rightarrow> string list \<Rightarrow> string list \<Rightarrow> element_base" where
  "review_base i inc out = \<lparr>eb_id = i, eb_name = None, eb_incomingFlows = inc, eb_outgoingFlows = out\<rparr>"

definition review_elements :: "flow_element list" where
  "review_elements =
     [StartEvent (review_base ''s'' [] [''f1'']) (plain_event NoneEvent) None,
      EndEvent (review_base ''e'' [''f2''] []) (plain_event NoneEvent),
      UserTask (review_base ''u'' [''f1''] [''f2''])
        \<lparr>ut_assignee = None, ut_candidateGroups = None, ut_dueDate = None, ut_priority = Some 50, ut_formKey = None\<rparr>
        \<lparr>tc_loopCharacteristics = None, tc_isForCompensation = None\<rparr>]"

lemmas parser_eval = parser_defs parse_all_def simple_elements_def items_of_def property.simps nullish_or_def
  baseElement_def attribute_def opt_attribute_def parseEventDefinition_def if_key_def parseInputs_def
  task_attributes_def parseMultiInstanceLoopCharacteristics_def parseIsForCompensation_def is_true_def
  raw_node_def raw_flow_def

lemma review_parses: "parseElements num raw_review = Inr review_elements"
  by (simp add: parseElements.simps parser_eval raw_review_def review_elements_def review_base_def Let_def
      first_some.simps)


section \<open>Deployable definitions\<close>

lemma is_start_event_type: "is_start_event x = (el_type x = StartEventT)"
proof (cases x)
  case (Gateway k b dflt inst)
  then show ?thesis by (cases k) simp_all
qed simp_all

lemma is_end_event_type: "is_end_event x = (el_type x = EndEventT)"
proof (cases x)
  case (Gateway k b dflt inst)
  then show ?thesis by (cases k) simp_all
qed simp_all

text \<open>Start events come first in the list, so the first one heads it.\<close>

lemma start_first:
  assumes "parseElements num raw = Inr els" "List.find is_start_event els = Some e"
  shows "\<exists>es. els = e # es"
proof (cases els)
  case Nil
  with assms(2) show ?thesis by simp
next
  case (Cons x es)
  have "map fst (map (\<lambda>e. (el_type e, el_id e)) els) =
      map fst (concat (map (\<lambda>(key, ty). map (\<lambda>x. (ty, id_of num x)) (items raw key)) element_keys))"
    by (rule arg_cong[OF parsed_elements[OF assms(1)]])
  then have ty: "map el_type els = map (\<lambda>x. StartEventT) (items raw ''startEvent'') @
      concat (map (\<lambda>(key, ty). map (\<lambda>x. ty) (items raw key)) (tl element_keys))"
    by (simp add: element_keys_def o_def)
  have "el_type x = StartEventT"
  proof (cases "items raw ''startEvent''")
    case Nil
    with ty have "StartEventT \<notin> set (map el_type els)" by (auto simp: element_keys_def)
    moreover from assms(2) have "e \<in> set els" "is_start_event e" by (auto simp: find_Some_iff)
    ultimately show ?thesis by (force simp: is_start_event_type)
  next
    case (Cons y ys)
    with ty \<open>els = x # es\<close> show ?thesis by simp
  qed
  with assms(2) Cons show ?thesis by (simp add: is_start_event_type)
qed

lemma or_else_Some: "\<exists>e. or_else a (Some x) = Some e"
  by (cases a) auto

lemma find_top_level:
  "i \<in> el_id ` set els \<Longrightarrow> \<exists>e. findElementInTree els i = Some e"
proof (induction els)
  case (Cons e els)
  show ?case
  proof (cases "el_id e = i")
    case False
    with Cons obtain x where "findElementInTree els i = Some x" by auto
    with False show ?thesis
      by (cases "sub_parts e") (auto simp: or_else_Some)
  qed simp
qed simp

lemma validate_Nil: "validate els flows = [] \<longleftrightarrow>
    List.find is_start_event els \<noteq> None \<and> (els \<noteq> [] \<longrightarrow> list_ex is_end_event els) \<and>
    list_all (\<lambda>f. sf_sourceRef f \<in> el_id ` set els \<and> sf_targetRef f \<in> el_id ` set els) flows"
  by (auto simp: validate_def filter_empty_conv find_None_iff list_ex_iff list_all_iff)

lemma parse_process_ok:
  assumes "parseBpmn num xml_parse deployedAt xml = Inr (d, errors)"
  obtains raw where "parseElements num raw = Inr (pd_elements d)" "errors = validate (pd_elements d) (pd_sequenceFlows d)"
    "pd_startEventId d = start_id (pd_elements d)" "pd_isDeployable d = (errors = [])"
  using assms by (auto simp: parseBpmn_def parse_process_def sbind_ok Let_def split: sum.splits if_splits)

text \<open>
  C33. What \<open>isDeployable\<close> guarantees the engine: a document is deployable exactly when it has a start
  event, an end event, and no top-level flow to or from an unknown element. Then the start event id
  resolves to a start event, so that starting an instance cannot fail there, and every top-level
  flow leads from an element the engine finds to an element it finds.
\<close>

theorem deployable_definitions_resolve:
  assumes "parseBpmn num xml_parse deployedAt xml = Inr (d, errors)"
  shows "(pd_isDeployable d \<longleftrightarrow> errors = []) \<and>
    (errors = [] \<longleftrightarrow> list_ex is_start_event (pd_elements d) \<and> list_ex is_end_event (pd_elements d) \<and>
       list_all (\<lambda>f. sf_sourceRef f \<in> el_id ` set (pd_elements d) \<and> sf_targetRef f \<in> el_id ` set (pd_elements d))
         (pd_sequenceFlows d)) \<and>
    (errors = [] \<longrightarrow> (\<exists>b ed inputs. getElement d (pd_startEventId d) = Some (Inr (StartEvent b ed inputs))) \<and>
       list_all (\<lambda>f. (\<exists>e. getElement d (sf_sourceRef f) = Some (Inr e)) \<and>
         (\<exists>e. getElement d (sf_targetRef f) = Some (Inr e))) (pd_sequenceFlows d))"
proof -
  obtain raw where p: "parseElements num raw = Inr (pd_elements d)" "errors = validate (pd_elements d) (pd_sequenceFlows d)"
    "pd_startEventId d = start_id (pd_elements d)" "pd_isDeployable d = (errors = [])"
    using assms by (rule parse_process_ok)
  have e: "errors = [] \<longleftrightarrow> list_ex is_start_event (pd_elements d) \<and> list_ex is_end_event (pd_elements d) \<and>
       list_all (\<lambda>f. sf_sourceRef f \<in> el_id ` set (pd_elements d) \<and> sf_targetRef f \<in> el_id ` set (pd_elements d))
         (pd_sequenceFlows d)"
    unfolding p(2) validate_Nil by (auto simp: find_None_iff list_ex_iff)
  have "\<exists>b ed inputs. getElement d (pd_startEventId d) = Some (Inr (StartEvent b ed inputs))" if nil: "errors = []"
  proof -
    from nil obtain x where x: "List.find is_start_event (pd_elements d) = Some x"
      unfolding p(2) validate_Nil by blast
    then obtain b ed inputs where "x = StartEvent b ed inputs"
      by (auto simp: find_Some_iff elim: is_start_event.elims)
    moreover obtain es where "pd_elements d = x # es" using start_first[OF p(1) x] by blast
    ultimately show ?thesis using p(3) x by (simp add: getElement_ok start_id_def)
  qed
  moreover have "list_all (\<lambda>f. (\<exists>e. getElement d (sf_sourceRef f) = Some (Inr e)) \<and>
         (\<exists>e. getElement d (sf_targetRef f) = Some (Inr e))) (pd_sequenceFlows d)" if "errors = []"
    using that find_top_level[of _ "pd_elements d"] unfolding e by (auto simp: list_all_iff getElement_ok)
  ultimately show ?thesis using e p(4) by blast
qed

definition parsed_review :: process_definition where
  "parsed_review = \<lparr>pd_id = ''p'', pd_version = 1, pd_name = None, pd_elements = review_elements,
     pd_sequenceFlows = [\<lparr>sf_id = ''f1'', sf_sourceRef = ''s'', sf_targetRef = ''u'', sf_conditionExpression = None,
         sf_isDefault = None\<rparr>,
       \<lparr>sf_id = ''f2'', sf_sourceRef = ''u'', sf_targetRef = ''e'', sf_conditionExpression = None, sf_isDefault = None\<rparr>],
     pd_startEventId = ''s'', pd_deployedAt = 0, pd_isDeployable = True\<rparr>"

lemma review_document:
  "parseBpmn (\<lambda>_. []) (\<lambda>_. Inr (document raw_review)) 0 ''<xml>'' = Inr (parsed_review, [])"
proof -
  have f: "parse_flows (\<lambda>_. []) raw_review = Inr (pd_sequenceFlows parsed_review)"
    by (simp add: parse_flows_def parser_eval raw_review_def parseSequenceFlow_def parsed_review_def)
  have d: "default_flow_ids raw_review = Inr []"
    by (simp add: default_flow_ids_def collectGateways_def parser_eval raw_review_def List.map_filter_def)
  have a: "attribute (\<lambda>_. []) raw_review ''@_id'' [] = Inr ''p''" "opt_attribute (\<lambda>_. []) raw_review ''@_name'' = Inr None"
    by (simp_all add: parser_eval raw_review_def)
  have v: "validate review_elements (pd_sequenceFlows parsed_review) = []"
    by (simp add: validate_def review_elements_def review_base_def parsed_review_def)
  have "parse_process (\<lambda>_. []) 0 raw_review = Inr (parsed_review, [])"
    using v by (simp add: parse_process_def f d a review_parses mark_default_def[abs_def])
      (simp add: parsed_review_def start_id_def review_elements_def review_base_def)
  moreover have "to_boolean raw_review" by (simp add: raw_review_def)
  ultimately show ?thesis by (simp add: parseBpmn_def document_def)
qed

theorem deployable_definitions_resolve_witness:
  "\<exists>b ed inputs. getElement parsed_review (pd_startEventId parsed_review) = Some (Inr (StartEvent b ed inputs))"
  using deployable_definitions_resolve[OF review_document] by blast

section \<open>What validation does not see\<close>

text \<open>
  The inside of a sub-process is not validated: a process whose sub-process is empty is deployable,
  although the sub-process has no start event and its start id, the empty string, names no element.
\<close>

definition raw_hollow :: jsval where
  "raw_hollow = JObject [(''@_id'', JString ''p''),
     (''startEvent'', JArray [raw_node ''s'' [] [''f1'']]),
     (''subProcess'', JArray [raw_node ''sub'' [''f1''] [''f2'']]),
     (''endEvent'', JArray [raw_node ''e'' [''f2''] []]),
     (''sequenceFlow'', JArray [raw_flow ''f1'' ''s'' ''sub'', raw_flow ''f2'' ''sub'' ''e''])]"

definition parsed_hollow :: process_definition where
  "parsed_hollow = \<lparr>pd_id = ''p'', pd_version = 1, pd_name = None, pd_elements =
       [StartEvent (review_base ''s'' [] [''f1'']) (plain_event NoneEvent) None,
        EndEvent (review_base ''e'' [''f2''] []) (plain_event NoneEvent),
        SubProcess (review_base ''sub'' [''f1''] [''f2'']) None [] [] []],
     pd_sequenceFlows = [\<lparr>sf_id = ''f1'', sf_sourceRef = ''s'', sf_targetRef = ''sub'', sf_conditionExpression = None,
         sf_isDefault = None\<rparr>,
       \<lparr>sf_id = ''f2'', sf_sourceRef = ''sub'', sf_targetRef = ''e'', sf_conditionExpression = None, sf_isDefault = None\<rparr>],
     pd_startEventId = ''s'', pd_deployedAt = 0, pd_isDeployable = True\<rparr>"

lemma hollow_document:
  "parseBpmn (\<lambda>_. []) (\<lambda>_. Inr (document raw_hollow)) 0 ''<xml>'' = Inr (parsed_hollow, [])"
proof -
  have f: "parse_flows (\<lambda>_. []) raw_hollow = Inr (pd_sequenceFlows parsed_hollow)"
    by (simp add: parse_flows_def parser_eval raw_hollow_def parseSequenceFlow_def parsed_hollow_def)
  have d: "default_flow_ids raw_hollow = Inr []"
    by (simp add: default_flow_ids_def collectGateways_def parser_eval raw_hollow_def List.map_filter_def)
  have a: "attribute (\<lambda>_. []) raw_hollow ''@_id'' [] = Inr ''p''" "opt_attribute (\<lambda>_. []) raw_hollow ''@_name'' = Inr None"
    by (simp_all add: parser_eval raw_hollow_def)
  have e: "parseElements (\<lambda>_. []) raw_hollow = Inr (pd_elements parsed_hollow)"
    by (simp add: parseElements.simps parseSubProcess.simps inner_flows_def parser_eval raw_hollow_def parsed_hollow_def
        review_base_def Let_def start_id_def first_some.simps)
  have v: "validate (pd_elements parsed_hollow) (pd_sequenceFlows parsed_hollow) = []"
    by (simp add: validate_def review_base_def parsed_hollow_def)
  have "parse_process (\<lambda>_. []) 0 raw_hollow = Inr (parsed_hollow, [])"
    using v by (simp add: parse_process_def f d a e mark_default_def[abs_def])
      (simp add: parsed_hollow_def start_id_def review_base_def)
  moreover have "to_boolean raw_hollow" by (simp add: raw_hollow_def)
  ultimately show ?thesis by (simp add: parseBpmn_def document_def)
qed

text \<open>
  The \<open>outgoing\<close> children of an element, optional in BPMN, are not compared with the flows that leave
  it: without them a process is deployable although its elements have no outgoing flow.
\<close>

definition raw_silent :: jsval where
  "raw_silent = JObject [(''@_id'', JString ''p''),
     (''startEvent'', JArray [JObject [(''@_id'', JString ''s'')]]),
     (''endEvent'', JArray [JObject [(''@_id'', JString ''e'')]]),
     (''sequenceFlow'', JArray [raw_flow ''f'' ''s'' ''e''])]"

definition parsed_silent :: process_definition where
  "parsed_silent = \<lparr>pd_id = ''p'', pd_version = 1, pd_name = None, pd_elements =
       [StartEvent (review_base ''s'' [] []) (plain_event NoneEvent) None,
        EndEvent (review_base ''e'' [] []) (plain_event NoneEvent)],
     pd_sequenceFlows = [\<lparr>sf_id = ''f'', sf_sourceRef = ''s'', sf_targetRef = ''e'', sf_conditionExpression = None,
         sf_isDefault = None\<rparr>],
     pd_startEventId = ''s'', pd_deployedAt = 0, pd_isDeployable = True\<rparr>"

lemma silent_document:
  "parseBpmn (\<lambda>_. []) (\<lambda>_. Inr (document raw_silent)) 0 ''<xml>'' = Inr (parsed_silent, [])"
proof -
  have f: "parse_flows (\<lambda>_. []) raw_silent = Inr (pd_sequenceFlows parsed_silent)"
    by (simp add: parse_flows_def parser_eval raw_silent_def parseSequenceFlow_def parsed_silent_def)
  have d: "default_flow_ids raw_silent = Inr []"
    by (simp add: default_flow_ids_def collectGateways_def parser_eval raw_silent_def List.map_filter_def)
  have a: "attribute (\<lambda>_. []) raw_silent ''@_id'' [] = Inr ''p''" "opt_attribute (\<lambda>_. []) raw_silent ''@_name'' = Inr None"
    by (simp_all add: parser_eval raw_silent_def)
  have e: "parseElements (\<lambda>_. []) raw_silent = Inr (pd_elements parsed_silent)"
    by (simp add: parseElements.simps parser_eval raw_silent_def parsed_silent_def review_base_def Let_def)
  have v: "validate (pd_elements parsed_silent) (pd_sequenceFlows parsed_silent) = []"
    by (simp add: validate_def review_base_def parsed_silent_def)
  have "parse_process (\<lambda>_. []) 0 raw_silent = Inr (parsed_silent, [])"
    using v by (simp add: parse_process_def f d a e mark_default_def[abs_def])
      (simp add: parsed_silent_def start_id_def review_base_def)
  moreover have "to_boolean raw_silent" by (simp add: raw_silent_def)
  ultimately show ?thesis by (simp add: parseBpmn_def document_def)
qed

text \<open>
  An event without attributes and children reaches \<open>hasKey\<close> as a plain string, on which \<open>in\<close> throws: the
  caller gets a \<open>TypeError\<close> where every other malformed document is a \<open>DefinitionError\<close> or a
  validation error.
\<close>

lemma bare_event_is_a_type_error:
  "parseBpmn num (\<lambda>_. Inr (document (JObject [(''startEvent'', JArray [JString []])]))) t ''<xml>'' = Inl TypeFault"
  by (simp add: parseBpmn_def document_def parse_process_def parse_flows_def default_flow_ids_def collectGateways_def
      parser_eval parseElements.simps List.map_filter_def)

end
