(* ===== verification/Login_Throttle.thy ===== *)
theory Login_Throttle
  imports Nexus_Prelude
begin

text \<open>
  \<open>auth/LoginThrottle.ts\<close> of the app: failed sign-ins counted per key, keys that fail too often
  locked. The \<open>Map\<close> of entries is an association list in insertion order; every reading of the clock
  is an argument, so an operation that reads it twice has two. Attempts are the operations
  \<open>Begin\<close>, \<open>Fail\<close> and \<open>Release\<close> of a run, \<open>settle\<close> naming the attempt by its start time as the
  closures do.
\<close>

section \<open>State\<close>

record throttle_options =
  to_maxFailures :: nat
  to_windowMs :: int
  to_lockMs :: int
  to_maxKeys :: nat
  to_pendingTtlMs :: int

text \<open>The constructor's defaults for the options that may be missing.\<close>

definition throttle_options_of :: "nat \<Rightarrow> int \<Rightarrow> int \<Rightarrow> nat option \<Rightarrow> int option \<Rightarrow> throttle_options" where
  "throttle_options_of maxFailures windowMs lockMs maxKeys pendingTtlMs =
     \<lparr>to_maxFailures = maxFailures, to_windowMs = windowMs, to_lockMs = lockMs,
      to_maxKeys = (case maxKeys of Some n \<Rightarrow> n | None \<Rightarrow> 10000),
      to_pendingTtlMs = (case pendingTtlMs of Some n \<Rightarrow> n | None \<Rightarrow> 60000)\<rparr>"

record throttle_entry =
  te_failures :: "int list"
  te_pending :: "int list"
  te_lockedUntil :: int

type_synonym throttle = "(string \<times> throttle_entry) list"

text \<open>\<open>retryAfterSeconds\<close> is \<open>Infinity\<close> (\<open>None\<close>) when no entry can ever free a slot.\<close>

datatype throttle_result = Allowed | Refused "int option"

definition fresh_entry :: throttle_entry where
  "fresh_entry = \<lparr>te_failures = [], te_pending = [], te_lockedUntil = 0\<rparr>"

text \<open>\<open>Math.ceil(ms / 1000)\<close>.\<close>

definition ceil_seconds :: "int \<Rightarrow> int" where
  "ceil_seconds ms = - ((- ms) div 1000)"

section \<open>Operations\<close>

definition isLocked :: "throttle_entry \<Rightarrow> int \<Rightarrow> bool" where
  "isLocked entry n \<longleftrightarrow> te_lockedUntil entry > n"

definition activeFailures :: "throttle_options \<Rightarrow> throttle_entry \<Rightarrow> int \<Rightarrow> nat" where
  "activeFailures opts entry n = length (filter (\<lambda>t. n - t < to_windowMs opts) (te_failures entry))"

definition activePending :: "throttle_options \<Rightarrow> throttle_entry \<Rightarrow> int \<Rightarrow> nat" where
  "activePending opts entry n = length (filter (\<lambda>t. n - t < to_pendingTtlMs opts) (te_pending entry))"

definition isStale :: "throttle_options \<Rightarrow> throttle_entry \<Rightarrow> int \<Rightarrow> bool" where
  "isStale opts entry n \<longleftrightarrow>
     \<not> isLocked entry n \<and> activeFailures opts entry n = 0 \<and> activePending opts entry n = 0"

definition canMakeRoom :: "int \<Rightarrow> throttle \<Rightarrow> bool" where
  "canMakeRoom n entries = list_ex (\<lambda>(k, entry). \<not> isLocked entry n) entries"

fun earliestUnlock :: "throttle \<Rightarrow> int option" where
  "earliestUnlock [] = None"
| "earliestUnlock ((k, entry) # entries) =
     (case earliestUnlock entries of None \<Rightarrow> Some (te_lockedUntil entry)
      | Some u \<Rightarrow> Some (min (te_lockedUntil entry) u))"

text \<open>The second loop of \<open>makeRoom\<close>: \<open>size\<close> counts the entries that are left.\<close>

fun evict :: "nat \<Rightarrow> int \<Rightarrow> nat \<Rightarrow> throttle \<Rightarrow> throttle" where
  "evict maxKeys n sz [] = []"
| "evict maxKeys n sz ((k, entry) # entries) =
     (if sz < maxKeys then (k, entry) # entries
      else if \<not> isLocked entry n then evict maxKeys n (sz - 1) entries
      else (k, entry) # evict maxKeys n sz entries)"

definition makeRoom :: "throttle_options \<Rightarrow> int \<Rightarrow> throttle \<Rightarrow> bool \<times> throttle" where
  "makeRoom opts n entries =
     (if length entries < to_maxKeys opts then (True, entries)
      else
        let alive = filter (\<lambda>(k, entry). \<not> isStale opts entry n) entries;
            left = evict (to_maxKeys opts) n (length alive) alive
        in (length left < to_maxKeys opts, left))"

definition check :: "throttle_options \<Rightarrow> string \<Rightarrow> int \<Rightarrow> throttle \<Rightarrow> throttle_result" where
  "check opts key n entries =
     (case map_of entries key of
        Some entry \<Rightarrow>
          let remaining = te_lockedUntil entry - n in
          if remaining > 0 then Refused (Some (ceil_seconds remaining))
          else if activeFailures opts entry n + activePending opts entry n \<ge> to_maxFailures opts
          then Refused (Some 1) else Allowed
      | None \<Rightarrow>
          if length entries \<ge> to_maxKeys opts \<and> \<not> canMakeRoom n entries
          then Refused (map_option (\<lambda>u. max 1 (ceil_seconds (u - n))) (earliestUnlock entries))
          else Allowed)"

text \<open>The entry of a key, created if missing and if there is room.\<close>

definition with_entry :: "throttle_options \<Rightarrow> string \<Rightarrow> int \<Rightarrow> (throttle_entry \<Rightarrow> throttle_entry) \<Rightarrow>
    throttle \<Rightarrow> bool \<times> throttle" where
  "with_entry opts key n change entries =
     (case map_of entries key of
        Some entry \<Rightarrow> (True, AList.update key (change entry) entries)
      | None \<Rightarrow>
          (case makeRoom opts n entries of
             (False, left) \<Rightarrow> (False, left)
           | (True, left) \<Rightarrow> (True, AList.update key (change fresh_entry) left)))"

definition begin_attempt ::
  "throttle_options \<Rightarrow> string \<Rightarrow> int \<Rightarrow> int \<Rightarrow> throttle \<Rightarrow> throttle_result \<times> throttle" where
  "begin_attempt opts key n1 n2 entries =
     (case check opts key n1 entries of
        Refused r \<Rightarrow> (Refused r, entries)
      | Allowed \<Rightarrow>
          (case with_entry opts key n2 (\<lambda>entry. entry\<lparr>te_pending := te_pending entry @ [n2]\<rparr>) entries of
             (True, entries') \<Rightarrow> (Allowed, entries')
           | (False, entries') \<Rightarrow> (Refused (Some 1), entries')))"

definition settle :: "string \<Rightarrow> int \<Rightarrow> throttle \<Rightarrow> throttle" where
  "settle key started entries =
     (case map_of entries key of
        Some entry \<Rightarrow> AList.update key (entry\<lparr>te_pending := remove1 started (te_pending entry)\<rparr>) entries
      | None \<Rightarrow> entries)"

definition add_to :: "throttle_options \<Rightarrow> int \<Rightarrow> throttle_entry \<Rightarrow> throttle_entry" where
  "add_to opts n entry =
     (let failures = filter (\<lambda>t. n - t < to_windowMs opts) (te_failures entry) @ [n] in
      if length failures \<ge> to_maxFailures opts
      then entry\<lparr>te_failures := [], te_lockedUntil := n + to_lockMs opts\<rparr>
      else entry\<lparr>te_failures := failures\<rparr>)"

definition addFailure :: "throttle_options \<Rightarrow> string \<Rightarrow> int \<Rightarrow> throttle \<Rightarrow> throttle" where
  "addFailure opts key n entries = snd (with_entry opts key n (add_to opts n) entries)"

definition fail_attempt :: "throttle_options \<Rightarrow> string \<Rightarrow> int \<Rightarrow> int \<Rightarrow> throttle \<Rightarrow> throttle" where
  "fail_attempt opts key started n entries = addFailure opts key n (settle key started entries)"

definition recordFailure :: "throttle_options \<Rightarrow> string \<Rightarrow> int \<Rightarrow> throttle \<Rightarrow> throttle" where
  "recordFailure = addFailure"

definition recordSuccess :: "throttle_options \<Rightarrow> string \<Rightarrow> int \<Rightarrow> int \<Rightarrow> throttle \<Rightarrow> throttle" where
  "recordSuccess opts key n1 n2 entries =
     (case map_of entries key of
        None \<Rightarrow> entries
      | Some entry \<Rightarrow>
          if te_lockedUntil entry > n1 then entries
          else
            let entry' = entry\<lparr>te_failures := []\<rparr> in
            if activePending opts entry' n2 = 0 then AList.delete key entries
            else AList.update key entry' entries)"

section \<open>Runs\<close>

text \<open>One call of a method, each reading of the clock not before the one before.\<close>

inductive throttle_step :: "throttle_options \<Rightarrow> int \<times> throttle \<Rightarrow> int \<times> throttle \<Rightarrow> bool" for opts where
  tick_clock: "n \<le> n' \<Longrightarrow> throttle_step opts (n, es) (n', es)"
| begin_key: "n \<le> n1 \<Longrightarrow> n1 \<le> n2 \<Longrightarrow> throttle_step opts (n, es) (n2, snd (begin_attempt opts key n1 n2 es))"
| fail_key: "n \<le> n1 \<Longrightarrow> throttle_step opts (n, es) (n1, fail_attempt opts key started n1 es)"
| release_key: "throttle_step opts (n, es) (n, settle key started es)"
| failure: "n \<le> n1 \<Longrightarrow> throttle_step opts (n, es) (n1, recordFailure opts key n1 es)"
| success: "n \<le> n1 \<Longrightarrow> n1 \<le> n2 \<Longrightarrow> throttle_step opts (n, es) (n2, recordSuccess opts key n1 n2 es)"

abbreviation throttle_run :: "throttle_options \<Rightarrow> int \<times> throttle \<Rightarrow> int \<times> throttle \<Rightarrow> bool" where
  "throttle_run opts \<equiv> (throttle_step opts)\<^sup>*\<^sup>*"

inductive_cases throttle_stepE: "throttle_step opts s s'"


section \<open>The table\<close>

definition bounded_table :: "throttle_options \<Rightarrow> throttle \<Rightarrow> bool" where
  "bounded_table opts es \<longleftrightarrow> distinct (map fst es) \<and> length es \<le> to_maxKeys opts"

lemma keys_distinct_filter: "distinct (map fst es) \<Longrightarrow> distinct (map fst (filter P es))"
  by (induction es) auto

lemma map_of_filter_keep:
  "distinct (map fst es) \<Longrightarrow> map_of es k = Some e \<Longrightarrow> P (k, e) \<Longrightarrow> map_of (filter P es) k = Some e"
  by (induction es) (auto simp: map_of_eq_None_iff dest: map_of_SomeD split: if_splits)

lemma evict_subset: "set (evict m n d es) \<subseteq> set es"
  by (induction m n d es rule: evict.induct) auto

lemma evict_distinct: "distinct (map fst es) \<Longrightarrow> distinct (map fst (evict m n d es))"
  by (induction m n d es rule: evict.induct) (auto dest!: set_mp[OF evict_subset] simp: image_iff)

lemma evict_length: "length (evict m n d es) \<le> length es"
  by (induction m n d es rule: evict.induct) (auto simp: le_Suc_eq)

text \<open>Eviction takes unlocked entries only, and stops as soon as there is room.\<close>

lemma evict_keeps_locks: "map_of es k = Some e \<Longrightarrow> isLocked e n \<Longrightarrow> map_of (evict m n d es) k = Some e"
  by (induction m n d es rule: evict.induct) (auto split: if_splits)

lemma evict_makes_room:
  "0 < m \<Longrightarrow> d \<le> m \<Longrightarrow> length es \<le> d \<Longrightarrow> list_ex (\<lambda>(k, e). \<not> isLocked e n) es \<Longrightarrow>
     length (evict m n d es) + (d - length es) < m"
proof (induction m n d es rule: evict.induct)
  case (2 m n d k e es)
  show ?case
  proof (cases "d < m")
    case False
    then have d: "d = m" using 2 by simp
    show ?thesis
    proof (cases "isLocked e n")
      case True
      then have "length (evict m n d es) + (d - length es) < m"
        using 2 False by auto
      with True False 2 show ?thesis by auto
    next
      case False
      then show ?thesis using 2 d evict_length[of m n "d - 1" es] by auto
    qed
  qed (use 2 in auto)
qed simp

lemma evict_room_left: "d < m \<Longrightarrow> evict m n d es = es"
  by (cases es) auto

lemma makeRoom_table:
  assumes "bounded_table opts es" "makeRoom opts n es = (ok, left)"
  shows "bounded_table opts left \<and> (ok \<longleftrightarrow> length left < to_maxKeys opts)"
proof -
  have "length (evict m n d (filter P es)) \<le> length es" for m d P
    by (rule order_trans[OF evict_length length_filter_le])
  with assms show ?thesis
    by (auto simp: makeRoom_def bounded_table_def Let_def evict_distinct keys_distinct_filter split: if_splits
        intro: order_trans)
qed

lemma makeRoom_keeps_locks:
  assumes "bounded_table opts es" "makeRoom opts n es = (ok, left)" "map_of es k = Some e" "isLocked e n"
  shows "map_of left k = Some e"
proof -
  have "map_of (filter (\<lambda>(k, entry). \<not> isStale opts entry n) es) k = Some e"
    using assms by (intro map_of_filter_keep) (auto simp: bounded_table_def isStale_def)
  with assms(2,3,4) show ?thesis
    by (auto simp: makeRoom_def Let_def evict_keeps_locks split: if_splits)
qed

lemma makeRoom_succeeds:
  assumes "bounded_table opts es" "0 < to_maxKeys opts" "length es < to_maxKeys opts \<or> canMakeRoom n es"
  shows "fst (makeRoom opts n es)"
proof (cases "length es < to_maxKeys opts")
  case False
  define alive where "alive = filter (\<lambda>(k, entry). \<not> isStale opts entry n) es"
  have le: "length alive \<le> to_maxKeys opts" using assms(1) length_filter_le[of _ es]
    unfolding alive_def bounded_table_def by (meson order_trans)
  have "length (evict (to_maxKeys opts) n (length alive) alive) < to_maxKeys opts"
  proof (cases "length alive < to_maxKeys opts")
    case False
    with le \<open>\<not> length es < _\<close> assms(1) have "length alive = length es"
      by (simp add: bounded_table_def)
    then have "alive = es"
      unfolding alive_def by (metis filter_id_conv length_filter_less nat_neq_iff)
    with assms False le show ?thesis
      using evict_makes_room[of "to_maxKeys opts" "length alive" alive n] by (simp add: canMakeRoom_def)
  qed (simp add: evict_room_left)
  with False show ?thesis by (simp add: makeRoom_def Let_def alive_def)
qed (simp add: makeRoom_def)


section \<open>Every operation keeps the table bounded and the locks in force\<close>

definition locked_until :: "throttle \<Rightarrow> string \<Rightarrow> int \<Rightarrow> bool" where
  "locked_until es k u \<longleftrightarrow> (\<exists>e. map_of es k = Some e \<and> u \<le> te_lockedUntil e)"

definition locks_by :: "int \<Rightarrow> throttle \<Rightarrow> bool" where
  "locks_by b es \<longleftrightarrow> (\<forall>(k, e)\<in>set es. te_lockedUntil e \<le> b)"

lemma length_update: "length (AList.update k v es) = (if k \<in> fst ` set es then length es else Suc (length es))"
  using arg_cong[OF keys_update[of k v es], of length] by (cases "k \<in> fst ` set es") simp_all

lemma update_table:
  "bounded_table opts es \<Longrightarrow> k \<in> fst ` set es \<or> length es < to_maxKeys opts \<Longrightarrow> bounded_table opts (AList.update k v es)"
  by (auto simp: bounded_table_def distinct_update length_update)

lemma delete_table: "bounded_table opts es \<Longrightarrow> bounded_table opts (AList.delete k es)"
  unfolding bounded_table_def AList.delete_eq
  by (blast intro: keys_distinct_filter order_trans[OF length_filter_le])

lemma delete_subset: "set (AList.delete k es) \<subseteq> set es"
  by (auto simp: AList.delete_eq)

lemma locks_by_get: "locks_by b es \<Longrightarrow> map_of es k = Some e \<Longrightarrow> te_lockedUntil e \<le> b"
  by (auto simp: locks_by_def dest!: map_of_SomeD)

lemma locks_by_subset: "locks_by b es \<Longrightarrow> set es' \<subseteq> set es \<Longrightarrow> locks_by b es'"
  by (auto simp: locks_by_def)

lemma locks_by_update: "locks_by b es \<Longrightarrow> te_lockedUntil v \<le> b \<Longrightarrow> locks_by b (AList.update k v es)"
  by (auto simp: locks_by_def dest!: in_set_update)

lemma locks_by_mono: "locks_by b es \<Longrightarrow> b \<le> b' \<Longrightarrow> locks_by b' es"
  by (auto simp: locks_by_def)

lemma with_entry_table:
  "bounded_table opts es \<Longrightarrow> bounded_table opts (snd (with_entry opts k n change es))"
  by (auto simp: with_entry_def update_table map_of_some_key makeRoom_table split: option.splits prod.splits bool.splits
      dest: makeRoom_table)

lemma with_entry_locks:
  assumes "bounded_table opts es" "locked_until es k u" "n < u"
    and "\<And>e. u \<le> te_lockedUntil e \<Longrightarrow> u \<le> te_lockedUntil (change e)"
  shows "locked_until (snd (with_entry opts k' n change es)) k u"
proof -
  from assms(2) obtain e where e: "map_of es k = Some e" "u \<le> te_lockedUntil e" by (auto simp: locked_until_def)
  then have "map_of left k = Some e" if "makeRoom opts n es = (ok, left)" for ok left
    using makeRoom_keeps_locks[OF assms(1) that] assms(3) by (auto simp: isLocked_def)
  with e assms(4) show ?thesis
    by (auto simp: with_entry_def locked_until_def jsmap_simps split: option.splits prod.splits bool.splits)
qed

lemma makeRoom_subset: "makeRoom opts n es = (ok, left) \<Longrightarrow> set left \<subseteq> set es"
  by (auto simp: makeRoom_def Let_def split: if_splits dest!: set_mp[OF evict_subset])

lemma with_entry_by:
  assumes "locks_by b es" "0 \<le> b" and "\<And>e. te_lockedUntil e \<le> b \<Longrightarrow> te_lockedUntil (change e) \<le> b"
  shows "locks_by b (snd (with_entry opts k n change es))"
proof (cases "map_of es k")
  case (Some e)
  with assms show ?thesis by (simp add: with_entry_def locks_by_update locks_by_get)
next
  case None
  obtain ok left where m: "makeRoom opts n es = (ok, left)" by (cases "makeRoom opts n es")
  with locks_by_subset[OF assms(1) makeRoom_subset[OF m]] None assms(2,3) show ?thesis
    by (auto simp: with_entry_def fresh_entry_def intro: locks_by_update split: bool.splits)
qed

definition throttle_ok :: "throttle_options \<Rightarrow> int \<times> throttle \<Rightarrow> bool" where
  "throttle_ok opts = (\<lambda>(n, es). 0 \<le> n \<and> bounded_table opts es \<and> locks_by (n + to_lockMs opts) es)"

lemma begin_snd:
  "snd (begin_attempt opts k n1 n2 es) = es \<or>
   snd (begin_attempt opts k n1 n2 es) =
     snd (with_entry opts k n2 (\<lambda>entry. entry\<lparr>te_pending := te_pending entry @ [n2]\<rparr>) es)"
  by (auto simp: begin_attempt_def split: throttle_result.splits prod.splits bool.splits)

lemma settle_ok:
  "throttle_ok opts (n, es) \<Longrightarrow> throttle_ok opts (n, settle k t es)"
  "locked_until es k' u \<Longrightarrow> locked_until (settle k t es) k' u"
  by (auto simp: throttle_ok_def settle_def update_table map_of_some_key locks_by_update locks_by_get
      locked_until_def jsmap_simps split: option.splits)

lemma addFailure_ok:
  assumes "throttle_ok opts (n, es)" "n \<le> n'" "0 \<le> to_lockMs opts"
  shows "throttle_ok opts (n', addFailure opts k n' es)"
    and "locked_until es k' u \<Longrightarrow> n' < u \<Longrightarrow> locked_until (addFailure opts k n' es) k' u"
proof -
  have ok: "bounded_table opts es" "locks_by (n + to_lockMs opts) es" "0 \<le> n" using assms(1) by (auto simp: throttle_ok_def)
  show "throttle_ok opts (n', addFailure opts k n' es)"
    using ok(1,3) assms(2,3) with_entry_by[OF locks_by_mono[OF ok(2), of "n' + to_lockMs opts"], of "add_to opts n'" opts k n']
    by (auto simp: throttle_ok_def addFailure_def with_entry_table add_to_def Let_def)
  assume l: "locked_until es k' u" "n' < u"
  then have "u \<le> n + to_lockMs opts" using ok(2) by (fastforce simp: locked_until_def locks_by_def dest!: map_of_SomeD)
  then show "locked_until (addFailure opts k n' es) k' u"
    using l assms(2) unfolding addFailure_def
    by (intro with_entry_locks[OF ok(1)]) (auto simp: add_to_def Let_def split: if_splits)
qed

lemma begin_ok:
  assumes "throttle_ok opts (n, es)" "n \<le> n2" "0 \<le> to_lockMs opts"
  shows "throttle_ok opts (n2, snd (begin_attempt opts k n1 n2 es))"
    and "locked_until es k' u \<Longrightarrow> n2 < u \<Longrightarrow> locked_until (snd (begin_attempt opts k n1 n2 es)) k' u"
proof -
  have ok: "bounded_table opts es" "locks_by (n2 + to_lockMs opts) es" "0 \<le> n2"
    using assms by (auto simp: throttle_ok_def elim: locks_by_mono)
  show "throttle_ok opts (n2, snd (begin_attempt opts k n1 n2 es))"
    using begin_snd[of opts k n1 n2 es] ok assms(3)
    by (auto simp: throttle_ok_def intro!: with_entry_table with_entry_by)
  show "locked_until es k' u \<Longrightarrow> n2 < u \<Longrightarrow> locked_until (snd (begin_attempt opts k n1 n2 es)) k' u"
    using begin_snd[of opts k n1 n2 es] by (auto intro!: with_entry_locks[OF ok(1)])
qed

lemma success_ok:
  assumes "throttle_ok opts (n, es)" "n \<le> n1" "n1 \<le> n2"
  shows "throttle_ok opts (n2, recordSuccess opts k n1 n2 es)"
    and "locked_until es k' u \<Longrightarrow> n2 < u \<Longrightarrow> locked_until (recordSuccess opts k n1 n2 es) k' u"
proof -
  have ok: "bounded_table opts es" "locks_by (n2 + to_lockMs opts) es" "0 \<le> n2"
    using assms by (auto simp: throttle_ok_def elim: locks_by_mono)
  show "throttle_ok opts (n2, recordSuccess opts k n1 n2 es)"
    using ok locks_by_subset[OF ok(2), of "AList.delete k es"] delete_subset[of k es]
    by (auto simp: throttle_ok_def recordSuccess_def Let_def delete_table update_table map_of_some_key
        locks_by_update locks_by_get split: option.splits)
  show "locked_until es k' u \<Longrightarrow> n2 < u \<Longrightarrow> locked_until (recordSuccess opts k n1 n2 es) k' u"
    using assms(3) by (auto simp: recordSuccess_def Let_def locked_until_def jsmap_simps split: option.splits)
qed

lemma step_ok:
  assumes "throttle_step opts (n, es) (n', es')" "throttle_ok opts (n, es)" "0 \<le> to_lockMs opts"
  shows "n \<le> n' \<and> throttle_ok opts (n', es') \<and> (locked_until es k u \<longrightarrow> n' < u \<longrightarrow> locked_until es' k u)"
  using assms(1)
proof (cases rule: throttle_step.cases)
  case tick_clock
  then show ?thesis using assms(2) by (auto simp: throttle_ok_def elim: locks_by_mono)
next
  case (begin_key n1 k)
  then show ?thesis using begin_ok[OF assms(2) _ assms(3)] by auto
next
  case (fail_key k t)
  then show ?thesis
    using addFailure_ok[OF settle_ok(1)[OF assms(2)] _ assms(3)] settle_ok(2) by (auto simp: fail_attempt_def)
next
  case (release_key k t)
  then show ?thesis using settle_ok[of _ _ _ k t] assms(2) by auto
next
  case (failure k)
  then show ?thesis using addFailure_ok[OF assms(2) _ assms(3)] by (auto simp: recordFailure_def)
next
  case (success n1 k)
  then show ?thesis using success_ok[OF assms(2)] by auto
qed

lemma run_ok:
  assumes "throttle_run opts (n, es) (n', es')" "throttle_ok opts (n, es)" "0 \<le> to_lockMs opts"
  shows "n \<le> n' \<and> throttle_ok opts (n', es') \<and> (locked_until es k u \<longrightarrow> n' < u \<longrightarrow> locked_until es' k u)"
  using assms(1)
proof (induction rule: rtranclp_induct2)
  case refl
  then show ?case using assms(2) by simp
next
  case (step n1 es1 n2 es2)
  with step_ok[OF step(2) _ assms(3)] show ?case by fastforce
qed


section \<open>Properties\<close>

lemma start_ok: "0 \<le> n \<Longrightarrow> throttle_ok opts (n, [])"
  by (simp add: throttle_ok_def bounded_table_def locks_by_def)

lemma reachable_ok:
  "throttle_run opts (n0, []) (n, es) \<Longrightarrow> 0 \<le> n0 \<Longrightarrow> 0 \<le> to_lockMs opts \<Longrightarrow> throttle_ok opts (n, es)"
  using run_ok[OF _ start_ok] by blast

text \<open>
  Whatever keys are tried, the throttle never tracks more than \<open>maxKeys\<close> of them: a flood of
  made-up emails cannot exhaust memory.
\<close>

theorem throttle_is_bounded:
  assumes "throttle_run opts (n0, []) (n, es)" "0 \<le> n0" "0 \<le> to_lockMs opts"
  shows "length es \<le> to_maxKeys opts"
  using reachable_ok[OF assms] by (simp add: throttle_ok_def bounded_table_def)

text \<open>Three failures within ten minutes lock for five; two keys at most.\<close>

definition small_throttle :: throttle_options where
  "small_throttle = throttle_options_of 3 600000 300000 (Some 2) None"

lemmas throttle_eval = small_throttle_def throttle_options_of_def begin_attempt_def check_def with_entry_def
  makeRoom_def fresh_entry_def settle_def addFailure_def add_to_def recordFailure_def fail_attempt_def recordSuccess_def
  isStale_def isLocked_def activeFailures_def activePending_def canMakeRoom_def ceil_seconds_def

definition failing_entry :: "int list \<Rightarrow> throttle_entry" where
  "failing_entry ts = \<lparr>te_failures = ts, te_pending = [], te_lockedUntil = 0\<rparr>"

lemma failure_run:
  "throttle_run opts s (n, es) \<Longrightarrow> n \<le> n' \<Longrightarrow> recordFailure opts key n' es = es' \<Longrightarrow> throttle_run opts s (n', es')"
  using failure by (blast intro: rtranclp.rtrancl_into_rtrancl)

lemma three_keys:
  "throttle_run small_throttle (0, []) (3, [(''b'', failing_entry [2]), (''c'', failing_entry [3])])"
proof -
  have "throttle_run small_throttle (0, []) (1, [(''a'', failing_entry [1])])"
    by (rule failure_run[of _ _ 0 "[]" _ "''a''"]) (simp_all add: throttle_eval failing_entry_def Let_def)
  then have "throttle_run small_throttle (0, []) (2, [(''a'', failing_entry [1]), (''b'', failing_entry [2])])"
    by (rule failure_run[where key = "''b''"]) (simp_all add: throttle_eval failing_entry_def Let_def)
  then show ?thesis
    by (rule failure_run[where key = "''c''"]) (simp_all add: throttle_eval failing_entry_def Let_def)
qed

theorem throttle_is_bounded_witness:
  "length [(''b'', failing_entry [2]), (''c'', failing_entry [3])] \<le> to_maxKeys small_throttle"
  using throttle_is_bounded[OF three_keys] by (simp add: small_throttle_def throttle_options_of_def)

text \<open>
  C34. A lock holds until its time: as long as the clock has not reached the end of a lock, no attempt
  on the key is admitted, whatever attempts, failures and successes of any keys came in between. In
  particular flooding the table with other keys does not free the key under attack.
\<close>

theorem locks_hold:
  assumes "throttle_run opts (n0, []) (n, es)" "0 \<le> n0" "0 \<le> to_lockMs opts"
    and "map_of es key = Some entry" "throttle_run opts (n, es) (n', es')" "n' < te_lockedUntil entry"
  shows "\<exists>r>0. fst (begin_attempt opts key n' n2 es') = Refused (Some r)"
proof -
  have "locked_until es key (te_lockedUntil entry)" using assms(4) by (auto simp: locked_until_def)
  with run_ok[OF assms(5) reachable_ok[OF assms(1-3)] assms(3)] assms(6)
  obtain e where e: "map_of es' key = Some e" "te_lockedUntil entry \<le> te_lockedUntil e"
    by (auto simp: locked_until_def)
  with assms(6) have "check opts key n' es' = Refused (Some (ceil_seconds (te_lockedUntil e - n')))"
    by (simp add: check_def Let_def)
  moreover have "0 < ceil_seconds (te_lockedUntil e - n')"
    using e(2) assms(6) by (simp add: ceil_seconds_def div_neg_pos_less0)
  ultimately show ?thesis by (simp add: begin_attempt_def)
qed

lemma three_failures:
  "throttle_run small_throttle (0, []) (3, [(''a'', (failing_entry [])\<lparr>te_lockedUntil := 300003\<rparr>)])"
proof -
  have "throttle_run small_throttle (0, []) (1, [(''a'', failing_entry [1])])"
    by (rule failure_run[of _ _ 0 "[]" _ "''a''"]) (simp_all add: throttle_eval failing_entry_def Let_def)
  then have "throttle_run small_throttle (0, []) (2, [(''a'', failing_entry [1, 2])])"
    by (rule failure_run[where key = "''a''"]) (simp_all add: throttle_eval failing_entry_def Let_def)
  then show ?thesis
    by (rule failure_run[where key = "''a''"]) (simp_all add: throttle_eval failing_entry_def Let_def)
qed

theorem locks_hold_witness:
  "\<exists>r>0. fst (begin_attempt small_throttle ''a'' 4 5 [(''a'', (failing_entry [])\<lparr>te_lockedUntil := 300003\<rparr>)]) = Refused (Some r)"
  using locks_hold[OF three_failures, of "''a''" "(failing_entry [])\<lparr>te_lockedUntil := 300003\<rparr>" 4
      "[(''a'', (failing_entry [])\<lparr>te_lockedUntil := 300003\<rparr>)]" 5]
    throttle_step.tick_clock[of 3 4 small_throttle]
  by (simp add: small_throttle_def throttle_options_of_def r_into_rtranclp)

text \<open>
  \<open>check\<close> tells what \<open>begin\<close> will do: in a reachable table \<open>begin\<close> lets an attempt through exactly
  when \<open>check\<close> says it may start, although it reads the clock again in between; the second refusal in
  \<open>begin\<close> is never reached.
\<close>

theorem check_predicts_begin:
  assumes "throttle_run opts (n0, []) (n, es)" "0 \<le> n0" "0 \<le> to_lockMs opts" "0 < to_maxKeys opts" "n1 \<le> n2"
  shows "fst (begin_attempt opts key n1 n2 es) = check opts key n1 es"
proof (cases "check opts key n1 es")
  case Allowed
  have t: "bounded_table opts es" using reachable_ok[OF assms(1-3)] by (simp add: throttle_ok_def)
  show ?thesis
  proof (cases "map_of es key")
    case None
    with Allowed have "length es < to_maxKeys opts \<or> canMakeRoom n1 es" by (auto simp: check_def split: if_splits)
    then have "length es < to_maxKeys opts \<or> canMakeRoom n2 es"
      using assms(5) by (fastforce simp: canMakeRoom_def list_ex_iff isLocked_def)
    from makeRoom_succeeds[OF t assms(4) this] None Allowed show ?thesis
      by (auto simp: begin_attempt_def with_entry_def split: prod.splits bool.splits)
  qed (use Allowed in \<open>simp add: begin_attempt_def with_entry_def\<close>)
qed (simp add: begin_attempt_def)

theorem check_predicts_begin_witness:
  "fst (begin_attempt small_throttle ''d'' 4 5 [(''b'', failing_entry [2]), (''c'', failing_entry [3])]) = Allowed"
  using check_predicts_begin[OF three_keys, of 4 5 "''d''"]
  by (simp add: throttle_eval failing_entry_def Let_def)


text \<open>Attempts of one key that start at the same time, none of which has reported back.\<close>

fun burst :: "throttle_options \<Rightarrow> string \<Rightarrow> int \<Rightarrow> nat \<Rightarrow> throttle \<Rightarrow> throttle_result list" where
  "burst opts key n 0 es = []"
| "burst opts key n (Suc m) es =
     (case begin_attempt opts key n n es of (r, es') \<Rightarrow> r # burst opts key n m es')"

definition in_flight :: "throttle_options \<Rightarrow> string \<Rightarrow> int \<Rightarrow> throttle \<Rightarrow> nat" where
  "in_flight opts key n es =
     (case map_of es key of None \<Rightarrow> 0 | Some e \<Rightarrow> activeFailures opts e n + activePending opts e n)"

lemma begin_refused: "check opts key n es = Refused r \<Longrightarrow> begin_attempt opts key n n2 es = (Refused r, es)"
  by (simp add: begin_attempt_def)

lemma burst_refused: "check opts key n es = Refused r \<Longrightarrow> burst opts key n m es = replicate m (Refused r)"
  by (induction m) (simp_all add: begin_refused)

lemma begin_reserves:
  assumes "check opts key n es = Allowed" "bounded_table opts es" "0 \<le> n" "0 < to_maxKeys opts" "0 < to_pendingTtlMs opts"
  obtains es' where "begin_attempt opts key n n es = (Allowed, es')" "bounded_table opts es'"
    "in_flight opts key n es' = Suc (in_flight opts key n es)"
    "check opts key n es' = (if in_flight opts key n es' \<ge> to_maxFailures opts then Refused (Some 1) else Allowed)"
proof -
  define change where "change = (\<lambda>e :: throttle_entry. e\<lparr>te_pending := te_pending e @ [n]\<rparr>)"
  define e where "e = (case map_of es key of Some e \<Rightarrow> e | None \<Rightarrow> fresh_entry)"
  have pending: "activePending opts (change e) n = Suc (activePending opts e n)" for e
    using assms(5) by (simp add: change_def activePending_def)
  have failures: "activeFailures opts (change e) n = activeFailures opts e n" for e
    by (simp add: change_def activeFailures_def)
  have fresh: "activeFailures opts fresh_entry n = 0" "activePending opts fresh_entry n = 0"
    by (simp_all add: fresh_entry_def activeFailures_def activePending_def)
  have "fst (with_entry opts key n change es) \<and> map_of (snd (with_entry opts key n change es)) key = Some (change e)"
  proof (cases "map_of es key")
    case None
    with assms(1) have "length es < to_maxKeys opts \<or> canMakeRoom n es" by (auto simp: check_def split: if_splits)
    from makeRoom_succeeds[OF assms(2,4) this] None show ?thesis
      by (auto simp: with_entry_def e_def jsmap_simps split: prod.splits bool.splits)
  qed (simp add: with_entry_def e_def jsmap_simps)
  then obtain es' where es': "with_entry opts key n change es = (True, es')" "map_of es' key = Some (change e)"
    by (cases "with_entry opts key n change es") auto
  then have "begin_attempt opts key n n es = (Allowed, es')"
    using assms(1) by (simp add: begin_attempt_def change_def)
  moreover have "bounded_table opts es'" using with_entry_table[OF assms(2)] es'(1) by (metis snd_conv)
  moreover have fl: "in_flight opts key n es' = Suc (in_flight opts key n es)"
    using es'(2) fresh by (cases "map_of es key") (simp_all add: in_flight_def pending failures e_def)
  moreover have "te_lockedUntil (change e) \<le> n"
    using assms(1,3) by (auto simp: check_def e_def change_def fresh_entry_def Let_def split: option.splits if_splits)
  then have "check opts key n es' = (if in_flight opts key n es' \<ge> to_maxFailures opts then Refused (Some 1) else Allowed)"
    using es'(2) by (simp add: check_def in_flight_def Let_def)
  ultimately show ?thesis by (rule that)
qed

lemma burst_admits:
  assumes "bounded_table opts es" "0 \<le> n" "0 < to_maxKeys opts" "0 < to_pendingTtlMs opts" "0 < to_maxFailures opts"
  shows "length (filter (\<lambda>r. r = Allowed) (burst opts key n m es)) =
    (if check opts key n es = Allowed then min m (to_maxFailures opts - in_flight opts key n es) else 0)"
  using assms(1)
proof (induction m arbitrary: es)
  case (Suc m)
  show ?case
  proof (cases "check opts key n es")
    case Allowed
    obtain es' where es': "begin_attempt opts key n n es = (Allowed, es')" "bounded_table opts es'"
      "in_flight opts key n es' = Suc (in_flight opts key n es)"
      "check opts key n es' = (if in_flight opts key n es' \<ge> to_maxFailures opts then Refused (Some 1) else Allowed)"
      using begin_reserves[OF Allowed Suc.prems assms(2-4)] .
    have "in_flight opts key n es < to_maxFailures opts"
      using Allowed assms(5) by (auto simp: check_def in_flight_def Let_def split: option.splits if_splits)
    with Suc.IH[OF es'(2)] es' Allowed show ?thesis by auto
  qed (simp add: begin_refused burst_refused)
qed simp

text \<open>
  In a reachable table, of a burst of parallel attempts on a key that is not locked exactly as
  many are let through as the key has failures to spend: \<open>maxFailures\<close> less the failures and the
  attempts in flight. Passwords cannot be tried faster by trying them in parallel.
\<close>

theorem bursts_are_capped:
  assumes "throttle_run opts (n0, []) (n, es)" "0 \<le> n0" "0 \<le> to_lockMs opts"
    and "0 < to_maxKeys opts" "0 < to_pendingTtlMs opts" "0 < to_maxFailures opts"
  shows "length (filter (\<lambda>r. r = Allowed) (burst opts key n m es)) =
    (if check opts key n es = Allowed then min m (to_maxFailures opts - in_flight opts key n es) else 0)"
  using reachable_ok[OF assms(1-3)] assms(4-6) by (intro burst_admits) (simp_all add: throttle_ok_def)

theorem bursts_are_capped_witness:
  "length (filter (\<lambda>r. r = Allowed) (burst small_throttle ''b'' 3 9 [(''b'', failing_entry [2]), (''c'', failing_entry [3])])) = 2"
  using bursts_are_capped[OF three_keys, of "''b''" 9]
  by (simp add: throttle_eval failing_entry_def in_flight_def Let_def)

text \<open>
  The failure that makes \<open>maxFailures\<close> within the window locks the key for \<open>lockMs\<close>, and no
  earlier one does: failures are only counted before.
\<close>

theorem failures_lock:
  assumes "map_of es key = Some entry" "te_failures entry = []" "sorted ts" "ts \<noteq> []"
    and "last ts - hd ts < to_windowMs opts" "length ts \<le> to_maxFailures opts"
  shows "map_of (fold (recordFailure opts key) ts es) key = Some
    (if length ts < to_maxFailures opts then entry\<lparr>te_failures := ts\<rparr>
     else entry\<lparr>te_lockedUntil := last ts + to_lockMs opts\<rparr>)"
  using assms(3-6)
proof (induction ts rule: rev_induct)
  case (snoc t ts)
  have step: "map_of (recordFailure opts key t es') key = Some (add_to opts t e)" if "map_of es' key = Some e" for es' e
    using that by (simp add: recordFailure_def addFailure_def with_entry_def jsmap_simps)
  have recent: "filter (\<lambda>u. t - u < to_windowMs opts) ts = ts"
  proof (rule filter_True, rule ballI)
    fix u assume u: "u \<in> set ts"
    with snoc.prems(1) have "hd ts \<le> u" by (cases ts) auto
    with u snoc.prems(3) show "t - u < to_windowMs opts" by (cases ts) auto
  qed
  show ?case
  proof (cases "ts = []")
    case True
    with step[OF assms(1)] assms(2) show ?thesis by (simp add: add_to_def)
  next
    case False
    then have "last ts - hd ts < to_windowMs opts"
      using snoc.prems(1,3) by (cases ts rule: rev_cases) (auto simp: sorted_append hd_append)
    with snoc False have "map_of (fold (recordFailure opts key) ts es) key = Some (entry\<lparr>te_failures := ts\<rparr>)"
      by (simp add: sorted_append)
    from step[OF this] recent snoc.prems(4) assms(2) show ?thesis by (simp add: add_to_def Let_def)
  qed
qed simp

theorem failures_lock_witness:
  "map_of (fold (recordFailure small_throttle ''a'') [1, 2, 3] [(''a'', failing_entry [])]) ''a'' =
     Some ((failing_entry [])\<lparr>te_lockedUntil := 300003\<rparr>)"
  using failures_lock[of "[(''a'', failing_entry [])]" "''a''" "failing_entry []" "[1, 2, 3]" small_throttle]
  by (simp add: small_throttle_def throttle_options_of_def failing_entry_def)

end
