(* ===== verification/Audit_Log.thy ===== *)
theory Audit_Log
  imports Js_Values
begin

text \<open>
  \<open>db/AuditLog.ts\<close> of the app: who did what. The table \<open>audit_log\<close> is a list of rows in the order of
  their insertion; the random id and the clock are arguments. What an insertion does when the
  database fails is the caller's matter: \<open>record\<close> swallows the error, \<open>recordStrict\<close> throws it.
\<close>

section \<open>Entries\<close>

datatype audit_actor =
    UserActor string string
  | AdminKeyActor
  | OperatorKeyActor string "string option"
  | ApiKeyActor "string option" "string option"
  | AnonymousActor "string option"

record audit_input =
  ai_action :: string
  ai_actor :: audit_actor
  ai_tenantIds :: "string list option"
  ai_target :: "string option"
  ai_details :: "(string \<times> jsval) list option"

record audit_entry =
  au_id :: string
  au_at :: int
  au_kind :: string
  au_actorId :: "string option"
  au_label :: "string option"
  au_action :: string
  au_tenantIds :: "string list"
  au_target :: "string option"
  au_details :: jsval

section \<open>Keeping secrets out\<close>

text \<open>The regular expression \<open>FORBIDDEN_FIELD\<close>, matched without regard to case.\<close>

definition forbidden_field :: "string \<Rightarrow> bool" where
  "forbidden_field name = (let n = js_lower name in
     list_ex (\<lambda>part. contains_text part n) [''pass'', ''secret'', ''token'', ''plaintext'', ''hash'', ''authorization'', ''cookie''] \<or>
     list_ex (\<lambda>part. ends_with part n) [''apikey'', ''api_key'', ''api-key''])"

fun scrub :: "nat \<Rightarrow> jsval \<Rightarrow> jsval"
  and scrub_items :: "nat \<Rightarrow> jsval list \<Rightarrow> jsval list"
  and scrub_members :: "nat \<Rightarrow> (string \<times> jsval) list \<Rightarrow> (string \<times> jsval) list" where
  "scrub depth (JArray xs) = (if depth > 5 then JString ''[too deep]'' else JArray (scrub_items (depth + 1) xs))"
| "scrub depth (JObject ms) = (if depth > 5 then JString ''[too deep]'' else JObject (scrub_members (depth + 1) ms))"
| "scrub depth v = (if depth > 5 then JString ''[too deep]'' else v)"
| "scrub_items depth [] = []"
| "scrub_items depth (x # xs) = scrub depth x # scrub_items depth xs"
| "scrub_members depth [] = []"
| "scrub_members depth ((k, x) # ms) =
     (if forbidden_field k then scrub_members depth ms else (k, scrub depth x) # scrub_members depth ms)"

definition LIMIT :: nat where
  "LIMIT = 512"

text \<open>\<open>text.replace(/[\r\n\t]+/g, ' ')\<close>.\<close>

definition line_break :: "char \<Rightarrow> bool" where
  "line_break c = (let n = of_char c :: nat in n = 9 \<or> n = 10 \<or> n = 13)"

fun one_line :: "bool \<Rightarrow> string \<Rightarrow> string" where
  "one_line inside [] = []"
| "one_line inside (c # cs) =
     (if line_break c then (if inside then one_line True cs else CHR '' '' # one_line True cs)
      else c # one_line False cs)"

definition clip :: "string option \<Rightarrow> string option" where
  "clip text = map_option (\<lambda>t. take LIMIT (one_line False t)) text"

section \<open>The log\<close>

fun actor_kind :: "audit_actor \<Rightarrow> string" where
  "actor_kind (UserActor i l) = ''user''"
| "actor_kind AdminKeyActor = ''adminKey''"
| "actor_kind (OperatorKeyActor i l) = ''operatorKey''"
| "actor_kind (ApiKeyActor i l) = ''apiKey''"
| "actor_kind (AnonymousActor l) = ''anonymous''"

fun actor_id :: "audit_actor \<Rightarrow> string option" where
  "actor_id (UserActor i l) = Some i"
| "actor_id (OperatorKeyActor i l) = Some i"
| "actor_id (ApiKeyActor i l) = i"
| "actor_id _ = None"

fun actor_label :: "audit_actor \<Rightarrow> string option" where
  "actor_label AdminKeyActor = Some ''admin key''"
| "actor_label (UserActor i l) = clip (Some l)"
| "actor_label (OperatorKeyActor i l) = clip l"
| "actor_label (ApiKeyActor i l) = clip l"
| "actor_label (AnonymousActor l) = clip l"

definition audit_row :: "string \<Rightarrow> int \<Rightarrow> audit_input \<Rightarrow> audit_entry" where
  "audit_row i n input =
     \<lparr>au_id = i, au_at = n, au_kind = actor_kind (ai_actor input), au_actorId = actor_id (ai_actor input),
      au_label = actor_label (ai_actor input), au_action = ai_action input,
      au_tenantIds = set_from (case ai_tenantIds input of Some ts \<Rightarrow> ts | None \<Rightarrow> []),
      au_target = clip (ai_target input),
      au_details = scrub 0 (JObject (case ai_details input of Some ms \<Rightarrow> ms | None \<Rightarrow> []))\<rparr>"

section \<open>Reading the log\<close>

record audit_query =
  aq_visibleToManagerOf :: "string list option"
  aq_tenantId :: "string option"
  aq_actor :: "string option"
  aq_action :: "string option"
  aq_from :: "int option"
  aq_to :: "int option"
  aq_page :: nat
  aq_pageSize :: nat

definition escapeLike :: "string \<Rightarrow> string" where
  "escapeLike text =
     concat (map (\<lambda>c. if c = CHR 0x5C \<or> c = CHR ''%'' \<or> c = CHR ''_'' then [CHR 0x5C, c] else [c]) text)"

text \<open>\<open>LIKE\<close> with its wildcards \<open>%\<close> and \<open>_\<close> and the escape character, the backslash.\<close>

function sql_like :: "string \<Rightarrow> string \<Rightarrow> bool" where
  "sql_like [] s = (s = [])"
| "sql_like (p # ps) s =
     (if p = CHR ''%'' then sql_like ps s \<or> (case s of [] \<Rightarrow> False | c # cs \<Rightarrow> sql_like (p # ps) cs)
      else if p = CHR 0x5C then
        (case ps of [] \<Rightarrow> False | q # qs \<Rightarrow> (case s of [] \<Rightarrow> False | c # cs \<Rightarrow> c = q \<and> sql_like qs cs))
      else (case s of [] \<Rightarrow> False | c # cs \<Rightarrow> (p = CHR ''_'' \<or> c = p) \<and> sql_like ps cs))"
  by pat_completeness auto

termination
  by (relation "measures [\<lambda>(p, s). length p, \<lambda>(p, s). length s]") auto

definition given :: "'a option \<Rightarrow> ('a \<Rightarrow> bool) \<Rightarrow> bool" where
  "given v P = (case v of None \<Rightarrow> True | Some x \<Rightarrow> P x)"

text \<open>An empty string is no filter: \<open>query.tenantId ? \<dots> : TRUE\<close>.\<close>

definition given_text :: "string option \<Rightarrow> (string \<Rightarrow> bool) \<Rightarrow> bool" where
  "given_text v P = (if truthy v then P (the v) else True)"

definition audit_matches :: "audit_query \<Rightarrow> audit_entry \<Rightarrow> bool" where
  "audit_matches q e \<longleftrightarrow>
     given (aq_visibleToManagerOf q) (\<lambda>ts. au_tenantIds e \<noteq> [] \<and> list_all (\<lambda>t. t \<in> set ts) (au_tenantIds e)) \<and>
     given_text (aq_tenantId q) (\<lambda>t. t \<in> set (au_tenantIds e)) \<and>
     given_text (aq_actor q) (\<lambda>a. au_actorId e = Some a \<or> au_kind e = a) \<and>
     given_text (aq_action q) (\<lambda>a. au_action e = a \<or> sql_like (escapeLike a @ ''.%'') (au_action e)) \<and>
     given (aq_from q) (\<lambda>t. au_at e \<ge> t) \<and>
     given (aq_to q) (\<lambda>t. au_at e \<le> t)"

text \<open>\<open>newest_first\<close> is the order \<open>at DESC, id DESC\<close>, in which the text order of ids is the database's.\<close>

definition audit_list ::
  "(audit_entry list \<Rightarrow> audit_entry list) \<Rightarrow> audit_query \<Rightarrow> audit_entry list \<Rightarrow> audit_entry list \<times> nat" where
  "audit_list newest_first q rows =
     (let found = filter (audit_matches q) rows in
      (take (aq_pageSize q) (drop (aq_page q * aq_pageSize q) (newest_first found)), length found))"

section \<open>Properties\<close>

text \<open>No member name, however deep, suggests a secret.\<close>

fun no_secret :: "jsval \<Rightarrow> bool" where
  "no_secret (JArray xs) = list_all no_secret xs"
| "no_secret (JObject ms) = list_all (\<lambda>(k, x). \<not> forbidden_field k \<and> no_secret x) ms"
| "no_secret _ = True"

lemma scrub_no_secret:
  "no_secret (scrub d v)" "list_all no_secret (scrub_items d xs)"
  "list_all (\<lambda>(k, x). \<not> forbidden_field k \<and> no_secret x) (scrub_members d ms)"
  by (induction d v and d xs and d ms rule: scrub_scrub_items_scrub_members.induct) auto

text \<open>
  Whatever a caller puts into the details of an audit entry, no field whose name suggests a
  secret is written, at any depth.
\<close>

theorem audit_rows_hold_no_secret:
  "no_secret (au_details (audit_row i n input))"
  unfolding audit_row_def audit_entry.simps by (rule scrub_no_secret(1))

lemma like_literal: "sql_like (escapeLike a @ ps) s \<longleftrightarrow> (\<exists>r. s = a @ r \<and> sql_like ps r)"
proof (induction a arbitrary: s)
  case (Cons c a)
  then show ?case by (cases s) (auto simp: escapeLike_def)
qed (simp add: escapeLike_def)

lemma like_rest: "sql_like ''%'' s"
  by (induction s) simp_all

lemma action_family:
  "sql_like (escapeLike a @ ''.%'') s \<longleftrightarrow> (\<exists>r. s = a @ ''.'' @ r)"
proof -
  have "sql_like ''.%'' r \<longleftrightarrow> (\<exists>t. r = ''.'' @ t)" for r
    by (cases r) (simp_all add: sql_like.simps(2)[of "CHR ''.''"] like_rest del: sql_like.simps)
  then show ?thesis by (auto simp: like_literal)
qed

text \<open>
  What a tenant manager reads: with the filter \<open>visibleToManagerOf\<close> every entry of a page names
  at least one tenant and only tenants of the manager, and a filter by action gives the action itself
  and its family, whatever wildcard characters it contains.
\<close>

theorem audit_pages_are_filtered:
  assumes "\<And>es. set (newest_first es) = set es"
    and "aq_visibleToManagerOf q = Some tenants" "aq_action q = Some a" "a \<noteq> []"
    and "e \<in> set (fst (audit_list newest_first q rows))"
  shows "e \<in> set rows \<and> au_tenantIds e \<noteq> [] \<and> set (au_tenantIds e) \<subseteq> set tenants \<and>
    (au_action e = a \<or> (\<exists>r. au_action e = a @ ''.'' @ r))"
proof -
  have "e \<in> set (newest_first (filter (audit_matches q) rows))"
    using assms(5) by (auto simp: audit_list_def Let_def dest!: in_set_takeD in_set_dropD)
  with assms(1-4) show ?thesis
    by (auto simp: audit_matches_def given_def given_text_def action_family list_all_iff)
qed


definition key_entry :: "string list \<Rightarrow> audit_entry" where
  "key_entry tenants = audit_row ''e'' 7 \<lparr>ai_action = ''key.revoke'', ai_actor = AdminKeyActor, ai_tenantIds = Some tenants,
     ai_target = None, ai_details = Some [(''name'', JString ''ci''), (''api_key'', JString ''k'')]\<rparr>"

definition key_query :: audit_query where
  "key_query = \<lparr>aq_visibleToManagerOf = Some [''acme''], aq_tenantId = None, aq_actor = None, aq_action = Some ''key'',
     aq_from = None, aq_to = None, aq_page = 0, aq_pageSize = 10\<rparr>"

lemma key_page: "fst (audit_list rev key_query [key_entry [''acme''], key_entry [''acme'', ''other'']]) = [key_entry [''acme'']]"
  by (simp add: audit_list_def key_query_def key_entry_def audit_row_def audit_matches_def given_def given_text_def
      set_from_def set_add_def escapeLike_def)

theorem audit_pages_are_filtered_witness:
  "\<exists>r. au_action (key_entry [''acme'']) = ''key'' @ ''.'' @ r"
  using audit_pages_are_filtered[of rev key_query "[''acme'']" "''key''" "key_entry [''acme'']"
      "[key_entry [''acme''], key_entry [''acme'', ''other'']]"]
  unfolding key_page by (simp add: key_query_def) (simp add: key_entry_def audit_row_def)

end
