(* ===== verification/User_Accounts.thy ===== *)
theory User_Accounts
  imports Audit_Log "HOL-Library.List_Lexorder" "HOL-Library.Product_Lexorder" "HOL-Library.Char_ord"
begin

text \<open>
  The people of the platform: \<open>auth/email.ts\<close>, \<open>db/UserStore.ts\<close>, \<open>db/InviteStore.ts\<close>,
  \<open>db/SessionStore.ts\<close> and \<open>db/atomically.ts\<close> of the app. The tables \<open>users\<close>, \<open>memberships\<close>,
  \<open>invites\<close>, \<open>sessions\<close>, \<open>tenants\<close> and \<open>audit_log\<close> are lists of rows in the order of their
  insertion; each SQL statement of the source is the operation on them it stands for, with the keys
  and references of migrations 011 and 015. A call that fails returns the error and the tables
  its transaction leaves, which are the ones it found. Random ids and tokens, the keyed hash and
  the clock (in milliseconds) are arguments.
\<close>

section \<open>Rows\<close>

datatype user_status = ActiveU | DisabledU

datatype membership_role = SystemAdmin | Operator | TenantManager

record user_row =
  us_id :: string
  us_email :: string
  us_name :: string
  us_passwordHash :: "string option"
  us_status :: user_status
  us_createdAt :: int
  us_lastLoginAt :: "int option"

record membership =
  mb_id :: string
  mb_userId :: string
  mb_role :: membership_role
  mb_tenantId :: "string option"
  mb_createdAt :: int

record invite_row =
  iv_id :: string
  iv_userId :: string
  iv_tokenHash :: string
  iv_createdBy :: "string option"
  iv_expiresAt :: int
  iv_usedAt :: "int option"

record session_row =
  se_tokenHash :: string
  se_userId :: string
  se_lastSeenAt :: int
  se_expiresAt :: int
  se_userAgent :: "string option"
  se_ip :: "string option"

record accounts =
  db_users :: "user_row list"
  db_memberships :: "membership list"
  db_invites :: "invite_row list"
  db_sessions :: "session_row list"
  db_tenants :: "string list"
  db_audit :: "audit_entry list"

text \<open>A user as the rest of the app sees it.\<close>

record user =
  u_id :: string
  u_email :: string
  u_name :: string
  u_status :: user_status
  u_createdAt :: int
  u_lastLoginAt :: "int option"
  u_hasPassword :: bool

record user_credentials =
  uc_id :: string
  uc_email :: string
  uc_status :: user_status
  uc_passwordHash :: "string option"

record user_with_memberships =
  uw_user :: user
  uw_memberships :: "membership list"

datatype store_error =
    UserInputError string
  | EmailTakenError
  | LastOperatorError
  | PgError string
  | UnexpectedError string

definition PLATFORM_ROLES :: "membership_role list" where
  "PLATFORM_ROLES = [SystemAdmin, Operator]"

definition user_of :: "user_row \<Rightarrow> user" where
  "user_of r = \<lparr>u_id = us_id r, u_email = us_email r, u_name = us_name r, u_status = us_status r,
     u_createdAt = us_createdAt r, u_lastLoginAt = us_lastLoginAt r, u_hasPassword = (us_passwordHash r \<noteq> None)\<rparr>"

definition user_rows :: "string \<Rightarrow> accounts \<Rightarrow> user_row list" where
  "user_rows i db = filter (\<lambda>r. us_id r = i) (db_users db)"

section \<open>Email addresses\<close>

text \<open>The regular expression \<open>EMAIL_SHAPE\<close>: one \<open>@\<close> with something before and after it, no white space.\<close>

definition email_shape :: "string \<Rightarrow> bool" where
  "email_shape s \<longleftrightarrow> \<not> list_ex js_space s \<and> length (filter (\<lambda>c. c = CHR ''@'') s) = 1 \<and>
     hd s \<noteq> CHR ''@'' \<and> last s \<noteq> CHR ''@''"

definition normalizeEmail :: "string \<Rightarrow> string option" where
  "normalizeEmail input =
     (let email = js_lower (js_trim input) in
      if length email = 0 \<or> length email > 254 then None
      else if email_shape email then Some email else None)"

section \<open>Users\<close>

definition update_user :: "string \<Rightarrow> (user_row \<Rightarrow> user_row) \<Rightarrow> accounts \<Rightarrow> accounts" where
  "update_user i f db = db\<lparr>db_users := map (\<lambda>r. if us_id r = i then f r else r) (db_users db)\<rparr>"

definition delete_sessions :: "string \<Rightarrow> accounts \<Rightarrow> accounts" where
  "delete_sessions i db = db\<lparr>db_sessions := filter (\<lambda>s. se_userId s \<noteq> i) (db_sessions db)\<rparr>"

definition createUser ::
  "string \<Rightarrow> int \<Rightarrow> string \<Rightarrow> string \<Rightarrow> string option \<Rightarrow> accounts \<Rightarrow> (store_error + user) \<times> accounts" where
  "createUser newId n email_input name_input passwordHash db =
     (case normalizeEmail email_input of
        None \<Rightarrow> (Inl (UserInputError ''Invalid email address''), db)
      | Some email \<Rightarrow>
          let name = js_trim name_input in
          if name = [] then (Inl (UserInputError ''Name is required''), db)
          else if length name > 255 then (Inl (UserInputError ''Name must not exceed 255 characters''), db)
          else if list_ex (\<lambda>r. us_id r = newId \<or> us_email r = email) (db_users db) then (Inl EmailTakenError, db)
          else
            let row = \<lparr>us_id = newId, us_email = email, us_name = name, us_passwordHash = passwordHash,
                  us_status = ActiveU, us_createdAt = n, us_lastLoginAt = None\<rparr>
            in (Inr (user_of row), db\<lparr>db_users := db_users db @ [row]\<rparr>))"

fun first_row :: "'a list \<Rightarrow> 'a option" where
  "first_row [] = None"
| "first_row (x # xs) = Some x"

definition findById :: "string \<Rightarrow> accounts \<Rightarrow> user option" where
  "findById i db = map_option user_of (first_row (user_rows i db))"

definition findByEmail :: "string \<Rightarrow> accounts \<Rightarrow> user option" where
  "findByEmail email db =
     (case normalizeEmail email of
        None \<Rightarrow> None
      | Some e \<Rightarrow> map_option user_of (first_row (filter (\<lambda>r. us_email r = e) (db_users db))))"

definition findCredentialsByEmail :: "string \<Rightarrow> accounts \<Rightarrow> user_credentials option" where
  "findCredentialsByEmail email db =
     (case normalizeEmail email of
        None \<Rightarrow> None
      | Some e \<Rightarrow> map_option (\<lambda>r. \<lparr>uc_id = us_id r, uc_email = us_email r, uc_status = us_status r,
          uc_passwordHash = us_passwordHash r\<rparr>) (first_row (filter (\<lambda>r. us_email r = e) (db_users db))))"

definition listUsers :: "accounts \<Rightarrow> user list" where
  "listUsers db = map user_of (sort_key (\<lambda>r. (us_createdAt r, us_id r)) (db_users db))"

definition recordLogin :: "string \<Rightarrow> int \<Rightarrow> accounts \<Rightarrow> accounts" where
  "recordLogin i n = update_user i (\<lambda>r. r\<lparr>us_lastLoginAt := Some n\<rparr>)"

definition setPassword :: "string \<Rightarrow> string \<Rightarrow> accounts \<Rightarrow> bool \<times> accounts" where
  "setPassword i hash db =
     (if user_rows i db = [] then (False, db)
      else (True, delete_sessions i (update_user i (\<lambda>r. r\<lparr>us_passwordHash := Some hash\<rparr>) db)))"

text \<open>Deleting a user takes their memberships, sessions and invites along (\<open>ON DELETE CASCADE\<close>).\<close>

definition deleteUser :: "string \<Rightarrow> accounts \<Rightarrow> bool \<times> accounts" where
  "deleteUser i db =
     (user_rows i db \<noteq> [],
      db\<lparr>db_users := filter (\<lambda>r. us_id r \<noteq> i) (db_users db),
        db_memberships := filter (\<lambda>m. mb_userId m \<noteq> i) (db_memberships db),
        db_sessions := filter (\<lambda>s. se_userId s \<noteq> i) (db_sessions db),
        db_invites := map (\<lambda>v. if iv_createdBy v = Some i then v\<lparr>iv_createdBy := None\<rparr> else v)
          (filter (\<lambda>v. iv_userId v \<noteq> i) (db_invites db))\<rparr>)"

definition tenantExists :: "string \<Rightarrow> accounts \<Rightarrow> bool" where
  "tenantExists t db \<longleftrightarrow> t \<in> set (db_tenants db)"

section \<open>Memberships\<close>

definition memberships_of :: "string \<Rightarrow> accounts \<Rightarrow> membership list" where
  "memberships_of i db = filter (\<lambda>m. mb_userId m = i) (db_memberships db)"

text \<open>\<open>ORDER BY created_at ASC, id ASC\<close>.\<close>

definition listMemberships :: "string \<Rightarrow> accounts \<Rightarrow> membership list" where
  "listMemberships i db = sort_key (\<lambda>m. (mb_createdAt m, mb_id m)) (memberships_of i db)"

definition getWithMemberships :: "string \<Rightarrow> accounts \<Rightarrow> user_with_memberships option" where
  "getWithMemberships i db =
     map_option (\<lambda>u. \<lparr>uw_user = u, uw_memberships = listMemberships (u_id u) db\<rparr>) (findById i db)"

text \<open>
  The memberships that make the second \<open>EXISTS\<close> of \<open>withinTenantsPredicate\<close> true. With a null tenant
  the comparison is null, which \<open>NOT\<close> keeps null.
\<close>

definition outside :: "string list \<Rightarrow> membership \<Rightarrow> bool" where
  "outside tenantIds m =
     (if mb_role m = TenantManager
      then (case mb_tenantId m of Some t \<Rightarrow> t \<notin> set tenantIds | None \<Rightarrow> False)
      else True)"

definition withinTenantsPredicate :: "string list \<Rightarrow> accounts \<Rightarrow> string \<Rightarrow> bool" where
  "withinTenantsPredicate tenantIds db i \<longleftrightarrow>
     memberships_of i db \<noteq> [] \<and> \<not> list_ex (outside tenantIds) (memberships_of i db)"

definition isWithinTenants :: "string \<Rightarrow> string list \<Rightarrow> accounts \<Rightarrow> bool" where
  "isWithinTenants i tenantIds db =
     (if tenantIds = [] then False else user_rows i db \<noteq> [] \<and> withinTenantsPredicate tenantIds db i)"

definition listWithMemberships :: "string list option \<Rightarrow> accounts \<Rightarrow> user_with_memberships list" where
  "listWithMemberships withinTenants db =
     (if withinTenants = Some [] then []
      else map (\<lambda>r. \<lparr>uw_user = user_of r, uw_memberships = listMemberships (us_id r) db\<rparr>)
        (sort_key (\<lambda>r. (us_createdAt r, us_id r))
          (filter (\<lambda>r. case withinTenants of None \<Rightarrow> True | Some ts \<Rightarrow> withinTenantsPredicate ts db (us_id r))
            (db_users db))))"

definition is_active :: "string \<Rightarrow> accounts \<Rightarrow> bool" where
  "is_active i db = list_ex (\<lambda>r. us_id r = i \<and> us_status r = ActiveU) (db_users db)"

definition is_platform :: "membership \<Rightarrow> bool" where
  "is_platform m \<longleftrightarrow> mb_role m \<in> set PLATFORM_ROLES"

definition assertNotLastAdmin :: "string \<Rightarrow> string option \<Rightarrow> accounts \<Rightarrow> store_error option" where
  "assertNotLastAdmin i exceptMembershipId db =
     (let isActiveAdmin = list_ex (\<lambda>m. mb_userId m = i \<and> is_platform m \<and> is_active (mb_userId m) db) (db_memberships db);
          keepsRole = list_ex (\<lambda>m. mb_userId m = i \<and> is_platform m \<and> Some (mb_id m) \<noteq> exceptMembershipId) (db_memberships db);
          otherActiveAdmins = length (remdups (map mb_userId
            (filter (\<lambda>m. mb_userId m \<noteq> i \<and> is_platform m \<and> is_active (mb_userId m) db) (db_memberships db))))
      in if isActiveAdmin \<and> otherActiveAdmins = 0 \<and> \<not> (exceptMembershipId \<noteq> None \<and> keepsRole)
         then Some LastOperatorError else None)"

section \<open>Changes with an audit entry in their transaction\<close>

text \<open>
  What runs in the transaction once the change has taken effect: nothing, or the insertion of an
  entry, which may fail and then undoes the change.
\<close>

type_synonym 'r change_hook = "('r \<Rightarrow> accounts \<Rightarrow> store_error + accounts) option"

definition run_hook :: "'r change_hook \<Rightarrow> 'r \<Rightarrow> accounts \<Rightarrow> store_error + accounts" where
  "run_hook hook r db = (case hook of None \<Rightarrow> Inr db | Some w \<Rightarrow> w r db)"

definition setStatus :: "string \<Rightarrow> user_status \<Rightarrow> bool change_hook \<Rightarrow> accounts \<Rightarrow> (store_error + bool) \<times> accounts" where
  "setStatus i status hook db =
     (case (if status = DisabledU then assertNotLastAdmin i None db else None) of
        Some e \<Rightarrow> (Inl e, db)
      | None \<Rightarrow>
          if user_rows i db = [] then (Inr False, db)
          else
            let db1 = update_user i (\<lambda>r. r\<lparr>us_status := status\<rparr>) db;
                db2 = (if status = DisabledU then delete_sessions i db1 else db1)
            in (case run_hook hook True db2 of Inl e \<Rightarrow> (Inl e, db) | Inr db3 \<Rightarrow> (Inr True, db3)))"

definition same_grant :: "string \<Rightarrow> membership_role \<Rightarrow> string option \<Rightarrow> membership \<Rightarrow> bool" where
  "same_grant i role tenantId m \<longleftrightarrow> mb_userId m = i \<and> mb_role m = role \<and> mb_tenantId m = tenantId"

text \<open>The insertion or, after a conflict, the selection of the membership.\<close>

definition grant ::
  "string \<Rightarrow> int \<Rightarrow> string \<Rightarrow> membership_role \<Rightarrow> string option \<Rightarrow> accounts \<Rightarrow> store_error + membership \<times> accounts" where
  "grant newId n i role tenantId db =
     (if list_ex (\<lambda>m. mb_id m = newId \<or> same_grant i role tenantId m) (db_memberships db)
      then (case first_row (filter (same_grant i role tenantId) (db_memberships db)) of
              Some m \<Rightarrow> Inr (m, db)
            | None \<Rightarrow> Inl (UnexpectedError ''membership neither inserted nor found''))
      else if user_rows i db = [] then Inl (UserInputError ''User not found'')
      else if (case tenantId of Some t \<Rightarrow> \<not> tenantExists t db | None \<Rightarrow> False) then Inl (UserInputError ''Tenant not found'')
      else
        let m = \<lparr>mb_id = newId, mb_userId = i, mb_role = role, mb_tenantId = tenantId, mb_createdAt = n\<rparr>
        in Inr (m, db\<lparr>db_memberships := db_memberships db @ [m]\<rparr>))"

definition addMembership ::
  "string \<Rightarrow> int \<Rightarrow> string \<Rightarrow> membership_role \<Rightarrow> string option \<Rightarrow> membership change_hook \<Rightarrow> accounts \<Rightarrow>
     (store_error + membership) \<times> accounts" where
  "addMembership newId n i role tenantId hook db =
     (if role \<noteq> TenantManager \<and> tenantId \<noteq> None
      then (Inl (UserInputError ''An operator or system admin is platform-wide and cannot be tied to a tenant''), db)
      else if role = TenantManager \<and> tenantId = None then (Inl (UserInputError ''A tenant manager needs a tenant''), db)
      else (case grant newId n i role tenantId db of
              Inl e \<Rightarrow> (Inl e, db)
            | Inr (m, db1) \<Rightarrow>
                (case run_hook hook m db1 of Inl e \<Rightarrow> (Inl e, db) | Inr db2 \<Rightarrow> (Inr m, db2))))"

definition removeMembership ::
  "string \<Rightarrow> string \<Rightarrow> bool change_hook \<Rightarrow> accounts \<Rightarrow> (store_error + bool) \<times> accounts" where
  "removeMembership i membershipId hook db =
     (case first_row (filter (\<lambda>m. mb_id m = membershipId \<and> mb_userId m = i) (db_memberships db)) of
        None \<Rightarrow> (Inr False, db)
      | Some found \<Rightarrow>
          (case (if is_platform found then assertNotLastAdmin i (Some membershipId) db else None) of
             Some e \<Rightarrow> (Inl e, db)
           | None \<Rightarrow>
               let db1 = db\<lparr>db_memberships := filter (\<lambda>m. \<not> (mb_id m = membershipId \<and> mb_userId m = i)) (db_memberships db)\<rparr>
               in (case run_hook hook True db1 of Inl e \<Rightarrow> (Inl e, db) | Inr db2 \<Rightarrow> (Inr True, db2))))"

section \<open>Invites\<close>

text \<open>The regular expression \<open>TOKEN_PATTERN\<close>: 43 characters of the base64url alphabet.\<close>

definition token_char :: "char \<Rightarrow> bool" where
  "token_char c = (let n = of_char c :: nat in
     65 \<le> n \<and> n \<le> 90 \<or> 97 \<le> n \<and> n \<le> 122 \<or> 48 \<le> n \<and> n \<le> 57 \<or> c = CHR ''_'' \<or> c = CHR ''-'')"

definition token_pattern :: "string \<Rightarrow> bool" where
  "token_pattern t \<longleftrightarrow> length t = 43 \<and> list_all token_char t"

text \<open>A new invite: its id, its token, what the keyed hash makes of the token, and when it ends.\<close>

record new_invite =
  ni_id :: string
  ni_token :: string
  ni_tokenHash :: string
  ni_expiresAt :: int

definition usable :: "string \<Rightarrow> int \<Rightarrow> accounts \<Rightarrow> invite_row \<Rightarrow> bool" where
  "usable hash n db v \<longleftrightarrow> iv_tokenHash v = hash \<and> iv_usedAt v = None \<and> n < iv_expiresAt v \<and> is_active (iv_userId v) db"

definition invite_create ::
  "new_invite \<Rightarrow> string \<Rightarrow> string option \<Rightarrow> (string \<times> int) change_hook \<Rightarrow> accounts \<Rightarrow>
     (store_error + string \<times> int) \<times> accounts" where
  "invite_create ni i createdBy hook db =
     (let kept = filter (\<lambda>v. \<not> (iv_userId v = i \<and> iv_usedAt v = None)) (db_invites db);
          row = \<lparr>iv_id = ni_id ni, iv_userId = i, iv_tokenHash = ni_tokenHash ni, iv_createdBy = createdBy,
            iv_expiresAt = ni_expiresAt ni, iv_usedAt = None\<rparr>;
          invite = (ni_token ni, ni_expiresAt ni) in
      if list_ex (\<lambda>v. iv_id v = ni_id ni \<or> iv_tokenHash v = ni_tokenHash ni) kept
      then (Inl (PgError ''23505''), db)
      else if user_rows i db = [] \<or> (case createdBy of Some c \<Rightarrow> user_rows c db = [] | None \<Rightarrow> False)
      then (Inl (PgError ''23503''), db)
      else (case run_hook hook invite (db\<lparr>db_invites := kept @ [row]\<rparr>) of
              Inl e \<Rightarrow> (Inl e, db)
            | Inr db' \<Rightarrow> (Inr invite, db')))"

record invite_info =
  ii_email :: string
  ii_name :: string
  ii_expiresAt :: int

definition invite_inspect :: "(string \<Rightarrow> string) \<Rightarrow> int \<Rightarrow> string \<Rightarrow> accounts \<Rightarrow> invite_info option" where
  "invite_inspect hash n token db =
     (if \<not> token_pattern token then None
      else (case first_row (filter (usable (hash token) n db) (db_invites db)) of
              None \<Rightarrow> None
            | Some v \<Rightarrow> map_option (\<lambda>r. \<lparr>ii_email = us_email r, ii_name = us_name r, ii_expiresAt = iv_expiresAt v\<rparr>)
                (first_row (user_rows (iv_userId v) db))))"

definition invite_accept ::
  "(string \<Rightarrow> string) \<Rightarrow> int \<Rightarrow> string \<Rightarrow> string \<Rightarrow> accounts \<Rightarrow> user option \<times> accounts" where
  "invite_accept hash n token passwordHash db =
     (if \<not> token_pattern token then (None, db)
      else (case first_row (filter (usable (hash token) n db) (db_invites db)) of
              None \<Rightarrow> (None, db)
            | Some v \<Rightarrow>
                let i = iv_userId v;
                    db1 = db\<lparr>db_invites := map (\<lambda>w. if usable (hash token) n db w then w\<lparr>iv_usedAt := Some n\<rparr> else w) (db_invites db)\<rparr>;
                    db2 = delete_sessions i (update_user i (\<lambda>r. r\<lparr>us_passwordHash := Some passwordHash\<rparr>) db1)
                in (findById i db2, db2)))"

section \<open>Sessions\<close>

record session_options =
  so_hash :: "string \<Rightarrow> string"
  so_idleMs :: int
  so_maxMs :: int

definition TOUCH_AFTER_SECONDS :: int where
  "TOUCH_AFTER_SECONDS = 60"

definition session_create ::
  "session_options \<Rightarrow> string \<Rightarrow> int \<Rightarrow> string \<Rightarrow> string option \<Rightarrow> string option \<Rightarrow> accounts \<Rightarrow>
     (store_error + string \<times> int) \<times> accounts" where
  "session_create so token n i userAgent ip db =
     (let row = \<lparr>se_tokenHash = so_hash so token, se_userId = i, se_lastSeenAt = n, se_expiresAt = n + so_maxMs so,
            se_userAgent = map_option (take 512) userAgent, se_ip = map_option (take 64) ip\<rparr> in
      if list_ex (\<lambda>s. se_tokenHash s = so_hash so token) (db_sessions db) then (Inl (PgError ''23505''), db)
      else if user_rows i db = [] then (Inl (PgError ''23503''), db)
      else (Inr (token, n + so_maxMs so), db\<lparr>db_sessions := db_sessions db @ [row]\<rparr>))"

definition live_session :: "session_options \<Rightarrow> string \<Rightarrow> int \<Rightarrow> accounts \<Rightarrow> session_row \<Rightarrow> bool" where
  "live_session so token n db s \<longleftrightarrow> se_tokenHash s = so_hash so token \<and> is_active (se_userId s) db \<and>
     n < se_expiresAt s \<and> n - so_idleMs so < se_lastSeenAt s"

definition session_resolve ::
  "session_options \<Rightarrow> string \<Rightarrow> int \<Rightarrow> accounts \<Rightarrow> (user \<times> int) option \<times> accounts" where
  "session_resolve so token n db =
     (if \<not> token_pattern token then (None, db)
      else (case first_row (filter (live_session so token n db) (db_sessions db)) of
              None \<Rightarrow> (None, db)
            | Some s \<Rightarrow>
                let db' = (if n - se_lastSeenAt s > TOUCH_AFTER_SECONDS * 1000
                  then db\<lparr>db_sessions := map (\<lambda>r. if se_tokenHash r = so_hash so token then r\<lparr>se_lastSeenAt := n\<rparr> else r)
                    (db_sessions db)\<rparr>
                  else db)
                in (map_option (\<lambda>u. (u, se_expiresAt s)) (findById (se_userId s) db), db')))"

definition session_destroy :: "session_options \<Rightarrow> string \<Rightarrow> accounts \<Rightarrow> accounts" where
  "session_destroy so token db =
     (if \<not> token_pattern token then db
      else db\<lparr>db_sessions := filter (\<lambda>s. se_tokenHash s \<noteq> so_hash so token) (db_sessions db)\<rparr>)"

definition destroyAllForUser :: "string \<Rightarrow> accounts \<Rightarrow> accounts" where
  "destroyAllForUser = delete_sessions"

definition purgeExpired :: "session_options \<Rightarrow> int \<Rightarrow> accounts \<Rightarrow> nat \<times> accounts" where
  "purgeExpired so n db =
     (let gone = (\<lambda>s. se_expiresAt s \<le> n \<or> se_lastSeenAt s \<le> n - so_idleMs so) in
      (length (filter gone (db_sessions db)), db\<lparr>db_sessions := filter (\<lambda>s. \<not> gone s) (db_sessions db)\<rparr>))"

section \<open>The keys and references of the tables\<close>

definition accounts_ok :: "accounts \<Rightarrow> bool" where
  "accounts_ok db \<longleftrightarrow>
     distinct (map us_id (db_users db)) \<and> distinct (map us_email (db_users db)) \<and>
     distinct (map mb_id (db_memberships db)) \<and>
     distinct (map (\<lambda>m. (mb_userId m, mb_role m, mb_tenantId m)) (db_memberships db)) \<and>
     (\<forall>m\<in>set (db_memberships db). mb_userId m \<in> us_id ` set (db_users db) \<and>
        (mb_role m = TenantManager \<longleftrightarrow> mb_tenantId m \<noteq> None) \<and>
        (\<forall>t. mb_tenantId m = Some t \<longrightarrow> t \<in> set (db_tenants db))) \<and>
     distinct (map iv_tokenHash (db_invites db)) \<and>
     (\<forall>v\<in>set (db_invites db). iv_userId v \<in> us_id ` set (db_users db) \<and>
        (\<forall>c. iv_createdBy v = Some c \<longrightarrow> c \<in> us_id ` set (db_users db))) \<and>
     (\<forall>s\<in>set (db_sessions db). se_userId s \<in> us_id ` set (db_users db))"

text \<open>A change hook that only adds to the audit log.\<close>

definition logs_only :: "'r change_hook \<Rightarrow> bool" where
  "logs_only hook \<longleftrightarrow> (\<forall>r db db'. run_hook hook r db = Inr db' \<longrightarrow> db' = db\<lparr>db_audit := db_audit db'\<rparr>)"

lemma logs_onlyD: "logs_only hook \<Longrightarrow> run_hook hook r db = Inr db' \<Longrightarrow> \<exists>es. db' = db\<lparr>db_audit := es\<rparr>"
  by (auto simp: logs_only_def)


lemma accounts_ok_audit [simp]: "accounts_ok (db\<lparr>db_audit := es\<rparr>) = accounts_ok db"
  by (simp add: accounts_ok_def)

section \<open>What the operations do, and what they leave alone\<close>

text \<open>Everything the tables hold about one person.\<close>

definition person :: "string \<Rightarrow> accounts \<Rightarrow> user_row list \<times> membership list \<times> invite_row list \<times> session_row list" where
  "person i db = (user_rows i db, memberships_of i db, filter (\<lambda>v. iv_userId v = i) (db_invites db),
     filter (\<lambda>s. se_userId s = i) (db_sessions db))"

lemma person_audit [simp]: "person i (db\<lparr>db_audit := es\<rparr>) = person i db"
  by (simp add: person_def user_rows_def memberships_of_def)

lemma first_row_None [simp]: "first_row xs = None \<longleftrightarrow> xs = []"
  by (cases xs) simp_all

lemma first_row_Some: "first_row xs = Some x \<longleftrightarrow> (\<exists>ys. xs = x # ys)"
  by (cases xs) auto

lemma first_row_in: "first_row xs = Some x \<Longrightarrow> x \<in> set xs"
  by (auto simp: first_row_Some)

lemma hook_effect:
  assumes "logs_only hook" "run_hook hook r db = Inr db'"
  obtains es where "db' = db\<lparr>db_audit := es\<rparr>"
  using logs_onlyD[OF assms] by blast

lemma createUser_effect:
  "createUser newId n e nm h db = (Inl err, db') \<Longrightarrow> db' = db"
  "createUser newId n e nm h db = (Inr u, db') \<Longrightarrow>
     \<exists>row. db' = db\<lparr>db_users := db_users db @ [row]\<rparr> \<and> us_id row = newId \<and> u = user_of row \<and> us_status row = ActiveU \<and>
       us_id row \<notin> us_id ` set (db_users db) \<and> us_email row \<notin> us_email ` set (db_users db)"
proof -
  show "createUser newId n e nm h db = (Inl err, db') \<Longrightarrow> db' = db"
    by (auto simp: createUser_def Let_def split: option.splits if_splits)
  assume c: "createUser newId n e nm h db = (Inr u, db')"
  define row where "row = \<lparr>us_id = newId, us_email = the (normalizeEmail e), us_name = js_trim nm, us_passwordHash = h,
    us_status = ActiveU, us_createdAt = n, us_lastLoginAt = None\<rparr>"
  from c have "db' = db\<lparr>db_users := db_users db @ [row]\<rparr> \<and> us_id row = newId \<and> u = user_of row \<and> us_status row = ActiveU \<and>
       us_id row \<notin> us_id ` set (db_users db) \<and> us_email row \<notin> us_email ` set (db_users db)"
    by (auto simp: createUser_def Let_def list_ex_iff image_iff row_def split: option.splits if_splits)
  then show "\<exists>row. db' = db\<lparr>db_users := db_users db @ [row]\<rparr> \<and> us_id row = newId \<and> u = user_of row \<and> us_status row = ActiveU \<and>
       us_id row \<notin> us_id ` set (db_users db) \<and> us_email row \<notin> us_email ` set (db_users db)" ..
qed

lemma setStatus_effect:
  "setStatus i st hook db = (Inl err, db') \<Longrightarrow> db' = db"
  "setStatus i st hook db = (Inr False, db') \<Longrightarrow> db' = db \<and> user_rows i db = []"
  "setStatus i st hook db = (Inr True, db') \<Longrightarrow> logs_only hook \<Longrightarrow>
     (st = DisabledU \<longrightarrow> assertNotLastAdmin i None db = None) \<and>
     (\<exists>es. db' = ((if st = DisabledU then delete_sessions i else id) (update_user i (\<lambda>r. r\<lparr>us_status := st\<rparr>) db))\<lparr>db_audit := es\<rparr>)"
  by (auto simp: setStatus_def Let_def split: option.splits if_splits sum.splits elim!: hook_effect)

lemma grant_effect:
  "grant newId n i role tenantId db = Inr (m, db') \<Longrightarrow>
     (db' = db \<and> m \<in> set (db_memberships db) \<or>
      db' = db\<lparr>db_memberships := db_memberships db @ [m]\<rparr> \<and> mb_id m \<notin> mb_id ` set (db_memberships db) \<and>
      (mb_userId m, mb_role m, mb_tenantId m) \<notin> (\<lambda>m. (mb_userId m, mb_role m, mb_tenantId m)) ` set (db_memberships db) \<and>
      user_rows i db \<noteq> [] \<and> (\<forall>t. tenantId = Some t \<longrightarrow> t \<in> set (db_tenants db))) \<and>
     mb_userId m = i \<and> mb_role m = role \<and> mb_tenantId m = tenantId"
  by (auto simp: grant_def same_grant_def Let_def list_ex_iff image_iff tenantExists_def split: if_splits option.splits dest!: first_row_in)

lemma addMembership_effect:
  "addMembership newId n i role tenantId hook db = (Inl err, db') \<Longrightarrow> db' = db"
  "addMembership newId n i role tenantId hook db = (Inr m, db') \<Longrightarrow> logs_only hook \<Longrightarrow>
     (role = TenantManager \<longleftrightarrow> tenantId \<noteq> None) \<and> (\<exists>db1 es. grant newId n i role tenantId db = Inr (m, db1) \<and> db' = db1\<lparr>db_audit := es\<rparr>)"
  by (auto simp: addMembership_def split: if_splits sum.splits elim!: hook_effect)

lemma removeMembership_effect:
  "removeMembership i k hook db = (Inl err, db') \<Longrightarrow> db' = db"
  "removeMembership i k hook db = (Inr False, db') \<Longrightarrow> db' = db"
  "removeMembership i k hook db = (Inr True, db') \<Longrightarrow> logs_only hook \<Longrightarrow>
     \<exists>found es. found \<in> set (db_memberships db) \<and> mb_id found = k \<and> mb_userId found = i \<and>
       (is_platform found \<longrightarrow> assertNotLastAdmin i (Some k) db = None) \<and>
       db' = db\<lparr>db_memberships := filter (\<lambda>m. \<not> (mb_id m = k \<and> mb_userId m = i)) (db_memberships db), db_audit := es\<rparr>"
proof -
  show "removeMembership i k hook db = (Inl err, db') \<Longrightarrow> db' = db"
    by (auto simp: removeMembership_def Let_def split: option.splits if_splits sum.splits)
  show "removeMembership i k hook db = (Inr False, db') \<Longrightarrow> db' = db"
    by (auto simp: removeMembership_def Let_def split: option.splits if_splits sum.splits)
  assume "removeMembership i k hook db = (Inr True, db')" "logs_only hook"
  then show "\<exists>found es. found \<in> set (db_memberships db) \<and> mb_id found = k \<and> mb_userId found = i \<and>
       (is_platform found \<longrightarrow> assertNotLastAdmin i (Some k) db = None) \<and>
       db' = db\<lparr>db_memberships := filter (\<lambda>m. \<not> (mb_id m = k \<and> mb_userId m = i)) (db_memberships db), db_audit := es\<rparr>"
    by (auto simp: removeMembership_def Let_def split: option.splits if_splits sum.splits elim!: hook_effect dest!: first_row_in)
qed

lemma invite_create_effect:
  "invite_create ni i c hook db = (Inl err, db') \<Longrightarrow> db' = db"
  "invite_create ni i c hook db = (Inr v, db') \<Longrightarrow> logs_only hook \<Longrightarrow>
     \<exists>row es. db' = db\<lparr>db_invites := filter (\<lambda>v. \<not> (iv_userId v = i \<and> iv_usedAt v = None)) (db_invites db) @ [row], db_audit := es\<rparr> \<and>
       iv_userId row = i \<and> iv_createdBy row = c \<and> user_rows i db \<noteq> [] \<and> (\<forall>j. c = Some j \<longrightarrow> user_rows j db \<noteq> []) \<and>
       iv_tokenHash row \<notin> iv_tokenHash ` set (filter (\<lambda>v. \<not> (iv_userId v = i \<and> iv_usedAt v = None)) (db_invites db)) \<and>
       iv_tokenHash row = ni_tokenHash ni"
proof -
  show "invite_create ni i c hook db = (Inl err, db') \<Longrightarrow> db' = db"
    by (auto simp: invite_create_def Let_def split: if_splits sum.splits)
  assume v: "invite_create ni i c hook db = (Inr v, db')" "logs_only hook"
  define row where "row = \<lparr>iv_id = ni_id ni, iv_userId = i, iv_tokenHash = ni_tokenHash ni, iv_createdBy = c,
    iv_expiresAt = ni_expiresAt ni, iv_usedAt = None\<rparr>"
  define kept where "kept = filter (\<lambda>v. \<not> (iv_userId v = i \<and> iv_usedAt v = None)) (db_invites db)"
  from v(1) have run: "run_hook hook (ni_token ni, ni_expiresAt ni) (db\<lparr>db_invites := kept @ [row]\<rparr>) = Inr db'"
    and facts: "user_rows i db \<noteq> []" "\<forall>j. c = Some j \<longrightarrow> user_rows j db \<noteq> []" "iv_tokenHash row \<notin> iv_tokenHash ` set kept"
    unfolding invite_create_def kept_def[symmetric] row_def[symmetric]
    by (auto simp: Let_def list_ex_iff image_iff row_def split: if_splits sum.splits option.splits)
  from hook_effect[OF v(2) run] obtain es where "db' = db\<lparr>db_invites := kept @ [row], db_audit := es\<rparr>" by auto
  then have "db' = db\<lparr>db_invites := kept @ [row], db_audit := es\<rparr> \<and> iv_userId row = i \<and> iv_createdBy row = c \<and>
      user_rows i db \<noteq> [] \<and> (\<forall>j. c = Some j \<longrightarrow> user_rows j db \<noteq> []) \<and> iv_tokenHash row \<notin> iv_tokenHash ` set kept \<and>
      iv_tokenHash row = ni_tokenHash ni"
    using facts by (simp add: row_def)
  then show "\<exists>row es. db' = db\<lparr>db_invites := filter (\<lambda>v. \<not> (iv_userId v = i \<and> iv_usedAt v = None)) (db_invites db) @ [row], db_audit := es\<rparr> \<and>
       iv_userId row = i \<and> iv_createdBy row = c \<and> user_rows i db \<noteq> [] \<and> (\<forall>j. c = Some j \<longrightarrow> user_rows j db \<noteq> []) \<and>
       iv_tokenHash row \<notin> iv_tokenHash ` set (filter (\<lambda>v. \<not> (iv_userId v = i \<and> iv_usedAt v = None)) (db_invites db)) \<and>
       iv_tokenHash row = ni_tokenHash ni"
    unfolding kept_def by blast
qed

text \<open>No operation on one person changes what the tables hold about another.\<close>

lemma others_untouched:
  assumes "j \<noteq> i"
  shows "person j (update_user i (\<lambda>r. r\<lparr>us_status := st\<rparr>) db) = person j db"
    "person j (delete_sessions i db) = person j db"
    "us_id row = i \<Longrightarrow> person j (db\<lparr>db_users := db_users db @ [row]\<rparr>) = person j db"
    "mb_userId m = i \<Longrightarrow> person j (db\<lparr>db_memberships := db_memberships db @ [m]\<rparr>) = person j db"
    "person j (db\<lparr>db_memberships := filter (\<lambda>m. \<not> (mb_id m = k \<and> mb_userId m = i)) (db_memberships db)\<rparr>) = person j db"
    "iv_userId v = i \<Longrightarrow>
      person j (db\<lparr>db_invites := filter (\<lambda>v. \<not> (iv_userId v = i \<and> iv_usedAt v = None)) (db_invites db) @ [v]\<rparr>) = person j db"
proof -
  have "filter (\<lambda>r. us_id r = j) (map (\<lambda>r. if us_id r = i then r\<lparr>us_status := st\<rparr> else r) us) = filter (\<lambda>r. us_id r = j) us" for us
    using assms by (induction us) auto
  then show "person j (update_user i (\<lambda>r. r\<lparr>us_status := st\<rparr>) db) = person j db"
    by (simp add: person_def update_user_def user_rows_def memberships_of_def)
qed (use assms in \<open>auto simp: person_def delete_sessions_def user_rows_def memberships_of_def intro!: filter_cong\<close>)


section \<open>The keys and references hold after every operation\<close>

lemma ok_add_user:
  "accounts_ok db \<Longrightarrow> us_id row \<notin> us_id ` set (db_users db) \<Longrightarrow> us_email row \<notin> us_email ` set (db_users db) \<Longrightarrow>
    accounts_ok (db\<lparr>db_users := db_users db @ [row]\<rparr>)"
  unfolding accounts_ok_def by (auto simp: image_iff)

lemma ok_status: "accounts_ok db \<Longrightarrow> accounts_ok (update_user i (\<lambda>r. r\<lparr>us_status := st\<rparr>) db)"
proof -
  define us where "us = map (\<lambda>r. if us_id r = i then r\<lparr>us_status := st\<rparr> else r) (db_users db)"
  have "map us_id us = map us_id (db_users db)" "map us_email us = map us_email (db_users db)"
    by (auto simp: us_def)
  moreover from this(1) have "us_id ` set us = us_id ` set (db_users db)" by (metis set_map)
  moreover have "update_user i (\<lambda>r. r\<lparr>us_status := st\<rparr>) db = db\<lparr>db_users := us\<rparr>"
    by (simp add: update_user_def us_def)
  ultimately show "accounts_ok db \<Longrightarrow> ?thesis" by (simp add: accounts_ok_def)
qed

lemma ok_delete_sessions: "accounts_ok db \<Longrightarrow> accounts_ok (delete_sessions i db)"
  by (auto simp: accounts_ok_def delete_sessions_def)

lemma user_rows_id: "user_rows i db \<noteq> [] \<longleftrightarrow> i \<in> us_id ` set (db_users db)"
  by (auto simp: user_rows_def filter_empty_conv image_iff)

lemma ok_add_membership:
  "accounts_ok db \<Longrightarrow> mb_id m \<notin> mb_id ` set (db_memberships db) \<Longrightarrow>
    (mb_userId m, mb_role m, mb_tenantId m) \<notin> (\<lambda>m. (mb_userId m, mb_role m, mb_tenantId m)) ` set (db_memberships db) \<Longrightarrow>
    user_rows (mb_userId m) db \<noteq> [] \<Longrightarrow> (mb_role m = TenantManager \<longleftrightarrow> mb_tenantId m \<noteq> None) \<Longrightarrow>
    (\<forall>t. mb_tenantId m = Some t \<longrightarrow> t \<in> set (db_tenants db)) \<Longrightarrow>
    accounts_ok (db\<lparr>db_memberships := db_memberships db @ [m]\<rparr>)"
  unfolding accounts_ok_def user_rows_id by auto

lemma distinct_map_filter_keep: "distinct (map f xs) \<Longrightarrow> distinct (map f (filter P xs))"
  by (induction xs) auto

lemma ok_remove_membership: "accounts_ok db \<Longrightarrow> accounts_ok (db\<lparr>db_memberships := filter P (db_memberships db)\<rparr>)"
  by (auto simp: accounts_ok_def distinct_map_filter_keep)

lemma ok_invite:
  "accounts_ok db \<Longrightarrow> user_rows (iv_userId row) db \<noteq> [] \<Longrightarrow> (\<forall>j. iv_createdBy row = Some j \<longrightarrow> user_rows j db \<noteq> []) \<Longrightarrow>
    iv_tokenHash row \<notin> iv_tokenHash ` set (filter P (db_invites db)) \<Longrightarrow>
    accounts_ok (db\<lparr>db_invites := filter P (db_invites db) @ [row]\<rparr>)"
  by (auto simp: accounts_ok_def user_rows_id distinct_map_filter_keep)

section \<open>The last platform administrator\<close>

definition has_admin :: "accounts \<Rightarrow> bool" where
  "has_admin db = list_ex (\<lambda>m. is_platform m \<and> is_active (mb_userId m) db) (db_memberships db)"

lemma is_active_cong: "db_users db' = db_users db \<Longrightarrow> is_active i db' = is_active i db"
  by (simp add: is_active_def)

lemma last_admin:
  assumes "assertNotLastAdmin i x db = None" "has_admin db"
  obtains m where "m \<in> set (db_memberships db)" "is_platform m" "is_active (mb_userId m) db"
    "mb_userId m \<noteq> i \<or> x \<noteq> None \<and> Some (mb_id m) \<noteq> x"
proof (cases "list_ex (\<lambda>m. mb_userId m \<noteq> i \<and> is_platform m \<and> is_active (mb_userId m) db) (db_memberships db)")
  case True
  with that show ?thesis by (auto simp: list_ex_iff)
next
  case False
  then have none: "filter (\<lambda>m. mb_userId m \<noteq> i \<and> is_platform m \<and> is_active (mb_userId m) db) (db_memberships db) = []"
    by (auto simp: list_ex_iff filter_empty_conv)
  from False assms(2) have act: "list_ex (\<lambda>m. mb_userId m = i \<and> is_platform m \<and> is_active (mb_userId m) db) (db_memberships db)"
    by (auto simp: has_admin_def list_ex_iff)
  with assms(1) none have "x \<noteq> None \<and> list_ex (\<lambda>m. mb_userId m = i \<and> is_platform m \<and> Some (mb_id m) \<noteq> x) (db_memberships db)"
    by (simp add: assertNotLastAdmin_def Let_def split: if_splits)
  then obtain m where m: "m \<in> set (db_memberships db)" "mb_userId m = i" "is_platform m" "x \<noteq> None" "Some (mb_id m) \<noteq> x"
    by (auto simp: list_ex_iff)
  moreover from act have "is_active i db" by (auto simp: list_ex_iff)
  ultimately show ?thesis using that[of m] by simp
qed

lemma active_status:
  "is_active j (update_user i (\<lambda>r. r\<lparr>us_status := st\<rparr>) db) =
    (if j = i \<and> user_rows i db \<noteq> [] then st = ActiveU else is_active j db)"
proof -
  have e: "list_ex (\<lambda>r. us_id r = j \<and> us_status r = ActiveU) (map (\<lambda>r. if us_id r = i then r\<lparr>us_status := st\<rparr> else r) us) =
      (if j = i then filter (\<lambda>r. us_id r = i) us \<noteq> [] \<and> st = ActiveU
       else list_ex (\<lambda>r. us_id r = j \<and> us_status r = ActiveU) us)" for us
    by (induction us) auto
  have n: "filter (\<lambda>r. us_id r = i) (db_users db) = [] \<Longrightarrow> \<not> list_ex (\<lambda>r. us_id r = i \<and> us_status r = ActiveU) (db_users db)"
    by (auto simp: filter_empty_conv list_ex_iff)
  show ?thesis
  proof (cases "j = i")
    case True
    with e[of "db_users db"] n show ?thesis
      by (cases "filter (\<lambda>r. us_id r = i) (db_users db) = []") (simp_all add: is_active_def update_user_def user_rows_def)
  next
    case False
    with e[of "db_users db"] show ?thesis by (simp add: is_active_def update_user_def user_rows_def)
  qed
qed

lemma admin_after_status:
  assumes "setStatus i st hook db = (Inr b, db')" "logs_only hook" "has_admin db"
  shows "has_admin db'"
proof (cases b)
  case False
  with assms(1) have "setStatus i st hook db = (Inr False, db')" by simp
  from setStatus_effect(2)[OF this] assms(3) show ?thesis by simp
next
  case True
  with assms(1) have r: "setStatus i st hook db = (Inr True, db')" by simp
  obtain es where d: "db' = ((if st = DisabledU then delete_sessions i else id) (update_user i (\<lambda>r. r\<lparr>us_status := st\<rparr>) db))\<lparr>db_audit := es\<rparr>"
    and a: "st = DisabledU \<longrightarrow> assertNotLastAdmin i None db = None"
    using setStatus_effect(3)[OF r assms(2)] by blast
  have m: "db_memberships db' = db_memberships db" "db_users db' = db_users (update_user i (\<lambda>r. r\<lparr>us_status := st\<rparr>) db)"
    unfolding d by (auto simp: delete_sessions_def update_user_def)
  show ?thesis
  proof (cases st)
    case ActiveU
    with assms(3) show ?thesis
      unfolding has_admin_def m is_active_cong[OF m(2)] active_status by (auto simp: list_ex_iff)
  next
    case DisabledU
    with a have "assertNotLastAdmin i None db = None" by simp
    from last_admin[OF this assms(3)] obtain w where "w \<in> set (db_memberships db)" "is_platform w"
      "is_active (mb_userId w) db" "mb_userId w \<noteq> i" by blast
    then show ?thesis
      unfolding has_admin_def m is_active_cong[OF m(2)] active_status by (auto simp: list_ex_iff)
  qed
qed

lemma admin_after_removal:
  assumes "removeMembership i k hook db = (Inr b, db')" "logs_only hook" "has_admin db" "accounts_ok db"
  shows "has_admin db'"
proof (cases b)
  case False
  with assms(1) have "removeMembership i k hook db = (Inr False, db')" by simp
  from removeMembership_effect(2)[OF this] assms(3) show ?thesis by simp
next
  case True
  with assms(1) have r: "removeMembership i k hook db = (Inr True, db')" by simp
  obtain found es where f: "found \<in> set (db_memberships db)" "mb_id found = k" "mb_userId found = i"
    "is_platform found \<longrightarrow> assertNotLastAdmin i (Some k) db = None"
    "db' = db\<lparr>db_memberships := filter (\<lambda>m. \<not> (mb_id m = k \<and> mb_userId m = i)) (db_memberships db), db_audit := es\<rparr>"
    using removeMembership_effect(3)[OF r assms(2)] by blast
  have only: "m = found" if "m \<in> set (db_memberships db)" "mb_id m = k" for m
    using assms(4) f(1,2) that by (auto simp: accounts_ok_def distinct_map inj_on_def)
  obtain m where m: "m \<in> set (db_memberships db)" "is_platform m" "is_active (mb_userId m) db" "\<not> (mb_id m = k \<and> mb_userId m = i)"
  proof (cases "is_platform found")
    case True
    with f(4) have "assertNotLastAdmin i (Some k) db = None" by simp
    from last_admin[OF this assms(3)] that show ?thesis by auto
  next
    case False
    with assms(3) only that show ?thesis by (auto simp: has_admin_def list_ex_iff)
  qed
  then show ?thesis unfolding f(5) by (auto simp: has_admin_def list_ex_iff is_active_def)
qed


section \<open>Invites and sessions end\<close>

text \<open>No invite with this token hash can be used any more.\<close>

definition spent :: "string \<Rightarrow> accounts \<Rightarrow> bool" where
  "spent h db \<longleftrightarrow> (\<forall>v\<in>set (db_invites db). iv_tokenHash v = h \<longrightarrow> iv_usedAt v \<noteq> None)"

lemma accept_spends:
  assumes "invite_accept hash n token pw db = (Some u, db')" "accounts_ok db"
  shows "spent (hash token) db'"
proof -
  from assms(1) obtain v where v: "v \<in> set (db_invites db)" "usable (hash token) n db v"
    and d: "db_invites db' = map (\<lambda>w. if usable (hash token) n db w then w\<lparr>iv_usedAt := Some n\<rparr> else w) (db_invites db)"
    by (auto simp: invite_accept_def Let_def delete_sessions_def update_user_def split: if_splits option.splits dest!: first_row_in)
  have "w = v" if "w \<in> set (db_invites db)" "iv_tokenHash w = hash token" for w
    using assms(2) v that by (auto simp: accounts_ok_def usable_def distinct_map inj_on_def)
  with v(2) show ?thesis unfolding spent_def d by auto
qed

lemma spent_refuses: "spent (hash token) db \<Longrightarrow> invite_accept hash n token pw db = (None, db)"
  by (auto simp: invite_accept_def spent_def usable_def split: option.splits dest!: first_row_in)

lemma disabled_signed_out:
  assumes "setStatus i DisabledU hook db = (Inr True, db')" "logs_only hook"
  shows "filter (\<lambda>s. se_userId s = i) (db_sessions db') = [] \<and> \<not> is_active i db'"
proof -
  from setStatus_effect(3)[OF assms] obtain es where
    d: "db' = (delete_sessions i (update_user i (\<lambda>r. r\<lparr>us_status := DisabledU\<rparr>) db))\<lparr>db_audit := es\<rparr>" by auto
  then have u: "db_users db' = db_users (update_user i (\<lambda>r. r\<lparr>us_status := DisabledU\<rparr>) db)" by (simp add: delete_sessions_def)
  from assms(1) have "user_rows i db \<noteq> []" by (auto simp: setStatus_def Let_def split: option.splits if_splits)
  then have "\<not> is_active i db'" unfolding is_active_cong[OF u] active_status by simp
  moreover have "filter (\<lambda>s. se_userId s = i) (db_sessions db') = []" unfolding d by (simp add: delete_sessions_def filter_empty_conv)
  ultimately show ?thesis by blast
qed

end
