(* ===== verification/User_Admin.thy ===== *)
theory User_Admin
  imports User_Accounts
begin

text \<open>
  \<open>auth/principal.ts\<close>, \<open>auth/auditActor.ts\<close> and \<open>auth/UserAdmin.ts\<close> of the app: who may do what to
  whom when administering people. Each method of \<open>UserAdmin\<close> is a function of the caller, the tables
  and an environment, which holds the clock, the random values the method draws and what happens to
  its audit entry. Requests run one after the other; their interleaving at the database calls is
  not modelled.
\<close>

section \<open>Principals\<close>

datatype key_role = ServiceRole | ManagerRole

datatype principal =
    UserPrincipal user "membership list"
  | ApiKeyPrincipal string string string key_role
  | AdminKeyPrincipal
  | OperatorKeyPrincipal string string

fun isSystemAdmin :: "principal \<Rightarrow> bool" where
  "isSystemAdmin AdminKeyPrincipal = True"
| "isSystemAdmin (UserPrincipal u ms) = list_ex (\<lambda>m. mb_role m = SystemAdmin) ms"
| "isSystemAdmin _ = False"

fun isOperator :: "principal \<Rightarrow> bool" where
  "isOperator AdminKeyPrincipal = True"
| "isOperator (OperatorKeyPrincipal i n) = True"
| "isOperator (UserPrincipal u ms) = list_ex (\<lambda>m. mb_role m = Operator \<or> mb_role m = SystemAdmin) ms"
| "isOperator (ApiKeyPrincipal t i n r) = False"

fun managedTenantIds :: "principal \<Rightarrow> string list" where
  "managedTenantIds (UserPrincipal u ms) =
     concat (map (\<lambda>m. if mb_role m = TenantManager then (case mb_tenantId m of Some t \<Rightarrow> [t] | None \<Rightarrow> []) else []) ms)"
| "managedTenantIds _ = []"

fun canUseTenant :: "principal \<Rightarrow> string \<Rightarrow> bool" where
  "canUseTenant (ApiKeyPrincipal t i n r) tenantId = (t = tenantId)"
| "canUseTenant p tenantId = (tenantId \<in> set (managedTenantIds p))"

fun auditActorOf :: "principal \<Rightarrow> audit_actor" where
  "auditActorOf (UserPrincipal u ms) = UserActor (u_id u) (u_email u)"
| "auditActorOf AdminKeyPrincipal = AdminKeyActor"
| "auditActorOf (OperatorKeyPrincipal i n) = OperatorKeyActor i (Some n)"
| "auditActorOf (ApiKeyPrincipal t i n r) = ApiKeyActor (Some i) (Some (n @ '' (key of '' @ t @ '')''))"

section \<open>Results and requests\<close>

datatype failure_kind = Forbidden | NotFound | Conflict | Invalid

record failure =
  fa_error :: failure_kind
  fa_message :: string

definition fail :: "failure_kind \<Rightarrow> string \<Rightarrow> failure" where
  "fail kind message = \<lparr>fa_error = kind, fa_message = message\<rparr>"

text \<open>A method throws a store error, or returns a failure or a value.\<close>

type_synonym 'a outcome = "store_error + failure + 'a"

abbreviation refuse :: "failure \<Rightarrow> 'a outcome" where
  "refuse f \<equiv> Inr (Inl f)"

abbreviation ok :: "'a \<Rightarrow> 'a outcome" where
  "ok v \<equiv> Inr (Inr v)"

definition KEY_CANNOT_ESCALATE :: string where
  "KEY_CANNOT_ESCALATE = ''An operator key cannot grant the operator role or reset an operator'' @ [CHR 0x27] @
     ''s access: do that as a system admin''"

definition OPERATORS_NEED_SYSTEM_ADMIN :: string where
  "OPERATORS_NEED_SYSTEM_ADMIN = ''Only a system admin can grant the operator role or manage operators''"

definition SYSTEM_ADMIN_FROM_CLI :: string where
  "SYSTEM_ADMIN_FROM_CLI =
     ''System admins are created and removed from the command line (pnpm system-admin:create), not through the API''"

record membership_request =
  mr_role :: membership_role
  mr_tenantId :: "string option"

record create_request =
  cr_email :: string
  cr_name :: string
  cr_memberships :: "membership_request list option"

record admin_scope =
  sc_actorUserId :: "string option"
  sc_viaOperatorKey :: bool
  sc_operator :: bool
  sc_systemAdmin :: bool
  sc_managed :: "string list"

record admin_env =
  av_now :: int
  av_ids :: "nat \<Rightarrow> string"
  av_invite :: new_invite
  av_auditId :: string
  av_audit :: "store_error option option"

text \<open>
  \<open>av_audit\<close>: \<open>None\<close> without an audit log, \<open>Some (Some e)\<close> when the entry cannot be written.
\<close>

section \<open>Audit entries\<close>

definition audit_hook :: "admin_env \<Rightarrow> ('r \<Rightarrow> audit_input) \<Rightarrow> 'r change_hook" where
  "audit_hook env input =
     (case av_audit env of
        None \<Rightarrow> None
      | Some (Some e) \<Rightarrow> Some (\<lambda>r db. Inl e)
      | Some None \<Rightarrow> Some (\<lambda>r db. Inr (db\<lparr>db_audit := db_audit db @ [audit_row (av_auditId env) (av_now env) (input r)]\<rparr>)))"

definition tenantsOf :: "string option list \<Rightarrow> string list" where
  "tenantsOf ts = set_from (concat (map (\<lambda>t. if truthy t then [the t] else []) ts))"

definition role_name :: "membership_role \<Rightarrow> string" where
  "role_name r = (case r of SystemAdmin \<Rightarrow> ''system_admin'' | Operator \<Rightarrow> ''operator'' | TenantManager \<Rightarrow> ''tenant_manager'')"

definition tenant_json :: "string option \<Rightarrow> jsval" where
  "tenant_json t = (case t of Some x \<Rightarrow> JString x | None \<Rightarrow> JNull)"

definition audit_entry_for ::
  "string \<Rightarrow> principal \<Rightarrow> string list \<Rightarrow> string \<Rightarrow> (string \<times> jsval) list \<Rightarrow> audit_input" where
  "audit_entry_for action actor tenants target details =
     \<lparr>ai_action = action, ai_actor = auditActorOf actor, ai_tenantIds = Some tenants, ai_target = Some target,
      ai_details = Some details\<rparr>"

section \<open>Rules\<close>

definition scopeOf :: "principal \<Rightarrow> failure + admin_scope" where
  "scopeOf actor =
     (case actor of
        ApiKeyPrincipal t i n r \<Rightarrow> Inl (fail Forbidden ''API keys cannot administer people'')
      | _ \<Rightarrow>
          if \<not> isOperator actor \<and> managedTenantIds actor = []
          then Inl (fail Forbidden ''Operator or tenant manager role required'')
          else Inr \<lparr>sc_actorUserId = (case actor of UserPrincipal u ms \<Rightarrow> Some (u_id u) | _ \<Rightarrow> None),
            sc_viaOperatorKey = (case actor of OperatorKeyPrincipal i n \<Rightarrow> True | _ \<Rightarrow> False),
            sc_operator = isOperator actor, sc_systemAdmin = isSystemAdmin actor, sc_managed = managedTenantIds actor\<rparr>)"

definition reach :: "admin_scope \<Rightarrow> string \<Rightarrow> accounts \<Rightarrow> failure + user_with_memberships" where
  "reach scope userId db =
     (case (if sc_operator scope \<or> isWithinTenants userId (sc_managed scope) db then getWithMemberships userId db else None) of
        Some u \<Rightarrow> Inr u
      | None \<Rightarrow> Inl (fail NotFound ''User not found''))"

definition mayGrant :: "admin_scope \<Rightarrow> membership_request \<Rightarrow> bool" where
  "mayGrant scope request \<longleftrightarrow> mr_role request = TenantManager \<and>
     (case mr_tenantId request of Some t \<Rightarrow> t \<in> set (sc_managed scope) | None \<Rightarrow> False)"

definition mayNotGrantRole :: "admin_scope \<Rightarrow> membership_request \<Rightarrow> failure option" where
  "mayNotGrantRole scope request =
     (if mr_role request = SystemAdmin then Some (fail Forbidden SYSTEM_ADMIN_FROM_CLI)
      else if mr_role request \<noteq> Operator then None
      else if sc_viaOperatorKey scope then Some (fail Forbidden KEY_CANNOT_ESCALATE)
      else if \<not> sc_systemAdmin scope then Some (fail Forbidden OPERATORS_NEED_SYSTEM_ADMIN)
      else None)"

definition mayNotChange :: "admin_scope \<Rightarrow> user_with_memberships \<Rightarrow> failure option" where
  "mayNotChange scope target =
     (if list_ex (\<lambda>m. mb_role m = SystemAdmin) (uw_memberships target) then Some (fail Forbidden SYSTEM_ADMIN_FROM_CLI)
      else if \<not> sc_systemAdmin scope \<and> sc_operator scope \<and> list_ex (\<lambda>m. mb_role m = Operator) (uw_memberships target)
      then Some (fail Forbidden (if sc_viaOperatorKey scope then KEY_CANNOT_ESCALATE else OPERATORS_NEED_SYSTEM_ADMIN))
      else None)"

definition validateMembership :: "membership_request \<Rightarrow> accounts \<Rightarrow> failure option" where
  "validateMembership request db =
     (if mr_role request = Operator \<and> mr_tenantId request \<noteq> None
      then Some (fail Invalid ''An operator is platform-wide and cannot be tied to a tenant'')
      else if mr_role request = TenantManager then
        (case mr_tenantId request of
           None \<Rightarrow> Some (fail Invalid ''A tenant manager needs a tenant'')
         | Some t \<Rightarrow> if tenantExists t db then None else Some (fail Invalid ''Tenant not found''))
      else if mr_role request \<noteq> Operator then Some (fail Invalid ''Unknown role'')
      else None)"

definition fromStoreError :: "store_error \<Rightarrow> 'a outcome" where
  "fromStoreError err =
     (case err of
        EmailTakenError \<Rightarrow> refuse (fail Conflict ''A user with this email already exists'')
      | LastOperatorError \<Rightarrow> refuse (fail Conflict ''The platform needs at least one active operator or system admin'')
      | UserInputError m \<Rightarrow> refuse (fail Invalid m)
      | _ \<Rightarrow> Inl err)"

section \<open>Reading\<close>

definition list_people :: "principal \<Rightarrow> accounts \<Rightarrow> user_with_memberships list outcome" where
  "list_people actor db =
     (case scopeOf actor of
        Inl f \<Rightarrow> refuse f
      | Inr scope \<Rightarrow> ok (listWithMemberships (if sc_operator scope then None else Some (sc_managed scope)) db))"

definition get_person :: "principal \<Rightarrow> string \<Rightarrow> accounts \<Rightarrow> user_with_memberships outcome" where
  "get_person actor userId db =
     (case scopeOf actor of Inl f \<Rightarrow> refuse f | Inr scope \<Rightarrow> Inr (reach scope userId db))"

section \<open>Creating a person\<close>

text \<open>\<open>for (const membership of memberships) await this.users.addMembership(\<dots>)\<close>.\<close>

fun add_all :: "admin_env \<Rightarrow> nat \<Rightarrow> string \<Rightarrow> membership_request list \<Rightarrow> accounts \<Rightarrow> store_error option \<times> accounts" where
  "add_all env k userId [] db = (None, db)"
| "add_all env k userId (r # rs) db =
     (case addMembership (av_ids env k) (av_now env) userId (mr_role r) (mr_tenantId r) None db of
        (Inl e, db') \<Rightarrow> (Some e, db')
      | (Inr m, db') \<Rightarrow> add_all env (Suc k) userId rs db')"

definition create_entry :: "principal \<Rightarrow> membership_request list \<Rightarrow> user_with_memberships \<Rightarrow> audit_input" where
  "create_entry actor memberships u =
     audit_entry_for ''user.create'' actor (tenantsOf (map mr_tenantId memberships)) (u_id (uw_user u))
       [(''email'', JString (u_email (uw_user u))),
        (''roles'', JArray (map (\<lambda>m. JObject [(''role'', JString (role_name (mr_role m))), (''tenantId'', tenant_json (mr_tenantId m))])
          memberships)),
        (''invited'', JBool True)]"

text \<open>The second \<open>try\<close>: the memberships, the invite and the audit entry; an error is the \<open>Inl\<close>.\<close>

definition furnish ::
  "admin_env \<Rightarrow> principal \<Rightarrow> admin_scope \<Rightarrow> string \<Rightarrow> membership_request list \<Rightarrow> accounts \<Rightarrow>
     (store_error + user_with_memberships \<times> string \<times> int) \<times> accounts" where
  "furnish env actor scope userId memberships db =
     (case add_all env 1 userId memberships db of
        (Some e, db1) \<Rightarrow> (Inl e, db1)
      | (None, db1) \<Rightarrow>
          (case invite_create (av_invite env) userId (sc_actorUserId scope) None db1 of
             (Inl e, db2) \<Rightarrow> (Inl e, db2)
           | (Inr invite, db2) \<Rightarrow>
               (case getWithMemberships userId db2 of
                  None \<Rightarrow> (Inl (UnexpectedError ''the user just created was not found''), db2)
                | Some u \<Rightarrow>
                    (case run_hook (audit_hook env (create_entry actor memberships)) u db2 of
                       Inl e \<Rightarrow> (Inl e, db2)
                     | Inr db3 \<Rightarrow> (Inr (u, invite), db3)))))"

definition create_denied :: "admin_scope \<Rightarrow> membership_request list \<Rightarrow> accounts \<Rightarrow> failure option" where
  "create_denied scope memberships db =
     first_some
       ((if sc_operator scope then []
         else [if memberships = [] then Some (fail Forbidden ''Give the new person at least one of your tenants (a manager role)'')
               else if list_all (mayGrant scope) memberships then None
               else Some (fail Forbidden ''Tenant managers can only grant a manager role in tenants they manage'')]) @
        map (mayNotGrantRole scope) memberships @ map (\<lambda>m. validateMembership m db) memberships)"

definition create_person ::
  "admin_env \<Rightarrow> principal \<Rightarrow> create_request \<Rightarrow> accounts \<Rightarrow>
     (user_with_memberships \<times> string \<times> int) outcome \<times> accounts" where
  "create_person env actor request db =
     (case scopeOf actor of
        Inl f \<Rightarrow> (refuse f, db)
      | Inr scope \<Rightarrow>
          let memberships = (case cr_memberships request of Some ms \<Rightarrow> ms | None \<Rightarrow> []) in
          (case create_denied scope memberships db of
             Some f \<Rightarrow> (refuse f, db)
           | None \<Rightarrow>
               (case createUser (av_ids env 0) (av_now env) (cr_email request) (cr_name request) None db of
                  (Inl e, db1) \<Rightarrow> (fromStoreError e, db1)
                | (Inr created, db1) \<Rightarrow>
                    (case furnish env actor scope (u_id created) memberships db1 of
                       (Inr v, db2) \<Rightarrow> (ok v, db2)
                     | (Inl e, db2) \<Rightarrow> (fromStoreError e, snd (deleteUser (u_id created) db2))))))"

section \<open>Changing a person\<close>

definition email_detail :: "user_with_memberships \<Rightarrow> string \<times> jsval" where
  "email_detail target = (''email'', JString (u_email (uw_user target)))"

definition set_person_status ::
  "admin_env \<Rightarrow> principal \<Rightarrow> string \<Rightarrow> user_status \<Rightarrow> accounts \<Rightarrow> user_with_memberships outcome \<times> accounts" where
  "set_person_status env actor userId status db =
     (case scopeOf actor of
        Inl f \<Rightarrow> (refuse f, db)
      | Inr scope \<Rightarrow>
          (case reach scope userId db of
             Inl f \<Rightarrow> (refuse f, db)
           | Inr target \<Rightarrow>
               if status = DisabledU \<and> sc_actorUserId scope = Some userId
               then (refuse (fail Conflict ''You cannot disable your own account''), db)
               else
                 (case mayNotChange scope target of
                    Some f \<Rightarrow> (refuse f, db)
                  | None \<Rightarrow>
                      (case setStatus userId status
                          (audit_hook env (\<lambda>_. audit_entry_for (if status = DisabledU then ''user.disable'' else ''user.enable'')
                             actor (tenantsOf (map mb_tenantId (uw_memberships target))) userId [email_detail target])) db of
                         (Inl e, db') \<Rightarrow> (fromStoreError e, db')
                       | (Inr _, db') \<Rightarrow> (Inr (reach scope userId db'), db')))))"

definition add_person_membership ::
  "admin_env \<Rightarrow> principal \<Rightarrow> string \<Rightarrow> membership_request \<Rightarrow> accounts \<Rightarrow> membership outcome \<times> accounts" where
  "add_person_membership env actor userId request db =
     (case scopeOf actor of
        Inl f \<Rightarrow> (refuse f, db)
      | Inr scope \<Rightarrow>
          (case reach scope userId db of
             Inl f \<Rightarrow> (refuse f, db)
           | Inr target \<Rightarrow>
               if \<not> sc_operator scope \<and> \<not> mayGrant scope request
               then (refuse (fail Forbidden ''Tenant managers can only grant a manager role in tenants they manage''), db)
               else if sc_operator scope \<and> sc_actorUserId scope = Some userId \<and> mr_role request = TenantManager
               then (refuse (fail Forbidden
                 ''An operator cannot grant themselves a tenant role; ask another operator to add the membership''), db)
               else
                 (case first_some [mayNotGrantRole scope request, mayNotChange scope target, validateMembership request db] of
                    Some f \<Rightarrow> (refuse f, db)
                  | None \<Rightarrow>
                      (case addMembership (av_ids env 0) (av_now env) userId (mr_role request) (mr_tenantId request)
                          (audit_hook env (\<lambda>m. audit_entry_for ''membership.add'' actor (tenantsOf [mb_tenantId m]) userId
                             [email_detail target, (''role'', JString (role_name (mb_role m))), (''tenantId'', tenant_json (mb_tenantId m))]))
                          db of
                         (Inl e, db') \<Rightarrow> (fromStoreError e, db')
                       | (Inr m, db') \<Rightarrow> (ok m, db')))))"

definition remove_person_membership ::
  "admin_env \<Rightarrow> principal \<Rightarrow> string \<Rightarrow> string \<Rightarrow> accounts \<Rightarrow> unit outcome \<times> accounts" where
  "remove_person_membership env actor userId membershipId db =
     (case scopeOf actor of
        Inl f \<Rightarrow> (refuse f, db)
      | Inr scope \<Rightarrow>
          (case reach scope userId db of
             Inl f \<Rightarrow> (refuse f, db)
           | Inr target \<Rightarrow>
               (case List.find (\<lambda>m. mb_id m = membershipId) (uw_memberships target) of
                  None \<Rightarrow> (refuse (fail NotFound ''Membership not found''), db)
                | Some m \<Rightarrow>
                    if sc_actorUserId scope = Some userId \<and> (mb_role m = Operator \<or> length (uw_memberships target) = 1)
                    then (refuse (fail Conflict
                      ''You cannot remove your own operator role or your last role; ask another administrator''), db)
                    else
                      (case mayNotChange scope target of
                         Some f \<Rightarrow> (refuse f, db)
                       | None \<Rightarrow>
                           (case removeMembership userId membershipId
                               (audit_hook env (\<lambda>_. audit_entry_for ''membership.remove'' actor (tenantsOf [mb_tenantId m]) userId
                                  [email_detail target, (''role'', JString (role_name (mb_role m))), (''tenantId'', tenant_json (mb_tenantId m))]))
                               db of
                              (Inl e, db') \<Rightarrow> (fromStoreError e, db')
                            | (Inr _, db') \<Rightarrow> (ok (), db'))))))"

definition reinvite_person ::
  "admin_env \<Rightarrow> principal \<Rightarrow> string \<Rightarrow> accounts \<Rightarrow> (user_with_memberships \<times> string \<times> int) outcome \<times> accounts" where
  "reinvite_person env actor userId db =
     (case scopeOf actor of
        Inl f \<Rightarrow> (refuse f, db)
      | Inr scope \<Rightarrow>
          (case reach scope userId db of
             Inl f \<Rightarrow> (refuse f, db)
           | Inr target \<Rightarrow>
               if u_status (uw_user target) \<noteq> ActiveU
               then (refuse (fail Conflict ''Enable the account before inviting the person again''), db)
               else
                 (case mayNotChange scope target of
                    Some f \<Rightarrow> (refuse f, db)
                  | None \<Rightarrow>
                      (case invite_create (av_invite env) userId (sc_actorUserId scope)
                          (audit_hook env (\<lambda>_. audit_entry_for ''invite.create'' actor
                             (tenantsOf (map mb_tenantId (uw_memberships target))) userId
                             [email_detail target, (''reset'', JBool (u_hasPassword (uw_user target)))])) db of
                         (Inl e, db') \<Rightarrow> (Inl e, db')
                       | (Inr invite, db') \<Rightarrow> (ok (target, invite), db')))))"

section \<open>Requests\<close>

datatype admin_request =
    CreatePerson create_request
  | SetPersonStatus string user_status
  | AddPersonMembership string membership_request
  | RemovePersonMembership string string
  | ReinvitePerson string

text \<open>Whether the request succeeded, and the tables after it.\<close>

definition succeeded :: "'a outcome \<Rightarrow> bool" where
  "succeeded r = (case r of Inr (Inr v) \<Rightarrow> True | _ \<Rightarrow> False)"

fun administer :: "admin_env \<Rightarrow> principal \<Rightarrow> admin_request \<Rightarrow> accounts \<Rightarrow> bool \<times> accounts" where
  "administer env actor (CreatePerson r) db = (case create_person env actor r db of (x, db') \<Rightarrow> (succeeded x, db'))"
| "administer env actor (SetPersonStatus i s) db = (case set_person_status env actor i s db of (x, db') \<Rightarrow> (succeeded x, db'))"
| "administer env actor (AddPersonMembership i r) db = (case add_person_membership env actor i r db of (x, db') \<Rightarrow> (succeeded x, db'))"
| "administer env actor (RemovePersonMembership i m) db = (case remove_person_membership env actor i m db of (x, db') \<Rightarrow> (succeeded x, db'))"
| "administer env actor (ReinvitePerson i) db = (case reinvite_person env actor i db of (x, db') \<Rightarrow> (succeeded x, db'))"

section \<open>A refused request changes nothing\<close>

lemma audit_hook_logs: "logs_only (audit_hook env f)"
  by (auto simp: logs_only_def audit_hook_def run_hook_def split: option.splits)

lemma no_hook_logs: "logs_only None"
  by (simp add: logs_only_def run_hook_def)

definition logged :: "admin_env \<Rightarrow> principal \<Rightarrow> audit_entry list \<Rightarrow> audit_entry list \<Rightarrow> bool" where
  "logged env actor es es' \<longleftrightarrow>
     (case av_audit env of
        None \<Rightarrow> es' = es
      | Some (Some e) \<Rightarrow> False
      | Some None \<Rightarrow> \<exists>input. ai_actor input = auditActorOf actor \<and>
          es' = es @ [audit_row (av_auditId env) (av_now env) input])"

lemma hook_logged:
  "run_hook (audit_hook env f) r db = Inr db' \<Longrightarrow> ai_actor (f r) = auditActorOf actor \<Longrightarrow>
    \<exists>es. db' = db\<lparr>db_audit := es\<rparr> \<and> logged env actor (db_audit db) es"
  by (auto simp: audit_hook_def run_hook_def logged_def split: option.splits)

lemma entry_actor [simp]: "ai_actor (audit_entry_for action actor ts target details) = auditActorOf actor"
  by (simp add: audit_entry_for_def)

text \<open>The memberships a new person gets are those that were asked for.\<close>

definition asked_for :: "string \<Rightarrow> membership_request list \<Rightarrow> membership list \<Rightarrow> bool" where
  "asked_for i reqs ms \<longleftrightarrow>
     (\<forall>m\<in>set ms. mb_userId m = i \<and> (\<exists>r\<in>set reqs. mb_role m = mr_role r \<and> mb_tenantId m = mr_tenantId r))"

lemma no_hook: "run_hook None r db = Inr db' \<longleftrightarrow> db' = db"
  by (auto simp: run_hook_def)

lemma add_all_effect:
  assumes "add_all env k i reqs db = (x, db')"
  shows "\<exists>ms. db' = db\<lparr>db_memberships := db_memberships db @ ms\<rparr> \<and> asked_for i reqs ms \<and> (accounts_ok db \<longrightarrow> accounts_ok db')"
  using assms
proof (induction reqs arbitrary: k db)
  case Nil
  then show ?case by (intro exI[of _ "[]"]) (simp add: asked_for_def)
next
  case (Cons r reqs)
  obtain y db1 where a: "addMembership (av_ids env k) (av_now env) i (mr_role r) (mr_tenantId r) None db = (y, db1)"
    by fastforce
  show ?case
  proof (cases y)
    case (Inl e)
    with a addMembership_effect(1) have "db1 = db" by blast
    with Cons.prems a Inl show ?thesis by (intro exI[of _ "[]"]) (simp add: asked_for_def)
  next
    case (Inr m)
    with a have role: "mr_role r = TenantManager \<longleftrightarrow> mr_tenantId r \<noteq> None"
      and g: "grant (av_ids env k) (av_now env) i (mr_role r) (mr_tenantId r) db = Inr (m, db1)"
      by (auto simp: addMembership_def run_hook_def split: if_splits sum.splits)
    from grant_effect[OF g] obtain ms1 where ms1: "db1 = db\<lparr>db_memberships := db_memberships db @ ms1\<rparr>" "asked_for i [r] ms1"
      by (elim conjE disjE) (force simp: asked_for_def intro: that[of "[]"] that[of "[m]"])+
    have ok1: "accounts_ok db \<Longrightarrow> accounts_ok db1"
      using grant_effect[OF g] role ok_add_membership[of db m] by (auto simp: ms1)
    from Cons.prems a Inr have "add_all env (Suc k) i reqs db1 = (x, db')" by simp
    from Cons.IH[OF this] obtain ms2 where ms2: "db' = db1\<lparr>db_memberships := db_memberships db1 @ ms2\<rparr>" "asked_for i reqs ms2"
      "accounts_ok db1 \<longrightarrow> accounts_ok db'" by blast
    show ?thesis
      using ms1 ms2 ok1 by (intro exI[of _ "ms1 @ ms2"]) (auto simp: asked_for_def)
  qed
qed

text \<open>The tables with what was added for a new person.\<close>

abbreviation adds_person ::
  "accounts \<Rightarrow> membership list \<Rightarrow> invite_row list \<Rightarrow> audit_entry list \<Rightarrow> accounts" where
  "adds_person db ms vs es \<equiv> db\<lparr>db_memberships := db_memberships db @ ms, db_invites := db_invites db @ vs, db_audit := es\<rparr>"

lemma invite_no_hook: "invite_create ni i c None db = (r, db') \<Longrightarrow> db_audit db' = db_audit db"
  by (auto simp: invite_create_def run_hook_def Let_def split: if_splits)

lemma furnish_effect:
  assumes "furnish env actor scope i reqs db = (x, db')" "\<forall>v\<in>set (db_invites db). iv_userId v \<noteq> i"
  shows "\<exists>ms vs es. db' = adds_person db ms vs es \<and> asked_for i reqs ms \<and> (\<forall>v\<in>set vs. iv_userId v = i) \<and>
    (\<forall>v\<in>set vs. iv_tokenHash v = ni_tokenHash (av_invite env)) \<and> (accounts_ok db \<longrightarrow> accounts_ok db') \<and>
    (case x of Inl e \<Rightarrow> es = db_audit db | Inr r \<Rightarrow> logged env actor (db_audit db) es)"
proof -
  obtain y db1 where a: "add_all env 1 i reqs db = (y, db1)" by fastforce
  from add_all_effect[OF a] obtain ms where ms: "db1 = db\<lparr>db_memberships := db_memberships db @ ms\<rparr>" "asked_for i reqs ms"
    "accounts_ok db \<longrightarrow> accounts_ok db1" by blast
  show ?thesis
  proof (cases y)
    case (Some e)
    with assms(1) a have "x = Inl e" "db' = db1" by (auto simp: furnish_def)
    with ms show ?thesis by (intro exI[of _ ms] exI[of _ "[]"] exI[of _ "db_audit db"]) simp
  next
    case None
    obtain z db2 where c: "invite_create (av_invite env) i (sc_actorUserId scope) None db1 = (z, db2)" by fastforce
    show ?thesis
    proof (cases z)
      case (Inl e)
      with assms(1) a c None have "x = Inl e" "db' = db1"
        using invite_create_effect(1) by (auto simp: furnish_def)
      with ms show ?thesis by (intro exI[of _ ms] exI[of _ "[]"] exI[of _ "db_audit db"]) simp
    next
      case (Inr invite)
      have keep: "filter (\<lambda>v. \<not> (iv_userId v = i \<and> iv_usedAt v = None)) (db_invites db) = db_invites db"
        using assms(2) by (auto simp: filter_id_conv)
      from invite_create_effect(2)[OF c[unfolded Inr] no_hook_logs] obtain row es where
        new: "db2 = db1\<lparr>db_invites := filter (\<lambda>v. \<not> (iv_userId v = i \<and> iv_usedAt v = None)) (db_invites db1) @ [row], db_audit := es\<rparr>"
        and row: "iv_userId row = i" "iv_createdBy row = sc_actorUserId scope" "user_rows i db1 \<noteq> []"
        "\<forall>j. sc_actorUserId scope = Some j \<longrightarrow> user_rows j db1 \<noteq> []"
        and hash: "iv_tokenHash row \<notin> iv_tokenHash ` set (filter (\<lambda>v. \<not> (iv_userId v = i \<and> iv_usedAt v = None)) (db_invites db1))"
        and token: "iv_tokenHash row = ni_tokenHash (av_invite env)"
        by blast
      have inv1: "db_invites db1 = db_invites db" using ms(1) by simp
      note new = new[unfolded inv1 keep] and hash = hash[unfolded inv1 keep]
      have es: "es = db_audit db"
        using invite_no_hook[OF c] new ms(1) by simp
      have ok2: "accounts_ok db1 \<Longrightarrow> accounts_ok db2"
        using ok_invite[of db1 row "\<lambda>v. True"] row hash inv1 unfolding new by simp
      have d2: "db2 = adds_person db ms [row] (db_audit db)" using new es unfolding ms(1) by simp
      show ?thesis
      proof (cases "db' = db2 \<and> (\<exists>e. x = Inl e)")
        case True
        with d2 ms ok2 row(1) token show ?thesis by (intro exI[of _ ms] exI[of _ "[row]"] exI[of _ "db_audit db"]) auto
      next
        case False
        with assms(1) a c None Inr obtain u where u: "run_hook (audit_hook env (create_entry actor reqs)) u db2 = Inr db'" "\<exists>r. x = Inr r"
          by (auto simp: furnish_def split: option.splits sum.splits)
        from hook_logged[OF u(1)] obtain es' where "db' = db2\<lparr>db_audit := es'\<rparr>" "logged env actor (db_audit db2) es'"
          by (auto simp: create_entry_def)
        with d2 ms ok2 row(1) token u(2) show ?thesis by (intro exI[of _ ms] exI[of _ "[row]"] exI[of _ es']) auto
      qed
    qed
  qed
qed

lemma delete_undoes:
  assumes "accounts_ok db" "us_id row \<notin> us_id ` set (db_users db)" "asked_for (us_id row) reqs ms" "\<forall>v\<in>set vs. iv_userId v = us_id row"
  shows "snd (deleteUser (us_id row) (adds_person (db\<lparr>db_users := db_users db @ [row]\<rparr>) ms vs (db_audit db))) = db"
proof -
  have "filter (\<lambda>r. us_id r \<noteq> us_id row) (db_users db) = db_users db"
    using assms(2) by (intro filter_True ballI) (metis imageI)
  moreover have old: "\<forall>m\<in>set (db_memberships db). mb_userId m \<noteq> us_id row" "\<forall>s\<in>set (db_sessions db). se_userId s \<noteq> us_id row"
    "\<forall>v\<in>set (db_invites db). iv_userId v \<noteq> us_id row \<and> iv_createdBy v \<noteq> Some (us_id row)"
    using assms(1,2) unfolding accounts_ok_def by metis+
  moreover have "filter (\<lambda>m. mb_userId m \<noteq> us_id row) (db_memberships db) = db_memberships db"
    "filter (\<lambda>s. se_userId s \<noteq> us_id row) (db_sessions db) = db_sessions db"
    "filter (\<lambda>v. iv_userId v \<noteq> us_id row) (db_invites db) = db_invites db"
    using old by (simp_all add: filter_id_conv)
  moreover have "filter (\<lambda>m. mb_userId m \<noteq> us_id row) ms = []" "filter (\<lambda>v. iv_userId v \<noteq> us_id row) vs = []"
    using assms(3,4) by (simp_all add: filter_empty_conv asked_for_def)
  moreover have "map (\<lambda>v. if iv_createdBy v = Some (us_id row) then v\<lparr>iv_createdBy := None\<rparr> else v) (db_invites db) = db_invites db"
    using old(3) by (intro map_idI) simp
  ultimately show ?thesis by (simp add: deleteUser_def)
qed

section \<open>The changes a request can make\<close>

inductive person_change :: "admin_env \<Rightarrow> principal \<Rightarrow> accounts \<Rightarrow> accounts \<Rightarrow> bool" for env actor db where
  created: "scopeOf actor = Inr scope \<Longrightarrow> create_denied scope reqs db = None \<Longrightarrow>
    us_id row \<notin> us_id ` set (db_users db) \<Longrightarrow> us_email row \<notin> us_email ` set (db_users db) \<Longrightarrow> us_status row = ActiveU \<Longrightarrow>
    asked_for (us_id row) reqs ms \<Longrightarrow> \<forall>v\<in>set vs. iv_userId v = us_id row \<Longrightarrow>
    \<forall>v\<in>set vs. iv_tokenHash v = ni_tokenHash (av_invite env) \<Longrightarrow> logged env actor (db_audit db) es \<Longrightarrow>
    accounts_ok (adds_person (db\<lparr>db_users := db_users db @ [row]\<rparr>) ms vs es) \<Longrightarrow>
    person_change env actor db (adds_person (db\<lparr>db_users := db_users db @ [row]\<rparr>) ms vs es)"
| status_set: "scopeOf actor = Inr scope \<Longrightarrow> reach scope i db = Inr t \<Longrightarrow> mayNotChange scope t = None \<Longrightarrow>
    \<not> (st = DisabledU \<and> sc_actorUserId scope = Some i) \<Longrightarrow>
    setStatus i st (audit_hook env f) db = (Inr True, db') \<Longrightarrow> logged env actor (db_audit db) (db_audit db') \<Longrightarrow>
    person_change env actor db db'"
| granted: "scopeOf actor = Inr scope \<Longrightarrow> reach scope i db = Inr t \<Longrightarrow> mayNotChange scope t = None \<Longrightarrow>
    mayNotGrantRole scope r = None \<Longrightarrow> sc_operator scope \<or> mayGrant scope r \<Longrightarrow>
    addMembership k n i (mr_role r) (mr_tenantId r) (audit_hook env f) db = (Inr m, db') \<Longrightarrow>
    logged env actor (db_audit db) (db_audit db') \<Longrightarrow> person_change env actor db db'"
| removed: "scopeOf actor = Inr scope \<Longrightarrow> reach scope i db = Inr t \<Longrightarrow> mayNotChange scope t = None \<Longrightarrow>
    removeMembership i k (audit_hook env f) db = (Inr True, db') \<Longrightarrow> logged env actor (db_audit db) (db_audit db') \<Longrightarrow>
    person_change env actor db db'"
| reinvited: "scopeOf actor = Inr scope \<Longrightarrow> reach scope i db = Inr t \<Longrightarrow> mayNotChange scope t = None \<Longrightarrow>
    invite_create (av_invite env) i (sc_actorUserId scope) (audit_hook env f) db = (Inr v, db') \<Longrightarrow>
    logged env actor (db_audit db) (db_audit db') \<Longrightarrow> person_change env actor db db'"

lemma hook_logged_audit:
  assumes "run_hook (audit_hook env f) r db1 = Inr db'" "\<forall>r. ai_actor (f r) = auditActorOf actor" "db_audit db1 = es"
  shows "logged env actor es (db_audit db')"
  using hook_logged[OF assms(1) assms(2)[rule_format]] assms(3) by auto

lemma setStatus_logged:
  "setStatus i st (audit_hook env f) db = (Inr True, db') \<Longrightarrow> \<forall>r. ai_actor (f r) = auditActorOf actor \<Longrightarrow>
    logged env actor (db_audit db) (db_audit db')"
  by (auto simp: setStatus_def Let_def update_user_def delete_sessions_def split: option.splits if_splits sum.splits
      elim!: hook_logged_audit)

lemma addMembership_logged:
  "addMembership k n i role ten (audit_hook env f) db = (Inr m, db') \<Longrightarrow> \<forall>r. ai_actor (f r) = auditActorOf actor \<Longrightarrow>
    logged env actor (db_audit db) (db_audit db')"
  by (auto simp: addMembership_def split: if_splits sum.splits dest!: grant_effect elim!: hook_logged_audit)

lemma removeMembership_logged:
  "removeMembership i k (audit_hook env f) db = (Inr True, db') \<Longrightarrow> \<forall>r. ai_actor (f r) = auditActorOf actor \<Longrightarrow>
    logged env actor (db_audit db) (db_audit db')"
  by (auto simp: removeMembership_def Let_def split: option.splits if_splits sum.splits
      elim!: hook_logged_audit)

lemma invite_create_logged:
  "invite_create ni i c (audit_hook env f) db = (Inr v, db') \<Longrightarrow> \<forall>r. ai_actor (f r) = auditActorOf actor \<Longrightarrow>
    logged env actor (db_audit db) (db_audit db')"
  by (auto simp: invite_create_def Let_def split: if_splits sum.splits elim!: hook_logged_audit)

lemma fromStoreError_fails [simp]: "\<not> succeeded (fromStoreError e)"
  by (auto simp: fromStoreError_def succeeded_def split: store_error.splits)

lemma succeeded_simps [simp]: "\<not> succeeded (refuse f)" "succeeded (ok v)" "\<not> succeeded (Inl e)"
  by (simp_all add: succeeded_def)

lemma create_changes:
  assumes "create_person env actor req db = (x, db')" "accounts_ok db"
  shows "if succeeded x then person_change env actor db db' else db' = db"
proof (cases "scopeOf actor")
  case (Inr scope)
  define reqs where "reqs = (case cr_memberships req of Some ms \<Rightarrow> ms | None \<Rightarrow> [])"
  show ?thesis
  proof (cases "create_denied scope reqs db")
    case None
    obtain y db1 where c: "createUser (av_ids env 0) (av_now env) (cr_email req) (cr_name req) None db = (y, db1)" by fastforce
    show ?thesis
    proof (cases y)
      case (Inl e)
      with c createUser_effect(1) have "db1 = db" by blast
      with assms(1) c Inr None Inl show ?thesis by (auto simp: create_person_def reqs_def Let_def)
    next
      case (Inr u)
      from createUser_effect(2)[OF c[unfolded Inr]] obtain row where
        row: "db1 = db\<lparr>db_users := db_users db @ [row]\<rparr>" "u = user_of row" "us_status row = ActiveU"
        "us_id row \<notin> us_id ` set (db_users db)" "us_email row \<notin> us_email ` set (db_users db)" by blast
      have u: "u_id u = us_id row" using row(2) by (simp add: user_of_def)
      have no: "\<forall>v\<in>set (db_invites db1). iv_userId v \<noteq> us_id row"
        using assms(2) row(4) unfolding row(1) accounts_ok_def by (metis accounts.select_convs(3) accounts.surjective accounts.update_convs(1))
      obtain z db2 where z: "furnish env actor scope (us_id row) reqs db1 = (z, db2)" by fastforce
      from furnish_effect[OF z no] obtain ms vs es where e: "db2 = adds_person db1 ms vs es" "asked_for (us_id row) reqs ms"
        "\<forall>v\<in>set vs. iv_userId v = us_id row" "accounts_ok db1 \<longrightarrow> accounts_ok db2"
        "\<forall>v\<in>set vs. iv_tokenHash v = ni_tokenHash (av_invite env)"
        "case z of Inl e \<Rightarrow> es = db_audit db1 | Inr r \<Rightarrow> logged env actor (db_audit db1) es" by blast
      have ok2: "accounts_ok db2" using e(4) ok_add_user[OF assms(2) row(4,5)] row(1) by simp
      have x: "(x, db') = (case z of Inr v \<Rightarrow> (ok v, db2) | Inl err \<Rightarrow> (fromStoreError err, snd (deleteUser (us_id row) db2)))"
        using assms(1) c \<open>scopeOf actor = Inr scope\<close> None Inr z u
        by (auto simp: create_person_def reqs_def Let_def split: sum.splits)
      show ?thesis
      proof (cases z)
        case (Inl err)
        with e(1,6) row(1) have "db2 = adds_person (db\<lparr>db_users := db_users db @ [row]\<rparr>) ms vs (db_audit db)" by simp
        with delete_undoes[OF assms(2) row(4) e(2,3)] x Inl show ?thesis by simp
      next
        case (Inr v)
        have "person_change env actor db db2"
          using person_change.created[OF \<open>scopeOf actor = Inr scope\<close> None row(4,5,3) e(2,3,5)] e(1,6) ok2 row(1) Inr by simp
        with x Inr show ?thesis by simp
      qed
    qed
  qed (use assms Inr in \<open>auto simp: create_person_def reqs_def Let_def\<close>)
qed (use assms in \<open>auto simp: create_person_def\<close>)

lemma reach_Inr: "reach scope i db = Inr t \<longleftrightarrow>
    (sc_operator scope \<or> isWithinTenants i (sc_managed scope) db) \<and> getWithMemberships i db = Some t"
  by (auto simp: reach_def split: option.splits)

lemma getWithMemberships_Some:
  "getWithMemberships i db = Some t \<Longrightarrow> set (uw_memberships t) = set (memberships_of i db) \<and> user_rows i db \<noteq> []"
  by (auto simp: getWithMemberships_def findById_def first_row_Some listMemberships_def user_of_def user_rows_def
      filter_eq_Cons_iff)

lemma getWithMemberships_ex: "user_rows i db \<noteq> [] \<Longrightarrow> \<exists>t. getWithMemberships i db = Some t"
  by (cases "user_rows i db") (auto simp: getWithMemberships_def findById_def)

lemma reach_after_status:
  assumes "reach scope i db = Inr t" "setStatus i st (audit_hook env f) db = (Inr True, db')"
  shows "\<exists>t'. reach scope i db' = Inr t'"
proof -
  from setStatus_effect(3)[OF assms(2) audit_hook_logs] obtain es where
    d: "db' = ((if st = DisabledU then delete_sessions i else id) (update_user i (\<lambda>r. r\<lparr>us_status := st\<rparr>) db))\<lparr>db_audit := es\<rparr>" by blast
  have users: "map us_id (db_users db') = map us_id (db_users db)" unfolding d by (auto simp: delete_sessions_def update_user_def)
  have "db_memberships db' = db_memberships db" unfolding d by (auto simp: delete_sessions_def update_user_def)
  then have ms: "memberships_of j db' = memberships_of j db" for j by (simp add: memberships_of_def)
  from users have "us_id ` set (db_users db') = us_id ` set (db_users db)" by (metis set_map)
  then have rows: "user_rows i db' \<noteq> [] \<longleftrightarrow> user_rows i db \<noteq> []" unfolding user_rows_id by simp
  from assms(1) have "user_rows i db \<noteq> []" using getWithMemberships_Some unfolding reach_Inr by blast
  with rows getWithMemberships_ex obtain t' where "getWithMemberships i db' = Some t'" by blast
  moreover have "isWithinTenants i (sc_managed scope) db' = isWithinTenants i (sc_managed scope) db"
    using rows by (simp add: isWithinTenants_def withinTenantsPredicate_def ms)
  ultimately show ?thesis using assms(1) unfolding reach_Inr by simp
qed

lemma status_changes:
  assumes "set_person_status env actor i st db = (x, db')"
  shows "if succeeded x then person_change env actor db db' else db' = db"
proof (cases "scopeOf actor")
  case (Inr scope)
  show ?thesis
  proof (cases "reach scope i db")
    case r: (Inr t)
    show ?thesis
    proof (cases "st = DisabledU \<and> sc_actorUserId scope = Some i \<or> mayNotChange scope t \<noteq> None")
      case False
      define f where "f = (\<lambda>_ :: bool. audit_entry_for (if st = DisabledU then ''user.disable'' else ''user.enable'')
        actor (tenantsOf (map mb_tenantId (uw_memberships t))) i [email_detail t])"
      obtain y db1 where s: "setStatus i st (audit_hook env f) db = (y, db1)" by fastforce
      have x: "(x, db') = (case y of Inl e \<Rightarrow> (fromStoreError e, db1) | Inr b \<Rightarrow> (Inr (reach scope i db1), db1))"
        using assms Inr r False s[unfolded f_def]
        by (auto simp: set_person_status_def split: sum.splits option.splits)
      show ?thesis
      proof (cases y)
        case (Inl e)
        with s setStatus_effect(1) x show ?thesis by auto
      next
        case (Inr b)
        have "user_rows i db \<noteq> []" using r getWithMemberships_Some unfolding reach_Inr by blast
        have b: "b = True"
        proof (rule ccontr)
          assume "b \<noteq> True"
          with s Inr have "setStatus i st (audit_hook env f) db = (Inr False, db1)" by simp
          from setStatus_effect(2)[OF this] \<open>user_rows i db \<noteq> []\<close> show False by simp
        qed
        from reach_after_status[OF r s[unfolded Inr b]] x Inr b obtain t' where "x = ok t'" "db' = db1" by auto
        moreover have "logged env actor (db_audit db) (db_audit db1)"
          using setStatus_logged[OF s[unfolded Inr b]] by (simp add: f_def)
        ultimately show ?thesis
          using person_change.status_set[OF \<open>scopeOf actor = Inr scope\<close> r _ _ s[unfolded Inr b]] False by simp
      qed
    qed (use assms Inr r in \<open>auto simp: set_person_status_def split: if_splits option.splits\<close>)
  qed (use assms Inr in \<open>auto simp: set_person_status_def\<close>)
qed (use assms in \<open>auto simp: set_person_status_def\<close>)

lemma first_some_None: "first_some xs = None \<longleftrightarrow> list_all (\<lambda>x. x = None) xs"
  by (induction xs rule: first_some.induct) auto

lemma add_changes:
  assumes "add_person_membership env actor i r db = (x, db')"
  shows "if succeeded x then person_change env actor db db' else db' = db"
proof (cases "scopeOf actor")
  case (Inr scope)
  show ?thesis
  proof (cases "reach scope i db")
    case t: (Inr t)
    show ?thesis
    proof (cases "(sc_operator scope \<or> mayGrant scope r) \<and>
        \<not> (sc_operator scope \<and> sc_actorUserId scope = Some i \<and> mr_role r = TenantManager) \<and>
        first_some [mayNotGrantRole scope r, mayNotChange scope t, validateMembership r db] = None")
      case True
      define f where "f = (\<lambda>m :: membership. audit_entry_for ''membership.add'' actor (tenantsOf [mb_tenantId m]) i
         [email_detail t, (''role'', JString (role_name (mb_role m))), (''tenantId'', tenant_json (mb_tenantId m))])"
      obtain y db1 where s: "addMembership (av_ids env 0) (av_now env) i (mr_role r) (mr_tenantId r) (audit_hook env f) db = (y, db1)"
        by fastforce
      have x: "(x, db') = (case y of Inl e \<Rightarrow> (fromStoreError e, db1) | Inr m \<Rightarrow> (ok m, db1))"
        using assms Inr t True s[unfolded f_def]
        by (auto simp: add_person_membership_def split: sum.splits option.splits if_splits)
      show ?thesis
      proof (cases y)
        case (Inl e)
        with s addMembership_effect(1) x show ?thesis by auto
      next
        case m: (Inr m)
        have "logged env actor (db_audit db) (db_audit db1)"
          using addMembership_logged[OF s[unfolded m]] by (simp add: f_def)
        with person_change.granted[OF Inr t _ _ _ s[unfolded m]] True x m show ?thesis by (simp add: first_some_None)
      qed
    qed (use assms Inr t in \<open>auto simp: add_person_membership_def split: if_splits option.splits\<close>)
  qed (use assms Inr in \<open>auto simp: add_person_membership_def\<close>)
qed (use assms in \<open>auto simp: add_person_membership_def\<close>)

lemma remove_changes:
  assumes "remove_person_membership env actor i k db = (x, db')"
  shows "if succeeded x then person_change env actor db db' \<or> db' = db else db' = db"
proof (cases "scopeOf actor")
  case (Inr scope)
  show ?thesis
  proof (cases "reach scope i db")
    case t: (Inr t)
    show ?thesis
    proof (cases "List.find (\<lambda>m. mb_id m = k) (uw_memberships t)")
      case (Some m)
      show ?thesis
      proof (cases "\<not> (sc_actorUserId scope = Some i \<and> (mb_role m = Operator \<or> length (uw_memberships t) = 1)) \<and>
          mayNotChange scope t = None")
        case True
        define f where "f = (\<lambda>_ :: bool. audit_entry_for ''membership.remove'' actor (tenantsOf [mb_tenantId m]) i
           [email_detail t, (''role'', JString (role_name (mb_role m))), (''tenantId'', tenant_json (mb_tenantId m))])"
        obtain y db1 where s: "removeMembership i k (audit_hook env f) db = (y, db1)" by fastforce
        have x: "(x, db') = (case y of Inl e \<Rightarrow> (fromStoreError e, db1) | Inr _ \<Rightarrow> (ok (), db1))"
          using assms Inr t Some True s[unfolded f_def]
          by (auto simp: remove_person_membership_def split: sum.splits option.splits if_splits)
        show ?thesis
        proof (cases y)
          case (Inl e)
          with s removeMembership_effect(1) x show ?thesis by auto
        next
          case b: (Inr b)
          show ?thesis
          proof (cases b)
            case True
            with s b have s': "removeMembership i k (audit_hook env f) db = (Inr True, db1)" by simp
            have "logged env actor (db_audit db) (db_audit db1)"
              using removeMembership_logged[OF s'] by (simp add: f_def)
            with person_change.removed[OF Inr t _ s'] \<open>_ \<and> mayNotChange scope t = None\<close> x b show ?thesis by simp
          next
            case False
            with s b have "removeMembership i k (audit_hook env f) db = (Inr False, db1)" by simp
            from removeMembership_effect(2)[OF this] x b show ?thesis by simp
          qed
        qed
      qed (use assms Inr t Some in \<open>auto simp: remove_person_membership_def split: if_splits option.splits\<close>)
    qed (use assms Inr t in \<open>auto simp: remove_person_membership_def\<close>)
  qed (use assms Inr in \<open>auto simp: remove_person_membership_def\<close>)
qed (use assms in \<open>auto simp: remove_person_membership_def\<close>)

lemma reinvite_changes:
  assumes "reinvite_person env actor i db = (x, db')"
  shows "if succeeded x then person_change env actor db db' else db' = db"
proof (cases "scopeOf actor")
  case (Inr scope)
  show ?thesis
  proof (cases "reach scope i db")
    case t: (Inr t)
    show ?thesis
    proof (cases "u_status (uw_user t) = ActiveU \<and> mayNotChange scope t = None")
      case True
      define f where "f = (\<lambda>_ :: string \<times> int. audit_entry_for ''invite.create'' actor (tenantsOf (map mb_tenantId (uw_memberships t))) i
         [email_detail t, (''reset'', JBool (u_hasPassword (uw_user t)))])"
      obtain y db1 where s: "invite_create (av_invite env) i (sc_actorUserId scope) (audit_hook env f) db = (y, db1)" by fastforce
      have x: "(x, db') = (case y of Inl e \<Rightarrow> (Inl e, db1) | Inr v \<Rightarrow> (ok (t, v), db1))"
        using assms Inr t True s[unfolded f_def]
        by (auto simp: reinvite_person_def split: sum.splits option.splits if_splits)
      show ?thesis
      proof (cases y)
        case (Inl e)
        with s invite_create_effect(1) x show ?thesis by auto
      next
        case v: (Inr v)
        have "logged env actor (db_audit db) (db_audit db1)"
          using invite_create_logged[OF s[unfolded v]] by (simp add: f_def)
        with person_change.reinvited[OF Inr t _ s[unfolded v]] True x v show ?thesis by simp
      qed
    qed (use assms Inr t in \<open>auto simp: reinvite_person_def split: if_splits option.splits\<close>)
  qed (use assms Inr in \<open>auto simp: reinvite_person_def\<close>)
qed (use assms in \<open>auto simp: reinvite_person_def\<close>)

lemma administer_changes:
  assumes "administer env actor req db = (b, db')" "accounts_ok db"
  shows "if b then person_change env actor db db' \<or> db' = db else db' = db"
  using assms create_changes status_changes add_changes remove_changes reinvite_changes
  by (cases req) (auto split: prod.splits if_splits)

section \<open>Whom a change concerns\<close>

lemma person_adds:
  assumes "us_id row \<noteq> j" "asked_for (us_id row) reqs ms" "\<forall>v\<in>set vs. iv_userId v = us_id row"
  shows "person j (adds_person (db\<lparr>db_users := db_users db @ [row]\<rparr>) ms vs es) = person j db"
proof -
  have "filter (\<lambda>m. mb_userId m = j) ms = []" "filter (\<lambda>v. iv_userId v = j) vs = []"
    using assms by (auto simp: asked_for_def filter_empty_conv)
  with assms(1) show ?thesis by (simp add: person_def user_rows_def memberships_of_def)
qed

lemma setStatus_others:
  assumes "setStatus i st (audit_hook env f) db = (Inr True, db')" "j \<noteq> i"
  shows "person j db' = person j db"
proof -
  from setStatus_effect(3)[OF assms(1) audit_hook_logs] obtain es where
    "db' = ((if st = DisabledU then delete_sessions i else id) (update_user i (\<lambda>r. r\<lparr>us_status := st\<rparr>) db))\<lparr>db_audit := es\<rparr>" by blast
  then show ?thesis by (simp add: others_untouched[OF assms(2)])
qed

lemma addMembership_others:
  assumes "addMembership k n i role ten (audit_hook env f) db = (Inr m, db')" "j \<noteq> i"
  shows "person j db' = person j db"
proof -
  from addMembership_effect(2)[OF assms(1) audit_hook_logs] obtain db1 es where
    g: "grant k n i role ten db = Inr (m, db1)" "db' = db1\<lparr>db_audit := es\<rparr>" by blast
  from grant_effect[OF g(1)] others_untouched(4)[OF assms(2), of m] g(2) show ?thesis by auto
qed

lemma removeMembership_others:
  assumes "removeMembership i k (audit_hook env f) db = (Inr True, db')" "j \<noteq> i"
  shows "person j db' = person j db"
proof -
  from removeMembership_effect(3)[OF assms(1) audit_hook_logs] obtain es where
    "db' = (db\<lparr>db_memberships := filter (\<lambda>m. \<not> (mb_id m = k \<and> mb_userId m = i)) (db_memberships db)\<rparr>)\<lparr>db_audit := es\<rparr>" by auto
  then show ?thesis by (simp only: person_audit others_untouched(5)[OF assms(2)])
qed

lemma invite_create_others:
  assumes "invite_create ni i c (audit_hook env f) db = (Inr v, db')" "j \<noteq> i"
  shows "person j db' = person j db"
proof -
  from invite_create_effect(2)[OF assms(1) audit_hook_logs] obtain row es where
    "db' = (db\<lparr>db_invites := filter (\<lambda>v. \<not> (iv_userId v = i \<and> iv_usedAt v = None)) (db_invites db) @ [row]\<rparr>)\<lparr>db_audit := es\<rparr>"
    and i: "iv_userId row = i" by auto
  then show ?thesis by (simp only: person_audit others_untouched(6)[OF assms(2) i])
qed

text \<open>What a request changes about a person it may change.\<close>

lemma change_permitted:
  assumes "person_change env actor db db'" "j \<in> us_id ` set (db_users db)" "person j db' \<noteq> person j db"
  obtains scope t where "scopeOf actor = Inr scope" "reach scope j db = Inr t" "mayNotChange scope t = None"
  using assms(1)
proof cases
  case (created scope reqs row ms vs es)
  with assms(2) have "us_id row \<noteq> j" by blast
  from person_adds[OF this created(7,8)] assms(3) created(1) show ?thesis by simp
next
  case (status_set scope i t st f)
  with setStatus_others assms(3) that show ?thesis by metis
next
  case (granted scope i t r k n f m)
  with addMembership_others assms(3) that show ?thesis by metis
next
  case (removed scope i t k f)
  with removeMembership_others assms(3) that show ?thesis by metis
next
  case (reinvited scope i t f v)
  with invite_create_others assms(3) that show ?thesis by metis
qed

text \<open>The memberships a request adds are of roles the caller may grant.\<close>

lemma setStatus_memberships:
  "setStatus i st (audit_hook env f) db = (Inr True, db') \<Longrightarrow> db_memberships db' = db_memberships db"
  by (drule setStatus_effect(3)[OF _ audit_hook_logs]) (auto simp: delete_sessions_def update_user_def)

lemma membership_permitted:
  assumes "person_change env actor db db'" "m \<in> set (db_memberships db')" "m \<notin> set (db_memberships db)"
  obtains scope r where "scopeOf actor = Inr scope" "mr_role r = mb_role m" "mr_tenantId r = mb_tenantId m"
    "mayNotGrantRole scope r = None" "sc_operator scope \<or> mayGrant scope r"
  using assms(1)
proof cases
  case (created scope reqs row ms vs es)
  with assms(2,3) have "m \<in> set ms" by simp
  with created(7) obtain r where r: "r \<in> set reqs" "mr_role r = mb_role m" "mr_tenantId r = mb_tenantId m"
    by (fastforce simp: asked_for_def)
  with created(3) have "mayNotGrantRole scope r = None" "sc_operator scope \<or> mayGrant scope r"
    by (auto simp: create_denied_def first_some_None list_all_iff split: if_splits)
  with created(2) r that show ?thesis by blast
next
  case (status_set scope i t st f)
  with setStatus_memberships assms(2,3) show ?thesis by metis
next
  case (granted scope i t r k n f m')
  from addMembership_effect(2)[OF granted(6) audit_hook_logs] obtain db1 es where
    g: "grant k n i (mr_role r) (mr_tenantId r) db = Inr (m', db1)" "db' = db1\<lparr>db_audit := es\<rparr>" by blast
  from grant_effect[OF g(1)] g(2) assms(2,3) have "m = m'" "mb_role m' = mr_role r" "mb_tenantId m' = mr_tenantId r" by auto
  with granted that show ?thesis by metis
next
  case (removed scope i t k f)
  from removeMembership_effect(3)[OF removed(4) audit_hook_logs] assms(2,3) show ?thesis by auto
next
  case (reinvited scope i t f v)
  from invite_create_effect(2)[OF reinvited(4) audit_hook_logs] assms(2,3) show ?thesis by auto
qed

section \<open>Runs of requests\<close>

text \<open>The tables after a sequence of requests, each with its environment and its caller.\<close>

fun administer_all :: "(admin_env \<times> principal \<times> admin_request) list \<Rightarrow> accounts \<Rightarrow> accounts" where
  "administer_all [] db = db"
| "administer_all ((env, actor, req) # rest) db = administer_all rest (snd (administer env actor req db))"

lemma change_ok:
  assumes "person_change env actor db db'" "accounts_ok db"
  shows "accounts_ok db'"
  using assms(1)
proof cases
  case (created scope reqs row ms vs es)
  then show ?thesis by simp
next
  case (status_set scope i t st f)
  from setStatus_effect(3)[OF status_set(5) audit_hook_logs] obtain es where
    "db' = ((if st = DisabledU then delete_sessions i else id) (update_user i (\<lambda>r. r\<lparr>us_status := st\<rparr>) db))\<lparr>db_audit := es\<rparr>" by blast
  with ok_status[OF assms(2)] ok_delete_sessions show ?thesis by simp
next
  case (granted scope i t r k n f m)
  from addMembership_effect(2)[OF granted(6) audit_hook_logs] obtain db1 es where
    role: "mr_role r = TenantManager \<longleftrightarrow> mr_tenantId r \<noteq> None"
    and g: "grant k n i (mr_role r) (mr_tenantId r) db = Inr (m, db1)" "db' = db1\<lparr>db_audit := es\<rparr>" by blast
  from grant_effect[OF g(1)] role have "accounts_ok db1"
    using assms(2) ok_add_membership[OF assms(2), of m] by auto
  with g(2) show ?thesis by simp
next
  case (removed scope i t k f)
  from removeMembership_effect(3)[OF removed(4) audit_hook_logs] obtain es where
    "db' = (db\<lparr>db_memberships := filter (\<lambda>m. \<not> (mb_id m = k \<and> mb_userId m = i)) (db_memberships db)\<rparr>)\<lparr>db_audit := es\<rparr>" by auto
  with ok_remove_membership[OF assms(2)] show ?thesis by simp
next
  case (reinvited scope i t f v)
  from invite_create_effect(2)[OF reinvited(4) audit_hook_logs] obtain row es where
    d: "db' = (db\<lparr>db_invites := filter (\<lambda>v. \<not> (iv_userId v = i \<and> iv_usedAt v = None)) (db_invites db) @ [row]\<rparr>)\<lparr>db_audit := es\<rparr>"
    and r: "iv_userId row = i" "iv_createdBy row = sc_actorUserId scope" "user_rows i db \<noteq> []"
      "\<forall>j. sc_actorUserId scope = Some j \<longrightarrow> user_rows j db \<noteq> []"
      "iv_tokenHash row \<notin> iv_tokenHash ` set (filter (\<lambda>v. \<not> (iv_userId v = i \<and> iv_usedAt v = None)) (db_invites db))"
    by auto
  from r have "user_rows (iv_userId row) db \<noteq> []" "\<forall>j. iv_createdBy row = Some j \<longrightarrow> user_rows j db \<noteq> []" by simp_all
  from ok_invite[OF assms(2) this r(5)] show ?thesis unfolding d by simp
qed

lemma administer_ok:
  assumes "accounts_ok db"
  shows "accounts_ok (snd (administer env actor req db))"
proof -
  obtain b db' where a: "administer env actor req db = (b, db')" by fastforce
  from administer_changes[OF a assms] change_ok[OF _ assms] assms have "accounts_ok db'" by (auto split: if_splits)
  with a show ?thesis by simp
qed

lemma admin_after_adds:
  assumes "has_admin db"
  shows "has_admin (adds_person (db\<lparr>db_users := db_users db @ us\<rparr>) ms vs es)"
  using assms by (auto simp: has_admin_def is_active_def list_ex_iff)

lemma change_admin:
  assumes "person_change env actor db db'" "accounts_ok db" "has_admin db"
  shows "has_admin db'"
  using assms(1)
proof cases
  case (created scope reqs row ms vs es)
  with admin_after_adds[OF assms(3)] show ?thesis by simp
next
  case (status_set scope i t st f)
  from admin_after_status[OF status_set(5) audit_hook_logs assms(3)] show ?thesis .
next
  case (granted scope i t r k n f m)
  from addMembership_effect(2)[OF granted(6) audit_hook_logs] obtain db1 es where
    g: "grant k n i (mr_role r) (mr_tenantId r) db = Inr (m, db1)" "db' = db1\<lparr>db_audit := es\<rparr>" by blast
  from grant_effect[OF g(1)] g(2) assms(3) show ?thesis
    by (auto simp: has_admin_def is_active_def list_ex_iff)
next
  case (removed scope i t k f)
  from admin_after_removal[OF removed(4) audit_hook_logs assms(3,2)] show ?thesis .
next
  case (reinvited scope i t f v)
  from invite_create_effect(2)[OF reinvited(4) audit_hook_logs] assms(3) show ?thesis
    by (auto simp: has_admin_def is_active_def)
qed

lemma administer_admin:
  assumes "accounts_ok db" "has_admin db"
  shows "has_admin (snd (administer env actor req db))"
proof -
  obtain b db' where a: "administer env actor req db = (b, db')" by fastforce
  from administer_changes[OF a assms(1)] change_admin[OF _ assms] assms have "has_admin db'" by (auto split: if_splits)
  with a show ?thesis by simp
qed

section \<open>A small platform\<close>

text \<open>An operator, a manager of a tenant and two people, one of them of another tenant; the manager disables the first.\<close>

definition person_row :: "string \<Rightarrow> string \<Rightarrow> user_row" where
  "person_row i mail = \<lparr>us_id = i, us_email = mail, us_name = i, us_passwordHash = None, us_status = ActiveU,
     us_createdAt = 0, us_lastLoginAt = None\<rparr>"

definition role_row :: "string \<Rightarrow> string \<Rightarrow> membership_role \<Rightarrow> string option \<Rightarrow> membership" where
  "role_row k i role ten = \<lparr>mb_id = k, mb_userId = i, mb_role = role, mb_tenantId = ten, mb_createdAt = 0\<rparr>"

definition people :: accounts where
  "people = \<lparr>db_users = [person_row ''o'' ''o@x'', person_row ''m'' ''m@x'', person_row ''p'' ''p@x'', person_row ''q'' ''q@x''],
     db_memberships = [role_row ''1'' ''o'' Operator None, role_row ''2'' ''m'' TenantManager (Some ''acme''),
       role_row ''3'' ''p'' TenantManager (Some ''acme''), role_row ''4'' ''q'' TenantManager (Some ''other'')],
     db_invites = [\<lparr>iv_id = ''v'', iv_userId = ''p'', iv_tokenHash = ''h'', iv_createdBy = Some ''o'', iv_expiresAt = 100, iv_usedAt = None\<rparr>],
     db_sessions = [], db_tenants = [''acme'', ''other''], db_audit = []\<rparr>"

definition manager_m :: principal where
  "manager_m = UserPrincipal (user_of (person_row ''m'' ''m@x'')) [role_row ''2'' ''m'' TenantManager (Some ''acme'')]"

definition env_7 :: admin_env where
  "env_7 = \<lparr>av_now = 7, av_ids = (\<lambda>k. replicate (Suc k) (CHR ''n'')),
     av_invite = \<lparr>ni_id = ''w'', ni_token = ''t'', ni_tokenHash = ''g'', ni_expiresAt = 200\<rparr>,
     av_auditId = ''e'', av_audit = Some None\<rparr>"

lemma people_ok: "accounts_ok people" "has_admin people"
  by (simp_all add: accounts_ok_def people_def person_row_def role_row_def has_admin_def is_platform_def PLATFORM_ROLES_def
      is_active_def)

lemmas admin_eval = people_def person_row_def role_row_def manager_m_def env_7_def user_of_def set_person_status_def scopeOf_def
  reach_def isWithinTenants_def withinTenantsPredicate_def memberships_of_def outside_def getWithMemberships_def findById_def
  user_rows_def listMemberships_def mayNotChange_def setStatus_def assertNotLastAdmin_def update_user_def delete_sessions_def
  run_hook_def audit_hook_def succeeded_def is_platform_def PLATFORM_ROLES_def is_active_def

definition p_disabled :: accounts where
  "p_disabled = snd (administer env_7 manager_m (SetPersonStatus ''p'' DisabledU) people)"

lemma manager_disables_p: "administer env_7 manager_m (SetPersonStatus ''p'' DisabledU) people = (True, p_disabled)"
proof -
  have "fst (administer env_7 manager_m (SetPersonStatus ''p'' DisabledU) people)"
    by (simp add: admin_eval Let_def)
  then show ?thesis by (simp add: p_disabled_def prod_eq_iff)
qed

lemma p_is_disabled: "map us_status (db_users p_disabled) = [ActiveU, ActiveU, DisabledU, ActiveU]"
  by (simp add: p_disabled_def admin_eval Let_def)

section \<open>Properties\<close>

lemma all_ok: "accounts_ok db \<Longrightarrow> accounts_ok (administer_all reqs db)"
  by (induction reqs db rule: administer_all.induct) (auto intro: administer_ok)



text \<open>
  C16. The platform cannot lock itself out: if somebody active holds a platform role, somebody active
  holds one after any sequence of requests by anybody.
\<close>

theorem platform_keeps_an_admin:
  assumes "accounts_ok db" "has_admin db"
  shows "has_admin (administer_all reqs db)"
  using assms by (induction reqs db rule: administer_all.induct) (auto intro: administer_ok administer_admin)

theorem platform_keeps_an_admin_witness:
  "has_admin (administer_all [(env_7, AdminKeyPrincipal, SetPersonStatus ''o'' DisabledU), (env_7, AdminKeyPrincipal, RemovePersonMembership ''o'' ''1'')] people)"
  by (rule platform_keeps_an_admin[OF people_ok])

text \<open>
  All or nothing: a request that is refused or fails, at whatever step, leaves the tables as it
  found them; a person whose memberships, invite or audit entry could not be written is gone again.
\<close>

theorem refused_requests_change_nothing:
  assumes "accounts_ok db" "administer env actor req db = (False, db')"
  shows "db' = db"
  using administer_changes[OF assms(2,1)] by simp

lemma last_operator_stays: "\<not> fst (administer env_7 AdminKeyPrincipal (SetPersonStatus ''o'' DisabledU) people)"
  unfolding administer.simps set_person_status_def scopeOf_def by (simp add: admin_eval Let_def fromStoreError_def)

theorem refused_requests_change_nothing_witness:
  "snd (administer env_7 AdminKeyPrincipal (SetPersonStatus ''o'' DisabledU) people) = people"
  by (rule refused_requests_change_nothing[OF people_ok(1), of env_7 AdminKeyPrincipal "SetPersonStatus ''o'' DisabledU"])
    (simp add: prod_eq_iff last_operator_stays del: administer.simps)

text \<open>
  No change without an entry: with an audit log a request either leaves the tables as they are or
  adds exactly one entry, in the name of the caller; when the entry cannot be written nothing changes.
\<close>

theorem no_change_without_entry:
  assumes "accounts_ok db" "av_audit env \<noteq> None" "administer env actor req db = (b, db')"
  shows "db' = db \<or> av_audit env = Some None \<and> (\<exists>e. db_audit db' = db_audit db @ [e] \<and>
    au_kind e = actor_kind (auditActorOf actor) \<and> au_actorId e = actor_id (auditActorOf actor))"
proof (cases "db' = db")
  case False
  with administer_changes[OF assms(3,1)] have "person_change env actor db db'" by (auto split: if_splits)
  then have "logged env actor (db_audit db) (db_audit db')" by cases auto
  with assms(2) show ?thesis by (auto simp: logged_def audit_row_def split: option.splits)
qed simp

theorem no_change_without_entry_witness:
  "\<exists>e. db_audit p_disabled = [e] \<and> au_kind e = ''user'' \<and> au_actorId e = Some ''m''"
proof -
  have "map us_status (db_users people) = [ActiveU, ActiveU, ActiveU, ActiveU]" by (simp add: people_def person_row_def)
  with p_is_disabled have "p_disabled \<noteq> people" by auto
  then show ?thesis
    using no_change_without_entry[OF people_ok(1) _ manager_disables_p]
    by (auto simp: env_7_def manager_m_def user_of_def person_row_def people_def)
qed

lemma scope_facts:
  assumes "scopeOf actor = Inr scope"
  shows "sc_operator scope = isOperator actor" "sc_systemAdmin scope = isSystemAdmin actor"
    "sc_managed scope = managedTenantIds actor"
  using assms by (auto simp: scopeOf_def split: principal.splits if_splits)

lemma within_no_platform:
  "isWithinTenants i ts db \<Longrightarrow> m \<in> set (memberships_of i db) \<Longrightarrow> \<not> is_platform m"
  by (auto simp: isWithinTenants_def withinTenantsPredicate_def list_ex_iff outside_def is_platform_def PLATFORM_ROLES_def
      split: if_splits)

lemma holder_protected:
  assumes "scopeOf actor = Inr scope" "reach scope i db = Inr t" "mayNotChange scope t = None"
    and "m \<in> set (memberships_of i db)" "mb_role m = SystemAdmin \<or> mb_role m = Operator \<and> \<not> isSystemAdmin actor"
  shows False
proof -
  have t: "set (uw_memberships t) = set (memberships_of i db)"
    using assms(2) getWithMemberships_Some unfolding reach_Inr by blast
  have "sc_operator scope \<or> isWithinTenants i (sc_managed scope) db" using assms(2) unfolding reach_Inr by simp
  moreover have "is_platform m" using assms(5) by (auto simp: is_platform_def PLATFORM_ROLES_def)
  ultimately have "sc_operator scope" using within_no_platform assms(4) by blast
  with assms(3,4,5) t scope_facts[OF assms(1)] show False
    by (auto simp: mayNotChange_def list_ex_iff split: if_splits)
qed

text \<open>
  C15. No way up: nothing a caller who is not a system admin requests (an operator, an operator key, a
  tenant manager, an API key) gives anybody a platform role, or changes the account, the memberships,
  the invites or the sessions of anybody who holds one.
\<close>

theorem only_system_admins_touch_admins:
  assumes "accounts_ok db" "\<not> isSystemAdmin actor" "administer env actor req db = (b, db')"
  shows "(\<forall>m. m \<in> set (db_memberships db') \<and> is_platform m \<longrightarrow> m \<in> set (db_memberships db)) \<and>
    (\<forall>m. m \<in> set (db_memberships db) \<and> is_platform m \<longrightarrow> person (mb_userId m) db' = person (mb_userId m) db)"
proof (cases "db' = db")
  case False
  with administer_changes[OF assms(3,1)] have c: "person_change env actor db db'" by (auto split: if_splits)
  have "m \<in> set (db_memberships db)" if m: "m \<in> set (db_memberships db')" "is_platform m" for m
  proof (rule ccontr)
    assume "m \<notin> set (db_memberships db)"
    then obtain scope r where s: "scopeOf actor = Inr scope" and r: "mr_role r = mb_role m" "mayNotGrantRole scope r = None"
      using membership_permitted[OF c m(1)] by metis
    with m(2) assms(2) scope_facts[OF s] show False
      by (auto simp: mayNotGrantRole_def is_platform_def PLATFORM_ROLES_def split: if_splits)
  qed
  moreover have "person (mb_userId m) db' = person (mb_userId m) db" if m: "m \<in> set (db_memberships db)" "is_platform m" for m
  proof (rule ccontr)
    assume d: "person (mb_userId m) db' \<noteq> person (mb_userId m) db"
    have "mb_userId m \<in> us_id ` set (db_users db)" using assms(1) m(1) by (auto simp: accounts_ok_def)
    from change_permitted[OF c this d] obtain scope t where s: "scopeOf actor = Inr scope"
      "reach scope (mb_userId m) db = Inr t" "mayNotChange scope t = None" by blast
    from holder_protected[OF s, of m] m assms(2) show False
      by (auto simp: memberships_of_def is_platform_def PLATFORM_ROLES_def)
  qed
  ultimately show ?thesis by blast
qed simp

theorem only_system_admins_touch_admins_witness:
  "person ''o'' p_disabled = person ''o'' people"
proof -
  let ?m = "role_row ''1'' ''o'' Operator None"
  have "?m \<in> set (db_memberships people) \<and> is_platform ?m" "mb_userId ?m = ''o''"
    by (simp_all add: people_def role_row_def is_platform_def PLATFORM_ROLES_def)
  moreover have "\<not> isSystemAdmin manager_m" by (simp add: manager_m_def role_row_def)
  ultimately show ?thesis
    using only_system_admins_touch_admins[OF people_ok(1) _ manager_disables_p] by metis
qed

text \<open>
  System admins come from the command line only: no request of any caller, not even of a system
  admin or with the admin key, makes anybody a system admin or changes anything about one.
\<close>

theorem system_admins_are_out_of_reach:
  assumes "accounts_ok db" "administer env actor req db = (b, db')"
  shows "(\<forall>m. m \<in> set (db_memberships db') \<and> mb_role m = SystemAdmin \<longrightarrow> m \<in> set (db_memberships db)) \<and>
    (\<forall>m. m \<in> set (db_memberships db) \<and> mb_role m = SystemAdmin \<longrightarrow> person (mb_userId m) db' = person (mb_userId m) db)"
proof (cases "db' = db")
  case False
  with administer_changes[OF assms(2,1)] have c: "person_change env actor db db'" by (auto split: if_splits)
  have "m \<in> set (db_memberships db)" if m: "m \<in> set (db_memberships db')" "mb_role m = SystemAdmin" for m
  proof (rule ccontr)
    assume "m \<notin> set (db_memberships db)"
    then obtain scope r where "mr_role r = mb_role m" "mayNotGrantRole scope r = None"
      using membership_permitted[OF c m(1)] by metis
    with m(2) show False by (auto simp: mayNotGrantRole_def)
  qed
  moreover have "person (mb_userId m) db' = person (mb_userId m) db"
    if m: "m \<in> set (db_memberships db)" "mb_role m = SystemAdmin" for m
  proof (rule ccontr)
    assume d: "person (mb_userId m) db' \<noteq> person (mb_userId m) db"
    have "mb_userId m \<in> us_id ` set (db_users db)" using assms(1) m(1) by (auto simp: accounts_ok_def)
    from change_permitted[OF c this d] obtain scope t where s: "scopeOf actor = Inr scope"
      "reach scope (mb_userId m) db = Inr t" "mayNotChange scope t = None" by blast
    from holder_protected[OF s, of m] m show False by (simp add: memberships_of_def)
  qed
  ultimately show ?thesis by blast
qed simp

theorem system_admins_are_out_of_reach_witness:
  "filter (\<lambda>m. mb_role m = SystemAdmin) (db_memberships p_disabled) = []"
  using system_admins_are_out_of_reach[OF people_ok(1) manager_disables_p]
  by (auto simp: people_def role_row_def filter_empty_conv)

text \<open>
  C17. A tenant manager stays in their tenants: a request of a caller who is no operator changes nothing
  about anybody who does not belong wholly to tenants the caller manages, and every role it gives is
  the manager role in one of these tenants.
\<close>

theorem managers_stay_in_their_tenants:
  assumes "accounts_ok db" "\<not> isOperator actor" "administer env actor req db = (b, db')"
  shows "(\<forall>m. m \<in> set (db_memberships db') \<and> m \<notin> set (db_memberships db) \<longrightarrow>
      mb_role m = TenantManager \<and> (\<exists>t. t \<in> set (managedTenantIds actor) \<and> mb_tenantId m = Some t)) \<and>
    (\<forall>i. i \<in> us_id ` set (db_users db) \<and> \<not> isWithinTenants i (managedTenantIds actor) db \<longrightarrow> person i db' = person i db)"
proof (cases "db' = db")
  case False
  with administer_changes[OF assms(3,1)] have c: "person_change env actor db db'" by (auto split: if_splits)
  have "mb_role m = TenantManager \<and> (\<exists>t. t \<in> set (managedTenantIds actor) \<and> mb_tenantId m = Some t)"
    if m: "m \<in> set (db_memberships db')" "m \<notin> set (db_memberships db)" for m
  proof -
    from membership_permitted[OF c m] obtain scope r where s: "scopeOf actor = Inr scope"
      and r: "mr_role r = mb_role m" "mr_tenantId r = mb_tenantId m" "sc_operator scope \<or> mayGrant scope r" by metis
    with assms(2) scope_facts[OF s] show ?thesis by (auto simp: mayGrant_def split: option.splits)
  qed
  moreover have "person i db' = person i db"
    if i: "i \<in> us_id ` set (db_users db)" "\<not> isWithinTenants i (managedTenantIds actor) db" for i
  proof (rule ccontr)
    assume "person i db' \<noteq> person i db"
    from change_permitted[OF c i(1) this] obtain scope t where s: "scopeOf actor = Inr scope" "reach scope i db = Inr t" by blast
    with i(2) assms(2) scope_facts[OF s(1)] show False unfolding reach_Inr by simp
  qed
  ultimately show ?thesis by blast
qed simp

theorem managers_stay_in_their_tenants_witness:
  "person ''q'' p_disabled = person ''q'' people"
  using managers_stay_in_their_tenants[OF people_ok(1) _ manager_disables_p]
  by (simp add: manager_m_def role_row_def)
    (simp add: people_def person_row_def role_row_def isWithinTenants_def withinTenantsPredicate_def memberships_of_def
      outside_def user_rows_def)

lemma change_keeps_spent:
  assumes "person_change env actor db db'" "spent h db" "ni_tokenHash (av_invite env) \<noteq> h"
  shows "spent h db'"
  using assms(1)
proof cases
  case (created scope reqs row ms vs es)
  with assms(2,3) show ?thesis by (auto simp: spent_def)
next
  case (status_set scope i t st f)
  from setStatus_effect(3)[OF status_set(5) audit_hook_logs] assms(2) show ?thesis
    by (cases st) (auto simp: spent_def delete_sessions_def update_user_def)
next
  case (granted scope i t r k n f m)
  from addMembership_effect(2)[OF granted(6) audit_hook_logs] obtain db1 es where
    g: "grant k n i (mr_role r) (mr_tenantId r) db = Inr (m, db1)" "db' = db1\<lparr>db_audit := es\<rparr>" by blast
  from grant_effect[OF g(1)] g(2) assms(2) show ?thesis by (auto simp: spent_def)
next
  case (removed scope i t k f)
  from removeMembership_effect(3)[OF removed(4) audit_hook_logs] assms(2) show ?thesis by (auto simp: spent_def)
next
  case (reinvited scope i t f v)
  from invite_create_effect(2)[OF reinvited(4) audit_hook_logs] assms(2,3) show ?thesis by (auto simp: spent_def)
qed

lemma administer_all_spent:
  "accounts_ok db \<Longrightarrow> spent h db \<Longrightarrow> \<forall>(env, actor, req)\<in>set reqs. ni_tokenHash (av_invite env) \<noteq> h \<Longrightarrow>
    spent h (administer_all reqs db)"
proof (induction reqs db rule: administer_all.induct)
  case (2 env actor req rest db)
  obtain b db' where a: "administer env actor req db = (b, db')" by fastforce
  have "spent h db'"
    using administer_changes[OF a 2(2)] change_keeps_spent[of env actor db db' h] 2(3,4) by (auto split: if_splits)
  with 2 administer_ok[OF 2(2), of env actor req] a show ?case by simp
qed simp

lemma accept_ok: "accounts_ok db \<Longrightarrow> accounts_ok (snd (invite_accept hash n token pw db))"
proof -
  assume ok: "accounts_ok db"
  have "accounts_ok (update_user i (\<lambda>r. r\<lparr>us_passwordHash := Some pw\<rparr>) d)" if "accounts_ok d" for i d
  proof -
    define us where "us = map (\<lambda>r. if us_id r = i then r\<lparr>us_passwordHash := Some pw\<rparr> else r) (db_users d)"
    have "map us_id us = map us_id (db_users d)" "map us_email us = map us_email (db_users d)" by (auto simp: us_def)
    moreover from this(1) have "us_id ` set us = us_id ` set (db_users d)" by (metis set_map)
    moreover have "update_user i (\<lambda>r. r\<lparr>us_passwordHash := Some pw\<rparr>) d = d\<lparr>db_users := us\<rparr>" by (simp add: update_user_def us_def)
    ultimately show ?thesis using that by (simp add: accounts_ok_def)
  qed
  moreover have "accounts_ok (db\<lparr>db_invites := map (\<lambda>w. if P w then w\<lparr>iv_usedAt := Some n\<rparr> else w) (db_invites db)\<rparr>)" for P
  proof -
    define vs where "vs = map (\<lambda>w. if P w then w\<lparr>iv_usedAt := Some n\<rparr> else w) (db_invites db)"
    have "map iv_tokenHash vs = map iv_tokenHash (db_invites db)" by (auto simp: vs_def)
    moreover have "\<forall>v\<in>set vs. \<exists>w\<in>set (db_invites db). iv_userId v = iv_userId w \<and> iv_createdBy v = iv_createdBy w"
      by (auto simp: vs_def)
    ultimately show ?thesis using ok unfolding vs_def[symmetric] by (simp add: accounts_ok_def) metis
  qed
  ultimately show ?thesis
    using ok by (auto simp: invite_accept_def Let_def ok_delete_sessions split: option.splits)
qed

text \<open>
  An invite link works once: after somebody accepted it, it is refused at any time, with any
  password, whatever administration did in between, new invites of the same person included.
\<close>

theorem invites_work_once:
  assumes "accounts_ok db" "invite_accept hash n token pw db = (Some u, db1)"
    and "\<forall>(env, actor, req)\<in>set reqs. ni_tokenHash (av_invite env) \<noteq> hash token"
  shows "invite_accept hash n' token pw' (administer_all reqs db1) = (None, administer_all reqs db1)"
  using accept_spends[OF assms(2,1)] accept_ok[OF assms(1), of hash n token pw] assms(2,3)
  by (intro spent_refuses administer_all_spent) simp_all

text \<open>The token of the invite of \<open>p\<close>, 43 times the letter \<open>t\<close>, whose hash is \<open>h\<close>.\<close>

definition token_p :: string where
  "token_p = replicate 43 (CHR ''t'')"

definition p_accepted :: accounts where
  "p_accepted = snd (invite_accept (\<lambda>_. ''h'') 5 token_p ''pw'' people)"

lemma p_accepts: "\<exists>u. invite_accept (\<lambda>_. ''h'') 5 token_p ''pw'' people = (Some u, p_accepted)"
proof -
  have t: "token_pattern token_p" by (simp add: token_pattern_def token_p_def list_all_iff) (simp add: token_char_def)
  have "fst (invite_accept (\<lambda>_. ''h'') 5 token_p ''pw'' people) \<noteq> None"
    by (simp add: invite_accept_def t) (simp add: people_def usable_def is_active_def person_row_def findById_def user_rows_def
        delete_sessions_def update_user_def Let_def)
  then show ?thesis by (auto simp: p_accepted_def prod_eq_iff)
qed

theorem invites_work_once_witness:
  "fst (invite_accept (\<lambda>_. ''h'') 6 token_p ''other'' (administer_all [(env_7, AdminKeyPrincipal, ReinvitePerson ''p'')] p_accepted)) = None"
proof -
  obtain u where "invite_accept (\<lambda>_. ''h'') 5 token_p ''pw'' people = (Some u, p_accepted)" using p_accepts by blast
  from invites_work_once[OF people_ok(1) this, of "[(env_7, AdminKeyPrincipal, ReinvitePerson ''p'')]" 6 "''other''"] show ?thesis
    by (simp add: env_7_def)
qed

lemma status_done:
  assumes "administer env actor (SetPersonStatus i st) db = (True, db')" "accounts_ok db"
  obtains f where "setStatus i st (audit_hook env f) db = (Inr True, db')"
proof -
  obtain scope t where s: "scopeOf actor = Inr scope" "reach scope i db = Inr t"
    using assms(1) by (auto simp: set_person_status_def succeeded_def split: sum.splits)
  define f where "f = (\<lambda>_ :: bool. audit_entry_for (if st = DisabledU then ''user.disable'' else ''user.enable'')
    actor (tenantsOf (map mb_tenantId (uw_memberships t))) i [email_detail t])"
  from assms(1) s obtain b where b: "setStatus i st (audit_hook env f) db = (Inr b, db')"
    by (auto simp: set_person_status_def f_def split: sum.splits option.splits if_splits prod.splits)
  have "b"
  proof (rule ccontr)
    assume "\<not> b"
    with b have "user_rows i db = []" using setStatus_effect(2)[of i st _ db db'] by simp
    with s(2) getWithMemberships_Some show False unfolding reach_Inr by blast
  qed
  with b that show ?thesis by simp
qed



end
