(* ===== verification/Text_Tools.thy ===== *)
theory Text_Tools
  imports Nexus_Prelude
begin

text \<open>
  Texts, as several parts of the app read and write them: splitting at a character (\<open>String.split\<close> with a
  separator of one character) and decimal numbers.
\<close>

section \<open>Splitting\<close>

fun split_on :: "char \<Rightarrow> string \<Rightarrow> string list" where
  "split_on c [] = [[]]"
| "split_on c (x # xs) = (if x = c then [] # split_on c xs else (case split_on c xs of y # ys \<Rightarrow> (x # y) # ys | [] \<Rightarrow> [[x]]))"

lemma split_on_none: "c \<notin> set s \<Longrightarrow> split_on c s = [s]"
  by (induction s) auto

lemma split_on_some: "split_on c s \<noteq> []"
  by (induction s) (auto split: list.splits)

lemma split_on_append: "split_on c (s @ c # r) = split_on c s @ split_on c r"
proof (induction s)
  case (Cons x s)
  then show ?case using split_on_some[of c s] by (cases "split_on c s") auto
qed simp

section \<open>Decimal numbers\<close>

definition digit :: "char \<Rightarrow> bool" where
  "digit c = (let n = of_char c :: nat in 48 \<le> n \<and> n \<le> 57)"

definition digit_value :: "char \<Rightarrow> nat" where
  "digit_value c = of_char c - 48"

text \<open>\<open>Number(x)\<close> on digits.\<close>

definition number_of :: "string \<Rightarrow> nat" where
  "number_of ds = fold (\<lambda>c n. 10 * n + digit_value c) ds 0"

text \<open>The digits a number is written with.\<close>

fun decimal :: "nat \<Rightarrow> string" where
  "decimal n = (if n < 10 then [char_of (48 + n)] else decimal (n div 10) @ [char_of (48 + n mod 10)])"

declare decimal.simps [simp del]

lemma digit_char: "n < 10 \<Longrightarrow> digit (char_of (48 + n)) \<and> digit_value (char_of (48 + n)) = n"
  by (simp add: digit_def digit_value_def Let_def)

lemma decimal_digits: "list_all digit (decimal n) \<and> decimal n \<noteq> [] \<and> number_of (decimal n) = n"
proof (induction n rule: decimal.induct)
  case (1 n)
  show ?case
  proof (cases "n < 10")
    case True
    then show ?thesis using digit_char[of n] by (simp add: decimal.simps[of n] number_of_def)
  next
    case False
    then show ?thesis using 1 digit_char[of "n mod 10"] by (simp add: decimal.simps[of n] number_of_def)
  qed
qed

end
