(* ===== verification/Http_Api.thy ===== *)
theory Http_Api
  imports Commit_Reload User_Admin Text_Tools
begin

text \<open>
  The runtime API of \<open>nexus-workflow-app\<close>: the routes of \<open>http/instances.ts\<close>, \<open>tasks.ts\<close>,
  \<open>events.ts\<close>, \<open>admin.ts\<close> and \<open>force.ts\<close>, the error handler of \<open>conflict.ts\<close>, the bodies of
  \<open>validation.ts\<close> and \<open>keyMayRunCommand\<close> of \<open>auth/keyPermissions.ts\<close>. A tenant's server is its store, the events published on
  its bus and the audit entries written. A handler reads the store as the request finds it; what other
  requests do to the store before its \<open>n\<close>-th commit is \<open>ap_others env n\<close>. A handler may not return, as
  \<open>execute\<close> may not: its result is an option. A refusal is its status and the \<open>error\<close> code of its
  body; the texts of messages are left out. zod is not modelled: a body is given as the outcome of
  \<open>c.req.json()\<close> and \<open>safeParse\<close>.
\<close>

section \<open>Requests and responses\<close>

datatype 'b body = NotJson | Unfit | Fit 'b

record start_body =
  sb_variables :: "(string \<times> jsval) list option"
  sb_correlationKey :: "string option"
  sb_businessKey :: "string option"

record complete_body =
  cb_completedBy :: string
  cb_outputVariables :: "(string \<times> jsval) list option"

record message_body =
  dm_messageName :: string
  dm_correlationValue :: "string option"
  dm_variables :: "(string \<times> jsval) list option"

record signal_body =
  gb_signalName :: string
  gb_variables :: "(string \<times> jsval) list option"

record instances_query =
  lq_definitionId :: "string option"
  lq_correlationKey :: "string option"
  lq_businessKey :: "string option"
  lq_status :: "string option"
  lq_startedAfter :: "string option"
  lq_startedBefore :: "string option"
  lq_page :: nat
  lq_pageSize :: nat

datatype response =
    Refused nat string
  | Crashed
  | Created process_instance "token list" "string option"
  | Ran process_instance "string list"
  | InstanceReply process_instance
  | DetailReply process_instance "token list" "(string \<times> jsval) list"
  | InstancesReply "instance_summary paged_result"
  | TaskReply user_task_record
  | TaskDoneReply user_task_record process_instance
  | TaskDetailReply user_task_record "(string \<times> jsval) list"
  | TasksReply "user_task_record paged_result"
  | DeliveredReply "(string \<times> string list) list"
  | HistoryReply "history_entry list"

fun status_of :: "response \<Rightarrow> nat" where
  "status_of (Refused n e) = n"
| "status_of Crashed = 500"
| "status_of (Created i ts r) = 201"
| "status_of _ = 200"

text \<open>\<open>ap_audit\<close>: no audit log, or whether its entry can be written.\<close>

record api_env =
  ap_opts :: execute_options
  ap_num :: "rat \<Rightarrow> string"
  ap_parse_date :: "string \<Rightarrow> int"
  ap_uuid :: "nat \<Rightarrow> string"
  ap_clock :: "nat \<Rightarrow> int"
  ap_now :: int
  ap_others :: "nat \<Rightarrow> store \<Rightarrow> store"
  ap_auditId :: string
  ap_audit :: "bool option"

record server =
  sv_store :: store
  sv_events :: "execution_event list"
  sv_audit :: "audit_entry list"

section \<open>Errors\<close>

definition MAX_COMMIT_ATTEMPTS :: nat where
  "MAX_COMMIT_ATTEMPTS = 5"

definition is_conflict :: "engine_error \<Rightarrow> bool" where
  "is_conflict e = (case e of ConcurrentModificationError i \<Rightarrow> True | _ \<Rightarrow> False)"

definition thrown :: "engine_error \<Rightarrow> response" where
  "thrown e = (case e of ConcurrentModificationError i \<Rightarrow> Refused 409 ''CONFLICT'' | _ \<Rightarrow> Crashed)"

text \<open>\<open>if (e instanceof RuntimeError) return c.json(\<dots>, 422); throw e\<close>.\<close>

definition runtime_refusal :: "engine_error \<Rightarrow> response" where
  "runtime_refusal e = (case e of RuntimeError f \<Rightarrow> Refused 422 ''RUNTIME_ERROR'' | _ \<Rightarrow> thrown e)"

definition start_refusal :: "engine_error \<Rightarrow> response" where
  "start_refusal e = (case e of DefinitionError f \<Rightarrow> Refused 500 ''DEFINITION_ERROR'' | _ \<Rightarrow> runtime_refusal e)"

section \<open>Variables at the boundary\<close>

text \<open>
  A variable as the engine reads it from a JSON value: its \<open>value\<close>, which is missing unless the value is
  an object with that key. The engine does not read the type; one outside \<open>VariableType\<close> is kept here
  as \<open>object\<close>.
\<close>

definition type_named :: "jsval \<Rightarrow> variable_type" where
  "type_named v =
     (if v = JString ''string'' then VString else if v = JString ''number'' then VNumber
      else if v = JString ''boolean'' then VBoolean else if v = JString ''array'' then VArray
      else if v = JString ''null'' then VNull else VObject)"

definition cast_variable :: "jsval \<Rightarrow> variable_value" where
  "cast_variable v =
     \<lparr>vv_type = type_named (case property v ''type'' of Inr t \<Rightarrow> t | Inl e \<Rightarrow> JUndefined),
      vv_value = (case value_property v of Inr x \<Rightarrow> x | Inl e \<Rightarrow> JUndefined)\<rparr>"

definition cast_variables :: "(string \<times> jsval) list \<Rightarrow> variables" where
  "cast_variables raw = map (\<lambda>(k, v). (k, cast_variable v)) raw"

definition normalized :: "(string \<times> jsval) list \<Rightarrow> variables" where
  "normalized raw = cast_variables (normalizeVariables raw)"

definition unwrapped :: "variables \<Rightarrow> (string \<times> jsval) list" where
  "unwrapped vars = from_entries (map (\<lambda>(k, v). (k, vv_value v)) vars)"

section \<open>The cycle of a request\<close>

definition definition_of :: "engine_state \<Rightarrow> store \<Rightarrow> process_definition option" where
  "definition_of st s = getDefinition (pi_definitionId (st_instance st)) (Some (pi_definitionVersion (st_instance st))) s"

definition cycle_ops ::
  "api_env \<Rightarrow> bool \<Rightarrow> engine_state option \<Rightarrow> process_definition \<Rightarrow> engine_state \<Rightarrow> execution_event list \<Rightarrow> store_operation list" where
  "cycle_ops env isNew old d new events =
     computeStoreOps (ap_num env) (ap_now env) isNew old new events @
     buildUserTaskCreationOps (ap_num env) (ap_parse_date env) (ap_uuid env) (ap_clock env) events d new"

text \<open>\<open>executeTransaction\<close> and \<open>publishMany\<close>, after what the other requests did.\<close>

definition commit :: "api_env \<Rightarrow> store_operation list \<Rightarrow> execution_event list \<Rightarrow> response \<Rightarrow> server \<Rightarrow> response \<times> server" where
  "commit env ops events reply sv =
     (case executeTransaction ops (ap_others env 0 (sv_store sv)) of
        (s', Some e) \<Rightarrow> (thrown e, sv\<lparr>sv_store := s'\<rparr>)
      | (s', None) \<Rightarrow> (reply, sv\<lparr>sv_store := s', sv_events := sv_events sv @ events\<rparr>))"

definition run_cycle ::
  "api_env \<Rightarrow> process_definition \<Rightarrow> engine_command \<Rightarrow> engine_state option \<Rightarrow> (engine_error \<Rightarrow> response) \<Rightarrow>
     (engine_state \<Rightarrow> execution_event list \<Rightarrow> store_operation list \<times> execution_event list \<times> response) \<Rightarrow>
     server \<Rightarrow> (response \<times> server) option" where
  "run_cycle env d command old refusal plan sv =
     (case execute d command old (ap_opts env) of
        None \<Rightarrow> None
      | Some (Inl e) \<Rightarrow> Some (refusal e, sv)
      | Some (Inr (new, events)) \<Rightarrow>
          (case plan new events of (ops, published, reply) \<Rightarrow> Some (commit env ops published reply sv)))"

text \<open>The plan of a plain command: persist the result and the tasks it created, publish its events.\<close>

definition plain_plan ::
  "api_env \<Rightarrow> engine_state \<Rightarrow> process_definition \<Rightarrow> (engine_state \<Rightarrow> execution_event list \<Rightarrow> response) \<Rightarrow>
     engine_state \<Rightarrow> execution_event list \<Rightarrow> store_operation list \<times> execution_event list \<times> response" where
  "plain_plan env st d reply new events = (cycle_ops env False (Some st) d new events, events, reply new events)"

text \<open>Load the instance, let \<open>guard\<close> refuse it, look its definition up.\<close>

definition with_instance ::
  "string \<Rightarrow> response \<Rightarrow> (engine_state \<Rightarrow> response option) \<Rightarrow>
     (engine_state \<Rightarrow> process_definition \<Rightarrow> (response \<times> server) option) \<Rightarrow> server \<Rightarrow> (response \<times> server) option" where
  "with_instance i missing guard k sv =
     (case loadEngineState i (sv_store sv) of
        None \<Rightarrow> Some (missing, sv)
      | Some st \<Rightarrow>
          (case guard st of
             Some r \<Rightarrow> Some (r, sv)
           | None \<Rightarrow>
               (case definition_of st (sv_store sv) of
                  None \<Rightarrow> Some (Refused 500 ''INTERNAL_ERROR'', sv)
                | Some d \<Rightarrow> k st d)))"

definition not_found :: response where
  "not_found = Refused 404 ''NOT_FOUND''"

definition invalid_body :: response where
  "invalid_body = Refused 400 ''VALIDATION_ERROR''"

text \<open>The names in \<open>events.map(ev => ev.type)\<close>.\<close>

fun event_type :: "execution_event \<Rightarrow> string" where
  "event_type (ProcessInstanceStarted _ _ _) = ''ProcessInstanceStarted''"
| "event_type (ProcessInstanceCompleted _ _) = ''ProcessInstanceCompleted''"
| "event_type (ProcessInstanceTerminated _ _) = ''ProcessInstanceTerminated''"
| "event_type (ProcessInstanceRestarted _ _) = ''ProcessInstanceRestarted''"
| "event_type (ProcessInstanceSuspended _) = ''ProcessInstanceSuspended''"
| "event_type (ProcessInstanceResumed _) = ''ProcessInstanceResumed''"
| "event_type (ProcessInstanceFaulted _ _ _) = ''ProcessInstanceFaulted''"
| "event_type (TokenMoved _ _ _ _ _) = ''TokenMoved''"
| "event_type (TokenWaiting _ _ _ _) = ''TokenWaiting''"
| "event_type (TokenCancelled _ _ _) = ''TokenCancelled''"
| "event_type (UserTaskCreated _ _ _ _) = ''UserTaskCreated''"
| "event_type (UserTaskClaimed _ _) = ''UserTaskClaimed''"
| "event_type (UserTaskReleased _) = ''UserTaskReleased''"
| "event_type (UserTaskCompleted _ _) = ''UserTaskCompleted''"
| "event_type (UserTaskCancelled _) = ''UserTaskCancelled''"
| "event_type (ServiceTaskStarted _ _ _ _) = ''ServiceTaskStarted''"
| "event_type (ServiceTaskCompleted _ _ _ _) = ''ServiceTaskCompleted''"
| "event_type (ServiceTaskFailed _ _ _ _ _) = ''ServiceTaskFailed''"
| "event_type (MessageDelivered _ _ _) = ''MessageDelivered''"
| "event_type (SignalBroadcast _ _) = ''SignalBroadcast''"
| "event_type (ErrorThrown _ _ _ _) = ''ErrorThrown''"
| "event_type (TimerFired _ _ _) = ''TimerFired''"
| "event_type (BoundaryEventTriggered _ _ _ _) = ''BoundaryEventTriggered''"
| "event_type (CallActivityStarted _ _ _) = ''CallActivityStarted''"
| "event_type (CallActivityCompleted _ _ _) = ''CallActivityCompleted''"
| "event_type (EventBasedGatewayActivated _ _ _ _) = ''EventBasedGatewayActivated''"
| "event_type (MultiInstanceStarted _ _ _ _ _) = ''MultiInstanceStarted''"
| "event_type (MultiInstanceCompleted _ _ _ _) = ''MultiInstanceCompleted''"
| "event_type (CompensationTriggered _ _ _ _ _) = ''CompensationTriggered''"
| "event_type (CompensationCompleted _ _ _) = ''CompensationCompleted''"
| "event_type (SubProcessStarted _ _ _) = ''SubProcessStarted''"
| "event_type (SubProcessCompleted _ _ _) = ''SubProcessCompleted''"
| "event_type (TransactionCancelled _ _ _ _) = ''TransactionCancelled''"
| "event_type (StepForced _ _ _ _ _ _ _) = ''StepForced''"

definition ran_reply :: "engine_state \<Rightarrow> execution_event list \<Rightarrow> response" where
  "ran_reply new events = Ran (st_instance new) (map event_type events)"

section \<open>Instances\<close>

text \<open>\<open>POST /definitions/:id/instances\<close>; without a JSON content type there is no body.\<close>

definition start_command :: "start_body option \<Rightarrow> engine_command" where
  "start_command b =
     (case b of
        None \<Rightarrow> StartProcess None None None
      | Some b \<Rightarrow> StartProcess (map_option normalized (sb_variables b)) (sb_correlationKey b) (sb_businessKey b))"

definition start_plan ::
  "api_env \<Rightarrow> process_definition \<Rightarrow> string option \<Rightarrow> engine_state \<Rightarrow> execution_event list \<Rightarrow>
     store_operation list \<times> execution_event list \<times> response" where
  "start_plan env d restartedFrom new events =
     (cycle_ops env True None d new events,
      events @ (case restartedFrom of Some i \<Rightarrow> [ProcessInstanceRestarted (pi_id (st_instance new)) i] | None \<Rightarrow> []),
      Created (st_instance new) (st_tokens new) restartedFrom)"

definition start_instance ::
  "api_env \<Rightarrow> string \<Rightarrow> start_body body option \<Rightarrow> server \<Rightarrow> (response \<times> server) option" where
  "start_instance env definitionId body sv =
     (case getDefinition definitionId None (sv_store sv) of
        None \<Rightarrow> Some (not_found, sv)
      | Some d \<Rightarrow>
          if \<not> pd_isDeployable d then Some (Refused 422 ''NOT_DEPLOYABLE'', sv)
          else
            (case body of
               None \<Rightarrow> run_cycle env d (start_command None) None start_refusal (start_plan env d None) sv
             | Some (Fit b) \<Rightarrow> run_cycle env d (start_command (Some b)) None start_refusal (start_plan env d None) sv
             | Some _ \<Rightarrow> Some (invalid_body, sv)))"

definition INSTANCE_STATUS_VALUES :: "(string \<times> instance_status) list" where
  "INSTANCE_STATUS_VALUES = [(''pending'', PendingI), (''active'', ActiveI), (''suspended'', SuspendedI),
     (''completed'', CompletedI), (''terminated'', TerminatedI)]"

text \<open>\<open>q.status.split(',').map(x => x.trim())\<close>, refused unless every part is a status.\<close>

definition statuses_of :: "string \<Rightarrow> instance_status list option" where
  "statuses_of text =
     (let found = map (\<lambda>x. map_of INSTANCE_STATUS_VALUES (js_trim x)) (split_on (CHR '','') text)
      in if None \<in> set found then None else Some (map the found))"

definition list_instances :: "api_env \<Rightarrow> instances_query option \<Rightarrow> server \<Rightarrow> response \<times> server" where
  "list_instances env query sv =
     (case query of
        None \<Rightarrow> (invalid_body, sv)
      | Some q \<Rightarrow>
          (case (if truthy (lq_status q) then map_option Some (statuses_of (the (lq_status q))) else Some None) of
             None \<Rightarrow> (invalid_body, sv)
           | Some statuses \<Rightarrow>
               (InstancesReply (findInstances
                  \<lparr>iq_definitionId = lq_definitionId q, iq_status = statuses, iq_correlationKey = lq_correlationKey q,
                   iq_businessKey = lq_businessKey q,
                   iq_startedAfter = (if truthy (lq_startedAfter q) then map_option (ap_parse_date env) (lq_startedAfter q) else None),
                   iq_startedBefore = (if truthy (lq_startedBefore q) then map_option (ap_parse_date env) (lq_startedBefore q) else None),
                   iq_page = lq_page q, iq_pageSize = lq_pageSize q\<rparr> (sv_store sv)), sv)))"

definition get_instance :: "string \<Rightarrow> server \<Rightarrow> response \<times> server" where
  "get_instance i sv =
     (case getInstance i (sv_store sv) of
        None \<Rightarrow> (not_found, sv)
      | Some inst \<Rightarrow>
          (DetailReply inst (getActiveTokens i (sv_store sv))
             (unwrapped (case getScope (pi_rootScopeId inst) (sv_store sv) of Some x \<Rightarrow> vs_variables x | None \<Rightarrow> [])), sv))"

text \<open>\<open>keyMayRunCommand\<close>: what only a managing key may send.\<close>

fun administrative :: "engine_command \<Rightarrow> bool" where
  "administrative SuspendInstance = True"
| "administrative ResumeInstance = True"
| "administrative CancelInstance = True"
| "administrative _ = False"

definition keyMayRunCommand :: "key_role \<Rightarrow> engine_command \<Rightarrow> bool" where
  "keyMayRunCommand role command \<longleftrightarrow> role = ManagerRole \<or> \<not> administrative command"

definition key_refused :: "principal option \<Rightarrow> engine_command \<Rightarrow> bool" where
  "key_refused p command =
     (case p of Some (ApiKeyPrincipal t i n role) \<Rightarrow> \<not> keyMayRunCommand role command | _ \<Rightarrow> False)"

text \<open>\<open>POST /instances/:id/commands\<close>. The body is cast to a command; \<open>StartProcess\<close> is not among its types.\<close>

definition send_command ::
  "api_env \<Rightarrow> principal option \<Rightarrow> string \<Rightarrow> engine_command body \<Rightarrow> server \<Rightarrow> (response \<times> server) option" where
  "send_command env p i body sv =
     (case body of
        Fit command \<Rightarrow>
          if (case command of StartProcess _ _ _ \<Rightarrow> True | _ \<Rightarrow> False) then Some (invalid_body, sv)
          else if key_refused p command then Some (Refused 403 ''FORBIDDEN'', sv)
          else with_instance i not_found (\<lambda>_. None)
                 (\<lambda>st d. run_cycle env d command (Some st) runtime_refusal (plain_plan env st d ran_reply) sv) sv
      | _ \<Rightarrow> Some (invalid_body, sv))"

text \<open>
  \<open>DELETE /instances/:id\<close>. An instance that has ended is announced once more as terminated; otherwise it
  is cancelled, with its open tasks.
\<close>

definition cancel_task_ops :: "api_env \<Rightarrow> string \<Rightarrow> store \<Rightarrow> store_operation list" where
  "cancel_task_ops env i s =
     map (\<lambda>t. UpdateUserTask (t\<lparr>ur_status := TaskCancelled, ur_completedAt := Some (ap_now env)\<rparr>))
       (pr_items (queryUserTasks \<lparr>uq_instanceId = Some i, uq_assignee = None, uq_candidateGroup = None,
          uq_status = Some [TaskOpen], uq_page = 0, uq_pageSize = 1000\<rparr> s))"

definition cancel_plan ::
  "api_env \<Rightarrow> string \<Rightarrow> store \<Rightarrow> engine_state \<Rightarrow> process_definition \<Rightarrow> engine_state \<Rightarrow> execution_event list \<Rightarrow>
     store_operation list \<times> execution_event list \<times> response" where
  "cancel_plan env i s st d new events =
     (cycle_ops env False (Some st) d new events @ cancel_task_ops env i s, events, InstanceReply (st_instance new))"

definition delete_instance :: "api_env \<Rightarrow> string \<Rightarrow> server \<Rightarrow> (response \<times> server) option" where
  "delete_instance env i sv =
     (case loadEngineState i (sv_store sv) of
        None \<Rightarrow> Some (not_found, sv)
      | Some st \<Rightarrow>
          if pi_status (st_instance st) = TerminatedI \<or> pi_status (st_instance st) = CompletedI
          then Some (InstanceReply (st_instance st),
            sv\<lparr>sv_events := sv_events sv @ [ProcessInstanceTerminated i ''already terminated'']\<rparr>)
          else
            (case definition_of st (sv_store sv) of
               None \<Rightarrow> Some (Refused 500 ''INTERNAL_ERROR'', sv)
             | Some d \<Rightarrow> run_cycle env d CancelInstance (Some st) runtime_refusal (cancel_plan env i (sv_store sv) st d) sv))"

section \<open>Tasks\<close>

definition list_tasks :: "user_task_query option \<Rightarrow> server \<Rightarrow> response \<times> server" where
  "list_tasks query sv =
     (case query of None \<Rightarrow> (invalid_body, sv) | Some q \<Rightarrow> (TasksReply (queryUserTasks q (sv_store sv)), sv))"

text \<open>\<open>for (const scope of [...scopeChain].reverse())\<close>: the inner scopes win.\<close>

definition merged_chain :: "variable_scope list \<Rightarrow> variables" where
  "merged_chain chain = fold (\<lambda>x vars. assign vars (vs_variables x)) (rev chain) []"

definition get_task :: "string \<Rightarrow> server \<Rightarrow> (response \<times> server) option" where
  "get_task i sv =
     (case getUserTask i (sv_store sv) of
        None \<Rightarrow> Some (not_found, sv)
      | Some task \<Rightarrow>
          (case List.find (\<lambda>t. tk_id t = ur_tokenId task) (store_getAllTokens (ur_instanceId task) (sv_store sv)) of
             None \<Rightarrow> Some (TaskDetailReply task [], sv)
           | Some t \<Rightarrow>
               (case getScopeChain (tk_scopeId t) (sv_store sv) of
                  None \<Rightarrow> None
                | Some chain \<Rightarrow> Some (TaskDetailReply task (unwrapped (merged_chain chain)), sv))))"

definition done_task :: "api_env \<Rightarrow> user_task_record \<Rightarrow> user_task_record" where
  "done_task env task = task\<lparr>ur_status := TaskCompleted, ur_completedAt := Some (ap_now env)\<rparr>"

definition complete_plan ::
  "api_env \<Rightarrow> user_task_record \<Rightarrow> engine_state \<Rightarrow> process_definition \<Rightarrow> engine_state \<Rightarrow> execution_event list \<Rightarrow>
     store_operation list \<times> execution_event list \<times> response" where
  "complete_plan env task st d new events =
     (cycle_ops env False (Some st) d new events @ [UpdateUserTask (done_task env task)], events,
      TaskDoneReply (done_task env task) (st_instance new))"

definition complete_task ::
  "api_env \<Rightarrow> string \<Rightarrow> complete_body body \<Rightarrow> server \<Rightarrow> (response \<times> server) option" where
  "complete_task env i body sv =
     (case getUserTask i (sv_store sv) of
        None \<Rightarrow> Some (not_found, sv)
      | Some task \<Rightarrow>
          if ur_status task = TaskCompleted \<or> ur_status task = TaskCancelled then Some (Refused 422 ''INVALID_STATE'', sv)
          else
            (case body of
               Fit b \<Rightarrow>
                 with_instance (ur_instanceId task) (Refused 500 ''INTERNAL_ERROR'') (\<lambda>_. None)
                   (\<lambda>st d. run_cycle env d
                      (CompleteUserTask (ur_tokenId task) (cb_completedBy b) (map_option normalized (cb_outputVariables b)))
                      (Some st) runtime_refusal (complete_plan env task st d) sv) sv
             | _ \<Rightarrow> Some (invalid_body, sv)))"

definition claim_task :: "api_env \<Rightarrow> string \<Rightarrow> string body \<Rightarrow> server \<Rightarrow> response \<times> server" where
  "claim_task env i body sv =
     (case getUserTask i (sv_store sv) of
        None \<Rightarrow> (not_found, sv)
      | Some task \<Rightarrow>
          (case body of
             Fit claimedBy \<Rightarrow>
               let updated = task\<lparr>ur_status := TaskClaimed, ur_assignee := Some claimedBy, ur_claimedAt := Some (ap_now env)\<rparr>
               in commit env [UpdateUserTask updated] [UserTaskClaimed i claimedBy] (TaskReply updated) sv
           | _ \<Rightarrow> (invalid_body, sv)))"

definition release_task :: "api_env \<Rightarrow> string \<Rightarrow> server \<Rightarrow> response \<times> server" where
  "release_task env i sv =
     (case getUserTask i (sv_store sv) of
        None \<Rightarrow> (not_found, sv)
      | Some task \<Rightarrow>
          let updated = task\<lparr>ur_status := TaskOpen, ur_assignee := None, ur_claimedAt := None\<rparr>
          in commit env [UpdateUserTask updated] [UserTaskReleased i] (TaskReply updated) sv)"

section \<open>Messages and signals\<close>

definition deliver_message :: "api_env \<Rightarrow> message_body body \<Rightarrow> server \<Rightarrow> (response \<times> server) option" where
  "deliver_message env body sv =
     (case body of
        Fit b \<Rightarrow>
          (case findSubscriptions \<lparr>sq_type = Some SubMessage, sq_messageName = Some (dm_messageName b), sq_signalName = None,
                  sq_correlationValue = dm_correlationValue b, sq_instanceId = None\<rparr> (sv_store sv) of
             [] \<Rightarrow> Some (not_found, sv)
           | sub # _ \<Rightarrow>
               with_instance (es_instanceId sub) (Refused 500 ''INTERNAL_ERROR'') (\<lambda>_. None)
                 (\<lambda>st d. run_cycle env d (DeliverMessage (dm_messageName b) (map_option cast_variables (dm_variables b)))
                    (Some st) runtime_refusal (plain_plan env st d ran_reply) sv) sv)
      | _ \<Rightarrow> Some (invalid_body, sv))"

text \<open>
  The retries of one subscriber: \<open>n\<close> attempts are left, \<open>k\<close> commits were tried. A result is the error that
  ends the request, or what was delivered, if anything.
\<close>

fun signal_attempts ::
  "api_env \<Rightarrow> engine_command \<Rightarrow> string \<Rightarrow> nat \<Rightarrow> nat \<Rightarrow> server \<Rightarrow>
     ((engine_error + (string \<times> string list) option) \<times> nat \<times> server) option" where
  "signal_attempts env command i 0 k sv = Some (Inr None, k, sv)"
| "signal_attempts env command i (Suc n) k sv =
     (case loadEngineState i (sv_store sv) of
        None \<Rightarrow> Some (Inr None, k, sv)
      | Some st \<Rightarrow>
          (case definition_of st (sv_store sv) of
             None \<Rightarrow> Some (Inr None, k, sv)
           | Some d \<Rightarrow>
               (case execute d command (Some st) (ap_opts env) of
                  None \<Rightarrow> None
                | Some (Inl e) \<Rightarrow> Some (Inr None, k, sv)
                | Some (Inr (new, events)) \<Rightarrow>
                    (case executeTransaction (cycle_ops env False (Some st) d new events) (ap_others env k (sv_store sv)) of
                       (s', None) \<Rightarrow>
                         Some (Inr (Some (i, map event_type events)), Suc k,
                           sv\<lparr>sv_store := s', sv_events := sv_events sv @ events\<rparr>)
                     | (s', Some e) \<Rightarrow>
                         if is_conflict e \<and> n > 0
                         then signal_attempts env command i n (Suc k) (sv\<lparr>sv_store := s'\<rparr>)
                         else Some (Inl e, Suc k, sv\<lparr>sv_store := s'\<rparr>)))))"

fun signal_all ::
  "api_env \<Rightarrow> engine_command \<Rightarrow> event_subscription list \<Rightarrow> nat \<Rightarrow> (string \<times> string list) list \<Rightarrow> server \<Rightarrow>
     (response \<times> server) option" where
  "signal_all env command [] k results sv = Some (DeliveredReply results, sv)"
| "signal_all env command (sub # subs) k results sv =
     (case signal_attempts env command (es_instanceId sub) MAX_COMMIT_ATTEMPTS k sv of
        None \<Rightarrow> None
      | Some (Inl e, k', sv') \<Rightarrow> Some (thrown e, sv')
      | Some (Inr r, k', sv') \<Rightarrow>
          signal_all env command subs k' (results @ (case r of Some x \<Rightarrow> [x] | None \<Rightarrow> [])) sv')"

definition broadcast_signal :: "api_env \<Rightarrow> signal_body body \<Rightarrow> server \<Rightarrow> (response \<times> server) option" where
  "broadcast_signal env body sv =
     (case body of
        Fit b \<Rightarrow>
          signal_all env (BroadcastSignal (gb_signalName b) (map_option cast_variables (gb_variables b)))
            (findSubscriptions \<lparr>sq_type = Some SubSignal, sq_messageName = None, sq_signalName = Some (gb_signalName b),
               sq_correlationValue = None, sq_instanceId = None\<rparr> (sv_store sv)) 0 [] sv
      | _ \<Rightarrow> Some (invalid_body, sv))"

section \<open>Administration\<close>

definition status_guard :: "instance_status \<Rightarrow> engine_state \<Rightarrow> response option" where
  "status_guard wanted st = (if pi_status (st_instance st) \<noteq> wanted then Some (Refused 422 ''INVALID_STATE'') else None)"

definition instance_reply :: "engine_state \<Rightarrow> execution_event list \<Rightarrow> response" where
  "instance_reply new events = InstanceReply (st_instance new)"

definition suspend_instance :: "api_env \<Rightarrow> string \<Rightarrow> server \<Rightarrow> (response \<times> server) option" where
  "suspend_instance env i sv =
     with_instance i not_found (status_guard ActiveI)
       (\<lambda>st d. run_cycle env d SuspendInstance (Some st) runtime_refusal (plain_plan env st d instance_reply) sv) sv"

definition resume_instance :: "api_env \<Rightarrow> string \<Rightarrow> server \<Rightarrow> (response \<times> server) option" where
  "resume_instance env i sv =
     with_instance i not_found (status_guard SuspendedI)
       (\<lambda>st d. run_cycle env d ResumeInstance (Some st) runtime_refusal (plain_plan env st d instance_reply) sv) sv"

definition restart_command :: "engine_state \<Rightarrow> store \<Rightarrow> engine_command" where
  "restart_command st s =
     (let vars = (case getScope (pi_rootScopeId (st_instance st)) s of Some x \<Rightarrow> vs_variables x | None \<Rightarrow> [])
      in StartProcess (if vars = [] then None else Some vars) (pi_correlationKey (st_instance st)) (pi_businessKey (st_instance st)))"

definition restart_instance :: "api_env \<Rightarrow> string \<Rightarrow> server \<Rightarrow> (response \<times> server) option" where
  "restart_instance env i sv =
     with_instance i not_found (status_guard TerminatedI)
       (\<lambda>st d. run_cycle env d (restart_command st (sv_store sv)) None runtime_refusal (start_plan env d (Some i)) sv) sv"

definition instance_history :: "string \<Rightarrow> server \<Rightarrow> response \<times> server" where
  "instance_history i sv =
     (case getInstance i (sv_store sv) of
        None \<Rightarrow> (not_found, sv)
      | Some inst \<Rightarrow> (HistoryReply (getHistory i (sv_store sv)), sv))"

section \<open>Forcing a step\<close>

definition ACTIONS :: "(string \<times> forced_action) list" where
  "ACTIONS = [(''completeServiceTask'', ForceCompleteServiceTask), (''failServiceTask'', ForceFailServiceTask),
     (''fireTimer'', ForceFireTimer), (''completeUserTask'', ForceCompleteUserTask)]"

definition MAX_REASON :: nat where
  "MAX_REASON = 500"

text \<open>Whether the token is waiting in the way this action can push it along.\<close>

definition waits_as :: "wait_condition_type \<Rightarrow> token \<Rightarrow> bool" where
  "waits_as ty t = (case tk_waitingFor t of Some w \<Rightarrow> wc_type w = ty | None \<Rightarrow> False)"

fun fits :: "forced_action \<Rightarrow> token \<Rightarrow> bool" where
  "fits ForceCompleteServiceTask t = (tk_elementType t = ServiceTaskT \<and> waits_as WaitExternal t)"
| "fits ForceFailServiceTask t = (tk_elementType t = ServiceTaskT \<and> waits_as WaitExternal t)"
| "fits ForceFireTimer t = waits_as WaitTimer t"
| "fits ForceCompleteUserTask t = waits_as WaitUserTask t"

record force_request =
  fo_action :: forced_action
  fo_tokenId :: string
  fo_reason :: string
  fo_output :: "(string \<times> jsval) list option"
  fo_error :: "(string \<times> jsval) list option"

definition member :: "(string \<times> jsval) list \<Rightarrow> string \<Rightarrow> jsval" where
  "member ms k = (case map_of ms k of Some v \<Rightarrow> v | None \<Rightarrow> JUndefined)"

fun text_of :: "jsval \<Rightarrow> string" where
  "text_of (JString x) = x"
| "text_of _ = []"

fun object_or_missing :: "jsval \<Rightarrow> (string \<times> jsval) list option option" where
  "object_or_missing JUndefined = Some None"
| "object_or_missing (JObject ms) = Some (Some ms)"
| "object_or_missing _ = None"

text \<open>The checks of the body, in order; the reason is kept trimmed.\<close>

definition parse_force :: "jsval option \<Rightarrow> force_request option" where
  "parse_force body =
     (case body of
        Some (JObject ms) \<Rightarrow>
          (case (map_of ACTIONS (text_of (member ms ''action'')), object_or_missing (member ms ''outputVariables''),
                 object_or_missing (member ms ''error'')) of
             (Some action, Some output, Some err) \<Rightarrow>
               let tokenId = text_of (member ms ''tokenId''); why = js_trim (text_of (member ms ''reason'')) in
               if tokenId = [] \<or> why = [] \<or> length why > MAX_REASON then None
               else Some \<lparr>fo_action = action, fo_tokenId = tokenId, fo_reason = why, fo_output = output, fo_error = err\<rparr>
           | _ \<Rightarrow> None)
      | _ \<Rightarrow> None)"

definition non_empty_or :: "string \<Rightarrow> string \<Rightarrow> string" where
  "non_empty_or x y = (if x = [] then y else x)"

definition force_command :: "force_request \<Rightarrow> string \<Rightarrow> engine_command" where
  "force_command f actor =
     (let output = map_option normalized (fo_output f);
          err = (case fo_error f of Some e \<Rightarrow> e | None \<Rightarrow> [])
      in case fo_action f of
           ForceCompleteServiceTask \<Rightarrow> CompleteServiceTask (fo_tokenId f) output
         | ForceFailServiceTask \<Rightarrow>
             FailServiceTask (fo_tokenId f) (non_empty_or (text_of (member err ''code'')) ''FORCED_FAILURE'')
               (non_empty_or (text_of (member err ''message'')) (fo_reason f))
         | ForceFireTimer \<Rightarrow> FireTimer (fo_tokenId f)
         | ForceCompleteUserTask \<Rightarrow> CompleteUserTask (fo_tokenId f) actor output)"

definition open_task_of :: "string \<Rightarrow> string \<Rightarrow> store \<Rightarrow> user_task_record option" where
  "open_task_of i tokenId s =
     List.find (\<lambda>t. ur_tokenId t = tokenId \<and> (ur_status t = TaskOpen \<or> ur_status t = TaskClaimed))
       (pr_items (queryUserTasks \<lparr>uq_instanceId = Some i, uq_assignee = None, uq_candidateGroup = None,
          uq_status = None, uq_page = 0, uq_pageSize = 1000\<rparr> s))"

definition forced_task :: "force_request \<Rightarrow> string \<Rightarrow> store \<Rightarrow> user_task_record option" where
  "forced_task f i s = (if fo_action f = ForceCompleteUserTask then open_task_of i (fo_tokenId f) s else None)"

definition on_behalf :: "user_task_record option \<Rightarrow> string option" where
  "on_behalf task = (let a = (case task of Some t \<Rightarrow> ur_assignee t | None \<Rightarrow> None) in if truthy a then a else None)"

definition marker_of :: "force_request \<Rightarrow> string \<Rightarrow> string \<Rightarrow> token \<Rightarrow> user_task_record option \<Rightarrow> execution_event" where
  "marker_of f actor i t task =
     StepForced i (fo_tokenId f) (tk_elementId t) (fo_action f) actor (fo_reason f) (on_behalf task)"

definition action_name :: "forced_action \<Rightarrow> string" where
  "action_name a = the (map_of (map (\<lambda>(n, x). (x, n)) ACTIONS) a)"

definition force_entry :: "force_request \<Rightarrow> principal \<Rightarrow> string \<Rightarrow> string \<Rightarrow> token \<Rightarrow> user_task_record option \<Rightarrow> audit_input" where
  "force_entry f p tenant i t task =
     audit_entry_for ''step.force'' p [tenant] i
       ([(''step'', JString (action_name (fo_action f))), (''elementId'', JString (tk_elementId t)), (''reason'', JString (fo_reason f))] @
        (case on_behalf task of Some a \<Rightarrow> [(''onBehalfOf'', JString a)] | None \<Rightarrow> []))"

text \<open>
  The end of the route: the audit entry is written first and on its own, then the transaction with the
  marker in its history.
\<close>

definition record_entry :: "api_env \<Rightarrow> audit_input \<Rightarrow> server \<Rightarrow> server option" where
  "record_entry env entry sv =
     (case ap_audit env of
        None \<Rightarrow> Some sv
      | Some True \<Rightarrow> Some (sv\<lparr>sv_audit := sv_audit sv @ [audit_row (ap_auditId env) (ap_now env) entry]\<rparr>)
      | Some False \<Rightarrow> None)"

definition force_ops ::
  "api_env \<Rightarrow> engine_state \<Rightarrow> process_definition \<Rightarrow> engine_state \<Rightarrow> execution_event list \<Rightarrow> execution_event \<Rightarrow>
     user_task_record option \<Rightarrow> store_operation list" where
  "force_ops env st d new events marker task =
     computeStoreOps (ap_num env) (ap_now env) False (Some st) new (events @ [marker]) @
     buildUserTaskCreationOps (ap_num env) (ap_parse_date env) (ap_uuid env) (ap_clock env) events d new @
     (case task of Some t \<Rightarrow> [UpdateUserTask (done_task env t)] | None \<Rightarrow> [])"

definition force_cycle ::
  "api_env \<Rightarrow> principal \<Rightarrow> string \<Rightarrow> string \<Rightarrow> force_request \<Rightarrow> string \<Rightarrow> token \<Rightarrow> engine_state \<Rightarrow> process_definition \<Rightarrow>
     server \<Rightarrow> (response \<times> server) option" where
  "force_cycle env p actor tenant f i t st d sv =
     (let task = forced_task f i (sv_store sv); marker = marker_of f actor i t task in
      case execute d (force_command f actor) (Some st) (ap_opts env) of
        None \<Rightarrow> None
      | Some (Inl e) \<Rightarrow> Some (runtime_refusal e, sv)
      | Some (Inr (new, events)) \<Rightarrow>
          (case record_entry env (force_entry f p tenant i t task) sv of
             None \<Rightarrow> Some (Crashed, sv)
           | Some sv' \<Rightarrow>
               Some (commit env (force_ops env st d new events marker task) (events @ [marker])
                 (Ran (st_instance new) (map event_type (events @ [marker]))) sv')))"

definition force_step ::
  "api_env \<Rightarrow> principal option \<Rightarrow> string \<Rightarrow> string \<Rightarrow> jsval option \<Rightarrow> server \<Rightarrow> (response \<times> server) option" where
  "force_step env p tenant i body sv =
     (case p of
        Some (UserPrincipal user ms) \<Rightarrow>
          if \<not> canUseTenant (UserPrincipal user ms) tenant then Some (Refused 403 ''FORBIDDEN'', sv)
          else
            (case parse_force body of
               None \<Rightarrow> Some (invalid_body, sv)
             | Some f \<Rightarrow>
                 (case loadEngineState i (sv_store sv) of
                    None \<Rightarrow> Some (not_found, sv)
                  | Some st \<Rightarrow>
                      (case List.find (\<lambda>t. tk_id t = fo_tokenId f) (st_tokens st) of
                         None \<Rightarrow> Some (Refused 409 ''STEP_NOT_CURRENT'', sv)
                       | Some t \<Rightarrow>
                           if tk_status t \<noteq> Waiting then Some (Refused 409 ''STEP_NOT_CURRENT'', sv)
                           else if \<not> fits (fo_action f) t then Some (Refused 422 ''WRONG_STEP_KIND'', sv)
                           else
                             (case definition_of st (sv_store sv) of
                                None \<Rightarrow> Some (Refused 500 ''INTERNAL_ERROR'', sv)
                              | Some d \<Rightarrow> force_cycle env (UserPrincipal user ms) (u_email user) tenant f i t st d sv))))
      | _ \<Rightarrow> Some (Refused 403 ''FORBIDDEN'', sv))"

section \<open>The router\<close>

datatype api_request =
    StartInstance string "start_body body option"
  | ListInstances "instances_query option"
  | GetInstance string
  | SendCommand string "engine_command body"
  | DeleteInstance string
  | ListTasks "user_task_query option"
  | GetTask string
  | CompleteTask string "complete_body body"
  | ClaimTask string "string body"
  | ReleaseTask string
  | PostMessage "message_body body"
  | PostSignal "signal_body body"
  | Suspend string
  | Resume string
  | Restart string
  | GetHistory string
  | Force string "jsval option"

fun handle :: "api_env \<Rightarrow> principal option \<Rightarrow> string \<Rightarrow> api_request \<Rightarrow> server \<Rightarrow> (response \<times> server) option" where
  "handle env p tenant (StartInstance d b) sv = start_instance env d b sv"
| "handle env p tenant (ListInstances q) sv = Some (list_instances env q sv)"
| "handle env p tenant (GetInstance i) sv = Some (get_instance i sv)"
| "handle env p tenant (SendCommand i b) sv = send_command env p i b sv"
| "handle env p tenant (DeleteInstance i) sv = delete_instance env i sv"
| "handle env p tenant (ListTasks q) sv = Some (list_tasks q sv)"
| "handle env p tenant (GetTask i) sv = get_task i sv"
| "handle env p tenant (CompleteTask i b) sv = complete_task env i b sv"
| "handle env p tenant (ClaimTask i b) sv = Some (claim_task env i b sv)"
| "handle env p tenant (ReleaseTask i) sv = Some (release_task env i sv)"
| "handle env p tenant (PostMessage b) sv = deliver_message env b sv"
| "handle env p tenant (PostSignal b) sv = broadcast_signal env b sv"
| "handle env p tenant (Suspend i) sv = suspend_instance env i sv"
| "handle env p tenant (Resume i) sv = resume_instance env i sv"
| "handle env p tenant (Restart i) sv = restart_instance env i sv"
| "handle env p tenant (GetHistory i) sv = Some (instance_history i sv)"
| "handle env p tenant (Force i b) sv = force_step env p tenant i b sv"

end
