(* ===== verification/Http_Correctness.thy ===== *)
theory Http_Correctness
  imports Http_Api "HOL-Library.Sublist"
begin

text \<open>
  What the runtime API guarantees: a request that fails changes nothing, a request that lost a race
  writes nothing, a command sent over HTTP is the engine's command, a task is completed once, a forced
  step is accounted for, and a signal retries a bounded number of times. Every handler is first reduced to
  the relation \<open>settles\<close>: how a request may end.
\<close>

section \<open>How a request may end\<close>

definition single_update :: "store_operation list \<Rightarrow> bool" where
  "single_update ops \<longleftrightarrow> (\<exists>op rest. ops = op # rest \<and> list_all (\<lambda>x. \<not> is_update x) rest)"

inductive settles :: "api_env \<Rightarrow> server \<Rightarrow> response \<Rightarrow> server \<Rightarrow> bool" for env sv where
  refuses: "400 \<le> status_of r \<Longrightarrow> settles env sv r (sv\<lparr>sv_audit := entries\<rparr>)"
| reads: "status_of r = 200 \<Longrightarrow> settles env sv r sv"
| announces: "status_of r = 200 \<Longrightarrow> settles env sv r (sv\<lparr>sv_events := sv_events sv @ evs\<rparr>)"
| loses: "executeTransaction ops (ap_others env 0 (sv_store sv)) = (s', Some e) \<Longrightarrow> single_update ops \<Longrightarrow>
    s' = ap_others env 0 (sv_store sv) \<Longrightarrow> settles env sv (thrown e) (sv\<lparr>sv_audit := entries, sv_store := s'\<rparr>)"
| commits: "executeTransaction ops (ap_others env 0 (sv_store sv)) = (s', None) \<Longrightarrow> single_update ops \<Longrightarrow>
    status_of r < 400 \<Longrightarrow>
    settles env sv r (sv\<lparr>sv_audit := entries, sv_store := s', sv_events := sv_events sv @ evs\<rparr>)"

lemma creation_ops:
  "list_all (\<lambda>op. \<not> is_update op \<and> area_of op = OtherArea) (buildUserTaskCreationOps num parse uuid clock events d st)"
proof -
  have "list_all (\<lambda>op. \<not> is_update op \<and> area_of op = OtherArea) (user_task_loop num parse uuid clock n es d st)" for n es
    by (induction es arbitrary: n) (auto split: execution_event.splits option.splits flow_element.splits)
  then show ?thesis by (simp add: buildUserTaskCreationOps_def)
qed

lemma computed_head: "computeStoreOps num stamp isNew old new events =
    (if isNew then CreateInstance (st_instance new) else UpdateInstance (st_instance new)) #
      tl (computeStoreOps num stamp isNew old new events)"
  by (simp add: computeStoreOps_def)

lemma cycle_single: "list_all (\<lambda>op. \<not> is_update op) xs \<Longrightarrow>
    single_update (computeStoreOps num stamp isNew old new events @ xs)"
  using computeStoreOps_tail[of num stamp isNew old new events] computed_head[of num stamp isNew old new events]
  unfolding single_update_def by (metis (no_types, lifting) append_Cons list_all_append list.pred_mono_strong)

lemma cycle_ops_single: "list_all (\<lambda>op. \<not> is_update op) xs \<Longrightarrow> single_update (cycle_ops env isNew old d new events @ xs)"
  unfolding cycle_ops_def append_assoc using creation_ops by (intro cycle_single) (auto simp: list_all_iff)

lemma thrown_status [simp]: "400 \<le> status_of (thrown e)" "\<not> status_of (thrown e) < 400"
  by (auto simp: thrown_def split: engine_error.splits)

lemma refusal_status [simp]: "400 \<le> status_of (runtime_refusal e)" "400 \<le> status_of (start_refusal e)"
  by (auto simp: runtime_refusal_def start_refusal_def split: engine_error.splits)

lemma single_lost: "executeTransaction ops s = (s', Some e) \<Longrightarrow> single_update ops \<Longrightarrow> s' = s"
  by (auto simp: single_update_def split: sum.splits) (metis option.distinct(1) prod.inject run_returns)

lemma commit_settles:
  assumes "commit env ops events reply (sv\<lparr>sv_audit := entries\<rparr>) = (r, sv')" "single_update ops" "status_of reply < 400"
  shows "settles env sv r sv'"
proof (cases "executeTransaction ops (ap_others env 0 (sv_store sv))")
  case (Pair s' e)
  show ?thesis
  proof (cases e)
    case None
    with Pair assms(1) have "r = reply" "sv' = sv\<lparr>sv_audit := entries, sv_store := s', sv_events := sv_events sv @ events\<rparr>"
      by (auto simp: commit_def)
    then show ?thesis using commits[OF Pair[unfolded None] assms(2,3)] by simp
  next
    case (Some e')
    with Pair assms(1) have "r = thrown e'" "sv' = sv\<lparr>sv_audit := entries, sv_store := s'\<rparr>" by (auto simp: commit_def)
    moreover have "s' = ap_others env 0 (sv_store sv)" by (rule single_lost[OF _ assms(2)]) (use Pair Some in simp)
    ultimately show ?thesis using loses[OF Pair[unfolded Some] assms(2)] by simp
  qed
qed

lemma same_audit [simp]: "sv\<lparr>sv_audit := sv_audit sv\<rparr> = sv" by simp

lemma refuses_now: "400 \<le> status_of r \<Longrightarrow> settles env sv r sv"
  using refuses[of r env sv "sv_audit sv"] by simp

lemma run_cycle_settles:
  assumes "run_cycle env d command old refusal plan sv = Some (r, sv')" "\<And>e. 400 \<le> status_of (refusal e)"
    and "\<And>new events ops published reply. plan new events = (ops, published, reply) \<Longrightarrow>
      single_update ops \<and> status_of reply < 400"
  shows "settles env sv r sv'"
proof -
  show ?thesis
  proof (cases "execute d command old (ap_opts env)")
    case (Some x)
    show ?thesis
    proof (cases x)
      case (Inl e)
      with Some assms(1,2) show ?thesis by (auto simp: run_cycle_def intro: refuses_now)
    next
      case (Inr y)
      obtain new events where y: "y = (new, events)" by force
      obtain ops published reply where p: "plan new events = (ops, published, reply)" by (cases "plan new events") auto
      with Some Inr y assms(1) have "commit env ops published reply (sv\<lparr>sv_audit := sv_audit sv\<rparr>) = (r, sv')"
        by (simp add: run_cycle_def)
      from commit_settles[OF this] assms(3)[OF p] show ?thesis by simp
    qed
  qed (use assms(1) in \<open>simp add: run_cycle_def\<close>)
qed

lemma with_instance_settles:
  assumes "with_instance i missing guard k sv = Some (r, sv')" "400 \<le> status_of missing"
    and "\<And>st r. guard st = Some r \<Longrightarrow> 400 \<le> status_of r"
    and "\<And>st d r sv'. k st d = Some (r, sv') \<Longrightarrow> settles env sv r sv'"
  shows "settles env sv r sv'"
  using assms by (auto simp: with_instance_def intro: refuses_now split: option.splits)

lemma plain_plan_single: "plain_plan env st d reply new events = (ops, published, r) \<Longrightarrow>
    single_update ops \<and> r = reply new events \<and> published = events"
  using cycle_ops_single[of "[]"] by (auto simp: plain_plan_def)

lemma start_plan_single: "start_plan env d restarted new events = (ops, published, r) \<Longrightarrow> single_update ops \<and> status_of r < 400"
  using cycle_ops_single[of "[]"] by (auto simp: start_plan_def)

lemma cancel_plan_single: "cancel_plan env i s st d new events = (ops, published, r) \<Longrightarrow> single_update ops \<and> status_of r < 400"
  using cycle_ops_single[of "cancel_task_ops env i s"] by (auto simp: cancel_plan_def cancel_task_ops_def list_all_iff)

lemma complete_plan_single: "complete_plan env task st d new events = (ops, published, r) \<Longrightarrow> single_update ops \<and> status_of r < 400"
  using cycle_ops_single[of "[UpdateUserTask (done_task env task)]"] by (auto simp: complete_plan_def)

lemma force_ops_single: "single_update (force_ops env st d new events marker task)"
  unfolding force_ops_def using creation_ops by (intro cycle_single) (auto simp: list_all_iff split: option.splits)

lemma reply_statuses [simp]: "status_of not_found = 404" "status_of invalid_body = 400" "status_of (ran_reply new events) = 200"
  "status_of (instance_reply new events) = 200"
  by (simp_all add: not_found_def invalid_body_def ran_reply_def instance_reply_def)

lemma update_task_settles:
  assumes "commit env [UpdateUserTask t] evs (TaskReply t) sv = (r, sv')"
  shows "settles env sv r sv'"
  using commit_settles[of env "[UpdateUserTask t]" evs "TaskReply t" "sv_audit sv" sv] assms
  by (simp add: single_update_def)

lemma force_cycle_settles:
  assumes "force_cycle env p actor tenant f i t st d sv = Some (r, sv')"
  shows "settles env sv r sv'"
proof -
  let ?task = "forced_task f i (sv_store sv)"
  let ?marker = "marker_of f actor i t ?task"
  show ?thesis
  proof (cases "execute d (force_command f actor) (Some st) (ap_opts env)")
    case (Some x)
    show ?thesis
    proof (cases x)
      case (Inl e)
      with Some assms show ?thesis by (auto simp: force_cycle_def Let_def intro: refuses_now)
    next
      case (Inr y)
      obtain new events where y: "y = (new, events)" by force
      show ?thesis
      proof (cases "record_entry env (force_entry f p tenant i t ?task) sv")
        case None
        with Some Inr y assms show ?thesis by (auto simp: force_cycle_def Let_def intro: refuses_now)
      next
        case (Some sv1)
        then obtain entries where "sv1 = sv\<lparr>sv_audit := entries\<rparr>"
          by (auto simp: record_entry_def split: option.splits bool.splits intro: that[of "sv_audit sv"])
        with Some \<open>execute _ _ _ _ = _\<close> Inr y assms
        have "commit env (force_ops env st d new events ?marker ?task) (events @ [?marker])
            (Ran (st_instance new) (map event_type (events @ [?marker]))) (sv\<lparr>sv_audit := entries\<rparr>) = (r, sv')"
          by (simp add: force_cycle_def Let_def)
        from commit_settles[OF this force_ops_single] show ?thesis by simp
      qed
    qed
  qed (use assms in \<open>simp add: force_cycle_def Let_def\<close>)
qed

lemma handle_settles:
  assumes "handle env p tenant req sv = Some (r, sv')" "\<And>b. req \<noteq> PostSignal b"
  shows "settles env sv r sv'"
proof (cases req)
  case (StartInstance i b)
  with assms(1) show ?thesis
    by (auto simp: start_instance_def intro: refuses_now run_cycle_settles dest: start_plan_single
        split: option.splits body.splits if_splits)
next
  case (ListInstances q)
  with assms(1) show ?thesis
    by (auto simp: list_instances_def intro: refuses_now reads split: option.splits if_splits)
next
  case (GetInstance i)
  with assms(1) show ?thesis by (auto simp: get_instance_def intro: refuses_now reads split: option.splits)
next
  case (SendCommand i b)
  with assms(1) show ?thesis
    by (auto simp: send_command_def intro!: refuses_now dest: plain_plan_single
        elim!: with_instance_settles run_cycle_settles split: body.splits if_splits)
next
  case (DeleteInstance i)
  with assms(1) show ?thesis
    by (auto simp: delete_instance_def intro: refuses_now announces run_cycle_settles dest: cancel_plan_single
        split: option.splits if_splits)
next
  case (ListTasks q)
  with assms(1) show ?thesis by (auto simp: list_tasks_def intro: refuses_now reads split: option.splits)
next
  case (GetTask i)
  with assms(1) show ?thesis by (auto simp: get_task_def intro: refuses_now reads split: option.splits)
next
  case (CompleteTask i b)
  with assms(1) show ?thesis
    by (auto simp: complete_task_def intro!: refuses_now dest: complete_plan_single
        elim!: with_instance_settles run_cycle_settles split: option.splits body.splits if_splits)
next
  case (ClaimTask i b)
  with assms(1) show ?thesis
    by (auto simp: claim_task_def Let_def intro: refuses_now update_task_settles split: option.splits body.splits)
next
  case (ReleaseTask i)
  with assms(1) show ?thesis
    by (auto simp: release_task_def Let_def intro: refuses_now update_task_settles split: option.splits)
next
  case (PostMessage b)
  with assms(1) show ?thesis
    by (auto simp: deliver_message_def intro!: refuses_now dest: plain_plan_single
        elim!: with_instance_settles run_cycle_settles split: body.splits list.splits)
next
  case (Suspend i)
  with assms(1) show ?thesis
    by (auto simp: suspend_instance_def status_guard_def dest: plain_plan_single
        elim!: with_instance_settles run_cycle_settles split: if_splits)
next
  case (Resume i)
  with assms(1) show ?thesis
    by (auto simp: resume_instance_def status_guard_def dest: plain_plan_single
        elim!: with_instance_settles run_cycle_settles split: if_splits)
next
  case (Restart i)
  with assms(1) show ?thesis
    by (auto simp: restart_instance_def status_guard_def dest: start_plan_single
        elim!: with_instance_settles run_cycle_settles split: if_splits)
next
  case (GetHistory i)
  with assms(1) show ?thesis by (auto simp: instance_history_def intro: refuses_now reads split: option.splits)
next
  case (Force i b)
  with assms(1) show ?thesis
    by (auto simp: force_step_def intro: refuses_now force_cycle_settles
        split: option.splits principal.splits if_splits)
qed (use assms(2) in simp)

section \<open>The command of a request\<close>

text \<open>The instance a request acts on and the engine command it stands for.\<close>

fun command_of :: "principal option \<Rightarrow> api_request \<Rightarrow> store \<Rightarrow> (string \<times> engine_command) option" where
  "command_of p (SendCommand i (Fit c)) s = Some (i, c)"
| "command_of p (DeleteInstance i) s = Some (i, CancelInstance)"
| "command_of p (Suspend i) s = Some (i, SuspendInstance)"
| "command_of p (Resume i) s = Some (i, ResumeInstance)"
| "command_of p (CompleteTask k (Fit b)) s =
     map_option (\<lambda>t. (ur_instanceId t,
       CompleteUserTask (ur_tokenId t) (cb_completedBy b) (map_option normalized (cb_outputVariables b)))) (getUserTask k s)"
| "command_of p (PostMessage (Fit b)) s =
     (case findSubscriptions \<lparr>sq_type = Some SubMessage, sq_messageName = Some (dm_messageName b), sq_signalName = None,
             sq_correlationValue = dm_correlationValue b, sq_instanceId = None\<rparr> s of
        [] \<Rightarrow> None
      | sub # _ \<Rightarrow> Some (es_instanceId sub, DeliverMessage (dm_messageName b) (map_option cast_variables (dm_variables b))))"
| "command_of (Some (UserPrincipal u ms)) (Force i b) s = map_option (\<lambda>f. (i, force_command f (u_email u))) (parse_force b)"
| "command_of p req s = None"

definition side_ops :: "store_operation list \<Rightarrow> bool" where
  "side_ops ops \<longleftrightarrow> list_all (\<lambda>op. \<not> is_update op \<and> area_of op = OtherArea) ops"

definition forced_mark :: "execution_event list \<Rightarrow> bool" where
  "forced_mark marks \<longleftrightarrow> marks = [] \<or> (\<exists>i k e a who why behalf. marks = [StepForced i k e a who why behalf])"

text \<open>How a request with a command may end.\<close>

inductive runs :: "api_env \<Rightarrow> server \<Rightarrow> string \<Rightarrow> engine_command \<Rightarrow> response \<Rightarrow> server \<Rightarrow> bool" for env sv i c where
  refused: "400 \<le> status_of r \<Longrightarrow> runs env sv i c r (sv\<lparr>sv_audit := entries\<rparr>)"
| ended: "loadEngineState i (sv_store sv) = Some st \<Longrightarrow> pi_status (st_instance st) \<in> {TerminatedI, CompletedI} \<Longrightarrow>
    c = CancelInstance \<Longrightarrow> runs env sv i c r (sv\<lparr>sv_events := sv_events sv @ evs\<rparr>)"
| cycled: "loadEngineState i (sv_store sv) = Some st \<Longrightarrow> definition_of st (sv_store sv) = Some d \<Longrightarrow>
    execute d c (Some st) (ap_opts env) = Some (Inr (new, evs)) \<Longrightarrow> side_ops more_ops \<Longrightarrow> forced_mark marks \<Longrightarrow>
    status_of reply = 200 \<Longrightarrow>
    commit env (computeStoreOps (ap_num env) (ap_now env) False (Some st) new (evs @ marks) @ more_ops) (evs @ marks) reply
      (sv\<lparr>sv_audit := entries\<rparr>) = (r, sv') \<Longrightarrow> runs env sv i c r sv'"

lemma refused_now: "400 \<le> status_of r \<Longrightarrow> runs env sv i c r sv"
  using refused[of r env sv i c "sv_audit sv"] by simp

lemma run_cycle_runs:
  assumes "run_cycle env d c (Some st) runtime_refusal plan sv = Some (r, sv')"
    and "loadEngineState i (sv_store sv) = Some st" "definition_of st (sv_store sv) = Some d"
    and "\<And>new events. \<exists>xs reply. plan new events = (cycle_ops env False (Some st) d new events @ xs, events, reply) \<and>
      side_ops xs \<and> status_of reply = 200"
  shows "runs env sv i c r sv'"
proof (cases "execute d c (Some st) (ap_opts env)")
  case (Some x)
  show ?thesis
  proof (cases x)
    case (Inl e)
    with Some assms(1) show ?thesis by (auto simp: run_cycle_def intro: refused_now)
  next
    case (Inr y)
    obtain new events where y: "y = (new, events)" by force
    obtain xs reply where p: "plan new events = (cycle_ops env False (Some st) d new events @ xs, events, reply)"
      and xs: "side_ops xs" "status_of reply = 200" using assms(4) by blast
    let ?more = "buildUserTaskCreationOps (ap_num env) (ap_parse_date env) (ap_uuid env) (ap_clock env) events d new @ xs"
    have "side_ops ?more" using xs(1) creation_ops by (auto simp: side_ops_def)
    moreover have "commit env (computeStoreOps (ap_num env) (ap_now env) False (Some st) new (events @ []) @ ?more) (events @ [])
        reply (sv\<lparr>sv_audit := sv_audit sv\<rparr>) = (r, sv')"
      using Some Inr y p assms(1) by (simp add: run_cycle_def cycle_ops_def)
    ultimately show ?thesis using cycled[OF assms(2,3) _ _ _ xs(2)] Some Inr y by (metis forced_mark_def)
  qed
qed (use assms(1) in \<open>simp add: run_cycle_def\<close>)

lemma with_instance_runs:
  assumes "with_instance i missing guard (\<lambda>st d. run_cycle env d c (Some st) runtime_refusal (plan st d) sv) sv = Some (r, sv')"
    and "400 \<le> status_of missing" "\<And>st r. guard st = Some r \<Longrightarrow> 400 \<le> status_of r"
    and "\<And>st d new events. \<exists>xs reply. plan st d new events = (cycle_ops env False (Some st) d new events @ xs, events, reply) \<and>
      side_ops xs \<and> status_of reply = 200"
  shows "runs env sv i c r sv'"
  using assms(1-3) run_cycle_runs[OF _ _ _ assms(4)]
  by (auto simp: with_instance_def intro: refused_now split: option.splits)

lemma plan_shapes:
  "\<exists>xs r. plain_plan env st d ran_reply new events = (cycle_ops env False (Some st) d new events @ xs, events, r) \<and>
     side_ops xs \<and> status_of r = 200"
  "\<exists>xs r. plain_plan env st d instance_reply new events = (cycle_ops env False (Some st) d new events @ xs, events, r) \<and>
     side_ops xs \<and> status_of r = 200"
  "\<exists>xs r. complete_plan env task st d new events = (cycle_ops env False (Some st) d new events @ xs, events, r) \<and>
     side_ops xs \<and> status_of r = 200"
  "\<exists>xs r. cancel_plan env i s st d new events = (cycle_ops env False (Some st) d new events @ xs, events, r) \<and>
     side_ops xs \<and> status_of r = 200"
  by (auto simp: plain_plan_def complete_plan_def cancel_plan_def cancel_task_ops_def side_ops_def list_all_iff
      ran_reply_def instance_reply_def)

lemma force_runs:
  assumes "force_cycle env p actor tenant f i t st d sv = Some (r, sv')"
    and "loadEngineState i (sv_store sv) = Some st" "definition_of st (sv_store sv) = Some d"
  shows "runs env sv i (force_command f actor) r sv'"
proof -
  let ?task = "forced_task f i (sv_store sv)"
  let ?marker = "marker_of f actor i t ?task"
  consider (none) e where "execute d (force_command f actor) (Some st) (ap_opts env) = Some (Inl e)"
      "r = runtime_refusal e" "sv' = sv"
    | (crash) new events where "execute d (force_command f actor) (Some st) (ap_opts env) = Some (Inr (new, events))"
      "r = Crashed" "sv' = sv"
    | (go) new events entries where "execute d (force_command f actor) (Some st) (ap_opts env) = Some (Inr (new, events))"
      "commit env (force_ops env st d new events ?marker ?task) (events @ [?marker])
         (Ran (st_instance new) (map event_type (events @ [?marker]))) (sv\<lparr>sv_audit := entries\<rparr>) = (r, sv')"
  proof -
    have "\<exists>entries. sv1 = sv\<lparr>sv_audit := entries\<rparr>"
      if "record_entry env (force_entry f p tenant i t ?task) sv = Some sv1" for sv1
      using that exI[of "\<lambda>entries. sv = sv\<lparr>sv_audit := entries\<rparr>", OF same_audit[symmetric]]
      by (auto simp: record_entry_def split: option.splits bool.splits)
    with assms(1) that show thesis
      by (auto simp: force_cycle_def Let_def split: option.splits sum.splits)
  qed
  then show ?thesis
  proof cases
    case (go new events entries)
    let ?more = "buildUserTaskCreationOps (ap_num env) (ap_parse_date env) (ap_uuid env) (ap_clock env) events d new @
      (case ?task of Some t \<Rightarrow> [UpdateUserTask (done_task env t)] | None \<Rightarrow> [])"
    have "side_ops ?more" using creation_ops by (auto simp: side_ops_def split: option.splits)
    moreover have "forced_mark [?marker]" by (simp add: forced_mark_def marker_of_def)
    ultimately show ?thesis
      using cycled[OF assms(2,3) go(1), of ?more "[?marker]" "Ran (st_instance new) (map event_type (events @ [?marker]))" entries r sv']
        go(2) by (simp add: force_ops_def)
  qed (auto intro: refused_now)
qed

lemma handle_runs:
  assumes "handle env p tenant req sv = Some (r, sv')" "command_of p req (sv_store sv) = Some (i, c)"
  shows "runs env sv i c r sv'"
proof (cases req)
  case (SendCommand k b)
  with assms show ?thesis
    by (cases b) (auto simp: send_command_def intro: refused_now plan_shapes elim!: with_instance_runs split: if_splits)
next
  case (DeleteInstance k)
  with assms show ?thesis
    by (auto simp: delete_instance_def intro: refused_now ended run_cycle_runs plan_shapes split: option.splits if_splits)
next
  case (CompleteTask k b)
  with assms show ?thesis
    by (cases b) (auto simp: complete_task_def intro: refused_now plan_shapes elim!: with_instance_runs
        split: option.splits if_splits)
next
  case (PostMessage b)
  with assms show ?thesis
    by (cases b) (auto simp: deliver_message_def intro: refused_now plan_shapes elim!: with_instance_runs split: list.splits)
next
  case (Suspend k)
  with assms show ?thesis
    by (auto simp: suspend_instance_def status_guard_def intro: plan_shapes elim!: with_instance_runs split: if_splits)
next
  case (Resume k)
  with assms show ?thesis
    by (auto simp: resume_instance_def status_guard_def intro: plan_shapes elim!: with_instance_runs split: if_splits)
next
  case (Force k b)
  obtain u ms where u: "p = Some (UserPrincipal u ms)"
    using assms(2) Force by (auto elim!: command_of.elims)
  with assms(2) Force obtain f where p: "p = Some (UserPrincipal u ms)" "parse_force b = Some f" "i = k"
    "c = force_command f (u_email u)" by (cases "parse_force b") auto
  with Force assms(1) show ?thesis
    by (auto simp: force_step_def intro: refused_now force_runs split: option.splits if_splits)
qed (use assms(2) in \<open>auto elim!: command_of.elims\<close>)

section \<open>Failing and losing\<close>


lemma stale_commit:
  assumes "execute d c (Some st) opts = Some (Inr (new, evs))" "call_ok opts c (Some st)"
    and "pi_id (st_instance st) = i" "pi_version (st_instance st) = Some v"
    and "getInstance i s = Some j" "pi_version j = Some w" "w \<noteq> v"
  shows "executeTransaction (computeStoreOps num stamp False (Some st) new evs' @ xs) s =
    (s, Some (ConcurrentModificationError i))"
proof -
  have "updateInstance (st_instance new) s = Inl (ConcurrentModificationError i)"
    using execute_identity[OF assms(1,2)] assms(3-7) by (simp add: updateInstance_def getInstance_def current_version_def)
  then show ?thesis using computed_head[of num stamp False "Some st" new evs'] by (metis append_Cons apply_op.simps(3)
      executeTransaction.simps(2) old.sum.simps(5))
qed


section \<open>The engine behind the API\<close>

lemma load_frame:
  assumes "so_instances t = so_instances s" "so_tokens t = so_tokens s" "so_scopes t = so_scopes s"
    "so_gatewayStates t = so_gatewayStates s" "so_compensation t = so_compensation s" "so_history t = so_history s"
  shows "loadEngineState i t = loadEngineState i s" "keyed_joins t = keyed_joins s" "getHistory i t = getHistory i s"
  using assms by (simp_all add: loadEngineState_def getInstance_def store_getAllTokens_def getScope_def listGatewayStates_def
      listCompensationRecords_def keyed_joins_def getHistory_def Let_def cong: option.case_cong)

lemma side_frame:
  assumes "executeTransaction ops s = (t, r)" "side_ops ops"
  shows "loadEngineState i t = loadEngineState i s" "keyed_joins t = keyed_joins s" "getHistory i t = getHistory i s"
proof -
  have a: "list_all (\<lambda>op. area_of op \<noteq> a) ops" if "a \<noteq> OtherArea" for a
    using assms(2) that by (auto simp: side_ops_def list_all_iff)
  have f: "so_instances t = so_instances s" "so_tokens t = so_tokens s" "so_scopes t = so_scopes s"
    "so_gatewayStates t = so_gatewayStates s" "so_compensation t = so_compensation s" "so_history t = so_history s"
    by (rule run_frame[OF assms(1)], rule a, simp)+
  show "loadEngineState i t = loadEngineState i s" "keyed_joins t = keyed_joins s" "getHistory i t = getHistory i s"
    using load_frame[OF f] by simp_all
qed


section \<open>Signals\<close>

lemma attempts_local:
  assumes "\<And>j. k \<le> j \<Longrightarrow> j < k + n \<Longrightarrow> others' j = ap_others env j"
  shows "signal_attempts (env\<lparr>ap_others := others'\<rparr>) c i n k sv = signal_attempts env c i n k sv"
  using assms
proof (induction n arbitrary: k sv)
  case (Suc n)
  have "others' k = ap_others env k" using Suc.prems[of k] by simp
  moreover have "signal_attempts (env\<lparr>ap_others := others'\<rparr>) c i n (Suc k) sv1 = signal_attempts env c i n (Suc k) sv1" for sv1
    by (rule Suc.IH) (use Suc.prems in simp)
  ultimately show ?case
    by (simp add: cycle_ops_def split: option.split sum.split cong: option.case_cong sum.case_cong prod.case_cong if_cong)
qed simp

lemma attempts_end:
  assumes "signal_attempts env c i n k sv = Some (x, k', sv')"
  shows "k' \<le> k + n" "\<And>e. x = Inl e \<Longrightarrow> is_conflict e" "\<And>y. x = Inr (Some y) \<Longrightarrow> fst y = i"
proof -
  have "k' \<le> k + n \<and> (\<forall>e. x = Inl e \<longrightarrow> is_conflict e) \<and> (\<forall>y. x = Inr (Some y) \<longrightarrow> fst y = i)"
    using assms
  proof (induction n arbitrary: k sv)
    case (Suc n)
    have conflict: "is_conflict e" if "executeTransaction (cycle_ops env False (Some st) d new events) s = (s', Some e)" for st d new events s s' e
    proof -
      obtain rest where ops: "cycle_ops env False (Some st) d new events = UpdateInstance (st_instance new) # rest"
        "list_all (\<lambda>op. \<not> is_update op) rest"
        using computeStoreOps_tail computed_head[of "ap_num env" "ap_now env" False "Some st" new events] creation_ops
        unfolding cycle_ops_def by (metis (no_types, lifting) append_Cons list_all_append list.pred_mono_strong)
      show ?thesis
      proof (cases "updateInstance (st_instance new) s")
        case (Inr t)
        with run_returns[OF ops(2), of t] that ops(1) show ?thesis by simp
      qed (use that ops(1) in \<open>auto simp: updateInstance_def is_conflict_def Let_def split: if_splits\<close>)
    qed
    from Suc show ?case
      by (fastforce split: option.splits sum.splits prod.splits if_splits dest: conflict)
  qed auto
  then show "k' \<le> k + n" "\<And>e. x = Inl e \<Longrightarrow> is_conflict e" "\<And>y. x = Inr (Some y) \<Longrightarrow> fst y = i" by blast+
qed

lemma signal_all_local:
  assumes "\<And>j. k \<le> j \<Longrightarrow> j < k + 5 * length subs \<Longrightarrow> others' j = ap_others env j"
  shows "signal_all (env\<lparr>ap_others := others'\<rparr>) c subs k results sv = signal_all env c subs k results sv"
  using assms
proof (induction subs arbitrary: k results sv)
  case (Cons sub subs)
  have a: "signal_attempts (env\<lparr>ap_others := others'\<rparr>) c (es_instanceId sub) MAX_COMMIT_ATTEMPTS k sv =
      signal_attempts env c (es_instanceId sub) MAX_COMMIT_ATTEMPTS k sv"
    by (rule attempts_local) (use Cons.prems in \<open>simp add: MAX_COMMIT_ATTEMPTS_def\<close>)
  have "signal_all (env\<lparr>ap_others := others'\<rparr>) c subs k' rs sv1 = signal_all env c subs k' rs sv1"
    if "signal_attempts env c (es_instanceId sub) MAX_COMMIT_ATTEMPTS k sv = Some (x, k', sv1)" for x k' rs sv1
  proof (rule Cons.IH)
    fix j assume "k' \<le> j" "j < k' + 5 * length subs"
    moreover have "k' \<le> k + 5" using attempts_end(1)[OF that] by (simp add: MAX_COMMIT_ATTEMPTS_def)
    moreover have "k \<le> k'" using that
    proof -
      have "k \<le> k'" if "signal_attempts env c i n k sv = Some (x, k', sv1)" for i n k sv x k' sv1
        using that by (induction n arbitrary: k sv) (fastforce split: option.splits sum.splits prod.splits if_splits)+
      with that show ?thesis by blast
    qed
    ultimately show "others' j = ap_others env j" using Cons.prems[of j] by simp
  qed
  with a show ?case by (auto split: option.split sum.split)
qed simp

lemma signal_all_ends:
  assumes "signal_all env c subs k results sv = Some (r, sv')"
  shows "r = Refused 409 ''CONFLICT'' \<or> (\<exists>more_results. r = DeliveredReply (results @ more_results) \<and>
    subseq (map fst more_results) (map es_instanceId subs))"
  using assms
proof (induction subs arbitrary: k results sv)
  case (Cons sub subs)
  show ?case
  proof (cases "signal_attempts env c (es_instanceId sub) MAX_COMMIT_ATTEMPTS k sv")
    case (Some y)
    obtain x k' sv1 where y: "y = (x, k', sv1)" by (cases y)
    show ?thesis
    proof (cases x)
      case (Inl e)
      with Some y Cons.prems attempts_end(2)[OF Some[unfolded y]] show ?thesis
        by (auto simp: thrown_def is_conflict_def split: engine_error.splits)
    next
      case (Inr d)
      with Some y Cons.prems have "signal_all env c subs k' (results @ (case d of Some x \<Rightarrow> [x] | None \<Rightarrow> [])) sv1 = Some (r, sv')"
        by simp
      from Cons.IH[OF this] attempts_end(3)[OF Some[unfolded y]] Inr show ?thesis
        by (cases d) (auto intro: list_emb_Cons)
    qed
  qed (use Cons.prems in simp)
qed auto

text \<open>
  A signal is robust and bounded: a broadcast either delivers to some of its subscribers, each once
  and in order, or fails with the 409 of a subscriber that lost every race; an instance that cannot take
  the signal never fails it. Per subscriber at most five commits are tried: what other requests do after
  that many makes no difference.
\<close>

theorem signals_are_bounded:
  assumes "handle env p tenant (PostSignal (Fit b)) sv = Some (r, sv')"
    and "subs = findSubscriptions \<lparr>sq_type = Some SubSignal, sq_messageName = None, sq_signalName = Some (gb_signalName b),
               sq_correlationValue = None, sq_instanceId = None\<rparr> (sv_store sv)"
  shows "(r = Refused 409 ''CONFLICT'' \<or>
      (\<exists>results. r = DeliveredReply results \<and> subseq (map fst results) (map es_instanceId subs))) \<and>
    handle (env\<lparr>ap_others := (\<lambda>k. if k < 5 * length subs then ap_others env k else others)\<rparr>) p tenant (PostSignal (Fit b)) sv =
      Some (r, sv')"
  using signal_all_ends[of env _ subs 0 "[]" sv r sv']
    signal_all_local[of 0 subs "\<lambda>k. if k < 5 * length subs then ap_others env k else others" env _ "[]" sv] assms
  by (simp add: broadcast_signal_def)

section \<open>Tasks\<close>

lemma complete_success:
  assumes "complete_task env k (Fit b) sv = Some (r, sv')" "status_of r < 400"
  obtains t ops where "getUserTask k (sv_store sv) = Some t"
    "executeTransaction (ops @ [UpdateUserTask (done_task env t)]) (ap_others env 0 (sv_store sv)) = (sv_store sv', None)"
proof -
  obtain t where t: "getUserTask k (sv_store sv) = Some t" "ur_status t \<noteq> TaskCompleted" "ur_status t \<noteq> TaskCancelled"
    using assms by (auto simp: complete_task_def split: option.splits if_splits)
  with assms(1) have w: "with_instance (ur_instanceId t) (Refused 500 ''INTERNAL_ERROR'') (\<lambda>_. None)
      (\<lambda>st d. run_cycle env d (CompleteUserTask (ur_tokenId t) (cb_completedBy b) (map_option normalized (cb_outputVariables b)))
         (Some st) runtime_refusal (complete_plan env t st d) sv) sv = Some (r, sv')"
    by (simp add: complete_task_def)
  then obtain st d where "run_cycle env d (CompleteUserTask (ur_tokenId t) (cb_completedBy b) (map_option normalized (cb_outputVariables b)))
         (Some st) runtime_refusal (complete_plan env t st d) sv = Some (r, sv')"
    using assms(2) by (auto simp: with_instance_def split: option.splits)
  then obtain new evs where "commit env (cycle_ops env False (Some st) d new evs @ [UpdateUserTask (done_task env t)]) evs
      (TaskDoneReply (done_task env t) (st_instance new)) sv = (r, sv')"
    using assms(2) refusal_status(1)
    by (auto simp: run_cycle_def complete_plan_def not_le[symmetric] split: option.splits sum.splits prod.splits)
  then have "executeTransaction (cycle_ops env False (Some st) d new evs @ [UpdateUserTask (done_task env t)])
      (ap_others env 0 (sv_store sv)) = (sv_store sv', None)"
    using assms(2) by (auto simp: commit_def split: prod.splits option.splits)
  with t(1) that show thesis by blast
qed

text \<open>
  A task is completed once: after a completion succeeded, whatever other requests did at the same
  time, its record says so, and every later completion is refused and changes nothing.
\<close>

theorem tasks_are_completed_once:
  assumes "handle env p tenant (CompleteTask k (Fit b)) sv = Some (r, sv')" "status_of r < 400"
    and "getUserTask k (sv_store sv) = Some t" "ur_id t = k"
  shows "getUserTask k (sv_store sv') = Some (done_task env t) \<and>
    handle env' p' tenant (CompleteTask k body) sv' = Some (Refused 422 ''INVALID_STATE'', sv')"
proof -
  have "complete_task env k (Fit b) sv = Some (r, sv')" using assms(1) by simp
  from complete_success[OF this assms(2)] assms(3)
  obtain ops where ops: "executeTransaction (ops @ [UpdateUserTask (done_task env t)]) (ap_others env 0 (sv_store sv)) =
      (sv_store sv', None)" by auto
  then obtain s1 where "sv_store sv' = updateUserTask (done_task env t) s1"
    by (auto simp: run_append split: prod.splits option.splits intro!: that[OF sym])
  then have "getUserTask k (sv_store sv') = Some (done_task env t)"
    using assms(4) by (auto simp: updateUserTask_def getUserTask_def done_task_def jsmap_simps)
  then show ?thesis by (simp add: complete_task_def done_task_def)
qed

text \<open>
  Claiming has no guard: whatever the status of the task when the claim arrives (completed and
  cancelled included), and whatever another request did to it since, the claim succeeds and overwrites
  the record with what it read, as claimed. Of two people who claim at once both are told they have it.
\<close>

theorem claims_are_unguarded:
  assumes "getUserTask k (sv_store sv) = Some t" "ur_id t = k"
  shows "\<exists>sv'. handle env p tenant (ClaimTask k (Fit who)) sv =
      Some (TaskReply (t\<lparr>ur_status := TaskClaimed, ur_assignee := Some who, ur_claimedAt := Some (ap_now env)\<rparr>), sv') \<and>
    getUserTask k (sv_store sv') = Some (t\<lparr>ur_status := TaskClaimed, ur_assignee := Some who, ur_claimedAt := Some (ap_now env)\<rparr>)"
  using assms
  by (auto simp: claim_task_def commit_def Let_def updateUserTask_def getUserTask_def jsmap_simps split: prod.splits)

section \<open>Forced steps\<close>

lemma parse_force_reason:
  assumes "parse_force body = Some f"
  shows "fo_reason f \<noteq> []" "length (fo_reason f) \<le> MAX_REASON" "fo_tokenId f \<noteq> []"
  using assms by (auto simp: parse_force_def Let_def split: option.splits jsval.splits if_splits)

lemma force_cycle_success:
  assumes "force_cycle env p actor tenant f i t st d sv = Some (r, sv')" "status_of r < 400"
  shows "\<exists>before. sv_events sv' = sv_events sv @ before @ [marker_of f actor i t (forced_task f i (sv_store sv))]"
    "record_entry env (force_entry f p tenant i t (forced_task f i (sv_store sv))) sv = Some sv1 \<Longrightarrow> sv_audit sv' = sv_audit sv1"
    "record_entry env (force_entry f p tenant i t (forced_task f i (sv_store sv))) sv \<noteq> None"
proof -
  let ?task = "forced_task f i (sv_store sv)"
  let ?entry = "record_entry env (force_entry f p tenant i t ?task) sv"
  have refused: "\<not> status_of (runtime_refusal e) < 400" for e using refusal_status(1)[of e] by linarith
  obtain new events sv2 where e: "?entry = Some sv2"
    "commit env (force_ops env st d new events (marker_of f actor i t ?task) ?task) (events @ [marker_of f actor i t ?task])
       (Ran (st_instance new) (map event_type (events @ [marker_of f actor i t ?task]))) sv2 = (r, sv')"
    using assms refused by (auto simp: force_cycle_def Let_def split: option.splits sum.splits)
  then have "sv_events sv' = sv_events sv2 @ events @ [marker_of f actor i t ?task]" "sv_audit sv' = sv_audit sv2"
    using assms(2) by (auto simp: commit_def split: prod.splits option.splits)
  moreover have "sv_events sv2 = sv_events sv" using e(1) by (auto simp: record_entry_def split: option.splits bool.splits)
  ultimately show "\<exists>before. sv_events sv' = sv_events sv @ before @ [marker_of f actor i t ?task]"
    "?entry = Some sv1 \<Longrightarrow> sv_audit sv' = sv_audit sv1" "?entry \<noteq> None"
    using e(1) by auto
qed

text \<open>
  C35. A forced step is accounted for: when a force request succeeds, the caller was a signed-in person
  with a manager role in the tenant, who gave a reason of at most 500 characters that is not blank, for a
  token of the instance that was waiting in the way the action pushes; the last event published names the
  action, the person and the reason; and with an audit log the log has gained exactly one entry, of that
  person, for that tenant and that instance.
\<close>

theorem forced_steps_are_accountable:
  assumes "handle env p tenant (Force i b) sv = Some (r, sv')" "status_of r < 400"
  shows "\<exists>u ms f st t before behalf. p = Some (UserPrincipal u ms) \<and> canUseTenant (UserPrincipal u ms) tenant \<and>
    parse_force b = Some f \<and> fo_reason f \<noteq> [] \<and> length (fo_reason f) \<le> 500 \<and>
    loadEngineState i (sv_store sv) = Some st \<and> t \<in> set (st_tokens st) \<and> tk_id t = fo_tokenId f \<and>
    tk_status t = Waiting \<and> fits (fo_action f) t \<and>
    sv_events sv' = sv_events sv @ before @
      [StepForced i (tk_id t) (tk_elementId t) (fo_action f) (u_email u) (fo_reason f) behalf] \<and>
    (case ap_audit env of
       None \<Rightarrow> sv_audit sv' = sv_audit sv
     | Some written \<Rightarrow> written \<and> (\<exists>e. sv_audit sv' = sv_audit sv @ [e] \<and> au_action e = ''step.force'' \<and>
         au_actorId e = Some (u_id u) \<and> au_tenantIds e = [tenant] \<and> au_target e = clip (Some i)))"
proof -
  obtain u ms f st t d where c: "p = Some (UserPrincipal u ms)" "canUseTenant (UserPrincipal u ms) tenant"
    "parse_force b = Some f" "loadEngineState i (sv_store sv) = Some st"
    "List.find (\<lambda>t. tk_id t = fo_tokenId f) (st_tokens st) = Some t" "tk_status t = Waiting" "fits (fo_action f) t"
    "force_cycle env (UserPrincipal u ms) (u_email u) tenant f i t st d sv = Some (r, sv')"
    using assms by (auto simp: force_step_def not_found_def invalid_body_def split: option.splits principal.splits if_splits)
  have t: "t \<in> set (st_tokens st)" "tk_id t = fo_tokenId f" using c(5) by (auto simp: find_Some_iff)
  note s = force_cycle_success[OF c(8) assms(2)]
  let ?entry = "audit_row (ap_auditId env) (ap_now env) (force_entry f (UserPrincipal u ms) tenant i t (forced_task f i (sv_store sv)))"
  have entry: "au_action ?entry = ''step.force''" "au_actorId ?entry = Some (u_id u)" "au_tenantIds ?entry = [tenant]"
    "au_target ?entry = clip (Some i)"
    by (simp_all add: audit_row_def force_entry_def audit_entry_for_def set_from_def set_add_def)
  have "case ap_audit env of
       None \<Rightarrow> sv_audit sv' = sv_audit sv
     | Some written \<Rightarrow> written \<and> sv_audit sv' = sv_audit sv @ [?entry]"
    using s(2,3) by (auto simp: record_entry_def split: option.splits bool.splits)
  with entry have "case ap_audit env of
       None \<Rightarrow> sv_audit sv' = sv_audit sv
     | Some written \<Rightarrow> written \<and> (\<exists>e. sv_audit sv' = sv_audit sv @ [e] \<and> au_action e = ''step.force'' \<and>
         au_actorId e = Some (u_id u) \<and> au_tenantIds e = [tenant] \<and> au_target e = clip (Some i))"
    by (cases "ap_audit env") auto
  with c t s(1) parse_force_reason[OF c(3)] show ?thesis
    unfolding marker_of_def MAX_REASON_def by (metis (no_types, lifting))
qed

section \<open>Samples\<close>

text \<open>The started review with its task, its definition, and an environment in which nobody interferes.\<close>

definition review_task :: user_task_record where
  "review_task = \<lparr>ur_id = ''k'', ur_instanceId = ''x'', ur_tokenId = ''xxxx'', ur_elementId = ''u'', ur_name = ''u'',
     ur_description = None, ur_assignee = None, ur_candidateGroups = None, ur_dueDate = None, ur_priority = 50,
     ur_inputVariables = [], ur_formKey = None, ur_status = TaskOpen, ur_createdAt = 0, ur_claimedAt = None,
     ur_completedAt = None\<rparr>"

definition review_server :: server where
  "review_server = \<lparr>sv_store = createUserTask review_task (saveDefinition review review_store), sv_events = [], sv_audit = []\<rparr>"

definition quiet :: api_env where
  "quiet = \<lparr>ap_opts = counting_from ''y'', ap_num = (\<lambda>_. []), ap_parse_date = (\<lambda>_. 0), ap_uuid = (\<lambda>_. ''new''),
     ap_clock = int, ap_now = 9, ap_others = (\<lambda>_ s. s), ap_auditId = ''a'', ap_audit = Some True\<rparr>"

text \<open>Somebody else has raised the version of the review.\<close>

definition raised :: "store \<Rightarrow> store" where
  "raised s = s\<lparr>so_instances := [(''x'', (st_instance review_loaded)\<lparr>pi_version := Some 2\<rparr>)]\<rparr>"

lemma review_server_loads:
  "loadEngineState ''x'' (sv_store review_server) = Some review_loaded" "keyed_joins (sv_store review_server)"
  "definition_of review_loaded (sv_store review_server) = Some review"
  "getUserTask ''k'' (sv_store review_server) = Some review_task" "ur_id review_task = ''k''"
proof -
  have "loadEngineState ''x'' (sv_store review_server) = loadEngineState ''x'' review_store"
    "keyed_joins (sv_store review_server) = keyed_joins review_store"
    by (rule load_frame; simp add: review_server_def createUserTask_def saveDefinition_def)+
  then show "loadEngineState ''x'' (sv_store review_server) = Some review_loaded" "keyed_joins (sv_store review_server)"
    using review_store_loads by simp_all
qed (simp_all add: review_server_def definition_of_def getDefinition_def saveDefinition_def createUserTask_def review_store_def
    review_loaded_def review_started_def review_def process_of_def getUserTask_def review_task_def empty_store_def)

lemma quiet_ok [simp]: "ap_opts quiet = counting_from ''y''" "ap_others quiet k s = s" "ap_audit quiet = Some True"
  by (simp_all add: quiet_def)

lemma review_active: "pi_status (st_instance review_loaded) = ActiveI"
  by (simp add: review_loaded_def review_started_def)

text \<open>On the sample store the commit of a command succeeds.\<close>

lemma review_commits:
  assumes "execute review c (Some review_loaded) (counting_from ''y'') = Some (Inr (new, evs))"
    and "call_ok (counting_from ''y'') c (Some review_loaded)" "side_ops xs"
  obtains t where "commit quiet (computeStoreOps num stamp False (Some review_loaded) new es @ xs) published reply
      (review_server\<lparr>sv_audit := entries\<rparr>) =
    (reply, review_server\<lparr>sv_audit := entries, sv_store := t, sv_events := sv_events review_server @ published\<rparr>)"
proof -
  obtain t1 where "executeTransaction (computeStoreOps num stamp False (Some review_loaded) new es) (sv_store review_server) = (t1, None)"
    using commit_reloads[OF review_server_loads(1,2) review_loaded_ok(1-3) assms(1,2)] by metis
  moreover obtain t where "executeTransaction xs t1 = (t, None)"
    using run_returns[of xs t1] assms(3) by (auto simp: side_ops_def list_all_iff)
  ultimately show thesis using that by (simp add: commit_def run_append)
qed


lemma suspend_handled:
  "handle env p tenant (Suspend ''x'') review_server =
     run_cycle env review SuspendInstance (Some review_loaded) runtime_refusal (plain_plan env review_loaded review instance_reply)
       review_server"
  using review_server_loads(1,3) review_active by (simp add: suspend_instance_def with_instance_def status_guard_def)



text \<open>A subscription of an instance that is gone.\<close>

definition gone_server :: server where
  "gone_server = review_server\<lparr>sv_store := saveSubscription \<lparr>es_id = ''sub-z'', es_instanceId = ''gone'', es_tokenId = ''z'', es_type = SubSignal,
     es_messageName = None, es_signalName = Some ''go'', es_correlationValue = None, es_errorCode = None, es_timerId = None,
     es_status = SubActive, es_createdAt = 0\<rparr> (sv_store review_server)\<rparr>"

theorem signals_are_bounded_witness:
  "handle (quiet\<lparr>ap_others := (\<lambda>k. if k < 5 then (\<lambda>s. s) else raised)\<rparr>) None ''t''
     (PostSignal (Fit \<lparr>gb_signalName = ''go'', gb_variables = None\<rparr>)) gone_server = Some (DeliveredReply [], gone_server)"
proof -
  let ?b = "\<lparr>gb_signalName = ''go'', gb_variables = None\<rparr>"
  let ?subs = "findSubscriptions \<lparr>sq_type = Some SubSignal, sq_messageName = None, sq_signalName = Some (gb_signalName ?b),
               sq_correlationValue = None, sq_instanceId = None\<rparr> (sv_store gone_server)"
  have n: "length ?subs = 1" "map es_instanceId ?subs = [''gone'']"
    by (simp_all add: gone_server_def review_server_def findSubscriptions_def saveSubscription_def createUserTask_def
        saveDefinition_def review_store_def empty_store_def asks_def map_values_def)
  have "loadEngineState ''gone'' (sv_store gone_server) = None"
    by (simp add: loadEngineState_def getInstance_def gone_server_def review_server_def saveSubscription_def createUserTask_def
        saveDefinition_def review_store_def)
  with n(2) have "handle quiet None ''t'' (PostSignal (Fit ?b)) gone_server = Some (DeliveredReply [], gone_server)"
    by (auto simp: broadcast_signal_def MAX_COMMIT_ATTEMPTS_def numeral_eq_Suc)
  from signals_are_bounded[OF this refl, of raised] n(1) show ?thesis
    by (simp add: quiet_def if_distrib cong: if_cong)
qed

theorem tasks_are_completed_once_witness:
  "\<exists>sv'. getUserTask ''k'' (sv_store sv') = Some (done_task quiet review_task) \<and>
     handle quiet None ''t'' (CompleteTask ''k'' NotJson) sv' = Some (Refused 422 ''INVALID_STATE'', sv')"
proof -
  let ?b = "\<lparr>cb_completedBy = ''bob'', cb_outputVariables = None\<rparr>"
  let ?done = "done_task quiet review_task"
  obtain new evs where e: "execute review (CompleteUserTask ''xxxx'' ''bob'' None) (Some review_loaded) (counting_from ''y'')
       = Some (Inr (new, evs))" using review_loaded_completes_ok by blast
  have side: "side_ops (buildUserTaskCreationOps num f uuid clock events d st @ [UpdateUserTask t])" for num f uuid clock events d st t
    using creation_ops by (simp add: side_ops_def)
  obtain t where "commit quiet (computeStoreOps (ap_num quiet) (ap_now quiet) False (Some review_loaded) new evs @
        buildUserTaskCreationOps (ap_num quiet) (ap_parse_date quiet) (ap_uuid quiet) (ap_clock quiet) evs review new @ [UpdateUserTask ?done])
      evs (TaskDoneReply ?done (st_instance new)) (review_server\<lparr>sv_audit := sv_audit review_server\<rparr>) =
    (TaskDoneReply ?done (st_instance new),
     review_server\<lparr>sv_audit := sv_audit review_server, sv_store := t, sv_events := sv_events review_server @ evs\<rparr>)"
    by (rule review_commits[OF e review_loaded_ok(4) side])
  then obtain sv' where h: "handle quiet None ''t'' (CompleteTask ''k'' (Fit ?b)) review_server =
      Some (TaskDoneReply ?done (st_instance new), sv')"
    using e review_server_loads
    by (auto simp: complete_task_def with_instance_def run_cycle_def complete_plan_def cycle_ops_def review_task_def)
  from tasks_are_completed_once[OF h _ review_server_loads(4,5)] show ?thesis by auto
qed

text \<open>A task that was cancelled, claimed by Ann.\<close>

theorem claims_are_unguarded_witness:
  "\<exists>r sv' t. handle quiet None ''t'' (ClaimTask ''k'' (Fit ''ann''))
       (review_server\<lparr>sv_store := createUserTask (review_task\<lparr>ur_status := TaskCancelled\<rparr>) empty_store\<rparr>) = Some (r, sv') \<and>
     getUserTask ''k'' (sv_store sv') = Some t \<and> ur_status t = TaskClaimed"
proof -
  let ?t = "review_task\<lparr>ur_status := TaskCancelled\<rparr>"
  have "getUserTask ''k'' (sv_store (review_server\<lparr>sv_store := createUserTask ?t empty_store\<rparr>)) = Some ?t" "ur_id ?t = ''k''"
    by (simp_all add: getUserTask_def createUserTask_def review_task_def empty_store_def)
  from claims_are_unguarded[OF this, of quiet None "''t''" "''ann''"] show ?thesis by auto
qed

definition force_body :: jsval where
  "force_body = JObject [(''action'', JString ''completeUserTask''), (''tokenId'', JString ''xxxx''), (''reason'', JString '' stuck '')]"

lemma force_body_parses:
  "parse_force (Some force_body) = Some \<lparr>fo_action = ForceCompleteUserTask, fo_tokenId = ''xxxx'', fo_reason = ''stuck'',
     fo_output = None, fo_error = None\<rparr>"
  by (simp add: parse_force_def force_body_def member_def ACTIONS_def js_trim_def js_space_def MAX_REASON_def)

theorem forced_steps_are_accountable_witness:
  "\<exists>r sv' before behalf. handle quiet (Some manager_m) ''acme'' (Force ''x'' (Some force_body)) review_server = Some (r, sv') \<and>
     sv_events sv' = before @ [StepForced ''x'' ''xxxx'' ''u'' ForceCompleteUserTask ''m@x'' ''stuck'' behalf] \<and>
     length (sv_audit sv') = 1"
proof -
  let ?u = "user_of (person_row ''m'' ''m@x'')" and ?ms = "[role_row ''2'' ''m'' TenantManager (Some ''acme'')]"
  let ?f = "\<lparr>fo_action = ForceCompleteUserTask, fo_tokenId = ''xxxx'', fo_reason = ''stuck'', fo_output = None, fo_error = None\<rparr>"
  let ?t = "token_of ''xxxx'' ''u'' UserTaskT Waiting (Some ''f1'')"
  have "case execute review (CompleteUserTask ''xxxx'' ''m@x'' None) (Some review_loaded) (counting_from ''y'') of
      Some (Inr (s, evs)) \<Rightarrow> True | _ \<Rightarrow> False"
    by (simp add: engine_eval review_loaded_def review_started_def token_of_def sample_eval)
  then obtain new evs where e: "execute review (CompleteUserTask ''xxxx'' ''m@x'' None) (Some review_loaded) (counting_from ''y'')
       = Some (Inr (new, evs))" by (auto split: option.splits sum.splits)
  have c: "call_ok (counting_from ''y'') (CompleteUserTask ''xxxx'' ''m@x'' None) (Some review_loaded)"
    using review_loaded_ok(4) by simp
  have u: "u_email ?u = ''m@x''" by (simp add: user_of_def person_row_def)
  let ?task = "forced_task ?f ''x'' (sv_store review_server)"
  let ?m = "marker_of ?f ''m@x'' ''x'' ?t ?task"
  let ?side = "buildUserTaskCreationOps (ap_num quiet) (ap_parse_date quiet) (ap_uuid quiet) (ap_clock quiet) evs review new @
      (case ?task of Some t \<Rightarrow> [UpdateUserTask (done_task quiet t)] | None \<Rightarrow> [])"
  let ?entry = "audit_row (ap_auditId quiet) (ap_now quiet) (force_entry ?f (UserPrincipal ?u ?ms) ''acme'' ''x'' ?t ?task)"
  let ?reply = "Ran (st_instance new) (map event_type (evs @ [?m]))"
  have side: "side_ops ?side" using creation_ops by (auto simp: side_ops_def split: option.splits)
  obtain t where "commit quiet (computeStoreOps (ap_num quiet) (ap_now quiet) False (Some review_loaded) new (evs @ [?m]) @ ?side)
      (evs @ [?m]) ?reply (review_server\<lparr>sv_audit := [?entry]\<rparr>) =
    (?reply, review_server\<lparr>sv_audit := [?entry], sv_store := t, sv_events := sv_events review_server @ evs @ [?m]\<rparr>)"
    by (rule review_commits[OF e c side])
  moreover have "force_command ?f ''m@x'' = CompleteUserTask ''xxxx'' ''m@x'' None" by (simp add: force_command_def)
  ultimately have "force_cycle quiet (UserPrincipal ?u ?ms) ''m@x'' ''acme'' ?f ''x'' ?t review_loaded review review_server =
      Some (?reply, review_server\<lparr>sv_audit := [?entry], sv_store := t, sv_events := sv_events review_server @ evs @ [?m]\<rparr>)"
    using e by (simp add: force_cycle_def force_ops_def record_entry_def Let_def review_server_def)
  moreover have "List.find (\<lambda>t. tk_id t = ''xxxx'') (st_tokens review_loaded) = Some ?t"
    "tk_status ?t = Waiting" "fits ForceCompleteUserTask ?t"
    by (simp_all add: review_loaded_def review_started_def token_of_def waits_as_def)
  ultimately obtain sv' where h: "handle quiet (Some manager_m) ''acme'' (Force ''x'' (Some force_body)) review_server =
      Some (?reply, sv')"
    using review_server_loads(1,3) u
    by (simp add: force_step_def force_body_parses manager_m_def role_row_def)
  from forced_steps_are_accountable[OF h] obtain f st t before behalf where r: "parse_force (Some force_body) = Some f"
    "loadEngineState ''x'' (sv_store review_server) = Some st" "t \<in> set (st_tokens st)" "tk_id t = fo_tokenId f"
    "sv_events sv' = sv_events review_server @ before @
       [StepForced ''x'' (tk_id t) (tk_elementId t) (fo_action f) (u_email ?u) (fo_reason f) behalf]"
    "length (sv_audit sv') = Suc (length (sv_audit review_server))"
    by (auto simp: manager_m_def)
  have f: "f = ?f" "st = review_loaded" using r(1,2) review_server_loads(1) by (simp_all add: force_body_parses)
  have "sv_events review_server = []" "sv_audit review_server = []" by (simp_all add: review_server_def)
  moreover have "t = ?t" using r(3,4) f by (auto simp: review_loaded_def review_started_def token_of_def)
  ultimately have "sv_events sv' = before @ [StepForced ''x'' ''xxxx'' ''u'' ForceCompleteUserTask ''m@x'' ''stuck'' behalf]"
    "length (sv_audit sv') = 1"
    using r(5,6) f u by (simp_all add: token_of_def)
  with h show ?thesis by blast
qed

end
