(* ===== verification/Background_Actors.thy ===== *)
theory Background_Actors
  imports Http_Api
begin

text \<open>
  The actors that run beside the requests: \<open>worker/TaskWorker.ts\<close>, which executes service tasks with
  retries, and \<open>scheduler/TimerCoordinator.ts\<close> with \<open>parseTimerExpression.ts\<close>. Both load the instance,
  run one engine command and commit, and load again when the commit lost a race; what others do to the
  store before the \<open>k\<close>-th commit of a run is \<open>ap_others env k\<close>, as for requests. Their private
  \<open>loadEngineState\<close> is the one of \<open>engineHelpers.ts\<close>. A handler's answer is an argument; the parse of a
  date and the decimal notation of numbers are parameters. A run may not return, or throw.
\<close>

section \<open>Timer expressions\<close>

text \<open>
  An optional group \<open>(?:(\d+)U)?\<close> at the start of a text: the number, 0 if the group is absent, and the
  rest. As no two groups of the expression share a unit, skipping a group that is there never helps.
\<close>

definition part :: "char \<Rightarrow> string \<Rightarrow> nat \<times> string" where
  "part u s =
     (let ds = takeWhile digit s; rest = dropWhile digit s
      in if ds \<noteq> [] \<and> rest \<noteq> [] \<and> hd rest = u then (number_of ds, tl rest) else (0, s))"

text \<open>\<open>(?:(\d+(?:\.\d+)?)S)?\<close>, in seconds.\<close>

definition seconds_part :: "string \<Rightarrow> rat \<times> string" where
  "seconds_part s =
     (let ds = takeWhile digit s; rest = dropWhile digit s;
          fs = takeWhile digit (tl rest); rest' = dropWhile digit (tl rest)
      in if ds \<noteq> [] \<and> rest \<noteq> [] \<and> hd rest = CHR ''S'' then (of_nat (number_of ds), tl rest)
         else if ds \<noteq> [] \<and> rest \<noteq> [] \<and> hd rest = CHR ''.'' \<and> fs \<noteq> [] \<and> rest' \<noteq> [] \<and> hd rest' = CHR ''S''
         then (of_nat (number_of ds) + of_nat (number_of fs) / 10 ^ length fs, tl rest')
         else (0, s))"

record duration =
  du_years :: nat
  du_months :: nat
  du_weeks :: nat
  du_days :: nat
  du_hours :: nat
  du_minutes :: nat
  du_seconds :: rat

definition time_parts :: "string \<Rightarrow> (nat \<times> nat \<times> rat) option" where
  "time_parts s =
     (if s = [] then Some (0, 0, 0)
      else if hd s \<noteq> CHR ''T'' then None
      else (let (h, s1) = part (CHR ''H'') (tl s); (m, s2) = part (CHR ''M'') s1; (sec, s3) = seconds_part s2
            in if s3 = [] then Some (h, m, sec) else None))"

definition parse_duration :: "string \<Rightarrow> duration option" where
  "parse_duration s =
     (if s = [] \<or> hd s \<noteq> CHR ''P'' then None
      else (let (y, s1) = part (CHR ''Y'') (tl s); (mo, s2) = part (CHR ''M'') s1; (w, s3) = part (CHR ''W'') s2;
                (d, s4) = part (CHR ''D'') s3
            in case time_parts s4 of
                 None \<Rightarrow> None
               | Some (h, m, sec) \<Rightarrow>
                   Some \<lparr>du_years = y, du_months = mo, du_weeks = w, du_days = d, du_hours = h, du_minutes = m, du_seconds = sec\<rparr>))"

text \<open>The exact value of \<open>deltaMs\<close>; the rounding of the floating point sum is not modelled.\<close>

definition delta_ms :: "duration \<Rightarrow> rat" where
  "delta_ms d = of_nat (du_years d) * (36525 / 100) * 24 * 3600 * 1000 + of_nat (du_months d) * (3044 / 100) * 24 * 3600 * 1000 +
     of_nat (du_weeks d) * 7 * 24 * 3600 * 1000 + of_nat (du_days d) * 24 * 3600 * 1000 + of_nat (du_hours d) * 3600 * 1000 +
     of_nat (du_minutes d) * 60 * 1000 + du_seconds d * 1000"

text \<open>\<open>new Date(x)\<close> drops the fraction of a millisecond, towards zero.\<close>

definition time_clip :: "rat \<Rightarrow> int" where
  "time_clip x = (if 0 \<le> x then \<lfloor>x\<rfloor> else \<lceil>x\<rceil>)"

text \<open>\<open>parse_date\<close> is \<open>new Date\<close> on a text, nothing if the date is invalid; no result is the thrown error.\<close>

definition parseTimerExpression :: "(string \<Rightarrow> int option) \<Rightarrow> string \<Rightarrow> int \<Rightarrow> int option" where
  "parseTimerExpression parse_date text_in n =
     (let trimmed = js_trim text_in;
          date = (if 4 \<le> length trimmed \<and> list_all digit (take 4 trimmed) then parse_date trimmed else None)
      in if date \<noteq> None then date
         else map_option (\<lambda>d. time_clip (of_int n + delta_ms d)) (parse_duration trimmed))"

section \<open>Committing a cycle\<close>

text \<open>\<open>buildStoreOps\<close>, the same text in both files.\<close>

definition buildStoreOps :: "(rat \<Rightarrow> string) \<Rightarrow> engine_state \<Rightarrow> engine_state \<Rightarrow> execution_event list \<Rightarrow> store_operation list" where
  "buildStoreOps num old new events =
     [UpdateInstance (st_instance new), SaveTokens (st_tokens new)] @ map SaveScope (st_scopes new) @
     joinOps (Some old) new @ historyOps num (Some old) new events"

section \<open>Timers\<close>

text \<open>A run ends with the error it threw, if any. \<open>n\<close> attempts are left, \<open>k\<close> commits were tried.\<close>

fun fire_attempts ::
  "api_env \<Rightarrow> scheduled_timer \<Rightarrow> nat \<Rightarrow> nat \<Rightarrow> server \<Rightarrow> (engine_error option \<times> server) option" where
  "fire_attempts env t 0 k sv = Some (None, sv)"
| "fire_attempts env t (Suc n) k sv =
     (case loadEngineState (tm_instanceId t) (sv_store sv) of
        None \<Rightarrow> Some (None, sv)
      | Some st \<Rightarrow>
          if \<not> list_ex (\<lambda>x. tk_id x = tm_tokenId t \<and> tk_status x = Waiting) (st_tokens st) then Some (None, sv)
          else
            (case definition_of st (sv_store sv) of
               None \<Rightarrow> Some (None, sv)
             | Some d \<Rightarrow>
                 (case execute d (FireTimer (tm_tokenId t)) (Some st) (ap_opts env) of
                    None \<Rightarrow> None
                  | Some (Inl e) \<Rightarrow> Some (case e of RuntimeError f \<Rightarrow> None | _ \<Rightarrow> Some e, sv)
                  | Some (Inr (new, events)) \<Rightarrow>
                      (case executeTransaction (buildStoreOps (ap_num env) st new events) (ap_others env k (sv_store sv)) of
                         (s', None) \<Rightarrow>
                           Some (None, sv\<lparr>sv_store := s', sv_events := sv_events sv @
                             TimerFired (tm_instanceId t) (tm_tokenId t) (tm_id t) # events\<rparr>)
                       | (s', Some e) \<Rightarrow>
                           if is_conflict e \<and> 0 < n then fire_attempts env t n (Suc k) (sv\<lparr>sv_store := s'\<rparr>)
                           else Some (Some e, sv\<lparr>sv_store := s'\<rparr>)))))"

definition onTimerFired :: "api_env \<Rightarrow> scheduled_timer \<Rightarrow> server \<Rightarrow> (engine_error option \<times> server) option" where
  "onTimerFired env t sv = fire_attempts env t MAX_COMMIT_ATTEMPTS 0 sv"

text \<open>The expression of a catching or boundary event; only top-level elements are searched.\<close>

fun timer_expression :: "flow_element \<Rightarrow> string option" where
  "timer_expression (IntermediateCatchEvent b ed) = ed_timerExpression ed"
| "timer_expression (BoundaryEvent b host c ed) = ed_timerExpression ed"
| "timer_expression _ = None"

text \<open>What \<open>onTokenWaiting\<close> schedules, if anything; both readings of the clock are arguments.\<close>

definition onTokenWaiting ::
  "(string \<Rightarrow> int option) \<Rightarrow> int \<Rightarrow> int \<Rightarrow> string \<Rightarrow> string \<Rightarrow> string \<Rightarrow> store \<Rightarrow> scheduled_timer option" where
  "onTokenWaiting parse_date n1 n2 instanceId tokenId elementId s =
     (case getInstance instanceId s of
        None \<Rightarrow> None
      | Some i \<Rightarrow>
          (case getDefinition (pi_definitionId i) (Some (pi_definitionVersion i)) s of
             None \<Rightarrow> None
           | Some d \<Rightarrow>
               (case List.find (\<lambda>e. el_id e = elementId) (pd_elements d) of
                  None \<Rightarrow> None
                | Some e \<Rightarrow>
                    if \<not> truthy (timer_expression e) then None
                    else map_option (\<lambda>fireAt. \<lparr>tm_id = tokenId, tm_instanceId = instanceId, tm_tokenId = tokenId,
                           tm_fireAt = fireAt, tm_createdAt = n2\<rparr>)
                         (parseTimerExpression parse_date (the (timer_expression e)) n1))))"

text \<open>What the three subscriptions make of an event: nothing, a cancelled timer, or a step that may be scheduled.\<close>

datatype timer_reaction = Ignore | CancelTimer string | Consider string string string

fun reaction_to :: "execution_event \<Rightarrow> timer_reaction" where
  "reaction_to (TokenWaiting i t el w) = (if wc_type w = WaitTimer then Consider i t el else Ignore)"
| "reaction_to (TokenCancelled i t el) = CancelTimer t"
| "reaction_to (StepForced i t el a who why behalf) = (if a = ForceFireTimer then CancelTimer t else Ignore)"
| "reaction_to e = Ignore"

definition on_event ::
  "(string \<Rightarrow> int option) \<Rightarrow> int \<Rightarrow> int \<Rightarrow> store \<Rightarrow> execution_event \<Rightarrow> (string \<times> scheduled_timer) list \<Rightarrow> (string \<times> scheduled_timer) list" where
  "on_event parse_date n1 n2 s e timers =
     (case reaction_to e of
        Ignore \<Rightarrow> timers
      | CancelTimer t \<Rightarrow> AList.delete t timers
      | Consider i t el \<Rightarrow>
          (case onTokenWaiting parse_date n1 n2 i t el s of
             None \<Rightarrow> timers
           | Some timer \<Rightarrow> AList.update (tm_id timer) timer timers))"

section \<open>Service tasks\<close>

record task_context =
  tx_instanceId :: string
  tx_tokenId :: string
  tx_elementId :: string
  tx_taskType :: string
  tx_attempt :: nat
  tx_variables :: variables

text \<open>What a handler answers, or that it threw, with the message.\<close>

datatype task_answer =
    AnswerCompleted "variables option"
  | AnswerError "(string \<times> string) option"
  | AnswerRetry "(string \<times> string) option" "rat option"
  | AnswerThrew string

type_synonym handler = "task_context \<Rightarrow> task_answer"

text \<open>
  A worker: its options, its handlers, the attempt of each token, the keys in flight and the retries that
  \<open>setTimeout\<close> holds, each with its delay. The key of an attempt is a text in the source; the pair of the
  token and the number is the same key.
\<close>

record pending_retry =
  py_delay :: rat
  py_instanceId :: string
  py_tokenId :: string
  py_elementId :: string
  py_taskType :: string
  py_attempt :: nat

record worker =
  wk_maxAttempts :: nat
  wk_baseRetryDelayMs :: rat
  wk_handlers :: "(string \<times> handler) list"
  wk_attemptByToken :: "(string \<times> nat) list"
  wk_inflightKeys :: "(string \<times> nat) list"
  wk_retries :: "pending_retry list"

definition new_worker :: "nat option \<Rightarrow> rat option \<Rightarrow> worker" where
  "new_worker maxAttempts baseRetryDelayMs =
     \<lparr>wk_maxAttempts = (case maxAttempts of Some n \<Rightarrow> n | None \<Rightarrow> 3),
      wk_baseRetryDelayMs = (case baseRetryDelayMs of Some x \<Rightarrow> x | None \<Rightarrow> 1000),
      wk_handlers = [], wk_attemptByToken = [], wk_inflightKeys = [], wk_retries = []\<rparr>"

definition register :: "string \<Rightarrow> handler \<Rightarrow> worker \<Rightarrow> worker" where
  "register taskType h w = w\<lparr>wk_handlers := AList.update taskType h (wk_handlers w)\<rparr>"

definition mergeScopes :: "variable_scope list \<Rightarrow> variables" where
  "mergeScopes chain = fold (\<lambda>x merged. assign merged (vs_variables x)) (rev chain) []"

definition backoffDelay :: "worker \<Rightarrow> nat \<Rightarrow> rat" where
  "backoffDelay w attempt = wk_baseRetryDelayMs w * 2 ^ (attempt - 1)"

text \<open>\<open>runCommand\<close>: the first state is the one loaded before the handler ran.\<close>

fun command_attempts ::
  "api_env \<Rightarrow> string \<Rightarrow> engine_command \<Rightarrow> nat \<Rightarrow> nat \<Rightarrow> engine_state \<Rightarrow> server \<Rightarrow> (engine_error option \<times> server) option" where
  "command_attempts env i c 0 k st sv = Some (None, sv)"
| "command_attempts env i c (Suc n) k st sv =
     (case definition_of st (sv_store sv) of
        None \<Rightarrow> Some (None, sv)
      | Some d \<Rightarrow>
          (case execute d c (Some st) (ap_opts env) of
             None \<Rightarrow> None
           | Some (Inl e) \<Rightarrow> Some (case e of RuntimeError f \<Rightarrow> None | _ \<Rightarrow> Some e, sv)
           | Some (Inr (new, events)) \<Rightarrow>
               (case executeTransaction (buildStoreOps (ap_num env) st new events) (ap_others env k (sv_store sv)) of
                  (s', None) \<Rightarrow> Some (None, sv\<lparr>sv_store := s', sv_events := sv_events sv @ events\<rparr>)
                | (s', Some e) \<Rightarrow>
                    if \<not> is_conflict e \<or> n = 0 then Some (Some e, sv\<lparr>sv_store := s'\<rparr>)
                    else
                      (case loadEngineState i s' of
                         None \<Rightarrow> Some (None, sv\<lparr>sv_store := s'\<rparr>)
                       | Some fresh \<Rightarrow> command_attempts env i c n (Suc k) fresh (sv\<lparr>sv_store := s'\<rparr>)))))"

definition runCommand ::
  "api_env \<Rightarrow> string \<Rightarrow> engine_state \<Rightarrow> engine_command \<Rightarrow> server \<Rightarrow> (engine_error option \<times> server) option" where
  "runCommand env i st c sv = command_attempts env i c MAX_COMMIT_ATTEMPTS 0 st sv"

text \<open>
  \<open>complete\<close> and \<open>fail\<close>, and the clean-up after them: the attempt is forgotten only when the command did
  not throw. A token's run ends with the error thrown, if any.
\<close>

definition settle_task ::
  "api_env \<Rightarrow> string \<Rightarrow> string \<Rightarrow> engine_state \<Rightarrow> engine_command \<Rightarrow> worker \<Rightarrow> server \<Rightarrow>
     (engine_error option \<times> worker \<times> server) option" where
  "settle_task env i tokenId st c w sv =
     (case runCommand env i st c sv of
        None \<Rightarrow> None
      | Some (Some e, sv') \<Rightarrow> Some (Some e, w, sv')
      | Some (None, sv') \<Rightarrow> Some (None, w\<lparr>wk_attemptByToken := AList.delete tokenId (wk_attemptByToken w)\<rparr>, sv'))"

definition decimal_text :: "(rat \<Rightarrow> string) \<Rightarrow> nat \<Rightarrow> string" where
  "decimal_text num n = num (of_nat n)"

definition max_retries_error :: "api_env \<Rightarrow> worker \<Rightarrow> string \<times> string" where
  "max_retries_error env w = (''MAX_RETRIES'', ''Max attempts ('' @ decimal_text (ap_num env) (wk_maxAttempts w) @ '') reached'')"

definition or_error :: "'a option \<Rightarrow> 'a \<Rightarrow> 'a" where
  "or_error e d = (case e of Some x \<Rightarrow> x | None \<Rightarrow> d)"

definition fail_command :: "string \<Rightarrow> string \<times> string \<Rightarrow> engine_command" where
  "fail_command tokenId e = FailServiceTask tokenId (fst e) (snd e)"

definition run_answer ::
  "api_env \<Rightarrow> task_context \<Rightarrow> task_answer \<Rightarrow> engine_state \<Rightarrow> worker \<Rightarrow> server \<Rightarrow> (engine_error option \<times> worker \<times> server) option" where
  "run_answer env x answer st w sv =
     (let i = tx_instanceId x; t = tx_tokenId x in
      case answer of
        AnswerThrew message \<Rightarrow> settle_task env i t st (fail_command t (''HANDLER_EXCEPTION'', message)) w sv
      | AnswerCompleted output \<Rightarrow> settle_task env i t st (CompleteServiceTask t output) w sv
      | AnswerError e \<Rightarrow>
          settle_task env i t st (fail_command t (or_error e (''HANDLER_ERROR'', ''Handler returned error status''))) w sv
      | AnswerRetry e retryDelay \<Rightarrow>
          let nextAttempt = tx_attempt x + 1 in
          if wk_maxAttempts w < nextAttempt
          then settle_task env i t st (fail_command t (or_error e (max_retries_error env w))) w sv
          else Some (None, w\<lparr>wk_attemptByToken := AList.update t nextAttempt (wk_attemptByToken w),
                 wk_retries := wk_retries w @ [\<lparr>py_delay = or_error retryDelay (backoffDelay w (tx_attempt x)),
                   py_instanceId = i, py_tokenId = t, py_elementId = tx_elementId x, py_taskType = tx_taskType x,
                   py_attempt = nextAttempt\<rparr>]\<rparr>, sv))"

definition runAttempt ::
  "api_env \<Rightarrow> string \<Rightarrow> string \<Rightarrow> string \<Rightarrow> string \<Rightarrow> nat \<Rightarrow> worker \<Rightarrow> server \<Rightarrow> (engine_error option \<times> worker \<times> server) option" where
  "runAttempt env i tokenId elementId taskType attempt w sv =
     (case loadEngineState i (sv_store sv) of
        None \<Rightarrow> Some (None, w, sv)
      | Some st \<Rightarrow>
          (case List.find (\<lambda>t. tk_id t = tokenId \<and> tk_status t = Waiting) (st_tokens st) of
             None \<Rightarrow> Some (None, w, sv)
           | Some t \<Rightarrow>
               (case map_of (wk_handlers w) taskType of
                  None \<Rightarrow>
                    settle_task env i tokenId st (fail_command tokenId (''HANDLER_NOT_FOUND'',
                      ''No handler registered for task type '' @ CHR 0x27 # taskType @ [CHR 0x27])) w sv
                | Some handler \<Rightarrow>
                    (case getScopeChain (tk_scopeId t) (sv_store sv) of
                       None \<Rightarrow> None
                     | Some chain \<Rightarrow>
                         let x = \<lparr>tx_instanceId = i, tx_tokenId = tokenId, tx_elementId = elementId, tx_taskType = taskType,
                           tx_attempt = attempt, tx_variables = mergeScopes chain\<rparr>
                         in run_answer env x (handler x) st w sv))))"

text \<open>
  \<open>dispatch\<close>, on a \<open>ServiceTaskStarted\<close> event, and the callback of a retry's timeout: each first decides,
  without waiting, whether an attempt begins, and which; the attempt itself waits for the store and the
  handler, so other callbacks may run before it goes on.
\<close>

definition claim_attempt :: "string \<Rightarrow> worker \<Rightarrow> (nat \<times> worker) option" where
  "claim_attempt tokenId w =
     (let attempt = (case map_of (wk_attemptByToken w) tokenId of Some n \<Rightarrow> n | None \<Rightarrow> 1) in
      if (tokenId, attempt) \<in> set (wk_inflightKeys w) then None
      else Some (attempt, w\<lparr>wk_inflightKeys := set_add (tokenId, attempt) (wk_inflightKeys w),
             wk_attemptByToken := AList.update tokenId attempt (wk_attemptByToken w)\<rparr>))"

definition claim_retry :: "pending_retry \<Rightarrow> worker \<Rightarrow> worker option" where
  "claim_retry r w =
     (let key = (py_tokenId r, py_attempt r) in
      if key \<in> set (wk_inflightKeys w) then None
      else Some (w\<lparr>wk_inflightKeys := set_add key (wk_inflightKeys w)\<rparr>))"

definition dispatch_task ::
  "api_env \<Rightarrow> string \<Rightarrow> string \<Rightarrow> string \<Rightarrow> string \<Rightarrow> worker \<Rightarrow> server \<Rightarrow> (engine_error option \<times> worker \<times> server) option" where
  "dispatch_task env i tokenId elementId taskType w sv =
     (case claim_attempt tokenId w of
        None \<Rightarrow> Some (None, w, sv)
      | Some (attempt, w') \<Rightarrow> runAttempt env i tokenId elementId taskType attempt w' sv)"

section \<open>The worker as a whole\<close>

text \<open>
  The attempts that have begun and not ended, the worker and the server. A callback runs in one piece up to
  the attempt it begins, and an attempt in one piece when it goes on; in between anything may happen,
  handlers may be registered and others may change the store. An attempt that throws is over: \<open>dispatch\<close> is
  called with \<open>void\<close>, and nothing handles the rejection.
\<close>

record task_run =
  tr_instanceId :: string
  tr_tokenId :: string
  tr_elementId :: string
  tr_taskType :: string
  tr_attempt :: nat

type_synonym work = "task_run list \<times> worker \<times> server"

definition run_of_retry :: "pending_retry \<Rightarrow> task_run" where
  "run_of_retry r = \<lparr>tr_instanceId = py_instanceId r, tr_tokenId = py_tokenId r, tr_elementId = py_elementId r,
     tr_taskType = py_taskType r, tr_attempt = py_attempt r\<rparr>"

inductive worker_step :: "api_env \<Rightarrow> work \<Rightarrow> work \<Rightarrow> bool" for env where
  event_begins: "claim_attempt t w = Some (n, w') \<Longrightarrow>
     worker_step env (rs, w, sv) (rs @ [\<lparr>tr_instanceId = i, tr_tokenId = t, tr_elementId = el, tr_taskType = ty, tr_attempt = n\<rparr>], w', sv)"
| retry_begins: "r \<in> set (wk_retries w) \<Longrightarrow> claim_retry r (w\<lparr>wk_retries := remove1 r (wk_retries w)\<rparr>) = Some w' \<Longrightarrow>
     worker_step env (rs, w, sv) (rs @ [run_of_retry r], w', sv)"
| retry_dropped: "r \<in> set (wk_retries w) \<Longrightarrow> claim_retry r (w\<lparr>wk_retries := remove1 r (wk_retries w)\<rparr>) = None \<Longrightarrow>
     worker_step env (rs, w, sv) (rs, w\<lparr>wk_retries := remove1 r (wk_retries w)\<rparr>, sv)"
| attempt_ends: "rs = as @ r # bs \<Longrightarrow>
     runAttempt env (tr_instanceId r) (tr_tokenId r) (tr_elementId r) (tr_taskType r) (tr_attempt r) w sv = Some (e, w', sv') \<Longrightarrow>
     worker_step env (rs, w, sv) (as @ bs, w', sv')"
| handler_registered: "worker_step env (rs, w, sv) (rs, register ty h w, sv)"
| others_write: "worker_step env (rs, w, sv) (rs, w, sv')"

end
