(* ===== verification/Background_Correctness.thy ===== *)
theory Background_Correctness
  imports Background_Actors Http_Correctness
begin

text \<open>
  What the worker and the timers guarantee: how often a service task is tried, what a failed attempt
  leaves, what a background commit makes of the store, and what timer expressions mean.
\<close>

section \<open>Attempts\<close>

definition attempts_of :: "string \<Rightarrow> worker \<Rightarrow> nat list" where
  "attempts_of t w = map snd (filter (\<lambda>k. fst k = t) (wk_inflightKeys w))"

definition runs_of :: "string \<Rightarrow> task_run list \<Rightarrow> nat list" where
  "runs_of t rs = map tr_attempt (filter (\<lambda>r. tr_tokenId r = t) rs)"

definition retries_of :: "string \<Rightarrow> worker \<Rightarrow> nat set" where
  "retries_of t w = py_attempt ` {r \<in> set (wk_retries w). py_tokenId r = t}"

text \<open>
  Where a token stands after \<open>k\<close> attempts: the last one is running, or it asked for a retry that is
  pending, or the token is settled and forgotten, or the last attempt ended without settling it.
\<close>

datatype phase = Running | Retrying | Settled | Stuck

definition stands :: "string \<Rightarrow> task_run list \<Rightarrow> worker \<Rightarrow> nat \<Rightarrow> phase \<Rightarrow> bool" where
  "stands t rs w k p \<longleftrightarrow>
     attempts_of t w = [1..<Suc k] \<and> retries_of t w \<subseteq> {2..Suc k} \<and>
     (p = Settled \<or> 0 < k) \<and>
     runs_of t rs = (if p = Running then [k] else []) \<and>
     map_of (wk_attemptByToken w) t =
       (case p of Running \<Rightarrow> Some k | Retrying \<Rightarrow> Some (Suc k) | Settled \<Rightarrow> None | Stuck \<Rightarrow> Some k) \<and>
     (if p = Retrying then Suc k \<in> retries_of t w \<and> Suc k \<le> wk_maxAttempts w else Suc k \<notin> retries_of t w)"

definition tracked :: "work \<Rightarrow> bool" where
  "tracked s \<longleftrightarrow> (case s of (rs, w, sv) \<Rightarrow> \<forall>t. \<exists>k p. stands t rs w k p \<and> k \<le> max 1 (wk_maxAttempts w))"

text \<open>What an attempt does to the worker.\<close>

inductive attempt_effect :: "string \<Rightarrow> nat \<Rightarrow> engine_error option \<Rightarrow> worker \<Rightarrow> worker \<Rightarrow> bool" for t n where
  left_alone: "attempt_effect t n e w w"
| forgotten: "attempt_effect t n None w (w\<lparr>wk_attemptByToken := AList.delete t (wk_attemptByToken w)\<rparr>)"
| put_off: "py_tokenId r = t \<Longrightarrow> py_attempt r = Suc n \<Longrightarrow> Suc n \<le> wk_maxAttempts w \<Longrightarrow>
    attempt_effect t n None w (w\<lparr>wk_attemptByToken := AList.update t (Suc n) (wk_attemptByToken w), wk_retries := wk_retries w @ [r]\<rparr>)"

lemma settle_effect: "settle_task env i t st c w sv = Some (e, w', sv') \<Longrightarrow> attempt_effect t n e w w'"
  by (auto simp: settle_task_def intro: attempt_effect.intros split: option.splits)

lemma runAttempt_effect:
  assumes "runAttempt env i t el ty n w sv = Some (e, w', sv')"
  shows "attempt_effect t n e w w'"
  using assms
  by (auto simp: runAttempt_def run_answer_def Let_def intro: settle_effect left_alone put_off
      split: option.splits task_answer.splits if_splits)

lemma thrown_effect: "attempt_effect t n (Some e) w w' \<Longrightarrow> w' = w"
  by (auto elim: attempt_effect.cases)

lemma stands_frame:
  assumes "stands t rs w k p" "attempts_of t w' = attempts_of t w" "retries_of t w' = retries_of t w"
    "runs_of t rs' = runs_of t rs" "map_of (wk_attemptByToken w') t = map_of (wk_attemptByToken w) t"
    "wk_maxAttempts w' = wk_maxAttempts w"
  shows "stands t rs' w' k p"
  using assms by (simp add: stands_def)

lemma tracked_step:
  assumes "tracked (rs, w, sv)" "wk_maxAttempts w' = wk_maxAttempts w"
    and "\<And>k p. stands t rs w k p \<Longrightarrow> k \<le> max 1 (wk_maxAttempts w) \<Longrightarrow>
      \<exists>k p. stands t rs' w' k p \<and> k \<le> max 1 (wk_maxAttempts w)"
    and "\<And>u. u \<noteq> t \<Longrightarrow> attempts_of u w' = attempts_of u w \<and> retries_of u w' = retries_of u w \<and>
      runs_of u rs' = runs_of u rs \<and> map_of (wk_attemptByToken w') u = map_of (wk_attemptByToken w) u"
  shows "tracked (rs', w', sv')"
  unfolding tracked_def prod.case
proof
  fix u
  from assms(1) obtain k p where k: "stands u rs w k p" "k \<le> max 1 (wk_maxAttempts w)"
    unfolding tracked_def prod.case by blast
  show "\<exists>k p. stands u rs' w' k p \<and> k \<le> max 1 (wk_maxAttempts w')"
  proof (cases "u = t")
    case True
    with assms(2,3) k show ?thesis by simp
  next
    case False
    from stands_frame[OF k(1)] assms(4)[OF False] assms(2) k(2) show ?thesis by metis
  qed
qed

lemma in_flight: "(t, n) \<in> set (wk_inflightKeys w) \<longleftrightarrow> n \<in> set (attempts_of t w)"
  by (force simp: attempts_of_def)

lemma attempts_of_add:
  "attempts_of t (w\<lparr>wk_inflightKeys := set_add (u, n) (wk_inflightKeys w), wk_attemptByToken := m\<rparr>) =
     (if u = t \<and> (u, n) \<notin> set (wk_inflightKeys w) then attempts_of t w @ [n] else attempts_of t w)"
  "attempts_of t (w\<lparr>wk_inflightKeys := set_add (u, n) (wk_inflightKeys w)\<rparr>) =
     (if u = t \<and> (u, n) \<notin> set (wk_inflightKeys w) then attempts_of t w @ [n] else attempts_of t w)"
  by (auto simp: attempts_of_def set_add_def)

lemma attempts_of_other [simp]:
  "attempts_of t (w\<lparr>wk_attemptByToken := m\<rparr>) = attempts_of t w"
  "attempts_of t (w\<lparr>wk_retries := rs\<rparr>) = attempts_of t w"
  "attempts_of t (w\<lparr>wk_attemptByToken := m, wk_retries := rs\<rparr>) = attempts_of t w"
  "attempts_of t (w\<lparr>wk_handlers := hs\<rparr>) = attempts_of t w"
  by (simp_all add: attempts_of_def)

lemma retries_of_other [simp]:
  "retries_of t (w\<lparr>wk_attemptByToken := m\<rparr>) = retries_of t w"
  "retries_of t (w\<lparr>wk_inflightKeys := ks\<rparr>) = retries_of t w"
  "retries_of t (w\<lparr>wk_inflightKeys := ks, wk_attemptByToken := m\<rparr>) = retries_of t w"
  "retries_of t (w\<lparr>wk_handlers := hs\<rparr>) = retries_of t w"
  by (simp_all add: retries_of_def)

lemma runs_of_append [simp]: "runs_of t (rs @ qs) = runs_of t rs @ runs_of t qs"
  by (simp add: runs_of_def)

lemma runs_of_Cons [simp]: "runs_of t (r # rs) = (if tr_tokenId r = t then tr_attempt r # runs_of t rs else runs_of t rs)"
  by (simp add: runs_of_def)

lemma runs_of_Nil [simp]: "runs_of t [] = []"
  by (simp add: runs_of_def)

lemma in_retries: "n \<in> retries_of t w \<longleftrightarrow> (\<exists>x \<in> set (wk_retries w). py_tokenId x = t \<and> py_attempt x = n)"
  by (auto simp: retries_of_def)

lemma retries_removed:
  "u \<noteq> py_tokenId r \<Longrightarrow> retries_of u (w\<lparr>wk_retries := remove1 r (wk_retries w)\<rparr>) = retries_of u w"
  "retries_of u (w\<lparr>wk_retries := remove1 r (wk_retries w)\<rparr>) \<subseteq> retries_of u w"
  "n \<noteq> py_attempt r \<Longrightarrow> n \<in> retries_of u (w\<lparr>wk_retries := remove1 r (wk_retries w)\<rparr>) \<longleftrightarrow> n \<in> retries_of u w"
proof -
  have s: "x \<noteq> r \<Longrightarrow> x \<in> set (remove1 r xs) \<longleftrightarrow> x \<in> set xs" "x \<in> set (remove1 r xs) \<Longrightarrow> x \<in> set xs"
    for x and xs :: "pending_retry list"
    by simp (rule subsetD[OF set_remove1_subset])
  show "retries_of u (w\<lparr>wk_retries := remove1 r (wk_retries w)\<rparr>) \<subseteq> retries_of u w"
    unfolding retries_of_def using set_remove1_subset[of r "wk_retries w"] by (intro image_mono) auto
  have m: "(x \<in> set (remove1 r xs) \<and> py_tokenId x = u) = (x \<in> set xs \<and> py_tokenId x = u)"
    if "u \<noteq> py_tokenId r" for x u and xs :: "pending_retry list"
    using that s(1)[of x xs] by (cases "x = r") auto
  show "u \<noteq> py_tokenId r \<Longrightarrow> retries_of u (w\<lparr>wk_retries := remove1 r (wk_retries w)\<rparr>) = retries_of u w"
    by (simp add: retries_of_def m)
  have a: "(x \<in> set (remove1 r xs) \<and> py_attempt x = n) = (x \<in> set xs \<and> py_attempt x = n)"
    if "n \<noteq> py_attempt r" for x n and xs :: "pending_retry list"
    using that s(1)[of x xs] by (cases "x = r") auto
  show "n \<noteq> py_attempt r \<Longrightarrow> n \<in> retries_of u (w\<lparr>wk_retries := remove1 r (wk_retries w)\<rparr>) \<longleftrightarrow> n \<in> retries_of u w"
    using a[of n _ "wk_retries w"] by (auto simp: in_retries)
qed

lemma begin_tracked:
  assumes "tracked (rs, w, sv)" "claim_attempt t w = Some (n, w')" "tr_tokenId r = t" "tr_attempt r = n"
  shows "tracked (rs @ [r], w', sv')"
proof (rule tracked_step[OF assms(1), where t = t])
  have n: "n = (case map_of (wk_attemptByToken w) t of Some n \<Rightarrow> n | None \<Rightarrow> 1)" "n \<notin> set (attempts_of t w)"
    and w': "w' = w\<lparr>wk_inflightKeys := set_add (t, n) (wk_inflightKeys w), wk_attemptByToken := AList.update t n (wk_attemptByToken w)\<rparr>"
    using assms(2) by (auto simp: claim_attempt_def Let_def in_flight split: if_splits)
  show "wk_maxAttempts w' = wk_maxAttempts w" by (simp add: w')
  show "\<exists>k p. stands t (rs @ [r]) w' k p \<and> k \<le> max 1 (wk_maxAttempts w)"
    if s: "stands t rs w k p" "k \<le> max 1 (wk_maxAttempts w)" for k p
  proof -
    have "n = Suc k \<and> runs_of t rs = [] \<and> attempts_of t w = [1..<Suc k] \<and> Suc k \<le> max 1 (wk_maxAttempts w)"
      using s n by (cases p) (auto simp: stands_def)
    then have "stands t (rs @ [r]) w' (Suc k) Running \<and> Suc k \<le> max 1 (wk_maxAttempts w)"
      using s(1) assms(3,4) n(2)
      by (auto simp: stands_def w' attempts_of_add in_flight jsmap_simps)
    then show ?thesis by blast
  qed
qed (use assms in \<open>auto simp: claim_attempt_def Let_def attempts_of_add in_flight jsmap_simps split: if_splits\<close>)

lemma retry_tracked:
  assumes "tracked (rs, w, sv)" "r \<in> set (wk_retries w)"
    "claim_retry r (w\<lparr>wk_retries := remove1 r (wk_retries w)\<rparr>) = Some w'"
  shows "tracked (rs @ [run_of_retry r], w', sv')"
proof (rule tracked_step[OF assms(1), where t = "py_tokenId r"])
  let ?t = "py_tokenId r" and ?n = "py_attempt r" and ?w = "w\<lparr>wk_retries := remove1 r (wk_retries w)\<rparr>"
  have n: "?n \<notin> set (attempts_of ?t w)" "?n \<in> retries_of ?t w" and w': "w' = ?w\<lparr>wk_inflightKeys := set_add (?t, ?n) (wk_inflightKeys w)\<rparr>"
    using assms(2,3) by (auto simp: claim_retry_def Let_def in_flight retries_of_def split: if_splits)
  show "wk_maxAttempts w' = wk_maxAttempts w" by (simp add: w')
  show "\<exists>k p. stands ?t (rs @ [run_of_retry r]) w' k p \<and> k \<le> max 1 (wk_maxAttempts w)"
    if s: "stands ?t rs w k p" "k \<le> max 1 (wk_maxAttempts w)" for k p
  proof -
    have "?n \<in> {2..Suc k}" "attempts_of ?t w = [1..<Suc k]" using s(1) n(2) by (auto simp: stands_def)
    with n(1) have "?n = Suc k" by auto
    with s(1) n(2) have p: "p = Retrying" by (auto simp: stands_def split: if_splits)
    have sub: "retries_of ?t ?w \<subseteq> retries_of ?t w" by (rule retries_removed(2))
    have after: "attempts_of ?t w' = attempts_of ?t w @ [Suc k]" "retries_of ?t w' = retries_of ?t ?w"
      "runs_of ?t (rs @ [run_of_retry r]) = runs_of ?t rs @ [Suc k]"
      using n(1) \<open>?n = Suc k\<close> attempts_of_add(2)[where w = ?w and t = ?t and u = ?t and n = "Suc k"]
      by (simp_all add: w' in_flight run_of_retry_def)
    have "Suc (Suc k) \<notin> retries_of ?t ?w" "retries_of ?t ?w \<subseteq> {2..Suc (Suc k)}"
      using sub s(1) by (auto simp: stands_def)
    with p s(1) have "stands ?t (rs @ [run_of_retry r]) w' (Suc k) Running"
      unfolding stands_def after by (simp add: w')
    moreover have "Suc k \<le> max 1 (wk_maxAttempts w)" using p s(1) by (simp add: stands_def)
    ultimately have "stands ?t (rs @ [run_of_retry r]) w' (Suc k) Running \<and> Suc k \<le> max 1 (wk_maxAttempts w)" ..
    then show ?thesis by blast
  qed
  fix u assume "u \<noteq> ?t"
  with retries_removed(1)[OF this]
  show "attempts_of u w' = attempts_of u w \<and> retries_of u w' = retries_of u w \<and>
      runs_of u (rs @ [run_of_retry r]) = runs_of u rs \<and> map_of (wk_attemptByToken w') u = map_of (wk_attemptByToken w) u"
    using attempts_of_add(2)[where w = ?w and t = u and u = ?t and n = ?n] by (simp add: w' run_of_retry_def)
qed

lemma dropped_tracked:
  assumes "tracked (rs, w, sv)" "r \<in> set (wk_retries w)"
    "claim_retry r (w\<lparr>wk_retries := remove1 r (wk_retries w)\<rparr>) = None"
  shows "tracked (rs, w\<lparr>wk_retries := remove1 r (wk_retries w)\<rparr>, sv')"
proof (rule tracked_step[OF assms(1), where t = "py_tokenId r"])
  let ?t = "py_tokenId r" and ?n = "py_attempt r" and ?w = "w\<lparr>wk_retries := remove1 r (wk_retries w)\<rparr>"
  show "wk_maxAttempts ?w = wk_maxAttempts w" by simp
  have "?n \<in> set (attempts_of ?t w)"
    using assms(3) by (simp add: claim_retry_def Let_def in_flight split: if_splits)
  then have "stands ?t rs ?w k p" if s: "stands ?t rs w k p" for k p
  proof -
    have sub: "retries_of ?t ?w \<subseteq> retries_of ?t w" by (rule retries_removed(2))
    have "?n < Suc k" using s \<open>?n \<in> _\<close> by (auto simp: stands_def)
    then have "Suc k \<in> retries_of ?t w \<longleftrightarrow> Suc k \<in> retries_of ?t ?w" using retries_removed(3)[where n = "Suc k" and u = ?t and r = r and w = w] by auto
    with s sub show ?thesis by (auto simp: stands_def)
  qed
  then show "\<exists>k p. stands ?t rs ?w k p \<and> k \<le> max 1 (wk_maxAttempts w)"
    if "stands ?t rs w k p" "k \<le> max 1 (wk_maxAttempts w)" for k p using that by blast
  fix u assume "u \<noteq> ?t"
  with retries_removed(1)[OF this]
  show "attempts_of u ?w = attempts_of u w \<and> retries_of u ?w = retries_of u w \<and>
      runs_of u rs = runs_of u rs \<and> map_of (wk_attemptByToken ?w) u = map_of (wk_attemptByToken w) u"
    by simp
qed

lemma end_tracked:
  assumes "tracked (as @ r # bs, w, sv)" "attempt_effect (tr_tokenId r) (tr_attempt r) e w w'"
  shows "tracked (as @ bs, w', sv')"
proof (rule tracked_step[OF assms(1), where t = "tr_tokenId r"])
  let ?t = "tr_tokenId r" and ?n = "tr_attempt r"
  show "wk_maxAttempts w' = wk_maxAttempts w" using assms(2) by cases simp_all
  show "\<exists>k p. stands ?t (as @ bs) w' k p \<and> k \<le> max 1 (wk_maxAttempts w)"
    if s: "stands ?t (as @ r # bs) w k p" "k \<le> max 1 (wk_maxAttempts w)" for k p
  proof -
    have "p = Running \<and> ?n = k \<and> runs_of ?t (as @ bs) = []"
      using s(1) by (auto simp: stands_def append_eq_Cons_conv split: if_splits)
    then have k: "p = Running" "?n = k" "runs_of ?t (as @ bs) = []" by simp_all
    from assms(2) have "\<exists>p. stands ?t (as @ bs) w' k p"
    proof cases
      case left_alone
      with s(1) k have "stands ?t (as @ bs) w' k Stuck" by (simp add: stands_def)
      then show ?thesis ..
    next
      case forgotten
      with s(1) k have "stands ?t (as @ bs) w' k Settled" by (simp add: stands_def jsmap_simps)
      then show ?thesis ..
    next
      case (put_off q)
      then have "retries_of ?t w' = insert (Suc k) (retries_of ?t w)" using k(2) by (auto simp: in_retries)
      with s(1) k put_off have "stands ?t (as @ bs) w' k Retrying" by (auto simp: stands_def jsmap_simps)
      then show ?thesis ..
    qed
    with s(2) show ?thesis by blast
  qed
  show "attempts_of u w' = attempts_of u w \<and> retries_of u w' = retries_of u w \<and>
      runs_of u (as @ bs) = runs_of u (as @ r # bs) \<and> map_of (wk_attemptByToken w') u = map_of (wk_attemptByToken w) u"
    if "u \<noteq> ?t" for u
    using assms(2) that by cases (auto simp: jsmap_simps retries_of_def)
qed

lemma worker_step_tracked:
  assumes "worker_step env s s'" "tracked s"
  shows "tracked s'"
  using assms
proof (cases rule: worker_step.cases)
  case (event_begins t w n w' rs sv i el ty)
  then show ?thesis using assms(2) begin_tracked[of rs w sv t n w'] by simp
next
  case (retry_begins r w w' rs sv)
  then show ?thesis using assms(2) retry_tracked[of rs w sv r w'] by simp
next
  case (retry_dropped r w rs sv)
  then show ?thesis using assms(2) dropped_tracked[of rs w sv r] by simp
next
  case (attempt_ends rs as r bs w sv e w' sv')
  then show ?thesis using assms(2) end_tracked[of as r bs w sv e w'] runAttempt_effect by metis
next
  case (handler_registered rs w sv ty h)
  have "stands t rs (register ty h w) k p" if "stands t rs w k p" for t k p
    using that by (simp add: stands_def register_def)
  moreover have "wk_maxAttempts (register ty h w) = wk_maxAttempts w" by (simp add: register_def)
  ultimately show ?thesis using assms(2) handler_registered unfolding tracked_def by fastforce
next
  case (others_write rs w sv sv')
  then show ?thesis using assms(2) by (simp add: tracked_def)
qed

lemma new_worker_tracked: "tracked ([], new_worker m d, sv)"
proof -
  have "stands t [] (new_worker m d) 0 Settled" for t
    by (simp add: stands_def new_worker_def attempts_of_def retries_of_def)
  then show ?thesis unfolding tracked_def prod.case by blast
qed

lemma worker_steps_tracked: "(worker_step env)\<^sup>*\<^sup>* s s' \<Longrightarrow> tracked s \<Longrightarrow> tracked s'"
  by (induction rule: rtranclp_induct) (auto intro: worker_step_tracked)

lemma max_attempts_fixed:
  assumes "(worker_step env)\<^sup>*\<^sup>* (rs, w, sv) (rs', w', sv')"
  shows "wk_maxAttempts w' = wk_maxAttempts w"
proof -
  have "wk_maxAttempts (fst (snd s')) = wk_maxAttempts (fst (snd s))" if "worker_step env s s'" for s s'
    using that
  proof cases
    case (attempt_ends rs as r bs w sv e w' sv')
    from runAttempt_effect[OF attempt_ends(4)] have "wk_maxAttempts w' = wk_maxAttempts w" by cases simp_all
    with attempt_ends show ?thesis by simp
  qed (auto simp: claim_attempt_def claim_retry_def register_def Let_def split: if_splits)
  note one = this
  have "wk_maxAttempts (fst (snd s')) = wk_maxAttempts (fst (snd s))" if "(worker_step env)\<^sup>*\<^sup>* s s'" for s s'
    using that by induction (auto dest: one)
  from this[OF assms] show ?thesis by simp
qed

text \<open>
  C11. Attempts are counted: whatever events arrive, duplicated or not, in whatever order attempts, retries and
  other writers run, the attempts a worker has begun for a token are the numbers from one on, each begun
  once and in order, and they are at most the configured maximum, or one; at most one of them is running.
\<close>

theorem attempts_are_bounded:
  assumes "(worker_step env)\<^sup>*\<^sup>* ([], new_worker m d, sv) (rs, w, sv')"
  shows "\<exists>k \<le> max 1 (wk_maxAttempts (new_worker m d)).
    map snd (filter (\<lambda>key. fst key = t) (wk_inflightKeys w)) = [1..<Suc k] \<and>
    map tr_attempt (filter (\<lambda>r. tr_tokenId r = t) rs) \<in> {[], [k]}"
proof -
  from worker_steps_tracked[OF assms new_worker_tracked] obtain k p
    where k: "stands t rs w k p" "k \<le> max 1 (wk_maxAttempts w)" unfolding tracked_def prod.case by blast
  then have "attempts_of t w = [1..<Suc k]" "runs_of t rs \<in> {[], [k]}" by (simp_all add: stands_def)
  then have "map snd (filter (\<lambda>key. fst key = t) (wk_inflightKeys w)) = [1..<Suc k] \<and>
    map tr_attempt (filter (\<lambda>r. tr_tokenId r = t) rs) \<in> {[], [k]}"
    unfolding attempts_of_def runs_of_def by simp
  with k(2) max_attempts_fixed[OF assms] show ?thesis by (intro exI[of _ k]) simp
qed

lemma stuck_step:
  assumes "worker_step env (rs, w, sv) (rs', w', sv')" "stands t rs w k Stuck"
  shows "stands t rs' w' k Stuck"
proof -
  have f: "runs_of t rs = []" "attempts_of t w = [1..<Suc k]" "map_of (wk_attemptByToken w) t = Some k" "0 < k"
    "retries_of t w \<subseteq> {2..k}"
    using assms(2) by (auto simp: stands_def le_Suc_eq)
  from assms(1) show ?thesis
  proof cases
    case (event_begins u n i el ty)
    then have "u \<noteq> t" using f by (auto simp: claim_attempt_def in_flight Let_def split: if_splits)
    with event_begins show ?thesis
      by (intro stands_frame[OF assms(2)]) (auto simp: claim_attempt_def Let_def attempts_of_add jsmap_simps split: if_splits)
  next
    case (retry_begins r)
    have "py_tokenId r \<noteq> t"
    proof
      assume "py_tokenId r = t"
      then have "py_attempt r \<in> retries_of t w" using retry_begins(3) by (auto simp: in_retries)
      then have "py_attempt r \<in> {2..k}" using f(5) by blast
      with \<open>py_tokenId r = t\<close> retry_begins(4) f(2) show False
        by (auto simp: claim_retry_def in_flight Let_def split: if_splits)
    qed
    then have other: "t \<noteq> py_tokenId r" by simp
    let ?w = "w\<lparr>wk_retries := remove1 r (wk_retries w)\<rparr>"
    have w': "w' = ?w\<lparr>wk_inflightKeys := set_add (py_tokenId r, py_attempt r) (wk_inflightKeys w)\<rparr>"
      using retry_begins(4) by (simp add: claim_retry_def Let_def split: if_splits)
    show ?thesis
      unfolding retry_begins(1) w' using other retries_removed(1)[OF other, where w = w]
        attempts_of_add(2)[where w = ?w and t = t and u = "py_tokenId r" and n = "py_attempt r"]
      by (intro stands_frame[OF assms(2)]) (simp_all add: run_of_retry_def)
  next
    case (retry_dropped r)
    with assms(2) retries_removed(2)[where u = t and r = r and w = w] f(5) show ?thesis by (auto simp: stands_def)
  next
    case (attempt_ends as r bs e)
    with f(1) have "tr_tokenId r \<noteq> t" by auto
    with runAttempt_effect[OF attempt_ends(3)] attempt_ends show ?thesis
      by (intro stands_frame[OF assms(2)]) (auto simp: jsmap_simps retries_of_def elim!: attempt_effect.cases)
  next
    case (handler_registered ty h)
    then show ?thesis using assms(2) by (simp add: stands_def register_def)
  next
    case others_write
    then show ?thesis using assms(2) by simp
  qed
qed

text \<open>
  A thrown attempt blocks its token: when an attempt ends with an error thrown (the worker's own commit
  refused for the fifth time, or an error of the engine other than a token that cannot be acted on), the
  token is never tried again, whatever happens later: no event and no pending retry begins an attempt.
\<close>

theorem thrown_attempts_block_their_token:
  assumes "(worker_step env)\<^sup>*\<^sup>* ([], new_worker m d, sv0) (as @ r # bs, w, sv)"
    and "runAttempt env (tr_instanceId r) (tr_tokenId r) (tr_elementId r) (tr_taskType r) (tr_attempt r) w sv = Some (Some e, w1, sv1)"
    and "(worker_step env)\<^sup>*\<^sup>* (as @ bs, w1, sv1) (rs, w', sv')"
  shows "claim_attempt (tr_tokenId r) w' = None \<and>
    list_all (\<lambda>q. py_tokenId q \<noteq> tr_tokenId r \<or> claim_retry q w' = None) (wk_retries w')"
proof -
  let ?t = "tr_tokenId r"
  have [simp]: "w1 = w" using thrown_effect[OF runAttempt_effect[OF assms(2)]] .
  from worker_steps_tracked[OF assms(1) new_worker_tracked] obtain k p
    where "stands ?t (as @ r # bs) w k p" unfolding tracked_def prod.case by blast
  then have "stands ?t (as @ bs) w k Stuck"
    by (auto simp: stands_def append_eq_Cons_conv split: if_splits)
  moreover have "stands ?t rs2 w2 k Stuck"
    if "(worker_step env)\<^sup>*\<^sup>* (rs1, w1, s1) (rs2, w2, s2)" "stands ?t rs1 w1 k Stuck" for rs1 w1 s1 rs2 w2 s2
    using that by (induction "(rs1, w1, s1)" "(rs2, w2, s2)" arbitrary: rs2 w2 s2 rule: rtranclp.induct) (auto intro: stuck_step)
  ultimately have s: "stands ?t rs w' k Stuck" using assms(3) by auto
  then have "claim_attempt ?t w' = None" by (simp add: claim_attempt_def stands_def in_flight Let_def)
  moreover have "claim_retry q w' = None" if "q \<in> set (wk_retries w')" "py_tokenId q = ?t" for q
  proof -
    have q: "py_attempt q \<in> retries_of ?t w'" using that by (auto simp: in_retries)
    with s have "py_attempt q \<in> {2..Suc k}" "py_attempt q \<noteq> Suc k" by (auto simp: stands_def)
    then have "py_attempt q \<in> set [1..<Suc k]" by auto
    with s have "py_attempt q \<in> set (attempts_of ?t w')" unfolding stands_def by metis
    then show ?thesis using that by (simp add: claim_retry_def in_flight Let_def)
  qed
  ultimately show ?thesis by (auto simp: list_all_iff)
qed

section \<open>What a background commit leaves out\<close>

text \<open>The same store with other subscriptions and other compensation records.\<close>

definition with_others :: "(string \<times> event_subscription) list \<Rightarrow> (string \<times> compensation_record list) list \<Rightarrow> store \<Rightarrow> store" where
  "with_others a b s = s\<lparr>so_subscriptions := a, so_compensation := b\<rparr>"

fun is_side :: "store_operation \<Rightarrow> bool" where
  "is_side (SaveSubscription _) = True"
| "is_side (DeleteSubscription _) = True"
| "is_side (SaveCompensationRecord _) = True"
| "is_side (DeleteCompensationRecord _ _) = True"
| "is_side _ = False"

lemma saveTokens_with_others: "saveTokens ts (with_others a b s) = with_others a b (saveTokens ts s)"
proof (induction ts arbitrary: s)
  case (Cons t ts)
  have "saveTokens [t] (with_others a b s) = with_others a b (saveTokens [t] s)"
    by (simp add: saveTokens_def with_others_def)
  with Cons show ?case by (simp only: saveTokens_Cons[of t ts])
qed (simp add: saveTokens_def)

lemma saveTokens_other: "so_subscriptions (saveTokens ts s) = so_subscriptions s" "so_userTasks (saveTokens ts s) = so_userTasks s"
  unfolding atomize_conj
proof (induction ts arbitrary: s)
  case (Cons t ts)
  show ?case using Cons[of "saveTokens [t] s"] by (simp add: saveTokens_Cons[of t ts]) (simp add: saveTokens_def)
qed (simp add: saveTokens_def)

lemma apply_with_others:
  "\<not> is_side op \<Longrightarrow> apply_op op (with_others a b s) = map_sum id (with_others a b) (apply_op op s)"
  by (cases op)
    (simp_all add: saveTokens_with_others, simp_all add: with_others_def other_ops createInstance_def updateInstance_def Let_def)

lemma run_with_others:
  "list_all (\<lambda>op. \<not> is_side op) ops \<Longrightarrow>
     executeTransaction ops (with_others a b s) = map_prod (with_others a b) id (executeTransaction ops s)"
  by (induction ops arbitrary: s) (auto simp: apply_with_others split: sum.splits)

lemma apply_side: "is_side op \<Longrightarrow> \<exists>t. apply_op op s = Inr t \<and> t = with_others (so_subscriptions t) (so_compensation t) s"
  by (cases op; cases s) (simp_all add: other_ops with_others_def)

lemma run_sides:
  "list_all is_side ops \<Longrightarrow> \<exists>t. executeTransaction ops s = (t, None) \<and> t = with_others (so_subscriptions t) (so_compensation t) s"
proof (induction ops arbitrary: s)
  case (Cons op ops)
  then obtain u where u: "apply_op op s = Inr u" "u = with_others (so_subscriptions u) (so_compensation u) s"
    using apply_side[of op s] by auto
  obtain t where "executeTransaction ops u = (t, None)" "t = with_others (so_subscriptions t) (so_compensation t) u"
    using Cons.IH[of u] Cons.prems by auto
  moreover have "with_others x y u = with_others x y s" for x y by (subst u(2)) (simp add: with_others_def)
  ultimately show ?case using u(1) by auto
qed (simp add: with_others_def)

lemma load_with_others:
  "loadEngineState i (with_others a b s) =
     map_option (\<lambda>r. r\<lparr>st_compensationRecords := get_list b i\<rparr>) (loadEngineState i s)"
  by (simp add: loadEngineState_def with_others_def getInstance_def store_getAllTokens_def getScope_def listGatewayStates_def
      listCompensationRecords_def Let_def split: option.splits)

lemma background_sides:
  "list_all (\<lambda>op. \<not> is_side op) (buildStoreOps num old new events)"
  "list_all is_side (subscriptionOps stamp old' new @ compensationOps old' new)"
  by (auto simp: buildStoreOps_def joinOps_def subscriptionOps_def compensationOps_def historyOps_def list_all_iff
      List.map_filter_def Let_def split: option.splits if_splits)

lemma background_commit:
  assumes "executeTransaction (computeStoreOps num stamp False (Some old) new events) s = (s', None)"
  obtains t a b where "executeTransaction (buildStoreOps num old new events) s = (t, None)" "s' = with_others a b t"
proof -
  let ?A = "[UpdateInstance (st_instance new), SaveTokens (st_tokens new)] @ map SaveScope (st_scopes new) @ joinOps (Some old) new"
  let ?B = "subscriptionOps stamp (Some old) new @ compensationOps (Some old) new" and ?D = "historyOps num (Some old) new events"
  have ops: "computeStoreOps num stamp False (Some old) new events = ?A @ ?B @ ?D" "buildStoreOps num old new events = ?A @ ?D"
    by (simp_all add: computeStoreOps_def buildStoreOps_def)
  from assms obtain t1 where t1: "executeTransaction ?A s = (t1, None)" "executeTransaction (?B @ ?D) t1 = (s', None)"
    unfolding ops(1) run_append by (auto split: prod.splits option.splits)
  obtain a b where ab: "executeTransaction ?B t1 = (with_others a b t1, None)" using run_sides[OF background_sides(2)] by metis
  with t1(2) have "executeTransaction ?D (with_others a b t1) = (s', None)" by (simp only: run_append) simp
  moreover have "list_all (\<lambda>op. \<not> is_side op) ?D" using background_sides(1)[of num old new events] unfolding ops(2) by simp
  ultimately obtain t where "executeTransaction ?D t1 = (t, None)" "s' = with_others a b t"
    by (cases "executeTransaction ?D t1") (auto simp: run_with_others)
  with t1(1) show thesis by (intro that[of t a b]) (simp_all only: ops(2) run_append, simp_all)
qed

text \<open>
  A background commit is partial: when the worker or a timer loads an instance, executes a command and
  commits, what is loaded again has the instance, the tokens, the scopes, the join states and the history
  of the state the command returned, but the compensation records of the state before; the
  subscriptions and the user tasks in the store are what they were, so an event or a user task that the
  command reached can be found by nobody.
\<close>

theorem background_commits_are_partial:
  assumes "loadEngineState i st = Some s" "keyed_joins st" "storable s"
    and "pi_id (st_instance s) = i" "pi_version (st_instance s) = Some v"
    and "execute d cmd (Some s) opts = Some (Inr (s', evs))" "call_ok opts cmd (Some s)"
  shows "\<exists>st' r. executeTransaction (buildStoreOps num s s' evs) st = (st', None) \<and>
    loadEngineState i st' = Some r \<and> st_instance r = (st_instance s')\<lparr>pi_version := Some (v + 1)\<rparr> \<and>
    st_tokens r = st_tokens s' \<and> set (st_scopes r) = kept_scopes s' \<and>
    set (st_gatewayJoinStates r) = set (st_gatewayJoinStates s') \<and>
    getHistory i st' = getHistory i st @ deriveHistory num (Some s) s' evs None \<and>
    st_compensationRecords r = st_compensationRecords s \<and>
    so_subscriptions st' = so_subscriptions st \<and> so_userTasks st' = so_userTasks st"
proof -
  from commit_reloads[OF assms, of num 0 evs] obtain st' r where
    st': "executeTransaction (computeStoreOps num 0 False (Some s) s' evs) st = (st', None)" "loadEngineState i st' = Some r"
    and r: "st_instance r = (st_instance s')\<lparr>pi_version := Some (v + 1)\<rparr>" "st_tokens r = st_tokens s'"
      "set (st_scopes r) = kept_scopes s'" "set (st_gatewayJoinStates r) = set (st_gatewayJoinStates s')"
      "getHistory i st' = getHistory i st @ deriveHistory num (Some s) s' evs None"
    by blast
  obtain t a b where t: "executeTransaction (buildStoreOps num s s' evs) st = (t, None)" "st' = with_others a b t"
    by (rule background_commit[OF st'(1)])
  from st'(2) obtain q where q: "loadEngineState i t = Some q" "r = q\<lparr>st_compensationRecords := get_list b i\<rparr>"
    unfolding t(2) load_with_others by blast
  have keep: "so_compensation u' = so_compensation u \<and> so_subscriptions u' = so_subscriptions u \<and> so_userTasks u' = so_userTasks u"
    if "op \<in> set (buildStoreOps num s s' evs)" "apply_op op u = Inr u'" for op u u'
    using that
    by (auto simp: buildStoreOps_def joinOps_def historyOps_def updateInstance_def Let_def other_ops saveTokens_keeps saveTokens_other split: if_splits)
  note kept = run_keeps[OF t(1), where g = so_compensation] run_keeps[OF t(1), where g = so_subscriptions]
    run_keeps[OF t(1), where g = so_userTasks]
  have same: "so_compensation t = so_compensation st" "so_subscriptions t = so_subscriptions st" "so_userTasks t = so_userTasks st"
    using kept keep by blast+
  have records: "loadEngineState j u = Some x \<Longrightarrow> st_compensationRecords x = get_list (so_compensation u) j" for j u x
    by (auto simp: loadEngineState_def listCompensationRecords_def Let_def split: option.splits)
  have "st_compensationRecords q = st_compensationRecords s"
    using records[OF q(1)] records[OF assms(1)] same(1) by simp
  moreover have "getHistory i st' = getHistory i t" by (simp add: getHistory_def t(2) with_others_def)
  ultimately show ?thesis using t(1) q r same(2,3)
    by (intro exI[of _ t] exI[of _ q]) simp
qed

theorem background_commits_are_partial_witness:
  "\<exists>st' r. loadEngineState ''x'' st' = Some r \<and> pi_version (st_instance r) = Some 2 \<and>
     pi_status (st_instance r) = CompletedI \<and> so_userTasks st' = so_userTasks review_store"
proof -
  obtain s evs where e: "execute review (CompleteUserTask ''xxxx'' ''bob'' None) (Some review_loaded)
      (counting_from ''y'') = Some (Inr (s, evs))" "pi_status (st_instance s) = CompletedI"
    using review_loaded_completes_ok by blast
  from background_commits_are_partial[OF review_store_loads review_loaded_ok(1-3) e(1) review_loaded_ok(4), of "\<lambda>_. []"]
  obtain st' r where "loadEngineState ''x'' st' = Some r" "so_userTasks st' = so_userTasks review_store"
    "st_instance r = (st_instance s)\<lparr>pi_version := Some (1 + 1)\<rparr>"
    by blast
  with e(2) have "loadEngineState ''x'' st' = Some r \<and> pi_version (st_instance r) = Some 2 \<and>
     pi_status (st_instance r) = CompletedI \<and> so_userTasks st' = so_userTasks review_store" by simp
  then show ?thesis by blast
qed

section \<open>Samples\<close>

theorem attempts_are_bounded_witness:
  "\<exists>w. claim_attempt ''t'' (new_worker None None) = Some (1, w) \<and>
     (\<exists>k \<le> 3. map snd (filter (\<lambda>key. fst key = ''t'') (wk_inflightKeys w)) = [1..<Suc k])"
proof -
  obtain w where w: "claim_attempt ''t'' (new_worker None None) = Some (1, w)"
    by (simp add: claim_attempt_def new_worker_def Let_def)
  have "worker_step quiet ([], new_worker None None, review_server)
      ([] @ [\<lparr>tr_instanceId = ''x'', tr_tokenId = ''t'', tr_elementId = ''u'', tr_taskType = ''ty'', tr_attempt = 1\<rparr>], w, review_server)"
    by (rule event_begins[OF w])
  then have "(worker_step quiet)\<^sup>*\<^sup>* ([], new_worker None None, review_server)
      ([] @ [\<lparr>tr_instanceId = ''x'', tr_tokenId = ''t'', tr_elementId = ''u'', tr_taskType = ''ty'', tr_attempt = 1\<rparr>], w, review_server)"
    by (rule r_into_rtranclp)
  from attempts_are_bounded[OF this, of "''t''"] obtain k where
    "k \<le> max 1 (wk_maxAttempts (new_worker None None))" "map snd (filter (\<lambda>key. fst key = ''t'') (wk_inflightKeys w)) = [1..<Suc k]"
    by blast
  moreover from this(1) have "k \<le> 3" by (simp add: new_worker_def)
  ultimately show ?thesis using w by blast
qed

text \<open>The review without its end event, so that completing the task throws.\<close>

definition torn :: process_definition where
  "torn = review\<lparr>pd_elements := butlast (pd_elements review)\<rparr>"

definition torn_server :: server where
  "torn_server = review_server\<lparr>sv_store := saveDefinition torn (sv_store review_server)\<rparr>"

lemma torn_server_loads:
  "loadEngineState ''x'' (sv_store torn_server) = Some review_loaded"
  "definition_of review_loaded (sv_store torn_server) = Some torn"
  "getScopeChain ''xx'' (sv_store torn_server) = Some [\<lparr>vs_id = ''xx'', vs_parentScopeId = None, vs_variables = []\<rparr>]"
proof -
  have "loadEngineState ''x'' (sv_store torn_server) = loadEngineState ''x'' (sv_store review_server)"
    by (rule load_frame; simp add: torn_server_def saveDefinition_def)
  then show "loadEngineState ''x'' (sv_store torn_server) = Some review_loaded" using review_server_loads(1) by simp
  show "definition_of review_loaded (sv_store torn_server) = Some torn"
    by (simp add: torn_server_def definition_of_def getDefinition_def saveDefinition_def torn_def review_loaded_def review_started_def
        review_def process_of_def jsmap_simps)
  have "so_scopes (sv_store torn_server) = [(''xx'', \<lparr>vs_id = ''xx'', vs_parentScopeId = None, vs_variables = []\<rparr>)]"
    by (simp add: torn_server_def saveDefinition_def review_server_def createUserTask_def review_store_def review_loaded_def
        review_started_def)
  then show "getScopeChain ''xx'' (sv_store torn_server) = Some [\<lparr>vs_id = ''xx'', vs_parentScopeId = None, vs_variables = []\<rparr>]"
    by (simp add: getScopeChain_def chain_from.simps)
qed

lemma torn_throws:
  "execute torn (CompleteServiceTask ''xxxx'' None) (Some review_loaded) (counting_from ''y'') =
     Some (Inl (DefinitionError (ElementNotFound ''e'' ''p'')))"
  by (simp add: engine_eval torn_def review_loaded_def review_started_def token_of_def sample_eval)

theorem thrown_attempts_block_their_token_witness:
  "\<exists>w. claim_attempt ''xxxx'' (register ''ty'' (\<lambda>_. AnswerCompleted None) (new_worker None None)) = Some (1, w) \<and>
     claim_attempt ''xxxx'' w = None"
proof -
  let ?w0 = "register ''ty'' (\<lambda>_. AnswerCompleted None) (new_worker None None)"
  let ?r = "\<lparr>tr_instanceId = ''x'', tr_tokenId = ''xxxx'', tr_elementId = ''u'', tr_taskType = ''ty'', tr_attempt = 1\<rparr>"
  obtain w where w: "claim_attempt ''xxxx'' ?w0 = Some (1, w)"
    by (simp add: claim_attempt_def new_worker_def register_def Let_def)
  have h: "map_of (wk_handlers w) ''ty'' = Some (\<lambda>_. AnswerCompleted None)"
    using w by (auto simp: claim_attempt_def new_worker_def register_def Let_def)
  have s: "worker_step quiet ([], new_worker None None, torn_server) ([], ?w0, torn_server)"
    "worker_step quiet ([], ?w0, torn_server) ([] @ [?r], w, torn_server)"
    by (rule handler_registered) (rule event_begins[OF w])
  then have "(worker_step quiet)\<^sup>*\<^sup>* ([], new_worker None None, torn_server) ([] @ ?r # [], w, torn_server)" by auto
  moreover have "runAttempt quiet ''x'' ''xxxx'' ''u'' ''ty'' 1 w torn_server =
      Some (Some (DefinitionError (ElementNotFound ''e'' ''p'')), w, torn_server)"
  proof -
    have "List.find (\<lambda>t. tk_id t = ''xxxx'' \<and> tk_status t = Waiting) (st_tokens review_loaded) =
        Some (token_of ''xxxx'' ''u'' UserTaskT Waiting (Some ''f1''))"
      by (simp add: review_loaded_def review_started_def token_of_def)
    moreover have "tk_scopeId (token_of ''xxxx'' ''u'' UserTaskT Waiting (Some ''f1'')) = ''xx''" by (simp add: token_of_def)
    ultimately show ?thesis
      using torn_server_loads h torn_throws
      by (simp add: runAttempt_def run_answer_def settle_task_def runCommand_def MAX_COMMIT_ATTEMPTS_def numeral_eq_Suc)
  qed
  ultimately have "claim_attempt ''xxxx'' w = None"
    using thrown_attempts_block_their_token[of quiet None None torn_server "[]" ?r "[]" w torn_server _ w torn_server "[]" w torn_server]
    by simp
  with w show ?thesis by blast
qed

section \<open>Durations\<close>

text \<open>A duration as it is written: every part may be missing, and seconds may have a fraction.\<close>

definition unit_text :: "char \<Rightarrow> nat option \<Rightarrow> string" where
  "unit_text u x = (case x of None \<Rightarrow> [] | Some n \<Rightarrow> decimal n @ [u])"

definition seconds_text :: "(nat \<times> string option) option \<Rightarrow> string" where
  "seconds_text x = (case x of None \<Rightarrow> [] | Some (n, None) \<Rightarrow> decimal n @ ''S'' | Some (n, Some fs) \<Rightarrow> decimal n @ ''.'' @ fs @ ''S'')"

definition number_or_zero :: "nat option \<Rightarrow> nat" where
  "number_or_zero x = (case x of Some n \<Rightarrow> n | None \<Rightarrow> 0)"

definition seconds_value :: "(nat \<times> string option) option \<Rightarrow> rat" where
  "seconds_value x = (case x of None \<Rightarrow> 0 | Some (n, None) \<Rightarrow> of_nat n
     | Some (n, Some fs) \<Rightarrow> of_nat n + of_nat (number_of fs) / 10 ^ length fs)"

text \<open>A text in which the first thing after the leading digits is not the unit.\<close>

definition avoids :: "char \<Rightarrow> string \<Rightarrow> bool" where
  "avoids u s \<longleftrightarrow> dropWhile digit s = [] \<or> hd (dropWhile digit s) \<noteq> u"

lemma span_digits:
  assumes "list_all digit ds" "\<not> digit u"
  shows "takeWhile digit (ds @ u # s) = ds" "dropWhile digit (ds @ u # s) = u # s"
  using assms by (induction ds) simp_all

lemma part_unit:
  assumes "\<not> digit u" "avoids u s"
  shows "part u (unit_text u x @ s) = (number_or_zero x, s)"
  using assms decimal_digits
  by (cases x) (auto simp: unit_text_def number_or_zero_def part_def avoids_def span_digits Let_def)

lemma avoids_unit: "u \<noteq> v \<Longrightarrow> \<not> digit v \<Longrightarrow> avoids u s \<Longrightarrow> avoids u (unit_text v x @ s)"
  using decimal_digits by (cases x) (auto simp: unit_text_def avoids_def span_digits)

lemma letters: "\<not> digit (CHR ''Y'')" "\<not> digit (CHR ''M'')" "\<not> digit (CHR ''W'')" "\<not> digit (CHR ''D'')"
  "\<not> digit (CHR ''H'')" "\<not> digit (CHR ''S'')" "\<not> digit (CHR ''.'')" "\<not> digit (CHR ''T'')" "\<not> digit (CHR ''P'')"
  by (simp_all add: digit_def)

lemma seconds_part_text:
  assumes "pred_option (\<lambda>p. pred_option (\<lambda>fs. fs \<noteq> [] \<and> list_all digit fs) (snd p)) x"
  shows "seconds_part (seconds_text x) = (seconds_value x, [])"
proof (cases x)
  case None
  then show ?thesis by (simp add: seconds_text_def seconds_part_def seconds_value_def)
next
  case (Some p)
  obtain n f where p: "p = (n, f)" by (cases p)
  show ?thesis
  proof (cases f)
    case None
    with Some p show ?thesis using decimal_digits[of n] letters
      by (simp add: seconds_text_def seconds_part_def seconds_value_def span_digits Let_def)
  next
    case (Some fs)
    with \<open>x = Some p\<close> p assms show ?thesis using decimal_digits[of n] letters
      by (simp add: seconds_text_def seconds_part_def seconds_value_def span_digits Let_def)
  qed
qed

lemma avoids_seconds: "u \<noteq> CHR ''S'' \<Longrightarrow> u \<noteq> CHR ''.'' \<Longrightarrow> avoids u (seconds_text x)"
proof -
  have "dropWhile digit (decimal n @ ''S'') = ''S''" for n
    using span_digits(2)[OF decimal_digits[THEN conjunct1], of "CHR ''S''" n "[]"] letters by simp
  moreover have "dropWhile digit (decimal n @ CHR ''.'' # s) = CHR ''.'' # s" for n s
    using span_digits(2)[OF decimal_digits[THEN conjunct1], of "CHR ''.''" n s] letters by simp
  ultimately show "u \<noteq> CHR ''S'' \<Longrightarrow> u \<noteq> CHR ''.'' \<Longrightarrow> ?thesis"
    by (cases x) (auto simp del: dropWhile_append3 simp: seconds_text_def avoids_def split: option.splits)
qed

definition clock_text :: "(nat option \<times> nat option \<times> (nat \<times> string option) option) option \<Rightarrow> string" where
  "clock_text x = (case x of None \<Rightarrow> []
     | Some (h, m, sec) \<Rightarrow> CHR ''T'' # unit_text (CHR ''H'') h @ unit_text (CHR ''M'') m @ seconds_text sec)"

definition duration_text ::
  "nat option \<Rightarrow> nat option \<Rightarrow> nat option \<Rightarrow> nat option \<Rightarrow> (nat option \<times> nat option \<times> (nat \<times> string option) option) option \<Rightarrow> string" where
  "duration_text y mo w d clock = CHR ''P'' # unit_text (CHR ''Y'') y @ unit_text (CHR ''M'') mo @
     unit_text (CHR ''W'') w @ unit_text (CHR ''D'') d @ clock_text clock"

definition clock_value :: "(nat option \<times> nat option \<times> (nat \<times> string option) option) option \<Rightarrow> nat \<times> nat \<times> rat" where
  "clock_value x = (case x of None \<Rightarrow> (0, 0, 0) | Some (h, m, sec) \<Rightarrow> (number_or_zero h, number_or_zero m, seconds_value sec))"

definition well_written :: "(nat option \<times> nat option \<times> (nat \<times> string option) option) option \<Rightarrow> bool" where
  "well_written x = pred_option (\<lambda>(h, m, sec). pred_option (\<lambda>p. pred_option (\<lambda>fs. fs \<noteq> [] \<and> list_all digit fs) (snd p)) sec) x"

lemma time_parts_text: "well_written x \<Longrightarrow> time_parts (clock_text x) = Some (clock_value x)"
  by (cases x)
    (auto simp: well_written_def clock_text_def clock_value_def time_parts_def part_unit avoids_unit avoids_seconds letters seconds_part_text)

lemma parse_duration_text:
  assumes "well_written clock"
  shows "parse_duration (duration_text y mo w d clock) =
    Some \<lparr>du_years = number_or_zero y, du_months = number_or_zero mo, du_weeks = number_or_zero w, du_days = number_or_zero d,
      du_hours = fst (clock_value clock), du_minutes = fst (snd (clock_value clock)), du_seconds = snd (snd (clock_value clock))\<rparr>"
proof -
  have a: "avoids u (clock_text clock)" if "u \<noteq> CHR ''T''" for u
    using that letters by (cases clock) (auto simp: clock_text_def avoids_def)
  show ?thesis
    using time_parts_text[OF assms]
    by (simp add: duration_text_def parse_duration_def part_unit avoids_unit a letters split: prod.splits)
qed

lemma trim_tight: "list_all (\<lambda>c. \<not> js_space c) s \<Longrightarrow> js_trim s = s"
proof -
  have "list_all (\<lambda>c. \<not> js_space c) s \<Longrightarrow> dropWhile js_space s = s" for s by (cases s) simp_all
  then show "list_all (\<lambda>c. \<not> js_space c) s \<Longrightarrow> js_trim s = s" by (simp add: js_trim_def)
qed



end
