(* ===== verification/Tenant_Keys.thy ===== *)
theory Tenant_Keys
  imports User_Admin
begin

text \<open>
  \<open>db/TenantStore.ts\<close> and \<open>db/OperatorKeyStore.ts\<close> of the app: tenants, their API keys and the operator
  keys. The tables \<open>tenants\<close>, \<open>api_keys\<close> and \<open>operator_keys\<close> are lists of rows beside the tables of the
  accounts, whose \<open>db_tenants\<close> are the ids of the first. Each SQL statement is the operation it stands
  for, with the keys and references of migrations 007, 013 and 014; CHECK constraints and what deleting a
  person does to \<open>created_by\<close> are left out. The keyed hash is a parameter; random texts and the clock are
  arguments; the update of \<open>last_used_at\<close>, which nobody waits for, happens at once.
\<close>

section \<open>Rows\<close>

datatype tenant_status = ActiveTenant | SuspendedTenant | DeletingTenant

record tenant =
  tn_id :: string
  tn_name :: string
  tn_status :: tenant_status
  tn_createdAt :: int

record api_key =
  ak_id :: string
  ak_tenantId :: string
  ak_name :: string
  ak_role :: key_role
  ak_createdBy :: "string option"
  ak_keyHash :: string
  ak_createdAt :: int
  ak_lastUsedAt :: "int option"
  ak_revokedAt :: "int option"

text \<open>\<open>ApiKeyPublic\<close>: the row without its hash.\<close>

record api_key_public =
  kp_id :: string
  kp_tenantId :: string
  kp_name :: string
  kp_role :: key_role
  kp_createdBy :: "string option"
  kp_createdAt :: int
  kp_lastUsedAt :: "int option"
  kp_revokedAt :: "int option"

definition public_key :: "api_key \<Rightarrow> api_key_public" where
  "public_key k = \<lparr>kp_id = ak_id k, kp_tenantId = ak_tenantId k, kp_name = ak_name k, kp_role = ak_role k,
     kp_createdBy = ak_createdBy k, kp_createdAt = ak_createdAt k, kp_lastUsedAt = ak_lastUsedAt k,
     kp_revokedAt = ak_revokedAt k\<rparr>"

record tenant_summary = tenant +
  ts_activeKeyCount :: nat

record operator_key =
  ok_id :: string
  ok_name :: string
  ok_keyHash :: string
  ok_createdBy :: "string option"
  ok_createdAt :: int
  ok_lastUsedAt :: "int option"
  ok_expiresAt :: "int option"
  ok_revokedAt :: "int option"

record platform =
  pl_accounts :: accounts
  pl_tenants :: "tenant list"
  pl_keys :: "api_key list"
  pl_operatorKeys :: "operator_key list"

section \<open>Tenants\<close>

definition getTenant :: "string \<Rightarrow> platform \<Rightarrow> tenant option" where
  "getTenant i pl = List.find (\<lambda>t. tn_id t = i) (pl_tenants pl)"

definition createTenant :: "string \<Rightarrow> string \<Rightarrow> int \<Rightarrow> platform \<Rightarrow> (store_error + tenant) \<times> platform" where
  "createTenant i name n pl =
     (if getTenant i pl \<noteq> None then (Inl (PgError ''23505''), pl)
      else
        let t = \<lparr>tn_id = i, tn_name = name, tn_status = ActiveTenant, tn_createdAt = n\<rparr>
        in (Inr t, pl\<lparr>pl_tenants := pl_tenants pl @ [t],
              pl_accounts := (pl_accounts pl)\<lparr>db_tenants := db_tenants (pl_accounts pl) @ [i]\<rparr>\<rparr>))"

definition listTenants :: "platform \<Rightarrow> tenant_summary list" where
  "listTenants pl =
     map (\<lambda>t. tenant.extend t \<lparr>ts_activeKeyCount =
         length (filter (\<lambda>k. ak_tenantId k = tn_id t \<and> ak_revokedAt k = None) (pl_keys pl))\<rparr>)
       (sort_key (\<lambda>t. (tn_createdAt t, tn_id t)) (pl_tenants pl))"

definition or_keep :: "'a option \<Rightarrow> 'a \<Rightarrow> 'a" where
  "or_keep new old = (case new of Some x \<Rightarrow> x | None \<Rightarrow> old)"

definition change_tenant :: "string \<Rightarrow> (tenant \<Rightarrow> tenant) \<Rightarrow> platform \<Rightarrow> platform" where
  "change_tenant i f pl = pl\<lparr>pl_tenants := map (\<lambda>t. if tn_id t = i then f t else t) (pl_tenants pl)\<rparr>"

definition updateTenant ::
  "string \<Rightarrow> string option \<Rightarrow> tenant_status option \<Rightarrow> platform \<Rightarrow> tenant option \<times> platform" where
  "updateTenant i name status pl =
     (case getTenant i pl of
        None \<Rightarrow> (None, pl)
      | Some t \<Rightarrow>
          if tn_status t = DeletingTenant then (None, pl)
          else
            let pl' = change_tenant i (\<lambda>t. t\<lparr>tn_name := or_keep name (tn_name t), tn_status := or_keep status (tn_status t)\<rparr>) pl
            in (getTenant i pl', pl'))"

definition markTenantDeleting :: "string \<Rightarrow> platform \<Rightarrow> bool \<times> platform" where
  "markTenantDeleting i pl = (getTenant i pl \<noteq> None, change_tenant i (\<lambda>t. t\<lparr>tn_status := DeletingTenant\<rparr>) pl)"

text \<open>The row with the memberships that go with it.\<close>

definition drop_tenant :: "string \<Rightarrow> platform \<Rightarrow> platform" where
  "drop_tenant i pl = pl\<lparr>pl_tenants := filter (\<lambda>t. tn_id t \<noteq> i) (pl_tenants pl),
     pl_accounts := (pl_accounts pl)\<lparr>db_tenants := filter (\<lambda>t. t \<noteq> i) (db_tenants (pl_accounts pl)),
       db_memberships := filter (\<lambda>m. mb_tenantId m \<noteq> Some i) (db_memberships (pl_accounts pl))\<rparr>\<rparr>"

definition deleteTenantAndKeys :: "string \<Rightarrow> platform \<Rightarrow> bool \<times> platform" where
  "deleteTenantAndKeys i pl =
     (getTenant i pl \<noteq> None, drop_tenant i (pl\<lparr>pl_keys := filter (\<lambda>k. ak_tenantId k \<noteq> i) (pl_keys pl)\<rparr>))"

definition deleteTenant :: "string \<Rightarrow> platform \<Rightarrow> store_error option \<times> platform" where
  "deleteTenant i pl =
     (if list_ex (\<lambda>k. ak_tenantId k = i) (pl_keys pl) then (Some (PgError ''23503''), pl) else (None, drop_tenant i pl))"

section \<open>API keys\<close>

text \<open>
  \<open>atomically\<close> with the change made and a hook on the accounts (the audit log is there): the hook's
  failure undoes the change.
\<close>

definition with_hook :: "'r change_hook \<Rightarrow> 'r \<Rightarrow> platform \<Rightarrow> platform \<Rightarrow> (store_error + 'r) \<times> platform" where
  "with_hook hook r before pl =
     (case run_hook hook r (pl_accounts pl) of
        Inl e \<Rightarrow> (Inl e, before)
      | Inr db \<Rightarrow> (Inr r, pl\<lparr>pl_accounts := db\<rparr>))"

definition createApiKey ::
  "(string \<Rightarrow> string) \<Rightarrow> string \<Rightarrow> string \<Rightarrow> int \<Rightarrow> string \<Rightarrow> string \<Rightarrow> key_role option \<Rightarrow> string option \<Rightarrow>
     (api_key_public \<times> string) change_hook \<Rightarrow> platform \<Rightarrow> (store_error + api_key_public \<times> string) \<times> platform" where
  "createApiKey mac plaintext newId n tenantId name role createdBy hook pl =
     (let k = \<lparr>ak_id = newId, ak_tenantId = tenantId, ak_name = name,
            ak_role = (case role of Some r \<Rightarrow> r | None \<Rightarrow> ServiceRole), ak_createdBy = createdBy,
            ak_keyHash = mac plaintext, ak_createdAt = n, ak_lastUsedAt = None, ak_revokedAt = None\<rparr>
      in if list_ex (\<lambda>x. ak_id x = newId \<or> ak_keyHash x = mac plaintext) (pl_keys pl) then (Inl (PgError ''23505''), pl)
         else if getTenant tenantId pl = None \<or>
           (case createdBy of Some u \<Rightarrow> user_rows u (pl_accounts pl) = [] | None \<Rightarrow> False) then (Inl (PgError ''23503''), pl)
         else with_hook hook (public_key k, plaintext) pl (pl\<lparr>pl_keys := pl_keys pl @ [k]\<rparr>))"

definition listApiKeys :: "string \<Rightarrow> platform \<Rightarrow> api_key_public list" where
  "listApiKeys tenantId pl =
     map public_key (sort_key ak_createdAt (filter (\<lambda>k. ak_tenantId k = tenantId) (pl_keys pl)))"

definition tenant_active :: "string \<Rightarrow> platform \<Rightarrow> bool" where
  "tenant_active i pl \<longleftrightarrow> list_ex (\<lambda>t. tn_id t = i \<and> tn_status t = ActiveTenant) (pl_tenants pl)"

definition findActiveKey :: "(string \<Rightarrow> string) \<Rightarrow> string \<Rightarrow> platform \<Rightarrow> api_key_public option" where
  "findActiveKey mac plaintext pl =
     map_option public_key (List.find (\<lambda>k. ak_keyHash k = mac plaintext \<and> ak_revokedAt k = None \<and>
       tenant_active (ak_tenantId k) pl) (pl_keys pl))"

definition live_key_of :: "string \<Rightarrow> string \<Rightarrow> api_key \<Rightarrow> bool" where
  "live_key_of tenantId keyId k \<longleftrightarrow> ak_id k = keyId \<and> ak_tenantId k = tenantId \<and> ak_revokedAt k = None"

definition change_key :: "string \<Rightarrow> (api_key \<Rightarrow> api_key) \<Rightarrow> platform \<Rightarrow> platform" where
  "change_key keyId f pl = pl\<lparr>pl_keys := map (\<lambda>k. if ak_id k = keyId then f k else k) (pl_keys pl)\<rparr>"

text \<open>What \<open>work\<close> returns; nothing when there is no such active key.\<close>

definition setApiKeyRole ::
  "string \<Rightarrow> string \<Rightarrow> key_role \<Rightarrow> (api_key_public \<times> key_role) change_hook \<Rightarrow> platform \<Rightarrow>
     (store_error + (api_key_public \<times> key_role) option) \<times> platform" where
  "setApiKeyRole tenantId keyId role hook pl =
     (case List.find (live_key_of tenantId keyId) (pl_keys pl) of
        None \<Rightarrow> (Inr None, pl)
      | Some k \<Rightarrow>
          (case with_hook hook (public_key (k\<lparr>ak_role := role\<rparr>), ak_role k) pl
              (change_key keyId (\<lambda>k. k\<lparr>ak_role := role\<rparr>) pl) of
             (Inl e, pl') \<Rightarrow> (Inl e, pl')
           | (Inr r, pl') \<Rightarrow> (Inr (Some r), pl')))"

definition revokeApiKey ::
  "string \<Rightarrow> string \<Rightarrow> int \<Rightarrow> bool change_hook \<Rightarrow> platform \<Rightarrow> (store_error + bool) \<times> platform" where
  "revokeApiKey tenantId keyId n hook pl =
     (if list_ex (live_key_of tenantId keyId) (pl_keys pl)
      then with_hook hook True pl (change_key keyId (\<lambda>k. k\<lparr>ak_revokedAt := Some n\<rparr>) pl)
      else (Inr False, pl))"

section \<open>Operator keys\<close>

definition OPERATOR_KEY_PREFIX :: string where
  "OPERATOR_KEY_PREFIX = ''nxop_''"

definition operator_key_create ::
  "(string \<Rightarrow> string) \<Rightarrow> string \<Rightarrow> string \<Rightarrow> int \<Rightarrow> string \<Rightarrow> string option \<Rightarrow> int option \<Rightarrow>
     (operator_key \<times> string) change_hook \<Rightarrow> platform \<Rightarrow> (store_error + operator_key \<times> string) \<times> platform" where
  "operator_key_create mac random newId n name createdBy expiresAt hook pl =
     (let plaintext = OPERATOR_KEY_PREFIX @ random;
          k = \<lparr>ok_id = newId, ok_name = name, ok_keyHash = mac plaintext, ok_createdBy = createdBy, ok_createdAt = n,
            ok_lastUsedAt = None, ok_expiresAt = expiresAt, ok_revokedAt = None\<rparr>
      in if list_ex (\<lambda>x. ok_id x = newId \<or> ok_keyHash x = mac plaintext) (pl_operatorKeys pl) then (Inl (PgError ''23505''), pl)
         else if (case createdBy of Some u \<Rightarrow> user_rows u (pl_accounts pl) = [] | None \<Rightarrow> False) then (Inl (PgError ''23503''), pl)
         else with_hook hook (k, plaintext) pl (pl\<lparr>pl_operatorKeys := pl_operatorKeys pl @ [k]\<rparr>))"

text \<open>\<open>ORDER BY created_at DESC, id\<close>.\<close>

definition operator_key_list :: "platform \<Rightarrow> operator_key list" where
  "operator_key_list pl = sort_key (\<lambda>k. (- ok_createdAt k, ok_id k)) (pl_operatorKeys pl)"

definition operator_key_revoke ::
  "string \<Rightarrow> int \<Rightarrow> operator_key change_hook \<Rightarrow> platform \<Rightarrow> (store_error + operator_key option) \<times> platform" where
  "operator_key_revoke i n hook pl =
     (case List.find (\<lambda>k. ok_id k = i \<and> ok_revokedAt k = None) (pl_operatorKeys pl) of
        None \<Rightarrow> (Inr None, pl)
      | Some k \<Rightarrow>
          (case with_hook hook (k\<lparr>ok_revokedAt := Some n\<rparr>) pl
              (pl\<lparr>pl_operatorKeys := map (\<lambda>k. if ok_id k = i \<and> ok_revokedAt k = None then k\<lparr>ok_revokedAt := Some n\<rparr> else k)
                 (pl_operatorKeys pl)\<rparr>) of
             (Inl e, pl') \<Rightarrow> (Inl e, pl')
           | (Inr r, pl') \<Rightarrow> (Inr (Some r), pl')))"

definition usable_operator_key :: "string \<Rightarrow> int \<Rightarrow> operator_key \<Rightarrow> bool" where
  "usable_operator_key hash n k \<longleftrightarrow> ok_keyHash k = hash \<and> ok_revokedAt k = None \<and>
     (case ok_expiresAt k of None \<Rightarrow> True | Some x \<Rightarrow> n < x)"

definition operator_key_authenticate ::
  "(string \<Rightarrow> string) \<Rightarrow> int \<Rightarrow> string \<Rightarrow> platform \<Rightarrow> operator_key option \<times> platform" where
  "operator_key_authenticate mac n plaintext pl =
     (if take 5 plaintext \<noteq> OPERATOR_KEY_PREFIX then (None, pl)
      else
        (case List.find (usable_operator_key (mac plaintext) n) (pl_operatorKeys pl) of
           None \<Rightarrow> (None, pl)
         | Some k \<Rightarrow> (Some k, pl\<lparr>pl_operatorKeys :=
             map (\<lambda>x. if ok_id x = ok_id k then x\<lparr>ok_lastUsedAt := Some n\<rparr> else x) (pl_operatorKeys pl)\<rparr>)))"

section \<open>The keys and references of these tables\<close>

definition platform_ok :: "platform \<Rightarrow> bool" where
  "platform_ok pl \<longleftrightarrow> accounts_ok (pl_accounts pl) \<and> db_tenants (pl_accounts pl) = map tn_id (pl_tenants pl) \<and>
     distinct (map tn_id (pl_tenants pl)) \<and> distinct (map ak_id (pl_keys pl)) \<and> distinct (map ak_keyHash (pl_keys pl)) \<and>
     list_all (\<lambda>k. ak_tenantId k \<in> tn_id ` set (pl_tenants pl)) (pl_keys pl) \<and>
     distinct (map ok_id (pl_operatorKeys pl)) \<and> distinct (map ok_keyHash (pl_operatorKeys pl))"

end
