(* ===== verification/Api_Access.thy ===== *)
theory Api_Access
  imports Tenant_Keys Http_Api
begin

text \<open>
  Who gets in: \<open>auth/keyPermissions.ts\<close>, \<open>auth/adminKey.ts\<close>, \<open>auth/sessionCookie.ts\<close> and the middleware of
  \<open>http/middleware\<close>, composed as \<open>main.ts\<close> mounts it in front of a tenant's routes and of the platform's.
  A request is a record of what these functions read of it; the session cookie is the parsed cookie. A
  middleware answers, or passes the request on with the tenant and the principal it found. The keyed
  hash is a parameter, the clock an argument of the environment.
\<close>

section \<open>Requests\<close>

record http_request =
  rq_method :: string
  rq_path :: string
  rq_urlOrigin :: string
  rq_authorization :: "string option"
  rq_origin :: "string option"
  rq_console :: "string option"
  rq_tenant :: "string option"
  rq_session :: "string option"
  rq_forwardedFor :: "string option"
  rq_remote :: "string option"

datatype access =
    Denied nat string
  | Open
  | Granted "string option" principal

definition js_upper_char :: "char \<Rightarrow> char" where
  "js_upper_char c = (let n = of_char c :: nat in
     if 97 \<le> n \<and> n \<le> 122 then char_of (n - 32) else c)"

text \<open>\<open>toUpperCase\<close> on the characters a method is written with.\<close>

definition js_upper :: "string \<Rightarrow> string" where
  "js_upper s = map js_upper_char s"

text \<open>\<open>const [scheme, key] = header.split(' ')\<close>, the key if the scheme is \<open>Bearer\<close> and it is not empty.\<close>

definition bearer_of :: "string \<Rightarrow> string option" where
  "bearer_of h =
     (case split_on (CHR '' '') h of
        scheme # key # xs \<Rightarrow> if scheme = ''Bearer'' \<and> key \<noteq> [] then Some key else None
      | _ \<Rightarrow> None)"

definition isAdminKeyHeader :: "string option \<Rightarrow> string \<Rightarrow> bool" where
  "isAdminKeyHeader h adminApiKey =
     (if \<not> truthy h \<or> adminApiKey = [] then False
      else (case bearer_of (the h) of None \<Rightarrow> False | Some key \<Rightarrow> key = adminApiKey))"

section \<open>The client's address\<close>

text \<open>\<open>entries[entries.length - trustedProxies]\<close> is \<open>undefined\<close> below zero.\<close>

definition clientIp :: "http_request \<Rightarrow> nat \<Rightarrow> string" where
  "clientIp rq trustedProxies =
     (if 0 < trustedProxies then
        let entries = filter (\<lambda>e. e \<noteq> []) (map js_trim (split_on (CHR '','') (case rq_forwardedFor rq of Some h \<Rightarrow> h | None \<Rightarrow> [])))
        in if trustedProxies \<le> length entries then entries ! (length entries - trustedProxies) else ''unknown''
      else (case rq_remote rq of Some a \<Rightarrow> a | None \<Rightarrow> ''unknown''))"

section \<open>Which routes a key may call\<close>

text \<open>
  The regular expressions of \<open>SERVICE\<close> match a path segment by segment: a word, one of two words, or
  any segment that is not empty.
\<close>

datatype segment = Word "string list" | Anything

fun segment_fits :: "segment \<Rightarrow> string \<Rightarrow> bool" where
  "segment_fits (Word ws) x = (x \<in> set ws)"
| "segment_fits Anything x = (x \<noteq> [])"

definition path_fits :: "segment list \<Rightarrow> string \<Rightarrow> bool" where
  "path_fits pattern path = list_all2 segment_fits (Word [[]] # pattern) (split_on (CHR ''/'') path)"

definition SERVICE :: "(string \<times> segment list) list" where
  "SERVICE =
    [(''GET'', [Word [''definitions'']]),
     (''POST'', [Word [''definitions'']]),
     (''GET'', [Word [''definitions''], Anything]),
     (''GET'', [Word [''definitions''], Anything, Word [''xml'']]),
     (''POST'', [Word [''definitions''], Anything, Word [''instances'']]),
     (''GET'', [Word [''instances'']]),
     (''GET'', [Word [''instances''], Anything]),
     (''GET'', [Word [''instances''], Anything, Word [''events'', ''history'']]),
     (''POST'', [Word [''instances''], Anything, Word [''commands'']]),
     (''GET'', [Word [''tasks'']]),
     (''GET'', [Word [''tasks''], Anything]),
     (''POST'', [Word [''tasks''], Anything, Word [''complete'', ''claim'', ''release'']]),
     (''POST'', [Word [''messages'', ''signals'']])]"

definition keyMayCall :: "key_role \<Rightarrow> string \<Rightarrow> string \<Rightarrow> bool" where
  "keyMayCall role verb path \<longleftrightarrow>
     role = ManagerRole \<or> list_ex (\<lambda>(v, pattern). v = js_upper verb \<and> path_fits pattern path) SERVICE"

section \<open>Cross-site requests\<close>

definition SAFE_METHODS :: "string list" where
  "SAFE_METHODS = [''GET'', ''HEAD'', ''OPTIONS'']"

definition isCsrfSafe :: "string option \<Rightarrow> http_request \<Rightarrow> bool" where
  "isCsrfSafe publicOrigin rq \<longleftrightarrow>
     rq_method rq \<in> set SAFE_METHODS \<or>
     rq_console rq = Some ''1'' \<and>
     (rq_origin rq = None \<or> rq_origin rq = Some (case publicOrigin of Some o' \<Rightarrow> o' | None \<Rightarrow> rq_urlOrigin rq))"

definition csrf_failure :: access where
  "csrf_failure = Denied 403 ''CSRF''"

section \<open>The tenant's routes\<close>

text \<open>
  What the middleware is given: the keyed hash of keys, the sessions, the origin, the clock, the admin key,
  whether operator keys are accepted, and the tenants whose schema is behind.
\<close>

record access_env =
  ae_mac :: "string \<Rightarrow> string"
  ae_sessions :: session_options
  ae_publicOrigin :: "string option"
  ae_now :: int
  ae_adminApiKey :: string
  ae_operatorKeys :: bool
  ae_behind :: "string list"

definition unauthorized :: access where
  "unauthorized = Denied 401 ''unauthorized''"

definition user_principal :: "user \<Rightarrow> accounts \<Rightarrow> principal" where
  "user_principal u db = UserPrincipal u (listMemberships (u_id u) db)"

definition resolve_session :: "access_env \<Rightarrow> string \<Rightarrow> platform \<Rightarrow> user option \<times> platform" where
  "resolve_session env token pl =
     (case session_resolve (ae_sessions env) token (ae_now env) (pl_accounts pl) of
        (r, db) \<Rightarrow> (map_option fst r, pl\<lparr>pl_accounts := db\<rparr>))"

definition authenticateSession :: "access_env \<Rightarrow> http_request \<Rightarrow> string \<Rightarrow> platform \<Rightarrow> access \<times> platform" where
  "authenticateSession env rq token pl =
     (case resolve_session env token pl of
        (None, pl') \<Rightarrow> (unauthorized, pl')
      | (Some u, pl') \<Rightarrow>
          (if \<not> isCsrfSafe (ae_publicOrigin env) rq then csrf_failure
           else if \<not> truthy (rq_tenant rq) then Denied 400 ''TENANT_REQUIRED''
           else
             let t = the (rq_tenant rq); p = user_principal u (pl_accounts pl') in
             if \<not> canUseTenant p t then Denied 403 ''FORBIDDEN''
             else if \<not> tenant_active t pl' then Denied 403 ''FORBIDDEN''
             else Granted (Some t) p, pl'))"

text \<open>The row of the query, which looks at the tenant's status but leaves a revoked key to the code.\<close>

definition key_row :: "access_env \<Rightarrow> string \<Rightarrow> platform \<Rightarrow> api_key option" where
  "key_row env key pl =
     List.find (\<lambda>k. ak_keyHash k = ae_mac env key \<and> tenant_active (ak_tenantId k) pl) (pl_keys pl)"

definition key_used :: "access_env \<Rightarrow> string \<Rightarrow> platform \<Rightarrow> platform" where
  "key_used env key pl = pl\<lparr>pl_keys :=
     map (\<lambda>k. if ak_keyHash k = ae_mac env key then k\<lparr>ak_lastUsedAt := Some (ae_now env)\<rparr> else k) (pl_keys pl)\<rparr>"

definition authMiddleware :: "access_env \<Rightarrow> http_request \<Rightarrow> platform \<Rightarrow> access \<times> platform" where
  "authMiddleware env rq pl =
     (if rq_path rq = ''/health'' then (Open, pl)
      else if \<not> truthy (rq_authorization rq) then
        (if truthy (rq_session rq) then authenticateSession env rq (the (rq_session rq)) pl else (unauthorized, pl))
      else
        (case bearer_of (the (rq_authorization rq)) of
           None \<Rightarrow> (unauthorized, pl)
         | Some key \<Rightarrow>
             (case key_row env key pl of
                None \<Rightarrow> (unauthorized, pl)
              | Some k \<Rightarrow>
                  if ak_revokedAt k \<noteq> None then (unauthorized, pl)
                  else (Granted (Some (ak_tenantId k)) (ApiKeyPrincipal (ak_tenantId k) (ak_id k) (ak_name k) (ak_role k)),
                        key_used env key pl))))"

definition keyRoleMiddleware :: "http_request \<Rightarrow> access \<Rightarrow> access" where
  "keyRoleMiddleware rq a =
     (case a of
        Granted t (ApiKeyPrincipal t' i nm role) \<Rightarrow>
          if \<not> keyMayCall role (rq_method rq) (rq_path rq) then Denied 403 ''FORBIDDEN'' else a
      | _ \<Rightarrow> a)"

definition tenantSchemaGuard :: "access_env \<Rightarrow> access \<Rightarrow> access" where
  "tenantSchemaGuard env a =
     (case a of
        Granted (Some t) p \<Rightarrow> if t \<noteq> [] \<and> t \<in> set (ae_behind env) then Denied 503 ''TENANT_SCHEMA_OUTDATED'' else a
      | _ \<Rightarrow> a)"

text \<open>\<open>main.ts\<close>: the authentication, the role of the key, the schema.\<close>

definition tenant_access :: "access_env \<Rightarrow> http_request \<Rightarrow> platform \<Rightarrow> access \<times> platform" where
  "tenant_access env rq pl =
     (case authMiddleware env rq pl of
        (a, pl') \<Rightarrow> (tenantSchemaGuard env (keyRoleMiddleware rq a), pl'))"

section \<open>The platform's routes\<close>

definition createGuard :: "(principal \<Rightarrow> bool) \<Rightarrow> access_env \<Rightarrow> http_request \<Rightarrow> platform \<Rightarrow> access \<times> platform" where
  "createGuard allow env rq pl =
     (if truthy (rq_authorization rq) then
        (let (p, pl') =
           (if isAdminKeyHeader (rq_authorization rq) (ae_adminApiKey env) then (Some AdminKeyPrincipal, pl)
            else
              (case bearer_of (the (rq_authorization rq)) of
                 None \<Rightarrow> (None, pl)
               | Some token \<Rightarrow>
                   if \<not> ae_operatorKeys env then (None, pl)
                   else
                     (case operator_key_authenticate (ae_mac env) (ae_now env) token pl of
                        (None, pl') \<Rightarrow> (None, pl')
                      | (Some k, pl') \<Rightarrow> (Some (OperatorKeyPrincipal (ok_id k) (ok_name k)), pl'))))
         in (case p of
               None \<Rightarrow> (Denied 403 ''FORBIDDEN'', pl')
             | Some p \<Rightarrow> if \<not> allow p then (Denied 403 ''FORBIDDEN'', pl') else (Granted None p, pl')))
      else
        (case (if truthy (rq_session rq) then resolve_session env (the (rq_session rq)) pl else (None, pl)) of
           (None, pl') \<Rightarrow> (Denied 401 ''UNAUTHENTICATED'', pl')
         | (Some u, pl') \<Rightarrow>
             (if \<not> isCsrfSafe (ae_publicOrigin env) rq then csrf_failure
              else
                let p = user_principal u (pl_accounts pl') in
                if \<not> allow p then Denied 403 ''FORBIDDEN'' else Granted None p, pl')))"

definition may_operate :: "principal \<Rightarrow> bool" where
  "may_operate p \<longleftrightarrow> isOperator p"

definition may_administer_people :: "principal \<Rightarrow> bool" where
  "may_administer_people p \<longleftrightarrow> isOperator p \<or> managedTenantIds p \<noteq> []"

fun is_operator_key :: "principal \<Rightarrow> bool" where
  "is_operator_key (OperatorKeyPrincipal i n) = True"
| "is_operator_key _ = False"

definition may_administer_keys :: "principal \<Rightarrow> bool" where
  "may_administer_keys p \<longleftrightarrow> isOperator p \<and> \<not> is_operator_key p"

definition operatorGuard :: "access_env \<Rightarrow> http_request \<Rightarrow> platform \<Rightarrow> access \<times> platform" where
  "operatorGuard = createGuard may_operate"

definition peopleAdminGuard :: "access_env \<Rightarrow> http_request \<Rightarrow> platform \<Rightarrow> access \<times> platform" where
  "peopleAdminGuard = createGuard may_administer_people"

definition operatorKeyAdminGuard :: "access_env \<Rightarrow> http_request \<Rightarrow> platform \<Rightarrow> access \<times> platform" where
  "operatorKeyAdminGuard = createGuard may_administer_keys"

end
