(* ===== verification/Platform_Api.thy ===== *)
theory Platform_Api
  imports Api_Access
begin

text \<open>
  The platform's own routes: \<open>http/tenants.ts\<close> (tenants and their keys) and \<open>http/operatorKeys.ts\<close>. A
  handler is a function of its environment, the principal the guard set, what it reads of the request
  and the platform. The environment holds the clock, the random values, what happens to audit entries and
  which of the steps outside the tables fail; the per-tenant numbers of \<open>GET /tenants?counts=true\<close> are left
  out. Texts of messages are left out.
\<close>

section \<open>Replies and environment\<close>

datatype platform_reply =
    Rejected nat string
  | ThrewReply store_error
  | TenantCreated tenant
  | TenantReply tenant
  | TenantsReply "tenant_summary list"
  | KeyCreated api_key_public string
  | KeyReply api_key_public
  | KeysReply "api_key_public list"
  | OperatorKeyCreated operator_key string
  | OperatorKeysReply "operator_key list"
  | SuccessReply

text \<open>
  \<open>pe_audit\<close>: no audit log, or the error an entry is refused with, if any. \<open>pe_provision\<close> and \<open>pe_step\<close> say
  whether creating a schema, and each of the four steps of a deletion, works.
\<close>

record platform_env =
  pe_mac :: "string \<Rightarrow> string"
  pe_now :: int
  pe_plaintext :: string
  pe_newId :: string
  pe_auditId :: "nat \<Rightarrow> string"
  pe_audit :: "store_error option option"
  pe_provision :: bool
  pe_step :: "nat \<Rightarrow> bool"
  pe_maxDays :: "int option"
  pe_parse_date :: "string \<Rightarrow> int option"
  pe_iso :: "int \<Rightarrow> string"

definition invalid_request :: platform_reply where
  "invalid_request = Rejected 400 ''VALIDATION_ERROR''"

definition absent :: platform_reply where
  "absent = Rejected 404 ''NOT_FOUND''"

definition actor_of :: "principal option \<Rightarrow> audit_actor" where
  "actor_of p = (case p of Some p \<Rightarrow> auditActorOf p | None \<Rightarrow> AdminKeyActor)"

fun actor_user :: "audit_actor \<Rightarrow> string option" where
  "actor_user (UserActor i l) = Some i"
| "actor_user _ = None"

definition entry_of :: "principal option \<Rightarrow> string \<Rightarrow> string list option \<Rightarrow> string \<Rightarrow> (string \<times> jsval) list option \<Rightarrow> audit_input" where
  "entry_of p action tenants target details =
     \<lparr>ai_action = action, ai_actor = actor_of p, ai_tenantIds = tenants, ai_target = Some target, ai_details = details\<rparr>"

definition write_entry :: "platform_env \<Rightarrow> nat \<Rightarrow> audit_input \<Rightarrow> accounts \<Rightarrow> accounts" where
  "write_entry env k input db = db\<lparr>db_audit := db_audit db @ [audit_row (pe_auditId env k) (pe_now env) input]\<rparr>"

text \<open>\<open>record\<close> swallows the error, \<open>recordStrict\<close> throws it.\<close>

definition record_loosely :: "platform_env \<Rightarrow> nat \<Rightarrow> audit_input \<Rightarrow> platform \<Rightarrow> platform" where
  "record_loosely env k input pl =
     (if pe_audit env = Some None then pl\<lparr>pl_accounts := write_entry env k input (pl_accounts pl)\<rparr> else pl)"

definition record_strictly :: "platform_env \<Rightarrow> nat \<Rightarrow> audit_input \<Rightarrow> platform \<Rightarrow> store_error + platform" where
  "record_strictly env k input pl =
     (case pe_audit env of Some (Some e) \<Rightarrow> Inl e | _ \<Rightarrow> Inr (record_loosely env k input pl))"

text \<open>A \<open>within\<close> that writes an entry, for some results none.\<close>

definition strict_hook :: "platform_env \<Rightarrow> ('r \<Rightarrow> audit_input option) \<Rightarrow> 'r change_hook" where
  "strict_hook env input =
     (case pe_audit env of
        None \<Rightarrow> None
      | Some failure \<Rightarrow> Some (\<lambda>r db.
          case input r of
            None \<Rightarrow> Inr db
          | Some i \<Rightarrow> (case failure of Some e \<Rightarrow> Inl e | None \<Rightarrow> Inr (write_entry env 0 i db))))"

section \<open>Reading a body\<close>

text \<open>A body is the JSON text read, nothing if it is no JSON; a member that is missing is \<open>undefined\<close> (\<open>member\<close>).\<close>

fun body_members :: "jsval option \<Rightarrow> (string \<times> jsval) list option" where
  "body_members (Some (JObject ms)) = Some ms"
| "body_members _ = None"

definition MAX_NAME :: nat where
  "MAX_NAME = 255"

text \<open>A text that is not blank and not too long.\<close>

fun name_in :: "jsval \<Rightarrow> string option" where
  "name_in (JString s) = (if js_trim s = [] \<or> MAX_NAME < length s then None else Some s)"
| "name_in _ = None"

definition id_char :: "char \<Rightarrow> bool" where
  "id_char c = (let n = of_char c :: nat in
     97 \<le> n \<and> n \<le> 122 \<or> 65 \<le> n \<and> n \<le> 90 \<or> 48 \<le> n \<and> n \<le> 57 \<or> c = CHR ''_'' \<or> c = CHR ''-'')"

definition VALID_TENANT_ID :: "string \<Rightarrow> bool" where
  "VALID_TENANT_ID s \<longleftrightarrow> s \<noteq> [] \<and> list_all id_char s"

definition KEY_ROLES :: "(string \<times> key_role) list" where
  "KEY_ROLES = [(''service'', ServiceRole), (''tenant_manager'', ManagerRole)]"

fun key_role_in :: "jsval \<Rightarrow> key_role option" where
  "key_role_in (JString s) = map_of KEY_ROLES s"
| "key_role_in _ = None"

definition key_role_name :: "key_role \<Rightarrow> string" where
  "key_role_name r = (case r of ServiceRole \<Rightarrow> ''service'' | ManagerRole \<Rightarrow> ''tenant_manager'')"

section \<open>Tenants\<close>

definition create_tenant :: "platform_env \<Rightarrow> principal option \<Rightarrow> jsval option \<Rightarrow> platform \<Rightarrow> platform_reply \<times> platform" where
  "create_tenant env p body pl =
     (case body_members body of
        None \<Rightarrow> (invalid_request, pl)
      | Some ms \<Rightarrow>
          (case member ms ''id'' of
             JString i \<Rightarrow>
               (case name_in (member ms ''name'') of
                  None \<Rightarrow> (invalid_request, pl)
                | Some name \<Rightarrow>
                    if \<not> VALID_TENANT_ID i then (invalid_request, pl)
                    else
                      (case createTenant i name (pe_now env) pl of
                         (Inl e, pl1) \<Rightarrow> (if e = PgError ''23505'' then Rejected 409 ''CONFLICT'' else ThrewReply e, pl1)
                       | (Inr t, pl1) \<Rightarrow>
                           if \<not> pe_provision env then (Rejected 500 ''PROVISIONING_FAILED'', snd (deleteTenant i pl1))
                           else (TenantCreated t, record_loosely env 0
                             (entry_of p ''tenant.create'' (Some [i]) i (Some [(''name'', JString (tn_name t))])) pl1)))
           | _ \<Rightarrow> (invalid_request, pl)))"

definition list_tenants :: "platform \<Rightarrow> platform_reply \<times> platform" where
  "list_tenants pl = (TenantsReply (listTenants pl), pl)"

definition get_tenant :: "string \<Rightarrow> platform \<Rightarrow> platform_reply \<times> platform" where
  "get_tenant i pl = (case getTenant i pl of None \<Rightarrow> (absent, pl) | Some t \<Rightarrow> (TenantReply t, pl))"

text \<open>The changes asked for: refused, or the new name and the new status.\<close>

definition tenant_changes :: "(string \<times> jsval) list \<Rightarrow> (string option \<times> tenant_status option) option" where
  "tenant_changes ms =
     (let name = member ms ''name''; status = member ms ''status'' in
      if name \<noteq> JUndefined \<and> name_in name = None then None
      else if status \<noteq> JUndefined \<and> status \<noteq> JString ''active'' \<and> status \<noteq> JString ''suspended'' then None
      else if name = JUndefined \<and> status = JUndefined then None
      else Some (map_option js_trim (name_in name),
        if status = JUndefined then None else Some (if status = JString ''active'' then ActiveTenant else SuspendedTenant)))"

definition patch_tenant ::
  "platform_env \<Rightarrow> principal option \<Rightarrow> string \<Rightarrow> jsval option \<Rightarrow> platform \<Rightarrow> platform_reply \<times> platform" where
  "patch_tenant env p i body pl =
     (case body_members body of
        None \<Rightarrow> (invalid_request, pl)
      | Some ms \<Rightarrow>
          (case tenant_changes ms of
             None \<Rightarrow> (invalid_request, pl)
           | Some (name, status) \<Rightarrow>
               (case updateTenant i name status pl of
                  (None, pl1) \<Rightarrow> (if getTenant i pl1 \<noteq> None then Rejected 409 ''CONFLICT'' else absent, pl1)
                | (Some t, pl1) \<Rightarrow>
                    let pl2 = (case status of
                          None \<Rightarrow> pl1
                        | Some s \<Rightarrow> record_loosely env 0 (entry_of p
                            (if s = SuspendedTenant then ''tenant.suspend'' else ''tenant.reactivate'') (Some [i]) i None) pl1);
                        pl3 = (case name of
                          None \<Rightarrow> pl2
                        | Some n \<Rightarrow> record_loosely env 1 (entry_of p ''tenant.rename'' (Some [i]) i (Some [(''name'', JString n)])) pl2)
                    in (TenantReply t, pl3))))"

definition PROTECTED_TENANT_ID :: string where
  "PROTECTED_TENANT_ID = ''default''"

text \<open>
  The four steps of a deletion: the mark, the host's callback, the schema, the rows. The first that fails
  ends it; what was done before stays.
\<close>

definition delete_steps :: "platform_env \<Rightarrow> string \<Rightarrow> platform \<Rightarrow> bool \<times> platform" where
  "delete_steps env i pl =
     (if \<not> pe_step env 0 then (False, pl)
      else
        let pl1 = snd (markTenantDeleting i pl) in
        if \<not> pe_step env 1 \<or> \<not> pe_step env 2 \<or> \<not> pe_step env 3 then (False, pl1)
        else (True, snd (deleteTenantAndKeys i pl1)))"

definition delete_tenant :: "platform_env \<Rightarrow> principal option \<Rightarrow> string \<Rightarrow> platform \<Rightarrow> platform_reply \<times> platform" where
  "delete_tenant env p i pl =
     (if i = PROTECTED_TENANT_ID then (Rejected 409 ''CONFLICT'', pl)
      else if getTenant i pl = None then (absent, pl)
      else
        (case record_strictly env 0 (entry_of p ''tenant.delete.requested'' (Some [i]) i None) pl of
           Inl e \<Rightarrow> (ThrewReply e, pl)
         | Inr pl1 \<Rightarrow>
             (case delete_steps env i pl1 of
                (False, pl2) \<Rightarrow> (Rejected 500 ''DELETE_FAILED'', pl2)
              | (True, pl2) \<Rightarrow>
                  (SuccessReply, record_loosely env 1 (entry_of p ''tenant.delete'' (Some [i]) i None) pl2))))"

section \<open>A tenant's keys\<close>

definition mayGrantManagerKey :: "principal option \<Rightarrow> bool" where
  "mayGrantManagerKey p = (case p of None \<Rightarrow> True | Some p \<Rightarrow> isSystemAdmin p)"

definition create_key ::
  "platform_env \<Rightarrow> principal option \<Rightarrow> string \<Rightarrow> jsval option \<Rightarrow> platform \<Rightarrow> platform_reply \<times> platform" where
  "create_key env p tenantId body pl =
     (case body_members body of
        None \<Rightarrow> (invalid_request, pl)
      | Some ms \<Rightarrow>
          (case name_in (member ms ''name'') of
             None \<Rightarrow> (invalid_request, pl)
           | Some name \<Rightarrow>
               let role = key_role_in (member ms ''role'') in
               if member ms ''role'' \<noteq> JUndefined \<and> role = None then (invalid_request, pl)
               else if role = Some ManagerRole \<and> \<not> mayGrantManagerKey p then (Rejected 403 ''FORBIDDEN'', pl)
               else
                 (case getTenant tenantId pl of
                    None \<Rightarrow> (absent, pl)
                  | Some t \<Rightarrow>
                      if tn_status t \<noteq> ActiveTenant then (Rejected 403 ''FORBIDDEN'', pl)
                      else
                        (case createApiKey (pe_mac env) (pe_plaintext env) (pe_newId env) (pe_now env) tenantId (js_trim name) role
                            (actor_user (actor_of p))
                            (strict_hook env (\<lambda>(k, plaintext). Some (entry_of p ''key.create'' (Some [tenantId]) (kp_id k)
                               (Some [(''name'', JString (kp_name k)), (''role'', JString (key_role_name (kp_role k)))])))) pl of
                           (Inl e, pl1) \<Rightarrow> (ThrewReply e, pl1)
                         | (Inr (k, plaintext), pl1) \<Rightarrow> (KeyCreated k plaintext, pl1)))))"

definition list_keys :: "string \<Rightarrow> platform \<Rightarrow> platform_reply \<times> platform" where
  "list_keys tenantId pl =
     (case getTenant tenantId pl of None \<Rightarrow> (absent, pl) | Some t \<Rightarrow> (KeysReply (listApiKeys tenantId pl), pl))"

definition patch_key ::
  "platform_env \<Rightarrow> principal option \<Rightarrow> string \<Rightarrow> string \<Rightarrow> jsval option \<Rightarrow> platform \<Rightarrow> platform_reply \<times> platform" where
  "patch_key env p tenantId keyId body pl =
     (case body_members body of
        None \<Rightarrow> (invalid_request, pl)
      | Some ms \<Rightarrow>
          (case key_role_in (member ms ''role'') of
             None \<Rightarrow> (invalid_request, pl)
           | Some role \<Rightarrow>
               if role = ManagerRole \<and> \<not> mayGrantManagerKey p then (Rejected 403 ''FORBIDDEN'', pl)
               else if getTenant tenantId pl = None then (absent, pl)
               else
                 (case setApiKeyRole tenantId keyId role
                     (strict_hook env (\<lambda>(k, previous).
                        if previous = kp_role k then None
                        else Some (entry_of p ''key.role'' (Some [tenantId]) keyId
                          (Some [(''name'', JString (kp_name k)), (''from'', JString (key_role_name previous)),
                            (''to'', JString (key_role_name (kp_role k)))])))) pl of
                    (Inl e, pl1) \<Rightarrow> (ThrewReply e, pl1)
                  | (Inr None, pl1) \<Rightarrow> (absent, pl1)
                  | (Inr (Some (k, previous)), pl1) \<Rightarrow> (KeyReply k, pl1))))"

definition revoke_key :: "platform_env \<Rightarrow> principal option \<Rightarrow> string \<Rightarrow> string \<Rightarrow> platform \<Rightarrow> platform_reply \<times> platform" where
  "revoke_key env p tenantId keyId pl =
     (if getTenant tenantId pl = None then (absent, pl)
      else
        (case revokeApiKey tenantId keyId (pe_now env)
            (strict_hook env (\<lambda>_. Some (entry_of p ''key.revoke'' (Some [tenantId]) keyId None))) pl of
           (Inl e, pl1) \<Rightarrow> (ThrewReply e, pl1)
         | (Inr False, pl1) \<Rightarrow> (absent, pl1)
         | (Inr True, pl1) \<Rightarrow> (SuccessReply, pl1)))"

section \<open>Operator keys\<close>

definition DAY_MS :: int where
  "DAY_MS = 86400000"

text \<open>The expiry asked for: refused, or none, or a moment to come; then the limit of the configuration.\<close>

definition expiry_in :: "platform_env \<Rightarrow> jsval \<Rightarrow> int option option" where
  "expiry_in env v =
     (if v = JUndefined \<or> v = JNull then Some None
      else
        (case (case v of JString s \<Rightarrow> pe_parse_date env s | _ \<Rightarrow> None) of
           None \<Rightarrow> None
         | Some x \<Rightarrow> if x \<le> pe_now env then None else Some (Some x)))"

definition within_limit :: "platform_env \<Rightarrow> int option \<Rightarrow> bool" where
  "within_limit env expires =
     (case pe_maxDays env of
        None \<Rightarrow> True
      | Some d \<Rightarrow> (case expires of None \<Rightarrow> False | Some x \<Rightarrow> x \<le> pe_now env + d * DAY_MS))"

definition list_operator_keys :: "platform \<Rightarrow> platform_reply \<times> platform" where
  "list_operator_keys pl = (OperatorKeysReply (operator_key_list pl), pl)"

definition create_operator_key :: "platform_env \<Rightarrow> principal option \<Rightarrow> jsval option \<Rightarrow> platform \<Rightarrow> platform_reply \<times> platform" where
  "create_operator_key env p body pl =
     (case body_members body of
        None \<Rightarrow> (invalid_request, pl)
      | Some ms \<Rightarrow>
          (case name_in (member ms ''name'') of
             None \<Rightarrow> (invalid_request, pl)
           | Some name \<Rightarrow>
               (case expiry_in env (member ms ''expiresAt'') of
                  None \<Rightarrow> (invalid_request, pl)
                | Some expires \<Rightarrow>
                    if \<not> within_limit env expires then (invalid_request, pl)
                    else
                      (case operator_key_create (pe_mac env) (pe_plaintext env) (pe_newId env) (pe_now env) (js_trim name)
                          (actor_user (actor_of p)) expires
                          (strict_hook env (\<lambda>(k, plaintext). Some (entry_of p ''operator-key.create'' None (ok_id k)
                             (Some [(''name'', JString (ok_name k)),
                               (''expiresAt'', case ok_expiresAt k of None \<Rightarrow> JNull | Some x \<Rightarrow> JString (pe_iso env x))])))) pl of
                         (Inl e, pl1) \<Rightarrow> (ThrewReply e, pl1)
                       | (Inr (k, plaintext), pl1) \<Rightarrow> (OperatorKeyCreated k plaintext, pl1)))))"

definition revoke_operator_key :: "platform_env \<Rightarrow> principal option \<Rightarrow> string \<Rightarrow> platform \<Rightarrow> platform_reply \<times> platform" where
  "revoke_operator_key env p i pl =
     (case operator_key_revoke i (pe_now env)
         (strict_hook env (\<lambda>k. Some (entry_of p ''operator-key.revoke'' None i (Some [(''name'', JString (ok_name k))])))) pl of
        (Inl e, pl1) \<Rightarrow> (ThrewReply e, pl1)
      | (Inr None, pl1) \<Rightarrow> (absent, pl1)
      | (Inr (Some k), pl1) \<Rightarrow> (SuccessReply, pl1))"

section \<open>The routers behind their guards\<close>

datatype platform_request =
    CreateTenant "jsval option"
  | ListTenants
  | GetTenant string
  | PatchTenant string "jsval option"
  | RemoveTenant string
  | CreateKey string "jsval option"
  | ListKeys string
  | PatchKey string string "jsval option"
  | RevokeKey string string
  | ListOperatorKeys
  | CreateOperatorKey "jsval option"
  | RevokeOperatorKey string

fun about_operator_keys :: "platform_request \<Rightarrow> bool" where
  "about_operator_keys ListOperatorKeys = True"
| "about_operator_keys (CreateOperatorKey b) = True"
| "about_operator_keys (RevokeOperatorKey i) = True"
| "about_operator_keys _ = False"

fun route :: "platform_env \<Rightarrow> principal option \<Rightarrow> platform_request \<Rightarrow> platform \<Rightarrow> platform_reply \<times> platform" where
  "route env p (CreateTenant b) = create_tenant env p b"
| "route env p ListTenants = list_tenants"
| "route env p (GetTenant i) = get_tenant i"
| "route env p (PatchTenant i b) = patch_tenant env p i b"
| "route env p (RemoveTenant i) = delete_tenant env p i"
| "route env p (CreateKey t b) = create_key env p t b"
| "route env p (ListKeys t) = list_keys t"
| "route env p (PatchKey t k b) = patch_key env p t k b"
| "route env p (RevokeKey t k) = revoke_key env p t k"
| "route env p ListOperatorKeys = list_operator_keys"
| "route env p (CreateOperatorKey b) = create_operator_key env p b"
| "route env p (RevokeOperatorKey i) = revoke_operator_key env p i"

text \<open>\<open>main.ts\<close>: the tenants behind the guard of operators, the operator keys behind their own.\<close>

definition platform_request ::
  "access_env \<Rightarrow> platform_env \<Rightarrow> http_request \<Rightarrow> platform_request \<Rightarrow> platform \<Rightarrow> platform_reply \<times> platform" where
  "platform_request ae env rq r pl =
     (case (if about_operator_keys r then operatorKeyAdminGuard ae rq pl else operatorGuard ae rq pl) of
        (Granted t p, pl1) \<Rightarrow> route env (Some p) r pl1
      | (Denied n e, pl1) \<Rightarrow> (Rejected n e, pl1)
      | (Open, pl1) \<Rightarrow> (Rejected 404 ''NOT_FOUND'', pl1))"

end
