(* ===== verification/Access_Correctness.thy ===== *)
theory Access_Correctness
  imports Platform_Api
begin

text \<open>
  What the guards, the middleware and the platform's routes guarantee together. A request's effect on the
  tables is described once, by the relations \<open>key_effect\<close> and \<open>operator_effect\<close>; the invariant of the tables,
  the rules about who may create which key and what revocation means follow from them.
\<close>

section \<open>What a route does to the keys\<close>

definition tenant_ids :: "platform \<Rightarrow> string set" where
  "tenant_ids pl = tn_id ` set (pl_tenants pl)"

lemma tenant_ids_map: "map tn_id (pl_tenants pl') = map tn_id (pl_tenants pl) \<Longrightarrow> tenant_ids pl' = tenant_ids pl"
  unfolding tenant_ids_def by (metis list.set_map)

inductive key_effect :: "platform_env \<Rightarrow> principal option \<Rightarrow> platform \<Rightarrow> platform \<Rightarrow> bool" for env p where
  keys_same: "pl_keys pl' = pl_keys pl \<Longrightarrow> tenant_ids pl \<subseteq> tenant_ids pl' \<Longrightarrow> key_effect env p pl pl'"
| key_created: "pl_keys pl' = pl_keys pl @ [k] \<Longrightarrow> tenant_ids pl' = tenant_ids pl \<Longrightarrow>
    ak_keyHash k = pe_mac env (pe_plaintext env) \<Longrightarrow> ak_keyHash k \<notin> ak_keyHash ` set (pl_keys pl) \<Longrightarrow>
    ak_id k \<notin> ak_id ` set (pl_keys pl) \<Longrightarrow> ak_tenantId k \<in> tenant_ids pl \<Longrightarrow>
    (ak_role k = ManagerRole \<longrightarrow> mayGrantManagerKey p) \<Longrightarrow> key_effect env p pl pl'"
| key_changed: "pl_keys pl' = map (\<lambda>k. if ak_id k = i then f k else k) (pl_keys pl) \<Longrightarrow> tenant_ids pl' = tenant_ids pl \<Longrightarrow>
    f = (\<lambda>k. k\<lparr>ak_role := role\<rparr>) \<and> (role = ManagerRole \<longrightarrow> mayGrantManagerKey p) \<or> f = (\<lambda>k. k\<lparr>ak_revokedAt := Some n\<rparr>) \<Longrightarrow>
    key_effect env p pl pl'"
| keys_dropped: "pl_keys pl' = filter (\<lambda>k. ak_tenantId k \<noteq> i) (pl_keys pl) \<Longrightarrow>
    tenant_ids pl - {i} \<subseteq> tenant_ids pl' \<Longrightarrow> key_effect env p pl pl'"

inductive operator_effect :: "platform_env \<Rightarrow> platform_request \<Rightarrow> platform \<Rightarrow> platform \<Rightarrow> bool" for env r where
  operators_same: "pl_operatorKeys pl' = pl_operatorKeys pl \<Longrightarrow> operator_effect env r pl pl'"
| operator_created: "pl_operatorKeys pl' = pl_operatorKeys pl @ [k] \<Longrightarrow> about_operator_keys r \<Longrightarrow>
    ok_keyHash k = pe_mac env (OPERATOR_KEY_PREFIX @ pe_plaintext env) \<Longrightarrow> ok_keyHash k \<notin> ok_keyHash ` set (pl_operatorKeys pl) \<Longrightarrow>
    ok_id k \<notin> ok_id ` set (pl_operatorKeys pl) \<Longrightarrow>
    (\<forall>d. pe_maxDays env = Some d \<longrightarrow> (\<exists>x. ok_expiresAt k = Some x \<and> pe_now env < x \<and> x \<le> pe_now env + d * DAY_MS)) \<Longrightarrow>
    operator_effect env r pl pl'"
| operator_revoked: "pl_operatorKeys pl' =
      map (\<lambda>k. if ok_id k = i \<and> ok_revokedAt k = None then k\<lparr>ok_revokedAt := Some n\<rparr> else k) (pl_operatorKeys pl) \<Longrightarrow>
    operator_effect env r pl pl'"

lemma with_hook_ok: "with_hook hook x before pl = (Inr y, pl') \<Longrightarrow> y = x \<and> (\<exists>db. run_hook hook x (pl_accounts pl) = Inr db \<and> pl' = pl\<lparr>pl_accounts := db\<rparr>)"
  by (auto simp: with_hook_def split: sum.splits)

lemma with_hook_failed: "with_hook hook x before pl = (Inl e, pl') \<Longrightarrow> pl' = before"
  by (auto simp: with_hook_def split: sum.splits)

lemma record_loosely_keeps [simp]:
  "pl_keys (record_loosely env k i pl) = pl_keys pl" "pl_tenants (record_loosely env k i pl) = pl_tenants pl"
  "pl_operatorKeys (record_loosely env k i pl) = pl_operatorKeys pl"
  by (simp_all add: record_loosely_def)

lemma change_tenant_keeps [simp]:
  "pl_keys (change_tenant i f pl) = pl_keys pl" "pl_operatorKeys (change_tenant i f pl) = pl_operatorKeys pl"
  "pl_accounts (change_tenant i f pl) = pl_accounts pl"
  by (simp_all add: change_tenant_def)

lemma change_tenant_ids: "(\<And>t. tn_id (f t) = tn_id t) \<Longrightarrow> map tn_id (pl_tenants (change_tenant i f pl)) = map tn_id (pl_tenants pl)"
  by (simp add: change_tenant_def comp_def)

lemma drop_tenant_keeps [simp]:
  "pl_keys (drop_tenant i pl) = pl_keys pl" "pl_operatorKeys (drop_tenant i pl) = pl_operatorKeys pl"
  "map tn_id (pl_tenants (drop_tenant i pl)) = filter (\<lambda>t. t \<noteq> i) (map tn_id (pl_tenants pl))"
  by (simp_all add: drop_tenant_def filter_map comp_def)

lemma getTenant_in: "getTenant i pl = Some t \<Longrightarrow> t \<in> set (pl_tenants pl) \<and> tn_id t = i"
  by (auto simp: getTenant_def find_Some_iff)

lemma getTenant_none: "getTenant i pl = None \<longleftrightarrow> i \<notin> tn_id ` set (pl_tenants pl)"
  by (auto simp: getTenant_def find_None_iff)

lemma tenant_ids_simps [simp]:
  "tenant_ids (record_loosely env k x pl) = tenant_ids pl" "tenant_ids (drop_tenant i pl) = tenant_ids pl - {i}"
  "tenant_ids (pl\<lparr>pl_keys := ks\<rparr>) = tenant_ids pl" "tenant_ids (pl\<lparr>pl_accounts := db\<rparr>) = tenant_ids pl"
  by (auto simp: tenant_ids_def drop_tenant_def)

lemma tenant_ids_change [simp]: "(\<And>t. tn_id (f t) = tn_id t) \<Longrightarrow> tenant_ids (change_tenant i f pl) = tenant_ids pl"
  by (rule tenant_ids_map) (rule change_tenant_ids)

lemma createTenant_failed: "createTenant i name n pl = (Inl e, pl') \<Longrightarrow> pl' = pl"
  by (auto simp: createTenant_def Let_def split: if_splits)

lemma createTenant_effect:
  assumes "createTenant i name n pl = (Inr t, pl1)"
  shows "pl_keys pl1 = pl_keys pl" "tenant_ids pl1 = insert i (tenant_ids pl)" "i \<notin> tenant_ids pl"
    "pl_operatorKeys pl1 = pl_operatorKeys pl"
  using assms by (auto simp: createTenant_def Let_def getTenant_none tenant_ids_def split: if_splits)

lemma deleteTenant_effect:
  "pl_keys (snd (deleteTenant i pl)) = pl_keys pl" "tenant_ids pl - {i} \<subseteq> tenant_ids (snd (deleteTenant i pl))"
  "pl_operatorKeys (snd (deleteTenant i pl)) = pl_operatorKeys pl"
  by (auto simp: deleteTenant_def)

lemma create_tenant_effect:
  assumes "create_tenant env p b pl = (reply, pl')"
  shows "key_effect env p pl pl' \<and> pl_operatorKeys pl' = pl_operatorKeys pl"
proof -
  have "key_effect env p pl (snd (deleteTenant i pl1)) \<and> key_effect env p pl (record_loosely env k x pl1)"
    if "createTenant i name n pl = (Inr t, pl1)" for i name n t pl1 k x
    using createTenant_effect[OF that] deleteTenant_effect(2)[of pl1 i]
    by (auto intro!: keys_same simp: deleteTenant_effect(1))
  then show ?thesis using assms unfolding create_tenant_def
    by (auto split: option.splits jsval.splits prod.splits sum.splits if_splits intro: keys_same
        dest: createTenant_failed createTenant_effect(4) simp: deleteTenant_effect(3))
qed

lemma updateTenant_effect:
  assumes "updateTenant i name status pl = (r, pl')"
  shows "pl_keys pl' = pl_keys pl \<and> pl_operatorKeys pl' = pl_operatorKeys pl \<and> tenant_ids pl' = tenant_ids pl \<and>
    pl_accounts pl' = pl_accounts pl"
  using assms by (auto simp: updateTenant_def Let_def split: option.splits if_splits)

lemma patch_tenant_effect: "patch_tenant env p i b pl = (reply, pl') \<Longrightarrow>
    pl_keys pl' = pl_keys pl \<and> pl_operatorKeys pl' = pl_operatorKeys pl \<and> tenant_ids pl' = tenant_ids pl"
  by (auto simp: patch_tenant_def Let_def split: option.splits prod.splits if_splits dest: updateTenant_effect)

lemma delete_steps_effect:
  assumes "delete_steps env i pl = (done, pl')"
  shows "pl_operatorKeys pl' = pl_operatorKeys pl"
    "done \<Longrightarrow> pl_keys pl' = filter (\<lambda>k. ak_tenantId k \<noteq> i) (pl_keys pl) \<and> tenant_ids pl' = tenant_ids pl - {i}"
    "\<not> done \<Longrightarrow> pl_keys pl' = pl_keys pl \<and> tenant_ids pl' = tenant_ids pl"
  using assms by (auto simp: delete_steps_def markTenantDeleting_def deleteTenantAndKeys_def Let_def split: if_splits)

lemma delete_tenant_shape:
  assumes "delete_tenant env p i pl = (reply, pl')"
  obtains "pl' = pl"
  | x ok pl2 where "delete_steps env i (record_loosely env 0 x pl) = (ok, pl2)"
      "pl' = (if ok then record_loosely env 1 (entry_of p ''tenant.delete'' (Some [i]) i None) pl2 else pl2)"
      "reply = (if ok then SuccessReply else Rejected 500 ''DELETE_FAILED'')"
proof -
  let ?x = "entry_of p ''tenant.delete.requested'' (Some [i]) i None"
  show thesis
  proof (cases "i = PROTECTED_TENANT_ID \<or> getTenant i pl = None \<or> (\<exists>e. pe_audit env = Some (Some e))")
    case True
    with assms that(1) show thesis by (auto simp: delete_tenant_def record_strictly_def split: if_splits)
  next
    case False
    then have "record_strictly env 0 ?x pl = Inr (record_loosely env 0 ?x pl)"
      by (auto simp: record_strictly_def split: option.splits)
    moreover obtain ok pl2 where "delete_steps env i (record_loosely env 0 ?x pl) = (ok, pl2)" by (metis surj_pair)
    ultimately show thesis using assms False that(2)[of ?x ok pl2] by (cases ok) (auto simp: delete_tenant_def)
  qed
qed

lemma delete_tenant_effect:
  assumes "delete_tenant env p i pl = (reply, pl')"
  shows "key_effect env p pl pl' \<and> pl_operatorKeys pl' = pl_operatorKeys pl"
  using assms
proof (rule delete_tenant_shape)
  fix x ok pl2
  assume s: "delete_steps env i (record_loosely env 0 x pl) = (ok, pl2)"
    "pl' = (if ok then record_loosely env 1 (entry_of p ''tenant.delete'' (Some [i]) i None) pl2 else pl2)"
  then have same: "pl_keys pl' = pl_keys pl2" "tenant_ids pl' = tenant_ids pl2" "pl_operatorKeys pl' = pl_operatorKeys pl2" by auto
  note e = delete_steps_effect[OF s(1)]
  show ?thesis
  proof (cases ok)
    case True
    with same e(2) have "key_effect env p pl pl'" by (intro keys_dropped) auto
    with same e(1) show ?thesis by simp
  next
    case False
    with same e(3) have "key_effect env p pl pl'" by (intro keys_same) auto
    with same e(1) show ?thesis by simp
  qed
qed (simp add: keys_same)

lemma createApiKey_effect:
  assumes "createApiKey (pe_mac env) (pe_plaintext env) kid n tenantId name role createdBy hook pl = (r, pl')"
    "role = Some ManagerRole \<longrightarrow> mayGrantManagerKey p"
  shows "key_effect env p pl pl' \<and> pl_operatorKeys pl' = pl_operatorKeys pl"
proof (cases r)
  case (Inl e)
  with assms(1) have "pl' = pl" by (auto simp: createApiKey_def Let_def dest: with_hook_failed split: if_splits)
  then show ?thesis by (simp add: keys_same)
next
  case (Inr x)
  let ?k = "\<lparr>ak_id = kid, ak_tenantId = tenantId, ak_name = name, ak_role = (case role of Some r \<Rightarrow> r | None \<Rightarrow> ServiceRole),
    ak_createdBy = createdBy, ak_keyHash = pe_mac env (pe_plaintext env), ak_createdAt = n, ak_lastUsedAt = None, ak_revokedAt = None\<rparr>"
  from assms(1) Inr have k: "\<not> list_ex (\<lambda>x. ak_id x = kid \<or> ak_keyHash x = pe_mac env (pe_plaintext env)) (pl_keys pl)"
    "getTenant tenantId pl \<noteq> None" "\<exists>db. pl' = pl\<lparr>pl_keys := pl_keys pl @ [?k], pl_accounts := db\<rparr>"
    by (auto simp: createApiKey_def Let_def dest!: with_hook_ok split: if_splits)
  then have "key_effect env p pl pl'"
    by (intro key_created[of _ _ ?k]) (auto simp: list_ex_iff getTenant_none tenant_ids_def assms(2) split: option.splits)
  with k(3) show ?thesis by auto
qed

lemma create_key_effect:
  assumes "create_key env p tenantId b pl = (reply, pl')"
  shows "key_effect env p pl pl' \<and> pl_operatorKeys pl' = pl_operatorKeys pl"
  using assms createApiKey_effect[of env _ _ tenantId _ _ _ _ pl _ pl' p]
  by (auto simp: create_key_def Let_def intro: keys_same split: option.splits prod.splits sum.splits if_splits)

lemma hook_keeps:
  "with_hook hook x pl q = (r, pl') \<Longrightarrow> pl' = pl \<or> (\<exists>db. pl' = q\<lparr>pl_accounts := db\<rparr>)"
  by (auto simp: with_hook_def split: sum.splits)

lemma setApiKeyRole_effect:
  assumes "setApiKeyRole tenantId keyId role hook pl = (r, pl')"
  shows "pl' = pl \<or> (\<exists>db. pl' = (change_key keyId (\<lambda>k. k\<lparr>ak_role := role\<rparr>) pl)\<lparr>pl_accounts := db\<rparr>)"
proof (cases "List.find (live_key_of tenantId keyId) (pl_keys pl)")
  case None
  with assms show ?thesis by (simp add: setApiKeyRole_def)
next
  case (Some k)
  obtain r' q where q: "with_hook hook (public_key (k\<lparr>ak_role := role\<rparr>), ak_role k) pl
      (change_key keyId (\<lambda>k. k\<lparr>ak_role := role\<rparr>) pl) = (r', q)" by (metis surj_pair)
  with assms Some have "pl' = q" by (auto simp: setApiKeyRole_def split: sum.splits)
  with hook_keeps[OF q] show ?thesis by simp
qed

lemma change_key_effect:
  assumes "pl' = pl \<or> (\<exists>db. pl' = (change_key i f pl)\<lparr>pl_accounts := db\<rparr>)"
    "f = (\<lambda>k. k\<lparr>ak_role := role\<rparr>) \<and> (role = ManagerRole \<longrightarrow> mayGrantManagerKey p) \<or> f = (\<lambda>k. k\<lparr>ak_revokedAt := Some n\<rparr>)"
  shows "key_effect env p pl pl' \<and> pl_operatorKeys pl' = pl_operatorKeys pl"
  using assms(1)
proof
  assume "\<exists>db. pl' = (change_key i f pl)\<lparr>pl_accounts := db\<rparr>"
  then have "pl_keys pl' = map (\<lambda>k. if ak_id k = i then f k else k) (pl_keys pl)" "tenant_ids pl' = tenant_ids pl"
    "pl_operatorKeys pl' = pl_operatorKeys pl" by (auto simp: change_key_def)
  then show ?thesis using key_changed[OF _ _ assms(2)] by blast
qed (simp add: keys_same)

lemma patch_key_effect:
  assumes "patch_key env p tenantId keyId b pl = (reply, pl')"
  shows "key_effect env p pl pl' \<and> pl_operatorKeys pl' = pl_operatorKeys pl"
proof -
  have "pl' = pl \<or> (\<exists>role hook r. (role = ManagerRole \<longrightarrow> mayGrantManagerKey p) \<and> setApiKeyRole tenantId keyId role hook pl = (r, pl'))"
    using assms by (auto simp: patch_key_def split: option.splits prod.splits sum.splits if_splits)
  then show ?thesis
    using setApiKeyRole_effect change_key_effect by (metis keys_same order_refl)
qed

lemma revokeApiKey_effect: "revokeApiKey tenantId keyId n hook pl = (r, pl') \<Longrightarrow>
    pl' = pl \<or> (\<exists>db. pl' = (change_key keyId (\<lambda>k. k\<lparr>ak_revokedAt := Some n\<rparr>) pl)\<lparr>pl_accounts := db\<rparr>)"
  by (auto simp: revokeApiKey_def dest: hook_keeps split: if_splits)

lemma revoke_key_effect:
  assumes "revoke_key env p tenantId keyId pl = (reply, pl')"
  shows "key_effect env p pl pl' \<and> pl_operatorKeys pl' = pl_operatorKeys pl"
proof -
  have "pl' = pl \<or> (\<exists>n hook r. revokeApiKey tenantId keyId n hook pl = (r, pl'))"
    using assms by (auto simp: revoke_key_def split: prod.splits sum.splits bool.splits if_splits)
  then show ?thesis
  proof
    assume "\<exists>n hook r. revokeApiKey tenantId keyId n hook pl = (r, pl')"
    then obtain n hook r where "revokeApiKey tenantId keyId n hook pl = (r, pl')" by blast
    from change_key_effect[OF revokeApiKey_effect[OF this], of ServiceRole p n] show ?thesis by simp
  qed (simp add: keys_same)
qed

lemma create_operator_key_effect:
  assumes "create_operator_key env p b pl = (reply, pl')"
  shows "operator_effect env (CreateOperatorKey b) pl pl' \<and> pl_keys pl' = pl_keys pl \<and> tenant_ids pl' = tenant_ids pl"
proof (cases "pl' = pl")
  case False
  with assms obtain ms name expires hook r where c: "expiry_in env (member ms ''expiresAt'') = Some expires"
    "within_limit env expires"
    "operator_key_create (pe_mac env) (pe_plaintext env) (pe_newId env) (pe_now env) name (actor_user (actor_of p)) expires hook pl = (r, pl')"
    by (auto simp: create_operator_key_def split: option.splits prod.splits sum.splits if_splits)
  let ?k = "\<lparr>ok_id = pe_newId env, ok_name = name, ok_keyHash = pe_mac env (OPERATOR_KEY_PREFIX @ pe_plaintext env),
    ok_createdBy = actor_user (actor_of p), ok_createdAt = pe_now env, ok_lastUsedAt = None, ok_expiresAt = expires, ok_revokedAt = None\<rparr>"
  from c(3) False have k: "\<not> list_ex (\<lambda>x. ok_id x = ok_id ?k \<or> ok_keyHash x = ok_keyHash ?k) (pl_operatorKeys pl)"
    "\<exists>db. pl' = pl\<lparr>pl_operatorKeys := pl_operatorKeys pl @ [?k], pl_accounts := db\<rparr>"
    by (auto simp: operator_key_create_def Let_def dest!: hook_keeps split: if_splits)
  have "pe_now env < x" if "expires = Some x" for x
    using c(1) that by (auto simp: expiry_in_def split: if_splits option.splits)
  then have limit: "\<exists>x. ok_expiresAt ?k = Some x \<and> pe_now env < x \<and> x \<le> pe_now env + d * DAY_MS" if "pe_maxDays env = Some d" for d
    using c(2) that by (auto simp: within_limit_def split: option.splits)
  have "operator_effect env (CreateOperatorKey b) pl pl'"
    using k limit by (intro operator_created[of _ _ ?k]) (auto simp: list_ex_iff)
  with k(2) show ?thesis by (auto simp: tenant_ids_def)
qed (simp add: operators_same)

lemma revoke_operator_key_effect:
  assumes "revoke_operator_key env p i pl = (reply, pl')"
  shows "operator_effect env (RevokeOperatorKey i) pl pl' \<and> pl_keys pl' = pl_keys pl \<and> tenant_ids pl' = tenant_ids pl"
proof (cases "pl' = pl")
  case False
  with assms obtain hook r where c: "operator_key_revoke i (pe_now env) hook pl = (r, pl')"
    by (auto simp: revoke_operator_key_def split: prod.splits sum.splits option.splits)
  with False obtain k r' where "List.find (\<lambda>k. ok_id k = i \<and> ok_revokedAt k = None) (pl_operatorKeys pl) = Some k"
    "with_hook hook (k\<lparr>ok_revokedAt := Some (pe_now env)\<rparr>) pl (pl\<lparr>pl_operatorKeys :=
       map (\<lambda>k. if ok_id k = i \<and> ok_revokedAt k = None then k\<lparr>ok_revokedAt := Some (pe_now env)\<rparr> else k) (pl_operatorKeys pl)\<rparr>) = (r', pl')"
    by (auto simp: operator_key_revoke_def split: option.splits prod.splits sum.splits)
  from hook_keeps[OF this(2)] False obtain db where "pl' = pl\<lparr>pl_operatorKeys :=
       map (\<lambda>k. if ok_id k = i \<and> ok_revokedAt k = None then k\<lparr>ok_revokedAt := Some (pe_now env)\<rparr> else k) (pl_operatorKeys pl), pl_accounts := db\<rparr>"
    by auto
  then show ?thesis using operator_revoked[where pl' = pl' and pl = pl and i = i and n = "pe_now env"] by (simp add: tenant_ids_def)
qed (simp add: operators_same)

lemma patch_tenant_keys: "patch_tenant env p i b pl = (reply, pl') \<Longrightarrow> key_effect env p pl pl' \<and> pl_operatorKeys pl' = pl_operatorKeys pl"
  using patch_tenant_effect[of env p i b pl reply pl'] by (simp add: keys_same)

lemma route_effect:
  assumes "route env p r pl = (reply, pl')"
  shows "key_effect env p pl pl' \<and> operator_effect env r pl pl'"
  using assms
  by (cases r)
    (auto simp: list_tenants_def get_tenant_def list_keys_def list_operator_keys_def split: option.splits
      dest!: create_tenant_effect patch_tenant_keys delete_tenant_effect create_key_effect patch_key_effect revoke_key_effect
        create_operator_key_effect revoke_operator_key_effect
      intro: operators_same keys_same)

section \<open>Whom the guards let in\<close>

lemma session_resolved:
  assumes "session_resolve so token n db = (Some (u, x), db')"
  shows "is_active (u_id u) db" "db_memberships db' = db_memberships db" "db_tenants db' = db_tenants db"
    "\<exists>s \<in> set (db_sessions db). live_session so token n db s \<and> se_userId s = u_id u"
proof -
  from assms obtain s where s: "first_row (filter (live_session so token n db) (db_sessions db)) = Some s"
    "findById (se_userId s) db = Some u"
    and rest: "db_memberships db' = db_memberships db" "db_tenants db' = db_tenants db"
    by (auto simp: session_resolve_def Let_def split: if_splits option.splits)
  from s(2) have i: "u_id u = se_userId s"
    by (auto simp: findById_def user_rows_def user_of_def first_row_Some filter_eq_Cons_iff)
  from first_row_in[OF s(1)] have "s \<in> set (db_sessions db)" "live_session so token n db s" by auto
  then show "is_active (u_id u) db" "\<exists>s \<in> set (db_sessions db). live_session so token n db s \<and> se_userId s = u_id u"
    using i by (auto simp: live_session_def)
  show "db_memberships db' = db_memberships db" "db_tenants db' = db_tenants db" by (rule rest)+
qed

lemma session_frame:
  "session_resolve so token n db = (r, db') \<Longrightarrow>
     db' = db \<or> (\<exists>f. db' = db\<lparr>db_sessions := map f (db_sessions db)\<rparr> \<and> (\<forall>s. se_userId (f s) = se_userId s))"
  by (auto simp: session_resolve_def Let_def split: if_splits option.splits)

lemma resolve_frame:
  "resolve_session env token pl = (r, pl') \<Longrightarrow> pl_keys pl' = pl_keys pl \<and> pl_operatorKeys pl' = pl_operatorKeys pl \<and>
     pl_tenants pl' = pl_tenants pl \<and> db_memberships (pl_accounts pl') = db_memberships (pl_accounts pl) \<and>
     db_users (pl_accounts pl') = db_users (pl_accounts pl)"
  using session_frame by (auto simp: resolve_session_def split: prod.splits) fastforce+

lemma operator_authenticated:
  "operator_key_authenticate mac n token pl = (r, pl') \<Longrightarrow>
     (\<forall>k. r = Some k \<longrightarrow> k \<in> set (pl_operatorKeys pl) \<and> usable_operator_key (mac token) n k) \<and>
     (\<exists>i. pl' = pl \<or> pl' = pl\<lparr>pl_operatorKeys := map (\<lambda>x. if ok_id x = i then x\<lparr>ok_lastUsedAt := Some n\<rparr> else x) (pl_operatorKeys pl)\<rparr>)"
  by (auto simp: operator_key_authenticate_def find_Some_iff split: if_splits option.splits)

text \<open>A credential of the platform's guards: the admin key, a usable operator key, or the live session of a person.\<close>

definition signed_in :: "access_env \<Rightarrow> http_request \<Rightarrow> platform \<Rightarrow> string \<Rightarrow> bool" where
  "signed_in env rq pl i \<longleftrightarrow> \<not> truthy (rq_authorization rq) \<and> isCsrfSafe (ae_publicOrigin env) rq \<and>
     is_active i (pl_accounts pl) \<and>
     (\<exists>token. rq_session rq = Some token \<and> (\<exists>s \<in> set (db_sessions (pl_accounts pl)).
        live_session (ae_sessions env) token (ae_now env) (pl_accounts pl) s \<and> se_userId s = i))"

lemma guard_granted:
  assumes "createGuard allow env rq pl = (Granted t p, pl')"
  shows "allow p \<and> t = None \<and> (p = AdminKeyPrincipal \<and> isAdminKeyHeader (rq_authorization rq) (ae_adminApiKey env) \<or>
    (\<exists>token k. p = OperatorKeyPrincipal (ok_id k) (ok_name k) \<and> k \<in> set (pl_operatorKeys pl) \<and>
       usable_operator_key (ae_mac env token) (ae_now env) k) \<or>
    (\<exists>u. p = UserPrincipal u (listMemberships (u_id u) (pl_accounts pl)) \<and> signed_in env rq pl (u_id u)))"
proof (cases "truthy (rq_authorization rq)")
  case True
  with assms operator_authenticated show ?thesis
    by (auto simp: createGuard_def Let_def split: prod.splits option.splits if_splits) blast
next
  case False
  with assms obtain token u where u: "rq_session rq = Some token" "resolve_session env token pl = (Some u, pl')"
    "isCsrfSafe (ae_publicOrigin env) rq" "allow p" "t = None" "p = user_principal u (pl_accounts pl')"
    by (auto simp: createGuard_def csrf_failure_def Let_def dest: truthy_Some split: prod.splits option.splits if_splits)
  from u(2) obtain x db where r: "session_resolve (ae_sessions env) token (ae_now env) (pl_accounts pl) = (Some (u, x), db)"
    "pl' = pl\<lparr>pl_accounts := db\<rparr>"
    by (auto simp: resolve_session_def split: prod.splits)
  note s = session_resolved[OF r(1)]
  have "p = UserPrincipal u (listMemberships (u_id u) (pl_accounts pl))"
    using u(6) r(2) s(2) by (simp add: user_principal_def listMemberships_def memberships_of_def)
  then show ?thesis using u s(1,4) False unfolding signed_in_def by blast
qed

lemma guard_frame:
  assumes "createGuard allow env rq pl = (a, pl')"
  shows "pl_keys pl' = pl_keys pl \<and> pl_tenants pl' = pl_tenants pl \<and>
    map (\<lambda>k. k\<lparr>ok_lastUsedAt := None\<rparr>) (pl_operatorKeys pl') = map (\<lambda>k. k\<lparr>ok_lastUsedAt := None\<rparr>) (pl_operatorKeys pl)"
proof (cases "truthy (rq_authorization rq)")
  case True
  with assms have "pl' = pl \<or> (\<exists>token r. operator_key_authenticate (ae_mac env) (ae_now env) token pl = (r, pl'))"
    by (auto simp: createGuard_def Let_def split: prod.splits option.splits if_splits)
  then show ?thesis using operator_authenticated by fastforce
next
  case False
  with assms have "pl' = pl \<or> (\<exists>token r. resolve_session env token pl = (r, pl'))"
    by (auto simp: createGuard_def Let_def split: prod.splits option.splits if_splits)
  then show ?thesis using resolve_frame by fastforce
qed

section \<open>Who may create which key\<close>

definition has_role :: "platform \<Rightarrow> string \<Rightarrow> membership_role list \<Rightarrow> bool" where
  "has_role pl i roles \<longleftrightarrow> list_ex (\<lambda>m. mb_userId m = i \<and> mb_role m \<in> set roles) (db_memberships (pl_accounts pl))"

definition manager_keys :: "platform \<Rightarrow> string set" where
  "manager_keys pl = {ak_id k | k. k \<in> set (pl_keys pl) \<and> ak_role k = ManagerRole \<and> ak_revokedAt k = None}"

definition operator_keys :: "platform \<Rightarrow> string set" where
  "operator_keys pl = {ok_id k | k. k \<in> set (pl_operatorKeys pl) \<and> ok_revokedAt k = None}"

lemma map_through:
  assumes "map g xs = map g ys" "\<And>x. f (g x) = f x"
  shows "map f xs = map f ys"
proof -
  have "map f zs = map f (map g zs)" for zs using assms(2) by simp
  then show ?thesis using assms(1) by metis
qed

lemma operator_keys_map:
  "operator_keys pl = fst ` {x \<in> set (map (\<lambda>k. (ok_id k, ok_revokedAt k)) (pl_operatorKeys pl)). snd x = None}"
  by (force simp: operator_keys_def)

lemma guard_same_keys:
  assumes "createGuard allow env rq pl = (a, pl')"
  shows "manager_keys pl' = manager_keys pl" "operator_keys pl' = operator_keys pl"
proof -
  note f = guard_frame[OF assms]
  show "manager_keys pl' = manager_keys pl" using f by (simp add: manager_keys_def)
  have "map (\<lambda>k. (ok_id k, ok_revokedAt k)) (pl_operatorKeys pl') = map (\<lambda>k. (ok_id k, ok_revokedAt k)) (pl_operatorKeys pl)"
    by (rule map_through[OF f[THEN conjunct2, THEN conjunct2]]) simp
  then show "operator_keys pl' = operator_keys pl" by (simp only: operator_keys_map)
qed

lemma manager_keys_effect:
  assumes "key_effect env p pl pl'" "\<not> mayGrantManagerKey p"
  shows "manager_keys pl' \<subseteq> manager_keys pl"
  using assms(1)
proof cases
  case (key_changed i f role n)
  from key_changed(3) show ?thesis
  proof
    assume "f = (\<lambda>k. k\<lparr>ak_role := role\<rparr>) \<and> (role = ManagerRole \<longrightarrow> mayGrantManagerKey p)"
    then show ?thesis using key_changed(1) assms(2) by (auto simp: manager_keys_def split: if_splits)
  qed (use key_changed(1) in \<open>auto simp: manager_keys_def split: if_splits\<close>)
qed (use assms(2) in \<open>auto simp: manager_keys_def\<close>)

lemma operator_keys_effect:
  assumes "operator_effect env r pl pl'" "\<not> about_operator_keys r"
  shows "operator_keys pl' \<subseteq> operator_keys pl"
  using assms by cases (auto simp: operator_keys_def split: if_splits)

definition guard_of :: "platform_request \<Rightarrow> principal \<Rightarrow> bool" where
  "guard_of r = (if about_operator_keys r then may_administer_keys else may_operate)"

lemma platform_request_shape:
  assumes "platform_request ae env rq r pl = (reply, pl')"
  obtains p pl1 where "createGuard (guard_of r) ae rq pl = (Granted None p, pl1)" "route env (Some p) r pl1 = (reply, pl')"
  | a where "createGuard (guard_of r) ae rq pl = (a, pl')" "\<exists>n e. reply = Rejected n e"
proof -
  obtain a pl1 where g: "createGuard (guard_of r) ae rq pl = (a, pl1)" by (metis surj_pair)
  then have "(if about_operator_keys r then operatorKeyAdminGuard ae rq pl else operatorGuard ae rq pl) = (a, pl1)"
    by (simp add: guard_of_def operatorKeyAdminGuard_def operatorGuard_def split: if_splits)
  with assms g guard_granted[of "guard_of r" ae rq pl] show thesis
    by (cases a) (auto simp: platform_request_def intro: that)
qed

lemma roles_of_user:
  "list_ex (\<lambda>m. mb_role m \<in> set rs) (listMemberships i (pl_accounts pl)) \<longleftrightarrow> has_role pl i rs"
  by (auto simp: has_role_def listMemberships_def memberships_of_def list_ex_iff)

text \<open>
  C13. Keys do not breed: a request to the platform's routes adds a usable manager key only with the admin key or
  from a signed-in system admin, and a usable operator key only with the admin key or from a signed-in
  operator or system admin; an operator key, even a stolen one, can do neither.
\<close>

theorem keys_do_not_breed:
  "(manager_keys (snd (platform_request ae env rq r pl)) \<subseteq> manager_keys pl \<or>
    isAdminKeyHeader (rq_authorization rq) (ae_adminApiKey ae) \<or>
    (\<exists>i. signed_in ae rq pl i \<and> has_role pl i [SystemAdmin])) \<and>
   (operator_keys (snd (platform_request ae env rq r pl)) \<subseteq> operator_keys pl \<or>
    isAdminKeyHeader (rq_authorization rq) (ae_adminApiKey ae) \<or>
    (\<exists>i. signed_in ae rq pl i \<and> has_role pl i [Operator, SystemAdmin]))"
proof -
  obtain reply pl' where q: "platform_request ae env rq r pl = (reply, pl')" by (metis surj_pair)
  let ?admin = "isAdminKeyHeader (rq_authorization rq) (ae_adminApiKey ae)"
  let ?as = "\<lambda>roles. \<exists>i. signed_in ae rq pl i \<and> has_role pl i roles"
  have "(manager_keys pl' \<subseteq> manager_keys pl \<or> ?admin \<or> ?as [SystemAdmin]) \<and>
    (operator_keys pl' \<subseteq> operator_keys pl \<or> ?admin \<or> ?as [Operator, SystemAdmin])"
    using q
  proof (rule platform_request_shape)
    fix a assume "createGuard (guard_of r) ae rq pl = (a, pl')"
    from guard_same_keys[OF this] show ?thesis by simp
  next
    fix p pl1 assume g: "createGuard (guard_of r) ae rq pl = (Granted None p, pl1)" and x: "route env (Some p) r pl1 = (reply, pl')"
    note same = guard_same_keys[OF g]
    note e = route_effect[OF x] and c = guard_granted[OF g]
    have m: "manager_keys pl' \<subseteq> manager_keys pl \<or> isSystemAdmin p"
      using manager_keys_effect[of env "Some p" pl1 pl'] e same(1) by (auto simp: mayGrantManagerKey_def)
    have o: "operator_keys pl' \<subseteq> operator_keys pl \<or> may_administer_keys p"
      using operator_keys_effect[of env r pl1 pl'] e same(2) c by (auto simp: guard_of_def split: if_splits)
    from c consider "?admin" | i nm where "p = OperatorKeyPrincipal i nm"
      | u where "p = UserPrincipal u (listMemberships (u_id u) (pl_accounts pl))" "signed_in ae rq pl (u_id u)" by blast
    then show ?thesis
    proof cases
      case 2
      with m o show ?thesis by (simp add: may_administer_keys_def)
    next
      case 3
      with m o roles_of_user[of "[SystemAdmin]" "u_id u" pl] roles_of_user[of "[Operator, SystemAdmin]" "u_id u" pl] show ?thesis
        by (auto simp: may_administer_keys_def)
    qed simp
  qed
  then show ?thesis using q by simp
qed

section \<open>A tenant's own routes\<close>

lemma find_some_in: "List.find P xs = Some x \<Longrightarrow> x \<in> set xs \<and> P x"
  by (auto simp: find_Some_iff)

text \<open>What it takes to reach a tenant's routes.\<close>

lemma access_granted:
  assumes "tenant_access env rq pl = (Granted t p, pl')"
  shows "\<exists>i. t = Some i \<and> tenant_active i pl \<and> (i = [] \<or> i \<notin> set (ae_behind env)) \<and>
    ((\<exists>secret k. rq_authorization rq \<noteq> None \<and> bearer_of (the (rq_authorization rq)) = Some secret \<and> k \<in> set (pl_keys pl) \<and>
        ak_keyHash k = ae_mac env secret \<and> ak_revokedAt k = None \<and> ak_tenantId k = i \<and>
        keyMayCall (ak_role k) (rq_method rq) (rq_path rq) \<and> p = ApiKeyPrincipal i (ak_id k) (ak_name k) (ak_role k)) \<or>
     (\<exists>u ms. p = UserPrincipal u ms \<and> signed_in env rq pl (u_id u) \<and>
        list_ex (\<lambda>m. mb_userId m = u_id u \<and> mb_role m = TenantManager \<and> mb_tenantId m = Some i) (db_memberships (pl_accounts pl))))"
proof -
  from assms obtain pl1 where a: "authMiddleware env rq pl = (Granted t p, pl1)"
    and role: "\<And>i j nm r. p = ApiKeyPrincipal i j nm r \<Longrightarrow> keyMayCall r (rq_method rq) (rq_path rq)"
    and behind: "\<And>i. t = Some i \<Longrightarrow> i = [] \<or> i \<notin> set (ae_behind env)"
    by (auto simp: tenant_access_def keyRoleMiddleware_def tenantSchemaGuard_def
        split: prod.splits access.splits option.splits if_splits principal.splits)
  have health: "rq_path rq \<noteq> ''/health''" using a by (auto simp: authMiddleware_def)
  show ?thesis
  proof (cases "truthy (rq_authorization rq)")
    case True
    with a health obtain secret k where k: "bearer_of (the (rq_authorization rq)) = Some secret" "key_row env secret pl = Some k"
      "ak_revokedAt k = None" "t = Some (ak_tenantId k)" "p = ApiKeyPrincipal (ak_tenantId k) (ak_id k) (ak_name k) (ak_role k)"
      by (auto simp: authMiddleware_def unauthorized_def split: option.splits if_splits)
    from find_some_in[OF k(2)[unfolded key_row_def]] have "k \<in> set (pl_keys pl)" "ak_keyHash k = ae_mac env secret"
      "tenant_active (ak_tenantId k) pl" by simp_all
    moreover have "rq_authorization rq \<noteq> None" using True by (auto dest: truthy_Some)
    ultimately show ?thesis using k role[OF k(5)] behind[OF k(4)] by blast
  next
    case False
    with a health obtain token where "rq_session rq = Some token" "authenticateSession env rq token pl = (Granted t p, pl1)"
      by (auto simp: authMiddleware_def unauthorized_def dest!: truthy_Some split: if_splits)
    then obtain u i where u: "resolve_session env token pl = (Some u, pl1)" "isCsrfSafe (ae_publicOrigin env) rq" "t = Some i"
      "p = user_principal u (pl_accounts pl1)" "canUseTenant p i" "tenant_active i pl1"
      by (auto simp: authenticateSession_def unauthorized_def csrf_failure_def Let_def dest!: truthy_Some split: prod.splits option.splits if_splits)
    from u(1) obtain x db where r: "session_resolve (ae_sessions env) token (ae_now env) (pl_accounts pl) = (Some (u, x), db)"
      "pl1 = pl\<lparr>pl_accounts := db\<rparr>"
      by (auto simp: resolve_session_def split: prod.splits)
    note s = session_resolved[OF r(1)]
    have "signed_in env rq pl (u_id u)"
      using False u(2) s(1,4) \<open>rq_session rq = Some token\<close> by (auto simp: signed_in_def)
    moreover have "tenant_active i pl" using u(6) r(2) by (simp add: tenant_active_def)
    moreover have "list_ex (\<lambda>m. mb_userId m = u_id u \<and> mb_role m = TenantManager \<and> mb_tenantId m = Some i) (db_memberships (pl_accounts pl))"
      using u(4,5) r(2) s(2) by (auto simp: user_principal_def listMemberships_def memberships_of_def list_ex_iff split: if_splits option.splits)
    ultimately show ?thesis using u(3,4) behind[OF u(3)] by (auto simp: user_principal_def)
  qed
qed

text \<open>
  C12. Access is earned: a request reaches the routes of a tenant only if the tenant is active and not behind,
  with a key of exactly this tenant that is not revoked and whose role allows the call, or from a
  signed-in person who manages this tenant; no operator, system admin or other tenant's key gets there.
\<close>

theorem tenant_access_is_earned:
  assumes "tenant_access env rq pl = (Granted t p, pl')"
  shows "\<exists>i. t = Some i \<and> tenant_active i pl \<and> (i = [] \<or> i \<notin> set (ae_behind env)) \<and>
    ((\<exists>secret k. rq_authorization rq \<noteq> None \<and> bearer_of (the (rq_authorization rq)) = Some secret \<and> k \<in> set (pl_keys pl) \<and>
        ak_keyHash k = ae_mac env secret \<and> ak_revokedAt k = None \<and> ak_tenantId k = i \<and>
        keyMayCall (ak_role k) (rq_method rq) (rq_path rq) \<and> p = ApiKeyPrincipal i (ak_id k) (ak_name k) (ak_role k)) \<or>
     (\<exists>u ms. p = UserPrincipal u ms \<and> signed_in env rq pl (u_id u) \<and>
        list_ex (\<lambda>m. mb_userId m = u_id u \<and> mb_role m = TenantManager \<and> mb_tenantId m = Some i) (db_memberships (pl_accounts pl))))"
  using assms by (rule access_granted)

text \<open>What is not for a service key: other verbs than reading and posting, and the routes of managers.\<close>

definition administrative_call :: "string \<Rightarrow> string \<Rightarrow> bool" where
  "administrative_call verb path \<longleftrightarrow>
     js_upper verb \<notin> {''GET'', ''POST''} \<or>
     (case split_on (CHR ''/'') path of
        e # a # rest \<Rightarrow> a \<in> {''webhooks'', ''metrics''} \<or>
          a = ''instances'' \<and> length rest = 2 \<and> last rest \<in> {''suspend'', ''resume'', ''restart'', ''force''}
      | _ \<Rightarrow> True)"

text \<open>A service key never reaches an administrative route: deletions, webhooks, metrics, suspending, resuming, restarting or forcing.\<close>

theorem service_keys_do_not_administer:
  assumes "tenant_access env rq pl = (Granted t (ApiKeyPrincipal i k nm ServiceRole), pl')"
  shows "\<not> administrative_call (rq_method rq) (rq_path rq)"
proof -
  from access_granted[OF assms] have "keyMayCall ServiceRole (rq_method rq) (rq_path rq)" by auto
  then show ?thesis
    by (auto simp: keyMayCall_def SERVICE_def path_fits_def administrative_call_def list_all2_Cons1)
qed

section \<open>Deleting a tenant\<close>

lemma marked:
  assumes "pl1 = change_tenant i (\<lambda>t. t\<lparr>tn_status := DeletingTenant\<rparr>) pl"
  shows "\<not> tenant_active i pl1" "updateTenant i name status pl1 = (None, pl1)"
    "getTenant i pl1 = map_option (\<lambda>t. t\<lparr>tn_status := DeletingTenant\<rparr>) (getTenant i pl)"
proof -
  show g: "getTenant i pl1 = map_option (\<lambda>t. t\<lparr>tn_status := DeletingTenant\<rparr>) (getTenant i pl)"
  proof -
    have "List.find (\<lambda>t. tn_id t = i) (map (\<lambda>t. if tn_id t = i then t\<lparr>tn_status := DeletingTenant\<rparr> else t) ts) =
        map_option (\<lambda>t. t\<lparr>tn_status := DeletingTenant\<rparr>) (List.find (\<lambda>t. tn_id t = i) ts)" for ts :: "tenant list"
      by (induction ts) auto
    then show ?thesis unfolding assms getTenant_def by (simp add: change_tenant_def)
  qed
  have "\<not> list_ex (\<lambda>t. tn_id t = i \<and> tn_status t = ActiveTenant) (map (\<lambda>t. if tn_id t = i then t\<lparr>tn_status := DeletingTenant\<rparr> else t) ts)"
    for ts :: "tenant list"
    by (induction ts) simp_all
  then show "\<not> tenant_active i pl1" unfolding assms by (simp add: tenant_active_def change_tenant_def)
  show "updateTenant i name status pl1 = (None, pl1)" using g by (cases "getTenant i pl") (simp_all add: updateTenant_def)
qed

text \<open>
  A deletion that fails is safe and can be repeated: once the tenant is marked, whatever step fails after
  that, no request reaches its routes, it can be neither renamed nor reactivated nor given a key, and
  the next deletion whose steps work leaves no row, no key and no membership of it.
\<close>

theorem failed_deletions_lock_and_retry:
  assumes "delete_tenant env p i pl = (Rejected 500 ''DELETE_FAILED'', pl1)" "pe_step env 0"
    and "pe_step env2 = (\<lambda>_. True)" "\<And>e. pe_audit env2 \<noteq> Some (Some e)"
  shows "fst (tenant_access ae rq pl1) \<noteq> Granted (Some i) q \<and>
    fst (patch_tenant env3 p3 i b pl1) \<in> {invalid_request, Rejected 409 ''CONFLICT''} \<and>
    fst (create_key env3 p3 i b pl1) \<in> {invalid_request, Rejected 403 ''FORBIDDEN''} \<and>
    (\<exists>pl2. delete_tenant env2 p2 i pl1 = (SuccessReply, pl2) \<and> getTenant i pl2 = None \<and>
       \<not> list_ex (\<lambda>k. ak_tenantId k = i) (pl_keys pl2) \<and>
       \<not> list_ex (\<lambda>m. mb_tenantId m = Some i) (db_memberships (pl_accounts pl2)))"
proof -
  have i: "i \<noteq> PROTECTED_TENANT_ID" "getTenant i pl \<noteq> None"
    using assms(1) by (auto simp: delete_tenant_def absent_def split: if_splits)
  let ?x = "entry_of p ''tenant.delete.requested'' (Some [i]) i None"
  from assms(1) i have "delete_steps env i (record_loosely env 0 ?x pl) = (False, pl1)"
    by (auto simp: delete_tenant_def record_strictly_def split: option.splits prod.splits bool.splits)
  then have m: "pl1 = change_tenant i (\<lambda>t. t\<lparr>tn_status := DeletingTenant\<rparr>) (record_loosely env 0 ?x pl)"
    using assms(2) by (auto simp: delete_steps_def markTenantDeleting_def Let_def split: if_splits)
  have gone: "getTenant i (record_loosely env 0 ?x pl) \<noteq> None" using i(2) by (simp add: getTenant_def)
  note m = marked[OF m]
  from gone m(3) obtain t where t: "getTenant i pl1 = Some t" "tn_status t = DeletingTenant" by auto
  have 1: "fst (tenant_access ae rq pl1) \<noteq> Granted (Some i) q"
  proof
    assume "fst (tenant_access ae rq pl1) = Granted (Some i) q"
    then obtain pl' where "tenant_access ae rq pl1 = (Granted (Some i) q, pl')" by (metis prod.collapse)
    from access_granted[OF this] m(1) show False by auto
  qed
  have 2: "fst (patch_tenant env3 p3 i b pl1) \<in> {invalid_request, Rejected 409 ''CONFLICT''}"
    using m(2) t(1) by (auto simp: patch_tenant_def split: option.splits prod.splits)
  have 3: "fst (create_key env3 p3 i b pl1) \<in> {invalid_request, Rejected 403 ''FORBIDDEN''}"
    using t by (auto simp: create_key_def Let_def split: option.splits)
  let ?y = "entry_of p2 ''tenant.delete.requested'' (Some [i]) i None"
  let ?z = "entry_of p2 ''tenant.delete'' (Some [i]) i None"
  let ?pl2 = "record_loosely env2 1 ?z (snd (deleteTenantAndKeys i (snd (markTenantDeleting i (record_loosely env2 0 ?y pl1)))))"
  have "record_strictly env2 0 ?y pl1 = Inr (record_loosely env2 0 ?y pl1)"
    using assms(4) by (auto simp: record_strictly_def split: option.splits)
  then have "delete_tenant env2 p2 i pl1 = (SuccessReply, ?pl2)"
    using i(1) t(1) assms(3) by (simp add: delete_tenant_def delete_steps_def)
  moreover have "getTenant i ?pl2 = None"
    unfolding getTenant_none tenant_ids_def[symmetric] by (simp add: deleteTenantAndKeys_def)
  moreover have "\<not> list_ex (\<lambda>k. ak_tenantId k = i) (pl_keys ?pl2)"
    by (simp add: deleteTenantAndKeys_def list_ex_iff)
  moreover have "\<not> list_ex (\<lambda>m. mb_tenantId m = Some i) (db_memberships (pl_accounts ?pl2))"
    by (simp add: deleteTenantAndKeys_def drop_tenant_def record_loosely_def write_entry_def list_ex_iff)
  ultimately show ?thesis using 1 2 3 by blast
qed

section \<open>Revoked keys\<close>

text \<open>
  What may happen to the platform after a key was revoked: any request to its routes, any request to a tenant's
  routes, any change of the accounts; new keys are drawn so that no two secrets have the same keyed hash.
\<close>

inductive platform_step :: "(string \<Rightarrow> string) \<Rightarrow> string \<Rightarrow> platform \<Rightarrow> platform \<Rightarrow> bool" for mac h where
  administered: "pe_mac env = mac \<Longrightarrow> mac (pe_plaintext env) \<noteq> h \<Longrightarrow> platform_request ae env rq r pl = (reply, pl') \<Longrightarrow>
    platform_step mac h pl pl'"
| used: "tenant_access ae rq pl = (a, pl') \<Longrightarrow> platform_step mac h pl pl'"
| people_changed: "platform_step mac h pl (pl\<lparr>pl_accounts := db\<rparr>)"

definition dead :: "string \<Rightarrow> platform \<Rightarrow> bool" where
  "dead h pl \<longleftrightarrow> list_all (\<lambda>k. ak_keyHash k = h \<longrightarrow> ak_revokedAt k \<noteq> None) (pl_keys pl)"

lemma tenant_access_frame:
  assumes "tenant_access ae rq pl = (a, pl')"
  shows "\<exists>f. pl_keys pl' = map f (pl_keys pl) \<and> (\<forall>k. (f k)\<lparr>ak_lastUsedAt := None\<rparr> = k\<lparr>ak_lastUsedAt := None\<rparr>)"
proof -
  obtain a1 where "authMiddleware ae rq pl = (a1, pl')" using assms by (auto simp: tenant_access_def split: prod.splits)
  then consider "pl' = pl" | token where "authenticateSession ae rq token pl = (a1, pl')" | key where "pl' = key_used ae key pl"
    by (auto simp: authMiddleware_def split: if_splits option.splits)
  then show ?thesis
  proof cases
    case 1
    then show ?thesis by (intro exI[of _ id]) simp
  next
    case 2
    then have "\<exists>r. resolve_session ae token pl = (r, pl')"
      by (auto simp: authenticateSession_def split: prod.splits option.splits)
    then show ?thesis using resolve_frame by (intro exI[of _ id]) fastforce
  next
    case 3
    then show ?thesis
      by (intro exI[of _ "\<lambda>k. if ak_keyHash k = ae_mac ae key then k\<lparr>ak_lastUsedAt := Some (ae_now ae)\<rparr> else k"])
        (simp add: key_used_def)
  qed
qed

lemma dead_effect:
  assumes "key_effect env p pl pl'" "pe_mac env (pe_plaintext env) \<noteq> h" "dead h pl"
  shows "dead h pl'"
  using assms by cases (auto simp: dead_def list_all_iff)

lemma dead_step:
  assumes "platform_step mac h pl pl'" "dead h pl"
  shows "dead h pl'"
  using assms
proof cases
  case (administered env ae rq r reply)
  from administered(3) show ?thesis
  proof (rule platform_request_shape)
    fix q pl1 assume g: "createGuard (guard_of r) ae rq pl = (Granted None q, pl1)" "route env (Some q) r pl1 = (reply, pl')"
    then have "dead h pl1" using guard_frame assms(2) by (simp add: dead_def)
    then show ?thesis using dead_effect route_effect[OF g(2)] administered(1,2) by blast
  next
    fix a assume "createGuard (guard_of r) ae rq pl = (a, pl')"
    then show ?thesis using guard_frame assms(2) by (simp add: dead_def)
  qed
next
  case (used ae rq a)
  from tenant_access_frame[OF used(1)] obtain f where
    f: "pl_keys pl' = map f (pl_keys pl)" "\<And>k. (f k)\<lparr>ak_lastUsedAt := None\<rparr> = k\<lparr>ak_lastUsedAt := None\<rparr>" by blast
  have "ak_keyHash (f k) = ak_keyHash k \<and> ak_revokedAt (f k) = ak_revokedAt k" for k
    using arg_cong[OF f(2)[of k], of ak_keyHash] arg_cong[OF f(2)[of k], of ak_revokedAt] by simp
  then show ?thesis using assms(2) f(1) by (simp add: dead_def list_all_iff)
next
  case (people_changed db)
  then show ?thesis using assms(2) by (simp add: dead_def)
qed

lemma bearer_secret:
  assumes "CHR '' '' \<notin> set secret" "secret \<noteq> []"
  shows "bearer_of (''Bearer '' @ secret) = Some secret"
proof -
  have "split_on (CHR '' '') (''Bearer'' @ CHR '' '' # secret) = [''Bearer''] @ [secret]"
    unfolding split_on_append using assms(1) by (simp add: split_on_none)
  with assms(2) show ?thesis by (simp add: bearer_of_def)
qed

lemma revoking_kills:
  assumes "revoke_key env p (ak_tenantId k) (ak_id k) pl = (SuccessReply, pl1)" "k \<in> set (pl_keys pl)"
    "distinct (map ak_id (pl_keys pl))" "distinct (map ak_keyHash (pl_keys pl))"
  shows "dead (ak_keyHash k) pl1"
proof -
  obtain hook where "revokeApiKey (ak_tenantId k) (ak_id k) (pe_now env) hook pl = (Inr True, pl1)"
    using assms(1) by (auto simp: revoke_key_def absent_def split: if_splits prod.splits sum.splits bool.splits)
  then have "\<exists>db. pl1 = (change_key (ak_id k) (\<lambda>k. k\<lparr>ak_revokedAt := Some (pe_now env)\<rparr>) pl)\<lparr>pl_accounts := db\<rparr>"
    by (auto simp: revokeApiKey_def dest: with_hook_ok split: if_splits)
  moreover have "ak_id x = ak_id k" if "x \<in> set (pl_keys pl)" "ak_keyHash x = ak_keyHash k" for x
    using that assms(2,4) by (metis distinct_map inj_on_def)
  ultimately show ?thesis by (auto simp: dead_def list_all_iff change_key_def)
qed

text \<open>
  C14. Revocation is final: from the moment a key is revoked, whatever happens to tenants, keys, roles and
  people afterwards, a request with its secret is answered with 401.
\<close>

theorem revocation_is_final:
  assumes "platform_ok pl" "k \<in> set (pl_keys pl)" "ak_keyHash k = mac secret"
    and "revoke_key env p (ak_tenantId k) (ak_id k) pl = (SuccessReply, pl1)"
    and "(platform_step mac (mac secret))\<^sup>*\<^sup>* pl1 pl2"
    and "rq_authorization rq = Some (''Bearer '' @ secret)" "CHR '' '' \<notin> set secret" "secret \<noteq> []"
    and "ae_mac ae = mac" "rq_path rq \<noteq> ''/health''"
  shows "tenant_access ae rq pl2 = (Denied 401 ''unauthorized'', pl2)"
proof -
  have "dead (mac secret) pl1" using revoking_kills[OF assms(4,2)] assms(1,3) by (simp add: platform_ok_def)
  with assms(5) have d: "dead (mac secret) pl2" by induction (auto intro: dead_step)
  have "ak_revokedAt x \<noteq> None" if "key_row ae secret pl2 = Some x" for x
    using find_some_in[OF that[unfolded key_row_def]] d assms(9) by (auto simp: dead_def list_all_iff)
  then have "authMiddleware ae rq pl2 = (unauthorized, pl2)"
    using bearer_secret[OF assms(7,8)] assms(6,10) by (auto simp: authMiddleware_def split: option.splits)
  then show ?thesis by (simp add: tenant_access_def unauthorized_def keyRoleMiddleware_def tenantSchemaGuard_def)
qed

section \<open>The tables\<close>

definition tenants_ok :: "platform \<Rightarrow> bool" where
  "tenants_ok pl \<longleftrightarrow> accounts_ok (pl_accounts pl) \<and> db_tenants (pl_accounts pl) = map tn_id (pl_tenants pl) \<and>
     distinct (map tn_id (pl_tenants pl))"

lemma platform_ok_split:
  "platform_ok pl \<longleftrightarrow> tenants_ok pl \<and> distinct (map ak_id (pl_keys pl)) \<and> distinct (map ak_keyHash (pl_keys pl)) \<and>
     (\<forall>k \<in> set (pl_keys pl). ak_tenantId k \<in> tenant_ids pl) \<and>
     distinct (map ok_id (pl_operatorKeys pl)) \<and> distinct (map ok_keyHash (pl_operatorKeys pl))"
  by (auto simp: platform_ok_def tenants_ok_def tenant_ids_def list_all_iff)

lemma tenants_ok_entry [simp]: "tenants_ok (record_loosely env k x pl) = tenants_ok pl"
  by (simp add: tenants_ok_def record_loosely_def write_entry_def)

lemma accounts_ok_new_tenant: "accounts_ok db \<Longrightarrow> accounts_ok (db\<lparr>db_tenants := db_tenants db @ [i]\<rparr>)"
  by (auto simp: accounts_ok_def)

lemma accounts_ok_drop_tenant:
  assumes "accounts_ok db"
  shows "accounts_ok (db\<lparr>db_tenants := filter (\<lambda>t. t \<noteq> i) (db_tenants db), db_memberships := filter (\<lambda>m. mb_tenantId m \<noteq> Some i) (db_memberships db)\<rparr>)"
  using ok_remove_membership[OF assms, of "\<lambda>m. mb_tenantId m \<noteq> Some i"] by (auto simp: accounts_ok_def)

lemma tenants_ok_change: "(\<And>t. tn_id (f t) = tn_id t) \<Longrightarrow> tenants_ok (change_tenant i f pl) = tenants_ok pl"
  by (simp add: tenants_ok_def change_tenant_ids)

lemma tenants_ok_drop: "tenants_ok pl \<Longrightarrow> tenants_ok (drop_tenant i pl)"
  using accounts_ok_drop_tenant[of "pl_accounts pl" i]
  by (auto simp: tenants_ok_def drop_tenant_def filter_map comp_def distinct_map_filter)

lemma createTenant_ok: "tenants_ok pl \<Longrightarrow> createTenant i name n pl = (r, pl') \<Longrightarrow> tenants_ok pl'"
  using accounts_ok_new_tenant[of "pl_accounts pl" i]
  by (auto simp: tenants_ok_def createTenant_def Let_def getTenant_none split: if_splits)

lemma deleteTenant_ok: "tenants_ok pl \<Longrightarrow> tenants_ok (snd (deleteTenant i pl))"
  by (simp add: deleteTenant_def tenants_ok_drop)

lemma create_tenant_ok: "create_tenant env p b pl = (reply, pl') \<Longrightarrow> tenants_ok pl \<Longrightarrow> tenants_ok pl'"
  unfolding create_tenant_def
  by (auto split: option.splits jsval.splits prod.splits sum.splits if_splits dest: createTenant_ok createTenant_failed
      intro: deleteTenant_ok)

lemma patch_tenant_ok: "patch_tenant env p i b pl = (reply, pl') \<Longrightarrow> tenants_ok pl \<Longrightarrow> tenants_ok pl'"
  by (auto simp: patch_tenant_def updateTenant_def Let_def tenants_ok_change split: option.splits prod.splits if_splits)

lemma delete_tenant_ok:
  assumes "delete_tenant env p i pl = (reply, pl')" "tenants_ok pl"
  shows "tenants_ok pl'"
  using assms(1)
proof (rule delete_tenant_shape)
  fix x ok pl2
  assume s: "delete_steps env i (record_loosely env 0 x pl) = (ok, pl2)"
    "pl' = (if ok then record_loosely env 1 (entry_of p ''tenant.delete'' (Some [i]) i None) pl2 else pl2)"
  have keys: "tenants_ok (q\<lparr>pl_keys := ks\<rparr>) = tenants_ok q" for q ks by (simp add: tenants_ok_def)
  from s(1) assms(2) have "tenants_ok pl2"
    by (auto simp: delete_steps_def markTenantDeleting_def deleteTenantAndKeys_def Let_def keys tenants_ok_change
        intro!: tenants_ok_drop split: if_splits)
  with s(2) show ?thesis by simp
qed (use assms(2) in simp)

text \<open>A hook that writes an entry changes nothing else of the accounts.\<close>

lemma strict_hook_logs: "logs_only (strict_hook env input)"
  by (auto simp: logs_only_def strict_hook_def run_hook_def write_entry_def split: option.splits)

lemma hooked_ok:
  assumes "with_hook (strict_hook env input) x pl q = (r, pl')" "tenants_ok pl" "tenants_ok q"
  shows "tenants_ok pl'"
proof (cases r)
  case (Inl e)
  then show ?thesis using with_hook_failed[OF assms(1)[unfolded Inl]] assms(2) by simp
next
  case (Inr y)
  with with_hook_ok[OF assms(1)[unfolded Inr]]
  obtain db where "run_hook (strict_hook env input) x (pl_accounts q) = Inr db" "pl' = q\<lparr>pl_accounts := db\<rparr>" by blast
  with logs_onlyD[OF strict_hook_logs, of env input x "pl_accounts q" db] assms(3) show ?thesis by (auto simp: tenants_ok_def)
qed

lemma tables_apart [simp]:
  "tenants_ok (pl\<lparr>pl_keys := ks\<rparr>) = tenants_ok pl" "tenants_ok (pl\<lparr>pl_operatorKeys := os\<rparr>) = tenants_ok pl"
  "tenants_ok (change_key i f pl) = tenants_ok pl"
  by (simp_all add: tenants_ok_def change_key_def)

lemma key_requests_ok:
  assumes "tenants_ok pl"
  shows "create_key env p t b pl = (reply, pl') \<Longrightarrow> tenants_ok pl'"
    "patch_key env p t i b pl = (reply, pl') \<Longrightarrow> tenants_ok pl'"
    "revoke_key env p t i pl = (reply, pl') \<Longrightarrow> tenants_ok pl'"
    "create_operator_key env p b pl = (reply, pl') \<Longrightarrow> tenants_ok pl'"
    "revoke_operator_key env p i pl = (reply, pl') \<Longrightarrow> tenants_ok pl'"
proof -
  note h = hooked_ok[OF _ assms]
  have c: "createApiKey m s k n t nm role by (strict_hook env f) pl = (r, pl') \<Longrightarrow> tenants_ok pl'" for m s k n nm role "by" f r pl'
    using assms by (auto simp: createApiKey_def Let_def dest: h split: if_splits)
  have s: "setApiKeyRole t i role (strict_hook env f) pl = (r, pl') \<Longrightarrow> tenants_ok pl'" for role f r pl'
    using assms by (auto simp: setApiKeyRole_def dest: h split: option.splits prod.splits sum.splits)
  have r: "revokeApiKey t i n (strict_hook env f) pl = (r, pl') \<Longrightarrow> tenants_ok pl'" for n f r pl'
    using assms by (auto simp: revokeApiKey_def dest: h split: if_splits)
  have oc: "operator_key_create m s k n nm by x (strict_hook env f) pl = (r, pl') \<Longrightarrow> tenants_ok pl'" for m s k n nm "by" x f r pl'
    using assms by (auto simp: operator_key_create_def Let_def dest: h split: if_splits)
  have r': "operator_key_revoke i n (strict_hook env f) pl = (r, pl') \<Longrightarrow> tenants_ok pl'" for n f r pl'
    using assms by (auto simp: operator_key_revoke_def dest: h split: option.splits prod.splits sum.splits)
  show "create_key env p t b pl = (reply, pl') \<Longrightarrow> tenants_ok pl'"
    using assms by (auto simp: create_key_def Let_def dest: c split: option.splits prod.splits sum.splits if_splits)
  show "patch_key env p t i b pl = (reply, pl') \<Longrightarrow> tenants_ok pl'"
    using assms by (auto simp: patch_key_def dest: s split: option.splits prod.splits sum.splits if_splits)
  show "revoke_key env p t i pl = (reply, pl') \<Longrightarrow> tenants_ok pl'"
    using assms by (auto simp: revoke_key_def dest: r split: prod.splits sum.splits if_splits bool.splits)
  show "create_operator_key env p b pl = (reply, pl') \<Longrightarrow> tenants_ok pl'"
    using assms by (auto simp: create_operator_key_def dest: oc split: option.splits prod.splits sum.splits if_splits)
  show "revoke_operator_key env p i pl = (reply, pl') \<Longrightarrow> tenants_ok pl'"
    using assms by (auto simp: revoke_operator_key_def dest: r' split: option.splits prod.splits sum.splits)
qed

lemma route_tenants_ok: "route env p r pl = (reply, pl') \<Longrightarrow> tenants_ok pl \<Longrightarrow> tenants_ok pl'"
  by (cases r)
    (auto simp: list_tenants_def get_tenant_def list_keys_def list_operator_keys_def split: option.splits
      dest: create_tenant_ok patch_tenant_ok delete_tenant_ok key_requests_ok)

lemma guard_tenants_ok:
  assumes "createGuard allow env rq pl = (a, pl')" "tenants_ok pl"
  shows "tenants_ok pl'"
proof -
  have "tenants_ok pl'" if r: "resolve_session env token pl = (x, pl')" for token x
  proof -
    from r obtain y db where d: "session_resolve (ae_sessions env) token (ae_now env) (pl_accounts pl) = (y, db)" "pl' = pl\<lparr>pl_accounts := db\<rparr>"
      by (auto simp: resolve_session_def split: prod.splits)
    from session_frame[OF d(1)] have "accounts_ok db \<and> db_tenants db = db_tenants (pl_accounts pl)"
      using assms(2) by (auto simp: tenants_ok_def accounts_ok_def)
    with d(2) assms(2) show ?thesis by (simp add: tenants_ok_def)
  qed
  moreover have "tenants_ok pl'" if "operator_key_authenticate m n token pl = (x, pl')" for m n token x
    using operator_authenticated[OF that] assms(2) by auto
  ultimately show ?thesis using assms
    by (auto simp: createGuard_def Let_def split: prod.splits option.splits if_splits)
qed

text \<open>
  The tables stay consistent: every request to the platform's routes keeps the primary keys, the
  uniqueness of secrets' hashes and every reference between the tables.
\<close>

theorem tables_stay_consistent:
  assumes "platform_ok pl"
  shows "platform_ok (snd (platform_request ae env rq r pl))"
proof -
  obtain reply pl' where q: "platform_request ae env rq r pl = (reply, pl')" by (metis surj_pair)
  have guard: "platform_ok pl1" if "createGuard allow ae rq pl = (a, pl1)" for allow a pl1
  proof -
    note f = guard_frame[OF that]
    have "map ok_id (pl_operatorKeys pl1) = map ok_id (pl_operatorKeys pl)"
      "map ok_keyHash (pl_operatorKeys pl1) = map ok_keyHash (pl_operatorKeys pl)"
      by (rule map_through[OF f[THEN conjunct2, THEN conjunct2]], simp)+
    with f guard_tenants_ok[OF that] assms show ?thesis by (simp add: platform_ok_split tenant_ids_def)
  qed
  from q have "platform_ok pl'"
  proof (rule platform_request_shape)
    fix p pl1 assume g: "createGuard (guard_of r) ae rq pl = (Granted None p, pl1)" and x: "route env (Some p) r pl1 = (reply, pl')"
    note ok = guard[OF g]
    from ok route_tenants_ok[OF x] have t: "tenants_ok pl'" by (simp add: platform_ok_split)
    from route_effect[OF x] have "key_effect env (Some p) pl1 pl'" by simp
    then have k: "distinct (map ak_id (pl_keys pl')) \<and> distinct (map ak_keyHash (pl_keys pl')) \<and> (\<forall>k \<in> set (pl_keys pl'). ak_tenantId k \<in> tenant_ids pl')"
    proof cases
      case keys_same
      then show ?thesis using ok unfolding platform_ok_split by auto
    next
      case (key_created k)
      then show ?thesis using ok unfolding platform_ok_split by auto
    next
      case (key_changed i f role n)
      have "ak_id (f k) = ak_id k \<and> ak_keyHash (f k) = ak_keyHash k \<and> ak_tenantId (f k) = ak_tenantId k" for k
        using key_changed(3) by auto
      then have "map ak_id (pl_keys pl') = map ak_id (pl_keys pl1)" "map ak_keyHash (pl_keys pl') = map ak_keyHash (pl_keys pl1)"
        "map ak_tenantId (pl_keys pl') = map ak_tenantId (pl_keys pl1)"
        by (auto simp: key_changed(1))
      then have tables: "map ak_id (pl_keys pl') = map ak_id (pl_keys pl1)" "map ak_keyHash (pl_keys pl') = map ak_keyHash (pl_keys pl1)"
        "set (map ak_tenantId (pl_keys pl')) = set (map ak_tenantId (pl_keys pl1))" by (simp_all only:)
      have "\<forall>k \<in> set (pl_keys pl'). ak_tenantId k \<in> tenant_ids pl'"
      proof
        fix k assume "k \<in> set (pl_keys pl')"
        then have "ak_tenantId k \<in> set (map ak_tenantId (pl_keys pl1))" unfolding tables(3)[symmetric] by simp
        then show "ak_tenantId k \<in> tenant_ids pl'" using ok key_changed(2) unfolding platform_ok_split by auto
      qed
      with tables(1,2) show ?thesis using ok unfolding platform_ok_split by simp
    next
      case (keys_dropped i)
      then show ?thesis using ok unfolding platform_ok_split by (auto simp: distinct_map_filter_keep)
    qed
    from route_effect[OF x] have "operator_effect env r pl1 pl'" by simp
    then have "distinct (map ok_id (pl_operatorKeys pl')) \<and> distinct (map ok_keyHash (pl_operatorKeys pl'))"
    proof cases
      case (operator_revoked i n)
      have "map ok_id (pl_operatorKeys pl') = map ok_id (pl_operatorKeys pl1)"
        "map ok_keyHash (pl_operatorKeys pl') = map ok_keyHash (pl_operatorKeys pl1)"
        by (simp_all add: operator_revoked(1))
      then show ?thesis using ok unfolding platform_ok_split by simp
    qed (use ok in \<open>auto simp: platform_ok_split\<close>)
    with t k show ?thesis by (simp add: platform_ok_split)
  qed (rule guard)
  with q show ?thesis by simp
qed

section \<open>Nothing happens to keys unrecorded\<close>

definition KEY_ACTIONS :: "string list" where
  "KEY_ACTIONS = [''key.create'', ''key.role'', ''key.revoke'', ''operator-key.create'', ''operator-key.revoke'', ''tenant.delete.requested'']"

text \<open>The audit log grew, and the first new entry names the actor and one of these actions.\<close>

definition recorded :: "principal option \<Rightarrow> platform \<Rightarrow> platform \<Rightarrow> bool" where
  "recorded p pl pl' \<longleftrightarrow> (\<exists>e es. db_audit (pl_accounts pl') = db_audit (pl_accounts pl) @ e # es \<and>
     au_kind e = actor_kind (actor_of p) \<and> au_actorId e = actor_id (actor_of p) \<and> au_action e \<in> set KEY_ACTIONS)"

lemma hook_recorded:
  assumes "with_hook (strict_hook env input) x pl q = (r, pl')" "pl' \<noteq> pl" "pe_audit env = Some failure"
    "db_audit (pl_accounts q) = db_audit (pl_accounts pl)" "input x = Some (entry_of p action ts tg ds)" "action \<in> set KEY_ACTIONS"
  shows "failure = None \<and> recorded p pl pl'"
proof (cases failure)
  case None
  with assms have "pl' = q\<lparr>pl_accounts := write_entry env 0 (entry_of p action ts tg ds) (pl_accounts q)\<rparr>"
    by (auto simp: with_hook_def strict_hook_def run_hook_def split: sum.splits)
  with None assms(4,6) show ?thesis
    by (auto simp: recorded_def write_entry_def audit_row_def entry_of_def)
next
  case (Some e)
  with assms have False by (auto simp: with_hook_def strict_hook_def run_hook_def split: sum.splits)
  then show ?thesis ..
qed

lemma create_key_recorded:
  assumes "create_key env p t b pl = (reply, pl')" "pl' \<noteq> pl" "pe_audit env = Some failure"
  shows "failure = None \<and> recorded p pl pl'"
proof -
  from assms(1,2) obtain name role r where "createApiKey (pe_mac env) (pe_plaintext env) (pe_newId env) (pe_now env) t name role (actor_user (actor_of p))
      (strict_hook env (\<lambda>(k, plaintext). Some (entry_of p ''key.create'' (Some [t]) (kp_id k)
         (Some [(''name'', JString (kp_name k)), (''role'', JString (key_role_name (kp_role k)))])))) pl = (r, pl')"
    by (auto simp: create_key_def Let_def split: option.splits prod.splits sum.splits if_splits)
  with assms(2) obtain x q where "with_hook (strict_hook env (\<lambda>(k, plaintext). Some (entry_of p ''key.create'' (Some [t]) (kp_id k)
         (Some [(''name'', JString (kp_name k)), (''role'', JString (key_role_name (kp_role k)))])))) x pl q = (r, pl')"
      "pl_accounts q = pl_accounts pl"
    by (auto simp: createApiKey_def Let_def split: if_splits)
  from hook_recorded[OF this(1) assms(2,3)] this(2) show ?thesis
    by (cases x) (auto simp: KEY_ACTIONS_def)
qed

lemma revoke_key_recorded:
  assumes "revoke_key env p t i pl = (reply, pl')" "pl' \<noteq> pl" "pe_audit env = Some failure"
  shows "failure = None \<and> recorded p pl pl'"
proof -
  from assms(1,2) obtain r where "revokeApiKey t i (pe_now env)
      (strict_hook env (\<lambda>_. Some (entry_of p ''key.revoke'' (Some [t]) i None))) pl = (r, pl')"
    by (auto simp: revoke_key_def split: prod.splits sum.splits if_splits bool.splits)
  with assms(2) obtain q where "with_hook (strict_hook env (\<lambda>_. Some (entry_of p ''key.revoke'' (Some [t]) i None))) True pl q = (r, pl')"
      "pl_accounts q = pl_accounts pl"
    by (auto simp: revokeApiKey_def change_key_def split: if_splits)
  from hook_recorded[OF this(1) assms(2,3)] this(2) show ?thesis by (auto simp: KEY_ACTIONS_def)
qed

lemma patch_key_recorded:
  assumes "patch_key env p t i b pl = (reply, pl')" "pl_keys pl' \<noteq> pl_keys pl" "pe_audit env = Some failure"
    "distinct (map ak_id (pl_keys pl))"
  shows "failure = None \<and> recorded p pl pl'"
proof -
  let ?input = "\<lambda>(k, previous). if previous = kp_role k then None else Some (entry_of p ''key.role'' (Some [t]) i
     (Some [(''name'', JString (kp_name k)), (''from'', JString (key_role_name previous)), (''to'', JString (key_role_name (kp_role k)))]))"
  from assms(1,2) obtain role r where "setApiKeyRole t i role (strict_hook env ?input) pl = (r, pl')"
    by (auto simp: patch_key_def split: option.splits prod.splits sum.splits if_splits)
  with assms(2) obtain k r' where k: "List.find (live_key_of t i) (pl_keys pl) = Some k"
      "with_hook (strict_hook env ?input) (public_key (k\<lparr>ak_role := role\<rparr>), ak_role k) pl (change_key i (\<lambda>k. k\<lparr>ak_role := role\<rparr>) pl) = (r', pl')"
    by (auto simp: setApiKeyRole_def split: option.splits prod.splits sum.splits)
  from find_some_in[OF k(1)] have i: "k \<in> set (pl_keys pl)" "ak_id k = i" by (simp_all add: live_key_of_def)
  have keys: "pl_keys pl' = map (\<lambda>k. if ak_id k = i then k\<lparr>ak_role := role\<rparr> else k) (pl_keys pl)"
    using hook_keeps[OF k(2)] assms(2) by (auto simp: change_key_def)
  have "ak_role k \<noteq> role"
  proof
    assume "ak_role k = role"
    then have "x\<lparr>ak_role := role\<rparr> = x" if "x \<in> set (pl_keys pl)" "ak_id x = i" for x
      using that i assms(4) by (metis api_key.surjective api_key.update_convs(4) distinct_map inj_on_def)
    then have "map (\<lambda>k. if ak_id k = i then k\<lparr>ak_role := role\<rparr> else k) (pl_keys pl) = pl_keys pl"
      by (intro map_idI) simp
    with keys assms(2) show False by simp
  qed
  moreover have "pl' \<noteq> pl" using assms(2) by auto
  ultimately show ?thesis using hook_recorded[OF k(2) _ assms(3)]
    by (auto simp: KEY_ACTIONS_def change_key_def public_key_def)
qed

lemma operator_key_requests_recorded:
  assumes "create_operator_key env p b pl = (reply, pl') \<or> revoke_operator_key env p i pl = (reply, pl')" "pl' \<noteq> pl"
    "pe_audit env = Some failure"
  shows "failure = None \<and> recorded p pl pl'"
  using assms(1)
proof
  assume "create_operator_key env p b pl = (reply, pl')"
  let ?input = "\<lambda>(k, plaintext). Some (entry_of p ''operator-key.create'' None (ok_id k)
     (Some [(''name'', JString (ok_name k)), (''expiresAt'', case ok_expiresAt k of None \<Rightarrow> JNull | Some x \<Rightarrow> JString (pe_iso env x))]))"
  from \<open>create_operator_key env p b pl = (reply, pl')\<close> assms(2) obtain name expires r where
    "operator_key_create (pe_mac env) (pe_plaintext env) (pe_newId env) (pe_now env) name (actor_user (actor_of p)) expires
      (strict_hook env ?input) pl = (r, pl')"
    by (auto simp: create_operator_key_def split: option.splits prod.splits sum.splits if_splits)
  with assms(2) obtain x q where "with_hook (strict_hook env ?input) x pl q = (r, pl')" "pl_accounts q = pl_accounts pl"
    by (auto simp: operator_key_create_def Let_def split: if_splits)
  from hook_recorded[OF this(1) assms(2,3)] this(2) show ?thesis by (cases x) (auto simp: KEY_ACTIONS_def)
next
  assume "revoke_operator_key env p i pl = (reply, pl')"
  let ?input = "\<lambda>k. Some (entry_of p ''operator-key.revoke'' None i (Some [(''name'', JString (ok_name k))]))"
  from \<open>revoke_operator_key env p i pl = (reply, pl')\<close> assms(2) obtain r where
    "operator_key_revoke i (pe_now env) (strict_hook env ?input) pl = (r, pl')"
    by (auto simp: revoke_operator_key_def split: option.splits prod.splits sum.splits)
  moreover then obtain k where "List.find (\<lambda>k. ok_id k = i \<and> ok_revokedAt k = None) (pl_operatorKeys pl) = Some k"
    using assms(2) by (auto simp: operator_key_revoke_def split: option.splits)
  moreover obtain q where q: "q = pl\<lparr>pl_operatorKeys := map (\<lambda>k. if ok_id k = i \<and> ok_revokedAt k = None
      then k\<lparr>ok_revokedAt := Some (pe_now env)\<rparr> else k) (pl_operatorKeys pl)\<rparr>" by blast
  ultimately obtain r' where "with_hook (strict_hook env ?input) (k\<lparr>ok_revokedAt := Some (pe_now env)\<rparr>) pl q = (r', pl')"
    by (auto simp: operator_key_revoke_def split: prod.splits sum.splits)
  from hook_recorded[OF this assms(2,3)] q show ?thesis by (auto simp: KEY_ACTIONS_def)
qed


lemma delete_steps_audit: "delete_steps env i pl = (d, pl') \<Longrightarrow> db_audit (pl_accounts pl') = db_audit (pl_accounts pl)"
  by (auto simp: delete_steps_def markTenantDeleting_def deleteTenantAndKeys_def drop_tenant_def Let_def split: if_splits)

lemma recorded_first:
  assumes "db_audit (pl_accounts pl') = db_audit (pl_accounts pl) @ audit_row i n (entry_of p action ts tg ds) # es" "action \<in> set KEY_ACTIONS"
  shows "recorded p pl pl'"
  unfolding recorded_def
  by (rule exI[of _ "audit_row i n (entry_of p action ts tg ds)"], rule exI[of _ es]) (use assms in \<open>simp add: audit_row_def entry_of_def\<close>)

lemma delete_tenant_recorded:
  assumes "delete_tenant env p i pl = (reply, pl')" "pl' \<noteq> pl" "pe_audit env = Some failure"
  shows "failure = None \<and> recorded p pl pl'"
proof -
  let ?x = "entry_of p ''tenant.delete.requested'' (Some [i]) i None"
  from assms have ok: "failure = None"
    by (auto simp: delete_tenant_def record_strictly_def split: if_splits option.splits)
  let ?pl1 = "record_loosely env 0 ?x pl"
  obtain d pl2 where s: "delete_steps env i ?pl1 = (d, pl2)" by (metis surj_pair)
  have "db_audit (pl_accounts ?pl1) = db_audit (pl_accounts pl) @ [audit_row (pe_auditId env 0) (pe_now env) ?x]"
    using assms(3) ok by (simp add: record_loosely_def write_entry_def)
  then have two: "db_audit (pl_accounts pl2) = db_audit (pl_accounts pl) @ [audit_row (pe_auditId env 0) (pe_now env) ?x]"
    using delete_steps_audit[OF s] by simp
  have "pl' = pl2 \<or> pl' = record_loosely env 1 (entry_of p ''tenant.delete'' (Some [i]) i None) pl2"
    using assms s ok by (auto simp: delete_tenant_def record_strictly_def split: if_splits bool.splits)
  then have "\<exists>es. db_audit (pl_accounts pl') = db_audit (pl_accounts pl) @ audit_row (pe_auditId env 0) (pe_now env) ?x # es"
    using two by (auto simp: record_loosely_def write_entry_def)
  then show ?thesis using recorded_first[of pl' pl] ok by (auto simp: KEY_ACTIONS_def)
qed

text \<open>
  Nothing happens to keys unrecorded: with an audit log, a request that changes an API key or an operator
  key in any way wrote an entry in the same step, with who did it; where the entry cannot be written,
  nothing changes.
\<close>

theorem key_changes_are_recorded:
  assumes "route env p r pl = (reply, pl')" "pe_audit env = Some failure" "distinct (map ak_id (pl_keys pl))"
    and "pl_keys pl' \<noteq> pl_keys pl \<or> pl_operatorKeys pl' \<noteq> pl_operatorKeys pl"
  shows "failure = None \<and> recorded p pl pl'"
proof -
  have "pl' \<noteq> pl" using assms(4) by auto
  note facts = this assms(2-4)
  show ?thesis
  proof (cases r)
    case (CreateTenant b)
    then show ?thesis using assms(1,4) create_tenant_effect[of env p b pl reply pl'] createTenant_effect
      by (auto simp: create_tenant_def deleteTenant_effect(1,3) split: option.splits jsval.splits prod.splits sum.splits if_splits
          dest: createTenant_failed createTenant_effect(1,4))
  next
    case (PatchTenant i b)
    then show ?thesis using assms(1,4) patch_tenant_effect[of env p i b pl reply pl'] by auto
  next
    case (RemoveTenant i)
    then show ?thesis using assms(1) delete_tenant_recorded facts by auto
  next
    case (CreateKey t b)
    then show ?thesis using assms(1) create_key_recorded facts by auto
  next
    case (PatchKey t k b)
    moreover have "pl_operatorKeys pl' = pl_operatorKeys pl"
      using assms(1) PatchKey patch_key_effect by auto
    ultimately show ?thesis using assms(1) patch_key_recorded facts by auto
  next
    case (RevokeKey t k)
    then show ?thesis using assms(1) revoke_key_recorded facts by auto
  next
    case (CreateOperatorKey b)
    then show ?thesis using assms(1) operator_key_requests_recorded[of env p b pl reply pl'] facts by auto
  next
    case (RevokeOperatorKey i)
    then show ?thesis using assms(1) operator_key_requests_recorded[of env p _ pl reply pl' i] facts by auto
  qed (use assms(1) facts in \<open>auto simp: list_tenants_def get_tenant_def list_keys_def list_operator_keys_def split: option.splits\<close>)
qed

section \<open>The client's address\<close>

definition forwarded_entries :: "string \<Rightarrow> string list" where
  "forwarded_entries h = filter (\<lambda>e. e \<noteq> []) (map js_trim (split_on (CHR '','') h))"

text \<open>What a proxy does to the header: it appends the address it was called from.\<close>

fun through_proxy :: "string option \<Rightarrow> string \<Rightarrow> string option" where
  "through_proxy None a = Some a"
| "through_proxy (Some h) a = Some (h @ '', '' @ a)"

definition plain_address :: "string \<Rightarrow> bool" where
  "plain_address a \<longleftrightarrow> a \<noteq> [] \<and> list_all (\<lambda>c. c \<noteq> CHR '','' \<and> \<not> js_space c) a"

lemma dropWhile_none: "list_all (\<lambda>c. \<not> P c) xs \<Longrightarrow> dropWhile P xs = xs"
  by (cases xs) auto

lemma plain_trimmed:
  assumes "plain_address a"
  shows "js_trim a = a" "js_trim (CHR '' '' # a) = a"
proof -
  have "list_all (\<lambda>c. \<not> js_space c) a" "list_all (\<lambda>c. \<not> js_space c) (rev a)"
    using assms by (auto simp: plain_address_def list_all_iff)
  then show "js_trim a = a" "js_trim (CHR '' '' # a) = a"
    by (simp_all add: js_trim_def dropWhile_none js_space_def[of "CHR '' ''"])
qed

lemma plain_split: "plain_address a \<Longrightarrow> split_on (CHR '','') a = [a]" "plain_address a \<Longrightarrow> split_on (CHR '','') (CHR '' '' # a) = [CHR '' '' # a]"
  by (rule split_on_none, force simp: plain_address_def list_all_iff)+

lemma entries_grow:
  assumes "plain_address a"
  shows "forwarded_entries a = [a]" "forwarded_entries (h @ CHR '','' # CHR '' '' # a) = forwarded_entries h @ [a]"
  unfolding forwarded_entries_def split_on_append plain_split[OF assms]
  using plain_trimmed[OF assms] assms by (simp_all add: plain_address_def)

lemma proxies_append:
  assumes "list_all plain_address addrs" "addrs \<noteq> []"
  shows "\<exists>h es. foldl through_proxy claimed addrs = Some h \<and> forwarded_entries h = es @ addrs"
  using assms
proof (induction addrs rule: rev_induct)
  case (snoc a addrs)
  show ?case
  proof (cases "addrs = []")
    case True
    with snoc.prems entries_grow[of a] show ?thesis by (cases claimed) auto
  next
    case False
    with snoc.IH snoc.prems obtain h es where "foldl through_proxy claimed addrs = Some h" "forwarded_entries h = es @ addrs" by auto
    with snoc.prems entries_grow(2)[of a h] show ?thesis by auto
  qed
qed simp

text \<open>
  A client cannot choose its address: behind \<open>n\<close> trusted proxies, each of which appends the address it
  was called from, the client's address is the one the outermost of them saw, whatever the client
  wrote into the header.
\<close>

theorem client_ip_cannot_be_forged:
  assumes "list_all plain_address (a # addrs)"
    and "rq_forwardedFor rq = foldl through_proxy claimed (a # addrs)"
  shows "clientIp rq (length (a # addrs)) = a"
proof -
  obtain h es where h: "foldl through_proxy claimed (a # addrs) = Some h" "forwarded_entries h = es @ a # addrs"
    using proxies_append[OF assms(1), of claimed] by blast
  then have "rq_forwardedFor rq = Some h" using assms(2) by simp
  then have "clientIp rq (length (a # addrs)) = (es @ a # addrs) ! length es"
    using h(2) by (simp add: clientIp_def forwarded_entries_def)
  then show ?thesis by simp
qed

definition sample_request :: "string \<Rightarrow> string \<Rightarrow> string option \<Rightarrow> http_request" where
  "sample_request verb path auth = \<lparr>rq_method = verb, rq_path = path, rq_urlOrigin = [], rq_authorization = auth, rq_origin = None,
     rq_console = None, rq_tenant = None, rq_session = None, rq_forwardedFor = Some ''1.1.1.1, 9.9.9.9, 10.0.0.7'', rq_remote = None\<rparr>"

theorem client_ip_cannot_be_forged_witness:
  "clientIp (sample_request ''POST'' ''/login'' None) 2 = ''9.9.9.9''"
  using client_ip_cannot_be_forged[of "''9.9.9.9''" "[''10.0.0.7'']" "sample_request ''POST'' ''/login'' None" "Some ''1.1.1.1''"]
  by (simp add: plain_address_def js_space_def sample_request_def numeral_2_eq_2)

section \<open>Witnesses\<close>

definition sample_key :: "string \<Rightarrow> string \<Rightarrow> key_role \<Rightarrow> api_key" where
  "sample_key i secret role = \<lparr>ak_id = i, ak_tenantId = ''acme'', ak_name = ''key'', ak_role = role, ak_createdBy = None,
     ak_keyHash = secret, ak_createdAt = 1, ak_lastUsedAt = None, ak_revokedAt = None\<rparr>"

definition sample_platform :: platform where
  "sample_platform = \<lparr>pl_accounts = \<lparr>db_users = [], db_memberships = [], db_invites = [], db_sessions = [],
       db_tenants = [''acme''], db_audit = []\<rparr>,
     pl_tenants = [\<lparr>tn_id = ''acme'', tn_name = ''Acme'', tn_status = ActiveTenant, tn_createdAt = 0\<rparr>],
     pl_keys = [sample_key ''s'' ''k1'' ServiceRole, sample_key ''m'' ''k2'' ManagerRole], pl_operatorKeys = []\<rparr>"

definition sample_access :: access_env where
  "sample_access = \<lparr>ae_mac = id, ae_sessions = \<lparr>so_hash = id, so_idleMs = 10, so_maxMs = 100\<rparr>, ae_publicOrigin = None,
     ae_now = 5, ae_adminApiKey = ''root'', ae_operatorKeys = True, ae_behind = []\<rparr>"

definition sample_env :: "(nat \<Rightarrow> bool) \<Rightarrow> platform_env" where
  "sample_env steps = \<lparr>pe_mac = id, pe_now = 5, pe_plaintext = ''k3'', pe_newId = ''n'', pe_auditId = (\<lambda>k. ''a''),
     pe_audit = Some None, pe_provision = True, pe_step = steps, pe_maxDays = None, pe_parse_date = (\<lambda>_. None), pe_iso = (\<lambda>_. [])\<rparr>"

lemmas sample_platform_eval = sample_request_def sample_key_def sample_platform_def sample_access_def sample_env_def
  tenant_access_def authMiddleware_def bearer_of_def key_row_def tenant_active_def key_used_def keyRoleMiddleware_def
  tenantSchemaGuard_def keyMayCall_def SERVICE_def path_fits_def js_upper_def js_upper_char_def truthy_def
  record_strictly_def record_loosely_def write_entry_def

lemma sample_tenant_access:
  "tenant_access sample_access (sample_request ''GET'' ''/tasks'' (Some ''Bearer k1'')) sample_platform =
     (Granted (Some ''acme'') (ApiKeyPrincipal ''acme'' ''s'' ''key'' ServiceRole), key_used sample_access ''k1'' sample_platform)"
  by (simp add: sample_platform_eval)

theorem tenant_access_is_earned_witness:
  "\<exists>i. Some ''acme'' = Some i \<and> tenant_active i sample_platform"
  using tenant_access_is_earned[OF sample_tenant_access] by blast

theorem service_keys_do_not_administer_witness: "\<not> administrative_call ''GET'' ''/tasks''"
  using service_keys_do_not_administer[OF sample_tenant_access] by (simp add: sample_request_def)

definition sample_failed :: platform where
  "sample_failed = snd (delete_tenant (sample_env (\<lambda>k. k = 0)) None ''acme'' sample_platform)"

lemma sample_deletion_fails:
  "delete_tenant (sample_env (\<lambda>k. k = 0)) None ''acme'' sample_platform = (Rejected 500 ''DELETE_FAILED'', sample_failed)"
  by (simp add: sample_failed_def delete_tenant_def delete_steps_def getTenant_def PROTECTED_TENANT_ID_def sample_platform_eval)

theorem failed_deletions_lock_and_retry_witness:
  "fst (tenant_access sample_access (sample_request ''GET'' ''/tasks'' (Some ''Bearer k1'')) sample_failed) \<noteq> Granted (Some ''acme'') AdminKeyPrincipal \<and>
   fst (create_key (sample_env (\<lambda>_. True)) None ''acme'' None sample_failed) \<in> {invalid_request, Rejected 403 ''FORBIDDEN''} \<and>
   (\<exists>pl2. delete_tenant (sample_env (\<lambda>_. True)) None ''acme'' sample_failed = (SuccessReply, pl2) \<and> getTenant ''acme'' pl2 = None)"
  using failed_deletions_lock_and_retry[OF sample_deletion_fails, of "sample_env (\<lambda>_. True)" sample_access
      "sample_request ''GET'' ''/tasks'' (Some ''Bearer k1'')" AdminKeyPrincipal "sample_env (\<lambda>_. True)" None None None]
  by (auto simp: sample_env_def)

lemma sample_platform_ok: "platform_ok sample_platform"
  by (simp add: platform_ok_def accounts_ok_def sample_platform_def sample_key_def)

definition sample_revoked :: platform where
  "sample_revoked = snd (revoke_key (sample_env (\<lambda>_. True)) None ''acme'' ''s'' sample_platform)"

lemma sample_revocation:
  "revoke_key (sample_env (\<lambda>_. True)) None ''acme'' ''s'' sample_platform = (SuccessReply, sample_revoked)"
  by (simp add: sample_revoked_def revoke_key_def revokeApiKey_def getTenant_def live_key_of_def with_hook_def run_hook_def
      strict_hook_def change_key_def sample_platform_eval)

theorem revocation_is_final_witness:
  "fst (tenant_access sample_access (sample_request ''GET'' ''/tasks'' (Some ''Bearer k1''))
      (sample_revoked\<lparr>pl_accounts := pl_accounts sample_platform\<rparr>)) = Denied 401 ''unauthorized''"
  using revocation_is_final[OF sample_platform_ok, of "sample_key ''s'' ''k1'' ServiceRole" id "''k1''" "sample_env (\<lambda>_. True)" None
      sample_revoked "sample_revoked\<lparr>pl_accounts := pl_accounts sample_platform\<rparr>"
      "sample_request ''GET'' ''/tasks'' (Some ''Bearer k1'')" sample_access]
    sample_revocation r_into_rtranclp[where r = "platform_step id ''k1''", OF people_changed]
  by (simp add: sample_platform_def sample_key_def sample_request_def sample_access_def)

theorem tables_stay_consistent_witness:
  "platform_ok (snd (platform_request sample_access (sample_env (\<lambda>_. True)) (sample_request ''POST'' ''/tenants'' (Some ''Bearer root''))
     (RemoveTenant ''acme'') sample_platform))"
  by (rule tables_stay_consistent[OF sample_platform_ok])

theorem key_changes_are_recorded_witness:
  "recorded None sample_platform sample_revoked"
proof -
  have "route (sample_env (\<lambda>_. True)) None (RevokeKey ''acme'' ''s'') sample_platform = (SuccessReply, sample_revoked)"
    using sample_revocation by simp
  moreover have "pl_keys sample_revoked \<noteq> pl_keys sample_platform"
    by (simp add: sample_revoked_def revoke_key_def revokeApiKey_def getTenant_def live_key_of_def with_hook_def run_hook_def
      strict_hook_def change_key_def sample_platform_eval)
  ultimately show ?thesis using key_changes_are_recorded[of "sample_env (\<lambda>_. True)" None "RevokeKey ''acme'' ''s''" sample_platform]
    by (simp add: sample_platform_def sample_key_def sample_env_def)
qed

end
