(* ===== verification/Password_Hasher.thy ===== *)
theory Password_Hasher
  imports Text_Tools "HOL-Library.Word"
begin

text \<open>
  \<open>auth/PasswordHasher.ts\<close> of the app: the policy for passwords, the text a hash is stored as, and checking
  a password against it. \<open>scrypt\<close> and Unicode's NFKC are parameters, the random salt is an argument; base64
  is written out, as is the test for a power of two on 32 bits. A derivation always answers.
\<close>

unbundle bit_operations_syntax

section \<open>Base64\<close>

type_synonym byte = "8 word"

definition alphabet64 :: string where
  "alphabet64 = ''ABCDEFGHIJKLMNOPQRSTUVWXYZabcdefghijklmnopqrstuvwxyz0123456789+/''"

definition char64 :: "nat \<Rightarrow> char" where
  "char64 n = alphabet64 ! n"

text \<open>\<open>buffer.toString('base64')\<close>: three bytes in four characters, the rest filled up with \<open>=\<close>.\<close>

fun base64 :: "byte list \<Rightarrow> string" where
  "base64 [] = []"
| "base64 [a] = [char64 (unat a div 4), char64 (unat a mod 4 * 16), CHR ''='', CHR ''='']"
| "base64 [a, b] = [char64 (unat a div 4), char64 (unat a mod 4 * 16 + unat b div 16), char64 (unat b mod 16 * 4), CHR ''='']"
| "base64 (a # b # c # bs) =
     char64 (unat a div 4) # char64 (unat a mod 4 * 16 + unat b div 16) # char64 (unat b mod 16 * 4 + unat c div 64) #
     char64 (unat c mod 64) # base64 bs"

text \<open>The value of a character, of the usual alphabet or the one for URLs; none for any other character.\<close>

definition value64 :: "char \<Rightarrow> nat option" where
  "value64 c = (let n = of_char c :: nat in
     if 65 \<le> n \<and> n \<le> 90 then Some (n - 65)
     else if 97 \<le> n \<and> n \<le> 122 then Some (n - 71)
     else if 48 \<le> n \<and> n \<le> 57 then Some (n + 4)
     else if c = CHR ''+'' \<or> c = CHR ''-'' then Some 62
     else if c = CHR ''/'' \<or> c = CHR ''_'' then Some 63
     else None)"

fun join64 :: "nat list \<Rightarrow> byte list" where
  "join64 (w # x # y # z # r) = of_nat (w * 4 + x div 16) # of_nat (x mod 16 * 16 + y div 4) # of_nat (y mod 4 * 64 + z) # join64 r"
| "join64 [w, x, y] = [of_nat (w * 4 + x div 16), of_nat (x mod 16 * 16 + y div 4)]"
| "join64 [w, x] = [of_nat (w * 4 + x div 16)]"
| "join64 _ = []"

text \<open>\<open>Buffer.from(text, 'base64')\<close>: characters outside the alphabet are skipped.\<close>

definition unbase64 :: "string \<Rightarrow> byte list" where
  "unbase64 s = join64 (List.map_filter value64 s)"

section \<open>The policy\<close>

definition MIN_PASSWORD_LENGTH :: nat where
  "MIN_PASSWORD_LENGTH = 12"

definition MAX_PASSWORD_LENGTH :: nat where
  "MAX_PASSWORD_LENGTH = 1024"

definition KEY_LENGTH :: nat where
  "KEY_LENGTH = 64"

definition SALT_LENGTH :: nat where
  "SALT_LENGTH = 16"

record scrypt_params =
  sp_N :: nat
  sp_r :: nat
  sp_p :: nat

record parsed_hash = scrypt_params +
  ph_salt :: "byte list"
  ph_hash :: "byte list"

text \<open>\<open>derive\<close> takes the password, the salt, the parameters and the length of the key.\<close>

record hasher =
  hs_derive :: "string \<Rightarrow> byte list \<Rightarrow> scrypt_params \<Rightarrow> nat \<Rightarrow> byte list"
  hs_nfkc :: "string \<Rightarrow> string"
  hs_params :: scrypt_params

definition DEFAULT_PARAMS :: scrypt_params where
  "DEFAULT_PARAMS = \<lparr>sp_N = 32768, sp_r = 8, sp_p = 1\<rparr>"

datatype policy_error = TooShort | TooLong

definition withinPolicy :: "hasher \<Rightarrow> string \<Rightarrow> bool" where
  "withinPolicy h password \<longleftrightarrow>
     (let n = length (hs_nfkc h password) in n \<ge> MIN_PASSWORD_LENGTH \<and> n \<le> MAX_PASSWORD_LENGTH)"

definition checkPolicy :: "hasher \<Rightarrow> string \<Rightarrow> policy_error + string" where
  "checkPolicy h password =
     (let normalized = hs_nfkc h password in
      if length normalized < MIN_PASSWORD_LENGTH then Inl TooShort
      else if length normalized > MAX_PASSWORD_LENGTH then Inl TooLong
      else Inr normalized)"

section \<open>The stored text\<close>

definition MIN_N :: nat where
  "MIN_N = 1024"

definition MAX_N :: nat where
  "MAX_N = 131072"

definition MAX_R :: nat where
  "MAX_R = 16"

definition MAX_P :: nat where
  "MAX_P = 4"

text \<open>\<open>(N & (N - 1)) === 0\<close>, on 32 bits as JavaScript does it.\<close>

definition power_of_two :: "nat \<Rightarrow> bool" where
  "power_of_two n \<longleftrightarrow> ((of_nat n :: 32 word) AND (of_nat n - 1)) = 0"

definition numeric :: "string \<Rightarrow> bool" where
  "numeric v \<longleftrightarrow> v \<noteq> [] \<and> list_all digit v"

definition parse_stored :: "string \<Rightarrow> parsed_hash option" where
  "parse_stored stored =
     (case split_on (CHR ''$'') stored of
        [scheme, n, r, p, salt, hash] \<Rightarrow>
          if scheme \<noteq> ''scrypt'' then None
          else if \<not> (numeric n \<and> numeric r \<and> numeric p) \<or> \<not> power_of_two (number_of n) then None
          else if number_of n < MIN_N \<or> number_of n > MAX_N \<or> number_of r < 1 \<or> number_of r > MAX_R \<or>
            number_of p < 1 \<or> number_of p > MAX_P then None
          else if unbase64 salt = [] \<or> unbase64 hash = [] then None
          else Some \<lparr>sp_N = number_of n, sp_r = number_of r, sp_p = number_of p, ph_salt = unbase64 salt, ph_hash = unbase64 hash\<rparr>
      | _ \<Rightarrow> None)"

definition hash_password :: "hasher \<Rightarrow> byte list \<Rightarrow> string \<Rightarrow> policy_error + string" where
  "hash_password h salt password =
     (case checkPolicy h password of
        Inl e \<Rightarrow> Inl e
      | Inr normalized \<Rightarrow>
          let ps = hs_params h; key = hs_derive h normalized salt ps KEY_LENGTH
          in Inr (''scrypt$'' @ decimal (sp_N ps) @ ''$'' @ decimal (sp_r ps) @ ''$'' @ decimal (sp_p ps) @ ''$'' @
               base64 salt @ ''$'' @ base64 key))"

text \<open>What a failing check derives is for the time it takes only; its answer does not depend on it.\<close>

definition verify :: "hasher \<Rightarrow> string \<Rightarrow> string option \<Rightarrow> bool" where
  "verify h password stored =
     (case (case stored of None \<Rightarrow> None | Some s \<Rightarrow> parse_stored s) of
        None \<Rightarrow> False
      | Some parsed \<Rightarrow>
          if \<not> withinPolicy h password then False
          else
            let key = hs_derive h (hs_nfkc h password) (ph_salt parsed) (scrypt_params.truncate parsed) (length (ph_hash parsed))
            in length key = length (ph_hash parsed) \<and> key = ph_hash parsed)"

text \<open>The scrypt run of a check: its input, salt, cost and length, whatever the outcome.\<close>

definition DUMMY_SALT :: "byte list" where
  "DUMMY_SALT = replicate SALT_LENGTH 7"

definition scrypt_run :: "hasher \<Rightarrow> string \<Rightarrow> string option \<Rightarrow> string \<times> byte list \<times> scrypt_params \<times> nat" where
  "scrypt_run h password stored =
     (case (case stored of None \<Rightarrow> None | Some s \<Rightarrow> parse_stored s) of
        Some parsed \<Rightarrow>
          if withinPolicy h password
          then (hs_nfkc h password, ph_salt parsed, scrypt_params.truncate parsed, length (ph_hash parsed))
          else (take MAX_PASSWORD_LENGTH (hs_nfkc h password), DUMMY_SALT, hs_params h, KEY_LENGTH)
      | None \<Rightarrow> (take MAX_PASSWORD_LENGTH (hs_nfkc h password), DUMMY_SALT, hs_params h, KEY_LENGTH))"

definition needsRehash :: "hasher \<Rightarrow> string \<Rightarrow> bool" where
  "needsRehash h stored =
     (case parse_stored stored of
        None \<Rightarrow> True
      | Some p \<Rightarrow> sp_N p < sp_N (hs_params h) \<or> sp_r p < sp_r (hs_params h) \<or> sp_p p < sp_p (hs_params h))"

section \<open>What is written is read back\<close>

lemma value_char64: "n < 64 \<Longrightarrow> value64 (char64 n) = Some n"
proof -
  have "\<forall>n\<in>set [0..<64]. value64 (char64 n) = Some n"
    by (simp add: upt_rec value64_def char64_def alphabet64_def)
  then show "n < 64 \<Longrightarrow> value64 (char64 n) = Some n" by simp
qed

lemma byte_bound: "unat (a :: byte) < 256"
  using unsigned_less[of a, where 'a = nat] by simp

lemma two_digits: "k < n \<Longrightarrow> (m * n + k) div n = m" "k < n \<Longrightarrow> (m * n + k) mod n = (k::nat)"
  by simp_all

lemma sextets:
  assumes "a < 256" "b < 256" "c < (256::nat)"
  shows "a div 4 < 64" "a mod 4 * 16 + b div 16 < 64" "b mod 16 * 4 + c div 64 < 64" "c mod 64 < 64"
    "a mod 4 * 16 < 64" "b mod 16 * 4 < 64"
    "a div 4 * 4 + (a mod 4 * 16 + b div 16) div 16 = a"
    "(a mod 4 * 16 + b div 16) mod 16 * 16 + (b mod 16 * 4 + c div 64) div 4 = b"
    "(b mod 16 * 4 + c div 64) mod 4 * 64 + c mod 64 = c"
proof -
  have q: "b div 16 < 16" "c div 64 < 4" using assms(2,3) by (simp_all add: less_mult_imp_div_less)
  have r: "a mod 4 < 4" "b mod 16 < 16" by simp_all
  show "a div 4 < 64" using assms(1) by (simp add: less_mult_imp_div_less)
  show "a mod 4 * 16 + b div 16 < 64" "b mod 16 * 4 + c div 64 < 64" "a mod 4 * 16 < 64" "b mod 16 * 4 < 64"
    using q r by linarith+
  show "a div 4 * 4 + (a mod 4 * 16 + b div 16) div 16 = a"
    "(a mod 4 * 16 + b div 16) mod 16 * 16 + (b mod 16 * 4 + c div 64) div 4 = b"
    "(b mod 16 * 4 + c div 64) mod 4 * 64 + c mod 64 = c"
    unfolding two_digits[OF q(1)] two_digits[OF q(2)] by simp_all
qed simp

lemma value_pad: "value64 (CHR ''='') = None"
  by (simp add: value64_def)

lemma unbase64_base64: "unbase64 (base64 bs) = bs"
proof (induction bs rule: base64.induct)
  case (2 a)
  then show ?case using sextets[OF byte_bound[of a], of 0 0, simplified]
    by (simp add: unbase64_def map_filter_simps value_char64 value_pad)
next
  case (3 a b)
  then show ?case using sextets[OF byte_bound[of a] byte_bound[of b], of 0, simplified]
    by (simp add: unbase64_def map_filter_simps value_char64 value_pad)
next
  case (4 a b c bs)
  then show ?case using sextets[OF byte_bound[of a] byte_bound[of b] byte_bound[of c]]
    by (simp add: unbase64_def map_filter_simps value_char64)
qed (simp add: unbase64_def map_filter_simps)

lemma char64_no_dollar: "n < 64 \<Longrightarrow> char64 n \<noteq> CHR ''$''"
  using value_char64[of n] by (auto simp: value64_def)

lemma base64_no_dollar: "CHR ''$'' \<notin> set (base64 bs)"
proof (induction bs rule: base64.induct)
  case (2 a)
  show ?case using char64_no_dollar sextets[OF byte_bound[of a], of 0 0] by (simp add: eq_commute[of "CHR ''$''"])
next
  case (3 a b)
  show ?case using char64_no_dollar sextets[OF byte_bound[of a] byte_bound[of b], of 0] by (simp add: eq_commute[of "CHR ''$''"])
next
  case (4 a b c bs)
  then show ?case using char64_no_dollar sextets[OF byte_bound[of a] byte_bound[of b] byte_bound[of c]]
    by (simp add: eq_commute[of "CHR ''$''"])
qed simp

lemma base64_nonempty [simp]: "base64 bs = [] \<longleftrightarrow> bs = []"
  by (cases bs rule: base64.cases) simp_all

lemma decimal_no_dollar: "CHR ''$'' \<notin> set (decimal n)"
  using decimal_digits[of n] by (auto simp: list_all_iff digit_def)

definition params_ok :: "scrypt_params \<Rightarrow> bool" where
  "params_ok ps \<longleftrightarrow> power_of_two (sp_N ps) \<and> MIN_N \<le> sp_N ps \<and> sp_N ps \<le> MAX_N \<and> 1 \<le> sp_r ps \<and> sp_r ps \<le> MAX_R \<and>
     1 \<le> sp_p ps \<and> sp_p ps \<le> MAX_P"

lemma parse_written:
  assumes "params_ok ps" "salt \<noteq> []" "key \<noteq> []"
  shows "parse_stored (''scrypt$'' @ decimal (sp_N ps) @ ''$'' @ decimal (sp_r ps) @ ''$'' @ decimal (sp_p ps) @ ''$'' @
      base64 salt @ ''$'' @ base64 key) = Some (scrypt_params.extend ps \<lparr>ph_salt = salt, ph_hash = key\<rparr>)"
proof -
  have "split_on (CHR ''$'') (''scrypt'' @ CHR ''$'' # decimal (sp_N ps) @ CHR ''$'' # decimal (sp_r ps) @ CHR ''$'' #
      decimal (sp_p ps) @ CHR ''$'' # base64 salt @ CHR ''$'' # base64 key) =
    [''scrypt'', decimal (sp_N ps), decimal (sp_r ps), decimal (sp_p ps), base64 salt, base64 key]"
    unfolding split_on_append by (simp add: split_on_none decimal_no_dollar base64_no_dollar)
  then show ?thesis using assms decimal_digits
    by (simp add: parse_stored_def numeric_def params_ok_def unbase64_base64 scrypt_params.defs parsed_hash.defs)
qed

section \<open>Properties\<close>

lemma policy_checked: "checkPolicy h pw = (if withinPolicy h pw then Inr (hs_nfkc h pw) else checkPolicy h pw)"
  by (auto simp: checkPolicy_def withinPolicy_def Let_def)

lemma hashed_parses:
  assumes "params_ok (hs_params h)" "salt \<noteq> []" "\<And>pw s ps n. length (hs_derive h pw s ps n) = n"
    and "hash_password h salt pw = Inr stored"
  shows "withinPolicy h pw \<and> parse_stored stored = Some (scrypt_params.extend (hs_params h)
    \<lparr>ph_salt = salt, ph_hash = hs_derive h (hs_nfkc h pw) salt (hs_params h) KEY_LENGTH\<rparr>)"
proof -
  let ?key = "hs_derive h (hs_nfkc h pw) salt (hs_params h) KEY_LENGTH"
  have "checkPolicy h pw \<noteq> Inl TooShort" "checkPolicy h pw \<noteq> Inl TooLong"
    using assms(4) by (auto simp: hash_password_def)
  then have ok: "withinPolicy h pw" "checkPolicy h pw = Inr (hs_nfkc h pw)"
    by (auto simp: checkPolicy_def withinPolicy_def Let_def split: if_splits)
  have "length ?key = 64" by (simp add: assms(3) KEY_LENGTH_def)
  then have "?key \<noteq> []" by auto
  with assms(4) ok(2) parse_written[OF assms(1,2)] ok(1) show ?thesis by (auto simp: hash_password_def Let_def)
qed

lemma verify_hashed:
  assumes "params_ok (hs_params h)" "salt \<noteq> []" "\<And>pw s ps n. length (hs_derive h pw s ps n) = n"
    and "hash_password h salt pw = Inr stored"
  shows "verify h pw' (Some stored) \<longleftrightarrow> withinPolicy h pw' \<and>
    hs_derive h (hs_nfkc h pw') salt (hs_params h) KEY_LENGTH = hs_derive h (hs_nfkc h pw) salt (hs_params h) KEY_LENGTH"
proof -
  obtain N r p where ps: "hs_params h = \<lparr>sp_N = N, sp_r = r, sp_p = p\<rparr>" by (cases "hs_params h") blast
  with hashed_parses[OF assms] show ?thesis
    by (auto simp: verify_def Let_def assms(3) scrypt_params.defs parsed_hash.defs)
qed

text \<open>
  C21. A stored password opens the door to itself and to nothing else: the text a password is stored as is read
  back with its salt and parameters, so a check accepts exactly the passwords within the policy from
  which the same key is derived, among them the one that was stored; and it needs no new hash.
\<close>

theorem passwords_roundtrip:
  assumes "params_ok (hs_params h)" "salt \<noteq> []" "\<And>pw s ps n. length (hs_derive h pw s ps n) = n"
    and "hash_password h salt pw = Inr stored"
  shows "(verify h pw' (Some stored) \<longleftrightarrow> withinPolicy h pw' \<and>
      hs_derive h (hs_nfkc h pw') salt (hs_params h) KEY_LENGTH = hs_derive h (hs_nfkc h pw) salt (hs_params h) KEY_LENGTH) \<and>
    verify h pw (Some stored) \<and> \<not> needsRehash h stored"
proof (intro conjI)
  show "verify h pw' (Some stored) \<longleftrightarrow> withinPolicy h pw' \<and>
      hs_derive h (hs_nfkc h pw') salt (hs_params h) KEY_LENGTH = hs_derive h (hs_nfkc h pw) salt (hs_params h) KEY_LENGTH"
    by (rule verify_hashed[OF assms])
  show "verify h pw (Some stored)" using verify_hashed[OF assms, of pw] hashed_parses[OF assms] by simp
  obtain N r p where ps: "hs_params h = \<lparr>sp_N = N, sp_r = r, sp_p = p\<rparr>" by (cases "hs_params h") blast
  with hashed_parses[OF assms] show "\<not> needsRehash h stored"
    by (auto simp: needsRehash_def Let_def assms(3) scrypt_params.defs parsed_hash.defs)
qed

text \<open>
  A hostile row cannot make a check expensive: whatever text stands where a hash should be, the one scrypt
  run of a check has parameters within the bounds, needs at most 256 MiB, and a password of at most the
  longest length goes in; a text that is not one of ours is never accepted.
\<close>

theorem checks_are_bounded:
  assumes "params_ok (hs_params h)" "scrypt_run h pw stored = (input, salt, ps, n)"
  shows "params_ok ps \<and> 128 * sp_N ps * sp_r ps \<le> 256 * 1024 * 1024 \<and> length input \<le> MAX_PASSWORD_LENGTH \<and> salt \<noteq> [] \<and>
    (verify h pw stored \<longleftrightarrow> (\<exists>p. Option.bind stored parse_stored = Some p \<and> withinPolicy h pw \<and> hs_derive h input salt ps n = ph_hash p \<and>
       n = length (ph_hash p)))"
proof -
  have parsed: "params_ok (scrypt_params.truncate p) \<and> ph_salt p \<noteq> []" if "parse_stored s = Some p" for s p
    using that by (auto simp: parse_stored_def params_ok_def scrypt_params.defs split: list.splits if_splits)
  have ok: "params_ok ps" "length input \<le> MAX_PASSWORD_LENGTH" "salt \<noteq> []"
    using assms parsed
    by (auto simp: scrypt_run_def withinPolicy_def Let_def DUMMY_SALT_def SALT_LENGTH_def split: option.splits if_splits)
  have "128 * sp_N ps * sp_r ps \<le> 128 * 131072 * 16"
    using ok(1) by (intro mult_le_mono) (simp_all add: params_ok_def MAX_N_def MAX_R_def)
  moreover have "verify h pw stored \<longleftrightarrow> (\<exists>p. Option.bind stored parse_stored = Some p \<and> withinPolicy h pw \<and> hs_derive h input salt ps n = ph_hash p \<and>
       n = length (ph_hash p))"
    using assms(2) by (auto simp: verify_def scrypt_run_def Let_def split: option.splits if_splits)
  ultimately show ?thesis using ok by simp
qed

definition sample_hasher :: hasher where
  "sample_hasher = \<lparr>hs_derive = (\<lambda>pw s ps n. take n (map of_char pw @ replicate n 0)), hs_nfkc = id,
     hs_params = \<lparr>sp_N = 1024, sp_r = 8, sp_p = 1\<rparr>\<rparr>"

lemma sample_hasher_ok: "params_ok (hs_params sample_hasher)"
  by (simp add: params_ok_def sample_hasher_def power_of_two_def MIN_N_def MAX_N_def MAX_R_def MAX_P_def)

lemma sample_hashed: "\<exists>stored. hash_password sample_hasher [1, 2] ''correct horse'' = Inr stored"
  by (simp add: hash_password_def checkPolicy_def Let_def sample_hasher_def MIN_PASSWORD_LENGTH_def MAX_PASSWORD_LENGTH_def)

lemma sample_derives: "length (hs_derive sample_hasher pw t ps n) = n"
  by (simp add: sample_hasher_def)

lemma sample_stored: "\<exists>stored. verify sample_hasher ''correct horse'' (Some stored)"
proof -
  obtain stored where s: "hash_password sample_hasher [1, 2] ''correct horse'' = Inr stored" using sample_hashed by blast
  show ?thesis
    using verify_hashed[OF sample_hasher_ok _ sample_derives s, of "''correct horse''"]
      hashed_parses[OF sample_hasher_ok _ sample_derives s] by auto
qed

theorem passwords_roundtrip_witness:
  "\<exists>stored. hash_password sample_hasher [1, 2] ''correct horse'' = Inr stored \<and>
     verify sample_hasher ''correct horse'' (Some stored) \<and> \<not> verify sample_hasher ''battery staple'' (Some stored)"
proof -
  obtain stored where s: "hash_password sample_hasher [1, 2] ''correct horse'' = Inr stored" using sample_hashed by blast
  from passwords_roundtrip[OF sample_hasher_ok _ sample_derives s, of "''battery staple''"] s show ?thesis
    by (simp add: sample_hasher_def KEY_LENGTH_def)
qed

theorem checks_are_bounded_witness:
  "params_ok (fst (snd (snd (scrypt_run sample_hasher ''correct horse'' (Some ''scrypt$999999999$8$1$AA==$AA=='')))))"
  using checks_are_bounded[OF sample_hasher_ok, of "''correct horse''" "Some ''scrypt$999999999$8$1$AA==$AA==''"]
  by (metis prod.collapse)

end
