(* ===== verification/Sign_In.thy ===== *)
theory Sign_In
  imports Platform_Api Login_Throttle Password_Hasher
begin

text \<open>
  \<open>http/auth.ts\<close> of the app: signing in with a password, taking up an invite, signing out and asking who
  one is. The three throttles, the tables and the password hasher are those of the other theories. A
  handler is cut where a password is looked up, checked or hashed, which is slow: what runs before and after is a
  function, and an attempt in flight is a value. The other waits for the database are part of these functions. The
  readings of the clock are a sequence, the new session's token is an argument; cookies are the token set, headers
  for caches and browsers are left out.
\<close>

section \<open>State and environment\<close>

datatype bucket = AccountIp | Account | Address

record sign_in =
  sg_platform :: platform
  sg_tables :: "bucket \<Rightarrow> throttle"

record sign_in_env =
  sn_throttle :: "bucket \<Rightarrow> throttle_options"
  sn_hasher :: hasher
  sn_sessions :: session_options
  sn_inviteHash :: "string \<Rightarrow> string"
  sn_trustedProxies :: nat
  sn_publicOrigin :: "string option"
  sn_adminApiKey :: string
  sn_platform :: platform_env

datatype sign_reply =
    SignFailed nat string
  | TooManyAttempts "int option"
  | SignThrew store_error
  | SignedIn "user option" "membership list" string
  | InviteFor invite_info
  | WeakPassword policy_error
  | SignedOut
  | AdminKeyIs
  | OperatorKeyIs operator_key
  | ApiKeyIs api_key_public
  | PersonIs user "membership list"

definition put_table :: "bucket \<Rightarrow> throttle \<Rightarrow> sign_in \<Rightarrow> sign_in" where
  "put_table b t st = st\<lparr>sg_tables := (sg_tables st)(b := t)\<rparr>"

definition put_accounts :: "accounts \<Rightarrow> sign_in \<Rightarrow> sign_in" where
  "put_accounts db st = st\<lparr>sg_platform := (sg_platform st)\<lparr>pl_accounts := db\<rparr>\<rparr>"

abbreviation sg_accounts :: "sign_in \<Rightarrow> accounts" where
  "sg_accounts st \<equiv> pl_accounts (sg_platform st)"

definition csrf_reply :: sign_reply where
  "csrf_reply = SignFailed 403 ''CSRF''"

definition bad_body :: sign_reply where
  "bad_body = SignFailed 400 ''VALIDATION_ERROR''"

section \<open>Attempts on the throttles\<close>

text \<open>The attempts let through on several keys: the throttle, the key and the start time they were given.\<close>

type_synonym held = "(bucket \<times> string \<times> int) list"

fun begin_all :: "sign_in_env \<Rightarrow> (nat \<Rightarrow> int) \<Rightarrow> nat \<Rightarrow> (bucket \<times> string) list \<Rightarrow> sign_in \<Rightarrow> held \<times> sign_in" where
  "begin_all env clk i [] st = ([], st)"
| "begin_all env clk i ((b, k) # keys) st =
     (case begin_attempt (sn_throttle env b) k (clk i) (clk (i + 1)) (sg_tables st b) of
        (r, t) \<Rightarrow>
          (case begin_all env clk (i + 2) keys (put_table b t st) of
             (held, st') \<Rightarrow> (if r = Allowed then (b, k, clk (i + 1)) # held else held, st')))"

fun release_all :: "held \<Rightarrow> sign_in \<Rightarrow> sign_in" where
  "release_all [] st = st"
| "release_all ((b, k, t) # held) st = release_all held (put_table b (settle k t (sg_tables st b)) st)"

fun fail_all :: "sign_in_env \<Rightarrow> (nat \<Rightarrow> int) \<Rightarrow> nat \<Rightarrow> held \<Rightarrow> sign_in \<Rightarrow> sign_in" where
  "fail_all env clk i [] st = st"
| "fail_all env clk i ((b, k, t) # held) st =
     fail_all env clk (i + 1) held (put_table b (fail_attempt (sn_throttle env b) k t (clk i) (sg_tables st b)) st)"

text \<open>\<open>Math.max\<close> over the refusals; nothing stands for \<open>Infinity\<close>.\<close>

fun longest :: "throttle_result list \<Rightarrow> int option" where
  "longest [] = Some 0"
| "longest (Refused None # rs) = None"
| "longest (Refused (Some s) # rs) = (case longest rs of None \<Rightarrow> None | Some m \<Rightarrow> Some (max s m))"
| "longest (Allowed # rs) = longest rs"

section \<open>Signing in\<close>

record login_attempt =
  la_email :: string
  la_password :: string
  la_accountKey :: string
  la_ip :: string
  la_held :: held

definition account_key :: "string \<Rightarrow> string" where
  "account_key email = ''account:'' @
     (case normalizeEmail email of Some e \<Rightarrow> e | None \<Rightarrow> take 254 (js_lower (js_trim email)))"

definition pair_key :: "string \<Rightarrow> string \<Rightarrow> string" where
  "pair_key accountKey ip = accountKey @ ''|'' @ ip"

definition login_keys :: "string \<Rightarrow> string \<Rightarrow> (bucket \<times> string) list" where
  "login_keys accountKey ip =
     [(AccountIp, pair_key accountKey ip), (Account, accountKey)] @
     (if ip \<noteq> ''unknown'' then [(Address, ''ip:'' @ ip)] else [])"

text \<open>Up to the first wait: the request is read, locked keys are refused, capacity is reserved.\<close>

definition login_start ::
  "sign_in_env \<Rightarrow> (nat \<Rightarrow> int) \<Rightarrow> http_request \<Rightarrow> jsval option \<Rightarrow> sign_in \<Rightarrow> (sign_reply + login_attempt) \<times> sign_in" where
  "login_start env clk rq body st =
     (if \<not> isCsrfSafe (sn_publicOrigin env) rq then (Inl csrf_reply, st)
      else
        (case body_members body of
           None \<Rightarrow> (Inl bad_body, st)
         | Some ms \<Rightarrow>
             (case (member ms ''email'', member ms ''password'') of
                (JString email, JString password) \<Rightarrow>
                  let accountKey = account_key email; ip = clientIp rq (sn_trustedProxies env); keys = login_keys accountKey ip;
                      blocked = filter (\<lambda>r. r \<noteq> Allowed)
                        (map (\<lambda>(i, b, k). check (sn_throttle env b) k (clk i) (sg_tables st b)) (enumerate 0 keys))
                  in if blocked \<noteq> [] then (Inl (TooManyAttempts (longest blocked)), st)
                     else
                       (case begin_all env clk (length keys) keys st of
                          (held, st') \<Rightarrow> (Inr \<lparr>la_email = email, la_password = password, la_accountKey = accountKey,
                             la_ip = ip, la_held = held\<rparr>, st'))
              | _ \<Rightarrow> (Inl bad_body, st))))"

text \<open>The first wait: what the database knows about the email.\<close>

definition login_look :: "login_attempt \<Rightarrow> sign_in \<Rightarrow> user_credentials option" where
  "login_look la st = findCredentialsByEmail (la_email la) (sg_accounts st)"

definition start_session ::
  "sign_in_env \<Rightarrow> http_request \<Rightarrow> string option \<Rightarrow> string \<Rightarrow> string \<Rightarrow> string \<Rightarrow> sign_in \<Rightarrow> (store_error + string) \<times> sign_in" where
  "start_session env rq agent token i ip st =
     (let n = pe_now (sn_platform env);
          st1 = (if truthy (rq_session rq)
            then put_accounts (session_destroy (sn_sessions env) (the (rq_session rq)) (sg_accounts st)) st else st)
      in (case session_create (sn_sessions env) token n i agent (Some ip) (sg_accounts st1) of
            (Inl e, db) \<Rightarrow> (Inl e, st1)
          | (Inr s, db) \<Rightarrow> (Inr token, put_accounts (recordLogin i n db) st1)))"

definition log_entry :: "sign_in_env \<Rightarrow> audit_input \<Rightarrow> sign_in \<Rightarrow> sign_in" where
  "log_entry env x st = st\<lparr>sg_platform := record_loosely (sn_platform env) 0 x (sg_platform st)\<rparr>"

definition login_failure :: "login_attempt \<Rightarrow> user_credentials option \<Rightarrow> audit_input" where
  "login_failure la cred = \<lparr>ai_action = ''login.failure'', ai_actor = AnonymousActor (Some (la_email la)), ai_tenantIds = None,
     ai_target = None, ai_details = Some [(''ip'', JString (la_ip la)),
       (''reason'', JString (case cred of Some c \<Rightarrow> if uc_status c \<noteq> ActiveU then ''account disabled'' else ''bad credentials''
          | None \<Rightarrow> ''bad credentials''))]\<rparr>"

definition login_success :: "login_attempt \<Rightarrow> user_credentials \<Rightarrow> audit_input" where
  "login_success la c = \<lparr>ai_action = ''login.success'', ai_actor = UserActor (uc_id c) (uc_email c), ai_tenantIds = None,
     ai_target = None, ai_details = Some [(''ip'', JString (la_ip la))]\<rparr>"

definition password_matches :: "sign_in_env \<Rightarrow> login_attempt \<Rightarrow> user_credentials option \<Rightarrow> bool" where
  "password_matches env la cred = verify (sn_hasher env) (la_password la) (Option.bind cred uc_passwordHash)"

text \<open>
  The rest, once the check of the password is over: \<open>found\<close> is the error the database threw, or the
  credentials it found.
\<close>

definition login_finish ::
  "sign_in_env \<Rightarrow> (nat \<Rightarrow> int) \<Rightarrow> http_request \<Rightarrow> string option \<Rightarrow> string \<Rightarrow> login_attempt \<Rightarrow>
     (store_error + user_credentials option) \<Rightarrow> sign_in \<Rightarrow> sign_reply \<times> sign_in" where
  "login_finish env clk rq agent token la found st =
     (case found of
        Inl e \<Rightarrow> (SignThrew e, release_all (la_held la) st)
      | Inr cred \<Rightarrow>
          if cred = None \<or> \<not> password_matches env la cred \<or> uc_status (the cred) \<noteq> ActiveU
          then (SignFailed 401 ''INVALID_CREDENTIALS'',
            log_entry env (login_failure la cred) (fail_all env clk 0 (la_held la) st))
          else
            let c = the cred;
                st1 = release_all (la_held la) st;
                k = pair_key (la_accountKey la) (la_ip la);
                st2 = put_table AccountIp (recordSuccess (sn_throttle env AccountIp) k (clk 0) (clk 1) (sg_tables st1 AccountIp)) st1
            in (case start_session env rq agent token (uc_id c) (la_ip la) st2 of
                  (Inl e, st3) \<Rightarrow> (SignThrew e, st3)
                | (Inr s, st3) \<Rightarrow>
                    let user = findById (uc_id c) (sg_accounts st3); st4 = log_entry env (login_success la c) st3
                    in (SignedIn user (listMemberships (uc_id c) (sg_accounts st4)) s, st4)))"

section \<open>Invites\<close>

definition begin_invite ::
  "sign_in_env \<Rightarrow> (nat \<Rightarrow> int) \<Rightarrow> http_request \<Rightarrow> sign_in \<Rightarrow> (int option + held \<times> string) \<times> sign_in" where
  "begin_invite env clk rq st =
     (let ip = clientIp rq (sn_trustedProxies env) in
      if ip = ''unknown'' then (Inr ([], ip), st)
      else
        (case begin_attempt (sn_throttle env Address) (''invite:'' @ ip) (clk 0) (clk 1) (sg_tables st Address) of
           (Refused s, t) \<Rightarrow> (Inl s, put_table Address t st)
         | (Allowed, t) \<Rightarrow> (Inr ([(Address, ''invite:'' @ ip, clk 1)], ip), put_table Address t st)))"

definition invite_details :: "sign_in_env \<Rightarrow> (nat \<Rightarrow> int) \<Rightarrow> http_request \<Rightarrow> jsval option \<Rightarrow> sign_in \<Rightarrow> sign_reply \<times> sign_in" where
  "invite_details env clk rq body st =
     (if \<not> isCsrfSafe (sn_publicOrigin env) rq then (csrf_reply, st)
      else
        (case body_members body of
           None \<Rightarrow> (bad_body, st)
         | Some ms \<Rightarrow>
             (case member ms ''token'' of
                JString token \<Rightarrow>
                  (case begin_invite env clk rq st of
                     (Inl s, st1) \<Rightarrow> (TooManyAttempts s, st1)
                   | (Inr (held, ip), st1) \<Rightarrow>
                       (case invite_inspect (sn_inviteHash env) (pe_now (sn_platform env)) token (sg_accounts st1) of
                          None \<Rightarrow> (SignFailed 404 ''INVALID_INVITE'', fail_all env clk 2 held st1)
                        | Some info \<Rightarrow> (InviteFor info, release_all held st1)))
              | _ \<Rightarrow> (bad_body, st))))"

definition invite_entry :: "user \<Rightarrow> membership list \<Rightarrow> string \<Rightarrow> audit_input" where
  "invite_entry u ms ip = \<lparr>ai_action = ''invite.accept'', ai_actor = UserActor (u_id u) (u_email u),
     ai_tenantIds = Some (remdups (List.map_filter mb_tenantId ms)), ai_target = Some (u_id u),
     ai_details = Some [(''ip'', JString ip)]\<rparr>"

record invite_attempt =
  ia_token :: string
  ia_password :: string
  ia_ip :: string
  ia_held :: held

text \<open>Up to the check of the link, before the password is hashed.\<close>

definition accept_start ::
  "sign_in_env \<Rightarrow> (nat \<Rightarrow> int) \<Rightarrow> http_request \<Rightarrow> jsval option \<Rightarrow> sign_in \<Rightarrow> (sign_reply + invite_attempt) \<times> sign_in" where
  "accept_start env clk rq body st =
     (if \<not> isCsrfSafe (sn_publicOrigin env) rq then (Inl csrf_reply, st)
      else
        (case body_members body of
           None \<Rightarrow> (Inl bad_body, st)
         | Some ms \<Rightarrow>
             (case (member ms ''token'', member ms ''password'') of
                (JString token, JString password) \<Rightarrow>
                  (case begin_invite env clk rq st of
                     (Inl s, st1) \<Rightarrow> (Inl (TooManyAttempts s), st1)
                   | (Inr (held, ip), st1) \<Rightarrow>
                       if invite_inspect (sn_inviteHash env) (pe_now (sn_platform env)) token (sg_accounts st1) = None
                       then (Inl (SignFailed 400 ''INVALID_INVITE''), fail_all env clk 2 held st1)
                       else (Inr \<lparr>ia_token = token, ia_password = password, ia_ip = ip, ia_held = held\<rparr>, st1))
              | _ \<Rightarrow> (Inl bad_body, st))))"

definition accept_finish ::
  "sign_in_env \<Rightarrow> (nat \<Rightarrow> int) \<Rightarrow> http_request \<Rightarrow> string option \<Rightarrow> byte list \<Rightarrow> string \<Rightarrow> invite_attempt \<Rightarrow> sign_in \<Rightarrow>
     sign_reply \<times> sign_in" where
  "accept_finish env clk rq agent salt token ia st =
     (case hash_password (sn_hasher env) salt (ia_password ia) of
        Inl e \<Rightarrow> (WeakPassword e, release_all (ia_held ia) st)
      | Inr hash \<Rightarrow>
          (case invite_accept (sn_inviteHash env) (pe_now (sn_platform env)) (ia_token ia) hash (sg_accounts st) of
             (None, db) \<Rightarrow> (SignFailed 400 ''INVALID_INVITE'', fail_all env clk 0 (ia_held ia) (put_accounts db st))
           | (Some u, db) \<Rightarrow>
               (case start_session env rq agent token (u_id u) (ia_ip ia) (release_all (ia_held ia) (put_accounts db st)) of
                  (Inl e, st1) \<Rightarrow> (SignThrew e, release_all (ia_held ia) st1)
                | (Inr s, st1) \<Rightarrow>
                    let ms = listMemberships (u_id u) (sg_accounts st1)
                    in (SignedIn (Some u) ms s, log_entry env (invite_entry u ms (ia_ip ia)) st1))))"

section \<open>Signing out, and who one is\<close>

definition logout :: "sign_in_env \<Rightarrow> http_request \<Rightarrow> sign_in \<Rightarrow> sign_reply \<times> sign_in" where
  "logout env rq st =
     (if \<not> isCsrfSafe (sn_publicOrigin env) rq then (csrf_reply, st)
      else
        (SignedOut, if truthy (rq_session rq)
          then put_accounts (session_destroy (sn_sessions env) (the (rq_session rq)) (sg_accounts st)) st else st))"

text \<open>\<open>main.ts\<close>: what a bearer is.\<close>

definition describe_bearer :: "sign_in_env \<Rightarrow> string \<Rightarrow> platform \<Rightarrow> sign_reply option \<times> platform" where
  "describe_bearer env token pl =
     (if isAdminKeyHeader (Some (''Bearer '' @ token)) (sn_adminApiKey env) then (Some AdminKeyIs, pl)
      else
        (case operator_key_authenticate (pe_mac (sn_platform env)) (pe_now (sn_platform env)) token pl of
           (Some k, pl1) \<Rightarrow> (Some (OperatorKeyIs k), pl1)
         | (None, pl1) \<Rightarrow> (map_option ApiKeyIs (findActiveKey (pe_mac (sn_platform env)) token pl1), pl1)))"

definition unauthenticated :: sign_reply where
  "unauthenticated = SignFailed 401 ''UNAUTHENTICATED''"

definition who_am_i :: "sign_in_env \<Rightarrow> http_request \<Rightarrow> sign_in \<Rightarrow> sign_reply \<times> sign_in" where
  "who_am_i env rq st =
     (if \<not> isCsrfSafe (sn_publicOrigin env) rq then (csrf_reply, st)
      else if truthy (rq_authorization rq) then
        (case bearer_of (the (rq_authorization rq)) of
           None \<Rightarrow> (unauthenticated, st)
         | Some token \<Rightarrow>
             (case describe_bearer env token (sg_platform st) of
                (None, pl) \<Rightarrow> (unauthenticated, st\<lparr>sg_platform := pl\<rparr>)
              | (Some r, pl) \<Rightarrow> (r, st\<lparr>sg_platform := pl\<rparr>)))
      else if \<not> truthy (rq_session rq) then (unauthenticated, st)
      else
        (case session_resolve (sn_sessions env) (the (rq_session rq)) (pe_now (sn_platform env)) (sg_accounts st) of
           (None, db) \<Rightarrow> (unauthenticated, put_accounts db st)
         | (Some (u, x), db) \<Rightarrow> (PersonIs u (listMemberships (u_id u) db), put_accounts db st)))"

section \<open>Requests in flight\<close>

text \<open>
  The server between two waits: the clock, the state, the sign-ins whose password is being looked up or
  checked, and the invites whose password is being hashed. The clock never runs backwards; requests start and
  finish in any order.
\<close>

record sign_server =
  sv_time :: int
  sv_state :: sign_in
  sv_looking :: "login_attempt list"
  sv_checking :: "(login_attempt \<times> (store_error + user_credentials option)) list"
  sv_hashing :: "invite_attempt list"

definition readings :: "int \<Rightarrow> (nat \<Rightarrow> int) \<Rightarrow> int \<Rightarrow> bool" where
  "readings n clk n' \<longleftrightarrow> mono clk \<and> n \<le> clk 0 \<and> (\<forall>i. clk i \<le> n')"

inductive sign_step :: "sign_in_env \<Rightarrow> sign_server \<Rightarrow> sign_server \<Rightarrow> bool" for env where
  refused_login: "readings (sv_time s) clk n \<Longrightarrow> login_start env clk rq body (sv_state s) = (Inl reply, st) \<Longrightarrow>
    sign_step env s (s\<lparr>sv_time := n, sv_state := st\<rparr>)"
| started_login: "readings (sv_time s) clk n \<Longrightarrow> login_start env clk rq body (sv_state s) = (Inr la, st) \<Longrightarrow>
    sign_step env s (s\<lparr>sv_time := n, sv_state := st, sv_looking := la # sv_looking s\<rparr>)"
| looked_up: "la \<in> set (sv_looking s) \<Longrightarrow> found \<in> {Inr (login_look la (sv_state s)), Inl e} \<Longrightarrow>
    sign_step env s (s\<lparr>sv_looking := remove1 la (sv_looking s), sv_checking := (la, found) # sv_checking s\<rparr>)"
| finished_login: "(la, found) \<in> set (sv_checking s) \<Longrightarrow> readings (sv_time s) clk n \<Longrightarrow>
    login_finish env clk rq agent token la found (sv_state s) = (reply, st) \<Longrightarrow>
    sign_step env s (s\<lparr>sv_time := n, sv_state := st, sv_checking := remove1 (la, found) (sv_checking s)\<rparr>)"
| asked_invite: "readings (sv_time s) clk n \<Longrightarrow> invite_details env clk rq body (sv_state s) = (reply, st) \<Longrightarrow>
    sign_step env s (s\<lparr>sv_time := n, sv_state := st\<rparr>)"
| refused_invite: "readings (sv_time s) clk n \<Longrightarrow> accept_start env clk rq body (sv_state s) = (Inl reply, st) \<Longrightarrow>
    sign_step env s (s\<lparr>sv_time := n, sv_state := st\<rparr>)"
| started_invite: "readings (sv_time s) clk n \<Longrightarrow> accept_start env clk rq body (sv_state s) = (Inr ia, st) \<Longrightarrow>
    sign_step env s (s\<lparr>sv_time := n, sv_state := st, sv_hashing := ia # sv_hashing s\<rparr>)"
| finished_invite: "ia \<in> set (sv_hashing s) \<Longrightarrow> readings (sv_time s) clk n \<Longrightarrow>
    accept_finish env clk rq agent salt token ia (sv_state s) = (reply, st) \<Longrightarrow>
    sign_step env s (s\<lparr>sv_time := n, sv_state := st, sv_hashing := remove1 ia (sv_hashing s)\<rparr>)"
| signed_out: "logout env rq (sv_state s) = (reply, st) \<Longrightarrow> sign_step env s (s\<lparr>sv_state := st\<rparr>)"
| asked_who: "who_am_i env rq (sv_state s) = (reply, st) \<Longrightarrow> sign_step env s (s\<lparr>sv_state := st\<rparr>)"

inductive_cases sign_stepE: "sign_step env s s'"

text \<open>In between, the people and keys of the platform may change in any way.\<close>

definition sign_or_other :: "sign_in_env \<Rightarrow> sign_server \<Rightarrow> sign_server \<Rightarrow> bool" where
  "sign_or_other env s s' \<longleftrightarrow> sign_step env s s' \<or> (\<exists>pl. s' = s\<lparr>sv_state := (sv_state s)\<lparr>sg_platform := pl\<rparr>\<rparr>)"

section \<open>Locks\<close>

lemma put_table_simps [simp]:
  "sg_tables (put_table b t st) b' = (if b' = b then t else sg_tables st b')" "sg_platform (put_table b t st) = sg_platform st"
  "sg_tables (put_accounts db st) = sg_tables st" "sg_tables (log_entry env x st) = sg_tables st"
  by (simp_all add: put_table_def put_accounts_def log_entry_def)

lemma start_session_tables: "start_session env rq agent token i ip st = (r, st') \<Longrightarrow> sg_tables st' = sg_tables st"
  by (auto simp: start_session_def Let_def split: sum.splits prod.splits if_splits)

lemma run_later: "n \<le> n' \<Longrightarrow> throttle_run opts (n, es) (n', es)"
  by (rule r_into_rtranclp) (rule tick_clock)

lemma run_then: "throttle_run opts s (n, es) \<Longrightarrow> throttle_step opts (n, es) s' \<Longrightarrow> throttle_run opts s s'"
  by (rule rtranclp.rtrancl_into_rtrancl)

lemma begin_all_run:
  assumes "begin_all env clk i keys st = (held, st')" "mono clk" "n \<le> clk i" "\<And>j. clk j \<le> n'"
  shows "throttle_run (sn_throttle env b) (n, sg_tables st b) (n', sg_tables st' b)"
  using assms(1,3)
proof (induction keys arbitrary: i st n held)
  case Nil
  then show ?case using assms(4)[of i] by (auto intro: run_later)
next
  case (Cons bk keys)
  obtain b0 k where bk: "bk = (b0, k)" by (cases bk)
  obtain r t where t: "begin_attempt (sn_throttle env b0) k (clk i) (clk (i + 1)) (sg_tables st b0) = (r, t)" by (metis surj_pair)
  obtain held' where rest: "begin_all env clk (i + 2) keys (put_table b0 t st) = (held', st')"
    using Cons.prems(1) t bk by (auto split: prod.splits)
  have c: "clk i \<le> clk (i + 1)" "clk (i + 1) \<le> clk (i + 2)" using assms(2) by (simp_all add: mono_def)
  from Cons.IH[OF rest, of "clk (i + 1)"] c(2)
  have later: "throttle_run (sn_throttle env b) (clk (i + 1), sg_tables (put_table b0 t st) b) (n', sg_tables st' b)" by simp
  have "throttle_step (sn_throttle env b) (n, sg_tables st b) (clk (i + 1), sg_tables (put_table b0 t st) b)"
  proof (cases "b = b0")
    case True
    then show ?thesis using begin_key[OF Cons.prems(2) c(1), of "sn_throttle env b" "sg_tables st b" k] t by simp
  next
    case False
    then show ?thesis using Cons.prems(2) c(1) by (simp add: tick_clock)
  qed
  from this later show ?case by (rule converse_rtranclp_into_rtranclp)
qed

lemma release_all_run: "throttle_run (sn_throttle env b) (n, sg_tables st b) (n, sg_tables (release_all held st) b)"
proof (induction held st rule: release_all.induct)
  case (2 b0 k t held st)
  have "throttle_run (sn_throttle env b) (n, sg_tables st b) (n, sg_tables (put_table b0 (settle k t (sg_tables st b0)) st) b)"
    by (cases "b = b0") (auto intro: release_key)
  with 2 show ?case by simp
qed simp

lemma fail_all_run:
  assumes "mono clk" "n \<le> clk i" "\<And>j. clk j \<le> n'"
  shows "throttle_run (sn_throttle env b) (n, sg_tables st b) (n', sg_tables (fail_all env clk i held st) b)"
  using assms(2)
proof (induction held arbitrary: i st n)
  case Nil
  then show ?case using assms(3)[of i] by (auto intro: run_later)
next
  case (Cons h held)
  obtain b0 k t where h: "h = (b0, k, t)" by (cases h)
  let ?st = "put_table b0 (fail_attempt (sn_throttle env b0) k t (clk i) (sg_tables st b0)) st"
  have "throttle_step (sn_throttle env b) (n, sg_tables st b) (clk i, sg_tables ?st b)"
    using Cons.prems by (cases "b = b0") (auto intro: fail_key tick_clock)
  moreover have "throttle_run (sn_throttle env b) (clk i, sg_tables ?st b) (n', sg_tables (fail_all env clk (i + 1) held ?st) b)"
    using assms(1) by (intro Cons.IH) (simp add: mono_def)
  ultimately show ?case unfolding h fail_all.simps by (rule converse_rtranclp_into_rtranclp)
qed

lemma readings_bounds: "readings n clk n' \<Longrightarrow> mono clk \<and> n \<le> clk i \<and> clk i \<le> n' \<and> n \<le> n'"
  unfolding readings_def mono_def by (meson le0 order_trans)

lemma login_start_run:
  assumes "login_start env clk rq body st = (r, st')" "readings n clk n'"
  shows "throttle_run (sn_throttle env b) (n, sg_tables st b) (n', sg_tables st' b)"
proof -
  note c = readings_bounds[OF assms(2)]
  from assms(1) have "st' = st \<or> (\<exists>held i keys. begin_all env clk i keys st = (held, st'))"
    by (auto simp: login_start_def Let_def split: if_splits option.splits prod.splits jsval.splits)
  then show ?thesis
  proof
    assume "\<exists>held i keys. begin_all env clk i keys st = (held, st')"
    then show ?thesis using c by (blast intro: begin_all_run)
  qed (use c in \<open>auto intro: run_later\<close>)
qed

lemma login_finish_run:
  assumes "login_finish env clk rq agent token la found st = (r, st')" "readings n clk n'"
  shows "throttle_run (sn_throttle env b) (n, sg_tables st b) (n', sg_tables st' b)"
proof -
  note c = readings_bounds[OF assms(2)]
  let ?rel = "release_all (la_held la) st"
  let ?k = "pair_key (la_accountKey la) (la_ip la)"
  let ?st2 = "put_table AccountIp (recordSuccess (sn_throttle env AccountIp) ?k (clk 0) (clk 1) (sg_tables ?rel AccountIp)) ?rel"
  note rel = release_all_run[of env b n st "la_held la"]
  have released: "throttle_run (sn_throttle env b) (n, sg_tables st b) (n', sg_tables ?rel b)"
    using rel run_later[of n n'] c by (blast intro: rtranclp_trans)
  have "throttle_step (sn_throttle env b) (n, sg_tables ?rel b) (clk 1, sg_tables ?st2 b)"
    using c by (cases "b = AccountIp") (auto intro: success tick_clock simp: mono_def)
  from rtranclp_trans[OF run_then[OF rel this] run_later] c
  have success: "throttle_run (sn_throttle env b) (n, sg_tables st b) (n', sg_tables ?st2 b)" by blast
  have failed: "throttle_run (sn_throttle env b) (n, sg_tables st b) (n', sg_tables (fail_all env clk 0 (la_held la) st) b)"
    using c by (blast intro: fail_all_run)
  have "sg_tables st' b \<in> {sg_tables ?rel b, sg_tables ?st2 b, sg_tables (fail_all env clk 0 (la_held la) st) b}"
    using assms(1)
    by (auto simp: login_finish_def Let_def dest!: start_session_tables split: sum.splits if_splits prod.splits)
  with released success failed show ?thesis by auto
qed

lemma begin_invite_run:
  assumes "begin_invite env clk rq st = (r, st')" "mono clk" "n \<le> clk 0"
  shows "throttle_run (sn_throttle env b) (n, sg_tables st b) (clk 1, sg_tables st' b)"
proof -
  have c: "clk 0 \<le> clk 1" using assms(2) by (simp add: mono_def)
  from assms(1) have "st' = st \<or> (\<exists>k. st' = put_table Address (snd (begin_attempt (sn_throttle env Address) k (clk 0) (clk 1) (sg_tables st Address))) st)"
    by (auto simp: begin_invite_def Let_def split: if_splits prod.splits throttle_result.splits) (metis snd_conv)+
  then show ?thesis
  proof
    assume "st' = st"
    then show ?thesis using c assms(3) by (auto intro: run_later)
  next
    assume "\<exists>k. st' = put_table Address (snd (begin_attempt (sn_throttle env Address) k (clk 0) (clk 1) (sg_tables st Address))) st"
    then show ?thesis using begin_key[OF assms(3) c, of "sn_throttle env b" "sg_tables st b"] c assms(3)
      run_later[of n "clk 1" "sn_throttle env b" "sg_tables st b"]
      by (cases "b = Address") (auto simp del: One_nat_def)
  qed
qed


lemma fail_later:
  assumes "throttle_run (sn_throttle env b) (n, es) (clk 1, sg_tables st b)" "readings n clk n'"
  shows "throttle_run (sn_throttle env b) (n, es) (n', sg_tables (fail_all env clk 2 held st) b)"
    "throttle_run (sn_throttle env b) (n, es) (n', sg_tables (release_all held st) b)"
    "throttle_run (sn_throttle env b) (n, es) (n', sg_tables st b)"
proof -
  note c = readings_bounds[OF assms(2)]
  from c have "throttle_run (sn_throttle env b) (clk 1, sg_tables st b) (n', sg_tables (fail_all env clk 2 held st) b)"
    by (intro fail_all_run) (auto simp: mono_def)
  with assms(1) show "throttle_run (sn_throttle env b) (n, es) (n', sg_tables (fail_all env clk 2 held st) b)"
    by (rule rtranclp_trans)
  have "throttle_run (sn_throttle env b) (clk 1, sg_tables (release_all held st) b) (n', sg_tables (release_all held st) b)"
    using c by (blast intro: run_later)
  with assms(1) release_all_run show "throttle_run (sn_throttle env b) (n, es) (n', sg_tables (release_all held st) b)"
    by (blast intro: rtranclp_trans)
  show "throttle_run (sn_throttle env b) (n, es) (n', sg_tables st b)"
    using assms(1) c by (blast intro: rtranclp_trans run_later)
qed

lemma begun_later:
  assumes "begin_invite env clk rq st = (x, st1)" "readings n clk n'"
  shows "throttle_run (sn_throttle env b) (n, sg_tables st b) (n', sg_tables (fail_all env clk 2 held st1) b)"
    "throttle_run (sn_throttle env b) (n, sg_tables st b) (n', sg_tables (release_all held st1) b)"
    "throttle_run (sn_throttle env b) (n, sg_tables st b) (n', sg_tables st1 b)"
proof -
  have "throttle_run (sn_throttle env b) (n, sg_tables st b) (clk 1, sg_tables st1 b)"
    using begin_invite_run[OF assms(1)] readings_bounds[OF assms(2)] by blast
  note this assms(2)
  then show "throttle_run (sn_throttle env b) (n, sg_tables st b) (n', sg_tables (fail_all env clk 2 held st1) b)"
    "throttle_run (sn_throttle env b) (n, sg_tables st b) (n', sg_tables (release_all held st1) b)"
    "throttle_run (sn_throttle env b) (n, sg_tables st b) (n', sg_tables st1 b)"
    by (rule fail_later)+
qed

lemma accept_start_run:
  assumes "accept_start env clk rq body st = (r, st')" "readings n clk n'"
  shows "throttle_run (sn_throttle env b) (n, sg_tables st b) (n', sg_tables st' b)"
  using assms(1) begun_later[OF _ assms(2)] run_later[of n n'] readings_bounds[OF assms(2)]
  by (auto simp: accept_start_def split: if_splits option.splits prod.splits jsval.splits sum.splits)

lemma invite_details_run:
  assumes "invite_details env clk rq body st = (r, st')" "readings n clk n'"
  shows "throttle_run (sn_throttle env b) (n, sg_tables st b) (n', sg_tables st' b)"
  using assms(1) begun_later[OF _ assms(2)] run_later[of n n'] readings_bounds[OF assms(2)]
  by (auto simp: invite_details_def split: if_splits option.splits prod.splits jsval.splits sum.splits)

lemma accept_finish_run:
  assumes "accept_finish env clk rq agent salt token ia st = (r, st')" "readings n clk n'"
  shows "throttle_run (sn_throttle env b) (n, sg_tables st b) (n', sg_tables st' b)"
proof -
  note c = readings_bounds[OF assms(2)]
  let ?held = "ia_held ia"
  have released: "throttle_run (sn_throttle env b) (n, sg_tables st0 b) (n', sg_tables (release_all ?held st0) b)" for st0
    using release_all_run[of env b n st0 ?held] run_later[of n n'] c by (blast intro: rtranclp_trans)
  have twice: "throttle_run (sn_throttle env b) (n, sg_tables st0 b) (n', sg_tables (release_all ?held st1) b)"
    if "sg_tables st1 = sg_tables (release_all ?held st0)" for st0 st1
    using rtranclp_trans[OF release_all_run[of env b n st0 ?held], of "(n', sg_tables (release_all ?held st1) b)"]
      rtranclp_trans[OF release_all_run[of env b n st1 ?held] run_later[of n n']] that c by metis
  have failed: "throttle_run (sn_throttle env b) (n, sg_tables st0 b) (n', sg_tables (fail_all env clk 0 ?held st0) b)" for st0
    using c by (blast intro: fail_all_run)
  show ?thesis using assms(1) released[of st] failed[of "put_accounts _ st"] released[of "put_accounts _ st"] twice[of _ "put_accounts _ st"]
    by (auto simp: accept_finish_def Let_def dest!: start_session_tables split: sum.splits prod.splits option.splits)
qed

lemma sign_step_run:
  assumes "sign_or_other env s s'"
  shows "throttle_run (sn_throttle env b) (sv_time s, sg_tables (sv_state s) b) (sv_time s', sg_tables (sv_state s') b)"
  using assms unfolding sign_or_other_def
proof
  assume "sign_step env s s'"
  then show ?thesis
  proof cases
    case (signed_out rq reply st)
    then show ?thesis by (auto simp: logout_def split: if_splits)
  next
    case (asked_who rq reply st)
    then show ?thesis by (auto simp: who_am_i_def split: if_splits option.splits prod.splits)
  qed (auto dest: login_start_run login_finish_run accept_start_run accept_finish_run invite_details_run)
qed auto

lemma sign_run:
  assumes "(sign_or_other env)\<^sup>*\<^sup>* s s'"
  shows "throttle_run (sn_throttle env b) (sv_time s, sg_tables (sv_state s) b) (sv_time s', sg_tables (sv_state s') b)"
  using assms by induction (auto intro: rtranclp_trans sign_step_run)

text \<open>The keys a sign-in is counted on.\<close>

definition counted_on :: "sign_in_env \<Rightarrow> http_request \<Rightarrow> string \<Rightarrow> (bucket \<times> string) list" where
  "counted_on env rq email = login_keys (account_key email) (clientIp rq (sn_trustedProxies env))"

text \<open>
  A lock keeps out: once the pair of account and address, the account or the address of a sign-in is locked,
  no password is checked for it until the lock ends, whatever sign-ins, invites and other requests,
  finished or in flight, happened in between; the refused request changes nothing.
\<close>

theorem locked_sign_ins_change_nothing:
  assumes "sg_tables (sv_state s0) b = []" "0 \<le> sv_time s0" "0 \<le> to_lockMs (sn_throttle env b)"
    and "(sign_or_other env)\<^sup>*\<^sup>* s0 s" "map_of (sg_tables (sv_state s) b) key = Some entry"
    and "(sign_or_other env)\<^sup>*\<^sup>* s s'" "readings (sv_time s') clk n" "n < te_lockedUntil entry"
    and "body_members body = Some ms" "member ms ''email'' = JString email" "(b, key) \<in> set (counted_on env rq email)"
  shows "\<exists>reply. login_start env clk rq body (sv_state s') = (Inl reply, sv_state s')"
proof -
  let ?es = "sg_tables (sv_state s') b"
  have c: "clk i \<le> n" "sv_time s' \<le> n" for i using readings_bounds[OF assms(7)] by blast+
  have ok: "throttle_ok (sn_throttle env b) (sv_time s, sg_tables (sv_state s) b)"
    using reachable_ok[OF _ assms(2,3)] sign_run[OF assms(4), of b] assms(1) by simp
  have "locked_until (sg_tables (sv_state s) b) key (te_lockedUntil entry)" using assms(5) by (auto simp: locked_until_def)
  with run_ok[OF sign_run[OF assms(6), of b] ok assms(3)] c(2) assms(8) have "locked_until ?es key (te_lockedUntil entry)" by fastforce
  then obtain e where e: "map_of ?es key = Some e" "te_lockedUntil entry \<le> te_lockedUntil e" by (auto simp: locked_until_def)
  have "check (sn_throttle env b) key (clk i) ?es \<noteq> Allowed" for i
    using e assms(8) c(1)[of i] by (simp add: check_def Let_def)
  moreover obtain i where "i < length (counted_on env rq email)" "counted_on env rq email ! i = (b, key)"
    using assms(11) by (auto simp: in_set_conv_nth)
  then have "(i, b, key) \<in> set (enumerate 0 (counted_on env rq email))" by (auto simp: in_set_enumerate_eq)
  ultimately have "filter (\<lambda>r. r \<noteq> Allowed) (map (\<lambda>(i, b, k). check (sn_throttle env b) k (clk i) (sg_tables (sv_state s') b))
      (enumerate 0 (counted_on env rq email))) \<noteq> []"
    by (force simp: filter_empty_conv)
  then show ?thesis using assms(9,10) by (auto simp: login_start_def Let_def counted_on_def split: jsval.splits)
qed

section \<open>Sessions\<close>

definition token_hashes :: "sign_in \<Rightarrow> string set" where
  "token_hashes st = se_tokenHash ` set (db_sessions (sg_accounts st))"

lemma accounts_simps [simp]:
  "sg_accounts (put_accounts db st) = db" "sg_accounts (put_table b t st) = sg_accounts st"
  "db_sessions (sg_accounts (log_entry env x st)) = db_sessions (sg_accounts st)"
  "db_invites (sg_accounts (log_entry env x st)) = db_invites (sg_accounts st)"
  by (simp_all add: put_accounts_def put_table_def log_entry_def record_loosely_def write_entry_def)

lemma begin_all_accounts: "begin_all env clk i keys st = (held, st') \<Longrightarrow> sg_accounts st' = sg_accounts st"
  by (induction keys arbitrary: i st held) (auto split: prod.splits)

lemma release_accounts [simp]: "sg_accounts (release_all held st) = sg_accounts st"
  by (induction held st rule: release_all.induct) simp_all

lemma fail_accounts [simp]: "sg_accounts (fail_all env clk i held st) = sg_accounts st"
  by (induction env clk i held st rule: fail_all.induct) simp_all

lemma begin_invite_accounts: "begin_invite env clk rq st = (r, st') \<Longrightarrow> sg_accounts st' = sg_accounts st"
  by (auto simp: begin_invite_def Let_def split: if_splits prod.splits throttle_result.splits)

lemma started_session:
  assumes "start_session env rq agent token i ip st = (r, st')" "x \<in> set (db_sessions (sg_accounts st'))" "se_tokenHash x \<notin> token_hashes st"
  shows "se_userId x = i"
  using assms
  by (auto simp: start_session_def session_create_def session_destroy_def recordLogin_def update_user_def token_hashes_def Let_def
      split: if_splits)

lemma login_finish_session:
  assumes "login_finish env clk rq agent token la found st = (reply, st')"
    and "x \<in> set (db_sessions (sg_accounts st'))" "se_tokenHash x \<notin> token_hashes st"
  shows "\<exists>c. found = Inr (Some c) \<and> password_matches env la (Some c) \<and> uc_status c = ActiveU \<and> se_userId x = uc_id c"
proof (cases found)
  case (Inl e)
  with assms show ?thesis by (auto simp: login_finish_def token_hashes_def)
next
  case (Inr cred)
  show ?thesis
  proof (cases "cred = None \<or> \<not> password_matches env la cred \<or> uc_status (the cred) \<noteq> ActiveU")
    case True
    with assms Inr show ?thesis by (auto simp: login_finish_def token_hashes_def)
  next
    case False
    then obtain c where c: "cred = Some c" "password_matches env la (Some c)" "uc_status c = ActiveU" by auto
    let ?st1 = "release_all (la_held la) st"
    let ?st2 = "put_table AccountIp (recordSuccess (sn_throttle env AccountIp) (pair_key (la_accountKey la) (la_ip la)) (clk 0) (clk 1)
       (sg_tables ?st1 AccountIp)) ?st1"
    obtain r st3 where s: "start_session env rq agent token (uc_id c) (la_ip la) ?st2 = (r, st3)" by (metis surj_pair)
    have "db_sessions (sg_accounts st') = db_sessions (sg_accounts st3)"
      using assms(1) Inr c s by (auto simp: login_finish_def Let_def split: sum.splits)
    with started_session[OF s, of x] assms(2,3) have "se_userId x = uc_id c" by (simp add: token_hashes_def)
    with Inr c show ?thesis by simp
  qed
qed

lemma accept_sessions: "invite_accept hash n token h db = (r, db') \<Longrightarrow> set (db_sessions db') \<subseteq> set (db_sessions db)"
  by (auto simp: invite_accept_def Let_def delete_sessions_def update_user_def split: if_splits option.splits)

lemma accepted_user:
  assumes "invite_accept hash n token h db = (Some u, db')"
  shows "\<exists>v\<in>set (db_invites db). usable (hash token) n db v \<and> u_id u = iv_userId v"
proof -
  from assms obtain v where v: "first_row (filter (usable (hash token) n db) (db_invites db)) = Some v"
    "findById (iv_userId v) db' = Some u"
    by (auto simp: invite_accept_def Let_def split: if_splits option.splits)
  from v(2) have "u_id u = iv_userId v"
    by (auto simp: findById_def user_rows_def user_of_def first_row_Some filter_eq_Cons_iff)
  with first_row_in[OF v(1)] show "\<exists>v\<in>set (db_invites db). usable (hash token) n db v \<and> u_id u = iv_userId v" by auto
qed

lemma accept_finish_session:
  assumes "accept_finish env clk rq agent salt token ia st = (reply, st')"
    and "x \<in> set (db_sessions (sg_accounts st'))" "se_tokenHash x \<notin> token_hashes st"
  shows "\<exists>v\<in>set (db_invites (sg_accounts st)). usable (sn_inviteHash env (ia_token ia)) (pe_now (sn_platform env)) (sg_accounts st) v \<and>
    se_userId x = iv_userId v"
proof -
  from assms obtain hash where h: "hash_password (sn_hasher env) salt (ia_password ia) = Inr hash"
    by (auto simp: accept_finish_def token_hashes_def split: sum.splits)
  obtain o' db where a: "invite_accept (sn_inviteHash env) (pe_now (sn_platform env)) (ia_token ia) hash (sg_accounts st) = (o', db)"
    by (metis surj_pair)
  show ?thesis
  proof (cases o')
    case None
    have "set (db_sessions db) \<subseteq> set (db_sessions (sg_accounts st))" by (rule accept_sessions[OF a])
    with assms h a None show ?thesis by (auto simp: accept_finish_def token_hashes_def)
  next
    case (Some u)
    obtain r st1 where s: "start_session env rq agent token (u_id u) (ia_ip ia) (release_all (ia_held ia) (put_accounts db st)) = (r, st1)"
      by (metis surj_pair)
    have same: "db_sessions (sg_accounts st') = db_sessions (sg_accounts st1)"
      using assms(1) h a Some s by (auto simp: accept_finish_def Let_def split: sum.splits)
    note u = accepted_user[OF a[unfolded Some]]
    have "se_tokenHash x \<notin> token_hashes (release_all (ia_held ia) (put_accounts db st))"
      using assms(3) accept_sessions[OF a] by (auto simp: token_hashes_def)
    from started_session[OF s _ this] assms(2) same u show ?thesis by auto
  qed
qed

lemma touched_hash: "se_tokenHash (if b then r\<lparr>se_lastSeenAt := n\<rparr> else r) = se_tokenHash r"
  by simp

lemma session_touched:
  assumes "session_resolve so token n db = (r, db')"
  shows "se_tokenHash ` set (db_sessions db') = se_tokenHash ` set (db_sessions db)"
proof -
  from assms have "db' = db \<or> (\<exists>P. db' = db\<lparr>db_sessions := map (\<lambda>r. if P r then r\<lparr>se_lastSeenAt := n\<rparr> else r) (db_sessions db)\<rparr>)"
    by (auto simp: session_resolve_def Let_def split: if_splits option.splits)
  then show ?thesis
  proof (elim disjE exE)
    fix P assume db': "db' = db\<lparr>db_sessions := map (\<lambda>r. if P r then r\<lparr>se_lastSeenAt := n\<rparr> else r) (db_sessions db)\<rparr>"
    then have "db_sessions db' = map (\<lambda>r. if P r then r\<lparr>se_lastSeenAt := n\<rparr> else r) (db_sessions db)" by simp
    then show ?thesis by (simp only: list.set_map image_image touched_hash)
  qed simp
qed

lemma who_am_i_hashes:
  assumes "who_am_i env rq st = (r, st')"
  shows "token_hashes st' = token_hashes st"
proof -
  have "pl_accounts pl' = pl_accounts (sg_platform st)" if "describe_bearer env token (sg_platform st) = (x, pl')" for token x pl'
    using that
    by (auto simp: describe_bearer_def operator_key_authenticate_def split: if_splits prod.splits option.splits)
  then have "sg_accounts st' = sg_accounts st \<or> (\<exists>so token n x. session_resolve so token n (sg_accounts st) = (x, sg_accounts st'))"
    using assms by (auto simp: who_am_i_def split: if_splits option.splits prod.splits)
  then show ?thesis unfolding token_hashes_def using session_touched by metis
qed

lemma no_new_session:
  "login_start env clk rq body st = (r, st') \<Longrightarrow> token_hashes st' = token_hashes st"
  "accept_start env clk rq body st = (r2, st') \<Longrightarrow> token_hashes st' = token_hashes st"
  "invite_details env clk rq body st = (r3, st') \<Longrightarrow> token_hashes st' = token_hashes st"
  "logout env rq st = (r4, st') \<Longrightarrow> token_hashes st' \<subseteq> token_hashes st"
  by (auto simp: login_start_def accept_start_def invite_details_def logout_def session_destroy_def token_hashes_def Let_def
      split: if_splits option.splits prod.splits jsval.splits sum.splits dest: begin_all_accounts begin_invite_accounts)


section \<open>Witnesses\<close>

definition door_env :: sign_in_env where
  "door_env = \<lparr>sn_throttle = (\<lambda>_. throttle_options_of 1 600000 300000 None None), sn_hasher = sample_hasher,
     sn_sessions = \<lparr>so_hash = id, so_idleMs = 10, so_maxMs = 100\<rparr>, sn_inviteHash = id, sn_trustedProxies = 0, sn_publicOrigin = None,
     sn_adminApiKey = ''root'', sn_platform = \<lparr>pe_mac = id, pe_now = 5, pe_plaintext = ''k'', pe_newId = ''n'', pe_auditId = (\<lambda>k. ''a''),
       pe_audit = None, pe_provision = True, pe_step = (\<lambda>_. True), pe_maxDays = None, pe_parse_date = (\<lambda>_. None), pe_iso = (\<lambda>_. [])\<rparr>\<rparr>"

definition door_request :: http_request where
  "door_request = \<lparr>rq_method = ''POST'', rq_path = ''/auth/login'', rq_urlOrigin = [], rq_authorization = None, rq_origin = None,
     rq_console = Some ''1'', rq_tenant = None, rq_session = None, rq_forwardedFor = None, rq_remote = None\<rparr>"

definition door_body :: "jsval option" where
  "door_body = Some (JObject [(''email'', JString ''a''), (''password'', JString ''b'')])"

definition door_person :: user_row where
  "door_person = \<lparr>us_id = ''u'', us_email = ''a@b'', us_name = ''A'', us_passwordHash = None, us_status = ActiveU, us_createdAt = 0,
     us_lastLoginAt = None\<rparr>"

definition door_state :: sign_in where
  "door_state = \<lparr>sg_platform = \<lparr>pl_accounts = \<lparr>db_users = [door_person], db_memberships = [], db_invites = [], db_sessions = [],
     db_tenants = [], db_audit = []\<rparr>, pl_tenants = [], pl_keys = [], pl_operatorKeys = []\<rparr>, sg_tables = (\<lambda>_. [])\<rparr>"

definition door_attempt :: login_attempt where
  "door_attempt = \<lparr>la_email = ''a'', la_password = ''b'', la_accountKey = ''account:a'', la_ip = ''unknown'',
     la_held = [(AccountIp, ''account:a|unknown'', 1), (Account, ''account:a'', 1)]\<rparr>"

lemmas door_eval = door_env_def door_request_def door_body_def door_state_def door_attempt_def throttle_options_of_def
  begin_attempt_def check_def with_entry_def makeRoom_def fresh_entry_def settle_def addFailure_def add_to_def fail_attempt_def
  isLocked_def activeFailures_def activePending_def put_table_def account_key_def pair_key_def login_keys_def clientIp_def
  normalizeEmail_def js_lower_def js_lower_char_def js_trim_def js_space_def email_shape_def isCsrfSafe_def SAFE_METHODS_def member_def Let_def

definition door_started :: sign_in where
  "door_started = snd (login_start door_env (\<lambda>_. 1) door_request door_body door_state)"

lemma door_starts: "login_start door_env (\<lambda>_. 1) door_request door_body door_state = (Inr door_attempt, door_started)"
  by (simp add: door_started_def login_start_def door_eval)

definition door_failed :: sign_in where
  "door_failed = snd (login_finish door_env (\<lambda>_. 1) door_request None ''t'' door_attempt (Inr None) door_started)"

lemma door_fails:
  "login_finish door_env (\<lambda>_. 1) door_request None ''t'' door_attempt (Inr None) door_started =
     (SignFailed 401 ''INVALID_CREDENTIALS'', door_failed)"
  by (simp add: door_failed_def login_finish_def)

lemma door_locks:
  "map_of (sg_tables door_failed Account) ''account:a'' = Some \<lparr>te_failures = [], te_pending = [], te_lockedUntil = 300001\<rparr>"
  by (simp add: door_failed_def door_started_def login_start_def login_finish_def log_entry_def record_loosely_def door_eval)

definition door_server :: "int \<Rightarrow> sign_in \<Rightarrow> sign_server" where
  "door_server n st = \<lparr>sv_time = n, sv_state = st, sv_looking = [], sv_checking = [], sv_hashing = []\<rparr>"

lemma door_run: "(sign_or_other door_env)\<^sup>*\<^sup>* (door_server 0 door_state) (door_server 1 door_failed)"
proof -
  have r: "readings n (\<lambda>_. 1) 1" if "n \<le> 1" for n using that by (simp add: readings_def mono_def)
  let ?s0 = "door_server 0 door_state"
  let ?s1 = "?s0\<lparr>sv_time := 1, sv_state := door_started, sv_looking := [door_attempt]\<rparr>"
  let ?s2 = "?s0\<lparr>sv_time := 1, sv_state := door_started, sv_checking := [(door_attempt, Inr None)]\<rparr>"
  have a: "sign_step door_env ?s0 ?s1"
    using started_login[of ?s0 "\<lambda>_. 1" 1 door_env door_request door_body door_attempt door_started] r door_starts by (simp add: door_server_def)
  have "login_look door_attempt door_started = None"
    by (simp add: login_look_def findCredentialsByEmail_def normalizeEmail_def js_lower_def js_lower_char_def js_trim_def js_space_def
        email_shape_def door_attempt_def)
  then have b: "sign_step door_env ?s1 ?s2"
    using looked_up[of door_attempt ?s1 "Inr None" _ door_env] by (simp add: door_server_def)
  have c: "sign_step door_env ?s2 (door_server 1 door_failed)"
    using finished_login[of door_attempt "Inr None" ?s2 "\<lambda>_. 1" 1 door_env door_request None "''t''"] r door_fails by (simp add: door_server_def)
  have "(sign_or_other door_env)\<^sup>*\<^sup>* x y" if "sign_step door_env x y" for x y
    using that by (intro r_into_rtranclp) (simp add: sign_or_other_def)
  from rtranclp_trans[OF this[OF a] rtranclp_trans[OF this[OF b] this[OF c]]] show ?thesis .
qed

theorem locked_sign_ins_change_nothing_witness:
  "\<exists>reply. login_start door_env (\<lambda>_. 300000) door_request door_body door_failed = (Inl reply, door_failed)"
  using locked_sign_ins_change_nothing[of "door_server 0 door_state" Account door_env, OF _ _ _ door_run _ rtranclp.rtrancl_refl,
      of "''account:a''" "\<lparr>te_failures = [], te_pending = [], te_lockedUntil = 300001\<rparr>" "\<lambda>_. 300000" 300000 door_body _ "''a''" door_request] door_locks
  by (simp add: door_server_def readings_def mono_def counted_on_def door_eval)


end
