(* ===== verification/Postgres_Store.thy ===== *)
theory Postgres_Store
  imports State_Store User_Accounts
begin

text \<open>
  \<open>db/PostgresStateStore.ts\<close> of the app: the store that runs in production, one schema for each tenant. A
  table is a list of rows under their primary key, with the columns of \<open>db/schema.ts\<close>; each statement is
  the operation it stands for. What a \<open>JSONB\<close> column gives back is what went in, but for what \<open>JSON\<close>
  does to it (\<open>json_stored\<close>); the \<open>revive\<close> functions then build the value anew, field by field, and leave
  out what they do not name. Dates survive as they are. Where a statement gives no order the model
  gives that of the table, and no property depends on it. Texts are ordered by their characters.
\<close>

section \<open>What JSON does to a value\<close>

text \<open>
  \<open>undefined\<close> is left out of an object and is \<open>null\<close> in an array, as are numbers that are not finite;
  \<open>JSONB\<close> orders the members of an object by the length of their names, then by name.
\<close>

definition key_order :: "(string \<times> 'a) list \<Rightarrow> (string \<times> 'a) list" where
  "key_order ms = sort_key (\<lambda>(k, v). (length k, k)) ms"

fun json_stored :: "jsval \<Rightarrow> jsval"
  and stored_items :: "jsval list \<Rightarrow> jsval list"
  and stored_members :: "(string \<times> jsval) list \<Rightarrow> (string \<times> jsval) list" where
  "json_stored (JNumber (Finite q)) = JNumber (Finite q)"
| "json_stored (JNumber n) = JNull"
| "json_stored (JArray xs) = JArray (stored_items xs)"
| "json_stored (JObject ms) = JObject (key_order (stored_members ms))"
| "json_stored v = v"
| "stored_items [] = []"
| "stored_items (x # xs) = (if x = JUndefined then JNull else json_stored x) # stored_items xs"
| "stored_members [] = []"
| "stored_members ((k, x) # ms) = (if x = JUndefined then [] else [(k, json_stored x)]) @ stored_members ms"

text \<open>A record of variables; a value that is \<open>undefined\<close> is left out, and is \<open>undefined\<close> when it is read.\<close>

definition stored_variables :: "variables \<Rightarrow> variables" where
  "stored_variables vs = key_order (map (\<lambda>(k, v). (k, v\<lparr>vv_value := json_stored (vv_value v)\<rparr>)) vs)"

definition stored_scope :: "variable_scope \<Rightarrow> variable_scope" where
  "stored_scope x = x\<lparr>vs_variables := stored_variables (vs_variables x)\<rparr>"

definition stored_condition :: "wait_condition \<Rightarrow> wait_condition" where
  "stored_condition w = w\<lparr>wc_correlationData := map_option (\<lambda>ms. key_order (stored_members ms)) (wc_correlationData w)\<rparr>"

definition stored_loop :: "loop_state \<Rightarrow> loop_state" where
  "stored_loop l = l\<lparr>ls_collection := stored_items (ls_collection l)\<rparr>"

definition stored_token_data :: "token \<Rightarrow> token" where
  "stored_token_data t = t\<lparr>tk_waitingFor := map_option stored_condition (tk_waitingFor t),
     tk_loopState := map_option stored_loop (tk_loopState t)\<rparr>"

definition stored_task :: "user_task_record \<Rightarrow> user_task_record" where
  "stored_task t = t\<lparr>ur_inputVariables := stored_variables (ur_inputVariables t)\<rparr>"

definition stored_entry :: "history_entry \<Rightarrow> history_entry" where
  "stored_entry e = e\<lparr>he_variablesSnapshot := map_option stored_variables (he_variablesSnapshot e)\<rparr>"

section \<open>Reading a value back\<close>

definition reviveDefinition :: "process_definition \<Rightarrow> process_definition" where
  "reviveDefinition raw = \<lparr>pd_id = pd_id raw, pd_version = pd_version raw, pd_name = pd_name raw, pd_elements = pd_elements raw,
     pd_sequenceFlows = pd_sequenceFlows raw, pd_startEventId = pd_startEventId raw, pd_deployedAt = pd_deployedAt raw,
     pd_isDeployable = pd_isDeployable raw\<rparr>"

definition withoutVersion :: "process_instance \<Rightarrow> process_instance" where
  "withoutVersion i = i\<lparr>pi_version := None\<rparr>"

definition reviveInstance :: "process_instance \<Rightarrow> process_instance" where
  "reviveInstance raw = \<lparr>pi_id = pi_id raw, pi_definitionId = pi_definitionId raw, pi_definitionVersion = pi_definitionVersion raw,
     pi_status = pi_status raw, pi_rootScopeId = pi_rootScopeId raw, pi_correlationKey = pi_correlationKey raw,
     pi_businessKey = pi_businessKey raw, pi_parentInstanceId = pi_parentInstanceId raw, pi_parentTokenId = pi_parentTokenId raw,
     pi_startedAt = pi_startedAt raw, pi_completedAt = pi_completedAt raw, pi_errorInfo = pi_errorInfo raw, pi_version = None\<rparr>"

definition reviveToken :: "token \<Rightarrow> token" where
  "reviveToken raw = \<lparr>tk_id = tk_id raw, tk_instanceId = tk_instanceId raw, tk_elementId = tk_elementId raw,
     tk_elementType = tk_elementType raw, tk_status = tk_status raw, tk_scopeId = tk_scopeId raw,
     tk_arrivedViaFlowId = tk_arrivedViaFlowId raw, tk_parentTokenId = tk_parentTokenId raw,
     tk_subProcessInstanceId = tk_subProcessInstanceId raw, tk_waitingFor = tk_waitingFor raw, tk_loopState = None,
     tk_createdAt = tk_createdAt raw, tk_updatedAt = tk_updatedAt raw\<rparr>"

definition reviveHistoryEntry :: "history_entry \<Rightarrow> history_entry" where
  "reviveHistoryEntry raw = \<lparr>he_id = he_id raw, he_instanceId = he_instanceId raw, he_tokenId = he_tokenId raw,
     he_elementId = he_elementId raw, he_elementType = he_elementType raw, he_status = he_status raw, he_startedAt = he_startedAt raw,
     he_completedAt = he_completedAt raw, he_variablesSnapshot = he_variablesSnapshot raw, he_forced = he_forced raw\<rparr>"

definition reviveEventSubscription :: "event_subscription \<Rightarrow> event_subscription" where
  "reviveEventSubscription raw = \<lparr>es_id = es_id raw, es_instanceId = es_instanceId raw, es_tokenId = es_tokenId raw,
     es_type = es_type raw, es_messageName = es_messageName raw, es_signalName = es_signalName raw,
     es_correlationValue = es_correlationValue raw, es_errorCode = es_errorCode raw, es_timerId = es_timerId raw,
     es_status = es_status raw, es_createdAt = es_createdAt raw\<rparr>"

definition reviveScheduledTimer :: "scheduled_timer \<Rightarrow> scheduled_timer" where
  "reviveScheduledTimer raw = \<lparr>tm_id = tm_id raw, tm_instanceId = tm_instanceId raw, tm_tokenId = tm_tokenId raw,
     tm_fireAt = tm_fireAt raw, tm_createdAt = tm_createdAt raw\<rparr>"

definition reviveUserTaskRecord :: "user_task_record \<Rightarrow> user_task_record" where
  "reviveUserTaskRecord raw = \<lparr>ur_id = ur_id raw, ur_instanceId = ur_instanceId raw, ur_tokenId = ur_tokenId raw,
     ur_elementId = ur_elementId raw, ur_name = ur_name raw, ur_description = ur_description raw, ur_assignee = ur_assignee raw,
     ur_candidateGroups = ur_candidateGroups raw, ur_dueDate = ur_dueDate raw, ur_priority = ur_priority raw,
     ur_inputVariables = ur_inputVariables raw, ur_formKey = ur_formKey raw, ur_status = ur_status raw,
     ur_createdAt = ur_createdAt raw, ur_claimedAt = ur_claimedAt raw, ur_completedAt = ur_completedAt raw\<rparr>"

section \<open>The tables of a schema\<close>

record definition_row =
  dr_name :: "string option"
  dr_deployedAt :: int
  dr_isDeployable :: bool
  dr_data :: process_definition
  dr_sourceXml :: "string option"

record instance_row =
  ir_definitionId :: string
  ir_status :: instance_status
  ir_correlationKey :: "string option"
  ir_businessKey :: "string option"
  ir_startedAt :: int
  ir_completedAt :: "int option"
  ir_data :: process_instance
  ir_version :: int

record token_row =
  tr_instanceId :: string
  tr_status :: token_status
  tr_data :: token

record task_row =
  kr_instanceId :: string
  kr_assignee :: "string option"
  kr_status :: user_task_status
  kr_data :: user_task_record

record subscription_row =
  br_instanceId :: string
  br_type :: subscription_type
  br_status :: subscription_status
  br_messageName :: "string option"
  br_signalName :: "string option"
  br_correlationValue :: "string option"
  br_data :: event_subscription

record history_row =
  hr_instanceId :: string
  hr_startedAt :: int
  hr_data :: history_entry

record timer_row =
  mr_instanceId :: string
  mr_fireAt :: int
  mr_data :: scheduled_timer

record pg_store =
  pt_definitions :: "((string \<times> int) \<times> definition_row) list"
  pt_instances :: "(string \<times> instance_row) list"
  pt_tokens :: "(string \<times> token_row) list"
  pt_scopes :: "(string \<times> variable_scope) list"
  pt_tasks :: "(string \<times> task_row) list"
  pt_subscriptions :: "(string \<times> subscription_row) list"
  pt_joins :: "((string \<times> string) \<times> gateway_join_state) list"
  pt_history :: "(string \<times> history_row) list"
  pt_timers :: "(string \<times> timer_row) list"
  pt_records :: "((string \<times> string) \<times> compensation_record) list"

definition empty_pg :: pg_store where
  "empty_pg = \<lparr>pt_definitions = [], pt_instances = [], pt_tokens = [], pt_scopes = [], pt_tasks = [], pt_subscriptions = [],
     pt_joins = [], pt_history = [], pt_timers = [], pt_records = []\<rparr>"

datatype pg_fault = EngineFault engine_error | SqlFault string

text \<open>\<open>INSERT\<close> without \<open>ON CONFLICT\<close>, with \<open>DO NOTHING\<close>, and \<open>UPDATE \<dots> WHERE id =\<close>.\<close>

definition insert_row :: "'k \<Rightarrow> 'r \<Rightarrow> ('k \<times> 'r) list \<Rightarrow> pg_fault + ('k \<times> 'r) list" where
  "insert_row k r tbl = (if map_of tbl k \<noteq> None then Inl (SqlFault ''23505'') else Inr (tbl @ [(k, r)]))"

definition insert_if_new :: "'k \<Rightarrow> 'r \<Rightarrow> ('k \<times> 'r) list \<Rightarrow> ('k \<times> 'r) list" where
  "insert_if_new k r tbl = (if map_of tbl k \<noteq> None then tbl else tbl @ [(k, r)])"

definition update_row :: "'k \<Rightarrow> ('r \<Rightarrow> 'r) \<Rightarrow> ('k \<times> 'r) list \<Rightarrow> ('k \<times> 'r) list" where
  "update_row k f tbl = (case map_of tbl k of None \<Rightarrow> tbl | Some r \<Rightarrow> AList.update k (f r) tbl)"

text \<open>\<open>INSERT \<dots> ON CONFLICT DO UPDATE\<close>: the new row, or what becomes of the old one.\<close>

definition upsert_row :: "'k \<Rightarrow> 'r \<Rightarrow> ('r \<Rightarrow> 'r) \<Rightarrow> ('k \<times> 'r) list \<Rightarrow> ('k \<times> 'r) list" where
  "upsert_row k r f tbl = AList.update k (case map_of tbl k of None \<Rightarrow> r | Some old \<Rightarrow> f old) tbl"

section \<open>Definitions\<close>

definition pg_saveDefinition :: "process_definition \<Rightarrow> pg_store \<Rightarrow> pg_store" where
  "pg_saveDefinition d pg =
     (let r = \<lparr>dr_name = pd_name d, dr_deployedAt = pd_deployedAt d, dr_isDeployable = pd_isDeployable d, dr_data = d, dr_sourceXml = None\<rparr>
      in pg\<lparr>pt_definitions := upsert_row (pd_id d, pd_version d) r (\<lambda>old. r\<lparr>dr_sourceXml := dr_sourceXml old\<rparr>) (pt_definitions pg)\<rparr>)"

text \<open>The rows of an id, the highest version first.\<close>

definition versions_of :: "string \<Rightarrow> pg_store \<Rightarrow> definition_row list" where
  "versions_of i pg = map snd (sort_key (\<lambda>((j, v), r). - v) (filter (\<lambda>((j, v), r). j = i) (pt_definitions pg)))"

definition definition_row_of :: "string \<Rightarrow> int option \<Rightarrow> pg_store \<Rightarrow> definition_row option" where
  "definition_row_of i version pg =
     (case version of Some v \<Rightarrow> map_of (pt_definitions pg) (i, v) | None \<Rightarrow> first_row (versions_of i pg))"

definition pg_getDefinition :: "string \<Rightarrow> int option \<Rightarrow> pg_store \<Rightarrow> process_definition option" where
  "pg_getDefinition i version pg = map_option (\<lambda>r. reviveDefinition (dr_data r)) (definition_row_of i version pg)"

definition saveDefinitionXml :: "string \<Rightarrow> int \<Rightarrow> string \<Rightarrow> pg_store \<Rightarrow> pg_store" where
  "saveDefinitionXml i v xml pg =
     pg\<lparr>pt_definitions := update_row (i, v) (\<lambda>r. r\<lparr>dr_sourceXml := Some xml\<rparr>) (pt_definitions pg)\<rparr>"

definition getDefinitionXml :: "string \<Rightarrow> int option \<Rightarrow> pg_store \<Rightarrow> string option" where
  "getDefinitionXml i version pg = Option.bind (definition_row_of i version pg) dr_sourceXml"

definition pg_deleteDefinition :: "string \<Rightarrow> pg_store \<Rightarrow> pg_store" where
  "pg_deleteDefinition i pg = pg\<lparr>pt_definitions := filter (\<lambda>((j, v), r). j \<noteq> i) (pt_definitions pg)\<rparr>"

definition pg_listDefinitions :: "bool option \<Rightarrow> pg_store \<Rightarrow> definition_summary list" where
  "pg_listDefinitions isDeployable pg =
     map (\<lambda>((i, v), r). \<lparr>ds_id = i, ds_version = v, ds_name = dr_name r, ds_deployedAt = dr_deployedAt r, ds_isDeployable = dr_isDeployable r\<rparr>)
       (sort_key (\<lambda>((i, v), r). (i, - v))
         (filter (\<lambda>(k, r). isDeployable = None \<or> isDeployable = Some (dr_isDeployable r)) (pt_definitions pg)))"

section \<open>Instances\<close>

definition pg_createInstance :: "process_instance \<Rightarrow> pg_store \<Rightarrow> pg_fault + pg_store" where
  "pg_createInstance i pg =
     (case insert_row (pi_id i) \<lparr>ir_definitionId = pi_definitionId i, ir_status = pi_status i, ir_correlationKey = pi_correlationKey i,
          ir_businessKey = pi_businessKey i, ir_startedAt = pi_startedAt i, ir_completedAt = pi_completedAt i,
          ir_data = withoutVersion i, ir_version = 1\<rparr> (pt_instances pg) of
        Inl e \<Rightarrow> Inl e
      | Inr tbl \<Rightarrow> Inr (pg\<lparr>pt_instances := tbl\<rparr>))"

definition pg_updateInstance :: "process_instance \<Rightarrow> pg_store \<Rightarrow> pg_fault + pg_store" where
  "pg_updateInstance i pg =
     (case map_of (pt_instances pg) (pi_id i) of
        None \<Rightarrow> Inr pg
      | Some r \<Rightarrow>
          if pi_version i \<noteq> None \<and> pi_version i \<noteq> Some (ir_version r) then Inl (EngineFault (ConcurrentModificationError (pi_id i)))
          else Inr (pg\<lparr>pt_instances := AList.update (pi_id i)
            (r\<lparr>ir_status := pi_status i, ir_correlationKey := pi_correlationKey i, ir_businessKey := pi_businessKey i,
               ir_completedAt := pi_completedAt i, ir_data := withoutVersion i, ir_version := ir_version r + 1\<rparr>) (pt_instances pg)\<rparr>))"

definition pg_getInstance :: "string \<Rightarrow> pg_store \<Rightarrow> process_instance option" where
  "pg_getInstance i pg =
     map_option (\<lambda>r. (reviveInstance (ir_data r))\<lparr>pi_version := Some (ir_version r)\<rparr>) (map_of (pt_instances pg) i)"

text \<open>A clause of the query, there if the value is not \<open>undefined\<close>; \<open>NULL\<close> is never equal.\<close>

definition wants :: "'a option \<Rightarrow> ('a \<Rightarrow> bool) \<Rightarrow> bool" where
  "wants q P \<longleftrightarrow> (case q of None \<Rightarrow> True | Some v \<Rightarrow> P v)"

text \<open>The page and \<open>count(*) OVER()\<close>, which is a column of the rows of the page.\<close>

definition paged :: "nat \<Rightarrow> nat \<Rightarrow> ('r \<Rightarrow> 'a) \<Rightarrow> 'r list \<Rightarrow> 'a paged_result" where
  "paged page pageSize f rows =
     (let found = page_of page pageSize rows
      in \<lparr>pr_items = map f found, pr_total = (if found = [] then 0 else length rows), pr_page = page, pr_pageSize = pageSize\<rparr>)"

definition pg_findInstances :: "instance_query \<Rightarrow> pg_store \<Rightarrow> instance_summary paged_result" where
  "pg_findInstances q pg =
     paged (iq_page q) (iq_pageSize q)
       (\<lambda>r. let i = reviveInstance (ir_data r) in
          \<lparr>is_id = pi_id i, is_definitionId = pi_definitionId i, is_definitionVersion = pi_definitionVersion i, is_status = pi_status i,
           is_correlationKey = pi_correlationKey i, is_businessKey = pi_businessKey i, is_startedAt = pi_startedAt i,
           is_completedAt = pi_completedAt i\<rparr>)
       (sort_key (\<lambda>r. - ir_startedAt r)
         (filter (\<lambda>r. wants (iq_definitionId q) (\<lambda>v. ir_definitionId r = v) \<and>
             wants (iq_correlationKey q) (\<lambda>v. ir_correlationKey r = Some v) \<and>
             wants (iq_businessKey q) (\<lambda>v. ir_businessKey r = Some v) \<and>
             wants (iq_startedAfter q) (\<lambda>v. v < ir_startedAt r) \<and> wants (iq_startedBefore q) (\<lambda>v. ir_startedAt r < v) \<and>
             wants (iq_status q) (\<lambda>ss. ir_status r \<in> set ss))
           (map_values (pt_instances pg))))"

section \<open>Tokens and scopes\<close>

definition pg_save_token :: "token \<Rightarrow> pg_store \<Rightarrow> pg_store" where
  "pg_save_token t pg =
     pg\<lparr>pt_tokens := upsert_row (tk_id t) \<lparr>tr_instanceId = tk_instanceId t, tr_status = tk_status t, tr_data = stored_token_data t\<rparr>
       (\<lambda>old. old\<lparr>tr_status := tk_status t, tr_data := stored_token_data t\<rparr>) (pt_tokens pg)\<rparr>"

definition pg_saveTokens :: "token list \<Rightarrow> pg_store \<Rightarrow> pg_store" where
  "pg_saveTokens ts pg = fold pg_save_token ts pg"

definition pg_getActiveTokens :: "string \<Rightarrow> pg_store \<Rightarrow> token list" where
  "pg_getActiveTokens i pg = map (\<lambda>r. reviveToken (tr_data r))
     (filter (\<lambda>r. tr_instanceId r = i \<and> tr_status r \<in> {Active, Waiting, Suspended}) (map_values (pt_tokens pg)))"

definition pg_getAllTokens :: "string \<Rightarrow> pg_store \<Rightarrow> token list" where
  "pg_getAllTokens i pg = map (\<lambda>r. reviveToken (tr_data r)) (filter (\<lambda>r. tr_instanceId r = i) (map_values (pt_tokens pg)))"

definition pg_saveScope :: "variable_scope \<Rightarrow> pg_store \<Rightarrow> pg_store" where
  "pg_saveScope x pg = pg\<lparr>pt_scopes := AList.update (vs_id x) (stored_scope x) (pt_scopes pg)\<rparr>"

definition pg_getScope :: "string \<Rightarrow> pg_store \<Rightarrow> variable_scope option" where
  "pg_getScope i pg = map_of (pt_scopes pg) i"

text \<open>The loop of \<open>getScopeChain\<close>; it does not return on a cycle.\<close>

partial_function (option) pg_chain :: "(string \<times> variable_scope) list \<Rightarrow> string option \<Rightarrow> variable_scope list \<Rightarrow> variable_scope list option" where
  "pg_chain m current chain =
     (if \<not> truthy current then Some chain
      else (case map_of m (the current) of None \<Rightarrow> Some chain | Some x \<Rightarrow> pg_chain m (vs_parentScopeId x) (chain @ [x])))"

declare pg_chain.simps [code]

definition pg_getScopeChain :: "string \<Rightarrow> pg_store \<Rightarrow> variable_scope list option" where
  "pg_getScopeChain leaf pg = pg_chain (pt_scopes pg) (Some leaf) []"

section \<open>User tasks\<close>

definition task_row_of :: "user_task_record \<Rightarrow> task_row" where
  "task_row_of t = \<lparr>kr_instanceId = ur_instanceId t, kr_assignee = ur_assignee t, kr_status = ur_status t, kr_data = stored_task t\<rparr>"

definition pg_createUserTask :: "user_task_record \<Rightarrow> pg_store \<Rightarrow> pg_fault + pg_store" where
  "pg_createUserTask t pg =
     (case insert_row (ur_id t) (task_row_of t) (pt_tasks pg) of Inl e \<Rightarrow> Inl e | Inr tbl \<Rightarrow> Inr (pg\<lparr>pt_tasks := tbl\<rparr>))"

definition pg_updateUserTask :: "user_task_record \<Rightarrow> pg_store \<Rightarrow> pg_store" where
  "pg_updateUserTask t pg =
     pg\<lparr>pt_tasks := update_row (ur_id t) (\<lambda>r. r\<lparr>kr_assignee := ur_assignee t, kr_status := ur_status t, kr_data := stored_task t\<rparr>) (pt_tasks pg)\<rparr>"

definition pg_getUserTask :: "string \<Rightarrow> pg_store \<Rightarrow> user_task_record option" where
  "pg_getUserTask i pg = map_option (\<lambda>r. reviveUserTaskRecord (kr_data r)) (map_of (pt_tasks pg) i)"

definition pg_queryUserTasks :: "user_task_query \<Rightarrow> pg_store \<Rightarrow> user_task_record paged_result" where
  "pg_queryUserTasks q pg =
     paged (uq_page q) (uq_pageSize q) (\<lambda>r. reviveUserTaskRecord (kr_data r))
       (sort_key (\<lambda>r. ur_createdAt (kr_data r))
         (filter (\<lambda>r. wants (uq_instanceId q) (\<lambda>v. kr_instanceId r = v) \<and> wants (uq_assignee q) (\<lambda>v. kr_assignee r = Some v) \<and>
             wants (uq_candidateGroup q) (\<lambda>v. case ur_candidateGroups (kr_data r) of None \<Rightarrow> False | Some gs \<Rightarrow> v \<in> set gs) \<and>
             wants (uq_status q) (\<lambda>ss. kr_status r \<in> set ss))
           (map_values (pt_tasks pg))))"

section \<open>Subscriptions and joins\<close>

definition subscription_row_of :: "event_subscription \<Rightarrow> subscription_row" where
  "subscription_row_of x = \<lparr>br_instanceId = es_instanceId x, br_type = es_type x, br_status = es_status x,
     br_messageName = es_messageName x, br_signalName = es_signalName x, br_correlationValue = es_correlationValue x, br_data = x\<rparr>"

definition pg_saveSubscription :: "event_subscription \<Rightarrow> pg_store \<Rightarrow> pg_store" where
  "pg_saveSubscription x pg =
     pg\<lparr>pt_subscriptions := upsert_row (es_id x) (subscription_row_of x)
       (\<lambda>old. (subscription_row_of x)\<lparr>br_instanceId := br_instanceId old\<rparr>) (pt_subscriptions pg)\<rparr>"

definition pg_deleteSubscription :: "string \<Rightarrow> pg_store \<Rightarrow> pg_store" where
  "pg_deleteSubscription i pg = pg\<lparr>pt_subscriptions := AList.delete i (pt_subscriptions pg)\<rparr>"

definition pg_findSubscriptions :: "subscription_filter \<Rightarrow> pg_store \<Rightarrow> event_subscription list" where
  "pg_findSubscriptions f pg =
     map (\<lambda>r. reviveEventSubscription (br_data r))
       (filter (\<lambda>r. br_status r = SubActive \<and> wants (sq_instanceId f) (\<lambda>v. br_instanceId r = v) \<and>
           wants (sq_type f) (\<lambda>v. br_type r = v) \<and> wants (sq_messageName f) (\<lambda>v. br_messageName r = Some v) \<and>
           wants (sq_signalName f) (\<lambda>v. br_signalName r = Some v) \<and> wants (sq_correlationValue f) (\<lambda>v. br_correlationValue r = Some v))
         (map_values (pt_subscriptions pg)))"

definition pg_saveGatewayState :: "gateway_join_state \<Rightarrow> pg_store \<Rightarrow> pg_store" where
  "pg_saveGatewayState g pg = pg\<lparr>pt_joins := AList.update (js_gatewayId g, js_instanceId g) g (pt_joins pg)\<rparr>"

definition pg_getGatewayState :: "string \<Rightarrow> string \<Rightarrow> pg_store \<Rightarrow> gateway_join_state option" where
  "pg_getGatewayState gatewayId instanceId pg = map_of (pt_joins pg) (gatewayId, instanceId)"

definition pg_deleteGatewayState :: "string \<Rightarrow> string \<Rightarrow> pg_store \<Rightarrow> pg_store" where
  "pg_deleteGatewayState gatewayId instanceId pg = pg\<lparr>pt_joins := AList.delete (gatewayId, instanceId) (pt_joins pg)\<rparr>"

definition pg_listGatewayStates :: "string \<Rightarrow> pg_store \<Rightarrow> gateway_join_state list" where
  "pg_listGatewayStates instanceId pg = map snd (filter (\<lambda>((g, i), x). i = instanceId) (pt_joins pg))"

section \<open>History, timers, compensation\<close>

definition pg_appendHistory :: "history_entry \<Rightarrow> pg_store \<Rightarrow> pg_store" where
  "pg_appendHistory e pg =
     pg\<lparr>pt_history := insert_if_new (he_id e) \<lparr>hr_instanceId = he_instanceId e, hr_startedAt = he_startedAt e, hr_data = stored_entry e\<rparr>
       (pt_history pg)\<rparr>"

definition pg_getHistory :: "string \<Rightarrow> pg_store \<Rightarrow> history_entry list" where
  "pg_getHistory instanceId pg =
     map (\<lambda>(i, r). reviveHistoryEntry (hr_data r))
       (sort_key (\<lambda>(i, r). (hr_startedAt r, he_completedAt (hr_data r), i))
         (filter (\<lambda>(i, r). hr_instanceId r = instanceId) (pt_history pg)))"

definition pg_saveTimer :: "scheduled_timer \<Rightarrow> pg_store \<Rightarrow> pg_store" where
  "pg_saveTimer t pg =
     pg\<lparr>pt_timers := upsert_row (tm_id t) \<lparr>mr_instanceId = tm_instanceId t, mr_fireAt = tm_fireAt t, mr_data = t\<rparr>
       (\<lambda>old. old\<lparr>mr_fireAt := tm_fireAt t, mr_data := t\<rparr>) (pt_timers pg)\<rparr>"

definition pg_deleteTimer :: "string \<Rightarrow> pg_store \<Rightarrow> pg_store" where
  "pg_deleteTimer i pg = pg\<lparr>pt_timers := AList.delete i (pt_timers pg)\<rparr>"

definition pg_getDueTimers :: "int \<Rightarrow> pg_store \<Rightarrow> scheduled_timer list" where
  "pg_getDueTimers before pg =
     map (\<lambda>r. reviveScheduledTimer (mr_data r)) (sort_key mr_fireAt (filter (\<lambda>r. mr_fireAt r \<le> before) (map_values (pt_timers pg))))"

definition pg_saveCompensationRecord :: "compensation_record \<Rightarrow> pg_store \<Rightarrow> pg_store" where
  "pg_saveCompensationRecord x pg = pg\<lparr>pt_records := insert_if_new (cr_instanceId x, cr_tokenId x) x (pt_records pg)\<rparr>"

definition pg_deleteCompensationRecord :: "string \<Rightarrow> string \<Rightarrow> pg_store \<Rightarrow> pg_store" where
  "pg_deleteCompensationRecord instanceId tokenId pg = pg\<lparr>pt_records := AList.delete (instanceId, tokenId) (pt_records pg)\<rparr>"

definition pg_listCompensationRecords :: "string \<Rightarrow> pg_store \<Rightarrow> compensation_record list" where
  "pg_listCompensationRecords instanceId pg =
     sort_key cr_completedAt (map snd (filter (\<lambda>((i, t), x). i = instanceId) (pt_records pg)))"

section \<open>Transactions\<close>

fun pg_apply_op :: "store_operation \<Rightarrow> pg_store \<Rightarrow> pg_fault + pg_store" where
  "pg_apply_op (SaveDefinition d) pg = Inr (pg_saveDefinition d pg)"
| "pg_apply_op (CreateInstance i) pg = pg_createInstance i pg"
| "pg_apply_op (UpdateInstance i) pg = pg_updateInstance i pg"
| "pg_apply_op (SaveTokens ts) pg = Inr (pg_saveTokens ts pg)"
| "pg_apply_op (SaveScope x) pg = Inr (pg_saveScope x pg)"
| "pg_apply_op (CreateUserTask t) pg = pg_createUserTask t pg"
| "pg_apply_op (UpdateUserTask t) pg = Inr (pg_updateUserTask t pg)"
| "pg_apply_op (SaveSubscription x) pg = Inr (pg_saveSubscription x pg)"
| "pg_apply_op (DeleteSubscription i) pg = Inr (pg_deleteSubscription i pg)"
| "pg_apply_op (SaveGatewayState g) pg = Inr (pg_saveGatewayState g pg)"
| "pg_apply_op (DeleteGatewayState gatewayId instanceId) pg = Inr (pg_deleteGatewayState gatewayId instanceId pg)"
| "pg_apply_op (AppendHistory e) pg = Inr (pg_appendHistory e pg)"
| "pg_apply_op (SaveTimer t) pg = Inr (pg_saveTimer t pg)"
| "pg_apply_op (DeleteTimer i) pg = Inr (pg_deleteTimer i pg)"
| "pg_apply_op (SaveCompensationRecord x) pg = Inr (pg_saveCompensationRecord x pg)"
| "pg_apply_op (DeleteCompensationRecord instanceId tokenId) pg = Inr (pg_deleteCompensationRecord instanceId tokenId pg)"

fun pg_run :: "store_operation list \<Rightarrow> pg_store \<Rightarrow> pg_fault + pg_store" where
  "pg_run [] pg = Inr pg"
| "pg_run (op # ops) pg = (case pg_apply_op op pg of Inl e \<Rightarrow> Inl e | Inr pg' \<Rightarrow> pg_run ops pg')"

text \<open>\<open>sql.begin\<close>: what throws is rolled back.\<close>

definition pg_executeTransaction :: "store_operation list \<Rightarrow> pg_store \<Rightarrow> pg_store \<times> pg_fault option" where
  "pg_executeTransaction ops pg = (case pg_run ops pg of Inl e \<Rightarrow> (pg, Some e) | Inr pg' \<Rightarrow> (pg', None))"

section \<open>The contracts of the tables\<close>

lemma revive_id [simp]: "reviveDefinition d = d" "reviveHistoryEntry e = e" "reviveEventSubscription x = x" "reviveScheduledTimer t = t"
  "reviveUserTaskRecord u = u" "reviveInstance i = i\<lparr>pi_version := None\<rparr>" "reviveToken t' = t'\<lparr>tk_loopState := None\<rparr>"
  by (simp_all add: reviveDefinition_def reviveHistoryEntry_def reviveEventSubscription_def reviveScheduledTimer_def
      reviveUserTaskRecord_def reviveInstance_def reviveToken_def)

lemmas pg_defs = pg_saveDefinition_def pg_saveScope_def pg_getScope_def pg_saveSubscription_def pg_deleteSubscription_def
  pg_saveGatewayState_def pg_getGatewayState_def pg_deleteGatewayState_def pg_saveTimer_def pg_deleteTimer_def upsert_row_def

text \<open>The tables that keep what they are given, without change, honour the same contracts as the maps of the store in memory.\<close>

interpretation pg_definitions: keyed_collection "\<lambda>d. (pd_id d, pd_version d)" pg_saveDefinition "\<lambda>(i, v). pg_getDefinition i (Some v)"
  by unfold_locales (auto simp: pg_defs pg_getDefinition_def definition_row_of_def jsmap_simps Let_def split: option.splits if_splits)

definition pg_subscription :: "string \<Rightarrow> pg_store \<Rightarrow> event_subscription option" where
  "pg_subscription i pg = map_option br_data (map_of (pt_subscriptions pg) i)"

definition pg_timer :: "string \<Rightarrow> pg_store \<Rightarrow> scheduled_timer option" where
  "pg_timer i pg = map_option mr_data (map_of (pt_timers pg) i)"

interpretation pg_subscriptions: deletable_collection es_id pg_saveSubscription pg_subscription pg_deleteSubscription
  by unfold_locales (auto simp: pg_defs pg_subscription_def subscription_row_of_def jsmap_simps split: option.splits)

interpretation pg_timers: deletable_collection tm_id pg_saveTimer pg_timer pg_deleteTimer
  by unfold_locales (auto simp: pg_defs pg_timer_def jsmap_simps split: option.splits)

interpretation pg_joins: deletable_collection "\<lambda>g. (js_gatewayId g, js_instanceId g)" pg_saveGatewayState
  "\<lambda>(g, i). pg_getGatewayState g i" "\<lambda>(g, i). pg_deleteGatewayState g i"
  by unfold_locales (auto simp: pg_defs jsmap_simps split: if_splits)

end
