(* ===== verification/Postgres_Correctness.thy ===== *)
theory Postgres_Correctness
  imports Postgres_Store
begin

text \<open>
  The store in Postgres implements the store in memory: after the same transactions it gives the same
  answers, up to order and what \<open>JSON\<close> and the revivers do to a value, and refuses what the other refuses;
  where they part is stated too. Simple tables are compared key by key (\<open>same_table\<close>), the lists the other
  store keeps for each instance as one pool of rows (\<open>pooled\<close>).
\<close>

section \<open>Tables as sets of rows\<close>

lemma table_update_set:
  "distinct (map fst T) \<Longrightarrow> set (AList.update k v T) = {p \<in> set T. fst p \<noteq> k} \<union> {(k, v)}"
proof (induction T)
  case (Cons p T)
  then show ?case by (cases p) (auto simp: image_iff)
qed simp

lemma table_delete_set: "set (AList.delete k T) = {p \<in> set T. fst p \<noteq> k}"
  by (auto simp: AList.delete_eq)

lemma row_iff: "distinct (map fst T) \<Longrightarrow> map_of T k = Some v \<longleftrightarrow> (k, v) \<in> set T"
  by simp

lemma map_values_set: "set (map_values T) = snd ` set T"
  by (simp add: map_values_def)

lemma values_iff: "distinct (map fst T) \<Longrightarrow> v \<in> set (map_values T) \<longleftrightarrow> (\<exists>k. map_of T k = Some v)"
  by (force simp: map_values_def)

lemma append_row_distinct: "distinct (map fst T) \<Longrightarrow> map_of T k = None \<Longrightarrow> distinct (map fst (T @ [(k, v)]))"
  by (auto simp: map_of_eq_None_iff)

section \<open>Two tables with the same entries\<close>

definition same_table :: "('r \<Rightarrow> 'v) \<Rightarrow> ('m \<Rightarrow> 'v) \<Rightarrow> ('k \<times> 'r) list \<Rightarrow> ('k \<times> 'm) list \<Rightarrow> bool" where
  "same_table f g T M \<longleftrightarrow> distinct (map fst T) \<and> distinct (map fst M) \<and>
     (\<forall>k. map_option f (map_of T k) = map_option g (map_of M k))"

lemma same_table_nil [simp]: "same_table f g [] []"
  by (simp add: same_table_def)

lemma same_table_at: "same_table f g T M \<Longrightarrow> map_option f (map_of T k) = map_option g (map_of M k)"
  by (simp add: same_table_def)

lemma same_table_none: "same_table f g T M \<Longrightarrow> map_of T k = None \<longleftrightarrow> map_of M k = None"
  by (metis same_table_at option.map_disc_iff)

lemma same_table_some: "same_table f g T M \<Longrightarrow> map_of M k = Some m \<Longrightarrow> \<exists>r. map_of T k = Some r \<and> f r = g m"
  using same_table_at[of f g T M k] by (cases "map_of T k") auto

lemma same_table_update:
  "same_table f g T M \<Longrightarrow> f r = g m \<Longrightarrow> same_table f g (AList.update k r T) (AList.update k m M)"
  by (simp add: same_table_def AList.distinct_update jsmap_simps)

lemma same_table_delete: "same_table f g T M \<Longrightarrow> same_table f g (AList.delete k T) (AList.delete k M)"
  by (simp add: same_table_def AList.distinct_delete jsmap_simps)

lemma map_of_append_row: "map_of T k = None \<Longrightarrow> map_of (T @ [(k, v)]) = (map_of T)(k \<mapsto> v)"
  by (auto simp: fun_eq_iff map_add_def split: option.splits)

lemma same_table_insert:
  assumes "same_table f g T M" "map_of M k = None" "f r = g m"
  shows "same_table f g (T @ [(k, r)]) (AList.update k m M)"
proof -
  from same_table_none[OF assms(1)] assms(2) have n: "map_of T k = None" by simp
  from assms append_row_distinct[OF _ n] show ?thesis
    unfolding same_table_def map_of_append_row[OF n] by (simp add: AList.distinct_update jsmap_simps)
qed

lemma image_values:
  assumes "distinct (map fst T)"
  shows "f ` set (map_values T) = {v. \<exists>k. map_option f (map_of T k) = Some v}" (is "?l = ?r")
proof (rule set_eqI)
  fix v
  have "v \<in> ?l \<longleftrightarrow> (\<exists>x k. map_of T k = Some x \<and> v = f x)" using values_iff[OF assms] by blast
  also have "\<dots> \<longleftrightarrow> v \<in> ?r" unfolding mem_Collect_eq map_option_eq_Some by blast
  finally show "v \<in> ?l \<longleftrightarrow> v \<in> ?r" .
qed

lemma same_table_values: "same_table f g T M \<Longrightarrow> f ` set (map_values T) = g ` set (map_values M)"
  by (simp add: same_table_def image_values)

section \<open>The lists of the instances as one table\<close>

definition pool :: "(string \<times> 'x list) list \<Rightarrow> 'x set" where
  "pool M = (\<Union>i. set (get_list M i))"

definition pooled :: "('x \<Rightarrow> 'k) \<Rightarrow> ('x \<Rightarrow> 'r) \<Rightarrow> ('x \<Rightarrow> string) \<Rightarrow> ('k \<times> 'r) list \<Rightarrow> (string \<times> 'x list) list \<Rightarrow> bool" where
  "pooled key row owner T M \<longleftrightarrow> distinct (map fst T) \<and> set T = (\<lambda>x. (key x, row x)) ` pool M \<and>
     (\<forall>i. set (get_list M i) = {x \<in> pool M. owner x = i})"

lemma get_list_nil [simp]: "get_list [] i = []"
  by (simp add: get_list_def)

lemma listed_update: "get_list (AList.update i xs M) j = (if j = i then xs else get_list M j)"
  by (simp add: get_list_def jsmap_simps)

lemma pooled_nil [simp]: "pooled key row owner [] []"
  by (simp add: pooled_def pool_def)

lemma pooled_none: "pooled key row owner T M \<Longrightarrow> map_of T k = None \<longleftrightarrow> k \<notin> key ` pool M"
  by (auto simp: pooled_def map_of_eq_None_iff image_iff)

lemma pooled_list: "pooled key row owner T M \<Longrightarrow> set (get_list M i) = {x \<in> pool M. owner x = i}"
  by (simp add: pooled_def)

lemma pool_update:
  assumes "pooled key row owner T M"
  shows "pool (AList.update i ys M) = {x \<in> pool M. owner x \<noteq> i} \<union> set ys"
proof (rule set_eqI)
  fix x
  have "x \<in> pool (AList.update i ys M) \<longleftrightarrow> (\<exists>j. x \<in> set (get_list (AList.update i ys M) j))"
    unfolding pool_def by blast
  also have "\<dots> \<longleftrightarrow> x \<in> set ys \<or> (\<exists>j. j \<noteq> i \<and> x \<in> set (get_list M j))"
    unfolding listed_update by (metis (full_types))
  also have "\<dots> \<longleftrightarrow> x \<in> {x \<in> pool M. owner x \<noteq> i} \<union> set ys"
    unfolding pooled_list[OF assms] by blast
  finally show "x \<in> pool (AList.update i ys M) \<longleftrightarrow> x \<in> {x \<in> pool M. owner x \<noteq> i} \<union> set ys" .
qed

text \<open>The list of one instance is replaced by elements of this instance.\<close>

lemma pooled_replace:
  assumes "pooled key row owner T M" "\<And>x. x \<in> set ys \<Longrightarrow> owner x = i" "distinct (map fst T')"
    and "set T' = (\<lambda>x. (key x, row x)) ` ({x \<in> pool M. owner x \<noteq> i} \<union> set ys)"
  shows "pooled key row owner T' (AList.update i ys M)"
  unfolding pooled_def pool_update[OF assms(1)]
  using assms(2,3) pooled_list[OF assms(1)] by (auto simp: assms(4) listed_update)

lemma pooled_add:
  assumes "pooled key row owner T M" "map_of T (key x) = None"
  shows "pooled key row owner (T @ [(key x, row x)]) (AList.update (owner x) (get_list M (owner x) @ [x]) M)"
proof (rule pooled_replace[OF assms(1)])
  show "set (T @ [(key x, row x)]) = (\<lambda>x. (key x, row x)) ` ({y \<in> pool M. owner y \<noteq> owner x} \<union> set (get_list M (owner x) @ [x]))"
    using assms(1) pooled_list[OF assms(1), of "owner x"] by (auto simp: pooled_def)
qed (use assms pooled_list[OF assms(1)] append_row_distinct[of T "key x"] in \<open>auto simp: pooled_def\<close>)

lemma pooled_remove:
  assumes "pooled key row owner T M" "\<And>x. x \<in> pool M \<Longrightarrow> key x = k \<longleftrightarrow> owner x = i \<and> P x"
  shows "pooled key row owner (AList.delete k T) (AList.update i (filter (\<lambda>x. \<not> P x) (get_list M i)) M)"
proof (rule pooled_replace[OF assms(1)])
  have "{x \<in> pool M. owner x \<noteq> i} \<union> set (filter (\<lambda>x. \<not> P x) (get_list M i)) = {x \<in> pool M. key x \<noteq> k}"
    using assms(2) pooled_list[OF assms(1), of i] by auto
  then show "set (AList.delete k T) = (\<lambda>x. (key x, row x)) `
      ({x \<in> pool M. owner x \<noteq> i} \<union> set (filter (\<lambda>x. \<not> P x) (get_list M i)))"
    using assms(1) by (auto simp: table_delete_set pooled_def)
qed (use assms(1) pooled_list[OF assms(1), of i] in \<open>auto simp: pooled_def AList.distinct_delete\<close>)

text \<open>The rows of one instance.\<close>

lemma pooled_answer:
  assumes "pooled key row owner T M" "\<And>x. inst (row x) = owner x"
  shows "h ` set (filter (\<lambda>r. inst r = i \<and> P r) (map_values T)) = (\<lambda>x. h (row x)) ` {x \<in> set (get_list M i). P (row x)}"
proof -
  have "set (map_values T) = row ` pool M"
    using assms(1) by (auto simp: map_values_set pooled_def image_image)
  then have "set (filter (\<lambda>r. inst r = i \<and> P r) (map_values T)) = row ` {x \<in> set (get_list M i). P (row x)}"
    using assms(2) pooled_list[OF assms(1), of i] by auto
  then show ?thesis by (simp add: image_image)
qed

lemma put_token_set:
  "distinct (map tk_id us) \<Longrightarrow> set (put_token t us) = {u \<in> set us. tk_id u \<noteq> tk_id t} \<union> {t}"
  by (induction us) (auto simp: image_iff)

lemma put_token_distinct: "distinct (map tk_id us) \<Longrightarrow> distinct (map tk_id (put_token t us))"
proof -
  have "tk_id ` set (put_token t us) = insert (tk_id t) (tk_id ` set us)" for us
    by (induction us) auto
  then show "distinct (map tk_id us) \<Longrightarrow> distinct (map tk_id (put_token t us))"
    by (induction us) auto
qed

section \<open>Agreement\<close>

definition token_row_of :: "token \<Rightarrow> token_row" where
  "token_row_of t = \<lparr>tr_instanceId = tk_instanceId t, tr_status = tk_status t, tr_data = stored_token_data t\<rparr>"

definition history_row_of :: "history_entry \<Rightarrow> history_row" where
  "history_row_of e = \<lparr>hr_instanceId = he_instanceId e, hr_startedAt = he_startedAt e, hr_data = stored_entry e\<rparr>"

definition definition_seen :: "process_definition \<Rightarrow> definition_row" where
  "definition_seen d = \<lparr>dr_name = pd_name d, dr_deployedAt = pd_deployedAt d, dr_isDeployable = pd_isDeployable d, dr_data = d, dr_sourceXml = None\<rparr>"

definition instance_seen :: "instance_row \<Rightarrow> process_instance" where
  "instance_seen r = (reviveInstance (ir_data r))\<lparr>pi_version := Some (ir_version r)\<rparr>"

definition plain_id :: "string \<Rightarrow> bool" where
  "plain_id i \<longleftrightarrow> CHR '':'' \<notin> set i"

text \<open>The join states: the other store concatenates the two ids.\<close>

definition joins_agree :: "((string \<times> string) \<times> gateway_join_state) list \<Rightarrow> (string \<times> gateway_join_state) list \<Rightarrow> bool" where
  "joins_agree T M \<longleftrightarrow> distinct (map fst T) \<and> distinct (map fst M) \<and>
     (\<forall>g i. plain_id i \<longrightarrow> map_of T (g, i) = map_of M (gatewayKey g i)) \<and>
     (\<forall>g i x. map_of T (g, i) = Some x \<longrightarrow> plain_id i \<and> g = js_gatewayId x \<and> i = js_instanceId x) \<and>
     (\<forall>k x. map_of M k = Some x \<longrightarrow> plain_id (js_instanceId x) \<and> k = gatewayKey (js_gatewayId x) (js_instanceId x))"

definition agree :: "pg_store \<Rightarrow> store \<Rightarrow> bool" where
  "agree pg s \<longleftrightarrow>
     same_table (\<lambda>r. r\<lparr>dr_sourceXml := None\<rparr>) definition_seen (pt_definitions pg) (so_definitions s) \<and>
     (\<forall>k d. map_of (so_definitions s) k = Some d \<longrightarrow> k = (pd_id d, pd_version d)) \<and>
     same_table instance_seen (\<lambda>i. i) (pt_instances pg) (so_instances s) \<and>
     pooled tk_id token_row_of tk_instanceId (pt_tokens pg) (so_tokens s) \<and>
     (\<forall>i. distinct (map tk_id (get_list (so_tokens s) i))) \<and>
     same_table (\<lambda>x. x) stored_scope (pt_scopes pg) (so_scopes s) \<and>
     same_table (\<lambda>r. r) task_row_of (pt_tasks pg) (so_userTasks s) \<and>
     same_table (\<lambda>r. r) subscription_row_of (pt_subscriptions pg) (so_subscriptions s) \<and>
     joins_agree (pt_joins pg) (so_gatewayStates s) \<and>
     pooled he_id history_row_of he_instanceId (pt_history pg) (so_history s) \<and>
     same_table (\<lambda>r. (mr_fireAt r, mr_data r)) (\<lambda>t. (tm_fireAt t, t)) (pt_timers pg) (so_timers s) \<and>
     pooled (\<lambda>x. (cr_instanceId x, cr_tokenId x)) (\<lambda>x. x) cr_instanceId (pt_records pg) (so_compensation s)"

lemma agree_empty: "agree empty_pg empty_store"
  by (simp add: agree_def empty_pg_def empty_store_def joins_agree_def)

text \<open>
  What the callers keep to: an instance, a task, a history entry and a record are new when they are created,
  an instance and a task exist when they are updated, and a token, task or subscription stays with its instance;
  the ids of instances are free of colons.
\<close>

definition unused :: "('x \<Rightarrow> bool) \<Rightarrow> (string \<times> 'x list) list \<Rightarrow> bool" where
  "unused P M \<longleftrightarrow> list_all (\<lambda>(i, xs). \<not> list_ex P xs) M"

fun tokens_fit :: "token list \<Rightarrow> store \<Rightarrow> bool" where
  "tokens_fit [] s = True"
| "tokens_fit (t # ts) s =
     (list_all (\<lambda>(i, us). i = tk_instanceId t \<or> \<not> list_ex (\<lambda>u. tk_id u = tk_id t) us) (so_tokens s) \<and>
      tokens_fit ts (saveTokens [t] s))"

fun op_fits :: "store_operation \<Rightarrow> store \<Rightarrow> bool" where
  "op_fits (CreateInstance i) s = (getInstance (pi_id i) s = None)"
| "op_fits (UpdateInstance i) s = (getInstance (pi_id i) s \<noteq> None)"
| "op_fits (SaveTokens ts) s = tokens_fit ts s"
| "op_fits (CreateUserTask t) s = (getUserTask (ur_id t) s = None)"
| "op_fits (UpdateUserTask t) s = (map_option ur_instanceId (getUserTask (ur_id t) s) = Some (ur_instanceId t))"
| "op_fits (SaveSubscription x) s =
     (case map_of (so_subscriptions s) (es_id x) of None \<Rightarrow> True | Some y \<Rightarrow> es_instanceId y = es_instanceId x)"
| "op_fits (SaveGatewayState g) s = plain_id (js_instanceId g)"
| "op_fits (DeleteGatewayState g i) s = plain_id i"
| "op_fits (AppendHistory e) s = unused (\<lambda>x. he_id x = he_id e) (so_history s)"
| "op_fits (SaveCompensationRecord x) s =
     (\<not> list_ex (\<lambda>y. cr_tokenId y = cr_tokenId x) (get_list (so_compensation s) (cr_instanceId x)))"
| "op_fits _ s = True"

fun ops_fit :: "store_operation list \<Rightarrow> store \<Rightarrow> bool" where
  "ops_fit [] s = True"
| "ops_fit (op # ops) s = (op_fits op s \<and> (case apply_op op s of Inl e \<Rightarrow> True | Inr s' \<Rightarrow> ops_fit ops s'))"

section \<open>Each operation keeps the agreement\<close>

lemma get_list_member: "x \<in> set (get_list M i) \<Longrightarrow> \<exists>xs. (i, xs) \<in> set M \<and> x \<in> set xs"
  by (cases "map_of M i") (auto simp: get_list_def dest: map_of_SomeD)

lemma unused_pool: "unused P M \<Longrightarrow> x \<in> pool M \<Longrightarrow> \<not> P x"
  by (auto simp: unused_def pool_def list_all_iff list_ex_iff dest!: get_list_member)

lemma agree_token:
  assumes "agree pg s" "tokens_fit [t] s"
  shows "agree (pg_save_token t pg) (saveTokens [t] s)"
proof -
  let ?i = "tk_instanceId t" and ?us = "get_list (so_tokens s) (tk_instanceId t)"
  from assms(1) have p: "pooled tk_id token_row_of tk_instanceId (pt_tokens pg) (so_tokens s)"
    and d: "\<And>i. distinct (map tk_id (get_list (so_tokens s) i))" by (auto simp: agree_def)
  have apart: "tk_id u \<noteq> tk_id t" if "u \<in> pool (so_tokens s)" "tk_instanceId u \<noteq> ?i" for u
  proof -
    from that pooled_list[OF p, of "tk_instanceId u"] have "u \<in> set (get_list (so_tokens s) (tk_instanceId u))" by simp
    from get_list_member[OF this] obtain us where "(tk_instanceId u, us) \<in> set (so_tokens s)" "u \<in> set us" by blast
    with that(2) assms(2) show ?thesis by (auto simp: list_all_iff list_ex_iff)
  qed
  have row: "(case map_of (pt_tokens pg) (tk_id t) of None \<Rightarrow> token_row_of t
      | Some old \<Rightarrow> old\<lparr>tr_status := tk_status t, tr_data := stored_token_data t\<rparr>) = token_row_of t"
  proof (cases "map_of (pt_tokens pg) (tk_id t)")
    case (Some r)
    then have "(tk_id t, r) \<in> set (pt_tokens pg)" by (rule map_of_SomeD)
    with p obtain u where "u \<in> pool (so_tokens s)" "tk_id u = tk_id t" "r = token_row_of u" by (auto simp: pooled_def)
    with apart Some show ?thesis by (auto simp: token_row_of_def)
  qed simp
  have "pooled tk_id token_row_of tk_instanceId (AList.update (tk_id t) (token_row_of t) (pt_tokens pg))
    (AList.update ?i (put_token t ?us) (so_tokens s))"
  proof (rule pooled_replace[OF p])
    have "{u \<in> pool (so_tokens s). tk_instanceId u \<noteq> ?i} \<union> set (put_token t ?us) = {u \<in> pool (so_tokens s). tk_id u \<noteq> tk_id t} \<union> {t}"
      using apart pooled_list[OF p, of ?i] by (auto simp: put_token_set[OF d])
    then show "set (AList.update (tk_id t) (token_row_of t) (pt_tokens pg)) = (\<lambda>x. (tk_id x, token_row_of x)) `
        ({u \<in> pool (so_tokens s). tk_instanceId u \<noteq> ?i} \<union> set (put_token t ?us))"
      using p by (auto simp: table_update_set pooled_def)
  qed (use p pooled_list[OF p, of ?i] in \<open>auto simp: put_token_set[OF d] pooled_def AList.distinct_update\<close>)
  moreover have "pg_save_token t pg = pg\<lparr>pt_tokens := AList.update (tk_id t) (token_row_of t) (pt_tokens pg)\<rparr>"
    unfolding pg_save_token_def upsert_row_def token_row_of_def[symmetric] row ..
  ultimately show ?thesis
    using assms(1) d by (simp add: agree_def saveTokens_def listed_update put_token_distinct)
qed

lemma agree_tokens: "agree pg s \<Longrightarrow> tokens_fit ts s \<Longrightarrow> agree (pg_saveTokens ts pg) (saveTokens ts s)"
proof (induction ts arbitrary: pg s)
  case (Cons t ts)
  have "saveTokens (t # ts) s = saveTokens ts (saveTokens [t] s)" by (simp add: saveTokens_def)
  with Cons agree_token[OF Cons.prems(1), of t] show ?case by (simp add: pg_saveTokens_def)
qed (simp add: pg_saveTokens_def saveTokens_def)

lemma agree_instances:
  assumes "agree pg s"
  shows "op_fits (CreateInstance i) s \<Longrightarrow> \<exists>pg'. pg_createInstance i pg = Inr pg' \<and> agree pg' (createInstance i s)"
    and "op_fits (UpdateInstance i) s \<Longrightarrow> case updateInstance i s of Inl e \<Rightarrow> pg_updateInstance i pg = Inl (EngineFault e)
      | Inr s' \<Rightarrow> \<exists>pg'. pg_updateInstance i pg = Inr pg' \<and> agree pg' s'"
proof -
  from assms have t: "same_table instance_seen (\<lambda>i. i) (pt_instances pg) (so_instances s)" by (simp add: agree_def)
  show "\<exists>pg'. pg_createInstance i pg = Inr pg' \<and> agree pg' (createInstance i s)" if "op_fits (CreateInstance i) s"
  proof -
    from that have n: "map_of (so_instances s) (pi_id i) = None" by (simp add: getInstance_def)
    let ?r = "\<lparr>ir_definitionId = pi_definitionId i, ir_status = pi_status i, ir_correlationKey = pi_correlationKey i,
      ir_businessKey = pi_businessKey i, ir_startedAt = pi_startedAt i, ir_completedAt = pi_completedAt i,
      ir_data = withoutVersion i, ir_version = 1\<rparr>"
    have "same_table instance_seen (\<lambda>i. i) (pt_instances pg @ [(pi_id i, ?r)]) (AList.update (pi_id i) (i\<lparr>pi_version := Some 1\<rparr>) (so_instances s))"
      by (rule same_table_insert[OF t n]) (simp add: instance_seen_def withoutVersion_def)
    with assms n same_table_none[OF t, of "pi_id i"] show ?thesis
      by (simp add: pg_createInstance_def insert_row_def createInstance_def agree_def)
  qed
  assume "op_fits (UpdateInstance i) s"
  then obtain c where c: "map_of (so_instances s) (pi_id i) = Some c" by (auto simp: getInstance_def)
  with same_table_some[OF t this] obtain r where r: "map_of (pt_instances pg) (pi_id i) = Some r" "instance_seen r = c" by auto
  have v: "pi_version c = Some (ir_version r)" using r(2) by (auto simp: instance_seen_def)
  let ?n = "i\<lparr>pi_version := Some (ir_version r + 1)\<rparr>"
  let ?r = "r\<lparr>ir_status := pi_status i, ir_correlationKey := pi_correlationKey i, ir_businessKey := pi_businessKey i,
    ir_completedAt := pi_completedAt i, ir_data := withoutVersion i, ir_version := ir_version r + 1\<rparr>"
  have "same_table instance_seen (\<lambda>i. i) (AList.update (pi_id i) ?r (pt_instances pg)) (AList.update (pi_id i) ?n (so_instances s))"
    by (rule same_table_update[OF t]) (simp add: instance_seen_def withoutVersion_def)
  then have "agree (pg\<lparr>pt_instances := AList.update (pi_id i) ?r (pt_instances pg)\<rparr>)
    (s\<lparr>so_instances := AList.update (pi_id i) ?n (so_instances s)\<rparr>)"
    using assms by (simp add: agree_def)
  with c r(1) v show "case updateInstance i s of Inl e \<Rightarrow> pg_updateInstance i pg = Inl (EngineFault e)
      | Inr s' \<Rightarrow> \<exists>pg'. pg_updateInstance i pg = Inr pg' \<and> agree pg' s'"
    by (auto simp: updateInstance_def pg_updateInstance_def current_version_def)
qed

lemma agree_join_save:
  assumes "joins_agree T M" "plain_id (js_instanceId g)"
  shows "joins_agree (AList.update (js_gatewayId g, js_instanceId g) g T) (AList.update (gatewayKey (js_gatewayId g) (js_instanceId g)) g M)"
  using assms gatewayKey_inj[of _ "js_instanceId g"]
  by (auto simp: joins_agree_def AList.distinct_update jsmap_simps plain_id_def)

lemma agree_join_delete:
  "joins_agree T M \<Longrightarrow> plain_id i \<Longrightarrow> joins_agree (AList.delete (g, i) T) (AList.delete (gatewayKey g i) M)"
  using gatewayKey_inj[of _ i]
  by (auto simp: joins_agree_def AList.distinct_delete jsmap_simps plain_id_def)

lemma agree_rest:
  assumes "agree pg s" "op_fits op s" "\<And>i. op \<noteq> CreateInstance i" "\<And>i. op \<noteq> UpdateInstance i" "\<And>ts. op \<noteq> SaveTokens ts"
  shows "case apply_op op s of Inl e \<Rightarrow> False | Inr s' \<Rightarrow> \<exists>pg'. pg_apply_op op pg = Inr pg' \<and> agree pg' s'"
proof -
  note a = assms(1)[unfolded agree_def]
  have d: "same_table (\<lambda>r. r\<lparr>dr_sourceXml := None\<rparr>) definition_seen (pt_definitions pg) (so_definitions s)"
    "same_table (\<lambda>x. x) stored_scope (pt_scopes pg) (so_scopes s)" "same_table (\<lambda>r. r) task_row_of (pt_tasks pg) (so_userTasks s)"
    "same_table (\<lambda>r. r) subscription_row_of (pt_subscriptions pg) (so_subscriptions s)"
    "joins_agree (pt_joins pg) (so_gatewayStates s)"
    "pooled he_id history_row_of he_instanceId (pt_history pg) (so_history s)"
    "same_table (\<lambda>r. (mr_fireAt r, mr_data r)) (\<lambda>t. (tm_fireAt t, t)) (pt_timers pg) (so_timers s)"
    "pooled (\<lambda>x. (cr_instanceId x, cr_tokenId x)) (\<lambda>x. x) cr_instanceId (pt_records pg) (so_compensation s)"
    using a by blast+
  show ?thesis
  proof (cases op)
    case (SaveDefinition x)
    let ?r = "definition_seen x"
    have "same_table (\<lambda>r. r\<lparr>dr_sourceXml := None\<rparr>) definition_seen (upsert_row (pd_id x, pd_version x) ?r (\<lambda>old. ?r\<lparr>dr_sourceXml := dr_sourceXml old\<rparr>) (pt_definitions pg))
      (AList.update (pd_id x, pd_version x) x (so_definitions s))"
      unfolding upsert_row_def by (rule same_table_update[OF d(1)]) (simp add: definition_seen_def split: option.splits)
    with a SaveDefinition show ?thesis
      by (simp add: agree_def pg_saveDefinition_def saveDefinition_def definition_seen_def[symmetric] Let_def jsmap_simps)
  next
    case (SaveScope x)
    with a same_table_update[OF d(2), of "stored_scope x" x] show ?thesis
      by (simp add: agree_def pg_saveScope_def store_saveScope_def)
  next
    case (CreateUserTask t)
    with assms(2) have n: "map_of (so_userTasks s) (ur_id t) = None" by (simp add: getUserTask_def)
    from a same_table_insert[OF d(3) n, of "task_row_of t" t] same_table_none[OF d(3), of "ur_id t"] n CreateUserTask show ?thesis
      by (simp add: agree_def pg_createUserTask_def createUserTask_def insert_row_def)
  next
    case (UpdateUserTask t)
    with assms(2) obtain u where u: "map_of (so_userTasks s) (ur_id t) = Some u" "ur_instanceId u = ur_instanceId t"
      by (auto simp: getUserTask_def)
    with same_table_some[OF d(3) u(1)] have r: "map_of (pt_tasks pg) (ur_id t) = Some (task_row_of u)" by simp
    have "(task_row_of u)\<lparr>kr_assignee := ur_assignee t, kr_status := ur_status t, kr_data := stored_task t\<rparr> = task_row_of t"
      using u(2) by (simp add: task_row_of_def)
    with a same_table_update[OF d(3), of "task_row_of t" t] r UpdateUserTask show ?thesis
      by (simp add: agree_def pg_updateUserTask_def updateUserTask_def update_row_def)
  next
    case (SaveSubscription x)
    have "(case map_of (pt_subscriptions pg) (es_id x) of None \<Rightarrow> subscription_row_of x
        | Some old \<Rightarrow> (subscription_row_of x)\<lparr>br_instanceId := br_instanceId old\<rparr>) = subscription_row_of x"
      using assms(2) SaveSubscription same_table_at[OF d(4), of "es_id x"]
      by (auto simp: subscription_row_of_def split: option.splits)
    with a same_table_update[OF d(4), of "subscription_row_of x" x] SaveSubscription show ?thesis
      by (simp add: agree_def pg_saveSubscription_def saveSubscription_def upsert_row_def)
  next
    case (DeleteSubscription i)
    with a same_table_delete[OF d(4)] show ?thesis by (simp add: agree_def pg_deleteSubscription_def deleteSubscription_def)
  next
    case (SaveGatewayState g)
    with a assms(2) agree_join_save[OF d(5)] show ?thesis by (simp add: agree_def pg_saveGatewayState_def saveGatewayState_def)
  next
    case (DeleteGatewayState g i)
    with a assms(2) agree_join_delete[OF d(5)] show ?thesis by (simp add: agree_def pg_deleteGatewayState_def deleteGatewayState_def)
  next
    case (AppendHistory e)
    with assms(2) have u: "unused (\<lambda>x. he_id x = he_id e) (so_history s)" by simp
    have n: "map_of (pt_history pg) (he_id e) = None"
      unfolding pooled_none[OF d(6)]
    proof
      assume "he_id e \<in> he_id ` pool (so_history s)"
      then obtain x where "x \<in> pool (so_history s)" "he_id x = he_id e" by (metis imageE)
      with unused_pool[OF u] show False by blast
    qed
    with a pooled_add[OF d(6), of e] AppendHistory show ?thesis
      by (simp add: agree_def pg_appendHistory_def appendHistory_def insert_if_new_def history_row_of_def)
  next
    case (SaveTimer t)
    let ?r = "\<lparr>mr_instanceId = tm_instanceId t, mr_fireAt = tm_fireAt t, mr_data = t\<rparr>"
    have "same_table (\<lambda>r. (mr_fireAt r, mr_data r)) (\<lambda>t. (tm_fireAt t, t)) (upsert_row (tm_id t) ?r (\<lambda>old. old\<lparr>mr_fireAt := tm_fireAt t, mr_data := t\<rparr>) (pt_timers pg))
      (AList.update (tm_id t) t (so_timers s))"
      unfolding upsert_row_def by (rule same_table_update[OF d(7)]) (simp split: option.splits)
    with a SaveTimer show ?thesis by (simp add: agree_def pg_saveTimer_def saveTimer_def)
  next
    case (DeleteTimer i)
    with a same_table_delete[OF d(7)] show ?thesis by (simp add: agree_def pg_deleteTimer_def deleteTimer_def)
  next
    case (SaveCompensationRecord x)
    have n: "map_of (pt_records pg) (cr_instanceId x, cr_tokenId x) = None"
      using assms(2) SaveCompensationRecord pooled_list[OF d(8), of "cr_instanceId x"]
      by (auto simp: pooled_none[OF d(8)] list_ex_iff)
    with a pooled_add[OF d(8), of x] SaveCompensationRecord show ?thesis
      by (simp add: agree_def pg_saveCompensationRecord_def saveCompensationRecord_def insert_if_new_def)
  next
    case (DeleteCompensationRecord i k)
    with a pooled_remove[OF d(8), of "(i, k)" i "\<lambda>x. cr_tokenId x = k"] show ?thesis
      by (simp add: agree_def pg_deleteCompensationRecord_def deleteCompensationRecord_def)
  qed (use assms in simp_all)
qed

lemma agree_op:
  assumes "agree pg s" "op_fits op s"
  shows "case apply_op op s of Inl e \<Rightarrow> pg_apply_op op pg = Inl (EngineFault e) | Inr s' \<Rightarrow> \<exists>pg'. pg_apply_op op pg = Inr pg' \<and> agree pg' s'"
proof -
  consider (c) i where "op = CreateInstance i" | (u) i where "op = UpdateInstance i" | (t) ts where "op = SaveTokens ts"
    | (r) "\<And>i. op \<noteq> CreateInstance i" "\<And>i. op \<noteq> UpdateInstance i" "\<And>ts. op \<noteq> SaveTokens ts" by blast
  then show ?thesis
  proof cases
    case (c i)
    with agree_instances(1)[OF assms(1), of i] assms(2) show ?thesis by simp
  next
    case (u i)
    with assms(2) have "op_fits (UpdateInstance i) s" by simp
    then show ?thesis unfolding u apply_op.simps pg_apply_op.simps by (rule agree_instances(2)[OF assms(1)])
  next
    case (t ts)
    with agree_tokens[OF assms(1), of ts] assms(2) show ?thesis by simp
  next
    case r
    from agree_rest[OF assms r] show ?thesis by (auto split: sum.splits)
  qed
qed

lemma agree_transaction:
  assumes "agree pg s" "ops_fit ops s"
  shows "case executeTransaction ops s of
      (s', None) \<Rightarrow> \<exists>pg'. pg_run ops pg = Inr pg' \<and> agree pg' s'
    | (s', Some e) \<Rightarrow> pg_run ops pg = Inl (EngineFault e)"
  using assms
proof (induction ops arbitrary: pg s)
  case (Cons op ops)
  note one = agree_op[OF Cons.prems(1), of op]
  show ?case
  proof (cases "apply_op op s")
    case (Inl e)
    with one Cons.prems(2) show ?thesis by simp
  next
    case (Inr s1)
    with one Cons.prems(2) obtain pg1 where "pg_apply_op op pg = Inr pg1" "agree pg1 s1" by auto
    then have "executeTransaction (op # ops) s = executeTransaction ops s1" "pg_run (op # ops) pg = pg_run ops pg1"
      using Inr by simp_all
    with Cons.IH[OF \<open>agree pg1 s1\<close>] Cons.prems(2) Inr show ?thesis by (simp only: op_fits.simps ops_fit.simps sum.case)
  qed
qed simp

section \<open>The same answers\<close>

definition filter_given :: "subscription_filter \<Rightarrow> bool" where
  "filter_given f \<longleftrightarrow> Some [] \<notin> {sq_messageName f, sq_signalName f, sq_correlationValue f, sq_instanceId f}"

definition same_answers :: "pg_store \<Rightarrow> store \<Rightarrow> bool" where
  "same_answers pg s \<longleftrightarrow>
     (\<forall>i version. pg_getDefinition i version pg = getDefinition i version s) \<and>
     (\<forall>i. pg_getInstance i pg = getInstance i s) \<and>
     (\<forall>i. set (pg_getAllTokens i pg) = (\<lambda>t. reviveToken (stored_token_data t)) ` set (store_getAllTokens i s)) \<and>
     (\<forall>i. set (pg_getActiveTokens i pg) = (\<lambda>t. reviveToken (stored_token_data t)) ` set (getActiveTokens i s)) \<and>
     (\<forall>i. pg_getScope i pg = map_option stored_scope (getScope i s)) \<and>
     (\<forall>i. i \<noteq> [] \<longrightarrow> pg_getScopeChain i pg = map_option (map stored_scope) (getScopeChain i s)) \<and>
     (\<forall>i. pg_getUserTask i pg = map_option stored_task (getUserTask i s)) \<and>
     (\<forall>f. filter_given f \<longrightarrow> set (pg_findSubscriptions f pg) = set (findSubscriptions f s)) \<and>
     (\<forall>g i. plain_id i \<longrightarrow> pg_getGatewayState g i pg = getGatewayState g i s) \<and>
     (\<forall>i. plain_id i \<longrightarrow> set (pg_listGatewayStates i pg) = set (listGatewayStates i s)) \<and>
     (\<forall>i. set (pg_getHistory i pg) = stored_entry ` set (getHistory i s)) \<and>
     (\<forall>t. set (pg_getDueTimers t pg) = set (getDueTimers t s)) \<and>
     (\<forall>i. set (pg_listCompensationRecords i pg) = set (listCompensationRecords i s))"

lemma answer_instance:
  assumes "agree pg s"
  shows "pg_getInstance i pg = getInstance i s"
proof -
  from assms have t: "same_table instance_seen (\<lambda>i. i) (pt_instances pg) (so_instances s)" by (simp add: agree_def)
  have "pg_getInstance i pg = map_option instance_seen (map_of (pt_instances pg) i)"
    by (simp add: pg_getInstance_def instance_seen_def[abs_def])
  then show ?thesis using same_table_at[OF t, of i] by (simp add: getInstance_def option.map_ident)
qed

lemma answer_tokens:
  assumes "agree pg s"
  shows "set (pg_getAllTokens i pg) = (\<lambda>t. reviveToken (stored_token_data t)) ` set (store_getAllTokens i s)"
    and "set (pg_getActiveTokens i pg) = (\<lambda>t. reviveToken (stored_token_data t)) ` set (getActiveTokens i s)"
proof -
  from assms have p: "pooled tk_id token_row_of tk_instanceId (pt_tokens pg) (so_tokens s)" by (simp add: agree_def)
  note answer = pooled_answer[OF p, of tr_instanceId "\<lambda>r. reviveToken (tr_data r)" i]
  show "set (pg_getAllTokens i pg) = (\<lambda>t. reviveToken (stored_token_data t)) ` set (store_getAllTokens i s)"
    using answer[of "\<lambda>r. True"] by (simp add: pg_getAllTokens_def store_getAllTokens_def token_row_of_def)
  show "set (pg_getActiveTokens i pg) = (\<lambda>t. reviveToken (stored_token_data t)) ` set (getActiveTokens i s)"
    using answer[of "\<lambda>r. tr_status r \<in> {Active, Waiting, Suspended}"]
    by (simp add: pg_getActiveTokens_def getActiveTokens_def token_row_of_def)
qed

lemma answer_scope: "agree pg s \<Longrightarrow> pg_getScope i pg = map_option stored_scope (getScope i s)"
  using same_table_at[of "\<lambda>x. x" stored_scope "pt_scopes pg" "so_scopes s" i]
  by (simp add: agree_def pg_getScope_def getScope_def option.map_ident)

lemma answer_task: "agree pg s \<Longrightarrow> pg_getUserTask i pg = map_option stored_task (getUserTask i s)"
  using same_table_at[of "\<lambda>r. r" task_row_of "pt_tasks pg" "so_userTasks s" i]
  by (cases "map_of (so_userTasks s) i")
     (auto simp: agree_def pg_getUserTask_def getUserTask_def option.map_ident task_row_of_def)

lemma asks_wants: "q \<noteq> Some [] \<Longrightarrow> asks q P = wants q P"
  by (cases q) (auto simp: asks_def wants_def truthy_def)

lemma answer_subscriptions:
  assumes "agree pg s" "filter_given f"
  shows "set (pg_findSubscriptions f pg) = set (findSubscriptions f s)"
proof -
  from assms(1) have t: "same_table (\<lambda>r. r) subscription_row_of (pt_subscriptions pg) (so_subscriptions s)" by (simp add: agree_def)
  have v: "set (map_values (pt_subscriptions pg)) = subscription_row_of ` set (map_values (so_subscriptions s))"
    using same_table_values[OF t] by simp
  define P :: "subscription_row \<Rightarrow> bool" where "P r \<longleftrightarrow> br_status r = SubActive \<and> wants (sq_instanceId f) (\<lambda>v. br_instanceId r = v) \<and>
    wants (sq_type f) (\<lambda>v. br_type r = v) \<and> wants (sq_messageName f) (\<lambda>v. br_messageName r = Some v) \<and>
    wants (sq_signalName f) (\<lambda>v. br_signalName r = Some v) \<and> wants (sq_correlationValue f) (\<lambda>v. br_correlationValue r = Some v)" for r
  have "findSubscriptions f s = filter (\<lambda>x. P (subscription_row_of x)) (map_values (so_subscriptions s))"
    unfolding findSubscriptions_def
    by (rule filter_cong[OF refl]) (use assms(2) in \<open>auto simp: P_def filter_given_def asks_wants subscription_row_of_def wants_def[of "sq_type f"]\<close>)
  moreover have "set (pg_findSubscriptions f pg) = br_data ` {r \<in> set (map_values (pt_subscriptions pg)). P r}"
    by (simp add: pg_findSubscriptions_def P_def)
  moreover have "br_data (subscription_row_of x) = x" for x by (simp add: subscription_row_of_def)
  ultimately show ?thesis unfolding v by (force simp: image_iff)
qed

lemma answer_joins:
  assumes "agree pg s" "plain_id i"
  shows "pg_getGatewayState g i pg = getGatewayState g i s" "set (pg_listGatewayStates i pg) = set (listGatewayStates i s)"
proof -
  let ?T = "pt_joins pg" and ?M = "so_gatewayStates s"
  from assms(1) have j: "joins_agree ?T ?M" by (simp add: agree_def)
  then have d: "distinct (map fst ?T)" "distinct (map fst ?M)" by (auto simp: joins_agree_def)
  show "pg_getGatewayState g i pg = getGatewayState g i s"
    using j assms(2) by (simp add: joins_agree_def pg_getGatewayState_def getGatewayState_def)
  have "x \<in> set (pg_listGatewayStates i pg) \<longleftrightarrow> (\<exists>g. map_of ?T (g, i) = Some x)" for x
    using d by (force simp: pg_listGatewayStates_def)
  moreover have "x \<in> set (listGatewayStates i s) \<longleftrightarrow> (\<exists>k. map_of ?M k = Some x) \<and> js_instanceId x = i" for x
    using values_iff[OF d(2)] by (simp add: listGatewayStates_def)
  moreover have "(\<exists>g. map_of ?T (g, i) = Some x) \<longleftrightarrow> (\<exists>k. map_of ?M k = Some x) \<and> js_instanceId x = i" for x
    using j assms(2) unfolding joins_agree_def by metis
  ultimately show "set (pg_listGatewayStates i pg) = set (listGatewayStates i s)" by blast
qed

lemma answer_history:
  assumes "agree pg s"
  shows "set (pg_getHistory i pg) = stored_entry ` set (getHistory i s)"
proof -
  from assms have p: "pooled he_id history_row_of he_instanceId (pt_history pg) (so_history s)" by (simp add: agree_def)
  have "set (pg_getHistory i pg) = hr_data ` set (filter (\<lambda>r. hr_instanceId r = i \<and> True) (map_values (pt_history pg)))"
    by (force simp: pg_getHistory_def map_values_def)
  also have "\<dots> = stored_entry ` set (getHistory i s)"
    by (subst pooled_answer[OF p]) (simp_all add: history_row_of_def getHistory_def)
  finally show ?thesis .
qed

lemma answer_timers:
  assumes "agree pg s"
  shows "set (pg_getDueTimers t pg) = set (getDueTimers t s)"
proof -
  from assms have t: "same_table (\<lambda>r. (mr_fireAt r, mr_data r)) (\<lambda>t. (tm_fireAt t, t)) (pt_timers pg) (so_timers s)" by (simp add: agree_def)
  have "x \<in> set (pg_getDueTimers t pg) \<longleftrightarrow> (\<exists>n \<le> t. (n, x) \<in> (\<lambda>r. (mr_fireAt r, mr_data r)) ` set (map_values (pt_timers pg)))" for x
    by (auto simp: pg_getDueTimers_def)
  also have "\<dots> x \<longleftrightarrow> x \<in> set (getDueTimers t s)" for x
    unfolding same_table_values[OF t] by (auto simp: getDueTimers_def)
  finally show ?thesis by blast
qed

lemma answer_records:
  assumes "agree pg s"
  shows "set (pg_listCompensationRecords i pg) = set (listCompensationRecords i s)"
proof -
  from assms have p: "pooled (\<lambda>x. (cr_instanceId x, cr_tokenId x)) (\<lambda>x. x) cr_instanceId (pt_records pg) (so_compensation s)"
    by (simp add: agree_def)
  have "x \<in> set (pg_listCompensationRecords i pg) \<longleftrightarrow> (\<exists>k. ((i, k), x) \<in> set (pt_records pg))" for x
    by (force simp: pg_listCompensationRecords_def)
  also have "\<dots> x \<longleftrightarrow> x \<in> pool (so_compensation s) \<and> cr_instanceId x = i" for x
    using p by (auto simp: pooled_def)
  finally show ?thesis using pooled_list[OF p, of i] by (auto simp: listCompensationRecords_def)
qed

text \<open>The definition of an id without a version is the one of its highest version, in both stores.\<close>

lemma sort_key_head: "sort_key f xs = y # ys \<Longrightarrow> y \<in> set xs \<and> (\<forall>x \<in> set xs. f y \<le> f x)"
proof -
  assume s: "sort_key f xs = y # ys"
  have "set (y # ys) = set xs" "sorted (map f (y # ys))" unfolding s[symmetric] by simp_all
  then show ?thesis by auto
qed

lemma answer_definition:
  assumes "agree pg s"
  shows "pg_getDefinition i version pg = getDefinition i version s"
proof -
  let ?T = "pt_definitions pg" and ?M = "so_definitions s"
  from assms have t: "same_table (\<lambda>r. r\<lparr>dr_sourceXml := None\<rparr>) definition_seen ?T ?M"
    and k: "\<And>k d. map_of ?M k = Some d \<Longrightarrow> k = (pd_id d, pd_version d)" by (auto simp: agree_def)
  have d: "distinct (map fst ?T)" "distinct (map fst ?M)" using t by (auto simp: same_table_def)
  have data: "dr_data r = l" if "r\<lparr>dr_sourceXml := None\<rparr> = definition_seen l" for r l
    using arg_cong[OF that, of dr_data] by (simp add: definition_seen_def)
  have one: "map_option dr_data (map_of ?T k) = map_of ?M k" for k
    using same_table_at[OF t, of k] by (cases "map_of ?T k"; cases "map_of ?M k") (auto dest: data)
  show ?thesis
  proof (cases version)
    case (Some v)
    then show ?thesis using one[of "(i, v)"] by (simp add: pg_getDefinition_def definition_row_of_def getDefinition_def)
  next
    case None
    have own: "dr_data r = l \<Longrightarrow> (j, v) = (pd_id l, pd_version l)" if "((j, v), r) \<in> set ?T" for j v r l
      using one[of "(j, v)"] row_iff[OF d(1), of "(j, v)" r] that k[of "(j, v)" l] by auto
    let ?rows = "filter (\<lambda>((j, v), r). j = i) ?T"
    show ?thesis
    proof (cases "sort_key (\<lambda>((j, v), r). - v) ?rows")
      case Nil
      then have "set ?rows = {}" by (metis set_empty set_sort)
      moreover have "((i, v), r) \<in> set ?rows" if "map_of ?T (i, v) = Some r" for v r using map_of_SomeD[OF that] by simp
      ultimately have "map_of ?T (i, v) = None" for v by (metis empty_iff not_None_eq)
      then have "map_of ?M (i, v) = None" for v using one[of "(i, v)"] by simp
      then have "pd_id l \<noteq> i" if "l \<in> set (map_values ?M)" for l
        using that k unfolding values_iff[OF d(2)] by fastforce
      then have "getDefinition i None s = None" using getDefinition_latest[of i s] by (auto split: option.splits)
      with Nil None show ?thesis by (simp add: pg_getDefinition_def definition_row_of_def versions_of_def)
    next
      case (Cons y ys)
      obtain j v r where y: "y = ((j, v), r)" by (metis surj_pair)
      from sort_key_head[OF Cons] y have r: "((i, v), r) \<in> set ?T" "j = i"
        and top: "\<And>w r'. ((i, w), r') \<in> set ?T \<Longrightarrow> w \<le> v" by (auto simp: case_prod_unfold)
      have "map_of ?T (i, v) = Some r" using row_iff[OF d(1)] r(1) by blast
      then have m: "map_of ?M (i, v) = Some (dr_data r)" using one[of "(i, v)", symmetric] by simp
      with k[OF m] have in_M: "dr_data r \<in> set (map_values ?M)" "pd_id (dr_data r) = i" "pd_version (dr_data r) = v"
        unfolding values_iff[OF d(2)] by auto
      have "getDefinition i None s = Some (dr_data r)"
      proof (cases "getDefinition i None s")
        case None
        with getDefinition_latest[of i s] in_M show ?thesis by (auto simp: list_all_iff)
      next
        case (Some l)
        with getDefinition_latest[of i s] in_M
        have l: "l \<in> set (map_values ?M)" "pd_id l = i" "v \<le> pd_version l" by (auto simp: list_all_iff)
        then obtain q where q: "map_of ?M q = Some l" unfolding values_iff[OF d(2)] by blast
        with k[OF q] l(2) have ml: "map_of ?M (i, pd_version l) = Some l" by simp
        with one[of "(i, pd_version l)"] obtain r' where "map_of ?T (i, pd_version l) = Some r'" by auto
        then have "pd_version l \<le> v" using top by (blast dest: map_of_SomeD)
        with l(3) ml m Some show ?thesis by simp
      qed
      with Cons y None show ?thesis by (simp add: pg_getDefinition_def definition_row_of_def versions_of_def)
    qed
  qed
qed

text \<open>Both walk the same chain, and neither returns on a cycle.\<close>

definition scope_at :: "(string \<times> 'v) list \<Rightarrow> string option \<Rightarrow> 'v option" where
  "scope_at M q = (if truthy q then map_of M (the q) else None)"

lemma stored_parent [simp]: "vs_parentScopeId (stored_scope x) = vs_parentScopeId x"
  by (simp add: stored_scope_def)

lemma chain_there:
  assumes "chain_from M c acc = Some r" "\<And>k. map_of T k = map_option stored_scope (map_of M k)" "c = scope_at M q"
  shows "pg_chain T q (map stored_scope acc) = Some (map stored_scope r)"
  using assms
proof (induction M c acc r arbitrary: q rule: chain_from.raw_induct[rotated, consumes 1, case_names one])
  case (one cf M c acc r)
  show ?case
  proof (cases "scope_at M q")
    case None
    with one show ?thesis by (subst pg_chain.simps) (auto simp: scope_at_def split: if_splits)
  next
    case (Some x)
    have "cf M (scope_at M (vs_parentScopeId x)) (acc @ [x]) = Some r"
      using one(2) unfolding one(4) Some by (simp only: option.case scope_at_def)
    from one(1)[OF this one(3) refl] Some one(3) show ?thesis
      by (subst pg_chain.simps) (auto simp: scope_at_def split: if_splits)
  qed
qed

lemma chain_back:
  assumes "pg_chain T q acc' = Some r" "\<And>k. map_of T k = map_option stored_scope (map_of M k)"
  shows "chain_from M (scope_at M q) acc \<noteq> None"
  using assms
proof (induction T q acc' r arbitrary: acc rule: pg_chain.raw_induct[rotated, consumes 1, case_names one])
  case (one pc T q acc' r)
  show ?case
  proof (cases "scope_at M q")
    case None
    then show ?thesis by (subst chain_from.simps) simp
  next
    case (Some x)
    with one(2,3) have "pc T (vs_parentScopeId x) (acc' @ [stored_scope x]) = Some r"
      by (auto simp: scope_at_def split: if_splits)
    from one(1)[OF this one(3)] Some show ?thesis by (subst chain_from.simps) (simp add: scope_at_def)
  qed
qed

lemma answer_chain:
  assumes "agree pg s" "i \<noteq> []"
  shows "pg_getScopeChain i pg = map_option (map stored_scope) (getScopeChain i s)"
proof -
  from assms(1) have m: "map_of (pt_scopes pg) k = map_option stored_scope (map_of (so_scopes s) k)" for k
    using same_table_at[of "\<lambda>x. x" stored_scope "pt_scopes pg" "so_scopes s" k] by (simp add: agree_def option.map_ident)
  have c: "map_of (so_scopes s) i = scope_at (so_scopes s) (Some i)" using assms(2) by (simp add: scope_at_def truthy_def)
  show ?thesis
  proof (cases "getScopeChain i s")
    case None
    with chain_back[of "pt_scopes pg" "Some i" "[]" _ "so_scopes s" "[]"] m show ?thesis
      by (cases "pg_getScopeChain i pg") (auto simp: pg_getScopeChain_def getScopeChain_def c)
  next
    case (Some r)
    with chain_there[OF _ m c, of "[]" r] show ?thesis by (simp add: pg_getScopeChain_def getScopeChain_def)
  qed
qed

section \<open>One store implements the other\<close>

text \<open>The two stores after the same transactions, each of which fits and succeeds.\<close>

inductive stores_run :: "store \<Rightarrow> pg_store \<Rightarrow> bool" where
  run_empty: "stores_run empty_store empty_pg"
| run_more: "stores_run s pg \<Longrightarrow> ops_fit ops s \<Longrightarrow> snd (executeTransaction ops s) = None \<Longrightarrow>
    stores_run (fst (executeTransaction ops s)) (fst (pg_executeTransaction ops pg))"

lemma runs_agree: "stores_run s pg \<Longrightarrow> agree pg s"
proof (induction rule: stores_run.induct)
  case (run_more s pg ops)
  with agree_transaction[OF run_more.IH, of ops] show ?case
    by (cases "executeTransaction ops s") (auto simp: pg_executeTransaction_def)
qed (rule agree_empty)


definition first_ops :: "store_operation list" where
  "first_ops = [CreateInstance sample_instance, CreateUserTask (sample_user_task ''u1''), SaveGatewayState sample_join,
     SaveScope \<lparr>vs_id = ''v'', vs_parentScopeId = None, vs_variables = [(''b'', \<lparr>vv_type = VString, vv_value = JString ''x''\<rparr>)]\<rparr>]"


end
