(* ===== verification/Reload_Loops.thy ===== *)
theory Reload_Loops
  imports Postgres_Correctness Engine_Correctness
begin

text \<open>
  What the Postgres store does to a loop: \<open>reviveToken\<close> names every field of a token but \<open>loopState\<close>, where a
  sequential multi-instance task keeps its list and position.
\<close>

text \<open>The state of an instance as it comes back from the tables.\<close>

definition reloaded :: "engine_state \<Rightarrow> engine_state" where
  "reloaded s = s\<lparr>st_tokens := map (\<lambda>t. reviveToken (stored_token_data t)) (st_tokens s),
     st_scopes := map stored_scope (st_scopes s)\<rparr>"

text \<open>Two people review one after the other.\<close>

definition reviewers :: process_definition where
  "reviewers = process_of
     [StartEvent (node ''s'' [] [''f1'']) no_event None,
      UserTask (node ''u'' [''f1''] [''f2''])
        \<lparr>ut_assignee = None, ut_candidateGroups = None, ut_dueDate = None, ut_priority = None, ut_formKey = None\<rparr>
        \<lparr>tc_loopCharacteristics = Some \<lparr>lc_isSequential = True, lc_inputCollection = ''people'', lc_inputElement = Some ''person'',
           lc_outputElement = None, lc_outputCollection = None, lc_completionCondition = None\<rparr>, tc_isForCompensation = None\<rparr>,
      EndEvent (node ''e'' [''f2''] []) no_event]
     [flow_of ''f1'' ''s'' ''u'', flow_of ''f2'' ''u'' ''e'']"

definition asking :: "string \<Rightarrow> execute_options" where
  "asking p = (counting_from p)\<lparr>op_expressionEvaluator := \<lambda>_ _. Inr (JArray [JString ''ann'', JString ''bob''])\<rparr>"

definition waiting_ids :: "engine_state \<Rightarrow> (string \<times> string option) list" where
  "waiting_ids s = map (\<lambda>t. (tk_id t, tk_parentTokenId t)) (filter (\<lambda>t. tk_status t = Waiting) (st_tokens s))"

text \<open>
  A loop does not survive a reload. Two people are to review one after the other: after the first answered, the
  engine asks the second if the state was kept in memory. If it was read back from Postgres in between, the same
  command succeeds and asks nobody: the instance stays active with the token of the loop itself, which waits
  for a child it does not have.
\<close>

theorem reloaded_loops_stall:
  "case execute reviewers (StartProcess None None None) None (asking ''a'') of
     Some (Inr (s, _)) \<Rightarrow>
       waiting_ids s = [(''axxxx'', None), (''axxxxxx'', Some ''axxxx'')] \<and>
       (case execute reviewers (CompleteUserTask ''axxxxxx'' ''ann'' None) (Some s) (asking ''b'') of
          Some (Inr (kept, _)) \<Rightarrow> waiting_ids kept = [(''axxxx'', None), (''bxx'', Some ''axxxx'')]
        | _ \<Rightarrow> False) \<and>
       (case execute reviewers (CompleteUserTask ''axxxxxx'' ''ann'' None) (Some (reloaded s)) (asking ''b'') of
          Some (Inr (stalled, _)) \<Rightarrow> pi_status (st_instance stalled) = ActiveI \<and> waiting_ids stalled = [(''axxxx'', None)]
        | _ \<Rightarrow> False)
   | _ \<Rightarrow> False"
  by (simp add: engine_eval reviewers_def asking_def waiting_ids_def reloaded_def stored_token_data_def stored_condition_def
      stored_loop_def stored_scope_def stored_variables_def key_order_def sample_eval)

end
