(* ===== verification/Url_Policy.thy ===== *)
theory Url_Policy
  imports Text_Tools Js_Values "HOL-Library.Word"
begin

text \<open>
  \<open>webhooks/urlPolicy.ts\<close> and \<open>webhooks/safeFetch.ts\<close> of the app: which addresses a webhook may be sent to,
  and the delivery that only connects to addresses that were checked. Addresses are words of 32 and 128 bits.
  The parser of URLs, the resolver of names and the sending of one request are parameters; Node's \<open>isIP\<close> and
  \<open>BlockList\<close> are written out, but for zone identifiers. The cache of parsed lists is left out, as it only
  saves time.
\<close>

unbundle bit_operations_syntax

section \<open>Addresses\<close>

datatype address = V4 "32 word" | V6 "128 word"

definition octet :: "string \<Rightarrow> nat option" where
  "octet t = (if t \<noteq> [] \<and> list_all digit t \<and> length t \<le> 3 \<and> (hd t = CHR ''0'' \<longrightarrow> length t = 1) \<and> number_of t \<le> 255
     then Some (number_of t) else None)"

definition parse_v4 :: "string \<Rightarrow> nat option" where
  "parse_v4 s = (case map octet (split_on (CHR ''.'') s) of
     [Some a, Some b, Some c, Some d] \<Rightarrow> Some (((a * 256 + b) * 256 + c) * 256 + d) | _ \<Rightarrow> None)"

definition hex_value :: "char \<Rightarrow> nat option" where
  "hex_value c = (let n = of_char c :: nat in
     if 48 \<le> n \<and> n \<le> 57 then Some (n - 48) else if 65 \<le> n \<and> n \<le> 70 then Some (n - 55)
     else if 97 \<le> n \<and> n \<le> 102 then Some (n - 87) else None)"

definition hex_group :: "string \<Rightarrow> nat option" where
  "hex_group t = (if t \<noteq> [] \<and> length t \<le> 4 \<and> list_all (\<lambda>c. hex_value c \<noteq> None) t
     then Some (fold (\<lambda>c n. 16 * n + the (hex_value c)) t 0) else None)"

text \<open>The groups of a part of an address; the last may be a dotted address, if the part is the end.\<close>

fun hex_groups :: "bool \<Rightarrow> string list \<Rightarrow> nat list option" where
  "hex_groups ending [] = Some []"
| "hex_groups ending [t] =
     (if ending \<and> CHR ''.'' \<in> set t then map_option (\<lambda>n. [n div 65536, n mod 65536]) (parse_v4 t)
      else map_option (\<lambda>g. [g]) (hex_group t))"
| "hex_groups ending (t # ts) =
     (case (hex_group t, hex_groups ending ts) of (Some g, Some gs) \<Rightarrow> Some (g # gs) | _ \<Rightarrow> None)"

definition address_part :: "bool \<Rightarrow> string \<Rightarrow> nat list option" where
  "address_part ending s = (if s = [] then Some [] else hex_groups ending (split_on (CHR '':'') s))"

text \<open>What stands before and after the first \<open>::\<close>.\<close>

fun split_double :: "string \<Rightarrow> (string \<times> string) option" where
  "split_double (a # b # r) =
     (if a = CHR '':'' \<and> b = CHR '':'' then Some ([], r) else map_option (\<lambda>(x, y). (a # x, y)) (split_double (b # r)))"
| "split_double _ = None"

definition parse_v6 :: "string \<Rightarrow> nat list option" where
  "parse_v6 s =
     (case split_double s of
        None \<Rightarrow> (case address_part True s of Some gs \<Rightarrow> if length gs = 8 then Some gs else None | None \<Rightarrow> None)
      | Some (x, y) \<Rightarrow>
          (case (address_part False x, address_part True y) of
             (Some a, Some b) \<Rightarrow> if length a + length b \<le> 7 then Some (a @ replicate (8 - length a - length b) 0 @ b) else None
           | _ \<Rightarrow> None))"

definition word128 :: "nat list \<Rightarrow> 128 word" where
  "word128 gs = fold (\<lambda>g w. w * 65536 + of_nat g) gs 0"

text \<open>\<open>isIP(s)\<close>, with the address.\<close>

definition parse_address :: "string \<Rightarrow> address option" where
  "parse_address s =
     (case parse_v4 s of Some n \<Rightarrow> Some (V4 (of_nat n)) | None \<Rightarrow> map_option (\<lambda>gs. V6 (word128 gs)) (parse_v6 s))"

section \<open>Lists of networks\<close>

text \<open>
  \<open>BlockList\<close> compares an address of version 4 with networks of version 6, and the other way round, as the
  address \<open>::ffff:a.b.c.d\<close> it is mapped to.
\<close>

type_synonym subnet = "128 word \<times> nat"

definition mapped :: "32 word \<Rightarrow> 128 word" where
  "mapped a = 0xFFFF00000000 + ucast a"

fun wide :: "address \<Rightarrow> 128 word" where
  "wide (V4 a) = mapped a"
| "wide (V6 a) = a"

fun addSubnet :: "address \<Rightarrow> nat \<Rightarrow> subnet" where
  "addSubnet (V4 a) bits = (mapped a, bits + 96)"
| "addSubnet (V6 a) bits = (a, bits)"

fun addAddress :: "address \<Rightarrow> subnet" where
  "addAddress (V4 a) = (mapped a, 128)"
| "addAddress (V6 a) = (a, 128)"

fun in_subnet :: "128 word \<Rightarrow> subnet \<Rightarrow> bool" where
  "in_subnet a (net, bits) = (drop_bit (128 - bits) a = drop_bit (128 - bits) net)"

definition check_list :: "subnet list \<Rightarrow> address \<Rightarrow> bool" where
  "check_list l a \<longleftrightarrow> list_ex (in_subnet (wide a)) l"

definition blockList :: "(string \<times> nat) list \<Rightarrow> (string \<times> nat) list \<Rightarrow> subnet list" where
  "blockList v4 v6 = map (\<lambda>(net, bits). addSubnet (the (parse_address net)) bits) (v4 @ v6)"

definition HARD_BLOCKED :: "subnet list" where
  "HARD_BLOCKED = blockList
     [(''0.0.0.0'', 8), (''169.254.0.0'', 16), (''224.0.0.0'', 4), (''240.0.0.0'', 4)]
     [(''::'', 128), (''fe80::'', 10), (''ff00::'', 8)]"

definition INTERNAL :: "subnet list" where
  "INTERNAL = blockList
     [(''10.0.0.0'', 8), (''100.64.0.0'', 10), (''127.0.0.0'', 8), (''172.16.0.0'', 12), (''192.0.0.0'', 24), (''192.0.2.0'', 24),
      (''192.168.0.0'', 16), (''198.18.0.0'', 15), (''198.51.100.0'', 24), (''203.0.113.0'', 24)]
     [(''::1'', 128), (''fc00::'', 7), (''fec0::'', 10), (''2001:db8::'', 32), (''2002::'', 16), (''64:ff9b::'', 96)]"

section \<open>The policy\<close>

record url_policy =
  up_allowHttp :: bool
  up_allowedHosts :: "string list"

definition STRICT_WEBHOOK_URL_POLICY :: url_policy where
  "STRICT_WEBHOOK_URL_POLICY = \<lparr>up_allowHttp = False, up_allowedHosts = []\<rparr>"

record allow_list =
  al_addresses :: "subnet list"
  al_hosts :: "string list"

text \<open>The two messages of \<open>buildAllowList\<close>, which name the entry.\<close>

datatype allow_error = NotARange string | NotAHost string

definition host_char :: "char \<Rightarrow> bool" where
  "host_char c \<longleftrightarrow> (let n = of_char c :: nat in 97 \<le> n \<and> n \<le> 122 \<or> 48 \<le> n \<and> n \<le> 57)"

definition host_name :: "string \<Rightarrow> bool" where
  "host_name h \<longleftrightarrow> h \<noteq> [] \<and> host_char (hd h) \<and> host_char (last h) \<and>
     list_all (\<lambda>c. host_char c \<or> c = CHR ''.'' \<or> c = CHR ''-'') h"

definition address_bits :: "address \<Rightarrow> nat" where
  "address_bits a = (case a of V4 w \<Rightarrow> 32 | V6 w \<Rightarrow> 128)"

definition add_entry :: "string \<Rightarrow> allow_list \<Rightarrow> allow_error + allow_list" where
  "add_entry raw l =
     (let entry = js_lower (js_trim raw) in
      if entry = [] then Inr l
      else
        (let parts = split_on (CHR ''/'') entry in
         case parse_address (hd parts) of
           Some a \<Rightarrow>
             (case tl parts of
                [] \<Rightarrow> Inr (l\<lparr>al_addresses := addAddress a # al_addresses l\<rparr>)
              | [bits] \<Rightarrow>
                  if \<not> (bits \<noteq> [] \<and> length bits \<le> 3 \<and> list_all digit bits) \<or> number_of bits > address_bits a
                  then Inl (NotARange raw)
                  else Inr (l\<lparr>al_addresses := addSubnet a (number_of bits) # al_addresses l\<rparr>)
              | _ \<Rightarrow> Inl (NotARange raw))
         | None \<Rightarrow>
             if CHR ''/'' \<in> set entry \<or> \<not> host_name entry then Inl (NotAHost raw)
             else Inr (l\<lparr>al_hosts := entry # al_hosts l\<rparr>)))"

fun add_entries :: "string list \<Rightarrow> allow_list \<Rightarrow> allow_error + allow_list" where
  "add_entries [] l = Inr l"
| "add_entries (raw # rs) l = (case add_entry raw l of Inl e \<Rightarrow> Inl e | Inr l' \<Rightarrow> add_entries rs l')"

definition buildAllowList :: "string list \<Rightarrow> allow_error + allow_list" where
  "buildAllowList entries = add_entries entries \<lparr>al_addresses = [], al_hosts = []\<rparr>"

definition describeAllowListProblem :: "string list \<Rightarrow> allow_error option" where
  "describeAllowListProblem entries = (case buildAllowList entries of Inl e \<Rightarrow> Some e | Inr l \<Rightarrow> None)"

text \<open>A list with a bad entry makes the check itself throw.\<close>

definition isBlockedAddress :: "string \<Rightarrow> url_policy \<Rightarrow> string option \<Rightarrow> allow_error + bool" where
  "isBlockedAddress address policy hostname =
     (case parse_address address of
        None \<Rightarrow> Inr True
      | Some a \<Rightarrow>
          if check_list HARD_BLOCKED a then Inr True
          else if \<not> check_list INTERNAL a then Inr False
          else
            (case buildAllowList (up_allowedHosts policy) of
               Inl e \<Rightarrow> Inl e
             | Inr allowed \<Rightarrow>
                 if check_list (al_addresses allowed) a then Inr False
                 else Inr (\<not> (case hostname of None \<Rightarrow> False | Some h \<Rightarrow> js_lower h \<in> set (al_hosts allowed)))))"

section \<open>URLs\<close>

record url =
  ul_protocol :: string
  ul_username :: string
  ul_password :: string
  ul_hostname :: string

datatype url_error = UrlNotValid | WrongScheme bool | HasCredentials | AddressNotAllowed | NotResolved | BadAllowList allow_error

text \<open>The URL parser gives nothing where \<open>new URL\<close> throws; the resolver where it rejects.\<close>

type_synonym url_parser = "string \<Rightarrow> url option"
type_synonym host_resolver = "string \<Rightarrow> string list option"

definition bareHostname :: "url \<Rightarrow> string" where
  "bareHostname u =
     (let h = ul_hostname u;
          h1 = (if h \<noteq> [] \<and> hd h = CHR ''['' then tl h else h);
          h2 = (if h1 \<noteq> [] \<and> last h1 = CHR '']'' then butlast h1 else h1)
      in js_lower h2)"

definition parseWebhookUrl :: "url_parser \<Rightarrow> string \<Rightarrow> url_policy \<Rightarrow> url_error + url" where
  "parseWebhookUrl parser raw policy =
     (case parser raw of
        None \<Rightarrow> Inl UrlNotValid
      | Some u \<Rightarrow>
          if ul_protocol u \<noteq> ''https:'' \<and> \<not> (ul_protocol u = ''http:'' \<and> up_allowHttp policy) then Inl (WrongScheme (up_allowHttp policy))
          else if ul_username u \<noteq> [] \<or> ul_password u \<noteq> [] then Inl HasCredentials
          else
            (let host = bareHostname u in
             if parse_address host \<noteq> None then
               (case isBlockedAddress host policy None of
                  Inl e \<Rightarrow> Inl (BadAllowList e)
                | Inr True \<Rightarrow> Inl AddressNotAllowed
                | Inr False \<Rightarrow> Inr u)
             else if host = ''localhost'' \<or> ends_with ''.localhost'' host then
               (case buildAllowList (up_allowedHosts policy) of
                  Inl e \<Rightarrow> Inl (BadAllowList e)
                | Inr allowed \<Rightarrow> if host \<notin> set (al_hosts allowed) then Inl AddressNotAllowed else Inr u)
             else Inr u))"

text \<open>\<open>addresses.some(\<dots>)\<close>: up to the first that is blocked.\<close>

fun some_blocked :: "url_policy \<Rightarrow> string \<Rightarrow> string list \<Rightarrow> allow_error + bool" where
  "some_blocked policy host [] = Inr False"
| "some_blocked policy host (a # as) =
     (case isBlockedAddress a policy (Some host) of Inr False \<Rightarrow> some_blocked policy host as | r \<Rightarrow> r)"

definition resolveWebhookTarget ::
  "url_parser \<Rightarrow> host_resolver \<Rightarrow> string \<Rightarrow> url_policy \<Rightarrow> url_error + url \<times> string list" where
  "resolveWebhookTarget parser resolver raw policy =
     (case parseWebhookUrl parser raw policy of
        Inl e \<Rightarrow> Inl e
      | Inr u \<Rightarrow>
          (let host = bareHostname u in
           if parse_address host \<noteq> None then Inr (u, [host])
           else
             (case resolver host of
                None \<Rightarrow> Inl NotResolved
              | Some addresses \<Rightarrow>
                  if addresses = [] then Inl NotResolved
                  else
                    (case some_blocked policy host addresses of
                       Inl e \<Rightarrow> Inl (BadAllowList e)
                     | Inr True \<Rightarrow> Inl AddressNotAllowed
                     | Inr False \<Rightarrow> Inr (u, addresses)))))"

definition parseAllowedHostsEnv :: "string option \<Rightarrow> string list" where
  "parseAllowedHostsEnv v =
     filter (\<lambda>s. s \<noteq> []) (map js_trim (split_on (CHR '','') (case v of None \<Rightarrow> [] | Some s \<Rightarrow> s)))"

section \<open>Sending\<close>

record webhook_request =
  wr_method :: string
  wr_headers :: "(string \<times> string) list"
  wr_body :: string

record webhook_response =
  ws_ok :: bool
  ws_status :: nat

text \<open>One request to one address: the status of the answer, or an error and whether there was a connection.\<close>

type_synonym sender = "url \<Rightarrow> string \<Rightarrow> webhook_request \<Rightarrow> bool + nat"

datatype fetch_error = RefusedUrl url_error | SendFailed

text \<open>The addresses one after the other; with the answer, those that a request was sent to.\<close>

fun try_addresses :: "sender \<Rightarrow> url \<Rightarrow> webhook_request \<Rightarrow> string list \<Rightarrow> (fetch_error + webhook_response) \<times> string list" where
  "try_addresses send u rq [] = (Inl SendFailed, [])"
| "try_addresses send u rq (a # as) =
     (case send u a rq of
        Inr status \<Rightarrow> (Inr \<lparr>ws_ok = (200 \<le> status \<and> status < 300), ws_status = status\<rparr>, [a])
      | Inl True \<Rightarrow> (Inl SendFailed, [a])
      | Inl False \<Rightarrow> (case try_addresses send u rq as of (r, tried) \<Rightarrow> (r, a # tried)))"

definition safe_fetch ::
  "url_parser \<Rightarrow> host_resolver \<Rightarrow> sender \<Rightarrow> url_policy \<Rightarrow> string \<Rightarrow> webhook_request \<Rightarrow> (fetch_error + webhook_response) \<times> string list" where
  "safe_fetch parser resolver send policy raw rq =
     (case resolveWebhookTarget parser resolver raw policy of
        Inl e \<Rightarrow> (Inl (RefusedUrl e), [])
      | Inr (u, addresses) \<Rightarrow> try_addresses send u rq addresses)"

section \<open>The networks as ranges\<close>

lemma unat_mapped: "unat (mapped a) = 0xFFFF00000000 + unat a"
proof -
  have "unat a < 2 ^ 32" using unsigned_less[of a, where 'a = nat] by simp
  then have "unat (0xFFFF00000000 :: 128 word) + unat (ucast a :: 128 word) < 2 ^ 128"
    by (simp add: unsigned_ucast_eq take_bit_nat_eq_self)
  then show ?thesis using \<open>unat a < 2 ^ 32\<close> by (simp add: mapped_def unat_word_ariths unsigned_ucast_eq take_bit_nat_eq_self)
qed

lemma in_subnet_div: "in_subnet a (net, bits) \<longleftrightarrow> unat a div 2 ^ (128 - bits) = unat net div 2 ^ (128 - bits)"
  unfolding in_subnet.simps word_unat_eq_iff unat_drop_bit_eq by (simp add: drop_bit_eq_div)

lemmas address_eval = blockList_def parse_address_def parse_v4_def octet_def digit_def number_of_def digit_value_def parse_v6_def
  address_part_def hex_group_def hex_value_def word128_def mapped_def Let_def

lemma fold_zeros: "fold f (replicate (numeral k) x) a = fold f (replicate (pred_numeral k) x) (f x a)"
  by (simp add: numeral_eq_Suc del: fold_replicate)

lemma hard_blocked_eval: "HARD_BLOCKED =
  [(0xFFFF00000000, 104), (0xFFFFA9FE0000, 112), (0xFFFFE0000000, 100), (0xFFFFF0000000, 100),
   (0, 128), (0xFE800000000000000000000000000000, 10), (0xFF000000000000000000000000000000, 8)]"
  by (simp add: HARD_BLOCKED_def address_eval fold_zeros del: fold_replicate)

lemma internal_eval: "INTERNAL =
  [(0xFFFF0A000000, 104), (0xFFFF64400000, 106), (0xFFFF7F000000, 104), (0xFFFFAC100000, 108), (0xFFFFC0000000, 120),
   (0xFFFFC0000200, 120), (0xFFFFC0A80000, 112), (0xFFFFC6120000, 111), (0xFFFFC6336400, 120), (0xFFFFCB007100, 120),
   (1, 128), (0xFC000000000000000000000000000000, 7), (0xFEC00000000000000000000000000000, 10),
   (0x20010DB8000000000000000000000000, 32), (0x20020000000000000000000000000000, 16), (0x64FF9B000000000000000000000000, 96)]"
  by (simp add: INTERNAL_def address_eval fold_zeros del: fold_replicate)

text \<open>The IPv4 addresses of each network: the first, and the first after the last.\<close>

definition never_reached :: "(nat \<times> nat) list" where
  "never_reached = [(0, 0x01000000), (0xA9FE0000, 0xA9FF0000), (0xE0000000, 0xF0000000), (0xF0000000, 0x100000000)]"

definition internal_ranges :: "(nat \<times> nat) list" where
  "internal_ranges = [(0x0A000000, 0x0B000000), (0x64400000, 0x64800000), (0x7F000000, 0x80000000), (0xAC100000, 0xAC200000),
     (0xC0000000, 0xC0000100), (0xC0000200, 0xC0000300), (0xC0A80000, 0xC0A90000), (0xC6120000, 0xC6140000),
     (0xC6336400, 0xC6336500), (0xCB007100, 0xCB007200)]"

definition within_ranges :: "(nat \<times> nat) list \<Rightarrow> nat \<Rightarrow> bool" where
  "within_ranges rs n \<longleftrightarrow> list_ex (\<lambda>(lo, hi). lo \<le> n \<and> n < hi) rs"

lemma div_range:
  assumes "0 < k"
  shows "(n :: nat) div k = m \<longleftrightarrow> m * k \<le> n \<and> n < (m + 1) * k"
proof
  assume "n div k = m"
  then show "m * k \<le> n \<and> n < (m + 1) * k" using assms dividend_less_div_times[of k n] div_times_less_eq_dividend[of n k] by auto
next
  assume "m * k \<le> n \<and> n < (m + 1) * k"
  then show "n div k = m" by (intro div_nat_eqI) (auto simp: mult.commute)
qed

lemma hard_ranges: "check_list HARD_BLOCKED (V4 a) \<longleftrightarrow> within_ranges never_reached (unat a)"
proof -
  have "unat a < 0x100000000" using unsigned_less[of a, where 'a = nat] by simp
  then show ?thesis
    by (simp add: check_list_def hard_blocked_eval within_ranges_def never_reached_def in_subnet_div unat_mapped div_range del: in_subnet.simps)
qed

lemma internal_ranges_ok: "check_list INTERNAL (V4 a) \<longleftrightarrow> within_ranges internal_ranges (unat a)"
proof -
  have "unat a < 0x100000000" using unsigned_less[of a, where 'a = nat] by simp
  then show ?thesis
    by (simp add: check_list_def internal_eval within_ranges_def internal_ranges_def in_subnet_div unat_mapped div_range del: in_subnet.simps)
qed

section \<open>Written addresses\<close>

text \<open>The dotted notation of an address.\<close>

definition dotted :: "32 word \<Rightarrow> string" where
  "dotted a = (let n = unat a in decimal (n div 0x1000000) @ ''.'' @ decimal (n div 0x10000 mod 256) @ ''.'' @
     decimal (n div 256 mod 256) @ ''.'' @ decimal (n mod 256))"

lemma decimal_small: "n < 256 \<Longrightarrow> octet (decimal n) = Some n"
proof -
  assume n: "n < 256"
  have d: "decimal n = (if n < 10 then [char_of (48 + n)] else if n < 100 then [char_of (48 + n div 10), char_of (48 + n mod 10)]
      else [char_of (48 + n div 100), char_of (48 + n div 10 mod 10), char_of (48 + n mod 10)])"
  proof -
    have "n div 10 div 10 = n div 100" "n < 100 \<Longrightarrow> n div 10 < 10" "\<not> n < 100 \<Longrightarrow> \<not> n div 10 < 10" "n div 100 < 10"
      using n by auto
    then show ?thesis by (simp add: decimal.simps[of n] decimal.simps[of "n div 10"] decimal.simps[of "n div 100"])
  qed
  have "length (decimal n) \<le> 3" by (simp add: d)
  moreover have "hd (decimal n) = CHR ''0'' \<longrightarrow> length (decimal n) = 1"
  proof -
    have zero: "m = 0" if "m < 10" "char_of (48 + m) = CHR ''0''" for m :: nat
    proof -
      have "digit_value (char_of (48 + m)) = m" using digit_char[OF that(1)] by simp
      then show ?thesis unfolding that(2) by (simp add: digit_value_def)
    qed
    have "n < 100 \<Longrightarrow> n div 10 < 10" "n div 100 < 10" "\<not> n < 10 \<Longrightarrow> n div 10 \<noteq> 0" "\<not> n < 100 \<Longrightarrow> n div 100 \<noteq> 0"
      using n by (auto simp: div_eq_0_iff)
    with zero[of "n div 10"] zero[of "n div 100"] show ?thesis unfolding d by auto
  qed
  ultimately show ?thesis using decimal_digits[of n] n by (simp add: octet_def)
qed

lemma decimal_chars: "c \<in> set (decimal n) \<Longrightarrow> digit c"
  using decimal_digits[of n] by (simp add: list_all_iff)

lemma decimal_split: "CHR ''.'' \<notin> set (decimal n)" "CHR '':'' \<notin> set (decimal n)"
  using decimal_chars[of "CHR ''.''" n] decimal_chars[of "CHR '':''" n] by (auto simp: digit_def Let_def)

lemma parse_dotted: "parse_v4 (dotted a) = Some (unat a)"
proof -
  let ?n = "unat a"
  have n: "?n < 0x100000000" using unsigned_less[of a, where 'a = nat] by simp
  have s: "split_on (CHR ''.'') (decimal x @ CHR ''.'' # r) = decimal x # split_on (CHR ''.'') r" for x r
    by (simp add: split_on_append split_on_none decimal_split)
  have "?n div 0x1000000 < 256" using n by (simp add: div_less_iff_less_mult less_mult_imp_div_less)
  moreover have "((?n div 0x1000000 * 256 + ?n div 0x10000 mod 256) * 256 + ?n div 256 mod 256) * 256 + ?n mod 256 = ?n"
  proof -
    have "?n div 0x10000 = ?n div 256 div 256" "?n div 0x1000000 = ?n div 256 div 256 div 256" by (simp_all add: div_mult2_eq[symmetric])
    then show ?thesis by (simp only: div_mult_mod_eq)
  qed
  ultimately show ?thesis
    by (simp add: parse_v4_def dotted_def Let_def s split_on_none decimal_split decimal_small)
qed

lemma parse_address_dotted: "parse_address (dotted a) = Some (V4 a)"
  by (simp add: parse_address_def parse_dotted)

lemma hex_no_dot: "CHR ''.'' \<in> set t \<Longrightarrow> hex_group t = None"
  by (auto simp: hex_group_def hex_value_def list_all_iff intro: bexI[of _ "CHR ''.''"])

lemma parse_mapped: "parse_address (''::ffff:'' @ dotted a) = Some (V6 (mapped a))"
proof -
  let ?n = "unat a"
  have n: "?n < 0x100000000" using unsigned_less[of a, where 'a = nat] by simp
  have c: "CHR '':'' \<notin> set (dotted a)" by (simp add: dotted_def Let_def decimal_split)
  have dot: "CHR ''.'' \<in> set (dotted a)" by (simp add: dotted_def Let_def)
  have "octet (''::ffff:'' @ r) = None" for r by (simp add: octet_def digit_def)
  then have v4: "parse_v4 (''::ffff:'' @ dotted a) = None"
    by (simp add: parse_v4_def dotted_def Let_def octet_def digit_def split: list.splits)
  have w: "word128 [0, 0, 0, 0, 0, 65535, ?n div 65536, ?n mod 65536] = mapped a"
  proof -
    have "word128 [0, 0, 0, 0, 0, 65535, d, m] = of_nat (65535 * 4294967296 + (d * 65536 + m))" for d m
      by (simp add: word128_def)
    then have "word128 [0, 0, 0, 0, 0, 65535, ?n div 65536, ?n mod 65536] = of_nat (65535 * 4294967296 + ?n)"
      by (simp only: div_mult_mod_eq)
    then have "unat (word128 [0, 0, 0, 0, 0, 65535, ?n div 65536, ?n mod 65536]) = (65535 * 4294967296 + ?n) mod 2 ^ 128"
      by (simp only: unat_of_nat) simp
    then show ?thesis using n by (simp add: word_unat_eq_iff unat_mapped)
  qed
  have z: "replicate 5 (0 :: nat) = [0, 0, 0, 0, 0]" by (simp add: numeral_eq_Suc)
  show ?thesis
    using v4 c dot z by (simp add: parse_address_def parse_v6_def address_part_def split_on_none parse_dotted hex_group_def hex_value_def w)
qed

section \<open>What may be reached\<close>

text \<open>
  C23. The policy without exceptions blocks an IPv4 address exactly if it lies in one of the ranges of the tables,
  written as numbers; its notation as an IPv6 address is treated alike; and a text that is no address is blocked.
\<close>

theorem strict_policy_is_its_ranges:
  "isBlockedAddress (dotted a) STRICT_WEBHOOK_URL_POLICY h = Inr (within_ranges (never_reached @ internal_ranges) (unat a)) \<and>
   isBlockedAddress (''::ffff:'' @ dotted a) STRICT_WEBHOOK_URL_POLICY h =
     isBlockedAddress (dotted a) STRICT_WEBHOOK_URL_POLICY h"
proof -
  have "buildAllowList (up_allowedHosts STRICT_WEBHOOK_URL_POLICY) = Inr \<lparr>al_addresses = [], al_hosts = []\<rparr>"
    by (simp add: STRICT_WEBHOOK_URL_POLICY_def buildAllowList_def)
  moreover have "check_list l (V6 (mapped a)) = check_list l (V4 a)" "\<not> check_list [] (V4 a)" for l by (simp_all add: check_list_def)
  moreover have "within_ranges (never_reached @ internal_ranges) n \<longleftrightarrow> within_ranges never_reached n \<or> within_ranges internal_ranges n" for n
    by (simp add: within_ranges_def)
  ultimately show ?thesis
    unfolding isBlockedAddress_def parse_address_dotted parse_mapped by (simp add: hard_ranges internal_ranges_ok split: option.splits)
qed

lemma lower_lower: "js_lower (js_lower s) = js_lower s"
proof -
  have "js_lower_char (js_lower_char c) = js_lower_char c" for c
  proof -
    have "(of_char (char_of (of_char c + 32 :: nat)) :: nat) = of_char c + 32" if "(of_char c :: nat) \<le> 222"
      using that by simp
    then show ?thesis by (auto simp: js_lower_char_def Let_def)
  qed
  then show ?thesis by (simp add: js_lower_def)
qed

definition trusted :: "url_policy \<Rightarrow> string \<Rightarrow> address \<Rightarrow> bool" where
  "trusted policy host a \<longleftrightarrow> (case buildAllowList (up_allowedHosts policy) of Inl e \<Rightarrow> False
     | Inr allowed \<Rightarrow> check_list (al_addresses allowed) a \<or> host \<in> set (al_hosts allowed))"

definition reachable :: "url_policy \<Rightarrow> string \<Rightarrow> string \<Rightarrow> bool" where
  "reachable policy host s \<longleftrightarrow> (case parse_address s of None \<Rightarrow> False
     | Some a \<Rightarrow> \<not> check_list HARD_BLOCKED a \<and> (check_list INTERNAL a \<longrightarrow> trusted policy host a))"

lemma unblocked: "isBlockedAddress s policy h = Inr False \<Longrightarrow> h \<in> {None, Some host} \<Longrightarrow> js_lower host = host \<Longrightarrow> reachable policy host s"
  by (auto simp: isBlockedAddress_def reachable_def trusted_def split: option.splits if_splits sum.splits)

lemma none_blocked: "some_blocked policy host as = Inr False \<Longrightarrow> js_lower host = host \<Longrightarrow> list_all (reachable policy host) as"
  by (induction as) (auto split: sum.splits bool.splits intro: unblocked)

lemma bare_lower: "js_lower (bareHostname u) = bareHostname u"
  by (simp add: bareHostname_def Let_def lower_lower)

lemma resolved_reachable:
  assumes "resolveWebhookTarget parser resolver raw policy = Inr (u, as)"
  shows "parser raw = Some u \<and> list_all (reachable policy (bareHostname u)) as \<and>
    (as = [bareHostname u] \<or> resolver (bareHostname u) = Some as) \<and> (ul_protocol u = ''https:'' \<or> up_allowHttp policy)"
proof -
  from assms obtain v where v: "parseWebhookUrl parser raw policy = Inr v" by (auto simp: resolveWebhookTarget_def split: sum.splits)
  from v have p: "parser raw = Some v" "ul_protocol v = ''https:'' \<or> up_allowHttp policy"
    "parse_address (bareHostname v) \<noteq> None \<Longrightarrow> isBlockedAddress (bareHostname v) policy None = Inr False"
    by (auto simp: parseWebhookUrl_def Let_def split: option.splits if_splits sum.splits bool.splits)
  show ?thesis
  proof (cases "parse_address (bareHostname v) = None")
    case True
    with assms v have "u = v" "resolver (bareHostname v) = Some as" "some_blocked policy (bareHostname v) as = Inr False"
      by (auto simp: resolveWebhookTarget_def Let_def split: option.splits if_splits sum.splits bool.splits)
    with p none_blocked[OF _ bare_lower] show ?thesis by auto
  next
    case False
    with assms v have "u = v" "as = [bareHostname v]" by (auto simp: resolveWebhookTarget_def Let_def)
    with p(1,2) p(3)[OF False] unblocked[OF _ _ bare_lower] show ?thesis by auto
  qed
qed

lemma tried_subset: "set (snd (try_addresses send u rq as)) \<subseteq> set as"
  by (induction as) (auto split: sum.splits bool.splits prod.splits)

text \<open>
  C22. Whatever a URL says and a name resolves to, a delivery only ever connects to addresses that are not in the
  networks no one may reach, and to internal ones only if the operator allowed the address or the host; and each
  is the host of the URL itself or was in the one answer of the resolver that was checked.
\<close>

theorem deliveries_stay_outside:
  assumes "a \<in> set (snd (safe_fetch parser resolver send policy raw rq))"
  shows "\<exists>u. parser raw = Some u \<and> (ul_protocol u = ''https:'' \<or> up_allowHttp policy) \<and> reachable policy (bareHostname u) a \<and>
    (a = bareHostname u \<or> (\<exists>answer. resolver (bareHostname u) = Some answer \<and> a \<in> set answer \<and>
      list_all (reachable policy (bareHostname u)) answer))"
proof -
  from assms obtain u as where r: "resolveWebhookTarget parser resolver raw policy = Inr (u, as)"
    and "a \<in> set (snd (try_addresses send u rq as))"
    by (auto simp: safe_fetch_def split: sum.splits)
  with tried_subset have "a \<in> set as" by blast
  with resolved_reachable[OF r] show ?thesis by (auto simp: list_all_iff)
qed

definition sample_url :: url where
  "sample_url = \<lparr>ul_protocol = ''https:'', ul_username = [], ul_password = [], ul_hostname = ''hooks.test''\<rparr>"

definition trusting :: url_policy where
  "trusting = \<lparr>up_allowHttp = False, up_allowedHosts = ['' 10.1.0.0/16 '']\<rparr>"

text \<open>A name with a public and an allowed internal address: the first does not answer, the second is tried.\<close>

theorem deliveries_stay_outside_witness:
  "''10.1.2.3'' \<in> set (snd (safe_fetch (\<lambda>_. Some sample_url) (\<lambda>_. Some [''8.8.8.8'', ''10.1.2.3'']) (\<lambda>_ a _. if a = ''8.8.8.8'' then Inl False else Inr 200)
     trusting ''https://hooks.test'' \<lparr>wr_method = ''POST'', wr_headers = [], wr_body = []\<rparr>)) \<and>
   reachable trusting ''hooks.test'' ''10.1.2.3''"
proof -
  let ?tried = "snd (safe_fetch (\<lambda>_. Some sample_url) (\<lambda>_. Some [''8.8.8.8'', ''10.1.2.3'']) (\<lambda>_ a _. if a = ''8.8.8.8'' then Inl False else Inr 200)
     trusting ''https://hooks.test'' \<lparr>wr_method = ''POST'', wr_headers = [], wr_body = []\<rparr>)"
  have b: "bareHostname sample_url = ''hooks.test''"
    by (simp add: bareHostname_def sample_url_def js_lower_def js_lower_char_def Let_def)
  have l: "buildAllowList (up_allowedHosts trusting) = Inr \<lparr>al_addresses = [(0xFFFF0A010000, 112)], al_hosts = []\<rparr>"
    by (simp add: buildAllowList_def trusting_def add_entry_def js_lower_def js_lower_char_def js_trim_def js_space_def address_bits_def address_eval)
  have n: "parse_address ''hooks.test'' = None" by (simp add: address_eval)
  have "isBlockedAddress ''8.8.8.8'' trusting (Some ''hooks.test'') = Inr False" "isBlockedAddress ''10.1.2.3'' trusting (Some ''hooks.test'') = Inr False"
    by (simp_all add: isBlockedAddress_def l check_list_def hard_blocked_eval internal_eval address_eval)
  then have t: "''10.1.2.3'' \<in> set ?tried"
    by (simp add: safe_fetch_def resolveWebhookTarget_def parseWebhookUrl_def b n ends_with_def) (simp add: sample_url_def)
  from deliveries_stay_outside[OF this] b t show ?thesis by auto
qed

end
