(* ===== verification/Event_Delivery.thy ===== *)
theory Event_Delivery
  imports Url_Policy Postgres_Store Platform_Api Background_Actors
begin

text \<open>
  Where the events of the engine go: \<open>InMemoryEventBus.ts\<close> of the core; the hub that tags each event with its
  tenant, the event log, the routes that read it, the webhooks with their store, routes and dispatcher, and the
  two built-in handlers of service tasks of the app. A subscriber is a number; a wrapper a method makes
  around one carries a serial number of its own, as two wrappers are never the same function. Subscribers do
  not subscribe or unsubscribe while they are called.
\<close>

section \<open>What the events carry\<close>

text \<open>\<open>'instanceId' in event\<close>.\<close>

fun extractInstanceId :: "execution_event \<Rightarrow> string option" where
  "extractInstanceId (ProcessInstanceStarted i _ _) = Some i"
| "extractInstanceId (ProcessInstanceCompleted i _) = Some i"
| "extractInstanceId (ProcessInstanceTerminated i _) = Some i"
| "extractInstanceId (ProcessInstanceRestarted i _) = Some i"
| "extractInstanceId (ProcessInstanceSuspended i) = Some i"
| "extractInstanceId (ProcessInstanceResumed i) = Some i"
| "extractInstanceId (ProcessInstanceFaulted i _ _) = Some i"
| "extractInstanceId (TokenMoved i _ _ _ _) = Some i"
| "extractInstanceId (TokenWaiting i _ _ _) = Some i"
| "extractInstanceId (TokenCancelled i _ _) = Some i"
| "extractInstanceId (UserTaskCreated _ i _ _) = Some i"
| "extractInstanceId (ServiceTaskStarted i _ _ _) = Some i"
| "extractInstanceId (ServiceTaskCompleted i _ _ _) = Some i"
| "extractInstanceId (ServiceTaskFailed i _ _ _ _) = Some i"
| "extractInstanceId (MessageDelivered _ i _) = Some i"
| "extractInstanceId (ErrorThrown i _ _ _) = Some i"
| "extractInstanceId (TimerFired i _ _) = Some i"
| "extractInstanceId (BoundaryEventTriggered i _ _ _) = Some i"
| "extractInstanceId (CallActivityStarted i _ _) = Some i"
| "extractInstanceId (CallActivityCompleted i _ _) = Some i"
| "extractInstanceId (EventBasedGatewayActivated i _ _ _) = Some i"
| "extractInstanceId (MultiInstanceStarted i _ _ _ _) = Some i"
| "extractInstanceId (MultiInstanceCompleted i _ _ _) = Some i"
| "extractInstanceId (CompensationTriggered i _ _ _ _) = Some i"
| "extractInstanceId (CompensationCompleted i _ _) = Some i"
| "extractInstanceId (SubProcessStarted i _ _) = Some i"
| "extractInstanceId (SubProcessCompleted i _ _) = Some i"
| "extractInstanceId (TransactionCancelled i _ _ _) = Some i"
| "extractInstanceId (StepForced i _ _ _ _ _ _) = Some i"
| "extractInstanceId _ = None"

section \<open>The bus in memory\<close>

datatype subscriber = Whole nat | OfType nat string nat

record event_bus =
  bu_handlers :: "subscriber list"
  bu_published :: "execution_event list"

fun hears :: "subscriber \<Rightarrow> execution_event \<Rightarrow> nat option" where
  "hears (Whole h) e = Some h"
| "hears (OfType serial ty h) e = (if event_type e = ty then Some h else None)"

text \<open>
  The handlers one after the other, up to the first that throws: \<open>returns\<close> says whether a handler returns
  for an event. The result is the calls that were made, and whether all returned.
\<close>

fun call_all :: "(nat \<Rightarrow> execution_event \<Rightarrow> bool) \<Rightarrow> ('s \<Rightarrow> nat option) \<Rightarrow> 's list \<Rightarrow> execution_event \<Rightarrow> (nat \<times> execution_event) list \<times> bool" where
  "call_all returns who [] e = ([], True)"
| "call_all returns who (s # ss) e =
     (case who s of
        None \<Rightarrow> call_all returns who ss e
      | Some h \<Rightarrow> if \<not> returns h e then ([(h, e)], False)
          else (case call_all returns who ss e of (calls, fine) \<Rightarrow> ((h, e) # calls, fine)))"

definition bus_publish :: "(nat \<Rightarrow> execution_event \<Rightarrow> bool) \<Rightarrow> execution_event \<Rightarrow> event_bus \<Rightarrow> ((nat \<times> execution_event) list \<times> bool) \<times> event_bus" where
  "bus_publish returns e b =
     (call_all returns (\<lambda>s. hears s e) (bu_handlers b) e, b\<lparr>bu_published := bu_published b @ [e]\<rparr>)"

fun bus_publishMany :: "(nat \<Rightarrow> execution_event \<Rightarrow> bool) \<Rightarrow> execution_event list \<Rightarrow> event_bus \<Rightarrow> ((nat \<times> execution_event) list \<times> bool) \<times> event_bus" where
  "bus_publishMany returns [] b = (([], True), b)"
| "bus_publishMany returns (e # es) b =
     (case bus_publish returns e b of
        ((calls, fine), b1) \<Rightarrow>
          if \<not> fine then ((calls, False), b1)
          else (case bus_publishMany returns es b1 of ((more_calls, done), b2) \<Rightarrow> ((calls @ more_calls, done), b2)))"

definition bus_subscribe :: "subscriber \<Rightarrow> event_bus \<Rightarrow> event_bus" where
  "bus_subscribe s b = b\<lparr>bu_handlers := bu_handlers b @ [s]\<rparr>"

definition bus_unsubscribe :: "subscriber \<Rightarrow> event_bus \<Rightarrow> event_bus" where
  "bus_unsubscribe s b = b\<lparr>bu_handlers := filter (\<lambda>h. h \<noteq> s) (bu_handlers b)\<rparr>"

definition bus_subscribeToType :: "nat \<Rightarrow> string \<Rightarrow> nat \<Rightarrow> event_bus \<Rightarrow> event_bus" where
  "bus_subscribeToType serial ty h b = bus_subscribe (OfType serial ty h) b"

definition bus_getAll :: "event_bus \<Rightarrow> execution_event list" where
  "bus_getAll b = bu_published b"

definition bus_getByType :: "string \<Rightarrow> event_bus \<Rightarrow> execution_event list" where
  "bus_getByType ty b = filter (\<lambda>e. event_type e = ty) (bu_published b)"

definition bus_reset :: "event_bus \<Rightarrow> event_bus" where
  "bus_reset b = b\<lparr>bu_published := []\<rparr>"

definition bus_clear :: "event_bus \<Rightarrow> event_bus" where
  "bus_clear b = b\<lparr>bu_handlers := [], bu_published := []\<rparr>"

section \<open>The hub of the tenants\<close>

datatype hub_subscriber = AllTenants nat | Scoped nat string nat | ScopedOfType nat string string nat

record event_hub =
  hb_handlers :: "hub_subscriber list"
  hb_buses :: "string list"

fun hub_hears :: "string \<Rightarrow> execution_event \<Rightarrow> hub_subscriber \<Rightarrow> nat option" where
  "hub_hears tenant e (AllTenants h) = Some h"
| "hub_hears tenant e (Scoped serial t h) = (if tenant = t then Some h else None)"
| "hub_hears tenant e (ScopedOfType serial t ty h) = (if tenant = t \<and> event_type e = ty then Some h else None)"

definition busFor :: "string \<Rightarrow> event_hub \<Rightarrow> event_hub option" where
  "busFor tenant hub =
     (if tenant \<in> set (hb_buses hub) then Some hub
      else if \<not> VALID_TENANT_ID tenant then None
      else Some (hub\<lparr>hb_buses := hb_buses hub @ [tenant]\<rparr>))"

definition subscribeAll :: "nat \<Rightarrow> event_hub \<Rightarrow> event_hub" where
  "subscribeAll h hub = hub\<lparr>hb_handlers := hb_handlers hub @ [AllTenants h]\<rparr>"

definition hub_unsubscribe :: "hub_subscriber \<Rightarrow> event_hub \<Rightarrow> event_hub" where
  "hub_unsubscribe s hub = hub\<lparr>hb_handlers := filter (\<lambda>h. h \<noteq> s) (hb_handlers hub)\<rparr>"

definition scoped_subscribe :: "nat \<Rightarrow> string \<Rightarrow> nat \<Rightarrow> event_hub \<Rightarrow> event_hub" where
  "scoped_subscribe serial tenant h hub = hub\<lparr>hb_handlers := hb_handlers hub @ [Scoped serial tenant h]\<rparr>"

definition scoped_subscribeToType :: "nat \<Rightarrow> string \<Rightarrow> string \<Rightarrow> nat \<Rightarrow> event_hub \<Rightarrow> event_hub" where
  "scoped_subscribeToType serial tenant ty h hub = hub\<lparr>hb_handlers := hb_handlers hub @ [ScopedOfType serial tenant ty h]\<rparr>"

text \<open>\<open>publish\<close> on the bus of a tenant.\<close>

definition hub_publish :: "(nat \<Rightarrow> execution_event \<Rightarrow> bool) \<Rightarrow> string \<Rightarrow> execution_event \<Rightarrow> event_hub \<Rightarrow> (nat \<times> execution_event) list \<times> bool" where
  "hub_publish returns tenant e hub = call_all returns (hub_hears tenant e) (hb_handlers hub) e"

fun scoped_publishMany :: "(nat \<Rightarrow> execution_event \<Rightarrow> bool) \<Rightarrow> string \<Rightarrow> execution_event list \<Rightarrow> event_hub \<Rightarrow> (nat \<times> execution_event) list \<times> bool" where
  "scoped_publishMany returns tenant [] hub = ([], True)"
| "scoped_publishMany returns tenant (e # es) hub =
     (case hub_publish returns tenant e hub of
        (calls, fine) \<Rightarrow>
          if \<not> fine then (calls, False)
          else (case scoped_publishMany returns tenant es hub of (more_calls, done) \<Rightarrow> (calls @ more_calls, done)))"

section \<open>The event log\<close>

record stored_event =
  le_id :: string
  le_instanceId :: "string option"
  le_type :: string
  le_occurredAt :: int
  le_data :: execution_event

definition log_append :: "string \<Rightarrow> int \<Rightarrow> execution_event \<Rightarrow> stored_event list \<Rightarrow> stored_event list" where
  "log_append i n e l =
     l @ [\<lparr>le_id = i, le_instanceId = extractInstanceId e, le_type = event_type e, le_occurredAt = n, le_data = e\<rparr>]"

definition getForInstance :: "string \<Rightarrow> stored_event list \<Rightarrow> stored_event list" where
  "getForInstance i l = filter (\<lambda>x. le_instanceId x = Some i) l"

text \<open>The log in Postgres: a table, read in the order of its times.\<close>

definition pg_getForInstance :: "string \<Rightarrow> stored_event list \<Rightarrow> stored_event list" where
  "pg_getForInstance i l = sort_key le_occurredAt (filter (\<lambda>x. le_instanceId x = Some i) l)"

section \<open>Watching\<close>

record metrics =
  mx_active :: nat
  mx_suspended :: nat
  mx_pending :: nat

definition instance_events :: "string \<Rightarrow> pg_store \<Rightarrow> stored_event list \<Rightarrow> (nat \<times> string) + stored_event list" where
  "instance_events i pg l = (case pg_getInstance i pg of None \<Rightarrow> Inl (404, ''NOT_FOUND'') | Some x \<Rightarrow> Inr (pg_getForInstance i l))"

definition by_status :: "instance_status \<Rightarrow> instance_query" where
  "by_status st = \<lparr>iq_definitionId = None, iq_status = Some [st], iq_correlationKey = None, iq_businessKey = None,
     iq_startedAfter = None, iq_startedBefore = None, iq_page = 0, iq_pageSize = 1\<rparr>"

definition tasks_by_status :: "user_task_status \<Rightarrow> user_task_query" where
  "tasks_by_status st = \<lparr>uq_instanceId = None, uq_assignee = None, uq_candidateGroup = None, uq_status = Some [st],
     uq_page = 0, uq_pageSize = 1\<rparr>"

definition get_metrics :: "pg_store \<Rightarrow> metrics" where
  "get_metrics pg = \<lparr>mx_active = pr_total (pg_findInstances (by_status ActiveI) pg),
     mx_suspended = pr_total (pg_findInstances (by_status SuspendedI) pg),
     mx_pending = pr_total (pg_queryUserTasks (tasks_by_status TaskOpen) pg) + pr_total (pg_queryUserTasks (tasks_by_status TaskClaimed) pg)\<rparr>"

section \<open>Webhooks\<close>

record webhook =
  wb_id :: string
  wb_url :: string
  wb_events :: "string list"
  wb_secret :: "string option"
  wb_createdAt :: int

record webhook_input =
  wi_url :: string
  wi_events :: "string list option"
  wi_secret :: "string option"

definition registration :: "string \<Rightarrow> int \<Rightarrow> webhook_input \<Rightarrow> webhook" where
  "registration i n x = \<lparr>wb_id = i, wb_url = wi_url x, wb_events = (case wi_events x of None \<Rightarrow> [] | Some es \<Rightarrow> es),
     wb_secret = wi_secret x, wb_createdAt = n\<rparr>"

text \<open>In memory: a map from the id; in Postgres: a table with the id as its key. The id and the time are arguments.\<close>

definition webhook_save :: "string \<Rightarrow> int \<Rightarrow> webhook_input \<Rightarrow> (string \<times> webhook) list \<Rightarrow> webhook \<times> (string \<times> webhook) list" where
  "webhook_save i n x m = (registration i n x, AList.update i (registration i n x) m)"

definition webhook_list :: "(string \<times> webhook) list \<Rightarrow> webhook list" where
  "webhook_list m = map_values m"

definition webhook_delete :: "string \<Rightarrow> (string \<times> webhook) list \<Rightarrow> bool \<times> (string \<times> webhook) list" where
  "webhook_delete i m = (map_of m i \<noteq> None, AList.delete i m)"

definition pg_webhook_save :: "string \<Rightarrow> int \<Rightarrow> webhook_input \<Rightarrow> webhook list \<Rightarrow> webhook \<times> webhook list" where
  "pg_webhook_save i n x rows = (registration i n x, rows @ [registration i n x])"

definition pg_webhook_list :: "webhook list \<Rightarrow> webhook list" where
  "pg_webhook_list rows = sort_key wb_createdAt rows"

definition pg_webhook_delete :: "string \<Rightarrow> webhook list \<Rightarrow> bool \<times> webhook list" where
  "pg_webhook_delete i rows = (list_ex (\<lambda>r. wb_id r = i) rows, filter (\<lambda>r. wb_id r \<noteq> i) rows)"

section \<open>Delivering\<close>

record dispatcher =
  di_maxAttempts :: nat
  di_baseRetryDelayMs :: int
  di_subscribed :: bool
  di_stopped :: bool

definition dispatcher_start :: "dispatcher \<Rightarrow> dispatcher" where
  "dispatcher_start d = (if di_subscribed d then d else d\<lparr>di_subscribed := True\<rparr>)"

definition dispatcher_stop :: "dispatcher \<Rightarrow> dispatcher" where
  "dispatcher_stop d = d\<lparr>di_stopped := True, di_subscribed := False\<rparr>"

text \<open>How an event is written, and the HMAC of a text under a secret.\<close>

record dispatch_env =
  de_json :: "execution_event \<Rightarrow> string"
  de_hmac :: "string \<Rightarrow> string \<Rightarrow> string"

definition computeSignature :: "dispatch_env \<Rightarrow> string \<Rightarrow> string \<Rightarrow> string" where
  "computeSignature env secret body = ''sha256='' @ de_hmac env secret body"

definition delivery_request :: "dispatch_env \<Rightarrow> string option \<Rightarrow> string \<Rightarrow> string \<Rightarrow> webhook_request" where
  "delivery_request env secret eventType body = \<lparr>wr_method = ''POST'',
     wr_headers = [(''Content-Type'', ''application/json''), (''X-Nexus-Event'', eventType)] @
       (if truthy secret then [(''X-Nexus-Signature'', computeSignature env (the secret) body)] else []),
     wr_body = body\<rparr>"

datatype after_attempt = Delivered | RetryIn int | GivenUp

definition after_attempt :: "dispatcher \<Rightarrow> bool \<Rightarrow> nat \<Rightarrow> after_attempt" where
  "after_attempt d fine attempt =
     (if \<not> di_stopped d \<and> \<not> fine \<and> attempt < di_maxAttempts d then RetryIn (di_baseRetryDelayMs d * 2 ^ (attempt - 1))
      else if \<not> fine then GivenUp else Delivered)"

text \<open>
  A whole delivery: \<open>answers k\<close> is whether attempt \<open>k\<close> succeeds, \<open>stops k\<close> whether the dispatcher has been
  stopped by its end. The result is the attempts made, each with what follows it.
\<close>

function deliver :: "dispatcher \<Rightarrow> (nat \<Rightarrow> bool) \<Rightarrow> (nat \<Rightarrow> bool) \<Rightarrow> nat \<Rightarrow> (nat \<times> after_attempt) list" where
  "deliver d answers stops attempt =
     (let r = after_attempt (d\<lparr>di_stopped := di_stopped d \<or> stops attempt\<rparr>) (answers attempt) attempt in
      (attempt, r) # (case r of RetryIn delay \<Rightarrow> deliver d answers stops (attempt + 1) | _ \<Rightarrow> []))"
  by pat_completeness auto
termination
  by (relation "measure (\<lambda>(d, answers, stops, attempt). di_maxAttempts d - attempt)") (auto simp: after_attempt_def split: if_splits)

declare deliver.simps [simp del]

definition matches_filter :: "string list \<Rightarrow> string \<Rightarrow> bool" where
  "matches_filter f eventType \<longleftrightarrow> f = [] \<or> eventType \<in> set f"

text \<open>The deliveries an event starts: the URL and the request of each; none if the list cannot be read.\<close>

definition dispatch_event :: "dispatch_env \<Rightarrow> (string \<Rightarrow> webhook list option) \<Rightarrow> string \<Rightarrow> execution_event \<Rightarrow> (string \<times> webhook_request) list" where
  "dispatch_event env listFor tenant e =
     (case listFor tenant of
        None \<Rightarrow> []
      | Some regs \<Rightarrow> map (\<lambda>r. (wb_url r, delivery_request env (wb_secret r) (event_type e) (de_json env e)))
          (filter (\<lambda>r. matches_filter (wb_events r) (event_type e)) regs))"

section \<open>The routes of the webhooks\<close>

datatype webhook_body = NoJson | BadBody | GoodBody webhook_input

datatype webhook_reply = WebhookFailed nat string | WebhookMade webhook | WebhooksAre "webhook list" | WebhookGone | WebhookThrew allow_error

definition create_webhook ::
  "url_parser \<Rightarrow> host_resolver \<Rightarrow> url_policy \<Rightarrow> string \<Rightarrow> int \<Rightarrow> webhook_body \<Rightarrow> webhook list \<Rightarrow> webhook_reply \<times> webhook list" where
  "create_webhook parser resolver policy i n body rows =
     (case body of
        NoJson \<Rightarrow> (WebhookFailed 400 ''INVALID_JSON'', rows)
      | BadBody \<Rightarrow> (WebhookFailed 400 ''VALIDATION_ERROR'', rows)
      | GoodBody x \<Rightarrow>
          (case resolveWebhookTarget parser resolver (wi_url x) policy of
             Inl (BadAllowList e) \<Rightarrow> (WebhookThrew e, rows)
           | Inl e \<Rightarrow> (WebhookFailed 400 ''INVALID_WEBHOOK_URL'', rows)
           | Inr t \<Rightarrow> (case pg_webhook_save i n x rows of (r, rows') \<Rightarrow> (WebhookMade r, rows'))))"

text \<open>The secret is left out of the list.\<close>

definition list_webhooks :: "webhook list \<Rightarrow> webhook_reply" where
  "list_webhooks rows = WebhooksAre (map (\<lambda>r. r\<lparr>wb_secret := None\<rparr>) (pg_webhook_list rows))"

definition delete_webhook :: "string \<Rightarrow> webhook list \<Rightarrow> webhook_reply \<times> webhook list" where
  "delete_webhook i rows =
     (case pg_webhook_delete i rows of (fine, rows') \<Rightarrow> (if fine then WebhookGone else WebhookFailed 404 ''NOT_FOUND'', rows'))"

section \<open>The built-in handlers\<close>

text \<open>\<open>fetch\<close>: the URL, the method and the body as the variables gave them, the headers; the message of an error, or status and text.\<close>

type_synonym plain_fetch = "string \<Rightarrow> jsval \<Rightarrow> jsval option \<Rightarrow> (string \<times> jsval) list \<Rightarrow> string + int \<times> string"

definition input_value :: "string \<Rightarrow> task_context \<Rightarrow> jsval" where
  "input_value k x = (case map_of (tx_variables x) k of None \<Rightarrow> JUndefined | Some v \<Rightarrow> vv_value v)"

definition http_call :: "plain_fetch \<Rightarrow> handler" where
  "http_call fetch x =
     (case input_value ''url'' x of
        JString u \<Rightarrow>
          if u = [] then AnswerError (Some (''INVALID_INPUT'', ''Missing required variable '' @ [CHR 0x27] @ ''url'' @ [CHR 0x27]))
          else
            (let m = input_value ''method'' x; b = input_value ''body'' x;
                 headers = (case input_value ''headers'' x of JObject ms \<Rightarrow> ms | _ \<Rightarrow> [])
             in case fetch u (if m = JUndefined \<or> m = JNull then JString ''GET'' else m) (if b = JUndefined then None else Some b) headers of
                  Inl message \<Rightarrow> AnswerRetry (Some (''NETWORK_ERROR'', message)) None
                | Inr (status, text) \<Rightarrow> AnswerCompleted (Some
                    [(''statusCode'', \<lparr>vv_type = VNumber, vv_value = JNumber (Finite (of_int status))\<rparr>),
                     (''responseBody'', \<lparr>vv_type = VString, vv_value = JString text\<rparr>)]))
      | _ \<Rightarrow> AnswerError (Some (''INVALID_INPUT'', ''Missing required variable '' @ [CHR 0x27] @ ''url'' @ [CHR 0x27])))"

text \<open>What \<open>LogHandler\<close> writes, and where; it always completes.\<close>

datatype log_level = ToError | ToWarn | ToLog

definition log_task :: "task_context \<Rightarrow> (log_level \<times> jsval) \<times> task_answer" where
  "log_task x =
     (let m = input_value ''message'' x; l = input_value ''level'' x in
      ((if l = JString ''error'' then ToError else if l = JString ''warn'' then ToWarn else ToLog,
        if m = JUndefined \<or> m = JNull
        then JString (''[nexus-workflow] service task '' @ [CHR 0x27] @ tx_elementId x @ [CHR 0x27] @ '' executed (instance '' @ tx_instanceId x @ '')'')
        else m),
       AnswerCompleted None))"

section \<open>The contract of the webhook stores\<close>

locale webhook_store =
  fixes save :: "string \<Rightarrow> int \<Rightarrow> webhook_input \<Rightarrow> 'st \<Rightarrow> webhook \<times> 'st"
    and listed :: "'st \<Rightarrow> webhook list"
    and delete :: "string \<Rightarrow> 'st \<Rightarrow> bool \<times> 'st"
    and sound :: "'st \<Rightarrow> bool"
  assumes save_result: "fst (save i n x st) = registration i n x"
    and save_listed: "sound st \<Longrightarrow> i \<notin> wb_id ` set (listed st) \<Longrightarrow>
      sound (snd (save i n x st)) \<and> set (listed (snd (save i n x st))) = insert (registration i n x) (set (listed st))"
    and delete_found: "sound st \<Longrightarrow> fst (delete i st) \<longleftrightarrow> i \<in> wb_id ` set (listed st)"
    and delete_listed: "sound st \<Longrightarrow>
      sound (snd (delete i st)) \<and> set (listed (snd (delete i st))) = {r \<in> set (listed st). wb_id r \<noteq> i}"
begin

lemma delete_after_save:
  assumes "sound st" "i \<notin> wb_id ` set (listed st)"
  shows "fst (delete i (snd (save i n x st)))" "set (listed (snd (delete i (snd (save i n x st))))) = set (listed st)"
proof -
  from save_listed[OF assms] have s: "sound (snd (save i n x st))"
    "set (listed (snd (save i n x st))) = insert (registration i n x) (set (listed st))" by auto
  then show "fst (delete i (snd (save i n x st)))" "set (listed (snd (delete i (snd (save i n x st))))) = set (listed st)"
    using assms(2) delete_found[OF s(1)] delete_listed[OF s(1)] by (auto simp: registration_def image_iff)
qed

lemma deleted_once:
  assumes "sound st"
  shows "\<not> fst (delete i (snd (delete i st)))"
  using delete_listed[OF assms, of i] delete_found[of "snd (delete i st)" i] by auto

end

definition keyed_webhooks :: "(string \<times> webhook) list \<Rightarrow> bool" where
  "keyed_webhooks m \<longleftrightarrow> distinct (map fst m) \<and> list_all (\<lambda>(k, r). wb_id r = k) m"

lemma keyed_update: "keyed_webhooks m \<Longrightarrow> k \<notin> fst ` set m \<Longrightarrow> AList.update k v m = m @ [(k, v)]"
  by (induction m) (auto simp: keyed_webhooks_def)

lemma keyed_ids: "keyed_webhooks m \<Longrightarrow> wb_id ` set (map_values m) = fst ` set m"
  by (force simp: keyed_webhooks_def map_values_def list_all_iff image_iff)

interpretation memory_webhooks: webhook_store webhook_save webhook_list webhook_delete keyed_webhooks
proof unfold_locales
  fix i n x st assume "keyed_webhooks st" "i \<notin> wb_id ` set (webhook_list st)"
  then show "keyed_webhooks (snd (webhook_save i n x st)) \<and>
      set (webhook_list (snd (webhook_save i n x st))) = insert (registration i n x) (set (webhook_list st))"
    by (auto simp: webhook_save_def webhook_list_def keyed_ids keyed_update)
       (auto simp: keyed_webhooks_def registration_def map_values_def)
next
  fix i st assume k: "keyed_webhooks st"
  then show "fst (webhook_delete i st) \<longleftrightarrow> i \<in> wb_id ` set (webhook_list st)"
    by (auto simp: webhook_delete_def webhook_list_def keyed_ids map_of_eq_None_iff)
  have "set (AList.delete i st) = {p \<in> set st. fst p \<noteq> i}" by (auto simp: AList.delete_eq)
  with k show "keyed_webhooks (snd (webhook_delete i st)) \<and>
      set (webhook_list (snd (webhook_delete i st))) = {r \<in> set (webhook_list st). wb_id r \<noteq> i}"
    by (auto simp: webhook_delete_def webhook_list_def keyed_webhooks_def map_values_def list_all_iff AList.distinct_delete image_iff)
qed (simp add: webhook_save_def)

interpretation postgres_webhooks: webhook_store pg_webhook_save pg_webhook_list pg_webhook_delete "\<lambda>rows. distinct (map wb_id rows)"
  by unfold_locales (auto simp: pg_webhook_save_def pg_webhook_list_def pg_webhook_delete_def registration_def list_ex_iff distinct_map_filter)

text \<open>A webhook that was made can be deleted once, and is gone then.\<close>

theorem webhooks_are_deleted_once:
  assumes "distinct (map wb_id rows)" "i \<notin> wb_id ` set rows" "create_webhook parser resolver policy i n body rows = (WebhookMade r, rows')"
  shows "fst (delete_webhook i rows') = WebhookGone \<and> set (snd (delete_webhook i rows')) = set rows \<and>
    fst (delete_webhook i (snd (delete_webhook i rows'))) = WebhookFailed 404 ''NOT_FOUND''"
proof -
  from assms(3) obtain x where r: "rows' = snd (pg_webhook_save i n x rows)"
    by (auto simp: create_webhook_def pg_webhook_save_def split: webhook_body.splits sum.splits url_error.splits)
  have l: "i \<notin> wb_id ` set (pg_webhook_list rows)" using assms(2) by (simp add: pg_webhook_list_def)
  have s: "distinct (map wb_id rows')" using postgres_webhooks.save_listed[OF assms(1) l] by (simp add: r)
  have p: "set (pg_webhook_list rs) = set rs" for rs by (simp add: pg_webhook_list_def)
  have d: "delete_webhook i rs = (if fst (pg_webhook_delete i rs) then WebhookGone else WebhookFailed 404 ''NOT_FOUND'', snd (pg_webhook_delete i rs))" for rs
    by (simp add: delete_webhook_def split_def)
  show ?thesis
    using postgres_webhooks.delete_after_save[OF assms(1) l, of n x] postgres_webhooks.deleted_once[OF s, of i]
    by (simp only: d p r fst_conv snd_conv if_True if_False simp_thms)
qed

section \<open>Tenants\<close>

definition concerns :: "string \<Rightarrow> hub_subscriber \<Rightarrow> bool" where
  "concerns tenant s \<longleftrightarrow> (case s of AllTenants h \<Rightarrow> True | Scoped serial t h \<Rightarrow> t = tenant | ScopedOfType serial t ty h \<Rightarrow> t = tenant)"

lemma call_all_filter:
  assumes "\<And>s. who s \<noteq> None \<Longrightarrow> P s"
  shows "call_all returns who ss e = call_all returns who (filter P ss) e"
proof (induction ss)
  case (Cons s ss)
  then show ?case using assms[of s] by (cases "who s") auto
qed simp

lemma call_all_members: "(h, x) \<in> set (fst (call_all returns who ss e)) \<Longrightarrow> x = e \<and> (\<exists>s \<in> set ss. who s = Some h)"
  by (induction ss) (auto split: option.splits if_splits prod.splits)

text \<open>
  C26. Events stay with their tenant: what a publication on a tenant's bus calls does not depend on the subscribers
  of other tenants; and the requests an event starts go to webhooks this tenant registered, whose filter lets
  the event through, each signed with the secret of its own registration.
\<close>

theorem events_stay_with_their_tenant:
  assumes "(u, rq) \<in> set (dispatch_event env listFor tenant e)"
  shows "hub_publish returns tenant e hub = hub_publish returns tenant e (hub\<lparr>hb_handlers := filter (concerns tenant) (hb_handlers hub)\<rparr>) \<and>
    (\<exists>regs r. listFor tenant = Some regs \<and> r \<in> set regs \<and> u = wb_url r \<and> matches_filter (wb_events r) (event_type e) \<and>
      map_of (wr_headers rq) ''X-Nexus-Signature'' =
        (if truthy (wb_secret r) then Some (computeSignature env (the (wb_secret r)) (wr_body rq)) else None))"
proof
  have c: "hub_hears tenant e s \<noteq> None \<Longrightarrow> concerns tenant s" for s
    by (cases s) (auto simp: concerns_def split: if_splits)
  have "call_all returns (hub_hears tenant e) (hb_handlers hub) e = call_all returns (hub_hears tenant e) (filter (concerns tenant) (hb_handlers hub)) e"
    by (rule call_all_filter) (rule c)
  then show "hub_publish returns tenant e hub = hub_publish returns tenant e (hub\<lparr>hb_handlers := filter (concerns tenant) (hb_handlers hub)\<rparr>)"
    by (simp add: hub_publish_def)
  from assms obtain regs where l: "listFor tenant = Some regs"
    by (cases "listFor tenant") (auto simp: dispatch_event_def)
  with assms obtain r where r: "r \<in> set regs" "matches_filter (wb_events r) (event_type e)"
      "u = wb_url r" "rq = delivery_request env (wb_secret r) (event_type e) (de_json env e)"
    by (auto simp: dispatch_event_def)
  show "\<exists>regs r. listFor tenant = Some regs \<and> r \<in> set regs \<and> u = wb_url r \<and> matches_filter (wb_events r) (event_type e) \<and>
      map_of (wr_headers rq) ''X-Nexus-Signature'' =
        (if truthy (wb_secret r) then Some (computeSignature env (the (wb_secret r)) (wr_body rq)) else None)"
    by (rule exI[of _ regs], rule exI[of _ r]) (simp add: l r delivery_request_def)
qed

definition sample_hook :: webhook where
  "sample_hook = \<lparr>wb_id = ''w'', wb_url = ''https://a.test'', wb_events = [''UserTaskReleased''], wb_secret = Some ''k'', wb_createdAt = 0\<rparr>"

definition sample_dispatch :: dispatch_env where
  "sample_dispatch = \<lparr>de_json = event_type, de_hmac = (\<lambda>k t. k @ t)\<rparr>"

theorem events_stay_with_their_tenant_witness:
  "map fst (dispatch_event sample_dispatch (\<lambda>t. if t = ''acme'' then Some [sample_hook] else None) ''acme'' (UserTaskReleased ''u'')) = [''https://a.test''] \<and>
   hub_publish (\<lambda>_ _. True) ''acme'' (UserTaskReleased ''u'') \<lparr>hb_handlers = [Scoped 0 ''umbrella'' 1, AllTenants 2], hb_buses = []\<rparr> =
   hub_publish (\<lambda>_ _. True) ''acme'' (UserTaskReleased ''u'') \<lparr>hb_handlers = [AllTenants 2], hb_buses = []\<rparr>"
proof -
  let ?listFor = "\<lambda>t. if t = ''acme'' then Some [sample_hook] else None" and ?hub = "\<lparr>hb_handlers = [Scoped 0 ''umbrella'' 1, AllTenants 2], hb_buses = []\<rparr>"
  have d: "dispatch_event sample_dispatch ?listFor ''acme'' (UserTaskReleased ''u'') =
      [(''https://a.test'', delivery_request sample_dispatch (Some ''k'') ''UserTaskReleased'' ''UserTaskReleased'')]"
    by (simp add: dispatch_event_def sample_hook_def sample_dispatch_def matches_filter_def)
  have "(''https://a.test'', delivery_request sample_dispatch (Some ''k'') ''UserTaskReleased'' ''UserTaskReleased'')
      \<in> set (dispatch_event sample_dispatch ?listFor ''acme'' (UserTaskReleased ''u''))"
    by (simp add: d)
  from events_stay_with_their_tenant[OF this, of "\<lambda>_ _. True" ?hub] d show ?thesis by (simp add: concerns_def)
qed

section \<open>Attempts\<close>

lemma deliver_shape:
  assumes "1 \<le> k"
  shows "\<exists>n \<ge> k. n \<le> max k (di_maxAttempts d) \<and>
    deliver d answers stops k = map (\<lambda>j. (j, RetryIn (di_baseRetryDelayMs d * 2 ^ (j - 1)))) [k..<n] @ [(n, if answers n then Delivered else GivenUp)] \<and>
    list_all (\<lambda>j. \<not> answers j \<and> \<not> stops j \<and> \<not> di_stopped d) [k..<n] \<and>
    (answers n \<or> di_stopped d \<or> stops n \<or> di_maxAttempts d \<le> n)"
  using assms
proof (induction "di_maxAttempts d - k" arbitrary: k rule: less_induct)
  case less
  let ?go = "\<not> di_stopped d \<and> \<not> stops k \<and> \<not> answers k \<and> k < di_maxAttempts d"
  show ?case
  proof (cases ?go)
    case False
    then have "deliver d answers stops k = [(k, if answers k then Delivered else GivenUp)]"
      by (subst deliver.simps) (auto simp: after_attempt_def Let_def)
    with False show ?thesis by (intro exI[of _ k]) auto
  next
    case True
    from less.hyps[of "Suc k"] True less.prems obtain n where n: "Suc k \<le> n" "n \<le> max (Suc k) (di_maxAttempts d)"
      "deliver d answers stops (Suc k) = map (\<lambda>j. (j, RetryIn (di_baseRetryDelayMs d * 2 ^ (j - 1)))) [Suc k..<n] @ [(n, if answers n then Delivered else GivenUp)]"
      "list_all (\<lambda>j. \<not> answers j \<and> \<not> stops j \<and> \<not> di_stopped d) [Suc k..<n]"
      "answers n \<or> di_stopped d \<or> stops n \<or> di_maxAttempts d \<le> n" by fastforce
    from True have "deliver d answers stops k = (k, RetryIn (di_baseRetryDelayMs d * 2 ^ (k - 1))) # deliver d answers stops (Suc k)"
      by (subst deliver.simps) (simp add: after_attempt_def Let_def)
    with n True show ?thesis by (intro exI[of _ n]) (simp add: upt_conv_Cons)
  qed
qed

text \<open>
  C27. A delivery ends: its attempts are numbered from 1 and there are at most the maximum of them (but one at
  least); each but the last failed and was retried after a delay that doubles; the last succeeded, or the
  delivery is given up, because the attempts are used up or the dispatcher was stopped.
\<close>

theorem deliveries_are_bounded:
  "\<exists>n. 1 \<le> n \<and> n \<le> max 1 (di_maxAttempts d) \<and>
    deliver d answers stops 1 = map (\<lambda>k. (k, RetryIn (di_baseRetryDelayMs d * 2 ^ (k - 1)))) [1..<n] @ [(n, if answers n then Delivered else GivenUp)] \<and>
    list_all (\<lambda>k. \<not> answers k \<and> \<not> stops k \<and> \<not> di_stopped d) [1..<n] \<and>
    (answers n \<or> di_stopped d \<or> stops n \<or> di_maxAttempts d \<le> n)"
  using deliver_shape[of 1 d answers stops] by blast

text \<open>Once stopped a dispatcher never retries again, even when it is started again.\<close>

theorem restarted_dispatcher_gives_up:
  "after_attempt (dispatcher_start (dispatcher_stop d)) False attempt = GivenUp \<and> di_subscribed (dispatcher_start (dispatcher_stop d))"
  by (simp add: after_attempt_def dispatcher_start_def dispatcher_stop_def)

section \<open>Counting\<close>

lemma first_page_total: "pr_total (paged 0 1 f rows) = length rows"
  by (cases rows) (simp_all add: paged_def page_of_def)

text \<open>The counts of \<open>/metrics\<close> are exact, as they are read off a first page.\<close>

theorem metrics_are_exact:
  "get_metrics pg = \<lparr>mx_active = length (filter (\<lambda>r. ir_status r = ActiveI) (map_values (pt_instances pg))),
     mx_suspended = length (filter (\<lambda>r. ir_status r = SuspendedI) (map_values (pt_instances pg))),
     mx_pending = length (filter (\<lambda>r. kr_status r = TaskOpen) (map_values (pt_tasks pg))) +
       length (filter (\<lambda>r. kr_status r = TaskClaimed) (map_values (pt_tasks pg)))\<rparr>"
  by (simp add: first_page_total[unfolded One_nat_def] get_metrics_def pg_findInstances_def pg_queryUserTasks_def by_status_def tasks_by_status_def wants_def)

end
