(* ===== verification/Tenant_Workers.thy ===== *)
theory Tenant_Workers
  imports Postgres_Store Platform_Api
begin

text \<open>
  What runs in the background of every tenant: the scheduler of the core
  (\<open>InMemoryScheduler.ts\<close>) and the one over the store (\<open>PostgresScheduler.ts\<close>), the set of workers of a tenant
  and the manager that starts and stops the sets (\<open>createTenantWorkers.ts\<close>, \<open>TenantWorkerManager.ts\<close>), the
  cache of the tenants' resources (\<open>TenantResourceCache.ts\<close>) and the purge of old snapshots
  (\<open>historyRetention.ts\<close>). Every reading of the clock is an argument; what waits is split at its waits, so that a
  list of operations is an interleaving. Callbacks of the schedulers do not schedule timers themselves.
\<close>

section \<open>The scheduler in memory\<close>

text \<open>
  \<open>sd_live\<close> are the timeouts the event loop holds: the handle, the timer its closure captured, and when it is due.
\<close>

record sched =
  sd_timers :: "(string \<times> scheduled_timer) list"
  sd_handles :: "(string \<times> nat) list"
  sd_running :: bool
  sd_live :: "(nat \<times> scheduled_timer \<times> int) list"
  sd_next :: nat

definition new_sched :: sched where
  "new_sched = \<lparr>sd_timers = [], sd_handles = [], sd_running = False, sd_live = [], sd_next = 0\<rparr>"

definition armTimeout :: "int \<Rightarrow> scheduled_timer \<Rightarrow> sched \<Rightarrow> sched" where
  "armTimeout n t s =
     s\<lparr>sd_live := sd_live s @ [(sd_next s, t, n + max 0 (tm_fireAt t - n))],
       sd_next := sd_next s + 1,
       sd_handles := AList.update (tm_id t) (sd_next s) (sd_handles s)\<rparr>"

definition clearTimeout :: "nat \<Rightarrow> sched \<Rightarrow> sched" where
  "clearTimeout h s = s\<lparr>sd_live := AList.delete h (sd_live s)\<rparr>"

definition sched_schedule :: "int \<Rightarrow> scheduled_timer \<Rightarrow> sched \<Rightarrow> sched" where
  "sched_schedule n t s =
     (let s1 = s\<lparr>sd_timers := AList.update (tm_id t) t (sd_timers s)\<rparr>
      in if sd_running s1 then armTimeout n t s1 else s1)"

definition sched_cancel :: "string \<Rightarrow> sched \<Rightarrow> sched" where
  "sched_cancel i s =
     (let s1 = s\<lparr>sd_timers := AList.delete i (sd_timers s)\<rparr>
      in case map_of (sd_handles s1) i of
           None \<Rightarrow> s1
         | Some h \<Rightarrow> (clearTimeout h s1)\<lparr>sd_handles := AList.delete i (sd_handles s1)\<rparr>)"

definition sched_start :: "int \<Rightarrow> sched \<Rightarrow> sched" where
  "sched_start n s = fold (armTimeout n) (map_values (sd_timers s)) (s\<lparr>sd_running := True\<rparr>)"

definition clear_all :: "sched \<Rightarrow> sched" where
  "clear_all s = fold clearTimeout (map_values (sd_handles s)) s"

definition sched_stop :: "sched \<Rightarrow> sched" where
  "sched_stop s = (clear_all (s\<lparr>sd_running := False\<rparr>))\<lparr>sd_handles := []\<rparr>"

definition sched_reset :: "sched \<Rightarrow> sched" where
  "sched_reset s = (clear_all s)\<lparr>sd_timers := [], sd_handles := []\<rparr>"

text \<open>The event loop runs the timeout \<open>h\<close>, once it is due: the timer its callbacks get, if any.\<close>

definition timeout_runs :: "int \<Rightarrow> nat \<Rightarrow> sched \<Rightarrow> scheduled_timer list \<times> sched" where
  "timeout_runs n h s =
     (case map_of (sd_live s) h of
        None \<Rightarrow> ([], s)
      | Some (t, due) \<Rightarrow>
          if n < due then ([], s)
          else (let s1 = clearTimeout h s in
            if map_of (sd_timers s1) (tm_id t) = None then ([], s1)
            else ([t], s1\<lparr>sd_timers := AList.delete (tm_id t) (sd_timers s1), sd_handles := AList.delete (tm_id t) (sd_handles s1)\<rparr>)))"

definition due_timers :: "int \<Rightarrow> sched \<Rightarrow> scheduled_timer list" where
  "due_timers n s = filter (\<lambda>t. tm_fireAt t \<le> n) (map_values (sd_timers s))"

definition drop_timer :: "scheduled_timer \<Rightarrow> sched \<Rightarrow> sched" where
  "drop_timer t s = s\<lparr>sd_timers := AList.delete (tm_id t) (sd_timers s)\<rparr>"

definition tickDue :: "int \<Rightarrow> sched \<Rightarrow> scheduled_timer list \<times> sched" where
  "tickDue n s = (due_timers n s, fold drop_timer (due_timers n s) s)"

definition popNextDue :: "int \<Rightarrow> sched \<Rightarrow> scheduled_timer list \<times> sched" where
  "popNextDue n s =
     (case sort_key tm_fireAt (due_timers n s) of
        [] \<Rightarrow> ([], s)
      | t # ts \<Rightarrow> ([t], drop_timer t s))"

datatype sched_op = Schedule scheduled_timer | CancelTimer string | StartSched | StopSched | RunTimeout nat | TickDue | PopNext | ResetSched

fun sched_step :: "int \<times> sched_op \<Rightarrow> sched \<Rightarrow> scheduled_timer list \<times> sched" where
  "sched_step (n, Schedule t) s = ([], sched_schedule n t s)"
| "sched_step (n, CancelTimer i) s = ([], sched_cancel i s)"
| "sched_step (n, StartSched) s = ([], sched_start n s)"
| "sched_step (n, StopSched) s = ([], sched_stop s)"
| "sched_step (n, RunTimeout h) s = timeout_runs n h s"
| "sched_step (n, TickDue) s = tickDue n s"
| "sched_step (n, PopNext) s = popNextDue n s"
| "sched_step (n, ResetSched) s = ([], sched_reset s)"

text \<open>A run: the timers that were handed over, each with the time it was, and the state after it.\<close>

fun sched_run :: "(int \<times> sched_op) list \<Rightarrow> sched \<Rightarrow> (int \<times> scheduled_timer) list \<times> sched" where
  "sched_run [] s = ([], s)"
| "sched_run (x # xs) s =
     (case sched_step x s of (ts, s1) \<Rightarrow> (case sched_run xs s1 of (later, s2) \<Rightarrow> (map (Pair (fst x)) ts @ later, s2)))"

section \<open>The scheduler over the store\<close>

text \<open>\<open>po_polls\<close> are the polls in flight: the timers each has read and not fired yet.\<close>

record poller =
  po_store :: pg_store
  po_interval :: bool
  po_polls :: "scheduled_timer list list"

datatype poll_op = SaveTimer scheduled_timer | DropTimer string | BeginPoll int | NextTimer nat | SetInterval | StopPolling

definition poll_begin :: "int \<Rightarrow> poller \<Rightarrow> poller" where
  "poll_begin n p = p\<lparr>po_polls := po_polls p @ [pg_getDueTimers n (po_store p)]\<rparr>"

definition poll_next :: "nat \<Rightarrow> poller \<Rightarrow> scheduled_timer list \<times> poller" where
  "poll_next k p =
     (if k < length (po_polls p) then
        (case po_polls p ! k of
           [] \<Rightarrow> ([], p)
         | t # ts \<Rightarrow> ([t], p\<lparr>po_store := pg_deleteTimer (tm_id t) (po_store p), po_polls := (po_polls p)[k := ts]\<rparr>))
      else ([], p))"

text \<open>
  \<open>start\<close> begins a poll when there is no interval and sets the interval after it; the interval begins polls
  without waiting for those in flight; \<open>stop\<close> clears the interval.
\<close>

fun poll_step :: "poll_op \<Rightarrow> poller \<Rightarrow> scheduled_timer list \<times> poller" where
  "poll_step (SaveTimer t) p = ([], p\<lparr>po_store := pg_saveTimer t (po_store p)\<rparr>)"
| "poll_step (DropTimer i) p = ([], p\<lparr>po_store := pg_deleteTimer i (po_store p)\<rparr>)"
| "poll_step (BeginPoll n) p = ([], poll_begin n p)"
| "poll_step (NextTimer k) p = poll_next k p"
| "poll_step SetInterval p = ([], p\<lparr>po_interval := True\<rparr>)"
| "poll_step StopPolling p = ([], if \<not> po_interval p then p else p\<lparr>po_interval := False\<rparr>)"

fun poll_run :: "poll_op list \<Rightarrow> poller \<Rightarrow> scheduled_timer list \<times> poller" where
  "poll_run [] p = ([], p)"
| "poll_run (x # xs) p = (case poll_step x p of (ts, p1) \<Rightarrow> (case poll_run xs p1 of (later, p2) \<Rightarrow> (ts @ later, p2)))"

section \<open>The workers of one tenant\<close>

record worker_set =
  ws_worker :: bool
  ws_timers :: bool
  ws_scheduler :: bool
  ws_open :: bool

definition created_set :: worker_set where
  "created_set = \<lparr>ws_worker = False, ws_timers = False, ws_scheduler = False, ws_open = True\<rparr>"

definition set_stop :: "worker_set \<Rightarrow> worker_set" where
  "set_stop w = w\<lparr>ws_worker := False, ws_timers := False, ws_scheduler := False, ws_open := False\<rparr>"

text \<open>\<open>polls\<close> says whether the first poll of the scheduler succeeds; the result whether the start does.\<close>

definition set_start :: "bool \<Rightarrow> worker_set \<Rightarrow> bool \<times> worker_set" where
  "set_start polls w =
     (let w1 = w\<lparr>ws_worker := True, ws_timers := True\<rparr>
      in if polls then (True, w1\<lparr>ws_scheduler := True\<rparr>) else (False, set_stop w1))"

section \<open>The manager of the workers\<close>

datatype start_state = Starting | Started | StartFailed

text \<open>
  A set of workers that was created: its tenant, how its start went, whether \<open>stopTenant\<close> took it, and whether
  its \<open>stop\<close> has run.
\<close>

record managed =
  ma_tenant :: string
  ma_start :: start_state
  ma_taken :: bool
  ma_stopped :: bool

record manager =
  mg_running :: "(string \<times> nat) list"
  mg_sets :: "managed list"
  mg_polling :: bool
  mg_syncing :: bool
  mg_stopped :: bool

definition new_manager :: manager where
  "new_manager = \<lparr>mg_running = [], mg_sets = [], mg_polling = False, mg_syncing = False, mg_stopped = False\<rparr>"

definition change_set :: "nat \<Rightarrow> (managed \<Rightarrow> managed) \<Rightarrow> manager \<Rightarrow> manager" where
  "change_set w f m = m\<lparr>mg_sets := (mg_sets m)[w := f (mg_sets m ! w)]\<rparr>"

text \<open>\<open>ensure\<close>: false if the manager is stopped. A set is named by its position among all that were created.\<close>

definition ensure_workers :: "string \<Rightarrow> manager \<Rightarrow> bool \<times> manager" where
  "ensure_workers t m =
     (if mg_stopped m then (False, m)
      else case map_of (mg_running m) t of
        Some w \<Rightarrow> (True, m)
      | None \<Rightarrow> (True, m\<lparr>mg_sets := mg_sets m @ [\<lparr>ma_tenant = t, ma_start = Starting, ma_taken = False, ma_stopped = False\<rparr>],
                         mg_running := AList.update t (length (mg_sets m)) (mg_running m)\<rparr>))"

text \<open>The start of set \<open>w\<close> settles; a failed one leaves \<open>running\<close>, if it is still there.\<close>

definition start_settles :: "nat \<Rightarrow> bool \<Rightarrow> manager \<Rightarrow> manager" where
  "start_settles w fine m =
     (if w < length (mg_sets m) \<and> ma_start (mg_sets m ! w) = Starting then
        (let m1 = change_set w (\<lambda>x. x\<lparr>ma_start := if fine then Started else StartFailed\<rparr>) m;
             t = ma_tenant (mg_sets m ! w)
         in if \<not> fine \<and> map_of (mg_running m1) t = Some w then m1\<lparr>mg_running := AList.delete t (mg_running m1)\<rparr> else m1)
      else m)"

text \<open>\<open>stopTenant\<close> up to its first wait, and the stop of a set whose start has settled.\<close>

definition stopTenant :: "string \<Rightarrow> manager \<Rightarrow> manager" where
  "stopTenant t m =
     (let m1 = m\<lparr>mg_running := AList.delete t (mg_running m)\<rparr>
      in case map_of (mg_running m) t of None \<Rightarrow> m1 | Some w \<Rightarrow> change_set w (\<lambda>x. x\<lparr>ma_taken := True\<rparr>) m1)"

definition stop_settles :: "nat \<Rightarrow> manager \<Rightarrow> manager" where
  "stop_settles w m =
     (if w < length (mg_sets m) \<and> ma_taken (mg_sets m ! w) \<and> ma_start (mg_sets m ! w) = Started
      then change_set w (\<lambda>x. x\<lparr>ma_stopped := True\<rparr>) m else m)"

definition sync_begin :: "manager \<Rightarrow> manager" where
  "sync_begin m = (if mg_syncing m \<or> mg_stopped m then m else m\<lparr>mg_syncing := True\<rparr>)"

text \<open>The active tenants arrive; at the end the tenants that are not among them are stopped.\<close>

definition sync_ensures :: "string list \<Rightarrow> manager \<Rightarrow> manager" where
  "sync_ensures active m = fold (\<lambda>t m. snd (ensure_workers t m)) (remdups active) m"

definition sync_ends :: "string list \<Rightarrow> manager \<Rightarrow> manager" where
  "sync_ends active m =
     (fold stopTenant (filter (\<lambda>t. t \<notin> set active) (map fst (mg_running m))) m)\<lparr>mg_syncing := False\<rparr>"

definition sync_fails :: "manager \<Rightarrow> manager" where
  "sync_fails m = m\<lparr>mg_syncing := False\<rparr>"

definition begin_polling :: "manager \<Rightarrow> manager" where
  "begin_polling m = (if \<not> mg_polling m \<and> \<not> mg_stopped m then m\<lparr>mg_polling := True\<rparr> else m)"

definition activeTenants :: "manager \<Rightarrow> string list" where
  "activeTenants m = map fst (mg_running m)"

definition stop_manager :: "manager \<Rightarrow> manager" where
  "stop_manager m = fold stopTenant (map fst (mg_running m)) (m\<lparr>mg_stopped := True, mg_polling := False\<rparr>)"

datatype manager_op = Ensure string | StartSettles nat bool | Remove string | StopSettles nat | SyncBegins | SyncEnsures "string list"
  | SyncEnds "string list" | SyncFails | BeginsPolling | StopManager

fun manager_step :: "manager_op \<Rightarrow> manager \<Rightarrow> manager" where
  "manager_step (Ensure t) m = snd (ensure_workers t m)"
| "manager_step (StartSettles w fine) m = start_settles w fine m"
| "manager_step (Remove t) m = stopTenant t m"
| "manager_step (StopSettles w) m = stop_settles w m"
| "manager_step SyncBegins m = sync_begin m"
| "manager_step (SyncEnsures active) m = sync_ensures active m"
| "manager_step (SyncEnds active) m = sync_ends active m"
| "manager_step SyncFails m = sync_fails m"
| "manager_step BeginsPolling m = begin_polling m"
| "manager_step StopManager m = stop_manager m"

section \<open>The cache of resources\<close>

text \<open>\<open>rc_made\<close> counts the resources that were made, each named by its number; \<open>rc_ended\<close> are those closed, in order.\<close>

record resource_cache =
  rc_entries :: "(string \<times> nat) list"
  rc_made :: nat
  rc_ended :: "nat list"

definition new_cache :: resource_cache where
  "new_cache = \<lparr>rc_entries = [], rc_made = 0, rc_ended = []\<rparr>"

text \<open>\<open>get\<close>: \<open>None\<close> is the \<open>TypeError\<close> of a cache that is full and empty.\<close>

definition cache_get :: "nat \<Rightarrow> string \<Rightarrow> resource_cache \<Rightarrow> (nat \<times> resource_cache) option" where
  "cache_get maxSize t c =
     (case map_of (rc_entries c) t of
        Some r \<Rightarrow> Some (r, c\<lparr>rc_entries := AList.delete t (rc_entries c) @ [(t, r)]\<rparr>)
      | None \<Rightarrow>
          (case (if length (rc_entries c) \<ge> maxSize then
                   (case rc_entries c of
                      [] \<Rightarrow> None
                    | (oldestId, oldest) # rest \<Rightarrow> Some (c\<lparr>rc_entries := AList.delete oldestId (rc_entries c), rc_ended := rc_ended c @ [oldest]\<rparr>))
                 else Some c) of
             None \<Rightarrow> None
           | Some c1 \<Rightarrow> Some (rc_made c1, c1\<lparr>rc_made := rc_made c1 + 1, rc_entries := AList.update t (rc_made c1) (rc_entries c1)\<rparr>)))"

definition cache_evict :: "string \<Rightarrow> resource_cache \<Rightarrow> resource_cache" where
  "cache_evict t c =
     (case map_of (rc_entries c) t of
        None \<Rightarrow> c
      | Some r \<Rightarrow> c\<lparr>rc_entries := AList.delete t (rc_entries c), rc_ended := rc_ended c @ [r]\<rparr>)"

definition cache_endAll :: "resource_cache \<Rightarrow> resource_cache" where
  "cache_endAll c = c\<lparr>rc_entries := [], rc_ended := rc_ended c @ map_values (rc_entries c)\<rparr>"

fun cache_gets :: "nat \<Rightarrow> string list \<Rightarrow> resource_cache \<Rightarrow> resource_cache option" where
  "cache_gets maxSize [] c = Some c"
| "cache_gets maxSize (t # ts) c = (case cache_get maxSize t c of None \<Rightarrow> None | Some (r, c1) \<Rightarrow> cache_gets maxSize ts c1)"

section \<open>The purge of old snapshots\<close>

definition BATCH_SIZE :: nat where
  "BATCH_SIZE = 1000"

definition RETENTION_DAY_MS :: int where
  "RETENTION_DAY_MS = 86400000"

definition last_step :: "string \<Rightarrow> pg_store \<Rightarrow> int option" where
  "last_step i pg =
     (case map (\<lambda>r. he_completedAt (hr_data r)) (filter (\<lambda>r. hr_instanceId r = i) (map_values (pt_history pg))) of
        [] \<Rightarrow> None
      | x # xs \<Rightarrow> Some (fold max xs x))"

definition finished_at :: "string \<Rightarrow> instance_row \<Rightarrow> pg_store \<Rightarrow> int option" where
  "finished_at i r pg = (case ir_completedAt r of Some n \<Rightarrow> Some n | None \<Rightarrow> last_step i pg)"

definition purgeable :: "int \<Rightarrow> pg_store \<Rightarrow> history_row \<Rightarrow> bool" where
  "purgeable cutoff pg h \<longleftrightarrow>
     (case map_of (pt_instances pg) (hr_instanceId h) of
        None \<Rightarrow> False
      | Some r \<Rightarrow> (ir_status r = CompletedI \<or> ir_status r = TerminatedI) \<and> he_variablesSnapshot (hr_data h) \<noteq> None \<and>
          (case finished_at (hr_instanceId h) r pg of None \<Rightarrow> False | Some n \<Rightarrow> n < cutoff))"

definition stripped :: "history_row \<Rightarrow> history_row" where
  "stripped h = h\<lparr>hr_data := (hr_data h)\<lparr>he_variablesSnapshot := None\<rparr>\<rparr>"

text \<open>One statement: the ids it picks, and the store after it. A database may pick any rows up to the limit; here they are the first.\<close>

definition purge_batch :: "int \<Rightarrow> pg_store \<Rightarrow> string list \<times> pg_store" where
  "purge_batch cutoff pg =
     (let ids = take BATCH_SIZE (map fst (filter (\<lambda>(i, h). purgeable cutoff pg h) (pt_history pg)))
      in (ids, pg\<lparr>pt_history := map (\<lambda>(i, h). (i, if i \<in> set ids then stripped h else h)) (pt_history pg)\<rparr>))"

definition purge_left :: "int \<Rightarrow> pg_store \<Rightarrow> nat" where
  "purge_left cutoff pg = length (filter (\<lambda>(i, h). purgeable cutoff pg h) (pt_history pg))"

section \<open>Schedulers hand each timer over once\<close>

definition schedules :: "string \<Rightarrow> sched_op \<Rightarrow> bool" where
  "schedules i op \<longleftrightarrow> (case op of Schedule t \<Rightarrow> tm_id t = i | _ \<Rightarrow> False)"

definition waiting_timer :: "string \<Rightarrow> sched \<Rightarrow> nat" where
  "waiting_timer i s = (if map_of (sd_timers s) i = None then 0 else 1)"

definition live_sound :: "sched \<Rightarrow> bool" where
  "live_sound s \<longleftrightarrow> list_all (\<lambda>(h, t, due). tm_fireAt t \<le> due) (sd_live s)"

definition keyed_timers :: "(string \<times> scheduled_timer) list \<Rightarrow> bool" where
  "keyed_timers m \<longleftrightarrow> distinct (map fst m) \<and> list_all (\<lambda>(k, t). tm_id t = k) m"

definition sound_sched :: "sched \<Rightarrow> bool" where
  "sound_sched s \<longleftrightarrow> keyed_timers (sd_timers s) \<and> live_sound s"

lemma armTimeout_frame [simp]: "sd_timers (armTimeout n t s) = sd_timers s"
  "live_sound s \<Longrightarrow> live_sound (armTimeout n t s)"
  by (auto simp: armTimeout_def live_sound_def)

lemma clearTimeout_frame [simp]: "sd_timers (clearTimeout h s) = sd_timers s"
  "live_sound s \<Longrightarrow> live_sound (clearTimeout h s)"
  by (auto simp: clearTimeout_def live_sound_def AList.delete_eq list_all_iff)

lemma fold_frame:
  assumes "\<And>x s. sd_timers (f x s) = sd_timers s" "\<And>x s. live_sound s \<Longrightarrow> live_sound (f x s)"
  shows "sd_timers (fold f xs s) = sd_timers s \<and> (live_sound s \<longrightarrow> live_sound (fold f xs s))"
  using assms by (induction xs arbitrary: s) auto

lemmas arm_all = fold_frame[of "armTimeout n" for n, simplified]
lemmas clear_each = fold_frame[of clearTimeout, simplified]

lemma clear_all_frame [simp]: "sd_timers (clear_all s) = sd_timers s" "live_sound s \<Longrightarrow> live_sound (clear_all s)"
  by (simp_all add: clear_all_def clear_each)

lemma live_frame [simp]: "live_sound (s\<lparr>sd_timers := m\<rparr>) = live_sound s" "live_sound (s\<lparr>sd_handles := hs\<rparr>) = live_sound s"
  "live_sound (s\<lparr>sd_running := b\<rparr>) = live_sound s"
  by (simp_all add: live_sound_def)

lemma update_all: "list_all P m \<Longrightarrow> P (k, v) \<Longrightarrow> list_all P (AList.update k v m)"
  by (induction m) auto

lemma delete_all: "list_all P m \<Longrightarrow> list_all P (AList.delete k m)"
  by (auto simp: list_all_iff AList.delete_eq)

lemma keyed_changes [simp]:
  "keyed_timers m \<Longrightarrow> keyed_timers (AList.update (tm_id t) t m)" "keyed_timers m \<Longrightarrow> keyed_timers (AList.delete i m)"
  by (simp_all add: keyed_timers_def update_all delete_all distinct_update AList.distinct_delete)

lemma count_distinct: "distinct (map f xs) \<Longrightarrow> length (filter (\<lambda>x. f x = i) xs) = (if i \<in> f ` set xs then 1 else 0)"
  by (induction xs) (auto simp: filter_empty_conv)

lemma drop_timers: "sd_timers (fold drop_timer ts s) = fold (\<lambda>t. AList.delete (tm_id t)) ts (sd_timers s) \<and>
    live_sound (fold drop_timer ts s) = live_sound s"
  by (induction ts arbitrary: s) (simp_all add: drop_timer_def)

lemma drop_keyed: "keyed_timers m \<Longrightarrow> keyed_timers (fold (\<lambda>t. AList.delete (tm_id t)) ts m)"
  by (induction ts arbitrary: m) simp_all

lemma drop_lookup: "map_of (fold (\<lambda>t. AList.delete (tm_id t)) ts m) i = (if i \<in> tm_id ` set ts then None else map_of m i)"
  by (induction ts arbitrary: m) (auto simp: AList.delete_conv')

lemma keyed_values: "keyed_timers m \<Longrightarrow> map tm_id (map_values m) = map fst m"
  by (auto simp: keyed_timers_def map_values_def list_all_iff)

text \<open>Of the due timers at most one has a given id, and that one is waiting.\<close>

lemma due_once:
  assumes "keyed_timers (sd_timers s)"
  shows "length (filter (\<lambda>t. tm_id t = i) (due_timers n s)) + (if i \<in> tm_id ` set (due_timers n s) then 0 else waiting_timer i s) \<le> waiting_timer i s"
proof -
  have d: "distinct (map tm_id (due_timers n s))"
    unfolding due_timers_def by (rule distinct_map_filter) (use assms keyed_values[OF assms] in \<open>simp add: keyed_timers_def\<close>)
  have l: "length (filter (\<lambda>t. tm_id t = i) (due_timers n s)) = (if i \<in> tm_id ` set (due_timers n s) then 1 else 0)"
    using d by (rule count_distinct)
  have "i \<in> tm_id ` set (due_timers n s) \<Longrightarrow> waiting_timer i s = 1"
    using assms by (force simp: due_timers_def waiting_timer_def map_values_def keyed_timers_def list_all_iff map_of_eq_None_iff)
  with l show ?thesis by auto
qed

lemma due_waiting:
  assumes "keyed_timers (sd_timers s)" "t \<in> set (due_timers n s)"
  shows "map_of (sd_timers s) (tm_id t) = Some t \<and> tm_fireAt t \<le> n"
  using assms by (force simp: due_timers_def map_values_def keyed_timers_def list_all_iff)

lemma sched_step_once:
  assumes "sound_sched s" "sched_step x s = (ts, s')"
  shows "sound_sched s' \<and> list_all (\<lambda>t. tm_fireAt t \<le> fst x) ts \<and>
    length (filter (\<lambda>t. tm_id t = i) ts) + waiting_timer i s' \<le> (if schedules i (snd x) then 1 else 0) + waiting_timer i s"
proof -
  obtain n op where x: "x = (n, op)" by fastforce
  show ?thesis
  proof (cases op)
    case (Schedule t)
    with assms x show ?thesis
      by (auto simp: sched_schedule_def Let_def sound_sched_def schedules_def waiting_timer_def update_conv')
  next
    case (CancelTimer j)
    with assms x show ?thesis
      by (auto simp: sched_cancel_def Let_def sound_sched_def waiting_timer_def AList.delete_conv' split: option.splits)
  next
    case StartSched
    with assms x show ?thesis by (auto simp: sched_start_def sound_sched_def waiting_timer_def arm_all)
  next
    case StopSched
    with assms x show ?thesis by (auto simp: sched_stop_def sound_sched_def waiting_timer_def)
  next
    case ResetSched
    with assms x show ?thesis by (auto simp: sched_reset_def sound_sched_def waiting_timer_def keyed_timers_def)
  next
    case (RunTimeout h)
    have l: "map_of (sd_live s) h = Some (t, due) \<Longrightarrow> tm_fireAt t \<le> due" for t due
      using assms(1) map_of_SomeD[of "sd_live s" h "(t, due)"] by (auto simp: sound_sched_def live_sound_def list_all_iff)
    from RunTimeout assms x show ?thesis
      by (auto simp: timeout_runs_def Let_def sound_sched_def waiting_timer_def AList.delete_conv' dest!: l split: option.splits if_splits prod.splits)
  next
    case TickDue
    with assms x due_once[of s i n] show ?thesis
      by (auto simp: tickDue_def sound_sched_def waiting_timer_def drop_timers drop_keyed drop_lookup due_timers_def list_all_iff split: if_splits)
  next
    case PopNext
    show ?thesis
    proof (cases "sort_key tm_fireAt (due_timers n s)")
      case Nil
      with PopNext assms x show ?thesis by (auto simp: popNextDue_def)
    next
      case (Cons t rest)
      have "t \<in> set (due_timers n s)" using set_sort[of tm_fireAt "due_timers n s"] Cons by (metis list.set_intros(1))
      then have "map_of (sd_timers s) (tm_id t) = Some t" "tm_fireAt t \<le> n"
        using due_waiting[of s t n] assms(1) by (auto simp: sound_sched_def)
      with PopNext assms x Cons show ?thesis
        by (auto simp: popNextDue_def drop_timer_def sound_sched_def waiting_timer_def AList.delete_conv' split: if_splits)
    qed
  qed
qed

lemma sched_run_once:
  assumes "sound_sched s" "sched_run ops s = (fired, s')"
  shows "list_all (\<lambda>(n, t). tm_fireAt t \<le> n) fired \<and>
    length (filter (\<lambda>(n, t). tm_id t = i) fired) + waiting_timer i s' \<le> length (filter (\<lambda>(n, op). schedules i op) ops) + waiting_timer i s"
  using assms
proof (induction ops arbitrary: s fired)
  case (Cons x xs)
  obtain ts s1 where x: "sched_step x s = (ts, s1)" by fastforce
  obtain later s2 where l: "sched_run xs s1 = (later, s2)" by fastforce
  from Cons.prems(2) x l have f: "fired = map (Pair (fst x)) ts @ later" "s2 = s'" by auto
  have c: "length (filter (\<lambda>(n, t). tm_id t = i) (map (Pair (fst x)) ts)) = length (filter (\<lambda>t. tm_id t = i) ts)"
    by (simp add: filter_map comp_def)
  from sched_step_once[OF Cons.prems(1) x, of i] Cons.IH[of s1 later] l f c show ?case
    by (auto simp: list_all_iff split_def)
qed simp


theorem cancelled_timers_stay_silent:
  assumes "sound_sched s" "list_all (\<lambda>(n, op). \<not> schedules i op) ops"
  shows "list_all (\<lambda>(n, t). tm_id t \<noteq> i) (fst (sched_run ops (sched_cancel i s)))"
proof -
  have c: "sound_sched (sched_cancel i s)" "waiting_timer i (sched_cancel i s) = 0"
    using sched_step_once[OF assms(1), of "(0, CancelTimer i)" "[]" "sched_cancel i s"]
    by (auto simp: sched_cancel_def Let_def waiting_timer_def AList.delete_conv' split: option.splits)
  from assms(2) have "filter (\<lambda>(n, op). schedules i op) ops = []" by (auto simp: filter_empty_conv list_all_iff)
  with sched_run_once[OF c(1), of ops "fst (sched_run ops (sched_cancel i s))" "snd (sched_run ops (sched_cancel i s))" i] c(2)
  show ?thesis by (auto simp: filter_empty_conv list_all_iff)
qed

definition timer_at :: "int \<Rightarrow> scheduled_timer" where
  "timer_at n = \<lparr>tm_id = ''t'', tm_instanceId = ''i'', tm_tokenId = ''k'', tm_fireAt = n, tm_createdAt = 0\<rparr>"

text \<open>
  A timer that is scheduled again for later while the scheduler runs still fires at its old time, with its old
  data, and the new one is forgotten: the new timeout replaces the handle of the old without clearing it.
\<close>

theorem rescheduled_timer_fires_early:
  "fst (sched_run [(0, StartSched), (0, Schedule (timer_at 10)), (0, Schedule (timer_at 50)), (10, RunTimeout 0), (50, RunTimeout 1)] new_sched) =
     [(10, timer_at 10)]"
  by (simp add: new_sched_def sched_start_def sched_schedule_def armTimeout_def timeout_runs_def clearTimeout_def map_values_def
      timer_at_def Let_def AList.delete_eq)

section \<open>Polls\<close>

definition saves :: "string \<Rightarrow> poll_op \<Rightarrow> bool" where
  "saves i op \<longleftrightarrow> (case op of SaveTimer t \<Rightarrow> tm_id t = i | _ \<Rightarrow> False)"

text \<open>A run in which a poll begins only when none is in flight.\<close>

fun one_poll :: "poll_op list \<Rightarrow> poller \<Rightarrow> bool" where
  "one_poll [] p \<longleftrightarrow> True"
| "one_poll (x # xs) p \<longleftrightarrow>
     (case x of BeginPoll n \<Rightarrow> concat (po_polls p) = [] | _ \<Rightarrow> True) \<and> one_poll xs (snd (poll_step x p))"

definition keyed_rows :: "(string \<times> timer_row) list \<Rightarrow> bool" where
  "keyed_rows m \<longleftrightarrow> distinct (map fst m) \<and> list_all (\<lambda>(k, r). tm_id (mr_data r) = k) m"

definition outstanding :: "string \<Rightarrow> poller \<Rightarrow> bool" where
  "outstanding i p \<longleftrightarrow> map_of (pt_timers (po_store p)) i \<noteq> None \<or> i \<in> tm_id ` set (concat (po_polls p))"

definition sound_poller :: "poller \<Rightarrow> bool" where
  "sound_poller p \<longleftrightarrow> keyed_rows (pt_timers (po_store p)) \<and> distinct (map tm_id (concat (po_polls p)))"

lemma due_of_store:
  assumes "keyed_rows (pt_timers pg)"
  shows "distinct (map tm_id (pg_getDueTimers n pg))" "i \<in> tm_id ` set (pg_getDueTimers n pg) \<Longrightarrow> map_of (pt_timers pg) i \<noteq> None"
proof -
  have k: "map (tm_id \<circ> mr_data) (map_values (pt_timers pg)) = map fst (pt_timers pg)"
    using assms by (auto simp: keyed_rows_def map_values_def list_all_iff)
  have r: "map tm_id (pg_getDueTimers n pg) = map (tm_id \<circ> mr_data) (sort_key mr_fireAt (filter (\<lambda>r. mr_fireAt r \<le> n) (map_values (pt_timers pg))))"
    by (simp add: pg_getDueTimers_def reviveScheduledTimer_def)
  have "distinct (map (tm_id \<circ> mr_data) (filter (\<lambda>r. mr_fireAt r \<le> n) (map_values (pt_timers pg))))"
    by (rule distinct_map_filter) (use k assms in \<open>simp add: keyed_rows_def\<close>)
  then show "distinct (map tm_id (pg_getDueTimers n pg))" unfolding r by (simp add: distinct_map)
  assume "i \<in> tm_id ` set (pg_getDueTimers n pg)"
  then have "i \<in> set (map (tm_id \<circ> mr_data) (map_values (pt_timers pg)))" by (auto simp: pg_getDueTimers_def reviveScheduledTimer_def)
  then show "map_of (pt_timers pg) i \<noteq> None" unfolding k by (simp add: map_of_eq_None_iff)
qed

lemma poll_step_once:
  assumes "sound_poller p" "poll_step x p = (ts, p')" "case x of BeginPoll n \<Rightarrow> concat (po_polls p) = [] | _ \<Rightarrow> True"
  shows "sound_poller p' \<and>
    length (filter (\<lambda>t. tm_id t = i) ts) + of_bool (outstanding i p') \<le> (of_bool (saves i x) + of_bool (outstanding i p) :: nat)"
proof (cases x)
  case (SaveTimer t)
  have k: "keyed_rows m \<Longrightarrow> tm_id (mr_data r) = j \<Longrightarrow> keyed_rows (AList.update j r m)" for m j r
    by (simp add: keyed_rows_def update_all distinct_update)
  have "keyed_rows (pt_timers (pg_saveTimer t (po_store p)))"
    unfolding pg_saveTimer_def upsert_row_def using assms(1)
    by (cases "map_of (pt_timers (po_store p)) (tm_id t)") (simp_all add: k sound_poller_def)
  moreover have "map_of (pt_timers (pg_saveTimer t (po_store p))) i \<noteq> None \<longleftrightarrow> i = tm_id t \<or> map_of (pt_timers (po_store p)) i \<noteq> None"
    by (simp add: pg_saveTimer_def upsert_row_def update_conv')
  ultimately show ?thesis using SaveTimer assms
    by (cases "i = tm_id t") (auto simp: sound_poller_def outstanding_def saves_def simp del: set_concat)
next
  case (DropTimer j)
  have "keyed_rows m \<Longrightarrow> keyed_rows (AList.delete j m)" for m
    by (simp add: keyed_rows_def delete_all AList.distinct_delete)
  with DropTimer assms show ?thesis
    by (auto simp: sound_poller_def outstanding_def saves_def pg_deleteTimer_def AList.delete_conv' simp del: set_concat split: if_splits)
next
  case (BeginPoll n)
  with assms(2,3) have e: "concat (po_polls p) = []" "ts = []" "p' = poll_begin n p" by auto
  from e(1) have c: "concat (po_polls (poll_begin n p)) = pg_getDueTimers n (po_store p)" by (simp add: poll_begin_def)
  have f: "po_store (poll_begin n p) = po_store p" by (simp add: poll_begin_def)
  from assms(1) due_of_store(1)[of "po_store p" n] due_of_store(2)[of "po_store p" i n] show ?thesis
    unfolding sound_poller_def outstanding_def e(2,3) c f by auto
next
  case (NextTimer k)
  show ?thesis
  proof (cases "k < length (po_polls p) \<and> po_polls p ! k \<noteq> []")
    case False
    with NextTimer assms show ?thesis by (auto simp: poll_next_def saves_def split: list.splits if_splits)
  next
    case True
    then obtain t rest where t: "po_polls p ! k = t # rest" by (cases "po_polls p ! k") auto
    from True have split: "po_polls p = take k (po_polls p) @ (t # rest) # drop (Suc k) (po_polls p)"
      using id_take_nth_drop[of k "po_polls p"] t by simp
    have new: "(po_polls p)[k := rest] = take k (po_polls p) @ rest # drop (Suc k) (po_polls p)"
      using True by (simp add: upd_conv_take_nth_drop)
    from arg_cong[OF split, of concat] have c: "concat (po_polls p) = concat (take k (po_polls p)) @ t # rest @ concat (drop (Suc k) (po_polls p))" by simp
    have c': "concat ((po_polls p)[k := rest]) = concat (take k (po_polls p)) @ rest @ concat (drop (Suc k) (po_polls p))" by (simp add: new)
    from NextTimer assms(2) True t have n: "ts = [t]" "p' = p\<lparr>po_store := pg_deleteTimer (tm_id t) (po_store p), po_polls := (po_polls p)[k := rest]\<rparr>"
      by (auto simp: poll_next_def)
    have "keyed_rows (AList.delete j m)" if "keyed_rows m" for j m using that by (simp add: keyed_rows_def delete_all AList.distinct_delete)
    with assms(1) show ?thesis
      unfolding n by (auto simp: sound_poller_def outstanding_def c c' pg_deleteTimer_def AList.delete_conv' split: if_splits)
  qed
next
  case SetInterval
  with assms show ?thesis by (auto simp: sound_poller_def outstanding_def simp del: set_concat)
next
  case StopPolling
  with assms show ?thesis by (auto simp: sound_poller_def outstanding_def simp del: set_concat split: if_splits)
qed

lemma poll_run_once:
  assumes "sound_poller p" "one_poll ops p"
  shows "length (filter (\<lambda>t. tm_id t = i) (fst (poll_run ops p))) \<le> length (filter (saves i) ops) + of_bool (outstanding i p)"
  using assms
proof (induction ops arbitrary: p)
  case (Cons x xs)
  obtain ts p1 where x: "poll_step x p = (ts, p1)" by fastforce
  from Cons.prems(2) x have o: "case x of BeginPoll n \<Rightarrow> concat (po_polls p) = [] | _ \<Rightarrow> True" "one_poll xs p1" by auto
  from poll_step_once[OF Cons.prems(1) x o(1), of i] have s: "sound_poller p1"
    "length (filter (\<lambda>t. tm_id t = i) ts) + of_bool (outstanding i p1) \<le> (of_bool (saves i x) + of_bool (outstanding i p) :: nat)" by auto
  from Cons.IH[OF s(1) o(2)] s(2) x show ?case by (auto split: prod.splits)
qed simp

definition empty_poller :: poller where
  "empty_poller = \<lparr>po_store = empty_pg, po_interval = False, po_polls = []\<rparr>"

text \<open>
  As long as a poll begins only when none is in flight, the scheduler over the store fires a timer at most once
  for each time it was saved.
\<close>

theorem lone_polls_fire_once:
  assumes "one_poll ops empty_poller"
  shows "length (filter (\<lambda>t. tm_id t = i) (fst (poll_run ops empty_poller))) \<le> length (filter (saves i) ops)"
proof -
  have "sound_poller empty_poller" "\<not> outstanding i empty_poller"
    by (simp_all add: sound_poller_def outstanding_def empty_poller_def empty_pg_def keyed_rows_def)
  from poll_run_once[OF this(1) assms, of i] this(2) show ?thesis by simp
qed

text \<open>
  But the interval does not wait: of two polls that overlap both read a due timer before either deletes it, and
  both fire it.
\<close>

theorem overlapping_polls_fire_twice:
  "fst (poll_run [SaveTimer (timer_at 5), SetInterval, BeginPoll 9, BeginPoll 14, NextTimer 0, NextTimer 1] empty_poller) =
     [timer_at 5, timer_at 5]"
  by (simp add: empty_poller_def empty_pg_def poll_begin_def poll_next_def pg_getDueTimers_def pg_saveTimer_def pg_deleteTimer_def
      upsert_row_def reviveScheduledTimer_def map_values_def timer_at_def)

section \<open>The manager keeps track of its workers\<close>

definition accounted :: "manager \<Rightarrow> nat \<Rightarrow> bool" where
  "accounted m w \<longleftrightarrow>
     (ma_start (mg_sets m ! w) = StartFailed \<or> ma_taken (mg_sets m ! w) \<or> map_of (mg_running m) (ma_tenant (mg_sets m ! w)) = Some w) \<and>
     (ma_stopped (mg_sets m ! w) \<longrightarrow> ma_taken (mg_sets m ! w) \<and> ma_start (mg_sets m ! w) = Started)"

definition tracked :: "manager \<Rightarrow> bool" where
  "tracked m \<longleftrightarrow> distinct (map fst (mg_running m)) \<and>
     (\<forall>t w. map_of (mg_running m) t = Some w \<longrightarrow> w < length (mg_sets m) \<and> ma_tenant (mg_sets m ! w) = t \<and>
        \<not> ma_taken (mg_sets m ! w) \<and> ma_start (mg_sets m ! w) \<noteq> StartFailed) \<and>
     list_all (accounted m) [0..<length (mg_sets m)] \<and> (mg_stopped m \<longrightarrow> mg_running m = [])"

lemma trackedI:
  assumes "distinct (map fst (mg_running m))"
    "\<And>t w. map_of (mg_running m) t = Some w \<Longrightarrow> w < length (mg_sets m) \<and> ma_tenant (mg_sets m ! w) = t \<and>
      \<not> ma_taken (mg_sets m ! w) \<and> ma_start (mg_sets m ! w) \<noteq> StartFailed"
    "\<And>w. w < length (mg_sets m) \<Longrightarrow> accounted m w" "mg_stopped m \<Longrightarrow> mg_running m = []"
  shows "tracked m"
  using assms by (auto simp: tracked_def list_all_iff)

lemma trackedD:
  assumes "tracked m"
  shows "distinct (map fst (mg_running m))"
    "map_of (mg_running m) t = Some w \<Longrightarrow> w < length (mg_sets m) \<and> ma_tenant (mg_sets m ! w) = t \<and>
      \<not> ma_taken (mg_sets m ! w) \<and> ma_start (mg_sets m ! w) \<noteq> StartFailed"
    "w < length (mg_sets m) \<Longrightarrow> accounted m w" "mg_stopped m \<Longrightarrow> mg_running m = []"
  using assms by (simp_all add: tracked_def list_all_iff)

lemmas lookups = update_conv' AList.delete_conv' distinct_update AList.distinct_delete

lemma ensure_tracked:
  assumes "tracked m"
  shows "tracked (snd (ensure_workers t m))"
proof (cases "mg_stopped m \<or> map_of (mg_running m) t \<noteq> None")
  case True
  with assms show ?thesis by (auto simp: ensure_workers_def)
next
  case False
  define new where "new = \<lparr>ma_tenant = t, ma_start = Starting, ma_taken = False, ma_stopped = False\<rparr>"
  then have new: "snd (ensure_workers t m) = m\<lparr>mg_sets := mg_sets m @ [new], mg_running := AList.update t (length (mg_sets m)) (mg_running m)\<rparr>"
      "ma_tenant new = t" "ma_start new = Starting" "\<not> ma_taken new" "\<not> ma_stopped new"
    using False by (auto simp: ensure_workers_def)
  show ?thesis
  proof (rule trackedI)
    fix w assume "w < length (mg_sets (snd (ensure_workers t m)))"
    then show "accounted (snd (ensure_workers t m)) w"
      using False trackedD(3)[OF assms, of w] by (auto simp: new accounted_def nth_append lookups)
  next
    fix t' w assume "map_of (mg_running (snd (ensure_workers t m))) t' = Some w"
    then show "w < length (mg_sets (snd (ensure_workers t m))) \<and> ma_tenant (mg_sets (snd (ensure_workers t m)) ! w) = t' \<and>
        \<not> ma_taken (mg_sets (snd (ensure_workers t m)) ! w) \<and> ma_start (mg_sets (snd (ensure_workers t m)) ! w) \<noteq> StartFailed"
      using trackedD(2)[OF assms, of t' w] by (auto simp: new nth_append lookups split: if_splits)
  qed (use False trackedD(1)[OF assms] in \<open>simp_all add: new lookups\<close>)
qed

text \<open>A change of one set that leaves its tenant and, while it is in \<open>running\<close>, keeps it going.\<close>

lemma change_tracked:
  assumes "tracked m" "w < length (mg_sets m)" "ma_tenant (f (mg_sets m ! w)) = ma_tenant (mg_sets m ! w)"
    "map_of r (ma_tenant (mg_sets m ! w)) = Some w \<longleftrightarrow> map_of (mg_running m) (ma_tenant (mg_sets m ! w)) = Some w \<and>
       \<not> ma_taken (f (mg_sets m ! w)) \<and> ma_start (f (mg_sets m ! w)) \<noteq> StartFailed"
    "ma_start (mg_sets m ! w) = StartFailed \<Longrightarrow> ma_start (f (mg_sets m ! w)) = StartFailed" "ma_taken (mg_sets m ! w) \<Longrightarrow> ma_taken (f (mg_sets m ! w))"
    "ma_stopped (f (mg_sets m ! w)) \<Longrightarrow> ma_taken (f (mg_sets m ! w)) \<and> ma_start (f (mg_sets m ! w)) = Started"
    "distinct (map fst r)" "\<And>t. t \<noteq> ma_tenant (mg_sets m ! w) \<Longrightarrow> map_of r t = map_of (mg_running m) t"
    "\<And>w'. map_of r (ma_tenant (mg_sets m ! w)) = Some w' \<Longrightarrow> map_of (mg_running m) (ma_tenant (mg_sets m ! w)) = Some w'"
    "\<And>w'. w' \<noteq> w \<Longrightarrow> map_of (mg_running m) (ma_tenant (mg_sets m ! w)) = Some w' \<Longrightarrow> map_of r (ma_tenant (mg_sets m ! w)) = Some w'"
    "mg_running m = [] \<Longrightarrow> r = []"
  shows "tracked (m\<lparr>mg_sets := (mg_sets m)[w := f (mg_sets m ! w)], mg_running := r\<rparr>)" (is "tracked ?m")
proof (rule trackedI)
  fix v assume v: "v < length (mg_sets ?m)"
  show "accounted ?m v"
  proof (cases "v = w")
    case True
    with assms trackedD(3)[OF assms(1), of w] show ?thesis by (auto simp: accounted_def)
  next
    case False
    with v trackedD(3)[OF assms(1), of v] assms(9)[of "ma_tenant (mg_sets m ! v)"] assms(11)[of v] show ?thesis
      by (cases "ma_tenant (mg_sets m ! v) = ma_tenant (mg_sets m ! w)") (auto simp: accounted_def)
  qed
next
  fix t v assume l: "map_of (mg_running ?m) t = Some v"
  then have o: "map_of (mg_running m) t = Some v" using assms(9)[of t] assms(10)[of v] by (cases "t = ma_tenant (mg_sets m ! w)") auto
  then show "v < length (mg_sets ?m) \<and> ma_tenant (mg_sets ?m ! v) = t \<and> \<not> ma_taken (mg_sets ?m ! v) \<and> ma_start (mg_sets ?m ! v) \<noteq> StartFailed"
    using trackedD(2)[OF assms(1) o] assms(2,3,4) l by (cases "v = w") auto
qed (use assms(8,12) trackedD(4)[OF assms(1)] in auto)

lemma stopTenant_tracked:
  assumes "tracked m"
  shows "tracked (stopTenant t m)"
proof (cases "map_of (mg_running m) t")
  case None
  then have "AList.delete t (mg_running m) = mg_running m" by (simp add: AList.delete_idem map_of_eq_None_iff)
  with None assms show ?thesis by (simp add: stopTenant_def)
next
  case (Some w)
  note w = trackedD(2)[OF assms Some] trackedD(3)[OF assms, of w]
  have s: "stopTenant t m = m\<lparr>mg_sets := (mg_sets m)[w := (\<lambda>x. x\<lparr>ma_taken := True\<rparr>) (mg_sets m ! w)], mg_running := AList.delete t (mg_running m)\<rparr>"
    using Some by (cases m) (simp add: stopTenant_def change_set_def)
  show ?thesis unfolding s
    by (rule change_tracked) (use assms Some w trackedD(1)[OF assms] in \<open>auto simp: lookups accounted_def simp del: map_of_eq_Some_iff\<close>)
qed

lemma start_tracked:
  assumes "tracked m"
  shows "tracked (start_settles w fine m)"
proof (cases "w < length (mg_sets m) \<and> ma_start (mg_sets m ! w) = Starting")
  case True
  let ?t = "ma_tenant (mg_sets m ! w)"
  let ?r = "if \<not> fine \<and> map_of (mg_running m) ?t = Some w then AList.delete ?t (mg_running m) else mg_running m"
  have s: "start_settles w fine m =
      m\<lparr>mg_sets := (mg_sets m)[w := (\<lambda>x. x\<lparr>ma_start := if fine then Started else StartFailed\<rparr>) (mg_sets m ! w)], mg_running := ?r\<rparr>"
    using True by (cases m) (simp add: start_settles_def change_set_def Let_def)
  show ?thesis unfolding s
    by (rule change_tracked) (use assms True trackedD(1)[OF assms] trackedD(2)[OF assms, of ?t w] trackedD(3)[OF assms, of w] in \<open>auto simp: lookups accounted_def simp del: map_of_eq_Some_iff split: if_splits\<close>)
qed (use assms in \<open>auto simp: start_settles_def\<close>)

lemma stop_tracked:
  assumes "tracked m"
  shows "tracked (stop_settles w m)"
proof (cases "w < length (mg_sets m) \<and> ma_taken (mg_sets m ! w) \<and> ma_start (mg_sets m ! w) = Started")
  case True
  have s: "stop_settles w m = m\<lparr>mg_sets := (mg_sets m)[w := (\<lambda>x. x\<lparr>ma_stopped := True\<rparr>) (mg_sets m ! w)], mg_running := mg_running m\<rparr>"
    using True by (cases m) (simp add: stop_settles_def change_set_def)
  show ?thesis unfolding s
    by (rule change_tracked) (use assms True trackedD(1)[OF assms] trackedD(2)[OF assms, of "ma_tenant (mg_sets m ! w)" w] in auto)
qed (use assms in \<open>auto simp: stop_settles_def\<close>)

lemma flags_accounted [simp]: "accounted (m\<lparr>mg_syncing := b\<rparr>) = accounted m" "accounted (m\<lparr>mg_polling := b\<rparr>) = accounted m"
  "accounted (m\<lparr>mg_stopped := b\<rparr>) = accounted m"
  by (simp_all add: accounted_def fun_eq_iff)

lemma flags_tracked [simp]: "tracked (m\<lparr>mg_syncing := b\<rparr>) = tracked m" "tracked (m\<lparr>mg_polling := b\<rparr>) = tracked m"
  by (simp_all add: tracked_def)

lemma fold_tracked: "(\<And>x m. tracked m \<Longrightarrow> tracked (f x m)) \<Longrightarrow> tracked m \<Longrightarrow> tracked (fold f xs m)"
  by (induction xs arbitrary: m) auto

lemma stopTenant_running: "mg_running (stopTenant t m) = AList.delete t (mg_running m) \<and> mg_stopped (stopTenant t m) = mg_stopped m"
  by (simp add: stopTenant_def Let_def change_set_def split: option.split)

lemma stop_all_running: "mg_running (fold stopTenant ts m) = filter (\<lambda>(k, v). k \<notin> set ts) (mg_running m) \<and> mg_stopped (fold stopTenant ts m) = mg_stopped m"
  by (induction ts arbitrary: m) (auto simp: stopTenant_running AList.delete_eq intro!: filter_cong)

lemma stopTenant_frame: "stopTenant t (m\<lparr>mg_stopped := b, mg_polling := c\<rparr>) = (stopTenant t m)\<lparr>mg_stopped := b, mg_polling := c\<rparr>"
  by (cases m) (simp add: stopTenant_def Let_def change_set_def split: option.split)

lemma stop_sets_frame: "fold stopTenant ts (m\<lparr>mg_stopped := b, mg_polling := c\<rparr>) = (fold stopTenant ts m)\<lparr>mg_stopped := b, mg_polling := c\<rparr>"
  by (induction ts arbitrary: m) (simp_all add: stopTenant_frame)

lemma stop_manager_tracked:
  assumes "tracked m"
  shows "tracked (stop_manager m) \<and> mg_running (stop_manager m) = [] \<and> mg_stopped (stop_manager m)"
proof -
  let ?m = "fold stopTenant (map fst (mg_running m)) m"
  have r: "mg_running ?m = []" by (force simp: stop_all_running filter_empty_conv)
  have "tracked ?m" by (rule fold_tracked) (use assms in \<open>auto intro: stopTenant_tracked\<close>)
  with r show ?thesis unfolding stop_manager_def stop_sets_frame by (simp add: tracked_def)
qed

lemma manager_step_tracked: "tracked m \<Longrightarrow> tracked (manager_step op m)"
  by (cases op) (auto simp: sync_begin_def sync_ensures_def sync_ends_def sync_fails_def begin_polling_def stop_manager_tracked
      intro!: fold_tracked ensure_tracked stopTenant_tracked start_tracked stop_tracked)

lemma run_tracked: "tracked (fold manager_step ops new_manager)"
proof (rule fold_tracked)
  show "tracked new_manager" by (simp add: new_manager_def tracked_def)
qed (rule manager_step_tracked)

text \<open>
  C25. No worker is lost track of: after any interleaving of requests, syncs and stops each set of workers that was
  ever created is the one running for its tenant, was taken to be stopped, or failed to start; a tenant has at
  most one running set; and a manager that was stopped runs none.
\<close>

theorem workers_are_tracked: "tracked (fold manager_step ops new_manager)"
  by (rule run_tracked)

lemma stays_stopped: "mg_stopped m \<Longrightarrow> mg_stopped (manager_step op m)"
proof (cases op)
  case (SyncEnsures active)
  have "mg_stopped (fold (\<lambda>t m. snd (ensure_workers t m)) ts m) = mg_stopped m" for ts
    by (induction ts arbitrary: m) (auto simp: ensure_workers_def split: option.split)
  with SyncEnsures show "mg_stopped m \<Longrightarrow> ?thesis" by (simp add: sync_ensures_def)
qed (auto simp: ensure_workers_def start_settles_def change_set_def Let_def stopTenant_running stop_settles_def sync_begin_def
    sync_ends_def sync_fails_def begin_polling_def stop_manager_def stop_all_running split: option.split)

lemma fold_stays_stopped: "mg_stopped m \<Longrightarrow> mg_stopped (fold manager_step ops m)"
  by (induction ops arbitrary: m) (auto intro: stays_stopped)

text \<open>
  Once stopped the manager never starts anything again, whatever requests and syncs are still under way: every
  set it created has failed to start or is taken to be stopped.
\<close>

theorem stopped_manager_runs_nothing:
  assumes "StopManager \<in> set ops"
  shows "activeTenants (fold manager_step ops new_manager) = [] \<and>
    list_all (\<lambda>x. ma_start x = StartFailed \<or> ma_taken x) (mg_sets (fold manager_step ops new_manager))"
proof -
  from assms obtain before after where ops: "ops = before @ StopManager # after" by (meson split_list)
  have "mg_stopped (stop_manager (fold manager_step before new_manager))"
    by (simp add: stop_manager_def stop_all_running)
  then have "mg_stopped (fold manager_step ops new_manager)" unfolding ops by (simp add: fold_stays_stopped)
  with run_tracked[of ops] show ?thesis by (auto simp: tracked_def accounted_def activeTenants_def list_all_length)
qed

text \<open>
  A sync may stop a tenant that became active after it had read the list: the tenant's workers run when its first
  request has ensured them, and are stopped by the stale list.
\<close>

theorem stale_sync_stops_workers:
  "activeTenants (fold manager_step [SyncBegins, Ensure ''a'', StartSettles 0 True] new_manager) = [''a''] \<and>
   activeTenants (fold manager_step [SyncBegins, Ensure ''a'', StartSettles 0 True, SyncEnsures [], SyncEnds []] new_manager) = []"
  by (simp add: new_manager_def sync_begin_def ensure_workers_def start_settles_def change_set_def sync_ensures_def sync_ends_def
      stopTenant_def activeTenants_def)

section \<open>The cache keeps the tenants used last\<close>

lemma remdups_snoc: "remdups (xs @ [x]) = removeAll x (remdups xs) @ [x]"
proof (induction xs)
  case (Cons a xs)
  then show ?case by (auto simp: removeAll_id)
qed simp

text \<open>What a cache of \<open>n\<close> resources should hold after accesses: the last \<open>n\<close> different tenants, by their last access.\<close>

definition last_used :: "nat \<Rightarrow> string list \<Rightarrow> string list" where
  "last_used n ts = drop (length (remdups ts) - n) (remdups ts)"

definition sound_cache :: "resource_cache \<Rightarrow> bool" where
  "sound_cache c \<longleftrightarrow> distinct (map fst (rc_entries c)) \<and> distinct (map snd (rc_entries c) @ rc_ended c) \<and>
     set (map snd (rc_entries c) @ rc_ended c) = {..<rc_made c}"

lemma keys_delete: "map fst (AList.delete k m) = removeAll k (map fst m)"
  by (induction m) auto

lemma removeAll_later: "t \<notin> set xs \<Longrightarrow> removeAll t (xs @ ys) = xs @ removeAll t ys"
  by simp

lemma length_removeAll: "distinct xs \<Longrightarrow> t \<in> set xs \<Longrightarrow> length (removeAll t xs) = length xs - 1"
  by (simp add: distinct_remove1_removeAll[symmetric] length_remove1)

lemma last_used_hit:
  assumes "1 \<le> n" "t \<in> set (last_used n us)"
  shows "last_used n (us @ [t]) = removeAll t (last_used n us) @ [t]"
proof -
  define R k where "R = remdups us" and "k = length R - n"
  have d: "distinct (take k R @ drop k R)" by (simp only: append_take_drop_id) (simp add: R_def)
  from assms(2) have "t \<in> set (drop k R)" by (simp add: last_used_def R_def k_def)
  with d have t: "t \<in> set (drop k R)" "t \<notin> set (take k R)" unfolding distinct_append by blast+
  have r: "removeAll t R = take k R @ removeAll t (drop k R)"
    using removeAll_later[OF t(2), of "drop k R"] unfolding append_take_drop_id .
  have "t \<in> set R" using t(1) by (rule in_set_dropD)
  then have l: "length (removeAll t R @ [t]) = length R" using length_removeAll[of R t] length_pos_if_in_set[of t R] by (simp add: R_def)
  have "drop k (removeAll t R @ [t]) = removeAll t (drop k R) @ [t]" unfolding r by (simp add: k_def)
  then show ?thesis using l by (simp only: last_used_def remdups_snoc R_def[symmetric] k_def[symmetric])
qed

lemma last_used_miss:
  assumes "1 \<le> n" "t \<notin> set (last_used n us)"
  shows "last_used n (us @ [t]) = (if n \<le> length (last_used n us) then tl (last_used n us) else last_used n us) @ [t]"
proof -
  define R k where "R = remdups us" and "k = length R - n"
  have t: "t \<notin> set (drop k R)" using assms(2) by (simp add: last_used_def R_def k_def)
  have u: "last_used n us = drop k R" "last_used n (us @ [t]) = drop (length (removeAll t R @ [t]) - n) (removeAll t R @ [t])"
    by (simp_all only: last_used_def remdups_snoc R_def k_def)
  show ?thesis
  proof (cases "t \<in> set (take k R)")
    case False
    then have "t \<notin> set R" using t by (metis append_take_drop_id Un_iff set_append)
    then have r: "removeAll t R = R" by simp
    have "drop (Suc k) R = tl (drop k R)" by (simp add: drop_Suc tl_drop)
    then show ?thesis unfolding u r using assms(1) by (cases "n \<le> length R") (auto simp: k_def Suc_diff_le)
  next
    case True
    have d: "distinct (take k R @ drop k R)" by (simp only: append_take_drop_id) (simp add: R_def)
    have k: "0 < k" "k \<le> length R" using True by (cases k, simp_all) (simp add: k_def)
    have "removeAll t R = removeAll t (take k R) @ drop k R"
      using t by (subst append_take_drop_id[of k R, symmetric], subst removeAll_append) (simp only: removeAll_id simp_thms)
    moreover have "length (removeAll t (take k R)) = k - 1" using length_removeAll[of "take k R" t] d True k by simp
    ultimately have "drop (length (removeAll t R @ [t]) - n) (removeAll t R @ [t]) = drop 1 (drop k R) @ [t]"
      using k assms(1) by (auto simp: k_def)
    moreover have "n \<le> length (drop k R)" using k by (auto simp: k_def)
    ultimately show ?thesis unfolding u by (simp add: drop_Suc tl_drop)
  qed
qed

lemma cache_get_keys:
  assumes "1 \<le> n" "map fst (rc_entries c) = last_used n us"
  shows "\<exists>r c'. cache_get n t c = Some (r, c') \<and> map fst (rc_entries c') = last_used n (us @ [t])"
proof (cases "map_of (rc_entries c) t")
  case (Some r)
  then have "t \<in> set (last_used n us)" unfolding assms(2)[symmetric] by (metis map_of_eq_None_iff option.distinct(1) set_map)
  from last_used_hit[OF assms(1) this] Some assms(2) show ?thesis by (simp add: cache_get_def keys_delete)
next
  case None
  then have t: "t \<notin> fst ` set (rc_entries c)" by (simp add: map_of_eq_None_iff)
  then have "t \<notin> set (last_used n us)" unfolding assms(2)[symmetric] by simp
  note m = last_used_miss[OF assms(1) this]
  have d: "distinct (map fst (rc_entries c))" unfolding assms(2) last_used_def by simp
  have l: "length (rc_entries c) = length (last_used n us)" unfolding assms(2)[symmetric] by simp
  show ?thesis
  proof (cases "n \<le> length (rc_entries c)")
    case False
    with None t m l assms(2) show ?thesis by (simp add: cache_get_def update_fresh)
  next
    case True
    then obtain k v rest where e: "rc_entries c = (k, v) # rest" using assms(1) by (cases "rc_entries c") auto
    then have "AList.delete k (rc_entries c) = rest" using d by (simp add: AList.delete_idem)
    moreover have "map fst rest = tl (last_used n us)" unfolding assms(2)[symmetric] e by simp
    ultimately show ?thesis using None True e t m l by (auto simp: cache_get_def update_fresh)
  qed
qed

lemma cache_gets_keys:
  assumes "1 \<le> n" "map fst (rc_entries c) = last_used n us"
  shows "\<exists>c'. cache_gets n ts c = Some c' \<and> map fst (rc_entries c') = last_used n (us @ ts)"
  using assms(2)
proof (induction ts arbitrary: c us)
  case (Cons t ts)
  from cache_get_keys[OF assms(1) Cons.prems] obtain r c1 where "cache_get n t c = Some (r, c1)" "map fst (rc_entries c1) = last_used n (us @ [t])" by blast
  with Cons.IH[of c1 "us @ [t]"] show ?case by simp
qed simp

text \<open>
  C39. The cache is a least-recently-used one: it holds the last \<open>n\<close> different tenants, the one used longest ago first.
\<close>

theorem cache_keeps_last_used:
  assumes "1 \<le> n"
  shows "map_option (\<lambda>c. map fst (rc_entries c)) (cache_gets n ts new_cache) = Some (last_used n ts)"
  using cache_gets_keys[OF assms, of new_cache "[]" ts] by (auto simp: new_cache_def last_used_def)

theorem cache_keeps_last_used_witness:
  "map_option (\<lambda>c. map fst (rc_entries c)) (cache_gets 2 [''a'', ''b'', ''a'', ''c''] new_cache) = Some [''a'', ''c'']"
  using cache_keeps_last_used[of 2 "[''a'', ''b'', ''a'', ''c'']"] by (simp add: last_used_def)

text \<open>Every resource that was made is either cached or was closed, and closed once.\<close>

lemma delete_split:
  assumes "distinct (map fst m)" "map_of m t = Some r"
  shows "\<exists>xs ys. m = xs @ (t, r) # ys \<and> AList.delete t m = xs @ ys"
proof -
  have "(t, r) \<in> set m" using assms(2) by (rule map_of_SomeD)
  then obtain xs ys where e: "m = xs @ (t, r) # ys" by (auto dest: split_list)
  have "filter (\<lambda>(k, v). t \<noteq> k) zs = zs" if "t \<notin> fst ` set zs" for zs :: "('a \<times> 'b) list"
    using that by (force simp: filter_id_conv)
  with assms(1) e have "AList.delete t m = xs @ ys" by (simp add: AList.delete_eq)
  with e show ?thesis by blast
qed

lemma sound_delete:
  assumes "sound_cache c" "map_of (rc_entries c) t = Some r"
  shows "sound_cache (c\<lparr>rc_entries := AList.delete t (rc_entries c), rc_ended := rc_ended c @ [r]\<rparr>)"
proof -
  obtain xs ys where "rc_entries c = xs @ (t, r) # ys" "AList.delete t (rc_entries c) = xs @ ys"
    using assms delete_split[of "rc_entries c" t r] by (auto simp: sound_cache_def)
  with assms(1) show ?thesis by (auto simp: sound_cache_def)
qed

lemma sound_new: "sound_cache c \<Longrightarrow> t \<notin> fst ` set (rc_entries c) \<Longrightarrow> sound_cache (c\<lparr>rc_made := rc_made c + 1, rc_entries := rc_entries c @ [(t, rc_made c)]\<rparr>)"
  by (auto simp: sound_cache_def lessThan_Suc)

theorem resources_are_closed_once:
  assumes "sound_cache c" "cache_get n t c = Some (r, c')"
  shows "sound_cache c' \<and> sound_cache (cache_evict t c') \<and> sound_cache (cache_endAll c') \<and> r \<in> set (rc_ended (cache_evict t c'))"
proof -
  have s: "sound_cache c' \<and> map_of (rc_entries c') t = Some r"
  proof (cases "map_of (rc_entries c) t")
    case (Some v)
    then obtain xs ys where e: "rc_entries c = xs @ (t, v) # ys" "AList.delete t (rc_entries c) = xs @ ys"
      using assms(1) delete_split[of "rc_entries c" t v] by (auto simp: sound_cache_def)
    from Some assms(2) e(2) have c: "r = v" "c' = c\<lparr>rc_entries := xs @ ys @ [(t, v)]\<rparr>" by (auto simp: cache_get_def)
    from assms(1) e(1) have d: "distinct (map fst (xs @ ys @ [(t, v)]))" "sound_cache c'" unfolding c by (auto simp: sound_cache_def)
    have "map_of (xs @ ys @ [(t, v)]) t = Some v" by (rule map_of_is_SomeI[OF d(1)]) simp
    with d(2) show ?thesis unfolding c by simp
  next
    case None
    then have t: "t \<notin> fst ` set (rc_entries c)" by (simp add: map_of_eq_None_iff)
    show ?thesis
    proof (cases "n \<le> length (rc_entries c)")
      case False
      with None t assms sound_new[OF assms(1) t] show ?thesis by (auto simp: cache_get_def update_fresh map_add_def)
    next
      case True
      with None assms(2) obtain k v rest where e: "rc_entries c = (k, v) # rest" by (cases "rc_entries c") (auto simp: cache_get_def)
      let ?c = "c\<lparr>rc_entries := AList.delete k (rc_entries c), rc_ended := rc_ended c @ [v]\<rparr>"
      have c: "sound_cache ?c" by (rule sound_delete[OF assms(1)]) (simp add: e)
      have t': "t \<notin> fst ` set (rc_entries ?c)" using t by (auto simp: AList.delete_eq)
      from None True e assms(2) have "r = rc_made ?c" "c' = ?c\<lparr>rc_made := rc_made ?c + 1, rc_entries := rc_entries ?c @ [(t, rc_made ?c)]\<rparr>"
        using t' by (auto simp: cache_get_def update_fresh)
      with sound_new[OF c t'] t' show ?thesis by (simp add: map_of_eq_None_iff[THEN iffD2] map_add_def)
    qed
  qed
  then have "sound_cache (cache_evict t c')" using sound_delete[of c' t r] by (simp add: cache_evict_def)
  moreover have "sound_cache (cache_endAll c')" using s by (auto simp: cache_endAll_def sound_cache_def map_values_def)
  ultimately show ?thesis using s by (simp add: cache_evict_def)
qed

section \<open>The purge strips what is old\<close>

definition strip_where :: "(string \<times> history_row \<Rightarrow> bool) \<Rightarrow> pg_store \<Rightarrow> pg_store" where
  "strip_where P pg = pg\<lparr>pt_history := map (\<lambda>x. (fst x, if P x then stripped (snd x) else snd x)) (pt_history pg)\<rparr>"

lemma last_step_strip [simp]: "last_step i (strip_where P pg) = last_step i pg"
proof -
  have "map (\<lambda>r. he_completedAt (hr_data r)) (filter (\<lambda>r. hr_instanceId r = i) (map_values (map (\<lambda>x. (fst x, if P x then stripped (snd x) else snd x)) m))) =
      map (\<lambda>r. he_completedAt (hr_data r)) (filter (\<lambda>r. hr_instanceId r = i) (map_values m))" for m
    by (induction m) (auto simp: map_values_def stripped_def)
  then show ?thesis by (simp add: last_step_def strip_where_def)
qed

lemma purgeable_strip [simp]: "purgeable cutoff (strip_where P pg) h = purgeable cutoff pg h" "\<not> purgeable cutoff pg (stripped h)"
proof -
  have f: "finished_at i r (strip_where P pg) = finished_at i r pg" for i r by (simp add: finished_at_def split: option.split)
  have i: "pt_instances (strip_where P pg) = pt_instances pg" by (simp add: strip_where_def)
  show "purgeable cutoff (strip_where P pg) h = purgeable cutoff pg h" by (simp add: purgeable_def f i split: option.split)
  show "\<not> purgeable cutoff pg (stripped h)" by (simp add: purgeable_def stripped_def split: option.split)
qed

lemma purge_batch_strip:
  "purge_batch cutoff pg = (let ids = take BATCH_SIZE (map fst (filter (\<lambda>x. purgeable cutoff pg (snd x)) (pt_history pg)))
     in (ids, strip_where (\<lambda>x. fst x \<in> set ids) pg))"
  by (simp add: purge_batch_def strip_where_def split_def Let_def)

lemma filter_strip:
  "filter (\<lambda>x. purgeable cutoff pg (snd x)) (pt_history (strip_where P pg)) = filter (\<lambda>x. purgeable cutoff pg (snd x) \<and> \<not> P x) (pt_history pg)"
proof -
  have "filter (\<lambda>x. purgeable cutoff pg (snd x)) (map (\<lambda>x. (fst x, if P x then stripped (snd x) else snd x)) m) =
      filter (\<lambda>x. purgeable cutoff pg (snd x) \<and> \<not> P x) m" for m
    by (induction m) auto
  then show ?thesis by (simp add: strip_where_def)
qed

lemma purge_left_decreases:
  assumes "purge_batch cutoff pg = (ids, pg')" "ids \<noteq> []"
  shows "purge_left cutoff pg' < purge_left cutoff pg"
proof -
  let ?F = "filter (\<lambda>x. purgeable cutoff pg (snd x)) (pt_history pg)"
  from assms(1) have i: "ids = take BATCH_SIZE (map fst ?F)" and p: "pg' = strip_where (\<lambda>x. fst x \<in> set ids) pg"
    by (auto simp: purge_batch_strip Let_def)
  have l: "purge_left cutoff pg = length ?F" "purge_left cutoff pg' = length (filter (\<lambda>x. fst x \<notin> set ids) ?F)"
    by (simp_all add: purge_left_def split_def p filter_strip[of cutoff pg] conj_commute)
  from assms(2) obtain j where "j \<in> set ids" by (cases ids) auto
  moreover from this have "j \<in> set (map fst ?F)" unfolding i by (rule in_set_takeD)
  ultimately obtain x where "x \<in> set ?F" "fst x \<in> set ids" by auto
  then show ?thesis unfolding l by (intro length_filter_less) auto
qed

lemma purge_left_less: "(ids, pg') = purge_batch cutoff pg \<Longrightarrow> \<not> length ids < BATCH_SIZE \<Longrightarrow> purge_left cutoff pg' < purge_left cutoff pg"
  by (rule purge_left_decreases[of cutoff pg ids]) (auto simp: BATCH_SIZE_def)

function purge_loop :: "int \<Rightarrow> nat \<Rightarrow> pg_store \<Rightarrow> nat \<times> pg_store" where
  "purge_loop cutoff acc pg =
     (case purge_batch cutoff pg of
        (ids, pg') \<Rightarrow> if length ids < BATCH_SIZE then (acc + length ids, pg') else purge_loop cutoff (acc + length ids) pg')"
  by pat_completeness auto
termination
  by (relation "measure (\<lambda>(cutoff, acc, pg). purge_left cutoff pg)") (auto intro: purge_left_less)

declare purge_loop.simps [simp del]

definition purgeHistorySnapshots :: "int \<Rightarrow> int \<Rightarrow> pg_store \<Rightarrow> nat \<times> pg_store" where
  "purgeHistorySnapshots n retentionDays pg = purge_loop (n - retentionDays * RETENTION_DAY_MS) 0 pg"

lemma strip_twice: "(\<And>x. x \<in> set (pt_history pg) \<Longrightarrow> P x \<Longrightarrow> purgeable cutoff pg (snd x)) \<Longrightarrow>
    strip_where (\<lambda>x. purgeable cutoff pg (snd x)) (strip_where P pg) = strip_where (\<lambda>x. purgeable cutoff pg (snd x)) pg"
  by (auto simp: strip_where_def)

lemma filter_taken:
  "distinct (map fst xs) \<Longrightarrow> filter (\<lambda>x. fst x \<in> set (take n (map fst xs))) xs = take n xs"
proof (induction xs arbitrary: n)
  case (Cons x xs)
  show ?case
  proof (cases n)
    case (Suc m)
    have "fst y \<noteq> fst x" if "y \<in> set xs" for y using Cons.prems that by (auto dest: sym)
    then have "filter (\<lambda>y. fst y = fst x \<or> fst y \<in> set (take m (map fst xs))) xs = filter (\<lambda>y. fst y \<in> set (take m (map fst xs))) xs"
      by (intro filter_cong) auto
    with Suc Cons show ?thesis by simp
  qed simp
qed simp

lemma purge_loop_strips:
  assumes "distinct (map fst (pt_history pg))"
  shows "purge_loop cutoff acc pg = (acc + purge_left cutoff pg, strip_where (\<lambda>x. purgeable cutoff pg (snd x)) pg)"
  using assms
proof (induction cutoff acc pg rule: purge_loop.induct)
  case (1 cutoff acc pg)
  let ?F = "filter (\<lambda>x. purgeable cutoff pg (snd x)) (pt_history pg)"
  define ids where "ids = take BATCH_SIZE (map fst ?F)"
  define pg' where "pg' = strip_where (\<lambda>x. fst x \<in> set ids) pg"
  have b: "purge_batch cutoff pg = (ids, pg')" by (simp add: purge_batch_strip ids_def pg'_def Let_def)
  have d: "distinct (map fst ?F)" by (rule distinct_map_filter[OF 1(2)])
  have l: "purge_left cutoff pg = length ?F" by (simp add: purge_left_def split_def)
  have sub: "fst x \<in> set ids \<Longrightarrow> x \<in> set (pt_history pg) \<Longrightarrow> purgeable cutoff pg (snd x)" for x
    using 1(2) by (auto simp: ids_def dest!: in_set_takeD) (metis distinct_map inj_onD fst_conv snd_conv)
  show ?case
  proof (cases "length ids < BATCH_SIZE")
    case True
    then have i: "ids = map fst ?F" by (simp add: ids_def)
    have "fst x \<in> set ids \<longleftrightarrow> purgeable cutoff pg (snd x)" if "x \<in> set (pt_history pg)" for x
      using sub[OF _ that] that unfolding i by force
    then have "pg' = strip_where (\<lambda>x. purgeable cutoff pg (snd x)) pg"
      unfolding pg'_def strip_where_def by (simp cong: map_cong)
    with i have "length ids = length ?F \<and> pg' = strip_where (\<lambda>x. purgeable cutoff pg (snd x)) pg" by simp
    then show ?thesis using b True l by (subst purge_loop.simps) simp
  next
    case False
    have k: "distinct (map fst (pt_history pg'))" using 1(2) by (simp add: pg'_def strip_where_def comp_def)
    have "purge_left cutoff pg' = length (filter (\<lambda>x. fst x \<notin> set ids) ?F)"
      by (simp add: purge_left_def split_def pg'_def filter_strip[of cutoff pg] conj_commute)
    moreover have "length ids + length (filter (\<lambda>x. fst x \<notin> set ids) ?F) = length ?F"
      using sum_length_filter_compl[of "\<lambda>x. fst x \<in> set ids" ?F] filter_taken[OF d, of BATCH_SIZE] by (simp add: ids_def)
    ultimately have "length ids + purge_left cutoff pg' = purge_left cutoff pg" using l by simp
    moreover have "strip_where (\<lambda>x. purgeable cutoff pg' (snd x)) pg' = strip_where (\<lambda>x. purgeable cutoff pg (snd x)) pg"
      unfolding pg'_def purgeable_strip(1) by (rule strip_twice) (rule sub)
    ultimately show ?thesis using 1(1)[OF b[symmetric] False k] b False by (subst purge_loop.simps) simp
  qed
qed

text \<open>
  C38. The purge ends, and strips the snapshots of exactly the steps of instances that finished before the cutoff; it
  counts them, keeps everything else, and does nothing when it is run again.
\<close>

theorem purge_strips_finished_instances:
  assumes "distinct (map fst (pt_history pg))"
  shows "purgeHistorySnapshots n days pg =
      (length (filter (\<lambda>x. purgeable (n - days * RETENTION_DAY_MS) pg (snd x)) (pt_history pg)),
       strip_where (\<lambda>x. purgeable (n - days * RETENTION_DAY_MS) pg (snd x)) pg) \<and>
    purgeHistorySnapshots n days (snd (purgeHistorySnapshots n days pg)) = (0, snd (purgeHistorySnapshots n days pg))"
proof -
  let ?P = "\<lambda>x. purgeable (n - days * RETENTION_DAY_MS) pg (snd x)"
  have one: "purgeHistorySnapshots n days pg = (length (filter ?P (pt_history pg)), strip_where ?P pg)"
    using purge_loop_strips[OF assms] by (simp add: purgeHistorySnapshots_def purge_left_def split_def)
  have "distinct (map fst (pt_history (strip_where ?P pg)))" using assms by (simp add: strip_where_def comp_def)
  from purge_loop_strips[OF this, of "n - days * RETENTION_DAY_MS" 0]
  have "purgeHistorySnapshots n days (strip_where ?P pg) = (0, strip_where ?P (strip_where ?P pg))"
    by (simp add: purgeHistorySnapshots_def purge_left_def split_def filter_strip[of "n - days * RETENTION_DAY_MS" pg ?P] filter_empty_conv)
  moreover have "strip_where ?P (strip_where ?P pg) = strip_where ?P pg" by (rule strip_twice)
  ultimately show ?thesis using one by simp
qed

definition sample_finished :: process_instance where
  "sample_finished = \<lparr>pi_id = ''i'', pi_definitionId = ''d'', pi_definitionVersion = 1, pi_status = CompletedI, pi_rootScopeId = ''s'',
     pi_correlationKey = None, pi_businessKey = None, pi_parentInstanceId = None, pi_parentTokenId = None, pi_startedAt = 0,
     pi_completedAt = Some 5, pi_errorInfo = None, pi_version = None\<rparr>"

definition sample_step :: history_entry where
  "sample_step = \<lparr>he_id = ''h'', he_instanceId = ''i'', he_tokenId = ''t'', he_elementId = ''e'', he_elementType = UserTaskT, he_status = HCompleted,
     he_startedAt = 1, he_completedAt = 5, he_variablesSnapshot = Some [], he_forced = None\<rparr>"

definition sample_old :: pg_store where
  "sample_old = empty_pg\<lparr>
     pt_instances := [(''i'', \<lparr>ir_definitionId = ''d'', ir_status = CompletedI, ir_correlationKey = None, ir_businessKey = None, ir_startedAt = 0,
       ir_completedAt = Some 5, ir_data = sample_finished, ir_version = 1\<rparr>)],
     pt_history := [(''h'', \<lparr>hr_instanceId = ''i'', hr_startedAt = 1, hr_data = sample_step\<rparr>)]\<rparr>"

theorem purge_strips_finished_instances_witness:
  "map (\<lambda>x. he_variablesSnapshot (hr_data (snd x))) (pt_history sample_old) = [Some []] \<and>
   fst (purgeHistorySnapshots 86400006 1 sample_old) = 1 \<and>
   map (\<lambda>x. he_variablesSnapshot (hr_data (snd x))) (pt_history (snd (purgeHistorySnapshots 86400006 1 sample_old))) = [None]"
proof -
  have "distinct (map fst (pt_history sample_old))" by (simp add: sample_old_def)
  from purge_strips_finished_instances[OF this, of 86400006 1] show ?thesis
    by (simp add: sample_old_def sample_step_def purgeable_def finished_at_def strip_where_def stripped_def RETENTION_DAY_MS_def empty_pg_def)
qed

theorem stopped_manager_runs_nothing_witness:
  "activeTenants (fold manager_step [Ensure ''a'', SyncBegins, StopManager, SyncEnsures [''a'', ''b''], SyncEnds [''a'', ''b'']] new_manager) = []"
  using stopped_manager_runs_nothing[of "[Ensure ''a'', SyncBegins, StopManager, SyncEnsures [''a'', ''b''], SyncEnds [''a'', ''b'']]"] by simp

theorem lone_polls_fire_once_witness:
  "length (filter (\<lambda>t. tm_id t = ''t'') (fst (poll_run [SaveTimer (timer_at 5), BeginPoll 9, NextTimer 0, BeginPoll 14] empty_poller))) \<le> 1"
proof -
  have "one_poll [SaveTimer (timer_at 5), BeginPoll 9, NextTimer 0, BeginPoll 14] empty_poller"
    by (simp add: empty_poller_def empty_pg_def poll_begin_def poll_next_def pg_getDueTimers_def pg_saveTimer_def pg_deleteTimer_def
        upsert_row_def reviveScheduledTimer_def map_values_def timer_at_def)
  from lone_polls_fire_once[OF this, of "''t''"] show ?thesis by (simp add: saves_def timer_at_def)
qed

text \<open>What was scheduled is there until it is cancelled, in both schedulers.\<close>

interpretation scheduler_timers: deletable_collection tm_id "sched_schedule n" "\<lambda>i s. map_of (sd_timers s) i" sched_cancel for n
  by unfold_locales (auto simp: sched_schedule_def sched_cancel_def Let_def update_conv' AList.delete_conv' split: option.split)

end
