(* ===== verification/App_Admin.thy ===== *)
theory App_Admin
  imports Bpmn_Parser Postgres_Store User_Admin Audit_Log Platform_Api Event_Delivery
begin

text \<open>
  What administers the app: deploying definitions (\<open>http/definitions.ts\<close>), the routes of people
  (\<open>http/users.ts\<close>) and of the audit log (\<open>http/audit.ts\<close>), the counts of a tenant (\<open>db/tenantCounts.ts\<close>), and what is
  run from the command line: \<open>auth/createOperator.ts\<close>, \<open>auth/createSystemAdmin.ts\<close>, \<open>db/provisionTenant.ts\<close>, with
  the configuration (\<open>config.ts\<close>, \<open>auth/origin.ts\<close>). A body is given by its length in bytes and its text, or as what
  \<open>JSON\<close> makes of it; \<open>zod\<close>'s parsing of a version, \<open>Number\<close>, \<open>new Date\<close> and \<open>new URL\<close> are parameters. Texts of
  messages are left out.
\<close>

section \<open>Definitions\<close>

datatype definition_reply =
    DefinitionRejected nat string
  | DefinitionThrew engine_error
  | Deployed definition_summary "validation_error list"
  | DefinitionsAre "definition_summary list"
  | XmlIs string
  | DefinitionIs process_definition
  | DefinitionDeleted string

definition ONE_MB :: nat where
  "ONE_MB = 1 * 1024 * 1024"

text \<open>The test for \<open>null\<close> of the source never holds: the parser always answers with a definition.\<close>

definition deploy_definition ::
  "(rat \<Rightarrow> string) \<Rightarrow> (string \<Rightarrow> string + jsval) \<Rightarrow> int \<Rightarrow> nat \<Rightarrow> string \<Rightarrow> pg_store \<Rightarrow> definition_reply \<times> pg_store" where
  "deploy_definition num xml_parse n bytes xml pg =
     (if ONE_MB < bytes then (DefinitionRejected 413 ''PAYLOAD_TOO_LARGE'', pg)
      else
        (case parseBpmn num xml_parse n xml of
           Inl (DefinitionError m) \<Rightarrow> (DefinitionRejected 400 ''DEFINITION_ERROR'', pg)
         | Inl e \<Rightarrow> (DefinitionThrew e, pg)
         | Inr (d, errors) \<Rightarrow>
             (Deployed \<lparr>ds_id = pd_id d, ds_version = pd_version d, ds_name = pd_name d, ds_deployedAt = pd_deployedAt d,
                ds_isDeployable = pd_isDeployable d\<rparr> errors,
              saveDefinitionXml (pd_id d) (pd_version d) xml (pg_saveDefinition d pg))))"

definition list_definitions :: "string option \<Rightarrow> pg_store \<Rightarrow> definition_reply" where
  "list_definitions isDeployable pg = DefinitionsAre (pg_listDefinitions (map_option (\<lambda>s. s = ''true'') isDeployable) pg)"

text \<open>The version of the query, if \<open>zod\<close> accepts it.\<close>

datatype version_query = BadVersion | OfVersion "int option"

definition get_definition_xml :: "string \<Rightarrow> version_query \<Rightarrow> pg_store \<Rightarrow> definition_reply" where
  "get_definition_xml i q pg =
     (case q of
        BadVersion \<Rightarrow> DefinitionRejected 400 ''VALIDATION_ERROR''
      | OfVersion version \<Rightarrow>
          (case getDefinitionXml i version pg of None \<Rightarrow> DefinitionRejected 404 ''NOT_FOUND'' | Some xml \<Rightarrow> XmlIs xml))"

definition get_definition :: "string \<Rightarrow> version_query \<Rightarrow> pg_store \<Rightarrow> definition_reply" where
  "get_definition i q pg =
     (case q of
        BadVersion \<Rightarrow> DefinitionRejected 400 ''VALIDATION_ERROR''
      | OfVersion version \<Rightarrow>
          (case pg_getDefinition i version pg of None \<Rightarrow> DefinitionRejected 404 ''NOT_FOUND'' | Some d \<Rightarrow> DefinitionIs d))"

definition instances_in :: "string \<Rightarrow> instance_status \<Rightarrow> pg_store \<Rightarrow> nat" where
  "instances_in i st pg =
     pr_total (pg_findInstances \<lparr>iq_definitionId = Some i, iq_status = Some [st], iq_correlationKey = None, iq_businessKey = None,
       iq_startedAfter = None, iq_startedBefore = None, iq_page = 0, iq_pageSize = 1\<rparr> pg)"

definition delete_definition :: "string \<Rightarrow> pg_store \<Rightarrow> definition_reply \<times> pg_store" where
  "delete_definition i pg =
     (if pg_getDefinition i None pg = None then (DefinitionRejected 404 ''NOT_FOUND'', pg)
      else
        let blockedCount = instances_in i PendingI pg + instances_in i ActiveI pg + instances_in i SuspendedI pg
        in if 0 < blockedCount then (DefinitionRejected 409 ''HAS_ACTIVE_INSTANCES'', pg)
           else (DefinitionDeleted i, pg_deleteDefinition i pg))"

section \<open>People\<close>

record invite_link =
  il_token :: string
  il_path :: string
  il_url :: "string option"
  il_expiresAt :: int

datatype people_reply =
    PeopleRejected nat string
  | PeopleThrew store_error
  | PeopleAre "user_with_memberships list"
  | PersonIs user_with_memberships
  | PersonCreated user_with_memberships invite_link
  | MembershipCreated membership
  | PersonInvited user_with_memberships invite_link
  | PeopleSuccess

definition STATUS :: "failure_kind \<Rightarrow> nat" where
  "STATUS k = (case k of Invalid \<Rightarrow> 400 | Forbidden \<Rightarrow> 403 | NotFound \<Rightarrow> 404 | Conflict \<Rightarrow> 409)"

definition kind_name :: "failure_kind \<Rightarrow> string" where
  "kind_name k = (case k of Invalid \<Rightarrow> ''INVALID'' | Forbidden \<Rightarrow> ''FORBIDDEN'' | NotFound \<Rightarrow> ''NOT_FOUND'' | Conflict \<Rightarrow> ''CONFLICT'')"

definition ROLES :: "(string \<times> membership_role) list" where
  "ROLES = [(''system_admin'', SystemAdmin), (''operator'', Operator), (''tenant_manager'', TenantManager)]"

definition invalid_person :: people_reply where
  "invalid_person = PeopleRejected 400 ''VALIDATION_ERROR''"

definition parseMembership :: "jsval \<Rightarrow> membership_request option" where
  "parseMembership v =
     (case v of
        JObject ms \<Rightarrow>
          (case member ms ''role'' of
             JString r \<Rightarrow>
               (case map_of ROLES r of
                  None \<Rightarrow> None
                | Some role \<Rightarrow>
                    (case member ms ''tenantId'' of
                       JNull \<Rightarrow> Some \<lparr>mr_role = role, mr_tenantId = None\<rparr>
                     | JUndefined \<Rightarrow> Some \<lparr>mr_role = role, mr_tenantId = None\<rparr>
                     | JString t \<Rightarrow> Some \<lparr>mr_role = role, mr_tenantId = Some t\<rparr>
                     | _ \<Rightarrow> None))
           | _ \<Rightarrow> None)
      | _ \<Rightarrow> None)"

definition people_outcome :: "('a \<Rightarrow> people_reply) \<Rightarrow> 'a outcome \<Rightarrow> people_reply" where
  "people_outcome success r =
     (case r of
        Inl e \<Rightarrow> PeopleThrew e
      | Inr (Inl f) \<Rightarrow> PeopleRejected (STATUS (fa_error f)) (kind_name (fa_error f))
      | Inr (Inr v) \<Rightarrow> success v)"

definition inviteBody :: "string option \<Rightarrow> string \<times> int \<Rightarrow> invite_link" where
  "inviteBody publicOrigin invite =
     (let path = ''/console/invite/'' @ fst invite
      in \<lparr>il_token = fst invite, il_path = path,
          il_url = (if truthy publicOrigin then Some (the publicOrigin @ path) else None), il_expiresAt = snd invite\<rparr>)"

text \<open>The memberships of a new person: refused, not given, or a list.\<close>

definition memberships_in :: "jsval \<Rightarrow> membership_request list option option" where
  "memberships_in v =
     (case v of
        JUndefined \<Rightarrow> Some None
      | JArray xs \<Rightarrow> (if list_all (\<lambda>x. parseMembership x \<noteq> None) xs then Some (Some (List.map_filter parseMembership xs)) else None)
      | _ \<Rightarrow> None)"

datatype people_route =
    GetPeople
  | PostPerson "jsval option"
  | GetPerson string
  | PatchPerson string "jsval option"
  | PostMembership string "jsval option"
  | DeleteMembership string string
  | PostInvite string

definition post_person ::
  "admin_env \<Rightarrow> string option \<Rightarrow> principal \<Rightarrow> jsval option \<Rightarrow> accounts \<Rightarrow> people_reply \<times> accounts" where
  "post_person env publicOrigin actor body db =
     (case body_members body of
        None \<Rightarrow> (invalid_person, db)
      | Some ms \<Rightarrow>
          (case (member ms ''email'', member ms ''name'') of
             (JString email, JString name) \<Rightarrow>
               (case memberships_in (member ms ''memberships'') of
                  None \<Rightarrow> (invalid_person, db)
                | Some parsed \<Rightarrow>
                    (case create_person env actor \<lparr>cr_email = email, cr_name = name, cr_memberships = parsed\<rparr> db of
                       (r, db') \<Rightarrow> (people_outcome (\<lambda>(u, invite). PersonCreated u (inviteBody publicOrigin invite)) r, db')))
           | _ \<Rightarrow> (invalid_person, db)))"

definition patch_person ::
  "admin_env \<Rightarrow> principal \<Rightarrow> string \<Rightarrow> jsval option \<Rightarrow> accounts \<Rightarrow> people_reply \<times> accounts" where
  "patch_person env actor i body db =
     (case body_members body of
        None \<Rightarrow> (invalid_person, db)
      | Some ms \<Rightarrow>
          if member ms ''status'' \<noteq> JString ''active'' \<and> member ms ''status'' \<noteq> JString ''disabled'' then (invalid_person, db)
          else
            (case set_person_status env actor i (if member ms ''status'' = JString ''active'' then ActiveU else DisabledU) db of
               (r, db') \<Rightarrow> (people_outcome PersonIs r, db')))"

definition post_membership ::
  "admin_env \<Rightarrow> principal \<Rightarrow> string \<Rightarrow> jsval option \<Rightarrow> accounts \<Rightarrow> people_reply \<times> accounts" where
  "post_membership env actor i body db =
     (case body_members body of
        None \<Rightarrow> (invalid_person, db)
      | Some ms \<Rightarrow>
          (case parseMembership (JObject ms) of
             None \<Rightarrow> (invalid_person, db)
           | Some request \<Rightarrow>
               (case add_person_membership env actor i request db of (r, db') \<Rightarrow> (people_outcome MembershipCreated r, db'))))"

fun people_routed ::
  "admin_env \<Rightarrow> string option \<Rightarrow> principal \<Rightarrow> people_route \<Rightarrow> accounts \<Rightarrow> people_reply \<times> accounts" where
  "people_routed env origin actor GetPeople db = (people_outcome PeopleAre (list_people actor db), db)"
| "people_routed env origin actor (PostPerson body) db = post_person env origin actor body db"
| "people_routed env origin actor (GetPerson i) db = (people_outcome PersonIs (get_person actor i db), db)"
| "people_routed env origin actor (PatchPerson i body) db = patch_person env actor i body db"
| "people_routed env origin actor (PostMembership i body) db = post_membership env actor i body db"
| "people_routed env origin actor (DeleteMembership i m) db =
     (case remove_person_membership env actor i m db of (r, db') \<Rightarrow> (people_outcome (\<lambda>_. PeopleSuccess) r, db'))"
| "people_routed env origin actor (PostInvite i) db =
     (case reinvite_person env actor i db of
        (r, db') \<Rightarrow> (people_outcome (\<lambda>(u, invite). PersonInvited u (inviteBody origin invite)) r, db'))"

text \<open>The router behind the guard that admits whoever may administer people.\<close>

definition people_request ::
  "admin_env \<Rightarrow> access_env \<Rightarrow> http_request \<Rightarrow> people_route \<Rightarrow> platform \<Rightarrow> people_reply \<times> platform" where
  "people_request env ae rq r pl =
     (case peopleAdminGuard ae rq pl of
        (Granted t p, pl1) \<Rightarrow>
          (case people_routed env (ae_publicOrigin ae) p r (pl_accounts pl1) of (reply, db) \<Rightarrow> (reply, pl1\<lparr>pl_accounts := db\<rparr>))
      | (Denied n e, pl1) \<Rightarrow> (PeopleRejected n e, pl1)
      | (Open, pl1) \<Rightarrow> (PeopleThrew (UnexpectedError ''users router mounted without a guard''), pl1))"

section \<open>The audit log\<close>

definition MAX_PAGE_SIZE :: nat where
  "MAX_PAGE_SIZE = 100"

definition DEFAULT_PAGE_SIZE :: nat where
  "DEFAULT_PAGE_SIZE = 50"

definition whole :: "string option \<Rightarrow> nat \<Rightarrow> nat \<Rightarrow> nat \<Rightarrow> nat option" where
  "whole v fallback lowest highest =
     (case v of
        None \<Rightarrow> Some fallback
      | Some s \<Rightarrow>
          if s = [] \<or> \<not> list_all digit s then None
          else if lowest \<le> number_of s \<and> number_of s \<le> highest then Some (number_of s) else None)"

text \<open>A date asked for: \<open>None\<close> if it is invalid, \<open>Some None\<close> if there is none.\<close>

definition date_in :: "(string \<Rightarrow> int option) \<Rightarrow> string option \<Rightarrow> int option option" where
  "date_in parse_date v = (if truthy v then (case parse_date (the v) of None \<Rightarrow> None | Some t \<Rightarrow> Some (Some t)) else Some None)"

datatype audit_reply = AuditRejected nat string | AuditPage "audit_entry list" nat

text \<open>What a caller may read: everything, or the entries of the tenants they manage; or they are refused.\<close>

definition visible_to :: "principal \<Rightarrow> string option \<Rightarrow> audit_reply + string list option" where
  "visible_to p tenant =
     (if isOperator p then Inr None
      else if managedTenantIds p = [] then Inl (AuditRejected 403 ''FORBIDDEN'')
      else if truthy tenant \<and> the tenant \<notin> set (managedTenantIds p) then Inl (AuditRejected 403 ''FORBIDDEN'')
      else Inr (Some (managedTenantIds p)))"

definition get_audit ::
  "(string \<Rightarrow> int option) \<Rightarrow> (audit_entry list \<Rightarrow> audit_entry list) \<Rightarrow> principal \<Rightarrow> (string \<times> string) list \<Rightarrow>
     audit_entry list \<Rightarrow> audit_reply" where
  "get_audit parse_date newest_first p q rows =
     (case (whole (map_of q ''page'') 0 0 1000000, whole (map_of q ''pageSize'') DEFAULT_PAGE_SIZE 1 MAX_PAGE_SIZE,
        date_in parse_date (map_of q ''from''), date_in parse_date (map_of q ''to'')) of
        (Some page, Some pageSize, Some since, Some until) \<Rightarrow>
          (case visible_to p (map_of q ''tenant'') of
             Inl r \<Rightarrow> r
           | Inr visible \<Rightarrow>
               (case audit_list newest_first \<lparr>aq_visibleToManagerOf = visible, aq_tenantId = map_of q ''tenant'',
                    aq_actor = map_of q ''actor'', aq_action = map_of q ''action'', aq_from = since, aq_to = until,
                    aq_page = page, aq_pageSize = pageSize\<rparr> rows of
                  (found, n) \<Rightarrow> AuditPage found n))
      | _ \<Rightarrow> AuditRejected 400 ''VALIDATION_ERROR'')"

section \<open>Counting a tenant's instances\<close>

definition INSTANCE_STATUSES :: "instance_status list" where
  "INSTANCE_STATUSES = [PendingI, ActiveI, SuspendedI, CompletedI, TerminatedI]"

record tenant_counts =
  tc_instances :: "(instance_status \<times> nat) list"
  tc_pendingTasks :: nat

text \<open>The rows of \<open>GROUP BY status\<close>, and the counts with a zero for every status without a row.\<close>

definition rows_by_status :: "pg_store \<Rightarrow> (instance_status \<times> nat) list" where
  "rows_by_status pg =
     (let sts = map ir_status (map_values (pt_instances pg)) in map (\<lambda>st. (st, length (filter (\<lambda>x. x = st) sts))) (remdups sts))"

definition readTenantCounts :: "pg_store \<Rightarrow> tenant_counts" where
  "readTenantCounts pg =
     \<lparr>tc_instances = fold (\<lambda>(st, n) m. if map_of m st \<noteq> None then AList.update st n m else m) (rows_by_status pg)
        (map (\<lambda>st. (st, 0)) INSTANCE_STATUSES),
      tc_pendingTasks = length (filter (\<lambda>r. kr_status r = TaskOpen \<or> kr_status r = TaskClaimed) (map_values (pt_tasks pg)))\<rparr>"

section \<open>The command line\<close>

text \<open>
  What makes a person an operator or a system admin and invites them: the two functions differ in the role
  only. Each statement is its own transaction, so what was done before an error stays.
\<close>

record cli_env =
  ce_now :: int
  ce_userId :: string
  ce_membershipId :: string
  ce_invite :: new_invite

definition name_for :: "string option \<Rightarrow> string \<Rightarrow> string" where
  "name_for name email =
     (let given = js_trim (case name of Some s \<Rightarrow> s | None \<Rightarrow> []); local = hd (split_on (CHR ''@'') email) in
      if given \<noteq> [] then given else if local \<noteq> [] then local else email)"

definition enable_again :: "user \<Rightarrow> accounts \<Rightarrow> (store_error + user) \<times> accounts" where
  "enable_again u db =
     (if u_status u = ActiveU then (Inr u, db)
      else
        (case setStatus (u_id u) ActiveU None db of
           (Inl e, db1) \<Rightarrow> (Inl e, db1)
         | (Inr b, db1) \<Rightarrow> (Inr (case findById (u_id u) db1 of Some x \<Rightarrow> x | None \<Rightarrow> u), db1)))"

definition create_with_role ::
  "membership_role \<Rightarrow> cli_env \<Rightarrow> string \<Rightarrow> string option \<Rightarrow> accounts \<Rightarrow> (store_error + user \<times> bool \<times> string \<times> int) \<times> accounts" where
  "create_with_role role env email_input name db =
     (case normalizeEmail email_input of
        None \<Rightarrow> (Inl (UserInputError ''Invalid email address''), db)
      | Some email \<Rightarrow>
          (case (case findByEmail email db of
                   Some u \<Rightarrow> (Inr u, db)
                 | None \<Rightarrow> createUser (ce_userId env) (ce_now env) email (name_for name email) None db) of
             (Inl e, db1) \<Rightarrow> (Inl e, db1)
           | (Inr u, db1) \<Rightarrow>
               (case enable_again u db1 of
                  (Inl e, db2) \<Rightarrow> (Inl e, db2)
                | (Inr u', db2) \<Rightarrow>
                    (case addMembership (ce_membershipId env) (ce_now env) (u_id u') role None None db2 of
                       (Inl e, db3) \<Rightarrow> (Inl e, db3)
                     | (Inr m, db3) \<Rightarrow>
                         (case invite_create (ce_invite env) (u_id u') None None db3 of
                            (Inl e, db4) \<Rightarrow> (Inl e, db4)
                          | (Inr invite, db4) \<Rightarrow> (Inr (u', findByEmail email db = None, invite), db4))))))"

definition createOperatorWithInvite ::
  "cli_env \<Rightarrow> string \<Rightarrow> string option \<Rightarrow> accounts \<Rightarrow> (store_error + user \<times> bool \<times> string \<times> int) \<times> accounts" where
  "createOperatorWithInvite = create_with_role Operator"

definition createSystemAdminWithInvite ::
  "cli_env \<Rightarrow> string \<Rightarrow> string option \<Rightarrow> accounts \<Rightarrow> (store_error + user \<times> bool \<times> string \<times> int) \<times> accounts" where
  "createSystemAdminWithInvite = create_with_role SystemAdmin"

definition removeSystemAdmin :: "string \<Rightarrow> accounts \<Rightarrow> (store_error + user \<times> bool) \<times> accounts" where
  "removeSystemAdmin email_input db =
     (case normalizeEmail email_input of
        None \<Rightarrow> (Inl (UserInputError ''Invalid email address''), db)
      | Some email \<Rightarrow>
          (case findByEmail email db of
             None \<Rightarrow> (Inl (UserInputError ''No user with this email''), db)
           | Some u \<Rightarrow>
               (case List.find (\<lambda>m. mb_role m = SystemAdmin) (listMemberships (u_id u) db) of
                  None \<Rightarrow> (Inr (u, False), db)
                | Some m \<Rightarrow>
                    (case removeMembership (u_id u) (mb_id m) None db of
                       (Inl e, db1) \<Rightarrow> (Inl e, db1)
                     | (Inr b, db1) \<Rightarrow> (Inr (u, True), db1)))))"

text \<open>
  \<open>provisionTenantWithKey\<close>: \<open>schema\<close> is whether creating the schema works; if it fails for a new tenant its row
  is removed again, and an error of that removal is swallowed.
\<close>

datatype provision_error = InvalidTenantId | SchemaFailed | StoreFailed store_error

definition provision_key :: "platform_env \<Rightarrow> string \<Rightarrow> string option \<Rightarrow> key_role option \<Rightarrow> platform \<Rightarrow>
    (provision_error + string) \<times> platform" where
  "provision_key env i keyName role pl =
     (case createApiKey (pe_mac env) (pe_plaintext env) (pe_newId env) (pe_now env) i
         (case keyName of Some n \<Rightarrow> n | None \<Rightarrow> ''provisioned key'') (Some (case role of Some r \<Rightarrow> r | None \<Rightarrow> ManagerRole)) None None pl of
        (Inl e, pl1) \<Rightarrow> (Inl (StoreFailed e), pl1)
      | (Inr (k, plaintext), pl1) \<Rightarrow> (Inr plaintext, pl1))"

definition provisionTenantWithKey ::
  "platform_env \<Rightarrow> string \<Rightarrow> string option \<Rightarrow> string option \<Rightarrow> key_role option \<Rightarrow> platform \<Rightarrow>
     (provision_error + bool \<times> string) \<times> platform" where
  "provisionTenantWithKey env i name keyName role pl =
     (if \<not> VALID_TENANT_ID i then (Inl InvalidTenantId, pl)
      else
        (case getTenant i pl of
           Some t \<Rightarrow>
             if \<not> pe_provision env then (Inl SchemaFailed, pl)
             else (case provision_key env i keyName role pl of (r, pl1) \<Rightarrow> (map_sum id (Pair False) r, pl1))
         | None \<Rightarrow>
             (case createTenant i (case name of Some n \<Rightarrow> n | None \<Rightarrow> i) (pe_now env) pl of
                (Inl e, pl1) \<Rightarrow> (Inl (StoreFailed e), pl1)
              | (Inr t, pl1) \<Rightarrow>
                  if \<not> pe_provision env then (Inl SchemaFailed, snd (deleteTenant i pl1))
                  else (case provision_key env i keyName role pl1 of (r, pl2) \<Rightarrow> (map_sum id (Pair True) r, pl2)))))"

section \<open>Configuration\<close>

text \<open>\<open>value ?? fallback\<close>, where an unset variable is \<open>undefined\<close>; and \<open>!value\<close>.\<close>

definition or_else :: "string option \<Rightarrow> string \<Rightarrow> string" where
  "or_else v fallback = (case v of Some s \<Rightarrow> s | None \<Rightarrow> fallback)"

definition parseTrustedProxies :: "string option \<Rightarrow> js_number" where
  "parseTrustedProxies v =
     (if \<not> truthy v \<or> v = Some ''false'' then Finite 0
      else if v = Some ''true'' then Finite 1
      else if list_all digit (the v) then Finite (of_nat (number_of (the v))) else NotANumber)"

definition parseMaxDays :: "string option \<Rightarrow> js_number option" where
  "parseMaxDays v =
     (case v of
        None \<Rightarrow> None
      | Some s \<Rightarrow>
          if js_trim s = [] then None
          else if list_all digit (js_trim s) \<and> 0 < number_of (js_trim s) then Some (Finite (of_nat (number_of (js_trim s))))
          else Some NotANumber)"

text \<open>A URL the parser accepts, with what \<open>normalizeOrigin\<close> reads of it; \<open>uo_origin\<close> is its \<open>origin\<close>.\<close>

record url_with_origin = url +
  uo_origin :: string

definition normalizeOrigin :: "(string \<Rightarrow> url_with_origin option) \<Rightarrow> string option \<Rightarrow> string option option" where
  "normalizeOrigin parser v =
     (let trimmed = js_trim (or_else v []) in
      if trimmed = [] then Some None
      else
        (case parser trimmed of
           None \<Rightarrow> None
         | Some u \<Rightarrow>
             if (ul_protocol u \<noteq> ''http:'' \<and> ul_protocol u \<noteq> ''https:'') \<or> ul_username u \<noteq> [] \<or> ul_password u \<noteq> [] then None
             else Some (Some (uo_origin u))))"

record server_config =
  cf_nodeEnv :: string
  cf_adminApiKey :: string
  cf_operatorKeyMaxDays :: "js_number option"
  cf_historyDays :: "js_number option"
  cf_apiKeyHmacSecret :: string
  cf_sessionIdleMs :: js_number
  cf_sessionMaxMs :: js_number
  cf_inviteTtlMs :: js_number
  cf_publicOrigin :: "string option"
  cf_publicOriginInvalid :: "string option"
  cf_trustedProxies :: js_number
  cf_webhookAllowHttp :: bool
  cf_webhookAllowedHosts :: "string list"

definition scaled :: "js_number \<Rightarrow> rat \<Rightarrow> js_number" where
  "scaled x k = (case x of Finite r \<Rightarrow> Finite (r * k) | _ \<Rightarrow> x)"

definition config ::
  "(string \<Rightarrow> js_number) \<Rightarrow> (string \<Rightarrow> url_with_origin option) \<Rightarrow> (string \<Rightarrow> string option) \<Rightarrow> server_config" where
  "config number parser env =
     (let origin = normalizeOrigin parser (env ''PUBLIC_ORIGIN'');
          num = (\<lambda>name fallback. case env name of Some s \<Rightarrow> number s | None \<Rightarrow> Finite fallback)
      in \<lparr>cf_nodeEnv = or_else (env ''NODE_ENV'') ''development'',
          cf_adminApiKey = or_else (env ''ADMIN_API_KEY'') [],
          cf_operatorKeyMaxDays = parseMaxDays (env ''OPERATOR_KEY_MAX_DAYS''),
          cf_historyDays = parseMaxDays (env ''HISTORY_SNAPSHOT_RETENTION_DAYS''),
          cf_apiKeyHmacSecret = or_else (env ''API_KEY_HMAC_SECRET'') [],
          cf_sessionIdleMs = scaled (num ''SESSION_IDLE_MINUTES'' 480) 60000,
          cf_sessionMaxMs = scaled (num ''SESSION_MAX_DAYS'' 7) 86400000,
          cf_inviteTtlMs = scaled (num ''INVITE_TTL_HOURS'' 168) 3600000,
          cf_publicOrigin = (case origin of Some o' \<Rightarrow> o' | None \<Rightarrow> None),
          cf_publicOriginInvalid = (if origin = None then env ''PUBLIC_ORIGIN'' else None),
          cf_trustedProxies = parseTrustedProxies (env ''TRUST_PROXY''),
          cf_webhookAllowHttp = (env ''WEBHOOK_ALLOW_HTTP'' = Some ''true''),
          cf_webhookAllowedHosts = parseAllowedHostsEnv (env ''WEBHOOK_ALLOWED_HOSTS'')\<rparr>)"

definition ADMIN_API_KEY_MIN_LENGTH :: nat where
  "ADMIN_API_KEY_MIN_LENGTH = 16"

fun finite_number :: "js_number \<Rightarrow> bool" where
  "finite_number (Finite r) = True"
| "finite_number _ = False"

fun positive_number :: "js_number \<Rightarrow> bool" where
  "positive_number (Finite r) = (0 < r)"
| "positive_number _ = False"

text \<open>Whether the server starts; where it does not, \<open>process.exit(1)\<close> ends it.\<close>

definition assertConfigValid :: "server_config \<Rightarrow> bool" where
  "assertConfigValid cfg =
     (if cf_adminApiKey cfg \<noteq> [] \<and> length (cf_adminApiKey cfg) < ADMIN_API_KEY_MIN_LENGTH \<and> cf_nodeEnv cfg = ''production'' then False
      else if cf_publicOriginInvalid cfg \<noteq> None then False
      else if (case cf_operatorKeyMaxDays cfg of Some d \<Rightarrow> \<not> finite_number d | None \<Rightarrow> False) then False
      else if (case cf_historyDays cfg of Some d \<Rightarrow> \<not> finite_number d | None \<Rightarrow> False) then False
      else if cf_trustedProxies cfg = NotANumber then False
      else if describeAllowListProblem (cf_webhookAllowedHosts cfg) \<noteq> None then False
      else if \<not> positive_number (cf_sessionIdleMs cfg) \<or> \<not> positive_number (cf_sessionMaxMs cfg) \<or> \<not> positive_number (cf_inviteTtlMs cfg) then False
      else if cf_apiKeyHmacSecret cfg = [] \<and> cf_nodeEnv cfg = ''production'' then False
      else True)"

section \<open>What deploying and deleting do\<close>

lemma parsed_version: "parseBpmn num xml_parse n xml = Inr (d, errors) \<Longrightarrow> pd_version d = 1"
  by (auto simp: parseBpmn_def parse_process_def sbind_ok Let_def split: sum.splits if_splits)

lemma saved_definition:
  "pg_getDefinition (pd_id d) (Some (pd_version d)) (saveDefinitionXml (pd_id d) (pd_version d) xml (pg_saveDefinition d pg)) = Some d"
  "getDefinitionXml (pd_id d) (Some (pd_version d)) (saveDefinitionXml (pd_id d) (pd_version d) xml (pg_saveDefinition d pg)) = Some xml"
  "k \<noteq> (pd_id d, pd_version d) \<Longrightarrow>
     map_of (pt_definitions (saveDefinitionXml (pd_id d) (pd_version d) xml (pg_saveDefinition d pg))) k = map_of (pt_definitions pg) k"
  by (auto simp: pg_getDefinition_def getDefinitionXml_def definition_row_of_def saveDefinitionXml_def pg_saveDefinition_def update_row_def
      upsert_row_def update_conv' Let_def split: option.splits)

text \<open>
  A deployed document can be read back: the definition the parser made of it, and its text, under version 1, which
  every deployment has; no other definition changes, but an earlier deployment of the same id is replaced.
\<close>

theorem deployments_are_read_back:
  assumes "deploy_definition num xml_parse n bytes xml pg = (Deployed s errors, pg')"
  shows "\<exists>d. parseBpmn num xml_parse n xml = Inr (d, errors) \<and> ds_id s = pd_id d \<and> ds_version s = 1 \<and>
    get_definition (ds_id s) (OfVersion (Some 1)) pg' = DefinitionIs d \<and>
    get_definition_xml (ds_id s) (OfVersion (Some 1)) pg' = XmlIs xml \<and>
    (\<forall>k. k \<noteq> (ds_id s, 1) \<longrightarrow> map_of (pt_definitions pg') k = map_of (pt_definitions pg) k)"
proof -
  from assms obtain d where d: "parseBpmn num xml_parse n xml = Inr (d, errors)" "ds_id s = pd_id d" "ds_version s = pd_version d"
    "pg' = saveDefinitionXml (pd_id d) (pd_version d) xml (pg_saveDefinition d pg)"
    by (auto simp: deploy_definition_def split: if_splits sum.splits engine_error.splits prod.splits)
  have v: "pd_version d = 1" by (rule parsed_version[OF d(1)])
  show ?thesis
    using d(1-3) saved_definition[where d = d and xml = xml and pg = pg, folded d(4), unfolded v]
    by (intro exI[of _ d]) (simp add: get_definition_def get_definition_xml_def v)
qed

text \<open>A status that keeps its definition from being deleted.\<close>

definition still_runs :: "instance_status \<Rightarrow> bool" where
  "still_runs st \<longleftrightarrow> st = PendingI \<or> st = ActiveI \<or> st = SuspendedI"

lemma instances_counted:
  "instances_in i st pg = length (filter (\<lambda>r. ir_definitionId r = i \<and> ir_status r = st) (map_values (pt_instances pg)))"
proof -
  have "filter (\<lambda>r. ir_definitionId r = i \<and> ir_status r = st) rs = filter (\<lambda>r. i = ir_definitionId r \<and> ir_status r = st) rs" for rs
    by (rule filter_cong) auto
  then show ?thesis by (simp add: instances_in_def pg_findInstances_def first_page_total[unfolded One_nat_def] wants_def eq_commute)
qed

text \<open>
  A definition with an instance that has not ended is never deleted; without one all its versions are, and nothing
  else; and one that does not exist is reported.
\<close>

theorem definitions_in_use_stay:
  "delete_definition i pg =
     (if pg_getDefinition i None pg = None then (DefinitionRejected 404 ''NOT_FOUND'', pg)
      else if list_ex (\<lambda>r. ir_definitionId r = i \<and> still_runs (ir_status r)) (map_values (pt_instances pg))
      then (DefinitionRejected 409 ''HAS_ACTIVE_INSTANCES'', pg)
      else (DefinitionDeleted i, pg\<lparr>pt_definitions := filter (\<lambda>x. fst (fst x) \<noteq> i) (pt_definitions pg)\<rparr>))"
proof -
  have "0 < instances_in i PendingI pg + instances_in i ActiveI pg + instances_in i SuspendedI pg \<longleftrightarrow>
      list_ex (\<lambda>r. ir_definitionId r = i \<and> still_runs (ir_status r)) (map_values (pt_instances pg))"
    by (auto simp: instances_counted still_runs_def list_ex_iff filter_empty_conv)
  then show ?thesis by (simp add: delete_definition_def pg_deleteDefinition_def split_def)
qed

section \<open>What the routes of people do\<close>

text \<open>
  Every request to the routes of people is at most one request to the administration of people: what holds for
  its requests holds behind the routes.
\<close>

theorem people_routes_administer:
  "\<exists>rs. length rs \<le> 1 \<and> snd (people_routed env origin actor r db) = fold (\<lambda>q db. snd (administer env actor q db)) rs db"
proof -
  define reached where "reached db' \<longleftrightarrow> db' = db \<or> (\<exists>q. db' = snd (administer env actor q db))" for db'
  have same: "reached db" by (simp add: reached_def)
  have asked: "reached (snd (administer env actor q db))" for q by (auto simp: reached_def)
  have "create_person env actor a db = (x1, db') \<Longrightarrow> reached db'" "set_person_status env actor i st db = (x2, db') \<Longrightarrow> reached db'"
    "add_person_membership env actor i b db = (x3, db') \<Longrightarrow> reached db'" "remove_person_membership env actor i m db = (x4, db') \<Longrightarrow> reached db'"
    "reinvite_person env actor i db = (x2', db') \<Longrightarrow> reached db'" for a i st b m x1 x2 x3 x4 x2' db'
    using asked[of "CreatePerson a"] asked[of "SetPersonStatus i st"] asked[of "AddPersonMembership i b"]
      asked[of "RemovePersonMembership i m"] asked[of "ReinvitePerson i"] by simp_all
  then have "reached (snd (people_routed env origin actor r db))"
    using same by (cases r) (auto simp: post_person_def patch_person_def post_membership_def split: option.splits jsval.splits prod.splits)
  then consider "snd (people_routed env origin actor r db) = db" | q where "snd (people_routed env origin actor r db) = snd (administer env actor q db)"
    by (auto simp: reached_def)
  then show ?thesis
  proof cases
    case 1
    then show ?thesis by (intro exI[of _ "[]"]) simp
  next
    case (2 q)
    then show ?thesis by (intro exI[of _ "[q]"]) simp
  qed
qed

section \<open>Who reads the audit log\<close>

lemma never_visible: "visible_to p tenant \<noteq> Inl (AuditPage found n)"
  by (simp add: visible_to_def)

text \<open>
  A caller who is no operator reads only entries that name tenants, all of them tenants they manage, whatever they
  filter by; nobody reads more than a page of the largest size.
\<close>

theorem managers_read_their_entries:
  assumes "get_audit parse_date newest_first p q rows = AuditPage found n" "\<And>es. set (newest_first es) = set es"
  shows "list_all (\<lambda>e. e \<in> set rows \<and> (isOperator p \<or> au_tenantIds e \<noteq> [] \<and> set (au_tenantIds e) \<subseteq> set (managedTenantIds p))) found \<and>
    length found \<le> MAX_PAGE_SIZE"
proof -
  from assms(1) obtain page pageSize visible since until' where w: "whole (map_of q ''pageSize'') DEFAULT_PAGE_SIZE 1 MAX_PAGE_SIZE = Some pageSize"
    and v: "visible_to p (map_of q ''tenant'') = Inr visible"
    and f: "found = take pageSize (drop (page * pageSize) (newest_first (filter (audit_matches \<lparr>aq_visibleToManagerOf = visible,
      aq_tenantId = map_of q ''tenant'', aq_actor = map_of q ''actor'', aq_action = map_of q ''action'', aq_from = since, aq_to = until',
      aq_page = page, aq_pageSize = pageSize\<rparr>) rows)))"
    by (auto simp: get_audit_def audit_list_def Let_def never_visible split: option.splits sum.splits)
  have "pageSize \<le> MAX_PAGE_SIZE"
    using w by (auto simp: whole_def DEFAULT_PAGE_SIZE_def MAX_PAGE_SIZE_def split: option.splits if_splits)
  moreover have "length found \<le> pageSize" by (simp add: f)
  moreover have "e \<in> set rows \<and> given visible (\<lambda>ts. au_tenantIds e \<noteq> [] \<and> list_all (\<lambda>t. t \<in> set ts) (au_tenantIds e))" if "e \<in> set found" for e
    using that unfolding f by (auto dest!: in_set_takeD in_set_dropD simp: assms(2) audit_matches_def)
  moreover have "\<not> isOperator p \<Longrightarrow> visible = Some (managedTenantIds p)"
    using v by (auto simp: visible_to_def split: if_splits)
  ultimately show ?thesis by (cases "isOperator p") (fastforce simp: list_all_iff given_def)+
qed

section \<open>What the command line does\<close>

lemma enabled_again:
  assumes "enable_again u db = (Inr u', db')" "user_rows (u_id u) db \<noteq> []" "accounts_ok db"
  shows "u_status u' = ActiveU \<and> u_id u' = u_id u \<and> accounts_ok db' \<and> db_memberships db' = db_memberships db"
proof (cases "u_status u = ActiveU")
  case False
  let ?db = "update_user (u_id u) (\<lambda>r. r\<lparr>us_status := ActiveU\<rparr>) db"
  have s: "setStatus (u_id u) ActiveU None db = (Inr True, ?db)"
    using assms(2) by (simp add: setStatus_def run_hook_def)
  have m: "user_rows (u_id u) ?db = map (\<lambda>r. r\<lparr>us_status := ActiveU\<rparr>) (user_rows (u_id u) db)"
  proof -
    have "filter (\<lambda>r. us_id r = i) (map (\<lambda>r. if us_id r = i then f r else r) us) = map f (filter (\<lambda>r. us_id r = i) us)"
      if "\<And>r. us_id (f r) = us_id r" for i us and f :: "user_row \<Rightarrow> user_row" using that by (induction us) auto
    then show ?thesis by (simp add: user_rows_def update_user_def)
  qed
  obtain x xs where x: "user_rows (u_id u) db = x # xs" using assms(2) by (cases "user_rows (u_id u) db") auto
  then have "x \<in> set (user_rows (u_id u) db)" by simp
  then have r: "user_rows (u_id u) ?db = x\<lparr>us_status := ActiveU\<rparr> # tl (user_rows (u_id u) ?db)" "us_id x = u_id u"
    using m x by (simp, simp add: user_rows_def)
  from False s r(1) assms(1) have "u' = user_of (x\<lparr>us_status := ActiveU\<rparr>)" "db' = ?db" by (auto simp: enable_again_def findById_def first_row_Some split: option.splits)
  with r(2) ok_status[OF assms(3)] show ?thesis by (simp add: user_of_def update_user_def)
qed (use assms in \<open>auto simp: enable_again_def\<close>)

lemma fresh_invite:
  assumes "invite_create ni i None None db = (Inr v, db')" "accounts_ok db"
  shows "accounts_ok db' \<and> db_memberships db' = db_memberships db \<and>
    map iv_tokenHash (filter (\<lambda>v. iv_userId v = i \<and> iv_usedAt v = None) (db_invites db')) = [ni_tokenHash ni]"
proof -
  define kept where "kept = filter (\<lambda>v. \<not> (iv_userId v = i \<and> iv_usedAt v = None)) (db_invites db)"
  define row where "row = \<lparr>iv_id = ni_id ni, iv_userId = i, iv_tokenHash = ni_tokenHash ni, iv_createdBy = None,
    iv_expiresAt = ni_expiresAt ni, iv_usedAt = None\<rparr>"
  from assms(1) have d: "db' = db\<lparr>db_invites := kept @ [row]\<rparr>" "user_rows i db \<noteq> []" "ni_tokenHash ni \<notin> iv_tokenHash ` set kept"
    unfolding invite_create_def kept_def[symmetric] row_def[symmetric]
    by (auto simp: Let_def run_hook_def list_ex_iff image_iff split: if_splits)
  have "accounts_ok db'"
    unfolding d(1) kept_def by (rule ok_invite[OF assms(2)]) (use d(2,3) in \<open>simp_all add: row_def kept_def\<close>)
  moreover have "filter (\<lambda>v. iv_userId v = i \<and> iv_usedAt v = None) kept = []" by (auto simp: kept_def filter_empty_conv)
  ultimately show ?thesis by (simp add: d(1) row_def)
qed

text \<open>
  Whoever is made an operator or system admin from the command line has an active account with that role and one
  invite that is not used, the new one; and the tables keep their keys and references.
\<close>

theorem made_operators_are_active:
  assumes "create_with_role role env email_input name db = (Inr (u, created, invite), db')" "accounts_ok db"
  shows "u_status u = ActiveU \<and> list_ex (\<lambda>m. mb_userId m = u_id u \<and> mb_role m = role \<and> mb_tenantId m = None) (db_memberships db') \<and>
    map iv_tokenHash (filter (\<lambda>v. iv_userId v = u_id u \<and> iv_usedAt v = None) (db_invites db')) = [ni_tokenHash (ce_invite env)] \<and>
    accounts_ok db'"
proof -
  from assms(1) obtain email u0 db1 u1 db2 m db3 where e: "normalizeEmail email_input = Some email" "(case findByEmail email db of
        Some u \<Rightarrow> (Inr u, db) | None \<Rightarrow> createUser (ce_userId env) (ce_now env) email (name_for name email) None db) = (Inr u0, db1)"
    and a: "enable_again u0 db1 = (Inr u, db2)" and m: "addMembership (ce_membershipId env) (ce_now env) (u_id u) role None None db2 = (Inr m, db3)"
    and v: "invite_create (ce_invite env) (u_id u) None None db3 = (Inr invite, db')"
    by (auto simp: create_with_role_def split: option.splits sum.splits prod.splits)
  have c: "user_rows (u_id u0) db1 \<noteq> [] \<and> accounts_ok db1"
  proof (cases "findByEmail email db")
    case None
    with e(2) have "createUser (ce_userId env) (ce_now env) email (name_for name email) None db = (Inr u0, db1)" by simp
    from createUser_effect(2)[OF this] obtain row where r: "db1 = db\<lparr>db_users := db_users db @ [row]\<rparr>" "u0 = user_of row"
      "us_id row \<notin> us_id ` set (db_users db)" "us_email row \<notin> us_email ` set (db_users db)" by blast
    from ok_add_user[OF assms(2) r(3,4)] r(1,2) show ?thesis by (simp add: user_rows_def user_of_def)
  next
    case (Some x)
    with e(2) assms(2) show ?thesis
      by (auto simp: findByEmail_def user_rows_def user_of_def filter_empty_conv split: option.splits dest!: first_row_in)
  qed
  note en = enabled_again[OF a conjunct1[OF c] conjunct2[OF c]]
  from addMembership_effect(2)[OF m no_hook_logs] obtain db3' es where g: "role = TenantManager \<longleftrightarrow> False"
    "grant (ce_membershipId env) (ce_now env) (u_id u) role None db2 = Inr (m, db3')" "db3 = db3'\<lparr>db_audit := es\<rparr>" by auto
  have mb: "mb_userId m = u_id u" "mb_role m = role" "mb_tenantId m = None" "m \<in> set (db_memberships db3)"
    using grant_effect[OF g(2)] g(3) by auto
  have ok3: "accounts_ok db3" using grant_effect[OF g(2)] g(1,3) en ok_add_membership[of db2 m] by auto
  show ?thesis using fresh_invite[OF v ok3] en mb by (auto simp: list_ex_iff)
qed

end
