(* ===== verification/Erp_Access.thy ===== *)
theory Erp_Access
  imports Js_Values Text_Tools
begin

text \<open>
  The ERP beside the workflow engine (\<open>nexus-erp/src\<close>): its people, groups, departments and permissions
  (\<open>lib/permissions.ts\<close>, \<open>lib/access.ts\<close>, \<open>lib/expenseAccess.ts\<close>, \<open>lib/orgAccess.ts\<close>), the audit log
  (\<open>lib/audit.ts\<close>) and the routes that change who may do what. A statement of Prisma is an operation on the
  tables; what a constraint of the schema refuses throws. Ids the database makes are arguments; times of
  creation are left out, as the tables are kept in that order.
\<close>

section \<open>Who asks\<close>

record erp_session =
  ss_user :: string
  ss_role :: string
  ss_employee :: "string option"
  ss_email :: "string option"

definition is_manager :: "erp_session option \<Rightarrow> bool" where
  "is_manager s \<longleftrightarrow> (case s of None \<Rightarrow> False | Some x \<Rightarrow> ss_role x = ''manager'')"

definition actor_name :: "erp_session \<Rightarrow> string" where
  "actor_name s = (case ss_email s of None \<Rightarrow> ss_user s | Some e \<Rightarrow> e)"

section \<open>The tables of people\<close>

record contact =
  ct_phone :: "string option"
  ct_street :: "string option"
  ct_city :: "string option"
  ct_state :: "string option"
  ct_postalCode :: "string option"
  ct_country :: "string option"

record employee =
  ey_userId :: string
  ey_departmentId :: "string option"
  ey_managerId :: "string option"
  ey_contact :: contact

record erp_group =
  eg_name :: string
  eg_description :: "string option"
  eg_default :: bool

datatype audit_action = AuditCreate | AuditUpdate | AuditDelete | AuditConflict

record erp_audit =
  ea_entityType :: string
  ea_entityId :: string
  ea_action :: audit_action
  ea_actorId :: string
  ea_actorName :: string
  ea_before :: "(string \<times> jsval) list option"
  ea_after :: "(string \<times> jsval) list option"

text \<open>\<open>pe_permissions\<close> are the keys there are; the join tables are lists of pairs of ids, or an id and a key.\<close>

record people_db =
  pp_users :: "string list"
  pp_permissions :: "string list"
  pp_userPermissions :: "(string \<times> string) list"
  pp_groups :: "(string \<times> erp_group) list"
  pp_groupPermissions :: "(string \<times> string) list"
  pp_memberships :: "(string \<times> string) list"
  pp_departments :: "(string \<times> string) list"
  pp_departmentPermissions :: "(string \<times> string) list"
  pp_employees :: "(string \<times> employee) list"
  pp_audit :: "erp_audit list"

definition createAuditLog :: "string \<Rightarrow> string \<Rightarrow> audit_action \<Rightarrow> erp_session \<Rightarrow> (string \<times> jsval) list option \<Rightarrow> (string \<times> jsval) list option \<Rightarrow> erp_audit list \<Rightarrow> erp_audit list" where
  "createAuditLog entityType entityId action s before after rows =
     rows @ [\<lparr>ea_entityType = entityType, ea_entityId = entityId, ea_action = action, ea_actorId = ss_user s,
              ea_actorName = actor_name s, ea_before = before, ea_after = after\<rparr>]"

section \<open>Permissions\<close>

definition add_key :: "string \<Rightarrow> string list \<Rightarrow> string list" where
  "add_key k ks = (if k \<in> set ks then ks else ks @ [k])"

definition values_of :: "'a \<Rightarrow> ('a \<times> 'b) list \<Rightarrow> 'b list" where
  "values_of k m = map snd (filter (\<lambda>p. fst p = k) m)"

definition employee_of :: "string \<Rightarrow> people_db \<Rightarrow> employee option" where
  "employee_of userId db = List.find (\<lambda>e. ey_userId e = userId) (map snd (pp_employees db))"

definition getEffectivePermissions :: "string \<Rightarrow> people_db \<Rightarrow> string list" where
  "getEffectivePermissions userId db =
     (let direct = values_of userId (pp_userPermissions db);
          ofGroups = concat (map (\<lambda>g. values_of g (pp_groupPermissions db)) (values_of userId (pp_memberships db)));
          ofDefaults = concat (map (\<lambda>(g, r). values_of g (pp_groupPermissions db)) (filter (\<lambda>(g, r). eg_default r) (pp_groups db)));
          ofDepartment = (case employee_of userId db of
             None \<Rightarrow> []
           | Some e \<Rightarrow> (case ey_departmentId e of None \<Rightarrow> [] | Some d \<Rightarrow> values_of d (pp_departmentPermissions db)))
      in fold add_key (direct @ ofGroups @ ofDefaults @ ofDepartment) [])"

definition canAccess :: "erp_session \<Rightarrow> string \<Rightarrow> string \<Rightarrow> string option \<Rightarrow> people_db \<Rightarrow> bool" where
  "canAccess s resource action ownerUserId db \<longleftrightarrow>
     ownerUserId = Some (ss_user s) \<or> resource @ '':'' @ action \<in> set (getEffectivePermissions (ss_user s) db)"

definition canViewAllExpenses :: "erp_session \<Rightarrow> people_db \<Rightarrow> bool" where
  "canViewAllExpenses s db \<longleftrightarrow> ''expenses:accounting-approve'' \<in> set (getEffectivePermissions (ss_user s) db)"

definition canViewTeamExpenses :: "erp_session \<Rightarrow> bool" where
  "canViewTeamExpenses s \<longleftrightarrow> ss_role s = ''manager''"

text \<open>An organization without an owner has the owner \<open>null\<close>, and so has its employee a user without one.\<close>

definition canEditIdentity :: "erp_session \<Rightarrow> bool" where
  "canEditIdentity s \<longleftrightarrow> ss_role s = ''manager''"

definition canEditContact :: "erp_session \<Rightarrow> string option \<Rightarrow> bool" where
  "canEditContact s ownerId \<longleftrightarrow> ss_role s = ''manager'' \<or> ss_employee s = ownerId"

section \<open>Who may do what is changed\<close>

datatype erp_reply = ErpRefused nat | ErpThrew | ErpDone

text \<open>All pairs of \<open>k\<close> are replaced, in one transaction: a pair twice breaks the key of the table.\<close>

definition replace_pairs :: "'a \<Rightarrow> 'b list \<Rightarrow> ('a \<times> 'b) list \<Rightarrow> ('a \<times> 'b) list" where
  "replace_pairs k vs m = filter (\<lambda>p. fst p \<noteq> k) m @ map (Pair k) vs"

definition put_user_permissions :: "erp_session option \<Rightarrow> string \<Rightarrow> string list option \<Rightarrow> people_db \<Rightarrow> erp_reply \<times> people_db" where
  "put_user_permissions s i body db =
     (if \<not> is_manager s then (ErpRefused 403, db)
      else case body of
        None \<Rightarrow> (ErpRefused 400, db)
      | Some keys \<Rightarrow>
          if i \<notin> set (pp_users db) then (ErpRefused 404, db)
          else if \<not> distinct keys \<or> \<not> list_all (\<lambda>k. k \<in> set (pp_permissions db)) keys then (ErpThrew, db)
          else (ErpDone, db\<lparr>pp_userPermissions := replace_pairs i keys (pp_userPermissions db)\<rparr>))"

definition put_user_groups :: "erp_session option \<Rightarrow> string \<Rightarrow> string list option \<Rightarrow> people_db \<Rightarrow> erp_reply \<times> people_db" where
  "put_user_groups s i body db =
     (if \<not> is_manager s then (ErpRefused 403, db)
      else case body of
        None \<Rightarrow> (ErpRefused 400, db)
      | Some gs \<Rightarrow>
          if i \<notin> set (pp_users db) then (ErpRefused 404, db)
          else if \<not> distinct gs \<or> \<not> list_all (\<lambda>g. map_of (pp_groups db) g \<noteq> None) gs then (ErpThrew, db)
          else (ErpDone, db\<lparr>pp_memberships := replace_pairs i gs (pp_memberships db)\<rparr>))"

text \<open>The bodies of the next three are not checked: \<open>None\<close> is one without the list, which is taken as empty.\<close>

definition put_group_permissions :: "erp_session option \<Rightarrow> string \<Rightarrow> string list option \<Rightarrow> people_db \<Rightarrow> erp_reply \<times> people_db" where
  "put_group_permissions s i body db =
     (if \<not> is_manager s then (ErpRefused 403, db)
      else let keys = (case body of None \<Rightarrow> [] | Some ks \<Rightarrow> ks) in
        if keys \<noteq> [] \<and> (map_of (pp_groups db) i = None \<or> \<not> distinct keys \<or> \<not> list_all (\<lambda>k. k \<in> set (pp_permissions db)) keys) then (ErpThrew, db)
        else (ErpDone, db\<lparr>pp_groupPermissions := replace_pairs i keys (pp_groupPermissions db)\<rparr>))"

definition put_group_members :: "erp_session option \<Rightarrow> string \<Rightarrow> string list option \<Rightarrow> people_db \<Rightarrow> erp_reply \<times> people_db" where
  "put_group_members s i body db =
     (if \<not> is_manager s then (ErpRefused 403, db)
      else let us = (case body of None \<Rightarrow> [] | Some us \<Rightarrow> us) in
        if us \<noteq> [] \<and> (map_of (pp_groups db) i = None \<or> \<not> distinct us \<or> \<not> list_all (\<lambda>u. u \<in> set (pp_users db)) us) then (ErpThrew, db)
        else (ErpDone, db\<lparr>pp_memberships := filter (\<lambda>p. snd p \<noteq> i) (pp_memberships db) @ map (\<lambda>u. (u, i)) us\<rparr>))"

definition put_department_permissions :: "erp_session option \<Rightarrow> string \<Rightarrow> string list option \<Rightarrow> people_db \<Rightarrow> erp_reply \<times> people_db" where
  "put_department_permissions s i body db =
     (if \<not> is_manager s then (ErpRefused 403, db)
      else let keys = (case body of None \<Rightarrow> [] | Some ks \<Rightarrow> ks) in
        if keys \<noteq> [] \<and> (map_of (pp_departments db) i = None \<or> \<not> distinct keys \<or> \<not> list_all (\<lambda>k. k \<in> set (pp_permissions db)) keys) then (ErpThrew, db)
        else (ErpDone, db\<lparr>pp_departmentPermissions := replace_pairs i keys (pp_departmentPermissions db)\<rparr>))"

section \<open>Groups and departments\<close>

record group_body =
  gb_name :: "string option"
  gb_description :: "string option"
  gb_default :: "bool option"
  gb_permissionKeys :: "string list"
  gb_members :: "string list"

definition group_type :: "bool \<Rightarrow> jsval" where
  "group_type d = JString (if d then ''default'' else ''security'')"

definition described :: "string option \<Rightarrow> string option" where
  "described d = (case d of None \<Rightarrow> None | Some t \<Rightarrow> if js_trim t = [] then None else Some (js_trim t))"

definition create_group :: "erp_session option \<Rightarrow> string \<Rightarrow> group_body \<Rightarrow> people_db \<Rightarrow> erp_reply \<times> people_db" where
  "create_group s i b db =
     (case s of
        Some x \<Rightarrow>
          if ss_role x \<noteq> ''manager'' then (ErpRefused 403, db)
          else let name = js_trim (case gb_name b of None \<Rightarrow> [] | Some t \<Rightarrow> t); d = (gb_default b = Some True) in
            if name = [] then (ErpRefused 400, db)
            else if list_ex (\<lambda>(k, g). eg_name g = name) (pp_groups db) \<or> \<not> distinct (gb_permissionKeys b) \<or> \<not> distinct (gb_members b) \<or>
              \<not> list_all (\<lambda>k. k \<in> set (pp_permissions db)) (gb_permissionKeys b) \<or> \<not> list_all (\<lambda>u. u \<in> set (pp_users db)) (gb_members b) then (ErpThrew, db)
            else (ErpDone, db\<lparr>
              pp_groups := pp_groups db @ [(i, \<lparr>eg_name = name, eg_description = described (gb_description b), eg_default = d\<rparr>)],
              pp_groupPermissions := pp_groupPermissions db @ map (Pair i) (gb_permissionKeys b),
              pp_memberships := pp_memberships db @ map (\<lambda>u. (u, i)) (gb_members b),
              pp_audit := createAuditLog ''Group'' i AuditCreate x None (Some [(''id'', JString i), (''name'', JString name), (''type'', group_type d)]) (pp_audit db)\<rparr>)
      | None \<Rightarrow> (ErpRefused 403, db))"

text \<open>What is not given is kept; a description of spaces only is removed.\<close>

definition patch_group :: "erp_session option \<Rightarrow> string \<Rightarrow> group_body \<Rightarrow> people_db \<Rightarrow> erp_reply \<times> people_db" where
  "patch_group s i b db =
     (case s of
        Some x \<Rightarrow>
          if ss_role x \<noteq> ''manager'' then (ErpRefused 403, db)
          else (case map_of (pp_groups db) i of
            None \<Rightarrow> (ErpThrew, db)
          | Some g \<Rightarrow>
              let name = (case gb_name b of None \<Rightarrow> eg_name g | Some t \<Rightarrow> js_trim t);
                  g' = g\<lparr>eg_name := name,
                         eg_description := (case gb_description b of None \<Rightarrow> eg_description g | Some t \<Rightarrow> described (Some t)),
                         eg_default := (case gb_default b of None \<Rightarrow> eg_default g | Some d \<Rightarrow> d)\<rparr>
              in if list_ex (\<lambda>(k, h). k \<noteq> i \<and> eg_name h = name) (pp_groups db) then (ErpThrew, db)
                 else (ErpDone, db\<lparr>
                   pp_groups := AList.update i g' (pp_groups db),
                   pp_audit := createAuditLog ''Group'' i AuditUpdate x
                     (Some [(''name'', JString (eg_name g)), (''description'', case eg_description g of None \<Rightarrow> JNull | Some t \<Rightarrow> JString t), (''type'', group_type (eg_default g))])
                     (Some ((case gb_name b of None \<Rightarrow> [] | Some t \<Rightarrow> [(''name'', JString t)]) @
                            (case gb_description b of None \<Rightarrow> [] | Some t \<Rightarrow> [(''description'', JString t)]) @
                            (case gb_default b of None \<Rightarrow> [] | Some d \<Rightarrow> [(''type'', group_type d)]))) (pp_audit db)\<rparr>))
      | None \<Rightarrow> (ErpRefused 403, db))"

text \<open>Deleting a group takes its permissions and its memberships with it.\<close>

definition delete_group :: "erp_session option \<Rightarrow> string \<Rightarrow> people_db \<Rightarrow> erp_reply \<times> people_db" where
  "delete_group s i db =
     (case s of
        Some x \<Rightarrow>
          if ss_role x \<noteq> ''manager'' then (ErpRefused 403, db)
          else case map_of (pp_groups db) i of
            None \<Rightarrow> (ErpThrew, db)
          | Some g \<Rightarrow> (ErpDone, db\<lparr>
              pp_groups := AList.delete i (pp_groups db),
              pp_groupPermissions := filter (\<lambda>p. fst p \<noteq> i) (pp_groupPermissions db),
              pp_memberships := filter (\<lambda>p. snd p \<noteq> i) (pp_memberships db),
              pp_audit := createAuditLog ''Group'' i AuditDelete x (Some [(''id'', JString i), (''name'', JString (eg_name g)), (''type'', group_type (eg_default g))]) None (pp_audit db)\<rparr>)
      | None \<Rightarrow> (ErpRefused 403, db))"

record department_body =
  db_name :: "string option"
  db_memberIds :: "string list option"

definition move_members :: "string \<Rightarrow> string list \<Rightarrow> (string \<times> employee) list \<Rightarrow> (string \<times> employee) list" where
  "move_members d ids es = map (\<lambda>(k, e). (k, if k \<in> set ids then e\<lparr>ey_departmentId := Some d\<rparr> else e)) es"

definition drop_members :: "string \<Rightarrow> string list \<Rightarrow> (string \<times> employee) list \<Rightarrow> (string \<times> employee) list" where
  "drop_members d ids es = map (\<lambda>(k, e). (k, if ey_departmentId e = Some d \<and> k \<notin> set ids then e\<lparr>ey_departmentId := None\<rparr> else e)) es"

text \<open>The body is given as zod accepted it; the log's copy of it is what was given.\<close>

definition department_json :: "department_body \<Rightarrow> (string \<times> jsval) list" where
  "department_json b = (case db_name b of None \<Rightarrow> [] | Some n \<Rightarrow> [(''name'', JString n)]) @
     (case db_memberIds b of None \<Rightarrow> [] | Some ids \<Rightarrow> [(''memberIds'', JArray (map JString ids))])"

definition create_department :: "erp_session option \<Rightarrow> string \<Rightarrow> department_body option \<Rightarrow> people_db \<Rightarrow> erp_reply \<times> people_db" where
  "create_department s i body db =
     (case s of
        Some x \<Rightarrow>
          if ss_role x \<noteq> ''manager'' then (ErpRefused 403, db)
          else (case body of
            Some b \<Rightarrow> (case db_name b of
                None \<Rightarrow> (ErpRefused 400, db)
              | Some n \<Rightarrow>
                  if list_ex (\<lambda>(k, m). m = n) (pp_departments db) then (ErpRefused 409, db)
                  else (ErpDone, db\<lparr>
                    pp_departments := pp_departments db @ [(i, n)],
                    pp_employees := move_members i (case db_memberIds b of None \<Rightarrow> [] | Some ids \<Rightarrow> ids) (pp_employees db),
                    pp_audit := createAuditLog ''Department'' i AuditCreate x None (Some [(''id'', JString i), (''name'', JString n)]) (pp_audit db)\<rparr>))
          | None \<Rightarrow> (ErpRefused 400, db))
      | None \<Rightarrow> (ErpRefused 403, db))"

text \<open>A department that is not there is not found out when only its members are given, and then none of them has it; the foreign key refuses a member.\<close>

definition patch_department :: "erp_session option \<Rightarrow> string \<Rightarrow> department_body option \<Rightarrow> people_db \<Rightarrow> erp_reply \<times> people_db" where
  "patch_department s i body db =
     (case s of
        Some x \<Rightarrow>
          if ss_role x \<noteq> ''manager'' then (ErpRefused 403, db)
          else (case body of
            Some b \<Rightarrow>
              let known = map_of (pp_departments db) i \<noteq> None;
                  taken = (case db_name b of None \<Rightarrow> False | Some n \<Rightarrow> \<not> known \<or> list_ex (\<lambda>(k, m). k \<noteq> i \<and> m = n) (pp_departments db));
                  refused = (case db_memberIds b of None \<Rightarrow> False | Some ids \<Rightarrow> \<not> known \<and> list_ex (\<lambda>(k, e). k \<in> set ids) (pp_employees db))
              in if taken \<or> refused then (ErpRefused 409, db)
                 else (ErpDone, db\<lparr>
                   pp_departments := (case db_name b of None \<Rightarrow> pp_departments db | Some n \<Rightarrow> AList.update i n (pp_departments db)),
                   pp_employees := (case db_memberIds b of None \<Rightarrow> pp_employees db | Some ids \<Rightarrow> move_members i ids (drop_members i ids (pp_employees db))),
                   pp_audit := createAuditLog ''Department'' i AuditUpdate x None (Some (department_json b)) (pp_audit db)\<rparr>)
          | None \<Rightarrow> (ErpRefused 400, db))
      | None \<Rightarrow> (ErpRefused 403, db))"

definition delete_department :: "erp_session option \<Rightarrow> string \<Rightarrow> people_db \<Rightarrow> erp_reply \<times> people_db" where
  "delete_department s i db =
     (case s of
        Some x \<Rightarrow>
          if ss_role x \<noteq> ''manager'' then (ErpRefused 403, db)
          else if list_ex (\<lambda>(k, e). ey_departmentId e = Some i) (pp_employees db) then (ErpRefused 409, db)
          else (case map_of (pp_departments db) i of
            None \<Rightarrow> (ErpThrew, db)
          | Some n \<Rightarrow> (ErpDone, db\<lparr>
              pp_departments := AList.delete i (pp_departments db),
              pp_departmentPermissions := filter (\<lambda>p. fst p \<noteq> i) (pp_departmentPermissions db),
              pp_audit := createAuditLog ''Department'' i AuditDelete x (Some [(''id'', JString i), (''name'', JString n)]) None (pp_audit db)\<rparr>))
      | None \<Rightarrow> (ErpRefused 403, db))"

section \<open>What a user may do\<close>

lemma fold_add_key: "set (fold add_key ks acc) = set acc \<union> set ks \<and> (distinct acc \<longrightarrow> distinct (fold add_key ks acc))"
  by (induction ks arbitrary: acc) (auto simp: add_key_def)

text \<open>
  The effective permissions are those granted to the user, to the groups they are a member of, to the default
  groups, and to the department of their employee, each once.
\<close>

theorem effective_permissions_are_granted:
  "distinct (getEffectivePermissions u db) \<and>
   (k \<in> set (getEffectivePermissions u db) \<longleftrightarrow>
      (u, k) \<in> set (pp_userPermissions db) \<or>
      list_ex (\<lambda>(v, g). v = u \<and> (g, k) \<in> set (pp_groupPermissions db)) (pp_memberships db) \<or>
      list_ex (\<lambda>(g, r). eg_default r \<and> (g, k) \<in> set (pp_groupPermissions db)) (pp_groups db) \<or>
      (case employee_of u db of None \<Rightarrow> False | Some e \<Rightarrow>
         (case ey_departmentId e of None \<Rightarrow> False | Some d \<Rightarrow> (d, k) \<in> set (pp_departmentPermissions db))))"
proof -
  have v: "x \<in> set (values_of a m) \<longleftrightarrow> (a, x) \<in> set m" for x :: string and a m by (force simp: values_of_def)
  show ?thesis
    by (auto simp: getEffectivePermissions_def Let_def fold_add_key v list_ex_iff split: option.split)
qed

text \<open>Nobody but a manager changes who may do what, or the groups and departments.\<close>

lemma only_managers_change_people:
  "\<not> is_manager s \<Longrightarrow> snd (put_user_permissions s i b db) = db \<and> snd (put_user_groups s i b db) = db \<and>
     snd (put_group_permissions s i b db) = db \<and> snd (put_group_members s i b db) = db \<and> snd (put_department_permissions s i b db) = db \<and>
     snd (create_group s i g db) = db \<and> snd (patch_group s i g db) = db \<and> snd (delete_group s i db) = db \<and>
     snd (create_department s i d db) = db \<and> snd (patch_department s i d db) = db \<and> snd (delete_department s i db) = db"
  by (cases s) (simp_all add: is_manager_def put_user_permissions_def put_user_groups_def put_group_permissions_def put_group_members_def
      put_department_permissions_def create_group_def patch_group_def delete_group_def create_department_def patch_department_def delete_department_def)

end
