(* ===== verification/Erp_Messages.thy ===== *)
theory Erp_Messages
  imports Erp_Access
begin

text \<open>
  The messages of the ERP (\<open>app/api/conversations\<close>, \<open>app/api/messages\<close>) with the search for people
  (\<open>app/api/users/search\<close>) and their preferences (\<open>app/api/users/[id]/preferences\<close>). A request is one step on the tables;
  the database's clock and new ids are arguments, as is the order of names. \<open>parseInt\<close> is a given number, \<open>None\<close> if it is
  \<open>NaN\<close>.
\<close>

section \<open>Tables\<close>

record chat_user =
  cu_email :: string
  cu_fullName :: "string option"
  cu_theme :: string
  cu_locale :: string

record conversation =
  cv_timesheetId :: "string option"
  cv_createdAt :: int

record chat_message =
  cm_id :: string
  cm_conversation :: string
  cm_sender :: string
  cm_text :: string
  cm_createdAt :: int

text \<open>A participation is a conversation and a user, with the time the user last read it.\<close>

record chat_db =
  ch_users :: "(string \<times> chat_user) list"
  ch_timesheets :: "string list"
  ch_conversations :: "(string \<times> conversation) list"
  ch_participants :: "((string \<times> string) \<times> int option) list"
  ch_messages :: "chat_message list"

definition messages_of :: "string \<Rightarrow> chat_db \<Rightarrow> chat_message list" where
  "messages_of c db = filter (\<lambda>m. cm_conversation m = c) (ch_messages db)"

definition last_message :: "string \<Rightarrow> chat_db \<Rightarrow> chat_message option" where
  "last_message c db = (case sort_key (\<lambda>m. - cm_createdAt m) (messages_of c db) of [] \<Rightarrow> None | m # ms \<Rightarrow> Some m)"

definition participants_of :: "string \<Rightarrow> chat_db \<Rightarrow> string list" where
  "participants_of c db = map (\<lambda>((k, u), r). u) (filter (\<lambda>((k, u), r). k = c) (ch_participants db))"

definition display_name :: "chat_user \<Rightarrow> string" where
  "display_name u = (case cu_fullName u of Some n \<Rightarrow> n | None \<Rightarrow> cu_email u)"

section \<open>Conversations\<close>

record conversation_view =
  vw_id :: string
  vw_recipient :: "(string \<times> string \<times> string) option"
  vw_last :: "chat_message option"
  vw_unread :: bool
  vw_timesheet :: "string option"

text \<open>The other of a conversation, with name and address, if there is one.\<close>

definition recipient_of :: "string \<Rightarrow> string \<Rightarrow> chat_db \<Rightarrow> (string \<times> string \<times> string) option" where
  "recipient_of u c db =
     (case List.find (\<lambda>x. x \<noteq> u) (participants_of c db) of
        None \<Rightarrow> None
      | Some v \<Rightarrow> Some (v, case map_of (ch_users db) v of Some x \<Rightarrow> (display_name x, cu_email x) | None \<Rightarrow> ([], [])))"

text \<open>The time a conversation is sorted by: of its last message, or of its creation.\<close>

definition latest :: "string \<Rightarrow> chat_db \<Rightarrow> int" where
  "latest c db =
     (case last_message c db of
        Some m \<Rightarrow> cm_createdAt m
      | None \<Rightarrow> (case map_of (ch_conversations db) c of Some v \<Rightarrow> cv_createdAt v | None \<Rightarrow> 0))"

definition has_unread :: "string \<Rightarrow> string \<Rightarrow> int option \<Rightarrow> chat_db \<Rightarrow> bool" where
  "has_unread u c lastReadAt db =
     (case last_message c db of
        None \<Rightarrow> False
      | Some m \<Rightarrow> cm_sender m \<noteq> u \<and> (case lastReadAt of None \<Rightarrow> True | Some t \<Rightarrow> t < cm_createdAt m))"

definition view_of :: "string \<Rightarrow> chat_db \<Rightarrow> (string \<times> string) \<times> int option \<Rightarrow> conversation_view" where
  "view_of u db p =
     (let c = fst (fst p) in
      \<lparr>vw_id = c, vw_recipient = recipient_of u c db, vw_last = last_message c db,
       vw_unread = has_unread u c (snd p) db,
       vw_timesheet = Option.bind (map_of (ch_conversations db) c) cv_timesheetId\<rparr>)"

definition list_conversations :: "erp_session option \<Rightarrow> chat_db \<Rightarrow> nat + conversation_view list" where
  "list_conversations s db =
     (case s of
        None \<Rightarrow> Inl 401
      | Some x \<Rightarrow> Inr (map (view_of (ss_user x) db)
          (sort_key (\<lambda>p. - latest (fst (fst p)) db) (filter (\<lambda>((c, u), r). u = ss_user x) (ch_participants db)))))"

text \<open>The first conversation of exactly these two people.\<close>

definition existing_conversation :: "string \<Rightarrow> string \<Rightarrow> chat_db \<Rightarrow> string option" where
  "existing_conversation u v db =
     List.find (\<lambda>c. map_of (ch_participants db) (c, u) \<noteq> None \<and> map_of (ch_participants db) (c, v) \<noteq> None \<and>
       length (participants_of c db) = 2) (map fst (ch_conversations db))"

datatype chat_reply =
    ChatRefused nat
  | ChatThrew
  | ConversationIs string bool
  | MessageSent chat_message string
  | ChatRead

definition create_conversation ::
  "erp_session option \<Rightarrow> string \<Rightarrow> int \<Rightarrow> string option \<Rightarrow> string option \<Rightarrow> chat_db \<Rightarrow> chat_reply \<times> chat_db" where
  "create_conversation s newId n recipientId timesheetId db =
     (case s of
        None \<Rightarrow> (ChatRefused 401, db)
      | Some x \<Rightarrow>
          if \<not> truthy recipientId then (ChatRefused 400, db)
          else if the recipientId = ss_user x then (ChatRefused 400, db)
          else if map_of (ch_users db) (the recipientId) = None then (ChatRefused 404, db)
          else
            (case existing_conversation (ss_user x) (the recipientId) db of
               Some c \<Rightarrow> (ConversationIs c False, db)
             | None \<Rightarrow>
                 if map_of (ch_conversations db) newId \<noteq> None \<or> map_of (ch_users db) (ss_user x) = None \<or>
                   (case timesheetId of Some t \<Rightarrow> t \<notin> set (ch_timesheets db) | None \<Rightarrow> False) then (ChatThrew, db)
                 else (ConversationIs newId True, db\<lparr>
                   ch_conversations := ch_conversations db @ [(newId, \<lparr>cv_timesheetId = timesheetId, cv_createdAt = n\<rparr>)],
                   ch_participants := ch_participants db @ [((newId, ss_user x), None), ((newId, the recipientId), None)]\<rparr>)))"

section \<open>Messages\<close>

definition CHAT_PAGE_SIZE :: int where
  "CHAT_PAGE_SIZE = 30"

record message_page =
  mp_messages :: "(chat_message \<times> string) list"
  mp_total :: nat
  mp_page :: int
  mp_otherLastReadAt :: "int option"

definition sender_name :: "chat_db \<Rightarrow> chat_message \<Rightarrow> string" where
  "sender_name db m = (case map_of (ch_users db) (cm_sender m) of Some u \<Rightarrow> display_name u | None \<Rightarrow> [])"

text \<open>A page that is no number makes the query throw.\<close>

datatype messages_reply = MessagesRefused nat | MessagesThrew | MessagesAre message_page

definition get_messages :: "erp_session option \<Rightarrow> string \<Rightarrow> int option \<Rightarrow> chat_db \<Rightarrow> messages_reply" where
  "get_messages s c page_param db =
     (case s of
        None \<Rightarrow> MessagesRefused 401
      | Some x \<Rightarrow>
          if map_of (ch_participants db) (c, ss_user x) = None then MessagesRefused 403
          else
            (case page_param of
               None \<Rightarrow> MessagesThrew
             | Some k \<Rightarrow>
                 let page = max 1 k; ms = sort_key cm_createdAt (messages_of c db) in
                 MessagesAre \<lparr>mp_messages = map (\<lambda>m. (m, sender_name db m)) (take (nat CHAT_PAGE_SIZE) (drop (nat ((page - 1) * CHAT_PAGE_SIZE)) ms)),
                   mp_total = length (messages_of c db), mp_page = page,
                   mp_otherLastReadAt = Option.bind (List.find (\<lambda>((k, u), r). k = c \<and> u \<noteq> ss_user x) (ch_participants db)) snd\<rparr>))"

definition mark_read :: "string \<Rightarrow> string \<Rightarrow> int \<Rightarrow> chat_db \<Rightarrow> chat_db" where
  "mark_read c u n db = db\<lparr>ch_participants := map (\<lambda>(k, r). (k, if k = (c, u) then Some n else r)) (ch_participants db)\<rparr>"

definition send_message :: "erp_session option \<Rightarrow> string \<Rightarrow> string \<Rightarrow> int \<Rightarrow> string option \<Rightarrow> chat_db \<Rightarrow> chat_reply \<times> chat_db" where
  "send_message s c newId n body db =
     (case s of
        None \<Rightarrow> (ChatRefused 401, db)
      | Some x \<Rightarrow>
          if map_of (ch_participants db) (c, ss_user x) = None then (ChatRefused 403, db)
          else
            (case body of
               None \<Rightarrow> (ChatRefused 400, db)
             | Some b \<Rightarrow>
                 if js_trim b = [] then (ChatRefused 400, db)
                 else let m = \<lparr>cm_id = newId, cm_conversation = c, cm_sender = ss_user x, cm_text = js_trim b, cm_createdAt = n\<rparr>
                   in (MessageSent m (sender_name db m), mark_read c (ss_user x) n (db\<lparr>ch_messages := ch_messages db @ [m]\<rparr>))))"

definition read_conversation :: "erp_session option \<Rightarrow> string \<Rightarrow> int \<Rightarrow> chat_db \<Rightarrow> chat_reply \<times> chat_db" where
  "read_conversation s c n db =
     (case s of
        None \<Rightarrow> (ChatRefused 401, db)
      | Some x \<Rightarrow>
          if map_of (ch_participants db) (c, ss_user x) = None then (ChatRefused 403, db)
          else (ChatRead, mark_read c (ss_user x) n db))"

text \<open>The \<open>EXISTS\<close> of the count, and the count.\<close>

definition unread_by :: "string \<Rightarrow> chat_db \<Rightarrow> (string \<times> string) \<times> int option \<Rightarrow> bool" where
  "unread_by u db p \<longleftrightarrow>
     list_ex (\<lambda>m. cm_conversation m = fst (fst p) \<and> cm_sender m \<noteq> u \<and> (case snd p of None \<Rightarrow> True | Some t \<Rightarrow> t < cm_createdAt m))
       (ch_messages db)"

definition unread_count :: "erp_session option \<Rightarrow> chat_db \<Rightarrow> nat + nat" where
  "unread_count s db =
     (case s of
        None \<Rightarrow> Inl 401
      | Some x \<Rightarrow> Inr (length (filter (\<lambda>p. snd (fst p) = ss_user x \<and> unread_by (ss_user x) db p) (ch_participants db))))"

section \<open>People\<close>

text \<open>\<open>by_name\<close> is the database's order of the full names.\<close>

definition search_users ::
  "((string \<times> chat_user) list \<Rightarrow> (string \<times> chat_user) list) \<Rightarrow> erp_session option \<Rightarrow> string option \<Rightarrow> chat_db \<Rightarrow>
     nat + (string \<times> string \<times> string) list" where
  "search_users by_name s q db =
     (case s of
        None \<Rightarrow> Inl 401
      | Some x \<Rightarrow>
          let t = js_trim (case q of Some v \<Rightarrow> v | None \<Rightarrow> []); fits = (\<lambda>text. contains_text (js_lower t) (js_lower text)) in
          if length t < 1 then Inr []
          else Inr (map (\<lambda>(i, u). (i, display_name u, cu_email u)) (take 10 (by_name (filter (\<lambda>(i, u). i \<noteq> ss_user x \<and>
            (fits (cu_email u) \<or> (case cu_fullName u of Some n \<Rightarrow> fits n | None \<Rightarrow> False))) (ch_users db))))))"

definition VALID_THEMES :: "string list" where
  "VALID_THEMES = [''light'', ''dark'', ''system'', ''nexus-light-pro'', ''nexus-dark-pro'']"

definition VALID_LOCALES :: "string list" where
  "VALID_LOCALES = [''fr'', ''en'', ''es'']"

text \<open>A preference is not given, or a text; zod refuses a text that is not in the list.\<close>

definition preference_ok :: "string list \<Rightarrow> string option \<Rightarrow> bool" where
  "preference_ok valid v = (case v of None \<Rightarrow> True | Some t \<Rightarrow> t \<in> set valid)"

definition patch_preferences ::
  "erp_session option \<Rightarrow> string \<Rightarrow> string option \<Rightarrow> string option \<Rightarrow> chat_db \<Rightarrow> erp_reply \<times> chat_db" where
  "patch_preferences s i theme locale db =
     (case s of
        None \<Rightarrow> (ErpRefused 401, db)
      | Some x \<Rightarrow>
          if ss_user x \<noteq> i then (ErpRefused 403, db)
          else if \<not> preference_ok VALID_THEMES theme \<or> \<not> preference_ok VALID_LOCALES locale then (ErpRefused 400, db)
          else if \<not> truthy theme \<and> \<not> truthy locale then (ErpRefused 400, db)
          else if map_of (ch_users db) i = None then (ErpThrew, db)
          else (ErpDone, db\<lparr>ch_users := map (\<lambda>(k, u). (k, if k = i then u\<lparr>
             cu_theme := (case theme of Some t \<Rightarrow> t | None \<Rightarrow> cu_theme u), cu_locale := (case locale of Some l \<Rightarrow> l | None \<Rightarrow> cu_locale u)\<rparr> else u))
             (ch_users db)\<rparr>))"

section \<open>Runs\<close>

text \<open>Requests one after the other, by a clock that does not go back; at the start there are no conversations.\<close>

datatype chat_op =
    CreateChat "erp_session option" string "string option" "string option"
  | SendChat "erp_session option" string string "string option"
  | ReadChat "erp_session option" string
  | PreferChat "erp_session option" string "string option" "string option"

fun chat_step :: "int \<Rightarrow> chat_op \<Rightarrow> chat_db \<Rightarrow> chat_db" where
  "chat_step n (CreateChat s i r t) db = snd (create_conversation s i n r t db)"
| "chat_step n (SendChat s c i b) db = snd (send_message s c i n b db)"
| "chat_step n (ReadChat s c) db = snd (read_conversation s c n db)"
| "chat_step n (PreferChat s i th l) db = snd (patch_preferences s i th l db)"

inductive chat_run :: "int \<Rightarrow> chat_db \<Rightarrow> bool" where
  chat_start: "ch_conversations db = [] \<Longrightarrow> ch_participants db = [] \<Longrightarrow> ch_messages db = [] \<Longrightarrow> chat_run n db"
| chat_more: "chat_run t db \<Longrightarrow> t \<le> n \<Longrightarrow> chat_run n (chat_step n op db)"

text \<open>Every conversation is between two people, and who wrote has read up to their own message.\<close>

definition between_two :: "chat_db \<Rightarrow> bool" where
  "between_two db \<longleftrightarrow>
     list_all (\<lambda>(c, v). \<exists>u w. u \<noteq> w \<and> participants_of c db = [u, w]) (ch_conversations db) \<and>
     list_all (\<lambda>((c, u), r). map_of (ch_conversations db) c \<noteq> None) (ch_participants db) \<and>
     distinct (map fst (ch_participants db))"

definition read_own :: "int \<Rightarrow> chat_db \<Rightarrow> bool" where
  "read_own n db \<longleftrightarrow>
     list_all (\<lambda>m. cm_createdAt m \<le> n \<and>
       (\<exists>r. map_of (ch_participants db) (cm_conversation m, cm_sender m) = Some (Some r) \<and> cm_createdAt m \<le> r)) (ch_messages db) \<and>
     list_all (\<lambda>(k, r). case r of Some t \<Rightarrow> t \<le> n | None \<Rightarrow> True) (ch_participants db)"

lemma marked_as_read: "map_of (ch_participants (mark_read c u n db)) k =
    (if k = (c, u) then map_option (\<lambda>r. Some n) (map_of (ch_participants db) k) else map_of (ch_participants db) k)"
proof -
  have "map_of (map (\<lambda>(k, r). (k, if k = K then Some n else r)) m) k = (if k = K then map_option (\<lambda>r. Some n) (map_of m k) else map_of m k)"
    for m :: "((string \<times> string) \<times> int option) list" and K by (induction m) auto
  then show ?thesis by (simp add: mark_read_def)
qed

lemma marked_frame [simp]: "ch_conversations (mark_read c u n db) = ch_conversations db" "ch_messages (mark_read c u n db) = ch_messages db"
  "map fst (ch_participants (mark_read c u n db)) = map fst (ch_participants db)"
  "participants_of k (mark_read c u n db) = participants_of k db"
proof -
  have "map (\<lambda>((k, u), r). u) (filter (\<lambda>((k', u), r). k' = k) (map (\<lambda>(k, r). (k, if k = K then Some n else r)) m)) =
      map (\<lambda>((k, u), r). u) (filter (\<lambda>((k', u), r). k' = k) m)" for m :: "((string \<times> string) \<times> int option) list" and K
    by (induction m) auto
  then show "participants_of k (mark_read c u n db) = participants_of k db" by (simp add: mark_read_def participants_of_def)
qed (auto simp: mark_read_def)

lemma between_marked: "between_two (mark_read c u n db) = between_two db"
proof -
  have "list_all (\<lambda>((c, u), r). P c) m = list_all (\<lambda>x. P (fst x)) (map fst m)" for P and m :: "((string \<times> string) \<times> int option) list"
    by (induction m) auto
  then show ?thesis by (simp only: between_two_def marked_frame)
qed

lemma between_frame: "ch_conversations db' = ch_conversations db \<Longrightarrow> ch_participants db' = ch_participants db \<Longrightarrow> between_two db' = between_two db"
  by (simp add: between_two_def participants_of_def)

lemma between_created:
  assumes "between_two db" "map_of (ch_conversations db) c = None" "u \<noteq> w"
  shows "between_two (db\<lparr>ch_conversations := ch_conversations db @ [(c, v)], ch_participants := ch_participants db @ [((c, u), r), ((c, w), q)]\<rparr>)"
proof -
  have "c \<noteq> fst k" if "(k, x) \<in> set (ch_participants db)" for k x using assms(1,2) that by (auto simp: between_two_def list_all_iff)
  then have "filter (\<lambda>((k, u), r). k = c) (ch_participants db) = []" "c \<notin> fst ` fst ` set (ch_participants db)"
    by (force simp: filter_empty_conv)+
  with assms show ?thesis
    by (fastforce simp: between_two_def participants_of_def list_all_iff map_add_def split: option.splits)
qed

lemma chat_step_between: "between_two db \<Longrightarrow> between_two (chat_step n op db)"
  by (cases op) (auto simp: create_conversation_def send_message_def read_conversation_def patch_preferences_def Let_def between_marked between_created
      between_frame[where db' = "db\<lparr>ch_users := us\<rparr>" for us] between_frame[where db' = "db\<lparr>ch_messages := ms\<rparr>" for ms] split: option.splits)

lemma runs_between: "chat_run n db \<Longrightarrow> between_two db"
proof (induction rule: chat_run.induct)
  case (chat_start db n)
  then show ?case by (simp add: between_two_def)
next
  case (chat_more t db n op)
  show ?case by (rule chat_step_between) (rule chat_more.IH)
qed

lemma read_marked:
  assumes "read_own t db" "t \<le> n"
  shows "read_own n (mark_read c u n db)"
proof -
  have "list_all (\<lambda>(k, r). case r of Some t \<Rightarrow> t \<le> n | None \<Rightarrow> True) (ch_participants (mark_read c u n db))"
    using assms by (force simp: read_own_def mark_read_def list_all_iff split: option.splits)
  moreover have "cm_createdAt m \<le> n \<and> (\<exists>r. map_of (ch_participants (mark_read c u n db)) (cm_conversation m, cm_sender m) = Some (Some r) \<and> cm_createdAt m \<le> r)"
    if "m \<in> set (ch_messages db)" for m
    using assms that by (fastforce simp: read_own_def list_all_iff marked_as_read)
  ultimately show ?thesis by (simp add: read_own_def list_all_iff)
qed

lemma read_later: "read_own t db \<Longrightarrow> t \<le> n \<Longrightarrow> read_own n db"
  by (fastforce simp: read_own_def list_all_iff split: option.splits)

lemma read_sent:
  assumes "read_own t db" "t \<le> n" "map_of (ch_participants db) (cm_conversation m, cm_sender m) \<noteq> None" "cm_createdAt m = n"
  shows "read_own n (mark_read (cm_conversation m) (cm_sender m) n (db\<lparr>ch_messages := ch_messages db @ [m]\<rparr>))"
proof -
  let ?db = "db\<lparr>ch_messages := ch_messages db @ [m]\<rparr>" and ?c = "cm_conversation m" and ?u = "cm_sender m"
  from read_marked[OF assms(1,2), of ?c ?u] have old: "read_own n (mark_read ?c ?u n db)" .
  moreover have "map_of (ch_participants (mark_read ?c ?u n ?db)) = map_of (ch_participants (mark_read ?c ?u n db))"
    "ch_participants (mark_read ?c ?u n ?db) = ch_participants (mark_read ?c ?u n db)"
    by (simp_all add: mark_read_def)
  moreover have "map_of (ch_participants (mark_read ?c ?u n db)) (?c, ?u) = Some (Some n)"
    using assms(3) by (auto simp: marked_as_read)
  ultimately show ?thesis using assms(4) by (simp add: read_own_def)
qed

lemma read_created:
  assumes "read_own t db" "t \<le> n" "fst k1 = c" "fst k2 = c" "map_of (ch_conversations db) c = None" "between_two db"
  shows "read_own n (db\<lparr>ch_conversations := cs, ch_participants := ch_participants db @ [(k1, None), (k2, None)]\<rparr>)"
  using read_later[OF assms(1,2)] by (fastforce simp: read_own_def list_all_iff map_add_def)

lemma chat_step_read:
  assumes "read_own t db" "t \<le> n" "between_two db"
  shows "read_own n (chat_step n op db)"
proof (cases op)
  case (SendChat s c i b)
  have "read_own n (mark_read c u n (db\<lparr>ch_messages := ch_messages db @ [\<lparr>cm_id = i, cm_conversation = c, cm_sender = u, cm_text = x, cm_createdAt = n\<rparr>]\<rparr>))"
    if "map_of (ch_participants db) (c, u) \<noteq> None" for u x
    using read_sent[OF assms(1,2), of "\<lparr>cm_id = i, cm_conversation = c, cm_sender = u, cm_text = x, cm_createdAt = n\<rparr>"] that by simp
  with SendChat show ?thesis using read_later[OF assms(1,2)] by (auto simp: send_message_def Let_def split: option.splits)
next
  case (PreferChat s i th l)
  have "read_own n (db\<lparr>ch_users := us\<rparr>)" for us using read_later[OF assms(1,2)] by (simp add: read_own_def)
  with PreferChat show ?thesis using read_later[OF assms(1,2)] by (auto simp: patch_preferences_def split: option.splits)
qed (use assms read_later[OF assms(1,2)] in \<open>auto simp: create_conversation_def read_conversation_def read_marked read_created split: option.splits\<close>)

lemma runs_read: "chat_run n db \<Longrightarrow> read_own n db"
proof (induction rule: chat_run.induct)
  case (chat_start db n)
  then show ?case by (simp add: read_own_def)
next
  case (chat_more t db n op)
  show ?case by (rule chat_step_read[OF chat_more.IH chat_more.hyps(2) runs_between[OF chat_more.hyps(1)]])
qed

section \<open>What conversations promise\<close>

text \<open>
  Conversations are private: after any requests each is between two different people, every message in it was
  written by one of them, and anyone else who asks for its messages, writes or marks it read is refused.
\<close>

theorem conversations_are_private:
  assumes "chat_run n db" "map_of (ch_conversations db) c \<noteq> None"
  shows "\<exists>u w. u \<noteq> w \<and> participants_of c db = [u, w] \<and> list_all (\<lambda>m. cm_sender m = u \<or> cm_sender m = w) (messages_of c db) \<and>
    (ss_user x = u \<or> ss_user x = w \<or>
      get_messages (Some x) c page db = MessagesRefused 403 \<and> send_message (Some x) c i t b db = (ChatRefused 403, db) \<and>
      read_conversation (Some x) c t db = (ChatRefused 403, db))"
proof -
  have in_pair: "k \<in> set (participants_of c db) \<longleftrightarrow> map_of (ch_participants db) (c, k) \<noteq> None" for k
  proof -
    have "k \<in> set (participants_of c db) \<longleftrightarrow> (c, k) \<in> fst ` set (ch_participants db)" by (force simp: participants_of_def)
    then show ?thesis by (metis map_of_eq_None_iff)
  qed
  from assms(2) obtain v where "(c, v) \<in> set (ch_conversations db)" by (auto dest: map_of_SomeD)
  with runs_between[OF assms(1)] obtain u w where p: "u \<noteq> w" "participants_of c db = [u, w]"
    by (auto simp: between_two_def list_all_iff)
  have "cm_sender m = u \<or> cm_sender m = w" if "m \<in> set (messages_of c db)" for m
    using runs_read[OF assms(1)] that in_pair[of "cm_sender m"] p(2) by (auto simp: read_own_def list_all_iff messages_of_def)
  moreover have "ss_user x = u \<or> ss_user x = w \<or> map_of (ch_participants db) (c, ss_user x) = None" using in_pair[of "ss_user x"] p(2) by auto
  ultimately show ?thesis
    using p by (intro exI[of _ u] exI[of _ w]) (auto simp: list_all_iff get_messages_def send_message_def read_conversation_def)
qed

lemma last_message_latest: "last_message c db = Some m \<Longrightarrow> m \<in> set (messages_of c db) \<and> (\<forall>m' \<in> set (messages_of c db). cm_createdAt m' \<le> cm_createdAt m)"
proof -
  assume "last_message c db = Some m"
  then obtain ms where s: "sort_key (\<lambda>m. - cm_createdAt m) (messages_of c db) = m # ms"
    by (auto simp: last_message_def split: list.splits)
  then have e: "set (m # ms) = set (messages_of c db)" by (metis set_sort)
  have "sorted (map (\<lambda>m. - cm_createdAt m) (m # ms))" using sorted_sort_key[of "\<lambda>m. - cm_createdAt m" "messages_of c db"] by (simp only: s)
  then have "\<forall>x \<in> set (m # ms). cm_createdAt x \<le> cm_createdAt m" by auto
  with e show ?thesis by auto
qed

lemma last_message_none: "last_message c db = None \<longleftrightarrow> messages_of c db = []"
proof -
  have "length (sort_key f xs) = length xs" for f :: "chat_message \<Rightarrow> int" and xs by simp
  then have "sort_key f xs = [] \<longleftrightarrow> xs = []" for f :: "chat_message \<Rightarrow> int" and xs by (metis length_0_conv)
  then show ?thesis by (auto simp: last_message_def split: list.splits)
qed

lemma unread_of_last:
  assumes "read_own n db" "map_of (ch_participants db) (c, u) = Some r"
  shows "has_unread u c r db \<longleftrightarrow> unread_by u db ((c, u), r)"
proof (cases "last_message c db")
  case None
  then have "messages_of c db = []" by (simp add: last_message_none)
  with None show ?thesis by (auto simp: has_unread_def unread_by_def list_ex_iff messages_of_def filter_empty_conv)
next
  case (Some m)
  from last_message_latest[OF Some] have m: "m \<in> set (ch_messages db)" "cm_conversation m = c"
    and top: "\<And>m'. m' \<in> set (ch_messages db) \<Longrightarrow> cm_conversation m' = c \<Longrightarrow> cm_createdAt m' \<le> cm_createdAt m"
    by (auto simp: messages_of_def)
  show ?thesis
  proof (cases "cm_sender m = u")
    case True
    from assms(1) m(1) obtain t where "map_of (ch_participants db) (cm_conversation m, cm_sender m) = Some (Some t)" "cm_createdAt m \<le> t"
      unfolding read_own_def list_all_iff by blast
    with assms(2) m(2) True have t: "r = Some t" "cm_createdAt m \<le> t" by simp_all
    with top True Some show ?thesis by (fastforce simp: has_unread_def unread_by_def list_ex_iff)
  next
    case False
    with m top Some show ?thesis by (force simp: has_unread_def unread_by_def list_ex_iff split: option.splits)
  qed
qed

text \<open>
  The list of conversations looks only at the last message of each to say that something is unread; that is exact:
  the conversations it marks are as many as the count of unread conversations, which looks at all messages.
\<close>

theorem unread_marks_are_exact:
  assumes "chat_run n db" "list_conversations (Some x) db = Inr vs"
  shows "unread_count (Some x) db = Inr (length (filter vw_unread vs))"
proof -
  let ?mine = "filter (\<lambda>((c, u), r). u = ss_user x) (ch_participants db)"
  have d: "distinct (map fst (ch_participants db))" using runs_between[OF assms(1)] by (simp add: between_two_def)
  have vs: "vs = map (view_of (ss_user x) db) (sort_key (\<lambda>p. - latest (fst (fst p)) db) ?mine)"
    using assms(2) by (simp add: list_conversations_def)
  have "vw_unread (view_of (ss_user x) db p) = unread_by (ss_user x) db p" if "p \<in> set ?mine" for p
  proof -
    obtain c u r where p: "p = ((c, u), r)" by (metis surj_pair)
    with that d have "map_of (ch_participants db) (c, u) = Some r" "u = ss_user x" by auto
    with unread_of_last[OF runs_read[OF assms(1)], of c u r] show ?thesis by (simp add: p view_of_def)
  qed
  then have "filter (\<lambda>p. vw_unread (view_of (ss_user x) db p)) ?mine = filter (unread_by (ss_user x) db) ?mine" by (rule filter_cong[OF refl])
  moreover have "filter (unread_by (ss_user x) db) ?mine = filter (\<lambda>p. snd (fst p) = ss_user x \<and> unread_by (ss_user x) db p) (ch_participants db)"
    by (simp add: split_def conj_commute)
  moreover have "length (filter vw_unread vs) = length (filter (\<lambda>p. vw_unread (view_of (ss_user x) db p)) ?mine)"
    by (simp only: vs filter_map length_map comp_def filter_sort length_sort)
  ultimately show ?thesis by (simp add: unread_count_def)
qed

section \<open>A sample\<close>

definition sample_member :: "string \<Rightarrow> erp_session" where
  "sample_member u = \<lparr>ss_user = u, ss_role = ''employee'', ss_employee = None, ss_email = None\<rparr>"

definition sample_chat_user :: chat_user where
  "sample_chat_user = \<lparr>cu_email = ''a@b'', cu_fullName = None, cu_theme = ''system'', cu_locale = ''fr''\<rparr>"

definition empty_chat :: chat_db where
  "empty_chat = \<lparr>ch_users = [(''a'', sample_chat_user), (''b'', sample_chat_user)], ch_timesheets = [], ch_conversations = [], ch_participants = [], ch_messages = []\<rparr>"

text \<open>Two people talk: the second wrote last, so the conversation is unread for the first.\<close>

definition sample_chat :: chat_db where
  "sample_chat = chat_step 9 (SendChat (Some (sample_member ''b'')) ''c'' ''m2'' (Some ''hello''))
     (chat_step 7 (SendChat (Some (sample_member ''a'')) ''c'' ''m1'' (Some ''hi''))
     (chat_step 5 (CreateChat (Some (sample_member ''a'')) ''c'' (Some ''b'') None) empty_chat))"

lemma sample_chat_eq:
  "sample_chat = empty_chat\<lparr>ch_conversations := [(''c'', \<lparr>cv_timesheetId = None, cv_createdAt = 5\<rparr>)],
     ch_participants := [((''c'', ''a''), Some 7), ((''c'', ''b''), Some 9)],
     ch_messages := [\<lparr>cm_id = ''m1'', cm_conversation = ''c'', cm_sender = ''a'', cm_text = ''hi'', cm_createdAt = 7\<rparr>,
       \<lparr>cm_id = ''m2'', cm_conversation = ''c'', cm_sender = ''b'', cm_text = ''hello'', cm_createdAt = 9\<rparr>]\<rparr>"
proof -
  have trimmed: "js_trim ''hi'' = ''hi''" "js_trim ''hello'' = ''hello''" by code_simp+
  show ?thesis
    by (simp add: sample_chat_def create_conversation_def send_message_def mark_read_def existing_conversation_def empty_chat_def sample_member_def
        truthy_def trimmed Let_def)
qed

lemma sample_chat_run: "chat_run 9 sample_chat"
  unfolding sample_chat_def by (rule chat_more[where t = 7], rule chat_more[where t = 5], rule chat_more[where t = 5], rule chat_start)
    (simp_all add: empty_chat_def)

theorem conversations_are_private_witness:
  "\<exists>u w. u \<noteq> w \<and> participants_of ''c'' sample_chat = [u, w] \<and>
    (''x'' = u \<or> ''x'' = w \<or> get_messages (Some (sample_member ''x'')) ''c'' (Some 1) sample_chat = MessagesRefused 403)"
proof -
  have "map_of (ch_conversations sample_chat) ''c'' \<noteq> None" by (simp add: sample_chat_eq)
  from conversations_are_private[OF sample_chat_run this, of "sample_member ''x''" "Some 1"] show ?thesis
    by (simp only: sample_member_def erp_session.simps) blast
qed

theorem unread_marks_are_exact_witness:
  "unread_count (Some (sample_member ''a'')) sample_chat = Inr 1"
proof -
  obtain vs where vs: "list_conversations (Some (sample_member ''a'')) sample_chat = Inr vs" "length (filter vw_unread vs) = 1"
    by (simp add: list_conversations_def sample_chat_eq sample_member_def empty_chat_def view_of_def has_unread_def last_message_def messages_of_def Let_def)
  show ?thesis using unread_marks_are_exact[OF sample_chat_run vs(1)] vs(2) by simp
qed

end
