(* ===== verification/Erp_Approvals.thy ===== *)
theory Erp_Approvals
  imports Erp_Access
begin

text \<open>
  What the ERP has approved through workflows (\<open>nexus-erp/src/app/api\<close>): organizations and the changes of
  their status, timesheets, expense reports, requests to change a profile, and the tasks through which they are
  decided. The workflow engine is another process: what it answers is an argument, and a route that calls it is
  split there, so that other requests can come between the parts. Dates are numbers, hours and amounts
  hundredths; bodies are given as zod accepted them, or \<open>None\<close>.
\<close>

section \<open>The tables\<close>

datatype org_status = OrgActive | OrgInactive | OrgArchived

record organization =
  og_fields :: "(string \<times> string option) list"
  og_status :: org_status
  og_ownerId :: "string option"
  og_reason :: "string option"
  og_workflow :: "string option"

datatype timesheet_status = TsDraft | TsSubmitted | TsManagerReview | TsHrReview | TsRevision | TsApproved | TsRejected

record timesheet =
  ts_employeeId :: string
  ts_weekStart :: int
  ts_rejection :: "string option"
  ts_status :: timesheet_status
  ts_workflow :: "string option"
  ts_submittedAt :: "int option"
  ts_decidedAt :: "int option"

record timesheet_entry =
  te_timesheetId :: string
  te_date :: int
  te_hours :: int
  te_projectCode :: "string option"
  te_description :: "string option"

datatype expense_status = XDraft | XSubmitted | XApprovedManager | XApprovedAccounting | XRejected | XReimbursed

record expense_report =
  xr_employeeId :: string
  xr_status :: expense_status
  xr_workflow :: "string option"
  xr_receipt :: "string option"

record line_item =
  xi_reportId :: string
  xi_date :: int
  xi_category :: string
  xi_amount :: int
  xi_description :: "string option"

datatype request_status = PrPending | PrApproved | PrDenied | PrCancelled

record profile_request =
  pq_employeeId :: string
  pq_contact :: contact
  pq_status :: request_status
  pq_rejection :: "string option"
  pq_resolvedBy :: "string option"
  pq_workflow :: "string option"

record erp_db =
  er_people :: people_db
  er_orgs :: "(string \<times> organization) list"
  er_timesheets :: "(string \<times> timesheet) list"
  er_entries :: "(string \<times> timesheet_entry) list"
  er_reports :: "(string \<times> expense_report) list"
  er_items :: "line_item list"
  er_requests :: "(string \<times> profile_request) list"

definition audit :: "string \<Rightarrow> string \<Rightarrow> audit_action \<Rightarrow> erp_session \<Rightarrow> (string \<times> jsval) list option \<Rightarrow> (string \<times> jsval) list option \<Rightarrow> erp_db \<Rightarrow> erp_db" where
  "audit entityType i action s before after db =
     db\<lparr>er_people := (er_people db)\<lparr>pp_audit := createAuditLog entityType i action s before after (pp_audit (er_people db))\<rparr>\<rparr>"

definition change_row :: "'k \<Rightarrow> ('r \<Rightarrow> 'r) \<Rightarrow> ('k \<times> 'r) list \<Rightarrow> ('k \<times> 'r) list" where
  "change_row k f m = map (\<lambda>(j, r). (j, if j = k then f r else r)) m"

text \<open>\<open>findFirst\<close> by a column.\<close>

definition row_where :: "('r \<Rightarrow> bool) \<Rightarrow> ('k \<times> 'r) list \<Rightarrow> ('k \<times> 'r) option" where
  "row_where P m = List.find (\<lambda>(k, r). P r) m"

definition nullable :: "string option \<Rightarrow> jsval" where
  "nullable s = (case s of None \<Rightarrow> JNull | Some t \<Rightarrow> JString t)"

fun org_text :: "org_status \<Rightarrow> string" where
  "org_text OrgActive = ''active''" | "org_text OrgInactive = ''inactive''" | "org_text OrgArchived = ''archived''"

fun ts_text :: "timesheet_status \<Rightarrow> string" where
  "ts_text TsDraft = ''draft''" | "ts_text TsSubmitted = ''submitted''" | "ts_text TsManagerReview = ''pending_manager_review''"
| "ts_text TsHrReview = ''pending_hr_review''" | "ts_text TsRevision = ''revision_requested''"
| "ts_text TsApproved = ''approved''" | "ts_text TsRejected = ''rejected''"

fun expense_text :: "expense_status \<Rightarrow> string" where
  "expense_text XDraft = ''DRAFT''" | "expense_text XSubmitted = ''SUBMITTED''" | "expense_text XApprovedManager = ''APPROVED_MANAGER''"
| "expense_text XApprovedAccounting = ''APPROVED_ACCOUNTING''" | "expense_text XRejected = ''REJECTED''" | "expense_text XReimbursed = ''REIMBURSED''"

definition status_json :: "string \<Rightarrow> (string \<times> jsval) list" where
  "status_json t = [(''status'', JString t)]"

text \<open>The employee of a session that has one: \<open>session?.user.employeeId\<close> is truthy.\<close>

definition employee_session :: "erp_session option \<Rightarrow> (erp_session \<times> string) option" where
  "employee_session s = (case s of None \<Rightarrow> None | Some x \<Rightarrow>
     (case ss_employee x of None \<Rightarrow> None | Some e \<Rightarrow> if e = [] then None else Some (x, e)))"

section \<open>Expense reports\<close>

definition editable :: "expense_status \<Rightarrow> bool" where
  "editable st \<longleftrightarrow> st = XDraft \<or> st = XRejected"

definition report_items :: "string \<Rightarrow> erp_db \<Rightarrow> line_item list" where
  "report_items i db = sort_key xi_date (filter (\<lambda>x. xi_reportId x = i) (er_items db))"

definition team_of :: "string \<Rightarrow> erp_db \<Rightarrow> string list" where
  "team_of e db = map fst (filter (\<lambda>(k, r). ey_managerId r = Some e) (pp_employees (er_people db)))"

text \<open>Whose reports a session may see: \<open>None\<close> is everyone's.\<close>

definition visible_employees :: "erp_session \<Rightarrow> string \<Rightarrow> erp_db \<Rightarrow> string list option" where
  "visible_employees s e db =
     (if canViewAllExpenses s (er_people db) then None
      else if canViewTeamExpenses s then Some (e # team_of e db)
      else Some [e])"

definition is_visible :: "string list option \<Rightarrow> string \<Rightarrow> bool" where
  "is_visible vis e \<longleftrightarrow> (case vis of None \<Rightarrow> True | Some es \<Rightarrow> e \<in> set es)"

type_synonym report_view = "string \<times> expense_report \<times> line_item list"

definition list_expenses :: "erp_session option \<Rightarrow> expense_status option \<Rightarrow> erp_db \<Rightarrow> nat + report_view list" where
  "list_expenses s status db =
     (case employee_session s of
        None \<Rightarrow> Inl 403
      | Some (x, e) \<Rightarrow> Inr (map (\<lambda>(k, r). (k, r, report_items k db))
          (filter (\<lambda>(k, r). is_visible (visible_employees x e db) (xr_employeeId r) \<and> (case status of None \<Rightarrow> True | Some st \<Rightarrow> xr_status r = st))
            (rev (er_reports db)))))"

definition get_expense :: "erp_session option \<Rightarrow> string \<Rightarrow> erp_db \<Rightarrow> nat + report_view \<times> erp_audit list" where
  "get_expense s i db =
     (case employee_session s of
        None \<Rightarrow> Inl 403
      | Some (x, e) \<Rightarrow>
          (case map_of (er_reports db) i of
             None \<Rightarrow> Inl 404
           | Some r \<Rightarrow>
               if \<not> is_visible (visible_employees x e db) (xr_employeeId r) then Inl 403
               else Inr ((i, r, report_items i db),
                 filter (\<lambda>a. ea_entityType a = ''ExpenseReport'' \<and> ea_entityId a = i) (pp_audit (er_people db)))))"

record item_input =
  ii_date :: int
  ii_category :: string
  ii_amount :: int
  ii_description :: "string option"

definition item_row :: "string \<Rightarrow> item_input \<Rightarrow> line_item" where
  "item_row i x = \<lparr>xi_reportId = i, xi_date = ii_date x, xi_category = ii_category x, xi_amount = ii_amount x, xi_description = ii_description x\<rparr>"

definition create_expense :: "erp_session option \<Rightarrow> string \<Rightarrow> item_input list option \<Rightarrow> erp_db \<Rightarrow> erp_reply \<times> erp_db" where
  "create_expense s i body db =
     (case employee_session s of
        None \<Rightarrow> (ErpRefused 403, db)
      | Some (x, e) \<Rightarrow>
          (case body of
             None \<Rightarrow> (ErpRefused 400, db)
           | Some items \<Rightarrow> (ErpDone, audit ''ExpenseReport'' i AuditCreate x None
               (Some ([(''id'', JString i), (''employeeId'', JString e)] @ status_json ''DRAFT''))
               (db\<lparr>er_reports := er_reports db @ [(i, \<lparr>xr_employeeId = e, xr_status = XDraft, xr_workflow = None, xr_receipt = None\<rparr>)],
                   er_items := er_items db @ map (item_row i) items\<rparr>))))"

text \<open>
  \<open>PATCH\<close>, up to the call of the engine: the status that was seen, and the user the engine is to ask when the
  report is submitted. The body: new items, and whether to submit; zod wants one of the two.
\<close>

record expense_patch =
  xp_items :: "item_input list option"
  xp_submit :: bool

record expense_plan =
  xn_session :: erp_session
  xn_id :: string
  xn_patch :: expense_patch
  xn_seen :: expense_status
  xn_owner :: string
  xn_manager :: "string option"

definition manager_of :: "string \<Rightarrow> erp_db \<Rightarrow> string option" where
  "manager_of e db =
     (case map_of (pp_employees (er_people db)) e of
        None \<Rightarrow> None
      | Some r \<Rightarrow> (case ey_managerId r of
          None \<Rightarrow> None
        | Some m \<Rightarrow> map_option ey_userId (map_of (pp_employees (er_people db)) m)))"

definition expense_start :: "erp_session option \<Rightarrow> string \<Rightarrow> expense_patch option \<Rightarrow> erp_db \<Rightarrow> nat + expense_plan" where
  "expense_start s i body db =
     (case employee_session s of
        None \<Rightarrow> Inl 403
      | Some (x, e) \<Rightarrow>
          (case map_of (er_reports db) i of
             None \<Rightarrow> Inl 404
           | Some r \<Rightarrow>
               if xr_employeeId r \<noteq> e then Inl 403
               else (case body of
                 None \<Rightarrow> Inl 400
               | Some p \<Rightarrow>
                   if xp_submit p \<and> \<not> editable (xr_status r) then Inl 422
                   else if xp_items p \<noteq> None \<and> \<not> editable (xr_status r) then Inl 422
                   else if xp_submit p \<and> manager_of e db = None then Inl 422
                   else Inr \<lparr>xn_session = x, xn_id = i, xn_patch = p, xn_seen = xr_status r, xn_owner = e,
                             xn_manager = (if xp_submit p then manager_of e db else None)\<rparr>)))"

text \<open>
  The transaction, with the id of the instance that was started when the report is submitted; the second
  result is the reply. A transaction that returns \<open>null\<close> is committed like any other.
\<close>

definition replace_items :: "string \<Rightarrow> item_input list option \<Rightarrow> erp_db \<Rightarrow> erp_db" where
  "replace_items i items db =
     (case items of
        None \<Rightarrow> db
      | Some xs \<Rightarrow> db\<lparr>er_items := filter (\<lambda>x. xi_reportId x \<noteq> i) (er_items db) @ map (item_row i) xs\<rparr>)"

definition expense_audit :: "expense_plan \<Rightarrow> expense_status \<Rightarrow> erp_db \<Rightarrow> erp_db" where
  "expense_audit p st db =
     audit ''ExpenseReport'' (xn_id p) AuditUpdate (xn_session p) (Some (status_json (expense_text (xn_seen p))))
       (Some (status_json (expense_text st) @ [(''lineItemsReplaced'', JBool (xp_items (xn_patch p) \<noteq> None)),
          (''lineItemCount'', JNumber (Finite (of_nat (length (report_items (xn_id p) db)))))])) db"

definition expense_commit :: "expense_plan \<Rightarrow> string option \<Rightarrow> erp_db \<Rightarrow> erp_reply \<times> erp_db" where
  "expense_commit p instance db =
     (let i = xn_id p; db1 = replace_items i (xp_items (xn_patch p)) db in
      if truthy instance then
        (if (case map_of (er_reports db1) i of None \<Rightarrow> False | Some r \<Rightarrow> editable (xr_status r))
         then (ErpDone, expense_audit p XSubmitted
           (db1\<lparr>er_reports := change_row i (\<lambda>r. r\<lparr>xr_status := XSubmitted, xr_workflow := instance\<rparr>) (er_reports db1)\<rparr>))
         else (ErpRefused 409, audit ''ExpenseReport'' i AuditConflict (xn_session p) (Some (status_json (expense_text (xn_seen p))))
           (Some [(''conflict'', JBool True), (''workflowInstanceId'', nullable instance)]) db1))
      else (case map_of (er_reports db1) i of
          None \<Rightarrow> (ErpThrew, db)
        | Some r \<Rightarrow>
            let st = (if xp_submit (xn_patch p) then XSubmitted else xr_status r) in
            (ErpDone, expense_audit p st (db1\<lparr>er_reports := change_row i (\<lambda>r. r\<lparr>xr_status := st\<rparr>) (er_reports db1)\<rparr>))))"

text \<open>The instance of a submission that lost is cancelled.\<close>

definition orphan :: "string option \<Rightarrow> erp_reply \<Rightarrow> string option" where
  "orphan instance r = (if r = ErpRefused 409 \<and> truthy instance then instance else None)"

text \<open>The upload of a receipt: the file's size, its declared type, and the type its bytes show.\<close>

record upload =
  up_size :: nat
  up_type :: string
  up_detected :: "string option"

definition MAX_BYTES :: nat where
  "MAX_BYTES = 10 * 1024 * 1024"

definition receipt_extension :: "string \<Rightarrow> string option" where
  "receipt_extension t = map_of [(''image/jpeg'', ''jpg''), (''image/png'', ''png''), (''image/webp'', ''webp''), (''application/pdf'', ''pdf'')] t"

definition receipt_check :: "erp_session option \<Rightarrow> string \<Rightarrow> upload option \<Rightarrow> erp_db \<Rightarrow> nat + erp_session \<times> string \<times> string option" where
  "receipt_check s i file db =
     (case employee_session s of
        None \<Rightarrow> Inl 403
      | Some (x, e) \<Rightarrow>
          (case map_of (er_reports db) i of
             None \<Rightarrow> Inl 404
           | Some r \<Rightarrow>
               if xr_employeeId r \<noteq> e then Inl 403
               else if \<not> editable (xr_status r) then Inl 422
               else (case file of
                 None \<Rightarrow> Inl 400
               | Some f \<Rightarrow>
                   if up_size f > MAX_BYTES then Inl 413
                   else (case receipt_extension (up_type f) of
                     None \<Rightarrow> Inl 415
                   | Some ext \<Rightarrow> if up_detected f \<noteq> Some (up_type f) then Inl 415 else Inr (x, ext, xr_receipt r)))))"

text \<open>After the file was written under \<open>path\<close>: the files there are, and the row.\<close>

definition receipt_store :: "erp_session \<Rightarrow> string \<Rightarrow> string \<Rightarrow> string option \<Rightarrow> string list \<Rightarrow> erp_db \<Rightarrow> erp_reply \<times> string list \<times> erp_db" where
  "receipt_store s i path old files db =
     (if map_of (er_reports db) i = None then (ErpThrew, files, db)
      else (ErpDone,
        (if truthy old then removeAll (the old) (path # files) else path # files),
        audit ''ExpenseReport'' i AuditUpdate s (Some [(''receiptPath'', nullable old)]) (Some [(''receiptPath'', JString path)])
          (db\<lparr>er_reports := change_row i (\<lambda>r. r\<lparr>xr_receipt := Some path\<rparr>) (er_reports db)\<rparr>)))"

section \<open>Timesheets\<close>

definition ts_editable :: "timesheet_status \<Rightarrow> bool" where
  "ts_editable st \<longleftrightarrow> st = TsDraft \<or> st = TsRevision"

definition list_timesheets :: "erp_session option \<Rightarrow> (int \<times> int) option \<Rightarrow> erp_db \<Rightarrow> nat + (string \<times> timesheet \<times> int) list" where
  "list_timesheets s between db =
     (case employee_session s of
        None \<Rightarrow> Inl 403
      | Some (x, e) \<Rightarrow> Inr (map (\<lambda>(k, t). (k, t, sum_list (map (\<lambda>(j, n). te_hours n) (filter (\<lambda>(j, n). te_timesheetId n = k) (er_entries db)))))
          (sort_key (\<lambda>(k, t). - ts_weekStart t)
            (filter (\<lambda>(k, t). ts_employeeId t = e \<and> (case between of None \<Rightarrow> True | Some (a, b) \<Rightarrow> a \<le> ts_weekStart t \<and> ts_weekStart t \<le> b))
              (er_timesheets db)))))"

definition create_timesheet :: "erp_session option \<Rightarrow> string \<Rightarrow> (string \<times> int) option \<Rightarrow> erp_db \<Rightarrow> erp_reply \<times> erp_db" where
  "create_timesheet s i body db =
     (case employee_session s of
        None \<Rightarrow> (ErpRefused 403, db)
      | Some (x, e) \<Rightarrow>
          (case body of
             None \<Rightarrow> (ErpRefused 400, db)
           | Some (text, week) \<Rightarrow>
               if list_ex (\<lambda>(k, t). ts_employeeId t = e \<and> ts_weekStart t = week) (er_timesheets db) then (ErpRefused 409, db)
               else (ErpDone, audit ''Timesheet'' i AuditCreate x None
                 (Some ([(''id'', JString i), (''employeeId'', JString e), (''weekStart'', JString text)] @ status_json ''draft''))
                 (db\<lparr>er_timesheets := er_timesheets db @ [(i, \<lparr>ts_employeeId = e, ts_weekStart = week, ts_rejection = None, ts_status = TsDraft,
                    ts_workflow = None, ts_submittedAt = None, ts_decidedAt = None\<rparr>)]\<rparr>))))"

definition get_timesheet :: "erp_session option \<Rightarrow> string \<Rightarrow> erp_db \<Rightarrow> nat + timesheet \<times> timesheet_entry list" where
  "get_timesheet s i db =
     (case s of
        None \<Rightarrow> Inl 401
      | Some x \<Rightarrow>
          (case map_of (er_timesheets db) i of
             None \<Rightarrow> Inl 404
           | Some t \<Rightarrow>
               if ss_role x \<noteq> ''manager'' \<and> ss_employee x \<noteq> Some (ts_employeeId t) then Inl 403
               else Inr (t, sort_key te_date (map snd (filter (\<lambda>(k, n). te_timesheetId n = i) (er_entries db))))))"

text \<open>The timesheet of the session's employee that can be edited.\<close>

definition own_timesheet :: "erp_session option \<Rightarrow> string \<Rightarrow> erp_db \<Rightarrow> nat + timesheet" where
  "own_timesheet s i db =
     (case employee_session s of
        None \<Rightarrow> Inl 401
      | Some (x, e) \<Rightarrow>
          (case map_of (er_timesheets db) i of
             None \<Rightarrow> Inl 404
           | Some t \<Rightarrow> if ts_employeeId t \<noteq> e then Inl 403 else if \<not> ts_editable (ts_status t) then Inl 422 else Inr t))"

record entry_input =
  en_date :: int
  en_hours :: int
  en_projectCode :: "string option"
  en_description :: "string option"

definition create_time_entry :: "erp_session option \<Rightarrow> string \<Rightarrow> string \<Rightarrow> entry_input option \<Rightarrow> erp_db \<Rightarrow> erp_reply \<times> erp_db" where
  "create_time_entry s i newEntry body db =
     (case own_timesheet s i db of
        Inl n \<Rightarrow> (ErpRefused n, db)
      | Inr t \<Rightarrow>
          (case body of
             None \<Rightarrow> (ErpRefused 400, db)
           | Some b \<Rightarrow> (ErpDone, db\<lparr>er_entries := er_entries db @ [(newEntry, \<lparr>te_timesheetId = i, te_date = en_date b, te_hours = en_hours b,
               te_projectCode = en_projectCode b, te_description = en_description b\<rparr>)]\<rparr>)))"

definition resolveEntry :: "erp_session option \<Rightarrow> string \<Rightarrow> string \<Rightarrow> erp_db \<Rightarrow> nat + timesheet_entry" where
  "resolveEntry s i entryId db =
     (case own_timesheet s i db of
        Inl n \<Rightarrow> Inl n
      | Inr t \<Rightarrow>
          (case map_of (er_entries db) entryId of
             None \<Rightarrow> Inl 404
           | Some n \<Rightarrow> if te_timesheetId n = i then Inr n else Inl 404))"

definition put_entry :: "erp_session option \<Rightarrow> string \<Rightarrow> string \<Rightarrow> entry_input option \<Rightarrow> erp_db \<Rightarrow> erp_reply \<times> erp_db" where
  "put_entry s i entryId body db =
     (case resolveEntry s i entryId db of
        Inl n \<Rightarrow> (ErpRefused n, db)
      | Inr e \<Rightarrow>
          (case body of
             None \<Rightarrow> (ErpRefused 400, db)
           | Some b \<Rightarrow> (ErpDone, db\<lparr>er_entries := change_row entryId
               (\<lambda>n. n\<lparr>te_hours := en_hours b, te_projectCode := en_projectCode b, te_description := en_description b\<rparr>) (er_entries db)\<rparr>)))"

definition delete_entry :: "erp_session option \<Rightarrow> string \<Rightarrow> string \<Rightarrow> erp_db \<Rightarrow> erp_reply \<times> erp_db" where
  "delete_entry s i entryId db =
     (case resolveEntry s i entryId db of
        Inl n \<Rightarrow> (ErpRefused n, db)
      | Inr e \<Rightarrow> (ErpDone, db\<lparr>er_entries := AList.delete entryId (er_entries db)\<rparr>))"

text \<open>\<open>submit\<close>, up to the call of the engine: what the instance is started with, and the status that was seen.\<close>

record submit_plan =
  sp_session :: erp_session
  sp_id :: string
  sp_seen :: timesheet_status
  sp_manager :: string
  sp_hours :: int

definition submit_start :: "erp_session option \<Rightarrow> string \<Rightarrow> erp_db \<Rightarrow> nat + submit_plan" where
  "submit_start s i db =
     (case own_timesheet s i db of
        Inl n \<Rightarrow> Inl n
      | Inr t \<Rightarrow>
          (case manager_of (ts_employeeId t) db of
             None \<Rightarrow> Inl 422
           | Some m \<Rightarrow>
               let hours = map (\<lambda>(k, n). te_hours n) (filter (\<lambda>(k, n). te_timesheetId n = i) (er_entries db)) in
               if hours = [] then Inl 422
               else Inr \<lparr>sp_session = the s, sp_id = i, sp_seen = ts_status t, sp_manager = m, sp_hours = sum_list hours\<rparr>))"

text \<open>\<open>date_text\<close> is how JSON writes a time.\<close>

definition submit_finish :: "(int \<Rightarrow> string) \<Rightarrow> submit_plan \<Rightarrow> string \<Rightarrow> int \<Rightarrow> erp_db \<Rightarrow> erp_reply \<times> erp_db" where
  "submit_finish date_text p instance n db =
     (if map_of (er_timesheets db) (sp_id p) = None then (ErpThrew, db)
      else (ErpDone, audit ''Timesheet'' (sp_id p) AuditUpdate (sp_session p) (Some (status_json (ts_text (sp_seen p))))
        (Some (status_json ''pending_manager_review'' @ [(''submittedAt'', JString (date_text n))]))
        (db\<lparr>er_timesheets := change_row (sp_id p)
          (\<lambda>t. t\<lparr>ts_status := TsManagerReview, ts_workflow := Some instance, ts_submittedAt := Some n, ts_rejection := None, ts_decidedAt := None\<rparr>)
          (er_timesheets db)\<rparr>)))"

section \<open>Organizations\<close>

definition identity_fields :: "string list" where
  "identity_fields = [''name'', ''legalName'', ''industry'', ''taxId'', ''registrationNo'']"

definition contact_fields :: "string list" where
  "contact_fields = [''email'', ''phone'', ''website'', ''street'', ''city'', ''state'', ''postalCode'', ''country'']"

text \<open>\<open>v || null\<close>, and the fields of a body that the schema knows.\<close>

definition or_null :: "string option \<Rightarrow> string option" where
  "or_null v = (if truthy v then v else None)"

definition known_fields :: "string list \<Rightarrow> (string \<times> string option) list \<Rightarrow> (string \<times> string option) list" where
  "known_fields ks fs = filter (\<lambda>(k, v). k \<in> set ks) fs"

definition fields_json :: "(string \<times> string option) list \<Rightarrow> (string \<times> jsval) list" where
  "fields_json fs = map (\<lambda>(k, v). (k, nullable v)) fs"

definition org_value :: "organization \<Rightarrow> string \<Rightarrow> string option" where
  "org_value g k = (case map_of (og_fields g) k of None \<Rightarrow> None | Some v \<Rightarrow> v)"

definition list_organizations :: "erp_session option \<Rightarrow> erp_db \<Rightarrow> nat + (string \<times> organization) list" where
  "list_organizations s db =
     (case s of None \<Rightarrow> Inl 401 | Some x \<Rightarrow> Inr (filter (\<lambda>(k, g). og_status g \<noteq> OrgArchived) (er_orgs db)))"

definition get_organization :: "erp_session option \<Rightarrow> string \<Rightarrow> erp_db \<Rightarrow> nat + organization" where
  "get_organization s i db =
     (case s of None \<Rightarrow> Inl 401 | Some x \<Rightarrow> (case map_of (er_orgs db) i of None \<Rightarrow> Inl 404 | Some g \<Rightarrow> Inr g))"

text \<open>The owner must be an employee: the foreign key refuses another id.\<close>

definition owner_exists :: "string option \<Rightarrow> erp_db \<Rightarrow> bool" where
  "owner_exists ow db \<longleftrightarrow> (case ow of None \<Rightarrow> True | Some e \<Rightarrow> map_of (pp_employees (er_people db)) e \<noteq> None)"

definition create_organization ::
  "erp_session option \<Rightarrow> string \<Rightarrow> ((string \<times> string option) list \<times> string option) option \<Rightarrow> erp_db \<Rightarrow> erp_reply \<times> erp_db" where
  "create_organization s i body db =
     (case s of
        Some x \<Rightarrow>
          if ss_role x \<noteq> ''manager'' then (ErpRefused 403, db)
          else (case body of
            None \<Rightarrow> (ErpRefused 400, db)
          | Some (fs, ow) \<Rightarrow>
              let g = \<lparr>og_fields = map (\<lambda>k. (k, or_null (case map_of fs k of None \<Rightarrow> None | Some v \<Rightarrow> v))) (identity_fields @ contact_fields),
                       og_status = OrgActive, og_ownerId = or_null ow, og_reason = None, og_workflow = None\<rparr>
              in if \<not> owner_exists (or_null ow) db then (ErpThrew, db)
                 else (ErpDone, audit ''Organization'' i AuditCreate x None
                   (Some ([(''id'', JString i), (''name'', nullable (org_value g ''name''))] @ status_json ''active''))
                   (db\<lparr>er_orgs := er_orgs db @ [(i, g)]\<rparr>)))
      | None \<Rightarrow> (ErpRefused 403, db))"

definition update_fields :: "(string \<times> string option) list \<Rightarrow> organization \<Rightarrow> organization" where
  "update_fields fs g = g\<lparr>og_fields := fold (\<lambda>(k, v) m. AList.update k v m) fs (og_fields g)\<rparr>"

definition owner_user :: "organization \<Rightarrow> erp_db \<Rightarrow> string option" where
  "owner_user g db = (case og_ownerId g of None \<Rightarrow> None | Some e \<Rightarrow> map_option ey_userId (map_of (pp_employees (er_people db)) e))"

definition patch_organization :: "erp_session option \<Rightarrow> string \<Rightarrow> (string \<times> string option) list option \<Rightarrow> erp_db \<Rightarrow> erp_reply \<times> erp_db" where
  "patch_organization s i body db =
     (case s of
        None \<Rightarrow> (ErpRefused 401, db)
      | Some x \<Rightarrow>
          (case map_of (er_orgs db) i of
             None \<Rightarrow> (ErpRefused 404, db)
           | Some g \<Rightarrow>
               if \<not> canAccess x ''organizations'' ''write'' (owner_user g db) (er_people db) then (ErpRefused 403, db)
               else (case body of
                 None \<Rightarrow> (ErpRefused 400, db)
               | Some b \<Rightarrow> (let fs = known_fields identity_fields b in
                   (ErpDone, audit ''Organization'' i AuditUpdate x (Some (map (\<lambda>k. (k, nullable (org_value g k))) identity_fields)) (Some (fields_json fs))
                     (db\<lparr>er_orgs := change_row i (update_fields fs) (er_orgs db)\<rparr>))))))"

definition patch_contact :: "erp_session option \<Rightarrow> string \<Rightarrow> (string \<times> string option) list option \<Rightarrow> erp_db \<Rightarrow> erp_reply \<times> erp_db" where
  "patch_contact s i body db =
     (case s of
        None \<Rightarrow> (ErpRefused 401, db)
      | Some x \<Rightarrow>
          (case map_of (er_orgs db) i of
             None \<Rightarrow> (ErpRefused 404, db)
           | Some g \<Rightarrow>
               if \<not> canEditContact x (og_ownerId g) then (ErpRefused 403, db)
               else (case body of
                 None \<Rightarrow> (ErpRefused 400, db)
               | Some b \<Rightarrow> (let fs = map (\<lambda>(k, v). (k, if v = Some [] then None else v)) (known_fields contact_fields b) in
                   (ErpDone, audit ''Organization'' i AuditUpdate x (Some (map (\<lambda>k. (k, nullable (org_value g k))) contact_fields)) (Some (fields_json fs))
                     (db\<lparr>er_orgs := change_row i (update_fields fs) (er_orgs db)\<rparr>))))))"

definition patch_owner :: "erp_session option \<Rightarrow> string \<Rightarrow> string option option \<Rightarrow> erp_db \<Rightarrow> erp_reply \<times> erp_db" where
  "patch_owner s i body db =
     (case s of
        Some x \<Rightarrow>
          if ss_role x \<noteq> ''manager'' then (ErpRefused 403, db)
          else (case body of
            None \<Rightarrow> (ErpRefused 400, db)
          | Some ow \<Rightarrow>
              (case map_of (er_orgs db) i of
                 None \<Rightarrow> (ErpRefused 404, db)
               | Some g \<Rightarrow>
                   if \<not> owner_exists ow db then (ErpThrew, db)
                   else (ErpDone, audit ''Organization'' i AuditUpdate x (Some [(''ownerId'', nullable (og_ownerId g))]) (Some [(''ownerId'', nullable ow)])
                     (db\<lparr>er_orgs := change_row i (\<lambda>g. g\<lparr>og_ownerId := ow\<rparr>) (er_orgs db)\<rparr>))))
      | None \<Rightarrow> (ErpRefused 403, db))"

text \<open>\<open>archive\<close>, \<open>deactivate\<close> and \<open>reactivate\<close> differ in the status they set only.\<close>

definition set_org_status :: "org_status \<Rightarrow> erp_session option \<Rightarrow> string \<Rightarrow> erp_db \<Rightarrow> erp_reply \<times> erp_db" where
  "set_org_status st s i db =
     (case s of
        Some x \<Rightarrow>
          if ss_role x \<noteq> ''manager'' then (ErpRefused 403, db)
          else (case map_of (er_orgs db) i of
            None \<Rightarrow> (ErpRefused 404, db)
          | Some g \<Rightarrow> (ErpDone, audit ''Organization'' i AuditUpdate x (Some (status_json (org_text (og_status g)))) (Some (status_json (org_text st)))
              (db\<lparr>er_orgs := change_row i (\<lambda>g. g\<lparr>og_status := st\<rparr>) (er_orgs db)\<rparr>)))
      | None \<Rightarrow> (ErpRefused 403, db))"

definition archive_organization :: "erp_session option \<Rightarrow> string \<Rightarrow> erp_db \<Rightarrow> erp_reply \<times> erp_db" where
  "archive_organization = set_org_status OrgArchived"

definition deactivate_organization :: "erp_session option \<Rightarrow> string \<Rightarrow> erp_db \<Rightarrow> erp_reply \<times> erp_db" where
  "deactivate_organization = set_org_status OrgInactive"

definition reactivate_organization :: "erp_session option \<Rightarrow> string \<Rightarrow> erp_db \<Rightarrow> erp_reply \<times> erp_db" where
  "reactivate_organization = set_org_status OrgActive"

text \<open>A request for another status: its check, and what follows when the engine has started the instance.\<close>

definition change_check :: "erp_session option \<Rightarrow> string \<Rightarrow> (org_status \<times> string) option \<Rightarrow> erp_db \<Rightarrow> nat + org_status \<times> string" where
  "change_check s i body db =
     (case employee_session s of
        None \<Rightarrow> Inl 401
      | Some (x, e) \<Rightarrow>
          (case map_of (er_orgs db) i of
             None \<Rightarrow> Inl 404
           | Some g \<Rightarrow>
               if og_ownerId g \<noteq> Some e then Inl 403
               else if truthy (og_workflow g) then Inl 409
               else (case body of
                 None \<Rightarrow> Inl 400
               | Some (st, reason) \<Rightarrow> if st = og_status g then Inl 422 else Inr (st, reason))))"

definition change_started :: "string \<Rightarrow> string \<Rightarrow> string \<Rightarrow> erp_db \<Rightarrow> erp_reply \<times> erp_db" where
  "change_started i reason instance db =
     (if map_of (er_orgs db) i = None then (ErpThrew, db)
      else (ErpDone, db\<lparr>er_orgs := change_row i (\<lambda>g. g\<lparr>og_reason := Some reason, og_workflow := Some instance\<rparr>) (er_orgs db)\<rparr>))"

text \<open>Withdrawing it: the instance to cancel (an error of that is ignored) and the row after it.\<close>

definition cancel_change :: "erp_session option \<Rightarrow> string \<Rightarrow> erp_db \<Rightarrow> (erp_reply \<times> string option) \<times> erp_db" where
  "cancel_change s i db =
     (case employee_session s of
        None \<Rightarrow> ((ErpRefused 401, None), db)
      | Some (x, e) \<Rightarrow>
          (case map_of (er_orgs db) i of
             None \<Rightarrow> ((ErpRefused 404, None), db)
           | Some g \<Rightarrow>
               if og_ownerId g \<noteq> Some e then ((ErpRefused 403, None), db)
               else if \<not> truthy (og_workflow g) then ((ErpRefused 409, None), db)
               else ((ErpDone, og_workflow g),
                 db\<lparr>er_orgs := change_row i (\<lambda>g. g\<lparr>og_reason := None, og_workflow := None\<rparr>) (er_orgs db)\<rparr>)))"

text \<open>
  What the engine knows: open tasks, the status of an instance, the variables of a task, and whether a task can
  be completed.
\<close>

record erp_task =
  kt_id :: string
  kt_instanceId :: string
  kt_elementId :: string
  kt_assignee :: "string option"

record workflow_api =
  wf_open :: "erp_task list"
  wf_status :: "string \<Rightarrow> string option"
  wf_variables :: "string \<Rightarrow> (string \<times> jsval) list"
  wf_completes :: "string \<Rightarrow> bool"

definition variable :: "string \<Rightarrow> (string \<times> jsval) list \<Rightarrow> jsval" where
  "variable k vs = (case map_of vs k of None \<Rightarrow> JUndefined | Some v \<Rightarrow> v)"

text \<open>\<open>requestedStatus\<close> as the schema of the database takes it; another text makes the update throw.\<close>

definition requested_status :: "jsval \<Rightarrow> org_status option" where
  "requested_status v = (if v = JString ''active'' then Some OrgActive else if v = JString ''inactive'' then Some OrgInactive
     else if v = JString ''archived'' then Some OrgArchived else None)"

definition settle_org :: "bool \<Rightarrow> jsval \<Rightarrow> organization \<Rightarrow> organization" where
  "settle_org approved wanted g =
     (if approved \<and> to_boolean wanted
      then g\<lparr>og_status := (case requested_status wanted of None \<Rightarrow> og_status g | Some st \<Rightarrow> st), og_workflow := None\<rparr>
      else g\<lparr>og_workflow := None, og_reason := None\<rparr>)"

definition settle_fails :: "bool \<Rightarrow> jsval \<Rightarrow> bool" where
  "settle_fails approved wanted \<longleftrightarrow> approved \<and> to_boolean wanted \<and> requested_status wanted = None"

text \<open>\<open>decision\<close>: the row is changed before the engine is told; when the engine refuses, the change stays.\<close>

definition decide_change :: "workflow_api \<Rightarrow> erp_session option \<Rightarrow> string \<Rightarrow> bool option \<Rightarrow> erp_db \<Rightarrow> erp_reply \<times> erp_db" where
  "decide_change api s i body db =
     (case s of
        Some x \<Rightarrow>
          if ss_role x \<noteq> ''manager'' then (ErpRefused 403, db)
          else (case map_of (er_orgs db) i of
            None \<Rightarrow> (ErpRefused 404, db)
          | Some g \<Rightarrow>
              if \<not> truthy (og_workflow g) then (ErpRefused 409, db)
              else (case List.find (\<lambda>t. Some (kt_instanceId t) = og_workflow g \<and> kt_elementId t = ''await-manager-decision'') (take 50 (wf_open api)) of
                None \<Rightarrow>
                  if wf_status api (the (og_workflow g)) \<noteq> Some ''active''
                  then (ErpRefused 410, db\<lparr>er_orgs := change_row i (\<lambda>g. g\<lparr>og_workflow := None, og_reason := None\<rparr>) (er_orgs db)\<rparr>)
                  else (ErpRefused 409, db)
              | Some t \<Rightarrow>
                  (case body of
                     None \<Rightarrow> (ErpRefused 400, db)
                   | Some approved \<Rightarrow>
                       let wanted = variable ''requestedStatus'' (wf_variables api (kt_id t));
                           db1 = db\<lparr>er_orgs := change_row i (settle_org approved wanted) (er_orgs db)\<rparr>;
                           word = JString (if approved then ''approved'' else ''denied'')
                       in if settle_fails approved wanted then (ErpThrew, db)
                          else if \<not> wf_completes api (kt_id t) then (ErpThrew, db1)
                          else (ErpDone, audit ''Organization'' i AuditUpdate x (Some (status_json (org_text (og_status g))))
                            (Some (if approved \<and> to_boolean wanted then [(''status'', wanted), (''decision'', word)]
                                   else [(''decision'', word), (''workflowInstanceId'', JNull)])) db1))))
      | None \<Rightarrow> (ErpRefused 403, db))"

text \<open>The engine's own way in: a bearer token that is the shared key; \<open>None\<close> in the body is a field that is not given.\<close>

record status_patch =
  sx_status :: "org_status option"
  sx_reason :: "string option option"
  sx_workflow :: "string option option"

definition internal_status :: "string \<Rightarrow> string option \<Rightarrow> string \<Rightarrow> status_patch option \<Rightarrow> erp_db \<Rightarrow> erp_reply \<times> erp_db" where
  "internal_status key bearer i body db =
     (if \<not> truthy bearer \<or> bearer \<noteq> Some key then (ErpRefused 401, db)
      else case body of
        None \<Rightarrow> (ErpRefused 400, db)
      | Some b \<Rightarrow>
          if map_of (er_orgs db) i = None then (ErpRefused 404, db)
          else (ErpDone, db\<lparr>er_orgs := change_row i (\<lambda>g. g\<lparr>
             og_status := (case sx_status b of None \<Rightarrow> og_status g | Some st \<Rightarrow> st),
             og_reason := (case sx_reason b of None \<Rightarrow> og_reason g | Some v \<Rightarrow> v),
             og_workflow := (case sx_workflow b of None \<Rightarrow> og_workflow g | Some v \<Rightarrow> v)\<rparr>) (er_orgs db)\<rparr>))"

end
