(* ===== verification/Erp_Tasks.thy ===== *)
theory Erp_Tasks
  imports Erp_Approvals
begin

text \<open>
  The requests to change a profile, the tasks of the ERP's users and what completing one changes
  (\<open>profile-update-requests/route.ts\<close>, \<open>tasks/route.ts\<close>, \<open>tasks/[id]/complete/route.ts\<close>), and the events of the
  engine the ERP follows (\<open>lib/redisConsumer.ts\<close>); then what holds of the approvals as a whole.
\<close>

section \<open>Requests to change a profile\<close>

text \<open>
  The body: a field that is not given is \<open>null\<close> too. A pending request is changed in place; else a row is
  made, and the engine is to be asked: the third result is the request it is asked for.
\<close>

definition request_profile :: "erp_session option \<Rightarrow> string \<Rightarrow> string \<Rightarrow> contact option \<Rightarrow> erp_db \<Rightarrow> (erp_reply \<times> string option) \<times> erp_db" where
  "request_profile s i newRequest body db =
     (case s of
        None \<Rightarrow> ((ErpRefused 401, None), db)
      | Some x \<Rightarrow>
          if ss_role x \<noteq> ''manager'' \<and> ss_employee x \<noteq> Some i then ((ErpRefused 403, None), db)
          else (case body of
            None \<Rightarrow> ((ErpRefused 400, None), db)
          | Some c \<Rightarrow>
              (case row_where (\<lambda>q. pq_employeeId q = i \<and> pq_status q = PrPending) (er_requests db) of
                 Some (k, q) \<Rightarrow> ((ErpDone, None), db\<lparr>er_requests := change_row k (\<lambda>q. q\<lparr>pq_contact := c\<rparr>) (er_requests db)\<rparr>)
               | None \<Rightarrow>
                   if map_of (pp_employees (er_people db)) i = None then ((ErpThrew, None), db)
                   else ((ErpDone, Some newRequest), db\<lparr>er_requests := er_requests db @
                     [(newRequest, \<lparr>pq_employeeId = i, pq_contact = c, pq_status = PrPending, pq_rejection = None, pq_resolvedBy = None, pq_workflow = None\<rparr>)]\<rparr>))))"

definition profile_started :: "string \<Rightarrow> string \<Rightarrow> erp_db \<Rightarrow> erp_reply \<times> erp_db" where
  "profile_started k instance db =
     (if map_of (er_requests db) k = None then (ErpThrew, db)
      else (ErpDone, db\<lparr>er_requests := change_row k (\<lambda>q. q\<lparr>pq_workflow := Some instance\<rparr>) (er_requests db)\<rparr>))"

text \<open>The entries of an approved request that are not \<open>null\<close> replace those of the employee.\<close>

definition over :: "'a option \<Rightarrow> 'a option \<Rightarrow> 'a option" where
  "over new old = (case new of None \<Rightarrow> old | Some v \<Rightarrow> Some v)"

definition merge_contact :: "contact \<Rightarrow> contact \<Rightarrow> contact" where
  "merge_contact new old = \<lparr>ct_phone = over (ct_phone new) (ct_phone old), ct_street = over (ct_street new) (ct_street old),
     ct_city = over (ct_city new) (ct_city old), ct_state = over (ct_state new) (ct_state old),
     ct_postalCode = over (ct_postalCode new) (ct_postalCode old), ct_country = over (ct_country new) (ct_country old)\<rparr>"

section \<open>The tasks of a user\<close>

definition assignee_patterns :: "erp_session \<Rightarrow> people_db \<Rightarrow> string list" where
  "assignee_patterns s db =
     [ss_user s, ''role:'' @ ss_role s] @ map (\<lambda>k. ''perm:'' @ k) (getEffectivePermissions (ss_user s) db)"

definition first_of_each :: "erp_task list \<Rightarrow> erp_task list" where
  "first_of_each ts = fold (\<lambda>t acc. if kt_id t \<in> kt_id ` set acc then acc else acc @ [t]) ts []"

datatype task_subject = OfTimesheet string | OfOrganization string | OfProfile string | OfNothing

definition subject_of :: "erp_db \<Rightarrow> erp_task \<Rightarrow> task_subject" where
  "subject_of db t =
     (case row_where (\<lambda>x. ts_workflow x = Some (kt_instanceId t)) (er_timesheets db) of
        Some (k, x) \<Rightarrow> OfTimesheet k
      | None \<Rightarrow>
          (case row_where (\<lambda>x. og_workflow x = Some (kt_instanceId t)) (er_orgs db) of
             Some (k, x) \<Rightarrow> OfOrganization k
           | None \<Rightarrow>
               (case row_where (\<lambda>x. pq_workflow x = Some (kt_instanceId t)) (er_requests db) of
                  Some (k, x) \<Rightarrow> OfProfile k
                | None \<Rightarrow> OfNothing)))"

text \<open>\<open>listed\<close> is what the engine lists for an assignee: its open tasks of a page.\<close>

definition list_user_tasks :: "(string \<Rightarrow> erp_task list) \<Rightarrow> erp_session option \<Rightarrow> erp_db \<Rightarrow> nat + (erp_task \<times> task_subject) list" where
  "list_user_tasks listed s db =
     (case s of
        None \<Rightarrow> Inl 401
      | Some x \<Rightarrow> Inr (map (\<lambda>t. (t, subject_of db t)) (first_of_each (concat (map listed (assignee_patterns x (er_people db)))))))"

definition get_user_task :: "(string \<Rightarrow> erp_task option) \<Rightarrow> erp_session option \<Rightarrow> string \<Rightarrow> nat + erp_task" where
  "get_user_task getTask s i =
     (if \<not> is_manager s then Inl 403 else case getTask i of None \<Rightarrow> Inl 404 | Some t \<Rightarrow> Inr t)"

section \<open>Completing a task\<close>

datatype task_decision = Approved | Rejected | RevisionRequested

record decision_body =
  dn_decision :: task_decision
  dn_reason :: "string option"

fun drop_prefix :: "string \<Rightarrow> string \<Rightarrow> string option" where
  "drop_prefix [] s = Some s"
| "drop_prefix (p # ps) [] = None"
| "drop_prefix (p # ps) (c # cs) = (if p = c then drop_prefix ps cs else None)"

text \<open>Who may complete a task, up to the call of the engine.\<close>

definition may_complete :: "erp_session \<Rightarrow> erp_task \<Rightarrow> people_db \<Rightarrow> bool" where
  "may_complete s t db \<longleftrightarrow>
     truthy (kt_assignee t) \<and>
     (case drop_prefix ''perm:'' (the (kt_assignee t)) of
        Some k \<Rightarrow> k \<in> set (getEffectivePermissions (ss_user s) db)
      | None \<Rightarrow> kt_assignee t = Some (ss_user s))"

record completion =
  cm_session :: erp_session
  cm_task :: erp_task
  cm_variables :: "(string \<times> jsval) list"
  cm_body :: decision_body

definition completion_check ::
  "(string \<Rightarrow> (erp_task \<times> (string \<times> jsval) list) option) \<Rightarrow> erp_session option \<Rightarrow> string \<Rightarrow> decision_body option \<Rightarrow> people_db \<Rightarrow> nat + completion" where
  "completion_check getTask s i body db =
     (case s of
        None \<Rightarrow> Inl 401
      | Some x \<Rightarrow>
          (case body of
             None \<Rightarrow> Inl 400
           | Some b \<Rightarrow>
               (case getTask i of
                  None \<Rightarrow> Inl 404
                | Some (t, vs) \<Rightarrow>
                    if \<not> may_complete x t db then Inl 403
                    else if to_boolean (variable ''expenseId'' vs) \<and> dn_decision b = RevisionRequested then Inl 400
                    else Inr \<lparr>cm_session = x, cm_task = t, cm_variables = vs, cm_body = b\<rparr>)))"

text \<open>Once the engine has completed it: the four rows that may follow.\<close>

definition reviewed :: "string \<Rightarrow> task_decision \<Rightarrow> timesheet_status" where
  "reviewed elementId d =
     (case d of
        Approved \<Rightarrow> if elementId = ''task_manager_review'' then TsHrReview else TsApproved
      | RevisionRequested \<Rightarrow> TsRevision
      | Rejected \<Rightarrow> TsRejected)"

definition reason_json :: "decision_body \<Rightarrow> (string \<times> jsval) list" where
  "reason_json b = (if truthy (dn_reason b) then [(''rejectionReason'', nullable (dn_reason b))] else [])"

definition sync_timesheet :: "int \<Rightarrow> completion \<Rightarrow> erp_db \<Rightarrow> erp_db" where
  "sync_timesheet n c db =
     (if \<not> to_boolean (variable ''timesheetId'' (cm_variables c)) then db
      else case row_where (\<lambda>x. ts_workflow x = Some (kt_instanceId (cm_task c))) (er_timesheets db) of
        None \<Rightarrow> db
      | Some (k, t) \<Rightarrow>
          let st = reviewed (kt_elementId (cm_task c)) (dn_decision (cm_body c)) in
          audit ''Timesheet'' k AuditUpdate (cm_session c) (Some (status_json (ts_text (ts_status t)))) (Some (status_json (ts_text st) @ reason_json (cm_body c)))
            (db\<lparr>er_timesheets := change_row k (\<lambda>t. t\<lparr>ts_status := st,
               ts_rejection := (if truthy (dn_reason (cm_body c)) then dn_reason (cm_body c) else ts_rejection t),
               ts_decidedAt := (if st \<noteq> TsHrReview then Some n else ts_decidedAt t)\<rparr>) (er_timesheets db)\<rparr>))"

definition sync_organization :: "completion \<Rightarrow> erp_db \<Rightarrow> erp_db option" where
  "sync_organization c db =
     (if \<not> to_boolean (variable ''organizationId'' (cm_variables c)) then Some db
      else case row_where (\<lambda>x. og_workflow x = Some (kt_instanceId (cm_task c))) (er_orgs db) of
        None \<Rightarrow> Some db
      | Some (k, g) \<Rightarrow>
          let approved = (dn_decision (cm_body c) = Approved); wanted = variable ''requestedStatus'' (cm_variables c) in
          if settle_fails approved wanted then None
          else Some (audit ''Organization'' k AuditUpdate (cm_session c) (Some (status_json (org_text (og_status g))))
            (Some (status_json (org_text (og_status (settle_org approved wanted g)))))
            (db\<lparr>er_orgs := change_row k (settle_org approved wanted) (er_orgs db)\<rparr>)))"

definition sync_profile :: "completion \<Rightarrow> erp_db \<Rightarrow> erp_db" where
  "sync_profile c db =
     (if \<not> to_boolean (variable ''updateRequestId'' (cm_variables c)) then db
      else case (case variable ''updateRequestId'' (cm_variables c) of JString k \<Rightarrow> map_option (Pair k) (map_of (er_requests db) k) | _ \<Rightarrow> None) of
        None \<Rightarrow> db
      | Some (k, q) \<Rightarrow>
          if pq_status q \<noteq> PrPending then db
          else if dn_decision (cm_body c) = Approved then
            db\<lparr>er_people := (er_people db)\<lparr>pp_employees :=
                 change_row (pq_employeeId q) (\<lambda>e. e\<lparr>ey_contact := merge_contact (pq_contact q) (ey_contact e)\<rparr>) (pp_employees (er_people db))\<rparr>,
               er_requests := change_row k (\<lambda>q. q\<lparr>pq_status := PrApproved, pq_resolvedBy := Some (ss_user (cm_session c))\<rparr>) (er_requests db)\<rparr>
          else db\<lparr>er_requests := change_row k (\<lambda>q. q\<lparr>pq_status := PrDenied, pq_resolvedBy := Some (ss_user (cm_session c)),
                 pq_rejection := dn_reason (cm_body c)\<rparr>) (er_requests db)\<rparr>)"

text \<open>The status a review of an expense leads to, and the one it expects.\<close>

definition expense_review :: "string \<Rightarrow> task_decision \<Rightarrow> (expense_status \<times> expense_status) option" where
  "expense_review elementId d =
     (if elementId = ''task_manager_review'' then Some (XSubmitted, if d = Approved then XApprovedManager else XRejected)
      else if elementId = ''task_accounting_review'' then Some (XApprovedManager, if d = Approved then XReimbursed else XRejected)
      else None)"

definition sync_expense :: "completion \<Rightarrow> erp_db \<Rightarrow> erp_db" where
  "sync_expense c db =
     (if \<not> to_boolean (variable ''expenseId'' (cm_variables c)) then db
      else case row_where (\<lambda>x. xr_workflow x = Some (kt_instanceId (cm_task c))) (er_reports db) of
        None \<Rightarrow> db
      | Some (k, x) \<Rightarrow>
          (case expense_review (kt_elementId (cm_task c)) (dn_decision (cm_body c)) of
             None \<Rightarrow> db
           | Some (expected, st) \<Rightarrow>
               if map_option xr_status (map_of (er_reports db) k) \<noteq> Some expected then db
               else audit ''ExpenseReport'' k AuditUpdate (cm_session c) (Some (status_json (expense_text expected))) (Some (status_json (expense_text st) @ reason_json (cm_body c)))
                 (db\<lparr>er_reports := change_row k (\<lambda>x. x\<lparr>xr_status := st\<rparr>) (er_reports db)\<rparr>)))"

definition completion_sync :: "int \<Rightarrow> completion \<Rightarrow> erp_db \<Rightarrow> erp_reply \<times> erp_db" where
  "completion_sync n c db =
     (case sync_organization c (sync_timesheet n c db) of
        None \<Rightarrow> (ErpThrew, sync_timesheet n c db)
      | Some db1 \<Rightarrow> (ErpDone, sync_expense c (sync_profile c db1)))"

section \<open>The events of the engine\<close>

datatype engine_news = InstanceTerminated string | InstanceRestarted string string | OtherNews

text \<open>The entries of a stream entry are alternating names and values; \<open>read\<close> is \<open>JSON.parse\<close>, which may throw.\<close>

fun position :: "string \<Rightarrow> string list \<Rightarrow> nat option" where
  "position x [] = None"
| "position x (y # ys) = (if x = y then Some 0 else map_option Suc (position x ys))"

definition parseStreamEntry :: "(string option \<Rightarrow> engine_news option) \<Rightarrow> string list \<Rightarrow> string \<Rightarrow> engine_news option option" where
  "parseStreamEntry read entries tenantId =
     (let field = (\<lambda>i. if i < length entries then Some (entries ! i) else None) in
      case position ''tenantId'' entries of
        None \<Rightarrow> Some None
      | Some i \<Rightarrow>
          if field (i + 1) \<noteq> Some tenantId then Some None
          else (case position ''data'' entries of None \<Rightarrow> Some None | Some j \<Rightarrow> map_option Some (read (field (j + 1)))))"

definition handleEvent :: "engine_news \<Rightarrow> erp_db \<Rightarrow> erp_db" where
  "handleEvent e db =
     (case e of
        InstanceTerminated i \<Rightarrow>
          if i = [] then db
          else db\<lparr>er_requests := map (\<lambda>(k, q). (k, if pq_workflow q = Some i \<and> pq_status q = PrPending then q\<lparr>pq_status := PrCancelled\<rparr> else q)) (er_requests db)\<rparr>
      | InstanceRestarted i before \<Rightarrow>
          if i = [] \<or> before = [] then db
          else db\<lparr>er_requests := map (\<lambda>(k, q). (k, if pq_workflow q = Some before then q\<lparr>pq_workflow := Some i, pq_status := PrPending\<rparr> else q)) (er_requests db)\<rparr>
      | OtherNews \<Rightarrow> db)"

text \<open>An entry is acknowledged whatever becomes of it.\<close>

definition consume_entry :: "(string option \<Rightarrow> engine_news option) \<Rightarrow> string \<Rightarrow> string list \<Rightarrow> erp_db \<Rightarrow> erp_db" where
  "consume_entry read tenantId entries db =
     (case parseStreamEntry read entries tenantId of Some (Some e) \<Rightarrow> handleEvent e db | _ \<Rightarrow> db)"

section \<open>Who completes tasks, and who sees expenses\<close>

lemma drop_prefix_append: "drop_prefix p s = Some k \<longleftrightarrow> s = p @ k"
  by (induction p s rule: drop_prefix.induct) auto


text \<open>A task assigned to a role is listed to everyone with that role, and none of them can complete it here.\<close>

theorem role_tasks_cannot_be_completed:
  assumes "getTask i = Some (t, vs)" "kt_assignee t = Some (''role:'' @ r)" "ss_user x \<noteq> ''role:'' @ r" "ss_role x = r" "t \<in> set (listed (''role:'' @ r))"
  shows "(\<exists>ts u. list_user_tasks listed (Some x) db = Inr ts \<and> u \<in> fst ` set ts \<and> kt_id u = kt_id t) \<and>
    completion_check getTask (Some x) i (Some b) (er_people db) = Inl 403"
proof
  have f: "\<And>acc. kt_id ` set (fold (\<lambda>t acc. if kt_id t \<in> kt_id ` set acc then acc else acc @ [t]) ts acc) = kt_id ` set acc \<union> kt_id ` set ts" for ts
    by (induction ts) auto
  have "t \<in> set (concat (map listed (assignee_patterns x (er_people db))))"
    using assms(4,5) by (auto simp: assignee_patterns_def)
  then have "kt_id t \<in> kt_id ` set (first_of_each (concat (map listed (assignee_patterns x (er_people db)))))"
    unfolding first_of_each_def f by blast
  then show "\<exists>ts u. list_user_tasks listed (Some x) db = Inr ts \<and> u \<in> fst ` set ts \<and> kt_id u = kt_id t"
    by (auto simp: list_user_tasks_def image_image)
  have "drop_prefix ''perm:'' (''role:'' @ r) = None" by simp
  then show "completion_check getTask (Some x) i (Some b) (er_people db) = Inl 403"
    using assms(1-3) by (simp add: completion_check_def may_complete_def)
qed

text \<open>An expense report is listed to its employee, to the manager of its employee, and to those who may approve for accounting.\<close>

theorem expenses_are_seen_by_those_concerned:
  assumes "list_expenses s st db = Inr views" "(k, r, items) \<in> set views"
  shows "\<exists>x e. s = Some x \<and> ss_employee x = Some e \<and> (k, r) \<in> set (er_reports db) \<and>
    (xr_employeeId r = e \<or> canViewAllExpenses x (er_people db) \<or>
     (ss_role x = ''manager'' \<and> (\<exists>w. (xr_employeeId r, w) \<in> set (pp_employees (er_people db)) \<and> ey_managerId w = Some e)))"
proof -
  from assms(1) obtain x e where e: "employee_session s = Some (x, e)" by (auto simp: list_expenses_def split: option.splits)
  then have s: "s = Some x" "ss_employee x = Some e" by (auto simp: employee_session_def split: option.splits if_splits)
  from assms e have r: "(k, r) \<in> set (er_reports db)" "is_visible (visible_employees x e db) (xr_employeeId r)"
    by (auto simp: list_expenses_def)
  from r(2) have "xr_employeeId r = e \<or> canViewAllExpenses x (er_people db) \<or>
     (ss_role x = ''manager'' \<and> (\<exists>w. (xr_employeeId r, w) \<in> set (pp_employees (er_people db)) \<and> ey_managerId w = Some e))"
    by (auto simp: is_visible_def visible_employees_def canViewTeamExpenses_def team_of_def split: if_splits)
  with s r(1) show ?thesis by blast
qed

section \<open>The way of an expense report\<close>

fun expense_edge :: "expense_status \<Rightarrow> expense_status \<Rightarrow> bool" where
  "expense_edge XDraft st = (st = XSubmitted)"
| "expense_edge XRejected st = (st = XSubmitted)"
| "expense_edge XSubmitted st = (st = XApprovedManager \<or> st = XRejected)"
| "expense_edge XApprovedManager st = (st = XReimbursed \<or> st = XRejected)"
| "expense_edge _ st = False"

text \<open>
  A step of the ERP that may write an expense report: a new one, the second half of a \<open>PATCH\<close> planned on
  whatever the tables were before, a receipt, and what follows the completion of any task. The engine's ids are
  not empty.
\<close>

inductive erp_step :: "erp_db \<Rightarrow> erp_db \<Rightarrow> bool" where
  new_report: "map_of (er_reports db) i = None \<Longrightarrow> erp_step db (snd (create_expense s i body db))"
| patched: "truthy instance = xp_submit (xn_patch p) \<Longrightarrow> erp_step db (snd (expense_commit p instance db))"
| receipt: "erp_step db (snd (snd (receipt_store s i path old files db)))"
| completed: "erp_step db (snd (completion_sync n c db))"
| submitted: "erp_step db (snd (submit_finish date_text q instance n db))"
| news: "erp_step db (handleEvent e db)"

lemma map_of_change_row: "map_of (change_row k f m) j = (if j = k then map_option f (map_of m j) else map_of m j)"
  by (induction m) (auto simp: change_row_def)

lemma audit_frame [simp]: "er_reports (audit et i a s b c db) = er_reports db" "er_items (audit et i a s b c db) = er_items db"
  "er_timesheets (audit et i a s b c db) = er_timesheets db" "er_orgs (audit et i a s b c db) = er_orgs db"
  by (simp_all add: audit_def)

lemma replace_items_frame [simp]: "er_reports (replace_items i items db) = er_reports db"
  by (simp add: replace_items_def split: option.split)

lemma sync_frame: "er_reports (sync_timesheet n c db) = er_reports db" "er_reports (sync_profile c db) = er_reports db"
  "sync_organization c db = Some db1 \<Longrightarrow> er_reports db1 = er_reports db"
  by (auto simp: sync_timesheet_def sync_profile_def sync_organization_def Let_def split: option.splits prod.splits if_splits jsval.splits)

definition keeps_to_its_way :: "expense_report \<Rightarrow> expense_report \<Rightarrow> bool" where
  "keeps_to_its_way r r' \<longleftrightarrow> xr_employeeId r' = xr_employeeId r \<and> (xr_status r' = xr_status r \<or> expense_edge (xr_status r) (xr_status r'))"

lemma sync_expense_step:
  assumes "map_of (er_reports db) i = Some r"
  shows "\<exists>r'. map_of (er_reports (sync_expense c db)) i = Some r' \<and> keeps_to_its_way r r'"
  using assms
  by (auto simp: sync_expense_def expense_review_def map_of_change_row keeps_to_its_way_def split: option.splits prod.splits if_splits)

lemma erp_step_way:
  assumes "erp_step db db'" "map_of (er_reports db) i = Some r"
  shows "\<exists>r'. map_of (er_reports db') i = Some r' \<and> keeps_to_its_way r r'"
  using assms
proof cases
  case (new_report j s body)
  with assms(2) show ?thesis
    by (auto simp: create_expense_def keeps_to_its_way_def map_add_def split: option.split prod.split)
next
  case (patched inst p)
  with assms(2) show ?thesis
    by (auto simp: expense_commit_def Let_def expense_audit_def map_of_change_row keeps_to_its_way_def editable_def split: option.split)
next
  case (completed n c)
  show ?thesis
  proof (cases "sync_organization c (sync_timesheet n c db)")
    case None
    with completed assms(2) show ?thesis by (simp add: completion_sync_def sync_frame keeps_to_its_way_def)
  next
    case (Some db1)
    then have "map_of (er_reports (sync_profile c db1)) i = Some r" using assms(2) by (simp add: sync_frame)
    from sync_expense_step[OF this, of c] completed Some show ?thesis by (simp add: completion_sync_def)
  qed
qed (use assms(2) in \<open>auto simp: receipt_store_def submit_finish_def handleEvent_def map_of_change_row keeps_to_its_way_def split: engine_news.split\<close>)


lemma reimbursed_is_final: "expense_edge\<^sup>*\<^sup>* XReimbursed st \<longleftrightarrow> st = XReimbursed"
  by (auto elim: converse_rtranclpE)

section \<open>Samples\<close>

definition sample_people :: people_db where
  "sample_people = \<lparr>pp_users = [''u1'', ''u2''], pp_permissions = [''expenses:accounting-approve''], pp_userPermissions = [(''u2'', ''expenses:accounting-approve'')],
     pp_groups = [], pp_groupPermissions = [], pp_memberships = [], pp_departments = [], pp_departmentPermissions = [],
     pp_employees = [(''e1'', \<lparr>ey_userId = ''u1'', ey_departmentId = None, ey_managerId = Some ''e2'',
         ey_contact = \<lparr>ct_phone = None, ct_street = None, ct_city = None, ct_state = None, ct_postalCode = None, ct_country = None\<rparr>\<rparr>),
       (''e2'', \<lparr>ey_userId = ''u2'', ey_departmentId = None, ey_managerId = None,
         ey_contact = \<lparr>ct_phone = None, ct_street = None, ct_city = None, ct_state = None, ct_postalCode = None, ct_country = None\<rparr>\<rparr>)],
     pp_audit = []\<rparr>"

definition sample_erp :: erp_db where
  "sample_erp = \<lparr>er_people = sample_people,
     er_orgs = [(''o'', \<lparr>og_fields = [(''name'', Some ''acme''), (''email'', Some ''a'')], og_status = OrgActive, og_ownerId = None, og_reason = None, og_workflow = None\<rparr>)],
     er_timesheets = [(''t'', \<lparr>ts_employeeId = ''e1'', ts_weekStart = 7, ts_rejection = None, ts_status = TsDraft, ts_workflow = None, ts_submittedAt = None, ts_decidedAt = None\<rparr>)],
     er_entries = [(''n'', \<lparr>te_timesheetId = ''t'', te_date = 8, te_hours = 750, te_projectCode = None, te_description = None\<rparr>)],
     er_reports = [(''x'', \<lparr>xr_employeeId = ''e1'', xr_status = XDraft, xr_workflow = None, xr_receipt = None\<rparr>)],
     er_items = [\<lparr>xi_reportId = ''x'', xi_date = 1, xi_category = ''MEALS'', xi_amount = 1000, xi_description = None\<rparr>],
     er_requests = []\<rparr>"

definition employee_1 :: erp_session where
  "employee_1 = \<lparr>ss_user = ''u1'', ss_role = ''employee'', ss_employee = Some ''e1'', ss_email = None\<rparr>"

definition manager_2 :: erp_session where
  "manager_2 = \<lparr>ss_user = ''u2'', ss_role = ''manager'', ss_employee = Some ''e2'', ss_email = None\<rparr>"

lemmas erp_samples = sample_people_def sample_erp_def employee_1_def manager_2_def

definition approval :: completion where
  "approval = \<lparr>cm_session = manager_2, cm_task = \<lparr>kt_id = ''k'', kt_instanceId = ''w'', kt_elementId = ''task_manager_review'', kt_assignee = Some ''u2''\<rparr>,
     cm_variables = [(''expenseId'', JString ''x'')], cm_body = \<lparr>dn_decision = Approved, dn_reason = None\<rparr>\<rparr>"

definition plan_1 :: expense_plan where
  "plan_1 = \<lparr>xn_session = employee_1, xn_id = ''x'', xn_patch = \<lparr>xp_items = None, xp_submit = True\<rparr>, xn_seen = XDraft, xn_owner = ''e1'', xn_manager = Some ''u2''\<rparr>"



theorem expenses_are_seen_by_those_concerned_witness:
  "map_option (map fst) (case list_expenses (Some manager_2) None sample_erp of Inl n \<Rightarrow> None | Inr vs \<Rightarrow> Some vs) = Some [''x''] \<and>
   (''x'', \<lparr>xr_employeeId = ''e1'', xr_status = XDraft, xr_workflow = None, xr_receipt = None\<rparr>) \<in> set (er_reports sample_erp)"
proof -
  let ?r = "\<lparr>xr_employeeId = ''e1'', xr_status = XDraft, xr_workflow = None, xr_receipt = None\<rparr>"
  have l: "list_expenses (Some manager_2) None sample_erp = Inr [(''x'', ?r, report_items ''x'' sample_erp)]"
    by (simp add: list_expenses_def employee_session_def manager_2_def sample_erp_def is_visible_def visible_employees_def canViewAllExpenses_def
        sample_people_def getEffectivePermissions_def values_of_def employee_of_def add_key_def)
  from expenses_are_seen_by_those_concerned[OF l, of "''x''" ?r "report_items ''x'' sample_erp"] l show ?thesis by auto
qed

section \<open>What goes wrong\<close>

text \<open>
  A submission that loses the race is answered with a conflict, yet its new line items replace those of the
  report that was submitted: returning \<open>null\<close> from the transaction commits it.
\<close>

definition losing_plan :: expense_plan where
  "losing_plan = plan_1\<lparr>xn_patch := \<lparr>xp_items = Some [\<lparr>ii_date = 1, ii_category = ''TRAVEL'', ii_amount = 999900, ii_description = None\<rparr>], xp_submit = True\<rparr>\<rparr>"

theorem lost_submission_replaces_items:
  "expense_start (Some employee_1) ''x'' (Some (xn_patch losing_plan)) sample_erp = Inr losing_plan \<and>
   (case expense_commit losing_plan (Some ''w2'') (snd (expense_commit plan_1 (Some ''w1'') sample_erp)) of
      (reply, db) \<Rightarrow> reply = ErpRefused 409 \<and> map_option xr_status (map_of (er_reports db) ''x'') = Some XSubmitted \<and>
        map xi_amount (report_items ''x'' db) = [999900])"
  by (simp add: erp_samples plan_1_def losing_plan_def expense_start_def employee_session_def editable_def manager_of_def expense_commit_def replace_items_def
      expense_audit_def audit_def Let_def change_row_def report_items_def item_row_def)

text \<open>
  A timesheet submitted twice at once starts two instances, and the first is forgotten: its review changes
  nothing any more.
\<close>

definition sheet_plan :: submit_plan where
  "sheet_plan = \<lparr>sp_session = employee_1, sp_id = ''t'', sp_seen = TsDraft, sp_manager = ''u2'', sp_hours = 750\<rparr>"

definition sheet_review :: "string \<Rightarrow> completion" where
  "sheet_review w = \<lparr>cm_session = manager_2, cm_task = \<lparr>kt_id = ''k'', kt_instanceId = w, kt_elementId = ''task_manager_review'', kt_assignee = Some ''u2''\<rparr>,
     cm_variables = [(''timesheetId'', JString ''t'')], cm_body = \<lparr>dn_decision = Rejected, dn_reason = None\<rparr>\<rparr>"

theorem double_submission_forgets_an_instance:
  "submit_start (Some employee_1) ''t'' sample_erp = Inr sheet_plan \<and>
   (let db = snd (submit_finish (\<lambda>n. []) sheet_plan ''w2'' 6 (snd (submit_finish (\<lambda>n. []) sheet_plan ''w1'' 5 sample_erp))) in
    sync_timesheet 9 (sheet_review ''w1'') db = db \<and>
    map_option ts_status (map_of (er_timesheets (sync_timesheet 9 (sheet_review ''w2'') db)) ''t'') = Some TsRejected)"
  by (simp add: erp_samples sheet_plan_def sheet_review_def submit_start_def own_timesheet_def employee_session_def ts_editable_def manager_of_def Let_def
      submit_finish_def audit_def change_row_def sync_timesheet_def variable_def row_where_def reviewed_def)

text \<open>A user without an employee may change the contact of every organization without an owner: \<open>null\<close> is \<open>null\<close>.\<close>

theorem unowned_contacts_are_open:
  assumes "map_of (er_orgs db) i = Some g" "og_ownerId g = None" "ss_employee x = None"
  shows "fst (patch_contact (Some x) i (Some b) db) = ErpDone"
  using assms by (simp add: patch_contact_def canEditContact_def Let_def)

text \<open>A decision the engine refuses has changed the organization all the same.\<close>

theorem refused_decision_stays:
  "case decide_change \<lparr>wf_open = [\<lparr>kt_id = ''k'', kt_instanceId = ''w'', kt_elementId = ''await-manager-decision'', kt_assignee = None\<rparr>], wf_status = (\<lambda>i. None),
       wf_variables = (\<lambda>i. [(''requestedStatus'', JString ''inactive'')]), wf_completes = (\<lambda>i. False)\<rparr> (Some manager_2) ''o'' (Some True)
     (snd (change_started ''o'' ''why'' ''w'' sample_erp)) of
     (reply, db) \<Rightarrow> reply = ErpThrew \<and> map_option og_status (map_of (er_orgs db) ''o'') = Some OrgInactive \<and> pp_audit (er_people db) = []"
  by (simp add: erp_samples change_started_def change_row_def decide_change_def settle_org_def settle_fails_def requested_status_def variable_def Let_def)

end
