(* ===== verification/Erp_Staff.thy ===== *)
theory Erp_Staff
  imports Erp_Tasks
begin

text \<open>
  The employees of the ERP (\<open>app/api/employees\<close>), the listing of its audit log (\<open>app/api/audit-log\<close>), what the engine asks
  it (\<open>app/api/internal\<close>), the routes that pass a manager's requests on to the engine (\<open>app/api/workflow\<close>) and where a
  page sends its visitor (\<open>proxy.ts\<close>). Bodies are given as zod accepted them; \<open>bcrypt\<close>, \<open>new Date\<close> and the engine's answers
  are parameters or arguments, as is the database's order of names (\<open>by_name\<close>).
\<close>

section \<open>Tables\<close>

record staff_user =
  su_email :: string
  su_passwordHash :: string
  su_role :: string

record staff_file =
  fl_fullName :: string
  fl_hireDate :: int

text \<open>The tables of people with what else they hold: of a user by id, of an employee by id, of a permission by key.\<close>

record staff_db =
  sf_people :: people_db
  sf_users :: "(string \<times> staff_user) list"
  sf_files :: "(string \<times> staff_file) list"
  sf_labels :: "(string \<times> string) list"

definition staff_audit :: "string \<Rightarrow> audit_action \<Rightarrow> erp_session \<Rightarrow> (string \<times> jsval) list option \<Rightarrow> (string \<times> jsval) list option \<Rightarrow> staff_db \<Rightarrow> staff_db" where
  "staff_audit i action s before after db =
     db\<lparr>sf_people := (sf_people db)\<lparr>pp_audit := createAuditLog ''Employee'' i action s before after (pp_audit (sf_people db))\<rparr>\<rparr>"

section \<open>Employees\<close>

definition list_employees :: "erp_session option \<Rightarrow> ((string \<times> employee) list \<Rightarrow> (string \<times> employee) list) \<Rightarrow> staff_db \<Rightarrow> nat + (string \<times> employee) list" where
  "list_employees s by_name db =
     (if \<not> is_manager s then Inl 403 else Inr (by_name (pp_employees (sf_people db))))"

record staff_input =
  si_email :: string
  si_password :: string
  si_fullName :: string
  si_departmentId :: "string option"
  si_managerId :: "string option"
  si_role :: string
  si_hireDate :: string
  si_contact :: contact

text \<open>\<open>\<dots>(value ? { value } : {})\<close>: an empty text is not stored.\<close>

definition if_given :: "string option \<Rightarrow> string option" where
  "if_given v = (if truthy v then v else None)"

definition given_contact :: "contact \<Rightarrow> contact" where
  "given_contact c = \<lparr>ct_phone = if_given (ct_phone c), ct_street = if_given (ct_street c), ct_city = if_given (ct_city c),
     ct_state = if_given (ct_state c), ct_postalCode = if_given (ct_postalCode c), ct_country = if_given (ct_country c)\<rparr>"

definition refers :: "string option \<Rightarrow> (string \<times> 'a) list \<Rightarrow> bool" where
  "refers v m = (case v of None \<Rightarrow> True | Some i \<Rightarrow> map_of m i \<noteq> None)"

definition create_employee ::
  "(string \<Rightarrow> string) \<Rightarrow> (string \<Rightarrow> int) \<Rightarrow> erp_session option \<Rightarrow> string \<Rightarrow> string \<Rightarrow> staff_input option \<Rightarrow> staff_db \<Rightarrow> erp_reply \<times> staff_db" where
  "create_employee bcrypt date s userId i body db =
     (case s of
        None \<Rightarrow> (ErpRefused 401, db)
      | Some x \<Rightarrow>
          if ss_role x \<noteq> ''manager'' then (ErpRefused 403, db)
          else (case body of
            None \<Rightarrow> (ErpRefused 400, db)
          | Some b \<Rightarrow>
              let pp = sf_people db; dept = if_given (si_departmentId b); boss = if_given (si_managerId b) in
              if list_ex (\<lambda>(k, u). su_email u = si_email b) (sf_users db) then (ErpRefused 409, db)
              else if \<not> refers dept (pp_departments pp) \<or> \<not> refers boss (pp_employees pp) then (ErpThrew, db)
              else (ErpDone, staff_audit i AuditCreate x None
                (Some [(''id'', JString i), (''fullName'', JString (si_fullName b)), (''email'', JString (si_email b)), (''role'', JString (si_role b)),
                  (''hireDate'', JString (si_hireDate b))])
                (db\<lparr>sf_people := pp\<lparr>pp_users := pp_users pp @ [userId],
                     pp_employees := pp_employees pp @ [(i, \<lparr>ey_userId = userId, ey_departmentId = dept, ey_managerId = boss, ey_contact = given_contact (si_contact b)\<rparr>)]\<rparr>,
                   sf_users := sf_users db @ [(userId, \<lparr>su_email = si_email b, su_passwordHash = bcrypt (si_password b), su_role = si_role b\<rparr>)],
                   sf_files := sf_files db @ [(i, \<lparr>fl_fullName = si_fullName b, fl_hireDate = date (si_hireDate b)\<rparr>)]\<rparr>))))"

text \<open>The permissions shown with an employee: of each key its label, whether it is the user's own, and the groups it comes from.\<close>

record shown_permission =
  sp_label :: string
  sp_direct :: bool
  sp_groups :: "(string \<times> string) list"

definition show_direct :: "(string \<times> string) list \<Rightarrow> string \<Rightarrow> (string \<times> shown_permission) list \<Rightarrow> (string \<times> shown_permission) list" where
  "show_direct labels k m = AList.update k \<lparr>sp_label = (case map_of labels k of Some l \<Rightarrow> l | None \<Rightarrow> []), sp_direct = True, sp_groups = []\<rparr> m"

definition show_grouped :: "string \<times> string \<times> string \<Rightarrow> (string \<times> shown_permission) list \<Rightarrow> (string \<times> shown_permission) list" where
  "show_grouped p m =
     (case p of (k, g) \<Rightarrow>
        (case map_of m k of
           Some e \<Rightarrow> AList.update k (e\<lparr>sp_groups := sp_groups e @ [g]\<rparr>) m
         | None \<Rightarrow> AList.update k \<lparr>sp_label = k, sp_direct = False, sp_groups = [g]\<rparr> m))"

definition groups_of :: "string \<Rightarrow> people_db \<Rightarrow> (string \<times> string) list" where
  "groups_of u pp = map (\<lambda>g. (g, case map_of (pp_groups pp) g of Some r \<Rightarrow> eg_name r | None \<Rightarrow> [])) (values_of u (pp_memberships pp))"

definition shown_permissions :: "string \<Rightarrow> staff_db \<Rightarrow> (string \<times> shown_permission) list" where
  "shown_permissions u db =
     (let pp = sf_people db;
          grouped = concat (map (\<lambda>g. map (\<lambda>k. (k, g)) (values_of (fst g) (pp_groupPermissions pp))) (groups_of u pp))
      in fold show_grouped grouped (fold (show_direct (sf_labels db)) (values_of u (pp_userPermissions pp)) []))"

record employee_view =
  ev_employee :: employee
  ev_file :: staff_file
  ev_user :: staff_user
  ev_groups :: "(string \<times> string) list"
  ev_permissions :: "(string \<times> shown_permission) list"

definition get_employee :: "erp_session option \<Rightarrow> string \<Rightarrow> staff_db \<Rightarrow> nat + employee_view" where
  "get_employee s i db =
     (case s of
        None \<Rightarrow> Inl 401
      | Some x \<Rightarrow>
          (case (map_of (pp_employees (sf_people db)) i, map_of (sf_files db) i) of
             (Some e, Some f) \<Rightarrow>
               (case map_of (sf_users db) (ey_userId e) of
                  None \<Rightarrow> Inl 404
                | Some u \<Rightarrow>
                    if \<not> canAccess x ''employees'' ''read'' (Some (ey_userId e)) (sf_people db) then Inl 403
                    else Inr \<lparr>ev_employee = e, ev_file = f, ev_user = u, ev_groups = groups_of (ey_userId e) (sf_people db),
                      ev_permissions = shown_permissions (ey_userId e) db\<rparr>)
           | _ \<Rightarrow> Inl 404))"

text \<open>A field of the patch is not given (\<open>None\<close>), given as \<open>null\<close> (\<open>Some None\<close>) or as a text.\<close>

record staff_patch =
  st_fullName :: "string option"
  st_departmentId :: "string option option"
  st_hireDate :: "string option"
  st_managerId :: "string option option"
  st_role :: "string option"
  st_phone :: "string option option"
  st_street :: "string option option"
  st_city :: "string option option"
  st_state :: "string option option"
  st_postalCode :: "string option option"
  st_country :: "string option option"

definition contact_only :: "staff_patch \<Rightarrow> bool" where
  "contact_only b \<longleftrightarrow> st_fullName b = None \<and> st_departmentId b = None \<and> st_hireDate b = None \<and> st_managerId b = None \<and> st_role b = None"

definition given_json :: "string \<Rightarrow> string option option \<Rightarrow> (string \<times> jsval) list" where
  "given_json k v = (case v of None \<Rightarrow> [] | Some t \<Rightarrow> [(k, nullable t)])"

definition patch_json :: "staff_patch \<Rightarrow> (string \<times> jsval) list" where
  "patch_json b =
     given_json ''fullName'' (map_option Some (st_fullName b)) @ given_json ''departmentId'' (st_departmentId b) @
     given_json ''hireDate'' (map_option Some (st_hireDate b)) @ given_json ''managerId'' (st_managerId b) @
     given_json ''role'' (map_option Some (st_role b)) @ given_json ''phone'' (st_phone b) @ given_json ''street'' (st_street b) @
     given_json ''city'' (st_city b) @ given_json ''state'' (st_state b) @ given_json ''postalCode'' (st_postalCode b) @
     given_json ''country'' (st_country b)"

definition before_json :: "(int \<Rightarrow> string) \<Rightarrow> employee \<Rightarrow> staff_file \<Rightarrow> (string \<times> jsval) list" where
  "before_json show_date e f =
     [(''fullName'', JString (fl_fullName f)), (''phone'', nullable (ct_phone (ey_contact e))), (''street'', nullable (ct_street (ey_contact e))),
      (''city'', nullable (ct_city (ey_contact e))), (''state'', nullable (ct_state (ey_contact e))),
      (''postalCode'', nullable (ct_postalCode (ey_contact e))), (''country'', nullable (ct_country (ey_contact e))),
      (''departmentId'', nullable (ey_departmentId e)), (''managerId'', nullable (ey_managerId e)), (''hireDate'', JString (show_date (fl_hireDate f)))]"

definition or_old :: "'a option \<Rightarrow> 'a \<Rightarrow> 'a" where
  "or_old v old = (case v of Some x \<Rightarrow> x | None \<Rightarrow> old)"

definition patched_contact :: "staff_patch \<Rightarrow> contact \<Rightarrow> contact" where
  "patched_contact b c = \<lparr>ct_phone = or_old (st_phone b) (ct_phone c), ct_street = or_old (st_street b) (ct_street c),
     ct_city = or_old (st_city b) (ct_city c), ct_state = or_old (st_state b) (ct_state c),
     ct_postalCode = or_old (st_postalCode b) (ct_postalCode c), ct_country = or_old (st_country b) (ct_country c)\<rparr>"

text \<open>\<open>connect\<close> and \<open>disconnect\<close>: an empty text disconnects, as \<open>null\<close> does.\<close>

definition linked :: "string option option \<Rightarrow> string option \<Rightarrow> string option" where
  "linked v old = (case v of None \<Rightarrow> old | Some t \<Rightarrow> if_given t)"

definition patched_employee :: "staff_patch \<Rightarrow> employee \<Rightarrow> employee" where
  "patched_employee b e = e\<lparr>ey_departmentId := linked (st_departmentId b) (ey_departmentId e),
     ey_managerId := linked (st_managerId b) (ey_managerId e), ey_contact := patched_contact b (ey_contact e)\<rparr>"

definition patched_file :: "(string \<Rightarrow> int) \<Rightarrow> staff_patch \<Rightarrow> staff_file \<Rightarrow> staff_file" where
  "patched_file date b f = \<lparr>fl_fullName = or_old (st_fullName b) (fl_fullName f),
     fl_hireDate = (case st_hireDate b of None \<Rightarrow> fl_hireDate f | Some d \<Rightarrow> date d)\<rparr>"

definition patch_employee ::
  "(string \<Rightarrow> int) \<Rightarrow> (int \<Rightarrow> string) \<Rightarrow> erp_session option \<Rightarrow> string \<Rightarrow> staff_patch option \<Rightarrow> staff_db \<Rightarrow> erp_reply \<times> staff_db" where
  "patch_employee date show_date s i body db =
     (case s of
        None \<Rightarrow> (ErpRefused 401, db)
      | Some x \<Rightarrow>
          if ss_role x \<noteq> ''manager'' \<and> ss_employee x \<noteq> Some i then (ErpRefused 403, db)
          else (case body of
            None \<Rightarrow> (ErpRefused 400, db)
          | Some b \<Rightarrow>
              if ss_role x \<noteq> ''manager'' \<and> \<not> contact_only b then (ErpRefused 403, db)
              else (case (map_of (pp_employees (sf_people db)) i, map_of (sf_files db) i) of
                (Some e, Some f) \<Rightarrow>
                  if \<not> refers (linked (st_managerId b) None) (pp_employees (sf_people db)) \<or> \<not> refers (linked (st_departmentId b) None) (pp_departments (sf_people db))
                  then (ErpThrew, db)
                  else (ErpDone, staff_audit i AuditUpdate x (Some (before_json show_date e f)) (Some (patch_json b))
                    (db\<lparr>sf_people := (sf_people db)\<lparr>pp_employees := change_row i (patched_employee b) (pp_employees (sf_people db))\<rparr>,
                       sf_files := change_row i (patched_file date b) (sf_files db),
                       sf_users := (if truthy (st_role b) then change_row (ey_userId e) (\<lambda>u. u\<lparr>su_role := the (st_role b)\<rparr>) (sf_users db) else sf_users db)\<rparr>))
              | _ \<Rightarrow> (ErpThrew, db))))"

section \<open>The audit log\<close>

definition ERP_PAGE_SIZE :: nat where
  "ERP_PAGE_SIZE = 25"

record erp_audit_query =
  eq_entityTypes :: "string list"
  eq_actions :: "string list"
  eq_actorId :: "string option"
  eq_entityId :: "string option"
  eq_from :: "string option"
  eq_to :: "string option"
  eq_page :: "int option"

definition crud_name :: "audit_action \<Rightarrow> string" where
  "crud_name a = (case a of AuditCreate \<Rightarrow> ''CREATE'' | AuditUpdate \<Rightarrow> ''UPDATE'' | AuditDelete \<Rightarrow> ''DELETE'' | AuditConflict \<Rightarrow> ''CONFLICT'')"

definition valid_actions :: "string list \<Rightarrow> string list" where
  "valid_actions xs = filter (\<lambda>a. a \<in> set [''CREATE'', ''UPDATE'', ''DELETE'']) xs"

text \<open>Rows with their times; a filter that is empty or has no valid action is none.\<close>

definition erp_audit_matches :: "(string \<Rightarrow> int) \<Rightarrow> erp_audit_query \<Rightarrow> int \<times> erp_audit \<Rightarrow> bool" where
  "erp_audit_matches date q row \<longleftrightarrow>
     (eq_entityTypes q = [] \<or> ea_entityType (snd row) \<in> set (eq_entityTypes q)) \<and>
     (valid_actions (eq_actions q) = [] \<or> crud_name (ea_action (snd row)) \<in> set (valid_actions (eq_actions q))) \<and>
     (truthy (eq_actorId q) \<longrightarrow> ea_actorId (snd row) = the (eq_actorId q)) \<and>
     (truthy (eq_entityId q) \<longrightarrow> ea_entityId (snd row) = the (eq_entityId q)) \<and>
     (truthy (eq_from q) \<longrightarrow> date (the (eq_from q)) \<le> fst row) \<and>
     (truthy (eq_to q) \<longrightarrow> fst row \<le> date (the (eq_to q)))"

datatype erp_audit_reply = ErpAuditRefused nat | ErpAuditThrew | ErpAuditPage "(int \<times> erp_audit) list" nat int nat

definition list_erp_audit :: "(string \<Rightarrow> int) \<Rightarrow> erp_session option \<Rightarrow> erp_audit_query \<Rightarrow> (int \<times> erp_audit) list \<Rightarrow> erp_audit_reply" where
  "list_erp_audit date s q rows =
     (case s of
        None \<Rightarrow> ErpAuditRefused 401
      | Some x \<Rightarrow>
          if ss_role x \<noteq> ''manager'' then ErpAuditRefused 403
          else (case eq_page q of
            None \<Rightarrow> ErpAuditThrew
          | Some k \<Rightarrow>
              let page = max 1 k; found = filter (erp_audit_matches date q) rows; total = length found in
              ErpAuditPage (take ERP_PAGE_SIZE (drop (nat (page - 1) * ERP_PAGE_SIZE) (sort_key (\<lambda>r. - fst r) found))) total page
                ((total + ERP_PAGE_SIZE - 1) div ERP_PAGE_SIZE)))"

section \<open>The engine's way in\<close>

definition bearer_token :: "string option \<Rightarrow> string option" where
  "bearer_token header = Option.bind header (drop_prefix ''Bearer '')"

definition internal_departments ::
  "((string \<times> string) list \<Rightarrow> (string \<times> string) list) \<Rightarrow> string \<Rightarrow> string option \<Rightarrow> people_db \<Rightarrow> nat + (string \<times> string) list" where
  "internal_departments by_name key header db =
     (if \<not> truthy (bearer_token header) \<or> bearer_token header \<noteq> Some key then Inl 401
      else Inr (by_name (pp_departments db)))"

definition internal_organization :: "string \<Rightarrow> string option \<Rightarrow> string \<Rightarrow> erp_db \<Rightarrow> nat + organization" where
  "internal_organization key header i db =
     (if \<not> truthy (bearer_token header) \<or> bearer_token header \<noteq> Some key then Inl 401
      else (case map_of (er_orgs db) i of None \<Rightarrow> Inl 404 | Some g \<Rightarrow> Inr g))"

section \<open>The way to the engine\<close>

text \<open>What the engine answers: a value, or a status that is not a success with its text; and the error the client throws then.\<close>

definition api_error :: "nat \<Rightarrow> string \<Rightarrow> string" where
  "api_error status body = ''Workflow API error '' @ decimal status @ '': '' @ body"

datatype 'a proxy_reply = ProxyFailed nat | ProxyThrew | ProxyIs 'a

definition delete_definition_proxy :: "erp_session option \<Rightarrow> (nat \<times> string) + 'a \<Rightarrow> 'a proxy_reply" where
  "delete_definition_proxy s answer =
     (if \<not> is_manager s then ProxyFailed 403
      else (case answer of
        Inr v \<Rightarrow> ProxyIs v
      | Inl (status, body) \<Rightarrow>
          if contains_text ''404'' (api_error status body) then ProxyFailed 404
          else if contains_text ''409'' (api_error status body) then ProxyFailed 409
          else ProxyFailed 500))"

definition instance_events_proxy :: "erp_session option \<Rightarrow> (nat \<times> string) + 'a \<Rightarrow> 'a proxy_reply" where
  "instance_events_proxy s answer =
     (if \<not> is_manager s then ProxyFailed 403
      else (case answer of
        Inr v \<Rightarrow> ProxyIs v
      | Inl (status, body) \<Rightarrow> if contains_text ''404'' (api_error status body) then ProxyFailed 404 else ProxyFailed 500))"

text \<open>Cancelling, restarting, resuming and suspending an instance: what the engine refuses is not caught.\<close>

definition instance_proxy :: "erp_session option \<Rightarrow> (nat \<times> string) + 'a \<Rightarrow> 'a proxy_reply" where
  "instance_proxy s answer =
     (if \<not> is_manager s then ProxyFailed 403 else (case answer of Inr v \<Rightarrow> ProxyIs v | Inl e \<Rightarrow> ProxyThrew))"

section \<open>Where a page sends its visitor\<close>

definition locales :: "string list" where
  "locales = [''fr'', ''en'', ''es'']"

definition defaultLocale :: string where
  "defaultLocale = ''fr''"

definition under_locale :: "string \<Rightarrow> string \<Rightarrow> bool" where
  "under_locale pathname l \<longleftrightarrow> pathname = CHR ''/'' # l \<or> drop_prefix (CHR ''/'' # l @ ''/'') pathname \<noteq> None"

definition page_path :: "string \<Rightarrow> string \<times> string" where
  "page_path pathname =
     (case List.find (under_locale pathname) locales of
        None \<Rightarrow> (defaultLocale, pathname)
      | Some l \<Rightarrow> (l, let rest = drop (Suc (length l)) pathname in if rest = [] then ''/'' else rest))"

text \<open>\<open>None\<close> is no redirection; a session has a locale or none.\<close>

definition page_redirect :: "string option option \<Rightarrow> string \<Rightarrow> string option" where
  "page_redirect session pathname =
     (case page_path pathname of
        (l, rest) \<Rightarrow>
          let isAuthPage = (rest = ''/login'' \<or> rest = ''/register'') in
          if session = None \<and> \<not> isAuthPage then Some (CHR ''/'' # l @ ''/login'')
          else if session \<noteq> None \<and> isAuthPage then Some (CHR ''/'' # or_old (the session) l @ ''/dashboard'')
          else None)"

section \<open>Who changes what about whom\<close>

text \<open>
  Without being a manager one changes nothing but one's own contact data: every user and file, every other employee,
  and the own department and manager stay.
\<close>

theorem employees_change_their_contact:
  assumes "patch_employee date show_date (Some x) i body db = (r, db')" "ss_role x \<noteq> ''manager''" "db' \<noteq> db"
  shows "ss_employee x = Some i \<and> sf_users db' = sf_users db \<and> sf_files db' = sf_files db \<and>
    (\<exists>f. pp_employees (sf_people db') = change_row i (\<lambda>e. e\<lparr>ey_contact := f e\<rparr>) (pp_employees (sf_people db)))"
proof -
  from assms obtain b e fl where b: "body = Some b" "contact_only b" "ss_employee x = Some i"
    and d: "db' = staff_audit i AuditUpdate x (Some (before_json show_date e fl)) (Some (patch_json b))
      (db\<lparr>sf_people := (sf_people db)\<lparr>pp_employees := change_row i (patched_employee b) (pp_employees (sf_people db))\<rparr>,
         sf_files := change_row i (patched_file date b) (sf_files db)\<rparr>)"
    by (auto simp: patch_employee_def contact_only_def truthy_def split: option.splits if_splits)
  from b(2) have f: "patched_file date b = id"
    by (intro ext) (simp add: patched_file_def contact_only_def or_old_def)
  have e: "patched_employee b = (\<lambda>e. e\<lparr>ey_contact := patched_contact b (ey_contact e)\<rparr>)"
    using b(2) by (intro ext) (simp add: patched_employee_def contact_only_def linked_def)
  have "change_row i id m = m" for m :: "(string \<times> staff_file) list" by (induction m) (auto simp: change_row_def)
  with b(3) show ?thesis unfolding d e f by (auto simp: staff_audit_def)
qed

lemma show_direct_keys: "fst ` set (fold (show_direct labels) ks m) = fst ` set m \<union> set ks"
  by (induction ks arbitrary: m) (auto simp: show_direct_def dom_update)

lemma show_grouped_key: "fst ` set (show_grouped p m) = insert (fst p) (fst ` set m)"
  by (cases p; cases "map_of m (fst p)") (simp_all add: show_grouped_def dom_update)

lemma show_grouped_keys: "fst ` set (fold show_grouped ps m) = fst ` set m \<union> fst ` set ps"
  by (induction ps arbitrary: m) (simp_all add: show_grouped_key)

text \<open>
  The permissions shown with an employee are permissions they have, but only those granted to them or to a group they
  are a member of: what comes from a default group or the department is not shown.
\<close>

theorem shown_permissions_are_held:
  "(k \<in> fst ` set (shown_permissions u db) \<longleftrightarrow> (u, k) \<in> set (pp_userPermissions (sf_people db)) \<or>
      list_ex (\<lambda>(v, g). v = u \<and> (g, k) \<in> set (pp_groupPermissions (sf_people db))) (pp_memberships (sf_people db))) \<and>
   fst ` set (shown_permissions u db) \<subseteq> set (getEffectivePermissions u (sf_people db))"
proof -
  have v: "y \<in> set (values_of a m) \<longleftrightarrow> (a, y) \<in> set m" for y :: string and a m by (force simp: values_of_def)
  have shown: "k \<in> fst ` set (shown_permissions u db) \<longleftrightarrow> (u, k) \<in> set (pp_userPermissions (sf_people db)) \<or>
      (\<exists>g. (u, g) \<in> set (pp_memberships (sf_people db)) \<and> (g, k) \<in> set (pp_groupPermissions (sf_people db)))" for k
    by (simp add: shown_permissions_def Let_def show_grouped_keys show_direct_keys groups_of_def v image_Un image_UN comp_def image_image) (auto simp: v)
  moreover have "k \<in> set (getEffectivePermissions u (sf_people db))" if "k \<in> fst ` set (shown_permissions u db)" for k
    using that shown by (auto simp: getEffectivePermissions_def Let_def fold_add_key v)
  ultimately show ?thesis by (auto simp: list_ex_iff)
qed

section \<open>Where redirections lead\<close>

lemma page_path_rest: "page_path q = (l, r) \<Longrightarrow> \<exists>n. r = drop n q \<or> r = ''/''"
  by (auto simp: page_path_def Let_def intro: exI[of _ 0] split: option.splits if_splits)

text \<open>Redirections settle: the page a visitor is sent to does not send them on.\<close>

theorem redirections_settle:
  assumes "page_redirect session pathname = Some q"
  shows "page_redirect session q = None"
proof -
  have "page_redirect session (CHR ''/'' # l @ ''/dashboard'') = None" if "session \<noteq> None" for l
  proof -
    let ?q = "CHR ''/'' # l @ ''/dashboard''"
    obtain l' r where p: "page_path ?q = (l', r)" by (metis surj_pair)
    from page_path_rest[OF p] obtain n where n: "r = drop n ?q \<or> r = ''/''" by blast
    have "last r = CHR ''d'' \<or> r = [] \<or> r = ''/''" using n by (cases "n < length ?q") auto
    then have "r \<noteq> ''/login'' \<and> r \<noteq> ''/register''" by auto
    with p that show ?thesis by (simp add: page_redirect_def Let_def)
  qed
  moreover have "page_redirect None (CHR ''/'' # l @ ''/login'') = None" if "l \<in> set locales" for l
    using that by (auto simp: locales_def page_redirect_def page_path_def under_locale_def Let_def)
  moreover have "fst (page_path pathname) \<in> set locales"
    by (auto simp: page_path_def locales_def defaultLocale_def split: option.splits)
  moreover have "(session = None \<and> q = CHR ''/'' # fst (page_path pathname) @ ''/login'') \<or>
      (session \<noteq> None \<and> (\<exists>l. q = CHR ''/'' # l @ ''/dashboard''))"
    using assms by (cases session) (auto simp: page_redirect_def Let_def split: prod.splits if_splits)
  ultimately show ?thesis by auto
qed

section \<open>Samples\<close>

text \<open>A permission of a default group is held, and not shown.\<close>

definition sample_staff :: staff_db where
  "sample_staff = \<lparr>sf_people = \<lparr>pp_users = [''u''], pp_permissions = [''expenses:read''], pp_userPermissions = [], pp_groups =
       [(''g'', \<lparr>eg_name = ''all'', eg_description = None, eg_default = True\<rparr>)], pp_groupPermissions = [(''g'', ''expenses:read'')],
     pp_memberships = [], pp_departments = [], pp_departmentPermissions = [],
     pp_employees = [(''e'', \<lparr>ey_userId = ''u'', ey_departmentId = None, ey_managerId = None, ey_contact = \<lparr>ct_phone = None, ct_street = None,
       ct_city = None, ct_state = None, ct_postalCode = None, ct_country = None\<rparr>\<rparr>)], pp_audit = []\<rparr>,
     sf_users = [(''u'', \<lparr>su_email = ''u@x'', su_passwordHash = ''h'', su_role = ''employee''\<rparr>)],
     sf_files = [(''e'', \<lparr>fl_fullName = ''U'', fl_hireDate = 0\<rparr>)], sf_labels = []\<rparr>"

theorem inherited_permissions_are_not_shown:
  "shown_permissions ''u'' sample_staff = [] \<and> getEffectivePermissions ''u'' (sf_people sample_staff) = [''expenses:read'']"
  by (simp add: shown_permissions_def sample_staff_def getEffectivePermissions_def values_of_def groups_of_def employee_of_def add_key_def Let_def)

text \<open>A refusal because of running instances is reported as a definition that is not there, if its id contains the other number.\<close>

theorem conflicts_may_be_misreported:
  "delete_definition_proxy (Some \<lparr>ss_user = ''m'', ss_role = ''manager'', ss_employee = None, ss_email = None\<rparr>)
     (Inl (409, ''order-404 has 1 active instance'')) = ProxyFailed 404"
  by (simp add: delete_definition_proxy_def is_manager_def api_error_def decimal.simps)

definition sample_patch :: staff_patch where
  "sample_patch = \<lparr>st_fullName = None, st_departmentId = None, st_hireDate = None, st_managerId = None, st_role = None, st_phone = Some (Some ''1''),
     st_street = None, st_city = None, st_state = None, st_postalCode = None, st_country = None\<rparr>"

definition sample_self :: erp_session where
  "sample_self = \<lparr>ss_user = ''u'', ss_role = ''employee'', ss_employee = Some ''e'', ss_email = None\<rparr>"

theorem employees_change_their_contact_witness:
  "sf_users (snd (patch_employee (\<lambda>_. 0) (\<lambda>_. []) (Some sample_self) ''e'' (Some sample_patch) sample_staff)) = sf_users sample_staff"
proof -
  obtain r db' where p: "patch_employee (\<lambda>_. 0) (\<lambda>_. []) (Some sample_self) ''e'' (Some sample_patch) sample_staff = (r, db')" by (metis surj_pair)
  then have "pp_audit (sf_people db') \<noteq> pp_audit (sf_people sample_staff)"
    by (auto simp: patch_employee_def sample_self_def sample_patch_def sample_staff_def contact_only_def refers_def linked_def staff_audit_def createAuditLog_def truthy_def)
  then have "db' \<noteq> sample_staff" by auto
  from employees_change_their_contact[OF p _ this] p show ?thesis by (simp add: sample_self_def)
qed

theorem redirections_settle_witness: "page_redirect None ''/fr/login'' = None"
proof -
  have "page_redirect None ''/fr/tasks'' = Some ''/fr/login''" by (simp add: page_redirect_def page_path_def locales_def under_locale_def)
  then show ?thesis by (rule redirections_settle)
qed

end
