(* ===== verification/Js_Evaluator.thy ===== *)
theory Js_Evaluator
  imports Js_Values Exec_Context
begin

text \<open>
  \<open>expression/JsEvaluator.ts\<close>: the evaluator of conditions the engine uses unless it is given another. An expression is
  tested against a list of words, then run by \<open>vm\<close> with the variables as its globals; what it throws is sorted into
  the errors of the engine. \<open>runInNewContext\<close> is the parameter \<open>vm\<close>: it gets the expression, what the proxy answers for
  each name, and the time limit. A word of the list is a regular expression \<open>\b\<dots>\b\<close>, which is written out.
\<close>

section \<open>The list of words\<close>

definition BLOCKED_PATTERNS :: "string list" where
  "BLOCKED_PATTERNS = [''process'', ''require'', ''globalThis'', ''global'', ''__proto__'', ''constructor'', ''prototype'', ''eval'',
     ''Function'', ''setTimeout'', ''setInterval'', ''setImmediate'', ''fetch'', ''XMLHttpRequest'', ''WebSocket'', ''ImportScripts'']"

text \<open>\<open>\w\<close>, and whether a text begins with one.\<close>

definition word_char :: "char \<Rightarrow> bool" where
  "word_char c = (let n = of_char c :: nat in 48 \<le> n \<and> n \<le> 57 \<or> 65 \<le> n \<and> n \<le> 90 \<or> n = 95 \<or> 97 \<le> n \<and> n \<le> 122)"

definition goes_on :: "string \<Rightarrow> bool" where
  "goes_on s = (case s of [] \<Rightarrow> False | c # cs \<Rightarrow> word_char c)"

text \<open>The search from left to right; \<open>inside\<close> says that the character before is a word character.\<close>

fun word_from :: "string \<Rightarrow> bool \<Rightarrow> string \<Rightarrow> bool" where
  "word_from w inside [] = False"
| "word_from w inside (c # cs) =
     (\<not> inside \<and> take (length w) (c # cs) = w \<and> \<not> goes_on (drop (length w) (c # cs)) \<or> word_from w (word_char c) cs)"

definition has_word :: "string \<Rightarrow> string \<Rightarrow> bool" where
  "has_word w s = word_from w False s"

definition checkBlocklist :: "string \<Rightarrow> engine_error option" where
  "checkBlocklist expression =
     (if list_ex (\<lambda>w. has_word w expression) BLOCKED_PATTERNS then Some (SandboxViolationError expression) else None)"

section \<open>The sandbox\<close>

text \<open>
  What the proxy answers for a name: a variable, what a plain object inherits (\<open>key in target\<close> is true of it),
  or \<open>undefined\<close>.
\<close>

datatype sandbox_value = OwnValue jsval | InheritedFrom string | NoValue

definition OBJECT_MEMBERS :: "string list" where
  "OBJECT_MEMBERS = [''constructor'', ''__defineGetter__'', ''__defineSetter__'', ''hasOwnProperty'', ''__lookupGetter__'', ''__lookupSetter__'',
     ''isPrototypeOf'', ''propertyIsEnumerable'', ''toString'', ''valueOf'', ''__proto__'', ''toLocaleString'']"

definition buildSandbox :: "variables \<Rightarrow> string \<Rightarrow> sandbox_value" where
  "buildSandbox vs key =
     (case map_of vs key of
        Some v \<Rightarrow> OwnValue (vv_value v)
      | None \<Rightarrow> if key \<in> set OBJECT_MEMBERS then InheritedFrom key else NoValue)"

section \<open>Evaluation\<close>

text \<open>What is thrown may be nothing at all (\<open>null\<close> or \<open>undefined\<close>): then reading its code is a \<open>TypeError\<close>.\<close>

record vm_error =
  ve_code :: "string option"
  ve_name :: string
  ve_message :: string

datatype vm_outcome = VmValue jsval | VmThrew "vm_error option"

type_synonym virtual_machine = "string \<Rightarrow> (string \<Rightarrow> sandbox_value) \<Rightarrow> nat \<Rightarrow> vm_outcome"

definition sort_error :: "string \<Rightarrow> vm_error option \<Rightarrow> engine_error" where
  "sort_error expression e =
     (case e of
        None \<Rightarrow> TypeFault
      | Some x \<Rightarrow>
          if ve_code x = Some ''ERR_SCRIPT_EXECUTION_TIMEOUT'' \<or> contains_text ''timed out'' (js_lower (ve_message x))
          then EvaluationTimeoutError expression
          else if ve_name x = ''SyntaxError'' then ExpressionSyntaxError (ve_message x) expression
          else ExpressionError (ve_message x))"

definition evaluate :: "virtual_machine \<Rightarrow> nat \<Rightarrow> evaluator" where
  "evaluate vm timeoutMs expression vs =
     (case checkBlocklist expression of
        Some e \<Rightarrow> Inl e
      | None \<Rightarrow>
          (case vm expression (buildSandbox vs) timeoutMs of
             VmValue v \<Rightarrow> Inr v
           | VmThrew e \<Rightarrow> Inl (sort_error expression e)))"

definition default_timeout :: "nat option \<Rightarrow> nat" where
  "default_timeout timeoutMs = (case timeoutMs of Some t \<Rightarrow> t | None \<Rightarrow> 100)"

section \<open>What is refused\<close>

lemma word_from_iff:
  assumes "w \<noteq> []"
  shows "word_from w inside s \<longleftrightarrow>
    (\<exists>pre post. s = pre @ w @ post \<and> (if pre = [] then \<not> inside else \<not> word_char (last pre)) \<and> \<not> goes_on post)"
proof (induction s arbitrary: inside)
  case Nil
  with assms show ?case by simp
next
  case (Cons c cs)
  let ?here = "\<not> inside \<and> take (length w) (c # cs) = w \<and> \<not> goes_on (drop (length w) (c # cs))"
  let ?fits = "\<lambda>inside s pre post. s = pre @ w @ post \<and> (if pre = [] then \<not> inside else \<not> word_char (last pre)) \<and> \<not> goes_on post"
  have here: "?here \<longleftrightarrow> (\<exists>post. ?fits inside (c # cs) [] post)"
    by (metis append_Nil append_eq_conv_conj append_take_drop_id)
  have later: "(\<exists>pre post. ?fits (word_char c) cs pre post) \<longleftrightarrow> (\<exists>pre post. ?fits inside (c # cs) (c # pre) post)" by auto
  have "(\<exists>pre post. ?fits inside (c # cs) pre post) \<longleftrightarrow>
      (\<exists>post. ?fits inside (c # cs) [] post) \<or> (\<exists>pre post. ?fits inside (c # cs) (c # pre) post)"
  proof
    assume "\<exists>pre post. ?fits inside (c # cs) pre post"
    then obtain pre post where f: "?fits inside (c # cs) pre post" by blast
    show "(\<exists>post. ?fits inside (c # cs) [] post) \<or> (\<exists>pre post. ?fits inside (c # cs) (c # pre) post)"
    proof (cases pre)
      case Nil
      with f show ?thesis by auto
    next
      case (Cons x xs)
      with f have "x = c" by simp
      with f Cons show ?thesis by blast
    qed
  qed blast
  with here later Cons.IH[of "word_char c"] show ?case by simp
qed

text \<open>\<open>\bw\b\<close>: the word stands somewhere, and the characters before and after it, if any, are no word characters.\<close>

lemma has_word_iff:
  assumes "w \<noteq> []"
  shows "has_word w s \<longleftrightarrow>
    (\<exists>pre post. s = pre @ w @ post \<and> (pre = [] \<or> \<not> word_char (last pre)) \<and> (post = [] \<or> \<not> word_char (hd post)))"
proof -
  have "goes_on post \<longleftrightarrow> post \<noteq> [] \<and> word_char (hd post)" for post by (cases post) (simp_all add: goes_on_def)
  then show ?thesis unfolding has_word_def word_from_iff[OF assms] by (intro arg_cong[where f = Ex] ext) auto
qed

lemma blocked_words_nonempty: "w \<in> set BLOCKED_PATTERNS \<Longrightarrow> w \<noteq> []"
  by (auto simp: BLOCKED_PATTERNS_def)

text \<open>
  The list stands before the machine: an expression in which a word of the list stands by itself is refused whatever
  the machine would do with it, and no other expression is refused as a violation.
\<close>

theorem blocked_words_never_run:
  "evaluate vm timeoutMs expression vs = Inl (SandboxViolationError expression) \<longleftrightarrow>
   (\<exists>w \<in> set BLOCKED_PATTERNS. \<exists>pre post. expression = pre @ w @ post \<and>
      (pre = [] \<or> \<not> word_char (last pre)) \<and> (post = [] \<or> \<not> word_char (hd post)))"
proof -
  have "evaluate vm timeoutMs expression vs = Inl (SandboxViolationError expression) \<longleftrightarrow> checkBlocklist expression \<noteq> None"
    by (auto simp: evaluate_def checkBlocklist_def sort_error_def split: vm_outcome.splits option.splits)
  also have "\<dots> \<longleftrightarrow> (\<exists>w \<in> set BLOCKED_PATTERNS. has_word w expression)" by (simp add: checkBlocklist_def list_ex_iff)
  finally show ?thesis by (auto simp: has_word_iff[OF blocked_words_nonempty])
qed

text \<open>
  The words are words of the text, not names of the expression: a variable with a property \<open>process\<close> cannot be used in a
  condition, \<open>importScripts\<close> is not on the list as it is spelt there with a capital, and a name that every object inherits
  is not \<open>undefined\<close> when no variable has it.
\<close>

theorem words_are_not_names:
  "evaluate vm 100 ''order.process > 1'' vs = Inl (SandboxViolationError ''order.process > 1'') \<and>
   checkBlocklist ''importScripts()'' = None \<and>
   buildSandbox [] ''toString'' = InheritedFrom ''toString'' \<and> buildSandbox [] ''amount'' = NoValue"
proof (intro conjI)
  show "evaluate vm 100 ''order.process > 1'' vs = Inl (SandboxViolationError ''order.process > 1'')"
    by (simp add: evaluate_def checkBlocklist_def BLOCKED_PATTERNS_def has_word_def word_char_def goes_on_def)
  show "checkBlocklist ''importScripts()'' = None"
    by (simp add: checkBlocklist_def BLOCKED_PATTERNS_def has_word_def word_char_def goes_on_def)
qed (simp_all add: buildSandbox_def OBJECT_MEMBERS_def)

text \<open>Every run of the machine ends in a value of its own or in an error of the engine; a run over the limit is named as such.\<close>

lemma timeouts_are_named:
  "vm expression (buildSandbox vs) t = VmThrew (Some \<lparr>ve_code = Some ''ERR_SCRIPT_EXECUTION_TIMEOUT'', ve_name = n, ve_message = m\<rparr>) \<Longrightarrow>
   checkBlocklist expression = None \<Longrightarrow> evaluate vm t expression vs = Inl (EvaluationTimeoutError expression)"
  by (simp add: evaluate_def sort_error_def)

end
