(* ===== verification/Console_Rules.thy ===== *)
theory Console_Rules
  imports Api_Access "HOL-Library.Multiset"
begin

text \<open>
  What the console (\<open>nexus-workflow-console/src\<close>) decides by itself: which steps it offers to push along
  (\<open>forceActions.ts\<close>), what it takes its user to be (\<open>auth/roles.ts\<close>) and the tenant the user works in
  (\<open>auth/TenantContext.tsx\<close>), compared with the server's rules. The server's types stand for what it sends.
\<close>

section \<open>Pushing a step along\<close>

record force_choice =
  fc_action :: forced_action
  fc_label :: string
  fc_title :: string
  fc_effect :: string
  fc_takesVariables :: bool
  fc_destructive :: bool

definition COMPLETE_SERVICE :: force_choice where
  "COMPLETE_SERVICE = \<lparr>fc_action = ForceCompleteServiceTask, fc_label = ''Complete'', fc_title = ''Complete this service task by hand'',
     fc_effect = ''The step is marked as done without its worker, and the instance moves on.'', fc_takesVariables = True, fc_destructive = False\<rparr>"

definition FAIL_SERVICE :: force_choice where
  "FAIL_SERVICE = \<lparr>fc_action = ForceFailServiceTask, fc_label = ''Fail'', fc_title = ''Fail this service task by hand'',
     fc_effect = ''The step is marked as failed. If the process handles the error it follows that path; otherwise the instance is suspended.'',
     fc_takesVariables = False, fc_destructive = True\<rparr>"

definition FIRE_TIMER :: force_choice where
  "FIRE_TIMER = \<lparr>fc_action = ForceFireTimer, fc_label = ''Fire now'', fc_title = ''Fire this timer now'',
     fc_effect = ''The wait is skipped and the instance moves on as if the time had passed.'', fc_takesVariables = False, fc_destructive = False\<rparr>"

definition COMPLETE_TASK :: force_choice where
  "COMPLETE_TASK = \<lparr>fc_action = ForceCompleteUserTask, fc_label = ''Complete as me'', fc_title = ''Complete this task for its assignee'',
     fc_effect = ''The task is completed in your name, on behalf of the person it was assigned to, and the instance moves on.'',
     fc_takesVariables = True, fc_destructive = False\<rparr>"

text \<open>Whether the instance is suspended by a failure of just this token.\<close>

definition failed_here :: "token \<Rightarrow> process_instance option \<Rightarrow> bool" where
  "failed_here t inst =
     (case inst of
        None \<Rightarrow> False
      | Some i \<Rightarrow> pi_status i = SuspendedI \<and>
          (case pi_errorInfo i of
             None \<Rightarrow> False
           | Some e \<Rightarrow> if truthy (pe_tokenId e) then pe_tokenId e = Some (tk_id t) else pe_elementId e = Some (tk_elementId t)))"

definition forceChoices :: "token \<Rightarrow> process_instance option \<Rightarrow> force_choice list" where
  "forceChoices t inst =
     (if tk_status t \<noteq> Waiting then []
      else (case map_option wc_type (tk_waitingFor t) of
        Some WaitExternal \<Rightarrow>
          if tk_elementType t \<noteq> ServiceTaskT then []
          else if failed_here t inst then [COMPLETE_SERVICE] else [COMPLETE_SERVICE, FAIL_SERVICE]
      | Some WaitTimer \<Rightarrow> [FIRE_TIMER]
      | Some WaitUserTask \<Rightarrow> [COMPLETE_TASK]
      | _ \<Rightarrow> []))"

definition offered :: "token \<Rightarrow> process_instance option \<Rightarrow> forced_action list" where
  "offered t inst = map fc_action (forceChoices t inst)"

fun describeForcedAction :: "forced_action \<Rightarrow> string" where
  "describeForcedAction ForceCompleteServiceTask = ''completed a service task''"
| "describeForcedAction ForceFailServiceTask = ''failed a service task''"
| "describeForcedAction ForceFireTimer = ''fired a timer''"
| "describeForcedAction ForceCompleteUserTask = ''completed a task''"

definition describeForceOutcome :: "forced_action \<Rightarrow> instance_status \<Rightarrow> string" where
  "describeForceOutcome action st =
     (if action = ForceFailServiceTask then
        if st = SuspendedI
        then ''The step was failed. Nothing in this process handles that error, so the instance is suspended here: you can still complete the step.''
        else ''The step was failed and the process handled the error: the instance moved on.''
      else ''The step was pushed along'')"

section \<open>Who the user is\<close>

datatype console_session = PersonSession user "membership list" | KeySession

fun console_isSystemAdmin :: "console_session \<Rightarrow> bool" where
  "console_isSystemAdmin KeySession = True"
| "console_isSystemAdmin (PersonSession u ms) = list_ex (\<lambda>m. mb_role m = SystemAdmin) ms"

fun console_isOperator :: "console_session \<Rightarrow> bool" where
  "console_isOperator KeySession = True"
| "console_isOperator (PersonSession u ms) = list_ex (\<lambda>m. mb_role m = Operator \<or> mb_role m = SystemAdmin) ms"

text \<open>\<open>[...new Set(xs)]\<close>.\<close>

fun as_set :: "'a list \<Rightarrow> 'a list" where
  "as_set [] = []"
| "as_set (x # xs) = x # filter (\<lambda>y. y \<noteq> x) (as_set xs)"

fun console_managedTenantIds :: "console_session \<Rightarrow> string list" where
  "console_managedTenantIds KeySession = []"
| "console_managedTenantIds (PersonSession u ms) =
     as_set (concat (map (\<lambda>m. if mb_role m = TenantManager \<and> truthy (mb_tenantId m) then [the (mb_tenantId m)] else []) ms))"

definition canManageUsers :: "console_session \<Rightarrow> bool" where
  "canManageUsers s \<longleftrightarrow> console_isOperator s \<or> 0 < length (console_managedTenantIds s)"

fun describeSession :: "console_session \<Rightarrow> string" where
  "describeSession KeySession = ''Admin key''"
| "describeSession (PersonSession u ms) = (if u_name u = [] then u_email u else u_name u)"

text \<open>The tenants a user may choose from, and the one they are in, from what the tab remembers.\<close>

definition selectable_tenants :: "console_session option \<Rightarrow> string list" where
  "selectable_tenants s = (case s of Some x \<Rightarrow> sort (console_managedTenantIds x) | None \<Rightarrow> [])"

definition current_tenant :: "string option \<Rightarrow> console_session option \<Rightarrow> string option" where
  "current_tenant choice s =
     (if truthy choice \<and> the choice \<in> set (selectable_tenants s) then choice
      else (case selectable_tenants s of t # ts \<Rightarrow> Some t | [] \<Rightarrow> None))"

text \<open>The session the console holds for a credential the server knows; a tenant's key cannot sign in.\<close>

fun held_session :: "principal \<Rightarrow> console_session option" where
  "held_session (UserPrincipal u ms) = Some (PersonSession u ms)"
| "held_session AdminKeyPrincipal = Some KeySession"
| "held_session (OperatorKeyPrincipal i n) = Some KeySession"
| "held_session (ApiKeyPrincipal t i n r) = None"

section \<open>The console and the server\<close>

lemma set_as_set [simp]: "set (as_set xs) = set xs"
  by (induction xs) auto

lemma distinct_as_set [simp]: "distinct (as_set xs)"
  by (induction xs) simp_all

lemma offered_iff: "a \<in> set (offered t None) \<longleftrightarrow> tk_status t = Waiting \<and> fits a t"
  by (cases a) (auto simp: offered_def forceChoices_def failed_here_def waits_as_def COMPLETE_SERVICE_def FAIL_SERVICE_def FIRE_TIMER_def
    COMPLETE_TASK_def split: option.splits wait_condition_type.splits)

text \<open>
  The buttons are the server's rule: on a token that is where the console last saw it, a forced step is run exactly if the
  console offers its action; any other is refused, as no longer current if the token does not wait, else as of the wrong kind.
\<close>

theorem buttons_are_the_servers_rule:
  assumes "canUseTenant (UserPrincipal u ms) tenant" "parse_force body = Some f" "loadEngineState i (sv_store sv) = Some st"
    "List.find (\<lambda>t. tk_id t = fo_tokenId f) (st_tokens st) = Some t" "definition_of st (sv_store sv) = Some d"
  shows "force_step env (Some (UserPrincipal u ms)) tenant i body sv =
    (if fo_action f \<in> set (offered t None) then force_cycle env (UserPrincipal u ms) (u_email u) tenant f i t st d sv
     else Some (if tk_status t = Waiting then Refused 422 ''WRONG_STEP_KIND'' else Refused 409 ''STEP_NOT_CURRENT'', sv))"
  using assms by (simp add: force_step_def offered_iff del: canUseTenant.simps)

text \<open>What is known of the instance takes away one button only: failing a service task that has failed here already.\<close>

theorem only_failing_again_is_withheld:
  "offered t inst = (if failed_here t inst then filter (\<lambda>a. a \<noteq> ForceFailServiceTask) (offered t None) else offered t None)"
proof -
  have none: "\<not> failed_here t None" by (simp add: failed_here_def)
  note unfolded = offered_def forceChoices_def none COMPLETE_SERVICE_def FAIL_SERVICE_def FIRE_TIMER_def COMPLETE_TASK_def
  show ?thesis
  proof (cases "tk_waitingFor t")
    case (Some w)
    then show ?thesis by (cases "wc_type w") (simp_all add: unfolded)
  qed (simp add: unfolded)
qed

lemma managed_iff:
  "x \<in> set (managedTenantIds (UserPrincipal u ms)) \<longleftrightarrow> (\<exists>m \<in> set ms. mb_role m = TenantManager \<and> mb_tenantId m = Some x)"
proof -
  let ?own = "\<lambda>m :: membership. if mb_role m = TenantManager then (case mb_tenantId m of Some t \<Rightarrow> [t] | None \<Rightarrow> []) else []"
  have "\<And>m. x \<in> set (?own m) \<longleftrightarrow> mb_role m = TenantManager \<and> mb_tenantId m = Some x"
  proof -
    fix m
    show "x \<in> set (?own m) \<longleftrightarrow> mb_role m = TenantManager \<and> mb_tenantId m = Some x"
      by (cases "mb_tenantId m"; cases "mb_role m = TenantManager") (simp_all add: eq_commute)
  qed
  moreover have "x \<in> set (managedTenantIds (UserPrincipal u ms)) \<longleftrightarrow> (\<exists>m \<in> set ms. x \<in> set (?own m))"
    unfolding managedTenantIds.simps set_concat set_map by blast
  ultimately show ?thesis by (simp only:)
qed

lemma console_managed_iff:
  "x \<in> set (console_managedTenantIds (PersonSession u ms)) \<longleftrightarrow>
     x \<noteq> [] \<and> (\<exists>m \<in> set ms. mb_role m = TenantManager \<and> mb_tenantId m = Some x)"
proof -
  have "x \<in> set (if mb_role m = TenantManager \<and> truthy (mb_tenantId m) then [the (mb_tenantId m)] else []) \<longleftrightarrow>
      x \<noteq> [] \<and> mb_role m = TenantManager \<and> mb_tenantId m = Some x" for m :: membership
    by (cases "mb_tenantId m") auto
  then show ?thesis by (simp only: console_managedTenantIds.simps set_as_set set_concat set_map UN_iff) blast
qed

text \<open>
  The console's rights are the server's, with one exception: it takes the holder of an operator key for a system
  admin, as it does not tell the two keys apart.
\<close>

theorem console_rights:
  assumes "held_session p = Some s"
  shows "console_isOperator s \<longleftrightarrow> isOperator p"
    and "console_isSystemAdmin s \<longleftrightarrow> isSystemAdmin p \<or> is_operator_key p"
    and "set (console_managedTenantIds s) = set (managedTenantIds p) - {[]}"
proof -
  show "console_isOperator s \<longleftrightarrow> isOperator p" "console_isSystemAdmin s \<longleftrightarrow> isSystemAdmin p \<or> is_operator_key p"
    using assms by (cases p; auto)+
  show "set (console_managedTenantIds s) = set (managedTenantIds p) - {[]}"
  proof (cases p)
    case (UserPrincipal u ms)
    with assms have s: "s = PersonSession u ms" by simp
    show ?thesis unfolding s UserPrincipal by (simp only: set_eq_iff Diff_iff managed_iff console_managed_iff singleton_iff) blast
  qed (use assms in auto)
qed

text \<open>The tenant a user is in is one they may use; there is none only if they manage none.\<close>

theorem current_tenant_is_usable:
  assumes "held_session p = Some s"
  shows "(\<forall>t. current_tenant choice (Some s) = Some t \<longrightarrow> canUseTenant p t) \<and>
    (current_tenant choice (Some s) = None \<longleftrightarrow> set (managedTenantIds p) \<subseteq> {[]}) \<and>
    (\<forall>t. choice = Some t \<and> t \<noteq> [] \<and> t \<in> set (managedTenantIds p) \<longrightarrow> current_tenant choice (Some s) = Some t)"
proof -
  have ids: "set (selectable_tenants (Some s)) = set (managedTenantIds p) - {[]}"
    by (simp add: selectable_tenants_def console_rights(3)[OF assms])
  have use: "x \<in> set (managedTenantIds p) \<Longrightarrow> canUseTenant p x" for x
    by (cases p) (simp_all del: managedTenantIds.simps(1))
  have chosen: "current_tenant choice (Some s) = Some x \<Longrightarrow> x \<in> set (selectable_tenants (Some s))" for x
    by (auto simp: current_tenant_def split: if_splits list.splits)
  have none: "current_tenant choice (Some s) = None \<longleftrightarrow> set (selectable_tenants (Some s)) = {}"
    by (cases choice) (auto simp: current_tenant_def split: list.splits)
  have kept: "x \<in> set (selectable_tenants (Some s)) \<Longrightarrow> x \<noteq> [] \<Longrightarrow> current_tenant (Some x) (Some s) = Some x" for x
    by (simp add: current_tenant_def)
  from chosen use ids have "\<forall>x. current_tenant choice (Some s) = Some x \<longrightarrow> canUseTenant p x" by blast
  moreover from none ids have "current_tenant choice (Some s) = None \<longleftrightarrow> set (managedTenantIds p) \<subseteq> {[]}" by auto
  moreover from kept ids have "\<forall>x. choice = Some x \<and> x \<noteq> [] \<and> x \<in> set (managedTenantIds p) \<longrightarrow> current_tenant choice (Some s) = Some x"
    by blast
  ultimately show ?thesis by blast
qed

end
