(* ===== verification/Console_State.thy ===== *)
theory Console_State
  imports Console_Rules
begin

text \<open>
  The rest of what the console decides by itself: who is signed in and with what (\<open>auth/AuthContext.tsx\<close>), how a request is
  sent and its answer read (\<open>api/client.ts\<close>), how a list is searched, sorted and cut into pages
  (\<open>list/useListView.ts\<close>), what is marked on a diagram (\<open>instanceEvents.ts\<close>), and the inputs of a start
  (\<open>startTemplate.ts\<close>, \<open>jsonObject.ts\<close>). The browser's \<open>Collator\<close>, \<open>fetch\<close> and \<open>JSON.parse\<close> are parameters.
\<close>

section \<open>Who is signed in\<close>

text \<open>
  The state of \<open>AuthProvider\<close>: the session, the key every request is sent with, what the tab keeps of it, why the last
  session ended, and whether the server is still being asked for one.
\<close>

record console_auth =
  ca_session :: "console_session option"
  ca_key :: "string option"
  ca_stored :: "string option"
  ca_reason :: "string option"
  ca_loading :: bool

definition STALE_KEY_MESSAGE :: string where
  "STALE_KEY_MESSAGE = ''Your key is no longer accepted by the server (revoked, expired or rotated). Please sign in again.''"

definition EXPIRED_SESSION_MESSAGE :: string where
  "EXPIRED_SESSION_MESSAGE = ''Your session has ended. Please sign in again.''"

definition console_opened :: "string option \<Rightarrow> console_auth" where
  "console_opened stored =
     \<lparr>ca_session = (if truthy stored then Some KeySession else None), ca_key = stored, ca_stored = stored, ca_reason = None,
      ca_loading = (stored = None)\<rparr>"

text \<open>\<open>store\<close>; a tab whose storage is unavailable keeps nothing.\<close>

definition hold :: "bool \<Rightarrow> console_session option \<Rightarrow> string option \<Rightarrow> console_auth \<Rightarrow> console_auth" where
  "hold available s key a =
     a\<lparr>ca_session := s, ca_key := key, ca_stored := (if available then key else ca_stored a)\<rparr>"

text \<open>
  What happens: an answer to the question for a session (one, none, or a failure); a sign-in with a password or by an
  invitation that succeeded; a key the server accepted; signing out; an answer 401 to a request. What fails otherwise
  changes nothing.
\<close>

datatype auth_happening =
    Asked "(user \<times> membership list) option"
  | SignedInAs user "membership list"
  | KeyAccepted string
  | SignedOut
  | NotAccepted

fun auth_step :: "bool \<Rightarrow> auth_happening \<Rightarrow> console_auth \<Rightarrow> console_auth" where
  "auth_step available (Asked info) a =
     (if \<not> ca_loading a then a
      else ((case info of Some (u, ms) \<Rightarrow> hold available (Some (PersonSession u ms)) None a | None \<Rightarrow> a)\<lparr>ca_loading := False\<rparr>))"
| "auth_step available (SignedInAs u ms) a = hold available (Some (PersonSession u ms)) None (a\<lparr>ca_reason := None\<rparr>)"
| "auth_step available (KeyAccepted key) a = hold available (Some KeySession) (Some key) (a\<lparr>ca_reason := None\<rparr>)"
| "auth_step available SignedOut a = (hold available None None a)\<lparr>ca_reason := None\<rparr>"
| "auth_step available NotAccepted a =
     (case ca_session a of
        None \<Rightarrow> a
      | Some s \<Rightarrow> (hold available None None a)\<lparr>ca_reason := Some (if s = KeySession then STALE_KEY_MESSAGE else EXPIRED_SESSION_MESSAGE)\<rparr>)"

section \<open>Requests\<close>

text \<open>A request of the browser, and what comes back: nothing, or a status with a body that may or may not be JSON.\<close>

record browser_request =
  br_method :: string
  br_path :: string
  br_headers :: "(string \<times> string) list"
  br_content :: "jsval option"

record browser_answer =
  ba_status :: nat
  ba_json :: "jsval option"
  ba_text :: string

record client_error =
  ae_status :: nat
  ae_message :: jsval
  ae_code :: jsval
  ae_details :: "jsval list"

datatype body_type = JsonBody | XmlBody
datatype response_type = JsonAnswer | TextAnswer

datatype client_result = ClientValue jsval | ClientFailed client_error | ClientThrew

definition request_headers :: "string option \<Rightarrow> (string \<times> string) list \<Rightarrow> body_type \<Rightarrow> jsval option \<Rightarrow> (string \<times> string) list" where
  "request_headers key extra bt body =
     (let base = fold (\<lambda>(k, v). AList.update k v) extra [(''X-Nexus-Console'', ''1'')];
          keyed = (if truthy key then AList.update ''Authorization'' (''Bearer '' @ the key) base else base)
      in if body = None then keyed
         else AList.update ''Content-Type'' (case bt of XmlBody \<Rightarrow> ''application/xml'' | JsonBody \<Rightarrow> ''application/json'') keyed)"

definition request_failed :: "nat \<Rightarrow> string" where
  "request_failed status = ''Request failed ('' @ decimal status @ '')''"

text \<open>The problems an answer lists; a member of the wrong kind makes the reading throw, which \<open>toApiError\<close> catches.\<close>

fun detail_line :: "jsval \<Rightarrow> jsval list" where
  "detail_line (JString x) = [JString x]"
| "detail_line (JObject ms) = (case map_of ms ''message'' of Some (JString x) \<Rightarrow> [JString x] | _ \<Rightarrow> [])"
| "detail_line _ = []"

definition optional_member :: "jsval \<Rightarrow> string \<Rightarrow> engine_error + jsval" where
  "optional_member v k = (if v = JUndefined \<or> v = JNull then Inr JUndefined else property v k)"

fun field_lines :: "(rat \<Rightarrow> string) \<Rightarrow> (string \<times> jsval) list \<Rightarrow> engine_error + jsval list" where
  "field_lines num [] = Inr []"
| "field_lines num ((k, JArray xs) # ms) =
     sbind (field_lines num ms) (\<lambda>ls. Inr (map (\<lambda>x. JString (k @ '': '' @ js_string num x)) xs @ ls))"
| "field_lines num ((k, v) # ms) = Inl TypeFault"

text \<open>\<open>Object.entries\<close> of an object or of a missing value; other values have no entries the server sends.\<close>

fun entries_of :: "jsval \<Rightarrow> (string \<times> jsval) list" where
  "entries_of (JObject ms) = ms"
| "entries_of _ = []"

definition problemsOf :: "(rat \<Rightarrow> string) \<Rightarrow> jsval \<Rightarrow> engine_error + jsval list" where
  "problemsOf num body =
     sbind (property body ''details'') (\<lambda>details.
     sbind (property body ''issues'') (\<lambda>issues.
     sbind (optional_member issues ''formErrors'') (\<lambda>form.
     sbind (if form = JUndefined \<or> form = JNull then Inr [] else iterate form) (\<lambda>forms.
     sbind (optional_member issues ''fieldErrors'') (\<lambda>field.
     sbind (field_lines num (entries_of field)) (\<lambda>lines.
       Inr ((case details of JArray xs \<Rightarrow> concat (map detail_line xs) | _ \<Rightarrow> []) @ forms @ lines)))))))"

definition toApiError :: "(rat \<Rightarrow> string) \<Rightarrow> browser_answer \<Rightarrow> client_error" where
  "toApiError num r =
     (let plain = \<lparr>ae_status = ba_status r, ae_message = JString (request_failed (ba_status r)), ae_code = JUndefined, ae_details = []\<rparr> in
      case ba_json r of
        None \<Rightarrow> plain
      | Some body \<Rightarrow>
          (case problemsOf num body of
             Inl e \<Rightarrow> plain
           | Inr details \<Rightarrow>
               (case (property body ''message'', property body ''error'') of
                  (Inr m, Inr code) \<Rightarrow>
                    plain\<lparr>ae_message := nullish_or m (nullish_or (case details of d # ds \<Rightarrow> d | [] \<Rightarrow> JUndefined) (ae_message plain)),
                      ae_code := code, ae_details := details\<rparr>
                | _ \<Rightarrow> plain)))"

definition is_ok_status :: "nat \<Rightarrow> bool" where
  "is_ok_status n \<longleftrightarrow> 200 \<le> n \<and> n \<le> 299"

text \<open>The request that is sent, and what the caller gets; the flag says whether \<open>onUnauthorized\<close> is called.\<close>

definition browser_request_of :: "string option \<Rightarrow> (string \<times> string) list \<Rightarrow> string \<Rightarrow> string \<Rightarrow> jsval option \<Rightarrow> body_type \<Rightarrow> browser_request" where
  "browser_request_of key extra meth path body bt =
     \<lparr>br_method = meth, br_path = path, br_headers = request_headers key extra bt body, br_content = body\<rparr>"

definition read_answer :: "(rat \<Rightarrow> string) \<Rightarrow> bool \<Rightarrow> response_type \<Rightarrow> browser_answer option \<Rightarrow> client_result \<times> bool" where
  "read_answer num authenticated rt answer =
     (case answer of
        None \<Rightarrow> (ClientFailed \<lparr>ae_status = 0, ae_message = JString ''Could not reach the workflow API. Is nexus-workflow-app running?'',
                  ae_code = JUndefined, ae_details = []\<rparr>, False)
      | Some r \<Rightarrow>
          if \<not> is_ok_status (ba_status r) then (ClientFailed (toApiError num r), ba_status r = 401 \<and> authenticated)
          else if ba_status r = 204 then (ClientValue JUndefined, False)
          else (case rt of
                  TextAnswer \<Rightarrow> (ClientValue (JString (ba_text r)), False)
                | JsonAnswer \<Rightarrow> (case ba_json r of Some v \<Rightarrow> (ClientValue v, False) | None \<Rightarrow> (ClientThrew, False))))"

text \<open>\<open>me\<close>: no session is an answer.\<close>

definition read_me :: "(rat \<Rightarrow> string) \<Rightarrow> browser_answer option \<Rightarrow> client_result" where
  "read_me num answer =
     (case fst (read_answer num False JsonAnswer answer) of
        ClientFailed e \<Rightarrow> if ae_status e = 401 then ClientValue JNull else ClientFailed e
      | r \<Rightarrow> r)"

text \<open>The key that is tried to sign in with: a refusal is told in other words.\<close>

definition key_tried :: "client_result \<Rightarrow> client_result" where
  "key_tried r =
     (case r of
        ClientFailed e \<Rightarrow>
          if ae_status e = 403 then ClientFailed \<lparr>ae_status = 403,
            ae_message = JString ''The key was rejected. Use a current operator key, or the admin key (ADMIN_API_KEY of the server).'',
            ae_code = JString ''FORBIDDEN'', ae_details = []\<rparr>
          else r
      | _ \<Rightarrow> r)"

section \<open>Lists\<close>

datatype sort_value = NoSortValue | SortText string | SortNumber rat

definition empty_value :: "sort_value \<Rightarrow> bool" where
  "empty_value v \<longleftrightarrow> v = NoSortValue \<or> v = SortText []"

fun value_text :: "(rat \<Rightarrow> string) \<Rightarrow> sort_value \<Rightarrow> string" where
  "value_text num (SortText x) = x"
| "value_text num (SortNumber q) = num q"
| "value_text num NoSortValue = ''null''"

text \<open>\<open>collator\<close> is \<open>Intl.Collator.compare\<close>; the direction is \<open>True\<close> for ascending.\<close>

fun value_order :: "(string \<Rightarrow> string \<Rightarrow> rat) \<Rightarrow> (rat \<Rightarrow> string) \<Rightarrow> sort_value \<Rightarrow> sort_value \<Rightarrow> rat" where
  "value_order collator num (SortNumber x) (SortNumber y) = x - y"
| "value_order collator num v w = collator (value_text num v) (value_text num w)"

definition compare_values :: "(string \<Rightarrow> string \<Rightarrow> rat) \<Rightarrow> (rat \<Rightarrow> string) \<Rightarrow> bool \<Rightarrow> sort_value \<Rightarrow> sort_value \<Rightarrow> rat" where
  "compare_values collator num asc v w =
     (if empty_value v \<or> empty_value w then (if empty_value v = empty_value w then 0 else if empty_value v then 1 else -1)
      else if asc then value_order collator num v w else - value_order collator num v w)"

text \<open>\<open>Array.prototype.sort\<close> with a comparison; the sort of the language is stable.\<close>

fun insert_by :: "('a \<Rightarrow> 'a \<Rightarrow> rat) \<Rightarrow> 'a \<Rightarrow> 'a list \<Rightarrow> 'a list" where
  "insert_by cmp x [] = [x]"
| "insert_by cmp x (y # ys) = (if cmp x y \<le> 0 then x # y # ys else y # insert_by cmp x ys)"

fun sort_with :: "('a \<Rightarrow> 'a \<Rightarrow> rat) \<Rightarrow> 'a list \<Rightarrow> 'a list" where
  "sort_with cmp [] = []"
| "sort_with cmp (x # xs) = insert_by cmp x (sort_with cmp xs)"

text \<open>\<open>a || b\<close> on the two comparisons: of the values, then of the places.\<close>

definition row_order :: "('a \<Rightarrow> 'a \<Rightarrow> rat) \<Rightarrow> 'a \<times> nat \<Rightarrow> 'a \<times> nat \<Rightarrow> rat" where
  "row_order cmp p q = (if cmp (fst p) (fst q) \<noteq> 0 then cmp (fst p) (fst q) else of_nat (snd p) - of_nat (snd q))"

record list_sort =
  so_key :: string
  so_ascending :: bool

definition matching_rows :: "string \<Rightarrow> ('a \<Rightarrow> string) \<Rightarrow> 'a list \<Rightarrow> 'a list" where
  "matching_rows query searchText rows =
     (let needle = js_lower (js_trim query) in
      if needle = [] then rows else filter (\<lambda>r. contains_text needle (js_lower (searchText r))) rows)"

definition filterAndSort ::
  "(string \<Rightarrow> string \<Rightarrow> rat) \<Rightarrow> (rat \<Rightarrow> string) \<Rightarrow> 'a list \<Rightarrow> string \<Rightarrow> ('a \<Rightarrow> string) \<Rightarrow> list_sort option \<Rightarrow>
     (string \<times> ('a \<Rightarrow> sort_value)) list \<Rightarrow> 'a list" where
  "filterAndSort collator num rows query searchText srt sortValues =
     (let matching = matching_rows query searchText rows in
      case srt of
        None \<Rightarrow> matching
      | Some s \<Rightarrow>
          (case map_of sortValues (so_key s) of
             None \<Rightarrow> matching
           | Some valueOf \<Rightarrow>
               map fst (sort_with (row_order (\<lambda>x y. compare_values collator num (so_ascending s) (valueOf x) (valueOf y)))
                 (zip matching [0..<length matching]))))"

text \<open>The state of a list on the screen, and the operations on it.\<close>

record list_view =
  lv_query :: string
  lv_sort :: "list_sort option"
  lv_page :: nat
  lv_pageSize :: nat

definition PAGE_SIZES :: "nat list" where
  "PAGE_SIZES = [10, 20, 50, 100]"

definition opened_view :: "list_sort option \<Rightarrow> nat option \<Rightarrow> list_view" where
  "opened_view defaultSort initialPageSize =
     \<lparr>lv_query = [], lv_sort = defaultSort, lv_page = 0, lv_pageSize = (case initialPageSize of Some n \<Rightarrow> n | None \<Rightarrow> 20)\<rparr>"

definition setQuery :: "string \<Rightarrow> list_view \<Rightarrow> list_view" where
  "setQuery q v = v\<lparr>lv_query := q, lv_page := 0\<rparr>"

definition setPageSize :: "nat \<Rightarrow> list_view \<Rightarrow> list_view" where
  "setPageSize n v = v\<lparr>lv_pageSize := n, lv_page := 0\<rparr>"

definition setPage :: "nat \<Rightarrow> list_view \<Rightarrow> list_view" where
  "setPage n v = v\<lparr>lv_page := n\<rparr>"

definition toggleSort :: "string \<Rightarrow> list_view \<Rightarrow> list_view" where
  "toggleSort key v =
     v\<lparr>lv_sort := Some (case lv_sort v of
         Some s \<Rightarrow> if so_key s = key then \<lparr>so_key = key, so_ascending = \<not> so_ascending s\<rparr> else \<lparr>so_key = key, so_ascending = True\<rparr>
       | None \<Rightarrow> \<lparr>so_key = key, so_ascending = True\<rparr>), lv_page := 0\<rparr>"

text \<open>The last page, the page that is shown, and its rows.\<close>

definition last_page :: "nat \<Rightarrow> nat \<Rightarrow> nat" where
  "last_page n pageSize = (n + pageSize - 1) div pageSize - 1"

definition current_page :: "list_view \<Rightarrow> nat \<Rightarrow> nat" where
  "current_page v n = min (lv_page v) (last_page n (lv_pageSize v))"

definition page_rows :: "nat \<Rightarrow> nat \<Rightarrow> 'a list \<Rightarrow> 'a list" where
  "page_rows page pageSize matching = take pageSize (drop (page * pageSize) matching)"

definition shown_rows :: "list_view \<Rightarrow> 'a list \<Rightarrow> 'a list" where
  "shown_rows v matching = page_rows (current_page v (length matching)) (lv_pageSize v) matching"

section \<open>Marks on a diagram\<close>

record instance_event =
  vt_type :: string
  vt_data :: "(string \<times> jsval) list"

definition text_member :: "(string \<times> jsval) list \<Rightarrow> string \<Rightarrow> string option" where
  "text_member d k = (case map_of d k of Some (JString x) \<Rightarrow> (if x = [] then None else Some x) | _ \<Rightarrow> None)"

record progress =
  pg_active :: "string list"
  pg_finished :: "string list"
  pg_error :: "string list"

text \<open>Adding to a \<open>Set\<close>.\<close>

definition add_member :: "string option \<Rightarrow> string list \<Rightarrow> string list" where
  "add_member x xs = (case x of Some e \<Rightarrow> if e \<in> set xs then xs else xs @ [e] | None \<Rightarrow> xs)"

definition progressMarks :: "instance_event list \<Rightarrow> token list \<Rightarrow> progress" where
  "progressMarks events tokens =
     (let active = as_set (map tk_elementId tokens);
          (departed, failed) = fold (\<lambda>e (l, f).
            (if vt_type e = ''TokenMoved'' then add_member (text_member (vt_data e) ''fromElementId'') l else l,
             if vt_type e = ''TokenCancelled'' \<or> vt_type e = ''ServiceTaskFailed'' then add_member (text_member (vt_data e) ''elementId'') f else f))
            events ([], [])
      in \<lparr>pg_active = active, pg_finished = filter (\<lambda>i. i \<notin> set active \<and> i \<notin> set failed) departed, pg_error = failed\<rparr>)"

definition historyMarks :: "history_entry list \<Rightarrow> token list \<Rightarrow> progress" where
  "historyMarks entries tokens =
     (let active = as_set (map tk_elementId tokens);
          failed = as_set (map he_elementId (filter (\<lambda>e. he_status e \<noteq> HCompleted) entries));
          passed = as_set (map he_elementId (filter (\<lambda>e. he_status e = HCompleted) entries))
      in \<lparr>pg_active = active, pg_finished = filter (\<lambda>i. i \<notin> set active \<and> i \<notin> set failed) passed, pg_error = failed\<rparr>)"

definition describeInstanceError :: "string option \<Rightarrow> string option \<Rightarrow> string option \<Rightarrow> string" where
  "describeInstanceError code message elementId =
     (let said = filter truthy [code, message];
          what = (case said of [] \<Rightarrow> [] | [x] \<Rightarrow> the x | x # y # zs \<Rightarrow> the x @ '': '' @ the y)
      in (if what = [] then ''An error'' else what) @
         (if truthy elementId then '' ('' @ js_trim ('' at '' @ the elementId) @ '')'' else []))"

section \<open>The inputs of a start\<close>

datatype start_input_type = TextInput | NumberInput | TruthInput

record start_input =
  sn_name :: string
  sn_type :: "start_input_type option"

fun PLACEHOLDERS :: "start_input_type \<Rightarrow> jsval" where
  "PLACEHOLDERS TextInput = JString []"
| "PLACEHOLDERS NumberInput = JNumber (Finite 0)"
| "PLACEHOLDERS TruthInput = JBool False"

definition startInputsOf :: "string \<Rightarrow> (string \<times> start_input list option) list \<Rightarrow> start_input list" where
  "startInputsOf startEventId elements =
     (case map_of elements startEventId of Some (Some inputs) \<Rightarrow> inputs | _ \<Rightarrow> [])"

text \<open>The object whose text is put in the box; \<open>None\<close> is an empty box.\<close>

definition buildStartTemplate :: "start_input list \<Rightarrow> jsval option" where
  "buildStartTemplate inputs =
     (if inputs = [] then None
      else Some (JObject (fold (\<lambda>i. AList.update (sn_name i) (PLACEHOLDERS (case sn_type i of Some t \<Rightarrow> t | None \<Rightarrow> TextInput))) inputs [])))"

text \<open>\<open>Inr None\<close> is no object, \<open>Inl\<close> a text that is no object.\<close>

definition parseJsonObject :: "(string \<Rightarrow> jsval option) \<Rightarrow> string \<Rightarrow> unit + (string \<times> jsval) list option" where
  "parseJsonObject json_parse text =
     (if js_trim text = [] then Inr None
      else (case json_parse text of Some (JObject ms) \<Rightarrow> Inr (Some ms) | _ \<Rightarrow> Inl ()))"

section \<open>A key lives with its session\<close>

definition auth_sound :: "console_auth \<Rightarrow> bool" where
  "auth_sound a \<longleftrightarrow> ca_stored a = ca_key a \<and> (ca_session a = Some KeySession \<longleftrightarrow> truthy (ca_key a))"

fun real_key :: "auth_happening \<Rightarrow> bool" where
  "real_key (KeyAccepted key) \<longleftrightarrow> key \<noteq> []"
| "real_key h \<longleftrightarrow> True"

lemma step_keeps_sound: "auth_sound a \<Longrightarrow> real_key h \<Longrightarrow> auth_sound (auth_step True h a)"
  by (cases h) (auto simp: auth_sound_def hold_def split: option.splits)

lemma sound_run: "auth_sound a \<Longrightarrow> list_all real_key hs \<Longrightarrow> auth_sound (fold (auth_step True) hs a)"
  by (induction hs arbitrary: a) (simp_all add: step_keeps_sound)

lemma header_key: "map_of (request_headers key [] bt body) ''Authorization'' = (if truthy key then Some (''Bearer '' @ the key) else None)"
  by (cases bt) (simp_all add: request_headers_def update_conv' Let_def)

text \<open>
  Whatever happens, in a tab that can store: the tab keeps exactly the key in use, there is one only while the session is
  one of a key, and then it is what a request is sent with; after a session of a person, a sign-out or a refusal none is left.
\<close>

theorem keys_live_with_their_session:
  assumes "list_all real_key hs" "a = fold (auth_step True) hs (console_opened stored)"
  shows "ca_stored a = ca_key a \<and>
    map_of (request_headers (ca_key a) [] bt body) ''Authorization'' =
      (if ca_session a = Some KeySession then Some (''Bearer '' @ the (ca_key a)) else None)"
proof -
  have "auth_sound (console_opened stored)" by (simp add: auth_sound_def console_opened_def)
  from sound_run[OF this assms(1)] have "auth_sound a" by (simp add: assms(2))
  then show ?thesis by (simp add: auth_sound_def header_key)
qed

text \<open>
  A refusal is not tied to the session its request was sent in: the late answer to a request made with a key that was
  revoked ends the session of the person who has signed in since.
\<close>

theorem late_refusals_end_new_sessions:
  "let a = fold (auth_step True) [Asked None, KeyAccepted key, SignedOut, SignedInAs u ms] (console_opened None) in
     ca_session a = Some (PersonSession u ms) \<and>
     ca_session (auth_step True NotAccepted a) = None \<and> ca_reason (auth_step True NotAccepted a) = Some EXPIRED_SESSION_MESSAGE"
  by (simp add: console_opened_def hold_def)

text \<open>The header the server asks of a request with a cookie is on every request, for a tenant or not.\<close>

lemma console_header_is_sent:
  "map_of (request_headers key [] bt body) ''X-Nexus-Console'' = Some ''1'' \<and>
   map_of (request_headers key [(''X-Tenant'', i)] bt body) ''X-Nexus-Console'' = Some ''1''"
  by (cases bt) (simp_all add: request_headers_def update_conv' Let_def)

section \<open>A list is the same rows in order, page by page\<close>

text \<open>A comparison that orders the values of a set.\<close>

definition orders :: "('a \<Rightarrow> 'a \<Rightarrow> rat) \<Rightarrow> 'a set \<Rightarrow> bool" where
  "orders cmp A \<longleftrightarrow>
     (\<forall>x\<in>A. \<forall>y\<in>A. cmp x y \<le> 0 \<longleftrightarrow> 0 \<le> cmp y x) \<and>
     (\<forall>x\<in>A. \<forall>y\<in>A. \<forall>z\<in>A. cmp x y \<le> 0 \<longrightarrow> cmp y z \<le> 0 \<longrightarrow> cmp x z \<le> 0)"

lemma orders_flip: "orders cmp A \<Longrightarrow> x \<in> A \<Longrightarrow> y \<in> A \<Longrightarrow> cmp x y \<le> 0 \<longleftrightarrow> 0 \<le> cmp y x"
  by (simp add: orders_def)

lemma orders_trans: "orders cmp A \<Longrightarrow> x \<in> A \<Longrightarrow> y \<in> A \<Longrightarrow> z \<in> A \<Longrightarrow> cmp x y \<le> 0 \<Longrightarrow> cmp y z \<le> 0 \<Longrightarrow> cmp x z \<le> 0"
  unfolding orders_def by blast

lemma orders_total: "orders cmp A \<Longrightarrow> x \<in> A \<Longrightarrow> y \<in> A \<Longrightarrow> \<not> cmp x y \<le> 0 \<Longrightarrow> cmp y x \<le> 0"
  using orders_flip[of cmp A y x] by simp

lemma mset_insert_by [simp]: "mset (insert_by cmp x ys) = add_mset x (mset ys)"
  by (induction ys) auto

lemma mset_sort_with [simp]: "mset (sort_with cmp xs) = mset xs"
  by (induction xs) simp_all

lemma set_insert_by [simp]: "set (insert_by cmp x ys) = insert x (set ys)"
  by (induction ys) auto

lemma set_sort_with [simp]: "set (sort_with cmp xs) = set xs"
  by (induction xs) simp_all

lemma sorted_insert_by:
  assumes "orders cmp A" "insert x (set ys) \<subseteq> A" "sorted_wrt (\<lambda>p q. cmp p q \<le> 0) ys"
  shows "sorted_wrt (\<lambda>p q. cmp p q \<le> 0) (insert_by cmp x ys)"
  using assms(2,3)
proof (induction ys)
  case (Cons y ys)
  then have A: "x \<in> A" "y \<in> A" "set ys \<subseteq> A" by simp_all
  show ?case
  proof (cases "cmp x y \<le> 0")
    case True
    with Cons.prems(2) A show ?thesis by (auto intro: orders_trans[OF assms(1) A(1,2)])
  next
    case False
    then have "cmp y x \<le> 0" by (rule orders_total[OF assms(1) A(1,2)])
    with False Cons show ?thesis by auto
  qed
qed simp

lemma sorted_sort_with: "orders cmp A \<Longrightarrow> set xs \<subseteq> A \<Longrightarrow> sorted_wrt (\<lambda>p q. cmp p q \<le> 0) (sort_with cmp xs)"
  by (induction xs) (simp_all add: sorted_insert_by)

text \<open>Rows that compare as equal to a given one keep their order.\<close>

lemma filter_insert_by:
  assumes "orders cmp A" "insert x (insert v (set ys)) \<subseteq> A"
  shows "filter (\<lambda>r. cmp r v = 0) (insert_by cmp x ys) = filter (\<lambda>r. cmp r v = 0) (x # ys)"
  using assms(2)
proof (induction ys)
  case (Cons y ys)
  then have A: "x \<in> A" "y \<in> A" "v \<in> A" by simp_all
  have "cmp x y \<le> 0" if "cmp x v = 0" "cmp y v = 0"
  proof -
    have "cmp v y \<le> 0" using that(2) orders_flip[OF assms(1) A(3,2)] by simp
    with that(1) orders_trans[OF assms(1) A(1,3,2)] show ?thesis by simp
  qed
  with Cons show ?case by auto
qed simp

lemma filter_sort_with:
  "orders cmp A \<Longrightarrow> insert v (set xs) \<subseteq> A \<Longrightarrow> filter (\<lambda>r. cmp r v = 0) (sort_with cmp xs) = filter (\<lambda>r. cmp r v = 0) xs"
  by (induction xs) (simp_all add: filter_insert_by)

text \<open>The places break no tie that the sort would not break itself.\<close>

lemma fst_insert_by:
  "\<forall>q \<in> set qs. i < snd q \<Longrightarrow> map fst (insert_by (row_order cmp) (x, i) qs) = insert_by cmp x (map fst qs)"
proof (induction qs)
  case (Cons q qs)
  then have "row_order cmp (x, i) q \<le> 0 \<longleftrightarrow> cmp x (fst q) \<le> 0" by (auto simp: row_order_def)
  with Cons show ?case by simp
qed simp

lemma places_break_no_tie: "map fst (sort_with (row_order cmp) (zip xs [k..<k + length xs])) = sort_with cmp xs"
proof (induction xs arbitrary: k)
  case (Cons x xs)
  have "zip (x # xs) [k..<k + length (x # xs)] = (x, k) # zip xs [Suc k..<Suc k + length xs]"
    by (simp add: upt_conv_Cons del: upt_Suc)
  moreover have "\<forall>q \<in> set (sort_with (row_order cmp) (zip xs [Suc k..<Suc k + length xs])). k < snd q"
    by (auto simp del: upt_Suc dest!: set_zip_rightD)
  ultimately show ?case using fst_insert_by[of _ k cmp x] Cons.IH[of "Suc k"] by simp
qed simp

text \<open>What the code relies on of \<open>Intl.Collator\<close>: it orders all texts.\<close>

definition collator_orders :: "(string \<Rightarrow> string \<Rightarrow> rat) \<Rightarrow> bool" where
  "collator_orders collator \<longleftrightarrow> orders collator UNIV"

definition same_kind :: "sort_value set \<Rightarrow> bool" where
  "same_kind A \<longleftrightarrow> (\<forall>v\<in>A. \<exists>x. v = SortNumber x \<or> empty_value v) \<or> (\<forall>v\<in>A. \<exists>x. v = SortText x \<or> v = NoSortValue)"

lemma orders_image:
  assumes "orders cmp UNIV" "\<And>v. v \<in> A \<Longrightarrow> \<exists>x. v = f x" "\<And>x y. g (f x) (f y) = cmp x y"
  shows "orders g A"
  unfolding orders_def
proof (intro conjI ballI impI)
  fix v w assume "v \<in> A" "w \<in> A"
  then obtain x y where "v = f x" "w = f y" using assms(2) by meson
  then show "g v w \<le> 0 \<longleftrightarrow> 0 \<le> g w v" by (simp add: assms(3) orders_flip[OF assms(1)])
next
  fix u v w assume "u \<in> A" "v \<in> A" "w \<in> A" and le: "g u v \<le> 0" "g v w \<le> 0"
  then obtain x y z where "u = f x" "v = f y" "w = f z" using assms(2) by meson
  with le show "g u w \<le> 0" using orders_trans[OF assms(1), of x y z] by (simp add: assms(3))
qed

lemma value_order_orders:
  assumes "collator_orders collator" "same_kind A"
  shows "orders (value_order collator num) {v \<in> A. \<not> empty_value v}"
  using assms(2) unfolding same_kind_def
proof
  assume "\<forall>v\<in>A. \<exists>x. v = SortNumber x \<or> empty_value v"
  moreover have "orders (\<lambda>x y. x - y) (UNIV :: rat set)" by (auto simp: orders_def)
  ultimately show ?thesis by (intro orders_image[where f = SortNumber and cmp = "\<lambda>x y. x - y"]) auto
next
  assume "\<forall>v\<in>A. \<exists>x. v = SortText x \<or> v = NoSortValue"
  with assms(1) show ?thesis
    by (intro orders_image[where f = SortText and cmp = collator]) (auto simp: collator_orders_def empty_value_def)
qed

text \<open>The direction and the empty values, which go last.\<close>

lemma orders_reversed: "orders cmp A \<Longrightarrow> orders (\<lambda>x y. - cmp x y) A"
  unfolding orders_def by (smt (verit) neg_0_le_iff_le neg_le_0_iff_le)

lemma compare_values_orders:
  assumes "collator_orders collator" "same_kind A"
  shows "orders (compare_values collator num asc) A"
proof -
  let ?B = "{v \<in> A. \<not> empty_value v}"
  let ?cmp = "\<lambda>v w. if asc then value_order collator num v w else - value_order collator num v w"
  from value_order_orders[OF assms] have B: "orders ?cmp ?B" by (cases asc) (simp_all add: orders_reversed)
  have here: "compare_values collator num asc v w = (if empty_value v \<or> empty_value w then
      (if empty_value v = empty_value w then 0 else if empty_value v then 1 else -1) else ?cmp v w)" for v w
    by (simp add: compare_values_def)
  show ?thesis unfolding orders_def
  proof (intro conjI ballI impI)
    fix v w assume "v \<in> A" "w \<in> A"
    then show "compare_values collator num asc v w \<le> 0 \<longleftrightarrow> 0 \<le> compare_values collator num asc w v"
      using orders_flip[OF B, of v w] unfolding here by auto
  next
    fix u v w assume "u \<in> A" "v \<in> A" "w \<in> A"
      and "compare_values collator num asc u v \<le> 0" "compare_values collator num asc v w \<le> 0"
    then show "compare_values collator num asc u w \<le> 0"
      using orders_trans[OF B, of u v w] unfolding here by (auto split: if_splits)
  qed
qed

lemma orders_by_value: "orders cmp (f ` A) \<Longrightarrow> orders (\<lambda>x y. cmp (f x) (f y)) A"
  unfolding orders_def by blast

text \<open>
  A column whose values are of one kind sorts a list: the rows are the matching ones, each as often, in the order of the column
  with the empty ones last in either direction, and rows the column does not tell apart stay in their order.
\<close>

theorem lists_are_sorted:
  fixes num :: "rat \<Rightarrow> string"
  assumes "collator_orders collator" "map_of sortValues (so_key s) = Some valueOf"
    "same_kind (valueOf ` set (matching_rows query searchText rows))"
  defines "cmp \<equiv> \<lambda>x y. compare_values collator num (so_ascending s) (valueOf x) (valueOf y)"
  defines "shown \<equiv> filterAndSort collator num rows query searchText (Some s) sortValues"
  shows "mset shown = mset (matching_rows query searchText rows) \<and>
    sorted_wrt (\<lambda>x y. cmp x y \<le> 0 \<and> (empty_value (valueOf x) \<longrightarrow> empty_value (valueOf y))) shown \<and>
    (\<forall>v \<in> set shown. filter (\<lambda>r. cmp r v = 0) shown = filter (\<lambda>r. cmp r v = 0) (matching_rows query searchText rows))"
proof -
  let ?m = "matching_rows query searchText rows"
  have shown: "shown = sort_with cmp ?m"
    using assms(2) places_break_no_tie[of cmp ?m 0] by (simp add: shown_def filterAndSort_def cmp_def Let_def)
  have o: "orders cmp (set ?m)"
    unfolding cmp_def by (rule orders_by_value[OF compare_values_orders[OF assms(1,3)]])
  have last: "empty_value (valueOf y)" if "cmp x y \<le> 0" "empty_value (valueOf x)" for x y
    using that by (simp add: cmp_def compare_values_def split: if_splits)
  have "sorted_wrt (\<lambda>x y. cmp x y \<le> 0 \<and> (empty_value (valueOf x) \<longrightarrow> empty_value (valueOf y))) shown"
    by (rule sorted_wrt_mono_rel[OF _ sorted_sort_with[OF o subset_refl, folded shown]]) (use last in blast)
  moreover have "filter (\<lambda>r. cmp r v = 0) shown = filter (\<lambda>r. cmp r v = 0) ?m" if "v \<in> set shown" for v
    using that filter_sort_with[OF o, of v ?m] by (simp add: shown)
  ultimately show ?thesis by (simp add: shown)
qed

lemma pages_concat: "concat (map (\<lambda>k. page_rows k n xs) [0..<m]) = take (m * n) xs"
proof (induction m)
  case (Suc m)
  have "take (Suc m * n) xs = take (m * n) xs @ take n (drop (m * n) xs)" by (simp add: take_add[symmetric] add.commute)
  with Suc show ?case by (simp add: page_rows_def)
qed simp

text \<open>
  The pages of a list are its rows: put one after the other, from the first to the last page, they are the whole list, and
  none is empty unless the list is; so what is shown is never an empty page of a list with rows, whatever page was
  asked for.
\<close>

theorem pages_are_the_list:
  assumes "0 < lv_pageSize v"
  shows "concat (map (\<lambda>k. page_rows k (lv_pageSize v) matching) [0..<Suc (last_page (length matching) (lv_pageSize v))]) = matching \<and>
    (shown_rows v matching = [] \<longleftrightarrow> matching = [])"
proof -
  let ?n = "lv_pageSize v" and ?l = "length matching"
  let ?k = "(?l + ?n - 1) div ?n"
  have up: "?l \<le> ?k * ?n"
    using assms div_mult_mod_eq[of "?l + ?n - 1" ?n] mod_less_divisor[of ?n "?l + ?n - 1"] by linarith
  have "?k * ?n \<le> ?l + ?n - 1" by (rule div_times_less_eq_dividend)
  have "?l \<le> Suc (last_page ?l ?n) * ?n"
    using up by (cases ?k) (simp_all add: last_page_def)
  then have whole: "concat (map (\<lambda>k. page_rows k ?n matching) [0..<Suc (last_page ?l ?n)]) = matching"
    unfolding pages_concat by simp
  have "last_page ?l ?n * ?n < ?l" if "matching \<noteq> []"
  proof (cases ?k)
    case 0
    with that show ?thesis by (simp add: last_page_def)
  next
    case (Suc m)
    have "?k * ?n = m * ?n + ?n" unfolding Suc by simp
    with \<open>?k * ?n \<le> ?l + ?n - 1\<close> have "m * ?n + ?n \<le> ?l + ?n - 1" by linarith
    with Suc assms show ?thesis by (simp add: last_page_def)
  qed
  moreover have "current_page v ?l * ?n \<le> last_page ?l ?n * ?n" by (simp add: current_page_def)
  ultimately have "current_page v ?l * ?n < ?l" if "matching \<noteq> []" using that by (rule_tac le_less_trans)
  then have "matching = [] \<or> current_page v ?l * ?n < ?l" by blast
  then have "shown_rows v matching = [] \<longleftrightarrow> matching = []"
  proof
    assume "current_page v ?l * ?n < ?l"
    then have "matching \<noteq> []" "drop (current_page v ?l * ?n) matching \<noteq> []" by auto
    with assms show ?thesis by (simp add: shown_rows_def page_rows_def)
  qed (simp add: shown_rows_def page_rows_def)
  with whole show ?thesis by blast
qed

section \<open>Marks are apart\<close>

lemma set_add_member: "set (add_member x xs) = (case x of Some e \<Rightarrow> insert e (set xs) | None \<Rightarrow> set xs)"
  by (auto simp: add_member_def split: option.splits)

text \<open>
  An element has one mark as finished, as current or as failed; only a current one may have failed too. With a history
  every element that was left is marked.
\<close>

theorem marks_are_apart:
  "set (pg_finished (progressMarks events tokens)) \<inter> (set (pg_active (progressMarks events tokens)) \<union> set (pg_error (progressMarks events tokens))) = {} \<and>
   set (pg_finished (historyMarks entries tokens)) \<inter> (set (pg_active (historyMarks entries tokens)) \<union> set (pg_error (historyMarks entries tokens))) = {} \<and>
   he_elementId ` set entries \<union> tk_elementId ` set tokens =
     set (pg_finished (historyMarks entries tokens)) \<union> set (pg_active (historyMarks entries tokens)) \<union> set (pg_error (historyMarks entries tokens))"
proof (intro conjI)
  show "he_elementId ` set entries \<union> tk_elementId ` set tokens =
     set (pg_finished (historyMarks entries tokens)) \<union> set (pg_active (historyMarks entries tokens)) \<union> set (pg_error (historyMarks entries tokens))"
    by (auto simp: historyMarks_def Let_def)
qed (auto simp: progressMarks_def historyMarks_def Let_def split: prod.split)

end
