(* ===== verification/Db_Setup.thy ===== *)
theory Db_Setup
  imports Platform_Api
begin

text \<open>
  How the database comes to its tables: the migrations of the platform (\<open>db/migrate.ts\<close> over \<open>db/migrations\<close>), those of each
  tenant's schema (\<open>db/tenantMigrations.ts\<close>, \<open>db/tenantProvisioner.ts\<close>), and the file the credentials made on the command
  line are written to (\<open>db/envFile.ts\<close>). What a platform migration does is kept as far as it makes, moves and drops
  public tables; what a tenant migration does to the tables is a function. A transaction that fails leaves nothing.
\<close>

section \<open>The platform's migrations\<close>

datatype ddl = CreateTable string | DropTable string | MoveTable string | CreateSchema string

definition MIGRATIONS :: "(string \<times> ddl list) list" where
  "MIGRATIONS =
    [(''001_initial_schema.sql'', map CreateTable [''definitions'', ''instances'', ''tokens'', ''variable_scopes'', ''user_tasks'', ''event_subscriptions'',
        ''gateway_join_states'', ''history_entries'', ''scheduled_timers'']),
     (''002_gateway_join_states_instance_idx.sql'', []),
     (''003_execution_events.sql'', [CreateTable ''execution_events'']),
     (''004_definition_source_xml.sql'', []),
     (''005_webhooks.sql'', [CreateTable ''webhook_registrations'']),
     (''006_compensation_records.sql'', [CreateTable ''compensation_records'']),
     (''007_tenant_registry.sql'', map CreateTable [''tenants'', ''api_keys'']),
     (''008_tenant_default.sql'', CreateSchema ''tenant_default'' # map MoveTable [''definitions'', ''instances'', ''tokens'', ''variable_scopes'',
        ''user_tasks'', ''event_subscriptions'', ''gateway_join_states'', ''history_entries'', ''scheduled_timers'', ''compensation_records'']),
     (''009_tenant_events_webhooks.sql'', map DropTable [''execution_events'', ''webhook_registrations'']),
     (''010_tenant_deleting_status.sql'', []),
     (''011_users.sql'', map CreateTable [''users'', ''memberships'', ''sessions'', ''invites'']),
     (''012_audit_log.sql'', [CreateTable ''audit_log'']),
     (''013_api_key_roles.sql'', []),
     (''014_operator_keys.sql'', [CreateTable ''operator_keys'']),
     (''015_system_admin_role.sql'', [])]"

text \<open>The public tables, the schemas, and the table of what was applied, which may not exist yet.\<close>

record platform_db =
  pm_tables :: "string list"
  pm_schemas :: "string list"
  pm_applied :: "string list option"

fun run_ddl :: "ddl \<Rightarrow> platform_db \<Rightarrow> platform_db option" where
  "run_ddl (CreateTable t) db = (if t \<in> set (pm_tables db) then None else Some (db\<lparr>pm_tables := pm_tables db @ [t]\<rparr>))"
| "run_ddl (DropTable t) db = (if t \<in> set (pm_tables db) then Some (db\<lparr>pm_tables := filter (\<lambda>x. x \<noteq> t) (pm_tables db)\<rparr>) else None)"
| "run_ddl (MoveTable t) db = (if t \<in> set (pm_tables db) then Some (db\<lparr>pm_tables := filter (\<lambda>x. x \<noteq> t) (pm_tables db)\<rparr>) else None)"
| "run_ddl (CreateSchema s) db = Some (if s \<in> set (pm_schemas db) then db else db\<lparr>pm_schemas := pm_schemas db @ [s]\<rparr>)"

fun run_file :: "ddl list \<Rightarrow> platform_db \<Rightarrow> platform_db option" where
  "run_file [] db = Some db"
| "run_file (d # ds) db = Option.bind (run_ddl d db) (run_file ds)"

definition applied_files :: "platform_db \<Rightarrow> string list" where
  "applied_files db = (case pm_applied db of Some fs \<Rightarrow> fs | None \<Rightarrow> [])"

text \<open>The flag says whether the run came to its end; the lock makes runs follow one another.\<close>

fun apply_files :: "(string \<times> ddl list) list \<Rightarrow> platform_db \<Rightarrow> bool \<times> platform_db" where
  "apply_files [] db = (True, db)"
| "apply_files ((f, ds) # ms) db =
     (if f \<in> set (applied_files db) then apply_files ms db
      else (case run_file ds db of
        None \<Rightarrow> (False, db)
      | Some db' \<Rightarrow> apply_files ms (db'\<lparr>pm_applied := Some (applied_files db @ [f])\<rparr>)))"

definition runMigrations :: "platform_db \<Rightarrow> bool \<times> platform_db" where
  "runMigrations db = apply_files MIGRATIONS (db\<lparr>pm_applied := Some (applied_files db)\<rparr>)"

text \<open>\<open>LIKE 'tenant_%'\<close>: the underscore stands for any character.\<close>

definition like_tenant :: "string \<Rightarrow> bool" where
  "like_tenant s \<longleftrightarrow> take 6 s = ''tenant'' \<and> 7 \<le> length s"

definition DROPPED_TABLES :: "string list" where
  "DROPPED_TABLES = [''execution_events'', ''webhook_registrations'', ''api_keys'', ''tenants'', ''schema_migrations'']"

definition resetDatabase :: "platform_db \<Rightarrow> bool \<times> platform_db" where
  "resetDatabase db =
     runMigrations \<lparr>pm_tables = filter (\<lambda>t. t \<notin> set DROPPED_TABLES) (pm_tables db),
       pm_schemas = filter (\<lambda>s. \<not> like_tenant s) (pm_schemas db), pm_applied = None\<rparr>"

section \<open>A tenant's migrations\<close>

text \<open>What one does to the tables, or the message it fails with.\<close>

record 'd tenant_migration =
  mg_version :: string
  mg_run :: "'d \<Rightarrow> string + 'd"

record 'd tenant_schema =
  tn_applied :: "string list"
  tn_tables :: 'd

definition VALID_SCHEMA :: "string \<Rightarrow> bool" where
  "VALID_SCHEMA s \<longleftrightarrow> take 7 s = ''tenant_'' \<and> VALID_TENANT_ID (drop 7 s)"

definition schemaName :: "string \<Rightarrow> string option" where
  "schemaName i = (if VALID_TENANT_ID i then Some (''tenant_'' @ i) else None)"

text \<open>One transaction: the schema is made if there is none, a migration that is not recorded is run and recorded.\<close>

definition migrate_one :: "'d \<Rightarrow> 'd tenant_migration \<Rightarrow> string \<Rightarrow> (string \<times> 'd tenant_schema) list \<Rightarrow> (string + bool) \<times> (string \<times> 'd tenant_schema) list" where
  "migrate_one fresh m name db =
     (let s = (case map_of db name of Some s \<Rightarrow> s | None \<Rightarrow> \<lparr>tn_applied = [], tn_tables = fresh\<rparr>) in
      if mg_version m \<in> set (tn_applied s) then (Inr False, AList.update name s db)
      else (case mg_run m (tn_tables s) of
        Inl e \<Rightarrow> (Inl (''tenant migration '' @ mg_version m @ '' failed: '' @ e), db)
      | Inr d \<Rightarrow> (Inr True, AList.update name \<lparr>tn_applied = tn_applied s @ [mg_version m], tn_tables = d\<rparr> db)))"

fun migrate_all :: "'d \<Rightarrow> 'd tenant_migration list \<Rightarrow> string \<Rightarrow> (string \<times> 'd tenant_schema) list \<Rightarrow> (string + string list) \<times> (string \<times> 'd tenant_schema) list" where
  "migrate_all fresh [] name db = (Inr [], db)"
| "migrate_all fresh (m # ms) name db =
     (case migrate_one fresh m name db of
        (Inl e, db') \<Rightarrow> (Inl e, db')
      | (Inr b, db') \<Rightarrow>
          (case migrate_all fresh ms name db' of
             (Inl e, db'') \<Rightarrow> (Inl e, db'')
           | (Inr vs, db'') \<Rightarrow> (Inr (if b then mg_version m # vs else vs), db'')))"

definition migrateTenantSchema :: "'d \<Rightarrow> 'd tenant_migration list \<Rightarrow> string \<Rightarrow> (string \<times> 'd tenant_schema) list \<Rightarrow> (string + string list) \<times> (string \<times> 'd tenant_schema) list" where
  "migrateTenantSchema fresh ms name db =
     (if \<not> VALID_SCHEMA name then (Inl (''Invalid tenant schema name: '' @ name), db) else migrate_all fresh ms name db)"

definition provisionTenantSchema :: "'d \<Rightarrow> 'd tenant_migration list \<Rightarrow> string \<Rightarrow> (string \<times> 'd tenant_schema) list \<Rightarrow> (string + string list) \<times> (string \<times> 'd tenant_schema) list" where
  "provisionTenantSchema fresh ms i db =
     (case schemaName i of None \<Rightarrow> (Inl (''Invalid tenantId: '' @ i), db) | Some n \<Rightarrow> migrateTenantSchema fresh ms n db)"

definition dropTenantSchema :: "string \<Rightarrow> (string \<times> 'd tenant_schema) list \<Rightarrow> bool \<times> (string \<times> 'd tenant_schema) list" where
  "dropTenantSchema i db = (case schemaName i of None \<Rightarrow> (False, db) | Some n \<Rightarrow> (True, AList.delete n db))"

text \<open>
  All tenants, in the order of their ids: those that are not being deleted and have a schema. The tenants that are behind are kept
  with their messages.
\<close>

record migrate_result =
  mr_upToDate :: "string list"
  mr_failed :: "(string \<times> string) list"

definition provisioned :: "(string \<times> bool) list \<Rightarrow> (string \<times> 'd tenant_schema) list \<Rightarrow> string list" where
  "provisioned tenants db = filter (\<lambda>i. map_of db (''tenant_'' @ i) \<noteq> None) (map fst (filter (\<lambda>(i, deleting). \<not> deleting) tenants))"

fun migrate_each ::
  "'d \<Rightarrow> 'd tenant_migration list \<Rightarrow> string list \<Rightarrow> migrate_result \<times> (string \<times> string) list \<times> (string \<times> 'd tenant_schema) list \<Rightarrow>
     migrate_result \<times> (string \<times> string) list \<times> (string \<times> 'd tenant_schema) list" where
  "migrate_each fresh ms [] st = st"
| "migrate_each fresh ms (i # is) (r, behind, db) =
     (case migrateTenantSchema fresh ms (''tenant_'' @ i) db of
        (Inr vs, db') \<Rightarrow> migrate_each fresh ms is (r\<lparr>mr_upToDate := mr_upToDate r @ [i]\<rparr>, AList.delete i behind, db')
      | (Inl e, db') \<Rightarrow> migrate_each fresh ms is (r\<lparr>mr_failed := mr_failed r @ [(i, e)]\<rparr>, AList.update i e behind, db'))"

definition migrateAllTenants ::
  "'d \<Rightarrow> 'd tenant_migration list \<Rightarrow> (string \<times> bool) list \<Rightarrow> (string \<times> string) list \<Rightarrow> (string \<times> 'd tenant_schema) list \<Rightarrow>
     migrate_result \<times> (string \<times> string) list \<times> (string \<times> 'd tenant_schema) list" where
  "migrateAllTenants fresh ms tenants behind db =
     migrate_each fresh ms (provisioned tenants db) (\<lparr>mr_upToDate = [], mr_failed = []\<rparr>, behind, db)"

definition isBehind :: "string \<Rightarrow> (string \<times> string) list \<Rightarrow> bool" where
  "isBehind i behind \<longleftrightarrow> map_of behind i \<noteq> None"

section \<open>The file of credentials\<close>

definition isValidEnvVarName :: "string \<Rightarrow> bool" where
  "isValidEnvVarName name \<longleftrightarrow> name \<noteq> [] \<and> \<not> digit (hd name) \<and> list_all (\<lambda>c. id_char c \<and> c \<noteq> CHR ''-'') name"

definition newline :: char where
  "newline = CHR 0x0A"

definition assigns :: "string \<Rightarrow> string \<Rightarrow> bool" where
  "assigns name l \<longleftrightarrow> take (Suc (length name)) l = name @ ''=''"

fun replace_first :: "('a \<Rightarrow> bool) \<Rightarrow> 'a \<Rightarrow> 'a list \<Rightarrow> 'a list" where
  "replace_first P y [] = [y]"
| "replace_first P y (x # xs) = (if P x then y # xs else x # replace_first P y xs)"

fun join_lines :: "string list \<Rightarrow> string" where
  "join_lines [] = []"
| "join_lines [x] = x"
| "join_lines (x # y # xs) = x @ newline # join_lines (y # xs)"

definition file_lines :: "string \<Rightarrow> string list" where
  "file_lines content =
     (if content = [] then []
      else split_on newline (if last content = newline then butlast content else content))"

definition env_line :: "string \<Rightarrow> string \<Rightarrow> string" where
  "env_line name val = name @ ''='' @ [CHR 0x22] @ val @ [CHR 0x22]"

definition upsertEnvVar :: "string \<Rightarrow> string \<Rightarrow> string \<Rightarrow> string option" where
  "upsertEnvVar content name val =
     (if \<not> isValidEnvVarName name then None
      else Some (join_lines (replace_first (assigns name) (env_line name val) (file_lines content)) @ [newline]))"

text \<open>A file is its text and its permissions.\<close>

definition writeEnvVarToFile :: "string \<Rightarrow> string \<Rightarrow> (string \<times> nat) option \<Rightarrow> (string \<times> nat) option" where
  "writeEnvVarToFile name val file =
     (case upsertEnvVar (case file of Some (t, m) \<Rightarrow> t | None \<Rightarrow> []) name val of
        None \<Rightarrow> file
      | Some t \<Rightarrow> Some (t, 384))"

section \<open>Resetting\<close>

text \<open>
  A fresh database gets all tables. Resetting it does not: the tables of people, of the audit log and of operator keys are not
  dropped, so the run that follows stops at the eleventh migration, with the schemas of all tenants gone.
\<close>

theorem reset_stops_halfway:
  "let full = runMigrations \<lparr>pm_tables = [], pm_schemas = [], pm_applied = None\<rparr> in
     fst full \<and> pm_applied (snd full) = Some (map fst MIGRATIONS) \<and>
     \<not> fst (resetDatabase (snd full)) \<and>
     pm_applied (snd (resetDatabase (snd full))) = Some (map fst (take 10 MIGRATIONS)) \<and>
     ''users'' \<in> set (pm_tables (snd (resetDatabase (snd full))))"
  by code_simp

text \<open>\<open>LIKE 'tenant_%'\<close> also names schemas that are no tenant's.\<close>

lemma like_tenant_is_wide: "like_tenant ''tenants_archive'' \<and> \<not> VALID_SCHEMA ''tenants_archive''"
  by code_simp

lemma files_once:
  assumes "apply_files ms db = (True, db')"
  shows "apply_files ms db' = (True, db') \<and> set (applied_files db) \<subseteq> set (applied_files db') \<and> fst ` set ms \<subseteq> set (applied_files db')"
  using assms
proof (induction ms arbitrary: db)
  case (Cons m ms)
  obtain f ds where m: "m = (f, ds)" by fastforce
  show ?case
  proof (cases "f \<in> set (applied_files db)")
    case True
    with Cons.prems have "apply_files ms db = (True, db')" by (simp add: m)
    from Cons.IH[OF this] True show ?thesis by (auto simp: m)
  next
    case False
    with Cons.prems obtain d where d: "apply_files ms (d\<lparr>pm_applied := Some (applied_files db @ [f])\<rparr>) = (True, db')"
      by (auto simp: m split: option.splits)
    from Cons.IH[OF d] show ?thesis by (auto simp: m applied_files_def)
  qed
qed simp

text \<open>Running the migrations again when they have all been applied changes nothing.\<close>

theorem migrations_run_once:
  "runMigrations db = (True, db') \<Longrightarrow> runMigrations db' = (True, db')"
proof -
  assume run: "runMigrations db = (True, db')"
  have kept: "pm_applied (snd (apply_files ms d)) \<noteq> None" if "pm_applied d \<noteq> None" for ms d
    using that by (induction ms d rule: apply_files.induct) (auto split: option.splits)
  from kept[of "db\<lparr>pm_applied := Some (applied_files db)\<rparr>" MIGRATIONS] run
  have "pm_applied db' \<noteq> None" by (simp add: runMigrations_def)
  then have "db'\<lparr>pm_applied := Some (applied_files db')\<rparr> = db'" by (cases db') (auto simp: applied_files_def)
  with run files_once show ?thesis by (fastforce simp: runMigrations_def)
qed

section \<open>Every tenant ends with the same tables\<close>

text \<open>The tables a list of migrations makes of a fresh schema.\<close>

fun replay :: "'d tenant_migration list \<Rightarrow> 'd \<Rightarrow> string + 'd" where
  "replay [] d = Inr d"
| "replay (m # ms) d = (case mg_run m d of Inl e \<Rightarrow> Inl e | Inr d' \<Rightarrow> replay ms d')"

lemma replay_snoc: "replay (ms @ [m]) d = (case replay ms d of Inl e \<Rightarrow> Inl e | Inr d' \<Rightarrow> mg_run m d')"
  by (induction ms arbitrary: d) (auto split: sum.splits)

text \<open>A schema stands at the \<open>k\<close>-th migration: the first \<open>k\<close> are recorded, and its tables are what they make.\<close>

definition stands_at :: "'d \<Rightarrow> 'd tenant_migration list \<Rightarrow> nat \<Rightarrow> 'd tenant_schema \<Rightarrow> bool" where
  "stands_at fresh ms k s \<longleftrightarrow>
     k \<le> length ms \<and> tn_applied s = map mg_version (take k ms) \<and> replay (take k ms) fresh = Inr (tn_tables s)"

definition schema_of :: "'d \<Rightarrow> string \<Rightarrow> (string \<times> 'd tenant_schema) list \<Rightarrow> 'd tenant_schema" where
  "schema_of fresh name db = (case map_of db name of Some s \<Rightarrow> s | None \<Rightarrow> \<lparr>tn_applied = [], tn_tables = fresh\<rparr>)"

lemma new_schema_stands: "map_of db name = None \<Longrightarrow> stands_at fresh ms 0 (schema_of fresh name db)"
  by (simp add: stands_at_def schema_of_def)

lemma recorded_iff:
  assumes "stands_at fresh ms k s" "distinct (map mg_version ms)" "j < length ms"
  shows "mg_version (ms ! j) \<in> set (tn_applied s) \<longleftrightarrow> j < k"
proof -
  let ?vs = "map mg_version ms"
  have "mg_version (ms ! j) \<in> set (tn_applied s) \<longleftrightarrow> ?vs ! j \<in> set (take k ?vs)"
    using assms(1,3) by (simp add: stands_at_def take_map)
  also have "\<dots> \<longleftrightarrow> j < k"
    using assms(1,2,3) nth_eq_iff_index_eq[OF assms(2)] by (auto simp: in_set_conv_nth stands_at_def)
  finally show ?thesis .
qed

text \<open>
  One transaction at a place up to which everything is recorded: it moves the schema on by one migration or not at all, and leaves the
  other schemas alone.
\<close>

lemma one_migration:
  assumes "stands_at fresh ms k (schema_of fresh name db)" "distinct (map mg_version ms)" "j \<le> k" "j < length ms"
    "migrate_one fresh (ms ! j) name db = (r, db')"
  shows "(case r of
       Inr b \<Rightarrow> stands_at fresh ms (if b then Suc k else k) (schema_of fresh name db') \<and> (b \<longleftrightarrow> j = k)
     | Inl e \<Rightarrow> db' = db \<and> j = k \<and> (\<exists>e'. mg_run (ms ! k) (tn_tables (schema_of fresh name db)) = Inl e')) \<and>
    (\<forall>n. n \<noteq> name \<longrightarrow> map_of db' n = map_of db n)"
proof -
  let ?s = "schema_of fresh name db"
  have iff: "mg_version (ms ! j) \<in> set (tn_applied ?s) \<longleftrightarrow> j < k" by (rule recorded_iff[OF assms(1,2,4)])
  show ?thesis
  proof (cases "j < k")
    case True
    with iff assms(5) have "r = Inr False" "db' = AList.update name ?s db"
      by (simp_all add: migrate_one_def schema_of_def Let_def)
    with assms(1) True show ?thesis by (simp add: schema_of_def update_conv')
  next
    case False
    with assms(3) have j: "j = k" by simp
    show ?thesis
    proof (cases "mg_run (ms ! k) (tn_tables ?s)")
      case (Inl e)
      with iff assms(5) j show ?thesis by (auto simp: migrate_one_def schema_of_def Let_def)
    next
      case (Inr d)
      with iff assms(5) j have "r = Inr True"
        "db' = AList.update name \<lparr>tn_applied = tn_applied ?s @ [mg_version (ms ! k)], tn_tables = d\<rparr> db"
        by (simp_all add: migrate_one_def schema_of_def Let_def)
      moreover have "stands_at fresh ms (Suc k) \<lparr>tn_applied = tn_applied ?s @ [mg_version (ms ! k)], tn_tables = d\<rparr>"
        using assms(1,4) Inr j by (simp add: stands_at_def take_Suc_conv_app_nth replay_snoc)
      ultimately show ?thesis using j by (simp add: schema_of_def update_conv')
    qed
  qed
qed

text \<open>
  Runners, as many as there are replicas, each at a place of the list, one transaction of one of them at a time: a transaction
  that succeeds moves its runner on, one that fails does not.
\<close>

inductive migrating :: "'d \<Rightarrow> 'd tenant_migration list \<Rightarrow> string \<Rightarrow> (string \<times> 'd tenant_schema) list \<Rightarrow> (nat \<Rightarrow> nat) \<Rightarrow> (string \<times> 'd tenant_schema) list \<Rightarrow> bool"
  for fresh ms name db\<^sub>0 where
  migrating_start: "migrating fresh ms name db\<^sub>0 (\<lambda>_. 0) db\<^sub>0"
| migrating_on: "migrating fresh ms name db\<^sub>0 at_place db \<Longrightarrow> at_place i < length ms \<Longrightarrow>
    migrate_one fresh (ms ! at_place i) name db = (Inr b, db') \<Longrightarrow> migrating fresh ms name db\<^sub>0 (at_place(i := Suc (at_place i))) db'"
| migrating_failed: "migrating fresh ms name db\<^sub>0 at_place db \<Longrightarrow> at_place i < length ms \<Longrightarrow>
    migrate_one fresh (ms ! at_place i) name db = (Inl e, db') \<Longrightarrow> migrating fresh ms name db\<^sub>0 at_place db'"

text \<open>
  However the replicas interleave and whatever fails, a schema always stands at some migration of the list, from which it never
  goes back, no migration is applied twice, and a replica that has come to the end leaves the whole list applied.
\<close>

theorem replicas_migrate_in_order:
  assumes "migrating fresh ms name db\<^sub>0 at_place db" "stands_at fresh ms k (schema_of fresh name db\<^sub>0)" "distinct (map mg_version ms)"
  shows "\<exists>j \<ge> k. stands_at fresh ms j (schema_of fresh name db) \<and> (\<forall>i. at_place i \<le> j) \<and>
    distinct (tn_applied (schema_of fresh name db)) \<and> (\<forall>n. n \<noteq> name \<longrightarrow> map_of db n = map_of db\<^sub>0 n)"
proof -
  have "\<exists>j \<ge> k. stands_at fresh ms j (schema_of fresh name db) \<and> (\<forall>i. at_place i \<le> j) \<and> (\<forall>n. n \<noteq> name \<longrightarrow> map_of db n = map_of db\<^sub>0 n)"
    using assms(1)
  proof (induction rule: migrating.induct)
    case migrating_start
    with assms(2) show ?case by auto
  next
    case (migrating_on at_place db i b db')
    then obtain j where j: "k \<le> j" "stands_at fresh ms j (schema_of fresh name db)" "\<forall>i. at_place i \<le> j"
      "\<forall>n. n \<noteq> name \<longrightarrow> map_of db n = map_of db\<^sub>0 n" by blast
    from one_migration[OF j(2) assms(3) _ migrating_on.hyps(2,3)] j(3)
    have s: "stands_at fresh ms (if b then Suc j else j) (schema_of fresh name db')" "b \<longleftrightarrow> at_place i = j"
      "\<forall>n. n \<noteq> name \<longrightarrow> map_of db' n = map_of db n" by auto
    have "Suc (at_place i) \<le> (if b then Suc j else j)" using s(2) j(3)[rule_format, of i] by auto
    with s j show ?case by (intro exI[of _ "if b then Suc j else j"]) (auto intro: le_SucI)
  next
    case (migrating_failed at_place db i e db')
    then obtain j where j: "k \<le> j" "stands_at fresh ms j (schema_of fresh name db)" "\<forall>i. at_place i \<le> j"
      "\<forall>n. n \<noteq> name \<longrightarrow> map_of db n = map_of db\<^sub>0 n" by blast
    from one_migration[OF j(2) assms(3) _ migrating_failed.hyps(2,3)] j(3) have "db' = db" by auto
    with j show ?case by blast
  qed
  moreover have "distinct (tn_applied s)" if "stands_at fresh ms j s" for j s
    using that assms(3) by (simp add: stands_at_def take_map[symmetric] distinct_take)
  ultimately show ?thesis by blast
qed

lemma replay_append: "replay (xs @ ys) d = (case replay xs d of Inl e \<Rightarrow> Inl e | Inr d' \<Rightarrow> replay ys d')"
  by (induction xs arbitrary: d) (auto split: sum.splits)

lemma next_runs:
  assumes "replay ms fresh = Inr d" "stands_at fresh ms k s" "k < length ms"
  shows "\<exists>d'. mg_run (ms ! k) (tn_tables s) = Inr d'"
proof -
  have "ms = take k ms @ ms ! k # drop (Suc k) ms" using assms(3) by (simp add: id_take_nth_drop)
  then have "replay (take k ms @ ms ! k # drop (Suc k) ms) fresh = Inr d" using assms(1) by simp
  with assms(2) show ?thesis by (simp add: replay_append stands_at_def split: sum.splits)
qed

lemma rest_is_applied:
  assumes "distinct (map mg_version ms)" "replay ms fresh = Inr d" "j \<le> k" "stands_at fresh ms k (schema_of fresh name db)"
  shows "\<exists>db'. migrate_all fresh (drop j ms) name db = (Inr (map mg_version (drop k ms)), db') \<and>
    stands_at fresh ms (length ms) (schema_of fresh name db') \<and> (\<forall>n. n \<noteq> name \<longrightarrow> map_of db' n = map_of db n)"
  using assms(3,4)
proof (induction "length ms - j" arbitrary: j k db)
  case 0
  then have "k = length ms" by (simp add: stands_at_def)
  with 0 show ?case by simp
next
  case (Suc n)
  then have j: "j < length ms" "drop j ms = ms ! j # drop (Suc j) ms" by (simp_all add: Cons_nth_drop_Suc)
  obtain r db1 where one: "migrate_one fresh (ms ! j) name db = (r, db1)" by fastforce
  from one_migration[OF Suc.prems(2) assms(1) Suc.prems(1) j(1) one] next_runs[OF assms(2) Suc.prems(2)] j(1)
  obtain b where b: "r = Inr b" "b \<longleftrightarrow> j = k" "stands_at fresh ms (if b then Suc k else k) (schema_of fresh name db1)"
    "\<forall>n. n \<noteq> name \<longrightarrow> map_of db1 n = map_of db n" by (cases r) auto
  have "Suc j \<le> (if b then Suc k else k)" using b(2) Suc.prems(1) by auto
  have "n = length ms - Suc j" using Suc.hyps(2) by simp
  from Suc.hyps(1)[OF this \<open>Suc j \<le> (if b then Suc k else k)\<close> b(3)] obtain db' where
    db': "migrate_all fresh (drop (Suc j) ms) name db1 = (Inr (map mg_version (drop (if b then Suc k else k) ms)), db')"
      "stands_at fresh ms (length ms) (schema_of fresh name db')" "\<forall>n. n \<noteq> name \<longrightarrow> map_of db' n = map_of db1 n" by blast
  have "(if b then mg_version (ms ! j) # map mg_version (drop (Suc k) ms) else map mg_version (drop k ms)) = map mg_version (drop k ms)"
    using b(2) j by auto
  with one b db' show ?case by (auto simp: j(2) split: if_splits)
qed

text \<open>
  Whatever migration a tenant stands at, a run that nothing fails in applies exactly the ones that are missing, and leaves the
  tables a new tenant would get.
\<close>

theorem tenants_end_identical:
  assumes "distinct (map mg_version ms)" "replay ms fresh = Inr d" "stands_at fresh ms k (schema_of fresh name db)" "VALID_SCHEMA name"
  shows "\<exists>db'. migrateTenantSchema fresh ms name db = (Inr (map mg_version (drop k ms)), db') \<and>
    schema_of fresh name db' = \<lparr>tn_applied = map mg_version ms, tn_tables = d\<rparr> \<and> (\<forall>n. n \<noteq> name \<longrightarrow> map_of db' n = map_of db n)"
proof -
  from rest_is_applied[OF assms(1,2) _ assms(3), of 0] obtain db' where
    db': "migrate_all fresh ms name db = (Inr (map mg_version (drop k ms)), db')" "stands_at fresh ms (length ms) (schema_of fresh name db')"
      "\<forall>n. n \<noteq> name \<longrightarrow> map_of db' n = map_of db n" by auto
  then have "schema_of fresh name db' = \<lparr>tn_applied = map mg_version ms, tn_tables = d\<rparr>"
    using assms(2) by (cases "schema_of fresh name db'") (simp add: stands_at_def)
  with db' assms(4) show ?thesis by (simp add: migrateTenantSchema_def)
qed

lemma each_is_accounted_for:
  assumes "distinct is" "migrate_each fresh ms is (r, behind, db) = (r', behind', db')"
  shows "\<exists>current failed. mr_upToDate r' = mr_upToDate r @ current \<and> mr_failed r' = mr_failed r @ failed \<and>
    set current \<union> fst ` set failed = set is \<and> set current \<inter> fst ` set failed = {} \<and>
    (\<forall>i. map_of behind' i = (if i \<in> set current then None else case map_of failed i of Some e \<Rightarrow> Some e | None \<Rightarrow> map_of behind i))"
  using assms
proof (induction "is" arbitrary: r behind db)
  case (Cons i "is")
  obtain out db1 where out: "migrateTenantSchema fresh ms (''tenant_'' @ i) db = (out, db1)" by fastforce
  show ?case
  proof (cases out)
    case (Inl e)
    with Cons.prems out have "migrate_each fresh ms is (r\<lparr>mr_failed := mr_failed r @ [(i, e)]\<rparr>, AList.update i e behind, db1) = (r', behind', db')" by simp
    from Cons.IH[OF _ this] Cons.prems(1) obtain current failed where w: "mr_upToDate r' = mr_upToDate r @ current"
      "mr_failed r' = mr_failed r @ (i, e) # failed" "set current \<union> fst ` set failed = set is" "set current \<inter> fst ` set failed = {}"
      "\<And>x. map_of behind' x = (if x \<in> set current then None else case map_of failed x of Some e \<Rightarrow> Some e | None \<Rightarrow> map_of (AList.update i e behind) x)"
      by auto
    from w(3) Cons.prems(1) have i: "i \<notin> set current" "map_of failed i = None" by (auto simp: map_of_eq_None_iff)
    with w show ?thesis by (intro exI[of _ current] exI[of _ "(i, e) # failed"]) (auto simp: update_conv' split: option.splits)
  next
    case (Inr vs)
    with Cons.prems out have "migrate_each fresh ms is (r\<lparr>mr_upToDate := mr_upToDate r @ [i]\<rparr>, AList.delete i behind, db1) = (r', behind', db')" by simp
    from Cons.IH[OF _ this] Cons.prems(1) obtain current failed where w: "mr_upToDate r' = mr_upToDate r @ i # current"
      "mr_failed r' = mr_failed r @ failed" "set current \<union> fst ` set failed = set is" "set current \<inter> fst ` set failed = {}"
      "\<And>x. map_of behind' x = (if x \<in> set current then None else case map_of failed x of Some e \<Rightarrow> Some e | None \<Rightarrow> map_of (AList.delete i behind) x)"
      by auto
    from w(3) Cons.prems(1) have i: "i \<notin> set current" "map_of failed i = None" "i \<notin> fst ` set failed" by (auto simp: map_of_eq_None_iff)
    with w show ?thesis by (intro exI[of _ "i # current"] exI[of _ failed]) (auto simp: delete_conv' split: option.splits)
  qed
qed simp

text \<open>
  When the server starts, every tenant with a schema is either up to date and served, or kept from being served with the
  message its migration failed with.
\<close>

theorem failed_tenants_are_not_served:
  assumes "distinct (map fst tenants)" "migrateAllTenants fresh ms tenants behind db = (r, behind', db')"
  shows "set (mr_upToDate r) \<union> fst ` set (mr_failed r) = set (provisioned tenants db) \<and>
    (\<forall>i \<in> set (provisioned tenants db). (isBehind i behind' \<longleftrightarrow> i \<in> fst ` set (mr_failed r)) \<and> (i \<in> set (mr_upToDate r) \<longleftrightarrow> \<not> isBehind i behind'))"
proof -
  have "distinct (provisioned tenants db)" using assms(1) by (simp add: provisioned_def distinct_map_filter)
  from each_is_accounted_for[OF this assms(2)[unfolded migrateAllTenants_def]] obtain current failed where
    w: "mr_upToDate r = current" "mr_failed r = failed" "set current \<union> fst ` set failed = set (provisioned tenants db)"
      "set current \<inter> fst ` set failed = {}"
      "\<And>i. map_of behind' i = (if i \<in> set current then None else case map_of failed i of Some e \<Rightarrow> Some e | None \<Rightarrow> map_of behind i)"
    by auto
  have "isBehind i behind' \<longleftrightarrow> i \<notin> set current" if "i \<in> set (provisioned tenants db)" for i
  proof (cases "i \<in> set current")
    case False
    with that w(3) have "map_of failed i \<noteq> None" by (auto simp: map_of_eq_None_iff)
    with False w(5)[of i] show ?thesis by (auto simp: isBehind_def)
  qed (simp add: isBehind_def w(5))
  with w(1-4) show ?thesis by blast
qed

section \<open>Credentials are read back\<close>

lemma lines_have_no_newline: "l \<in> set (split_on c s) \<Longrightarrow> c \<notin> set l"
  by (induction s arbitrary: l) (auto split: if_splits list.splits)

lemma file_lines_plain: "l \<in> set (file_lines content) \<Longrightarrow> newline \<notin> set l"
  by (auto simp: file_lines_def dest: lines_have_no_newline split: if_splits)

lemma split_join: "ls \<noteq> [] \<Longrightarrow> \<forall>l \<in> set ls. newline \<notin> set l \<Longrightarrow> split_on newline (join_lines ls) = ls"
  by (induction ls rule: join_lines.induct) (simp_all add: split_on_none split_on_append)

lemma lines_of_file: "ls \<noteq> [] \<Longrightarrow> \<forall>l \<in> set ls. newline \<notin> set l \<Longrightarrow> file_lines (join_lines ls @ [newline]) = ls"
  by (simp add: file_lines_def split_join)

lemma replaced_nonempty: "replace_first P y xs \<noteq> []"
  by (cases xs) auto

lemma set_replaced: "set (replace_first P y xs) \<subseteq> insert y (set xs)"
  by (induction xs) auto

lemma find_replaced: "P y \<Longrightarrow> List.find P (replace_first P y xs) = Some y"
  by (induction xs) auto

lemma others_stay: "P y \<Longrightarrow> filter (\<lambda>l. \<not> P l) (replace_first P y xs) = filter (\<lambda>l. \<not> P l) xs"
  by (induction xs) auto

text \<open>
  A variable that is set is read back from the file by its first assignment, and every line that does not assign it stays as it was, in
  its place among the others.
\<close>

theorem env_vars_are_read_back:
  assumes "upsertEnvVar content name val = Some after" "newline \<notin> set val"
  shows "List.find (assigns name) (file_lines after) = Some (env_line name val) \<and>
    filter (\<lambda>l. \<not> assigns name l) (file_lines after) = filter (\<lambda>l. \<not> assigns name l) (file_lines content)"
proof -
  let ?ls = "replace_first (assigns name) (env_line name val) (file_lines content)"
  have own: "assigns name (env_line name val)" by (simp add: assigns_def env_line_def)
  from assms(1) have valid: "isValidEnvVarName name" and after: "after = join_lines ?ls @ [newline]"
    by (auto simp: upsertEnvVar_def split: if_splits)
  have "\<not> id_char newline" by (simp add: id_char_def newline_def)
  with valid have "newline \<notin> set name" by (auto simp: isValidEnvVarName_def list_all_iff)
  then have "newline \<notin> set (env_line name val)" using assms(2) by (simp add: env_line_def newline_def)
  then have "\<forall>l \<in> set ?ls. newline \<notin> set l" using set_replaced[of "assigns name" "env_line name val" "file_lines content"] file_lines_plain by blast
  then have "file_lines after = ?ls" unfolding after by (rule lines_of_file[OF replaced_nonempty])
  then show ?thesis using find_replaced[of "assigns name", OF own] others_stay[of "assigns name", OF own] by simp
qed

end
