(* ===== verification/Spec2Isabelle.thy ===== *)
theory Spec2Isabelle
  imports Engine_Correctness Context_Correctness State_Store Derive_History Persistence Commit_Reload Bpmn_Parser
    Login_Throttle User_Admin Http_Correctness Background_Correctness Access_Correctness Sign_In Reload_Loops Event_Delivery Tenant_Workers App_Admin Erp_Messages Erp_Staff Js_Evaluator Console_State Db_Setup
begin

text \<open>
  A model of the workflow platform in this repository and of the ERP that runs on it.

  \<^bold>\<open>The parts of the program.\<close> \<open>nexus-workflow-core\<close> parses BPMN documents and executes process instances: one call
  of \<open>execute\<close> takes a definition, a command and a state and returns the new state with the events it caused.
  \<open>nexus-workflow-app\<close> is the server: a request loads an instance from the tenant's store, runs one command, commits the
  difference as one transaction, publishes the events; a task worker, timers and a webhook dispatcher do the same
  in the background, for every tenant; in front stand keys, sessions and the administration of people and tenants.
  \<open>nexus-erp\<close> is a client of that server: its routes start processes for expense reports, timesheets and
  changes of organizations, and follow the events.

  \<^bold>\<open>Conventions.\<close> A definition has the name of the function it models and follows its order of effects. An interface
  is a record, a union a datatype, a \<open>Map\<close> an association list in insertion order, a \<open>Date\<close> its milliseconds, a number of
  JavaScript an integer or (where a value of a process may be anything) a rational. A throw is the left of a sum; a function
  that may not return is a \<open>partial_function\<close> with an option as its result. Clocks, random values and generated ids are arguments
  or sequences; code outside the repository is a parameter (the parser of XML, \<open>scrypt\<close>, keyed hashes, the parser of
  URLs, the resolver, \<open>fetch\<close>, \<open>vm\<close>, \<open>bcrypt\<close>, zod, \<open>new Date\<close> on a text, the decimal notation of numbers). Where a function
  waits and others may run, it is cut there, and a sequence of steps is an interleaving.

  \<^bold>\<open>The engine.\<close>
  \<^item> \<open>Nexus_Prelude\<close> holds results, sequencing and maps; \<open>Js_Values\<close> and \<open>Text_Tools\<close> the operations of JavaScript on
    values and texts; \<open>Model_Types\<close> the data of \<open>model/types.ts\<close>, \<open>EventBus.ts\<close> and \<open>errors.ts\<close>.
  \<^item> \<open>Gateways\<close> (\<open>gateways/*.ts\<close>), \<open>Definition_Tree\<close> (the searches of a definition), \<open>Exec_Context\<close> (the class
    \<open>ExecutionContext\<close>), \<open>Engine_Handlers\<close> (the handlers of elements), \<open>Execution_Engine\<close> (the handlers of commands, \<open>runLoop\<close>
    and \<open>execute\<close>) are \<open>ExecutionEngine.ts\<close>, function by function. Joins share the locale \<open>flow_join\<close>. \<open>Js_Evaluator\<close> is
    the evaluator of conditions the app hands to the engine.
  \<^item> \<open>Token_Machine\<close> is the abstract specification: elementary steps on contexts, with what they keep, by rule
    induction. \<open>Engine_Refinement\<close> shows each handler to be a run of it, \<open>Engine_Invariants\<close> each command;
    \<open>Engine_Correctness\<close> and \<open>Context_Correctness\<close> state what follows for a caller. \<open>machine_relation\<close> is the locale
    of the relations all steps obey; its interpretations are the history of visits, the event log, the identity
    of the instance, the frozen tokens, and in \<open>Commit_Reload\<close> the order of maps, joins and anchors.
  \<^item> \<open>State_Store\<close> (\<open>StateStore.ts\<close>, \<open>InMemoryStateStore.ts\<close>), \<open>Postgres_Store\<close> (\<open>PostgresStateStore.ts\<close>) with the
    locales \<open>keyed_collection\<close>, \<open>deletable_collection\<close> and \<open>grouped_log\<close>; \<open>Postgres_Correctness\<close> shows that the second implements
    the first, \<open>Reload_Loops\<close> where it loses something.
  \<^item> \<open>Derive_History\<close> (\<open>deriveHistory.ts\<close>, \<open>historyOps.ts\<close>), \<open>Persistence\<close> (\<open>engineHelpers.ts\<close>) and
    \<open>Commit_Reload\<close>: load, execute, commit, load is the command.
  \<^item> \<open>Bpmn_Parser\<close> (\<open>BpmnXmlParser.ts\<close>): from the tree of the XML library to a definition.

  \<^bold>\<open>The server.\<close>
  \<^item> \<open>Http_Api\<close> has the routes of instances, tasks, events, administration and forced steps; \<open>Http_Correctness\<close> reduces each
    to the relation \<open>settles\<close> and draws the conclusions. \<open>Background_Actors\<close> is \<open>TaskWorker.ts\<close>, \<open>TimerCoordinator.ts\<close>
    and \<open>parseTimerExpression.ts\<close>, with \<open>Background_Correctness\<close>.
  \<^item> \<open>Tenant_Workers\<close> has both schedulers, the sets of workers with their manager, the cache of resources and the purge;
    \<open>Event_Delivery\<close> the bus, the hub, the logs and the webhooks; \<open>Url_Policy\<close> what a webhook may connect to.
  \<^item> \<open>Login_Throttle\<close>, \<open>Password_Hasher\<close>, \<open>User_Accounts\<close>, \<open>Audit_Log\<close>, \<open>User_Admin\<close>, \<open>Tenant_Keys\<close>, \<open>Api_Access\<close>,
    \<open>Platform_Api\<close>, \<open>Sign_In\<close> and \<open>App_Admin\<close> are who may do what: tables, rules, guards, routes and configuration;
    \<open>Access_Correctness\<close> is what they guarantee together. \<open>Db_Setup\<close> is how the database comes to its tables.
  \<^item> \<open>Console_Rules\<close> is what the console offers of all this to its user, compared with what the server accepts;
    \<open>Console_State\<close> is who is signed in there, its requests, its lists and its marks on diagrams.

  \<^bold>\<open>The ERP.\<close> \<open>Erp_Access\<close> (permissions and groups), \<open>Erp_Approvals\<close> (organizations, timesheets, expense reports),
  \<open>Erp_Tasks\<close> (tasks and what completing them changes), \<open>Erp_Messages\<close> and \<open>Erp_Staff\<close> (employees, the audit log, redirections).

  \<^bold>\<open>Termination.\<close> The loops the code cannot bound are \<open>runLoop\<close> and the climbs along scope chains (\<open>scope_chain\<close>,
  \<open>chain_from\<close>, \<open>pg_chain\<close>): these are partial, and a command that returns is a hypothesis of the form
  \<open>execute \<dots> = Some \<dots>\<close>; that resolving a scope returns on a forest and runs for ever on a cycle is proved. Every other loop
  is total: the retries of a commit and of a signal are bounded by their counters, a delivery by its maximum of attempts, and
  the purge by the instances it has not visited. No fuel is used.

  \<^bold>\<open>What is left out.\<close> What renders or only performs I/O: the pages of the console and of the ERP, the
  command lines' parsing of arguments, cookies' attributes and headers for caches. Two transactions of a database never overlap in
  the model; texts of error messages are left out where only their code matters. Rounding of floating point is not modelled.
\<close>

section \<open>From the document to the running instance\<close>

text \<open>
  Deployable is not runnable: a document whose sub-process is empty parses without an error, and
  starting it throws when the sub-process looks for its start event; a document without the optional
  \<open>outgoing\<close> children parses without an error, and starting it gives an active instance whose only
  token has ended, so nothing can ever move or complete it.
\<close>

theorem deployable_is_not_runnable:
  "parseBpmn (\<lambda>_. []) (\<lambda>_. Inr (document raw_hollow)) 0 ''<xml>'' = Inr (parsed_hollow, []) \<and>
   execute parsed_hollow (StartProcess None None None) None counting =
     Some (Inl (DefinitionError (ElementNotFound [] ''p''))) \<and>
   parseBpmn (\<lambda>_. []) (\<lambda>_. Inr (document raw_silent)) 0 ''<xml>'' = Inr (parsed_silent, []) \<and>
   (case execute parsed_silent (StartProcess None None None) None counting of
      Some (Inr (s, evs)) \<Rightarrow> pi_status (st_instance s) = ActiveI \<and>
        map (\<lambda>t. (tk_elementId t, tk_status t)) (st_tokens s) = [(''s'', Completed)]
    | _ \<Rightarrow> False)"
proof (intro conjI)
  show "execute parsed_hollow (StartProcess None None None) None counting =
      Some (Inl (DefinitionError (ElementNotFound [] ''p'')))"
    by (simp add: engine_eval parsed_hollow_def review_base_def plain_event_def sample_eval)
  show "case execute parsed_silent (StartProcess None None None) None counting of
      Some (Inr (s, evs)) \<Rightarrow> pi_status (st_instance s) = ActiveI \<and>
        map (\<lambda>t. (tk_elementId t, tk_status t)) (st_tokens s) = [(''s'', Completed)]
    | _ \<Rightarrow> False"
    by (simp add: engine_eval parsed_silent_def review_base_def plain_event_def sample_eval)
qed (rule hollow_document silent_document)+

end
